(* ===== verification/Prelude.thy ===== *)
theory Prelude
  imports Main "HOL-Library.Word"
begin

text \<open>
  Shared vocabulary of the development: machine integers of the compiled code (the host is LP64:
  \<open>int\<close> has 32 bits, \<open>size_t\<close>, \<open>unsigned long\<close> and \<open>uintptr_t\<close> have 64), C strings, the printing
  of unsigned numbers as \<open>printf\<close> does it, C's signed arithmetic with its undefined overflow, and the
  generic list lemmas that the component theories use.
\<close>

unbundle bit_operations_syntax

named_theorems c_defs "definitions of the model that proofs unfold together"

section \<open>Machine types\<close>

type_synonym u64 = "64 word"
type_synonym size_t = "64 word"

text \<open>A C string pointer: \<open>None\<close> is \<open>NULL\<close>, \<open>Some s\<close> points to the characters \<open>s\<close> before the NUL.\<close>

type_synonym cstr = "string option"

definition int_min :: int where
  "int_min = - (2 ^ 31)"

definition int_max :: int where
  "int_max = 2 ^ 31 - 1"

definition fits_int :: "int \<Rightarrow> bool" where
  "fits_int i \<longleftrightarrow> int_min \<le> i \<and> i \<le> int_max"

lemma fits_int_iff: "fits_int i \<longleftrightarrow> - 2147483648 \<le> i \<and> i \<le> 2147483647"
  by (simp add: fits_int_def int_min_def int_max_def)

definition fits_int64 :: "int \<Rightarrow> bool" where
  "fits_int64 i \<longleftrightarrow> - (2 ^ 63) \<le> i \<and> i < 2 ^ 63"

text \<open>
  The outcome of a C function that reports failure with a message and that may also run into
  behaviour the C standard leaves undefined (here: signed overflow).
\<close>

datatype ('e, 'a) outcome = Undefined | Fail 'e | Done 'a

text \<open>A computation that may be undefined or may use up its fuel (\<open>Fail\<close>).\<close>

type_synonym 'a evaluation = "(unit, 'a) outcome"

definition obind :: "'a evaluation \<Rightarrow> ('a \<Rightarrow> 'b evaluation) \<Rightarrow> 'b evaluation" where
  "obind m f = (case m of Undefined \<Rightarrow> Undefined | Fail e \<Rightarrow> Fail e | Done a \<Rightarrow> f a)"

lemma obind_simps [simp]: "obind Undefined f = Undefined" "obind (Fail e) f = Fail e" "obind (Done a) f = f a"
  by (simp_all add: obind_def)

lemma obind_Done: "obind m f = Done b \<longleftrightarrow> (\<exists>a. m = Done a \<and> f a = Done b)"
  by (cases m) auto

section \<open>Printing and reading decimal numbers\<close>

definition digit_char :: "nat \<Rightarrow> char" where
  "digit_char d = char_of (48 + d)"

definition is_digit :: "char \<Rightarrow> bool" where
  "is_digit c \<longleftrightarrow> 48 \<le> (of_char c :: nat) \<and> (of_char c :: nat) \<le> 57"

text \<open>\<open>isalpha\<close> in the C locale.\<close>

definition is_alpha :: "char \<Rightarrow> bool" where
  "is_alpha c \<longleftrightarrow> (65 \<le> (of_char c :: nat) \<and> (of_char c :: nat) \<le> 90) \<or> (97 \<le> (of_char c :: nat) \<and> (of_char c :: nat) \<le> 122)"

definition digit_val :: "char \<Rightarrow> nat" where
  "digit_val c = of_char c - 48"

text \<open>\<open>printf\<close>'s \<open>%zu\<close> and \<open>%d\<close> (the latter on non-negative arguments).\<close>

fun show_nat :: "nat \<Rightarrow> string" where
  "show_nat n = (if n < 10 then [digit_char n] else show_nat (n div 10) @ [digit_char (n mod 10)])"

declare show_nat.simps [simp del]

text \<open>The value a run of decimal digits denotes, read from the left onto an accumulator.\<close>

fun read_digits :: "nat \<Rightarrow> string \<Rightarrow> nat" where
  "read_digits acc [] = acc"
| "read_digits acc (c # cs) = read_digits (acc * 10 + digit_val c) cs"

lemma of_char_digit_char [simp]: "d < 10 \<Longrightarrow> (of_char (digit_char d) :: nat) = 48 + d"
  by (simp add: digit_char_def take_bit_eq_mod)

lemma is_digit_digit_char [simp]: "d < 10 \<Longrightarrow> is_digit (digit_char d)"
  by (simp add: is_digit_def)

lemma digit_val_digit_char [simp]: "d < 10 \<Longrightarrow> digit_val (digit_char d) = d"
  by (simp add: digit_val_def)

lemma read_digits_append: "read_digits acc (xs @ ys) = read_digits (read_digits acc xs) ys"
  by (induction xs arbitrary: acc) auto

lemma show_nat_digits: "\<forall>c \<in> set (show_nat n). is_digit c"
proof (induction n rule: show_nat.induct)
  case (1 n)
  then show ?case by (subst show_nat.simps) auto
qed

lemma show_nat_nonempty [simp]: "show_nat n \<noteq> []"
  by (subst show_nat.simps) simp

lemma read_show_nat: "read_digits 0 (show_nat n) = n"
proof (induction n rule: show_nat.induct)
  case (1 n)
  then show ?case by (subst show_nat.simps) (auto simp: read_digits_append)
qed

lemma show_nat_inject: "show_nat a = show_nat b \<Longrightarrow> a = b"
  by (metis read_show_nat)

section \<open>Lists\<close>

text \<open>The first element a scan accepts, and what follows from there being one or none.\<close>

text \<open>A property of a chain of conditionals, one branch at a time.\<close>

lemma if_intro: "(C \<Longrightarrow> P a) \<Longrightarrow> (\<not> C \<Longrightarrow> P b) \<Longrightarrow> P (if C then a else b)"
  by simp

lemma find_SomeD: "List.find P xs = Some x \<Longrightarrow> x \<in> set xs \<and> P x"
  by (auto simp: find_Some_iff)

lemma find_NoneD: "List.find P xs = None \<Longrightarrow> x \<in> set xs \<Longrightarrow> \<not> P x"
  by (auto simp: find_None_iff)

lemma option_eqI: "(\<And>v. a = Some v \<longleftrightarrow> b = Some v) \<Longrightarrow> a = b"
  by (cases a; cases b) auto

section \<open>Tables scanned from the front\<close>

text \<open>
  Many tables of the compiler are arrays of entries searched in order for the first entry that
  carries a key. When no two entries share a key, the search finds the entry the key belongs to.
\<close>

locale keyed_table =
  fixes entries :: "'e list"
    and keys :: "'e \<Rightarrow> 'k set"
  assumes separate: "sorted_wrt (\<lambda>a b. keys a \<inter> keys b = {}) entries"
begin

lemma first_with_key:
  assumes "e \<in> set entries" "k \<in> keys e"
  shows "List.find (\<lambda>e. k \<in> keys e) entries = Some e"
proof -
  have "List.find (\<lambda>e. k \<in> keys e) es = Some e"
    if "sorted_wrt (\<lambda>a b. keys a \<inter> keys b = {}) es" "e \<in> set es" for es
    using that assms(2) by (induction es) auto
  then show ?thesis using separate assms(1) by blast
qed

lemma find_key_iff:
  "List.find (\<lambda>e. k \<in> keys e) entries = Some e \<longleftrightarrow> e \<in> set entries \<and> k \<in> keys e"
  using first_with_key find_SomeD by (metis (no_types, lifting))

lemma one_owner: "e \<in> set entries \<Longrightarrow> e' \<in> set entries \<Longrightarrow> k \<in> keys e \<Longrightarrow> k \<in> keys e' \<Longrightarrow> e = e'"
  using first_with_key by (metis option.inject)

end

text \<open>A criterion that evaluates: the concatenated key lists hold no key twice.\<close>

lemma separate_if_distinct:
  assumes "distinct (concat (map key_list es))" "\<And>e. e \<in> set es \<Longrightarrow> keys e = set (key_list e)"
  shows "sorted_wrt (\<lambda>a b. keys a \<inter> keys b = {}) es"
  using assms by (induction es) auto

section \<open>Dictionaries\<close>

text \<open>
  The contract of the compiler's tables that are written and read by key: after a write the key has
  the value written and every other key the value it had. What a client relies on is the value after
  any sequence of writes.
\<close>

locale dictionary =
  fixes inv :: "'s \<Rightarrow> bool"
    and lookup :: "'s \<Rightarrow> 'k \<Rightarrow> 'v option"
    and put :: "'k \<Rightarrow> 'v \<Rightarrow> 's \<Rightarrow> 's"
  assumes inv_put: "inv s \<Longrightarrow> inv (put k v s)"
    and lookup_put: "inv s \<Longrightarrow> lookup (put k v s) j = (if j = k then Some v else lookup s j)"
begin

definition puts :: "('k \<times> 'v) list \<Rightarrow> 's \<Rightarrow> 's" where
  "puts kvs s = fold (\<lambda>(k, v). put k v) kvs s"

lemma inv_puts: "inv s \<Longrightarrow> inv (puts kvs s)"
  unfolding puts_def by (induction kvs arbitrary: s) (auto simp: inv_put)

lemma lookup_puts:
  "inv s \<Longrightarrow> lookup (puts kvs s) k = (case map_of (rev kvs) k of Some v \<Rightarrow> Some v | None \<Rightarrow> lookup s k)"
  unfolding puts_def
  by (induction kvs arbitrary: s) (auto simp: inv_put lookup_put map_add_def split: option.splits)

lemma put_puts_other: "inv s \<Longrightarrow> k \<notin> fst ` set kvs \<Longrightarrow> lookup (puts kvs s) k = lookup s k"
  by (simp add: lookup_puts map_of_eq_None_iff [THEN iffD2])

end

text \<open>A dictionary from which keys can be removed, run on a sequence of writes and removals.\<close>

datatype ('k, 'v) dict_op = Put 'k 'v | Del 'k

fun dict_step :: "('k, 'v) dict_op \<Rightarrow> ('k \<Rightarrow> 'v option) \<Rightarrow> 'k \<Rightarrow> 'v option" where
  "dict_step (Put k v) m = m(k := Some v)"
| "dict_step (Del k) m = m(k := None)"

definition dict_spec :: "('k, 'v) dict_op list \<Rightarrow> ('k \<Rightarrow> 'v option) \<Rightarrow> 'k \<Rightarrow> 'v option" where
  "dict_spec ops m = fold dict_step ops m"

locale erasable_dictionary = dictionary inv lookup put
  for inv :: "'s \<Rightarrow> bool" and lookup :: "'s \<Rightarrow> 'k \<Rightarrow> 'v option" and put :: "'k \<Rightarrow> 'v \<Rightarrow> 's \<Rightarrow> 's" +
  fixes del :: "'k \<Rightarrow> 's \<Rightarrow> 's"
  assumes inv_del: "inv s \<Longrightarrow> inv (del k s)"
    and lookup_del: "inv s \<Longrightarrow> lookup (del k s) j = (if j = k then None else lookup s j)"
begin

definition op_step :: "('k, 'v) dict_op \<Rightarrow> 's \<Rightarrow> 's" where
  "op_step op s = (case op of Put k v \<Rightarrow> put k v s | Del k \<Rightarrow> del k s)"

lemma step_refines: "inv s \<Longrightarrow> inv (op_step op s) \<and> lookup (op_step op s) = dict_step op (lookup s)"
  by (cases op) (auto simp: op_step_def inv_put inv_del lookup_put lookup_del fun_eq_iff)

lemma run_refines:
  "inv s \<Longrightarrow> inv (fold op_step ops s) \<and> lookup (fold op_step ops s) = dict_spec ops (lookup s)"
  by (induction ops arbitrary: s) (simp_all add: dict_spec_def step_refines)

end

section \<open>Updating lists whose elements have distinct keys\<close>

lemma set_update_keyed:
  assumes "distinct (map f xs)" "i < length xs"
  shows "set (xs[i := y]) = insert y {x \<in> set xs. f x \<noteq> f (xs ! i)}"
proof -
  have "distinct xs" using assms(1) by (simp add: distinct_map)
  moreover have "x = xs ! i" if "x \<in> set xs" "f x = f (xs ! i)" for x
    using assms that nth_mem [OF assms(2)] inj_onD [of f "set xs" x "xs ! i"] by (simp add: distinct_map)
  ultimately show ?thesis using set_update_distinct [of xs i y] assms(2) by auto
qed

text \<open>Removing an element by moving the last one into its place.\<close>

definition swap_remove :: "nat \<Rightarrow> 'a list \<Rightarrow> 'a list" where
  "swap_remove i xs =
    (let n = length xs - 1 in take n (if i \<noteq> n then xs[i := xs ! n] else xs))"

lemma swap_remove_snoc:
  "i \<le> length ys \<Longrightarrow> swap_remove i (ys @ [z]) = (if i = length ys then ys else ys[i := z])"
  by (simp add: swap_remove_def list_update_append)

lemma swap_remove_keyed:
  assumes "distinct (map f xs)" "i < length xs"
  shows "set (swap_remove i xs) = {x \<in> set xs. f x \<noteq> f (xs ! i)}" and "distinct (map f (swap_remove i xs))"
proof -
  obtain ys z where xs: "xs = ys @ [z]" using assms(2) by (cases xs rule: rev_cases) auto
  have d: "distinct (map f ys)" "f z \<notin> f ` set ys" using assms(1) xs by auto
  show "set (swap_remove i xs) = {x \<in> set xs. f x \<noteq> f (xs ! i)}"
  proof (cases "i = length ys")
    case True
    then show ?thesis using d xs by (auto simp: swap_remove_snoc) (metis image_eqI)
  next
    case False
    then have i: "i < length ys" using assms(2) xs by simp
    then have "f z \<noteq> f (ys ! i)" using d(2) by (metis image_eqI nth_mem)
    then show ?thesis
      using i xs False set_update_keyed [OF d(1) i, of z] by (auto simp: swap_remove_snoc nth_append)
  qed
  show "distinct (map f (swap_remove i xs))"
    using d xs assms(2) by (auto simp: swap_remove_snoc map_update intro: distinct_list_update)
qed

section \<open>Values of syntax trees\<close>

text \<open>
  An attribute as written in the source, \<open>src/src/AST/ast_attribute.h\<close>, and the prefix a string or character literal
  carries in the tree, \<open>src/src/AST/ast_node.h\<close>.
\<close>

datatype ASTAttributeSyntax = SYNTAX_GNU | SYNTAX_CXX | SYNTAX_DECLSPEC

record ASTAttribute =
  at_syntax :: ASTAttributeSyntax
  at_payload :: cstr

datatype LiteralEncoding = LIT_ENC_NARROW | LIT_ENC_WIDE | LIT_ENC_UTF8

definition ast_literal_encoding :: "cstr \<Rightarrow> LiteralEncoding \<times> cstr" where
  "ast_literal_encoding v =
    (case v of
       None \<Rightarrow> (LIT_ENC_NARROW, None)
     | Some s \<Rightarrow>
         if take 2 s = ''N|'' then (LIT_ENC_NARROW, Some (drop 2 s))
         else if take 2 s = ''W|'' then (LIT_ENC_WIDE, Some (drop 2 s))
         else if take 3 s = ''U8|'' then (LIT_ENC_UTF8, Some (drop 3 s))
         else (LIT_ENC_NARROW, Some s))"

end
