(* ===== verification/Memcheck.thy ===== *)
theory Memcheck
  imports Prelude
begin

text \<open>
  The memory checker's runtime, \<open>src/runtime/memory_check/fisics_memcheck_runtime.c\<close>: the table of
  tracked blocks (open addressing with linear probing, freed blocks stay as tombstones), the
  counters, the wrappers around \<open>malloc\<close>, \<open>calloc\<close>, \<open>realloc\<close> and \<open>free\<close>, and the report. The global
  variables are the fields of one record; what the wrappers print to the error stream is a list of
  messages and the JSON report is the text written. Answers of the C library (the pointer an
  allocation returns, \<open>getenv\<close>, \<open>atexit\<close>, \<open>fopen\<close>, \<open>fclose\<close>) are arguments.
\<close>

section \<open>State\<close>

definition FISICS_MEMCHECK_CAPACITY :: nat where
  "FISICS_MEMCHECK_CAPACITY = 262144"

datatype FisicsMemcheckSlotState = SLOT_EMPTY | SLOT_ACTIVE | SLOT_FREED

record FisicsMemcheckSlot =
  ptr :: u64
  slot_size :: size_t
  alloc_file :: cstr
  alloc_line :: int
  slot_state :: FisicsMemcheckSlotState

datatype FisicsMemcheckReportPolicy =
  REPORT_ALWAYS | REPORT_ERRORS | REPORT_LEAKS | REPORT_NEVER

text \<open>What is printed to the error stream, one constructor per format string.\<close>

datatype memcheck_message =
    TrackerFailureAtexit
  | TrackerFailureTableFull
  | UnknownPointerRealloc
  | ReallocAfterFree
  | UnknownPointerFree
  | DoubleFree
  | FreeSite string int
  | Summary size_t size_t size_t size_t size_t size_t size_t
  | LeakAt size_t string int
  | LeakUnknown size_t
  | JsonOpenFailed string
  | JsonCloseFailed string

record memcheck =
  g_slots :: "nat \<Rightarrow> FisicsMemcheckSlot"
  g_active_count :: size_t
  g_total_allocs :: size_t
  g_total_frees :: size_t
  g_double_frees :: size_t
  g_unknown_frees :: size_t
  g_tracker_failures :: size_t
  g_generation :: u64
  g_last_report_generation :: u64
  g_atexit_registered :: bool
  g_policy_initialized :: bool
  g_report_policy :: FisicsMemcheckReportPolicy
  err_log :: "memcheck_message list"
  json_file :: "string option"

text \<open>Answers of the C library that do not depend on the checker's state.\<close>

record c_env =
  env_getenv :: "string \<Rightarrow> cstr"
  env_atexit_ok :: bool
  env_fopen_ok :: bool
  env_fclose_ok :: bool

definition empty_slot :: FisicsMemcheckSlot where
  "empty_slot = \<lparr>ptr = 0, slot_size = 0, alloc_file = None, alloc_line = 0, slot_state = SLOT_EMPTY\<rparr>"

text \<open>The static initialisers.\<close>

definition initial_memcheck :: memcheck where
  "initial_memcheck =
    \<lparr>g_slots = (\<lambda>_. empty_slot), g_active_count = 0, g_total_allocs = 0, g_total_frees = 0,
     g_double_frees = 0, g_unknown_frees = 0, g_tracker_failures = 0, g_generation = 0,
     g_last_report_generation = 0, g_atexit_registered = False, g_policy_initialized = False,
     g_report_policy = REPORT_ALWAYS, err_log = [], json_file = None\<rparr>"

definition print_err :: "memcheck_message \<Rightarrow> memcheck \<Rightarrow> memcheck" where
  "print_err msg st = st\<lparr>err_log := err_log st @ [msg]\<rparr>"

section \<open>Helpers\<close>

definition ptr_hash :: "u64 \<Rightarrow> size_t" where
  "ptr_hash p =
    (let v1 = p XOR drop_bit 33 p;
         v2 = v1 * 0xff51afd7ed558ccd
     in v2 XOR drop_bit 33 v2)"

definition memcheck_streq :: "cstr \<Rightarrow> cstr \<Rightarrow> bool" where
  "memcheck_streq lhs rhs =
    (case lhs of None \<Rightarrow> False | Some a \<Rightarrow> (case rhs of None \<Rightarrow> False | Some b \<Rightarrow> a = b))"

fun base_name_from :: "string \<Rightarrow> string \<Rightarrow> string" where
  "base_name_from base [] = base"
| "base_name_from base (c # cs) =
    (if c = CHR ''/'' \<or> c = CHR 0x5C then base_name_from cs cs else base_name_from base cs)"

definition display_file_name :: "cstr \<Rightarrow> string" where
  "display_file_name file =
    (case file of None \<Rightarrow> ''<unknown>''
     | Some f \<Rightarrow> if f = [] then ''<unknown>'' else base_name_from f f)"

definition parse_report_policy :: "cstr \<Rightarrow> FisicsMemcheckReportPolicy" where
  "parse_report_policy raw =
    (if raw = None \<or> raw = Some [] \<or> memcheck_streq raw (Some ''always'') \<or>
        memcheck_streq raw (Some ''auto'') \<or> memcheck_streq raw (Some ''1'') then REPORT_ALWAYS
     else if memcheck_streq raw (Some ''errors'') \<or> memcheck_streq raw (Some ''error'') then REPORT_ERRORS
     else if memcheck_streq raw (Some ''leaks'') \<or> memcheck_streq raw (Some ''leak'') then REPORT_LEAKS
     else if memcheck_streq raw (Some ''never'') \<or> memcheck_streq raw (Some ''manual'') \<or>
             memcheck_streq raw (Some ''0'') \<or> memcheck_streq raw (Some ''off'') then REPORT_NEVER
     else REPORT_ALWAYS)"

definition init_report_policy :: "c_env \<Rightarrow> memcheck \<Rightarrow> memcheck" where
  "init_report_policy env st =
    (if g_policy_initialized st then st
     else st\<lparr>g_policy_initialized := True,
             g_report_policy := parse_report_policy (env_getenv env ''FISICS_MEMCHECK_REPORT'')\<rparr>)"

definition ensure_atexit_registered :: "c_env \<Rightarrow> memcheck \<Rightarrow> memcheck" where
  "ensure_atexit_registered env st0 =
    (let st = init_report_policy env st0 in
     if g_atexit_registered st \<or> g_report_policy st = REPORT_NEVER then st
     else if env_atexit_ok env then st\<lparr>g_atexit_registered := True\<rparr>
     else print_err TrackerFailureAtexit
            (st\<lparr>g_tracker_failures := g_tracker_failures st + 1, g_generation := g_generation st + 1\<rparr>))"

section \<open>The slot table\<close>

text \<open>The index the probe number \<open>i\<close> of a pointer looks at.\<close>

definition probe :: "u64 \<Rightarrow> nat \<Rightarrow> nat" where
  "probe p i = (unat (ptr_hash p) mod FISICS_MEMCHECK_CAPACITY + i) mod FISICS_MEMCHECK_CAPACITY"

function find_slot_loop :: "(nat \<Rightarrow> FisicsMemcheckSlot) \<Rightarrow> u64 \<Rightarrow> nat \<Rightarrow> nat option" where
  "find_slot_loop slots p i =
    (if i < FISICS_MEMCHECK_CAPACITY then
       (let j = probe p i in
        if slot_state (slots j) = SLOT_EMPTY then None
        else if ptr (slots j) = p then Some j
        else find_slot_loop slots p (Suc i))
     else None)"
  by pat_completeness auto
termination
  by (relation "measure (\<lambda>(slots, p, i). FISICS_MEMCHECK_CAPACITY - i)") auto

declare find_slot_loop.simps [simp del]

text \<open>The table index of a pointer's slot; \<open>None\<close> is \<open>NULL\<close>.\<close>

definition find_slot :: "(nat \<Rightarrow> FisicsMemcheckSlot) \<Rightarrow> u64 \<Rightarrow> nat option" where
  "find_slot slots p = (if p = 0 then None else find_slot_loop slots p 0)"

function find_insert_slot_loop ::
    "(nat \<Rightarrow> FisicsMemcheckSlot) \<Rightarrow> u64 \<Rightarrow> nat option \<Rightarrow> nat \<Rightarrow> nat option" where
  "find_insert_slot_loop slots p first_freed i =
    (if i < FISICS_MEMCHECK_CAPACITY then
       (let j = probe p i in
        if ptr (slots j) = p then Some j
        else
          (let first_freed' =
                 (if slot_state (slots j) = SLOT_FREED \<and> first_freed = None then Some j else first_freed)
           in if slot_state (slots j) = SLOT_EMPTY then Some j
              else find_insert_slot_loop slots p first_freed' (Suc i)))
     else first_freed)"
  by pat_completeness auto
termination
  by (relation "measure (\<lambda>(slots, p, ff, i). FISICS_MEMCHECK_CAPACITY - i)") auto

declare find_insert_slot_loop.simps [simp del]

definition find_insert_slot :: "(nat \<Rightarrow> FisicsMemcheckSlot) \<Rightarrow> u64 \<Rightarrow> nat option" where
  "find_insert_slot slots p = (if p = 0 then None else find_insert_slot_loop slots p None 0)"

definition track_allocation :: "u64 \<Rightarrow> size_t \<Rightarrow> cstr \<Rightarrow> int \<Rightarrow> memcheck \<Rightarrow> memcheck" where
  "track_allocation p sz file line st =
    (if p = 0 then st
     else case find_insert_slot (g_slots st) p of
       None \<Rightarrow> print_err TrackerFailureTableFull
                 (st\<lparr>g_tracker_failures := g_tracker_failures st + 1, g_generation := g_generation st + 1\<rparr>)
     | Some j \<Rightarrow>
         st\<lparr>g_active_count :=
              (if slot_state (g_slots st j) \<noteq> SLOT_ACTIVE then g_active_count st + 1 else g_active_count st),
            g_slots := (g_slots st)(j :=
              \<lparr>ptr = p, slot_size = sz, alloc_file = file, alloc_line = line, slot_state = SLOT_ACTIVE\<rparr>),
            g_total_allocs := g_total_allocs st + 1,
            g_generation := g_generation st + 1\<rparr>)"

definition mark_released :: "nat option \<Rightarrow> memcheck \<Rightarrow> memcheck" where
  "mark_released slot st =
    (case slot of None \<Rightarrow> st
     | Some j \<Rightarrow>
       if slot_state (g_slots st j) \<noteq> SLOT_ACTIVE then st
       else st\<lparr>g_slots := (g_slots st)(j := (g_slots st j)\<lparr>slot_state := SLOT_FREED, slot_size := 0,
                                            alloc_file := None, alloc_line := 0\<rparr>),
               g_active_count := (if g_active_count st > 0 then g_active_count st - 1 else g_active_count st),
               g_total_frees := g_total_frees st + 1,
               g_generation := g_generation st + 1\<rparr>)"


section \<open>The allocation wrappers\<close>

text \<open>
  Each wrapper takes what the C allocator answers if it is called: the pointer returned (0 is
  \<open>NULL\<close>). \<open>realloc_site\<close> and \<open>free_site\<close> also return the pointer they hand to the C library's
  \<open>realloc\<close> or \<open>free\<close>, if they call it at all.
\<close>

definition fisics_memcheck_malloc_site ::
    "c_env \<Rightarrow> u64 \<Rightarrow> size_t \<Rightarrow> cstr \<Rightarrow> int \<Rightarrow> memcheck \<Rightarrow> memcheck \<times> u64" where
  "fisics_memcheck_malloc_site env answer sz file line st0 =
    (let st = ensure_atexit_registered env st0
     in (if answer \<noteq> 0 then track_allocation answer sz file line st else st, answer))"

definition fisics_memcheck_calloc_site ::
    "c_env \<Rightarrow> u64 \<Rightarrow> size_t \<Rightarrow> size_t \<Rightarrow> cstr \<Rightarrow> int \<Rightarrow> memcheck \<Rightarrow> memcheck \<times> u64" where
  "fisics_memcheck_calloc_site env answer count sz file line st0 =
    (let st = ensure_atexit_registered env st0
     in (if answer \<noteq> 0 then track_allocation answer (count * sz) file line st else st, answer))"

definition fisics_memcheck_realloc_site ::
    "c_env \<Rightarrow> u64 \<Rightarrow> u64 \<Rightarrow> size_t \<Rightarrow> cstr \<Rightarrow> int \<Rightarrow> memcheck \<Rightarrow> memcheck \<times> u64 \<times> u64 option" where
  "fisics_memcheck_realloc_site env answer p sz file line st0 =
    (let st = ensure_atexit_registered env st0 in
     if p = 0 then
       (if answer \<noteq> 0 then track_allocation answer sz file line st else st, answer, Some 0)
     else
       case find_slot (g_slots st) p of
         None \<Rightarrow>
           (print_err UnknownPointerRealloc
              (st\<lparr>g_unknown_frees := g_unknown_frees st + 1, g_generation := g_generation st + 1\<rparr>), 0, None)
       | Some j \<Rightarrow>
           if slot_state (g_slots st j) = SLOT_EMPTY then
             (print_err UnknownPointerRealloc
                (st\<lparr>g_unknown_frees := g_unknown_frees st + 1, g_generation := g_generation st + 1\<rparr>), 0, None)
           else if slot_state (g_slots st j) = SLOT_FREED then
             (print_err ReallocAfterFree
                (st\<lparr>g_double_frees := g_double_frees st + 1, g_generation := g_generation st + 1\<rparr>), 0, None)
           else if answer = 0 then (st, 0, Some p)
           else (track_allocation answer sz file line (mark_released (Some j) st), answer, Some p))"

definition print_free_site :: "cstr \<Rightarrow> int \<Rightarrow> memcheck \<Rightarrow> memcheck" where
  "print_free_site file line st =
    (if file \<noteq> None \<and> line > 0 then print_err (FreeSite (display_file_name file) line) st else st)"

definition fisics_memcheck_free_site ::
    "c_env \<Rightarrow> u64 \<Rightarrow> cstr \<Rightarrow> int \<Rightarrow> memcheck \<Rightarrow> memcheck \<times> u64 option" where
  "fisics_memcheck_free_site env p file line st0 =
    (let st = ensure_atexit_registered env st0 in
     if p = 0 then (st, None)
     else
       case find_slot (g_slots st) p of
         None \<Rightarrow>
           (print_free_site file line (print_err UnknownPointerFree
              (st\<lparr>g_unknown_frees := g_unknown_frees st + 1, g_generation := g_generation st + 1\<rparr>)), None)
       | Some j \<Rightarrow>
           if slot_state (g_slots st j) = SLOT_EMPTY then
             (print_free_site file line (print_err UnknownPointerFree
                (st\<lparr>g_unknown_frees := g_unknown_frees st + 1, g_generation := g_generation st + 1\<rparr>)), None)
           else if slot_state (g_slots st j) = SLOT_FREED then
             (print_free_site file line (print_err DoubleFree
                (st\<lparr>g_double_frees := g_double_frees st + 1, g_generation := g_generation st + 1\<rparr>)), None)
           else (mark_released (Some j) st, Some p))"

definition fisics_memcheck_malloc :: "c_env \<Rightarrow> u64 \<Rightarrow> size_t \<Rightarrow> memcheck \<Rightarrow> memcheck \<times> u64" where
  "fisics_memcheck_malloc env answer sz st = fisics_memcheck_malloc_site env answer sz None 0 st"

definition fisics_memcheck_calloc ::
    "c_env \<Rightarrow> u64 \<Rightarrow> size_t \<Rightarrow> size_t \<Rightarrow> memcheck \<Rightarrow> memcheck \<times> u64" where
  "fisics_memcheck_calloc env answer count sz st =
    fisics_memcheck_calloc_site env answer count sz None 0 st"

definition fisics_memcheck_realloc ::
    "c_env \<Rightarrow> u64 \<Rightarrow> u64 \<Rightarrow> size_t \<Rightarrow> memcheck \<Rightarrow> memcheck \<times> u64 \<times> u64 option" where
  "fisics_memcheck_realloc env answer p sz st = fisics_memcheck_realloc_site env answer p sz None 0 st"

definition fisics_memcheck_free :: "c_env \<Rightarrow> u64 \<Rightarrow> memcheck \<Rightarrow> memcheck \<times> u64 option" where
  "fisics_memcheck_free env p st = fisics_memcheck_free_site env p None 0 st"

section \<open>The report\<close>

definition slot_list :: "memcheck \<Rightarrow> FisicsMemcheckSlot list" where
  "slot_list st = map (g_slots st) [0..<FISICS_MEMCHECK_CAPACITY]"

fun leaked_bytes_of :: "FisicsMemcheckSlot list \<Rightarrow> size_t \<Rightarrow> size_t" where
  "leaked_bytes_of [] leaked = leaked"
| "leaked_bytes_of (s # ss) leaked =
    leaked_bytes_of ss (if slot_state s = SLOT_ACTIVE then leaked + slot_size s else leaked)"

definition compute_leaked_bytes :: "memcheck \<Rightarrow> size_t" where
  "compute_leaked_bytes st = leaked_bytes_of (slot_list st) 0"

definition leak_message :: "FisicsMemcheckSlot \<Rightarrow> memcheck_message" where
  "leak_message s =
    (if alloc_file s \<noteq> None \<and> alloc_line s > 0
     then LeakAt (slot_size s) (display_file_name (alloc_file s)) (alloc_line s)
     else LeakUnknown (slot_size s))"

fun leak_sites_of :: "FisicsMemcheckSlot list \<Rightarrow> memcheck \<Rightarrow> memcheck" where
  "leak_sites_of [] st = st"
| "leak_sites_of (s # ss) st =
    leak_sites_of ss (if slot_state s \<noteq> SLOT_ACTIVE then st else print_err (leak_message s) st)"

definition emit_leak_sites :: "memcheck \<Rightarrow> memcheck" where
  "emit_leak_sites st = leak_sites_of (slot_list st) st"

definition hex_digit :: "nat \<Rightarrow> char" where
  "hex_digit d = (if d < 10 then char_of (48 + d) else char_of (87 + d))"

text \<open>One character of a JSON string; \<open>CHR 0x5C\<close> is the backslash, \<open>CHR 0x22\<close> the double quote.\<close>

definition json_escape_char :: "char \<Rightarrow> string" where
  "json_escape_char c =
    (if c = CHR 0x22 then [CHR 0x5C, CHR 0x22]
     else if c = CHR 0x5C then [CHR 0x5C, CHR 0x5C]
     else if c = CHR 0x08 then [CHR 0x5C, CHR ''b'']
     else if c = CHR 0x0C then [CHR 0x5C, CHR ''f'']
     else if c = CHR 0x0A then [CHR 0x5C, CHR ''n'']
     else if c = CHR 0x0D then [CHR 0x5C, CHR ''r'']
     else if c = CHR 0x09 then [CHR 0x5C, CHR ''t'']
     else if (of_char c :: nat) < 0x20 then
       [CHR 0x5C, CHR ''u'', CHR ''0'', CHR ''0'', hex_digit (of_char c div 16), hex_digit (of_char c mod 16)]
     else [c])"

definition emit_json_string :: "cstr \<Rightarrow> string" where
  "emit_json_string value =
    CHR 0x22 # (case value of None \<Rightarrow> [] | Some s \<Rightarrow> concat (map json_escape_char s)) @ [CHR 0x22]"

definition json_key :: "string \<Rightarrow> string" where
  "json_key k = CHR 0x22 # k @ [CHR 0x22, CHR '':'', CHR '' '']"

definition json_num :: "size_t \<Rightarrow> string" where
  "json_num n = show_nat (unat n)"

definition json_leak :: "FisicsMemcheckSlot \<Rightarrow> string" where
  "json_leak s =
    ''    {'' @ json_key ''size'' @ json_num (slot_size s) @ '', '' @ json_key ''allocated_at'' @ ''{'' @
    json_key ''file'' @
    (if alloc_file s \<noteq> None \<and> alloc_file s \<noteq> Some []
     then emit_json_string (Some (display_file_name (alloc_file s))) else ''null'') @
    '', '' @ json_key ''line'' @
    (if alloc_line s > 0 then show_nat (nat (alloc_line s)) else ''null'') @ ''}}''"

fun json_leaks_of :: "FisicsMemcheckSlot list \<Rightarrow> bool \<Rightarrow> string" where
  "json_leaks_of [] first = []"
| "json_leaks_of (s # ss) first =
    (if slot_state s \<noteq> SLOT_ACTIVE then json_leaks_of ss first
     else (if \<not> first then [CHR '','', CHR 0x0A] else []) @ json_leak s @ json_leaks_of ss False)"

definition json_line :: "string \<Rightarrow> string" where
  "json_line s = s @ [CHR 0x0A]"

definition json_report_text :: "string \<Rightarrow> size_t \<Rightarrow> memcheck \<Rightarrow> string" where
  "json_report_text trigger leaked_bytes st =
    json_line ''{'' @
    json_line (''  '' @ json_key ''profile'' @ emit_json_string (Some ''memory_check_report_v1'') @ '','') @
    json_line (''  '' @ json_key ''schema_version'' @ ''1,'') @
    json_line (''  '' @ json_key ''runtime'' @ emit_json_string (Some ''fisics_memory_check'') @ '','') @
    json_line (''  '' @ json_key ''trigger'' @ emit_json_string (Some trigger) @ '','') @
    json_line (''  '' @ json_key ''summary'' @ ''{'') @
    json_line (''    '' @ json_key ''active'' @ json_num (g_active_count st) @ '','') @
    json_line (''    '' @ json_key ''leaked_bytes'' @ json_num leaked_bytes @ '','') @
    json_line (''    '' @ json_key ''allocs'' @ json_num (g_total_allocs st) @ '','') @
    json_line (''    '' @ json_key ''frees'' @ json_num (g_total_frees st) @ '','') @
    json_line (''    '' @ json_key ''double_free'' @ json_num (g_double_frees st) @ '','') @
    json_line (''    '' @ json_key ''unknown_free'' @ json_num (g_unknown_frees st) @ '','') @
    json_line (''    '' @ json_key ''tracker_failures'' @ json_num (g_tracker_failures st)) @
    json_line ''  },'' @
    json_line (''  '' @ json_key ''leaks'' @ ''['') @
    json_leaks_of (slot_list st) True @
    json_line (CHR 0x0A # ''  ]'') @
    json_line ''}''"

definition emit_json_report :: "c_env \<Rightarrow> string \<Rightarrow> size_t \<Rightarrow> memcheck \<Rightarrow> memcheck" where
  "emit_json_report env trigger leaked_bytes st =
    (case env_getenv env ''FISICS_MEMCHECK_REPORT_JSON'' of
       None \<Rightarrow> st
     | Some path \<Rightarrow>
         if path = [] then st
         else if \<not> env_fopen_ok env then print_err (JsonOpenFailed path) st
         else
           let st' = st\<lparr>json_file := Some (json_report_text trigger leaked_bytes st)\<rparr>
           in if env_fclose_ok env then st' else print_err (JsonCloseFailed path) st')"

definition should_emit_report :: "c_env \<Rightarrow> size_t \<Rightarrow> memcheck \<Rightarrow> memcheck \<times> bool" where
  "should_emit_report env leaked_bytes st0 =
    (let st = init_report_policy env st0 in
     (st, case g_report_policy st of
            REPORT_NEVER \<Rightarrow> False
          | REPORT_ERRORS \<Rightarrow> g_double_frees st > 0 \<or> g_unknown_frees st > 0 \<or> g_tracker_failures st > 0
          | REPORT_LEAKS \<Rightarrow> leaked_bytes > 0 \<or> g_double_frees st > 0 \<or> g_unknown_frees st > 0 \<or>
                            g_tracker_failures st > 0
          | REPORT_ALWAYS \<Rightarrow> g_total_allocs st > 0 \<or> g_total_frees st > 0 \<or> g_double_frees st > 0 \<or>
                             g_unknown_frees st > 0 \<or> g_tracker_failures st > 0))"

definition emit_report :: "c_env \<Rightarrow> string \<Rightarrow> memcheck \<Rightarrow> memcheck" where
  "emit_report env trigger st0 =
    (let leaked_bytes = compute_leaked_bytes st0;
         st1 = print_err (Summary (g_active_count st0) leaked_bytes (g_total_allocs st0) (g_total_frees st0)
                            (g_double_frees st0) (g_unknown_frees st0) (g_tracker_failures st0)) st0;
         st2 = (if leaked_bytes > 0 then emit_leak_sites st1 else st1);
         st3 = emit_json_report env trigger leaked_bytes st2
     in st3\<lparr>g_last_report_generation := g_generation st3\<rparr>)"

definition fisics_memcheck_report :: "c_env \<Rightarrow> memcheck \<Rightarrow> memcheck" where
  "fisics_memcheck_report env st = emit_report env ''manual'' st"

definition fisics_memcheck_report_at_exit :: "c_env \<Rightarrow> memcheck \<Rightarrow> memcheck" where
  "fisics_memcheck_report_at_exit env st0 =
    (if g_last_report_generation st0 = g_generation st0 then st0
     else
       let leaked_bytes = compute_leaked_bytes st0;
           (st, emit) = should_emit_report env leaked_bytes st0
       in if \<not> emit then st else emit_report env ''atexit'' st)"

definition fisics_memcheck_reset :: "memcheck \<Rightarrow> memcheck" where
  "fisics_memcheck_reset st =
    st\<lparr>g_slots := (\<lambda>j. if j < FISICS_MEMCHECK_CAPACITY then empty_slot else g_slots st j),
       g_active_count := 0, g_total_allocs := 0, g_total_frees := 0, g_double_frees := 0,
       g_unknown_frees := 0, g_tracker_failures := 0, g_generation := 0, g_last_report_generation := 0\<rparr>"

end
