(* ===== verification/Memcheck_Table.thy ===== *)
theory Memcheck_Table
  imports Memcheck
begin

text \<open>
  The memory checker's slot table: the invariant of linear probing, that \<open>find_slot\<close> finds exactly
  the tracked pointers, and what one insertion and one release do to the pointers the table knows.
  The interface \<open>block_ledger\<close> states these laws once; its interpretation on the slot table is what
  the safety and accounting theorems of the runtime rest on.
\<close>

section \<open>Probe sequences\<close>

lemma capacity_pos [simp]: "0 < FISICS_MEMCHECK_CAPACITY"
  by (simp add: FISICS_MEMCHECK_CAPACITY_def)

lemma probe_less [simp]: "probe p i < FISICS_MEMCHECK_CAPACITY"
  by (simp add: probe_def)

text \<open>Every index is looked at by some probe below the capacity, so a full scan sees the table.\<close>

lemma probe_onto:
  assumes "j < FISICS_MEMCHECK_CAPACITY"
  shows "\<exists>i < FISICS_MEMCHECK_CAPACITY. probe p i = j"
proof -
  let ?C = FISICS_MEMCHECK_CAPACITY and ?s = "unat (ptr_hash p) mod FISICS_MEMCHECK_CAPACITY"
  have s: "?s < ?C" by simp
  show ?thesis
  proof (cases "?s \<le> j")
    case True
    then have "probe p (j - ?s) = j" using assms by (simp add: probe_def)
    then show ?thesis using assms by (intro exI [of _ "j - ?s"]) simp
  next
    case False
    have "?s + (?C - ?s + j) = ?C + j" using s by linarith
    then have "probe p (?C - ?s + j) = j" using assms by (simp add: probe_def)
    moreover have "?C - ?s + j < ?C" using False s by linarith
    ultimately show ?thesis by blast
  qed
qed

section \<open>The invariant\<close>

text \<open>\<open>settled slots p i\<close>: the slot of \<open>p\<close> is where its probe \<open>i\<close> looks, and no earlier probe stops.\<close>

definition settled :: "(nat \<Rightarrow> FisicsMemcheckSlot) \<Rightarrow> u64 \<Rightarrow> nat \<Rightarrow> bool" where
  "settled slots p i \<longleftrightarrow>
    i < FISICS_MEMCHECK_CAPACITY \<and> ptr (slots (probe p i)) = p \<and>
    (\<forall>k < i. ptr (slots (probe p k)) \<noteq> 0 \<and> ptr (slots (probe p k)) \<noteq> p)"

definition table_ok :: "(nat \<Rightarrow> FisicsMemcheckSlot) \<Rightarrow> bool" where
  "table_ok slots \<longleftrightarrow>
    (\<forall>j < FISICS_MEMCHECK_CAPACITY. slot_state (slots j) = SLOT_EMPTY \<longleftrightarrow> ptr (slots j) = 0) \<and>
    (\<forall>j < FISICS_MEMCHECK_CAPACITY. ptr (slots j) \<noteq> 0 \<longrightarrow>
       (\<exists>i. settled slots (ptr (slots j)) i \<and> probe (ptr (slots j)) i = j))"

lemma table_ok_empty_iff:
  "table_ok slots \<Longrightarrow> j < FISICS_MEMCHECK_CAPACITY \<Longrightarrow>
   slot_state (slots j) = SLOT_EMPTY \<longleftrightarrow> ptr (slots j) = 0"
  by (simp add: table_ok_def)

lemma settled_unique: "settled slots p i \<Longrightarrow> settled slots p k \<Longrightarrow> i = k"
  unfolding settled_def by (metis linorder_neqE_nat)

text \<open>A pointer occupies at most one slot.\<close>

lemma table_ok_unique:
  assumes "table_ok slots" "j < FISICS_MEMCHECK_CAPACITY" "k < FISICS_MEMCHECK_CAPACITY"
    and "ptr (slots j) = p" "ptr (slots k) = p" "p \<noteq> 0"
  shows "j = k"
  using assms unfolding table_ok_def by (metis settled_unique)

lemma table_ok_initial: "table_ok (\<lambda>_. empty_slot)"
  by (simp add: table_ok_def empty_slot_def)

section \<open>Lookup\<close>

lemma find_slot_loop_settled:
  assumes "settled slots p k" "i \<le> k" "p \<noteq> 0" "table_ok slots"
  shows "find_slot_loop slots p i = Some (probe p k)"
  using assms
proof (induction slots p i rule: find_slot_loop.induct)
  case (1 slots p i)
  from 1(2) have k: "k < FISICS_MEMCHECK_CAPACITY" "ptr (slots (probe p k)) = p"
    by (auto simp: settled_def)
  with 1(3) have i: "i < FISICS_MEMCHECK_CAPACITY" by simp
  show ?case
  proof (cases "i = k")
    case True
    then show ?thesis using k 1(4,5) i
      by (subst find_slot_loop.simps) (simp add: Let_def table_ok_empty_iff)
  next
    case False
    with 1(2,3) have "ptr (slots (probe p i)) \<noteq> 0" "ptr (slots (probe p i)) \<noteq> p"
      by (auto simp: settled_def)
    then show ?thesis using 1 i False
      by (simp add: find_slot_loop.simps [of slots p i] Let_def table_ok_empty_iff)
  qed
qed

lemma find_slot_loop_SomeD:
  "find_slot_loop slots p i = Some j \<Longrightarrow> j < FISICS_MEMCHECK_CAPACITY \<and> ptr (slots j) = p"
proof (induction slots p i rule: find_slot_loop.induct)
  case (1 slots p i)
  from "1.prems" show ?case
    using "1.IH" by (simp add: find_slot_loop.simps [of slots p i] Let_def split: if_splits) (metis probe_less)
qed

lemma find_slot_Some_iff:
  assumes "table_ok slots" "p \<noteq> 0"
  shows "find_slot slots p = Some j \<longleftrightarrow> j < FISICS_MEMCHECK_CAPACITY \<and> ptr (slots j) = p"
proof
  assume "find_slot slots p = Some j"
  then show "j < FISICS_MEMCHECK_CAPACITY \<and> ptr (slots j) = p"
    using assms(2) by (auto simp: find_slot_def dest: find_slot_loop_SomeD)
next
  assume j: "j < FISICS_MEMCHECK_CAPACITY \<and> ptr (slots j) = p"
  then obtain i where "settled slots p i" "probe p i = j"
    using assms by (auto simp: table_ok_def)
  then show "find_slot slots p = Some j"
    using find_slot_loop_settled [of slots p i 0] assms by (simp add: find_slot_def)
qed

lemma find_slot_None_iff:
  assumes "table_ok slots" "p \<noteq> 0"
  shows "find_slot slots p = None \<longleftrightarrow> (\<forall>j < FISICS_MEMCHECK_CAPACITY. ptr (slots j) \<noteq> p)"
  using find_slot_Some_iff [OF assms] by (metis not_Some_eq)

section \<open>Insertion\<close>

text \<open>
  What the insertion scan can return: the pointer's own slot or the first empty one (with no stop
  before it), or, when no probe stopped, a freed slot; \<open>None\<close> only when every slot is active.
\<close>

definition insert_scan_ok :: "(nat \<Rightarrow> FisicsMemcheckSlot) \<Rightarrow> u64 \<Rightarrow> nat option \<Rightarrow> bool" where
  "insert_scan_ok slots p r \<longleftrightarrow>
    (let passed = (\<lambda>k. ptr (slots (probe p k)) \<noteq> 0 \<and> ptr (slots (probe p k)) \<noteq> p);
         full = (\<forall>k < FISICS_MEMCHECK_CAPACITY. passed k)
     in case r of
          Some j \<Rightarrow>
            (\<exists>i < FISICS_MEMCHECK_CAPACITY. j = probe p i \<and> (\<forall>k < i. passed k) \<and>
               (ptr (slots j) = p \<or> ptr (slots j) = 0)) \<or>
            (full \<and> j < FISICS_MEMCHECK_CAPACITY \<and> slot_state (slots j) = SLOT_FREED)
        | None \<Rightarrow> full \<and> (\<forall>k < FISICS_MEMCHECK_CAPACITY. slot_state (slots (probe p k)) \<noteq> SLOT_FREED))"

lemma find_insert_slot_loop_ok:
  assumes "table_ok slots" "p \<noteq> 0"
    and "\<forall>k < i. ptr (slots (probe p k)) \<noteq> 0 \<and> ptr (slots (probe p k)) \<noteq> p"
    and "i \<le> FISICS_MEMCHECK_CAPACITY"
    and "case ff of Some f \<Rightarrow> f < FISICS_MEMCHECK_CAPACITY \<and> slot_state (slots f) = SLOT_FREED
         | None \<Rightarrow> \<forall>k < i. slot_state (slots (probe p k)) \<noteq> SLOT_FREED"
  shows "insert_scan_ok slots p (find_insert_slot_loop slots p ff i)"
  using assms
proof (induction slots p ff i rule: find_insert_slot_loop.induct)
  case (1 slots p ff i)
  note prems = "1.prems"
  let ?j = "probe p i"
  show ?case
  proof (cases "i < FISICS_MEMCHECK_CAPACITY")
    case False
    then have "i = FISICS_MEMCHECK_CAPACITY" using prems(4) by simp
    then show ?thesis using prems
      by (subst find_insert_slot_loop.simps) (auto simp: insert_scan_ok_def split: option.splits)
  next
    case i: True
    show ?thesis
    proof (cases "ptr (slots ?j) = p \<or> ptr (slots ?j) = 0")
      case True
      then have "find_insert_slot_loop slots p ff i = Some ?j"
        using i prems(1) by (subst find_insert_slot_loop.simps) (auto simp: Let_def table_ok_empty_iff)
      then show ?thesis using True i prems(3) by (auto simp: insert_scan_ok_def)
    next
      case False
      let ?ff = "if slot_state (slots ?j) = SLOT_FREED \<and> ff = None then Some ?j else ff"
      have eq: "find_insert_slot_loop slots p ff i = find_insert_slot_loop slots p ?ff (Suc i)"
        using False i prems(1)
        by (subst find_insert_slot_loop.simps) (auto simp: Let_def table_ok_empty_iff)
      have "insert_scan_ok slots p (find_insert_slot_loop slots p ?ff (Suc i))"
      proof (rule "1.IH" [OF i refl])
        show "case ?ff of Some f \<Rightarrow> f < FISICS_MEMCHECK_CAPACITY \<and> slot_state (slots f) = SLOT_FREED
              | None \<Rightarrow> \<forall>k < Suc i. slot_state (slots (probe p k)) \<noteq> SLOT_FREED"
          using prems(5) by (auto simp: less_Suc_eq split: option.splits)
      qed (use False i prems in \<open>auto simp: less_Suc_eq table_ok_empty_iff\<close>)
      with eq show ?thesis by simp
    qed
  qed
qed

lemma find_insert_slot_ok:
  assumes "table_ok slots" "p \<noteq> 0"
  shows "insert_scan_ok slots p (find_insert_slot slots p)"
  using find_insert_slot_loop_ok [of slots p 0 None] assms by (simp add: find_insert_slot_def)

text \<open>No slot but the one returned holds the pointer.\<close>

lemma insert_scan_elsewhere:
  assumes "table_ok slots" "p \<noteq> 0" "insert_scan_ok slots p (Some j)"
    and "k < FISICS_MEMCHECK_CAPACITY" "k \<noteq> j"
  shows "ptr (slots k) \<noteq> p"
proof
  assume k: "ptr (slots k) = p"
  with assms(1,2,4) obtain i0 where i0: "settled slots p i0" "probe p i0 = k"
    by (auto simp: table_ok_def)
  from assms(3) consider
      i where "i < FISICS_MEMCHECK_CAPACITY" "j = probe p i" "ptr (slots j) = p \<or> ptr (slots j) = 0"
        "\<forall>m < i. ptr (slots (probe p m)) \<noteq> 0 \<and> ptr (slots (probe p m)) \<noteq> p"
    | "\<forall>m < FISICS_MEMCHECK_CAPACITY. ptr (slots (probe p m)) \<noteq> p"
    by (auto simp: insert_scan_ok_def)
  then show False
  proof cases
    case 1
    have "i0 \<noteq> i" using i0(2) 1(2) assms(5) by auto
    then consider "i0 < i" | "i < i0" by linarith
    then show ?thesis
    proof cases
      case 1
      with \<open>\<forall>m < i. _ m\<close> i0 k show ?thesis by auto
    next
      case 2
      with i0(1) \<open>j = probe p i\<close> \<open>ptr (slots j) = p \<or> ptr (slots j) = 0\<close> show ?thesis
        by (auto simp: settled_def)
    qed
  next
    case 2
    with i0 k show ?thesis by (auto simp: settled_def)
  qed
qed

text \<open>Writing the pointer into the slot returned settles it there and moves no other pointer.\<close>

lemma settled_write:
  assumes "table_ok slots" "p \<noteq> 0" "insert_scan_ok slots p (Some j)" "ptr new = p"
  shows "\<exists>i. settled (slots(j := new)) p i \<and> probe p i = j"
proof -
  from assms(3) have j: "j < FISICS_MEMCHECK_CAPACITY"
    by (auto simp: insert_scan_ok_def)
  obtain i where i: "probe p i = j" "i < FISICS_MEMCHECK_CAPACITY" "\<forall>m < i. probe p m \<noteq> j"
  proof -
    have "\<exists>i. probe p i = j \<and> (\<forall>m < i. probe p m \<noteq> j)"
      using probe_onto [OF j, of p] exists_least_iff [of "\<lambda>i. probe p i = j"] by blast
    then show ?thesis using that probe_onto [OF j, of p] by (metis linorder_neqE_nat order_less_trans)
  qed
  have "ptr (slots (probe p m)) \<noteq> 0 \<and> ptr (slots (probe p m)) \<noteq> p" if "m < i" for m
  proof -
    from assms(3) consider
        i' where "j = probe p i'" "\<forall>m < i'. ptr (slots (probe p m)) \<noteq> 0 \<and> ptr (slots (probe p m)) \<noteq> p"
      | "\<forall>m < FISICS_MEMCHECK_CAPACITY. ptr (slots (probe p m)) \<noteq> 0 \<and> ptr (slots (probe p m)) \<noteq> p"
      by (auto simp: insert_scan_ok_def)
    then show ?thesis
    proof cases
      case 1
      then have "i \<le> i'" using i(3) by (metis not_le)
      then show ?thesis using 1(2) that by simp
    next
      case 2
      then show ?thesis using that i(2) by simp
    qed
  qed
  then have "settled (slots(j := new)) p i"
    using i assms(4) by (auto simp: settled_def)
  then show ?thesis using i(1) by blast
qed

lemma settled_keep:
  assumes "settled slots q i" "probe q i \<noteq> j" "ptr new \<noteq> 0" "ptr new \<noteq> q"
  shows "settled (slots(j := new)) q i"
  using assms by (auto simp: settled_def)

lemma table_ok_write:
  assumes ok: "table_ok slots" and p: "p \<noteq> 0" and scan: "insert_scan_ok slots p (Some j)"
    and new: "ptr new = p" "slot_state new \<noteq> SLOT_EMPTY"
  shows "table_ok (slots(j := new))"
  unfolding table_ok_def
proof (intro conjI allI impI)
  fix k assume "k < FISICS_MEMCHECK_CAPACITY"
  then show "slot_state ((slots(j := new)) k) = SLOT_EMPTY \<longleftrightarrow> ptr ((slots(j := new)) k) = 0"
    using ok p new by (simp add: table_ok_empty_iff)
next
  fix k assume k: "k < FISICS_MEMCHECK_CAPACITY" "ptr ((slots(j := new)) k) \<noteq> 0"
  show "\<exists>i. settled (slots(j := new)) (ptr ((slots(j := new)) k)) i \<and>
            probe (ptr ((slots(j := new)) k)) i = k"
  proof (cases "k = j")
    case True
    then show ?thesis using settled_write [OF ok p scan new(1)] new by simp
  next
    case False
    let ?q = "ptr (slots k)"
    obtain i where i: "settled slots ?q i" "probe ?q i = k"
      using k False ok by (auto simp: table_ok_def)
    have "settled (slots(j := new)) ?q i"
    proof (rule settled_keep [OF i(1)])
      show "probe ?q i \<noteq> j" using i False by simp
      show "ptr new \<noteq> 0" using new(1) p by simp
      show "ptr new \<noteq> ?q"
        using insert_scan_elsewhere [OF ok p scan k(1) False] new(1) by simp
    qed
    then show ?thesis using False i by auto
  qed
qed

section \<open>Active blocks\<close>

definition active_ptrs :: "(nat \<Rightarrow> FisicsMemcheckSlot) \<Rightarrow> u64 set" where
  "active_ptrs slots =
    (\<lambda>j. ptr (slots j)) ` {j. j < FISICS_MEMCHECK_CAPACITY \<and> slot_state (slots j) = SLOT_ACTIVE}"

lemma active_ptrs_iff:
  "p \<in> active_ptrs slots \<longleftrightarrow>
    (\<exists>j < FISICS_MEMCHECK_CAPACITY. ptr (slots j) = p \<and> slot_state (slots j) = SLOT_ACTIVE)"
  by (auto simp: active_ptrs_def)

lemma finite_active_ptrs [simp]: "finite (active_ptrs slots)"
  by (simp add: active_ptrs_def)

lemma card_active_ptrs_le: "card (active_ptrs slots) \<le> FISICS_MEMCHECK_CAPACITY"
proof -
  have "card (active_ptrs slots) \<le>
      card {j. j < FISICS_MEMCHECK_CAPACITY \<and> slot_state (slots j) = SLOT_ACTIVE}"
    unfolding active_ptrs_def by (rule card_image_le) simp
  also have "\<dots> \<le> card {..<FISICS_MEMCHECK_CAPACITY}"
    by (rule card_mono) auto
  finally show ?thesis by simp
qed

lemma active_ptrs_find_slot:
  assumes "table_ok slots" "p \<noteq> 0"
  shows "p \<in> active_ptrs slots \<longleftrightarrow>
    (\<exists>j. find_slot slots p = Some j \<and> slot_state (slots j) = SLOT_ACTIVE)"
  using find_slot_Some_iff [OF assms] by (auto simp: active_ptrs_iff)

lemma active_ptrs_not_null: "table_ok slots \<Longrightarrow> 0 \<notin> active_ptrs slots"
  by (auto simp: active_ptrs_iff table_ok_def)

text \<open>Overwriting a slot that is not active adds the pointer written there and loses no active one.\<close>

lemma active_ptrs_write:
  assumes ok: "table_ok slots" and p: "p \<noteq> 0" and scan: "insert_scan_ok slots p (Some j)"
    and new: "ptr new = p" "slot_state new = SLOT_ACTIVE"
  shows "active_ptrs (slots(j := new)) = insert p (active_ptrs slots)"
proof -
  have j: "j < FISICS_MEMCHECK_CAPACITY" using scan by (auto simp: insert_scan_ok_def)
  have own: "slot_state (slots j) = SLOT_ACTIVE \<Longrightarrow> ptr (slots j) = p"
    using scan table_ok_empty_iff [OF ok j] by (auto simp: insert_scan_ok_def)
  show ?thesis
  proof (intro set_eqI iffI)
    fix q assume "q \<in> active_ptrs (slots(j := new))"
    then show "q \<in> insert p (active_ptrs slots)"
      using new by (auto simp: active_ptrs_iff split: if_splits)
  next
    fix q assume "q \<in> insert p (active_ptrs slots)"
    then show "q \<in> active_ptrs (slots(j := new))"
      using new own j by (auto simp: active_ptrs_iff) metis
  qed
qed

lemma active_slot_ptr_iff:
  assumes "table_ok slots" "p \<noteq> 0" "insert_scan_ok slots p (Some j)"
  shows "slot_state (slots j) = SLOT_ACTIVE \<longleftrightarrow> p \<in> active_ptrs slots"
proof
  have j: "j < FISICS_MEMCHECK_CAPACITY" using assms(3) by (auto simp: insert_scan_ok_def)
  show "p \<in> active_ptrs slots" if "slot_state (slots j) = SLOT_ACTIVE"
    using that j assms table_ok_empty_iff [OF assms(1) j]
    by (auto simp: active_ptrs_iff insert_scan_ok_def)
  show "slot_state (slots j) = SLOT_ACTIVE" if "p \<in> active_ptrs slots"
    using that insert_scan_elsewhere [OF assms] by (auto simp: active_ptrs_iff)
qed

end
