(* ===== verification/Memcheck_Ledger.thy ===== *)
theory Memcheck_Ledger
  imports Memcheck_Table
begin

text \<open>
  What the memory checker's bookkeeping promises its callers, as an interface: a ledger of blocks
  with a set of active ones, an operation that enters a block, one that retires a block, and a count.
  The slot table with \<open>track_allocation\<close> and \<open>mark_released\<close> is shown to provide it.
\<close>

section \<open>The interface\<close>

datatype ('k, 'v) ledger_op = Entered 'k 'v | Retired 'k

fun ledger_spec :: "('k, 'v) ledger_op \<Rightarrow> 'k set \<Rightarrow> 'k set" where
  "ledger_spec (Entered k v) A = insert k A"
| "ledger_spec (Retired k) A = A - {k}"

fun op_key :: "('k, 'v) ledger_op \<Rightarrow> 'k" where
  "op_key (Entered k v) = k"
| "op_key (Retired k) = k"

fun is_entered :: "('k, 'v) ledger_op \<Rightarrow> bool" where
  "is_entered (Entered k v) = True"
| "is_entered (Retired k) = False"

fun ledger_apply ::
    "('k \<Rightarrow> 'v \<Rightarrow> 's \<Rightarrow> 's) \<Rightarrow> ('k \<Rightarrow> 's \<Rightarrow> 's) \<Rightarrow> ('k, 'v) ledger_op \<Rightarrow> 's \<Rightarrow> 's" where
  "ledger_apply ent ret (Entered k v) s = ent k v s"
| "ledger_apply ent ret (Retired k) s = ret k s"

locale block_ledger =
  fixes null :: 'k
    and inv :: "'s \<Rightarrow> bool"
    and active :: "'s \<Rightarrow> 'k set"
    and counted :: "'s \<Rightarrow> nat"
    and ent :: "'k \<Rightarrow> 'v \<Rightarrow> 's \<Rightarrow> 's"
    and ret :: "'k \<Rightarrow> 's \<Rightarrow> 's"
    and overflowed :: "'s \<Rightarrow> 'k \<Rightarrow> bool"
    and capacity :: nat
  assumes inv_ent: "inv s \<Longrightarrow> k \<noteq> null \<Longrightarrow> inv (ent k v s)"
    and inv_ret: "inv s \<Longrightarrow> k \<noteq> null \<Longrightarrow> inv (ret k s)"
    and active_ent: "inv s \<Longrightarrow> k \<noteq> null \<Longrightarrow> \<not> overflowed s k \<Longrightarrow> active (ent k v s) = insert k (active s)"
    and active_full: "inv s \<Longrightarrow> k \<noteq> null \<Longrightarrow> overflowed s k \<Longrightarrow> active (ent k v s) = active s"
    and active_ret: "inv s \<Longrightarrow> k \<noteq> null \<Longrightarrow> active (ret k s) = active s - {k}"
    and counted_active: "inv s \<Longrightarrow> counted s = card (active s)"
    and finite_active: "inv s \<Longrightarrow> finite (active s)"
    and room: "inv s \<Longrightarrow> k \<noteq> null \<Longrightarrow> card (active s) < capacity \<Longrightarrow> \<not> overflowed s k"
begin

lemma active_ent_le: "inv s \<Longrightarrow> k \<noteq> null \<Longrightarrow> active (ent k v s) \<subseteq> insert k (active s)"
  using active_ent active_full by (cases "overflowed s k") auto

lemma run_inv:
  "inv s \<Longrightarrow> (\<forall>e \<in> set es. op_key e \<noteq> null) \<Longrightarrow> inv (fold (ledger_apply ent ret) es s)"
proof (induction es arbitrary: s)
  case (Cons e es)
  have "inv (ledger_apply ent ret e s)"
    using Cons.prems inv_ent inv_ret by (cases e) auto
  then show ?case using Cons by simp
qed simp

text \<open>Whatever the ledger calls active has been entered and not retired since.\<close>

lemma run_sound:
  assumes "inv s" "\<forall>e \<in> set es. op_key e \<noteq> null" "active s \<subseteq> A"
  shows "active (fold (ledger_apply ent ret) es s) \<subseteq> fold ledger_spec es A"
  using assms
proof (induction es arbitrary: s A)
  case (Cons e es)
  have "inv (ledger_apply ent ret e s)"
    using Cons.prems inv_ent inv_ret by (cases e) auto
  moreover have "active (ledger_apply ent ret e s) \<subseteq> ledger_spec e A"
    using Cons.prems active_ent_le active_ret by (cases e) fastforce+
  ultimately show ?case using Cons.IH Cons.prems(2) by simp
qed simp

text \<open>While no more blocks are entered than there are slots, it is exactly those.\<close>

lemma run_exact:
  assumes "inv s" "\<forall>e \<in> set es. op_key e \<noteq> null"
    and "card (active s) + length (filter is_entered es) \<le> capacity"
  shows "active (fold (ledger_apply ent ret) es s) = fold ledger_spec es (active s)"
  using assms
proof (induction es arbitrary: s)
  case (Cons e es)
  have inv: "inv (ledger_apply ent ret e s)"
    using Cons.prems inv_ent inv_ret by (cases e) auto
  have act: "active (ledger_apply ent ret e s) = ledger_spec e (active s)"
    using Cons.prems active_ent active_ret room by (cases e) auto
  have "card (ledger_spec e (active s)) \<le> card (active s) + (if is_entered e then 1 else 0)"
    using finite_active [OF Cons.prems(1)] by (cases e) (simp_all add: card_insert_if card_Diff1_le)
  then have "card (active (ledger_apply ent ret e s)) + length (filter is_entered es) \<le> capacity"
    using Cons.prems(3) act by (auto split: if_splits)
  then show ?case using Cons.IH [OF inv] Cons.prems(2) act by simp
qed simp

lemma run_counted:
  "inv s \<Longrightarrow> (\<forall>e \<in> set es. op_key e \<noteq> null) \<Longrightarrow>
   counted (fold (ledger_apply ent ret) es s) = card (active (fold (ledger_apply ent ret) es s))"
  using run_inv counted_active by blast

end

section \<open>The slot table provides it\<close>

definition memcheck_ok :: "memcheck \<Rightarrow> bool" where
  "memcheck_ok st \<longleftrightarrow>
    table_ok (g_slots st) \<and> unat (g_active_count st) = card (active_ptrs (g_slots st))"

definition active_blocks :: "memcheck \<Rightarrow> u64 set" where
  "active_blocks st = active_ptrs (g_slots st)"

definition release_block :: "u64 \<Rightarrow> memcheck \<Rightarrow> memcheck" where
  "release_block p st = mark_released (find_slot (g_slots st) p) st"

definition table_overflows :: "memcheck \<Rightarrow> u64 \<Rightarrow> bool" where
  "table_overflows st p \<longleftrightarrow> find_insert_slot (g_slots st) p = None"

lemma memcheck_ok_initial: "memcheck_ok initial_memcheck"
proof -
  have "active_ptrs (\<lambda>_. empty_slot) = {}"
    by (simp add: active_ptrs_def empty_slot_def)
  then show ?thesis
    by (simp add: memcheck_ok_def initial_memcheck_def table_ok_initial)
qed

lemma unat_count_Suc:
  "unat (c :: size_t) \<le> FISICS_MEMCHECK_CAPACITY \<Longrightarrow> unat (c + 1) = Suc (unat c)"
  by (simp add: FISICS_MEMCHECK_CAPACITY_def unat_word_ariths)

lemma unat_count_pred: "0 < (c :: size_t) \<Longrightarrow> unat (c - 1) = unat c - 1"
  by (simp add: unat_minus_one word_gt_0)

lemma unat_pos_iff: "0 < (c :: size_t) \<longleftrightarrow> 0 < unat c"
  by (simp add: word_gt_0 unat_gt_0)

text \<open>The two branches of an insertion.\<close>

lemma track_allocation_full:
  assumes "p \<noteq> 0" "table_overflows st p"
  shows "track_allocation p sz file line st =
    print_err TrackerFailureTableFull
      (st\<lparr>g_tracker_failures := g_tracker_failures st + 1, g_generation := g_generation st + 1\<rparr>)"
  using assms by (simp add: track_allocation_def table_overflows_def)

lemma active_track:
  assumes ok: "memcheck_ok st" and p: "p \<noteq> 0" and room: "\<not> table_overflows st p"
  shows "active_blocks (track_allocation p sz file line st) = insert p (active_blocks st)"
    and "memcheck_ok (track_allocation p sz file line st)"
proof -
  let ?new = "\<lparr>ptr = p, slot_size = sz, alloc_file = file, alloc_line = line, slot_state = SLOT_ACTIVE\<rparr>"
  from ok have t: "table_ok (g_slots st)" by (simp add: memcheck_ok_def)
  obtain j where j: "find_insert_slot (g_slots st) p = Some j"
    using room by (auto simp: table_overflows_def)
  with find_insert_slot_ok [OF t p] have scan: "insert_scan_ok (g_slots st) p (Some j)" by simp
  have slots: "g_slots (track_allocation p sz file line st) = (g_slots st)(j := ?new)"
    using p j by (simp add: track_allocation_def)
  have act: "active_ptrs ((g_slots st)(j := ?new)) = insert p (active_ptrs (g_slots st))"
    by (rule active_ptrs_write [OF t p scan]) simp_all
  then show "active_blocks (track_allocation p sz file line st) = insert p (active_blocks st)"
    by (simp add: active_blocks_def slots)
  have "unat (g_active_count st) \<le> FISICS_MEMCHECK_CAPACITY"
    using ok card_active_ptrs_le by (simp add: memcheck_ok_def)
  then have "unat (g_active_count (track_allocation p sz file line st)) =
      card (insert p (active_ptrs (g_slots st)))"
    using ok p j active_slot_ptr_iff [OF t p scan]
    by (auto simp: track_allocation_def memcheck_ok_def unat_count_Suc insert_absorb)
  moreover have "table_ok ((g_slots st)(j := ?new))"
    by (rule table_ok_write [OF t p scan]) simp_all
  ultimately show "memcheck_ok (track_allocation p sz file line st)"
    using act by (simp add: memcheck_ok_def slots)
qed

lemma memcheck_ok_cong:
  "g_slots st' = g_slots st \<Longrightarrow> g_active_count st' = g_active_count st \<Longrightarrow> memcheck_ok st' = memcheck_ok st"
  by (simp add: memcheck_ok_def)

lemma memcheck_ok_track:
  "memcheck_ok st \<Longrightarrow> p \<noteq> 0 \<Longrightarrow> memcheck_ok (track_allocation p sz file line st)"
  using active_track(2) track_allocation_full [of p st]
  by (cases "table_overflows st p") (simp_all add: memcheck_ok_def print_err_def)

text \<open>A release changes no pointer of the table, so the table stays in order.\<close>

lemma table_ok_restate:
  assumes "table_ok slots" "ptr new = ptr (slots j)"
    and "slot_state new = SLOT_EMPTY \<longleftrightarrow> slot_state (slots j) = SLOT_EMPTY"
  shows "table_ok (slots(j := new))"
proof -
  have ptrs: "ptr ((slots(j := new)) k) = ptr (slots k)" for k
    using assms(2) by simp
  then have "settled (slots(j := new)) = settled slots"
    by (intro ext) (simp add: settled_def del: fun_upd_apply)
  then show ?thesis
    using assms by (simp add: table_ok_def)
qed

lemma active_ptrs_restate:
  assumes "table_ok slots" "j < FISICS_MEMCHECK_CAPACITY" "slot_state (slots j) = SLOT_ACTIVE"
    and "ptr new = ptr (slots j)" "slot_state new \<noteq> SLOT_ACTIVE"
  shows "active_ptrs (slots(j := new)) = active_ptrs slots - {ptr (slots j)}"
proof -
  have nz: "ptr (slots j) \<noteq> 0" using assms by (metis FisicsMemcheckSlotState.distinct(1) table_ok_empty_iff)
  note uniq = table_ok_unique [OF assms(1) _ assms(2) _ refl nz]
  show ?thesis
  proof (intro set_eqI iffI)
    fix q assume "q \<in> active_ptrs (slots(j := new))"
    then obtain k where "k < FISICS_MEMCHECK_CAPACITY" "k \<noteq> j" "ptr (slots k) = q"
        "slot_state (slots k) = SLOT_ACTIVE"
      using assms(5) by (auto simp: active_ptrs_iff split: if_splits)
    then show "q \<in> active_ptrs slots - {ptr (slots j)}"
      using uniq by (auto simp: active_ptrs_iff)
  next
    fix q assume "q \<in> active_ptrs slots - {ptr (slots j)}"
    then obtain k where "k < FISICS_MEMCHECK_CAPACITY" "k \<noteq> j" "ptr (slots k) = q"
        "slot_state (slots k) = SLOT_ACTIVE"
      by (auto simp: active_ptrs_iff)
    then show "q \<in> active_ptrs (slots(j := new))"
      by (auto simp: active_ptrs_iff)
  qed
qed

lemma release_active:
  assumes "memcheck_ok st" "p \<in> active_blocks st"
  obtains j where "find_slot (g_slots st) p = Some j" "j < FISICS_MEMCHECK_CAPACITY"
    "ptr (g_slots st j) = p" "slot_state (g_slots st j) = SLOT_ACTIVE"
proof -
  have t: "table_ok (g_slots st)" using assms(1) by (simp add: memcheck_ok_def)
  then have "p \<noteq> 0" using assms(2) active_ptrs_not_null by (auto simp: active_blocks_def)
  then show ?thesis
    using that assms(2) t find_slot_Some_iff active_ptrs_find_slot
    by (auto simp: active_blocks_def)
qed

lemma release_inactive:
  assumes "memcheck_ok st" "p \<noteq> 0" "p \<notin> active_blocks st"
  shows "release_block p st = st"
  using assms active_ptrs_find_slot [of "g_slots st" p]
  by (auto simp: release_block_def mark_released_def memcheck_ok_def active_blocks_def split: option.splits)

lemma active_release:
  assumes ok: "memcheck_ok st" and p: "p \<in> active_blocks st"
  shows "active_blocks (release_block p st) = active_blocks st - {p}"
    and "memcheck_ok (release_block p st)"
    and "g_active_count (release_block p st) = g_active_count st - 1"
    and "0 < g_active_count st"
proof -
  obtain j where j: "find_slot (g_slots st) p = Some j" "j < FISICS_MEMCHECK_CAPACITY"
      "ptr (g_slots st j) = p" "slot_state (g_slots st j) = SLOT_ACTIVE"
    using release_active [OF ok p] by blast
  let ?new = "(g_slots st j)\<lparr>slot_state := SLOT_FREED, slot_size := 0, alloc_file := None, alloc_line := 0\<rparr>"
  from ok have t: "table_ok (g_slots st)" by (simp add: memcheck_ok_def)
  have slots: "g_slots (release_block p st) = (g_slots st)(j := ?new)"
    using j by (simp add: release_block_def mark_released_def)
  have act: "active_ptrs ((g_slots st)(j := ?new)) = active_ptrs (g_slots st) - {p}"
    using active_ptrs_restate [OF t j(2,4), of ?new] j(3) by simp
  then show active: "active_blocks (release_block p st) = active_blocks st - {p}"
    by (simp add: active_blocks_def slots)
  have "0 < card (active_blocks st)"
    using p by (auto simp: active_blocks_def card_gt_0_iff)
  then show pos: "0 < g_active_count st"
    using ok by (simp add: memcheck_ok_def active_blocks_def unat_pos_iff)
  show count: "g_active_count (release_block p st) = g_active_count st - 1"
    using j pos by (simp add: release_block_def mark_released_def)
  have "table_ok ((g_slots st)(j := ?new))"
    using j by (intro table_ok_restate [OF t]) auto
  then show "memcheck_ok (release_block p st)"
    using ok p pos active act count
    by (simp add: memcheck_ok_def slots active_blocks_def unat_count_pred card_Diff_singleton)
qed

lemma memcheck_ok_release: "memcheck_ok st \<Longrightarrow> p \<noteq> 0 \<Longrightarrow> memcheck_ok (release_block p st)"
  using active_release(2) release_inactive by (cases "p \<in> active_blocks st") auto

text \<open>A full scan that finds no slot has seen only active ones.\<close>

lemma overflow_full:
  assumes ok: "memcheck_ok st" and p: "p \<noteq> 0" and over: "table_overflows st p"
  shows "card (active_blocks st) = FISICS_MEMCHECK_CAPACITY"
proof -
  have t: "table_ok (g_slots st)" using ok by (simp add: memcheck_ok_def)
  have act: "slot_state (g_slots st j) = SLOT_ACTIVE" if j: "j < FISICS_MEMCHECK_CAPACITY" for j
  proof -
    obtain i where i: "i < FISICS_MEMCHECK_CAPACITY" "probe p i = j" using probe_onto [OF j] by blast
    have "ptr (g_slots st (probe p i)) \<noteq> 0 \<and> slot_state (g_slots st (probe p i)) \<noteq> SLOT_FREED"
      using find_insert_slot_ok [OF t p] over i(1) by (simp add: insert_scan_ok_def table_overflows_def)
    then show ?thesis
      using i(2) table_ok_empty_iff [OF t j] by (cases "slot_state (g_slots st j)") auto
  qed
  have "inj_on (\<lambda>j. ptr (g_slots st j)) {..<FISICS_MEMCHECK_CAPACITY}"
  proof (rule inj_onI)
    fix j k assume "j \<in> {..<FISICS_MEMCHECK_CAPACITY}" "k \<in> {..<FISICS_MEMCHECK_CAPACITY}"
      "ptr (g_slots st j) = ptr (g_slots st k)"
    moreover from this have "ptr (g_slots st k) \<noteq> 0"
      using table_ok_empty_iff [OF t, of k] act [of k] by auto
    ultimately show "j = k" using table_ok_unique [OF t, of j k] by simp
  qed
  moreover have "active_blocks st = (\<lambda>j. ptr (g_slots st j)) ` {..<FISICS_MEMCHECK_CAPACITY}"
    using act by (auto simp: active_blocks_def active_ptrs_def)
  ultimately show ?thesis by (simp add: card_image)
qed

definition enter_block :: "u64 \<Rightarrow> size_t \<times> cstr \<times> int \<Rightarrow> memcheck \<Rightarrow> memcheck" where
  "enter_block p v st = (case v of (sz, file, line) \<Rightarrow> track_allocation p sz file line st)"

interpretation slots: block_ledger "0 :: u64" memcheck_ok active_blocks
  "\<lambda>st. unat (g_active_count st)" enter_block release_block table_overflows
  FISICS_MEMCHECK_CAPACITY
proof
  fix st k v assume ok: "memcheck_ok st" and k: "k \<noteq> (0 :: u64)"
  show "memcheck_ok (enter_block k v st)"
    using ok k by (simp add: enter_block_def memcheck_ok_track split: prod.splits)
  show "memcheck_ok (release_block k st)"
    using ok k by (rule memcheck_ok_release)
  show "active_blocks (enter_block k v st) = insert k (active_blocks st)" if "\<not> table_overflows st k"
    using active_track(1) [OF ok k that] by (simp add: enter_block_def split: prod.splits)
  show "active_blocks (enter_block k v st) = active_blocks st" if "table_overflows st k"
    using that k
    by (simp add: enter_block_def active_blocks_def track_allocation_full print_err_def split: prod.splits)
  show "active_blocks (release_block k st) = active_blocks st - {k}"
    using active_release(1) [OF ok] release_inactive [OF ok k] by (cases "k \<in> active_blocks st") auto
  show "\<not> table_overflows st k" if "card (active_blocks st) < FISICS_MEMCHECK_CAPACITY"
    using overflow_full [OF ok k] that by auto
next
  fix st assume "memcheck_ok st"
  then show "unat (g_active_count st) = card (active_blocks st)" and "finite (active_blocks st)"
    by (simp_all add: memcheck_ok_def active_blocks_def)
qed

end
