(* ===== verification/Memcheck_Safety.thy ===== *)
theory Memcheck_Safety
  imports Memcheck_Ledger
begin

text \<open>
  The memory checker running in front of the C allocator. A world is the checker's state and the set
  of blocks the allocator has handed out; a step is one call of the program into the runtime, with
  every answer the C standard lets the allocator give. The label of a step is the pointer the
  runtime hands to the C library's \<open>free\<close> or \<open>realloc\<close>, if any.
\<close>

section \<open>Steps\<close>

record mc_world =
  mw_state :: memcheck
  mw_live :: "u64 set"

text \<open>
  The C library's \<open>realloc(q, sz)\<close> on blocks \<open>live\<close> answering \<open>a\<close> and leaving \<open>live'\<close>. A failure
  leaves the old block, except that for \<open>sz = 0\<close> the standard leaves it to the implementation whether
  the block is freed: \<open>zero_frees\<close> says whether this allocator does (as the GNU C library does).
\<close>

definition libc_realloc :: "bool \<Rightarrow> u64 \<Rightarrow> size_t \<Rightarrow> u64 set \<Rightarrow> u64 \<Rightarrow> u64 set \<Rightarrow> bool" where
  "libc_realloc zero_frees q sz live a live' \<longleftrightarrow>
    (a = 0 \<and> live' = live) \<or>
    (a = 0 \<and> zero_frees \<and> sz = 0 \<and> live' = live - {q}) \<or>
    (a \<noteq> 0 \<and> a \<notin> live - {q} \<and> live' = insert a (live - {q}))"

definition libc_alloc :: "u64 set \<Rightarrow> u64 \<Rightarrow> u64 set \<Rightarrow> bool" where
  "libc_alloc live a live' \<longleftrightarrow>
    (a = 0 \<and> live' = live) \<or> (a \<noteq> 0 \<and> a \<notin> live \<and> live' = insert a live)"

inductive mc_step :: "bool \<Rightarrow> mc_world \<Rightarrow> u64 option \<Rightarrow> mc_world \<Rightarrow> bool" for zf where
  step_malloc:
    "libc_alloc (mw_live w) a live' \<Longrightarrow>
     fisics_memcheck_malloc_site env a sz file line (mw_state w) = (st', r) \<Longrightarrow>
     mc_step zf w None \<lparr>mw_state = st', mw_live = live'\<rparr>"
| step_calloc:
    "libc_alloc (mw_live w) a live' \<Longrightarrow>
     fisics_memcheck_calloc_site env a count sz file line (mw_state w) = (st', r) \<Longrightarrow>
     mc_step zf w None \<lparr>mw_state = st', mw_live = live'\<rparr>"
| step_realloc_calls:
    "fisics_memcheck_realloc_site env a p sz file line (mw_state w) = (st', r, Some q) \<Longrightarrow>
     libc_realloc zf q sz (mw_live w) a live' \<Longrightarrow>
     mc_step zf w (Some q) \<lparr>mw_state = st', mw_live = live'\<rparr>"
| step_realloc_refused:
    "fisics_memcheck_realloc_site env a p sz file line (mw_state w) = (st', r, None) \<Longrightarrow>
     mc_step zf w None \<lparr>mw_state = st', mw_live = mw_live w\<rparr>"
| step_free_calls:
    "fisics_memcheck_free_site env p file line (mw_state w) = (st', Some q) \<Longrightarrow>
     mc_step zf w (Some q) \<lparr>mw_state = st', mw_live = mw_live w - {q}\<rparr>"
| step_free_refused:
    "fisics_memcheck_free_site env p file line (mw_state w) = (st', None) \<Longrightarrow>
     mc_step zf w None \<lparr>mw_state = st', mw_live = mw_live w\<rparr>"
| step_report:
    "mc_step zf w None (w\<lparr>mw_state := fisics_memcheck_report env (mw_state w)\<rparr>)"
| step_at_exit:
    "mc_step zf w None (w\<lparr>mw_state := fisics_memcheck_report_at_exit env (mw_state w)\<rparr>)"
| step_reset:
    "mc_step zf w None (w\<lparr>mw_state := fisics_memcheck_reset (mw_state w)\<rparr>)"

inductive mc_reachable :: "bool \<Rightarrow> mc_world \<Rightarrow> bool" for zf where
  mc_start: "0 \<notin> live \<Longrightarrow> mc_reachable zf \<lparr>mw_state = initial_memcheck, mw_live = live\<rparr>"
| mc_next: "mc_reachable zf w \<Longrightarrow> mc_step zf w lab w' \<Longrightarrow> mc_reachable zf w'"

inductive_cases mc_step_labelled: "mc_step zf w (Some q) w'"

section \<open>What the bookkeeping-free parts leave alone\<close>

text \<open>The fields the safety and accounting arguments read.\<close>

definition same_books :: "memcheck \<Rightarrow> memcheck \<Rightarrow> bool" where
  "same_books a b \<longleftrightarrow>
    g_slots a = g_slots b \<and> g_active_count a = g_active_count b \<and>
    g_total_allocs a = g_total_allocs b \<and> g_total_frees a = g_total_frees b"

named_theorems books

lemma same_books_refl [simp]: "same_books a a"
  by (simp add: same_books_def)

lemma same_books_trans: "same_books a b \<Longrightarrow> same_books b c \<Longrightarrow> same_books a c"
  by (simp add: same_books_def)

lemma print_err_books [books]: "same_books (print_err m a) b \<longleftrightarrow> same_books a b"
  by (simp add: print_err_def same_books_def)

lemma print_free_site_books [books]: "same_books (print_free_site f l a) b \<longleftrightarrow> same_books a b"
  by (simp add: print_free_site_def print_err_books)

lemma init_policy_books [books]: "same_books (init_report_policy env a) b \<longleftrightarrow> same_books a b"
  by (simp add: init_report_policy_def same_books_def)

lemma atexit_books [books]: "same_books (ensure_atexit_registered env a) b \<longleftrightarrow> same_books a b"
  by (simp add: ensure_atexit_registered_def init_report_policy_def print_err_def same_books_def Let_def)

lemma counters_books [books]:
  "same_books (a\<lparr>g_unknown_frees := x, g_generation := y\<rparr>) b \<longleftrightarrow> same_books a b"
  "same_books (a\<lparr>g_double_frees := x, g_generation := y\<rparr>) b \<longleftrightarrow> same_books a b"
  "same_books (a\<lparr>g_tracker_failures := x, g_generation := y\<rparr>) b \<longleftrightarrow> same_books a b"
  "same_books (a\<lparr>g_last_report_generation := y\<rparr>) b \<longleftrightarrow> same_books a b"
  "same_books (a\<lparr>json_file := t\<rparr>) b \<longleftrightarrow> same_books a b"
  by (simp_all add: same_books_def)

lemma leak_sites_books [books]: "same_books (leak_sites_of ss a) b \<longleftrightarrow> same_books a b"
  by (induction ss a rule: leak_sites_of.induct) (auto simp: books)

lemma json_books [books]: "same_books (emit_json_report env t n a) b \<longleftrightarrow> same_books a b"
  by (auto simp: emit_json_report_def books Let_def split: option.splits)

lemma emit_report_books [books]: "same_books (emit_report env t a) b \<longleftrightarrow> same_books a b"
  by (simp add: emit_report_def Let_def emit_leak_sites_def books)

lemma report_books: "same_books (fisics_memcheck_report env a) a"
  by (simp add: fisics_memcheck_report_def books)

lemma at_exit_books: "same_books (fisics_memcheck_report_at_exit env a) a"
  by (auto simp: fisics_memcheck_report_at_exit_def should_emit_report_def Let_def books)

section \<open>The invariant of a world\<close>

text \<open>
  The table is in order, every active block is one the allocator considers allocated, and the
  number of successful allocations is the number of releases plus the number of active blocks.
\<close>

definition world_ok :: "mc_world \<Rightarrow> bool" where
  "world_ok w \<longleftrightarrow>
    memcheck_ok (mw_state w) \<and> active_blocks (mw_state w) \<subseteq> mw_live w \<and> 0 \<notin> mw_live w \<and>
    g_total_allocs (mw_state w) = g_total_frees (mw_state w) + g_active_count (mw_state w)"

lemma world_ok_books:
  assumes "world_ok \<lparr>mw_state = st, mw_live = live\<rparr>" "same_books st' st"
  shows "world_ok \<lparr>mw_state = st', mw_live = live\<rparr>"
  using assms by (auto simp: world_ok_def same_books_def memcheck_ok_def active_blocks_def)

lemma world_ok_initial: "0 \<notin> live \<Longrightarrow> world_ok \<lparr>mw_state = initial_memcheck, mw_live = live\<rparr>"
  using memcheck_ok_initial
  by (auto simp: world_ok_def active_blocks_def active_ptrs_iff initial_memcheck_def empty_slot_def)

text \<open>Tracking a block the allocator has just handed out.\<close>

lemma track_total:
  assumes "memcheck_ok st" "p \<noteq> 0" "p \<notin> active_blocks st"
  shows "g_total_allocs (track_allocation p sz file line st) =
      g_total_frees (track_allocation p sz file line st) + g_active_count (track_allocation p sz file line st)
    \<longleftrightarrow> g_total_allocs st = g_total_frees st + g_active_count st"
proof (cases "find_insert_slot (g_slots st) p")
  case None
  then show ?thesis using assms(2) by (simp add: track_allocation_def print_err_def)
next
  case (Some j)
  have t: "table_ok (g_slots st)" using assms(1) by (simp add: memcheck_ok_def)
  then have "insert_scan_ok (g_slots st) p (Some j)"
    using find_insert_slot_ok [OF t assms(2)] Some by simp
  then have "slot_state (g_slots st j) \<noteq> SLOT_ACTIVE"
    using active_slot_ptr_iff [OF t assms(2)] assms(3) by (simp add: active_blocks_def)
  then show ?thesis using Some assms(2) by (simp add: track_allocation_def)
qed

lemma world_ok_track:
  assumes "world_ok \<lparr>mw_state = st, mw_live = live\<rparr>" "a \<noteq> 0" "a \<notin> live"
  shows "world_ok \<lparr>mw_state = track_allocation a sz file line st, mw_live = insert a live\<rparr>"
proof -
  have ok: "memcheck_ok st" and sub: "active_blocks st \<subseteq> live" "0 \<notin> live"
    and tot: "g_total_allocs st = g_total_frees st + g_active_count st"
    using assms(1) by (simp_all add: world_ok_def)
  have na: "a \<notin> active_blocks st" using sub assms(3) by blast
  have "active_blocks (track_allocation a sz file line st) \<subseteq> insert a (active_blocks st)"
    using slots.active_ent_le [OF ok assms(2), of "(sz, file, line)"] by (simp add: enter_block_def)
  with sub have "active_blocks (track_allocation a sz file line st) \<subseteq> insert a live" by blast
  then show ?thesis
    unfolding world_ok_def mc_world.simps
    using sub(2) assms(2) tot track_total [OF ok assms(2) na] memcheck_ok_track [OF ok assms(2)]
    by (intro conjI) simp_all
qed

lemma release_totals:
  assumes "memcheck_ok st" "p \<in> active_blocks st"
  shows "g_total_frees (release_block p st) = g_total_frees st + 1"
    and "g_total_allocs (release_block p st) = g_total_allocs st"
  by (rule release_active [OF assms], simp add: release_block_def mark_released_def)+

lemma world_ok_release:
  assumes "world_ok \<lparr>mw_state = st, mw_live = live\<rparr>" "p \<in> active_blocks st"
  shows "world_ok \<lparr>mw_state = release_block p st, mw_live = live - {p}\<rparr>"
proof -
  have ok: "memcheck_ok st" using assms(1) by (simp add: world_ok_def)
  have "active_blocks st \<subseteq> live" "0 \<notin> live" using assms(1) by (simp_all add: world_ok_def)
  moreover have "g_total_allocs (release_block p st) =
      g_total_frees (release_block p st) + g_active_count (release_block p st)"
    using assms(1) release_totals [OF ok assms(2)] active_release(3) [OF ok assms(2)]
    by (simp add: world_ok_def)
  ultimately show ?thesis
    using active_release(1,2) [OF ok assms(2)] by (simp add: world_ok_def) blast
qed

lemma world_ok_reset:
  assumes "world_ok w"
  shows "world_ok (w\<lparr>mw_state := fisics_memcheck_reset (mw_state w)\<rparr>)"
proof -
  let ?s = "\<lambda>j. if j < FISICS_MEMCHECK_CAPACITY then empty_slot else g_slots (mw_state w) j"
  have none: "active_ptrs ?s = {}"
    by (auto simp: active_ptrs_iff empty_slot_def)
  have "table_ok ?s" by (simp add: table_ok_def empty_slot_def)
  then show ?thesis
    using assms none by (simp add: world_ok_def fisics_memcheck_reset_def memcheck_ok_def active_blocks_def)
qed

section \<open>The wrappers branch by branch\<close>

lemma atexit_same: "same_books (ensure_atexit_registered env st) st"
  by (simp add: books)

lemma ok_books: "same_books a b \<Longrightarrow> memcheck_ok a = memcheck_ok b"
  and active_books: "same_books a b \<Longrightarrow> active_blocks a = active_blocks b"
  and find_books: "same_books a b \<Longrightarrow> find_slot (g_slots a) = find_slot (g_slots b)"
  by (simp_all add: same_books_def memcheck_ok_def active_blocks_def)

text \<open>A block that was active and has been released: the table still knows it as freed.\<close>

definition freed_block :: "memcheck \<Rightarrow> u64 \<Rightarrow> bool" where
  "freed_block st p \<longleftrightarrow>
    (\<exists>j. find_slot (g_slots st) p = Some j \<and> slot_state (g_slots st j) = SLOT_FREED)"

lemma find_slot_cases:
  assumes "memcheck_ok st" "p \<noteq> 0"
  obtains (unknown) "find_slot (g_slots st) p = None" "p \<notin> active_blocks st" "\<not> freed_block st p"
  | (active) j where "find_slot (g_slots st) p = Some j" "slot_state (g_slots st j) = SLOT_ACTIVE"
      "p \<in> active_blocks st"
  | (freed) j where "find_slot (g_slots st) p = Some j" "slot_state (g_slots st j) = SLOT_FREED"
      "p \<notin> active_blocks st"
proof -
  have t: "table_ok (g_slots st)" using assms(1) by (simp add: memcheck_ok_def)
  note act = active_ptrs_find_slot [OF t assms(2), folded active_blocks_def]
  show thesis
  proof (cases "find_slot (g_slots st) p")
    case None
    then show ?thesis using unknown act by (simp add: freed_block_def)
  next
    case (Some j)
    then have "slot_state (g_slots st j) \<noteq> SLOT_EMPTY"
      using find_slot_Some_iff [OF t assms(2)] table_ok_empty_iff [OF t] assms(2) by auto
    then show ?thesis
      using Some active freed act by (cases "slot_state (g_slots st j)") auto
  qed
qed

lemma free_site_active:
  assumes "memcheck_ok st" "p \<in> active_blocks st"
  shows "fisics_memcheck_free_site env p file line st =
    (release_block p (ensure_atexit_registered env st), Some p)"
proof -
  let ?st = "ensure_atexit_registered env st"
  have ok: "memcheck_ok ?st" "p \<in> active_blocks ?st"
    using assms ok_books [OF atexit_same] active_books [OF atexit_same] by auto
  then have nz: "p \<noteq> 0" using active_ptrs_not_null by (auto simp: memcheck_ok_def active_blocks_def)
  show ?thesis
    using ok(2) nz by (cases rule: find_slot_cases [OF ok(1) nz])
      (auto simp: fisics_memcheck_free_site_def release_block_def)
qed

lemma free_site_not_active:
  assumes "memcheck_ok st" "p \<notin> active_blocks st"
  shows "\<exists>st'. fisics_memcheck_free_site env p file line st = (st', None) \<and> same_books st' st"
proof (cases "p = 0")
  case True
  then show ?thesis using atexit_same by (auto simp: fisics_memcheck_free_site_def)
next
  case False
  let ?st = "ensure_atexit_registered env st"
  have ok: "memcheck_ok ?st" "p \<notin> active_blocks ?st"
    using assms ok_books [OF atexit_same] active_books [OF atexit_same] by auto
  show ?thesis
    using ok(2) False by (cases rule: find_slot_cases [OF ok(1) False])
      (auto simp: fisics_memcheck_free_site_def Let_def books)
qed

lemma realloc_site_null:
  "fisics_memcheck_realloc_site env a 0 sz file line st =
    (if a \<noteq> 0 then track_allocation a sz file line (ensure_atexit_registered env st)
     else ensure_atexit_registered env st, a, Some 0)"
  by (simp add: fisics_memcheck_realloc_site_def Let_def)

lemma realloc_site_active:
  assumes "memcheck_ok st" "p \<in> active_blocks st"
  shows "fisics_memcheck_realloc_site env a p sz file line st =
    (let st1 = ensure_atexit_registered env st in
     if a = 0 then (st1, 0, Some p)
     else (track_allocation a sz file line (release_block p st1), a, Some p))"
proof -
  let ?st = "ensure_atexit_registered env st"
  have ok: "memcheck_ok ?st" "p \<in> active_blocks ?st"
    using assms ok_books [OF atexit_same] active_books [OF atexit_same] by auto
  then have nz: "p \<noteq> 0" using active_ptrs_not_null by (auto simp: memcheck_ok_def active_blocks_def)
  show ?thesis
    using ok(2) nz by (cases rule: find_slot_cases [OF ok(1) nz])
      (auto simp: fisics_memcheck_realloc_site_def release_block_def Let_def)
qed

lemma realloc_site_refused:
  assumes "memcheck_ok st" "p \<notin> active_blocks st" "p \<noteq> 0"
  shows "\<exists>st'. fisics_memcheck_realloc_site env a p sz file line st = (st', 0, None) \<and> same_books st' st"
proof -
  let ?st = "ensure_atexit_registered env st"
  have ok: "memcheck_ok ?st" "p \<notin> active_blocks ?st"
    using assms ok_books [OF atexit_same] active_books [OF atexit_same] by auto
  show ?thesis
    using ok(2) assms(3) by (cases rule: find_slot_cases [OF ok(1) assms(3)])
      (auto simp: fisics_memcheck_realloc_site_def Let_def books)
qed

section \<open>Every step keeps the invariant\<close>

lemma world_ok_atexit:
  "world_ok \<lparr>mw_state = st, mw_live = live\<rparr> \<Longrightarrow>
   world_ok \<lparr>mw_state = ensure_atexit_registered env st, mw_live = live\<rparr>"
  by (rule world_ok_books [OF _ atexit_same])

lemma world_ok_alloc:
  assumes "world_ok \<lparr>mw_state = st, mw_live = live\<rparr>" "libc_alloc live a live'"
  shows "world_ok \<lparr>mw_state = (if a \<noteq> 0 then track_allocation a sz file line (ensure_atexit_registered env st)
                     else ensure_atexit_registered env st), mw_live = live'\<rparr>"
  using assms world_ok_atexit world_ok_track by (auto simp: libc_alloc_def)

lemma world_ok_moved:
  assumes "world_ok \<lparr>mw_state = st, mw_live = live\<rparr>" "p \<in> active_blocks st"
    and "a \<noteq> 0" "a \<notin> live - {p}"
  shows "world_ok \<lparr>mw_state = track_allocation a sz file line (release_block p st),
                   mw_live = insert a (live - {p})\<rparr>"
  using world_ok_track [OF world_ok_release [OF assms(1,2)] assms(3,4)] .

lemma world_ok_realloc:
  assumes w: "world_ok \<lparr>mw_state = st, mw_live = live\<rparr>"
    and r: "fisics_memcheck_realloc_site env a p sz file line st = (st', r, called)"
    and c: "case called of None \<Rightarrow> live' = live | Some q \<Rightarrow> libc_realloc False q sz live a live'"
  shows "world_ok \<lparr>mw_state = st', mw_live = live'\<rparr> \<and> (\<forall>q. called = Some q \<longrightarrow> q = 0 \<or> q \<in> live)"
proof -
  let ?st = "ensure_atexit_registered env st"
  have ok: "memcheck_ok st" and sub: "active_blocks st \<subseteq> live" and nz: "0 \<notin> live"
    using w by (simp_all add: world_ok_def)
  have w1: "world_ok \<lparr>mw_state = ?st, mw_live = live\<rparr>" using w by (rule world_ok_atexit)
  consider "p = 0" | "p \<noteq> 0" "p \<notin> active_blocks st" | "p \<in> active_blocks st" by blast
  then show ?thesis
  proof cases
    case 1
    then have "libc_alloc live a live'" "called = Some 0"
      using r c nz by (auto simp: realloc_site_null libc_realloc_def libc_alloc_def split: if_splits)
    then show ?thesis using r world_ok_alloc [OF w] 1 by (auto simp: realloc_site_null)
  next
    case 2
    then have "called = None" "same_books st' st"
      using r realloc_site_refused [OF ok 2(2,1), of env a sz "file" line] by auto
    then show ?thesis using c world_ok_books [OF w] by simp
  next
    case 3
    then have called: "called = Some p" "p \<in> live"
      using r sub by (auto simp: realloc_site_active [OF ok 3] Let_def split: if_splits)
    have act: "p \<in> active_blocks ?st" using 3 active_books [OF atexit_same] by simp
    have "world_ok \<lparr>mw_state = st', mw_live = live'\<rparr>"
    proof (cases "a = 0")
      case True
      then show ?thesis
        using r c called w1 by (auto simp: realloc_site_active [OF ok 3] Let_def libc_realloc_def)
    next
      case False
      then have "live' = insert a (live - {p})" "a \<notin> live - {p}"
          "st' = track_allocation a sz file line (release_block p ?st)"
        using r c called
        by (auto simp: realloc_site_active [OF ok 3] Let_def libc_realloc_def simp del: insert_Diff_single)
      then show ?thesis using world_ok_moved [OF w1 act False] by blast
    qed
    then show ?thesis using called by simp
  qed
qed

lemma world_ok_free:
  assumes w: "world_ok \<lparr>mw_state = st, mw_live = live\<rparr>"
    and r: "fisics_memcheck_free_site env p file line st = (st', called)"
  shows "world_ok \<lparr>mw_state = st', mw_live = (case called of None \<Rightarrow> live | Some q \<Rightarrow> live - {q})\<rparr>
    \<and> (\<forall>q. called = Some q \<longrightarrow> q \<in> live)"
proof -
  have ok: "memcheck_ok st" and sub: "active_blocks st \<subseteq> live"
    using w by (simp_all add: world_ok_def)
  show ?thesis
  proof (cases "p \<in> active_blocks st")
    case True
    have "p \<in> active_blocks (ensure_atexit_registered env st)"
      using True active_books [OF atexit_same] by simp
    then show ?thesis
      using r sub True world_ok_release [OF world_ok_atexit [OF w]]
      by (auto simp: free_site_active [OF ok True])
  next
    case False
    then have "called = None" "same_books st' st"
      using r free_site_not_active [OF ok False, of env "file" line] by auto
    then show ?thesis using world_ok_books [OF w] by simp
  qed
qed

lemma mc_step_safe:
  assumes "mc_step False w lab w'" "world_ok w"
  shows "world_ok w' \<and> (\<forall>q. lab = Some q \<longrightarrow> q = 0 \<or> q \<in> mw_live w)"
proof -
  have eta: "world_ok \<lparr>mw_state = mw_state w, mw_live = mw_live w\<rparr>"
    using assms(2) by (cases w) simp
  from assms(1) show ?thesis
  proof (cases rule: mc_step.cases)
    case (step_malloc a live' env sz f line st' r)
    then show ?thesis
      using world_ok_alloc [of "mw_state w" "mw_live w" a live' sz f line env] eta
      by (auto simp: fisics_memcheck_malloc_site_def Let_def)
  next
    case (step_calloc a live' env count sz f line st' r)
    then show ?thesis
      using world_ok_alloc [of "mw_state w" "mw_live w" a live' "count * sz" f line env] eta
      by (auto simp: fisics_memcheck_calloc_site_def Let_def)
  next
    case (step_realloc_calls env a p sz f line st' r q live')
    then show ?thesis
      using world_ok_realloc [of "mw_state w" "mw_live w" env a p sz f line st' r "Some q" live'] eta
      by simp
  next
    case (step_realloc_refused env a p sz f line st' r)
    then show ?thesis
      using world_ok_realloc [of "mw_state w" "mw_live w" env a p sz f line st' r None] eta
      by simp
  next
    case (step_free_calls env p f line st' q)
    then show ?thesis
      using world_ok_free [of "mw_state w" "mw_live w" env p f line st' "Some q"] eta
      by simp
  next
    case (step_free_refused env p f line st')
    then show ?thesis
      using world_ok_free [of "mw_state w" "mw_live w" env p f line st' None] eta
      by simp
  next
    case (step_report env)
    then show ?thesis
      using world_ok_books [of "mw_state w" "mw_live w"] report_books eta by (cases w) auto
  next
    case (step_at_exit env)
    then show ?thesis
      using world_ok_books [of "mw_state w" "mw_live w"] at_exit_books eta by (cases w) auto
  next
    case step_reset
    then show ?thesis using world_ok_reset assms(2) by simp
  qed
qed

lemma mc_reachable_ok: "mc_reachable False w \<Longrightarrow> world_ok w"
proof (induction rule: mc_reachable.induct)
  case (mc_start live)
  then show ?case by (rule world_ok_initial)
next
  case (mc_next w lab w')
  then show ?case using mc_step_safe by blast
qed

end
