(* ===== verification/Memcheck_Props.thy ===== *)
theory Memcheck_Props
  imports Memcheck_Safety
begin

text \<open>
  The properties of the memory checker: what it protects the C allocator from, that its counters
  and its report tell the truth, and the two places where it does not do what it means to.
\<close>

section \<open>The report's ingredients\<close>

lemma leaked_bytes_of_sum:
  "leaked_bytes_of ss n = n + sum_list (map slot_size (filter (\<lambda>s. slot_state s = SLOT_ACTIVE) ss))"
  by (induction ss n rule: leaked_bytes_of.induct) (auto simp: algebra_simps)

lemma leak_sites_log:
  "err_log (leak_sites_of ss st) =
    err_log st @ map leak_message (filter (\<lambda>s. slot_state s = SLOT_ACTIVE) ss)"
  by (induction ss st rule: leak_sites_of.induct) (auto simp: print_err_def)

lemma leak_sites_generation [simp]:
  "g_generation (leak_sites_of ss st) = g_generation st"
  "g_last_report_generation (leak_sites_of ss st) = g_last_report_generation st"
  by (induction ss st rule: leak_sites_of.induct) (auto simp: print_err_def)

lemma json_report_log:
  "\<exists>tail. err_log (emit_json_report env t n st) = err_log st @ tail"
  by (auto simp: emit_json_report_def print_err_def Let_def split: option.splits)

lemma slot_list_cong: "g_slots a = g_slots b \<Longrightarrow> slot_list a = slot_list b"
  by (simp add: slot_list_def)

lemma emit_report_log:
  "\<exists>tail. err_log (emit_report env t st) = err_log st @
     Summary (g_active_count st) (compute_leaked_bytes st) (g_total_allocs st) (g_total_frees st)
       (g_double_frees st) (g_unknown_frees st) (g_tracker_failures st) #
     (if 0 < compute_leaked_bytes st
      then map leak_message (filter (\<lambda>s. slot_state s = SLOT_ACTIVE) (slot_list st)) else []) @ tail"
proof -
  let ?n = "compute_leaked_bytes st"
  let ?st1 = "print_err (Summary (g_active_count st) ?n (g_total_allocs st) (g_total_frees st)
    (g_double_frees st) (g_unknown_frees st) (g_tracker_failures st)) st"
  let ?st2 = "if 0 < ?n then emit_leak_sites ?st1 else ?st1"
  obtain tail where "err_log (emit_json_report env t ?n ?st2) = err_log ?st2 @ tail"
    using json_report_log by blast
  moreover have "err_log (emit_report env t st) = err_log (emit_json_report env t ?n ?st2)"
    by (simp add: emit_report_def Let_def)
  moreover have "slot_list ?st1 = slot_list st"
    by (rule slot_list_cong) (simp add: print_err_def)
  ultimately show ?thesis
    by (intro exI [of _ tail]) (simp add: emit_leak_sites_def leak_sites_log, simp add: print_err_def)
qed

lemma active_slot_count:
  assumes "memcheck_ok st"
  shows "length (filter (\<lambda>s. slot_state s = SLOT_ACTIVE) (slot_list st)) = unat (g_active_count st)"
proof -
  let ?A = "{j. j < FISICS_MEMCHECK_CAPACITY \<and> slot_state (g_slots st j) = SLOT_ACTIVE}"
  have t: "table_ok (g_slots st)" using assms by (simp add: memcheck_ok_def)
  have "inj_on (\<lambda>j. ptr (g_slots st j)) ?A"
  proof (rule inj_onI)
    fix j k assume "j \<in> ?A" "k \<in> ?A" "ptr (g_slots st j) = ptr (g_slots st k)"
    moreover from this have "ptr (g_slots st k) \<noteq> 0"
      using table_ok_empty_iff [OF t, of k] by auto
    ultimately show "j = k" using table_ok_unique [OF t, of j k] by simp
  qed
  then have "card (active_ptrs (g_slots st)) = card ?A"
    by (simp add: active_ptrs_def card_image)
  also have "\<dots> = length (filter (\<lambda>j. slot_state (g_slots st j) = SLOT_ACTIVE) [0..<FISICS_MEMCHECK_CAPACITY])"
  proof -
    have "?A = set (filter (\<lambda>j. slot_state (g_slots st j) = SLOT_ACTIVE) [0..<FISICS_MEMCHECK_CAPACITY])"
      by auto
    then show ?thesis by (metis distinct_card distinct_filter distinct_upt)
  qed
  finally show ?thesis
    using assms by (simp add: memcheck_ok_def slot_list_def filter_map comp_def)
qed

section \<open>A run of the checker used by the witnesses\<close>

definition quiet_env :: c_env where
  "quiet_env = \<lparr>env_getenv = (\<lambda>_. None), env_atexit_ok = True, env_fopen_ok = True, env_fclose_ok = True\<rparr>"

text \<open>The state after \<open>malloc(sz)\<close> returned the address 4096 in a fresh process.\<close>

definition after_malloc :: "c_env \<Rightarrow> size_t \<Rightarrow> memcheck" where
  "after_malloc env sz = fst (fisics_memcheck_malloc_site env 4096 sz (Some ''/tmp/a.c'') 7 initial_memcheck)"

lemma insert_into_empty: "p \<noteq> 0 \<Longrightarrow> find_insert_slot (\<lambda>_. empty_slot) p = Some (probe p 0)"
  by (simp add: find_insert_slot_def find_insert_slot_loop.simps [of _ p None 0] Let_def empty_slot_def)

lemma after_malloc_state:
  "after_malloc env sz = track_allocation 4096 sz (Some ''/tmp/a.c'') 7 (ensure_atexit_registered env initial_memcheck)"
  by (simp add: after_malloc_def fisics_memcheck_malloc_site_def Let_def)

lemma atexit_slots: "g_slots (ensure_atexit_registered env st) = g_slots st"
  using atexit_same [of env st] by (simp add: same_books_def)

lemma after_malloc_slots:
  "g_slots (after_malloc env sz) = (\<lambda>_. empty_slot)(probe 4096 0 :=
     \<lparr>ptr = 4096, slot_size = sz, alloc_file = Some ''/tmp/a.c'', alloc_line = 7, slot_state = SLOT_ACTIVE\<rparr>)"
  using insert_into_empty [of 4096]
  by (simp add: after_malloc_state track_allocation_def atexit_slots initial_memcheck_def)

lemma after_malloc_active: "active_blocks (after_malloc env sz) = {4096}"
  by (auto simp: active_blocks_def after_malloc_slots active_ptrs_iff empty_slot_def split: if_splits)

lemma after_malloc_leaked: "compute_leaked_bytes (after_malloc env sz) = sz"
proof -
  let ?f = "\<lambda>j. if j = probe 4096 0 then sz else 0"
  have "compute_leaked_bytes (after_malloc env sz) = sum_list (map ?f [0..<FISICS_MEMCHECK_CAPACITY])"
    unfolding compute_leaked_bytes_def slot_list_def leaked_bytes_of_sum
    by (simp add: after_malloc_slots sum_list_map_filter' filter_map comp_def empty_slot_def)
      (rule arg_cong [where f = sum_list], rule map_cong, simp_all)
  also have "\<dots> = (\<Sum>j < FISICS_MEMCHECK_CAPACITY. ?f j)"
    by (simp add: interv_sum_list_conv_sum_set_nat atLeast0LessThan)
  also have "\<dots> = sz" by (simp add: sum.delta)
  finally show ?thesis .
qed

definition demo_world :: mc_world where
  "demo_world = \<lparr>mw_state = after_malloc quiet_env 8, mw_live = {4096}\<rparr>"

lemma malloc_reachable:
  "mc_reachable zf \<lparr>mw_state = after_malloc env sz, mw_live = {4096}\<rparr>"
proof -
  let ?w = "\<lparr>mw_state = initial_memcheck, mw_live = {}\<rparr>"
  have "fisics_memcheck_malloc_site env 4096 sz (Some ''/tmp/a.c'') 7 (mw_state ?w) = (after_malloc env sz, 4096)"
    by (simp add: after_malloc_def fisics_memcheck_malloc_site_def Let_def)
  then have "mc_step zf ?w None \<lparr>mw_state = after_malloc env sz, mw_live = {4096}\<rparr>"
    by (intro mc_step.step_malloc) (auto simp: libc_alloc_def)
  moreover have "mc_reachable zf ?w" by (rule mc_reachable.mc_start) simp
  ultimately show ?thesis by (rule mc_reachable.mc_next [rotated])
qed

lemma demo_reachable: "mc_reachable False demo_world"
  by (simp add: demo_world_def malloc_reachable)

lemma demo_ok: "memcheck_ok (mw_state demo_world)"
  using mc_reachable_ok [OF demo_reachable] by (simp add: world_ok_def)

lemma demo_active: "active_blocks (mw_state demo_world) = {4096}"
  by (simp add: demo_world_def after_malloc_active)

lemma demo_free_step: "\<exists>w'. mc_step False demo_world (Some 4096) w'"
  using mc_step.step_free_calls [OF free_site_active [OF demo_ok, of 4096]] demo_active by blast

section \<open>Reading a JSON string back\<close>

text \<open>A reader of JSON string literals, as the specification of what the report must contain.\<close>

definition hex_val :: "char \<Rightarrow> nat option" where
  "hex_val c =
    (let n = of_char c in
     if 48 \<le> n \<and> n \<le> 57 then Some (n - 48) else if 97 \<le> n \<and> n \<le> 102 then Some (n - 87) else None)"

definition simple_escape :: "char \<Rightarrow> char option" where
  "simple_escape e = map_of
    [(CHR 0x22, CHR 0x22), (CHR 0x5C, CHR 0x5C), (CHR ''b'', CHR 0x08), (CHR ''f'', CHR 0x0C),
     (CHR ''n'', CHR 0x0A), (CHR ''r'', CHR 0x0D), (CHR ''t'', CHR 0x09)] e"

fun read_json_body :: "string \<Rightarrow> string option" where
  "read_json_body [] = None"
| "read_json_body (c # cs) =
    (if c = CHR 0x22 then (if cs = [] then Some [] else None)
     else if c = CHR 0x5C then
       (case cs of
          [] \<Rightarrow> None
        | e # rest \<Rightarrow>
            if e = CHR ''u'' then
              (case rest of
                 z1 # z2 # x # y # rest' \<Rightarrow>
                   (case (hex_val x, hex_val y) of
                      (Some a, Some b) \<Rightarrow>
                        if z1 = CHR ''0'' \<and> z2 = CHR ''0''
                        then map_option ((#) (char_of (16 * a + b))) (read_json_body rest') else None
                    | _ \<Rightarrow> None)
               | _ \<Rightarrow> None)
            else (case simple_escape e of Some d \<Rightarrow> map_option ((#) d) (read_json_body rest) | None \<Rightarrow> None))
     else if (of_char c :: nat) < 32 then None
     else map_option ((#) c) (read_json_body cs))"

definition read_json_string :: "string \<Rightarrow> string option" where
  "read_json_string t = (case t of [] \<Rightarrow> None | c # cs \<Rightarrow> if c = CHR 0x22 then read_json_body cs else None)"

lemma hex_val_digit: "d < 16 \<Longrightarrow> hex_val (hex_digit d) = Some d"
  by (auto simp: hex_val_def hex_digit_def take_bit_eq_mod Let_def)

lemma read_json_body_u:
  "d < 16 \<Longrightarrow> e < 16 \<Longrightarrow>
   read_json_body (CHR 0x5C # CHR ''u'' # CHR ''0'' # CHR ''0'' # hex_digit d # hex_digit e # rest) =
   map_option ((#) (char_of (16 * d + e))) (read_json_body rest)"
  by (simp add: hex_val_digit)

lemma read_json_plain:
  "c \<noteq> CHR 0x22 \<Longrightarrow> c \<noteq> CHR 0x5C \<Longrightarrow> 32 \<le> (of_char c :: nat) \<Longrightarrow>
   read_json_body (c # rest) = map_option ((#) c) (read_json_body rest)"
  by simp

lemma read_json_simple:
  "simple_escape e = Some d \<Longrightarrow> e \<noteq> CHR ''u'' \<Longrightarrow>
   read_json_body (CHR 0x5C # e # rest) = map_option ((#) d) (read_json_body rest)"
  by simp

lemma read_json_escape:
  "read_json_body (json_escape_char c @ rest) = map_option ((#) c) (read_json_body rest)"
proof -
  let ?n = "of_char c :: nat" and ?special = "[CHR 0x22, CHR 0x5C, CHR 0x08, CHR 0x0C, CHR 0x0A, CHR 0x0D, CHR 0x09]"
  consider "c \<in> set ?special" | "c \<notin> set ?special" "?n < 32" | "c \<notin> set ?special" "32 \<le> ?n"
    by linarith
  then show ?thesis
  proof cases
    case 1
    then show ?thesis
      by (auto simp: json_escape_char_def read_json_simple simple_escape_def simp del: read_json_body.simps)
  next
    case 2
    then have "json_escape_char c = [CHR 0x5C, CHR ''u'', CHR ''0'', CHR ''0'',
        hex_digit (?n div 16), hex_digit (?n mod 16)]"
      by (simp add: json_escape_char_def)
    moreover have "?n div 16 < 16" "?n mod 16 < 16" using 2 by auto
    moreover have "char_of (16 * (?n div 16) + ?n mod 16) = c"
      by (simp only: mult_div_mod_eq char_of_char)
    ultimately show ?thesis
      using read_json_body_u [of "?n div 16" "?n mod 16" rest] by (simp del: read_json_body.simps)
  next
    case 3
    then have "json_escape_char c = [c]" by (simp add: json_escape_char_def)
    then show ?thesis using 3 read_json_plain [of c rest] by (simp del: read_json_body.simps)
  qed
qed

lemma read_json_concat:
  "read_json_body (concat (map json_escape_char s) @ [CHR 0x22]) = Some s"
  by (induction s) (simp_all add: read_json_escape del: read_json_body.simps(2), simp)

section \<open>Properties\<close>

text \<open>A released block keeps its slot, marked as freed, and the search finds it there.\<close>

lemma released_slot_found:
  assumes "memcheck_ok st" "p \<in> active_blocks st"
  obtains j where "find_slot (g_slots (release_block p st)) p = Some j"
    "slot_state (g_slots (release_block p st) j) = SLOT_FREED"
proof -
  obtain j where j: "find_slot (g_slots st) p = Some j" "j < FISICS_MEMCHECK_CAPACITY"
      "ptr (g_slots st j) = p" "slot_state (g_slots st j) = SLOT_ACTIVE"
    using release_active [OF assms] by blast
  have nz: "p \<noteq> 0" using assms active_ptrs_not_null by (auto simp: memcheck_ok_def active_blocks_def)
  have slot: "ptr (g_slots (release_block p st) j) = p"
      "slot_state (g_slots (release_block p st) j) = SLOT_FREED"
    using j by (simp_all add: release_block_def mark_released_def)
  then have "find_slot (g_slots (release_block p st)) p = Some j"
    using find_slot_Some_iff [of "g_slots (release_block p st)" p j] active_release(2) [OF assms] j(2) nz
    by (simp add: memcheck_ok_def)
  then show thesis using slot(2) that by blast
qed

lemma atexit_counters:
  "g_double_frees (ensure_atexit_registered env st) = g_double_frees st"
  "g_unknown_frees (ensure_atexit_registered env st) = g_unknown_frees st"
  "env_atexit_ok env \<or> g_atexit_registered st \<Longrightarrow>
     g_tracker_failures (ensure_atexit_registered env st) = g_tracker_failures st \<and>
     g_generation (ensure_atexit_registered env st) = g_generation st"
  by (auto simp: ensure_atexit_registered_def init_report_policy_def print_err_def Let_def)

text \<open>
  C1. The checker never hands the C library a block that is not allocated: in every reachable state
  of a program that allocates through the runtime, a pointer passed on to \<open>free\<close> or \<open>realloc\<close> (other
  than the null pointer \<open>realloc\<close> accepts) is one the allocator has handed out and not taken back.
  The allocator is any that keeps the old block when \<open>realloc\<close> fails.
\<close>

theorem memcheck_frees_only_live_blocks:
  assumes "mc_reachable False w" "mc_step False w (Some q) w'" "q \<noteq> 0"
  shows "q \<in> mw_live w"
  using mc_step_safe [OF assms(2) mc_reachable_ok [OF assms(1)]] assms(3) by simp

theorem memcheck_frees_only_live_blocks_witness:
  "\<exists>w'. mc_reachable False demo_world \<and> mc_step False demo_world (Some 4096) w' \<and> 4096 \<in> mw_live demo_world"
proof -
  obtain w' where "mc_step False demo_world (Some 4096) w'"
    using demo_free_step by blast
  then show ?thesis
    using demo_reachable memcheck_frees_only_live_blocks [of demo_world 4096 w'] by auto
qed

text \<open>
  C2. The counters tell the truth in every reachable state: successful allocations are releases plus
  active blocks, the active count is the number of active slots, and every active block is one the
  allocator considers allocated.
\<close>

theorem memcheck_accounting:
  assumes "mc_reachable False w"
  shows "g_total_allocs (mw_state w) = g_total_frees (mw_state w) + g_active_count (mw_state w) \<and>
    unat (g_active_count (mw_state w)) = card (active_blocks (mw_state w)) \<and>
    active_blocks (mw_state w) \<subseteq> mw_live w"
  using mc_reachable_ok [OF assms] slots.counted_active by (simp add: world_ok_def)

theorem memcheck_accounting_witness:
  "unat (g_active_count (mw_state demo_world)) = 1"
  using memcheck_accounting [OF demo_reachable] by (simp add: demo_active)

text \<open>
  C3. Lookup is complete and sound in every reachable state: \<open>find_slot\<close> returns an index exactly
  when that slot of the table holds the pointer, although it stops at the first empty slot and the
  table holds tombstones of freed blocks.
\<close>

theorem memcheck_find_slot_correct:
  assumes "mc_reachable False w" "p \<noteq> 0"
  shows "find_slot (g_slots (mw_state w)) p = Some j \<longleftrightarrow>
    j < FISICS_MEMCHECK_CAPACITY \<and> ptr (g_slots (mw_state w) j) = p"
  using mc_reachable_ok [OF assms(1)] assms(2) find_slot_Some_iff
  by (auto simp: world_ok_def memcheck_ok_def)

theorem memcheck_find_slot_correct_witness:
  "find_slot (g_slots (mw_state demo_world)) 4096 = Some (probe 4096 0)"
  using memcheck_find_slot_correct [OF demo_reachable, of 4096 "probe 4096 0"]
  by (simp add: demo_world_def after_malloc_slots)

text \<open>
  C4. A tracked block can be freed once. The first \<open>free\<close> reaches the C library and releases the
  block. A second \<open>free\<close> of it, from any call site, passes nothing on to the C library: apart from
  the registration of the exit handler, which every wrapper first attempts, its whole effect is one
  more double free, one more generation and the message \<open>DoubleFree\<close> at the end of the log, followed
  by the site of the call when that is known. The table, the counts of allocations, releases, active
  blocks and unknown frees stay as they are.
\<close>

theorem memcheck_double_free_detected:
  assumes "mc_reachable False w" "p \<in> active_blocks (mw_state w)"
    and "fisics_memcheck_free_site env p file line (mw_state w) = (st1, c1)"
    and "fisics_memcheck_free_site env' p file' line' st1 = (st2, c2)"
  shows "c1 = Some p \<and> active_blocks st1 = active_blocks (mw_state w) - {p} \<and> c2 = None \<and>
    (let st = ensure_atexit_registered env' st1 in
     st2 = st\<lparr>g_double_frees := g_double_frees st + 1, g_generation := g_generation st + 1,
       err_log := err_log st @ DoubleFree #
         (if file' \<noteq> None \<and> 0 < line' then [FreeSite (display_file_name file') line'] else [])\<rparr>) \<and>
    g_double_frees st2 = g_double_frees st1 + 1 \<and> g_unknown_frees st2 = g_unknown_frees st1 \<and>
    (env_atexit_ok env' \<or> g_atexit_registered st1 \<longrightarrow>
      g_tracker_failures st2 = g_tracker_failures st1 \<and> g_generation st2 = g_generation st1 + 1) \<and>
    same_books st2 st1"
proof -
  let ?st = "ensure_atexit_registered env (mw_state w)"
  let ?st' = "ensure_atexit_registered env' st1"
  have ok0: "memcheck_ok (mw_state w)" using mc_reachable_ok [OF assms(1)] by (simp add: world_ok_def)
  then have ok: "memcheck_ok ?st" and act: "p \<in> active_blocks ?st"
    using ok_books [OF atexit_same] active_books [OF atexit_same] assms(2) by auto
  have st1: "st1 = release_block p ?st" "c1 = Some p"
    using free_site_active [OF ok0 assms(2)] assms(3) by auto
  have gone: "active_blocks st1 = active_blocks (mw_state w) - {p}"
    using active_release(1) [OF ok act] active_books [OF atexit_same] st1 by simp
  obtain j where find1: "find_slot (g_slots ?st') p = Some j" "slot_state (g_slots ?st' j) = SLOT_FREED"
    using released_slot_found [OF ok act] by (auto simp: st1 atexit_slots)
  have nz: "p \<noteq> 0" using act ok active_ptrs_not_null by (auto simp: memcheck_ok_def active_blocks_def)
  have second: "fisics_memcheck_free_site env' p file' line' st1 =
      (print_free_site file' line' (print_err DoubleFree
        (?st'\<lparr>g_double_frees := g_double_frees ?st' + 1, g_generation := g_generation ?st' + 1\<rparr>)), None)"
    using nz find1 by (simp add: fisics_memcheck_free_site_def Let_def)
  then have st2: "c2 = None" "st2 = ?st'\<lparr>g_double_frees := g_double_frees ?st' + 1,
      g_generation := g_generation ?st' + 1, err_log := err_log ?st' @ DoubleFree #
        (if file' \<noteq> None \<and> 0 < line' then [FreeSite (display_file_name file') line'] else [])\<rparr>"
    using assms(4) by (auto simp: print_free_site_def print_err_def)
  moreover have "same_books st2 st1"
    using second assms(4) by (auto simp: books)
  ultimately show ?thesis
    using st1 gone by (simp add: atexit_counters Let_def)
qed

theorem memcheck_double_free_detected_witness:
  "\<exists>st1 c1 st2 c2. fisics_memcheck_free_site quiet_env 4096 None 0 (mw_state demo_world) = (st1, c1) \<and>
     fisics_memcheck_free_site quiet_env 4096 (Some ''a.c'') 7 st1 = (st2, c2) \<and> c2 = None \<and>
     g_double_frees st2 = g_double_frees st1 + 1 \<and>
     err_log st2 = err_log (ensure_atexit_registered quiet_env st1) @ [DoubleFree, FreeSite ''a.c'' 7]"
proof -
  obtain st1 c1 where 1: "fisics_memcheck_free_site quiet_env 4096 None 0 (mw_state demo_world) = (st1, c1)"
    by (cases "fisics_memcheck_free_site quiet_env 4096 None 0 (mw_state demo_world)")
  obtain st2 c2 where 2: "fisics_memcheck_free_site quiet_env 4096 (Some ''a.c'') 7 st1 = (st2, c2)"
    by (cases "fisics_memcheck_free_site quiet_env 4096 (Some ''a.c'') 7 st1")
  have "display_file_name (Some ''a.c'') = ''a.c''" by code_simp
  then show ?thesis
    using memcheck_double_free_detected [OF demo_reachable _ 1 2] demo_active 1 2 by (auto simp: Let_def)
qed

text \<open>
  C5. The bookkeeping refines the abstract ledger: after any sequence of tracked allocations and
  releases that enters at most as many blocks as the table has slots, the blocks the table calls
  active are exactly those allocated and not released since, and the active counter is their number.
\<close>

theorem memcheck_refines_ledger:
  assumes "\<forall>e \<in> set es. op_key e \<noteq> 0" "length (filter is_entered es) \<le> FISICS_MEMCHECK_CAPACITY"
  shows "active_blocks (fold (ledger_apply enter_block release_block) es initial_memcheck)
      = fold ledger_spec es {} \<and>
    unat (g_active_count (fold (ledger_apply enter_block release_block) es initial_memcheck)) =
      card (fold ledger_spec es {})"
proof -
  have none: "active_blocks initial_memcheck = {}"
    by (auto simp: active_blocks_def active_ptrs_iff initial_memcheck_def empty_slot_def)
  then have "active_blocks (fold (ledger_apply enter_block release_block) es initial_memcheck)
      = fold ledger_spec es {}"
    using slots.run_exact [OF memcheck_ok_initial assms(1)] assms(2) by simp
  then show ?thesis
    using slots.run_counted [OF memcheck_ok_initial assms(1)] by simp
qed

theorem memcheck_refines_ledger_witness:
  "active_blocks (fold (ledger_apply enter_block release_block)
     [Entered 16 (8, None, 0), Entered 32 (8, None, 0), Retired 16] initial_memcheck) = {32}"
proof -
  have "fold ledger_spec [Entered 16 (8, None, 0), Entered 32 (8, None, 0), Retired (16 :: u64)] {} = {32}"
    by auto
  moreover have "3 \<le> FISICS_MEMCHECK_CAPACITY" by (simp add: FISICS_MEMCHECK_CAPACITY_def)
  ultimately show ?thesis
    using memcheck_refines_ledger [of "[Entered 16 (8, None, 0), Entered 32 (8, None, 0), Retired 16]"]
    by simp
qed

text \<open>
  C6. In every reachable state, a report that finds leaked bytes prints the summary of the counters
  and then one line per active block, as many as the summary's active count says.
\<close>

theorem memcheck_report_lists_every_leak:
  assumes "mc_reachable False w" "0 < compute_leaked_bytes (mw_state w)"
  shows "\<exists>lines tail. err_log (fisics_memcheck_report env (mw_state w)) = err_log (mw_state w) @
      Summary (g_active_count (mw_state w)) (compute_leaked_bytes (mw_state w)) (g_total_allocs (mw_state w))
        (g_total_frees (mw_state w)) (g_double_frees (mw_state w)) (g_unknown_frees (mw_state w))
        (g_tracker_failures (mw_state w)) # lines @ tail \<and>
    lines = map leak_message (filter (\<lambda>s. slot_state s = SLOT_ACTIVE) (slot_list (mw_state w))) \<and>
    length lines = unat (g_active_count (mw_state w))"
proof -
  have "memcheck_ok (mw_state w)" using mc_reachable_ok [OF assms(1)] by (simp add: world_ok_def)
  then show ?thesis
    using emit_report_log [of env "''manual''" "mw_state w"] assms(2) active_slot_count
    by (auto simp: fisics_memcheck_report_def)
qed

theorem memcheck_report_lists_every_leak_witness:
  "\<exists>lines tail. err_log (fisics_memcheck_report quiet_env (mw_state demo_world)) =
     err_log (mw_state demo_world) @ Summary (g_active_count (mw_state demo_world)) 8
       (g_total_allocs (mw_state demo_world)) (g_total_frees (mw_state demo_world))
       (g_double_frees (mw_state demo_world)) (g_unknown_frees (mw_state demo_world))
       (g_tracker_failures (mw_state demo_world)) # lines @ tail \<and> length lines = 1"
proof -
  have leaked: "compute_leaked_bytes (mw_state demo_world) = 8"
    by (simp add: demo_world_def after_malloc_leaked)
  moreover have "unat (g_active_count (mw_state demo_world)) = 1"
    using slots.counted_active [OF demo_ok] demo_active by simp
  ultimately show ?thesis
    using memcheck_report_lists_every_leak [OF demo_reachable, of quiet_env] by auto
qed

text \<open>
  A report at exit is not printed twice: right after a manual report the exit handler does
  nothing, whatever the policy.
\<close>

theorem memcheck_exit_report_not_duplicated:
  "fisics_memcheck_report_at_exit env (fisics_memcheck_report env' st) = fisics_memcheck_report env' st"
  by (simp add: fisics_memcheck_report_at_exit_def fisics_memcheck_report_def emit_report_def Let_def)

text \<open>
  C7. The JSON report's strings are well formed: reading the literal written for a C string gives
  the string back, so quotes, backslashes and control characters in file names cannot break the
  report.
\<close>

theorem memcheck_json_string_roundtrip: "read_json_string (emit_json_string (Some s)) = Some s"
  using read_json_concat [of s] by (simp add: read_json_string_def emit_json_string_def del: read_json_body.simps)

text \<open>
  With an allocator whose \<open>realloc(p, 0)\<close> frees the block and returns \<open>NULL\<close> (as the GNU C
  library's does), the runtime takes the \<open>NULL\<close> for a failure and keeps the block active, so a later
  \<open>free(p)\<close> reaches the C library although \<open>p\<close> is no longer allocated.
\<close>

theorem memcheck_realloc_zero_double_free:
  "\<exists>w q w'. mc_reachable True w \<and> mc_step True w (Some q) w' \<and> q \<noteq> 0 \<and> q \<notin> mw_live w"
proof -
  let ?st = "after_malloc quiet_env 8" and ?w1 = "\<lparr>mw_state = after_malloc quiet_env 8, mw_live = {4096}\<rparr>"
  let ?w2 = "\<lparr>mw_state = ensure_atexit_registered quiet_env ?st, mw_live = {}\<rparr>"
  have ok: "memcheck_ok ?st" and act: "4096 \<in> active_blocks ?st"
    using demo_ok demo_active by (simp_all add: demo_world_def)
  have "fisics_memcheck_realloc_site quiet_env 0 4096 0 None 0 ?st =
      (ensure_atexit_registered quiet_env ?st, 0, Some 4096)"
    using realloc_site_active [OF ok act] by (simp add: Let_def)
  then have "mc_step True ?w1 (Some 4096) ?w2"
    by (intro mc_step.step_realloc_calls [where w = ?w1 and a = 0 and p = 4096 and sz = 0])
      (auto simp: libc_realloc_def)
  with malloc_reachable [of True quiet_env 8] have r: "mc_reachable True ?w2"
    by (rule mc_reachable.mc_next)
  have "memcheck_ok (mw_state ?w2)" "4096 \<in> active_blocks (mw_state ?w2)"
    using ok act ok_books [OF atexit_same] active_books [OF atexit_same] by auto
  then have "\<exists>w'. mc_step True ?w2 (Some 4096) w'"
    using mc_step.step_free_calls [OF free_site_active] by blast
  with r show ?thesis by fastforce
qed

text \<open>
  Under the policy \<open>leaks\<close> a program whose only leaked blocks have size zero exits without any
  report, although blocks are still active: the policy looks at the leaked bytes, not at the blocks.
\<close>

theorem memcheck_zero_size_leak_unreported:
  "env_getenv env ''FISICS_MEMCHECK_REPORT'' = Some ''leaks'' \<Longrightarrow> env_atexit_ok env \<Longrightarrow>
   active_blocks (after_malloc env 0) \<noteq> {} \<and>
   fisics_memcheck_report_at_exit env (after_malloc env 0) = after_malloc env 0"
  using after_malloc_leaked [of env 0] insert_into_empty [of 4096] after_malloc_active [of env 0]
  by (simp add: fisics_memcheck_report_at_exit_def should_emit_report_def init_report_policy_def Let_def
      after_malloc_state track_allocation_def ensure_atexit_registered_def parse_report_policy_def
      memcheck_streq_def initial_memcheck_def)

definition leaks_env :: c_env where
  "leaks_env = quiet_env\<lparr>env_getenv := (\<lambda>v. if v = ''FISICS_MEMCHECK_REPORT'' then Some ''leaks'' else None)\<rparr>"

theorem memcheck_zero_size_leak_unreported_witness:
  "active_blocks (after_malloc leaks_env 0) \<noteq> {} \<and>
   fisics_memcheck_report_at_exit leaks_env (after_malloc leaks_env 0) = after_malloc leaks_env 0"
  using memcheck_zero_size_leak_unreported [of leaks_env] by (simp add: leaks_env_def quiet_env_def)

end
