(* ===== verification/Units_Dim.thy ===== *)
theory Units_Dim
  imports Prelude
begin

text \<open>
  Physical dimensions, \<open>src/src/Extensions/Units/units_model.c\<close>: a dimension is the vector of the
  exponents of eight base dimensions, each a signed 8-bit integer; multiplication, division and
  powers of quantities add, subtract and scale the vectors and report overflow. Out-parameters are
  results here, so a null out-pointer has no counterpart.
\<close>

section \<open>Dimension vectors\<close>

definition FISICS_DIM_COUNT :: nat where
  "FISICS_DIM_COUNT = 8"

datatype FisicsDimSlot =
    DIM_LENGTH | DIM_MASS | DIM_TIME | DIM_CURRENT | DIM_TEMPERATURE | DIM_AMOUNT | DIM_LUMINOUS | DIM_CUSTOM

fun dim_slot_index :: "FisicsDimSlot \<Rightarrow> nat" where
  "dim_slot_index DIM_LENGTH = 0"
| "dim_slot_index DIM_MASS = 1"
| "dim_slot_index DIM_TIME = 2"
| "dim_slot_index DIM_CURRENT = 3"
| "dim_slot_index DIM_TEMPERATURE = 4"
| "dim_slot_index DIM_AMOUNT = 5"
| "dim_slot_index DIM_LUMINOUS = 6"
| "dim_slot_index DIM_CUSTOM = 7"

text \<open>The array \<open>e\<close> of the struct, read as integers.\<close>

type_synonym FisicsDim8 = "int list"

definition fits_i8 :: "int \<Rightarrow> bool" where
  "fits_i8 v \<longleftrightarrow> - 128 \<le> v \<and> v \<le> 127"

text \<open>What the C type guarantees: eight exponents, each of type \<open>int8_t\<close>.\<close>

definition dim_ok :: "FisicsDim8 \<Rightarrow> bool" where
  "dim_ok d \<longleftrightarrow> length d = FISICS_DIM_COUNT \<and> (\<forall>v \<in> set d. fits_i8 v)"

definition checked_cast_i8 :: "int \<Rightarrow> int option" where
  "checked_cast_i8 v = (if v < - 128 \<or> v > 127 then None else Some v)"

definition fisics_dim_zero :: FisicsDim8 where
  "fisics_dim_zero = replicate FISICS_DIM_COUNT 0"

definition dim_with_slot :: "FisicsDimSlot \<Rightarrow> FisicsDim8" where
  "dim_with_slot slot = (replicate FISICS_DIM_COUNT 0)[dim_slot_index slot := 1]"

text \<open>The loop over the eight exponents, stopping at the first difference.\<close>

fun dim_equal_from :: "FisicsDim8 \<Rightarrow> FisicsDim8 \<Rightarrow> nat list \<Rightarrow> bool" where
  "dim_equal_from a b [] = True"
| "dim_equal_from a b (i # is) = (if a ! i \<noteq> b ! i then False else dim_equal_from a b is)"

definition fisics_dim_equal :: "FisicsDim8 \<Rightarrow> FisicsDim8 \<Rightarrow> bool" where
  "fisics_dim_equal a b = dim_equal_from a b [0..<FISICS_DIM_COUNT]"

text \<open>
  The loops of \<open>fisics_dim_add\<close>, \<open>fisics_dim_sub\<close>: each exponent is computed as an \<open>int\<close> (two \<open>int8_t\<close>
  cannot overflow it) and cast back with a check.
\<close>

fun dim_combine :: "(int \<Rightarrow> int \<Rightarrow> int) \<Rightarrow> FisicsDim8 \<Rightarrow> FisicsDim8 \<Rightarrow> nat list \<Rightarrow> FisicsDim8 \<Rightarrow> FisicsDim8 option" where
  "dim_combine f a b [] out = Some out"
| "dim_combine f a b (i # is) out =
    (case checked_cast_i8 (f (a ! i) (b ! i)) of
       None \<Rightarrow> None
     | Some v \<Rightarrow> dim_combine f a b is (out[i := v]))"

definition fisics_dim_add :: "FisicsDim8 \<Rightarrow> FisicsDim8 \<Rightarrow> FisicsDim8 option" where
  "fisics_dim_add a b = dim_combine (+) a b [0..<FISICS_DIM_COUNT] (replicate FISICS_DIM_COUNT 0)"

definition fisics_dim_sub :: "FisicsDim8 \<Rightarrow> FisicsDim8 \<Rightarrow> FisicsDim8 option" where
  "fisics_dim_sub a b = dim_combine (-) a b [0..<FISICS_DIM_COUNT] (replicate FISICS_DIM_COUNT 0)"

text \<open>
  \<open>fisics_dim_scale\<close> multiplies an exponent by an \<open>int\<close>; the product can overflow \<open>int\<close>, which C leaves
  undefined.
\<close>

fun dim_scale_from :: "FisicsDim8 \<Rightarrow> int \<Rightarrow> nat list \<Rightarrow> FisicsDim8 \<Rightarrow> (unit, FisicsDim8) outcome" where
  "dim_scale_from d pw [] out = Done out"
| "dim_scale_from d pw (i # is) out =
    (if \<not> fits_int (d ! i * pw) then Undefined
     else case checked_cast_i8 (d ! i * pw) of
       None \<Rightarrow> Fail ()
     | Some v \<Rightarrow> dim_scale_from d pw is (out[i := v]))"

definition fisics_dim_scale :: "FisicsDim8 \<Rightarrow> int \<Rightarrow> (unit, FisicsDim8) outcome" where
  "fisics_dim_scale d pw = dim_scale_from d pw [0..<FISICS_DIM_COUNT] (replicate FISICS_DIM_COUNT 0)"

fun dimensionless_from :: "FisicsDim8 \<Rightarrow> nat list \<Rightarrow> bool" where
  "dimensionless_from d [] = True"
| "dimensionless_from d (i # is) = (if d ! i \<noteq> 0 then False else dimensionless_from d is)"

definition fisics_dim_is_dimensionless :: "FisicsDim8 \<Rightarrow> bool" where
  "fisics_dim_is_dimensionless d = dimensionless_from d [0..<FISICS_DIM_COUNT]"

section \<open>Printing a dimension\<close>

definition baseNames :: "string list" where
  "baseNames = [''m'', ''kg'', ''s'', ''A'', ''K'', ''mol'', ''cd'', ''X'']"

text \<open>The printer's variables: the characters written so far and the two flags.\<close>

record dim_printer =
  dp_buffer :: string
  dp_hasNum :: bool
  dp_hasDen :: bool

definition dim_print_step :: "FisicsDim8 \<Rightarrow> nat \<Rightarrow> nat \<Rightarrow> dim_printer \<Rightarrow> dim_printer" where
  "dim_print_step d pass i p =
    (let exp = d ! i in
     if (pass = 0 \<and> exp \<le> 0) \<or> (pass = 1 \<and> exp \<ge> 0) then p
     else
       let mag = (if exp > 0 then exp else - exp);
           p1 = (if pass = 0 then
                   p\<lparr>dp_buffer := dp_buffer p @ (if dp_hasNum p then ''*'' else []), dp_hasNum := True\<rparr>
                 else if \<not> dp_hasDen p then
                   p\<lparr>dp_buffer := dp_buffer p @ ''/'', dp_hasDen := True\<rparr>
                 else p\<lparr>dp_buffer := dp_buffer p @ ''*''\<rparr>)
       in p1\<lparr>dp_buffer := dp_buffer p1 @ baseNames ! i @ (if mag \<noteq> 1 then CHR ''^'' # show_nat (nat mag) else [])\<rparr>)"

fun dim_print_pass :: "FisicsDim8 \<Rightarrow> nat \<Rightarrow> nat list \<Rightarrow> dim_printer \<Rightarrow> dim_printer" where
  "dim_print_pass d pass [] p = p"
| "dim_print_pass d pass (i # is) p = dim_print_pass d pass is (dim_print_step d pass i p)"

definition fisics_dim_to_string :: "FisicsDim8 \<Rightarrow> string" where
  "fisics_dim_to_string d =
    (let p0 = \<lparr>dp_buffer = [], dp_hasNum = False, dp_hasDen = False\<rparr>;
         p = dim_print_pass d 1 [0..<FISICS_DIM_COUNT] (dim_print_pass d 0 [0..<FISICS_DIM_COUNT] p0)
     in if \<not> dp_hasNum p \<and> \<not> dp_hasDen p then ''1''
        else if \<not> dp_hasNum p \<and> dp_hasDen p then CHR ''1'' # dp_buffer p
        else dp_buffer p)"

section \<open>Named dimensions\<close>

definition fisics_dim_length :: FisicsDim8 where "fisics_dim_length = dim_with_slot DIM_LENGTH"
definition fisics_dim_mass :: FisicsDim8 where "fisics_dim_mass = dim_with_slot DIM_MASS"
definition fisics_dim_time :: FisicsDim8 where "fisics_dim_time = dim_with_slot DIM_TIME"
definition fisics_dim_current :: FisicsDim8 where "fisics_dim_current = dim_with_slot DIM_CURRENT"
definition fisics_dim_temperature :: FisicsDim8 where "fisics_dim_temperature = dim_with_slot DIM_TEMPERATURE"
definition fisics_dim_amount :: FisicsDim8 where "fisics_dim_amount = dim_with_slot DIM_AMOUNT"
definition fisics_dim_luminous :: FisicsDim8 where "fisics_dim_luminous = dim_with_slot DIM_LUMINOUS"
definition fisics_dim_custom :: FisicsDim8 where "fisics_dim_custom = dim_with_slot DIM_CUSTOM"
definition fisics_dim_velocity :: FisicsDim8 where "fisics_dim_velocity = [1, 0, -1, 0, 0, 0, 0, 0]"
definition fisics_dim_acceleration :: FisicsDim8 where "fisics_dim_acceleration = [1, 0, -2, 0, 0, 0, 0, 0]"
definition fisics_dim_area :: FisicsDim8 where "fisics_dim_area = [2, 0, 0, 0, 0, 0, 0, 0]"
definition fisics_dim_second_moment_of_area :: FisicsDim8 where
  "fisics_dim_second_moment_of_area = [4, 0, 0, 0, 0, 0, 0, 0]"
definition fisics_dim_force :: FisicsDim8 where "fisics_dim_force = [1, 1, -2, 0, 0, 0, 0, 0]"
definition fisics_dim_energy :: FisicsDim8 where "fisics_dim_energy = [2, 1, -2, 0, 0, 0, 0, 0]"
definition fisics_dim_power :: FisicsDim8 where "fisics_dim_power = [2, 1, -3, 0, 0, 0, 0, 0]"
definition fisics_dim_pressure :: FisicsDim8 where "fisics_dim_pressure = [-1, 1, -2, 0, 0, 0, 0, 0]"
definition fisics_dim_charge :: FisicsDim8 where "fisics_dim_charge = [0, 0, 1, 1, 0, 0, 0, 0]"
definition fisics_dim_voltage :: FisicsDim8 where "fisics_dim_voltage = [2, 1, -3, -1, 0, 0, 0, 0]"
definition fisics_dim_resistance :: FisicsDim8 where "fisics_dim_resistance = [2, 1, -3, -2, 0, 0, 0, 0]"

datatype FisicsDimFamily =
    FAMILY_DIMENSIONLESS | FAMILY_LENGTH | FAMILY_MASS | FAMILY_TIME | FAMILY_CURRENT | FAMILY_TEMPERATURE
  | FAMILY_AMOUNT | FAMILY_LUMINOUS | FAMILY_CUSTOM | FAMILY_VELOCITY | FAMILY_ACCELERATION | FAMILY_AREA
  | FAMILY_SECOND_MOMENT_OF_AREA | FAMILY_FORCE | FAMILY_ENERGY | FAMILY_POWER | FAMILY_PRESSURE
  | FAMILY_CHARGE | FAMILY_VOLTAGE | FAMILY_RESISTANCE

fun fisics_dim_family_name :: "FisicsDimFamily \<Rightarrow> string" where
  "fisics_dim_family_name FAMILY_DIMENSIONLESS = ''dimensionless''"
| "fisics_dim_family_name FAMILY_LENGTH = ''length''"
| "fisics_dim_family_name FAMILY_MASS = ''mass''"
| "fisics_dim_family_name FAMILY_TIME = ''time''"
| "fisics_dim_family_name FAMILY_CURRENT = ''current''"
| "fisics_dim_family_name FAMILY_TEMPERATURE = ''temperature''"
| "fisics_dim_family_name FAMILY_AMOUNT = ''amount''"
| "fisics_dim_family_name FAMILY_LUMINOUS = ''luminous''"
| "fisics_dim_family_name FAMILY_CUSTOM = ''custom''"
| "fisics_dim_family_name FAMILY_VELOCITY = ''velocity''"
| "fisics_dim_family_name FAMILY_ACCELERATION = ''acceleration''"
| "fisics_dim_family_name FAMILY_AREA = ''area''"
| "fisics_dim_family_name FAMILY_SECOND_MOMENT_OF_AREA = ''second_moment_of_area''"
| "fisics_dim_family_name FAMILY_FORCE = ''force''"
| "fisics_dim_family_name FAMILY_ENERGY = ''energy''"
| "fisics_dim_family_name FAMILY_POWER = ''power''"
| "fisics_dim_family_name FAMILY_PRESSURE = ''pressure''"
| "fisics_dim_family_name FAMILY_CHARGE = ''charge''"
| "fisics_dim_family_name FAMILY_VOLTAGE = ''voltage''"
| "fisics_dim_family_name FAMILY_RESISTANCE = ''resistance''"

section \<open>The vectors as a group with overflow\<close>

named_theorems dim_simps

lemma upt_dim [dim_simps]: "[0..<FISICS_DIM_COUNT] = [0, 1, 2, 3, 4, 5, 6, 7]"
  by (simp add: FISICS_DIM_COUNT_def upt_rec)

text \<open>The named dimensions written out.\<close>

named_theorems dim_values

lemma base_dim_values [dim_values]:
  "fisics_dim_length = [1, 0, 0, 0, 0, 0, 0, 0]" "fisics_dim_mass = [0, 1, 0, 0, 0, 0, 0, 0]"
  "fisics_dim_time = [0, 0, 1, 0, 0, 0, 0, 0]" "fisics_dim_current = [0, 0, 0, 1, 0, 0, 0, 0]"
  "fisics_dim_temperature = [0, 0, 0, 0, 1, 0, 0, 0]" "fisics_dim_amount = [0, 0, 0, 0, 0, 1, 0, 0]"
  "fisics_dim_luminous = [0, 0, 0, 0, 0, 0, 1, 0]" "fisics_dim_custom = [0, 0, 0, 0, 0, 0, 0, 1]"
  by (simp_all add: fisics_dim_length_def fisics_dim_mass_def fisics_dim_time_def fisics_dim_current_def
      fisics_dim_temperature_def fisics_dim_amount_def fisics_dim_luminous_def fisics_dim_custom_def
      dim_with_slot_def FISICS_DIM_COUNT_def eval_nat_numeral)

lemmas derived_dim_values [dim_values] =
  fisics_dim_velocity_def fisics_dim_acceleration_def fisics_dim_area_def
  fisics_dim_second_moment_of_area_def fisics_dim_force_def fisics_dim_energy_def fisics_dim_power_def
  fisics_dim_pressure_def fisics_dim_charge_def fisics_dim_voltage_def fisics_dim_resistance_def

lemma dim_ok_length: "dim_ok d \<Longrightarrow> length d = FISICS_DIM_COUNT"
  by (simp add: dim_ok_def)

lemma checked_cast_i8_Some [simp]: "checked_cast_i8 v = Some w \<longleftrightarrow> w = v \<and> fits_i8 v"
  by (auto simp: checked_cast_i8_def fits_i8_def)

lemma checked_cast_i8_None [simp]: "checked_cast_i8 v = None \<longleftrightarrow> \<not> fits_i8 v"
  by (auto simp: checked_cast_i8_def fits_i8_def)

lemma dim_combine_result:
  "dim_combine f a b is out =
    (if \<forall>i \<in> set is. fits_i8 (f (a ! i) (b ! i))
     then Some (fold (\<lambda>i xs. xs[i := f (a ! i) (b ! i)]) is out) else None)"
  by (induction "is" arbitrary: out) (auto split: option.splits)

lemma fold_write_all:
  assumes "n \<le> length out"
  shows "fold (\<lambda>i xs. xs[i := g i]) [0..<n] out = map g [0..<n] @ drop n out"
  using assms
proof (induction n)
  case (Suc n)
  then have "drop n out = out ! n # drop (Suc n) out"
    by (simp add: Cons_nth_drop_Suc)
  with Suc show ?case by (simp add: list_update_append)
qed simp

lemma fold_write_dim:
  "fold (\<lambda>i xs. xs[i := g i]) [0..<FISICS_DIM_COUNT] (replicate FISICS_DIM_COUNT 0) =
   map g [0..<FISICS_DIM_COUNT]"
  by (simp add: fold_write_all)

lemma map_nth_dim: "length a = FISICS_DIM_COUNT \<Longrightarrow> map (\<lambda>i. a ! i) [0..<FISICS_DIM_COUNT] = a"
  by (metis map_nth)

lemma map_index_map2:
  "length a = n \<Longrightarrow> length b = n \<Longrightarrow> map (\<lambda>i. f (a ! i) (b ! i)) [0..<n] = map2 f a b"
  by (auto intro: nth_equalityI)

lemma set_map2_index:
  "length a = n \<Longrightarrow> length b = n \<Longrightarrow> (\<forall>i \<in> set [0..<n]. P (f (a ! i) (b ! i))) \<longleftrightarrow> (\<forall>v \<in> set (map2 f a b). P v)"
  by (auto simp: set_conv_nth)

text \<open>Addition and subtraction are componentwise, and fail exactly when a component leaves \<open>int8_t\<close>.\<close>

lemma fisics_dim_add_eq:
  assumes "dim_ok a" "dim_ok b"
  shows "fisics_dim_add a b = (if dim_ok (map2 (+) a b) then Some (map2 (+) a b) else None)"
  using assms unfolding fisics_dim_add_def dim_combine_result fold_write_dim
  by (simp add: dim_ok_def map_index_map2 set_map2_index del: set_upt)

lemma fisics_dim_sub_eq:
  assumes "dim_ok a" "dim_ok b"
  shows "fisics_dim_sub a b = (if dim_ok (map2 (-) a b) then Some (map2 (-) a b) else None)"
  using assms unfolding fisics_dim_sub_def dim_combine_result fold_write_dim
  by (simp add: dim_ok_def map_index_map2 set_map2_index del: set_upt)

lemma dim_equal_from_iff: "dim_equal_from a b is \<longleftrightarrow> (\<forall>i \<in> set is. a ! i = b ! i)"
  by (induction "is") auto

lemma fisics_dim_equal_iff: "dim_ok a \<Longrightarrow> dim_ok b \<Longrightarrow> fisics_dim_equal a b \<longleftrightarrow> a = b"
  by (auto simp: fisics_dim_equal_def dim_equal_from_iff dim_ok_def intro: nth_equalityI)

lemma fisics_dim_equal_refl [simp]: "fisics_dim_equal a a"
  by (simp add: fisics_dim_equal_def dim_equal_from_iff)

lemma dim_ok_zero [simp]: "dim_ok fisics_dim_zero"
  by (simp add: dim_ok_def fisics_dim_zero_def fits_i8_def FISICS_DIM_COUNT_def)

lemma dimensionless_from_iff: "dimensionless_from d is \<longleftrightarrow> (\<forall>i \<in> set is. d ! i = 0)"
  by (induction "is") auto

text \<open>A power multiplies every exponent; it fails when one leaves \<open>int8_t\<close>.\<close>

lemma dim_scale_from_result:
  assumes "\<forall>i \<in> set is. fits_int (d ! i * pw)"
  shows "dim_scale_from d pw is out =
    (if \<forall>i \<in> set is. fits_i8 (d ! i * pw)
     then Done (fold (\<lambda>i xs. xs[i := d ! i * pw]) is out) else Fail ())"
  using assms by (induction "is" arbitrary: out) (auto split: option.splits)

lemma fisics_dim_scale_eq:
  assumes "length d = FISICS_DIM_COUNT" "\<forall>v \<in> set d. fits_int (v * pw)"
  shows "fisics_dim_scale d pw =
    (if \<forall>v \<in> set d. fits_i8 (v * pw) then Done (map (\<lambda>v. v * pw) d) else Fail ())"
proof -
  have m: "map (\<lambda>i. d ! i * pw) [0..<FISICS_DIM_COUNT] = map (\<lambda>v. v * pw) d"
    using assms(1) by (auto intro: nth_equalityI)
  have all: "(\<forall>i \<in> set [0..<FISICS_DIM_COUNT]. P (d ! i)) \<longleftrightarrow> (\<forall>v \<in> set d. P v)" for P
    using assms(1) by (auto simp: set_conv_nth)
  have "\<forall>i \<in> set [0..<FISICS_DIM_COUNT]. fits_int (d ! i * pw)"
    using assms(2) by (subst all)
  from dim_scale_from_result [OF this, of "replicate FISICS_DIM_COUNT 0"] show ?thesis
    unfolding fisics_dim_scale_def fold_write_dim m all [of "\<lambda>v. fits_i8 (v * pw)"] .
qed

text \<open>Writing one exponent of the zero vector, and adding or subtracting such a vector.\<close>

definition slot_dim :: "nat \<Rightarrow> int \<Rightarrow> FisicsDim8" where
  "slot_dim i v = fisics_dim_zero[i := v]"

lemma length_zero [simp]: "length fisics_dim_zero = FISICS_DIM_COUNT"
  by (simp add: fisics_dim_zero_def)

lemma nth_zero [simp]: "i < FISICS_DIM_COUNT \<Longrightarrow> fisics_dim_zero ! i = 0"
  by (simp add: fisics_dim_zero_def)

lemma set_slot_dim: "i < FISICS_DIM_COUNT \<Longrightarrow> set (slot_dim i v) \<subseteq> {0, v}"
  unfolding slot_dim_def by (rule order_trans [OF set_update_subset_insert]) (auto simp: fisics_dim_zero_def)

lemma slot_dim_in_set: "i < FISICS_DIM_COUNT \<Longrightarrow> v \<in> set (slot_dim i v)"
  by (simp add: slot_dim_def set_update_memI)

lemma dim_ok_update: "dim_ok a \<Longrightarrow> fits_i8 v \<Longrightarrow> dim_ok (a[i := v])"
  using set_update_subset_insert [of a i v] by (auto simp: dim_ok_def)

lemma dim_ok_slot: "fits_i8 v \<Longrightarrow> dim_ok (slot_dim i v)"
  by (simp add: slot_dim_def dim_ok_update)

lemma map2_slot:
  assumes "length a = FISICS_DIM_COUNT" "i < FISICS_DIM_COUNT" "\<And>x. f x 0 = x"
  shows "map2 f a (slot_dim i v) = a[i := f (a ! i) v]"
  using assms by (auto intro!: nth_equalityI simp: slot_dim_def nth_list_update)

lemma fisics_dim_add_slot:
  assumes "dim_ok a" "i < FISICS_DIM_COUNT" "a ! i = 0" "fits_i8 v"
  shows "fisics_dim_add a (slot_dim i v) = Some (a[i := v])"
  using assms map2_slot [of a i "(+)" v]
  by (simp add: fisics_dim_add_eq dim_ok_slot dim_ok_length dim_ok_update)

lemma fisics_dim_sub_slot:
  assumes "dim_ok a" "i < FISICS_DIM_COUNT" "a ! i = 0" "fits_i8 v" "fits_i8 (- v)"
  shows "fisics_dim_sub a (slot_dim i v) = Some (a[i := - v])"
  using assms map2_slot [of a i "(-)" v]
  by (simp add: fisics_dim_sub_eq dim_ok_slot dim_ok_length dim_ok_update)

lemma fisics_dim_scale_slot:
  assumes "i < FISICS_DIM_COUNT" "0 \<le> pw" "pw \<le> 1000"
  shows "fisics_dim_scale (slot_dim i 1) pw = (if fits_i8 pw then Done (slot_dim i pw) else Fail ())"
proof -
  have "\<forall>v \<in> set (slot_dim i 1). v = 0 \<or> v = 1" using set_slot_dim [OF assms(1), of 1] by auto
  moreover have "map (\<lambda>v. v * pw) (slot_dim i 1) = slot_dim i pw"
    by (simp add: slot_dim_def map_update fisics_dim_zero_def)
  moreover have "(\<forall>v \<in> set (slot_dim i 1). fits_i8 (v * pw)) \<longleftrightarrow> fits_i8 pw"
    using calculation(1) slot_dim_in_set [OF assms(1), of 1] by (fastforce simp: fits_i8_def)
  moreover have "\<forall>v \<in> set (slot_dim i 1). fits_int (v * pw)"
    using calculation(1) assms by (auto simp: fits_int_iff)
  ultimately show ?thesis by (simp add: fisics_dim_scale_eq slot_dim_def)
qed

end
