(* ===== verification/Double.thy ===== *)
theory Double
  imports Complex_Main "HOL-Library.Log_Nat" Prelude
begin

text \<open>
  C's \<open>double\<close> as IEEE 754 binary64 with rounding to nearest, ties to even: not-a-number, the signed
  infinities, the signed zeros and the non-zero finite numbers as rationals. The unit registry and
  the unit conversions compute with it.
\<close>

section \<open>Numbers and rounding\<close>

datatype double = DNaN | DInf bool | DZero bool | DNum rat

text \<open>The exponent of the leading binary digit of a positive rational.\<close>

definition ilog2 :: "rat \<Rightarrow> int" where
  "ilog2 a =
    (let (p, q) = quotient_of a;
         e = int (floorlog 2 (nat p)) - int (floorlog 2 (nat q))
     in if of_int q * (2 powi e) \<le> (of_int p :: rat) then e else e - 1)"

definition round_half_even :: "rat \<Rightarrow> int" where
  "round_half_even y =
    (let f = \<lfloor>y\<rfloor>; d = y - of_int f
     in if d < 1 / 2 then f else if d > 1 / 2 then f + 1 else if even f then f else f + 1)"

text \<open>The exponent of the last digit kept: 53 binary digits, at least the smallest subnormal's.\<close>

definition ulp_exp :: "rat \<Rightarrow> int" where
  "ulp_exp a = max (ilog2 a - 52) (- 1074)"

text \<open>Rounding at or above this is an overflow.\<close>

definition double_limit :: rat where
  "double_limit = 2 ^ 1024"

definition round_double :: "rat \<Rightarrow> double" where
  "round_double x =
    (let a = \<bar>x\<bar>; k = ulp_exp a; m = round_half_even (a / 2 powi k); v = of_int m * 2 powi k
     in if m = 0 then DZero (x < 0)
        else if v \<ge> double_limit then DInf (x < 0)
        else DNum (if x < 0 then - v else v))"

text \<open>A decimal literal of the source, and the exact value of a finite number.\<close>

definition dlit :: "rat \<Rightarrow> double" where
  "dlit r = (if r = 0 then DZero False else round_double r)"

fun dval :: "double \<Rightarrow> rat option" where
  "dval DNaN = None"
| "dval (DInf n) = None"
| "dval (DZero n) = Some 0"
| "dval (DNum r) = Some r"

fun dneg :: "double \<Rightarrow> bool" where
  "dneg DNaN = False"
| "dneg (DInf n) = n"
| "dneg (DZero n) = n"
| "dneg (DNum r) = (r < 0)"

fun isfinite :: "double \<Rightarrow> bool" where
  "isfinite DNaN = False"
| "isfinite (DInf n) = False"
| "isfinite (DZero n) = True"
| "isfinite (DNum r) = True"

section \<open>Comparisons and arithmetic\<close>

fun deq :: "double \<Rightarrow> double \<Rightarrow> bool" where
  "deq DNaN b = False"
| "deq a DNaN = False"
| "deq (DInf n) (DInf m) = (n = m)"
| "deq (DInf n) b = False"
| "deq a (DInf m) = False"
| "deq a b = (dval a = dval b)"

text \<open>\<open>x <= 0.0\<close>\<close>

fun dle_zero :: "double \<Rightarrow> bool" where
  "dle_zero DNaN = False"
| "dle_zero (DInf n) = n"
| "dle_zero (DZero n) = True"
| "dle_zero (DNum r) = (r \<le> 0)"

fun dmul :: "double \<Rightarrow> double \<Rightarrow> double" where
  "dmul DNaN b = DNaN"
| "dmul a DNaN = DNaN"
| "dmul (DInf n) (DZero m) = DNaN"
| "dmul (DZero n) (DInf m) = DNaN"
| "dmul (DInf n) b = DInf (n \<noteq> dneg b)"
| "dmul a (DInf m) = DInf (dneg a \<noteq> m)"
| "dmul (DZero n) b = DZero (n \<noteq> dneg b)"
| "dmul a (DZero m) = DZero (dneg a \<noteq> m)"
| "dmul (DNum x) (DNum y) = round_double (x * y)"

fun ddiv :: "double \<Rightarrow> double \<Rightarrow> double" where
  "ddiv DNaN b = DNaN"
| "ddiv a DNaN = DNaN"
| "ddiv (DInf n) (DInf m) = DNaN"
| "ddiv (DZero n) (DZero m) = DNaN"
| "ddiv (DInf n) b = DInf (n \<noteq> dneg b)"
| "ddiv a (DInf m) = DZero (dneg a \<noteq> m)"
| "ddiv (DZero n) b = DZero (n \<noteq> dneg b)"
| "ddiv a (DZero m) = DInf (dneg a \<noteq> m)"
| "ddiv (DNum x) (DNum y) = round_double (x / y)"

fun dadd :: "double \<Rightarrow> double \<Rightarrow> double" where
  "dadd DNaN b = DNaN"
| "dadd a DNaN = DNaN"
| "dadd (DInf n) (DInf m) = (if n = m then DInf n else DNaN)"
| "dadd (DInf n) b = DInf n"
| "dadd a (DInf m) = DInf m"
| "dadd (DZero n) (DZero m) = DZero (n \<and> m)"
| "dadd (DZero n) b = b"
| "dadd a (DZero m) = a"
| "dadd (DNum x) (DNum y) = (if x + y = 0 then DZero False else round_double (x + y))"

fun dopp :: "double \<Rightarrow> double" where
  "dopp DNaN = DNaN"
| "dopp (DInf n) = DInf (\<not> n)"
| "dopp (DZero n) = DZero (\<not> n)"
| "dopp (DNum r) = DNum (- r)"

definition dsub :: "double \<Rightarrow> double \<Rightarrow> double" where
  "dsub a b = dadd a (dopp b)"

section \<open>The error of one rounding\<close>

lemma floorlog2_bounds:
  assumes "0 < n"
  shows "(2 :: rat) powi (int (floorlog 2 n) - 1) \<le> of_nat n" and "of_nat n < (2 :: rat) powi int (floorlog 2 n)"
proof -
  have "0 < floorlog 2 n" using assms by (simp add: floorlog_def)
  then obtain k where k: "floorlog 2 n = Suc k" by (cases "floorlog 2 n") auto
  have b: "2 ^ k \<le> n" "n < 2 ^ Suc k"
    using floorlog_bounds [of n 2] assms k by simp_all
  have "(of_nat (2 ^ k) :: rat) \<le> of_nat n" "(of_nat n :: rat) < of_nat (2 ^ Suc k)"
    using b by (simp_all only: of_nat_le_iff of_nat_less_iff)
  then show "(2 :: rat) powi (int (floorlog 2 n) - 1) \<le> of_nat n"
      "of_nat n < (2 :: rat) powi int (floorlog 2 n)"
    unfolding k by (simp_all add: power_int_def nat_add_distrib)
qed

lemma ilog2_bounds:
  assumes "0 < a"
  shows "2 powi (ilog2 a) \<le> a" and "a < 2 powi (ilog2 a + 1)"
proof -
  obtain p q where pq: "quotient_of a = (p, q)" by (cases "quotient_of a")
  have q: "0 < q" and a: "a = of_int p / of_int q"
    using pq quotient_of_denom_pos quotient_of_div by auto
  with assms have p: "0 < p" by (simp add: zero_less_divide_iff)
  let ?l = "floorlog 2 (nat p)" and ?m = "floorlog 2 (nat q)"
  let ?e = "int ?l - int ?m"
  have P: "(2 :: rat) powi (int ?l - 1) \<le> of_int p" "of_int p < (2 :: rat) powi int ?l"
    using floorlog2_bounds [of "nat p"] p by simp_all
  have Q: "(2 :: rat) powi (int ?m - 1) \<le> of_int q" "of_int q < (2 :: rat) powi int ?m"
    using floorlog2_bounds [of "nat q"] q by simp_all
  have "(of_int p :: rat) < 2 powi int ?l" by (rule P)
  also have "\<dots> = 2 powi (?e + 1) * 2 powi (int ?m - 1)"
    by (subst power_int_add [symmetric]) (simp_all add: algebra_simps)
  also have "\<dots> \<le> 2 powi (?e + 1) * of_int q" using Q by simp
  finally have hi: "a < 2 powi (?e + 1)" using q by (simp add: a field_simps)
  have "2 powi (?e - 1) * of_int q < 2 powi (?e - 1) * (2 :: rat) powi int ?m" using Q by simp
  also have "\<dots> = 2 powi (int ?l - 1)"
    by (subst power_int_add [symmetric]) (simp_all add: algebra_simps)
  also have "\<dots> \<le> of_int p" by (rule P)
  finally have lo: "2 powi (?e - 1) < a" using q by (simp add: a field_simps)
  have "of_int q * 2 powi ?e \<le> (of_int p :: rat) \<longleftrightarrow> 2 powi ?e \<le> a"
    using q by (simp add: a field_simps)
  then have eq: "ilog2 a = (if 2 powi ?e \<le> a then ?e else ?e - 1)"
    by (simp add: ilog2_def pq Let_def)
  show "2 powi (ilog2 a) \<le> a" and "a < 2 powi (ilog2 a + 1)"
    using hi lo by (auto simp: eq)
qed

lemma round_half_even_error: "\<bar>of_int (round_half_even y) - y\<bar> \<le> 1 / 2"
proof -
  have "of_int \<lfloor>y\<rfloor> \<le> y" "y < of_int \<lfloor>y\<rfloor> + 1" by linarith+
  then show ?thesis
    unfolding round_half_even_def Let_def by (simp add: abs_if) linarith
qed

lemma round_half_even_of_int [simp]: "round_half_even (of_int n) = n"
  by (simp add: round_half_even_def)

text \<open>The numbers \<open>double\<close> can hold: at most 53 digits above the smallest exponent.\<close>

definition representable :: "rat \<Rightarrow> bool" where
  "representable x \<longleftrightarrow> x \<noteq> 0 \<and> \<bar>x\<bar> < double_limit \<and> (\<exists>m :: int. \<bar>x\<bar> = of_int m * 2 powi (ulp_exp \<bar>x\<bar>))"

lemma round_double_representable: "representable x \<Longrightarrow> round_double x = DNum x"
proof -
  assume r: "representable x"
  then obtain m :: int where m0: "\<bar>x\<bar> = of_int m * 2 powi (ulp_exp \<bar>x\<bar>)" by (auto simp: representable_def)
  define k where "k = ulp_exp \<bar>x\<bar>"
  have m: "of_int m * 2 powi k = \<bar>x\<bar>" using m0 by (simp add: k_def)
  have "\<bar>x\<bar> / 2 powi k = of_int m" by (simp flip: m)
  then have "round_half_even (\<bar>x\<bar> / 2 powi k) = m" by simp
  then have "round_double x = (if m = 0 then DZero (x < 0) else if \<bar>x\<bar> \<ge> double_limit then DInf (x < 0)
      else DNum (if x < 0 then - \<bar>x\<bar> else \<bar>x\<bar>))"
    by (simp only: round_double_def Let_def k_def [symmetric] m)
  moreover have "m \<noteq> 0" using m r by (auto simp: representable_def)
  ultimately show ?thesis using r by (auto simp: representable_def)
qed

text \<open>In the normal range a result that does not overflow is within one part in \<open>2^53\<close>.\<close>

lemma round_double_error:
  assumes "round_double x = DNum r" "2 powi (- 1022) \<le> \<bar>x\<bar>"
  shows "\<bar>r - x\<bar> \<le> \<bar>x\<bar> * 2 powi (- 53)"
proof -
  let ?a = "\<bar>x\<bar>" and ?k = "ulp_exp \<bar>x\<bar>"
  let ?m = "round_half_even (\<bar>x\<bar> / 2 powi (ulp_exp \<bar>x\<bar>))"
  have "(0 :: rat) < 2 powi (- 1022)" by (rule zero_less_power_int) simp
  then have pos: "0 < ?a" using assms(2) by (rule less_le_trans)
  have r: "r = (if x < 0 then - (of_int ?m * 2 powi ?k) else of_int ?m * 2 powi ?k)"
    using assms(1) by (auto simp: round_double_def Let_def split: if_splits)
  have "- 1022 < ilog2 ?a + 1"
  proof (rule ccontr)
    assume "\<not> - 1022 < ilog2 ?a + 1"
    then have "(2 :: rat) powi (ilog2 ?a + 1) \<le> 2 powi (- 1022)"
      by (intro power_int_increasing) auto
    then show False using le_less_trans [OF assms(2) ilog2_bounds(2) [OF pos]] by linarith
  qed
  then have k: "?k = ilog2 ?a - 52" by (simp add: ulp_exp_def)
  have "\<bar>r - x\<bar> = \<bar>of_int ?m * 2 powi ?k - ?a\<bar>"
    by (auto simp: r)
  also have "of_int ?m * 2 powi ?k - ?a = (of_int ?m - ?a / 2 powi ?k) * 2 powi ?k"
    by (simp add: left_diff_distrib)
  also have "\<bar>(of_int ?m - ?a / 2 powi ?k) * 2 powi ?k\<bar> = \<bar>of_int ?m - ?a / 2 powi ?k\<bar> * 2 powi ?k"
    by (simp add: abs_mult)
  also have "\<dots> \<le> 1 / 2 * 2 powi ?k"
    by (rule mult_right_mono [OF round_half_even_error]) simp
  also have "\<dots> = 2 powi (ilog2 ?a) * 2 powi (- 53)"
    by (simp add: k power_int_diff power_int_minus)
  also have "\<dots> \<le> ?a * 2 powi (- 53)"
    by (rule mult_right_mono [OF ilog2_bounds(1) [OF pos]]) simp
  finally show ?thesis .
qed

text \<open>A comfortable part of the normal range, in which no rounding underflows or overflows.\<close>

definition mid_range :: "rat \<Rightarrow> bool" where
  "mid_range x \<longleftrightarrow> 2 powi (- 1022) \<le> x \<and> x \<le> 2 powi 1000"

lemma mid_range_pos: "mid_range x \<Longrightarrow> 0 < x"
proof -
  assume "mid_range x"
  moreover have "(0 :: rat) < 2 powi (- 1022)" by (rule zero_less_power_int) simp
  ultimately show ?thesis unfolding mid_range_def by linarith
qed

lemma mid_range_if: "1 / 10 ^ 60 \<le> x \<Longrightarrow> x \<le> 10 ^ 60 \<Longrightarrow> mid_range x"
proof -
  assume x: "1 / 10 ^ 60 \<le> x" "x \<le> 10 ^ 60"
  have "(2 :: rat) powi (- 1022) \<le> 2 powi (- 200)" by (rule power_int_increasing) auto
  also have "\<dots> \<le> 1 / 10 ^ 60" by (simp add: power_int_minus)
  finally have lo: "(2 :: rat) powi (- 1022) \<le> 1 / 10 ^ 60" .
  have "(10 :: rat) ^ 60 \<le> 2 powi 200" by simp
  also have "\<dots> \<le> 2 powi 1000" by (rule power_int_increasing) auto
  finally show ?thesis using x lo unfolding mid_range_def by linarith
qed

lemma round_double_mid_range:
  assumes "mid_range x"
  obtains r where "round_double x = DNum r" "\<bar>r - x\<bar> \<le> x * 2 powi (- 53)"
proof -
  let ?k = "ulp_exp x" and ?m = "round_half_even (x / 2 powi (ulp_exp x))"
  have pos: "0 < x" by (rule mid_range_pos [OF assms])
  have "\<not> ilog2 x + 1 \<le> - 1022"
  proof
    assume "ilog2 x + 1 \<le> - 1022"
    then have "(2 :: rat) powi (ilog2 x + 1) \<le> 2 powi (- 1022)"
      by (intro power_int_increasing) auto
    then show False using ilog2_bounds(2) [OF pos] assms unfolding mid_range_def by linarith
  qed
  then have k: "?k = ilog2 x - 52" by (simp add: ulp_exp_def)
  have "(2 :: rat) powi ?k \<le> 2 powi (ilog2 x)" unfolding k by (rule power_int_increasing) auto
  then have kx: "2 powi ?k \<le> x" using ilog2_bounds(1) [OF pos] by linarith
  have one: "1 \<le> x / 2 powi ?k" using kx by (simp add: le_divide_eq)
  have err: "\<bar>of_int ?m - x / 2 powi ?k\<bar> \<le> 1 / 2" by (rule round_half_even_error)
  have m: "?m \<noteq> 0"
  proof
    assume "?m = 0"
    then have "(of_int ?m :: rat) = 0" by (simp only: of_int_0)
    then show False using err one by linarith
  qed
  have "of_int ?m * 2 powi ?k \<le> (x / 2 powi ?k + 1) * 2 powi ?k"
    by (rule mult_right_mono) (use err in linarith, simp)
  also have "\<dots> = x + 2 powi ?k" by (simp add: field_simps)
  also have "\<dots> \<le> 2 powi 1000 + 2 powi 1000" using kx assms unfolding mid_range_def by linarith
  also have "\<dots> = 2 powi 1001"
    using power_int_add [of "2 :: rat" 1000 1] by (simp del: power_int_numeral)
  also have "\<dots> < 2 powi 1024" by (rule power_int_strict_increasing) auto
  also have "\<dots> = double_limit" unfolding double_limit_def by (rule power_int_numeral)
  finally have v: "of_int ?m * 2 powi ?k < double_limit" .
  have "round_double x = DNum (of_int ?m * 2 powi ?k)"
    using pos m v by (simp add: round_double_def Let_def)
  moreover have "\<bar>of_int ?m * 2 powi ?k - x\<bar> \<le> \<bar>x\<bar> * 2 powi (- 53)"
    by (rule round_double_error [OF calculation]) (use assms pos in \<open>simp add: mid_range_def\<close>)
  ultimately show ?thesis using that pos by simp
qed

lemma dlit_mid_range:
  assumes "mid_range x"
  obtains r where "dlit x = DNum r" "\<bar>r - x\<bar> \<le> x * 2 powi (- 53)"
  using round_double_mid_range [OF assms] mid_range_pos [OF assms] by (auto simp: dlit_def)

lemma dlit_0: "dlit 0 = DZero False"
  by (simp add: dlit_def)

lemma dlit_1: "dlit 1 = DNum 1"
proof -
  have "ulp_exp 1 = - 52" by (simp add: ulp_exp_def ilog2_def floorlog_def)
  then have "representable 1"
    by (auto simp: representable_def double_limit_def power_int_minus intro!: exI [of _ "2 ^ 52"])
  then show ?thesis by (simp add: dlit_def round_double_representable)
qed

lemma dlit_positive: "mid_range x \<Longrightarrow> isfinite (dlit x) \<and> \<not> dle_zero (dlit x)"
proof -
  assume x: "mid_range x"
  obtain r where r: "dlit x = DNum r" "\<bar>r - x\<bar> \<le> x * 2 powi (- 53)"
    by (rule dlit_mid_range [OF x])
  have "x * 2 powi (- 53) < x" using mid_range_pos [OF x] by (simp add: power_int_minus field_simps)
  then have "0 < r" using r(2) by linarith
  then show ?thesis using r(1) by simp
qed

lemma dlit_not_1:
  assumes "mid_range x" "x \<le> 99 / 100 \<or> 101 / 100 \<le> x"
  shows "\<not> deq (dlit x) (dlit 1)"
proof -
  obtain r where r: "dlit x = DNum r" "\<bar>r - x\<bar> \<le> x * 2 powi (- 53)"
    by (rule dlit_mid_range [OF assms(1)])
  have "x * 2 powi (- 53) \<le> x * (1 / 1000)"
    by (rule mult_left_mono) (use mid_range_pos [OF assms(1)] in \<open>simp_all add: power_int_minus\<close>)
  then have "r \<noteq> 1" using r(2) assms(2) by (auto simp: abs_if split: if_splits)
  then show ?thesis using r(1) by (simp add: dlit_1)
qed

end
