(* ===== verification/Units_Registry.thy ===== *)
theory Units_Registry
  imports Units_Dim Double
begin

text \<open>
  The registry of concrete units, \<open>src/src/Extensions/Units/units_registry.c\<close>: the table of families
  and units that the first use initialises, lookup by name, symbol or alias, and the validator of the
  registry's integrity contract. A pointer with its count is a list here: an alias array that is
  \<open>NULL\<close> with count \<open>n\<close> is \<open>n\<close> null aliases, which is how the validator reads it. The initialisation
  runs once and has no other effect than to fill the table, so the table is a constant.
\<close>

section \<open>Data\<close>

record FisicsUnitDef =
  ud_name :: cstr
  ud_symbol :: cstr
  ud_family :: FisicsDimFamily
  ud_dim :: FisicsDim8
  ud_scale :: double
  ud_offset :: double
  ud_aliases :: "cstr list"

record FisicsUnitFamilyDef =
  fd_family :: FisicsDimFamily
  fd_name :: cstr
  fd_units :: "FisicsUnitDef list"

record FisicsUnitRegistryAudit =
  family_count :: nat
  unit_count :: nat
  alias_count :: nat
  issue_count :: nat

text \<open>The macros \<open>UNIT_DEF_INIT\<close>, \<open>ASSIGN_UNIT\<close> and \<open>ASSIGN_FAMILY\<close>.\<close>

definition mk_unit ::
    "string \<Rightarrow> string \<Rightarrow> FisicsDimFamily \<Rightarrow> FisicsDim8 \<Rightarrow> double \<Rightarrow> string list \<Rightarrow> FisicsUnitDef" where
  "mk_unit nm sy fam d scale als =
    \<lparr>ud_name = Some nm, ud_symbol = Some sy, ud_family = fam, ud_dim = d, ud_scale = scale,
     ud_offset = dlit 0, ud_aliases = map Some als\<rparr>"

definition mk_family :: "FisicsDimFamily \<Rightarrow> string \<Rightarrow> FisicsUnitDef list \<Rightarrow> FisicsUnitFamilyDef" where
  "mk_family fam label us = \<lparr>fd_family = fam, fd_name = Some label, fd_units = us\<rparr>"

section \<open>The table\<close>

subsection \<open>Aliases\<close>

definition kMeterAliases :: "string list" where "kMeterAliases = [''meters'', ''metre'', ''metres'']"
definition kMillimeterAliases :: "string list" where "kMillimeterAliases = [''millimeters'', ''millimetre'', ''millimetres'']"
definition kCentimeterAliases :: "string list" where "kCentimeterAliases = [''centimeters'', ''centimetre'', ''centimetres'']"
definition kKilometerAliases :: "string list" where "kKilometerAliases = [''kilometers'', ''kilometre'', ''kilometres'']"
definition kFootAliases :: "string list" where "kFootAliases = [''feet'', ''feet'']"
definition kInchAliases :: "string list" where "kInchAliases = [''inches'', ''inches'']"
definition kYardAliases :: "string list" where "kYardAliases = [''yards'', ''yards'']"
definition kMileAliases :: "string list" where "kMileAliases = [''miles'', ''miles'']"
definition kKilogramAliases :: "string list" where "kKilogramAliases = [''kilograms'', ''kilograms'']"
definition kGramAliases :: "string list" where "kGramAliases = [''grams'', ''grams'']"
definition kMilligramAliases :: "string list" where "kMilligramAliases = [''milligrams'', ''milligrams'']"
definition kMetricTonAliases :: "string list" where "kMetricTonAliases = [''metric_tons'', ''tonne'', ''tonnes'']"
definition kPoundAliases :: "string list" where "kPoundAliases = [''pounds'', ''pounds'']"
definition kSecondAliases :: "string list" where "kSecondAliases = [''seconds'', ''seconds'']"
definition kMillisecondAliases :: "string list" where "kMillisecondAliases = [''milliseconds'', ''milliseconds'']"
definition kMinuteAliases :: "string list" where "kMinuteAliases = [''minutes'', ''minutes'']"
definition kHourAliases :: "string list" where "kHourAliases = [''hours'', ''hours'']"
definition kAmpereAliases :: "string list" where "kAmpereAliases = [''amp'', ''amps'', ''amperes'']"
definition kKelvinAliases :: "string list" where "kKelvinAliases = [''kelvins'', ''kelvins'']"
definition kMoleAliases :: "string list" where "kMoleAliases = [''moles'', ''moles'']"
definition kCandelaAliases :: "string list" where "kCandelaAliases = [''candelas'', ''candelas'']"
definition kMeterPerSecondAliases :: "string list" where "kMeterPerSecondAliases = [''meters_per_second'', ''meters_per_second'']"
definition kFootPerSecondAliases :: "string list" where "kFootPerSecondAliases = [''feet_per_second'', ''feet_per_second'']"
definition kMeterPerSecondSquaredAliases :: "string list" where "kMeterPerSecondSquaredAliases = [''meters_per_second_squared'', ''meters_per_second_squared'']"
definition kSquareMeterAliases :: "string list" where "kSquareMeterAliases = [''square_meters'', ''square_metre'', ''square_metres'']"
definition kSquareMillimeterAliases :: "string list" where "kSquareMillimeterAliases = [''square_millimeters'', ''square_millimetre'', ''square_millimetres'']"
definition kSquareCentimeterAliases :: "string list" where "kSquareCentimeterAliases = [''square_centimeters'', ''square_centimetre'', ''square_centimetres'']"
definition kMeterToFourthAliases :: "string list" where "kMeterToFourthAliases = [''meters_to_fourth'', ''metre_to_fourth'', ''metres_to_fourth'']"
definition kMillimeterToFourthAliases :: "string list" where "kMillimeterToFourthAliases = [''millimeters_to_fourth'', ''millimetre_to_fourth'', ''millimetres_to_fourth'']"
definition kCentimeterToFourthAliases :: "string list" where "kCentimeterToFourthAliases = [''centimeters_to_fourth'', ''centimetre_to_fourth'', ''centimetres_to_fourth'']"
definition kNewtonAliases :: "string list" where "kNewtonAliases = [''newtons'', ''newtons'']"
definition kKilonewtonAliases :: "string list" where "kKilonewtonAliases = [''kilonewtons'', ''kilonewtons'']"
definition kPoundForceAliases :: "string list" where "kPoundForceAliases = [''pound_forces'', ''pound_forces'']"
definition kJouleAliases :: "string list" where "kJouleAliases = [''joules'', ''joules'']"
definition kKilojouleAliases :: "string list" where "kKilojouleAliases = [''kilojoules'', ''kilojoules'']"
definition kWattHourAliases :: "string list" where "kWattHourAliases = [''watt_hours'', ''watt_hours'']"
definition kKilowattHourAliases :: "string list" where "kKilowattHourAliases = [''kilowatt_hours'', ''kilowatt_hours'']"
definition kWattAliases :: "string list" where "kWattAliases = [''watts'', ''watts'']"
definition kMilliwattAliases :: "string list" where "kMilliwattAliases = [''milliwatts'', ''milliwatts'']"
definition kKilowattAliases :: "string list" where "kKilowattAliases = [''kilowatts'', ''kilowatts'']"
definition kMegawattAliases :: "string list" where "kMegawattAliases = [''megawatts'', ''megawatts'']"
definition kPascalAliases :: "string list" where "kPascalAliases = [''pascals'', ''pascals'']"
definition kKilopascalAliases :: "string list" where "kKilopascalAliases = [''kilopascals'', ''kilopascals'']"
definition kBarAliases :: "string list" where "kBarAliases = [''bars'', ''bars'']"
definition kPsiAliases :: "string list" where "kPsiAliases = [''psis'', ''psis'']"
definition kCoulombAliases :: "string list" where "kCoulombAliases = [''coulombs'', ''coulombs'']"
definition kAmpereHourAliases :: "string list" where "kAmpereHourAliases = [''ampere_hours'', ''ampere_hours'']"
definition kMilliampereHourAliases :: "string list" where "kMilliampereHourAliases = [''milliampere_hours'', ''milliampere_hours'']"
definition kVoltAliases :: "string list" where "kVoltAliases = [''volts'', ''volts'']"
definition kMillivoltAliases :: "string list" where "kMillivoltAliases = [''millivolts'', ''millivolts'']"
definition kKilovoltAliases :: "string list" where "kKilovoltAliases = [''kilovolts'', ''kilovolts'']"
definition kOhmAliases :: "string list" where "kOhmAliases = [''ohms'', ''ohms'']"
definition kMilliohmAliases :: "string list" where "kMilliohmAliases = [''milliohms'', ''milliohms'']"
definition kKiloohmAliases :: "string list" where "kKiloohmAliases = [''kiloohms'', ''kiloohms'']"
definition kMegaohmAliases :: "string list" where "kMegaohmAliases = [''megaohms'', ''megaohms'']"

subsection \<open>Units and families\<close>

definition kCurrentUnitsTemplate :: "FisicsUnitDef list" where
  "kCurrentUnitsTemplate =
    [mk_unit ''ampere'' ''A'' FAMILY_CURRENT [0, 0, 0, 1, 0, 0, 0, 0] (dlit 1) kAmpereAliases]"

definition kTemperatureUnitsTemplate :: "FisicsUnitDef list" where
  "kTemperatureUnitsTemplate =
    [mk_unit ''kelvin'' ''K'' FAMILY_TEMPERATURE [0, 0, 0, 0, 1, 0, 0, 0] (dlit 1) kKelvinAliases]"

definition kAmountUnitsTemplate :: "FisicsUnitDef list" where
  "kAmountUnitsTemplate =
    [mk_unit ''mole'' ''mol'' FAMILY_AMOUNT [0, 0, 0, 0, 0, 1, 0, 0] (dlit 1) kMoleAliases]"

definition kLuminousUnitsTemplate :: "FisicsUnitDef list" where
  "kLuminousUnitsTemplate =
    [mk_unit ''candela'' ''cd'' FAMILY_LUMINOUS [0, 0, 0, 0, 0, 0, 1, 0] (dlit 1) kCandelaAliases]"

definition kForceUnitsTemplate :: "FisicsUnitDef list" where
  "kForceUnitsTemplate =
    [mk_unit ''newton'' ''N'' FAMILY_FORCE [1, 1, -2, 0, 0, 0, 0, 0] (dlit 1) kNewtonAliases,
     mk_unit ''kilonewton'' ''kN'' FAMILY_FORCE [1, 1, -2, 0, 0, 0, 0, 0] (dlit 1000) kKilonewtonAliases,
     mk_unit ''pound_force'' ''lbf'' FAMILY_FORCE [1, 1, -2, 0, 0, 0, 0, 0] (dlit (44482216152605 / 10000000000000)) kPoundForceAliases]"

definition kPowerUnitsTemplate :: "FisicsUnitDef list" where
  "kPowerUnitsTemplate =
    [mk_unit ''watt'' ''W'' FAMILY_POWER [2, 1, -3, 0, 0, 0, 0, 0] (dlit 1) kWattAliases,
     mk_unit ''milliwatt'' ''mW'' FAMILY_POWER [2, 1, -3, 0, 0, 0, 0, 0] (dlit (1 / 1000)) kMilliwattAliases,
     mk_unit ''kilowatt'' ''kW'' FAMILY_POWER [2, 1, -3, 0, 0, 0, 0, 0] (dlit 1000) kKilowattAliases,
     mk_unit ''megawatt'' ''MW'' FAMILY_POWER [2, 1, -3, 0, 0, 0, 0, 0] (dlit 1000000) kMegawattAliases]"

definition kPressureUnitsTemplate :: "FisicsUnitDef list" where
  "kPressureUnitsTemplate =
    [mk_unit ''pascal'' ''Pa'' FAMILY_PRESSURE [-1, 1, -2, 0, 0, 0, 0, 0] (dlit 1) kPascalAliases,
     mk_unit ''kilopascal'' ''kPa'' FAMILY_PRESSURE [-1, 1, -2, 0, 0, 0, 0, 0] (dlit 1000) kKilopascalAliases,
     mk_unit ''bar'' ''bar'' FAMILY_PRESSURE [-1, 1, -2, 0, 0, 0, 0, 0] (dlit 100000) kBarAliases,
     mk_unit ''psi'' ''psi'' FAMILY_PRESSURE [-1, 1, -2, 0, 0, 0, 0, 0] (dlit (6894757293168361 / 1000000000000)) kPsiAliases]"

definition kChargeUnitsTemplate :: "FisicsUnitDef list" where
  "kChargeUnitsTemplate =
    [mk_unit ''coulomb'' ''C'' FAMILY_CHARGE [0, 0, 1, 1, 0, 0, 0, 0] (dlit 1) kCoulombAliases,
     mk_unit ''ampere_hour'' ''Ah'' FAMILY_CHARGE [0, 0, 1, 1, 0, 0, 0, 0] (dlit 3600) kAmpereHourAliases,
     mk_unit ''milliampere_hour'' ''mAh'' FAMILY_CHARGE [0, 0, 1, 1, 0, 0, 0, 0] (dlit (36 / 10)) kMilliampereHourAliases]"

definition kVoltageUnitsTemplate :: "FisicsUnitDef list" where
  "kVoltageUnitsTemplate =
    [mk_unit ''volt'' ''V'' FAMILY_VOLTAGE [2, 1, -3, -1, 0, 0, 0, 0] (dlit 1) kVoltAliases,
     mk_unit ''millivolt'' ''mV'' FAMILY_VOLTAGE [2, 1, -3, -1, 0, 0, 0, 0] (dlit (1 / 1000)) kMillivoltAliases,
     mk_unit ''kilovolt'' ''kV'' FAMILY_VOLTAGE [2, 1, -3, -1, 0, 0, 0, 0] (dlit 1000) kKilovoltAliases]"

definition kResistanceUnitsTemplate :: "FisicsUnitDef list" where
  "kResistanceUnitsTemplate =
    [mk_unit ''ohm'' ''ohm'' FAMILY_RESISTANCE [2, 1, -3, -2, 0, 0, 0, 0] (dlit 1) kOhmAliases,
     mk_unit ''milliohm'' ''mOhm'' FAMILY_RESISTANCE [2, 1, -3, -2, 0, 0, 0, 0] (dlit (1 / 1000)) kMilliohmAliases,
     mk_unit ''kiloohm'' ''kOhm'' FAMILY_RESISTANCE [2, 1, -3, -2, 0, 0, 0, 0] (dlit 1000) kKiloohmAliases,
     mk_unit ''megaohm'' ''MOhm'' FAMILY_RESISTANCE [2, 1, -3, -2, 0, 0, 0, 0] (dlit 1000000) kMegaohmAliases]"

definition init_length_units_head :: "FisicsUnitDef list" where
  "init_length_units_head =
    [mk_unit ''meter'' ''m'' FAMILY_LENGTH [1, 0, 0, 0, 0, 0, 0, 0] (dlit 1) kMeterAliases,
     mk_unit ''millimeter'' ''mm'' FAMILY_LENGTH [1, 0, 0, 0, 0, 0, 0, 0] (dlit (1 / 1000)) kMillimeterAliases,
     mk_unit ''centimeter'' ''cm'' FAMILY_LENGTH [1, 0, 0, 0, 0, 0, 0, 0] (dlit (1 / 100)) kCentimeterAliases,
     mk_unit ''kilometer'' ''km'' FAMILY_LENGTH [1, 0, 0, 0, 0, 0, 0, 0] (dlit 1000) kKilometerAliases]"

definition init_length_units_tail :: "FisicsUnitDef list" where
  "init_length_units_tail =
    [mk_unit ''foot'' ''ft'' FAMILY_LENGTH [1, 0, 0, 0, 0, 0, 0, 0] (dlit (3048 / 10000)) kFootAliases,
     mk_unit ''inch'' ''in'' FAMILY_LENGTH [1, 0, 0, 0, 0, 0, 0, 0] (dlit (254 / 10000)) kInchAliases,
     mk_unit ''yard'' ''yd'' FAMILY_LENGTH [1, 0, 0, 0, 0, 0, 0, 0] (dlit (9144 / 10000)) kYardAliases,
     mk_unit ''mile'' ''mi'' FAMILY_LENGTH [1, 0, 0, 0, 0, 0, 0, 0] (dlit (1609344 / 1000)) kMileAliases]"

definition init_length_units :: "FisicsUnitDef list" where
  "init_length_units = init_length_units_head @ init_length_units_tail"

definition init_mass_units :: "FisicsUnitDef list" where
  "init_mass_units =
    [mk_unit ''kilogram'' ''kg'' FAMILY_MASS [0, 1, 0, 0, 0, 0, 0, 0] (dlit 1) kKilogramAliases,
     mk_unit ''gram'' ''g'' FAMILY_MASS [0, 1, 0, 0, 0, 0, 0, 0] (dlit (1 / 1000)) kGramAliases,
     mk_unit ''milligram'' ''mg'' FAMILY_MASS [0, 1, 0, 0, 0, 0, 0, 0] (dlit (1 / 1000000)) kMilligramAliases,
     mk_unit ''metric_ton'' ''t'' FAMILY_MASS [0, 1, 0, 0, 0, 0, 0, 0] (dlit 1000) kMetricTonAliases,
     mk_unit ''pound'' ''lb'' FAMILY_MASS [0, 1, 0, 0, 0, 0, 0, 0] (dlit (45359237 / 100000000)) kPoundAliases]"

definition init_time_units :: "FisicsUnitDef list" where
  "init_time_units =
    [mk_unit ''second'' ''s'' FAMILY_TIME [0, 0, 1, 0, 0, 0, 0, 0] (dlit 1) kSecondAliases,
     mk_unit ''millisecond'' ''ms'' FAMILY_TIME [0, 0, 1, 0, 0, 0, 0, 0] (dlit (1 / 1000)) kMillisecondAliases,
     mk_unit ''minute'' ''min'' FAMILY_TIME [0, 0, 1, 0, 0, 0, 0, 0] (dlit 60) kMinuteAliases,
     mk_unit ''hour'' ''h'' FAMILY_TIME [0, 0, 1, 0, 0, 0, 0, 0] (dlit 3600) kHourAliases]"

definition init_current_units :: "FisicsUnitDef list" where "init_current_units = kCurrentUnitsTemplate"

definition init_temperature_units :: "FisicsUnitDef list" where "init_temperature_units = kTemperatureUnitsTemplate"

definition init_amount_units :: "FisicsUnitDef list" where "init_amount_units = kAmountUnitsTemplate"

definition init_luminous_units :: "FisicsUnitDef list" where "init_luminous_units = kLuminousUnitsTemplate"

definition init_velocity_units :: "FisicsUnitDef list" where
  "init_velocity_units =
    [mk_unit ''meter_per_second'' ''m/s'' FAMILY_VELOCITY [1, 0, -1, 0, 0, 0, 0, 0] (dlit 1) kMeterPerSecondAliases,
     mk_unit ''foot_per_second'' ''ft/s'' FAMILY_VELOCITY [1, 0, -1, 0, 0, 0, 0, 0] (dlit (3048 / 10000)) kFootPerSecondAliases]"

definition init_acceleration_units :: "FisicsUnitDef list" where
  "init_acceleration_units =
    [mk_unit ''meter_per_second_squared'' ''m/s^2'' FAMILY_ACCELERATION [1, 0, -2, 0, 0, 0, 0, 0] (dlit 1) kMeterPerSecondSquaredAliases]"

definition init_area_units :: "FisicsUnitDef list" where
  "init_area_units =
    [mk_unit ''square_meter'' ''m^2'' FAMILY_AREA [2, 0, 0, 0, 0, 0, 0, 0] (dlit 1) kSquareMeterAliases,
     mk_unit ''square_millimeter'' ''mm^2'' FAMILY_AREA [2, 0, 0, 0, 0, 0, 0, 0] (dlit (1 / 1000000)) kSquareMillimeterAliases,
     mk_unit ''square_centimeter'' ''cm^2'' FAMILY_AREA [2, 0, 0, 0, 0, 0, 0, 0] (dlit (1 / 10000)) kSquareCentimeterAliases]"

definition init_second_moment_of_area_units :: "FisicsUnitDef list" where
  "init_second_moment_of_area_units =
    [mk_unit ''meter_to_fourth'' ''m^4'' FAMILY_SECOND_MOMENT_OF_AREA [4, 0, 0, 0, 0, 0, 0, 0] (dlit 1) kMeterToFourthAliases,
     mk_unit ''millimeter_to_fourth'' ''mm^4'' FAMILY_SECOND_MOMENT_OF_AREA [4, 0, 0, 0, 0, 0, 0, 0] (dlit (1 / 1000000000000)) kMillimeterToFourthAliases,
     mk_unit ''centimeter_to_fourth'' ''cm^4'' FAMILY_SECOND_MOMENT_OF_AREA [4, 0, 0, 0, 0, 0, 0, 0] (dlit (1 / 100000000)) kCentimeterToFourthAliases]"

definition init_force_units :: "FisicsUnitDef list" where "init_force_units = kForceUnitsTemplate"

definition init_energy_units :: "FisicsUnitDef list" where
  "init_energy_units =
    [mk_unit ''joule'' ''J'' FAMILY_ENERGY [2, 1, -2, 0, 0, 0, 0, 0] (dlit 1) kJouleAliases,
     mk_unit ''kilojoule'' ''kJ'' FAMILY_ENERGY [2, 1, -2, 0, 0, 0, 0, 0] (dlit 1000) kKilojouleAliases,
     mk_unit ''watt_hour'' ''Wh'' FAMILY_ENERGY [2, 1, -2, 0, 0, 0, 0, 0] (dlit 3600) kWattHourAliases,
     mk_unit ''kilowatt_hour'' ''kWh'' FAMILY_ENERGY [2, 1, -2, 0, 0, 0, 0, 0] (dlit 3600000) kKilowattHourAliases]"

definition init_power_units :: "FisicsUnitDef list" where "init_power_units = kPowerUnitsTemplate"

definition init_pressure_units :: "FisicsUnitDef list" where "init_pressure_units = kPressureUnitsTemplate"

definition init_charge_units :: "FisicsUnitDef list" where "init_charge_units = kChargeUnitsTemplate"

definition init_voltage_units :: "FisicsUnitDef list" where "init_voltage_units = kVoltageUnitsTemplate"

definition init_resistance_units :: "FisicsUnitDef list" where "init_resistance_units = kResistanceUnitsTemplate"

definition init_family_table_part1 :: "FisicsUnitFamilyDef list" where
  "init_family_table_part1 =
    [mk_family FAMILY_LENGTH ''length'' init_length_units,
     mk_family FAMILY_MASS ''mass'' init_mass_units,
     mk_family FAMILY_TIME ''time'' init_time_units,
     mk_family FAMILY_CURRENT ''current'' init_current_units,
     mk_family FAMILY_TEMPERATURE ''temperature'' init_temperature_units,
     mk_family FAMILY_AMOUNT ''amount'' init_amount_units,
     mk_family FAMILY_LUMINOUS ''luminous'' init_luminous_units,
     mk_family FAMILY_VELOCITY ''velocity'' init_velocity_units]"

definition init_family_table_part2 :: "FisicsUnitFamilyDef list" where
  "init_family_table_part2 =
    [mk_family FAMILY_ACCELERATION ''acceleration'' init_acceleration_units,
     mk_family FAMILY_AREA ''area'' init_area_units,
     mk_family FAMILY_SECOND_MOMENT_OF_AREA ''second_moment_of_area'' init_second_moment_of_area_units,
     mk_family FAMILY_FORCE ''force'' init_force_units,
     mk_family FAMILY_ENERGY ''energy'' init_energy_units,
     mk_family FAMILY_POWER ''power'' init_power_units,
     mk_family FAMILY_PRESSURE ''pressure'' init_pressure_units,
     mk_family FAMILY_CHARGE ''charge'' init_charge_units,
     mk_family FAMILY_VOLTAGE ''voltage'' init_voltage_units,
     mk_family FAMILY_RESISTANCE ''resistance'' init_resistance_units]"

definition kUnitFamilies :: "FisicsUnitFamilyDef list" where
  "kUnitFamilies = init_family_table_part1 @ init_family_table_part2"


section \<open>Lookup\<close>

definition same_text :: "cstr \<Rightarrow> cstr \<Rightarrow> bool" where
  "same_text a b = (case a of None \<Rightarrow> False | Some x \<Rightarrow> (case b of None \<Rightarrow> False | Some y \<Rightarrow> x = y))"

fun alias_scan :: "string \<Rightarrow> cstr list \<Rightarrow> bool" where
  "alias_scan name [] = False"
| "alias_scan name (a # as) = (if same_text a (Some name) then True else alias_scan name as)"

fun unit_scan :: "string \<Rightarrow> FisicsUnitDef list \<Rightarrow> FisicsUnitDef option" where
  "unit_scan name [] = None"
| "unit_scan name (u # us) =
    (if same_text (ud_name u) (Some name) \<or> same_text (ud_symbol u) (Some name) then Some u
     else if alias_scan name (ud_aliases u) then Some u
     else unit_scan name us)"

fun family_scan :: "string \<Rightarrow> FisicsUnitFamilyDef list \<Rightarrow> FisicsUnitDef option" where
  "family_scan name [] = None"
| "family_scan name (f # fs) =
    (case unit_scan name (fd_units f) of Some u \<Rightarrow> Some u | None \<Rightarrow> family_scan name fs)"

definition fisics_unit_lookup :: "cstr \<Rightarrow> FisicsUnitDef option" where
  "fisics_unit_lookup name = (case name of None \<Rightarrow> None | Some n \<Rightarrow> family_scan n kUnitFamilies)"

fun family_find :: "FisicsDimFamily \<Rightarrow> FisicsUnitFamilyDef list \<Rightarrow> FisicsUnitFamilyDef option" where
  "family_find fam [] = None"
| "family_find fam (f # fs) = (if fd_family f \<noteq> fam then family_find fam fs else Some f)"

definition fisics_unit_lookup_family :: "FisicsDimFamily \<Rightarrow> FisicsUnitFamilyDef option" where
  "fisics_unit_lookup_family fam = family_find fam kUnitFamilies"

definition fisics_unit_family_count :: nat where
  "fisics_unit_family_count = length kUnitFamilies"

definition fisics_unit_family_at :: "nat \<Rightarrow> FisicsUnitFamilyDef option" where
  "fisics_unit_family_at i = (if i \<ge> fisics_unit_family_count then None else Some (kUnitFamilies ! i))"

section \<open>The validator\<close>

fun family_expected_dim :: "FisicsDimFamily \<Rightarrow> FisicsDim8 option" where
  "family_expected_dim FAMILY_LENGTH = Some fisics_dim_length"
| "family_expected_dim FAMILY_MASS = Some fisics_dim_mass"
| "family_expected_dim FAMILY_TIME = Some fisics_dim_time"
| "family_expected_dim FAMILY_CURRENT = Some fisics_dim_current"
| "family_expected_dim FAMILY_TEMPERATURE = Some fisics_dim_temperature"
| "family_expected_dim FAMILY_AMOUNT = Some fisics_dim_amount"
| "family_expected_dim FAMILY_LUMINOUS = Some fisics_dim_luminous"
| "family_expected_dim FAMILY_CUSTOM = Some fisics_dim_custom"
| "family_expected_dim FAMILY_VELOCITY = Some fisics_dim_velocity"
| "family_expected_dim FAMILY_ACCELERATION = Some fisics_dim_acceleration"
| "family_expected_dim FAMILY_AREA = Some fisics_dim_area"
| "family_expected_dim FAMILY_SECOND_MOMENT_OF_AREA = Some fisics_dim_second_moment_of_area"
| "family_expected_dim FAMILY_FORCE = Some fisics_dim_force"
| "family_expected_dim FAMILY_ENERGY = Some fisics_dim_energy"
| "family_expected_dim FAMILY_POWER = Some fisics_dim_power"
| "family_expected_dim FAMILY_PRESSURE = Some fisics_dim_pressure"
| "family_expected_dim FAMILY_CHARGE = Some fisics_dim_charge"
| "family_expected_dim FAMILY_VOLTAGE = Some fisics_dim_voltage"
| "family_expected_dim FAMILY_RESISTANCE = Some fisics_dim_resistance"
| "family_expected_dim FAMILY_DIMENSIONLESS = None"

definition record_issue :: "FisicsUnitRegistryAudit \<Rightarrow> FisicsUnitRegistryAudit" where
  "record_issue a = a\<lparr>issue_count := issue_count a + 1\<rparr>"

definition issue_if :: "bool \<Rightarrow> FisicsUnitRegistryAudit \<Rightarrow> FisicsUnitRegistryAudit" where
  "issue_if b a = (if b then record_issue a else a)"

definition empty_text :: "cstr \<Rightarrow> bool" where
  "empty_text s \<longleftrightarrow> s = None \<or> s = Some []"

definition unit_has_canonical_base :: "FisicsUnitDef \<Rightarrow> bool" where
  "unit_has_canonical_base u \<longleftrightarrow> deq (ud_scale u) (dlit 1) \<and> deq (ud_offset u) (dlit 0)"

fun validate_aliases :: "FisicsUnitDef \<Rightarrow> cstr list \<Rightarrow> FisicsUnitRegistryAudit \<Rightarrow> FisicsUnitRegistryAudit" where
  "validate_aliases u [] a = a"
| "validate_aliases u (al # als) a =
    validate_aliases u als
      (if empty_text al then record_issue a
       else issue_if (same_text al (ud_name u) \<or> same_text al (ud_symbol u)) a)"

definition validate_unit_tokens :: "FisicsUnitDef \<Rightarrow> FisicsUnitRegistryAudit \<Rightarrow> FisicsUnitRegistryAudit" where
  "validate_unit_tokens u a =
    validate_aliases u (ud_aliases u) (issue_if (empty_text (ud_symbol u)) (issue_if (empty_text (ud_name u)) a))"

text \<open>The comparison of two units in \<open>validate_cross_collisions\<close>, in the order of its three parts.\<close>

fun alias_pairs :: "cstr \<Rightarrow> cstr list \<Rightarrow> FisicsUnitRegistryAudit \<Rightarrow> FisicsUnitRegistryAudit" where
  "alias_pairs al [] a = a"
| "alias_pairs al (c # cs) a = alias_pairs al cs (issue_if (same_text al c) a)"

fun left_aliases :: "cstr list \<Rightarrow> FisicsUnitDef \<Rightarrow> FisicsUnitRegistryAudit \<Rightarrow> FisicsUnitRegistryAudit" where
  "left_aliases [] v a = a"
| "left_aliases (al # als) v a =
    left_aliases als v
      (if al = None then a
       else alias_pairs al (ud_aliases v)
              (issue_if (same_text al (ud_name v) \<or> same_text al (ud_symbol v)) a))"

fun right_aliases :: "cstr list \<Rightarrow> FisicsUnitDef \<Rightarrow> FisicsUnitRegistryAudit \<Rightarrow> FisicsUnitRegistryAudit" where
  "right_aliases [] u a = a"
| "right_aliases (c # cs) u a =
    right_aliases cs u
      (if c = None then a else issue_if (same_text c (ud_name u) \<or> same_text c (ud_symbol u)) a)"

definition compare_units ::
    "FisicsUnitDef \<Rightarrow> FisicsUnitDef \<Rightarrow> FisicsUnitRegistryAudit \<Rightarrow> FisicsUnitRegistryAudit" where
  "compare_units u v a =
    right_aliases (ud_aliases v) u
      (left_aliases (ud_aliases u) v
        (issue_if (same_text (ud_name u) (ud_name v) \<or> same_text (ud_name u) (ud_symbol v) \<or>
                   same_text (ud_symbol u) (ud_name v) \<or> same_text (ud_symbol u) (ud_symbol v)) a))"

text \<open>Every unit is compared with the later units of its family and all units of later families.\<close>

fun compare_later ::
    "FisicsUnitDef \<Rightarrow> FisicsUnitDef list \<Rightarrow> FisicsUnitRegistryAudit \<Rightarrow> FisicsUnitRegistryAudit" where
  "compare_later u [] a = a"
| "compare_later u (v # vs) a = compare_later u vs (compare_units u v a)"

fun collisions_from :: "FisicsUnitDef list \<Rightarrow> FisicsUnitRegistryAudit \<Rightarrow> FisicsUnitRegistryAudit" where
  "collisions_from [] a = a"
| "collisions_from (u # us) a = collisions_from us (compare_later u us a)"

definition all_units :: "FisicsUnitFamilyDef list \<Rightarrow> FisicsUnitDef list" where
  "all_units fs = concat (map fd_units fs)"

definition validate_cross_collisions ::
    "FisicsUnitFamilyDef list \<Rightarrow> FisicsUnitRegistryAudit \<Rightarrow> FisicsUnitRegistryAudit" where
  "validate_cross_collisions fs a = collisions_from (all_units fs) a"

fun validate_units ::
    "FisicsUnitFamilyDef \<Rightarrow> FisicsUnitDef list \<Rightarrow> FisicsUnitRegistryAudit \<Rightarrow> nat \<Rightarrow> FisicsUnitRegistryAudit \<times> nat" where
  "validate_units f [] a bases = (a, bases)"
| "validate_units f (u # us) a bases =
    (let a1 = a\<lparr>unit_count := unit_count a + 1, alias_count := alias_count a + length (ud_aliases u)\<rparr>;
         a2 = validate_unit_tokens u a1;
         a3 = issue_if (ud_family u \<noteq> fd_family f) a2;
         a4 = issue_if (case family_expected_dim (fd_family f) of
                          None \<Rightarrow> True | Some d \<Rightarrow> \<not> fisics_dim_equal (ud_dim u) d) a3;
         a5 = issue_if (\<not> isfinite (ud_scale u) \<or> dle_zero (ud_scale u)) a4;
         a6 = issue_if (\<not> isfinite (ud_offset u) \<or> \<not> deq (ud_offset u) (dlit 0)) a5
     in validate_units f us a6 (if unit_has_canonical_base u then bases + 1 else bases))"

definition validate_family :: "FisicsUnitFamilyDef \<Rightarrow> FisicsUnitRegistryAudit \<Rightarrow> FisicsUnitRegistryAudit" where
  "validate_family f a0 =
    (let a1 = a0\<lparr>family_count := family_count a0 + 1\<rparr>;
         a2 = (if empty_text (fd_name f) then record_issue a1
               else issue_if (\<not> same_text (fd_name f) (Some (fisics_dim_family_name (fd_family f)))) a1)
     in if fd_units f = [] then record_issue a2
        else let (a3, bases) = validate_units f (fd_units f) a2 0
             in issue_if (bases \<noteq> 1) a3)"

fun validate_families :: "FisicsUnitFamilyDef list \<Rightarrow> FisicsUnitRegistryAudit \<Rightarrow> FisicsUnitRegistryAudit" where
  "validate_families [] a = a"
| "validate_families (f # fs) a = validate_families fs (validate_family f a)"

definition fisics_unit_registry_validate_table :: "FisicsUnitFamilyDef list \<Rightarrow> FisicsUnitRegistryAudit \<times> bool" where
  "fisics_unit_registry_validate_table fs =
    (let zero = \<lparr>family_count = 0, unit_count = 0, alias_count = 0, issue_count = 0\<rparr> in
     if fs = [] then (zero\<lparr>issue_count := 1\<rparr>, False)
     else
       let a = validate_cross_collisions fs (validate_families fs zero)
       in (a, issue_count a = 0))"

definition fisics_unit_registry_validate :: "FisicsUnitRegistryAudit \<times> bool" where
  "fisics_unit_registry_validate = fisics_unit_registry_validate_table kUnitFamilies"

end
