(* ===== verification/Units_Parser.thy ===== *)
theory Units_Parser
  imports Units_Registry
begin

text \<open>
  Dimension expressions: the table of dimension names (\<open>kDimAtoms\<close> and \<open>fisics_dim_lookup_atom\<close> of
  \<open>src/src/Extensions/Units/units_model.c\<close>) and the parser \<open>src/src/Extensions/Units/units_parser.c\<close>.
  The cursor (text and position) is the rest of the text, whose end is the terminating NUL. A result
  is \<open>Done\<close>, \<open>Fail\<close> with the error detail, or \<open>Undefined\<close> where the code overflows an \<open>int\<close>.
  Allocation is assumed to succeed.
\<close>

section \<open>Dimension names\<close>

datatype FisicsDimAtomKind = ATOM_UNKNOWN | ATOM_DIMENSION | ATOM_DEFERRED_UNIT

record FisicsDimAtomInfo =
  ai_kind :: FisicsDimAtomKind
  ai_family :: FisicsDimFamily
  ai_family_name :: string
  ai_dim :: FisicsDim8

record DimAtomEntry =
  ae_name :: string
  ae_kind :: FisicsDimAtomKind
  ae_family :: FisicsDimFamily
  ae_dim :: FisicsDim8

definition mk_atom :: "string \<Rightarrow> FisicsDimAtomKind \<Rightarrow> FisicsDimFamily \<Rightarrow> FisicsDim8 \<Rightarrow> DimAtomEntry" where
  "mk_atom nm k fam d = \<lparr>ae_name = nm, ae_kind = k, ae_family = fam, ae_dim = d\<rparr>"

definition kDimAtoms :: "DimAtomEntry list" where
  "kDimAtoms =
    [mk_atom ''1'' ATOM_DIMENSION FAMILY_DIMENSIONLESS [0, 0, 0, 0, 0, 0, 0, 0],
     mk_atom ''dimensionless'' ATOM_DIMENSION FAMILY_DIMENSIONLESS [0, 0, 0, 0, 0, 0, 0, 0],
     mk_atom ''scalar'' ATOM_DIMENSION FAMILY_DIMENSIONLESS [0, 0, 0, 0, 0, 0, 0, 0],
     mk_atom ''m'' ATOM_DIMENSION FAMILY_LENGTH [1, 0, 0, 0, 0, 0, 0, 0],
     mk_atom ''length'' ATOM_DIMENSION FAMILY_LENGTH [1, 0, 0, 0, 0, 0, 0, 0],
     mk_atom ''distance'' ATOM_DIMENSION FAMILY_LENGTH [1, 0, 0, 0, 0, 0, 0, 0],
     mk_atom ''displacement'' ATOM_DIMENSION FAMILY_LENGTH [1, 0, 0, 0, 0, 0, 0, 0],
     mk_atom ''kg'' ATOM_DIMENSION FAMILY_MASS [0, 1, 0, 0, 0, 0, 0, 0],
     mk_atom ''mass'' ATOM_DIMENSION FAMILY_MASS [0, 1, 0, 0, 0, 0, 0, 0],
     mk_atom ''s'' ATOM_DIMENSION FAMILY_TIME [0, 0, 1, 0, 0, 0, 0, 0],
     mk_atom ''time'' ATOM_DIMENSION FAMILY_TIME [0, 0, 1, 0, 0, 0, 0, 0],
     mk_atom ''duration'' ATOM_DIMENSION FAMILY_TIME [0, 0, 1, 0, 0, 0, 0, 0],
     mk_atom ''A'' ATOM_DIMENSION FAMILY_CURRENT [0, 0, 0, 1, 0, 0, 0, 0],
     mk_atom ''current'' ATOM_DIMENSION FAMILY_CURRENT [0, 0, 0, 1, 0, 0, 0, 0],
     mk_atom ''electric_current'' ATOM_DIMENSION FAMILY_CURRENT [0, 0, 0, 1, 0, 0, 0, 0],
     mk_atom ''K'' ATOM_DIMENSION FAMILY_TEMPERATURE [0, 0, 0, 0, 1, 0, 0, 0],
     mk_atom ''temperature'' ATOM_DIMENSION FAMILY_TEMPERATURE [0, 0, 0, 0, 1, 0, 0, 0],
     mk_atom ''mol'' ATOM_DIMENSION FAMILY_AMOUNT [0, 0, 0, 0, 0, 1, 0, 0],
     mk_atom ''amount'' ATOM_DIMENSION FAMILY_AMOUNT [0, 0, 0, 0, 0, 1, 0, 0],
     mk_atom ''amount_of_substance'' ATOM_DIMENSION FAMILY_AMOUNT [0, 0, 0, 0, 0, 1, 0, 0],
     mk_atom ''cd'' ATOM_DIMENSION FAMILY_LUMINOUS [0, 0, 0, 0, 0, 0, 1, 0],
     mk_atom ''luminous'' ATOM_DIMENSION FAMILY_LUMINOUS [0, 0, 0, 0, 0, 0, 1, 0],
     mk_atom ''luminous_intensity'' ATOM_DIMENSION FAMILY_LUMINOUS [0, 0, 0, 0, 0, 0, 1, 0],
     mk_atom ''X'' ATOM_DIMENSION FAMILY_CUSTOM [0, 0, 0, 0, 0, 0, 0, 1],
     mk_atom ''custom'' ATOM_DIMENSION FAMILY_CUSTOM [0, 0, 0, 0, 0, 0, 0, 1],
     mk_atom ''custom_dimension'' ATOM_DIMENSION FAMILY_CUSTOM [0, 0, 0, 0, 0, 0, 0, 1],
     mk_atom ''velocity'' ATOM_DIMENSION FAMILY_VELOCITY [1, 0, -1, 0, 0, 0, 0, 0],
     mk_atom ''speed'' ATOM_DIMENSION FAMILY_VELOCITY [1, 0, -1, 0, 0, 0, 0, 0],
     mk_atom ''acceleration'' ATOM_DIMENSION FAMILY_ACCELERATION [1, 0, -2, 0, 0, 0, 0, 0],
     mk_atom ''area'' ATOM_DIMENSION FAMILY_AREA [2, 0, 0, 0, 0, 0, 0, 0],
     mk_atom ''cross_sectional_area'' ATOM_DIMENSION FAMILY_AREA [2, 0, 0, 0, 0, 0, 0, 0],
     mk_atom ''section_area'' ATOM_DIMENSION FAMILY_AREA [2, 0, 0, 0, 0, 0, 0, 0],
     mk_atom ''second_moment_of_area'' ATOM_DIMENSION FAMILY_SECOND_MOMENT_OF_AREA [4, 0, 0, 0, 0, 0, 0, 0],
     mk_atom ''area_moment_of_inertia'' ATOM_DIMENSION FAMILY_SECOND_MOMENT_OF_AREA [4, 0, 0, 0, 0, 0, 0, 0],
     mk_atom ''second_area_moment'' ATOM_DIMENSION FAMILY_SECOND_MOMENT_OF_AREA [4, 0, 0, 0, 0, 0, 0, 0],
     mk_atom ''force'' ATOM_DIMENSION FAMILY_FORCE [1, 1, -2, 0, 0, 0, 0, 0],
     mk_atom ''energy'' ATOM_DIMENSION FAMILY_ENERGY [2, 1, -2, 0, 0, 0, 0, 0],
     mk_atom ''work'' ATOM_DIMENSION FAMILY_ENERGY [2, 1, -2, 0, 0, 0, 0, 0],
     mk_atom ''kinetic_energy'' ATOM_DIMENSION FAMILY_ENERGY [2, 1, -2, 0, 0, 0, 0, 0],
     mk_atom ''potential_energy'' ATOM_DIMENSION FAMILY_ENERGY [2, 1, -2, 0, 0, 0, 0, 0],
     mk_atom ''power'' ATOM_DIMENSION FAMILY_POWER [2, 1, -3, 0, 0, 0, 0, 0],
     mk_atom ''pressure'' ATOM_DIMENSION FAMILY_PRESSURE [-1, 1, -2, 0, 0, 0, 0, 0],
     mk_atom ''charge'' ATOM_DIMENSION FAMILY_CHARGE [0, 0, 1, 1, 0, 0, 0, 0],
     mk_atom ''voltage'' ATOM_DIMENSION FAMILY_VOLTAGE [2, 1, -3, -1, 0, 0, 0, 0],
     mk_atom ''electric_potential'' ATOM_DIMENSION FAMILY_VOLTAGE [2, 1, -3, -1, 0, 0, 0, 0],
     mk_atom ''resistance'' ATOM_DIMENSION FAMILY_RESISTANCE [2, 1, -3, -2, 0, 0, 0, 0]]"

text \<open>The scan of the table, then of the unit registry.\<close>

fun atom_scan :: "string \<Rightarrow> DimAtomEntry list \<Rightarrow> DimAtomEntry option" where
  "atom_scan name [] = None"
| "atom_scan name (e # es) = (if ae_name e \<noteq> name then atom_scan name es else Some e)"

definition fisics_dim_lookup_atom :: "cstr \<Rightarrow> FisicsDimAtomInfo option" where
  "fisics_dim_lookup_atom nm =
    (case nm of None \<Rightarrow> None
     | Some name \<Rightarrow>
        (case atom_scan name kDimAtoms of
           Some e \<Rightarrow> Some \<lparr>ai_kind = ae_kind e, ai_family = ae_family e,
                       ai_family_name = fisics_dim_family_name (ae_family e), ai_dim = ae_dim e\<rparr>
         | None \<Rightarrow>
            (case fisics_unit_lookup (Some name) of
               Some u \<Rightarrow> Some \<lparr>ai_kind = ATOM_DEFERRED_UNIT, ai_family = ud_family u,
                           ai_family_name = fisics_dim_family_name (ud_family u), ai_dim = fisics_dim_zero\<rparr>
             | None \<Rightarrow> None)))"

section \<open>The parser\<close>

definition is_ws :: "char \<Rightarrow> bool" where
  "is_ws c \<longleftrightarrow> c = CHR '' '' \<or> c = CHR 0x09 \<or> c = CHR 0x0A \<or> c = CHR 0x0D"

fun skip_ws :: "string \<Rightarrow> string" where
  "skip_ws [] = []"
| "skip_ws (c # cs) = (if is_ws c then skip_ws cs else c # cs)"

definition is_ident_char :: "char \<Rightarrow> bool" where
  "is_ident_char c \<longleftrightarrow> is_alpha c \<or> is_digit c \<or> c = CHR ''_'' \<or> c = CHR ''-''"

text \<open>The digit loop: \<open>value * 10 + digit\<close> is signed arithmetic on \<open>int\<close>.\<close>

fun parse_digits :: "int \<Rightarrow> string \<Rightarrow> (unit, int \<times> string) outcome" where
  "parse_digits v [] = Done (v, [])"
| "parse_digits v (c # cs) =
    (if is_digit c then
       (if fits_int (v * 10 + int (digit_val c)) then parse_digits (v * 10 + int (digit_val c)) cs
        else Undefined)
     else Done (v, c # cs))"

definition parse_int :: "string \<Rightarrow> (unit, int \<times> string) outcome" where
  "parse_int s0 =
    (let s = skip_ws s0;
         (sign, t) = (case s of
             [] \<Rightarrow> (1, [])
           | c # cs \<Rightarrow> if c = CHR ''+'' then (1, cs) else if c = CHR ''-'' then (- 1, cs) else (1, s))
     in case t of
          [] \<Rightarrow> Fail ()
        | c # cs \<Rightarrow>
            if \<not> is_digit c then Fail ()
            else (case parse_digits 0 t of
                    Undefined \<Rightarrow> Undefined | Fail e \<Rightarrow> Fail e
                  | Done (v, r) \<Rightarrow> Done (v * sign, r)))"

definition unknown_atom_error :: "string \<Rightarrow> string" where
  "unknown_atom_error ident = ''unknown dimension atom '' @ [CHR 0x27] @ ident @ [CHR 0x27]"

definition unit_word_error :: "string \<Rightarrow> string \<Rightarrow> string" where
  "unit_word_error ident fam =
    ''concrete unit word '' @ [CHR 0x27] @ ident @ [CHR 0x27] @
    '' belongs in [[fisics::unit(...)]] rather than fisics::dim(...) ('' @ fam @ '' family)''"

definition exponent_error :: string where
  "exponent_error = ''expected integer exponent after '' @ [CHR 0x27, CHR ''^'', CHR 0x27]"

definition operator_error :: string where
  "operator_error = ''expected '' @ [CHR 0x27, CHR ''*'', CHR 0x27] @ '' or '' @ [CHR 0x27, CHR ''/'', CHR 0x27] @
     '' between dimension atoms''"

text \<open>The optional \<open>^ exponent\<close> after a name.\<close>

definition parse_power :: "FisicsDim8 \<Rightarrow> string \<Rightarrow> (string, FisicsDim8 \<times> string) outcome" where
  "parse_power base s =
    (if s \<noteq> [] \<and> hd s = CHR ''^'' then
       (case parse_int (tl s) of
          Undefined \<Rightarrow> Undefined
        | Fail _ \<Rightarrow> Fail exponent_error
        | Done (pw, r) \<Rightarrow>
            (case fisics_dim_scale base pw of
               Undefined \<Rightarrow> Undefined
             | Fail _ \<Rightarrow> Fail ''dimension exponent overflow''
             | Done d \<Rightarrow> Done (d, r)))
     else Done (base, s))"

definition parse_atom :: "string \<Rightarrow> (string, FisicsDim8 \<times> string) outcome" where
  "parse_atom s0 =
    (let s = skip_ws s0;
         ident = takeWhile is_ident_char s;
         r = dropWhile is_ident_char s
     in if ident = [] then Fail ''expected a dimension name''
        else case fisics_dim_lookup_atom (Some ident) of
            None \<Rightarrow> Fail (unknown_atom_error ident)
          | Some info \<Rightarrow>
              if ai_kind info = ATOM_UNKNOWN then Fail (unknown_atom_error ident)
              else if ai_kind info = ATOM_DEFERRED_UNIT then Fail (unit_word_error ident (ai_family_name info))
              else parse_power (ai_dim info) (skip_ws r))"

text \<open>Each atom consumes at least one character, so the loop ends.\<close>

lemma length_skip_ws: "length (skip_ws s) \<le> length s"
  by (induction s) auto

lemma parse_digits_rest: "parse_digits v s = Done (w, r) \<Longrightarrow> length r \<le> length s"
  by (induction v s rule: parse_digits.induct) (auto split: if_splits)

lemma parse_int_rest: "parse_int s = Done (v, r) \<Longrightarrow> length r \<le> length s"
  using length_skip_ws [of s]
  by (fastforce simp: parse_int_def Let_def split: list.splits if_splits outcome.splits
      dest!: parse_digits_rest)

lemma parse_power_rest: "parse_power b s = Done (d, r) \<Longrightarrow> length r \<le> length s"
  by (cases s) (fastforce simp: parse_power_def split: if_splits outcome.splits dest!: parse_int_rest)+

lemma parse_atom_rest: "parse_atom s = Done (d, r) \<Longrightarrow> length r < length s"
proof -
  assume a: "parse_atom s = Done (d, r)"
  let ?s = "skip_ws s"
  have i: "takeWhile is_ident_char ?s \<noteq> []" using a by (auto simp: parse_atom_def)
  have "length r \<le> length (skip_ws (dropWhile is_ident_char ?s))"
    using a by (auto simp: parse_atom_def Let_def split: if_splits option.splits dest!: parse_power_rest)
  also have "\<dots> \<le> length (dropWhile is_ident_char ?s)" by (rule length_skip_ws)
  also have "\<dots> < length ?s"
  proof -
    have "length (takeWhile is_ident_char ?s) + length (dropWhile is_ident_char ?s) = length ?s"
      by (metis length_append takeWhile_dropWhile_id)
    moreover have "0 < length (takeWhile is_ident_char ?s)" using i by blast
    ultimately show ?thesis by linarith
  qed
  also have "\<dots> \<le> length s" by (rule length_skip_ws)
  finally show ?thesis .
qed

lemma parse_step_shrinks:
  "parse_atom s = Done (d, r0) \<Longrightarrow> skip_ws r0 = c # r \<Longrightarrow> length (skip_ws r) < length s"
  using parse_atom_rest [of s d r0] length_skip_ws [of r0] length_skip_ws [of r] by simp

text \<open>Combining an atom with what was read before it.\<close>

definition combine_atom ::
    "bool \<Rightarrow> char \<Rightarrow> FisicsDim8 \<Rightarrow> FisicsDim8 \<Rightarrow> string + FisicsDim8" where
  "combine_atom haveAny pendingOp accum atom =
    (if \<not> haveAny then Inr atom
     else if pendingOp = CHR ''*'' then
       (case fisics_dim_add accum atom of None \<Rightarrow> Inl ''dimension addition overflow'' | Some d \<Rightarrow> Inr d)
     else
       (case fisics_dim_sub accum atom of None \<Rightarrow> Inl ''dimension subtraction overflow'' | Some d \<Rightarrow> Inr d))"

function parse_dim_loop ::
    "FisicsDim8 \<Rightarrow> bool \<Rightarrow> char \<Rightarrow> string \<Rightarrow> (string, FisicsDim8) outcome" where
  "parse_dim_loop accum haveAny pendingOp s =
    (if s = [] then Done accum
     else case parse_atom s of
         Undefined \<Rightarrow> Undefined
       | Fail e \<Rightarrow> Fail e
       | Done (atom, r0) \<Rightarrow>
           (case combine_atom haveAny pendingOp accum atom of
              Inl e \<Rightarrow> Fail e
            | Inr acc \<Rightarrow>
                (case skip_ws r0 of
                   [] \<Rightarrow> Done acc
                 | c # r \<Rightarrow>
                     if c \<noteq> CHR ''*'' \<and> c \<noteq> CHR ''/'' then Fail operator_error
                     else parse_dim_loop acc True c (skip_ws r))))"
  by pat_completeness auto
termination
  by (relation "measure (\<lambda>(a, h, p, s). length s)") (auto intro: parse_step_shrinks)

declare parse_dim_loop.simps [simp del]

definition fisics_units_parse_dim_expr :: "cstr \<Rightarrow> (string, FisicsDim8) outcome" where
  "fisics_units_parse_dim_expr text =
    (let s = skip_ws (case text of None \<Rightarrow> [] | Some t \<Rightarrow> t)
     in if s = [] then Done fisics_dim_zero
        else parse_dim_loop fisics_dim_zero False (CHR ''*'') s)"

section \<open>Attributes\<close>

definition extract_cxx_attr_payload :: "ASTAttribute option \<Rightarrow> string \<Rightarrow> string option" where
  "extract_cxx_attr_payload attr prefix =
    (case attr of
       None \<Rightarrow> None
     | Some a \<Rightarrow>
        (if at_syntax a \<noteq> SYNTAX_CXX then None
         else case at_payload a of
            None \<Rightarrow> None
          | Some payload \<Rightarrow>
             (let prefixLen = length prefix; payloadLen = length payload in
              if take prefixLen payload \<noteq> prefix then None
              else if payloadLen < prefixLen + 1 \<or> payload ! (payloadLen - 1) \<noteq> CHR '')'' then None
              else Some (take (payloadLen - prefixLen - 1) (drop prefixLen payload)))))"

definition fisics_units_dim_attribute_extract :: "ASTAttribute option \<Rightarrow> string option" where
  "fisics_units_dim_attribute_extract attr = extract_cxx_attr_payload attr ''fisics::dim(''"

definition fisics_units_unit_attribute_extract :: "ASTAttribute option \<Rightarrow> string option" where
  "fisics_units_unit_attribute_extract attr = extract_cxx_attr_payload attr ''fisics::unit(''"

definition fisics_units_attribute_extract :: "ASTAttribute option \<Rightarrow> string option" where
  "fisics_units_attribute_extract attr = fisics_units_dim_attribute_extract attr"

end
