(* ===== verification/Units_Registry_Props.thy ===== *)
theory Units_Registry_Props
  imports Units_Registry
begin

text \<open>
  The registry validator against the integrity contract the header documents, what it accepts of the
  compiled-in table, and lookup: any accepted spelling finds the unit it belongs to.
\<close>

section \<open>What the validator accepts\<close>

definition unit_texts :: "FisicsUnitDef \<Rightarrow> string set" where
  "unit_texts u = {t. Some t \<in> set (ud_name u # ud_symbol u # ud_aliases u)}"

definition tokens_ok :: "FisicsUnitDef \<Rightarrow> bool" where
  "tokens_ok u \<longleftrightarrow>
    \<not> empty_text (ud_name u) \<and> \<not> empty_text (ud_symbol u) \<and>
    (\<forall>al \<in> set (ud_aliases u). \<not> empty_text al \<and> al \<noteq> ud_name u \<and> al \<noteq> ud_symbol u)"

definition unit_ok :: "FisicsUnitFamilyDef \<Rightarrow> FisicsUnitDef \<Rightarrow> bool" where
  "unit_ok f u \<longleftrightarrow>
    tokens_ok u \<and> ud_family u = fd_family f \<and>
    (case family_expected_dim (fd_family f) of None \<Rightarrow> False | Some d \<Rightarrow> fisics_dim_equal (ud_dim u) d) \<and>
    isfinite (ud_scale u) \<and> \<not> dle_zero (ud_scale u) \<and> isfinite (ud_offset u) \<and> deq (ud_offset u) (dlit 0)"

definition family_ok :: "FisicsUnitFamilyDef \<Rightarrow> bool" where
  "family_ok f \<longleftrightarrow>
    fd_name f = Some (fisics_dim_family_name (fd_family f)) \<and> fd_units f \<noteq> [] \<and>
    (\<forall>u \<in> set (fd_units f). unit_ok f u) \<and>
    length (filter unit_has_canonical_base (fd_units f)) = 1"

definition registry_ok :: "FisicsUnitFamilyDef list \<Rightarrow> bool" where
  "registry_ok fs \<longleftrightarrow>
    fs \<noteq> [] \<and> (\<forall>f \<in> set fs. family_ok f) \<and>
    sorted_wrt (\<lambda>u v. unit_texts u \<inter> unit_texts v = {}) (all_units fs)"

section \<open>What the validator counts\<close>

named_theorems issues

lemma same_text_iff: "same_text a b \<longleftrightarrow> a = b \<and> a \<noteq> None"
  by (auto simp: same_text_def split: option.splits)

lemma issue_if_count [issues]: "issue_count (issue_if b a) = issue_count a + (if b then 1 else 0)"
  by (simp add: issue_if_def record_issue_def)

lemma record_issue_count [issues]: "issue_count (record_issue a) = issue_count a + 1"
  by (simp add: record_issue_def)

lemma alias_pairs_count [issues]:
  "issue_count (alias_pairs al cs a) = issue_count a + length (filter (same_text al) cs)"
  by (induction cs arbitrary: a) (simp_all add: issues)

definition left_clashes :: "FisicsUnitDef \<Rightarrow> cstr \<Rightarrow> nat" where
  "left_clashes v al =
    (if al = None then 0
     else (if same_text al (ud_name v) \<or> same_text al (ud_symbol v) then 1 else 0) +
          length (filter (same_text al) (ud_aliases v)))"

lemma left_aliases_count [issues]:
  "issue_count (left_aliases als v a) = issue_count a + sum_list (map (left_clashes v) als)"
  by (induction als arbitrary: a) (simp_all add: issues left_clashes_def)

definition right_clashes :: "FisicsUnitDef \<Rightarrow> cstr \<Rightarrow> nat" where
  "right_clashes u c =
    (if c = None then 0 else if same_text c (ud_name u) \<or> same_text c (ud_symbol u) then 1 else 0)"

lemma right_aliases_count [issues]:
  "issue_count (right_aliases cs u a) = issue_count a + sum_list (map (right_clashes u) cs)"
  by (induction cs arbitrary: a) (simp_all add: issues right_clashes_def)

definition pair_clashes :: "FisicsUnitDef \<Rightarrow> FisicsUnitDef \<Rightarrow> nat" where
  "pair_clashes u v =
    (if same_text (ud_name u) (ud_name v) \<or> same_text (ud_name u) (ud_symbol v) \<or>
        same_text (ud_symbol u) (ud_name v) \<or> same_text (ud_symbol u) (ud_symbol v) then 1 else 0) +
    sum_list (map (left_clashes v) (ud_aliases u)) + sum_list (map (right_clashes u) (ud_aliases v))"

lemma compare_units_count [issues]:
  "issue_count (compare_units u v a) = issue_count a + pair_clashes u v"
  by (simp add: compare_units_def pair_clashes_def issues)

lemma compare_later_count [issues]:
  "issue_count (compare_later u vs a) = issue_count a + sum_list (map (pair_clashes u) vs)"
  by (induction vs arbitrary: a) (simp_all add: issues)

fun clash_total :: "FisicsUnitDef list \<Rightarrow> nat" where
  "clash_total [] = 0"
| "clash_total (u # us) = sum_list (map (pair_clashes u) us) + clash_total us"

lemma collisions_count [issues]:
  "issue_count (collisions_from us a) = issue_count a + clash_total us"
  by (induction us arbitrary: a) (simp_all add: issues)

text \<open>Two units clash in no way exactly when they share no spelling.\<close>

lemma left_clashes_0: "left_clashes v al = 0 \<longleftrightarrow> (\<forall>t. al = Some t \<longrightarrow> t \<notin> unit_texts v)"
  by (cases al) (auto simp: left_clashes_def same_text_iff unit_texts_def filter_empty_conv)

lemma right_clashes_0:
  "right_clashes u c = 0 \<longleftrightarrow> (\<forall>t. c = Some t \<longrightarrow> Some t \<noteq> ud_name u \<and> Some t \<noteq> ud_symbol u)"
  by (cases c) (auto simp: right_clashes_def same_text_iff)

lemma pair_clashes_0: "pair_clashes u v = 0 \<longleftrightarrow> unit_texts u \<inter> unit_texts v = {}"
proof -
  have "pair_clashes u v = 0 \<longleftrightarrow>
      (\<forall>t. Some t \<in> {ud_name u, ud_symbol u} \<longrightarrow> Some t \<notin> {ud_name v, ud_symbol v}) \<and>
      (\<forall>t. Some t \<in> set (ud_aliases u) \<longrightarrow> t \<notin> unit_texts v) \<and>
      (\<forall>t. Some t \<in> set (ud_aliases v) \<longrightarrow> Some t \<noteq> ud_name u \<and> Some t \<noteq> ud_symbol u)"
    unfolding pair_clashes_def add_is_0 sum_list_eq_0_iff set_map ball_simps(9) left_clashes_0 right_clashes_0
    by (auto simp: same_text_iff)
  also have "\<dots> \<longleftrightarrow> unit_texts u \<inter> unit_texts v = {}"
    by (auto simp: unit_texts_def)
  finally show ?thesis .
qed

lemma clash_total_0:
  "clash_total us = 0 \<longleftrightarrow> sorted_wrt (\<lambda>u v. unit_texts u \<inter> unit_texts v = {}) us"
  by (induction us) (auto simp: pair_clashes_0)

definition alias_issues :: "FisicsUnitDef \<Rightarrow> cstr \<Rightarrow> nat" where
  "alias_issues u al =
    (if empty_text al then 1 else if same_text al (ud_name u) \<or> same_text al (ud_symbol u) then 1 else 0)"

lemma validate_aliases_count [issues]:
  "issue_count (validate_aliases u als a) = issue_count a + sum_list (map (alias_issues u) als)"
  by (induction als arbitrary: a) (simp_all add: issues alias_issues_def)

definition token_issues :: "FisicsUnitDef \<Rightarrow> nat" where
  "token_issues u = (if empty_text (ud_name u) then 1 else 0) + (if empty_text (ud_symbol u) then 1 else 0) +
    sum_list (map (alias_issues u) (ud_aliases u))"

lemma validate_tokens_count [issues]:
  "issue_count (validate_unit_tokens u a) = issue_count a + token_issues u"
  by (simp add: validate_unit_tokens_def token_issues_def issues)

lemma alias_issues_0:
  "alias_issues u al = 0 \<longleftrightarrow> \<not> empty_text al \<and> al \<noteq> ud_name u \<and> al \<noteq> ud_symbol u"
  by (auto simp: alias_issues_def same_text_iff empty_text_def)

lemma token_issues_0: "token_issues u = 0 \<longleftrightarrow> tokens_ok u"
  by (simp add: token_issues_def tokens_ok_def alias_issues_0)

definition unit_issues :: "FisicsUnitFamilyDef \<Rightarrow> FisicsUnitDef \<Rightarrow> nat" where
  "unit_issues f u =
    token_issues u + (if ud_family u \<noteq> fd_family f then 1 else 0) +
    (if case family_expected_dim (fd_family f) of
          None \<Rightarrow> True | Some d \<Rightarrow> \<not> fisics_dim_equal (ud_dim u) d then 1 else 0) +
    (if \<not> isfinite (ud_scale u) \<or> dle_zero (ud_scale u) then 1 else 0) +
    (if \<not> isfinite (ud_offset u) \<or> \<not> deq (ud_offset u) (dlit 0) then 1 else 0)"

lemma unit_issues_0: "unit_issues f u = 0 \<longleftrightarrow> unit_ok f u"
  by (auto simp: unit_issues_def unit_ok_def token_issues_0 split: option.splits if_splits)

lemma validate_units_count:
  "issue_count (fst (validate_units f us a n)) = issue_count a + sum_list (map (unit_issues f) us) \<and>
   snd (validate_units f us a n) = n + length (filter unit_has_canonical_base us)"
proof (induction us arbitrary: a n)
  case (Cons u us)
  then show ?case by (simp add: Let_def issues unit_issues_def)
qed simp

definition family_issues :: "FisicsUnitFamilyDef \<Rightarrow> nat" where
  "family_issues f =
    (if fd_name f \<noteq> Some (fisics_dim_family_name (fd_family f)) then 1 else 0) +
    (if fd_units f = [] then 1
     else sum_list (map (unit_issues f) (fd_units f)) +
          (if length (filter unit_has_canonical_base (fd_units f)) \<noteq> 1 then 1 else 0))"

lemma family_name_nonempty: "fisics_dim_family_name fam \<noteq> []"
  by (cases fam) simp_all

lemma validate_family_count [issues]:
  "issue_count (validate_family f a) = issue_count a + family_issues f"
proof -
  define a2 where "a2 =
    (if empty_text (fd_name f) then record_issue (a\<lparr>family_count := family_count a + 1\<rparr>)
     else issue_if (\<not> same_text (fd_name f) (Some (fisics_dim_family_name (fd_family f))))
       (a\<lparr>family_count := family_count a + 1\<rparr>))"
  have a2: "issue_count a2 =
      issue_count a + (if fd_name f \<noteq> Some (fisics_dim_family_name (fd_family f)) then 1 else 0)"
    using family_name_nonempty [of "fd_family f"]
    by (simp add: a2_def issues same_text_iff empty_text_def)
  have "validate_family f a =
      (if fd_units f = [] then record_issue a2
       else issue_if (snd (validate_units f (fd_units f) a2 0) \<noteq> 1) (fst (validate_units f (fd_units f) a2 0)))"
    by (simp add: validate_family_def a2_def Let_def case_prod_beta)
  then show ?thesis
    using validate_units_count [of f "fd_units f" a2 0] a2 by (simp add: family_issues_def issues)
qed

lemma family_issues_0: "family_issues f = 0 \<longleftrightarrow> family_ok f"
  by (auto simp: family_issues_def family_ok_def unit_issues_0)

lemma validate_families_count [issues]:
  "issue_count (validate_families fs a) = issue_count a + sum_list (map family_issues fs)"
  by (induction fs arbitrary: a) (simp_all add: issues)

lemma validate_table_iff: "snd (fisics_unit_registry_validate_table fs) \<longleftrightarrow> registry_ok fs"
  by (simp add: fisics_unit_registry_validate_table_def registry_ok_def validate_cross_collisions_def
      Let_def issues clash_total_0 family_issues_0)

section \<open>Lookup as a search of the flattened table\<close>

lemma alias_scan_iff: "alias_scan t als \<longleftrightarrow> Some t \<in> set als"
  by (induction als) (auto simp: same_text_iff)

lemma unit_scan_find: "unit_scan t us = List.find (\<lambda>u. t \<in> unit_texts u) us"
  by (induction us) (auto simp: same_text_iff alias_scan_iff unit_texts_def)

lemma find_append: "List.find P (xs @ ys) = (case List.find P xs of Some x \<Rightarrow> Some x | None \<Rightarrow> List.find P ys)"
  by (induction xs) auto

lemma family_scan_find: "family_scan t fs = List.find (\<lambda>u. t \<in> unit_texts u) (all_units fs)"
  by (induction fs) (simp_all add: all_units_def unit_scan_find find_append split: option.splits)

section \<open>The compiled-in table\<close>

lemmas unit_tables =
  init_length_units_def init_length_units_head_def init_length_units_tail_def init_mass_units_def
  init_time_units_def init_current_units_def init_temperature_units_def init_amount_units_def
  init_luminous_units_def init_velocity_units_def init_acceleration_units_def init_area_units_def
  init_second_moment_of_area_units_def init_force_units_def init_energy_units_def init_power_units_def
  init_pressure_units_def init_charge_units_def init_voltage_units_def init_resistance_units_def
  kCurrentUnitsTemplate_def kTemperatureUnitsTemplate_def kAmountUnitsTemplate_def
  kLuminousUnitsTemplate_def kForceUnitsTemplate_def kPowerUnitsTemplate_def kPressureUnitsTemplate_def
  kChargeUnitsTemplate_def kVoltageUnitsTemplate_def kResistanceUnitsTemplate_def

lemmas alias_tables =
  kMeterAliases_def kMillimeterAliases_def kCentimeterAliases_def kKilometerAliases_def kFootAliases_def
  kInchAliases_def kYardAliases_def kMileAliases_def kKilogramAliases_def kGramAliases_def
  kMilligramAliases_def kMetricTonAliases_def kPoundAliases_def kSecondAliases_def kMillisecondAliases_def
  kMinuteAliases_def kHourAliases_def kAmpereAliases_def kKelvinAliases_def kMoleAliases_def
  kCandelaAliases_def kMeterPerSecondAliases_def kFootPerSecondAliases_def
  kMeterPerSecondSquaredAliases_def kSquareMeterAliases_def kSquareMillimeterAliases_def
  kSquareCentimeterAliases_def kMeterToFourthAliases_def kMillimeterToFourthAliases_def
  kCentimeterToFourthAliases_def kNewtonAliases_def kKilonewtonAliases_def kPoundForceAliases_def
  kJouleAliases_def kKilojouleAliases_def kWattHourAliases_def kKilowattHourAliases_def kWattAliases_def
  kMilliwattAliases_def kKilowattAliases_def kMegawattAliases_def kPascalAliases_def kKilopascalAliases_def
  kBarAliases_def kPsiAliases_def kCoulombAliases_def kAmpereHourAliases_def kMilliampereHourAliases_def
  kVoltAliases_def kMillivoltAliases_def kKilovoltAliases_def kOhmAliases_def kMilliohmAliases_def
  kKiloohmAliases_def kMegaohmAliases_def

text \<open>A unit made by the macro with a scale in the middle of the range is sound.\<close>

lemma unit_ok_mk:
  assumes "nm \<noteq> []" "sy \<noteq> []" "[] \<notin> set als" "nm \<notin> set als" "sy \<notin> set als"
    and "family_expected_dim fam = Some d" "mid_range x"
  shows "unit_ok (mk_family fam label us) (mk_unit nm sy fam d (dlit x) als)"
  using assms dlit_positive [OF assms(7)]
  by (auto simp: unit_ok_def mk_unit_def mk_family_def tokens_ok_def empty_text_def dlit_0)

lemma base_mk:
  "unit_has_canonical_base (mk_unit nm sy fam d (dlit 1) als)"
  "mid_range x \<Longrightarrow> x \<le> 99 / 100 \<or> 101 / 100 \<le> x \<Longrightarrow>
     \<not> unit_has_canonical_base (mk_unit nm sy fam d (dlit x) als)"
  using dlit_not_1 [of x] by (simp_all add: unit_has_canonical_base_def mk_unit_def dlit_0 dlit_1)

lemma family_ok_mk:
  assumes "label = fisics_dim_family_name fam"
    and "us = mk_unit nm sy fam d (dlit 1) als # vs"
    and "\<And>u. u \<in> set us \<Longrightarrow> unit_ok (mk_family fam label us) u"
    and "\<And>v. v \<in> set vs \<Longrightarrow> \<not> unit_has_canonical_base v"
  shows "family_ok (mk_family fam label us)"
proof -
  have "filter unit_has_canonical_base vs = []" using assms(4) by (simp add: filter_empty_conv)
  then show ?thesis
    using assms(1-3) base_mk(1) by (simp add: family_ok_def mk_family_def)
qed

lemma base_families_ok: "f \<in> set init_family_table_part1 \<Longrightarrow> family_ok f"
  unfolding init_family_table_part1_def unit_tables append.simps list.set
  by (elim insertE emptyE; (simp only:); rule family_ok_mk [OF _ refl];
      auto simp: alias_tables dim_values base_mk mid_range_if intro!: unit_ok_mk)

lemma derived_families_ok: "f \<in> set init_family_table_part2 \<Longrightarrow> family_ok f"
  unfolding init_family_table_part2_def unit_tables append.simps list.set
  by (elim insertE emptyE; (simp only:); rule family_ok_mk [OF _ refl];
      auto simp: alias_tables dim_values base_mk mid_range_if intro!: unit_ok_mk)

text \<open>No spelling belongs to two units.\<close>

definition spellings :: "string \<Rightarrow> string \<Rightarrow> string list \<Rightarrow> string list" where
  "spellings nm sy als = remdups (nm # sy # als)"

definition unit_spellings :: "FisicsUnitDef \<Rightarrow> string list" where
  "unit_spellings u = spellings (the (ud_name u)) (the (ud_symbol u)) (map the (ud_aliases u))"

lemma unit_spellings_mk [simp]: "unit_spellings (mk_unit nm sy fam d x als) = spellings nm sy als"
  by (simp add: unit_spellings_def mk_unit_def comp_def)

lemma unit_texts_mk [simp]: "unit_texts (mk_unit nm sy fam d x als) = set (spellings nm sy als)"
  by (auto simp: unit_texts_def mk_unit_def spellings_def)

lemma fd_units_mk [simp]: "fd_units (mk_family fam label us) = us"
  by (simp add: mk_family_def)

lemma all_units_mk: "u \<in> set (all_units kUnitFamilies) \<Longrightarrow> unit_texts u = set (unit_spellings u)"
  unfolding all_units_def kUnitFamilies_def init_family_table_part1_def init_family_table_part2_def unit_tables
  by auto

lemma spellings_distinct: "distinct (concat (map unit_spellings (all_units kUnitFamilies)))"
  unfolding all_units_def kUnitFamilies_def init_family_table_part1_def init_family_table_part2_def
    unit_tables alias_tables
  by (simp add: spellings_def)

interpretation registry: keyed_table "all_units kUnitFamilies" unit_texts
  by unfold_locales (rule separate_if_distinct [OF spellings_distinct all_units_mk])

lemma kUnitFamilies_ok: "registry_ok kUnitFamilies"
  using base_families_ok derived_families_ok registry.separate
  by (auto simp: registry_ok_def kUnitFamilies_def init_family_table_part1_def)

lemma lookup_iff:
  "fisics_unit_lookup (Some t) = Some u \<longleftrightarrow> u \<in> set (all_units kUnitFamilies) \<and> t \<in> unit_texts u"
  unfolding fisics_unit_lookup_def option.case family_scan_find by (rule registry.find_key_iff)

section \<open>Properties of the registry\<close>

text \<open>
  The integrity contract as \<open>src/src/Extensions/Units/units_registry.h\<close> documents it, written
  without the validator: canonical names in lowercase \<open>snake_case\<close>, no spelling twice in the whole
  table (a symbol may repeat the name of its own unit), the dimension of the family, exactly one
  canonical unit in a family, offset zero. That a name is singular cannot be told from its characters.
\<close>

definition snake_case :: "string \<Rightarrow> bool" where
  "snake_case s \<longleftrightarrow>
    s \<noteq> [] \<and> list_all (\<lambda>c. c \<in> set ''abcdefghijklmnopqrstuvwxyz0123456789_'') s \<and>
    hd s \<noteq> CHR ''_'' \<and> last s \<noteq> CHR ''_'' \<and> successively (\<lambda>c d. c \<noteq> CHR ''_'' \<or> d \<noteq> CHR ''_'') s"

fun family_signature :: "FisicsDimFamily \<Rightarrow> int list option" where
  "family_signature FAMILY_LENGTH = Some [1, 0, 0, 0, 0, 0, 0, 0]"
| "family_signature FAMILY_MASS = Some [0, 1, 0, 0, 0, 0, 0, 0]"
| "family_signature FAMILY_TIME = Some [0, 0, 1, 0, 0, 0, 0, 0]"
| "family_signature FAMILY_CURRENT = Some [0, 0, 0, 1, 0, 0, 0, 0]"
| "family_signature FAMILY_TEMPERATURE = Some [0, 0, 0, 0, 1, 0, 0, 0]"
| "family_signature FAMILY_AMOUNT = Some [0, 0, 0, 0, 0, 1, 0, 0]"
| "family_signature FAMILY_LUMINOUS = Some [0, 0, 0, 0, 0, 0, 1, 0]"
| "family_signature FAMILY_CUSTOM = Some [0, 0, 0, 0, 0, 0, 0, 1]"
| "family_signature FAMILY_VELOCITY = Some [1, 0, -1, 0, 0, 0, 0, 0]"
| "family_signature FAMILY_ACCELERATION = Some [1, 0, -2, 0, 0, 0, 0, 0]"
| "family_signature FAMILY_AREA = Some [2, 0, 0, 0, 0, 0, 0, 0]"
| "family_signature FAMILY_SECOND_MOMENT_OF_AREA = Some [4, 0, 0, 0, 0, 0, 0, 0]"
| "family_signature FAMILY_FORCE = Some [1, 1, -2, 0, 0, 0, 0, 0]"
| "family_signature FAMILY_ENERGY = Some [2, 1, -2, 0, 0, 0, 0, 0]"
| "family_signature FAMILY_POWER = Some [2, 1, -3, 0, 0, 0, 0, 0]"
| "family_signature FAMILY_PRESSURE = Some [-1, 1, -2, 0, 0, 0, 0, 0]"
| "family_signature FAMILY_CHARGE = Some [0, 0, 1, 1, 0, 0, 0, 0]"
| "family_signature FAMILY_VOLTAGE = Some [2, 1, -3, -1, 0, 0, 0, 0]"
| "family_signature FAMILY_RESISTANCE = Some [2, 1, -3, -2, 0, 0, 0, 0]"
| "family_signature FAMILY_DIMENSIONLESS = None"

definition occurrences :: "FisicsUnitDef \<Rightarrow> cstr list" where
  "occurrences u = ud_name u # (if ud_symbol u = ud_name u then [] else [ud_symbol u]) @ ud_aliases u"

definition contract_name :: "FisicsUnitDef \<Rightarrow> bool" where
  "contract_name u \<longleftrightarrow> (case ud_name u of None \<Rightarrow> False | Some nm \<Rightarrow> snake_case nm)"

definition contract_unit :: "FisicsUnitFamilyDef \<Rightarrow> FisicsUnitDef \<Rightarrow> bool" where
  "contract_unit f u \<longleftrightarrow>
    ud_family u = fd_family f \<and>
    (case family_signature (fd_family f) of None \<Rightarrow> False | Some d \<Rightarrow> list_all (\<lambda>i. ud_dim u ! i = d ! i) [0..<8]) \<and>
    dval (ud_offset u) = Some 0"

definition one_canonical_unit :: "FisicsUnitFamilyDef \<Rightarrow> bool" where
  "one_canonical_unit f \<longleftrightarrow> (\<exists>!i. i < length (fd_units f) \<and> dval (ud_scale (fd_units f ! i)) = Some 1)"

definition registry_contract :: "FisicsUnitFamilyDef list \<Rightarrow> bool" where
  "registry_contract fs \<longleftrightarrow>
    list_all contract_name (all_units fs) \<and> distinct (concat (map occurrences (all_units fs))) \<and>
    list_all (\<lambda>f. list_all (contract_unit f) (fd_units f)) fs \<and>
    list_all one_canonical_unit fs"

text \<open>What the validator asks beyond the contract, and what the contract asks beyond the validator.\<close>

definition complete_table :: "FisicsUnitFamilyDef list \<Rightarrow> bool" where
  "complete_table fs \<longleftrightarrow>
    fs \<noteq> [] \<and> list_all (\<lambda>f. fd_name f = Some (fisics_dim_family_name (fd_family f))) fs \<and>
    list_all (\<lambda>u. None \<notin> set (occurrences u) \<and> Some [] \<notin> set (occurrences u)) (all_units fs) \<and>
    list_all (\<lambda>u. \<exists>x > 0. dval (ud_scale u) = Some x) (all_units fs)"

definition unchecked_rules :: "FisicsUnitFamilyDef list \<Rightarrow> bool" where
  "unchecked_rules fs \<longleftrightarrow> list_all (\<lambda>u. contract_name u \<and> distinct (ud_aliases u)) (all_units fs)"

lemma signature_expected: "family_signature fam = family_expected_dim fam"
  by (cases fam) (simp_all add: dim_values)

lemma dim_equal_eight: "fisics_dim_equal a b \<longleftrightarrow> list_all (\<lambda>i. a ! i = b ! i) [0..<8]"
  by (simp add: fisics_dim_equal_def dim_equal_from_iff FISICS_DIM_COUNT_def list_all_iff)

lemma double_tests:
  "deq x (dlit 1) \<longleftrightarrow> dval x = Some 1"
  "isfinite x \<and> deq x (dlit 0) \<longleftrightarrow> dval x = Some 0"
  "isfinite x \<and> \<not> dle_zero x \<longleftrightarrow> (\<exists>r > 0. dval x = Some r)"
  by (cases x; force simp: dlit_0 dlit_1)+

lemma distinct_concat_map:
  "distinct (concat (map f us)) \<longleftrightarrow>
    list_all (\<lambda>u. distinct (f u)) us \<and> sorted_wrt (\<lambda>u v. set (f u) \<inter> set (f v) = {}) us"
  by (induction us) auto

lemma occurrences_set: "set (occurrences u) = {ud_name u, ud_symbol u} \<union> set (ud_aliases u)"
  by (auto simp: occurrences_def)

lemma occurrences_disjoint:
  assumes "None \<notin> set (occurrences u)" "None \<notin> set (occurrences v)"
  shows "set (occurrences u) \<inter> set (occurrences v) = {} \<longleftrightarrow> unit_texts u \<inter> unit_texts v = {}"
proof -
  have t: "unit_texts w = {t. Some t \<in> set (occurrences w)}" for w by (simp add: unit_texts_def occurrences_set)
  show ?thesis unfolding t using assms by (auto simp: disjoint_iff) (metis option.exhaust)
qed

lemma tokens_ok_iff:
  "tokens_ok u \<and> distinct (ud_aliases u) \<longleftrightarrow>
    None \<notin> set (occurrences u) \<and> Some [] \<notin> set (occurrences u) \<and> distinct (occurrences u)"
proof -
  have d: "distinct (occurrences u) \<longleftrightarrow>
      distinct (ud_aliases u) \<and> ud_name u \<notin> set (ud_aliases u) \<and> ud_symbol u \<notin> set (ud_aliases u)"
    by (simp add: occurrences_def) blast
  have a: "(\<forall>a \<in> A. \<not> (a = n \<or> a = e) \<and> a \<noteq> x \<and> a \<noteq> y) \<longleftrightarrow> n \<notin> A \<and> e \<notin> A \<and> x \<notin> A \<and> y \<notin> A"
    for A :: "cstr set" and n e x y by metis
  have o: "z \<notin> set (occurrences u) \<longleftrightarrow> ud_name u \<noteq> z \<and> ud_symbol u \<noteq> z \<and> z \<notin> set (ud_aliases u)" for z
    by (auto simp: occurrences_set)
  show ?thesis unfolding tokens_ok_def empty_text_def d a o by argo
qed

lemma unit_ok_iff:
  "unit_ok f u \<longleftrightarrow> tokens_ok u \<and> contract_unit f u \<and> (\<exists>x > 0. dval (ud_scale u) = Some x)"
  unfolding unit_ok_def contract_unit_def signature_expected dim_equal_eight double_tests(2,3) [symmetric]
  by (auto split: option.split)

lemma one_base_iff:
  assumes "list_all (contract_unit f) (fd_units f)"
  shows "length (filter unit_has_canonical_base (fd_units f)) = 1 \<longleftrightarrow> one_canonical_unit f"
proof -
  have "unit_has_canonical_base u \<longleftrightarrow> dval (ud_scale u) = Some 1" if "u \<in> set (fd_units f)" for u
    using assms that double_tests(2) [of "ud_offset u"]
    by (auto simp: list_all_iff contract_unit_def unit_has_canonical_base_def double_tests(1))
  then have "{i. i < length (fd_units f) \<and> unit_has_canonical_base (fd_units f ! i)} =
      {i. i < length (fd_units f) \<and> dval (ud_scale (fd_units f ! i)) = Some 1}" by auto
  then show ?thesis
    unfolding length_filter_conv_card card_1_singleton_iff One_nat_def one_canonical_unit_def
    by (auto simp: set_eq_iff Ex1_def)
qed

lemma family_ok_iff:
  "family_ok f \<longleftrightarrow>
    fd_name f = Some (fisics_dim_family_name (fd_family f)) \<and>
    (\<forall>u \<in> set (fd_units f). tokens_ok u \<and> (\<exists>x > 0. dval (ud_scale u) = Some x)) \<and>
    list_all (contract_unit f) (fd_units f) \<and> one_canonical_unit f"
proof (cases "list_all (contract_unit f) (fd_units f)")
  case True
  have "one_canonical_unit f \<Longrightarrow> fd_units f \<noteq> []" by (auto simp: one_canonical_unit_def)
  with True show ?thesis
    unfolding family_ok_def unit_ok_iff one_base_iff [OF True] by (auto simp: list_all_iff)
next
  case False
  then show ?thesis by (auto simp: family_ok_def unit_ok_iff list_all_iff)
qed

lemma disjoint_units_iff:
  assumes "list_all (\<lambda>u. None \<notin> set (occurrences u)) us"
  shows "sorted_wrt (\<lambda>u v. set (occurrences u) \<inter> set (occurrences v) = {}) us \<longleftrightarrow>
    sorted_wrt (\<lambda>u v. unit_texts u \<inter> unit_texts v = {}) us"
  using assms by (induction us) (auto simp: list_all_iff occurrences_disjoint)

text \<open>
  C8. The validator against the contract documented in units_registry.h, stated on its own: names in
  lowercase snake_case, no spelling (name, symbol or alias) twice in the table except a symbol that repeats
  its own unit's name, every unit with the family and the eight exponents of its family and offset zero,
  exactly one unit of scale one in each family. A table that keeps the two rules the validator does not
  look at (the shape of names; no alias listed twice within one unit) is accepted exactly when it meets the
  contract and is complete: it has a family, families carry their own names, spellings are not empty and
  scales are finite and positive. That names are singular is not stated.\<close>
theorem registry_validator_decides_contract:
  "snd (fisics_unit_registry_validate_table fs) \<and> unchecked_rules fs \<longleftrightarrow> registry_contract fs \<and> complete_table fs"
proof -
  let ?us = "all_units fs"
  have all: "(\<forall>f \<in> set fs. \<forall>u \<in> set (fd_units f). P u) \<longleftrightarrow> list_all P ?us" for P
    by (auto simp: list_all_iff all_units_def)
  have families: "(\<forall>f \<in> set fs. family_ok f) \<longleftrightarrow>
      list_all (\<lambda>f. fd_name f = Some (fisics_dim_family_name (fd_family f))) fs \<and>
      list_all (\<lambda>u. tokens_ok u \<and> (\<exists>x > 0. dval (ud_scale u) = Some x)) ?us \<and>
      list_all (\<lambda>f. list_all (contract_unit f) (fd_units f)) fs \<and> list_all one_canonical_unit fs"
    unfolding family_ok_iff all [symmetric] by (auto simp: list_all_iff)
  have tokens: "list_all (\<lambda>u. tokens_ok u \<and> (\<exists>x > 0. dval (ud_scale u) = Some x)) ?us \<and> unchecked_rules fs \<longleftrightarrow>
      list_all contract_name ?us \<and> list_all (\<lambda>u. distinct (occurrences u)) ?us \<and>
      list_all (\<lambda>u. None \<notin> set (occurrences u) \<and> Some [] \<notin> set (occurrences u)) ?us \<and>
      list_all (\<lambda>u. \<exists>x > 0. dval (ud_scale u) = Some x) ?us"
    unfolding unchecked_rules_def list_all_iff using tokens_ok_iff by blast
  have "registry_ok fs \<and> unchecked_rules fs \<longleftrightarrow>
      registry_contract fs \<and> complete_table fs"
  proof (cases "list_all (\<lambda>u. None \<notin> set (occurrences u)) ?us")
    case True
    then show ?thesis
      unfolding registry_ok_def families registry_contract_def complete_table_def distinct_concat_map disjoint_units_iff [OF True]
      using tokens by argo
  next
    case False
    then have "\<not> list_all (\<lambda>u. None \<notin> set (occurrences u) \<and> Some [] \<notin> set (occurrences u)) ?us"
      by (auto simp: list_all_iff)
    then show ?thesis unfolding registry_ok_def families complete_table_def using tokens by argo
  qed
  then show ?thesis unfolding validate_table_iff .
qed

text \<open>
  The compiled-in table is accepted although it does not meet the contract: \<open>feet\<close> is listed twice among
  the aliases of \<open>foot\<close>, as are the aliases of most units. Its names are all in \<open>snake_case\<close>.\<close>
theorem registry_lists_aliases_twice:
  "snd (fisics_unit_registry_validate_table kUnitFamilies) \<and> list_all contract_name (all_units kUnitFamilies) \<and>
    \<not> registry_contract kUnitFamilies"
proof (intro conjI)
  show "snd (fisics_unit_registry_validate_table kUnitFamilies)" by (simp add: validate_table_iff kUnitFamilies_ok)
  show "list_all contract_name (all_units kUnitFamilies)"
    unfolding all_units_def kUnitFamilies_def init_family_table_part1_def init_family_table_part2_def unit_tables
    by (simp add: contract_name_def snake_case_def mk_unit_def)
  have "mk_unit ''foot'' ''ft'' FAMILY_LENGTH [1, 0, 0, 0, 0, 0, 0, 0] (dlit (3048 / 10000)) kFootAliases \<in> set (all_units kUnitFamilies)"
    by (simp add: all_units_def kUnitFamilies_def init_family_table_part1_def init_length_units_def init_length_units_tail_def)
  moreover have "\<not> distinct (occurrences (mk_unit nm sy fam d x kFootAliases))" for nm sy fam d x
    by (simp add: occurrences_def mk_unit_def kFootAliases_def)
  ultimately show "\<not> registry_contract kUnitFamilies"
    unfolding registry_contract_def distinct_concat_map list_all_iff by blast
qed

text \<open>
  The compiled-in registry passes its own validation with no issue.\<close>
theorem registry_validates: "fisics_unit_registry_validate = (fst fisics_unit_registry_validate, True)"
  using kUnitFamilies_ok validate_table_iff [of kUnitFamilies]
  by (simp add: fisics_unit_registry_validate_def prod_eq_iff)

text \<open>
  C11. Lookup returns a unit exactly when the text is one of the unit's accepted spellings (name,
  symbol or alias), whatever the order of the table, and returns nothing for any other text.\<close>
theorem unit_lookup_exact:
  "fisics_unit_lookup (Some t) = Some u \<longleftrightarrow> u \<in> set (all_units kUnitFamilies) \<and> t \<in> unit_texts u"
  by (rule lookup_iff)

end
