(* ===== verification/Units_Parser_Props.thy ===== *)
theory Units_Parser_Props
  imports Units_Parser Units_Registry_Props
begin

text \<open>
  Reading back what the printer of dimensions writes, exactly; the parser never leaves the range of
  the exponents; and what the attribute extraction accepts.
\<close>

section \<open>The table of dimension names\<close>

lemma atom_scan_find: "atom_scan t es = List.find (\<lambda>e. t \<in> {ae_name e}) es"
  by (induction es) auto

interpretation atoms: keyed_table kDimAtoms "\<lambda>e. {ae_name e}"
  by unfold_locales
    (rule separate_if_distinct [where key_list = "\<lambda>e. [ae_name e]"], simp add: kDimAtoms_def mk_atom_def, simp)

lemma dim_ok_cons_list: "dim_ok [a, b, c, d, e, f, g, h] \<longleftrightarrow> (\<forall>v \<in> {a, b, c, d, e, f, g, h}. fits_i8 v)"
  by (simp add: dim_ok_def FISICS_DIM_COUNT_def)

lemma kDimAtoms_dims: "e \<in> set kDimAtoms \<Longrightarrow> ae_kind e = ATOM_DIMENSION \<and> dim_ok (ae_dim e)"
  unfolding kDimAtoms_def mk_atom_def
  by (auto simp: dim_ok_cons_list fits_i8_def)

text \<open>The named entries and the named dimensions agree.\<close>

definition atom_entry_dim :: "DimAtomEntry \<Rightarrow> FisicsDim8" where
  "atom_entry_dim e =
    (case family_expected_dim (ae_family e) of None \<Rightarrow> fisics_dim_zero | Some d \<Rightarrow> d)"

lemma kDimAtoms_family: "e \<in> set kDimAtoms \<Longrightarrow> ae_dim e = atom_entry_dim e"
  unfolding kDimAtoms_def mk_atom_def atom_entry_dim_def fisics_dim_zero_def FISICS_DIM_COUNT_def
  by (auto simp: dim_values eval_nat_numeral)

lemma lookup_atom_entry:
  "e \<in> set kDimAtoms \<Longrightarrow> fisics_dim_lookup_atom (Some (ae_name e)) =
    Some \<lparr>ai_kind = ATOM_DIMENSION, ai_family = ae_family e,
          ai_family_name = fisics_dim_family_name (ae_family e), ai_dim = ae_dim e\<rparr>"
  using atoms.first_with_key [of e "ae_name e"] kDimAtoms_dims [of e]
  by (simp add: fisics_dim_lookup_atom_def atom_scan_find)

section \<open>Reading one printed term\<close>

definition term_text :: "nat \<Rightarrow> int \<Rightarrow> string" where
  "term_text i mag = baseNames ! i @ (if mag \<noteq> 1 then CHR ''^'' # show_nat (nat mag) else [])"

definition at_end :: "string \<Rightarrow> bool" where
  "at_end r \<longleftrightarrow> r = [] \<or> hd r = CHR ''*'' \<or> hd r = CHR ''/''"

lemma read_digits_mono: "acc \<le> read_digits acc xs"
  by (induction xs arbitrary: acc) (simp, metis le_add1 le_trans mult_le_mono2 mult.right_neutral one_le_numeral read_digits.simps(2))

lemma parse_digits_reads:
  "\<lbrakk>\<forall>c \<in> set xs. is_digit c; fits_int (int (read_digits v xs)); at_end r\<rbrakk> \<Longrightarrow>
   parse_digits (int v) (xs @ r) = Done (int (read_digits v xs), r)"
proof (induction xs arbitrary: v)
  case Nil
  then show ?case by (cases r) (auto simp: at_end_def is_digit_def)
next
  case (Cons c xs)
  have "int (v * 10 + digit_val c) \<le> int (read_digits v (c # xs))"
    using read_digits_mono [of "v * 10 + digit_val c" xs] by simp
  then have "fits_int (int (v * 10 + digit_val c))"
    using Cons.prems(2) by (simp add: fits_int_iff)
  then show ?case using Cons.prems Cons.IH [of "v * 10 + digit_val c"] by simp
qed

lemma skip_ws_digit: "is_digit c \<Longrightarrow> skip_ws (c # cs) = c # cs"
  by (auto simp: is_ws_def is_digit_def)

lemma parse_int_reads:
  assumes "fits_int (int n)" "at_end r"
  shows "parse_int (show_nat n @ r) = Done (int n, r)"
proof -
  obtain c cs where c: "show_nat n = c # cs" by (cases "show_nat n") auto
  then have d: "is_digit c" using show_nat_digits [of n] by simp
  then have "c \<noteq> CHR ''+''" "c \<noteq> CHR ''-''" by (auto simp: is_digit_def)
  moreover have "parse_digits 0 (show_nat n @ r) = Done (int n, r)"
    using parse_digits_reads [OF show_nat_digits [of n], of 0 r] assms by (simp add: read_show_nat)
  ultimately show ?thesis using c d skip_ws_digit [OF d] by (simp add: parse_int_def)
qed

lemma dim_index_cases:
  "i < FISICS_DIM_COUNT \<Longrightarrow> i = 0 \<or> i = 1 \<or> i = 2 \<or> i = 3 \<or> i = 4 \<or> i = 5 \<or> i = 6 \<or> i = 7"
  unfolding FISICS_DIM_COUNT_def by linarith

lemma base_name_ident: "i < FISICS_DIM_COUNT \<Longrightarrow> baseNames ! i \<noteq> [] \<and> (\<forall>c \<in> set (baseNames ! i). is_ident_char c)"
  by (drule dim_index_cases)
    (elim disjE; simp add: baseNames_def is_ident_char_def is_alpha_def)

lemma base_name_entry:
  "i < FISICS_DIM_COUNT \<Longrightarrow> \<exists>e \<in> set kDimAtoms. ae_name e = baseNames ! i \<and> ae_dim e = slot_dim i 1"
  by (drule dim_index_cases)
    (elim disjE; simp add: baseNames_def kDimAtoms_def mk_atom_def slot_dim_def fisics_dim_zero_def
      FISICS_DIM_COUNT_def eval_nat_numeral)

lemma ident_char_not_ws: "is_ident_char c \<Longrightarrow> \<not> is_ws c"
  by (auto simp: is_ident_char_def is_alpha_def is_digit_def is_ws_def)

lemma skip_ws_ident: "s \<noteq> [] \<Longrightarrow> is_ident_char (hd s) \<Longrightarrow> skip_ws s = s"
  using ident_char_not_ws by (cases s) auto

lemma at_end_simps: "at_end r \<Longrightarrow> skip_ws r = r" "at_end r \<Longrightarrow> r = [] \<or> \<not> is_ident_char (hd r)"
    "at_end r \<Longrightarrow> r = [] \<or> hd r \<noteq> CHR ''^''"
  by (cases r; auto simp: at_end_def is_ws_def is_ident_char_def is_alpha_def is_digit_def)+

lemma parse_atom_name:
  assumes "nm \<noteq> []" "\<forall>c \<in> set nm. is_ident_char c" "e \<in> set kDimAtoms" "ae_name e = nm"
    and "s = [] \<or> \<not> is_ident_char (hd s)"
  shows "parse_atom (nm @ s) = parse_power (ae_dim e) (skip_ws s)"
proof -
  have "takeWhile is_ident_char (nm @ s) = nm" "dropWhile is_ident_char (nm @ s) = s"
    using assms(2,5) by (cases s; simp)+
  moreover have "skip_ws (nm @ s) = nm @ s"
    using assms(1,2) by (intro skip_ws_ident) (auto simp: hd_append)
  ultimately show ?thesis
    using assms(1) lookup_atom_entry [OF assms(3)] by (simp add: parse_atom_def assms(4) Let_def)
qed

lemma parse_term:
  assumes "i < FISICS_DIM_COUNT" "1 \<le> mag" "mag \<le> 128" "at_end r"
  shows "parse_atom (term_text i mag @ r) =
    (if mag = 128 then Fail ''dimension exponent overflow'' else Done (slot_dim i mag, r))"
proof -
  obtain e where e: "e \<in> set kDimAtoms" "ae_name e = baseNames ! i" "ae_dim e = slot_dim i 1"
    using base_name_entry [OF assms(1)] by blast
  let ?s = "(if mag \<noteq> 1 then CHR ''^'' # show_nat (nat mag) else []) @ r"
  have s: "?s = [] \<or> \<not> is_ident_char (hd ?s)"
    using at_end_simps(2) [OF assms(4)] by (simp add: is_ident_char_def is_alpha_def is_digit_def)
  have "parse_atom (term_text i mag @ r) = parse_power (slot_dim i 1) (skip_ws ?s)"
    using parse_atom_name [OF _ _ e(1,2) s] base_name_ident [OF assms(1)] e(3) by (simp add: term_text_def)
  also have "\<dots> = (if mag = 128 then Fail ''dimension exponent overflow'' else Done (slot_dim i mag, r))"
  proof (cases "mag = 1")
    case True
    then show ?thesis using at_end_simps [OF assms(4)] by (auto simp: parse_power_def)
  next
    case False
    have "parse_int (show_nat (nat mag) @ r) = Done (mag, r)"
      using parse_int_reads [of "nat mag" r] assms by (simp add: fits_int_iff)
    then show ?thesis
      using False assms fisics_dim_scale_slot [OF assms(1), of mag]
      by (auto simp: parse_power_def is_ws_def fits_i8_def)
  qed
  finally show ?thesis .
qed

section \<open>What the printer writes\<close>

text \<open>A printed dimension is a first term followed by operators and terms.\<close>

definition print_ops :: "(char \<times> nat \<times> int) list \<Rightarrow> string" where
  "print_ops ops = concat (map (\<lambda>(c, i, mag). c # term_text i mag) ops)"

definition positives :: "FisicsDim8 \<Rightarrow> nat list \<Rightarrow> nat list" where
  "positives d is = filter (\<lambda>i. 0 < d ! i) is"

definition negatives :: "FisicsDim8 \<Rightarrow> nat list \<Rightarrow> nat list" where
  "negatives d is = filter (\<lambda>i. d ! i < 0) is"

abbreviation star_ops :: "FisicsDim8 \<Rightarrow> nat list \<Rightarrow> (char \<times> nat \<times> int) list" where
  "star_ops d is \<equiv> map (\<lambda>i. (CHR ''*'', i, \<bar>d ! i\<bar>)) is"

lemma print_ops_simps [simp]:
  "print_ops [] = []" "print_ops ((c, i, mag) # ops) = c # term_text i mag @ print_ops ops"
  by (simp_all add: print_ops_def)

lemma print_num_more:
  "dp_hasNum p \<Longrightarrow> dim_print_pass d 0 is p = p\<lparr>dp_buffer := dp_buffer p @ print_ops (star_ops d (positives d is))\<rparr>"
  by (induction "is" arbitrary: p) (auto simp: dim_print_step_def term_text_def positives_def Let_def)

lemma print_num:
  "\<not> dp_hasNum p \<Longrightarrow> dim_print_pass d 0 is p =
    (case positives d is of [] \<Rightarrow> p
     | i # js \<Rightarrow> p\<lparr>dp_buffer := dp_buffer p @ term_text i \<bar>d ! i\<bar> @ print_ops (star_ops d js), dp_hasNum := True\<rparr>)"
  by (induction "is" arbitrary: p)
    (auto simp: dim_print_step_def term_text_def positives_def Let_def print_num_more [unfolded positives_def])

lemma print_den_more:
  "dp_hasDen p \<Longrightarrow> dim_print_pass d 1 is p = p\<lparr>dp_buffer := dp_buffer p @ print_ops (star_ops d (negatives d is))\<rparr>"
  by (induction "is" arbitrary: p) (auto simp: dim_print_step_def term_text_def negatives_def Let_def)

lemma print_den:
  "\<not> dp_hasDen p \<Longrightarrow> dim_print_pass d 1 is p =
    (case negatives d is of [] \<Rightarrow> p
     | i # js \<Rightarrow> p\<lparr>dp_buffer := dp_buffer p @ CHR ''/'' # term_text i \<bar>d ! i\<bar> @ print_ops (star_ops d js),
                  dp_hasDen := True\<rparr>)"
  by (induction "is" arbitrary: p)
    (auto simp: dim_print_step_def term_text_def negatives_def Let_def print_den_more [unfolded negatives_def One_nat_def])

abbreviation axes :: "nat list" where
  "axes \<equiv> [0..<FISICS_DIM_COUNT]"

text \<open>The operators and terms of a printed dimension: only the first denominator follows a \<open>/\<close>.\<close>

definition dim_op :: "FisicsDim8 \<Rightarrow> nat \<Rightarrow> char \<times> nat \<times> int" where
  "dim_op d i =
    (if negatives d axes \<noteq> [] \<and> i = hd (negatives d axes) then CHR ''/'' else CHR ''*'', i, \<bar>d ! i\<bar>)"

definition dim_ops :: "FisicsDim8 \<Rightarrow> (char \<times> nat \<times> int) list" where
  "dim_ops d = map (dim_op d) (positives d axes @ negatives d axes)"

lemma dim_op_positive: "i \<in> set (positives d axes) \<Longrightarrow> dim_op d i = (CHR ''*'', i, \<bar>d ! i\<bar>)"
  using hd_in_set [of "negatives d axes"] by (auto simp: dim_op_def positives_def negatives_def)

lemma dim_op_negatives:
  "negatives d axes = j # js \<Longrightarrow>
    map (dim_op d) (negatives d axes) = (CHR ''/'', j, \<bar>d ! j\<bar>) # star_ops d js"
proof -
  assume n: "negatives d axes = j # js"
  have "distinct (negatives d axes)" by (simp add: negatives_def)
  then have "j \<notin> set js" using n by simp
  then show ?thesis using n by (auto simp: dim_op_def)
qed

lemma dim_ops_eq:
  "dim_ops d = star_ops d (positives d axes) @
    (case negatives d axes of [] \<Rightarrow> [] | j # js \<Rightarrow> (CHR ''/'', j, \<bar>d ! j\<bar>) # star_ops d js)"
proof -
  have "map (dim_op d) (positives d axes) = star_ops d (positives d axes)"
    by (auto simp: dim_op_positive)
  then show ?thesis
    using dim_op_negatives [of d] unfolding dim_ops_def map_append by (auto split: list.split)
qed

lemma print_ops_append [simp]: "print_ops (xs @ ys) = print_ops xs @ print_ops ys"
  by (simp add: print_ops_def)

lemma to_string_eq:
  "fisics_dim_to_string d =
    (case dim_ops d of
       [] \<Rightarrow> ''1''
     | (c, i, mag) # ops \<Rightarrow>
         if c = CHR ''*'' then term_text i mag @ print_ops ops else CHR ''1'' # print_ops (dim_ops d))"
  unfolding fisics_dim_to_string_def Let_def dim_ops_eq
  by (simp add: print_num print_den [unfolded One_nat_def] split: list.split)

section \<open>Reading a printed dimension\<close>

definition op_value :: "char \<times> nat \<times> int \<Rightarrow> int" where
  "op_value = (\<lambda>(c, i, mag). if c = CHR ''*'' then mag else - mag)"

definition run_ops :: "FisicsDim8 \<Rightarrow> (char \<times> nat \<times> int) list \<Rightarrow> (string, FisicsDim8) outcome" where
  "run_ops acc ops =
    (if \<exists>(c, i, mag) \<in> set ops. mag = 128 then Fail ''dimension exponent overflow''
     else Done (fold (\<lambda>op a. a[fst (snd op) := op_value op]) ops acc))"

definition op_ok :: "char \<times> nat \<times> int \<Rightarrow> bool" where
  "op_ok = (\<lambda>(c, i, mag). (c = CHR ''*'' \<or> c = CHR ''/'') \<and> i < FISICS_DIM_COUNT \<and> 1 \<le> mag \<and> mag \<le> 128)"

lemma at_end_print_ops: "\<forall>op \<in> set ops. op_ok op \<Longrightarrow> at_end (print_ops ops)"
  by (cases ops) (auto simp: at_end_def op_ok_def)

lemma term_text_head: "i < FISICS_DIM_COUNT \<Longrightarrow> term_text i mag \<noteq> [] \<and> skip_ws (term_text i mag @ r) = term_text i mag @ r"
  using base_name_ident [of i] skip_ws_ident [of "term_text i mag @ r"]
  by (auto simp: term_text_def hd_append)

lemma combine_slot:
  assumes "dim_ok acc" "i < FISICS_DIM_COUNT" "acc ! i = 0" "1 \<le> mag" "mag < 128" "c = CHR ''*'' \<or> c = CHR ''/''"
  shows "combine_atom True c acc (slot_dim i mag) = Inr (acc[i := op_value (c, i, mag)])"
  using assms by (auto simp: combine_atom_def fisics_dim_add_slot fisics_dim_sub_slot fits_i8_def op_value_def)

lemma parse_ops:
  assumes "dim_ok acc" "\<forall>op \<in> set ((c, i, mag) # ops). op_ok op \<and> acc ! fst (snd op) = 0"
    "distinct (map (\<lambda>op. fst (snd op)) ((c, i, mag) # ops))"
  shows "parse_dim_loop acc True c (term_text i mag @ print_ops ops) = run_ops acc ((c, i, mag) # ops)"
  using assms
proof (induction ops arbitrary: acc c i mag)
  case Nil
  then show ?case
    using parse_term [of i mag "[]"] term_text_head [of i mag] combine_slot [of acc i mag c]
    by (subst parse_dim_loop.simps) (auto simp: at_end_def op_ok_def run_ops_def)
next
  case (Cons op ops)
  obtain c' i' mag' where op: "op = (c', i', mag')" by (cases op)
  have ok: "op_ok (c, i, mag)" "acc ! i = 0" "op_ok (c', i', mag')" "i' \<noteq> i"
    using Cons.prems op by auto
  have pt: "parse_atom (term_text i mag @ print_ops (op # ops)) =
      (if mag = 128 then Fail ''dimension exponent overflow'' else Done (slot_dim i mag, print_ops (op # ops)))"
    using ok(1) Cons.prems(2) by (intro parse_term at_end_print_ops) (auto simp: op_ok_def)
  let ?acc = "acc[i := op_value (c, i, mag)]"
  have IH: "parse_dim_loop ?acc True c' (term_text i' mag' @ print_ops ops) = run_ops ?acc (op # ops)" if "mag \<noteq> 128"
    unfolding op
  proof (rule Cons.IH)
    show "dim_ok ?acc"
      using ok(1) that Cons.prems(1) by (auto simp: op_ok_def op_value_def fits_i8_def intro!: dim_ok_update)
    show "\<forall>op \<in> set ((c', i', mag') # ops). op_ok op \<and> ?acc ! fst (snd op) = 0"
      using Cons.prems(2,3) op by (auto simp: nth_list_update image_iff)
    show "distinct (map (\<lambda>op. fst (snd op)) ((c', i', mag') # ops))"
      using Cons.prems(3) op by simp
  qed
  have "skip_ws (print_ops (op # ops)) = c' # term_text i' mag' @ print_ops ops"
      "skip_ws (term_text i' mag' @ print_ops ops) = term_text i' mag' @ print_ops ops"
    using ok(3) op term_text_head by (auto simp: op_ok_def is_ws_def)
  then show ?case
    using pt IH ok combine_slot [OF Cons.prems(1), of i mag c] term_text_head [of i mag]
    by (subst parse_dim_loop.simps) (auto simp: op_ok_def run_ops_def op)
qed

text \<open>The first atom replaces the accumulator, which is what adding it to zero gives.\<close>

lemma parse_first:
  assumes "\<forall>op \<in> set ((CHR ''*'', i, mag) # ops). op_ok op" "distinct (map (\<lambda>op. fst (snd op)) ((CHR ''*'', i, mag) # ops))"
  shows "parse_dim_loop fisics_dim_zero False (CHR ''*'') (term_text i mag @ print_ops ops) =
    run_ops fisics_dim_zero ((CHR ''*'', i, mag) # ops)"
proof -
  have pt: "parse_atom (term_text i mag @ print_ops ops) =
      (if mag = 128 then Fail ''dimension exponent overflow'' else Done (slot_dim i mag, print_ops ops))"
    using assms(1) by (intro parse_term at_end_print_ops) (auto simp: op_ok_def)
  have "combine_atom False (CHR ''*'') fisics_dim_zero (slot_dim i mag) =
      combine_atom True (CHR ''*'') fisics_dim_zero (slot_dim i mag)" if "mag \<noteq> 128"
    using assms(1) that combine_slot [of fisics_dim_zero i mag "CHR ''*''"]
    by (auto simp: op_ok_def combine_atom_def slot_dim_def op_value_def)
  then have "parse_dim_loop fisics_dim_zero False (CHR ''*'') (term_text i mag @ print_ops ops) =
      parse_dim_loop fisics_dim_zero True (CHR ''*'') (term_text i mag @ print_ops ops)"
    using pt by (subst (1 2) parse_dim_loop.simps) auto
  also have "\<dots> = run_ops fisics_dim_zero ((CHR ''*'', i, mag) # ops)"
    using assms by (intro parse_ops) (auto simp: op_ok_def)
  finally show ?thesis .
qed

lemma parse_atom_one:
  assumes "at_end r"
  shows "parse_atom (CHR ''1'' # r) = Done (fisics_dim_zero, r)"
proof -
  have "mk_atom ''1'' ATOM_DIMENSION FAMILY_DIMENSIONLESS [0, 0, 0, 0, 0, 0, 0, 0] \<in> set kDimAtoms"
    by (simp add: kDimAtoms_def)
  from parse_atom_name [OF _ _ this, of "''1''" r] show ?thesis
    using at_end_simps [OF assms] fisics_dim_zero_def
    by (auto simp: mk_atom_def is_ident_char_def is_digit_def parse_power_def FISICS_DIM_COUNT_def eval_nat_numeral)
qed

lemma parse_one_over:
  assumes "\<forall>op \<in> set ops. op_ok op" "distinct (map (\<lambda>op. fst (snd op)) ops)" "ops \<noteq> []"
  shows "parse_dim_loop fisics_dim_zero False (CHR ''*'') (CHR ''1'' # print_ops ops) = run_ops fisics_dim_zero ops"
proof -
  obtain c i mag ops' where ops: "ops = (c, i, mag) # ops'" using assms(3) by (cases ops) auto
  have ws: "skip_ws (print_ops ops) = c # term_text i mag @ print_ops ops'"
      "skip_ws (term_text i mag @ print_ops ops') = term_text i mag @ print_ops ops'"
    using assms(1) ops term_text_head by (auto simp: op_ok_def is_ws_def)
  have "parse_dim_loop fisics_dim_zero False (CHR ''*'') (CHR ''1'' # print_ops ops) =
      parse_dim_loop fisics_dim_zero True c (term_text i mag @ print_ops ops')"
    using parse_atom_one [OF at_end_print_ops [OF assms(1)]] ws assms(1) ops
    by (subst parse_dim_loop.simps) (auto simp: combine_atom_def op_ok_def)
  also have "\<dots> = run_ops fisics_dim_zero ops"
    unfolding ops using assms ops by (intro parse_ops) (auto simp: op_ok_def)
  finally show ?thesis .
qed

lemma dim_ops_ok:
  assumes "dim_ok d"
  shows "\<forall>op \<in> set (dim_ops d). op_ok op" and "distinct (map (\<lambda>op. fst (snd op)) (dim_ops d))"
proof -
  have "op_ok (dim_op d i)" if "i \<in> set (positives d axes @ negatives d axes)" for i
  proof -
    have i: "i < FISICS_DIM_COUNT" "d ! i \<noteq> 0" using that by (auto simp: positives_def negatives_def)
    then have "fits_i8 (d ! i)" using assms by (auto simp: dim_ok_def)
    then show ?thesis using i by (auto simp: op_ok_def dim_op_def fits_i8_def)
  qed
  then show "\<forall>op \<in> set (dim_ops d). op_ok op" unfolding dim_ops_def by auto
  have "distinct (positives d axes @ negatives d axes)" by (auto simp: positives_def negatives_def)
  moreover have "(\<lambda>op. fst (snd op)) \<circ> dim_op d = id" by (auto simp: dim_op_def fun_eq_iff)
  ultimately show "distinct (map (\<lambda>op. fst (snd op)) (dim_ops d))" by (simp add: dim_ops_def)
qed

lemma parse_to_string_run:
  assumes "dim_ok d"
  shows "fisics_units_parse_dim_expr (Some (fisics_dim_to_string d)) = run_ops fisics_dim_zero (dim_ops d)"
proof (cases "dim_ops d")
  case Nil
  then show ?thesis
    using parse_atom_one [of "[]"]
    by (simp add: fisics_units_parse_dim_expr_def to_string_eq is_ws_def parse_dim_loop.simps run_ops_def
        at_end_def combine_atom_def)
next
  case (Cons op ops)
  obtain c i mag where op: "op = (c, i, mag)" by (cases op)
  have ok: "op_ok (c, i, mag)" using dim_ops_ok(1) [OF assms] Cons op by simp
  show ?thesis
  proof (cases "c = CHR ''*''")
    case True
    then show ?thesis
      using parse_first [of i mag ops] dim_ops_ok [OF assms] Cons op term_text_head [of i mag "print_ops ops"] ok
      by (simp add: fisics_units_parse_dim_expr_def to_string_eq op_ok_def)
  next
    case False
    then show ?thesis
      using parse_one_over [OF dim_ops_ok [OF assms]] Cons op
      by (simp add: fisics_units_parse_dim_expr_def to_string_eq is_ws_def)
  qed
qed

text \<open>
  What comes back: the first negative exponent keeps its sign, the later ones lose it, because the
  printer joins denominators with \<open>*\<close> and the parser reads from left to right.
\<close>

definition reread :: "FisicsDim8 \<Rightarrow> FisicsDim8" where
  "reread d = map (\<lambda>i. if i \<in> set (tl (negatives d axes)) then - (d ! i) else d ! i) axes"

lemma fold_write_nth:
  "j < length acc \<Longrightarrow> fold (\<lambda>i a. a[i := g i]) is acc ! j = (if j \<in> set is then g j else acc ! j)"
  by (induction "is" arbitrary: acc) (auto simp: nth_list_update)

lemma length_fold_write [simp]: "length (fold (\<lambda>i a. a[i := g i]) is acc) = length acc"
  by (induction "is" arbitrary: acc) auto

lemma op_value_reread:
  assumes "i < FISICS_DIM_COUNT" "d ! i \<noteq> 0"
  shows "op_value (dim_op d i) = reread d ! i"
proof -
  have "i \<in> set (negatives d axes) \<longleftrightarrow> d ! i < 0" using assms by (auto simp: negatives_def)
  moreover have "distinct (negatives d axes)" by (simp add: negatives_def)
  ultimately show ?thesis
    using assms by (cases "negatives d axes") (auto simp: op_value_def dim_op_def reread_def)
qed

lemma axes_mem:
  "i \<in> set (positives d axes @ negatives d axes) \<longleftrightarrow> i < FISICS_DIM_COUNT \<and> d ! i \<noteq> 0"
  by (auto simp: positives_def negatives_def)

lemma dim_ops_overflow:
  assumes "dim_ok d"
  shows "(\<exists>(c, i, mag) \<in> set (dim_ops d). mag = 128) \<longleftrightarrow> - 128 \<in> set d"
proof -
  let ?is = "positives d axes @ negatives d axes"
  have "(\<exists>(c, i, mag) \<in> set (dim_ops d). mag = 128) \<longleftrightarrow> (\<exists>i \<in> set ?is. \<bar>d ! i\<bar> = 128)"
    unfolding dim_ops_def set_map by (fastforce simp: dim_op_def)
  also have "\<dots> \<longleftrightarrow> (\<exists>i < FISICS_DIM_COUNT. d ! i = - 128)"
  proof -
    have "\<bar>d ! i\<bar> = 128 \<longleftrightarrow> d ! i = - 128" if "i < FISICS_DIM_COUNT" for i
    proof -
      have "fits_i8 (d ! i)" using assms that nth_mem [of i d] by (auto simp: dim_ok_def)
      then show ?thesis unfolding fits_i8_def by linarith
    qed
    then have abs: "i < FISICS_DIM_COUNT \<Longrightarrow> \<bar>d ! i\<bar> = 128 \<longleftrightarrow> d ! i = - 128" for i by blast
    show ?thesis
    proof
      assume "\<exists>i \<in> set ?is. \<bar>d ! i\<bar> = 128"
      then obtain i where "i \<in> set ?is" "\<bar>d ! i\<bar> = 128" ..
      then show "\<exists>i < FISICS_DIM_COUNT. d ! i = - 128" using abs [of i] axes_mem [of i d] by blast
    next
      assume "\<exists>i < FISICS_DIM_COUNT. d ! i = - 128"
      then obtain i where i: "i < FISICS_DIM_COUNT" "d ! i = - 128" by blast
      then have "i \<in> set ?is" "\<bar>d ! i\<bar> = 128" by (simp_all only: axes_mem) simp_all
      then show "\<exists>i \<in> set ?is. \<bar>d ! i\<bar> = 128" ..
    qed
  qed
  also have "\<dots> \<longleftrightarrow> - 128 \<in> set d"
    using assms by (auto simp: dim_ok_def in_set_conv_nth)
  finally show ?thesis .
qed

lemma run_dim_ops:
  assumes "dim_ok d"
  shows "run_ops fisics_dim_zero (dim_ops d) =
    (if - 128 \<in> set d then Fail ''dimension exponent overflow'' else Done (reread d))"
proof -
  let ?is = "positives d axes @ negatives d axes"
  have "fold (\<lambda>op a. a[fst (snd op) := op_value op]) (dim_ops d) fisics_dim_zero =
      fold (\<lambda>i a. a[i := op_value (dim_op d i)]) ?is fisics_dim_zero"
    unfolding dim_ops_def fold_map comp_def by (rule fold_cong) (auto simp: dim_op_def)
  also have "\<dots> = reread d"
  proof (rule nth_equalityI)
    fix j assume "j < length (fold (\<lambda>i a. a[i := op_value (dim_op d i)]) ?is fisics_dim_zero)"
    then have j: "j < FISICS_DIM_COUNT" by simp
    then have z: "reread d ! j = 0" if "d ! j = 0" using that by (simp add: reread_def)
    show "fold (\<lambda>i a. a[i := op_value (dim_op d i)]) ?is fisics_dim_zero ! j = reread d ! j"
      using j z op_value_reread [of j d] axes_mem [of j d] by (simp add: fold_write_nth del: fold_append)
  qed (simp add: reread_def)
  finally show ?thesis by (simp add: run_ops_def dim_ops_overflow [OF assms])
qed

lemma reread_same_iff:
  assumes "dim_ok d"
  shows "reread d = d \<longleftrightarrow> length (filter (\<lambda>v. v < 0) d) \<le> 1"
proof -
  let ?n = "negatives d axes"
  have len: "length d = FISICS_DIM_COUNT" by (rule dim_ok_length [OF assms])
  have "filter (\<lambda>v. v < 0) d = map (\<lambda>i. d ! i) ?n"
    unfolding negatives_def by (subst (1) map_nth [symmetric]) (simp add: filter_map comp_def len)
  then have n: "length (filter (\<lambda>v. v < 0) d) = length ?n" by simp
  have neg: "d ! i < 0" "i < FISICS_DIM_COUNT" if "i \<in> set (tl ?n)" for i
    using that list.set_sel(2) [of ?n i] by (cases ?n; auto simp: negatives_def filter_eq_Cons_iff; fail)+
  have "reread d = d \<longleftrightarrow> (\<forall>i < FISICS_DIM_COUNT. reread d ! i = d ! i)"
    by (auto simp: list_eq_iff_nth_eq reread_def len)
  also have "\<dots> \<longleftrightarrow> tl ?n = []"
    using neg by (auto simp: reread_def) (metis equal_neg_zero less_irrefl list.set_intros(1) neq_Nil_conv)
  also have "\<dots> \<longleftrightarrow> length ?n \<le> 1" by (cases ?n) auto
  finally show ?thesis using n by simp
qed

section \<open>Properties\<close>

text \<open>
  C10. Parsing the text printed for a dimension, exactly: an exponent of \<open>-128\<close> makes it fail, and
  otherwise every exponent comes back except that each negative exponent after the first comes back
  positive. So printing and parsing are inverse for every dimension with at most one negative
  exponent other than \<open>-128\<close>.\<close>
theorem dim_print_parse:
  assumes "dim_ok d"
  shows "fisics_units_parse_dim_expr (Some (fisics_dim_to_string d)) =
    (if - 128 \<in> set d then Fail ''dimension exponent overflow'' else Done (reread d)) \<and>
    (reread d = d \<longleftrightarrow> length (filter (\<lambda>v. v < 0) d) \<le> 1)"
  using parse_to_string_run [OF assms] run_dim_ops [OF assms] reread_same_iff [OF assms] by simp

theorem dim_print_parse_witness:
  "fisics_units_parse_dim_expr (Some (fisics_dim_to_string fisics_dim_force)) = Done fisics_dim_force"
  using dim_print_parse [of fisics_dim_force]
  by (simp add: dim_values dim_ok_cons_list fits_i8_def)

text \<open>
  The printed form of voltage and of resistance does not denote them: the ampere in the
  denominator is read back in the numerator.\<close>
theorem voltage_text_misread:
  "fisics_dim_to_string fisics_dim_voltage = ''m^2*kg/s^3*A'' \<and>
   fisics_units_parse_dim_expr (Some (fisics_dim_to_string fisics_dim_voltage)) = Done [2, 1, -3, 1, 0, 0, 0, 0] \<and>
   fisics_units_parse_dim_expr (Some (fisics_dim_to_string fisics_dim_resistance)) = Done [2, 1, -3, 2, 0, 0, 0, 0]"
proof (intro conjI)
  show "fisics_dim_to_string fisics_dim_voltage = ''m^2*kg/s^3*A''"
    by (simp add: fisics_dim_to_string_def dim_values dim_simps dim_print_step_def Let_def baseNames_def
        show_nat.simps digit_char_def char_of_def bit_0)
qed (simp_all add: parse_to_string_run run_dim_ops dim_values dim_ok_cons_list fits_i8_def reread_def
      negatives_def dim_simps)

section \<open>The parser keeps the exponents in range\<close>

lemma fisics_dim_scale_ok:
  assumes "length d = FISICS_DIM_COUNT" "fisics_dim_scale d pw = Done d'"
  shows "dim_ok d'"
proof -
  have "dim_scale_from d pw is out = Done d' \<Longrightarrow>
      (\<forall>v \<in> set out. fits_i8 v) \<and> length out = n \<Longrightarrow> (\<forall>v \<in> set d'. fits_i8 v) \<and> length d' = n" for "is" out n
  proof (induction "is" arbitrary: out)
    case (Cons i "is")
    then have f: "fits_i8 (d ! i * pw)" by (auto split: if_splits option.splits)
    with Cons.prems have "dim_scale_from d pw is (out[i := d ! i * pw]) = Done d'"
      by (auto split: if_splits option.splits)
    then show ?case
      using Cons.IH [of "out[i := d ! i * pw]"] Cons.prems(2) f set_update_subset_insert [of out i "d ! i * pw"] by auto
  qed auto
  then show ?thesis
    using assms(2) by (fastforce simp: fisics_dim_scale_def dim_ok_def fits_i8_def)
qed

lemma lookup_atom_dim_ok:
  assumes "fisics_dim_lookup_atom nm = Some info"
  shows "dim_ok (ai_dim info)"
proof -
  have "dim_ok (ae_dim e)" if "atom_scan t kDimAtoms = Some e" for t e
    using that kDimAtoms_dims find_SomeD by (metis atom_scan_find)
  then show ?thesis using assms by (auto simp: fisics_dim_lookup_atom_def split: option.splits)
qed

lemma parse_atom_dim_ok: "parse_atom s = Done (d, r) \<Longrightarrow> dim_ok d"
  using fisics_dim_scale_ok [OF dim_ok_length [OF lookup_atom_dim_ok]]
  by (auto simp: parse_atom_def parse_power_def Let_def lookup_atom_dim_ok
      split: if_splits option.splits outcome.splits)

lemma combine_atom_dim_ok:
  "dim_ok a \<Longrightarrow> dim_ok b \<Longrightarrow> combine_atom h c a b = Inr d \<Longrightarrow> dim_ok d"
  by (auto simp: combine_atom_def fisics_dim_add_eq fisics_dim_sub_eq split: if_splits option.splits)

lemma parse_dim_loop_dim_ok: "parse_dim_loop acc h c s = Done d \<Longrightarrow> dim_ok acc \<Longrightarrow> dim_ok d"
proof (induction acc h c s rule: parse_dim_loop.induct)
  case (1 acc h c s)
  show ?case
  proof (cases "s = []")
    case True
    then show ?thesis using "1.prems" by (simp add: parse_dim_loop.simps)
  next
    case False
    with "1.prems"(1) obtain atom r0 acc' where a: "parse_atom s = Done (atom, r0)"
        "combine_atom h c acc atom = Inr acc'"
      by (subst (asm) parse_dim_loop.simps) (auto split: outcome.splits sum.splits)
    have ok: "dim_ok acc'" using combine_atom_dim_ok [OF "1.prems"(2) parse_atom_dim_ok [OF a(1)] a(2)] .
    show ?thesis
    proof (cases "skip_ws r0")
      case Nil
      then show ?thesis using "1.prems"(1) False a ok by (subst (asm) parse_dim_loop.simps) simp
    next
      case (Cons c' r)
      have "parse_dim_loop acc h c s = (if c' \<noteq> CHR ''*'' \<and> c' \<noteq> CHR ''/'' then Fail operator_error
          else parse_dim_loop acc' True c' (skip_ws r))"
        by (subst parse_dim_loop.simps) (simp add: False a Cons)
      then show ?thesis
        using "1.prems"(1) ok "1.IH" [OF False a(1) refl a(2) Cons] by (auto split: if_splits)
    qed
  qed
qed

text \<open>
  Every dimension the parser returns has eight exponents that fit \<open>int8_t\<close>: no operation on the
  way wraps around.\<close>
theorem parse_dim_in_range:
  "fisics_units_parse_dim_expr text = Done d \<Longrightarrow> dim_ok d"
  by (auto simp: fisics_units_parse_dim_expr_def Let_def split: if_splits dest: parse_dim_loop_dim_ok)

theorem parse_dim_in_range_witness: "dim_ok fisics_dim_force"
proof -
  have "fisics_units_parse_dim_expr (Some (fisics_dim_to_string fisics_dim_force)) = Done fisics_dim_force"
    by (simp add: parse_to_string_run run_dim_ops dim_values dim_ok_cons_list fits_i8_def reread_def
        negatives_def dim_simps)
  then show ?thesis by (rule parse_dim_in_range)
qed

section \<open>The printer's buffer\<close>

lemma show_nat_length: "n < 1000 \<Longrightarrow> length (show_nat n) \<le> 3"
  by (simp add: show_nat.simps [of n] show_nat.simps [of "n div 10"] show_nat.simps [of "n div 10 div 10"])

lemma term_text_length: "i < FISICS_DIM_COUNT \<Longrightarrow> mag \<le> 128 \<Longrightarrow> length (term_text i mag) \<le> 7"
proof -
  assume i: "i < FISICS_DIM_COUNT" and m: "mag \<le> 128"
  have "length (baseNames ! i) \<le> 3"
    using dim_index_cases [OF i] by (elim disjE) (simp_all add: baseNames_def)
  moreover have "length (show_nat (nat mag)) \<le> 3" using m by (intro show_nat_length) simp
  ultimately show ?thesis by (simp add: term_text_def)
qed

lemma print_ops_length: "\<forall>op \<in> set ops. op_ok op \<Longrightarrow> length (print_ops ops) \<le> 8 * length ops"
proof (induction ops)
  case (Cons op ops)
  obtain c i mag where "op = (c, i, mag)" by (cases op)
  with Cons show ?case using term_text_length [of i mag] by (simp add: op_ok_def)
qed simp

lemma dim_ops_length: "length (dim_ops d) \<le> FISICS_DIM_COUNT"
proof -
  have "distinct (positives d axes @ negatives d axes)"
    by (auto simp: positives_def negatives_def)
  moreover have "set (positives d axes @ negatives d axes) \<subseteq> {0..<FISICS_DIM_COUNT}"
    by (auto simp: positives_def negatives_def)
  ultimately have "length (positives d axes @ negatives d axes) \<le> card {0..<FISICS_DIM_COUNT}"
    by (metis card_mono distinct_card finite_atLeastLessThan)
  then show ?thesis by (simp add: dim_ops_def)
qed

text \<open>
  The text of a dimension is at most 65 characters long, so the fixed buffer of 256 bytes of the
  printer is never full and nothing is cut off.\<close>
theorem dim_text_fits_buffer:
  assumes "dim_ok d"
  shows "length (fisics_dim_to_string d) \<le> 65"
proof -
  note ok = dim_ops_ok(1) [OF assms]
  have len: "length (print_ops (dim_ops d)) \<le> 64"
    using print_ops_length [OF ok] dim_ops_length [of d] by (simp add: FISICS_DIM_COUNT_def)
  then show ?thesis
    by (auto simp: to_string_eq split: list.split)
qed

theorem dim_text_fits_buffer_witness:
  "length (fisics_dim_to_string [-128, -128, -128, -128, -128, -128, -128, -128]) \<le> 65"
  by (rule dim_text_fits_buffer) (simp add: dim_ok_cons_list fits_i8_def)

section \<open>Products and quotients of dimensions\<close>

text \<open>
  Multiplying and then dividing by the same dimension gives the dimension back; multiplication
  fails exactly when an exponent leaves the range of \<open>int8_t\<close>, and no failed operation wraps around.\<close>
theorem dim_mul_div_cancel:
  assumes "dim_ok a" "dim_ok b"
  shows "case fisics_dim_add a b of
      Some c \<Rightarrow> dim_ok c \<and> fisics_dim_sub c b = Some a
    | None \<Rightarrow> \<exists>i < FISICS_DIM_COUNT. \<not> fits_i8 (a ! i + b ! i)"
proof -
  have "map2 (-) (map2 (+) a b) b = a"
    using assms by (intro nth_equalityI) (auto simp: dim_ok_def)
  moreover have "\<exists>i < FISICS_DIM_COUNT. \<not> fits_i8 (a ! i + b ! i)" if "\<not> dim_ok (map2 (+) a b)"
    using that assms by (auto simp: dim_ok_def in_set_zip)
  ultimately show ?thesis
    using assms by (auto simp: fisics_dim_add_eq fisics_dim_sub_eq)
qed

theorem dim_mul_div_cancel_witness:
  "case fisics_dim_add fisics_dim_force fisics_dim_length of
      Some c \<Rightarrow> dim_ok c \<and> fisics_dim_sub c fisics_dim_length = Some fisics_dim_force
    | None \<Rightarrow> \<exists>i < FISICS_DIM_COUNT. \<not> fits_i8 (fisics_dim_force ! i + fisics_dim_length ! i)"
  by (rule dim_mul_div_cancel) (simp_all add: dim_values dim_ok_cons_list fits_i8_def)

section \<open>Inputs the parser mishandles\<close>

lemma parse_atom_m:
  "r = [] \<or> \<not> is_ident_char (hd r) \<Longrightarrow> parse_atom (CHR ''m'' # r) = parse_power fisics_dim_length (skip_ws r)"
proof -
  have "mk_atom ''m'' ATOM_DIMENSION FAMILY_LENGTH [1, 0, 0, 0, 0, 0, 0, 0] \<in> set kDimAtoms"
    by (simp add: kDimAtoms_def)
  moreover assume "r = [] \<or> \<not> is_ident_char (hd r)"
  ultimately show ?thesis
    using parse_atom_name [of "''m''" _ r]
    by (auto simp: mk_atom_def dim_values is_ident_char_def is_alpha_def)
qed

text \<open>
  Two inputs outside the grammar: an expression that ends in an operator is accepted as if the
  operator were not there, and an exponent literal that does not fit an \<open>int\<close> overflows it, which C
  leaves undefined, before any range check.\<close>
theorem dim_parser_accepts_trailing_operator:
  "fisics_units_parse_dim_expr (Some ''m*'') = Done fisics_dim_length \<and>
   fisics_units_parse_dim_expr (Some ''m^3000000000'') = Undefined"
proof
  show "fisics_units_parse_dim_expr (Some ''m*'') = Done fisics_dim_length"
    by (simp add: fisics_units_parse_dim_expr_def is_ws_def parse_dim_loop.simps parse_atom_m parse_power_def
        is_ident_char_def is_alpha_def is_digit_def combine_atom_def)
  show "fisics_units_parse_dim_expr (Some ''m^3000000000'') = Undefined"
    by (simp add: fisics_units_parse_dim_expr_def is_ws_def parse_dim_loop.simps parse_atom_m parse_power_def
        is_ident_char_def is_alpha_def is_digit_def parse_int_def fits_int_iff digit_val_def)
qed

end
