(* ===== verification/Tokens.thy ===== *)
theory Tokens
  imports Prelude
begin

text \<open>
  Tokens and the token buffer, \<open>src/src/Lexer/token_type.h\<close>, \<open>tokens.h\<close>, \<open>source_range.h\<close> and
  \<open>token_buffer.c\<close>. The enumeration is used by value in the code (keywords are the values below
  \<open>TOKEN_IDENTIFIER\<close>), so a token type is its number. The growth of a buffer always succeeds, so its
  capacity is not kept. The lexer that fills a buffer is an argument.
\<close>

section \<open>Token types\<close>

type_synonym TokenType = nat

abbreviation (input) TOKEN_INT :: TokenType where "TOKEN_INT \<equiv> 0"
abbreviation (input) TOKEN_FLOAT :: TokenType where "TOKEN_FLOAT \<equiv> 1"
abbreviation (input) TOKEN_CHAR :: TokenType where "TOKEN_CHAR \<equiv> 2"
abbreviation (input) TOKEN_DOUBLE :: TokenType where "TOKEN_DOUBLE \<equiv> 3"
abbreviation (input) TOKEN_LONG :: TokenType where "TOKEN_LONG \<equiv> 4"
abbreviation (input) TOKEN_SHORT :: TokenType where "TOKEN_SHORT \<equiv> 5"
abbreviation (input) TOKEN_SIGNED :: TokenType where "TOKEN_SIGNED \<equiv> 6"
abbreviation (input) TOKEN_UNSIGNED :: TokenType where "TOKEN_UNSIGNED \<equiv> 7"
abbreviation (input) TOKEN_VOID :: TokenType where "TOKEN_VOID \<equiv> 8"
abbreviation (input) TOKEN_BOOL :: TokenType where "TOKEN_BOOL \<equiv> 9"
abbreviation (input) TOKEN_ENUM :: TokenType where "TOKEN_ENUM \<equiv> 10"
abbreviation (input) TOKEN_UNION :: TokenType where "TOKEN_UNION \<equiv> 11"
abbreviation (input) TOKEN_STRUCT :: TokenType where "TOKEN_STRUCT \<equiv> 12"
abbreviation (input) TOKEN_TYPEDEF :: TokenType where "TOKEN_TYPEDEF \<equiv> 13"
abbreviation (input) TOKEN_IF :: TokenType where "TOKEN_IF \<equiv> 14"
abbreviation (input) TOKEN_ELSE :: TokenType where "TOKEN_ELSE \<equiv> 15"
abbreviation (input) TOKEN_WHILE :: TokenType where "TOKEN_WHILE \<equiv> 16"
abbreviation (input) TOKEN_FOR :: TokenType where "TOKEN_FOR \<equiv> 17"
abbreviation (input) TOKEN_DO :: TokenType where "TOKEN_DO \<equiv> 18"
abbreviation (input) TOKEN_SWITCH :: TokenType where "TOKEN_SWITCH \<equiv> 19"
abbreviation (input) TOKEN_CASE :: TokenType where "TOKEN_CASE \<equiv> 20"
abbreviation (input) TOKEN_DEFAULT :: TokenType where "TOKEN_DEFAULT \<equiv> 21"
abbreviation (input) TOKEN_RETURN :: TokenType where "TOKEN_RETURN \<equiv> 22"
abbreviation (input) TOKEN_GOTO :: TokenType where "TOKEN_GOTO \<equiv> 23"
abbreviation (input) TOKEN_BREAK :: TokenType where "TOKEN_BREAK \<equiv> 24"
abbreviation (input) TOKEN_CONTINUE :: TokenType where "TOKEN_CONTINUE \<equiv> 25"
abbreviation (input) TOKEN_EXTERN :: TokenType where "TOKEN_EXTERN \<equiv> 26"
abbreviation (input) TOKEN_STATIC :: TokenType where "TOKEN_STATIC \<equiv> 27"
abbreviation (input) TOKEN_AUTO :: TokenType where "TOKEN_AUTO \<equiv> 28"
abbreviation (input) TOKEN_REGISTER :: TokenType where "TOKEN_REGISTER \<equiv> 29"
abbreviation (input) TOKEN_THREAD_LOCAL :: TokenType where "TOKEN_THREAD_LOCAL \<equiv> 30"
abbreviation (input) TOKEN_CONST :: TokenType where "TOKEN_CONST \<equiv> 31"
abbreviation (input) TOKEN_VOLATILE :: TokenType where "TOKEN_VOLATILE \<equiv> 32"
abbreviation (input) TOKEN_RESTRICT :: TokenType where "TOKEN_RESTRICT \<equiv> 33"
abbreviation (input) TOKEN_INLINE :: TokenType where "TOKEN_INLINE \<equiv> 34"
abbreviation (input) TOKEN_ATOMIC :: TokenType where "TOKEN_ATOMIC \<equiv> 35"
abbreviation (input) TOKEN_NORETURN :: TokenType where "TOKEN_NORETURN \<equiv> 36"
abbreviation (input) TOKEN_COMPLEX :: TokenType where "TOKEN_COMPLEX \<equiv> 37"
abbreviation (input) TOKEN_IMAGINARY :: TokenType where "TOKEN_IMAGINARY \<equiv> 38"
abbreviation (input) TOKEN_NULL :: TokenType where "TOKEN_NULL \<equiv> 39"
abbreviation (input) TOKEN_SIZEOF :: TokenType where "TOKEN_SIZEOF \<equiv> 40"
abbreviation (input) TOKEN_ALIGNOF :: TokenType where "TOKEN_ALIGNOF \<equiv> 41"
abbreviation (input) TOKEN_STATIC_ASSERT :: TokenType where "TOKEN_STATIC_ASSERT \<equiv> 42"
abbreviation (input) TOKEN_IDENTIFIER :: TokenType where "TOKEN_IDENTIFIER \<equiv> 43"
abbreviation (input) TOKEN_INCLUDE :: TokenType where "TOKEN_INCLUDE \<equiv> 44"
abbreviation (input) TOKEN_INCLUDE_NEXT :: TokenType where "TOKEN_INCLUDE_NEXT \<equiv> 45"
abbreviation (input) TOKEN_DEFINE :: TokenType where "TOKEN_DEFINE \<equiv> 46"
abbreviation (input) TOKEN_UNDEF :: TokenType where "TOKEN_UNDEF \<equiv> 47"
abbreviation (input) TOKEN_IFDEF :: TokenType where "TOKEN_IFDEF \<equiv> 48"
abbreviation (input) TOKEN_IFNDEF :: TokenType where "TOKEN_IFNDEF \<equiv> 49"
abbreviation (input) TOKEN_ENDIF :: TokenType where "TOKEN_ENDIF \<equiv> 50"
abbreviation (input) TOKEN_PRAGMA :: TokenType where "TOKEN_PRAGMA \<equiv> 51"
abbreviation (input) TOKEN_ONCE :: TokenType where "TOKEN_ONCE \<equiv> 52"
abbreviation (input) TOKEN_PREPROCESSOR_OTHER :: TokenType where "TOKEN_PREPROCESSOR_OTHER \<equiv> 53"
abbreviation (input) TOKEN_PP_IF :: TokenType where "TOKEN_PP_IF \<equiv> 54"
abbreviation (input) TOKEN_PP_ELIF :: TokenType where "TOKEN_PP_ELIF \<equiv> 55"
abbreviation (input) TOKEN_PP_ELSE :: TokenType where "TOKEN_PP_ELSE \<equiv> 56"
abbreviation (input) TOKEN_NUMBER :: TokenType where "TOKEN_NUMBER \<equiv> 57"
abbreviation (input) TOKEN_FLOAT_LITERAL :: TokenType where "TOKEN_FLOAT_LITERAL \<equiv> 58"
abbreviation (input) TOKEN_STRING :: TokenType where "TOKEN_STRING \<equiv> 59"
abbreviation (input) TOKEN_CHAR_LITERAL :: TokenType where "TOKEN_CHAR_LITERAL \<equiv> 60"
abbreviation (input) TOKEN_ASSIGN :: TokenType where "TOKEN_ASSIGN \<equiv> 61"
abbreviation (input) TOKEN_PLUS_ASSIGN :: TokenType where "TOKEN_PLUS_ASSIGN \<equiv> 62"
abbreviation (input) TOKEN_MINUS_ASSIGN :: TokenType where "TOKEN_MINUS_ASSIGN \<equiv> 63"
abbreviation (input) TOKEN_MULT_ASSIGN :: TokenType where "TOKEN_MULT_ASSIGN \<equiv> 64"
abbreviation (input) TOKEN_DIV_ASSIGN :: TokenType where "TOKEN_DIV_ASSIGN \<equiv> 65"
abbreviation (input) TOKEN_MOD_ASSIGN :: TokenType where "TOKEN_MOD_ASSIGN \<equiv> 66"
abbreviation (input) TOKEN_PLUS :: TokenType where "TOKEN_PLUS \<equiv> 67"
abbreviation (input) TOKEN_MINUS :: TokenType where "TOKEN_MINUS \<equiv> 68"
abbreviation (input) TOKEN_ASTERISK :: TokenType where "TOKEN_ASTERISK \<equiv> 69"
abbreviation (input) TOKEN_DIVIDE :: TokenType where "TOKEN_DIVIDE \<equiv> 70"
abbreviation (input) TOKEN_MODULO :: TokenType where "TOKEN_MODULO \<equiv> 71"
abbreviation (input) TOKEN_INCREMENT :: TokenType where "TOKEN_INCREMENT \<equiv> 72"
abbreviation (input) TOKEN_DECREMENT :: TokenType where "TOKEN_DECREMENT \<equiv> 73"
abbreviation (input) TOKEN_EQUAL :: TokenType where "TOKEN_EQUAL \<equiv> 74"
abbreviation (input) TOKEN_NOT_EQUAL :: TokenType where "TOKEN_NOT_EQUAL \<equiv> 75"
abbreviation (input) TOKEN_LESS :: TokenType where "TOKEN_LESS \<equiv> 76"
abbreviation (input) TOKEN_LESS_EQUAL :: TokenType where "TOKEN_LESS_EQUAL \<equiv> 77"
abbreviation (input) TOKEN_GREATER :: TokenType where "TOKEN_GREATER \<equiv> 78"
abbreviation (input) TOKEN_GREATER_EQUAL :: TokenType where "TOKEN_GREATER_EQUAL \<equiv> 79"
abbreviation (input) TOKEN_LOGICAL_AND :: TokenType where "TOKEN_LOGICAL_AND \<equiv> 80"
abbreviation (input) TOKEN_LOGICAL_OR :: TokenType where "TOKEN_LOGICAL_OR \<equiv> 81"
abbreviation (input) TOKEN_LOGICAL_NOT :: TokenType where "TOKEN_LOGICAL_NOT \<equiv> 82"
abbreviation (input) TOKEN_BITWISE_AND :: TokenType where "TOKEN_BITWISE_AND \<equiv> 83"
abbreviation (input) TOKEN_BITWISE_OR :: TokenType where "TOKEN_BITWISE_OR \<equiv> 84"
abbreviation (input) TOKEN_BITWISE_XOR :: TokenType where "TOKEN_BITWISE_XOR \<equiv> 85"
abbreviation (input) TOKEN_BITWISE_NOT :: TokenType where "TOKEN_BITWISE_NOT \<equiv> 86"
abbreviation (input) TOKEN_LEFT_SHIFT :: TokenType where "TOKEN_LEFT_SHIFT \<equiv> 87"
abbreviation (input) TOKEN_RIGHT_SHIFT :: TokenType where "TOKEN_RIGHT_SHIFT \<equiv> 88"
abbreviation (input) TOKEN_BITWISE_AND_ASSIGN :: TokenType where "TOKEN_BITWISE_AND_ASSIGN \<equiv> 89"
abbreviation (input) TOKEN_BITWISE_OR_ASSIGN :: TokenType where "TOKEN_BITWISE_OR_ASSIGN \<equiv> 90"
abbreviation (input) TOKEN_BITWISE_XOR_ASSIGN :: TokenType where "TOKEN_BITWISE_XOR_ASSIGN \<equiv> 91"
abbreviation (input) TOKEN_LEFT_SHIFT_ASSIGN :: TokenType where "TOKEN_LEFT_SHIFT_ASSIGN \<equiv> 92"
abbreviation (input) TOKEN_RIGHT_SHIFT_ASSIGN :: TokenType where "TOKEN_RIGHT_SHIFT_ASSIGN \<equiv> 93"
abbreviation (input) TOKEN_SEMICOLON :: TokenType where "TOKEN_SEMICOLON \<equiv> 94"
abbreviation (input) TOKEN_COLON :: TokenType where "TOKEN_COLON \<equiv> 95"
abbreviation (input) TOKEN_COMMA :: TokenType where "TOKEN_COMMA \<equiv> 96"
abbreviation (input) TOKEN_DOT :: TokenType where "TOKEN_DOT \<equiv> 97"
abbreviation (input) TOKEN_ELLIPSIS :: TokenType where "TOKEN_ELLIPSIS \<equiv> 98"
abbreviation (input) TOKEN_QUESTION :: TokenType where "TOKEN_QUESTION \<equiv> 99"
abbreviation (input) TOKEN_HASH :: TokenType where "TOKEN_HASH \<equiv> 100"
abbreviation (input) TOKEN_DOUBLE_HASH :: TokenType where "TOKEN_DOUBLE_HASH \<equiv> 101"
abbreviation (input) TOKEN_LPAREN :: TokenType where "TOKEN_LPAREN \<equiv> 102"
abbreviation (input) TOKEN_RPAREN :: TokenType where "TOKEN_RPAREN \<equiv> 103"
abbreviation (input) TOKEN_LBRACE :: TokenType where "TOKEN_LBRACE \<equiv> 104"
abbreviation (input) TOKEN_RBRACE :: TokenType where "TOKEN_RBRACE \<equiv> 105"
abbreviation (input) TOKEN_LBRACKET :: TokenType where "TOKEN_LBRACKET \<equiv> 106"
abbreviation (input) TOKEN_RBRACKET :: TokenType where "TOKEN_RBRACKET \<equiv> 107"
abbreviation (input) TOKEN_ARROW :: TokenType where "TOKEN_ARROW \<equiv> 108"
abbreviation (input) TOKEN_LINE_COMMENT :: TokenType where "TOKEN_LINE_COMMENT \<equiv> 109"
abbreviation (input) TOKEN_BLOCK_COMMENT :: TokenType where "TOKEN_BLOCK_COMMENT \<equiv> 110"
abbreviation (input) TOKEN_ASM :: TokenType where "TOKEN_ASM \<equiv> 111"
abbreviation (input) TOKEN_EOF :: TokenType where "TOKEN_EOF \<equiv> 112"
abbreviation (input) TOKEN_UNKNOWN :: TokenType where "TOKEN_UNKNOWN \<equiv> 113"

section \<open>Tokens\<close>

record SourceLocation =
  sl_file :: cstr
  sl_line :: int
  sl_column :: int

record SourceRange =
  sr_start :: SourceLocation
  sr_end :: SourceLocation

record Token =
  tk_type :: TokenType
  tk_value :: cstr
  tk_line :: int
  tk_spellingLine :: int
  tk_spellingColumn :: int
  tk_location :: SourceRange
  tk_macroCallSite :: SourceRange
  tk_macroDefinition :: SourceRange

definition no_location :: SourceLocation where
  "no_location = \<lparr>sl_file = None, sl_line = 0, sl_column = 0\<rparr>"

definition no_range :: SourceRange where
  "no_range = \<lparr>sr_start = no_location, sr_end = no_location\<rparr>"

text \<open>A token with a type, a text and a line, as tests and witnesses write it.\<close>

definition mk_token :: "TokenType \<Rightarrow> string \<Rightarrow> int \<Rightarrow> Token" where
  "mk_token ty v l =
    \<lparr>tk_type = ty, tk_value = Some v, tk_line = l, tk_spellingLine = 0, tk_spellingColumn = 0, tk_location = no_range, tk_macroCallSite = no_range,
     tk_macroDefinition = no_range\<rparr>"

lemma mk_token_simps [simp]:
  "tk_type (mk_token ty v l) = ty" "tk_value (mk_token ty v l) = Some v" "tk_line (mk_token ty v l) = l"
  by (simp_all add: mk_token_def)

section \<open>The token buffer\<close>

type_synonym TokenBuffer = "Token list"

definition token_buffer_sentinel :: Token where
  "token_buffer_sentinel =
    \<lparr>tk_type = TOKEN_EOF, tk_value = Some ''EOF'', tk_line = 0, tk_spellingLine = 0, tk_spellingColumn = 0,
     tk_location = \<lparr>sr_start = no_location\<lparr>sl_file := Some ''<unknown>''\<rparr>,
                    sr_end = no_location\<lparr>sl_file := Some ''<unknown>''\<rparr>\<rparr>,
     tk_macroCallSite = no_range, tk_macroDefinition = no_range\<rparr>"

definition token_buffer_init :: TokenBuffer where
  "token_buffer_init = []"

definition token_buffer_destroy :: "TokenBuffer \<Rightarrow> TokenBuffer" where
  "token_buffer_destroy b = []"

definition token_buffer_append :: "TokenBuffer \<Rightarrow> Token \<Rightarrow> TokenBuffer" where
  "token_buffer_append b t = b @ [t]"

definition token_buffer_peek :: "TokenBuffer \<Rightarrow> nat \<Rightarrow> Token" where
  "token_buffer_peek b i =
    (if b = [] then token_buffer_sentinel
     else if i \<ge> length b then b ! (length b - 1)
     else b ! i)"

text \<open>
  The loop of \<open>token_buffer_fill_from_lexer\<close>; \<open>steps\<close> is what is left of the safety limit, so the
  recursion is the code's own counter.
\<close>

fun fill_loop :: "('lx \<Rightarrow> Token \<times> 'lx) \<Rightarrow> nat \<Rightarrow> 'lx \<Rightarrow> TokenBuffer \<Rightarrow> TokenBuffer \<times> 'lx \<times> bool" where
  "fill_loop getNextToken steps lx b =
    (let (t, lx') = getNextToken lx; b' = token_buffer_append b t
     in if tk_type t = TOKEN_EOF then (b', lx', True)
        else case steps of 0 \<Rightarrow> (b', lx', False) | Suc k \<Rightarrow> fill_loop getNextToken k lx' b')"

declare fill_loop.simps [simp del]

definition safety_limit :: "nat \<Rightarrow> nat" where
  "safety_limit source_length = (if source_length > 0 then source_length * 4 + 4096 else 4096)"

definition token_buffer_fill_from_lexer ::
    "('lx \<Rightarrow> Token \<times> 'lx) \<Rightarrow> nat \<Rightarrow> 'lx \<Rightarrow> TokenBuffer \<Rightarrow> TokenBuffer \<times> 'lx \<times> bool" where
  "token_buffer_fill_from_lexer getNextToken source_length lx b =
    fill_loop getNextToken (safety_limit source_length) lx b"

section \<open>What filling a buffer gives\<close>

lemma fill_loop_result:
  assumes "fill_loop next steps lx b = (b', lx', ok)"
  shows "\<exists>ts t. b' = b @ ts @ [t] \<and> length ts \<le> steps \<and> (\<forall>x \<in> set ts. tk_type x \<noteq> TOKEN_EOF) \<and>
    (ok \<longleftrightarrow> tk_type t = TOKEN_EOF)"
  using assms
proof (induction steps arbitrary: lx b)
  case 0
  then show ?case
    by (subst (asm) fill_loop.simps) (auto simp: Let_def token_buffer_append_def split: prod.splits if_splits)
next
  case (Suc k)
  obtain t lx1 where n: "next lx = (t, lx1)" by (cases "next lx")
  show ?case
  proof (cases "tk_type t = TOKEN_EOF")
    case True
    then show ?thesis
      using Suc.prems n by (subst (asm) fill_loop.simps) (auto simp: token_buffer_append_def)
  next
    case False
    then have "fill_loop next k lx1 (b @ [t]) = (b', lx', ok)"
      using Suc.prems n by (subst (asm) fill_loop.simps) (auto simp: token_buffer_append_def)
    from Suc.IH [OF this] obtain ts t' where "b' = (b @ [t]) @ ts @ [t']" "length ts \<le> k"
        "\<forall>x \<in> set ts. tk_type x \<noteq> TOKEN_EOF" "ok \<longleftrightarrow> tk_type t' = TOKEN_EOF"
      by blast
    then show ?thesis using False by (intro exI [of _ "t # ts"] exI [of _ t']) auto
  qed
qed

text \<open>
  Filling an empty buffer from any lexer ends, with at most the safety limit plus one token; it
  succeeds exactly when the last token is the end of file, which is then the only one, so reading
  past the end of the buffer gives the end of file.\<close>
theorem token_buffer_fill_spec:
  assumes "token_buffer_fill_from_lexer next n lx token_buffer_init = (b, lx', ok)"
  shows "b \<noteq> [] \<and> length b \<le> safety_limit n + 1 \<and> (\<forall>x \<in> set (butlast b). tk_type x \<noteq> TOKEN_EOF) \<and>
    (ok \<longleftrightarrow> tk_type (last b) = TOKEN_EOF) \<and>
    (ok \<longrightarrow> (\<forall>i \<ge> length b. tk_type (token_buffer_peek b i) = TOKEN_EOF))"
proof -
  obtain ts t where "b = ts @ [t]" "length ts \<le> safety_limit n" "\<forall>x \<in> set ts. tk_type x \<noteq> TOKEN_EOF"
      "ok \<longleftrightarrow> tk_type t = TOKEN_EOF"
    using fill_loop_result assms unfolding token_buffer_fill_from_lexer_def token_buffer_init_def
    by (metis append_Nil)
  then show ?thesis by (auto simp: token_buffer_peek_def)
qed

theorem token_buffer_fill_spec_witness:
  "tk_type (token_buffer_peek (fst (token_buffer_fill_from_lexer
      (\<lambda>k. if k = 0 then (mk_token TOKEN_EOF ''EOF'' 1, 0 :: nat) else (mk_token TOKEN_NUMBER ''7'' 1, k - 1))
      0 2 token_buffer_init)) 99) = TOKEN_EOF"
proof -
  let ?next = "\<lambda>k. if k = 0 then (mk_token TOKEN_EOF ''EOF'' 1, 0 :: nat) else (mk_token TOKEN_NUMBER ''7'' 1, k - 1)"
  have "token_buffer_fill_from_lexer ?next 0 2 token_buffer_init =
      ([mk_token TOKEN_NUMBER ''7'' 1, mk_token TOKEN_NUMBER ''7'' 1, mk_token TOKEN_EOF ''EOF'' 1], 0, True)"
    by (simp add: token_buffer_fill_from_lexer_def safety_limit_def fill_loop.simps token_buffer_append_def
        token_buffer_init_def)
  then show ?thesis using token_buffer_fill_spec by fastforce
qed

end
