(* ===== verification/Parsed_Type.thy ===== *)
theory Parsed_Type
  imports Tokens
begin

text \<open>
  Parsed types and the operations on them, \<open>src/src/Parser/Helpers/parsed_type_ops.c\<close>. A parsed type is
  its scalar fields (\<open>PTBase\<close>), its derivations, outermost first, and the mirrored parameters of a
  function pointer. Arrays are lists (a null array is the empty one), AST nodes are references that
  carry what is read of them, allocation succeeds, and freeing has no effect beyond the fields it resets.
\<close>

section \<open>Data\<close>

datatype TypeKind = TYPE_INVALID | TYPE_PRIMITIVE | TYPE_STRUCT | TYPE_UNION | TYPE_ENUM | TYPE_NAMED

datatype TagKind = TAG_NONE | TAG_STRUCT | TAG_UNION | TAG_ENUM

datatype TypeDerivationKind = TYPE_DERIVATION_POINTER | TYPE_DERIVATION_ARRAY | TYPE_DERIVATION_FUNCTION

record PointerQualifier =
  pq_isConst :: bool
  pq_isVolatile :: bool
  pq_isRestrict :: bool

definition makePointerQual :: "bool \<Rightarrow> bool \<Rightarrow> bool \<Rightarrow> PointerQualifier" where
  "makePointerQual c v r = \<lparr>pq_isConst = c, pq_isVolatile = v, pq_isRestrict = r\<rparr>"

abbreviation no_qual :: PointerQualifier where
  "no_qual \<equiv> makePointerQual False False False"

text \<open>A size expression: its node, and whether it is a number or character literal.\<close>

record SizeExpr =
  se_node :: nat
  se_isLiteral :: bool

record ParsedArrayInfo =
  ai_sizeExpr :: "SizeExpr option"
  ai_isVLA :: bool
  ai_hasConstantSize :: bool
  ai_constantSize :: int
  ai_isFlexible :: bool
  ai_hasStatic :: bool
  ai_qualConst :: bool
  ai_qualVolatile :: bool
  ai_qualRestrict :: bool

definition no_array_info :: ParsedArrayInfo where
  "no_array_info =
    \<lparr>ai_sizeExpr = None, ai_isVLA = False, ai_hasConstantSize = False, ai_constantSize = 0, ai_isFlexible = False,
     ai_hasStatic = False, ai_qualConst = False, ai_qualVolatile = False, ai_qualRestrict = False\<rparr>"

record PTBase =
  pt_kind :: TypeKind
  pt_tag :: TagKind
  pt_inlineStructOrUnionDef :: "nat option"
  pt_inlineEnumDef :: "nat option"
  pt_isFunctionPointer :: bool
  pt_primitiveType :: TokenType
  pt_userTypeName :: cstr
  pt_isConst :: bool
  pt_isSigned :: bool
  pt_isUnsigned :: bool
  pt_isShort :: bool
  pt_isLong :: bool
  pt_isComplex :: bool
  pt_isImaginary :: bool
  pt_isVolatile :: bool
  pt_isRestrict :: bool
  pt_isInline :: bool
  pt_isStatic :: bool
  pt_isExtern :: bool
  pt_isRegister :: bool
  pt_isAuto :: bool
  pt_isThreadLocal :: bool
  pt_pointerDepth :: int
  pt_isVLA :: bool
  pt_directlyDeclaresFunction :: bool
  pt_isVariadicFunction :: bool
  pt_attributes :: "ASTAttribute list"
  pt_alignOverride :: nat
  pt_hasAlignOverride :: bool
  pt_hasParamArrayInfo :: bool
  pt_paramArrayInfo :: ParsedArrayInfo

datatype ParsedType = PT (pt_base: PTBase) (pt_derivations: "TypeDerivation list") (pt_fpParams: "ParsedType list")
  and TypeDerivation =
    DPointer PointerQualifier
  | DArray ParsedArrayInfo
  | DFunction (fn_hasPrototype: bool) (fn_isVariadic: bool) (fn_params: "ParsedType list")

fun deriv_kind :: "TypeDerivation \<Rightarrow> TypeDerivationKind" where
  "deriv_kind (DPointer q) = TYPE_DERIVATION_POINTER"
| "deriv_kind (DArray a) = TYPE_DERIVATION_ARRAY"
| "deriv_kind (DFunction p v ps) = TYPE_DERIVATION_FUNCTION"

abbreviation is_pointer :: "TypeDerivation \<Rightarrow> bool" where
  "is_pointer d \<equiv> deriv_kind d = TYPE_DERIVATION_POINTER"

abbreviation is_function :: "TypeDerivation \<Rightarrow> bool" where
  "is_function d \<equiv> deriv_kind d = TYPE_DERIVATION_FUNCTION"

definition zero_base :: PTBase where
  "zero_base =
    \<lparr>pt_kind = TYPE_INVALID, pt_tag = TAG_NONE, pt_inlineStructOrUnionDef = None, pt_inlineEnumDef = None,
     pt_isFunctionPointer = False, pt_primitiveType = 0, pt_userTypeName = None, pt_isConst = False,
     pt_isSigned = False, pt_isUnsigned = False, pt_isShort = False, pt_isLong = False, pt_isComplex = False,
     pt_isImaginary = False, pt_isVolatile = False, pt_isRestrict = False, pt_isInline = False,
     pt_isStatic = False, pt_isExtern = False, pt_isRegister = False, pt_isAuto = False, pt_isThreadLocal = False,
     pt_pointerDepth = 0, pt_isVLA = False, pt_directlyDeclaresFunction = False, pt_isVariadicFunction = False,
     pt_attributes = [], pt_alignOverride = 0, pt_hasAlignOverride = False, pt_hasParamArrayInfo = False,
     pt_paramArrayInfo = no_array_info\<rparr>"

definition invalid_type :: ParsedType where
  "invalid_type = PT zero_base [] []"

definition on_base :: "(PTBase \<Rightarrow> PTBase) \<Rightarrow> ParsedType \<Rightarrow> ParsedType" where
  "on_base f t = PT (f (pt_base t)) (pt_derivations t) (pt_fpParams t)"

definition with_derivations :: "TypeDerivation list \<Rightarrow> ParsedType \<Rightarrow> ParsedType" where
  "with_derivations ds t = PT (pt_base t) ds (pt_fpParams t)"

lemma on_base_simps [simp]:
  "pt_base (on_base f t) = f (pt_base t)" "pt_derivations (on_base f t) = pt_derivations t" "pt_fpParams (on_base f t) = pt_fpParams t"
  by (simp_all add: on_base_def)

lemma with_derivations_simps [simp]:
  "pt_base (with_derivations ds t) = pt_base t" "pt_derivations (with_derivations ds t) = ds"
  "pt_fpParams (with_derivations ds t) = pt_fpParams t"
  by (simp_all add: with_derivations_def)

lemma ParsedType_eqI: "pt_base s = pt_base t \<Longrightarrow> pt_derivations s = pt_derivations t \<Longrightarrow> pt_fpParams s = pt_fpParams t \<Longrightarrow> s = t"
  by (cases s; cases t) auto

section \<open>Names, counts and searches\<close>

definition getTokenTypeName :: "TokenType \<Rightarrow> string" where
  "getTokenTypeName ty =
    (if ty = TOKEN_INT then ''int'' else if ty = TOKEN_FLOAT then ''float'' else if ty = TOKEN_DOUBLE then ''double''
     else if ty = TOKEN_CHAR then ''char'' else if ty = TOKEN_BOOL then ''_Bool'' else if ty = TOKEN_VOID then ''void''
     else if ty = TOKEN_SHORT then ''short'' else if ty = TOKEN_LONG then ''long'' else if ty = TOKEN_CONST then ''const''
     else if ty = TOKEN_SIGNED then ''signed'' else if ty = TOKEN_UNSIGNED then ''unsigned''
     else if ty = TOKEN_VOLATILE then ''volatile'' else if ty = TOKEN_INLINE then ''inline''
     else if ty = TOKEN_IDENTIFIER then ''identifier'' else ''unknown'')"

definition findFirstFunctionDerivation :: "ParsedType \<Rightarrow> TypeDerivation option" where
  "findFirstFunctionDerivation t = List.find is_function (pt_derivations t)"

definition countFunctionDerivations :: "ParsedType \<Rightarrow> nat" where
  "countFunctionDerivations t = length (filter is_function (pt_derivations t))"

definition parsedTypeGetDerivation :: "ParsedType \<Rightarrow> nat \<Rightarrow> TypeDerivation option" where
  "parsedTypeGetDerivation t i = (if i \<ge> length (pt_derivations t) then None else Some (pt_derivations t ! i))"

fun array_derivation_from :: "nat \<Rightarrow> TypeDerivation list \<Rightarrow> ParsedArrayInfo option" where
  "array_derivation_from n [] = None"
| "array_derivation_from n (DArray a # ds) = (if n = 0 then Some a else array_derivation_from (n - 1) ds)"
| "array_derivation_from n (d # ds) = array_derivation_from n ds"

definition parsedTypeGetArrayDerivation :: "ParsedType \<Rightarrow> nat \<Rightarrow> ParsedArrayInfo option" where
  "parsedTypeGetArrayDerivation t dimensionIndex = array_derivation_from dimensionIndex (pt_derivations t)"

definition parsedTypeCountDerivationsOfKind :: "ParsedType \<Rightarrow> TypeDerivationKind \<Rightarrow> nat" where
  "parsedTypeCountDerivationsOfKind t k = length (filter (\<lambda>d. deriv_kind d = k) (pt_derivations t))"

definition array_is_vla :: "ParsedArrayInfo \<Rightarrow> bool" where
  "array_is_vla a \<longleftrightarrow> ai_isVLA a \<or>
    (\<not> ai_hasConstantSize a \<and> (case ai_sizeExpr a of None \<Rightarrow> False | Some e \<Rightarrow> \<not> ai_isFlexible a \<and> \<not> se_isLiteral e))"

definition parsedTypeHasVLA :: "ParsedType \<Rightarrow> bool" where
  "parsedTypeHasVLA t \<longleftrightarrow> list_ex (\<lambda>d. case d of DArray a \<Rightarrow> array_is_vla a | _ \<Rightarrow> False) (pt_derivations t)"

definition parsedTypeIsDirectArray :: "ParsedType \<Rightarrow> bool" where
  "parsedTypeIsDirectArray t \<longleftrightarrow>
    (case pt_derivations t of [] \<Rightarrow> False | d # ds \<Rightarrow> deriv_kind d = TYPE_DERIVATION_ARRAY)"

section \<open>Building types\<close>

definition parsedTypeAddPointerDepth :: "int \<Rightarrow> ParsedType \<Rightarrow> ParsedType" where
  "parsedTypeAddPointerDepth depth t =
    (if depth \<le> 0 then t else on_base (\<lambda>b. b\<lparr>pt_pointerDepth := pt_pointerDepth b + depth\<rparr>) t)"

definition parsedTypeAppendPointer :: "ParsedType \<Rightarrow> ParsedType" where
  "parsedTypeAppendPointer t =
    parsedTypeAddPointerDepth 1 (with_derivations (pt_derivations t @ [DPointer no_qual]) t)"

definition parsedTypeAppendArray :: "ParsedType \<Rightarrow> SizeExpr option \<Rightarrow> bool \<Rightarrow> ParsedType" where
  "parsedTypeAppendArray t sizeExpr vla =
    on_base (\<lambda>b. if vla then b\<lparr>pt_isVLA := True\<rparr> else b)
      (with_derivations (pt_derivations t @ [DArray (no_array_info\<lparr>ai_sizeExpr := sizeExpr, ai_isVLA := vla\<rparr>)]) t)"

definition parsedTypeResetDerivations :: "ParsedType \<Rightarrow> ParsedType" where
  "parsedTypeResetDerivations t =
    on_base (\<lambda>b. b\<lparr>pt_directlyDeclaresFunction := False, pt_isVariadicFunction := False\<rparr>) (with_derivations [] t)"

definition parsedTypeFree :: "ParsedType \<Rightarrow> ParsedType" where
  "parsedTypeFree t =
    PT ((pt_base (parsedTypeResetDerivations t))\<lparr>pt_isFunctionPointer := False, pt_attributes := []\<rparr>) [] []"

text \<open>
  Cloning. The mirrored parameters are copied only when no derivation is a function.
\<close>

fun parsedTypeClone :: "ParsedType \<Rightarrow> ParsedType"
  and cloneDerivationInto :: "TypeDerivation \<Rightarrow> TypeDerivation" where
  "parsedTypeClone (PT b ds fps) =
    PT b (map cloneDerivationInto ds) (if fps \<noteq> [] \<and> List.find is_function ds = None then map parsedTypeClone fps else [])"
| "cloneDerivationInto (DPointer q) = DPointer q"
| "cloneDerivationInto (DArray a) = DArray a"
| "cloneDerivationInto (DFunction p v ps) = DFunction p v (map parsedTypeClone ps)"

definition parsedTypeAppendFunction :: "ParsedType \<Rightarrow> ParsedType list \<Rightarrow> bool \<Rightarrow> bool \<Rightarrow> ParsedType" where
  "parsedTypeAppendFunction t params variadic prototype =
    on_base (\<lambda>b. b\<lparr>pt_directlyDeclaresFunction := True, pt_isVariadicFunction := variadic\<rparr>)
      (with_derivations (pt_derivations t @ [DFunction prototype variadic (map parsedTypeClone params)]) t)"

definition parsedTypeSetFunctionPointer :: "ParsedType \<Rightarrow> ParsedType list \<Rightarrow> ParsedType" where
  "parsedTypeSetFunctionPointer t params =
    PT ((pt_base t)\<lparr>pt_isFunctionPointer := True\<rparr>) (pt_derivations t)
      (if countFunctionDerivations t = 1 \<or> params = [] then [] else map parsedTypeClone params)"

definition parsedTypeAdoptAttributes :: "ParsedType \<Rightarrow> ASTAttribute list \<Rightarrow> ParsedType" where
  "parsedTypeAdoptAttributes t attrs = on_base (\<lambda>b. b\<lparr>pt_attributes := pt_attributes b @ attrs\<rparr>) t"

section \<open>Function flags and normalisation\<close>

definition before_function :: "TypeDerivation list \<Rightarrow> TypeDerivation list" where
  "before_function ds = takeWhile (\<lambda>d. \<not> is_function d) ds"

definition parsedTypeRefreshFunctionFlags :: "ParsedType \<Rightarrow> ParsedType" where
  "parsedTypeRefreshFunctionFlags t =
    on_base (\<lambda>b. case findFirstFunctionDerivation t of
        None \<Rightarrow> b\<lparr>pt_isFunctionPointer := False, pt_directlyDeclaresFunction := False, pt_isVariadicFunction := False\<rparr>
      | Some f \<Rightarrow> b\<lparr>pt_isFunctionPointer := list_ex is_pointer (before_function (pt_derivations t)),
                    pt_directlyDeclaresFunction := True, pt_isVariadicFunction := fn_isVariadic f\<rparr>) t"

text \<open>Pointers that follow the function derivation are moved in front of it.\<close>

definition parsedTypeNormalizeFunctionPointer :: "ParsedType \<Rightarrow> ParsedType" where
  "parsedTypeNormalizeFunctionPointer t =
    (let ds = pt_derivations t; pre = before_function ds; rest = drop (length pre) ds
     in if \<not> pt_isFunctionPointer (pt_base t) \<or> length ds < 2 then t
        else case rest of
            [] \<Rightarrow> t
          | f # after \<Rightarrow>
              if list_ex is_pointer pre then t
              else if filter is_pointer after = [] then t
              else with_derivations (pre @ filter is_pointer after @ [f] @ filter (\<lambda>d. \<not> is_pointer d) after) t)"

section \<open>Parameters\<close>

definition parsedTypeAdjustArrayParameter :: "ParsedType \<Rightarrow> ParsedType \<times> bool" where
  "parsedTypeAdjustArrayParameter t =
    (case pt_derivations t of
       DArray a # ds \<Rightarrow>
         (let t1 = on_base (\<lambda>b. b\<lparr>pt_hasParamArrayInfo := True, pt_paramArrayInfo := a\<rparr>)
                (with_derivations (DPointer (makePointerQual (ai_qualConst a) (ai_qualVolatile a) (ai_qualRestrict a)) # ds) t);
              t2 = parsedTypeAddPointerDepth 1 t1
          in (on_base (\<lambda>b. b\<lparr>pt_isVLA := parsedTypeHasVLA t2\<rparr>) t2, True))
     | _ \<Rightarrow> (t, False))"

definition parsedTypeAdjustFunctionParameter :: "ParsedType \<Rightarrow> ParsedType \<times> bool" where
  "parsedTypeAdjustFunctionParameter t0 =
    (let (t, changed) = parsedTypeAdjustArrayParameter t0
     in case pt_derivations t of
          DFunction p v ps # ds \<Rightarrow>
            (parsedTypeNormalizeFunctionPointer
               (on_base (\<lambda>b. b\<lparr>pt_pointerDepth := pt_pointerDepth b + 1, pt_directlyDeclaresFunction := False, pt_isFunctionPointer := True\<rparr>)
                 (with_derivations (DPointer no_qual # DFunction p v ps # ds) t)), True)
        | _ \<Rightarrow> (t, changed))"

section \<open>Taking a layer off\<close>

definition parsedTypeArrayElementType :: "ParsedType \<Rightarrow> ParsedType" where
  "parsedTypeArrayElementType t =
    (let element = parsedTypeClone t
     in if \<not> parsedTypeIsDirectArray element then element
        else parsedTypeRefreshFunctionFlags (with_derivations (tl (pt_derivations element)) element))"

fun remove_first_pointer :: "TypeDerivation list \<Rightarrow> TypeDerivation list option" where
  "remove_first_pointer [] = None"
| "remove_first_pointer (d # ds) = (if is_pointer d then Some ds else map_option ((#) d) (remove_first_pointer ds))"

definition lower_depth :: "PTBase \<Rightarrow> PTBase" where
  "lower_depth b = (if pt_pointerDepth b > 0 then b\<lparr>pt_pointerDepth := pt_pointerDepth b - 1\<rparr> else b)"

definition parsedTypePointerTargetType :: "ParsedType \<Rightarrow> ParsedType" where
  "parsedTypePointerTargetType t =
    (let copy = parsedTypeClone t
     in case remove_first_pointer (pt_derivations copy) of
          Some ds \<Rightarrow> parsedTypeRefreshFunctionFlags (on_base lower_depth (with_derivations ds copy))
        | None \<Rightarrow>
            if pt_pointerDepth (pt_base copy) > 0 then parsedTypeRefreshFunctionFlags (on_base lower_depth copy)
            else invalid_type)"

definition set_invalid :: "ParsedType \<Rightarrow> ParsedType" where
  "set_invalid t = on_base (\<lambda>b. b\<lparr>pt_kind := TYPE_INVALID\<rparr>) t"

definition parsedTypeFunctionReturnType :: "ParsedType \<Rightarrow> ParsedType" where
  "parsedTypeFunctionReturnType t =
    (let copy = parsedTypeClone t; ds = pt_derivations copy; pre = before_function ds;
         removedPointers = int (length (filter is_pointer pre))
     in if ds = [] then set_invalid copy
        else if length pre = length ds then set_invalid copy
        else parsedTypeRefreshFunctionFlags
          (on_base (\<lambda>b. if removedPointers > 0 \<and> pt_pointerDepth b > 0
               then b\<lparr>pt_pointerDepth := (if pt_pointerDepth b > removedPointers then pt_pointerDepth b - removedPointers else 0)\<rparr> else b)
            (with_derivations (drop (length pre + 1) ds) copy)))"

text \<open>
  For a declared function the first function derivation is removed; when another one remains behind more
  than one pointer, the pointers after the first move behind it.
\<close>

definition keep_first_pointer :: "TypeDerivation list \<Rightarrow> TypeDerivation list" where
  "keep_first_pointer ds =
    takeWhile (\<lambda>d. \<not> is_pointer d) ds @
    (case dropWhile (\<lambda>d. \<not> is_pointer d) ds of [] \<Rightarrow> [] | p # r \<Rightarrow> p # filter (\<lambda>d. \<not> is_pointer d) r)"

definition reorder_remaining :: "TypeDerivation list \<Rightarrow> TypeDerivation list" where
  "reorder_remaining ds =
    (let pre = before_function ds; ptrs = filter is_pointer pre
     in case drop (length pre) ds of
          [] \<Rightarrow> ds
        | f # after \<Rightarrow> if length ptrs > 1 then keep_first_pointer pre @ [f] @ tl ptrs @ after else ds)"

definition parsedTypeDeclaredFunctionReturnType :: "ParsedType \<Rightarrow> ParsedType" where
  "parsedTypeDeclaredFunctionReturnType t =
    (let copy = parsedTypeClone t; ds = pt_derivations copy; pre = before_function ds
     in if ds = [] then set_invalid copy
        else if length pre = length ds then set_invalid copy
        else parsedTypeRefreshFunctionFlags
          (with_derivations (reorder_remaining (pre @ drop (length pre + 1) ds)) copy))"

section \<open>Signatures and equality\<close>

text \<open>The parameters, whether variadic, whether with prototype.\<close>

definition parsedTypeGetEffectiveFunctionPointerSignature :: "ParsedType \<Rightarrow> (ParsedType list \<times> bool \<times> bool) option" where
  "parsedTypeGetEffectiveFunctionPointerSignature t =
    (if \<not> pt_isFunctionPointer (pt_base t) then None
     else
       let func = findFirstFunctionDerivation t in
       if pt_fpParams t \<noteq> [] then
         Some (pt_fpParams t,
               (case func of Some f \<Rightarrow> fn_isVariadic f | None \<Rightarrow> False),
               (case func of Some f \<Rightarrow> fn_hasPrototype f | None \<Rightarrow> True))
       else (case func of
           Some f \<Rightarrow> Some (fn_params f, fn_isVariadic f, fn_hasPrototype f)
         | None \<Rightarrow> None))"

definition namesEqual :: "cstr \<Rightarrow> cstr \<Rightarrow> bool" where
  "namesEqual a b \<longleftrightarrow> a = b"

definition same_base :: "PTBase \<Rightarrow> PTBase \<Rightarrow> bool" where
  "same_base a b \<longleftrightarrow>
    pt_kind a = pt_kind b \<and> pt_primitiveType a = pt_primitiveType b \<and> pt_tag a = pt_tag b \<and>
    namesEqual (pt_userTypeName a) (pt_userTypeName b) \<and> pt_isConst a = pt_isConst b \<and>
    pt_isVolatile a = pt_isVolatile b \<and> pt_isRestrict a = pt_isRestrict b \<and> pt_isSigned a = pt_isSigned b \<and>
    pt_isUnsigned a = pt_isUnsigned b \<and> pt_isShort a = pt_isShort b \<and> pt_isLong a = pt_isLong b \<and>
    pt_isComplex a = pt_isComplex b \<and> pt_isImaginary a = pt_isImaginary b \<and> pt_pointerDepth a = pt_pointerDepth b"

lemma signature_params_smaller:
  "parsedTypeGetEffectiveFunctionPointerSignature t = Some (ps, v, p) \<Longrightarrow> x \<in> set ps \<Longrightarrow> size x < size t"
proof -
  assume g: "parsedTypeGetEffectiveFunctionPointerSignature t = Some (ps, v, p)" and x: "x \<in> set ps"
  obtain b ds fps where t: "t = PT b ds fps" by (cases t)
  show ?thesis
  proof (cases "fps = []")
    case False
    then have "ps = fps" using g t by (simp add: parsedTypeGetEffectiveFunctionPointerSignature_def Let_def split: if_splits)
    then show ?thesis using x t size_list_estimation' [of x fps "size x" size] by simp
  next
    case True
    then obtain f where f: "List.find is_function ds = Some f" "ps = fn_params f"
      using g t by (auto simp: parsedTypeGetEffectiveFunctionPointerSignature_def findFirstFunctionDerivation_def Let_def
          split: if_splits option.splits)
    then have m: "f \<in> set ds" "is_function f" using find_SomeD [OF f(1)] by auto
    obtain pp vv qs where ff: "f = DFunction pp vv qs" using m(2) by (cases f) simp_all
    have "size x \<le> size_list size qs" using x f(2) ff size_list_estimation' [of x qs "size x" size] by simp
    moreover have "size f \<le> size_list size ds" using m(1) by (simp add: size_list_estimation')
    ultimately show ?thesis using t ff by simp
  qed
qed

text \<open>
  Structural equality. (The test of the code for the same object is subsumed: equality is reflexive.)
  When the left type has mirrored parameters and the right one has none the code compares with a null
  pointer, which gives false.
\<close>

function parsedTypesStructurallyEqual :: "ParsedType \<Rightarrow> ParsedType \<Rightarrow> bool" where
  "parsedTypesStructurallyEqual a b \<longleftrightarrow>
    same_base (pt_base a) (pt_base b) \<and>
    (pt_isFunctionPointer (pt_base a) \<or> pt_isFunctionPointer (pt_base b) \<longrightarrow>
      (case (parsedTypeGetEffectiveFunctionPointerSignature a, parsedTypeGetEffectiveFunctionPointerSignature b) of
         (Some (ps, v, p), Some (qs, w, q)) \<Rightarrow>
           length ps = length qs \<and> v = w \<and> p = q \<and>
           (\<forall>xy \<in> set (zip ps qs). parsedTypesStructurallyEqual (fst xy) (snd xy))
       | (None, None) \<Rightarrow> length (pt_fpParams a) = length (pt_fpParams b)
       | _ \<Rightarrow> False) \<and>
      length (pt_fpParams a) \<le> length (pt_fpParams b) \<and>
      (\<forall>xy \<in> set (zip (pt_fpParams a) (pt_fpParams b)). parsedTypesStructurallyEqual (fst xy) (snd xy))) \<and>
    length (pt_derivations a) = length (pt_derivations b) \<and>
    (\<forall>de \<in> set (zip (pt_derivations a) (pt_derivations b)).
      (case de of
         (DPointer q, DPointer r) \<Rightarrow> q = r
       | (DArray x, DArray y) \<Rightarrow> ai_isVLA x = ai_isVLA y
       | (DFunction p v ps, DFunction q w qs) \<Rightarrow>
           p = q \<and> v = w \<and> length ps = length qs \<and>
           (\<forall>xy \<in> set (zip ps qs). parsedTypesStructurallyEqual (fst xy) (snd xy))
       | _ \<Rightarrow> False))"
  by pat_completeness auto

lemma fpParams_smaller: "x \<in> set (pt_fpParams t) \<Longrightarrow> size x < size t"
  using size_list_estimation' [of x "pt_fpParams t" "size x" size] by (cases t) simp

lemma deriv_params_smaller:
  assumes "DFunction p v ps \<in> set (pt_derivations t)" and "x \<in> set ps"
  shows "size x < size t"
proof -
  have "size x \<le> size_list size ps" using assms(2) by (simp add: size_list_estimation')
  moreover have "size (DFunction p v ps) \<le> size_list size (pt_derivations t)"
    using assms(1) by (rule size_list_estimation') simp
  ultimately show ?thesis by (cases t) simp
qed

termination parsedTypesStructurallyEqual
proof (relation "measure (\<lambda>(a, b). size a)")
  show "wf (measure (\<lambda>(a, b). size (a :: ParsedType)))" by simp
qed (auto dest!: set_zip_leftD intro: signature_params_smaller [OF sym] fpParams_smaller deriv_params_smaller)

declare parsedTypesStructurallyEqual.simps [simp del]

end
