(* ===== verification/Units_Conversion.thy ===== *)
theory Units_Conversion
  imports Units_Parser Parsed_Type
begin

text \<open>
  Explicit unit conversion, \<open>src/src/Extensions/Units/units_conversion.c\<close>; the side table of inferred
  expression dimensions, \<open>src/src/Extensions/extension_units_expr_table.c\<close>; and the dimensions of the
  results of library math calls, \<open>src/src/Extensions/Units/units_math_semantics.c\<close>. A unit pointer is
  an optional unit; an AST node is its address, here a number; diagnostics are values appended to a
  list. The growth of the tables always succeeds.
\<close>

section \<open>Conversion\<close>

definition unit_has_nonzero_scale :: "FisicsUnitDef option \<Rightarrow> bool" where
  "unit_has_nonzero_scale u \<longleftrightarrow> (case u of None \<Rightarrow> False | Some d \<Rightarrow> \<not> deq (ud_scale d) (dlit 0))"

definition fisics_unit_family_supports_explicit_conversion :: "FisicsDimFamily \<Rightarrow> bool" where
  "fisics_unit_family_supports_explicit_conversion family \<longleftrightarrow>
    family \<in> {FAMILY_LENGTH, FAMILY_MASS, FAMILY_TIME, FAMILY_CURRENT, FAMILY_AMOUNT, FAMILY_LUMINOUS,
      FAMILY_VELOCITY, FAMILY_ACCELERATION, FAMILY_FORCE, FAMILY_ENERGY, FAMILY_POWER, FAMILY_PRESSURE,
      FAMILY_CHARGE, FAMILY_VOLTAGE, FAMILY_RESISTANCE}"

text \<open>\<open>None\<close> is success; otherwise the detail message.\<close>

definition fisics_unit_can_convert :: "FisicsUnitDef option \<Rightarrow> FisicsUnitDef option \<Rightarrow> string option" where
  "fisics_unit_can_convert source target =
    (case (source, target) of
       (Some s, Some t) \<Rightarrow>
         if ud_family s \<noteq> ud_family t then
           Some ''explicit conversion requires source and target units from the same family''
         else if \<not> fisics_dim_equal (ud_dim s) (ud_dim t) then
           Some ''explicit conversion requires source and target units with identical dimensions''
         else if \<not> fisics_unit_family_supports_explicit_conversion (ud_family s) then
           Some ''explicit conversion is currently enabled only for multiplicative unit families''
         else if \<not> unit_has_nonzero_scale source \<or> \<not> unit_has_nonzero_scale target then
           Some ''explicit conversion requires nonzero canonical scales for both units''
         else None
     | _ \<Rightarrow> Some ''explicit conversion requires resolved source and target concrete units'')"

definition fisics_unit_to_canonical :: "double \<Rightarrow> FisicsUnitDef option \<Rightarrow> double option" where
  "fisics_unit_to_canonical v unit =
    (case unit of
       None \<Rightarrow> None
     | Some u \<Rightarrow> if \<not> unit_has_nonzero_scale unit then None
                 else Some (dadd (dmul v (ud_scale u)) (ud_offset u)))"

definition fisics_unit_from_canonical :: "double \<Rightarrow> FisicsUnitDef option \<Rightarrow> double option" where
  "fisics_unit_from_canonical v unit =
    (case unit of
       None \<Rightarrow> None
     | Some u \<Rightarrow> if \<not> unit_has_nonzero_scale unit then None
                 else Some (ddiv (dsub v (ud_offset u)) (ud_scale u)))"

definition fisics_unit_convert_explicit ::
    "double \<Rightarrow> FisicsUnitDef option \<Rightarrow> FisicsUnitDef option \<Rightarrow> string + double" where
  "fisics_unit_convert_explicit v source target =
    (case fisics_unit_can_convert source target of
       Some detail \<Rightarrow> Inl detail
     | None \<Rightarrow>
        (case fisics_unit_to_canonical v source of
           None \<Rightarrow> Inl ''failed to convert source value to canonical family space''
         | Some c \<Rightarrow>
            (case fisics_unit_from_canonical c target of
               None \<Rightarrow> Inl ''failed to convert canonical family value to target unit''
             | Some r \<Rightarrow> Inr r)))"

section \<open>The side table of expression results\<close>

type_synonym node = nat

record FisicsUnitsExprResult =
  er_node :: node
  er_dim :: FisicsDim8
  er_resolved :: bool
  er_unitDef :: "FisicsUnitDef option"
  er_unitResolved :: bool

datatype FisicsUnitsMathOperation =
    MATH_NONE | MATH_SQRT | MATH_FABS | MATH_HYPOT | MATH_FMAX | MATH_EXPM1 | MATH_LOG | MATH_FMIN | MATH_ATAN2

text \<open>
  An annotation of a declaration; the binding of a name or access, with the index of its annotation; and the
  contract on an argument of a call or on the result of a function.
\<close>

record FisicsUnitsAnnotation =
  an_node :: node
  an_declaratorIndex :: nat
  an_dimExprText :: cstr
  an_canonicalText :: cstr
  an_dim :: FisicsDim8
  an_resolved :: bool
  an_dimDuplicateCount :: nat
  an_unitExprText :: cstr
  an_unitDef :: "FisicsUnitDef option"
  an_unitResolved :: bool
  an_unitDuplicateCount :: nat

record FisicsUnitsExprBinding =
  bd_node :: node
  bd_annotation :: "nat option"
  bd_symbolType :: "ParsedType option"
  bd_originNode :: "node option"
  bd_functionDefinition :: "node option"
  bd_initializer :: "nat option"

record FisicsUnitsCallArgContract =
  ca_callNode :: node
  ca_argIndex :: int
  ca_dim :: FisicsDim8
  ca_resolved :: bool
  ca_unitDef :: "FisicsUnitDef option"
  ca_unitResolved :: bool

text \<open>The reports of \<open>extension_diagnostics.c\<close>, with the values their messages show.\<close>

datatype units_diag =
    UnitsDisabled node string
  | InvalidUnitsExpr node string string
  | DuplicateUnitsAttr node
  | InvalidUnitAttr node string
  | DuplicateUnitAttr node
  | UnitRequiresDim node string
  | UnitDimMismatch node string FisicsDim8 FisicsDim8
  | ArgumentDimMismatch node FisicsDim8 FisicsDim8
  | AssignDimMismatch node FisicsDim8 FisicsDim8
  | AddDimMismatch node FisicsDim8 FisicsDim8
  | SubDimMismatch node FisicsDim8 FisicsDim8
  | CompareDimMismatch node FisicsDim8 FisicsDim8
  | ExponentOverflow node cstr FisicsDim8 FisicsDim8
  | TernaryDimMismatch node FisicsDim8 FisicsDim8
  | ConversionInvalidTarget node string
  | ConversionIncompatible node FisicsUnitDef FisicsUnitDef string
  | ConversionRequiresSourceUnit node string
  | ReturnDimMismatch node FisicsDim8 FisicsDim8
  | ReturnContractMismatch node FisicsDim8 FisicsDim8
  | MathArgumentDimMismatch node string FisicsDim8 FisicsDim8
  | ImplicitUnitConversion node string FisicsUnitDef FisicsUnitDef
  | SqrtUnsupported node FisicsDim8 "FisicsUnitDef option" string

record FisicsExtensionState =
  unitsExprResults :: "FisicsUnitsExprResult list"
  unitsMathCalls :: "(node \<times> FisicsUnitsMathOperation) list"
  unitsDiags :: "units_diag list"
  unitsAnnotations :: "FisicsUnitsAnnotation list"
  unitsExprBindings :: "FisicsUnitsExprBinding list"
  unitsCallArgContracts :: "FisicsUnitsCallArgContract list"

fun expr_result_write :: "FisicsUnitsExprResult \<Rightarrow> FisicsUnitsExprResult list \<Rightarrow> FisicsUnitsExprResult list" where
  "expr_result_write r [] = [r]"
| "expr_result_write r (x # xs) = (if er_node x = er_node r then r # xs else x # expr_result_write r xs)"

definition fisics_extension_set_units_expr_result_with_unit ::
    "node \<Rightarrow> FisicsDim8 \<Rightarrow> bool \<Rightarrow> FisicsUnitDef option \<Rightarrow> bool \<Rightarrow> FisicsExtensionState \<Rightarrow> FisicsExtensionState" where
  "fisics_extension_set_units_expr_result_with_unit n dm resolved unitDef unitResolved st =
    st\<lparr>unitsExprResults := expr_result_write
        \<lparr>er_node = n, er_dim = dm, er_resolved = resolved, er_unitDef = unitDef,
         er_unitResolved = unitResolved \<and> unitDef \<noteq> None\<rparr> (unitsExprResults st)\<rparr>"

definition fisics_extension_set_units_expr_result ::
    "node \<Rightarrow> FisicsDim8 \<Rightarrow> bool \<Rightarrow> FisicsExtensionState \<Rightarrow> FisicsExtensionState" where
  "fisics_extension_set_units_expr_result n dm resolved st =
    fisics_extension_set_units_expr_result_with_unit n dm resolved None False st"

definition fisics_extension_clear_units_expr_results :: "FisicsExtensionState \<Rightarrow> FisicsExtensionState" where
  "fisics_extension_clear_units_expr_results st = st\<lparr>unitsExprResults := []\<rparr>"

fun expr_result_find :: "node \<Rightarrow> FisicsUnitsExprResult list \<Rightarrow> FisicsUnitsExprResult option" where
  "expr_result_find n [] = None"
| "expr_result_find n (x # xs) = (if er_node x = n then Some x else expr_result_find n xs)"

definition fisics_extension_lookup_units_expr_result ::
    "FisicsExtensionState \<Rightarrow> node \<Rightarrow> FisicsUnitsExprResult option" where
  "fisics_extension_lookup_units_expr_result st n = expr_result_find n (unitsExprResults st)"

definition fisics_extension_units_expr_result_at :: "FisicsExtensionState \<Rightarrow> nat \<Rightarrow> FisicsUnitsExprResult option" where
  "fisics_extension_units_expr_result_at st i =
    (if i \<ge> length (unitsExprResults st) then None else Some (unitsExprResults st ! i))"

definition fisics_extension_units_expr_result_count :: "FisicsExtensionState \<Rightarrow> nat" where
  "fisics_extension_units_expr_result_count st = length (unitsExprResults st)"

section \<open>Results of math calls\<close>

definition sqrt_roots :: "(string \<times> string) list" where
  "sqrt_roots =
    [(''square_meter'', ''meter''), (''square_millimeter'', ''millimeter''),
     (''square_centimeter'', ''centimeter''), (''meter_to_fourth'', ''square_meter''),
     (''millimeter_to_fourth'', ''square_millimeter''), (''centimeter_to_fourth'', ''square_centimeter'')]"

fun sqrt_root_scan :: "FisicsUnitDef \<Rightarrow> FisicsDim8 \<Rightarrow> (string \<times> string) list \<Rightarrow> FisicsUnitDef option" where
  "sqrt_root_scan source resultDim [] = None"
| "sqrt_root_scan source resultDim ((from, to) # rs) =
    (if ud_name source = Some from then
       (case fisics_unit_lookup (Some to) of
          Some result \<Rightarrow> if fisics_dim_equal (ud_dim result) resultDim then Some result
                         else sqrt_root_scan source resultDim rs
        | None \<Rightarrow> sqrt_root_scan source resultDim rs)
     else sqrt_root_scan source resultDim rs)"

definition sqrt_unit :: "FisicsUnitDef \<Rightarrow> FisicsDim8 \<Rightarrow> FisicsUnitDef option" where
  "sqrt_unit source resultDim = sqrt_root_scan source resultDim sqrt_roots"

fun math_call_find :: "node \<Rightarrow> (node \<times> FisicsUnitsMathOperation) list \<Rightarrow> FisicsUnitsMathOperation" where
  "math_call_find n [] = MATH_NONE"
| "math_call_find n ((m, op) # cs) = (if m = n then op else math_call_find n cs)"

definition fisics_units_math_operation :: "FisicsExtensionState \<Rightarrow> node \<Rightarrow> FisicsUnitsMathOperation" where
  "fisics_units_math_operation st call = math_call_find call (unitsMathCalls st)"

definition add_diag :: "units_diag \<Rightarrow> FisicsExtensionState \<Rightarrow> FisicsExtensionState" where
  "add_diag d st = st\<lparr>unitsDiags := unitsDiags st @ [d]\<rparr>"

text \<open>C's division truncates; the exponents halved here are even.\<close>

fun halve_axes :: "FisicsDim8 \<Rightarrow> nat list \<Rightarrow> FisicsDim8 \<Rightarrow> FisicsDim8 option" where
  "halve_axes d [] out = Some out"
| "halve_axes d (i # is) out = (if d ! i mod 2 \<noteq> 0 then None else halve_axes d is (out[i := d ! i div 2]))"

definition resolved_unit :: "FisicsUnitsExprResult \<Rightarrow> FisicsUnitDef option" where
  "resolved_unit r = (if er_unitResolved r then er_unitDef r else None)"

definition math_name :: "FisicsUnitsMathOperation \<Rightarrow> string" where
  "math_name op = (if op = MATH_HYPOT then ''hypot'' else if op = MATH_FMIN then ''fmin'' else ''fmax'')"

text \<open>The branches of \<open>fisics_units_record_math_result\<close>, each for a resolved first argument.\<close>

definition record_dimensionless_math ::
    "FisicsUnitsMathOperation \<Rightarrow> node \<Rightarrow> FisicsUnitsExprResult \<Rightarrow> FisicsExtensionState \<Rightarrow> FisicsExtensionState" where
  "record_dimensionless_math op call arg st =
    (if \<not> fisics_dim_equal (er_dim arg) fisics_dim_zero then
       add_diag (MathArgumentDimMismatch call (if op = MATH_EXPM1 then ''expm1'' else ''log'') fisics_dim_zero (er_dim arg)) st
     else fisics_extension_set_units_expr_result_with_unit call fisics_dim_zero True None False st)"

definition record_atan2 ::
    "node \<Rightarrow> FisicsUnitsExprResult \<Rightarrow> FisicsUnitsExprResult option \<Rightarrow> FisicsExtensionState \<Rightarrow> FisicsExtensionState" where
  "record_atan2 call arg rhs0 st =
    (case rhs0 of
       None \<Rightarrow> st
     | Some rhs \<Rightarrow>
        if \<not> er_resolved rhs then st
        else if \<not> fisics_dim_equal (er_dim arg) (er_dim rhs) then
          add_diag (MathArgumentDimMismatch call ''atan2'' (er_dim arg) (er_dim rhs)) st
        else (case (resolved_unit arg, resolved_unit rhs) of
            (Some u, Some v) \<Rightarrow>
              if ud_name u \<noteq> ud_name v then add_diag (ImplicitUnitConversion call ''atan2'' u v) st
              else fisics_extension_set_units_expr_result_with_unit call fisics_dim_zero True None False st
          | _ \<Rightarrow> fisics_extension_set_units_expr_result_with_unit call fisics_dim_zero True None False st))"

definition record_same_dim ::
    "FisicsUnitsMathOperation \<Rightarrow> node \<Rightarrow> FisicsUnitsExprResult \<Rightarrow> FisicsUnitsExprResult option \<Rightarrow>
     FisicsExtensionState \<Rightarrow> FisicsExtensionState" where
  "record_same_dim op call arg rhs0 st =
    (let unit = resolved_unit arg;
         keep = (\<lambda>u. fisics_extension_set_units_expr_result_with_unit call (er_dim arg) True u (u \<noteq> None) st)
     in if op = MATH_FABS then keep unit
        else case rhs0 of
           None \<Rightarrow> st
         | Some rhs \<Rightarrow>
            if \<not> er_resolved rhs then st
            else if \<not> fisics_dim_equal (er_dim arg) (er_dim rhs) then
              add_diag (MathArgumentDimMismatch call (math_name op) (er_dim arg) (er_dim rhs)) st
            else (case (unit, resolved_unit rhs) of
                (Some u, Some v) \<Rightarrow>
                  if ud_name u \<noteq> ud_name v then add_diag (ImplicitUnitConversion call (math_name op) u v) st
                  else keep unit
              | (_, None) \<Rightarrow> keep None
              | _ \<Rightarrow> keep unit))"

definition record_sqrt ::
    "node \<Rightarrow> FisicsUnitsExprResult \<Rightarrow> FisicsExtensionState \<Rightarrow> FisicsExtensionState" where
  "record_sqrt call arg st =
    (case halve_axes (er_dim arg) [0..<FISICS_DIM_COUNT] fisics_dim_zero of
       None \<Rightarrow> add_diag (SqrtUnsupported call (er_dim arg) None
                 ''square root requires even exponents on every dimension axis'') st
     | Some resultDim \<Rightarrow>
        (case resolved_unit arg of
           None \<Rightarrow> fisics_extension_set_units_expr_result_with_unit call resultDim True None False st
         | Some u \<Rightarrow>
            (case sqrt_unit u resultDim of
               None \<Rightarrow> add_diag (SqrtUnsupported call (er_dim arg) (Some u)
                         ''square root of this concrete unit has no supported registry mapping'') st
             | Some v \<Rightarrow> fisics_extension_set_units_expr_result_with_unit call resultDim True (Some v) True st)))"

text \<open>\<open>arguments\<close> are the argument nodes of the call. The result says whether the call is a math call.\<close>

definition fisics_units_record_math_result ::
    "node \<Rightarrow> node list \<Rightarrow> FisicsExtensionState \<Rightarrow> FisicsExtensionState \<times> bool" where
  "fisics_units_record_math_result call arguments st =
    (let op = math_call_find call (unitsMathCalls st) in
     if op = MATH_NONE then (st, False)
     else case fisics_extension_lookup_units_expr_result st (arguments ! 0) of
         None \<Rightarrow> (st, True)
       | Some arg \<Rightarrow>
           if \<not> er_resolved arg then (st, True)
           else if op = MATH_EXPM1 \<or> op = MATH_LOG then (record_dimensionless_math op call arg st, True)
           else
             let rhs = (if op = MATH_FABS \<or> op = MATH_SQRT then None
                        else fisics_extension_lookup_units_expr_result st (arguments ! 1))
             in if op = MATH_ATAN2 then (record_atan2 call arg rhs st, True)
                else if op \<noteq> MATH_SQRT then (record_same_dim op call arg rhs st, True)
                else (record_sqrt call arg st, True))"

end
