(* ===== verification/Units_Conversion_Props.thy ===== *)
theory Units_Conversion_Props
  imports Units_Conversion Units_Registry_Props
begin

text \<open>
  Accuracy of explicit conversions between units of the registry, the side table as a dictionary, and
  the soundness of the dimensions inferred for math calls.
\<close>

section \<open>Units of the registry\<close>

lemma registry_unit:
  assumes "u \<in> set (all_units kUnitFamilies)"
  obtains f where "f \<in> set kUnitFamilies" "u \<in> set (fd_units f)" "unit_ok f u"
  using assms kUnitFamilies_ok by (auto simp: all_units_def registry_ok_def family_ok_def)

lemma registry_scale:
  "u \<in> set (all_units kUnitFamilies) \<Longrightarrow>
    \<exists>x. ud_scale u = dlit x \<and> 1 / 10 ^ 12 \<le> x \<and> x \<le> 10 ^ 7 \<and> ud_offset u = DZero False"
  unfolding all_units_def kUnitFamilies_def init_family_table_part1_def init_family_table_part2_def unit_tables
  by (simp add: mk_unit_def dlit_0) (elim disjE; fastforce)

text \<open>So a scale is a finite number within a small factor of its decimal literal.\<close>

lemma registry_scale_bounds:
  assumes "u \<in> set (all_units kUnitFamilies)"
  obtains a where "ud_scale u = DNum a" "1 / 10 ^ 13 \<le> a" "a \<le> 10 ^ 8" "ud_offset u = DZero False"
proof -
  obtain x where x: "ud_scale u = dlit x" "1 / 10 ^ 12 \<le> x" "x \<le> 10 ^ 7" "ud_offset u = DZero False"
    using registry_scale [OF assms] by blast
  have "mid_range x" by (rule mid_range_if) (use x in \<open>simp_all add: order_trans [OF _ x(2)] order_trans [OF x(3)]\<close>)
  then obtain r where r: "dlit x = DNum r" "\<bar>r - x\<bar> \<le> x * 2 powi (- 53)" by (rule dlit_mid_range)
  have "0 < x" using x(2) by (rule less_le_trans [rotated]) simp
  then have "x * 2 powi (- 53) \<le> x * (1 / 2)"
    by (intro mult_left_mono) (simp_all add: power_int_minus)
  then have "x / 2 \<le> r" "r \<le> 2 * x" using r(2) \<open>0 < x\<close> by linarith+
  then show ?thesis using that [of r] x r(1) by simp
qed

section \<open>Accuracy of a conversion\<close>

text \<open>The bound for two roundings: \<open>(1 + 2^-53)^2 - 1\<close>.\<close>

definition conv_eps :: rat where
  "conv_eps = 2 powi (- 52) + 2 powi (- 106)"

lemma two_roundings:
  fixes x :: rat
  assumes "\<bar>c - x\<bar> \<le> x * 2 powi (- 53)" "\<bar>r - c / b\<bar> \<le> c / b * 2 powi (- 53)" "0 < b" "0 < x"
  shows "\<bar>r - x / b\<bar> \<le> x / b * conv_eps"
proof -
  let ?u = "2 powi (- 53) :: rat"
  have c: "c / b \<le> x / b * (1 + ?u)" "\<bar>c / b - x / b\<bar> \<le> x / b * ?u"
    using assms(1,3) by (auto simp: field_simps abs_if split: if_splits)
  have "\<bar>r - x / b\<bar> \<le> c / b * ?u + x / b * ?u" using assms(2) c(2) by linarith
  also have "\<dots> \<le> x / b * (1 + ?u) * ?u + x / b * ?u"
    using mult_right_mono [OF c(1), of ?u] by simp
  also have "\<dots> = x / b * conv_eps"
    by (simp add: conv_eps_def power_int_minus algebra_simps)
  finally show ?thesis .
qed

lemma convert_value:
  assumes "ud_scale s = DNum a" "ud_offset s = DZero False" "ud_scale t = DNum b" "ud_offset t = DZero False"
    and "1 / 10 ^ 13 \<le> a" "a \<le> 10 ^ 8" "1 / 10 ^ 13 \<le> b" "b \<le> 10 ^ 8"
    and "1 / 10 ^ 30 \<le> v" "v \<le> 10 ^ 30"
  obtains c r where "fisics_unit_to_canonical (DNum v) (Some s) = Some (DNum c)"
    "fisics_unit_from_canonical (DNum c) (Some t) = Some (DNum r)" "\<bar>r - v * a / b\<bar> \<le> v * a / b * conv_eps"
proof -
  have pos: "0 < a" "0 < b" "0 < v"
    using assms(5,7,9) by (auto intro: less_le_trans [rotated])
  have va: "1 / 10 ^ 43 \<le> v * a" "v * a \<le> 10 ^ 38"
    using mult_mono [OF assms(9,5)] mult_mono [OF assms(10,6)] pos by simp_all
  have "mid_range (v * a)" by (rule mid_range_if) (use va in \<open>simp_all add: order_trans [OF _ va(1)] order_trans [OF va(2)]\<close>)
  then obtain c where c: "round_double (v * a) = DNum c" "\<bar>c - v * a\<bar> \<le> v * a * 2 powi (- 53)"
    by (rule round_double_mid_range)
  have "v * a * 2 powi (- 53) \<le> v * a * (1 / 2)"
    using pos by (intro mult_left_mono) (simp_all add: power_int_minus)
  then have "v * a / 2 \<le> c" "c \<le> 2 * (v * a)" using c(2) pos by linarith+
  then have cb: "1 / 10 ^ 44 \<le> c" "c \<le> 10 ^ 39" using va by simp_all
  have q: "c / b \<le> 10 ^ 39 / (1 / 10 ^ 13)" "(1 / 10 ^ 44) / 10 ^ 8 \<le> c / b"
    using cb pos assms(7,8) by (intro frac_le; simp)+
  then have "mid_range (c / b)"
    by (intro mid_range_if order_trans [OF _ q(2)] order_trans [OF q(1)]) simp_all
  then obtain r where r: "round_double (c / b) = DNum r" "\<bar>r - c / b\<bar> \<le> c / b * 2 powi (- 53)"
    by (rule round_double_mid_range)
  show ?thesis
    using that [of c r] c r assms(1-4) pos two_roundings [OF c(2) r(2)]
    by (simp add: fisics_unit_to_canonical_def fisics_unit_from_canonical_def unit_has_nonzero_scale_def dlit_0
        dsub_def)
qed

lemma registry_same_family:
  assumes "s \<in> set (all_units kUnitFamilies)" "t \<in> set (all_units kUnitFamilies)" "ud_family s = ud_family t"
  shows "fisics_dim_equal (ud_dim s) (ud_dim t)"
proof -
  obtain f g where f: "unit_ok f s" and g: "unit_ok g t"
    using assms(1,2) by (metis registry_unit)
  then have "fd_family f = fd_family g" using assms(3) by (simp add: unit_ok_def)
  then obtain d where "fisics_dim_equal (ud_dim s) d" "fisics_dim_equal (ud_dim t) d"
    using f g by (auto simp: unit_ok_def split: option.splits)
  then show ?thesis by (simp add: fisics_dim_equal_def dim_equal_from_iff)
qed

text \<open>
  C9. Converting a positive value between two registry units of the same convertible family succeeds, and
  the result differs from the exact product and quotient by the two units' scales by at most two
  roundings (relative error below \<open>2^-52 + 2^-106\<close>), for every value between \<open>10^-30\<close> and \<open>10^30\<close>; other
  values are not covered, a large one can overflow.\<close>
theorem unit_conversion_accurate:
  assumes "s \<in> set (all_units kUnitFamilies)" "t \<in> set (all_units kUnitFamilies)"
    and "ud_family s = ud_family t" "fisics_unit_family_supports_explicit_conversion (ud_family s)"
    and "1 / 10 ^ 30 \<le> v" "v \<le> 10 ^ 30"
  shows "\<exists>a b r. ud_scale s = DNum a \<and> ud_scale t = DNum b \<and> 0 < a \<and> 0 < b \<and>
    fisics_unit_convert_explicit (DNum v) (Some s) (Some t) = Inr (DNum r) \<and>
    \<bar>r - v * a / b\<bar> \<le> v * a / b * (2 powi (- 52) + 2 powi (- 106))"
proof -
  obtain a where a: "ud_scale s = DNum a" "1 / 10 ^ 13 \<le> a" "a \<le> 10 ^ 8" "ud_offset s = DZero False"
    by (rule registry_scale_bounds [OF assms(1)])
  obtain b where b: "ud_scale t = DNum b" "1 / 10 ^ 13 \<le> b" "b \<le> 10 ^ 8" "ud_offset t = DZero False"
    by (rule registry_scale_bounds [OF assms(2)])
  have pos: "0 < a" "0 < b" using a(2) b(2) by (auto intro: less_le_trans [rotated])
  have "fisics_unit_can_convert (Some s) (Some t) = None"
    using assms(3,4) registry_same_family [OF assms(1-3)] a(1) b(1) pos
    by (simp add: fisics_unit_can_convert_def unit_has_nonzero_scale_def dlit_0)
  moreover obtain c r where "fisics_unit_to_canonical (DNum v) (Some s) = Some (DNum c)"
      "fisics_unit_from_canonical (DNum c) (Some t) = Some (DNum r)" "\<bar>r - v * a / b\<bar> \<le> v * a / b * conv_eps"
    by (rule convert_value [OF a(1,4) b(1,4) a(2,3) b(2,3) assms(5,6)])
  ultimately show ?thesis
    using a(1) b(1) pos by (auto simp: fisics_unit_convert_explicit_def conv_eps_def)
qed

text \<open>Miles to feet.\<close>

definition mile_unit :: FisicsUnitDef where
  "mile_unit = mk_unit ''mile'' ''mi'' FAMILY_LENGTH [1, 0, 0, 0, 0, 0, 0, 0] (dlit (1609344 / 1000)) kMileAliases"

definition foot_unit :: FisicsUnitDef where
  "foot_unit = mk_unit ''foot'' ''ft'' FAMILY_LENGTH [1, 0, 0, 0, 0, 0, 0, 0] (dlit (3048 / 10000)) kFootAliases"

lemma length_units_registered:
  "mile_unit \<in> set (all_units kUnitFamilies)" "foot_unit \<in> set (all_units kUnitFamilies)"
  unfolding mile_unit_def foot_unit_def all_units_def kUnitFamilies_def init_family_table_part1_def
    init_length_units_def init_length_units_tail_def by simp_all

theorem unit_conversion_accurate_witness:
  "\<exists>a b r. ud_scale mile_unit = DNum a \<and> ud_scale foot_unit = DNum b \<and> 0 < a \<and> 0 < b \<and>
    fisics_unit_convert_explicit (DNum 26) (Some mile_unit) (Some foot_unit) = Inr (DNum r) \<and>
    \<bar>r - 26 * a / b\<bar> \<le> 26 * a / b * (2 powi (- 52) + 2 powi (- 106))"
  by (rule unit_conversion_accurate [OF length_units_registered])
    (simp_all add: mile_unit_def foot_unit_def mk_unit_def fisics_unit_family_supports_explicit_conversion_def)

section \<open>The side table is a dictionary\<close>

text \<open>A result is marked as having a unit only when it has one.\<close>

definition table_ok :: "FisicsExtensionState \<Rightarrow> bool" where
  "table_ok st \<longleftrightarrow> distinct (map er_node (unitsExprResults st)) \<and>
    (\<forall>r \<in> set (unitsExprResults st). er_unitResolved r \<longrightarrow> er_unitDef r \<noteq> None)"

lemma expr_result_find_write:
  "expr_result_find n (expr_result_write r xs) = (if n = er_node r then Some r else expr_result_find n xs)"
  by (induction xs) auto

lemma nodes_write:
  "er_node ` set (expr_result_write r xs) = insert (er_node r) (er_node ` set xs)"
  by (induction xs) auto

lemma distinct_write: "distinct (map er_node xs) \<Longrightarrow> distinct (map er_node (expr_result_write r xs))"
  by (induction xs) (auto simp: nodes_write)

lemma set_write: "set (expr_result_write r xs) \<subseteq> insert r (set xs)"
  by (induction xs) auto

definition put_fact :: "node \<Rightarrow> FisicsDim8 \<times> FisicsUnitDef option \<Rightarrow> FisicsExtensionState \<Rightarrow> FisicsExtensionState" where
  "put_fact n v st = fisics_extension_set_units_expr_result_with_unit n (fst v) True (snd v) (snd v \<noteq> None) st"

definition get_fact :: "FisicsExtensionState \<Rightarrow> node \<Rightarrow> (FisicsDim8 \<times> FisicsUnitDef option) option" where
  "get_fact st n =
    map_option (\<lambda>r. (er_dim r, er_unitDef r)) (fisics_extension_lookup_units_expr_result st n)"

lemma table_ok_set:
  "table_ok st \<Longrightarrow> table_ok (fisics_extension_set_units_expr_result_with_unit n d b u ur st)"
  using set_write by (fastforce simp: table_ok_def fisics_extension_set_units_expr_result_with_unit_def distinct_write)

lemma lookup_set:
  "fisics_extension_lookup_units_expr_result (fisics_extension_set_units_expr_result_with_unit n d b u ur st) m =
    (if m = n then Some \<lparr>er_node = n, er_dim = d, er_resolved = b, er_unitDef = u, er_unitResolved = ur \<and> u \<noteq> None\<rparr>
     else fisics_extension_lookup_units_expr_result st m)"
  by (simp add: fisics_extension_lookup_units_expr_result_def fisics_extension_set_units_expr_result_with_unit_def
      expr_result_find_write)

interpretation expr_table: dictionary table_ok get_fact put_fact
  by unfold_locales (simp_all add: put_fact_def get_fact_def table_ok_set lookup_set)

text \<open>
  The side table remembers the last fact written for each expression, whatever the order in which
  facts about other expressions are written or overwritten, and every entry marked as carrying a
  unit carries one.\<close>
theorem expr_table_last_write_wins:
  assumes "table_ok st"
  shows "get_fact (fold (\<lambda>(n, v). put_fact n v) writes st) n =
      (case map_of (rev writes) n of Some v \<Rightarrow> Some v | None \<Rightarrow> get_fact st n) \<and>
    table_ok (fold (\<lambda>(n, v). put_fact n v) writes st)"
  using expr_table.lookup_puts [OF assms, of writes n] expr_table.inv_puts [OF assms, of writes]
  unfolding expr_table.puts_def by simp

theorem expr_table_last_write_wins_witness:
  "get_fact (fold (\<lambda>(n, v). put_fact n v)
      [(7, (fisics_dim_length, None)), (9, (fisics_dim_time, None)), (7, (fisics_dim_mass, Some foot_unit))]
      \<lparr>unitsExprResults = [], unitsMathCalls = [], unitsDiags = [], unitsAnnotations = [], unitsExprBindings = [], unitsCallArgContracts = []\<rparr>) 7 = Some (fisics_dim_mass, Some foot_unit)"
  using expr_table_last_write_wins [of "\<lparr>unitsExprResults = [], unitsMathCalls = [], unitsDiags = [], unitsAnnotations = [], unitsExprBindings = [], unitsCallArgContracts = []\<rparr>"
      "[(7, (fisics_dim_length, None)), (9, (fisics_dim_time, None)), (7, (fisics_dim_mass, Some foot_unit))]" 7]
  by (simp add: table_ok_def)

section \<open>Square roots\<close>

lemma halve_axes_eq:
  "halve_axes d is out =
    (if \<forall>i \<in> set is. even (d ! i) then Some (fold (\<lambda>i xs. xs[i := d ! i div 2]) is out) else None)"
  by (induction "is" arbitrary: out) (auto simp: odd_iff_mod_2_eq_one even_iff_mod_2_eq_zero)

lemma halve_dim:
  assumes "dim_ok d" "halve_axes d [0..<FISICS_DIM_COUNT] fisics_dim_zero = Some h"
  shows "fisics_dim_add h h = Some d"
proof -
  have len: "length d = FISICS_DIM_COUNT" by (rule dim_ok_length [OF assms(1)])
  have h: "h = map (\<lambda>i. d ! i div 2) [0..<FISICS_DIM_COUNT]" and even: "\<forall>i < FISICS_DIM_COUNT. even (d ! i)"
    using assms(2) fold_write_dim [of "\<lambda>i. d ! i div 2"]
    by (auto simp: halve_axes_eq fisics_dim_zero_def split: if_splits)
  have "fits_i8 (d ! i div 2)" if "i < FISICS_DIM_COUNT" for i
  proof -
    have "fits_i8 (d ! i)" using assms(1) that len by (auto simp: dim_ok_def)
    then show ?thesis unfolding fits_i8_def by linarith
  qed
  then have "dim_ok h" by (auto simp: h dim_ok_def)
  moreover have "map2 (+) h h = d"
    using len even by (auto intro!: nth_equalityI simp: h)
  ultimately show ?thesis using assms(1) by (simp add: fisics_dim_add_eq)
qed

text \<open>Scales of the units in the root table.\<close>

definition root_scale :: "string \<Rightarrow> rat option" where
  "root_scale = map_of
    [(''meter'', 1), (''millimeter'', 1 / 1000), (''centimeter'', 1 / 100),
     (''square_meter'', 1), (''square_millimeter'', 1 / 1000000), (''square_centimeter'', 1 / 10000),
     (''meter_to_fourth'', 1), (''millimeter_to_fourth'', 1 / 1000000000000),
     (''centimeter_to_fourth'', 1 / 100000000)]"

lemma root_scale_registered:
  "t \<in> dom root_scale \<Longrightarrow>
    \<exists>w \<in> set (all_units kUnitFamilies). ud_name w = Some t \<and> ud_scale w = dlit (the (root_scale t))"
  unfolding all_units_def kUnitFamilies_def init_family_table_part1_def init_family_table_part2_def unit_tables
  by (simp add: root_scale_def mk_unit_def) (elim disjE; simp)

lemma text_root_scale:
  assumes "u \<in> set (all_units kUnitFamilies)" "t \<in> unit_texts u" "root_scale t = Some x"
  shows "ud_scale u = dlit x"
proof -
  obtain w where w: "w \<in> set (all_units kUnitFamilies)" "ud_name w = Some t" "ud_scale w = dlit x"
    using root_scale_registered [of t] assms(3) by auto
  then have "t \<in> unit_texts w" by (simp add: unit_texts_def)
  then show ?thesis using registry.one_owner [OF assms(1) w(1) assms(2)] w(3) by blast
qed

lemma sqrt_roots_scale:
  "(f, t) \<in> set sqrt_roots \<Longrightarrow> \<not> Option.is_none (root_scale t) \<and> root_scale f = map_option (\<lambda>x. x * x) (root_scale t)"
  unfolding sqrt_roots_def by (simp; elim disjE; simp add: root_scale_def)

lemma sqrt_root_scan_SomeD:
  "sqrt_root_scan u d rs = Some v \<Longrightarrow>
    fisics_dim_equal (ud_dim v) d \<and>
    (\<exists>f t. (f, t) \<in> set rs \<and> ud_name u = Some f \<and> fisics_unit_lookup (Some t) = Some v)"
  by (induction u d rs rule: sqrt_root_scan.induct) (auto split: if_splits option.splits)

lemma sqrt_unit_sound:
  assumes "sqrt_unit u d = Some v" "u \<in> set (all_units kUnitFamilies)"
  shows "fisics_dim_equal (ud_dim v) d \<and> (\<exists>x. ud_scale v = dlit x \<and> ud_scale u = dlit (x * x))"
proof -
  obtain f t where v: "fisics_dim_equal (ud_dim v) d" "(f, t) \<in> set sqrt_roots" "ud_name u = Some f"
      "fisics_unit_lookup (Some t) = Some v"
    using sqrt_root_scan_SomeD assms(1) unfolding sqrt_unit_def by blast
  obtain x where x: "root_scale t = Some x" "root_scale f = Some (x * x)"
    using sqrt_roots_scale [OF v(2)] by (cases "root_scale t") auto
  have "f \<in> unit_texts u" using v(3) by (simp add: unit_texts_def)
  then show ?thesis
    using v text_root_scale [OF assms(2) _ x(2)] text_root_scale [OF _ _ x(1)] lookup_iff [of t v] by blast
qed

text \<open>
  A recognised square-root call either reports one diagnostic and infers nothing, which happens only
  for an odd exponent or a concrete unit, or infers a dimension whose square is the argument's and,
  for an argument with a concrete unit, the unit whose scale is the square root of the argument's.\<close>
theorem sqrt_inference_sound:
  assumes "fisics_units_math_operation st call = MATH_SQRT"
    and "fisics_extension_lookup_units_expr_result st (arguments ! 0) = Some arg" "er_resolved arg"
    and "dim_ok (er_dim arg)" "resolved_unit arg \<in> {None} \<union> Some ` set (all_units kUnitFamilies)"
  shows "(let st' = fst (fisics_units_record_math_result call arguments st) in
    (\<exists>d. st' = add_diag d st) \<and> ((\<exists>i < FISICS_DIM_COUNT. odd (er_dim arg ! i)) \<or> resolved_unit arg \<noteq> None) \<or>
    (\<exists>r. fisics_extension_lookup_units_expr_result st' call = Some r \<and> er_resolved r \<and>
      fisics_dim_add (er_dim r) (er_dim r) = Some (er_dim arg) \<and>
      (case resolved_unit arg of
         None \<Rightarrow> er_unitDef r = None
       | Some u \<Rightarrow> \<exists>v x. er_unitDef r = Some v \<and> fisics_dim_equal (ud_dim v) (er_dim r) \<and>
           ud_scale v = dlit x \<and> ud_scale u = dlit (x * x))))"
proof -
  have st': "fst (fisics_units_record_math_result call arguments st) = record_sqrt call arg st"
    using assms(1-3) by (simp add: fisics_units_record_math_result_def fisics_units_math_operation_def Let_def)
  show ?thesis
  proof (cases "halve_axes (er_dim arg) [0..<FISICS_DIM_COUNT] fisics_dim_zero")
    case None
    then have "\<exists>i < FISICS_DIM_COUNT. odd (er_dim arg ! i)"
      by (auto simp: halve_axes_eq split: if_splits)
    then show ?thesis using None by (auto simp: st' Let_def record_sqrt_def)
  next
    case (Some h)
    note add = halve_dim [OF assms(4) Some]
    show ?thesis
    proof (cases "resolved_unit arg")
      case None
      then show ?thesis using Some add by (simp add: st' Let_def record_sqrt_def lookup_set)
    next
      case (Some u)
      then have "u \<in> set (all_units kUnitFamilies)" using assms(5) by auto
      then show ?thesis
        using Some \<open>halve_axes _ _ _ = Some h\<close> add sqrt_unit_sound [of u h]
        by (cases "sqrt_unit u h") (auto simp: st' Let_def record_sqrt_def lookup_set)
    qed
  qed
qed

definition sqrt_area_state :: FisicsExtensionState where
  "sqrt_area_state =
    \<lparr>unitsExprResults = [\<lparr>er_node = 4, er_dim = [2, 0, 0, 0, 0, 0, 0, 0], er_resolved = True,
       er_unitDef = None, er_unitResolved = False\<rparr>],
     unitsMathCalls = [(5, MATH_SQRT)], unitsDiags = [], unitsAnnotations = [], unitsExprBindings = [], unitsCallArgContracts = []\<rparr>"

theorem sqrt_inference_sound_witness:
  "\<exists>r. fisics_extension_lookup_units_expr_result
      (fst (fisics_units_record_math_result 5 [4] sqrt_area_state)) 5 = Some r \<and>
    fisics_dim_add (er_dim r) (er_dim r) = Some fisics_dim_area"
proof -
  have ax: "i < FISICS_DIM_COUNT \<Longrightarrow> even (([2, 0, 0, 0, 0, 0, 0, 0] :: int list) ! i)" for i
    by (auto simp: FISICS_DIM_COUNT_def less_Suc_eq eval_nat_numeral)
  show ?thesis
    using sqrt_inference_sound [of sqrt_area_state 5 "[4]" "unitsExprResults sqrt_area_state ! 0"] ax
    by (auto simp: sqrt_area_state_def fisics_units_math_operation_def resolved_unit_def Let_def
        fisics_extension_lookup_units_expr_result_def dim_ok_def FISICS_DIM_COUNT_def fits_i8_def
        fisics_dim_area_def)
qed

end
