(* ===== verification/Macro_Table.thy ===== *)
theory Macro_Table
  imports Tokens
begin

text \<open>
  The macro table, \<open>src/src/Preprocessor/macro_table.c\<close>: the array of definitions searched by name, and
  the stack of macros being expanded. Copies are values here and allocation succeeds. A frame points
  to its macro by its index in the array, so removing a macro while it is being expanded shows: the
  frame then points to whatever is stored at that index.
\<close>

section \<open>Data\<close>

datatype MacroKind = MACRO_OBJECT | MACRO_FUNCTION

text \<open>An empty list of names is the null array.\<close>

record MacroParamList =
  mp_names :: "string list"
  mp_variadic :: bool
  mp_hasVaOpt :: bool

record MacroDefinition =
  md_name :: cstr
  md_kind :: MacroKind
  md_params :: MacroParamList
  md_body :: "Token list"
  md_range :: SourceRange

record MacroExpansionFrame =
  mf_macro :: nat
  mf_callSite :: SourceRange
  mf_range :: SourceRange

datatype MacroExpansionError = MT_ERR_NONE | MT_ERR_RECURSION | MT_ERR_DEPTH

record MacroTable =
  mt_macros :: "MacroDefinition list"
  mt_stack :: "MacroExpansionFrame list"
  mt_limit :: nat
  mt_lastError :: MacroExpansionError
  mt_serial :: u64

section \<open>Definitions\<close>

definition macro_params_destroy :: "MacroParamList \<Rightarrow> MacroParamList" where
  "macro_params_destroy p =
    (if mp_names p = [] then p else \<lparr>mp_names = [], mp_variadic = False, mp_hasVaOpt = False\<rparr>)"

definition macro_params_copy :: "MacroParamList \<Rightarrow> string list \<Rightarrow> bool \<Rightarrow> bool \<Rightarrow> MacroParamList" where
  "macro_params_copy dest names variadic hasVaOpt =
    (let dest = macro_params_destroy dest
     in dest\<lparr>mp_names := names, mp_variadic := variadic, mp_hasVaOpt := hasVaOpt\<rparr>)"

definition macro_body_destroy :: "Token list \<Rightarrow> Token list" where
  "macro_body_destroy b = []"

definition macro_body_copy :: "Token list \<Rightarrow> Token list \<Rightarrow> Token list" where
  "macro_body_copy dest src = (if src = [] then macro_body_destroy dest else src)"

definition macro_definition_reset :: "MacroDefinition \<Rightarrow> MacroDefinition" where
  "macro_definition_reset d =
    d\<lparr>md_name := None, md_params := macro_params_destroy (md_params d), md_body := macro_body_destroy (md_body d),
      md_range := no_range, md_kind := MACRO_OBJECT\<rparr>"

text \<open>A slot after \<open>memset\<close> to zero.\<close>

definition zero_definition :: MacroDefinition where
  "zero_definition =
    \<lparr>md_name = None, md_kind = MACRO_OBJECT,
     md_params = \<lparr>mp_names = [], mp_variadic = False, mp_hasVaOpt = False\<rparr>, md_body = [], md_range = no_range\<rparr>"

section \<open>The table\<close>

definition macro_table_create :: MacroTable where
  "macro_table_create =
    \<lparr>mt_macros = [], mt_stack = [], mt_limit = 1000, mt_lastError = MT_ERR_NONE, mt_serial = 0\<rparr>"

text \<open>The index of the first macro with a name: \<open>strcmp\<close> on every name in turn.\<close>

fun macro_index :: "string \<Rightarrow> MacroDefinition list \<Rightarrow> nat option" where
  "macro_index name [] = None"
| "macro_index name (d # ds) =
    (if md_name d = Some name then Some 0 else map_option Suc (macro_index name ds))"

definition macro_table_find_mut :: "MacroTable \<Rightarrow> string \<Rightarrow> nat option" where
  "macro_table_find_mut t name = macro_index name (mt_macros t)"

definition macro_table_lookup :: "MacroTable \<Rightarrow> cstr \<Rightarrow> MacroDefinition option" where
  "macro_table_lookup t nm =
    (case nm of None \<Rightarrow> None
     | Some name \<Rightarrow> map_option (\<lambda>i. mt_macros t ! i) (macro_index name (mt_macros t)))"

text \<open>The index of the slot for a name: the existing one, reset, or a new one at the end.\<close>

definition macro_table_upsert :: "MacroTable \<Rightarrow> string \<Rightarrow> MacroTable \<times> nat" where
  "macro_table_upsert t name =
    (case macro_table_find_mut t name of
       Some i \<Rightarrow>
         (t\<lparr>mt_macros := (mt_macros t)[i := (macro_definition_reset (mt_macros t ! i))\<lparr>md_name := Some name\<rparr>]\<rparr>, i)
     | None \<Rightarrow>
         (t\<lparr>mt_macros := mt_macros t @ [zero_definition\<lparr>md_name := Some name\<rparr>]\<rparr>, length (mt_macros t)))"

definition macro_table_define_object ::
    "MacroTable \<Rightarrow> cstr \<Rightarrow> Token list \<Rightarrow> SourceRange \<Rightarrow> MacroTable \<times> bool" where
  "macro_table_define_object t nm body rng =
    (case nm of None \<Rightarrow> (t, False)
     | Some name \<Rightarrow>
        (let (t1, i) = macro_table_upsert t name;
             d = (mt_macros t1 ! i);
             d' = d\<lparr>md_kind := MACRO_OBJECT, md_body := macro_body_copy (md_body d) body, md_range := rng\<rparr>
         in (t1\<lparr>mt_macros := (mt_macros t1)[i := d'], mt_serial := mt_serial t1 + 1\<rparr>, True)))"

definition macro_table_define_function ::
    "MacroTable \<Rightarrow> cstr \<Rightarrow> string list \<Rightarrow> bool \<Rightarrow> bool \<Rightarrow> Token list \<Rightarrow> SourceRange \<Rightarrow> MacroTable \<times> bool" where
  "macro_table_define_function t nm params variadic hasVaOpt body rng =
    (case nm of None \<Rightarrow> (t, False)
     | Some name \<Rightarrow>
        (let (t1, i) = macro_table_upsert t name;
             d = (mt_macros t1 ! i);
             d' = d\<lparr>md_kind := MACRO_FUNCTION,
                   md_params := macro_params_copy (md_params d) params variadic hasVaOpt,
                   md_body := macro_body_copy (md_body d) body, md_range := rng\<rparr>
         in (t1\<lparr>mt_macros := (mt_macros t1)[i := d'], mt_serial := mt_serial t1 + 1\<rparr>, True)))"

text \<open>The last definition takes the place of the removed one.\<close>

definition macro_table_undef :: "MacroTable \<Rightarrow> cstr \<Rightarrow> MacroTable \<times> bool" where
  "macro_table_undef t nm =
    (case nm of None \<Rightarrow> (t, False)
     | Some name \<Rightarrow>
        (case macro_index name (mt_macros t) of
           None \<Rightarrow> (t, False)
         | Some i \<Rightarrow>
            (let count = length (mt_macros t) - 1;
                 ds = (if i \<noteq> count then (mt_macros t)[i := mt_macros t ! count] else mt_macros t)
             in (t\<lparr>mt_macros := take count ds, mt_serial := mt_serial t + 1\<rparr>, True))))"

definition macro_table_mutation_serial :: "MacroTable \<Rightarrow> u64" where
  "macro_table_mutation_serial t = mt_serial t"

section \<open>The expansion stack\<close>

text \<open>The name a frame points to; an index past the array is a stale pointer with no name.\<close>

definition frame_name :: "MacroTable \<Rightarrow> MacroExpansionFrame \<Rightarrow> cstr" where
  "frame_name t f = (if mf_macro f < length (mt_macros t) then md_name (mt_macros t ! mf_macro f) else None)"

definition macro_table_is_expanding :: "MacroTable \<Rightarrow> cstr \<Rightarrow> bool" where
  "macro_table_is_expanding t nm \<longleftrightarrow>
    (case nm of None \<Rightarrow> False | Some name \<Rightarrow> list_ex (\<lambda>f. frame_name t f = Some name) (mt_stack t))"

definition macro_table_push_expansion ::
    "MacroTable \<Rightarrow> nat \<Rightarrow> SourceRange \<Rightarrow> SourceRange \<Rightarrow> MacroTable \<times> bool" where
  "macro_table_push_expansion t m callSite rng =
    (if mt_limit t > 0 \<and> length (mt_stack t) \<ge> mt_limit t then (t\<lparr>mt_lastError := MT_ERR_DEPTH\<rparr>, False)
     else if macro_table_is_expanding t (md_name (mt_macros t ! m)) then
       (t\<lparr>mt_lastError := MT_ERR_RECURSION\<rparr>, False)
     else
       (t\<lparr>mt_lastError := MT_ERR_NONE,
         mt_stack := mt_stack t @ [\<lparr>mf_macro = m, mf_callSite = callSite, mf_range = rng\<rparr>]\<rparr>, True))"

text \<open>The scan from the top for the requested macro; the result is the new height.\<close>

fun pop_scan :: "nat \<Rightarrow> MacroExpansionFrame list \<Rightarrow> nat \<Rightarrow> nat option" where
  "pop_scan m fs 0 = None"
| "pop_scan m fs (Suc i) = (if mf_macro (fs ! i) = m then Some i else pop_scan m fs i)"

definition macro_table_pop_expansion :: "MacroTable \<Rightarrow> nat option \<Rightarrow> MacroTable" where
  "macro_table_pop_expansion t macro =
    (let n = length (mt_stack t) in
     if n = 0 then t
     else case macro of
         None \<Rightarrow> t\<lparr>mt_stack := take (n - 1) (mt_stack t)\<rparr>
       | Some m \<Rightarrow>
           if mf_macro (mt_stack t ! (n - 1)) \<noteq> m then
             (case pop_scan m (mt_stack t) n of
                Some k \<Rightarrow> t\<lparr>mt_stack := take k (mt_stack t)\<rparr>
              | None \<Rightarrow> t\<lparr>mt_stack := take (n - 1) (mt_stack t)\<rparr>)
           else t\<lparr>mt_stack := take (n - 1) (mt_stack t)\<rparr>)"

definition macro_table_current_expansion :: "MacroTable \<Rightarrow> MacroExpansionFrame list \<times> nat" where
  "macro_table_current_expansion t = (mt_stack t, length (mt_stack t))"

definition macro_table_last_error :: "MacroTable \<Rightarrow> MacroExpansionError \<times> MacroExpansionFrame option" where
  "macro_table_last_error t =
    (mt_lastError t, if mt_stack t = [] then None else Some (mt_stack t ! (length (mt_stack t) - 1)))"

definition macro_table_set_expansion_limit :: "MacroTable \<Rightarrow> nat \<Rightarrow> MacroTable" where
  "macro_table_set_expansion_limit t n = t\<lparr>mt_limit := n\<rparr>"

definition clone_definition :: "MacroTable \<Rightarrow> MacroDefinition \<Rightarrow> MacroTable \<times> bool" where
  "clone_definition c d =
    (if md_kind d = MACRO_OBJECT then macro_table_define_object c (md_name d) (md_body d) (md_range d)
     else macro_table_define_function c (md_name d) (mp_names (md_params d)) (mp_variadic (md_params d))
            (mp_hasVaOpt (md_params d)) (md_body d) (md_range d))"

fun clone_loop :: "MacroDefinition list \<Rightarrow> MacroTable \<Rightarrow> MacroTable option" where
  "clone_loop [] c = Some c"
| "clone_loop (d # ds) c = (case clone_definition c d of (c', ok) \<Rightarrow> if ok then clone_loop ds c' else None)"

definition macro_table_clone :: "MacroTable \<Rightarrow> MacroTable option" where
  "macro_table_clone src = clone_loop (mt_macros src) macro_table_create"

end
