(* ===== verification/Macro_Table_Props.thy ===== *)
theory Macro_Table_Props
  imports Macro_Table
begin

text \<open>
  The macro table implements a finite map from names to meanings under any sequence of \<open>#define\<close> and
  \<open>#undef\<close>, its clone has the same meanings, and the expansion stack never holds a macro twice.
\<close>

section \<open>Lookup\<close>

definition macros_ok :: "MacroTable \<Rightarrow> bool" where
  "macros_ok t \<longleftrightarrow> distinct (map md_name (mt_macros t)) \<and> None \<notin> md_name ` set (mt_macros t)"

lemma macro_index_Some:
  "macro_index n ds = Some i \<Longrightarrow> i < length ds \<and> md_name (ds ! i) = Some n"
  by (induction ds arbitrary: i) (auto split: if_splits)

lemma macro_index_None: "macro_index n ds = None \<longleftrightarrow> Some n \<notin> md_name ` set ds"
  by (induction ds) auto

lemma lookup_member:
  assumes "macros_ok t"
  shows "macro_table_lookup t (Some n) = Some d \<longleftrightarrow> d \<in> set (mt_macros t) \<and> md_name d = Some n"
proof (cases "macro_index n (mt_macros t)")
  case None
  then show ?thesis
    using macro_index_None [of n "mt_macros t"] by (force simp: macro_table_lookup_def)
next
  case (Some i)
  then have i: "i < length (mt_macros t)" "md_name (mt_macros t ! i) = Some n"
    by (auto dest: macro_index_Some)
  have "d = mt_macros t ! i" if "d \<in> set (mt_macros t)" "md_name d = Some n"
    using assms that i nth_mem [OF i(1)] by (auto simp: macros_ok_def distinct_map inj_on_def)
  then show ?thesis using Some i by (auto simp: macro_table_lookup_def)
qed

lemma lookup_eqI:
  assumes "macros_ok t" "macros_ok t'"
    "\<And>d. md_name d = Some n \<Longrightarrow> d \<in> set (mt_macros t) \<longleftrightarrow> d \<in> set (mt_macros t')"
  shows "macro_table_lookup t (Some n) = macro_table_lookup t' (Some n)"
  using lookup_member [OF assms(1)] lookup_member [OF assms(2)] assms(3) by (intro option_eqI) blast

section \<open>What a definition means\<close>

datatype macro_meaning =
    ObjectMacro "Token list" SourceRange
  | FunctionMacro "string list" bool bool "Token list" SourceRange

definition meaning :: "MacroDefinition \<Rightarrow> macro_meaning" where
  "meaning d =
    (if md_kind d = MACRO_OBJECT then ObjectMacro (md_body d) (md_range d)
     else FunctionMacro (mp_names (md_params d)) (mp_variadic (md_params d)) (mp_hasVaOpt (md_params d))
            (md_body d) (md_range d))"

definition macro_lookup :: "MacroTable \<Rightarrow> string \<Rightarrow> macro_meaning option" where
  "macro_lookup t n = map_option meaning (macro_table_lookup t (Some n))"

definition macro_define :: "string \<Rightarrow> macro_meaning \<Rightarrow> MacroTable \<Rightarrow> MacroTable" where
  "macro_define n m t = fst (case m of
      ObjectMacro body rng \<Rightarrow> macro_table_define_object t (Some n) body rng
    | FunctionMacro ps variadic vaOpt body rng \<Rightarrow>
        macro_table_define_function t (Some n) ps variadic vaOpt body rng)"

definition macro_undef :: "string \<Rightarrow> MacroTable \<Rightarrow> MacroTable" where
  "macro_undef n t = fst (macro_table_undef t (Some n))"

text \<open>Both definitions write one entry with the name, at its old place or at the end.\<close>

definition write_macro :: "string \<Rightarrow> MacroDefinition \<Rightarrow> MacroDefinition list \<Rightarrow> MacroDefinition list" where
  "write_macro n d ds = (case macro_index n ds of Some i \<Rightarrow> ds[i := d] | None \<Rightarrow> ds @ [d])"

lemma write_macro_ok:
  assumes "distinct (map md_name ds)" "md_name d = Some n"
  shows "set (write_macro n d ds) = insert d {x \<in> set ds. md_name x \<noteq> Some n}"
    and "distinct (map md_name (write_macro n d ds))"
proof -
  show "set (write_macro n d ds) = insert d {x \<in> set ds. md_name x \<noteq> Some n}"
  proof (cases "macro_index n ds")
    case None
    then show ?thesis using macro_index_None [of n ds] by (force simp: write_macro_def)
  next
    case (Some i)
    then show ?thesis
      using macro_index_Some [OF Some] set_update_keyed [OF assms(1), of i d] by (simp add: write_macro_def)
  qed
  show "distinct (map md_name (write_macro n d ds))"
  proof (cases "macro_index n ds")
    case None
    then show ?thesis using assms macro_index_None [of n ds] by (force simp: write_macro_def)
  next
    case (Some i)
    then have "i < length ds" "md_name (ds ! i) = Some n" by (auto dest: macro_index_Some)
    then have "map md_name (ds[i := d]) = map md_name ds"
      using assms(2) by (simp add: map_update list_update_id) (metis list_update_id nth_map)
    then show ?thesis using assms(1) Some by (simp add: write_macro_def)
  qed
qed

text \<open>A slot with a meaning written into it.\<close>

fun filled :: "macro_meaning \<Rightarrow> MacroDefinition \<Rightarrow> MacroDefinition" where
  "filled (ObjectMacro body rng) d = d\<lparr>md_kind := MACRO_OBJECT, md_body := body, md_range := rng\<rparr>"
| "filled (FunctionMacro ps variadic vaOpt body rng) d =
    d\<lparr>md_kind := MACRO_FUNCTION, md_params := macro_params_copy (md_params d) ps variadic vaOpt,
      md_body := body, md_range := rng\<rparr>"

lemma filled_simps [simp]: "meaning (filled m d) = m" "md_name (filled m d) = md_name d"
  by (cases m; simp add: meaning_def macro_params_copy_def macro_params_destroy_def Let_def)+

lemma macro_body_copy_eq [simp]: "macro_body_copy d b = b"
  by (simp add: macro_body_copy_def macro_body_destroy_def)

lemma macro_define_eq:
  "macro_define n m t =
    (case macro_table_upsert t n of (t1, i) \<Rightarrow>
       t1\<lparr>mt_macros := (mt_macros t1)[i := filled m (mt_macros t1 ! i)], mt_serial := mt_serial t1 + 1\<rparr>)"
  by (cases m) (simp_all add: macro_define_def macro_table_define_object_def macro_table_define_function_def
      Let_def split: prod.splits)

lemma macro_define_writes:
  "\<exists>d. md_name d = Some n \<and> meaning d = m \<and> mt_macros (macro_define n m t) = write_macro n d (mt_macros t)"
proof (cases "macro_index n (mt_macros t)")
  case None
  then show ?thesis
    by (intro exI [of _ "filled m (zero_definition\<lparr>md_name := Some n\<rparr>)"])
      (simp add: macro_define_eq macro_table_upsert_def macro_table_find_mut_def write_macro_def)
next
  case (Some i)
  then have "i < length (mt_macros t)" by (auto dest: macro_index_Some)
  then show ?thesis
    using Some
    by (intro exI [of _ "filled m ((macro_definition_reset (mt_macros t ! i))\<lparr>md_name := Some n\<rparr>)"])
      (simp add: macro_define_eq macro_table_upsert_def macro_table_find_mut_def write_macro_def)
qed

lemma macro_define_set:
  assumes "macros_ok t"
  obtains d where "md_name d = Some n" "meaning d = m" "macros_ok (macro_define n m t)"
    "set (mt_macros (macro_define n m t)) = insert d {x \<in> set (mt_macros t). md_name x \<noteq> Some n}"
proof -
  obtain d where d: "md_name d = Some n" "meaning d = m"
      "mt_macros (macro_define n m t) = write_macro n d (mt_macros t)"
    using macro_define_writes by blast
  show ?thesis
    by (rule that [OF d(1,2)])
      (use assms write_macro_ok [OF _ d(1), of "mt_macros t"] d in \<open>auto simp: macros_ok_def\<close>)
qed

lemma macro_undef_set:
  assumes "macros_ok t"
  shows "macros_ok (macro_undef n t)"
    and "set (mt_macros (macro_undef n t)) = {x \<in> set (mt_macros t). md_name x \<noteq> Some n}"
proof -
  have *: "distinct (map md_name (mt_macros (macro_undef n t))) \<and>
      set (mt_macros (macro_undef n t)) = {x \<in> set (mt_macros t). md_name x \<noteq> Some n}"
  proof (cases "macro_index n (mt_macros t)")
    case None
    then show ?thesis
      using assms macro_index_None [of n "mt_macros t"]
      by (force simp: macro_undef_def macro_table_undef_def macros_ok_def)
  next
    case (Some i)
    have "mt_macros (macro_undef n t) = swap_remove i (mt_macros t)"
      using Some by (simp add: macro_undef_def macro_table_undef_def swap_remove_def Let_def)
    then show ?thesis
      using assms macro_index_Some [OF Some] swap_remove_keyed [of md_name "mt_macros t" i]
      by (simp add: macros_ok_def)
  qed
  then show "set (mt_macros (macro_undef n t)) = {x \<in> set (mt_macros t). md_name x \<noteq> Some n}" by simp
  with * show "macros_ok (macro_undef n t)" using assms by (auto simp: macros_ok_def)
qed

interpretation macros: erasable_dictionary macros_ok macro_lookup macro_define macro_undef
proof
  fix t n m j
  assume ok: "macros_ok t"
  obtain d where d: "md_name d = Some n" "meaning d = m" "macros_ok (macro_define n m t)"
      "set (mt_macros (macro_define n m t)) = insert d {x \<in> set (mt_macros t). md_name x \<noteq> Some n}"
    by (rule macro_define_set [OF ok])
  show "macros_ok (macro_define n m t)" by (rule d(3))
  show "macro_lookup (macro_define n m t) j = (if j = n then Some m else macro_lookup t j)"
  proof (cases "j = n")
    case True
    have "macro_table_lookup (macro_define n m t) (Some n) = Some d"
      using lookup_member [OF d(3)] d(1,4) by simp
    then show ?thesis using True d(2) by (simp add: macro_lookup_def)
  next
    case False
    then have "macro_table_lookup (macro_define n m t) (Some j) = macro_table_lookup t (Some j)"
      by (intro lookup_eqI [OF d(3) ok]) (use d(1,4) in auto)
    then show ?thesis using False by (simp add: macro_lookup_def)
  qed
next
  fix t n j
  assume ok: "macros_ok t"
  note u = macro_undef_set [OF ok, of n]
  show "macros_ok (macro_undef n t)" by (rule u(1))
  show "macro_lookup (macro_undef n t) j = (if j = n then None else macro_lookup t j)"
  proof (cases "j = n")
    case True
    then have "macro_table_lookup (macro_undef n t) (Some j) \<noteq> Some d" for d
      using lookup_member [OF u(1)] u(2) by auto
    then show ?thesis using True by (cases "macro_table_lookup (macro_undef n t) (Some j)") (auto simp: macro_lookup_def)
  next
    case False
    then have "macro_table_lookup (macro_undef n t) (Some j) = macro_table_lookup t (Some j)"
      by (intro lookup_eqI [OF u(1) ok]) (use u(2) in auto)
    then show ?thesis using False by (simp add: macro_lookup_def)
  qed
qed

section \<open>Properties\<close>

text \<open>
  C14. Any sequence of definitions and removals leaves the table with the meanings of the
  corresponding finite map: the last definition of a name, nothing for a removed name, and no effect
  on other names, although a removal moves the last entry of the array.\<close>
theorem macro_table_refines_map:
  "macro_lookup (fold (\<lambda>op t. case op of Put n m \<Rightarrow> macro_define n m t | Del n \<Rightarrow> macro_undef n t) ops
      macro_table_create) n = dict_spec ops (\<lambda>_. None) n"
proof -
  have "macros_ok macro_table_create" by (simp add: macros_ok_def macro_table_create_def)
  moreover have "macro_lookup macro_table_create = (\<lambda>_. None)"
    by (simp add: macro_lookup_def macro_table_lookup_def macro_table_create_def fun_eq_iff)
  ultimately show ?thesis
    using macros.run_refines [of macro_table_create ops] unfolding macros.op_step_def by simp
qed

text \<open>Every definition and every successful removal changes the mutation serial, so a cached result can
  tell that the table has changed.\<close>

lemma macro_define_serial: "mt_serial (macro_define n m t) = mt_serial t + 1"
  by (simp add: macro_define_eq macro_table_upsert_def split: option.splits prod.splits)

lemma clone_definition_eq:
  assumes "md_name d = Some n"
  shows "clone_definition c d = (macro_define n (meaning d) c, True)"
  using assms
  by (auto simp: clone_definition_def macro_define_def meaning_def macro_table_define_object_def
      macro_table_define_function_def Let_def split: prod.splits)

lemma clone_loop_eq:
  assumes "None \<notin> md_name ` set ds"
  shows "clone_loop ds c = Some (macros.puts (map (\<lambda>d. (the (md_name d), meaning d)) ds) c)"
  using assms
proof (induction ds arbitrary: c)
  case (Cons d ds)
  then obtain n where n: "md_name d = Some n" by (cases "md_name d") auto
  then show ?case using Cons clone_definition_eq [OF n] by (simp add: macros.puts_def)
qed (simp add: macros.puts_def)

lemma map_of_meanings:
  assumes "macros_ok t"
  shows "map_of (rev (map (\<lambda>d. (the (md_name d), meaning d)) (mt_macros t))) n = macro_lookup t n"
proof -
  let ?kvs = "map (\<lambda>d. (the (md_name d), meaning d)) (mt_macros t)"
  have inj: "inj_on the (md_name ` set (mt_macros t))"
    using assms by (auto simp: macros_ok_def inj_on_def image_iff) (metis option.expand)
  have "distinct (map the (map md_name (mt_macros t)))"
    unfolding distinct_map [of the] using assms inj by (simp add: macros_ok_def)
  moreover have "map fst (rev ?kvs) = rev (map the (map md_name (mt_macros t)))" by (simp add: rev_map)
  ultimately have "distinct (map fst (rev ?kvs))" by (simp only: distinct_rev)
  then have "map_of (rev ?kvs) n = Some v \<longleftrightarrow> (n, v) \<in> set ?kvs" for v
    using map_of_eq_Some_iff by fastforce
  also have "(n, v) \<in> set ?kvs \<longleftrightarrow> macro_lookup t n = Some v" for v
    using lookup_member [OF assms, of n] assms
    by (force simp: macro_lookup_def macros_ok_def image_iff)
  finally show ?thesis by (rule option_eqI)
qed

text \<open>
  Cloning a table always succeeds and the clone gives every name the meaning it has in the original,
  with an empty expansion stack.\<close>
theorem macro_table_clone_same_meanings:
  assumes "macros_ok t"
  shows "\<exists>c. macro_table_clone t = Some c \<and> macros_ok c \<and> (\<forall>n. macro_lookup c n = macro_lookup t n)"
proof -
  have ok: "macros_ok macro_table_create" by (simp add: macros_ok_def macro_table_create_def)
  have empty: "macro_lookup macro_table_create n = None" for n
    by (simp add: macro_lookup_def macro_table_lookup_def macro_table_create_def)
  let ?kvs = "map (\<lambda>d. (the (md_name d), meaning d)) (mt_macros t)"
  have "macro_table_clone t = Some (macros.puts ?kvs macro_table_create)"
    using assms by (simp add: macro_table_clone_def clone_loop_eq macros_ok_def)
  then show ?thesis
    using macros.inv_puts [OF ok, of ?kvs] macros.lookup_puts [OF ok, of ?kvs] map_of_meanings [OF assms] empty
    by (auto split: option.splits)
qed

theorem macro_table_clone_same_meanings_witness:
  "\<exists>c. macro_table_clone (macro_define ''N'' (ObjectMacro [mk_token TOKEN_NUMBER ''3'' 1] no_range) macro_table_create) =
      Some c \<and> macro_lookup c ''N'' = Some (ObjectMacro [mk_token TOKEN_NUMBER ''3'' 1] no_range)"
proof -
  let ?m = "ObjectMacro [mk_token TOKEN_NUMBER ''3'' 1] no_range"
  have ok: "macros_ok macro_table_create" by (simp add: macros_ok_def macro_table_create_def)
  show ?thesis
    using macro_table_clone_same_meanings [OF macros.inv_put [OF ok, of "''N''" ?m]]
      macros.lookup_put [OF ok, of "''N''" ?m "''N''"] by auto
qed

section \<open>The expansion stack\<close>

text \<open>The stack under any sequence of pushes of existing macros and pops, the definitions unchanged.\<close>

inductive expansion_step :: "MacroTable \<Rightarrow> MacroTable \<Rightarrow> bool" where
  push: "m < length (mt_macros t) \<Longrightarrow> expansion_step t (fst (macro_table_push_expansion t m cs rng))"
| pop: "expansion_step t (macro_table_pop_expansion t mo)"

inductive expanding :: "MacroTable \<Rightarrow> MacroTable \<Rightarrow> bool" for t0 where
  start: "expanding t0 t0"
| step: "expanding t0 t \<Longrightarrow> expansion_step t t' \<Longrightarrow> expanding t0 t'"

definition stack_ok :: "MacroTable \<Rightarrow> bool" where
  "stack_ok t \<longleftrightarrow> distinct (map mf_macro (mt_stack t)) \<and>
    (\<forall>f \<in> set (mt_stack t). mf_macro f < length (mt_macros t)) \<and>
    (mt_limit t > 0 \<longrightarrow> length (mt_stack t) \<le> mt_limit t)"

lemma is_expanding_iff:
  assumes "macros_ok t" "m < length (mt_macros t)" "\<forall>f \<in> set (mt_stack t). mf_macro f < length (mt_macros t)"
  shows "macro_table_is_expanding t (md_name (mt_macros t ! m)) \<longleftrightarrow> m \<in> mf_macro ` set (mt_stack t)"
proof -
  have name: "md_name (mt_macros t ! i) = md_name (mt_macros t ! j) \<longleftrightarrow> i = j"
    if "i < length (mt_macros t)" "j < length (mt_macros t)" for i j
    using assms(1) that nth_eq_iff_index_eq [of "map md_name (mt_macros t)" i j] by (simp add: macros_ok_def)
  have "md_name (mt_macros t ! m) \<noteq> None"
    using assms(1) nth_mem [OF assms(2)] unfolding macros_ok_def by (metis image_eqI)
  then obtain n where "md_name (mt_macros t ! m) = Some n" by blast
  then show ?thesis
    using assms name by (auto simp: macro_table_is_expanding_def frame_name_def list_ex_iff image_iff) metis+
qed

lemma pop_scan_le: "pop_scan m fs n = Some k \<Longrightarrow> k < n"
  by (induction n) (auto split: if_splits)

lemma stack_ok_take: "stack_ok t \<Longrightarrow> stack_ok (t\<lparr>mt_stack := take k (mt_stack t)\<rparr>)"
  by (auto simp: stack_ok_def distinct_take simp flip: take_map dest: in_set_takeD)

lemma pop_takes: "\<exists>k. macro_table_pop_expansion t mo = t\<lparr>mt_stack := take k (mt_stack t)\<rparr>"
proof -
  have "t = t\<lparr>mt_stack := take 0 (mt_stack t)\<rparr>" if "mt_stack t = []" using that by simp
  then show ?thesis
    by (auto simp: macro_table_pop_expansion_def Let_def split: option.splits)
qed

lemma push_cases:
  assumes "macros_ok t" "stack_ok t" "m < length (mt_macros t)"
  shows "macro_table_push_expansion t m cs rng =
    (if mt_limit t > 0 \<and> length (mt_stack t) = mt_limit t then (t\<lparr>mt_lastError := MT_ERR_DEPTH\<rparr>, False)
     else if m \<in> mf_macro ` set (mt_stack t) then (t\<lparr>mt_lastError := MT_ERR_RECURSION\<rparr>, False)
     else (t\<lparr>mt_lastError := MT_ERR_NONE,
            mt_stack := mt_stack t @ [\<lparr>mf_macro = m, mf_callSite = cs, mf_range = rng\<rparr>]\<rparr>, True))"
  using assms is_expanding_iff [OF assms(1,3)]
  by (auto simp: macro_table_push_expansion_def stack_ok_def)

lemma expansion_step_ok:
  assumes "expansion_step t t'" "macros_ok t" "stack_ok t"
  shows "stack_ok t' \<and> mt_macros t' = mt_macros t \<and> mt_limit t' = mt_limit t"
  using assms(1)
proof (cases rule: expansion_step.cases)
  case (push m cs rng)
  then show ?thesis
    using push_cases [OF assms(2,3) push(2), of cs rng] assms(3) by (auto simp: stack_ok_def)
next
  case (pop mo)
  then show ?thesis using pop_takes [of t mo] stack_ok_take [OF assms(3)] by auto
qed

lemma expanding_ok:
  assumes "expanding t0 t" "macros_ok t0" "mt_stack t0 = []"
  shows "stack_ok t \<and> mt_macros t = mt_macros t0 \<and> mt_limit t = mt_limit t0"
  using assms(1)
proof (induction rule: expanding.induct)
  case start
  then show ?case using assms by (simp add: stack_ok_def)
next
  case (step t t')
  then have "macros_ok t" using assms(2) by (simp add: macros_ok_def)
  then show ?case using expansion_step_ok [OF step(2)] step.IH by simp
qed

text \<open>
  C15. Whatever sequence of macro expansions is entered and left, no macro is ever being expanded twice and
  the nesting stays within the limit; entering is refused, with the reason recorded and the stack
  unchanged, exactly for a macro already being expanded or at the limit.\<close>
theorem macro_expansion_never_recursive:
  assumes "expanding t0 t" "macros_ok t0" "mt_stack t0 = []" "mt_limit t0 > 0" "m < length (mt_macros t0)"
  shows "distinct (map mf_macro (mt_stack t)) \<and> length (mt_stack t) \<le> mt_limit t0 \<and>
    (case macro_table_push_expansion t m cs rng of (t', ok) \<Rightarrow>
      (ok \<longleftrightarrow> length (mt_stack t) < mt_limit t0 \<and> m \<notin> mf_macro ` set (mt_stack t)) \<and>
      (ok \<longrightarrow> mt_stack (macro_table_pop_expansion t' (Some m)) = mt_stack t) \<and>
      (\<not> ok \<longrightarrow> mt_stack t' = mt_stack t \<and> mt_lastError t' \<noteq> MT_ERR_NONE))"
proof -
  have s: "stack_ok t" "mt_macros t = mt_macros t0" "mt_limit t = mt_limit t0"
    using expanding_ok [OF assms(1-3)] by auto
  then have ok: "macros_ok t" using assms(2) by (simp add: macros_ok_def)
  have m: "m < length (mt_macros t)" using assms(5) s(2) by simp
  show ?thesis
    using push_cases [OF ok s(1) m, of cs rng] s assms(4)
    by (auto simp: stack_ok_def macro_table_pop_expansion_def Let_def)
qed

definition two_macros :: MacroTable where
  "two_macros = macro_define ''B'' (ObjectMacro [] no_range) (macro_define ''A'' (ObjectMacro [] no_range) macro_table_create)"

lemma two_macros_facts:
  "macros_ok two_macros" "mt_stack two_macros = []" "mt_limit two_macros = 1000" "length (mt_macros two_macros) = 2"
proof -
  have "macros_ok macro_table_create" by (simp add: macros_ok_def macro_table_create_def)
  then show "macros_ok two_macros" unfolding two_macros_def by (intro macros.inv_put)
qed (simp_all add: two_macros_def macro_define_def macro_table_define_object_def macro_table_upsert_def
    macro_table_find_mut_def macro_table_create_def zero_definition_def)

text \<open>Inside the expansion of macro 1, macro 1 is refused.\<close>

theorem macro_expansion_never_recursive_witness:
  "\<not> snd (macro_table_push_expansion (fst (macro_table_push_expansion two_macros 1 no_range no_range)) 1 no_range no_range)"
proof -
  let ?t = "fst (macro_table_push_expansion two_macros 1 no_range no_range)"
  have "expanding two_macros ?t"
    by (rule expanding.step [OF expanding.start]) (rule expansion_step.push, simp add: two_macros_facts)
  moreover have "stack_ok two_macros" using two_macros_facts(2) by (simp add: stack_ok_def)
  then have "mf_macro ` set (mt_stack ?t) = {1}"
    using push_cases [OF two_macros_facts(1), of 1 no_range no_range] by (simp add: two_macros_facts)
  ultimately show ?thesis
    using macro_expansion_never_recursive [of two_macros ?t 1 no_range no_range] two_macros_facts
    by (auto split: prod.splits)
qed

end
