(* ===== verification/Strtoull.thy ===== *)
theory Strtoull
  imports Prelude
begin

text \<open>
  The C library's \<open>strtoull\<close>, which the preprocessor and the literal decoder call: leading white space, a
  sign, the optional \<open>0x\<close> of base 16, then digits. The result is the value, whether it is out of range
  (\<open>errno = ERANGE\<close>, the value is then \<open>ULLONG_MAX\<close>) and the rest of the text; with no digits the rest is
  the whole text.
\<close>

definition hex_val :: "char \<Rightarrow> nat option" where
  "hex_val c =
    (let n = (of_char c :: nat) in
     if 48 \<le> n \<and> n \<le> 57 then Some (n - 48)
     else if 97 \<le> n \<and> n \<le> 102 then Some (n - 87)
     else if 65 \<le> n \<and> n \<le> 70 then Some (n - 55)
     else None)"

definition base_digit :: "nat \<Rightarrow> char \<Rightarrow> nat option" where
  "base_digit base c = (case hex_val c of Some d \<Rightarrow> if d < base then Some d else None | None \<Rightarrow> None)"

fun read_base :: "nat \<Rightarrow> int \<Rightarrow> string \<Rightarrow> int \<times> string" where
  "read_base base acc [] = (acc, [])"
| "read_base base acc (c # cs) =
    (case base_digit base c of Some d \<Rightarrow> read_base base (acc * int base + int d) cs | None \<Rightarrow> (acc, c # cs))"

definition is_space :: "char \<Rightarrow> bool" where
  "is_space c \<longleftrightarrow> c = CHR '' '' \<or> (9 \<le> (of_char c :: nat) \<and> (of_char c :: nat) \<le> 13)"

definition strip_sign :: "string \<Rightarrow> bool \<times> string" where
  "strip_sign s =
    (if s \<noteq> [] \<and> hd s = CHR ''-'' then (True, tl s) else if s \<noteq> [] \<and> hd s = CHR ''+'' then (False, tl s) else (False, s))"

definition strip_base :: "string \<Rightarrow> nat \<times> string" where
  "strip_base s =
    (if length s \<ge> 3 \<and> s ! 0 = CHR ''0'' \<and> (s ! 1 = CHR ''x'' \<or> s ! 1 = CHR ''X'') \<and> base_digit 16 (s ! 2) \<noteq> None
     then (16, drop 2 s)
     else if s \<noteq> [] \<and> hd s = CHR ''0'' then (8, s) else (10, s))"

text \<open>The common part: the digits of a known base.\<close>

definition strtoull_digits :: "string \<Rightarrow> bool \<Rightarrow> nat \<Rightarrow> string \<Rightarrow> u64 \<times> bool \<times> string" where
  "strtoull_digits whole neg base s =
    (if s = [] \<or> base_digit base (hd s) = None then (0, False, whole)
     else let (n, r) = read_base base 0 s
          in if n \<ge> 2 ^ 64 then (- 1, True, r)
             else (word_of_int (if neg then - n else n), False, r))"

text \<open>Base 0 takes the base from the prefix.\<close>

definition strtoull0 :: "string \<Rightarrow> u64 \<times> bool \<times> string" where
  "strtoull0 s =
    (let (neg, s1) = strip_sign (dropWhile is_space s);
         (base, s2) = strip_base s1
     in strtoull_digits s neg base s2)"

definition strtoull :: "nat \<Rightarrow> string \<Rightarrow> u64 \<times> bool \<times> string" where
  "strtoull base s =
    (let (neg, s1) = strip_sign (dropWhile is_space s);
         s2 = (if base = 16 \<and> fst (strip_base s1) = 16 then snd (strip_base s1) else s1)
     in strtoull_digits s neg base s2)"

section \<open>Reading a run of digits\<close>

definition digits_of :: "nat \<Rightarrow> string \<Rightarrow> bool" where
  "digits_of base ds \<longleftrightarrow> ds \<noteq> [] \<and> (\<forall>c \<in> set ds. base_digit base c \<noteq> None)"

definition ends_digits :: "nat \<Rightarrow> string \<Rightarrow> bool" where
  "ends_digits base r \<longleftrightarrow> (case r of [] \<Rightarrow> True | c # cs \<Rightarrow> base_digit base c = None)"

definition digits_value :: "nat \<Rightarrow> string \<Rightarrow> int" where
  "digits_value base ds = fst (read_base base 0 ds)"

lemma read_base_append:
  "\<forall>c \<in> set ds. base_digit base c \<noteq> None \<Longrightarrow> ends_digits base r \<Longrightarrow>
   read_base base acc (ds @ r) = (fst (read_base base acc ds), r)"
proof (induction ds arbitrary: acc)
  case Nil
  then show ?case by (cases r) (auto simp: ends_digits_def)
qed auto

lemma read_base_nonneg: "0 \<le> acc \<Longrightarrow> 0 \<le> fst (read_base base acc ds)"
  by (induction ds arbitrary: acc) (auto split: option.splits)

lemma base_digit_16: "base_digit base c \<noteq> None \<Longrightarrow> hex_val c \<noteq> None"
  by (auto simp: base_digit_def split: option.splits)

lemma hex_val_not_space: "hex_val c \<noteq> None \<Longrightarrow> \<not> is_space c \<and> c \<noteq> CHR ''-'' \<and> c \<noteq> CHR ''+'' \<and> c \<noteq> CHR ''x'' \<and> c \<noteq> CHR ''X''"
  by (auto simp: hex_val_def is_space_def Let_def split: if_splits)

lemma strtoull_reads:
  assumes "digits_of base ds" "ends_digits base r" "base = 16 \<longrightarrow> ds = ''0'' \<longrightarrow> take 1 r \<noteq> ''x'' \<and> take 1 r \<noteq> ''X''"
    "digits_value base ds < 2 ^ 64"
  shows "strtoull base (ds @ r) = (word_of_int (digits_value base ds), False, r)"
proof -
  obtain c cs where ds: "ds = c # cs" using assms(1) by (cases ds) (auto simp: digits_of_def)
  have c0: "base_digit base c \<noteq> None" using assms(1) ds by (simp add: digits_of_def)
  note c = c0 hex_val_not_space [OF base_digit_16 [OF c0]]
  have s1: "strip_sign (dropWhile is_space (ds @ r)) = (False, ds @ r)" using c ds by (simp add: strip_sign_def)
  have "\<not> (base = 16 \<and> fst (strip_base (ds @ r)) = 16)"
  proof
    assume a: "base = 16 \<and> fst (strip_base (ds @ r)) = 16"
    then have x: "length (ds @ r) \<ge> 3" "(ds @ r) ! 0 = CHR ''0''" "(ds @ r) ! 1 = CHR ''x'' \<or> (ds @ r) ! 1 = CHR ''X''"
      by (auto simp: strip_base_def split: if_splits)
    show False
    proof (cases cs)
      case Nil
      then have "ds = ''0''" using x(2) ds by simp
      moreover have "take 1 r = ''x'' \<or> take 1 r = ''X''" using x(1,3) ds Nil by (cases r) auto
      ultimately show False using assms(3) a by auto
    next
      case (Cons d dd)
      then have "base_digit base d \<noteq> None" using assms(1) ds by (simp add: digits_of_def)
      from hex_val_not_space [OF base_digit_16 [OF this]] show False using x(3) ds Cons by simp
    qed
  qed
  then have "strtoull base (ds @ r) = strtoull_digits (ds @ r) False base (ds @ r)"
    using s1 by (auto simp: strtoull_def)
  also have "\<dots> = (word_of_int (digits_value base ds), False, r)"
    using assms c(1) ds read_base_append [of ds base r 0] by (simp add: strtoull_digits_def digits_of_def digits_value_def)
  finally show ?thesis .
qed

end
