(* ===== verification/PP_Expr.thy ===== *)
theory PP_Expr
  imports Macro_Table Strtoull
begin

text \<open>
  The evaluator of \<open>#if\<close> expressions, \<open>src/src/Preprocessor/pp_expr.c\<close>: a recursive-descent parser that
  computes while it parses, with an evaluation flag that is off in the branches C does not evaluate.
  The parser state is the tokens from the cursor on and the error flag. A run is \<open>Ret\<close>, or \<open>Stuck\<close> where
  the code's signed 64-bit arithmetic is undefined, or \<open>OutOfFuel\<close>: the nesting of the recursion and each
  loop carry a bound, which \<open>PP_Expr_Props\<close> shows is never reached.
\<close>

section \<open>Runs\<close>

datatype 'a run = Stuck | OutOfFuel | Ret 'a

fun run_bind :: "'a run \<Rightarrow> ('a \<Rightarrow> 'b run) \<Rightarrow> 'b run" where
  "run_bind Stuck f = Stuck"
| "run_bind OutOfFuel f = OutOfFuel"
| "run_bind (Ret a) f = f a"

section \<open>Values\<close>

record PPValue =
  bits :: u64
  isUnsigned :: bool

definition pp_value_signed :: "int \<Rightarrow> PPValue" where
  "pp_value_signed i = \<lparr>bits = word_of_int i, isUnsigned = False\<rparr>"

definition pp_value_unsigned :: "u64 \<Rightarrow> PPValue" where
  "pp_value_unsigned w = \<lparr>bits = w, isUnsigned = True\<rparr>"

definition pp_value_bool :: "bool \<Rightarrow> PPValue" where
  "pp_value_bool b = pp_value_signed (if b then 1 else 0)"

definition pp_value_as_signed :: "PPValue \<Rightarrow> int" where
  "pp_value_as_signed v = sint (bits v)"

definition pp_value_as_unsigned :: "PPValue \<Rightarrow> u64" where
  "pp_value_as_unsigned v = bits v"

definition pp_value_truthy :: "PPValue \<Rightarrow> bool" where
  "pp_value_truthy v \<longleftrightarrow> bits v \<noteq> 0"

definition pp_value_use_unsigned :: "PPValue \<Rightarrow> PPValue \<Rightarrow> bool" where
  "pp_value_use_unsigned a b \<longleftrightarrow> isUnsigned a \<or> isUnsigned b"

text \<open>A signed result is undefined when it does not fit \<open>int64_t\<close>.\<close>

definition signed_result :: "int \<Rightarrow> PPValue run" where
  "signed_result i = (if fits_int64 i then Ret (pp_value_signed i) else Stuck)"

text \<open>C's division truncates toward zero.\<close>

definition c_div :: "int \<Rightarrow> int \<Rightarrow> int" where
  "c_div a b = sgn a * sgn b * (\<bar>a\<bar> div \<bar>b\<bar>)"

definition c_mod :: "int \<Rightarrow> int \<Rightarrow> int" where
  "c_mod a b = a - c_div a b * b"

section \<open>The parser state\<close>

record PPExprParser =
  pe_rest :: "Token list"
  pe_error :: bool

definition parser_peek :: "PPExprParser \<Rightarrow> Token option" where
  "parser_peek p = (case pe_rest p of [] \<Rightarrow> None | t # ts \<Rightarrow> Some t)"

definition token_is_pp_identifier :: "Token option \<Rightarrow> bool" where
  "token_is_pp_identifier tok \<longleftrightarrow>
    (case tok of None \<Rightarrow> False | Some t \<Rightarrow> tk_value t \<noteq> None \<and> tk_type t \<le> TOKEN_IDENTIFIER)"

definition parser_advance :: "PPExprParser \<Rightarrow> PPExprParser" where
  "parser_advance p =
    (case pe_rest p of [] \<Rightarrow> p
     | t # ts \<Rightarrow> if tk_type t \<noteq> TOKEN_EOF then p\<lparr>pe_rest := ts\<rparr> else p\<lparr>pe_rest := []\<rparr>)"

definition parser_match :: "TokenType \<Rightarrow> PPExprParser \<Rightarrow> PPExprParser \<times> bool" where
  "parser_match ty p =
    (case parser_peek p of
       Some t \<Rightarrow> if tk_type t = ty then (parser_advance p, True) else (p, False)
     | None \<Rightarrow> (p, False))"

definition parser_consume_trailing :: "PPExprParser \<Rightarrow> PPExprParser" where
  "parser_consume_trailing p = p\<lparr>pe_rest := dropWhile (\<lambda>t. tk_type t = TOKEN_EOF) (pe_rest p)\<rparr>"

definition parser_is_done :: "PPExprParser \<Rightarrow> bool" where
  "parser_is_done p \<longleftrightarrow> pe_rest (parser_consume_trailing p) = []"

definition pe_fail :: "PPExprParser \<Rightarrow> PPExprParser" where
  "pe_fail p = p\<lparr>pe_error := True\<rparr>"

section \<open>Integer tokens\<close>

definition parse_integer_token :: "Token \<Rightarrow> PPValue \<times> bool" where
  "parse_integer_token tok =
    (case tk_value tok of
       None \<Rightarrow> (pp_value_signed 0, False)
     | Some text \<Rightarrow>
        (let hasUnsignedSuffix = list_ex (\<lambda>c. c = CHR ''u'' \<or> c = CHR ''U'') text;
             (raw, erange, r) = strtoull0 text;
             end = dropWhile is_alpha r
         in if erange \<or> end \<noteq> [] then (pp_value_signed 0, False)
            else if hasUnsignedSuffix \<or> uint raw > 2 ^ 63 - 1 then (pp_value_unsigned raw, True)
            else (pp_value_signed (uint raw), True)))"

section \<open>The grammar, from the bottom up\<close>

type_synonym pp_parser = "bool \<Rightarrow> PPExprParser \<Rightarrow> (PPValue \<times> PPExprParser) run"

abbreviation zero_value :: PPValue where
  "zero_value \<equiv> pp_value_signed 0"

text \<open>\<open>macros\<close> is the evaluator's table, if any; \<open>rec\<close> is \<open>parse_conditional\<close>.\<close>

definition parse_defined :: "MacroTable option \<Rightarrow> bool \<Rightarrow> PPExprParser \<Rightarrow> PPValue \<times> PPExprParser" where
  "parse_defined macros eval p0 =
    (let p1 = parser_advance p0;
         (p2, hasParen) = parser_match TOKEN_LPAREN p1
     in case parser_peek p2 of
          None \<Rightarrow> (zero_value, pe_fail p2)
        | Some idTok \<Rightarrow>
            if \<not> token_is_pp_identifier (Some idTok) then (zero_value, pe_fail p2)
            else
              let p3 = parser_advance p2;
                  (p4, closed) = (if hasParen then parser_match TOKEN_RPAREN p3 else (p3, True))
              in if hasParen \<and> \<not> closed then (zero_value, pe_fail p4)
                 else if \<not> eval then (zero_value, p4)
                 else (pp_value_bool (case macros of None \<Rightarrow> False
                         | Some t \<Rightarrow> macro_table_lookup t (tk_value idTok) \<noteq> None), p4))"

definition parse_primary :: "MacroTable option \<Rightarrow> pp_parser \<Rightarrow> pp_parser" where
  "parse_primary macros rec eval p =
    (case parser_peek p of
       None \<Rightarrow> Ret (zero_value, pe_fail p)
     | Some tok \<Rightarrow>
        if tk_type tok = TOKEN_IDENTIFIER \<and> tk_value tok = Some ''defined'' then Ret (parse_defined macros eval p)
        else if tk_type tok = TOKEN_NUMBER \<or> tk_type tok = TOKEN_CHAR_LITERAL then
          (let p1 = parser_advance p
           in if \<not> eval then Ret (zero_value, p1)
              else let (v, ok) = parse_integer_token tok in Ret (v, if ok then p1 else pe_fail p1))
        else if tk_type tok = TOKEN_IDENTIFIER then Ret (zero_value, parser_advance p)
        else if tk_type tok = TOKEN_LPAREN then
          run_bind (rec eval (parser_advance p))
            (\<lambda>(v, p1). let (p2, closed) = parser_match TOKEN_RPAREN p1
                       in Ret (if eval then v else zero_value, if closed then p2 else pe_fail p2))
        else Ret (zero_value, pe_fail p))"

definition apply_unary :: "TokenType \<Rightarrow> PPValue \<Rightarrow> PPValue run" where
  "apply_unary op v =
    (if op = TOKEN_PLUS then Ret v
     else if op = TOKEN_MINUS then
       (if isUnsigned v then Ret (pp_value_unsigned (0 - bits v)) else signed_result (- pp_value_as_signed v))
     else if op = TOKEN_LOGICAL_NOT then Ret (pp_value_bool (\<not> pp_value_truthy v))
     else
       (if isUnsigned v then Ret (pp_value_unsigned (NOT (bits v)))
        else Ret (pp_value_signed (NOT (pp_value_as_signed v)))))"

definition is_unary_op :: "TokenType \<Rightarrow> bool" where
  "is_unary_op ty \<longleftrightarrow> ty = TOKEN_PLUS \<or> ty = TOKEN_MINUS \<or> ty = TOKEN_LOGICAL_NOT \<or> ty = TOKEN_BITWISE_NOT"

text \<open>The recursion consumes one operator token at a time; \<open>err\<close> is the error flag.\<close>

fun parse_unary_list ::
    "MacroTable option \<Rightarrow> pp_parser \<Rightarrow> bool \<Rightarrow> bool \<Rightarrow> Token list \<Rightarrow> (PPValue \<times> PPExprParser) run" where
  "parse_unary_list macros rec eval err [] = parse_primary macros rec eval \<lparr>pe_rest = [], pe_error = err\<rparr>"
| "parse_unary_list macros rec eval err (tok # ts) =
    (if is_unary_op (tk_type tok) then
       run_bind (parse_unary_list macros rec eval err ts)
         (\<lambda>(v, p). if eval \<or> tk_type tok = TOKEN_PLUS
                   then run_bind (apply_unary (tk_type tok) v) (\<lambda>v'. Ret (v', p))
                   else Ret (zero_value, p))
     else parse_primary macros rec eval \<lparr>pe_rest = tok # ts, pe_error = err\<rparr>)"

definition parse_unary :: "MacroTable option \<Rightarrow> pp_parser \<Rightarrow> pp_parser" where
  "parse_unary macros rec eval p = parse_unary_list macros rec eval (pe_error p) (pe_rest p)"

text \<open>
  The loop that every binary level runs: while there is no error and the next token is one of the
  level's operators, parse an operand of the next level and combine. \<open>rhs_eval\<close> says whether the operand
  is evaluated, given the value so far; \<open>apply\<close> returns the combined value and whether it is an error.
\<close>

fun binary_loop ::
    "(TokenType \<Rightarrow> bool) \<Rightarrow> (bool \<Rightarrow> PPValue \<Rightarrow> bool) \<Rightarrow> (TokenType \<Rightarrow> PPValue \<Rightarrow> PPValue \<Rightarrow> (PPValue \<times> bool) run) \<Rightarrow>
     pp_parser \<Rightarrow> bool \<Rightarrow> nat \<Rightarrow> PPValue \<Rightarrow> PPExprParser \<Rightarrow> (PPValue \<times> PPExprParser) run" where
  "binary_loop is_op rhs_eval app sub eval 0 v p = OutOfFuel"
| "binary_loop is_op rhs_eval app sub eval (Suc fuel) v p =
    (if pe_error p then Ret (v, p)
     else case parser_peek p of
         None \<Rightarrow> Ret (v, p)
       | Some tok \<Rightarrow>
           if \<not> is_op (tk_type tok) then Ret (v, p)
           else
             run_bind (sub (rhs_eval eval v) (parser_advance p))
               (\<lambda>(rhs, p1).
                 if eval then
                   run_bind (app (tk_type tok) v rhs)
                     (\<lambda>(v', e). binary_loop is_op rhs_eval app sub eval fuel v' (if e then pe_fail p1 else p1))
                 else binary_loop is_op rhs_eval app sub eval fuel v p1))"

definition binary_level ::
    "(TokenType \<Rightarrow> bool) \<Rightarrow> (bool \<Rightarrow> PPValue \<Rightarrow> bool) \<Rightarrow> (TokenType \<Rightarrow> PPValue \<Rightarrow> PPValue \<Rightarrow> (PPValue \<times> bool) run) \<Rightarrow>
     pp_parser \<Rightarrow> pp_parser" where
  "binary_level is_op rhs_eval app sub eval p =
    run_bind (sub eval p)
      (\<lambda>(v, p1). run_bind (binary_loop is_op rhs_eval app sub eval (Suc (length (pe_rest p1))) v p1)
        (\<lambda>(v', p2). Ret (if eval then v' else zero_value, p2)))"

definition same_eval :: "bool \<Rightarrow> PPValue \<Rightarrow> bool" where
  "same_eval eval v = eval"

definition value_ok :: "PPValue run \<Rightarrow> (PPValue \<times> bool) run" where
  "value_ok r = run_bind r (\<lambda>v. Ret (v, False))"

definition is_multiplicative_op :: "TokenType \<Rightarrow> bool" where
  "is_multiplicative_op ty \<longleftrightarrow> ty = TOKEN_ASTERISK \<or> ty = TOKEN_DIVIDE \<or> ty = TOKEN_MODULO"

definition apply_multiplicative :: "TokenType \<Rightarrow> PPValue \<Rightarrow> PPValue \<Rightarrow> (PPValue \<times> bool) run" where
  "apply_multiplicative op v rhs =
    (if (op = TOKEN_DIVIDE \<or> op = TOKEN_MODULO) \<and> \<not> pp_value_truthy rhs then Ret (zero_value, True)
     else value_ok
       (if pp_value_use_unsigned v rhs then
          (let a = pp_value_as_unsigned v; b = pp_value_as_unsigned rhs
           in Ret (pp_value_unsigned (if op = TOKEN_ASTERISK then a * b else if op = TOKEN_DIVIDE then a div b else a mod b)))
        else
          (let a = pp_value_as_signed v; b = pp_value_as_signed rhs
           in if op = TOKEN_ASTERISK then signed_result (a * b)
              else if \<not> fits_int64 (c_div a b) then Stuck
              else Ret (pp_value_signed (if op = TOKEN_DIVIDE then c_div a b else c_mod a b)))))"

definition parse_multiplicative :: "MacroTable option \<Rightarrow> pp_parser \<Rightarrow> pp_parser" where
  "parse_multiplicative macros rec =
    binary_level is_multiplicative_op same_eval apply_multiplicative (parse_unary macros rec)"

definition is_additive_op :: "TokenType \<Rightarrow> bool" where
  "is_additive_op ty \<longleftrightarrow> ty = TOKEN_PLUS \<or> ty = TOKEN_MINUS"

definition apply_additive :: "TokenType \<Rightarrow> PPValue \<Rightarrow> PPValue \<Rightarrow> (PPValue \<times> bool) run" where
  "apply_additive op v rhs = value_ok
    (if pp_value_use_unsigned v rhs then
       Ret (pp_value_unsigned (if op = TOKEN_PLUS then pp_value_as_unsigned v + pp_value_as_unsigned rhs
                               else pp_value_as_unsigned v - pp_value_as_unsigned rhs))
     else
       signed_result (if op = TOKEN_PLUS then pp_value_as_signed v + pp_value_as_signed rhs
                      else pp_value_as_signed v - pp_value_as_signed rhs))"

definition parse_additive :: "MacroTable option \<Rightarrow> pp_parser \<Rightarrow> pp_parser" where
  "parse_additive macros rec =
    binary_level is_additive_op same_eval apply_additive (parse_multiplicative macros rec)"

definition is_shift_op :: "TokenType \<Rightarrow> bool" where
  "is_shift_op ty \<longleftrightarrow> ty = TOKEN_LEFT_SHIFT \<or> ty = TOKEN_RIGHT_SHIFT"

text \<open>
  The amount is taken modulo 64. A left shift of a negative number, or one whose result does not fit, is
  undefined; a right shift of a negative number is arithmetic, as the supported compilers define it.
\<close>

definition apply_shift :: "TokenType \<Rightarrow> PPValue \<Rightarrow> PPValue \<Rightarrow> (PPValue \<times> bool) run" where
  "apply_shift op v rhs = value_ok
    (let amount = unat (pp_value_as_unsigned rhs AND 63) in
     if op = TOKEN_LEFT_SHIFT then
       (if isUnsigned v then Ret (pp_value_unsigned (push_bit amount (pp_value_as_unsigned v)))
        else if pp_value_as_signed v < 0 then Stuck
        else signed_result (pp_value_as_signed v * 2 ^ amount))
     else
       (if isUnsigned v then Ret (pp_value_unsigned (drop_bit amount (pp_value_as_unsigned v)))
        else Ret (pp_value_signed (pp_value_as_signed v div 2 ^ amount))))"

definition parse_shift :: "MacroTable option \<Rightarrow> pp_parser \<Rightarrow> pp_parser" where
  "parse_shift macros rec = binary_level is_shift_op same_eval apply_shift (parse_additive macros rec)"

definition is_relational_op :: "TokenType \<Rightarrow> bool" where
  "is_relational_op ty \<longleftrightarrow>
    ty = TOKEN_LESS \<or> ty = TOKEN_LESS_EQUAL \<or> ty = TOKEN_GREATER \<or> ty = TOKEN_GREATER_EQUAL"

definition compare_values :: "TokenType \<Rightarrow> 'a::linorder \<Rightarrow> 'a \<Rightarrow> bool" where
  "compare_values op a b =
    (if op = TOKEN_LESS then a < b else if op = TOKEN_LESS_EQUAL then a \<le> b
     else if op = TOKEN_GREATER then a > b else a \<ge> b)"

definition apply_relational :: "TokenType \<Rightarrow> PPValue \<Rightarrow> PPValue \<Rightarrow> (PPValue \<times> bool) run" where
  "apply_relational op v rhs = value_ok (Ret (pp_value_bool
    (if pp_value_use_unsigned v rhs then compare_values op (pp_value_as_unsigned v) (pp_value_as_unsigned rhs)
     else compare_values op (pp_value_as_signed v) (pp_value_as_signed rhs))))"

definition parse_relational :: "MacroTable option \<Rightarrow> pp_parser \<Rightarrow> pp_parser" where
  "parse_relational macros rec =
    binary_level is_relational_op same_eval apply_relational (parse_shift macros rec)"

definition is_equality_op :: "TokenType \<Rightarrow> bool" where
  "is_equality_op ty \<longleftrightarrow> ty = TOKEN_EQUAL \<or> ty = TOKEN_NOT_EQUAL"

definition apply_equality :: "TokenType \<Rightarrow> PPValue \<Rightarrow> PPValue \<Rightarrow> (PPValue \<times> bool) run" where
  "apply_equality op v rhs =
    (let equal = (if pp_value_use_unsigned v rhs then pp_value_as_unsigned v = pp_value_as_unsigned rhs
                  else pp_value_as_signed v = pp_value_as_signed rhs)
     in value_ok (Ret (pp_value_bool (if op = TOKEN_EQUAL then equal else \<not> equal))))"

definition parse_equality :: "MacroTable option \<Rightarrow> pp_parser \<Rightarrow> pp_parser" where
  "parse_equality macros rec =
    binary_level is_equality_op same_eval apply_equality (parse_relational macros rec)"

text \<open>The three bitwise levels differ in the operator only.\<close>

definition apply_bits :: "(u64 \<Rightarrow> u64 \<Rightarrow> u64) \<Rightarrow> TokenType \<Rightarrow> PPValue \<Rightarrow> PPValue \<Rightarrow> (PPValue \<times> bool) run" where
  "apply_bits f op v rhs = value_ok
    (let b = f (pp_value_as_unsigned v) (pp_value_as_unsigned rhs)
     in Ret (if pp_value_use_unsigned v rhs then pp_value_unsigned b else pp_value_signed (sint b)))"

definition parse_bitwise_and :: "MacroTable option \<Rightarrow> pp_parser \<Rightarrow> pp_parser" where
  "parse_bitwise_and macros rec =
    binary_level (\<lambda>ty. ty = TOKEN_BITWISE_AND) same_eval (apply_bits (AND)) (parse_equality macros rec)"

definition parse_bitwise_xor :: "MacroTable option \<Rightarrow> pp_parser \<Rightarrow> pp_parser" where
  "parse_bitwise_xor macros rec =
    binary_level (\<lambda>ty. ty = TOKEN_BITWISE_XOR) same_eval (apply_bits (XOR)) (parse_bitwise_and macros rec)"

definition parse_bitwise_or :: "MacroTable option \<Rightarrow> pp_parser \<Rightarrow> pp_parser" where
  "parse_bitwise_or macros rec =
    binary_level (\<lambda>ty. ty = TOKEN_BITWISE_OR) same_eval (apply_bits (OR)) (parse_bitwise_xor macros rec)"

definition apply_logical_and :: "TokenType \<Rightarrow> PPValue \<Rightarrow> PPValue \<Rightarrow> (PPValue \<times> bool) run" where
  "apply_logical_and op v rhs = value_ok (Ret (pp_value_bool (pp_value_truthy v \<and> pp_value_truthy rhs)))"

definition parse_logical_and :: "MacroTable option \<Rightarrow> pp_parser \<Rightarrow> pp_parser" where
  "parse_logical_and macros rec =
    binary_level (\<lambda>ty. ty = TOKEN_LOGICAL_AND) (\<lambda>eval v. eval \<and> pp_value_truthy v) apply_logical_and
      (parse_bitwise_or macros rec)"

definition apply_logical_or :: "TokenType \<Rightarrow> PPValue \<Rightarrow> PPValue \<Rightarrow> (PPValue \<times> bool) run" where
  "apply_logical_or op v rhs = value_ok (Ret (pp_value_bool (pp_value_truthy v \<or> pp_value_truthy rhs)))"

definition parse_logical_or :: "MacroTable option \<Rightarrow> pp_parser \<Rightarrow> pp_parser" where
  "parse_logical_or macros rec =
    binary_level (\<lambda>ty. ty = TOKEN_LOGICAL_OR) (\<lambda>eval v. eval \<and> \<not> pp_value_truthy v) apply_logical_or
      (parse_logical_and macros rec)"

text \<open>What follows the condition of a \<open>parse_conditional\<close>: the two branches of \<open>?:\<close>, if any.\<close>

definition conditional_false :: "pp_parser \<Rightarrow> bool \<Rightarrow> PPValue \<Rightarrow> PPValue \<Rightarrow> PPExprParser \<Rightarrow> (PPValue \<times> PPExprParser) run" where
  "conditional_false rec eval condition trueValue p2 =
    (let (p3, colon) = parser_match TOKEN_COLON p2
     in if \<not> colon then Ret (zero_value, pe_fail p3)
        else
          run_bind (rec (eval \<and> \<not> pp_value_truthy condition) p3)
            (\<lambda>(falseValue, p4).
              Ret (if \<not> eval then zero_value
                   else if pp_value_truthy condition then trueValue else falseValue, p4)))"

definition conditional_rest :: "pp_parser \<Rightarrow> bool \<Rightarrow> PPValue \<Rightarrow> PPExprParser \<Rightarrow> (PPValue \<times> PPExprParser) run" where
  "conditional_rest rec eval condition p1 =
    (case parser_peek p1 of
       None \<Rightarrow> Ret (if eval then condition else zero_value, p1)
     | Some tok \<Rightarrow>
         if tk_type tok \<noteq> TOKEN_QUESTION then Ret (if eval then condition else zero_value, p1)
         else
           run_bind (rec (eval \<and> pp_value_truthy condition) (parser_advance p1))
             (\<lambda>(trueValue, p2). conditional_false rec eval condition trueValue p2))"

text \<open>The fuel bounds the nesting of parentheses and conditionals.\<close>

fun parse_conditional :: "MacroTable option \<Rightarrow> nat \<Rightarrow> pp_parser" where
  "parse_conditional macros 0 eval p = OutOfFuel"
| "parse_conditional macros (Suc n) eval p =
    run_bind (parse_logical_or macros (parse_conditional macros n) eval p)
      (\<lambda>(condition, p1). conditional_rest (parse_conditional macros n) eval condition p1)"

section \<open>Entry points\<close>

text \<open>The result is converted to \<open>int32_t\<close>. \<open>Ret None\<close> is failure, with the output set to 0.\<close>

definition to_int32 :: "u64 \<Rightarrow> int" where
  "to_int32 w = sint (ucast w :: 32 word)"

definition pp_expr_eval_tokens :: "MacroTable option \<Rightarrow> Token list \<Rightarrow> int option run" where
  "pp_expr_eval_tokens macros tokens =
    (if tokens = [] then Ret None
     else run_bind (parse_conditional macros (Suc (length tokens)) True \<lparr>pe_rest = tokens, pe_error = False\<rparr>)
       (\<lambda>(v, p). Ret (if \<not> pe_error p \<and> parser_is_done p then Some (to_int32 (bits v)) else None)))"

definition pp_expr_eval_range :: "MacroTable option \<Rightarrow> TokenBuffer \<Rightarrow> nat \<Rightarrow> nat \<Rightarrow> int option run" where
  "pp_expr_eval_range macros buffer start end =
    (if start > length buffer \<or> start > end \<or> end > length buffer then Ret None
     else if end - start = 0 then Ret None
     else pp_expr_eval_tokens macros (take (end - start) (drop start buffer)))"

end
