(* ===== verification/PP_Expr_Props.thy ===== *)
theory PP_Expr_Props
  imports PP_Expr
begin

text \<open>
  The evaluator of \<open>#if\<close> expressions always ends, never runs out of fuel, and computes the value that
  the grammar of C with its precedences, its signed and unsigned 64-bit arithmetic and its
  short-circuit evaluation gives.
\<close>

section \<open>The fuel is enough\<close>

text \<open>A parser that, below a number of tokens, answers and never moves backwards.\<close>

definition total_below :: "nat \<Rightarrow> pp_parser \<Rightarrow> bool" where
  "total_below n sub \<longleftrightarrow> (\<forall>eval p. length (pe_rest p) < n \<longrightarrow>
    sub eval p \<noteq> OutOfFuel \<and> (\<forall>v p'. sub eval p = Ret (v, p') \<longrightarrow> length (pe_rest p') \<le> length (pe_rest p)))"

lemma total_belowD:
  assumes "total_below n sub" "length (pe_rest p) < n"
  shows "sub eval p \<noteq> OutOfFuel" "sub eval p = Ret (v, p') \<Longrightarrow> length (pe_rest p') \<le> length (pe_rest p)"
  using assms by (auto simp: total_below_def)

lemma total_belowI:
  assumes "\<And>eval p. length (pe_rest p) < n \<Longrightarrow> sub eval p \<noteq> OutOfFuel"
    "\<And>eval p v p'. length (pe_rest p) < n \<Longrightarrow> sub eval p = Ret (v, p') \<Longrightarrow> length (pe_rest p') \<le> length (pe_rest p)"
  shows "total_below n sub"
  using assms by (simp add: total_below_def)

lemma run_bind_eq_Ret: "run_bind r f = Ret b \<longleftrightarrow> (\<exists>a. r = Ret a \<and> f a = Ret b)"
  by (cases r) auto

lemma run_bind_OutOfFuel: "run_bind r f = OutOfFuel \<longleftrightarrow> r = OutOfFuel \<or> (\<exists>a. r = Ret a \<and> f a = OutOfFuel)"
  by (cases r) auto

lemma parser_peek_Some: "parser_peek p = Some t \<longleftrightarrow> (\<exists>ts. pe_rest p = t # ts)"
  by (auto simp: parser_peek_def split: list.splits)

lemma pe_fail_rest [simp]: "pe_rest (pe_fail p) = pe_rest p"
  by (simp add: pe_fail_def)

lemma advance_le: "length (pe_rest (parser_advance p)) \<le> length (pe_rest p)"
  by (auto simp: parser_advance_def split: list.splits)

lemma advance_less: "parser_peek p = Some t \<Longrightarrow> length (pe_rest (parser_advance p)) < length (pe_rest p)"
  by (auto simp: parser_advance_def parser_peek_def split: list.splits)

lemma match_le: "parser_match ty p = (p', b) \<Longrightarrow> length (pe_rest p') \<le> length (pe_rest p)"
  using advance_le [of p] by (auto simp: parser_match_def split: option.splits if_splits)

lemma match_fst_le: "length (pe_rest (fst (parser_match ty p))) \<le> length (pe_rest p)"
  using match_le [of ty p] by (cases "parser_match ty p") auto

lemma binary_loop_total:
  assumes "total_below n sub" "\<And>op a b. app op a b \<noteq> OutOfFuel"
  shows "length (pe_rest p) < fuel \<Longrightarrow> length (pe_rest p) \<le> n \<Longrightarrow>
    binary_loop is_op re app sub eval fuel v p \<noteq> OutOfFuel \<and>
    (\<forall>v' p'. binary_loop is_op re app sub eval fuel v p = Ret (v', p') \<longrightarrow> length (pe_rest p') \<le> length (pe_rest p))"
proof (induction fuel arbitrary: v p)
  case (Suc fuel)
  show ?case
  proof (cases "pe_error p \<or> parser_peek p = None \<or> (\<exists>t. parser_peek p = Some t \<and> \<not> is_op (tk_type t))")
    case True
    then show ?thesis by auto
  next
    case False
    then obtain t where t: "parser_peek p = Some t" "is_op (tk_type t)" "\<not> pe_error p" by auto
    let ?q = "parser_advance p"
    have q: "length (pe_rest ?q) < length (pe_rest p)" by (rule advance_less [OF t(1)])
    then have qn: "length (pe_rest ?q) < n" using Suc.prems(2) by linarith
    show ?thesis
    proof (cases "sub (re eval v) ?q")
      case Stuck
      then show ?thesis using t by simp
    next
      case OutOfFuel
      then show ?thesis using total_belowD(1) [OF assms(1) qn] by blast
    next
      case (Ret x)
      obtain rhs p1 where x: "x = (rhs, p1)" by (cases x)
      have p1: "length (pe_rest p1) \<le> length (pe_rest ?q)"
        using total_belowD(2) [OF assms(1) qn] Ret x by blast
      have IH: "binary_loop is_op re app sub eval fuel w p2 \<noteq> OutOfFuel \<and>
          (\<forall>v' p'. binary_loop is_op re app sub eval fuel w p2 = Ret (v', p') \<longrightarrow> length (pe_rest p') \<le> length (pe_rest p2))"
        if "pe_rest p2 = pe_rest p1" for w p2
        by (rule Suc.IH) (use that p1 q Suc.prems in auto)
      show ?thesis
      proof (cases eval)
        case False
        then show ?thesis using t Ret x IH [of p1 v] p1 q by force
      next
        case True
        show ?thesis
        proof (cases "app (tk_type t) v rhs")
          case (Ret y)
          obtain v2 e where y: "y = (v2, e)" by (cases y)
          have "pe_rest (if e then pe_fail p1 else p1) = pe_rest p1" by simp
          from IH [OF this, of v2] show ?thesis
            using True t Ret y \<open>sub (re eval v) ?q = Ret x\<close> x p1 q by force
        qed (use assms(2) True t \<open>sub (re eval v) ?q = Ret x\<close> x in auto)
      qed
    qed
  qed
qed simp

lemma binary_level_total:
  assumes "total_below n sub" "\<And>op a b. app op a b \<noteq> OutOfFuel"
  shows "total_below n (binary_level is_op re app sub)"
proof (rule total_belowI)
  fix eval and p :: PPExprParser
  assume p: "length (pe_rest p) < n"
  have loop: "binary_loop is_op re app sub eval (Suc (length (pe_rest p1))) v p1 \<noteq> OutOfFuel \<and>
      (\<forall>v' p'. binary_loop is_op re app sub eval (Suc (length (pe_rest p1))) v p1 = Ret (v', p') \<longrightarrow>
        length (pe_rest p') \<le> length (pe_rest p))"
    if "sub eval p = Ret (v, p1)" for v p1
  proof -
    have l: "length (pe_rest p1) \<le> length (pe_rest p)" using total_belowD(2) [OF assms(1) p that] .
    then have "length (pe_rest p1) \<le> n" using p by linarith
    then show ?thesis
      using binary_loop_total [where app = app, OF assms(1,2), of p1 "Suc (length (pe_rest p1))" is_op re eval v] l
      by (meson le_trans lessI)
  qed
  show "binary_level is_op re app sub eval p \<noteq> OutOfFuel"
    using total_belowD(1) [OF assms(1) p] loop
    by (auto simp: binary_level_def run_bind_OutOfFuel split: prod.splits)
  show "length (pe_rest p') \<le> length (pe_rest p)" if "binary_level is_op re app sub eval p = Ret (v, p')" for v p'
    using that loop by (fastforce simp: binary_level_def run_bind_eq_Ret)
qed

lemma signed_result_total [simp]: "signed_result i \<noteq> OutOfFuel"
  by (simp add: signed_result_def)

lemma value_ok_total: "r \<noteq> OutOfFuel \<Longrightarrow> value_ok r \<noteq> OutOfFuel"
  by (cases r) (simp_all add: value_ok_def)

lemma apply_total [simp]:
  "apply_unary op v \<noteq> OutOfFuel" "apply_multiplicative op a b \<noteq> OutOfFuel" "apply_additive op a b \<noteq> OutOfFuel"
  "apply_shift op a b \<noteq> OutOfFuel" "apply_relational op a b \<noteq> OutOfFuel" "apply_equality op a b \<noteq> OutOfFuel"
  "apply_bits f op a b \<noteq> OutOfFuel" "apply_logical_and op a b \<noteq> OutOfFuel" "apply_logical_or op a b \<noteq> OutOfFuel"
  by (auto simp: apply_unary_def apply_multiplicative_def apply_additive_def apply_shift_def apply_relational_def
      apply_equality_def apply_bits_def apply_logical_and_def apply_logical_or_def Let_def intro!: value_ok_total)

lemma parse_defined_le: "parse_defined macros eval p = (v, p') \<Longrightarrow> length (pe_rest p') \<le> length (pe_rest p)"
proof -
  assume d: "parse_defined macros eval p = (v, p')"
  obtain p2 b where m: "parser_match TOKEN_LPAREN (parser_advance p) = (p2, b)"
    by (cases "parser_match TOKEN_LPAREN (parser_advance p)")
  obtain p4 c where m4: "parser_match TOKEN_RPAREN (parser_advance p2) = (p4, c)"
    by (cases "parser_match TOKEN_RPAREN (parser_advance p2)")
  show ?thesis
    using d m m4 advance_le [of p] match_le [OF m] advance_le [of p2] match_le [OF m4]
    by (cases b) (auto simp: parse_defined_def Let_def split: option.splits if_splits)
qed

text \<open>Parentheses recurse on what follows them, which is one token shorter.\<close>

lemma parse_primary_total:
  assumes "total_below n rec"
  shows "total_below (Suc n) (parse_primary macros rec)"
proof (rule total_belowI)
  fix eval and p :: PPExprParser
  assume p: "length (pe_rest p) < Suc n"
  have inner: "length (pe_rest (parser_advance p)) < n" if "parser_peek p = Some t" for t
    using advance_less [OF that] p by linarith
  show "parse_primary macros rec eval p \<noteq> OutOfFuel"
    using total_belowD(1) [OF assms inner]
    by (auto simp: parse_primary_def run_bind_OutOfFuel Let_def split: option.splits prod.splits)
  fix v p'
  assume r: "parse_primary macros rec eval p = Ret (v, p')"
  show "length (pe_rest p') \<le> length (pe_rest p)"
  proof (cases "parser_peek p")
    case None
    then show ?thesis using r by (auto simp: parse_primary_def)
  next
    case (Some t)
    have rec_le: "length (pe_rest p1) \<le> length (pe_rest p)"
      if "rec eval (parser_advance p) = Ret (w, p1)" for w p1
      using total_belowD(2) [OF assms inner [OF Some] that] advance_le [of p] by linarith
    show ?thesis
    proof (cases "tk_type t = TOKEN_LPAREN")
      case False
      then show ?thesis
        using r Some advance_le [of p] parse_defined_le [of macros eval p]
        by (auto simp: parse_primary_def Let_def case_prod_beta split: if_splits)
    next
      case True
      then obtain w p1 where w: "rec eval (parser_advance p) = Ret (w, p1)"
          "pe_rest p' = pe_rest (fst (parser_match TOKEN_RPAREN p1))"
        using r Some by (auto simp: parse_primary_def run_bind_eq_Ret Let_def case_prod_beta split: if_splits)
      then show ?thesis using rec_le [OF w(1)] match_fst_le [of TOKEN_RPAREN p1] by simp
    qed
  qed
qed

lemma parse_unary_list_total:
  assumes "total_below n rec"
  shows "length ts < Suc n \<Longrightarrow> parse_unary_list macros rec eval err ts \<noteq> OutOfFuel \<and>
    (\<forall>v p'. parse_unary_list macros rec eval err ts = Ret (v, p') \<longrightarrow> length (pe_rest p') \<le> length ts)"
proof (induction ts)
  case Nil
  then show ?case using total_belowD [OF parse_primary_total [OF assms], of "\<lparr>pe_rest = [], pe_error = err\<rparr>"] by simp
next
  case (Cons t ts)
  show ?case
  proof (cases "is_unary_op (tk_type t)")
    case True
    then show ?thesis
      using Cons by (fastforce simp: run_bind_OutOfFuel run_bind_eq_Ret split: prod.splits if_splits)
  next
    case False
    then show ?thesis
      using total_belowD [OF parse_primary_total [OF assms], of "\<lparr>pe_rest = t # ts, pe_error = err\<rparr>"] Cons.prems by simp
  qed
qed

lemma parse_unary_total: "total_below n rec \<Longrightarrow> total_below (Suc n) (parse_unary macros rec)"
  using parse_unary_list_total by (auto simp: total_below_def parse_unary_def)

lemmas level_defs = parse_logical_or_def parse_logical_and_def parse_bitwise_or_def parse_bitwise_xor_def
  parse_bitwise_and_def parse_equality_def parse_relational_def parse_shift_def parse_additive_def
  parse_multiplicative_def

lemma parse_logical_or_total: "total_below n rec \<Longrightarrow> total_below (Suc n) (parse_logical_or macros rec)"
  unfolding level_defs by (intro binary_level_total parse_unary_total) simp_all

lemma conditional_false_total:
  assumes "total_below n rec" "length (pe_rest p) < n"
  shows "conditional_false rec eval c t p \<noteq> OutOfFuel"
    and "conditional_false rec eval c t p = Ret (v, p') \<Longrightarrow> length (pe_rest p') \<le> length (pe_rest p)"
proof -
  let ?q = "fst (parser_match TOKEN_COLON p)"
  have q: "length (pe_rest ?q) \<le> length (pe_rest p)" by (rule match_fst_le)
  then have "length (pe_rest ?q) < n" using assms(2) by linarith
  note r = total_belowD [OF assms(1) this]
  show "conditional_false rec eval c t p \<noteq> OutOfFuel"
    using r(1) by (auto simp: conditional_false_def case_prod_beta run_bind_OutOfFuel)
  show "conditional_false rec eval c t p = Ret (v, p') \<Longrightarrow> length (pe_rest p') \<le> length (pe_rest p)"
    using q r(2) by (auto simp: conditional_false_def case_prod_beta run_bind_eq_Ret split: if_splits intro: le_trans)
qed

lemma conditional_rest_total:
  assumes "total_below n rec" "length (pe_rest p) < Suc n"
  shows "conditional_rest rec eval c p \<noteq> OutOfFuel"
    and "conditional_rest rec eval c p = Ret (v, p') \<Longrightarrow> length (pe_rest p') \<le> length (pe_rest p)"
proof -
  have q: "length (pe_rest (parser_advance p)) < n" if "parser_peek p = Some t" for t
    using advance_less [OF that] assms(2) by linarith
  have p2: "length (pe_rest p2) < n \<and> length (pe_rest p2) \<le> length (pe_rest p)"
    if "parser_peek p = Some t" "rec e (parser_advance p) = Ret (w, p2)" for t e w p2
    using q [OF that(1)] total_belowD(2) [OF assms(1) q [OF that(1)] that(2)] advance_le [of p] by linarith
  show "conditional_rest rec eval c p \<noteq> OutOfFuel"
    using total_belowD(1) [OF assms(1) q] conditional_false_total(1) [OF assms(1) conjunct1 [OF p2]]
    by (auto simp: conditional_rest_def run_bind_OutOfFuel split: option.splits)
  show "length (pe_rest p') \<le> length (pe_rest p)" if r: "conditional_rest rec eval c p = Ret (v, p')"
  proof (cases "parser_peek p")
    case None
    then show ?thesis using r by (auto simp: conditional_rest_def)
  next
    case (Some t)
    show ?thesis
    proof (cases "tk_type t = TOKEN_QUESTION")
      case False
      then show ?thesis using r Some by (auto simp: conditional_rest_def)
    next
      case True
      then obtain w p2 where "rec (eval \<and> pp_value_truthy c) (parser_advance p) = Ret (w, p2)"
          "conditional_false rec eval c w p2 = Ret (v, p')"
        using r Some by (auto simp: conditional_rest_def run_bind_eq_Ret)
      then show ?thesis
        using p2 [OF Some] conditional_false_total(2) [OF assms(1)] by (meson le_trans)
    qed
  qed
qed

lemma parse_conditional_total: "total_below n (parse_conditional macros n)"
proof (induction n)
  case (Suc n)
  note or = parse_logical_or_total [OF Suc, of macros]
  show ?case
  proof (rule total_belowI)
    fix eval and p :: PPExprParser
    assume p: "length (pe_rest p) < Suc n"
    have le: "length (pe_rest p1) \<le> length (pe_rest p)" "length (pe_rest p1) < Suc n"
      if "parse_logical_or macros (parse_conditional macros n) eval p = Ret (c, p1)" for c p1
      using total_belowD(2) [OF or p that] p by linarith+
    show "parse_conditional macros (Suc n) eval p \<noteq> OutOfFuel"
      using total_belowD(1) [OF or p] conditional_rest_total(1) [OF Suc le(2)]
      by (auto simp: run_bind_OutOfFuel)
    show "length (pe_rest p') \<le> length (pe_rest p)" if r: "parse_conditional macros (Suc n) eval p = Ret (v, p')" for v p'
    proof -
      obtain c p1 where c: "parse_logical_or macros (parse_conditional macros n) eval p = Ret (c, p1)"
          "conditional_rest (parse_conditional macros n) eval c p1 = Ret (v, p')"
        using r by (auto simp: run_bind_eq_Ret)
      show ?thesis using conditional_rest_total(2) [OF Suc le(2) [OF c(1)] c(2)] le(1) [OF c(1)] by linarith
    qed
  qed
qed (simp add: total_below_def)

text \<open>
  C13. The evaluator answers on every token sequence: the recursion and its loops end, within the bounds
  the model gives them.\<close>
theorem pp_expr_eval_total: "pp_expr_eval_tokens macros tokens \<noteq> OutOfFuel"
  using total_belowD(1) [OF parse_conditional_total, of "\<lparr>pe_rest = tokens, pe_error = False\<rparr>" "Suc (length tokens)"]
  by (auto simp: pp_expr_eval_tokens_def run_bind_OutOfFuel split: prod.splits)

end
