(* ===== verification/PP_Expr_Grammar.thy ===== *)
theory PP_Expr_Grammar
  imports PP_Expr_Props
begin

text \<open>
  The grammar of \<open>#if\<close> expressions as trees, their tokens and their meaning, and the theorem that the
  evaluator computes the meaning from the tokens. A chain is a maximal sequence of operators of one
  precedence level, evaluated from the left.
\<close>

section \<open>Precedence levels\<close>

type_synonym pp_level =
  "(TokenType \<Rightarrow> bool) \<times> (bool \<Rightarrow> PPValue \<Rightarrow> bool) \<times> (TokenType \<Rightarrow> PPValue \<Rightarrow> PPValue \<Rightarrow> (PPValue \<times> bool) run)"

definition pp_levels :: "pp_level list" where
  "pp_levels =
    [(is_multiplicative_op, same_eval, apply_multiplicative), (is_additive_op, same_eval, apply_additive),
     (is_shift_op, same_eval, apply_shift), (is_relational_op, same_eval, apply_relational),
     (is_equality_op, same_eval, apply_equality),
     (\<lambda>ty. ty = TOKEN_BITWISE_AND, same_eval, apply_bits (AND)),
     (\<lambda>ty. ty = TOKEN_BITWISE_XOR, same_eval, apply_bits (XOR)),
     (\<lambda>ty. ty = TOKEN_BITWISE_OR, same_eval, apply_bits (OR)),
     (\<lambda>ty. ty = TOKEN_LOGICAL_AND, \<lambda>eval v. eval \<and> pp_value_truthy v, apply_logical_and),
     (\<lambda>ty. ty = TOKEN_LOGICAL_OR, \<lambda>eval v. eval \<and> \<not> pp_value_truthy v, apply_logical_or)]"

definition lop :: "nat \<Rightarrow> TokenType \<Rightarrow> bool" where "lop k = fst (pp_levels ! k)"
definition leval :: "nat \<Rightarrow> bool \<Rightarrow> PPValue \<Rightarrow> bool" where "leval k = fst (snd (pp_levels ! k))"
definition lapp :: "nat \<Rightarrow> TokenType \<Rightarrow> PPValue \<Rightarrow> PPValue \<Rightarrow> (PPValue \<times> bool) run" where
  "lapp k = snd (snd (pp_levels ! k))"

text \<open>The parser for everything that binds tighter than level \<open>n\<close>.\<close>

primrec parser_at :: "MacroTable option \<Rightarrow> pp_parser \<Rightarrow> nat \<Rightarrow> pp_parser" where
  "parser_at macros rec 0 = parse_unary macros rec"
| "parser_at macros rec (Suc k) = binary_level (lop k) (leval k) (lapp k) (parser_at macros rec k)"

lemma parse_logical_or_at: "parse_logical_or macros rec = parser_at macros rec 10"
  by (simp add: level_defs lop_def leval_def lapp_def pp_levels_def eval_nat_numeral)

lemma less_10_cases: "k < 10 \<Longrightarrow> k \<in> {0, 1, 2, 3, 4, 5, 6, 7, 8, 9 :: nat}"
  by auto

lemma lop_types:
  assumes "k < 10" "lop k ty"
  shows "ty \<noteq> TOKEN_EOF" "ty \<noteq> TOKEN_QUESTION" "ty \<noteq> TOKEN_COLON" "ty \<noteq> TOKEN_RPAREN"
  using less_10_cases [OF assms(1)] assms(2)
  by (auto simp: lop_def pp_levels_def is_multiplicative_op_def is_additive_op_def is_shift_op_def
      is_relational_op_def is_equality_op_def)

lemma lop_disjoint:
  assumes "j < 10" "k < 10" "lop j ty" "lop k ty"
  shows "j = k"
  using less_10_cases [OF assms(1)] less_10_cases [OF assms(2)] assms(3,4)
  by (auto simp: lop_def pp_levels_def is_multiplicative_op_def is_additive_op_def is_shift_op_def
      is_relational_op_def is_equality_op_def)

lemma leval_False [simp]: "k < 10 \<Longrightarrow> leval k False v = False"
  using less_10_cases [of k] by (auto simp: leval_def pp_levels_def same_eval_def)

section \<open>Expressions\<close>

datatype pexpr =
    PNum Token
  | PName Token
  | PDefined Token Token
  | PDefinedParen Token Token Token Token
  | PParen Token pexpr Token
  | PUnary Token pexpr
  | PChain nat pexpr "(Token \<times> pexpr) list"
  | PCond pexpr Token pexpr Token pexpr

fun toks :: "pexpr \<Rightarrow> Token list" where
  "toks (PNum t) = [t]"
| "toks (PName t) = [t]"
| "toks (PDefined d t) = [d, t]"
| "toks (PDefinedParen d lp t rp) = [d, lp, t, rp]"
| "toks (PParen lp e rp) = lp # toks e @ [rp]"
| "toks (PUnary t e) = t # toks e"
| "toks (PChain k e xs) = toks e @ concat (map (\<lambda>(t, x). t # toks x) xs)"
| "toks (PCond c q a co b) = toks c @ q # toks a @ co # toks b"

fun plevel :: "pexpr \<Rightarrow> nat" where
  "plevel (PChain k e xs) = Suc k"
| "plevel (PCond c q a co b) = 11"
| "plevel e = 0"

definition is_defined_word :: "Token \<Rightarrow> bool" where
  "is_defined_word t \<longleftrightarrow> tk_type t = TOKEN_IDENTIFIER \<and> tk_value t = Some ''defined''"

fun wf_expr :: "pexpr \<Rightarrow> bool" where
  "wf_expr (PNum t) = (tk_type t = TOKEN_NUMBER \<or> tk_type t = TOKEN_CHAR_LITERAL)"
| "wf_expr (PName t) = (tk_type t = TOKEN_IDENTIFIER \<and> \<not> is_defined_word t)"
| "wf_expr (PDefined d t) = (is_defined_word d \<and> token_is_pp_identifier (Some t))"
| "wf_expr (PDefinedParen d lp t rp) =
    (is_defined_word d \<and> tk_type lp = TOKEN_LPAREN \<and> token_is_pp_identifier (Some t) \<and> tk_type rp = TOKEN_RPAREN)"
| "wf_expr (PParen lp e rp) = (tk_type lp = TOKEN_LPAREN \<and> wf_expr e \<and> tk_type rp = TOKEN_RPAREN)"
| "wf_expr (PUnary t e) = (is_unary_op (tk_type t) \<and> wf_expr e \<and> plevel e = 0)"
| "wf_expr (PChain k e xs) =
    (k < 10 \<and> wf_expr e \<and> plevel e \<le> k \<and> (\<forall>(t, x) \<in> set xs. lop k (tk_type t) \<and> wf_expr x \<and> plevel x \<le> k))"
| "wf_expr (PCond c q a co b) =
    (wf_expr c \<and> plevel c \<le> 10 \<and> tk_type q = TOKEN_QUESTION \<and> wf_expr a \<and> tk_type co = TOKEN_COLON \<and> wf_expr b)"

text \<open>
  The value of an expression, if it has one: \<open>None\<close> for a division by zero, a malformed number or an
  undefined signed operation in a part that is evaluated.
\<close>

definition is_macro :: "MacroTable option \<Rightarrow> Token \<Rightarrow> bool" where
  "is_macro macros t = (case macros of None \<Rightarrow> False | Some m \<Rightarrow> macro_table_lookup m (tk_value t) \<noteq> None)"

definition good :: "(PPValue \<times> bool) run \<Rightarrow> PPValue option" where
  "good r = (case r of Ret (v, e) \<Rightarrow> if e then None else Some v | _ \<Rightarrow> None)"

definition good1 :: "PPValue run \<Rightarrow> PPValue option" where
  "good1 r = (case r of Ret v \<Rightarrow> Some v | _ \<Rightarrow> None)"

fun sem :: "MacroTable option \<Rightarrow> pexpr \<Rightarrow> PPValue option"
and sem_chain :: "MacroTable option \<Rightarrow> nat \<Rightarrow> PPValue \<Rightarrow> (Token \<times> pexpr) list \<Rightarrow> PPValue option" where
  "sem m (PNum t) = (case parse_integer_token t of (v, ok) \<Rightarrow> if ok then Some v else None)"
| "sem m (PName t) = Some zero_value"
| "sem m (PDefined d t) = Some (pp_value_bool (is_macro m t))"
| "sem m (PDefinedParen d lp t rp) = Some (pp_value_bool (is_macro m t))"
| "sem m (PParen lp e rp) = sem m e"
| "sem m (PUnary t e) = (case sem m e of None \<Rightarrow> None | Some v \<Rightarrow> good1 (apply_unary (tk_type t) v))"
| "sem m (PChain k e xs) = (case sem m e of None \<Rightarrow> None | Some v \<Rightarrow> sem_chain m k v xs)"
| "sem m (PCond c q a co b) =
    (case sem m c of None \<Rightarrow> None | Some v \<Rightarrow> if pp_value_truthy v then sem m a else sem m b)"
| "sem_chain m k v [] = Some v"
| "sem_chain m k v ((t, x) # xs) =
    (case (if leval k True v then sem m x else Some zero_value) of
       None \<Rightarrow> None
     | Some r \<Rightarrow> (case good (lapp k (tk_type t) v r) of None \<Rightarrow> None | Some v' \<Rightarrow> sem_chain m k v' xs))"

section \<open>The evaluator on the tokens of an expression\<close>

abbreviation st :: "Token list \<Rightarrow> PPExprParser" where
  "st r \<equiv> \<lparr>pe_rest = r, pe_error = False\<rparr>"

abbreviation result :: "bool \<Rightarrow> PPValue \<Rightarrow> Token list \<Rightarrow> (PPValue \<times> PPExprParser) run" where
  "result eval v r \<equiv> Ret (if eval then v else zero_value, st r)"

definition stop :: "nat \<Rightarrow> Token list \<Rightarrow> bool" where
  "stop n r \<longleftrightarrow> r = [] \<or> (\<forall>k < n. \<not> lop k (tk_type (hd r)))"

lemma peek_st [simp]: "parser_peek (st []) = None" "parser_peek (st (t # r)) = Some t"
  by (simp_all add: parser_peek_def)

lemma advance_st [simp]: "tk_type t \<noteq> TOKEN_EOF \<Longrightarrow> parser_advance (st (t # r)) = st r"
  by (simp add: parser_advance_def)

lemma match_st [simp]:
  "tk_type t = ty \<Longrightarrow> ty \<noteq> TOKEN_EOF \<Longrightarrow> parser_match ty (st (t # r)) = (st r, True)"
  "tk_type t \<noteq> ty \<Longrightarrow> parser_match ty (st (t # r)) = (st (t # r), False)"
  by (simp_all add: parser_match_def)

lemma stop_mono: "stop n r \<Longrightarrow> m \<le> n \<Longrightarrow> stop m r"
  by (auto simp: stop_def)

lemma loop_stops:
  "stop (Suc k) r \<Longrightarrow> binary_loop (lop k) (leval k) (lapp k) sub eval (Suc f) v (st r) = Ret (v, st r)"
  by (cases r) (auto simp: stop_def)

lemma level_lift:
  assumes "parser_at m rec i eval p = result eval v r" "i \<le> n" "stop n r"
  shows "parser_at m rec n eval p = result eval v r"
  using assms(2,3)
proof (induction n)
  case (Suc n)
  show ?case
  proof (cases "i = Suc n")
    case False
    then have "parser_at m rec n eval p = result eval v r"
      using Suc stop_mono [OF Suc.prems(2), of n] by simp
    then show ?thesis
      using loop_stops [OF Suc.prems(2)] by (simp add: binary_level_def)
  qed (use assms(1) in simp)
qed (use assms(1) in simp)

text \<open>The loop of level \<open>k\<close> on the operators and operands of a chain.\<close>

definition operand_ok :: "MacroTable option \<Rightarrow> pp_parser \<Rightarrow> nat \<Rightarrow> Token list \<Rightarrow> pexpr \<Rightarrow> bool" where
  "operand_ok m rec k r x \<longleftrightarrow>
    (\<forall>eval v. (eval \<longrightarrow> sem m x = Some v) \<longrightarrow> parser_at m rec k eval (st (toks x @ r)) = result eval v r)"

abbreviation chain_toks :: "(Token \<times> pexpr) list \<Rightarrow> Token list" where
  "chain_toks xs \<equiv> concat (map (\<lambda>(t, x). t # toks x) xs)"

lemma loop_chain:
  assumes "k < 10" "stop (Suc k) r" "\<forall>(t, x) \<in> set xs. lop k (tk_type t)"
    and "\<And>ys t x zs. xs = ys @ (t, x) # zs \<Longrightarrow> operand_ok m rec k (chain_toks zs @ r) x"
    and "eval \<longrightarrow> sem_chain m k v xs = Some w" "length xs < f"
  shows "binary_loop (lop k) (leval k) (lapp k) (parser_at m rec k) eval f v (st (chain_toks xs @ r)) =
    Ret (if eval then w else v, st r)"
  using assms(3-)
proof (induction xs arbitrary: v f)
  case Nil
  then obtain f' where "f = Suc f'" by (cases f) auto
  then show ?case using Nil loop_stops [OF assms(2)] by auto
next
  case (Cons tx xs)
  obtain t x where tx: "tx = (t, x)" by (cases tx)
  obtain f' where f: "f = Suc f'" using Cons.prems(4) by (cases f) auto
  have op: "lop k (tk_type t)" "tk_type t \<noteq> TOKEN_EOF"
    using Cons.prems(1) tx lop_types(1) [OF assms(1)] by auto
  have sub: "parser_at m rec k e (st (toks x @ chain_toks xs @ r)) = result e u (chain_toks xs @ r)"
    if "e \<longrightarrow> sem m x = Some u" for e u
    using Cons.prems(2) [of "[]" t x xs] tx that by (simp add: operand_ok_def)
  have IH: "binary_loop (lop k) (leval k) (lapp k) (parser_at m rec k) eval f' v' (st (chain_toks xs @ r)) =
      Ret (if eval then w else v', st r)" if "eval \<longrightarrow> sem_chain m k v' xs = Some w" for v'
    by (rule Cons.IH) (use Cons.prems that tx f in \<open>auto simp: append_eq_Cons_conv\<close>)
  show ?case
  proof (cases eval)
    case False
    then show ?thesis using tx f op sub [of False] IH [of v] assms(1) by simp
  next
    case True
    obtain u v' where u: "(if leval k True v then sem m x else Some zero_value) = Some u"
        "good (lapp k (tk_type t) v u) = Some v'" "sem_chain m k v' xs = Some w"
      using Cons.prems(3) tx True by (auto split: option.splits)
    have "parser_at m rec k (leval k True v) (st (toks x @ chain_toks xs @ r)) = Ret (u, st (chain_toks xs @ r))"
      using sub [of "leval k True v" u] u(1) by (auto split: if_splits)
    moreover have "lapp k (tk_type t) v u = Ret (v', False)"
      using u(2) by (auto simp: good_def split: run.splits if_splits)
    ultimately show ?thesis using tx f op IH [of v'] u(3) True by simp
  qed
qed

lemma chain_level:
  assumes "k < 10" "stop (Suc k) r" "\<forall>(t, x) \<in> set xs. lop k (tk_type t)"
    and "operand_ok m rec k (chain_toks xs @ r) e"
    and "\<And>ys t x zs. xs = ys @ (t, x) # zs \<Longrightarrow> operand_ok m rec k (chain_toks zs @ r) x"
    and "eval \<longrightarrow> sem m (PChain k e xs) = Some w"
  shows "parser_at m rec (Suc k) eval (st (toks (PChain k e xs) @ r)) = result eval w r"
proof -
  obtain v where v: "eval \<longrightarrow> sem m e = Some v \<and> sem_chain m k v xs = Some w"
    using assms(6) by (cases eval) (auto split: option.splits)
  then have first: "parser_at m rec k eval (st (toks e @ chain_toks xs @ r)) = result eval v (chain_toks xs @ r)"
    using assms(4) by (simp add: operand_ok_def)
  have len: "length xs < Suc (length (chain_toks xs @ r))"
    by (induction xs) auto
  have "binary_loop (lop k) (leval k) (lapp k) (parser_at m rec k) eval (Suc (length (chain_toks xs @ r)))
      (if eval then v else zero_value) (st (chain_toks xs @ r)) =
    Ret (if eval then w else (if eval then v else zero_value), st r)"
    by (rule loop_chain [OF assms(1-3)]) (use assms(5) v len in auto)
  then show ?thesis using first by (simp add: binary_level_def del: binary_loop.simps)
qed

text \<open>Primary and unary expressions.\<close>

lemma identifier_token_types:
  "token_is_pp_identifier (Some t) \<Longrightarrow> tk_type t \<noteq> TOKEN_EOF \<and> tk_type t \<noteq> TOKEN_LPAREN"
  by (auto simp: token_is_pp_identifier_def)

lemma unary_is_primary:
  "\<not> is_unary_op (tk_type t) \<Longrightarrow> parse_unary m rec eval (st (t # r)) = parse_primary m rec eval (st (t # r))"
  by (simp add: parse_unary_def)

lemma primary_num:
  assumes "tk_type t = TOKEN_NUMBER \<or> tk_type t = TOKEN_CHAR_LITERAL" "eval \<longrightarrow> sem m (PNum t) = Some v"
  shows "parse_unary m rec eval (st (t # r)) = result eval v r"
  using assms
  by (cases "parse_integer_token t")
    (auto simp: unary_is_primary is_unary_op_def parse_primary_def parser_advance_def Let_def split: if_splits)

lemma primary_name:
  assumes "tk_type t = TOKEN_IDENTIFIER" "\<not> is_defined_word t"
  shows "parse_unary m rec eval (st (t # r)) = Ret (zero_value, st r)"
  using assms by (auto simp: unary_is_primary is_unary_op_def parse_primary_def is_defined_word_def)

lemma primary_defined:
  assumes "is_defined_word d" "token_is_pp_identifier (Some t)"
  shows "parse_unary m rec eval (st (d # t # r)) = result eval (pp_value_bool (is_macro m t)) r"
  using assms identifier_token_types [OF assms(2)]
  by (auto simp: unary_is_primary is_unary_op_def parse_primary_def is_defined_word_def parse_defined_def Let_def
      is_macro_def split: option.splits)

lemma primary_defined_paren:
  assumes "is_defined_word d" "tk_type lp = TOKEN_LPAREN" "token_is_pp_identifier (Some t)" "tk_type rp = TOKEN_RPAREN"
  shows "parse_unary m rec eval (st (d # lp # t # rp # r)) = result eval (pp_value_bool (is_macro m t)) r"
  using assms identifier_token_types [OF assms(3)]
  by (auto simp: unary_is_primary is_unary_op_def parse_primary_def is_defined_word_def parse_defined_def Let_def
      is_macro_def split: option.splits)

lemma primary_paren:
  assumes "tk_type lp = TOKEN_LPAREN" "tk_type rp = TOKEN_RPAREN"
    and "rec eval (st (ts @ rp # r)) = result eval v (rp # r)"
  shows "parse_unary m rec eval (st (lp # ts @ rp # r)) = result eval v r"
  using assms by (auto simp: unary_is_primary is_unary_op_def parse_primary_def)

lemma unary_step:
  assumes "is_unary_op (tk_type t)" "parse_unary m rec eval (st (ts @ r)) = result eval u r"
    and "eval \<longrightarrow> good1 (apply_unary (tk_type t) u) = Some v"
  shows "parse_unary m rec eval (st (t # ts @ r)) = result eval v r"
proof -
  have "apply_unary (tk_type t) u = Ret v" if eval
    using assms(3) that by (auto simp: good1_def split: run.splits)
  then show ?thesis
    using assms(1,2) by (auto simp: parse_unary_def apply_unary_def)
qed

section \<open>Correctness\<close>

definition level_correct :: "MacroTable option \<Rightarrow> pexpr \<Rightarrow> bool" where
  "level_correct m e \<longleftrightarrow> (\<forall>N n eval r v. plevel e \<le> n \<longrightarrow> n \<le> 10 \<longrightarrow> stop n r \<longrightarrow> length (toks e @ r) \<le> N \<longrightarrow>
    (eval \<longrightarrow> sem m e = Some v) \<longrightarrow>
    parser_at m (parse_conditional m N) n eval (st (toks e @ r)) = result eval v r)"

definition cond_correct :: "MacroTable option \<Rightarrow> pexpr \<Rightarrow> bool" where
  "cond_correct m e \<longleftrightarrow> (\<forall>N eval r v. stop 10 r \<longrightarrow> (r = [] \<or> tk_type (hd r) \<noteq> TOKEN_QUESTION) \<longrightarrow>
    length (toks e @ r) < N \<longrightarrow> (eval \<longrightarrow> sem m e = Some v) \<longrightarrow>
    parse_conditional m N eval (st (toks e @ r)) = result eval v r)"

text \<open>An expression without \<open>?:\<close> at the top, followed by what cannot continue it.\<close>

lemma cond_if_level:
  assumes "level_correct m e" "plevel e \<le> 10"
  shows "cond_correct m e"
  unfolding cond_correct_def
proof (intro allI impI)
  fix N eval r v
  assume r: "stop 10 r" "r = [] \<or> tk_type (hd r) \<noteq> TOKEN_QUESTION" "length (toks e @ r) < N" "eval \<longrightarrow> sem m e = Some v"
  obtain N' where N: "N = Suc N'" using r(3) by (cases N) auto
  have "parse_logical_or m (parse_conditional m N') eval (st (toks e @ r)) = result eval v r"
    unfolding parse_logical_or_at using assms r N unfolding level_correct_def by auto
  then show "parse_conditional m N eval (st (toks e @ r)) = result eval v r"
    using r(2) N by (cases r) (auto simp: conditional_rest_def)
qed

lemma level_correct_0:
  assumes "plevel e = 0"
    "\<And>N eval r v. length (toks e @ r) \<le> N \<Longrightarrow> (eval \<longrightarrow> sem m e = Some v) \<Longrightarrow>
      parse_unary m (parse_conditional m N) eval (st (toks e @ r)) = result eval v r"
  shows "level_correct m e"
  unfolding level_correct_def
proof (intro allI impI)
  fix N n eval r v
  assume a: "stop n r" "length (toks e @ r) \<le> N" "eval \<longrightarrow> sem m e = Some v"
  have "parser_at m (parse_conditional m N) 0 eval (st (toks e @ r)) = result eval v r"
    using assms(2) [OF a(2,3)] by simp
  then show "parser_at m (parse_conditional m N) n eval (st (toks e @ r)) = result eval v r"
    by (rule level_lift) (use a(1) in auto)
qed

lemma stop_token: "tk_type t = TOKEN_RPAREN \<or> tk_type t = TOKEN_QUESTION \<or> tk_type t = TOKEN_COLON \<Longrightarrow> stop 10 (t # r)"
  by (auto simp: stop_def dest: lop_types)

lemma stop_op: "k < 10 \<Longrightarrow> lop k (tk_type t) \<Longrightarrow> stop k (t # r)"
  by (simp add: stop_def) (metis lop_disjoint less_irrefl less_trans)

lemma toks_nonempty [simp]: "toks e \<noteq> []"
  by (induction e) auto

lemma cond_branches:
  assumes "cond_correct m a" "cond_correct m b" "level_correct m c" "plevel c \<le> 10"
    and q: "tk_type q = TOKEN_QUESTION" and co: "tk_type co = TOKEN_COLON"
  shows "cond_correct m (PCond c q a co b)"
  unfolding cond_correct_def
proof (intro allI impI)
  fix N eval r v
  assume r: "stop 10 r" "r = [] \<or> tk_type (hd r) \<noteq> TOKEN_QUESTION" "length (toks (PCond c q a co b) @ r) < N"
    and ev: "eval \<longrightarrow> sem m (PCond c q a co b) = Some v"
  obtain N' where N: "N = Suc N'" using r(3) by (cases N) auto
  obtain u where u: "eval \<longrightarrow> sem m c = Some u" using ev by (cases eval) (auto split: option.splits)
  let ?rest = "q # toks a @ co # toks b @ r"
  have c: "parse_logical_or m (parse_conditional m N') eval (st (toks c @ ?rest)) = result eval u ?rest"
    unfolding parse_logical_or_at
    using assms(3,4) r(3) N stop_token [of q] q u unfolding level_correct_def by auto
  have a: "parse_conditional m N' e (st (toks a @ co # toks b @ r)) = result e w (co # toks b @ r)"
    if "e \<longrightarrow> sem m a = Some w" for e w
    using assms(1) that r(3) N stop_token [of co] co unfolding cond_correct_def by auto
  have b: "parse_conditional m N' e (st (toks b @ r)) = result e w r" if "e \<longrightarrow> sem m b = Some w" for e w
    using assms(2) that r N unfolding cond_correct_def by auto
  show "parse_conditional m N eval (st (toks (PCond c q a co b) @ r)) = result eval v r"
  proof (cases "eval \<and> pp_value_truthy u")
    case True
    then have "sem m a = Some v" using ev u by auto
    then show ?thesis
      using True N q co c a [of True v] b [of False] by (simp add: conditional_rest_def conditional_false_def)
  next
    case False
    have "eval \<longrightarrow> sem m b = Some v" using ev u False by auto
    then show ?thesis
      using False N q co c a [of False] b [of eval v]
      by (cases eval) (simp_all add: conditional_rest_def conditional_false_def)
  qed
qed

lemma level_correct_chain:
  assumes "k < 10" "level_correct m e" "plevel e \<le> k"
    and "\<And>t x. (t, x) \<in> set xs \<Longrightarrow> lop k (tk_type t) \<and> level_correct m x \<and> plevel x \<le> k"
  shows "level_correct m (PChain k e xs)"
  unfolding level_correct_def
proof (intro allI impI)
  fix N n eval r v
  assume n: "plevel (PChain k e xs) \<le> n" "n \<le> 10" "stop n r" "length (toks (PChain k e xs) @ r) \<le> N"
    and ev: "eval \<longrightarrow> sem m (PChain k e xs) = Some v"
  have sk: "stop (Suc k) r" using n(1) stop_mono [OF n(3)] by simp
  have next_stop: "stop k (chain_toks zs @ r)" if "set zs \<subseteq> set xs" for zs
  proof (cases zs)
    case Nil
    then show ?thesis using stop_mono [OF sk, of k] by simp
  next
    case (Cons tz zs')
    then show ?thesis using that assms(1,4) by (cases tz) (auto intro: stop_op)
  qed
  have operand: "operand_ok m (parse_conditional m N) k (chain_toks zs @ r) x"
    if "level_correct m x" "plevel x \<le> k" "set zs \<subseteq> set xs" "length (toks x @ chain_toks zs @ r) \<le> N" for x zs
    using that next_stop [OF that(3)] assms(1) unfolding operand_ok_def level_correct_def by auto
  have "parser_at m (parse_conditional m N) (Suc k) eval (st (toks (PChain k e xs) @ r)) = result eval v r"
  proof (rule chain_level [OF assms(1) sk _ _ _ ev])
    show "\<forall>(t, x) \<in> set xs. lop k (tk_type t)" using assms(4) by auto
    show "operand_ok m (parse_conditional m N) k (chain_toks xs @ r) e"
      using operand [OF assms(2,3), of xs] n(4) by simp
    show "operand_ok m (parse_conditional m N) k (chain_toks zs @ r) x" if "xs = ys @ (t, x) # zs" for ys t x zs
      using operand [of x zs] assms(4) [of t x] that n(4) by auto
  qed
  then show "parser_at m (parse_conditional m N) n eval (st (toks (PChain k e xs) @ r)) = result eval v r"
    by (rule level_lift) (use n in auto)
qed

lemma leaf_correct:
  assumes "plevel e = 0"
    "\<And>N eval r v. (eval \<longrightarrow> sem m e = Some v) \<Longrightarrow>
      parse_unary m (parse_conditional m N) eval (st (toks e @ r)) = result eval v r"
  shows "cond_correct m e \<and> (plevel e \<le> 10 \<longrightarrow> level_correct m e)"
proof -
  have "level_correct m e" by (rule level_correct_0 [OF assms(1)]) (rule assms(2))
  then show ?thesis using cond_if_level assms(1) by simp
qed

lemma expr_correct: "wf_expr e \<Longrightarrow> cond_correct m e \<and> (plevel e \<le> 10 \<longrightarrow> level_correct m e)"
proof (induction e)
  case (PParen lp e rp)
  have "level_correct m (PParen lp e rp)"
  proof (rule level_correct_0)
    fix N eval r v
    assume a: "length (toks (PParen lp e rp) @ r) \<le> N" "eval \<longrightarrow> sem m (PParen lp e rp) = Some v"
    have "parse_conditional m N eval (st (toks e @ rp # r)) = result eval v (rp # r)"
      using PParen a stop_token [of rp r] unfolding cond_correct_def by auto
    then show "parse_unary m (parse_conditional m N) eval (st (toks (PParen lp e rp) @ r)) = result eval v r"
      using primary_paren [of lp rp "parse_conditional m N" eval "toks e" r v m] PParen.prems by simp
  qed simp
  then show ?case using cond_if_level by simp
next
  case (PUnary t e)
  have "level_correct m (PUnary t e)"
  proof (rule level_correct_0)
    fix N eval r v
    assume a: "length (toks (PUnary t e) @ r) \<le> N" "eval \<longrightarrow> sem m (PUnary t e) = Some v"
    obtain u where u: "eval \<longrightarrow> sem m e = Some u \<and> good1 (apply_unary (tk_type t) u) = Some v"
      using a(2) by (cases eval) (auto split: option.splits)
    have lc: "level_correct m e" "plevel e = 0" using PUnary by simp_all
    have "parser_at m (parse_conditional m N) 0 eval (st (toks e @ r)) = result eval u r"
      by (rule lc(1) [unfolded level_correct_def, rule_format]) (use lc(2) a(1) u in \<open>auto simp: stop_def\<close>)
    then show "parse_unary m (parse_conditional m N) eval (st (toks (PUnary t e) @ r)) = result eval v r"
      using unary_step [of t m "parse_conditional m N" eval "toks e" r u v] PUnary.prems u by simp
  qed simp
  then show ?case using cond_if_level by simp
next
  case (PChain k e xs)
  have "level_correct m x \<and> plevel x \<le> k \<and> lop k (tk_type t)" if "(t, x) \<in> set xs" for t x
    using PChain.IH(2) [OF that, of x] PChain.prems that by force
  then have "level_correct m (PChain k e xs)"
    using PChain.IH(1) PChain.prems by (intro level_correct_chain) auto
  then show ?case using cond_if_level [of m "PChain k e xs"] PChain.prems by simp
next
  case (PCond c q a co b)
  then show ?case using cond_branches [of m a b c q co] by auto
next
  case (PNum t)
  then show ?case by (intro leaf_correct) (simp_all add: primary_num)
next
  case (PName t)
  then show ?case by (intro leaf_correct) (auto simp: primary_name)
next
  case (PDefined d t)
  then show ?case by (intro leaf_correct) (auto simp: primary_defined)
next
  case (PDefinedParen d lp t rp)
  then show ?case by (intro leaf_correct) (auto simp: primary_defined_paren)
qed

lemma pp_expr_value:
  assumes "wf_expr e" "sem macros e = Some v" "\<forall>t \<in> set eofs. tk_type t = TOKEN_EOF"
  shows "pp_expr_eval_tokens macros (toks e @ eofs) = Ret (Some (to_int32 (bits v)))"
proof -
  have "stop 10 eofs" "eofs = [] \<or> tk_type (hd eofs) \<noteq> TOKEN_QUESTION"
    using assms(3) lop_types(1) by (cases eofs; force simp: stop_def)+
  then have "parse_conditional macros (Suc (length (toks e @ eofs))) True (st (toks e @ eofs)) = Ret (v, st eofs)"
    using conjunct1 [OF expr_correct [OF assms(1)], of macros, unfolded cond_correct_def, rule_format,
        of eofs "Suc (length (toks e @ eofs))" True v] assms(2) by simp
  moreover have "dropWhile (\<lambda>t. tk_type t = TOKEN_EOF) eofs = []" using assms(3) by (simp add: dropWhile_eq_Nil_conv)
  ultimately show ?thesis
    by (simp add: pp_expr_eval_tokens_def parser_is_done_def parser_consume_trailing_def)
qed

end
