(* ===== verification/PP_Expr_C_Values.thy ===== *)
theory PP_Expr_C_Values
  imports PP_Expr_Grammar Macro_Table_Props
begin

text \<open>
  The value the C standard gives to a \<open>#if\<close> expression (6.10.1 and 6.6), written over the integers and
  apart from the evaluator: a value is a number and whether its type is \<open>uintmax_t\<close>; unsigned results are
  taken modulo \<open>2 ^ 64\<close>, and an expression has no value where C leaves it undefined (a signed result out of
  range, a division by zero, a shift by an amount outside \<open>0 .. 63\<close> or of a negative number to the left) or
  where a number has no type. The evaluator returns that value, converted to 32 bits.
\<close>

section \<open>Numbers\<close>

definition pp_c_digit :: "nat \<Rightarrow> char \<Rightarrow> int option" where
  "pp_c_digit base c =
    (let n = (of_char c :: int);
         d = (if c \<in> set ''0123456789'' then n - 48
              else if c \<in> set ''abcdef'' then n - 97 + 10
              else if c \<in> set ''ABCDEF'' then n - 65 + 10 else 99)
     in if d < int base then Some d else None)"

definition pp_c_suffixes :: "string list" where
  "pp_c_suffixes =
    concat (map (\<lambda>u. concat (map (\<lambda>l. [u @ l, l @ u]) [[], ''l'', ''L'', ''ll'', ''LL''])) [[], ''u'', ''U''])"

definition positional :: "nat \<Rightarrow> string \<Rightarrow> int" where
  "positional base ds = foldl (\<lambda>n c. n * int base + the (pp_c_digit base c)) 0 ds"

definition pp_c_number :: "string \<Rightarrow> (int \<times> bool) option" where
  "pp_c_number s =
    (let (base, body) =
           (if take 2 s = ''0x'' \<or> take 2 s = ''0X'' then (16, drop 2 s)
            else if take 1 s = ''0'' then (8, s) else (10, s));
         ds = takeWhile (\<lambda>c. pp_c_digit base c \<noteq> None) body;
         suffix = drop (length ds) body;
         n = positional base ds;
         uns = (CHR ''u'' \<in> set suffix \<or> CHR ''U'' \<in> set suffix)
     in if ds = [] \<or> suffix \<notin> set pp_c_suffixes \<or> n \<ge> 2 ^ 64 then None
        else if n < 2 ^ 63 then Some (n, uns)
        else if uns \<or> base \<noteq> 10 then Some (n, True) else None)"

section \<open>Operators\<close>

type_synonym pp_c_value = "int \<times> bool"

definition pp_c_arith :: "bool \<Rightarrow> int \<Rightarrow> pp_c_value option" where
  "pp_c_arith uns n =
    (if uns then Some (n mod 2 ^ 64, True)
     else if - (2 ^ 63) \<le> n \<and> n \<le> 2 ^ 63 - 1 then Some (n, False) else None)"

definition pp_c_truth :: "bool \<Rightarrow> pp_c_value" where
  "pp_c_truth b = (if b then 1 else 0, False)"

definition pp_c_quotient :: "int \<Rightarrow> int \<Rightarrow> int" where
  "pp_c_quotient x y = (if (0 \<le> x) = (0 < y) then \<bar>x\<bar> div \<bar>y\<bar> else - (\<bar>x\<bar> div \<bar>y\<bar>))"

definition pp_c_unary_value :: "TokenType \<Rightarrow> pp_c_value \<Rightarrow> pp_c_value option" where
  "pp_c_unary_value op v =
    (let (n, u) = v in
     if op = TOKEN_PLUS then Some (n, u)
     else if op = TOKEN_MINUS then pp_c_arith u (- n)
     else if op = TOKEN_BITWISE_NOT then pp_c_arith u (- n - 1)
     else if op = TOKEN_LOGICAL_NOT then Some (pp_c_truth (n = 0))
     else None)"

text \<open>An operator on two operands of one type, unsigned or not.\<close>

definition pp_c_common :: "TokenType \<Rightarrow> bool \<Rightarrow> int \<Rightarrow> int \<Rightarrow> pp_c_value option" where
  "pp_c_common op u x y =
    (if op = TOKEN_ASTERISK then pp_c_arith u (x * y)
     else if op = TOKEN_DIVIDE then (if y = 0 then None else pp_c_arith u (pp_c_quotient x y))
     else if op = TOKEN_MODULO then
       (if y = 0 \<or> pp_c_arith u (pp_c_quotient x y) = None then None
        else pp_c_arith u (x - pp_c_quotient x y * y))
     else if op = TOKEN_PLUS then pp_c_arith u (x + y)
     else if op = TOKEN_MINUS then pp_c_arith u (x - y)
     else if op = TOKEN_LESS then Some (pp_c_truth (x < y))
     else if op = TOKEN_GREATER then Some (pp_c_truth (x > y))
     else if op = TOKEN_LESS_EQUAL then Some (pp_c_truth (x \<le> y))
     else if op = TOKEN_GREATER_EQUAL then Some (pp_c_truth (x \<ge> y))
     else if op = TOKEN_EQUAL then Some (pp_c_truth (x = y))
     else if op = TOKEN_NOT_EQUAL then Some (pp_c_truth (x \<noteq> y))
     else if op = TOKEN_BITWISE_AND then pp_c_arith u (x AND y)
     else if op = TOKEN_BITWISE_XOR then pp_c_arith u (x XOR y)
     else if op = TOKEN_BITWISE_OR then pp_c_arith u (x OR y)
     else None)"

text \<open>A shift has the type of its left operand; a negative number is shifted right arithmetically.\<close>

definition pp_c_shift :: "TokenType \<Rightarrow> bool \<Rightarrow> int \<Rightarrow> int \<Rightarrow> pp_c_value option" where
  "pp_c_shift op u a b =
    (if b < 0 \<or> 64 \<le> b then None
     else if op = TOKEN_RIGHT_SHIFT then pp_c_arith u (a div 2 ^ nat b)
     else if a < 0 then None else pp_c_arith u (a * 2 ^ nat b))"

text \<open>The operands of the others are first converted to the common type.\<close>

definition pp_c_binary_value :: "TokenType \<Rightarrow> pp_c_value \<Rightarrow> pp_c_value \<Rightarrow> pp_c_value option" where
  "pp_c_binary_value op v w =
    (let (a, ua) = v; (b, ub) = w; u = (ua \<or> ub) in
     if op = TOKEN_LEFT_SHIFT \<or> op = TOKEN_RIGHT_SHIFT then pp_c_shift op ua a b
     else pp_c_common op u (if u then a mod 2 ^ 64 else a) (if u then b mod 2 ^ 64 else b))"

text \<open>Precedence, from the operators that bind tightest.\<close>

definition pp_c_precedence :: "TokenType list list" where
  "pp_c_precedence =
    [[TOKEN_ASTERISK, TOKEN_DIVIDE, TOKEN_MODULO], [TOKEN_PLUS, TOKEN_MINUS],
     [TOKEN_LEFT_SHIFT, TOKEN_RIGHT_SHIFT],
     [TOKEN_LESS, TOKEN_GREATER, TOKEN_LESS_EQUAL, TOKEN_GREATER_EQUAL], [TOKEN_EQUAL, TOKEN_NOT_EQUAL],
     [TOKEN_BITWISE_AND], [TOKEN_BITWISE_XOR], [TOKEN_BITWISE_OR], [TOKEN_LOGICAL_AND], [TOKEN_LOGICAL_OR]]"

section \<open>Expressions\<close>

text \<open>The shape of an expression: chains of operators of one level over operands that bind tighter.\<close>

fun pp_c_shape :: "pexpr \<Rightarrow> bool" where
  "pp_c_shape (PNum t) = (tk_type t = TOKEN_NUMBER \<or> tk_type t = TOKEN_CHAR_LITERAL)"
| "pp_c_shape (PName t) = (tk_type t = TOKEN_IDENTIFIER \<and> tk_value t \<noteq> Some ''defined'')"
| "pp_c_shape (PDefined d t) =
    (tk_type d = TOKEN_IDENTIFIER \<and> tk_value d = Some ''defined'' \<and> tk_type t \<le> TOKEN_IDENTIFIER \<and> tk_value t \<noteq> None)"
| "pp_c_shape (PDefinedParen d lp t rp) =
    (tk_type d = TOKEN_IDENTIFIER \<and> tk_value d = Some ''defined'' \<and> tk_type lp = TOKEN_LPAREN \<and>
     tk_type t \<le> TOKEN_IDENTIFIER \<and> tk_value t \<noteq> None \<and> tk_type rp = TOKEN_RPAREN)"
| "pp_c_shape (PParen lp e rp) = (tk_type lp = TOKEN_LPAREN \<and> pp_c_shape e \<and> tk_type rp = TOKEN_RPAREN)"
| "pp_c_shape (PUnary t e) =
    (tk_type t \<in> {TOKEN_PLUS, TOKEN_MINUS, TOKEN_BITWISE_NOT, TOKEN_LOGICAL_NOT} \<and> pp_c_shape e \<and> plevel e = 0)"
| "pp_c_shape (PChain k e xs) =
    (k < 10 \<and> pp_c_shape e \<and> plevel e \<le> k \<and>
     (\<forall>(t, x) \<in> set xs. tk_type t \<in> set (pp_c_precedence ! k) \<and> pp_c_shape x \<and> plevel x \<le> k))"
| "pp_c_shape (PCond c q a co b) =
    (pp_c_shape c \<and> plevel c \<le> 10 \<and> tk_type q = TOKEN_QUESTION \<and> pp_c_shape a \<and> tk_type co = TOKEN_COLON \<and> pp_c_shape b)"

text \<open>Whether the type of an expression is unsigned; the type does not depend on what is evaluated.\<close>

fun pp_c_unsigned :: "pexpr \<Rightarrow> bool" where
  "pp_c_unsigned (PNum t) = (case tk_value t of None \<Rightarrow> False | Some s \<Rightarrow>
      (case pp_c_number s of None \<Rightarrow> False | Some (n, u) \<Rightarrow> u))"
| "pp_c_unsigned (PParen lp e rp) = pp_c_unsigned e"
| "pp_c_unsigned (PUnary t e) = (tk_type t \<noteq> TOKEN_LOGICAL_NOT \<and> pp_c_unsigned e)"
| "pp_c_unsigned (PChain k e xs) =
    (if xs = [] \<or> k = 2 then pp_c_unsigned e
     else if k \<in> {3, 4, 8, 9} then False
     else pp_c_unsigned e \<or> (\<exists>(t, x) \<in> set xs. pp_c_unsigned x))"
| "pp_c_unsigned (PCond c q a co b) = (pp_c_unsigned a \<or> pp_c_unsigned b)"
| "pp_c_unsigned e = False"

definition names_macro :: "MacroTable option \<Rightarrow> Token \<Rightarrow> bool" where
  "names_macro macros t \<longleftrightarrow>
    (case macros of None \<Rightarrow> False | Some m \<Rightarrow> (\<exists>d \<in> set (mt_macros m). md_name d = tk_value t))"

fun pp_c_sem :: "MacroTable option \<Rightarrow> pexpr \<Rightarrow> pp_c_value option"
and pp_c_sem_chain :: "MacroTable option \<Rightarrow> pp_c_value \<Rightarrow> (Token \<times> pexpr) list \<Rightarrow> pp_c_value option" where
  "pp_c_sem m (PNum t) = (case tk_value t of None \<Rightarrow> None | Some s \<Rightarrow> pp_c_number s)"
| "pp_c_sem m (PName t) = Some (0, False)"
| "pp_c_sem m (PDefined d t) = Some (pp_c_truth (names_macro m t))"
| "pp_c_sem m (PDefinedParen d lp t rp) = Some (pp_c_truth (names_macro m t))"
| "pp_c_sem m (PParen lp e rp) = pp_c_sem m e"
| "pp_c_sem m (PUnary t e) = (case pp_c_sem m e of None \<Rightarrow> None | Some v \<Rightarrow> pp_c_unary_value (tk_type t) v)"
| "pp_c_sem m (PChain k e xs) = (case pp_c_sem m e of None \<Rightarrow> None | Some v \<Rightarrow> pp_c_sem_chain m v xs)"
| "pp_c_sem m (PCond c q a co b) =
    (case pp_c_sem m c of None \<Rightarrow> None
     | Some (n, u) \<Rightarrow>
        (case (if n \<noteq> 0 then pp_c_sem m a else pp_c_sem m b) of None \<Rightarrow> None
         | Some (i, ui) \<Rightarrow> if pp_c_unsigned a \<or> pp_c_unsigned b then Some (i mod 2 ^ 64, True) else Some (i, ui)))"
| "pp_c_sem_chain m v [] = Some v"
| "pp_c_sem_chain m v ((t, x) # xs) =
    (if tk_type t = TOKEN_LOGICAL_AND \<and> fst v = 0 then pp_c_sem_chain m (pp_c_truth False) xs
     else if tk_type t = TOKEN_LOGICAL_OR \<and> fst v \<noteq> 0 then pp_c_sem_chain m (pp_c_truth True) xs
     else (case pp_c_sem m x of None \<Rightarrow> None
       | Some w \<Rightarrow>
          if tk_type t = TOKEN_LOGICAL_AND \<or> tk_type t = TOKEN_LOGICAL_OR
          then pp_c_sem_chain m (pp_c_truth (fst w \<noteq> 0)) xs
          else (case pp_c_binary_value (tk_type t) v w of None \<Rightarrow> None | Some v' \<Rightarrow> pp_c_sem_chain m v' xs)))"

text \<open>The code makes no conversion in \<open>?:\<close>, so the two branches must have one type.\<close>

fun one_type_branches :: "pexpr \<Rightarrow> bool" where
  "one_type_branches (PParen lp e rp) = one_type_branches e"
| "one_type_branches (PUnary t e) = one_type_branches e"
| "one_type_branches (PChain k e xs) = (one_type_branches e \<and> (\<forall>(t, x) \<in> set xs. one_type_branches x))"
| "one_type_branches (PCond c q a co b) =
    (one_type_branches c \<and> one_type_branches a \<and> one_type_branches b \<and> pp_c_unsigned a = pp_c_unsigned b)"
| "one_type_branches e = True"

section \<open>What a value of the evaluator stands for\<close>

definition val_of :: "PPValue \<Rightarrow> pp_c_value" where
  "val_of v = (if isUnsigned v then uint (bits v) else sint (bits v), isUnsigned v)"

lemma uint_64_bounds: "0 \<le> uint (w :: u64)" "uint w < 2 ^ 64"
  using uint_lt2p [of w] by simp_all

lemma sint_64_bounds: "- (2 ^ 63) \<le> sint (w :: u64)" "sint w < 2 ^ 63"
  using sint_greater_eq [of w] sint_lt [of w] by simp_all

lemma sint_mod_64: "sint (w :: u64) mod 2 ^ 64 = uint w"
  by (simp add: uint_sint take_bit_eq_mod)

lemma uint_mod_64: "uint (w :: u64) mod 2 ^ 64 = uint w"
  using uint_64_bounds [of w] by simp

lemma val_of_mod: "fst (val_of v) mod 2 ^ 64 = uint (bits v)"
  using sint_mod_64 [of "bits v"] uint_mod_64 [of "bits v"] by (simp add: val_of_def)

lemma val_of_signed: "- (2 ^ 63) \<le> n \<Longrightarrow> n \<le> 2 ^ 63 - 1 \<Longrightarrow> val_of (pp_value_signed n) = (n, False)"
  by (simp add: val_of_def pp_value_signed_def sint_sbintrunc' signed_take_bit_int_eq_self)

lemma val_of_unsigned: "val_of (pp_value_unsigned w) = (uint w, True)"
  by (simp add: val_of_def pp_value_unsigned_def)

lemma val_of_bool: "val_of (pp_value_bool b) = pp_c_truth b"
  using val_of_signed [of 0] val_of_signed [of 1] by (simp add: pp_value_bool_def pp_c_truth_def)

lemma zero_word: "uint w = 0 \<longleftrightarrow> w = 0" "sint w = 0 \<longleftrightarrow> w = 0" for w :: u64
proof -
  show "uint w = 0 \<longleftrightarrow> w = 0" by (simp add: word_uint_eq_iff)
  have "sint w = 0 \<Longrightarrow> w = 0" by (metis of_int_sint of_int_0 signed_0 scast_id)
  then show "sint w = 0 \<longleftrightarrow> w = 0" by auto
qed

lemma val_of_truthy: "pp_value_truthy v \<longleftrightarrow> fst (val_of v) \<noteq> 0"
  by (simp add: pp_value_truthy_def val_of_def zero_word)

text \<open>A result of the evaluator that matches an arithmetic result of C.\<close>

lemma arith_signed:
  assumes "pp_c_arith False n = Some c"
  shows "\<exists>x. signed_result n = Ret x \<and> val_of x = c"
  using assms val_of_signed [of n] by (auto simp: pp_c_arith_def signed_result_def fits_int64_def split: if_splits)

lemma arith_unsigned: "pp_c_arith True n = Some c \<Longrightarrow> uint w = n mod 2 ^ 64 \<Longrightarrow> val_of (pp_value_unsigned w) = c"
  by (auto simp: pp_c_arith_def val_of_unsigned)

section \<open>The operators of the evaluator compute C's values\<close>

lemma unary_value:
  assumes "pp_c_unary_value op (val_of v) = Some c"
  shows "\<exists>x. apply_unary op v = Ret x \<and> val_of x = c"
proof (cases "isUnsigned v")
  case True
  then have v: "val_of v = (uint (bits v), True)" by (simp add: val_of_def)
  have "uint (- bits v) = - uint (bits v) mod 2 ^ 64" "uint (NOT (bits v)) = (- uint (bits v) - 1) mod 2 ^ 64"
    using not_eq_complement [of "bits v"]
    by (simp_all add: uint_word_ariths mod_diff_left_eq)
  then show ?thesis
    using assms True v arith_unsigned
    by (auto simp: pp_c_unary_value_def apply_unary_def val_of_bool val_of_truthy split: if_splits)
next
  case False
  then have v: "val_of v = (sint (bits v), False)" by (simp add: val_of_def)
  have n: "NOT (sint (bits v)) = - sint (bits v) - 1" by (simp add: not_int_def)
  have "val_of (pp_value_signed (- sint (bits v) - 1)) = (- sint (bits v) - 1, False)"
    using sint_64_bounds [of "bits v"] by (intro val_of_signed) auto
  then show ?thesis
    using assms False v n arith_signed [of "- sint (bits v)"]
    by (auto simp: pp_c_unary_value_def apply_unary_def val_of_bool val_of_truthy pp_value_as_signed_def
        pp_c_arith_def split: if_splits)
qed

text \<open>The operands after the conversion to the common type.\<close>

definition common_operand :: "bool \<Rightarrow> PPValue \<Rightarrow> int" where
  "common_operand u v = (if u then uint (bits v) else sint (bits v))"

lemma common_value:
  assumes "pp_c_binary_value op (val_of v) (val_of w) = Some c" "op \<notin> {TOKEN_LEFT_SHIFT, TOKEN_RIGHT_SHIFT}"
    and "u = (isUnsigned v \<or> isUnsigned w)"
  shows "pp_c_common op u (common_operand u v) (common_operand u w) = Some c"
  using assms val_of_mod [of v] val_of_mod [of w]
  by (auto simp: pp_c_binary_value_def common_operand_def val_of_def Let_def)

lemma quotient_agrees: "y \<noteq> 0 \<Longrightarrow> c_div x y = pp_c_quotient x y"
  by (cases "x = 0") (auto simp: c_div_def pp_c_quotient_def sgn_if)

lemma quotient_nonneg: "0 \<le> x \<Longrightarrow> 0 < y \<Longrightarrow> pp_c_quotient x y = x div y"
  by (simp add: pp_c_quotient_def)

lemma multiplicative_value:
  assumes "op \<in> {TOKEN_ASTERISK, TOKEN_DIVIDE, TOKEN_MODULO}"
    and "pp_c_binary_value op (val_of v) (val_of w) = Some c"
  shows "\<exists>x. apply_multiplicative op v w = Ret (x, False) \<and> val_of x = c"
proof -
  define u where u: "u = (isUnsigned v \<or> isUnsigned w)"
  have c: "pp_c_common op u (common_operand u v) (common_operand u w) = Some c"
    using common_value [OF assms(2) _ u] assms(1) by auto
  have w0: "pp_value_truthy w \<longleftrightarrow> common_operand u w \<noteq> 0"
    by (simp add: common_operand_def pp_value_truthy_def zero_word)
  show ?thesis
  proof (cases u)
    case True
    let ?a = "bits v" and ?b = "bits w"
    have q: "pp_c_quotient (uint ?a) (uint ?b) = uint (?a div ?b)"
        "uint ?a - pp_c_quotient (uint ?a) (uint ?b) * uint ?b = uint (?a mod ?b)" if "uint ?b \<noteq> 0"
    proof -
      have "0 < uint ?b" using that uint_64_bounds(1) [of ?b] by linarith
      then show "pp_c_quotient (uint ?a) (uint ?b) = uint (?a div ?b)"
          "uint ?a - pp_c_quotient (uint ?a) (uint ?b) * uint ?b = uint (?a mod ?b)"
        by (simp_all add: quotient_nonneg uint_div_distrib uint_mod_distrib minus_div_mult_eq_mod)
    qed
    have m: "uint (?a * ?b) = uint ?a * uint ?b mod 2 ^ 64" by (simp add: uint_word_ariths)
    have e: "apply_multiplicative op v w =
        (if op \<noteq> TOKEN_ASTERISK \<and> uint ?b = 0 then Ret (zero_value, True)
         else Ret (pp_value_unsigned (if op = TOKEN_ASTERISK then ?a * ?b
           else if op = TOKEN_DIVIDE then ?a div ?b else ?a mod ?b), False))"
      using assms(1) True u w0
      by (auto simp: apply_multiplicative_def pp_value_use_unsigned_def value_ok_def Let_def
          common_operand_def pp_value_as_unsigned_def)
    show ?thesis
      unfolding e using assms(1) c True q arith_unsigned [OF _ m] arith_unsigned [OF _ uint_mod_64 [symmetric]]
      by (auto simp: pp_c_common_def common_operand_def split: if_splits)
  next
    case False
    let ?a = "sint (bits v)" and ?b = "sint (bits w)"
    have e: "apply_multiplicative op v w =
        (if op \<noteq> TOKEN_ASTERISK \<and> ?b = 0 then Ret (zero_value, True)
         else value_ok (if op = TOKEN_ASTERISK then signed_result (?a * ?b)
           else if \<not> fits_int64 (c_div ?a ?b) then Stuck
           else Ret (pp_value_signed (if op = TOKEN_DIVIDE then c_div ?a ?b else c_mod ?a ?b))))"
      using assms(1) False u w0
      by (auto simp: apply_multiplicative_def pp_value_use_unsigned_def Let_def common_operand_def
          pp_value_as_signed_def)
    show ?thesis
    proof (cases "op = TOKEN_ASTERISK")
      case True
      then show ?thesis
        unfolding e using c False arith_signed [of "?a * ?b" c]
        by (auto simp: pp_c_common_def common_operand_def value_ok_def)
    next
      case div: False
      then have b: "?b \<noteq> 0" and "pp_c_arith False (pp_c_quotient ?a ?b) \<noteq> None"
        using assms(1) c False by (auto simp: pp_c_common_def common_operand_def split: if_splits)
      then have q: "c_div ?a ?b = pp_c_quotient ?a ?b" "fits_int64 (c_div ?a ?b)"
        using quotient_agrees [of ?b ?a] by (auto simp: pp_c_arith_def fits_int64_def split: if_splits)
      have "pp_c_arith False (if op = TOKEN_DIVIDE then c_div ?a ?b else c_mod ?a ?b) = Some c"
        using assms(1) c False div b q by (auto simp: pp_c_common_def common_operand_def c_mod_def split: if_splits)
      then have "val_of (pp_value_signed (if op = TOKEN_DIVIDE then c_div ?a ?b else c_mod ?a ?b)) = c"
        using val_of_signed by (auto simp: pp_c_arith_def split: if_splits)
      then show ?thesis unfolding e using b q(2) div by (simp add: value_ok_def)
    qed
  qed
qed

lemma additive_value:
  assumes "op \<in> {TOKEN_PLUS, TOKEN_MINUS}" "pp_c_binary_value op (val_of v) (val_of w) = Some c"
  shows "\<exists>x. apply_additive op v w = Ret (x, False) \<and> val_of x = c"
proof -
  define u where u: "u = (isUnsigned v \<or> isUnsigned w)"
  have c: "pp_c_common op u (common_operand u v) (common_operand u w) = Some c"
    using common_value [OF assms(2) _ u] assms(1) by auto
  have m: "uint (bits v + bits w) = (uint (bits v) + uint (bits w)) mod 2 ^ 64"
      "uint (bits v - bits w) = (uint (bits v) - uint (bits w)) mod 2 ^ 64"
    by (simp_all add: uint_word_ariths)
  show ?thesis
  proof (cases u)
    case True
    then show ?thesis
      using assms(1) c u arith_unsigned [where c = c, OF _ m(1)] arith_unsigned [where c = c, OF _ m(2)]
      by (auto simp: pp_c_common_def apply_additive_def pp_value_use_unsigned_def value_ok_def
          common_operand_def pp_value_as_unsigned_def)
  next
    case False
    let ?n = "if op = TOKEN_PLUS then sint (bits v) + sint (bits w) else sint (bits v) - sint (bits w)"
    have "pp_c_arith False ?n = Some c" using assms(1) c False by (auto simp: pp_c_common_def common_operand_def)
    then obtain x where "signed_result ?n = Ret x" "val_of x = c" using arith_signed by blast
    then show ?thesis
      using False u
      by (auto simp: apply_additive_def pp_value_use_unsigned_def value_ok_def pp_value_as_signed_def)
  qed
qed

lemma relational_value:
  assumes "op \<in> {TOKEN_LESS, TOKEN_GREATER, TOKEN_LESS_EQUAL, TOKEN_GREATER_EQUAL}"
    and "pp_c_binary_value op (val_of v) (val_of w) = Some c"
  shows "\<exists>x. apply_relational op v w = Ret (x, False) \<and> val_of x = c"
proof -
  define u where u: "u = (isUnsigned v \<or> isUnsigned w)"
  have "pp_c_common op u (common_operand u v) (common_operand u w) = Some c"
    using common_value [OF assms(2) _ u] assms(1) by auto
  then show ?thesis
    using assms(1) u
    by (auto simp: pp_c_common_def apply_relational_def pp_value_use_unsigned_def value_ok_def compare_values_def
        common_operand_def pp_value_as_unsigned_def pp_value_as_signed_def val_of_bool word_less_def word_le_def)
qed

lemma equality_value:
  assumes "op \<in> {TOKEN_EQUAL, TOKEN_NOT_EQUAL}" "pp_c_binary_value op (val_of v) (val_of w) = Some c"
  shows "\<exists>x. apply_equality op v w = Ret (x, False) \<and> val_of x = c"
proof -
  define u where u: "u = (isUnsigned v \<or> isUnsigned w)"
  have "pp_c_common op u (common_operand u v) (common_operand u w) = Some c"
    using common_value [OF assms(2) _ u] assms(1) by auto
  then show ?thesis
    using assms(1) u
    by (auto simp: pp_c_common_def apply_equality_def pp_value_use_unsigned_def value_ok_def
        common_operand_def pp_value_as_unsigned_def pp_value_as_signed_def val_of_bool word_uint_eq_iff)
qed

lemma bits_common:
  "uint (bits v AND bits w) = (uint (bits v) AND uint (bits w))"
  "uint (bits v OR bits w) = (uint (bits v) OR uint (bits w))"
  "uint (bits v XOR bits w) = (uint (bits v) XOR uint (bits w))"
  "sint (bits v AND bits w) = (sint (bits v) AND sint (bits w))"
  "sint (bits v OR bits w) = (sint (bits v) OR sint (bits w))"
  "sint (bits v XOR bits w) = (sint (bits v) XOR sint (bits w))"
  by (simp_all add: unsigned_and_eq unsigned_or_eq unsigned_xor_eq signed_and_eq signed_or_eq signed_xor_eq)

lemma bits_value:
  assumes "(op, f) \<in> {(TOKEN_BITWISE_AND, (AND)), (TOKEN_BITWISE_XOR, (XOR)), (TOKEN_BITWISE_OR, (OR))}"
    and "pp_c_binary_value op (val_of v) (val_of w) = Some c"
  shows "\<exists>x. apply_bits f op v w = Ret (x, False) \<and> val_of x = c"
proof -
  define u where u: "u = (isUnsigned v \<or> isUnsigned w)"
  let ?r = "f (bits v) (bits w)"
  have "pp_c_arith u (if u then uint ?r else sint ?r) = Some c"
    using common_value [OF assms(2) _ u] assms(1)
    by (auto simp: pp_c_common_def common_operand_def bits_common)
  then have "val_of (if u then pp_value_unsigned ?r else pp_value_signed (sint ?r)) = c"
    using uint_mod_64 [of ?r] val_of_signed [of "sint ?r"]
    by (auto simp: pp_c_arith_def val_of_unsigned split: if_splits)
  then show ?thesis
    by (simp add: apply_bits_def pp_value_use_unsigned_def u value_ok_def pp_value_as_unsigned_def Let_def)
qed

lemma shift_amount:
  assumes "0 \<le> fst (val_of w)" "fst (val_of w) < 64"
  shows "unat (bits w AND 63) = nat (fst (val_of w))"
proof -
  have w: "uint (bits w) = fst (val_of w)" using val_of_mod [of w] assms by simp
  have "bits w AND 63 = take_bit 6 (bits w)" by (simp add: take_bit_eq_mask mask_numeral)
  moreover have "unat (take_bit 6 (bits w)) = unat (bits w) mod 64" 
    by (simp only: unsigned_take_bit_eq) (simp add: take_bit_eq_mod)
  moreover have "unat (bits w) = nat (fst (val_of w))" by (simp add: w [symmetric])
  ultimately show ?thesis using assms by simp
qed

lemma shift_value:
  assumes "op \<in> {TOKEN_LEFT_SHIFT, TOKEN_RIGHT_SHIFT}" "pp_c_binary_value op (val_of v) (val_of w) = Some c"
  shows "\<exists>x. apply_shift op v w = Ret (x, False) \<and> val_of x = c"
proof -
  let ?a = "fst (val_of v)"
  let ?k = "nat (fst (val_of w))"
  have s: "pp_c_shift op (isUnsigned v) ?a (fst (val_of w)) = Some c"
    using assms by (auto simp: pp_c_binary_value_def val_of_def)
  then have k: "unat (bits w AND 63) = ?k" "?k < 64"
    using shift_amount [of w] by (auto simp: pp_c_shift_def split: if_splits)
  show ?thesis
  proof (cases "isUnsigned v")
    case True
    then have a: "?a = uint (bits v)" by (simp add: val_of_def)
    have l: "uint (push_bit ?k (bits v)) = uint (bits v) * 2 ^ ?k mod 2 ^ 64"
      by (simp only: unsigned_push_bit_eq) (simp add: push_bit_eq_mult take_bit_eq_mod)
    have r: "uint (drop_bit ?k (bits v)) = uint (bits v) div 2 ^ ?k"
      using uint_mod_64 [of "bits v"]
      by (simp only: unsigned_drop_bit_eq) (simp add: drop_bit_eq_div take_bit_eq_mod)
    show ?thesis
      using assms(1) s True a k(1) arith_unsigned [where c = c, OF _ l]
        arith_unsigned [where c = c, OF _ uint_mod_64 [symmetric], of "drop_bit ?k (bits v)"]
      by (auto simp: pp_c_shift_def apply_shift_def pp_value_as_unsigned_def value_ok_def Let_def r split: if_splits)
  next
    case False
    then have a: "?a = sint (bits v)" by (simp add: val_of_def)
    show ?thesis
      using assms(1) s False a k(1) arith_signed [of "?a * 2 ^ ?k" c] val_of_signed [of "?a div 2 ^ ?k"]
      by (auto simp: pp_c_shift_def apply_shift_def pp_value_as_signed_def pp_value_as_unsigned_def value_ok_def Let_def
          pp_c_arith_def split: if_splits)
  qed
qed

section \<open>Numbers are read as C reads them\<close>

lemma of_char_range:
  "b < 256 \<Longrightarrow> a \<le> (of_char c :: nat) \<and> of_char c \<le> b \<longleftrightarrow> c \<in> set (map char_of [a..<Suc b])"
proof -
  assume "b < 256"
  have "c = char_of (of_char c :: nat)" by simp
  then show ?thesis using \<open>b < 256\<close> by (auto simp: image_iff)
qed

lemma digit_ranges:
  "48 \<le> (of_char c :: nat) \<and> (of_char c :: nat) \<le> 57 \<longleftrightarrow> c \<in> set ''0123456789''"
  "97 \<le> (of_char c :: nat) \<and> (of_char c :: nat) \<le> 102 \<longleftrightarrow> c \<in> set ''abcdef''"
  "65 \<le> (of_char c :: nat) \<and> (of_char c :: nat) \<le> 70 \<longleftrightarrow> c \<in> set ''ABCDEF''"
proof -
  have "map char_of [48..<Suc 57] = ''0123456789''" "map char_of [97..<Suc 102] = ''abcdef''"
    "map char_of [65..<Suc 70] = ''ABCDEF''" by code_simp+
  then show "48 \<le> (of_char c :: nat) \<and> (of_char c :: nat) \<le> 57 \<longleftrightarrow> c \<in> set ''0123456789''"
    "97 \<le> (of_char c :: nat) \<and> (of_char c :: nat) \<le> 102 \<longleftrightarrow> c \<in> set ''abcdef''"
    "65 \<le> (of_char c :: nat) \<and> (of_char c :: nat) \<le> 70 \<longleftrightarrow> c \<in> set ''ABCDEF''"
    using of_char_range [of 57 48 c] of_char_range [of 102 97 c] of_char_range [of 70 65 c]
    by (simp_all del: upt_Suc set_map list.map)
qed

lemma digit_agrees: "base \<le> 16 \<Longrightarrow> pp_c_digit base c = map_option int (base_digit base c)"
  unfolding base_digit_def hex_val_def Let_def digit_ranges
  by (auto simp: pp_c_digit_def Let_def)

lemma hex_val_letter_u: "hex_val c \<noteq> None \<Longrightarrow> c \<noteq> CHR ''u'' \<and> c \<noteq> CHR ''U''"
proof -
  have "hex_val (CHR ''u'') = None" "hex_val (CHR ''U'') = None" by code_simp+
  then show "hex_val c \<noteq> None \<Longrightarrow> c \<noteq> CHR ''u'' \<and> c \<noteq> CHR ''U''" by metis
qed

lemma digit_plain:
  assumes "pp_c_digit base c \<noteq> None" "base \<le> 16"
  shows "\<not> is_space c" "c \<notin> {CHR ''-'', CHR ''+'', CHR ''u'', CHR ''U''}"
proof -
  have "hex_val c \<noteq> None" using assms digit_agrees [OF assms(2)] base_digit_16 [of base c] by auto
  then show "\<not> is_space c" "c \<notin> {CHR ''-'', CHR ''+'', CHR ''u'', CHR ''U''}"
    using hex_val_not_space [of c] hex_val_letter_u by blast+
qed

lemma read_base_positional:
  assumes "base \<le> 16"
  shows "read_base base acc cs =
    (foldl (\<lambda>n c. n * int base + the (pp_c_digit base c)) acc (takeWhile (\<lambda>c. pp_c_digit base c \<noteq> None) cs),
     dropWhile (\<lambda>c. pp_c_digit base c \<noteq> None) cs)"
  by (induction cs arbitrary: acc) (auto simp: digit_agrees [OF assms] split: option.splits)

lemma suffix_letters: "list_all (\<lambda>s. dropWhile is_alpha s = []) pp_c_suffixes"
  by code_simp

text \<open>The texts \<open>pp_c_number\<close> reads: a prefix, digits of the base and a suffix.\<close>

lemma number_parts:
  assumes "pp_c_number s = Some (n, u)"
  obtains base pre ds suf where "s = pre @ ds @ suf" "pre \<in> {[], ''0x'', ''0X''}" "base \<le> 16" "ds \<noteq> []"
    "strip_base s = (base, ds @ suf)" "\<forall>c \<in> set ds. pp_c_digit base c \<noteq> None"
    "read_base base 0 (ds @ suf) = (n, suf)" "suf \<in> set pp_c_suffixes" "0 \<le> n" "n < 2 ^ 64"
    "u \<longleftrightarrow> CHR ''u'' \<in> set suf \<or> CHR ''U'' \<in> set suf \<or> 2 ^ 63 \<le> n"
proof -
  define bb where "bb = (if take 2 s = ''0x'' \<or> take 2 s = ''0X'' then (16, drop 2 s)
    else if take 1 s = ''0'' then (8, s) else (10 :: nat, s))"
  define base where "base = fst bb"
  define ds where "ds = takeWhile (\<lambda>c. pp_c_digit base c \<noteq> None) (snd bb)"
  define suf where "suf = drop (length ds) (snd bb)"
  define pre where "pre = (if take 2 s = ''0x'' \<or> take 2 s = ''0X'' then take 2 s else [])"
  have body: "snd bb = ds @ suf" "suf = dropWhile (\<lambda>c. pp_c_digit base c \<noteq> None) (snd bb)"
    by (metis ds_def suf_def dropWhile_eq_drop takeWhile_dropWhile_id) (simp add: ds_def suf_def dropWhile_eq_drop)
  have b16: "base \<le> 16" by (simp add: base_def bb_def)
  have n: "ds \<noteq> []" "suf \<in> set pp_c_suffixes" "positional base ds = n" "n < 2 ^ 64"
      "u \<longleftrightarrow> CHR ''u'' \<in> set suf \<or> CHR ''U'' \<in> set suf \<or> 2 ^ 63 \<le> n"
    using assms unfolding pp_c_number_def bb_def [symmetric] Let_def case_prod_beta base_def [symmetric]
      ds_def [symmetric] suf_def [symmetric] by (auto split: if_splits)
  have read: "read_base base 0 (ds @ suf) = (n, suf)"
    using read_base_positional [OF b16, of 0 "snd bb"] n(3)
    unfolding body(1) [symmetric] body(2) [symmetric] ds_def [symmetric] positional_def by simp
  have "base_digit 16 (hd ds) \<noteq> None" if "base = 16"
  proof -
    have "pp_c_digit base (hd ds) \<noteq> None"
      using n(1) set_takeWhileD [of "hd ds" "\<lambda>c. pp_c_digit base c \<noteq> None" "snd bb"] hd_in_set [OF n(1)]
      by (simp add: ds_def)
    then show ?thesis using digit_agrees [OF b16] that by auto
  qed
  then have strip: "strip_base s = (base, ds @ suf)"
    using body(1) n(1) by (cases s; cases "tl s"; cases "tl (tl s)"; cases ds)
      (auto simp: strip_base_def base_def bb_def split: if_splits)
  have s: "s = pre @ ds @ suf"
  proof (cases "take 2 s = ''0x'' \<or> take 2 s = ''0X''")
    case True
    then have "pre = take 2 s" "ds @ suf = drop 2 s" using body(1) by (simp_all add: pre_def bb_def)
    then show ?thesis by simp
  next
    case False
    then have "snd bb = s" "pre = []" by (auto simp: pre_def bb_def)
    then show ?thesis using body(1) by simp
  qed
  have digits: "\<forall>c \<in> set ds. pp_c_digit base c \<noteq> None" by (auto simp: ds_def dest: set_takeWhileD)
  have "0 \<le> n" using read_base_nonneg [of 0 base "ds @ suf"] read by simp
  then show thesis
    using that [OF s _ b16 n(1) strip _ read n(2) _ n(4,5)] digits by (auto simp: pre_def)
qed

lemma number_value:
  assumes "tk_value t = Some s" "pp_c_number s = Some c"
  shows "\<exists>v. parse_integer_token t = (v, True) \<and> val_of v = c"
proof -
  obtain n u where c: "c = (n, u)" by (cases c)
  obtain base pre ds suf where p: "s = pre @ ds @ suf" "pre \<in> {[], ''0x'', ''0X''}" "base \<le> 16" "ds \<noteq> []"
    "strip_base s = (base, ds @ suf)" "\<forall>c \<in> set ds. pp_c_digit base c \<noteq> None"
    "read_base base 0 (ds @ suf) = (n, suf)" "suf \<in> set pp_c_suffixes" "0 \<le> n" "n < 2 ^ 64"
    "u \<longleftrightarrow> CHR ''u'' \<in> set suf \<or> CHR ''U'' \<in> set suf \<or> 2 ^ 63 \<le> n"
    using assms(2) c number_parts [of s n u thesis] by blast
  have "pp_c_digit base (hd ds) \<noteq> None" using p(4,6) hd_in_set by blast
  moreover have "hd s = hd ds \<or> hd s = CHR ''0''" "s \<noteq> []" using p(1,2,4) by auto
  moreover have "\<not> is_space (CHR ''0'')" by (simp add: is_space_def)
  ultimately have "\<not> is_space (hd s)" "hd s \<notin> {CHR ''-'', CHR ''+''}" "s \<noteq> []"
    using digit_plain [OF _ p(3), of "hd ds"] by auto
  then have sign: "strip_sign (dropWhile is_space s) = (False, s)"
    by (cases s) (simp_all add: strip_sign_def)
  have first: "base_digit base (hd (ds @ suf)) \<noteq> None"
    using p(3,4,6) digit_agrees [OF p(3)] by (cases ds) auto
  have raw: "strtoull0 s = (word_of_int n, False, suf)"
    unfolding strtoull0_def sign p(5) strtoull_digits_def p(7) Let_def case_prod_conv
    using p(4,10) first by auto
  have "CHR ''u'' \<notin> set ds" "CHR ''U'' \<notin> set ds" using digit_plain(2) [OF _ p(3)] p(6) by blast+
  moreover have "CHR ''u'' \<notin> set pre" "CHR ''U'' \<notin> set pre" using p(2) by auto
  ultimately have "list_ex (\<lambda>c. c = CHR ''u'' \<or> c = CHR ''U'') s \<longleftrightarrow>
      CHR ''u'' \<in> set suf \<or> CHR ''U'' \<in> set suf"
    unfolding list_ex_iff p(1) set_append by blast
  moreover have "dropWhile is_alpha suf = []" using suffix_letters p(8) by (auto simp: list_all_iff)
  moreover have "uint (word_of_int n :: u64) = n" using p(9,10) by (simp add: uint_word_of_int)
  moreover have "val_of (pp_value_unsigned (word_of_int n)) = (n, True)"
    using p(9,10) by (simp add: val_of_unsigned uint_word_of_int)
  moreover have "n < 2 ^ 63 \<Longrightarrow> val_of (pp_value_signed n) = (n, False)" using p(9) by (intro val_of_signed) auto
  ultimately show ?thesis
    using assms(1) p(9,10,11) c raw by (auto simp: parse_integer_token_def)
qed

section \<open>Whole expressions\<close>

lemma precedence_level: "k < 10 \<Longrightarrow> ty \<in> set (pp_c_precedence ! k) \<Longrightarrow> lop k ty"
  using less_10_cases [of k]
  by (auto simp: pp_c_precedence_def lop_def pp_levels_def is_multiplicative_op_def is_additive_op_def
      is_shift_op_def is_relational_op_def is_equality_op_def)

lemma shape_wf: "pp_c_shape e \<Longrightarrow> wf_expr e"
proof (induction e)
  case (PChain k e xs)
  then show ?case by (auto simp: precedence_level dest: bspec; fastforce simp: precedence_level)
qed (auto simp: is_defined_word_def token_is_pp_identifier_def is_unary_op_def)

lemma level_value:
  assumes "k < 8" "op \<in> set (pp_c_precedence ! k)" "pp_c_binary_value op (val_of v) (val_of w) = Some c"
  shows "leval k True v" "\<exists>x. good (lapp k op v w) = Some x \<and> val_of x = c"
proof -
  have k: "k \<in> {0, 1, 2, 3, 4, 5, 6, 7}" using assms(1) by auto
  then show "leval k True v" by (auto simp: leval_def pp_levels_def same_eval_def)
  have "\<exists>x. lapp k op v w = Ret (x, False) \<and> val_of x = c"
    using k assms(2) multiplicative_value [OF _ assms(3)] additive_value [OF _ assms(3)] shift_value [OF _ assms(3)]
      relational_value [OF _ assms(3)] equality_value [OF _ assms(3)] bits_value [OF _ assms(3)]
    by (auto simp: lapp_def pp_levels_def pp_c_precedence_def)
  then show "\<exists>x. good (lapp k op v w) = Some x \<and> val_of x = c" by (auto simp: good_def)
qed

lemma arith_flag: "pp_c_arith u n = Some c \<Longrightarrow> snd c = u"
  by (auto simp: pp_c_arith_def split: if_splits)

lemma unary_flag:
  assumes "pp_c_unary_value op v = Some c"
  shows "snd c = (op \<noteq> TOKEN_LOGICAL_NOT \<and> snd v)"
  using assms arith_flag by (cases v) (auto simp: pp_c_unary_value_def pp_c_truth_def split: if_splits)

lemma common_flag:
  assumes "pp_c_common op u x y = Some c"
  shows "snd c = (op \<notin> {TOKEN_LESS, TOKEN_GREATER, TOKEN_LESS_EQUAL, TOKEN_GREATER_EQUAL, TOKEN_EQUAL, TOKEN_NOT_EQUAL} \<and> u)"
  using assms arith_flag by (simp add: pp_c_common_def pp_c_truth_def split: if_splits) auto

lemma binary_flag:
  assumes "k < 8" "op \<in> set (pp_c_precedence ! k)" "pp_c_binary_value op v w = Some c"
  shows "snd c = (if k = 2 then snd v else k \<notin> {3, 4} \<and> (snd v \<or> snd w))"
proof -
  have k: "k \<in> {0, 1, 2, 3, 4, 5, 6, 7}" using assms(1) by auto
  show ?thesis
  proof (cases "k = 2")
    case True
    then show ?thesis
      using assms(2,3) by (cases v; cases w)
        (auto simp: pp_c_precedence_def pp_c_binary_value_def pp_c_shift_def dest: arith_flag split: if_splits)
  next
    case False
    obtain u x y where "pp_c_common op u x y = Some c" "u = (snd v \<or> snd w)"
      using k assms(2,3) False by (cases v; cases w) (auto simp: pp_c_precedence_def pp_c_binary_value_def Let_def)
    moreover have "op \<in> {TOKEN_LESS, TOKEN_GREATER, TOKEN_LESS_EQUAL, TOKEN_GREATER_EQUAL, TOKEN_EQUAL, TOKEN_NOT_EQUAL}
        \<longleftrightarrow> k \<in> {3, 4}"
      using k assms(2) False by (auto simp: pp_c_precedence_def)
    ultimately show ?thesis using common_flag [of op u x y c] False by simp
  qed
qed

lemma chain_flag:
  assumes "k < 10" "\<forall>(t, x) \<in> set xs. tk_type t \<in> set (pp_c_precedence ! k)"
    and "\<And>t x c. (t, x) \<in> set xs \<Longrightarrow> pp_c_sem m x = Some c \<Longrightarrow> snd c = pp_c_unsigned x"
    and "pp_c_sem_chain m v xs = Some c"
  shows "snd c = (if xs = [] \<or> k = 2 then snd v else k \<notin> {3, 4, 8, 9} \<and> (snd v \<or> (\<exists>(t, x) \<in> set xs. pp_c_unsigned x)))"
  using assms(2-)
proof (induction xs arbitrary: v)
  case (Cons tx xs)
  obtain t x where tx: "tx = (t, x)" by (cases tx)
  have t: "tk_type t \<in> set (pp_c_precedence ! k)" using Cons.prems(1) tx by auto
  have IH: "snd c = (if xs = [] \<or> k = 2 then snd v' else k \<notin> {3, 4, 8, 9} \<and>
      (snd v' \<or> (\<exists>(t, x) \<in> set xs. pp_c_unsigned x)))" if "pp_c_sem_chain m v' xs = Some c" for v'
    by (rule Cons.IH [OF _ _ that]) (use Cons.prems(1) in simp, rule Cons.prems(2) [OF list.set_intros(2)])
  show ?case
  proof (cases "k < 8")
    case True
    then have "tk_type t \<noteq> TOKEN_LOGICAL_AND" "tk_type t \<noteq> TOKEN_LOGICAL_OR"
      using t by (auto simp: pp_c_precedence_def numeral_eq_Suc less_Suc_eq)
    then obtain w v' where w: "pp_c_sem m x = Some w" "pp_c_binary_value (tk_type t) v w = Some v'"
        "pp_c_sem_chain m v' xs = Some c"
      using Cons.prems(3) tx by (auto split: option.splits)
    have "snd w = pp_c_unsigned x" by (rule Cons.prems(2) [OF _ w(1), of t]) (simp add: tx)
    then show ?thesis using binary_flag [OF True t w(2)] IH [OF w(3)] tx True by (auto split: if_splits)
  next
    case False
    then have k: "k = 8 \<or> k = 9" using assms(1) by auto
    then obtain b where "pp_c_sem_chain m (pp_c_truth b) xs = Some c"
      using Cons.prems(3) tx t
      by (cases "pp_c_sem m x") (auto simp: pp_c_precedence_def split: if_splits)
    then show ?thesis using IH [of "pp_c_truth b"] k by (auto simp: pp_c_truth_def split: if_splits)
  qed
qed simp

lemma sem_flag: "pp_c_shape e \<Longrightarrow> pp_c_sem m e = Some c \<Longrightarrow> snd c = pp_c_unsigned e"
proof (induction e arbitrary: c)
  case (PNum t)
  then show ?case by (cases c) (auto split: option.splits)
next
  case (PUnary t e)
  obtain v where "pp_c_sem m e = Some v" "pp_c_unary_value (tk_type t) v = Some c"
    using PUnary.prems(2) by (auto split: option.splits)
  then show ?case using PUnary unary_flag [of "tk_type t" v c] by simp
next
  case (PChain k e xs)
  obtain v where v: "pp_c_sem m e = Some v" "pp_c_sem_chain m v xs = Some c"
    using PChain.prems(2) by (auto split: option.splits)
  have "snd v = pp_c_unsigned e" using PChain.IH(1) PChain.prems(1) v(1) by simp
  moreover have x: "snd d = pp_c_unsigned x" if "(t, x) \<in> set xs" "pp_c_sem m x = Some d" for t x d
  proof -
    have "pp_c_shape x" using PChain.prems(1) that(1) by auto
    then show ?thesis using PChain.IH(2) [OF that(1), of x d] that(2) by simp
  qed
  moreover have "k < 10" "\<forall>(t, x) \<in> set xs. tk_type t \<in> set (pp_c_precedence ! k)" using PChain.prems(1) by auto
  ultimately show ?case using chain_flag [of k xs m v c] v(2) by simp
next
  case (PCond cd q a co b)
  then show ?case by (auto split: option.splits if_splits)
qed (auto simp: pp_c_truth_def)

text \<open>Where C gives a value, the evaluator's meaning of the expression is that value.\<close>

lemma chain_matches:
  assumes "k < 10" "\<forall>(t, x) \<in> set xs. tk_type t \<in> set (pp_c_precedence ! k)"
    and "\<And>t x d. (t, x) \<in> set xs \<Longrightarrow> pp_c_sem m x = Some d \<Longrightarrow> \<exists>y. sem m x = Some y \<and> val_of y = d"
    and "pp_c_sem_chain m (val_of v) xs = Some c"
  shows "\<exists>y. sem_chain m k v xs = Some y \<and> val_of y = c"
  using assms(2-)
proof (induction xs arbitrary: v)
  case (Cons tx xs)
  obtain t x where tx: "tx = (t, x)" by (cases tx)
  have t: "tk_type t \<in> set (pp_c_precedence ! k)" using Cons.prems(1) tx by auto
  have IH: "\<exists>y. sem_chain m k v' xs = Some y \<and> val_of y = c" if "pp_c_sem_chain m (val_of v') xs = Some c" for v'
    by (rule Cons.IH [OF _ _ that]) (use Cons.prems(1) in simp, rule Cons.prems(2) [OF list.set_intros(2)])
  have x: "\<exists>y. sem m x = Some y \<and> val_of y = d" if "pp_c_sem m x = Some d" for d
    by (rule Cons.prems(2) [OF _ that, of t]) (simp add: tx)
  show ?case
  proof (cases "k < 8")
    case True
    then have "tk_type t \<noteq> TOKEN_LOGICAL_AND" "tk_type t \<noteq> TOKEN_LOGICAL_OR"
      using t by (auto simp: pp_c_precedence_def numeral_eq_Suc less_Suc_eq)
    then obtain d v' where d: "pp_c_sem m x = Some d" "pp_c_binary_value (tk_type t) (val_of v) d = Some v'"
        "pp_c_sem_chain m v' xs = Some c"
      using Cons.prems(3) tx by (auto split: option.splits)
    obtain w where w: "sem m x = Some w" "val_of w = d" using x [OF d(1)] by blast
    obtain z where "leval k True v" "good (lapp k (tk_type t) v w) = Some z" "val_of z = v'"
      using level_value [OF True t, of v w v'] d(2) w(2) by blast
    then show ?thesis using IH [of z] d(3) w(1) tx by simp
  next
    case False
    then have k: "k = 8 \<or> k = 9" using assms(1) by auto
    have t: "tk_type t = (if k = 8 then TOKEN_LOGICAL_AND else TOKEN_LOGICAL_OR)"
      using t k by (auto simp: pp_c_precedence_def)
    have lev: "leval k True v = ((fst (val_of v) \<noteq> 0) = (k = 8))"
      using k by (auto simp: leval_def pp_levels_def val_of_truthy)
    have app: "good (lapp k (tk_type t) v w) = Some (pp_value_bool
        (if k = 8 then fst (val_of v) \<noteq> 0 \<and> fst (val_of w) \<noteq> 0 else fst (val_of v) \<noteq> 0 \<or> fst (val_of w) \<noteq> 0))" for w
      using k by (auto simp: lapp_def pp_levels_def good_def apply_logical_and_def apply_logical_or_def value_ok_def
          val_of_truthy)
    show ?thesis
    proof (cases "leval k True v")
      case True
      then obtain d where d: "pp_c_sem m x = Some d" "pp_c_sem_chain m (pp_c_truth (fst d \<noteq> 0)) xs = Some c"
        using Cons.prems(3) tx t lev k by (auto split: option.splits if_splits)
      obtain w where w: "sem m x = Some w" "val_of w = d" using x [OF d(1)] by blast
      then show ?thesis
        using IH [of "pp_value_bool (fst d \<noteq> 0)"] d(2) True lev app [of w] tx k by (auto simp: val_of_bool)
    next
      case False
      then have "pp_c_sem_chain m (pp_c_truth (k = 9)) xs = Some c"
        using Cons.prems(3) tx t lev k by (auto split: if_splits)
      then show ?thesis
        using IH [of "pp_value_bool (k = 9)"] False lev app [of zero_value] tx k by (auto simp: val_of_bool)
    qed
  qed
qed simp

lemma names_macro_lookup:
  assumes "tk_value t \<noteq> None"
  shows "is_macro m t = names_macro m t"
proof (cases m)
  case (Some tbl)
  obtain s where s: "tk_value t = Some s" using assms by auto
  have "is_macro m t \<longleftrightarrow> macro_index s (mt_macros tbl) \<noteq> None"
    using Some s by (simp add: is_macro_def macro_table_lookup_def)
  also have "\<dots> \<longleftrightarrow> (\<exists>d \<in> set (mt_macros tbl). md_name d = Some s)"
    unfolding macro_index_None image_iff by force
  finally show ?thesis using Some s by (simp add: names_macro_def)
qed (simp add: is_macro_def names_macro_def)

lemma sem_matches:
  "pp_c_shape e \<Longrightarrow> one_type_branches e \<Longrightarrow> pp_c_sem m e = Some c \<Longrightarrow> \<exists>v. sem m e = Some v \<and> val_of v = c"
proof (induction e arbitrary: c)
  case (PNum t)
  then obtain s where "tk_value t = Some s" "pp_c_number s = Some c" by (auto split: option.splits)
  from number_value [OF this] show ?case by auto
next
  case (PName t)
  then show ?case using val_of_signed [of 0] by simp
next
  case (PUnary t e)
  then obtain d where d: "pp_c_sem m e = Some d" "pp_c_unary_value (tk_type t) d = Some c"
    by (auto split: option.splits)
  obtain v where v: "sem m e = Some v" "val_of v = d" using PUnary d(1) by auto
  then show ?case using unary_value [of "tk_type t" v c] d(2) by (auto simp: good1_def)
next
  case (PChain k e xs)
  obtain d where d: "pp_c_sem m e = Some d" "pp_c_sem_chain m d xs = Some c"
    using PChain.prems(3) by (auto split: option.splits)
  obtain v where v: "sem m e = Some v" "val_of v = d" using PChain.IH(1) PChain.prems(1,2) d(1) by auto
  have "\<exists>y. sem m x = Some y \<and> val_of y = b" if "(t, x) \<in> set xs" "pp_c_sem m x = Some b" for t x b
  proof -
    have "pp_c_shape x" "one_type_branches x" using PChain.prems(1,2) that(1) by auto
    then show ?thesis using PChain.IH(2) [OF that(1), of x b] that(2) by simp
  qed
  moreover have "k < 10" "\<forall>(t, x) \<in> set xs. tk_type t \<in> set (pp_c_precedence ! k)" using PChain.prems(1) by auto
  ultimately show ?case using chain_matches [of k xs m v c] d(2) v by simp
next
  case (PCond cd q a co b)
  obtain d w where d: "pp_c_sem m cd = Some d" "(if fst d \<noteq> 0 then pp_c_sem m a else pp_c_sem m b) = Some w"
      "c = (if pp_c_unsigned a \<or> pp_c_unsigned b then (fst w mod 2 ^ 64, True) else w)"
    using PCond.prems(3) by (auto split: option.splits if_splits)
  obtain v where v: "sem m cd = Some v" "val_of v = d" using PCond.IH(1) PCond.prems(1,2) d(1) by auto
  obtain y where y: "(if fst d \<noteq> 0 then sem m a else sem m b) = Some y" "val_of y = w"
    using PCond.IH(2,3) PCond.prems(1,2) d(2) by (auto split: if_splits)
  have "snd w = pp_c_unsigned a" "pp_c_unsigned b = pp_c_unsigned a"
    using d(2) sem_flag [of a m w] sem_flag [of b m w] PCond.prems(1,2) by (auto split: if_splits)
  then have "c = w" using d(3) y(2) uint_mod_64 [of "bits y"] by (auto simp: val_of_def split: if_splits)
  then show ?case using v y by (auto simp: val_of_truthy)
qed (auto simp: val_of_bool names_macro_lookup)

lemma to_int32_value: "to_int32 (bits v) = (fst (val_of v) + 2 ^ 31) mod 2 ^ 32 - 2 ^ 31"
proof -
  have "to_int32 (bits v) = (uint (bits v) + 2 ^ 31) mod 2 ^ 32 - 2 ^ 31"
    by (simp add: to_int32_def signed_ucast_eq signed_take_bit_eq_take_bit_shift take_bit_eq_mod)
  also have "(uint (bits v) + 2 ^ 31) mod 2 ^ 32 = (fst (val_of v) mod 2 ^ 64 + 2 ^ 31) mod 2 ^ 32"
    by (simp only: val_of_mod)
  also have "\<dots> = (fst (val_of v) mod 2 ^ 64 mod 2 ^ 32 + 2 ^ 31) mod 2 ^ 32" by (simp only: mod_add_left_eq)
  also have "fst (val_of v) mod 2 ^ 64 mod 2 ^ 32 = fst (val_of v) mod 2 ^ 32" by (simp add: mod_mod_cancel)
  finally show ?thesis by (simp only: mod_add_left_eq)
qed

section \<open>Properties\<close>


text \<open>\<open>1 + 2 * 3 == 7 && (1 ? 4 : 1 / 0)\<close>\<close>

definition sample_expr :: pexpr where
  "sample_expr =
    (let num = (\<lambda>s. PNum (mk_token TOKEN_NUMBER s 1)); op = (\<lambda>ty. mk_token ty [] 1) in
     PChain 8
       (PChain 4 (PChain 1 (num ''1'') [(op TOKEN_PLUS, PChain 0 (num ''2'') [(op TOKEN_ASTERISK, num ''3'')])])
          [(op TOKEN_EQUAL, num ''7'')])
       [(op TOKEN_LOGICAL_AND,
         PParen (op TOKEN_LPAREN)
           (PCond (num ''1'') (op TOKEN_QUESTION) (num ''4'') (op TOKEN_COLON)
              (PChain 0 (num ''1'') [(op TOKEN_DIVIDE, num ''0'')])) (op TOKEN_RPAREN))])"


text \<open>
  The branches of a \<open>?:\<close> are not brought to a common type: \<open>(1 ? -1 : 0u) < 0\<close> is false in C, where the
  branch is converted to \<open>uintmax_t\<close>, and true for the evaluator.\<close>

definition mixed_branches :: pexpr where
  "mixed_branches =
    (let num = (\<lambda>s. PNum (mk_token TOKEN_NUMBER s 1)); op = (\<lambda>ty. mk_token ty [] 1) in
     PChain 3
       (PParen (op TOKEN_LPAREN)
          (PCond (num ''1'') (op TOKEN_QUESTION) (PUnary (op TOKEN_MINUS) (num ''1'')) (op TOKEN_COLON) (num ''0u''))
          (op TOKEN_RPAREN))
       [(op TOKEN_LESS, num ''0'')])"

theorem conditional_branches_not_converted:
  "pp_c_shape mixed_branches" "pp_c_sem None mixed_branches = Some (0, False)"
  "pp_expr_eval_tokens None (toks mixed_branches) = Ret (Some 1)"
  by code_simp+

end
