(* ===== verification/PP_Conditionals.thy ===== *)
theory PP_Conditionals
  imports PP_Expr
begin

text \<open>
  Conditional groups, \<open>src/src/Preprocessor/preprocessor_conditionals.c\<close>: the stack of frames for the open
  \<open>#if\<close> groups and the five directives. The stack is a list with the top first. A directive returns the
  new stack, the cursor, the diagnostics and whether processing goes on; its run is \<open>Stuck\<close> where the
  evaluation of a condition is undefined. \<open>prepare\<close> stands for \<open>pp_prepare_expr_tokens\<close> of
  \<open>preprocessor_utils.c\<close>, the macro expansion of the condition's tokens, which is not modelled yet.
\<close>

section \<open>Frames\<close>

record PPConditionalFrame =
  parentActive :: bool
  selfActive :: bool
  branchTaken :: bool
  sawElse :: bool

type_synonym cond_stack = "PPConditionalFrame list"

definition conditional_stack_is_active :: "cond_stack \<Rightarrow> bool" where
  "conditional_stack_is_active stack = (case stack of [] \<Rightarrow> True | f # fs \<Rightarrow> selfActive f)"

definition token_is_macro_identifier :: "Token \<Rightarrow> bool" where
  "token_is_macro_identifier tok \<longleftrightarrow>
    tk_value tok \<noteq> None \<and> (tk_type tok = TOKEN_IDENTIFIER \<or> tk_type tok < TOKEN_IDENTIFIER)"

definition push_conditional :: "PPConditionalFrame \<Rightarrow> cond_stack \<Rightarrow> cond_stack" where
  "push_conditional f stack = f # stack"

section \<open>The preprocessor as the directives see it\<close>

record pp_env =
  pp_table :: MacroTable
  pp_exprMacros :: "MacroTable option"
  pp_prepare :: "Token list \<Rightarrow> Token list option"
  pp_lenientMissingIncludes :: bool

record cond_result =
  cr_stack :: cond_stack
  cr_cursor :: nat
  cr_diags :: "string list"
  cr_ok :: bool

text \<open>The tokens after the directive on its line, and the end of the line.\<close>

definition line_tokens :: "Token list \<Rightarrow> int \<Rightarrow> nat \<Rightarrow> Token list" where
  "line_tokens tokens line start =
    takeWhile (\<lambda>t. tk_type t \<noteq> TOKEN_EOF \<and> tk_line t = line) (drop start tokens)"

definition line_end :: "Token list \<Rightarrow> int \<Rightarrow> nat \<Rightarrow> nat" where
  "line_end tokens line start = start + length (line_tokens tokens line start)"

definition last_of_line :: "nat \<Rightarrow> nat" where
  "last_of_line e = (if e = 0 then 0 else e - 1)"

text \<open>Preparing and evaluating a condition: \<open>None\<close> is a failed preparation, \<open>Some None\<close> a failed evaluation.\<close>

definition eval_condition :: "pp_env \<Rightarrow> Token list \<Rightarrow> int option option run" where
  "eval_condition pp expr =
    (case pp_prepare pp expr of
       None \<Rightarrow> Ret None
     | Some prepared \<Rightarrow>
         run_bind (pp_expr_eval_tokens (pp_exprMacros pp) (if prepared \<noteq> [] then prepared else expr))
           (\<lambda>r. Ret (Some r)))"

definition failed :: "cond_stack \<Rightarrow> nat \<Rightarrow> string list \<Rightarrow> cond_result" where
  "failed stack cursor diags = \<lparr>cr_stack = stack, cr_cursor = cursor, cr_diags = diags, cr_ok = False\<rparr>"

definition if_frame :: "bool \<Rightarrow> bool \<Rightarrow> PPConditionalFrame" where
  "if_frame parent cond =
    \<lparr>parentActive = parent, selfActive = parent \<and> cond, branchTaken = parent \<and> cond, sawElse = False\<rparr>"

section \<open>The directives\<close>

definition process_if :: "pp_env \<Rightarrow> Token list \<Rightarrow> nat \<Rightarrow> cond_stack \<Rightarrow> cond_result run" where
  "process_if pp tokens i stack =
    (let line = tk_line (tokens ! i);
         expr = line_tokens tokens line (i + 1);
         exprEnd = line_end tokens line (i + 1);
         parent = conditional_stack_is_active stack;
         finish = (\<lambda>cond. Ret \<lparr>cr_stack = push_conditional (if_frame parent cond) stack,
                              cr_cursor = last_of_line exprEnd, cr_diags = [], cr_ok = True\<rparr>)
     in if \<not> parent then finish False
        else run_bind (eval_condition pp expr)
          (\<lambda>r. case r of
               None \<Rightarrow> Ret (failed stack i [])
             | Some None \<Rightarrow> Ret (failed stack i [''invalid #if expression''])
             | Some (Some value) \<Rightarrow> finish (value \<noteq> 0)))"

definition directive_name :: "bool \<Rightarrow> string" where
  "directive_name negate = (if negate then ''ifndef'' else ''ifdef'')"

definition process_ifdeflike :: "pp_env \<Rightarrow> Token list \<Rightarrow> nat \<Rightarrow> cond_stack \<Rightarrow> bool \<Rightarrow> cond_result" where
  "process_ifdeflike pp tokens i0 stack negate =
    (let line = tk_line (tokens ! i0); i = i0 + 1 in
     if i \<ge> length tokens \<or> tk_line (tokens ! i) \<noteq> line \<or> \<not> token_is_macro_identifier (tokens ! i) then
       failed stack i0 [''expected identifier after #'' @ directive_name negate]
     else
       let name = tk_value (tokens ! i); j = i + 1 in
       if j < length tokens \<and> tk_type (tokens ! j) \<noteq> TOKEN_EOF \<and> tk_line (tokens ! j) = line then
         failed stack i0 [''unexpected tokens after #'' @ directive_name negate @ '' directive'']
       else
         let parent = conditional_stack_is_active stack;
             isDefined = (parent \<and> macro_table_lookup (pp_table pp) name \<noteq> None)
         in \<lparr>cr_stack = push_conditional (if_frame parent (if negate then \<not> isDefined else isDefined)) stack,
             cr_cursor = last_of_line (line_end tokens line j), cr_diags = [], cr_ok = True\<rparr>)"

definition elif_frame :: "PPConditionalFrame \<Rightarrow> bool \<Rightarrow> PPConditionalFrame" where
  "elif_frame f newActive =
    f\<lparr>selfActive := parentActive f \<and> newActive,
      branchTaken := (if newActive \<and> parentActive f then True else branchTaken f)\<rparr>"

definition process_elif :: "pp_env \<Rightarrow> Token list \<Rightarrow> nat \<Rightarrow> cond_stack \<Rightarrow> cond_result run" where
  "process_elif pp tokens i stack =
    (case stack of
       [] \<Rightarrow> Ret \<lparr>cr_stack = [], cr_cursor = i, cr_diags = [''#elif without matching #if''],
                 cr_ok = pp_lenientMissingIncludes pp\<rparr>
     | f # fs \<Rightarrow>
        (let line = tk_line (tokens ! i);
             expr = line_tokens tokens line (i + 1);
             exprEnd = line_end tokens line (i + 1);
             finish = (\<lambda>active. Ret \<lparr>cr_stack = elif_frame f active # fs, cr_cursor = last_of_line exprEnd,
                                    cr_diags = [], cr_ok = True\<rparr>)
         in if sawElse f then
              Ret \<lparr>cr_stack = stack, cr_cursor = i, cr_diags = [''#elif after #else''],
                   cr_ok = pp_lenientMissingIncludes pp\<rparr>
            else if parentActive f \<and> \<not> branchTaken f then
              run_bind (eval_condition pp expr)
                (\<lambda>r. case r of
                     None \<Rightarrow> Ret (failed stack i [])
                   | Some None \<Rightarrow> Ret (failed stack i [''invalid #elif expression''])
                   | Some (Some value) \<Rightarrow> finish (value \<noteq> 0))
            else finish False))"

definition else_frame :: "PPConditionalFrame \<Rightarrow> PPConditionalFrame" where
  "else_frame f =
    (let newActive = (parentActive f \<and> \<not> branchTaken f)
     in f\<lparr>selfActive := newActive, branchTaken := (if newActive then True else branchTaken f), sawElse := True\<rparr>)"

definition process_else :: "pp_env \<Rightarrow> nat \<Rightarrow> cond_stack \<Rightarrow> cond_result" where
  "process_else pp i stack =
    (case stack of
       [] \<Rightarrow> \<lparr>cr_stack = [], cr_cursor = i, cr_diags = [''#else without matching #if''],
             cr_ok = pp_lenientMissingIncludes pp\<rparr>
     | f # fs \<Rightarrow>
        if sawElse f then \<lparr>cr_stack = stack, cr_cursor = i, cr_diags = [''duplicate #else''],
                           cr_ok = pp_lenientMissingIncludes pp\<rparr>
        else \<lparr>cr_stack = else_frame f # fs, cr_cursor = i, cr_diags = [], cr_ok = True\<rparr>)"

definition process_endif :: "pp_env \<Rightarrow> nat \<Rightarrow> cond_stack \<Rightarrow> cond_result" where
  "process_endif pp i stack =
    (case stack of
       [] \<Rightarrow> \<lparr>cr_stack = [], cr_cursor = i, cr_diags = [''#endif without matching #if''],
             cr_ok = pp_lenientMissingIncludes pp\<rparr>
     | f # fs \<Rightarrow> \<lparr>cr_stack = fs, cr_cursor = i, cr_diags = [], cr_ok = True\<rparr>)"

end
