(* ===== verification/PP_Conditionals_Props.thy ===== *)
theory PP_Conditionals_Props
  imports PP_Conditionals PP_Expr_Grammar Macro_Table_Props
begin

text \<open>
  Text is processed exactly when every enclosing group is in its taken branch; a group in active text
  activates the first of its branches whose condition holds and no other; a condition is the value of
  its expression.
\<close>

section \<open>Reachable stacks\<close>

inductive cond_step :: "pp_env \<Rightarrow> cond_stack \<Rightarrow> cond_stack \<Rightarrow> bool" for pp where
  step_if: "process_if pp ts i s = Ret r \<Longrightarrow> cr_ok r \<Longrightarrow> cond_step pp s (cr_stack r)"
| step_ifdef: "cr_ok (process_ifdeflike pp ts i s neg) \<Longrightarrow> cond_step pp s (cr_stack (process_ifdeflike pp ts i s neg))"
| step_elif: "process_elif pp ts i s = Ret r \<Longrightarrow> cr_ok r \<Longrightarrow> cond_step pp s (cr_stack r)"
| step_else: "cr_ok (process_else pp i s) \<Longrightarrow> cond_step pp s (cr_stack (process_else pp i s))"
| step_endif: "cr_ok (process_endif pp i s) \<Longrightarrow> cond_step pp s (cr_stack (process_endif pp i s))"

inductive cond_reachable :: "pp_env \<Rightarrow> cond_stack \<Rightarrow> bool" for pp where
  start: "cond_reachable pp []"
| step: "cond_reachable pp s \<Longrightarrow> cond_step pp s s' \<Longrightarrow> cond_reachable pp s'"

text \<open>What a successful directive does to the stack.\<close>

definition condition_holds :: "pp_env \<Rightarrow> Token list \<Rightarrow> bool" where
  "condition_holds pp expr \<longleftrightarrow>
    (\<exists>prepared v. pp_prepare pp expr = Some prepared \<and>
      pp_expr_eval_tokens (pp_exprMacros pp) (if prepared \<noteq> [] then prepared else expr) = Ret (Some v) \<and> v \<noteq> 0)"

definition line_condition :: "pp_env \<Rightarrow> Token list \<Rightarrow> nat \<Rightarrow> bool" where
  "line_condition pp ts i \<longleftrightarrow> condition_holds pp (line_tokens ts (tk_line (ts ! i)) (i + 1))"

definition name_defined :: "pp_env \<Rightarrow> Token \<Rightarrow> bool" where
  "name_defined pp t \<longleftrightarrow> (\<exists>d \<in> set (mt_macros (pp_table pp)). md_name d = tk_value t)"

lemma eval_condition_holds:
  assumes "eval_condition pp expr = Ret (Some (Some v))"
  shows "v \<noteq> 0 \<longleftrightarrow> condition_holds pp expr"
proof -
  obtain prepared where p: "pp_prepare pp expr = Some prepared"
    using assms by (cases "pp_prepare pp expr") (simp_all add: eval_condition_def)
  let ?run = "pp_expr_eval_tokens (pp_exprMacros pp) (if prepared \<noteq> [] then prepared else expr)"
  have "run_bind ?run (\<lambda>r. Ret (Some r)) = Ret (Some (Some v))"
    using assms p by (simp add: eval_condition_def)
  then have "?run = Ret (Some v)" by (cases ?run) simp_all
  then show ?thesis using p by (simp add: condition_holds_def)
qed

lemma lookup_defined:
  "tk_value t \<noteq> None \<Longrightarrow> macro_table_lookup (pp_table pp) (tk_value t) \<noteq> None \<longleftrightarrow> name_defined pp t"
  using macro_index_None [of "the (tk_value t)" "mt_macros (pp_table pp)"]
  by (force simp: macro_table_lookup_def name_defined_def)

lemma process_if_ok:
  assumes "process_if pp ts i s = Ret r" "cr_ok r"
  obtains c where "cr_stack r = if_frame (conditional_stack_is_active s) c # s"
    "conditional_stack_is_active s \<Longrightarrow> c = line_condition pp ts i"
proof (cases "conditional_stack_is_active s")
  case True
  then obtain v where "eval_condition pp (line_tokens ts (tk_line (ts ! i)) (i + 1)) = Ret (Some (Some v))"
      "cr_stack r = if_frame True (v \<noteq> 0) # s"
    using assms by (cases "eval_condition pp (line_tokens ts (tk_line (ts ! i)) (i + 1))")
      (auto simp: process_if_def Let_def push_conditional_def failed_def split: option.splits)
  then show thesis using that [of "v \<noteq> 0"] True eval_condition_holds by (simp add: line_condition_def)
qed (use assms that [of False] in \<open>auto simp: process_if_def Let_def push_conditional_def\<close>)

lemma process_ifdeflike_ok:
  assumes "cr_ok (process_ifdeflike pp ts i s neg)"
  obtains c where "cr_stack (process_ifdeflike pp ts i s neg) = if_frame (conditional_stack_is_active s) c # s"
    "conditional_stack_is_active s \<Longrightarrow> c = (name_defined pp (ts ! Suc i) \<noteq> neg)"
  using assms lookup_defined [of "ts ! Suc i" pp]
  by (auto simp: process_ifdeflike_def Let_def push_conditional_def failed_def token_is_macro_identifier_def
      split: if_splits)

lemma process_elif_ok:
  assumes "process_elif pp ts i s = Ret r" "cr_ok r" "cr_diags r = []"
  obtains f fs where "s = f # fs" "\<not> sawElse f"
    "cr_stack r = elif_frame f (parentActive f \<and> \<not> branchTaken f \<and> line_condition pp ts i) # fs"
  using assms eval_condition_holds
  by (cases "eval_condition pp (line_tokens ts (tk_line (ts ! i)) (i + 1))")
    (auto simp: process_elif_def Let_def failed_def line_condition_def split: if_splits option.splits list.splits)

lemma process_elif_kept:
  assumes "process_elif pp ts i s = Ret r" "cr_ok r" "cr_diags r \<noteq> []"
  shows "cr_stack r = s"
  using assms by (cases "eval_condition pp (line_tokens ts (tk_line (ts ! i)) (i + 1))")
    (auto simp: process_elif_def Let_def failed_def split: if_splits option.splits list.splits)

lemma process_else_ok:
  "cr_ok (process_else pp i s) \<Longrightarrow>
    cr_stack (process_else pp i s) = s \<and> cr_diags (process_else pp i s) \<noteq> [] \<or>
    (\<exists>f fs. s = f # fs \<and> \<not> sawElse f \<and> cr_stack (process_else pp i s) = else_frame f # fs)"
  by (auto simp: process_else_def split: list.splits)

text \<open>A frame is active only inside an active parent, whose state it recorded when it was opened.\<close>

fun chain_ok :: "cond_stack \<Rightarrow> bool" where
  "chain_ok [] = True"
| "chain_ok (f # fs) = (parentActive f = conditional_stack_is_active fs \<and> (selfActive f \<longrightarrow> parentActive f) \<and> chain_ok fs)"

lemmas frame_defs = if_frame_def elif_frame_def else_frame_def

lemma cond_step_chain: "cond_step pp s s' \<Longrightarrow> chain_ok s \<Longrightarrow> chain_ok s'"
proof (induction rule: cond_step.induct)
  case (step_if ts i s r)
  then show ?case by (elim process_if_ok) (auto simp: frame_defs)
next
  case (step_ifdef ts i s neg)
  then show ?case by (elim process_ifdeflike_ok) (auto simp: frame_defs)
next
  case (step_elif ts i s r)
  then show ?case
  proof (cases "cr_diags r = []")
    case True
    with step_elif show ?thesis by (elim process_elif_ok) (auto simp: frame_defs)
  qed (use process_elif_kept in simp)
next
  case (step_else i s)
  then show ?case using process_else_ok [OF step_else(1)] by (auto simp: frame_defs Let_def)
next
  case (step_endif i s)
  then show ?case by (auto simp: process_endif_def split: list.splits)
qed

lemma chain_active: "chain_ok s \<Longrightarrow> conditional_stack_is_active s \<longleftrightarrow> (\<forall>f \<in> set s. selfActive f)"
  by (induction s) (auto simp: conditional_stack_is_active_def)

text \<open>
  C17. After any sequence of successful directives, text is processed exactly when every open group is
  in its active branch.\<close>
theorem conditional_active_iff_all_branches:
  assumes "cond_reachable pp s"
  shows "conditional_stack_is_active s \<longleftrightarrow> (\<forall>f \<in> set s. selfActive f)"
proof -
  have "chain_ok s" using assms by (induction rule: cond_reachable.induct) (auto intro: cond_step_chain)
  then show ?thesis by (rule chain_active)
qed

definition plain_env :: pp_env where
  "plain_env = \<lparr>pp_table = macro_table_create, pp_exprMacros = Some macro_table_create, pp_prepare = Some,
    pp_lenientMissingIncludes = False\<rparr>"

definition ifdef_line :: "Token list" where
  "ifdef_line = [mk_token TOKEN_IFDEF ''ifdef'' 1, mk_token TOKEN_IDENTIFIER ''DEBUG'' 1, mk_token TOKEN_EOF [] 2]"

text \<open>\<open>#ifdef DEBUG\<close> with no macros, then \<open>#else\<close>.\<close>

lemma ifdef_line_result:
  "process_ifdeflike plain_env ifdef_line 0 [] False =
    \<lparr>cr_stack = [if_frame True False], cr_cursor = 1, cr_diags = [], cr_ok = True\<rparr>"
  by (simp add: process_ifdeflike_def ifdef_line_def plain_env_def token_is_macro_identifier_def
      conditional_stack_is_active_def macro_table_lookup_def macro_table_create_def push_conditional_def
      last_of_line_def line_end_def line_tokens_def)

lemma ifdef_line_step: "cond_step plain_env [] [if_frame True False]"
  using step_ifdef [of plain_env ifdef_line 0 "[]" False] by (simp add: ifdef_line_result)

theorem conditional_active_iff_all_branches_witness:
  "conditional_stack_is_active [if_frame True False] \<longleftrightarrow> (\<forall>f \<in> set [if_frame True False]. selfActive f)"
  by (rule conditional_active_iff_all_branches [OF cond_reachable.step [OF cond_reachable.start ifdef_line_step]])

section \<open>One group\<close>

text \<open>
  The directives of one group opened on a stack: \<open>group pp fs s conds acts\<close> says that the group opened on
  \<open>fs\<close> has led to \<open>s\<close>, that the conditions of its branches so far hold as \<open>conds\<close> tells (an \<open>#else\<close> always
  does), and that its branches were active as \<open>acts\<close> tells. Groups nested in a branch leave the frame of
  this group as it is.
\<close>

inductive group :: "pp_env \<Rightarrow> cond_stack \<Rightarrow> cond_stack \<Rightarrow> bool list \<Rightarrow> bool list \<Rightarrow> bool" for pp fs where
  open_if: "process_if pp ts i fs = Ret r \<Longrightarrow> cr_ok r \<Longrightarrow>
    group pp fs (cr_stack r) [line_condition pp ts i] [conditional_stack_is_active (cr_stack r)]"
| open_ifdef: "cr_ok (process_ifdeflike pp ts i fs neg) \<Longrightarrow>
    group pp fs (cr_stack (process_ifdeflike pp ts i fs neg)) [name_defined pp (ts ! Suc i) \<noteq> neg]
      [conditional_stack_is_active (cr_stack (process_ifdeflike pp ts i fs neg))]"
| next_elif: "group pp fs s conds acts \<Longrightarrow> process_elif pp ts i s = Ret r \<Longrightarrow> cr_ok r \<Longrightarrow> cr_diags r = [] \<Longrightarrow>
    group pp fs (cr_stack r) (conds @ [line_condition pp ts i])
      (acts @ [conditional_stack_is_active (cr_stack r)])"
| next_else: "group pp fs s conds acts \<Longrightarrow> cr_ok (process_else pp i s) \<Longrightarrow> cr_diags (process_else pp i s) = [] \<Longrightarrow>
    group pp fs (cr_stack (process_else pp i s)) (conds @ [True])
      (acts @ [conditional_stack_is_active (cr_stack (process_else pp i s))])"

text \<open>The branch C selects: the first whose condition holds, in active text.\<close>

definition selected :: "bool \<Rightarrow> bool list \<Rightarrow> bool list" where
  "selected active conds = map (\<lambda>k. active \<and> conds ! k \<and> (\<forall>j < k. \<not> conds ! j)) [0..<length conds]"

lemma selected_single: "selected active [c] = [active \<and> c]"
  by (simp add: selected_def)

lemma selected_snoc: "selected active (conds @ [c]) = selected active conds @ [active \<and> c \<and> True \<notin> set conds]"
  by (auto simp: selected_def nth_append in_set_conv_nth)

lemma selected_one: "length (filter id (selected active conds)) = (if active \<and> True \<in> set conds then 1 else 0)"
  by (induction conds rule: rev_induct) (auto simp: selected_snoc, simp add: selected_def)

definition group_ok :: "cond_stack \<Rightarrow> PPConditionalFrame \<Rightarrow> bool list \<Rightarrow> bool list \<Rightarrow> bool" where
  "group_ok fs f conds acts \<longleftrightarrow>
    parentActive f = conditional_stack_is_active fs \<and> acts = selected (parentActive f) conds \<and>
    (branchTaken f \<longleftrightarrow> parentActive f \<and> True \<in> set conds) \<and> (sawElse f \<longrightarrow> True \<in> set conds)"

lemmas group_defs = group_ok_def frame_defs conditional_stack_is_active_def selected_single selected_snoc

lemma group_frame: "group pp fs s conds acts \<Longrightarrow> \<exists>f. s = f # fs \<and> group_ok fs f conds acts"
proof (induction rule: group.induct)
  case (open_if ts i r)
  then show ?case by (elim process_if_ok) (auto simp: group_defs)
next
  case (open_ifdef ts i neg)
  then show ?case by (elim process_ifdeflike_ok) (auto simp: group_defs)
next
  case (next_elif s conds acts ts i r)
  from next_elif(2-4) show ?case by (rule process_elif_ok) (use next_elif.IH in \<open>auto simp: group_defs\<close>)
next
  case (next_else s conds acts i)
  then obtain f where f: "s = f # fs" "group_ok fs f conds acts" "cr_stack (process_else pp i s) = else_frame f # fs"
    using process_else_ok [OF next_else(2)] by auto
  then show ?case by (auto simp: group_defs Let_def)
qed

text \<open>
  C16. Of the branches of one \<open>#if\<close> group, the active one is the first whose condition holds: branch \<open>k\<close> is
  active exactly when the group stands in active text, its condition holds (for \<open>#if\<close> and \<open>#elif\<close> the
  expression of the line evaluates to a value other than 0, for \<open>#ifdef\<close> and \<open>#ifndef\<close> the name is or is not
  that of a macro, for \<open>#else\<close> always) and no earlier one does. So at most one branch is active, and exactly
  one in active text after an \<open>#else\<close>.\<close>
theorem conditional_group_one_branch:
  assumes "group pp fs s conds acts"
  shows "length acts = length conds \<and>
    (\<forall>k < length conds. acts ! k \<longleftrightarrow> conditional_stack_is_active fs \<and> conds ! k \<and> (\<forall>j < k. \<not> conds ! j)) \<and>
    length (filter id acts) \<le> 1 \<and>
    (\<exists>f. s = f # fs \<and> (sawElse f \<and> conditional_stack_is_active fs \<longrightarrow> length (filter id acts) = 1))"
proof -
  obtain f where f: "s = f # fs" "group_ok fs f conds acts" using group_frame [OF assms] by blast
  then have acts: "acts = selected (conditional_stack_is_active fs) conds" and saw: "sawElse f \<longrightarrow> True \<in> set conds"
    unfolding group_ok_def by metis+
  show ?thesis
    unfolding acts selected_one using f(1) saw by (simp add: selected_def)
qed

theorem conditional_group_one_branch_witness:
  "group plain_env [] [else_frame (if_frame True False)] [False, True] [False, True] \<and>
   length (filter id [False, True]) = 1 \<and> [False, True] ! 1"
proof -
  have "\<not> name_defined plain_env (ifdef_line ! Suc 0)"
    by (simp add: name_defined_def plain_env_def macro_table_create_def)
  then have "group plain_env [] [if_frame True False] [False] [False]"
    using open_ifdef [of plain_env ifdef_line 0 "[]" False]
    by (simp add: ifdef_line_result conditional_stack_is_active_def if_frame_def)
  from next_else [OF this, of 3]
  have g: "group plain_env [] [else_frame (if_frame True False)] [False, True] [False, True]"
    by (simp add: process_else_def frame_defs conditional_stack_is_active_def)
  have "[False, True] ! 1"
    using conjunct1 [OF conjunct2 [OF conditional_group_one_branch [OF g]], rule_format, of 1]
    by (simp add: conditional_stack_is_active_def)
  then show ?thesis using g by simp
qed

section \<open>Conditions\<close>

text \<open>
  In active text \<open>#if\<close> opens a group whose first branch is active exactly when the value of the
  expression, converted to \<open>int32_t\<close>, is not zero, for every well-formed expression that has a value
  after macro expansion.\<close>
theorem process_if_selects_by_value:
  assumes "conditional_stack_is_active stack"
    and "pp_prepare pp (line_tokens tokens (tk_line (tokens ! i)) (i + 1)) = Some (toks e)"
    and "wf_expr e" "sem (pp_exprMacros pp) e = Some v"
  shows "\<exists>r. process_if pp tokens i stack = Ret r \<and> cr_ok r \<and>
    cr_stack r = if_frame True (to_int32 (bits v) \<noteq> 0) # stack"
proof -
  have "pp_expr_eval_tokens (pp_exprMacros pp) (toks e) = Ret (Some (to_int32 (bits v)))"
    using pp_expr_value [OF assms(3,4), of "[]"] by simp
  then show ?thesis
    using assms(1,2) by (simp add: process_if_def Let_def eval_condition_def push_conditional_def)
qed

definition seven_line :: "Token list" where
  "seven_line = [mk_token TOKEN_PP_IF ''if'' 1, mk_token TOKEN_NUMBER ''7'' 1, mk_token TOKEN_EOF [] 2]"

theorem process_if_selects_by_value_witness:
  "\<exists>r. process_if plain_env seven_line 0 [] = Ret r \<and> cr_ok r \<and> cr_stack r = [if_frame True True]"
proof -
  let ?e = "PNum (mk_token TOKEN_NUMBER ''7'' 1)"
  have v: "sem (pp_exprMacros plain_env) ?e = Some (pp_value_signed 7)" by code_simp
  have "to_int32 (bits (pp_value_signed 7)) = 7" by code_simp
  moreover have "pp_prepare plain_env (line_tokens seven_line (tk_line (seven_line ! 0)) (0 + 1)) = Some (toks ?e)"
    by (simp add: plain_env_def seven_line_def line_tokens_def)
  ultimately show ?thesis
    using process_if_selects_by_value [OF _ _ _ v, of "[]" seven_line 0] by (simp add: conditional_stack_is_active_def)
qed

text \<open>
  The conversion of the value to \<open>int32_t\<close> loses the upper half: \<open>#if 0x100000000\<close>, whose value is
  not zero, opens an inactive branch. And a quotient that does not fit 64 bits is computed with C's
  undefined signed division.\<close>
theorem if_condition_truncated:
  "(\<exists>v. sem None (PNum (mk_token TOKEN_NUMBER ''0x100000000'' 1)) = Some v \<and> pp_value_truthy v) \<and>
   pp_expr_eval_tokens None [mk_token TOKEN_NUMBER ''0x100000000'' 1] = Ret (Some 0) \<and>
   pp_expr_eval_tokens None
     [mk_token TOKEN_LPAREN [] 1, mk_token TOKEN_MINUS [] 1, mk_token TOKEN_NUMBER ''9223372036854775807'' 1,
      mk_token TOKEN_MINUS [] 1, mk_token TOKEN_NUMBER ''1'' 1, mk_token TOKEN_RPAREN [] 1,
      mk_token TOKEN_DIVIDE [] 1, mk_token TOKEN_MINUS [] 1, mk_token TOKEN_NUMBER ''1'' 1] = Stuck"
proof (intro conjI)
  have "sem None (PNum (mk_token TOKEN_NUMBER ''0x100000000'' 1)) = Some (pp_value_signed 4294967296)" by code_simp
  moreover have "pp_value_truthy (pp_value_signed 4294967296)" by code_simp
  ultimately show "\<exists>v. sem None (PNum (mk_token TOKEN_NUMBER ''0x100000000'' 1)) = Some v \<and> pp_value_truthy v"
    by blast
qed code_simp+

end
