(* ===== verification/Include_Graph.thy ===== *)
theory Include_Graph
  imports Prelude
begin

text \<open>
  The include graph, \<open>src/src/Preprocessor/include_graph.c\<close>: the edges in the order they were found and an
  open-addressing hash index over them (slot \<open>0\<close> is empty, slot \<open>i + 1\<close> holds edge \<open>i\<close>), and its JSON
  form. Counts and capacities are natural numbers (the edges live in memory, so they are far below
  \<open>SIZE_MAX\<close>); allocation succeeds; writing the file is an argument. The probe loop carries a
  bound, the capacity, which \<open>Include_Graph_Props\<close> shows is not reached.
\<close>

section \<open>Data\<close>

type_synonym IncludeEdge = "string \<times> string"

record IncludeGraph =
  ig_edges :: "IncludeEdge list"
  ig_hashSlots :: "nat list"

abbreviation ig_count :: "IncludeGraph \<Rightarrow> nat" where
  "ig_count g \<equiv> length (ig_edges g)"

abbreviation ig_hashCapacity :: "IncludeGraph \<Rightarrow> nat" where
  "ig_hashCapacity g \<equiv> length (ig_hashSlots g)"

section \<open>Hashing\<close>

fun hash_chars :: "u64 \<Rightarrow> string \<Rightarrow> u64" where
  "hash_chars h [] = h"
| "hash_chars h (c # cs) = hash_chars ((h XOR word_of_nat (of_char c)) * 1099511628211) cs"

definition include_graph_hash_string :: "string \<Rightarrow> u64" where
  "include_graph_hash_string s = hash_chars 1469598103934665603 s"

definition include_graph_hash_edge :: "string \<Rightarrow> string \<Rightarrow> u64" where
  "include_graph_hash_edge from to =
    (let h1 = include_graph_hash_string from;
         h2 = (h1 XOR 0x9e3779b97f4a7c15) * 1099511628211
     in (h2 XOR include_graph_hash_string to) * 1099511628211)"

definition edge_hash :: "IncludeEdge \<Rightarrow> u64" where
  "edge_hash e = include_graph_hash_edge (fst e) (snd e)"

text \<open>The slot \<open>hash & mask\<close> and the next one, \<open>(slot + 1) & mask\<close>.\<close>

definition first_slot :: "nat \<Rightarrow> u64 \<Rightarrow> nat" where
  "first_slot cap h = (unat h AND (cap - 1))"

definition next_slot :: "nat \<Rightarrow> nat \<Rightarrow> nat" where
  "next_slot cap s = ((s + 1) AND (cap - 1))"

section \<open>The hash index\<close>

text \<open>The loop that looks for an empty slot while the index is rebuilt.\<close>

fun free_slot :: "nat \<Rightarrow> nat list \<Rightarrow> nat \<Rightarrow> nat option" where
  "free_slot 0 slots s = None"
| "free_slot (Suc fuel) slots s =
    (if slots ! s \<noteq> 0 then free_slot fuel slots (next_slot (length slots) s) else Some s)"

definition rehash_edge :: "IncludeEdge \<Rightarrow> nat \<Rightarrow> nat list \<Rightarrow> nat list option" where
  "rehash_edge e i slots =
    map_option (\<lambda>s. slots[s := i + 1]) (free_slot (length slots) slots (first_slot (length slots) (edge_hash e)))"

fun rehash_from :: "IncludeEdge list \<Rightarrow> nat \<Rightarrow> nat list \<Rightarrow> nat list option" where
  "rehash_from [] i slots = Some slots"
| "rehash_from (e # es) i slots =
    (case rehash_edge e i slots of None \<Rightarrow> None | Some slots' \<Rightarrow> rehash_from es (i + 1) slots')"

text \<open>Doubling until large enough; the code's guard against \<open>SIZE_MAX / 2\<close> is out of reach.\<close>

function grow_to :: "nat \<Rightarrow> nat \<Rightarrow> nat" where
  "grow_to minCap cap = (if cap < minCap \<and> cap > 0 then grow_to minCap (cap * 2) else cap)"
  by pat_completeness auto
termination by (relation "measure (\<lambda>(m, c). m - c)") auto

declare grow_to.simps [simp del]

definition include_graph_hash_reserve :: "IncludeGraph \<Rightarrow> nat \<Rightarrow> IncludeGraph option" where
  "include_graph_hash_reserve g minCapacity =
    (let newCapacity = grow_to minCapacity (if ig_hashCapacity g \<noteq> 0 then ig_hashCapacity g else 16)
     in map_option (\<lambda>slots. g\<lparr>ig_hashSlots := slots\<rparr>) (rehash_from (ig_edges g) 0 (replicate newCapacity 0)))"

text \<open>The capacity that keeps the load under seven tenths after one more edge.\<close>

function needed_capacity :: "nat \<Rightarrow> nat \<Rightarrow> nat" where
  "needed_capacity count cap =
    (if (count + 1) * 10 \<ge> cap * 7 \<and> cap > 0 then needed_capacity count (cap * 2) else cap)"
  by pat_completeness auto
termination by (relation "measure (\<lambda>(n, c). Suc (n + 1) * 10 - c * 7)") auto

declare needed_capacity.simps [simp del]

definition include_graph_hash_ensure_for_insert :: "IncludeGraph \<Rightarrow> IncludeGraph option" where
  "include_graph_hash_ensure_for_insert g =
    (let minCapacity = needed_capacity (ig_count g) (if ig_hashCapacity g = 0 then 16 else ig_hashCapacity g)
     in if ig_hashCapacity g = minCapacity then Some g else include_graph_hash_reserve g minCapacity)"

fun edge_slot_loop :: "nat \<Rightarrow> IncludeGraph \<Rightarrow> IncludeEdge \<Rightarrow> nat \<Rightarrow> (nat \<times> bool) option" where
  "edge_slot_loop 0 g e s = None"
| "edge_slot_loop (Suc fuel) g e s =
    (if ig_hashSlots g ! s = 0 then Some (s, False)
     else
       let i = ig_hashSlots g ! s - 1 in
       if i < ig_count g \<and> ig_edges g ! i = e then Some (s, True)
       else edge_slot_loop fuel g e (next_slot (ig_hashCapacity g) s))"

definition include_graph_find_slot :: "IncludeGraph \<Rightarrow> string \<Rightarrow> string \<Rightarrow> (nat \<times> bool) option" where
  "include_graph_find_slot g from to =
    (if ig_hashCapacity g = 0 then Some (0, False)
     else edge_slot_loop (ig_hashCapacity g) g (from, to)
            (first_slot (ig_hashCapacity g) (include_graph_hash_edge from to)))"

section \<open>Operations\<close>

definition include_graph_init :: IncludeGraph where
  "include_graph_init = \<lparr>ig_edges = [], ig_hashSlots = []\<rparr>"

definition include_graph_destroy :: "IncludeGraph \<Rightarrow> IncludeGraph" where
  "include_graph_destroy g = \<lparr>ig_edges = [], ig_hashSlots = []\<rparr>"

text \<open>\<open>None\<close> is a probe that does not end; the flag is the C result.\<close>

definition include_graph_add :: "IncludeGraph \<Rightarrow> cstr \<Rightarrow> cstr \<Rightarrow> (IncludeGraph \<times> bool) option" where
  "include_graph_add g from0 to0 =
    (case (from0, to0) of
       (Some from, Some to) \<Rightarrow>
         (case include_graph_hash_ensure_for_insert g of
            None \<Rightarrow> None
          | Some g1 \<Rightarrow>
             (case include_graph_find_slot g1 from to of
                None \<Rightarrow> None
              | Some (slot, found) \<Rightarrow>
                  if found then Some (g1, True)
                  else Some (g1\<lparr>ig_edges := ig_edges g1 @ [(from, to)],
                                ig_hashSlots := (ig_hashSlots g1)[slot := ig_count g1 + 1]\<rparr>, True)))
     | _ \<Rightarrow> Some (g, False))"

fun clone_edges :: "IncludeEdge list \<Rightarrow> IncludeGraph \<Rightarrow> (IncludeGraph \<times> bool) option" where
  "clone_edges [] d = Some (d, True)"
| "clone_edges (e # es) d =
    (case include_graph_add d (Some (fst e)) (Some (snd e)) of
       None \<Rightarrow> None
     | Some (d', ok) \<Rightarrow> if ok then clone_edges es d' else Some (include_graph_destroy d', False))"

definition include_graph_clone :: "IncludeGraph option \<Rightarrow> (IncludeGraph \<times> bool) option" where
  "include_graph_clone src =
    (case src of None \<Rightarrow> Some (include_graph_init, True) | Some g \<Rightarrow> clone_edges (ig_edges g) include_graph_init)"

section \<open>JSON\<close>

definition graph_json_escape :: "char \<Rightarrow> string" where
  "graph_json_escape c =
    (if c = CHR 0x5C \<or> c = CHR 0x22 then [CHR 0x5C, c]
     else if c = CHR 0x0A then [CHR 0x5C, CHR ''n'']
     else if c = CHR 0x0D then [CHR 0x5C, CHR ''r'']
     else if c = CHR 0x09 then [CHR 0x5C, CHR ''t'']
     else [c])"

definition graph_json_append_escaped :: "string \<Rightarrow> string \<Rightarrow> string" where
  "graph_json_append_escaped b s = b @ [CHR 0x22] @ concat (map graph_json_escape s) @ [CHR 0x22]"

definition quoted :: "string \<Rightarrow> string" where
  "quoted s = [CHR 0x22] @ s @ [CHR 0x22]"

definition graph_json_edge :: "string \<Rightarrow> IncludeEdge \<Rightarrow> string" where
  "graph_json_edge b e =
    graph_json_append_escaped
      (graph_json_append_escaped (b @ ''{'' @ quoted ''from'' @ '':'') (fst e) @ '','' @ quoted ''to'' @ '':'') (snd e) @ ''}''"

fun graph_json_edges :: "nat \<Rightarrow> IncludeEdge list \<Rightarrow> string \<Rightarrow> string" where
  "graph_json_edges i [] b = b"
| "graph_json_edges i (e # es) b = graph_json_edges (i + 1) es (graph_json_edge (if i \<noteq> 0 then b @ '','' else b) e)"

definition include_graph_json :: "IncludeGraph \<Rightarrow> string" where
  "include_graph_json g =
    graph_json_edges 0 (ig_edges g) (''{'' @ quoted ''edges'' @ '':['') @ '']}'' @ [CHR 0x0A]"

text \<open>\<open>core_io_write_all\<close> is an argument.\<close>

definition include_graph_write_json :: "(string \<Rightarrow> string \<Rightarrow> bool) \<Rightarrow> IncludeGraph \<Rightarrow> cstr \<Rightarrow> bool" where
  "include_graph_write_json write g outPath =
    (case outPath of None \<Rightarrow> False | Some path \<Rightarrow> if path = [] then False else write path (include_graph_json g))"

end
