(* ===== verification/Include_Graph_Props.thy ===== *)
theory Include_Graph_Props
  imports Include_Graph
begin

text \<open>
  The include graph is a set of edges kept in the order they were found. The theory states what the
  hash index must satisfy for a probe to find every edge (\<open>indexed\<close>), shows that insertion and
  rehashing keep it and that every probe ends, and derives the contract \<open>insertion_set\<close>. The last part
  reads the written JSON back.
\<close>

section \<open>The contract: a set in insertion order\<close>

definition add_new :: "'e \<Rightarrow> 'e list \<Rightarrow> 'e list" where
  "add_new e xs = (if e \<in> set xs then xs else xs @ [e])"

definition first_occurrences :: "'e list \<Rightarrow> 'e list" where
  "first_occurrences xs = rev (remdups (rev xs))"

lemma set_add_new [simp]: "set (add_new e xs) = insert e (set xs)"
  by (auto simp: add_new_def)

lemma distinct_add_new [simp]: "distinct xs \<Longrightarrow> distinct (add_new e xs)"
  by (simp add: add_new_def)

lemma first_occurrences_snoc: "first_occurrences (xs @ [e]) = add_new e (first_occurrences xs)"
  by (simp add: first_occurrences_def add_new_def)

lemma first_occurrences_distinct: "distinct xs \<Longrightarrow> first_occurrences xs = xs"
  by (simp add: first_occurrences_def distinct_remdups_id)

locale insertion_set =
  fixes inv :: "'s \<Rightarrow> bool"
    and elems :: "'s \<Rightarrow> 'e list"
    and insert_elem :: "'e \<Rightarrow> 's \<Rightarrow> 's"
  assumes inv_insert: "inv s \<Longrightarrow> inv (insert_elem e s)"
    and elems_insert: "inv s \<Longrightarrow> elems (insert_elem e s) = add_new e (elems s)"
begin

lemma inv_inserts: "inv s \<Longrightarrow> inv (fold insert_elem es s)"
  by (induction es arbitrary: s) (auto simp: inv_insert)

lemma elems_inserts:
  assumes "inv s" "elems s = []"
  shows "elems (fold insert_elem es s) = first_occurrences es"
proof (induction es rule: rev_induct)
  case Nil
  show ?case using assms(2) by (simp add: first_occurrences_def)
next
  case (snoc e es)
  then show ?case using inv_inserts [OF assms(1)] by (simp add: elems_insert first_occurrences_snoc)
qed

end

section \<open>Probe sequences\<close>

lemma nat_and_mask: "(a::nat) AND (2 ^ n - 1) = a mod 2 ^ n" "(a::nat) AND (2 ^ n - Suc 0) = a mod 2 ^ n"
  using take_bit_eq_mask [of n a] by (simp_all add: mask_eq_exp_minus_1 take_bit_eq_mod)

definition pow2 :: "nat \<Rightarrow> bool" where
  "pow2 c \<longleftrightarrow> (\<exists>n. c = 2 ^ n)"

lemma pow2_pos [simp]: "pow2 c \<Longrightarrow> 0 < c"
  by (auto simp: pow2_def)

lemma pow2_double [simp]: "pow2 c \<Longrightarrow> pow2 (c * 2)"
  unfolding pow2_def by (metis power_Suc2)

lemma pow2_16: "pow2 16"
  unfolding pow2_def by (rule exI [of _ 4]) simp

definition probe_at :: "nat \<Rightarrow> nat \<Rightarrow> nat \<Rightarrow> nat" where
  "probe_at cap h k = (h + k) mod cap"

lemma first_slot_probe: "pow2 cap \<Longrightarrow> first_slot cap h = probe_at cap (unat h) 0"
  by (auto simp: pow2_def first_slot_def probe_at_def nat_and_mask)

lemma next_slot_probe: "pow2 cap \<Longrightarrow> next_slot cap (probe_at cap h k) = probe_at cap h (Suc k)"
  by (auto simp: pow2_def next_slot_def probe_at_def nat_and_mask mod_Suc_eq simp flip: Suc_eq_plus1)

lemma probe_at_less [simp]: "0 < cap \<Longrightarrow> probe_at cap h k < cap"
  by (simp add: probe_at_def)

lemma probe_reaches:
  assumes "s < cap"
  shows "\<exists>k < cap. probe_at cap h k = s"
proof -
  let ?k = "(s + (cap - h mod cap)) mod cap"
  have "(h + ?k) mod cap = (h mod cap + (s + (cap - h mod cap))) mod cap"
    by (simp only: mod_add_right_eq mod_add_left_eq)
  also have "h mod cap + (s + (cap - h mod cap)) = s + cap" using mod_less_divisor [of cap h] assms by linarith
  also have "(s + cap) mod cap = s" using assms by simp
  finally show ?thesis using assms unfolding probe_at_def by (intro exI [of _ ?k]) auto
qed

definition used :: "nat list \<Rightarrow> nat" where
  "used slots = length (filter (\<lambda>v. v \<noteq> 0) slots)"

lemma used_replicate [simp]: "used (replicate n 0) = 0"
  by (simp add: used_def)

lemma used_update: "used (slots[s := v]) \<le> Suc (used slots)"
  unfolding used_def by (induction slots arbitrary: s) (auto split: nat.splits)

lemma empty_slot_exists:
  assumes "used slots < length slots"
  shows "\<exists>s < length slots. slots ! s = 0"
proof (rule ccontr)
  assume "\<not> ?thesis"
  then have "\<forall>v \<in> set slots. v \<noteq> 0" by (metis in_set_conv_nth)
  then have "filter (\<lambda>v. v \<noteq> 0) slots = slots" by (simp add: filter_id_conv)
  then show False using assms by (simp add: used_def)
qed

text \<open>The first empty slot of a probe sequence.\<close>

definition first_empty :: "nat list \<Rightarrow> nat \<Rightarrow> nat" where
  "first_empty slots h = (LEAST k. slots ! probe_at (length slots) h k = 0)"

lemma first_empty:
  assumes "used slots < length slots"
  shows "slots ! probe_at (length slots) h (first_empty slots h) = 0"
    and "first_empty slots h < length slots"
    and "\<forall>j < first_empty slots h. slots ! probe_at (length slots) h j \<noteq> 0"
proof -
  obtain s where s: "s < length slots" "slots ! s = 0" using empty_slot_exists [OF assms] by blast
  obtain k where k: "k < length slots" "slots ! probe_at (length slots) h k = 0"
    using probe_reaches [OF s(1), of h] s(2) by blast
  show "slots ! probe_at (length slots) h (first_empty slots h) = 0"
    unfolding first_empty_def by (rule LeastI) (rule k(2))
  show "first_empty slots h < length slots"
    unfolding first_empty_def using Least_le [of "\<lambda>k. slots ! probe_at (length slots) h k = 0", OF k(2)] k(1) by simp
  show "\<forall>j < first_empty slots h. slots ! probe_at (length slots) h j \<noteq> 0"
    unfolding first_empty_def using not_less_Least by blast
qed

lemma free_slot_skips:
  assumes "pow2 (length slots)" "\<forall>j < k. slots ! probe_at (length slots) h (a + j) \<noteq> 0" "k \<le> fuel"
  shows "free_slot fuel slots (probe_at (length slots) h a) = free_slot (fuel - k) slots (probe_at (length slots) h (a + k))"
  using assms(2,3)
proof (induction k arbitrary: a fuel)
  case (Suc k)
  obtain f where f: "fuel = Suc f" using Suc.prems(2) by (cases fuel) auto
  have "\<forall>j < k. slots ! probe_at (length slots) h (Suc a + j) \<noteq> 0" using Suc.prems(1) by auto
  then show ?case
    using Suc.IH [of "Suc a" f] Suc.prems f next_slot_probe [OF assms(1), of h a] by (auto dest: spec [of _ 0])
qed simp

lemma free_slot_found:
  assumes "pow2 (length slots)" "used slots < length slots"
  shows "free_slot (length slots) slots (probe_at (length slots) h 0) = Some (probe_at (length slots) h (first_empty slots h))"
proof -
  note fe = first_empty [OF assms(2), of h]
  obtain f where "length slots - first_empty slots h = Suc f" using fe(2) by (metis Suc_diff_Suc)
  then show ?thesis
    using free_slot_skips [OF assms(1), of "first_empty slots h" h 0 "length slots"] fe by simp
qed

section \<open>The index invariant\<close>

definition on_path :: "nat list \<Rightarrow> nat \<Rightarrow> nat \<Rightarrow> bool" where
  "on_path slots h v \<longleftrightarrow>
    (\<exists>k < length slots. slots ! probe_at (length slots) h k = v \<and> (\<forall>j < k. slots ! probe_at (length slots) h j \<noteq> 0))"

abbreviation hash_nat :: "IncludeEdge \<Rightarrow> nat" where
  "hash_nat e \<equiv> unat (edge_hash e)"

definition indexed :: "IncludeEdge list \<Rightarrow> nat list \<Rightarrow> bool" where
  "indexed es slots \<longleftrightarrow> pow2 (length slots) \<and> used slots \<le> length es \<and>
    (\<forall>i < length es. on_path slots (hash_nat (es ! i)) (i + 1))"

lemma on_path_update:
  assumes "on_path slots h v" "slots ! s = 0" "v \<noteq> 0" "0 < w"
  shows "on_path (slots[s := w]) h v"
proof -
  obtain k where k: "k < length slots" "slots ! probe_at (length slots) h k = v"
    "\<forall>j < k. slots ! probe_at (length slots) h j \<noteq> 0" using assms(1) unfolding on_path_def by blast
  have "slots[s := w] ! probe_at (length slots) h j = slots ! probe_at (length slots) h j"
    if "slots ! probe_at (length slots) h j \<noteq> 0" for j using that assms(2) by (cases "s = probe_at (length slots) h j") auto
  then show ?thesis using k assms(3) unfolding on_path_def by (intro exI [of _ k]) auto
qed

lemma on_path_new:
  assumes "used slots < length slots" "0 < w"
  shows "on_path (slots[probe_at (length slots) h (first_empty slots h) := w]) h w"
proof -
  note fe = first_empty [OF assms(1), of h]
  have l: "0 < length slots" using fe(2) by linarith
  have "slots[probe_at (length slots) h (first_empty slots h) := w] ! probe_at (length slots) h j \<noteq> 0"
    if "j < first_empty slots h" for j
    using that fe(3) [rule_format, of j] fe(1)
    by (cases "probe_at (length slots) h (first_empty slots h) = probe_at (length slots) h j") auto
  then show ?thesis using fe(2) l unfolding on_path_def length_list_update by (intro exI [of _ "first_empty slots h"]) auto
qed

lemma indexed_insert:
  assumes "indexed es slots" "length es < length slots"
  shows "indexed (es @ [e]) (slots[probe_at (length slots) (hash_nat e) (first_empty slots (hash_nat e)) := length es + 1])"
proof -
  have u: "used slots < length slots" "used slots \<le> length es" using assms by (auto simp: indexed_def)
  note fe = first_empty [OF u(1), of "hash_nat e"]
  show ?thesis
    unfolding indexed_def
  proof (intro conjI allI impI)
    show "pow2 (length (slots[probe_at (length slots) (hash_nat e) (first_empty slots (hash_nat e)) := length es + 1]))"
      using assms(1) by (simp add: indexed_def)
    show "used (slots[probe_at (length slots) (hash_nat e) (first_empty slots (hash_nat e)) := length es + 1]) \<le> length (es @ [e])"
      using used_update [of slots "probe_at (length slots) (hash_nat e) (first_empty slots (hash_nat e))" "length es + 1"] u(2) by simp
    fix i
    assume i: "i < length (es @ [e])"
    show "on_path (slots[probe_at (length slots) (hash_nat e) (first_empty slots (hash_nat e)) := length es + 1])
            (hash_nat ((es @ [e]) ! i)) (i + 1)"
    proof (cases "i < length es")
      case True
      then have "on_path slots (hash_nat (es ! i)) (i + 1)" using assms(1) by (simp add: indexed_def)
      then show ?thesis using True fe(1) on_path_update by (simp add: nth_append)
    next
      case False
      then have "i = length es" using i by simp
      then show ?thesis using on_path_new [OF u(1), of "length es + 1" "hash_nat e"] by simp
    qed
  qed
qed

lemma rehash_edge_indexed:
  assumes "indexed es slots" "length es < length slots"
  shows "\<exists>slots'. rehash_edge e (length es) slots = Some slots' \<and> indexed (es @ [e]) slots' \<and> length slots' = length slots"
proof -
  have u: "used slots < length slots" "pow2 (length slots)" using assms by (auto simp: indexed_def)
  show ?thesis
    using indexed_insert [OF assms, of e] free_slot_found [OF u(2,1), of "hash_nat e"]
    by (simp add: rehash_edge_def first_slot_probe [OF u(2)])
qed

lemma rehash_from_indexed:
  "indexed es slots \<Longrightarrow> length (es @ es') < length slots \<Longrightarrow>
   \<exists>slots'. rehash_from es' (length es) slots = Some slots' \<and> indexed (es @ es') slots' \<and> length slots' = length slots"
proof (induction es' arbitrary: es slots)
  case (Cons e es')
  obtain slots1 where s1: "rehash_edge e (length es) slots = Some slots1" "indexed (es @ [e]) slots1" "length slots1 = length slots"
    using rehash_edge_indexed [OF Cons.prems(1), of e] Cons.prems(2) by auto
  then show ?case using Cons.IH [OF s1(2)] Cons.prems(2) by simp
qed simp

section \<open>Capacities\<close>

lemma grow_to_spec: "pow2 cap \<Longrightarrow> pow2 (grow_to m cap) \<and> m \<le> grow_to m cap"
proof (induction m cap rule: grow_to.induct)
  case (1 m cap)
  show ?case
  proof (cases "cap < m \<and> cap > 0")
    case True
    then show ?thesis using 1 by (subst (1 2) grow_to.simps) simp
  next
    case False
    then show ?thesis using 1(2) pow2_pos by (subst (1 2) grow_to.simps) auto
  qed
qed

lemma needed_capacity_spec: "pow2 cap \<Longrightarrow> pow2 (needed_capacity n cap) \<and> (n + 1) * 10 < needed_capacity n cap * 7"
proof (induction n cap rule: needed_capacity.induct)
  case (1 n cap)
  show ?case
  proof (cases "(n + 1) * 10 \<ge> cap * 7 \<and> cap > 0")
    case True
    then show ?thesis using 1 by (subst (1 2) needed_capacity.simps) simp
  next
    case False
    then show ?thesis using 1(2) pow2_pos [of cap] by (subst (1 2) needed_capacity.simps) auto
  qed
qed

definition graph_inv :: "IncludeGraph \<Rightarrow> bool" where
  "graph_inv g \<longleftrightarrow> distinct (ig_edges g) \<and>
    (if ig_hashSlots g = [] then ig_edges g = [] else indexed (ig_edges g) (ig_hashSlots g))"

lemma ensure_for_insert_ok:
  assumes "graph_inv g"
  shows "\<exists>g1. include_graph_hash_ensure_for_insert g = Some g1 \<and> ig_edges g1 = ig_edges g \<and>
    indexed (ig_edges g1) (ig_hashSlots g1) \<and> Suc (ig_count g1) < ig_hashCapacity g1"
proof -
  define cap where "cap = (if ig_hashCapacity g = 0 then 16 else ig_hashCapacity g)"
  define n where "n = needed_capacity (ig_count g) cap"
  have cap: "pow2 cap" using assms pow2_16 by (auto simp: cap_def graph_inv_def indexed_def)
  have n: "pow2 n" "(ig_count g + 1) * 10 < n * 7" using needed_capacity_spec [OF cap, of "ig_count g"] by (simp_all add: n_def)
  show ?thesis
  proof (cases "ig_hashCapacity g = n")
    case True
    then have "include_graph_hash_ensure_for_insert g = Some g"
      by (simp add: include_graph_hash_ensure_for_insert_def Let_def n_def cap_def)
    moreover have "ig_hashSlots g \<noteq> []" using True pow2_pos [OF n(1)] by auto
    ultimately show ?thesis using assms n True by (simp add: graph_inv_def)
  next
    case False
    define c where "c = grow_to n cap"
    have c: "pow2 c" "n \<le> c" using grow_to_spec [OF cap, of n] by (simp_all add: c_def)
    have "indexed [] (replicate c 0)" using c(1) by (simp add: indexed_def)
    then obtain slots where s: "rehash_from (ig_edges g) 0 (replicate c 0) = Some slots"
      "indexed (ig_edges g) slots" "length slots = c"
      using rehash_from_indexed [of "[]" "replicate c 0" "ig_edges g"] c(2) n(2) by auto
    have "include_graph_hash_ensure_for_insert g = include_graph_hash_reserve g n"
      using False by (simp add: include_graph_hash_ensure_for_insert_def Let_def n_def cap_def)
    moreover have "(if ig_hashCapacity g \<noteq> 0 then ig_hashCapacity g else 16) = cap" by (simp add: cap_def)
    ultimately have "include_graph_hash_ensure_for_insert g = Some (g\<lparr>ig_hashSlots := slots\<rparr>)"
      using s(1) by (simp only: include_graph_hash_reserve_def c_def Let_def option.map)
    then show ?thesis using s c n(2) by simp
  qed
qed

section \<open>Finding an edge\<close>

lemma find_slot_skips:
  assumes "pow2 (ig_hashCapacity g)" "k \<le> fuel"
    "\<forall>j < k. ig_hashSlots g ! probe_at (ig_hashCapacity g) h (a + j) \<noteq> 0 \<and>
       (ig_hashSlots g ! probe_at (ig_hashCapacity g) h (a + j) - 1 < ig_count g \<longrightarrow>
          ig_edges g ! (ig_hashSlots g ! probe_at (ig_hashCapacity g) h (a + j) - 1) \<noteq> e)"
  shows "edge_slot_loop fuel g e (probe_at (ig_hashCapacity g) h a) =
    edge_slot_loop (fuel - k) g e (probe_at (ig_hashCapacity g) h (a + k))"
  using assms(2,3)
proof (induction k arbitrary: a fuel)
  case (Suc k)
  obtain f where f: "fuel = Suc f" using Suc.prems(1) by (cases fuel) auto
  have "\<forall>j < k. ig_hashSlots g ! probe_at (ig_hashCapacity g) h (Suc a + j) \<noteq> 0 \<and>
       (ig_hashSlots g ! probe_at (ig_hashCapacity g) h (Suc a + j) - 1 < ig_count g \<longrightarrow>
          ig_edges g ! (ig_hashSlots g ! probe_at (ig_hashCapacity g) h (Suc a + j) - 1) \<noteq> e)"
  proof (intro allI impI)
    fix j assume "j < k"
    then show "ig_hashSlots g ! probe_at (ig_hashCapacity g) h (Suc a + j) \<noteq> 0 \<and>
       (ig_hashSlots g ! probe_at (ig_hashCapacity g) h (Suc a + j) - 1 < ig_count g \<longrightarrow>
          ig_edges g ! (ig_hashSlots g ! probe_at (ig_hashCapacity g) h (Suc a + j) - 1) \<noteq> e)"
      using Suc.prems(2) [rule_format, of "Suc j"] by simp
  qed
  then show ?case
    using Suc.IH [of f "Suc a"] Suc.prems(1) Suc.prems(2) [rule_format, of 0] f next_slot_probe [OF assms(1), of h a]
    by (auto simp: Let_def)
qed simp

lemma find_slot_present:
  assumes "indexed (ig_edges g) (ig_hashSlots g)" "i < ig_count g" "ig_edges g ! i = (from, to)"
  shows "\<exists>s. include_graph_find_slot g from to = Some (s, True)"
proof -
  let ?cap = "ig_hashCapacity g" and ?slots = "ig_hashSlots g" and ?h = "hash_nat (from, to)"
  have p: "pow2 ?cap" using assms(1) by (simp add: indexed_def)
  have "on_path ?slots ?h (i + 1)" using assms by (auto simp: indexed_def)
  then obtain k0 where k0: "k0 < ?cap" "?slots ! probe_at ?cap ?h k0 = i + 1" "\<forall>j < k0. ?slots ! probe_at ?cap ?h j \<noteq> 0"
    unfolding on_path_def by blast
  define hit where "hit k \<longleftrightarrow> ?slots ! probe_at ?cap ?h k - 1 < ig_count g \<and> ig_edges g ! (?slots ! probe_at ?cap ?h k - 1) = (from, to)" for k
  define k where "k = (LEAST k. hit k)"
  have hit0: "hit k0" using k0(2) assms(2,3) by (simp add: hit_def)
  have k: "hit k" "k \<le> k0" unfolding k_def using hit0 by (auto intro: LeastI Least_le)
  have before: "\<forall>j < k. \<not> hit j" unfolding k_def using not_less_Least by blast
  have nz: "?slots ! probe_at ?cap ?h k \<noteq> 0" using k(2) k0 by (cases "k = k0") auto
  obtain f where f: "?cap - k = Suc f" using k(2) k0(1) by (metis Suc_diff_Suc le_less_trans)
  have "edge_slot_loop ?cap g (from, to) (probe_at ?cap ?h 0) = edge_slot_loop (?cap - k) g (from, to) (probe_at ?cap ?h (0 + k))"
    by (rule find_slot_skips [OF p]) (use k0 k(2) before in \<open>auto simp: hit_def\<close>)
  also have "\<dots> = Some (probe_at ?cap ?h k, True)" using f nz k(1) by (simp add: hit_def Let_def)
  finally show ?thesis
    using p pow2_pos [OF p] by (auto simp: include_graph_find_slot_def first_slot_probe edge_hash_def)
qed

lemma find_slot_absent:
  assumes "indexed (ig_edges g) (ig_hashSlots g)" "ig_count g < ig_hashCapacity g" "(from, to) \<notin> set (ig_edges g)"
  shows "include_graph_find_slot g from to =
    Some (probe_at (ig_hashCapacity g) (hash_nat (from, to)) (first_empty (ig_hashSlots g) (hash_nat (from, to))), False)"
proof -
  let ?cap = "ig_hashCapacity g" and ?slots = "ig_hashSlots g" and ?h = "hash_nat (from, to)"
  let ?k = "first_empty ?slots ?h"
  have p: "pow2 ?cap" and u: "used ?slots < ?cap" using assms(1,2) by (auto simp: indexed_def)
  note fe = first_empty [OF u, of ?h]
  obtain f where f: "?cap - ?k = Suc f" using fe(2) by (metis Suc_diff_Suc)
  have no: "ig_edges g ! v \<noteq> (from, to)" if "v < ig_count g" for v using that assms(3) by (metis nth_mem)
  have "edge_slot_loop ?cap g (from, to) (probe_at ?cap ?h 0) = edge_slot_loop (?cap - ?k) g (from, to) (probe_at ?cap ?h (0 + ?k))"
    by (rule find_slot_skips [OF p]) (use fe no in auto)
  also have "\<dots> = Some (probe_at ?cap ?h ?k, False)" using f fe(1) by simp
  finally show ?thesis
    using p pow2_pos [OF p] by (auto simp: include_graph_find_slot_def first_slot_probe edge_hash_def)
qed

section \<open>Adding an edge\<close>

lemma include_graph_add_ok:
  assumes "graph_inv g"
  shows "\<exists>g'. include_graph_add g (Some from) (Some to) = Some (g', True) \<and> graph_inv g' \<and>
    ig_edges g' = add_new (from, to) (ig_edges g) \<and> ig_count g' < ig_hashCapacity g'"
proof -
  obtain g1 where g1: "include_graph_hash_ensure_for_insert g = Some g1" "ig_edges g1 = ig_edges g"
    "indexed (ig_edges g1) (ig_hashSlots g1)" "Suc (ig_count g1) < ig_hashCapacity g1"
    using ensure_for_insert_ok [OF assms] by blast
  have ne: "ig_hashSlots g1 \<noteq> []" and d: "distinct (ig_edges g)" using g1(4) assms by (auto simp: graph_inv_def)
  show ?thesis
  proof (cases "(from, to) \<in> set (ig_edges g)")
    case True
    then obtain i where i: "i < ig_count g1" "ig_edges g1 ! i = (from, to)" using g1(2) by (metis in_set_conv_nth)
    obtain s where "include_graph_find_slot g1 from to = Some (s, True)" using find_slot_present [OF g1(3) i] by blast
    then have "include_graph_add g (Some from) (Some to) = Some (g1, True)" using g1(1) by (simp add: include_graph_add_def)
    then show ?thesis using True g1 d ne by (simp add: graph_inv_def add_new_def)
  next
    case False
    let ?s = "probe_at (ig_hashCapacity g1) (hash_nat (from, to)) (first_empty (ig_hashSlots g1) (hash_nat (from, to)))"
    let ?g = "g1\<lparr>ig_edges := ig_edges g1 @ [(from, to)], ig_hashSlots := (ig_hashSlots g1)[?s := ig_count g1 + 1]\<rparr>"
    have "include_graph_find_slot g1 from to = Some (?s, False)"
      using find_slot_absent [OF g1(3)] g1(2,4) False by simp
    then have a: "include_graph_add g (Some from) (Some to) = Some (?g, True)" using g1(1) by (simp add: include_graph_add_def)
    have "indexed (ig_edges ?g) (ig_hashSlots ?g)" using indexed_insert [OF g1(3), of "(from, to)"] g1(4) by simp
    then have "graph_inv ?g" using d False g1(2) ne by (simp add: graph_inv_def)
    then show ?thesis using a False g1(2,4) by (simp add: add_new_def)
  qed
qed

definition insert_edge :: "IncludeEdge \<Rightarrow> IncludeGraph \<Rightarrow> IncludeGraph" where
  "insert_edge e g = fst (the (include_graph_add g (Some (fst e)) (Some (snd e))))"

interpretation graph: insertion_set graph_inv ig_edges insert_edge
proof
  fix g e
  assume "graph_inv g"
  then show "graph_inv (insert_edge e g)" "ig_edges (insert_edge e g) = add_new e (ig_edges g)"
    using include_graph_add_ok [of g "fst e" "snd e"] by (auto simp: insert_edge_def)
qed

lemma graph_inv_init [simp]: "graph_inv include_graph_init"
  by (simp add: graph_inv_def include_graph_init_def)

lemma add_insert_edge: "graph_inv g \<Longrightarrow> include_graph_add g (Some (fst e)) (Some (snd e)) = Some (insert_edge e g, True)"
  using include_graph_add_ok [of g "fst e" "snd e"] by (auto simp: insert_edge_def)

lemma clone_edges_inserts: "graph_inv d \<Longrightarrow> clone_edges es d = Some (fold insert_edge es d, True)"
  by (induction es arbitrary: d) (auto simp: add_insert_edge graph.inv_insert)

lemma find_slot_decides:
  assumes "graph_inv g" "ig_edges g \<noteq> [] \<longrightarrow> ig_count g < ig_hashCapacity g"
  shows "\<exists>s. include_graph_find_slot g from to = Some (s, (from, to) \<in> set (ig_edges g))"
proof (cases "ig_hashSlots g = []")
  case True
  then show ?thesis using assms(1) by (simp add: graph_inv_def include_graph_find_slot_def)
next
  case False
  then have ix: "indexed (ig_edges g) (ig_hashSlots g)" using assms(1) by (simp add: graph_inv_def)
  have c: "ig_count g < ig_hashCapacity g" using assms(2) False by (cases "ig_edges g = []") auto
  show ?thesis
  proof (cases "(from, to) \<in> set (ig_edges g)")
    case True
    then show ?thesis using find_slot_present [OF ix] by (metis in_set_conv_nth)
  next
    case False
    then show ?thesis using find_slot_absent [OF ix c] by simp
  qed
qed

lemma load_after_inserts:
  "ig_edges (fold insert_edge es include_graph_init) \<noteq> [] \<longrightarrow>
   ig_count (fold insert_edge es include_graph_init) < ig_hashCapacity (fold insert_edge es include_graph_init)"
proof (cases es rule: rev_cases)
  case Nil
  then show ?thesis by (simp add: include_graph_init_def)
next
  case (snoc es' e)
  have "graph_inv (fold insert_edge es' include_graph_init)" by (rule graph.inv_inserts) simp
  then show ?thesis
    using snoc include_graph_add_ok [of "fold insert_edge es' include_graph_init" "fst e" "snd e"] by (auto simp: insert_edge_def)
qed

text \<open>
  C18. Whatever edges are reported, in whatever order and with whatever repetitions, adding them to an
  initialised graph succeeds (every probe ends), and the graph then holds each edge exactly once, in
  the order of first report; the hash index finds an edge exactly when it was added; and a clone of
  the graph has the same edges in the same order.
\<close>

theorem include_graph_records_each_edge_once:
  "\<exists>g. clone_edges es include_graph_init = Some (g, True) \<and> ig_edges g = first_occurrences es \<and>
     (\<forall>from to. \<exists>slot. include_graph_find_slot g from to = Some (slot, (from, to) \<in> set es)) \<and>
     (\<exists>d. include_graph_clone (Some g) = Some (d, True) \<and> ig_edges d = ig_edges g)"
proof -
  let ?g = "fold insert_edge es include_graph_init"
  have inv: "graph_inv ?g" by (rule graph.inv_inserts) simp
  have edges: "ig_edges (fold insert_edge xs include_graph_init) = first_occurrences xs" for xs
    by (rule graph.elems_inserts) (simp_all add: include_graph_init_def graph_inv_def)
  have "set (ig_edges ?g) = set es" by (simp add: edges first_occurrences_def)
  then have "\<exists>slot. include_graph_find_slot ?g from to = Some (slot, (from, to) \<in> set es)" for "from" to
    using find_slot_decides [OF inv load_after_inserts] by metis
  moreover have "include_graph_clone (Some ?g) = Some (fold insert_edge (ig_edges ?g) include_graph_init, True)"
    by (simp add: include_graph_clone_def clone_edges_inserts)
  moreover have "ig_edges (fold insert_edge (ig_edges ?g) include_graph_init) = ig_edges ?g"
    using edges [of "ig_edges ?g"] inv by (simp add: graph_inv_def first_occurrences_distinct)
  ultimately show ?thesis
    using clone_edges_inserts [OF graph_inv_init, of es] edges by (intro exI [of _ ?g]) auto
qed

section \<open>Reading the JSON back\<close>

text \<open>A reader of the document's shape: quoted strings with backslash escapes, and the edge list.\<close>

definition unescape :: "char \<Rightarrow> char" where
  "unescape c = (if c = CHR ''n'' then CHR 0x0A else if c = CHR ''r'' then CHR 0x0D else if c = CHR ''t'' then CHR 0x09 else c)"

fun read_string :: "string \<Rightarrow> (string \<times> string) option" where
  "read_string [] = None"
| "read_string (c # cs) =
    (if c = CHR 0x22 then Some ([], cs)
     else if c = CHR 0x5C then
       (case cs of [] \<Rightarrow> None | d # ds \<Rightarrow> map_option (\<lambda>(s, r). (unescape d # s, r)) (read_string ds))
     else map_option (\<lambda>(s, r). (c # s, r)) (read_string cs))"

definition skip :: "string \<Rightarrow> string \<Rightarrow> string option" where
  "skip p s = (if take (length p) s = p then Some (drop (length p) s) else None)"

definition read_edge :: "string \<Rightarrow> (IncludeEdge \<times> string) option" where
  "read_edge s = Option.bind (skip (''{'' @ quoted ''from'' @ '':'' @ [CHR 0x22]) s) (\<lambda>s1.
     Option.bind (read_string s1) (\<lambda>(a, s2).
     Option.bind (skip ('','' @ quoted ''to'' @ '':'' @ [CHR 0x22]) s2) (\<lambda>s3.
     Option.bind (read_string s3) (\<lambda>(b, s4).
     Option.bind (skip ''}'' s4) (\<lambda>s5. Some ((a, b), s5))))))"

fun read_edges :: "nat \<Rightarrow> string \<Rightarrow> IncludeEdge list option" where
  "read_edges 0 s = None"
| "read_edges (Suc n) s =
    (if s = '']}'' @ [CHR 0x0A] then Some []
     else Option.bind (read_edge (if take 1 s = '','' then drop 1 s else s)) (\<lambda>(e, r).
       map_option ((#) e) (read_edges n r)))"

definition read_graph :: "string \<Rightarrow> IncludeEdge list option" where
  "read_graph s = Option.bind (skip (''{'' @ quoted ''edges'' @ '':['') s) (read_edges (length s))"

lemma skip_append [simp]: "skip p (p @ s) = Some s"
  by (simp add: skip_def)

lemma read_escaped_string: "read_string (concat (map graph_json_escape s) @ CHR 0x22 # r) = Some (s, r)"
  by (induction s) (auto simp: graph_json_escape_def unescape_def)

definition edge_text :: "IncludeEdge \<Rightarrow> string" where
  "edge_text e =
    (''{'' @ quoted ''from'' @ '':'' @ [CHR 0x22]) @ concat (map graph_json_escape (fst e)) @ CHR 0x22 #
    ('','' @ quoted ''to'' @ '':'' @ [CHR 0x22]) @ concat (map graph_json_escape (snd e)) @ CHR 0x22 # ''}''"

lemma graph_json_edge_text: "graph_json_edge b e = b @ edge_text e"
  by (simp add: graph_json_edge_def graph_json_append_escaped_def edge_text_def)

lemma skip_then: "q = p @ s \<Longrightarrow> skip p q = Some s"
  by simp

lemma read_edge_text: "read_edge (edge_text e @ r) = Some (e, r)"
proof -
  have s1: "skip (''{'' @ quoted ''from'' @ '':'' @ [CHR 0x22]) (edge_text e @ r) =
    Some (concat (map graph_json_escape (fst e)) @ CHR 0x22 # ('','' @ quoted ''to'' @ '':'' @ [CHR 0x22]) @
      concat (map graph_json_escape (snd e)) @ CHR 0x22 # ''}'' @ r)"
    by (rule skip_then) (simp add: edge_text_def)
  show ?thesis
    unfolding read_edge_def s1 Option.bind.bind_lunit read_escaped_string prod.case skip_append by simp
qed

lemma edge_text_head: "edge_text e = CHR ''{'' # tl (edge_text e)"
  by (simp add: edge_text_def)

lemma edge_text_no_comma: "take 1 (edge_text e @ r) \<noteq> '',''"
  by (subst edge_text_head) simp

lemma edge_text_no_close: "edge_text e @ r \<noteq> '']}'' @ [CHR 0x0A]"
  by (subst edge_text_head) simp

fun edges_text :: "nat \<Rightarrow> IncludeEdge list \<Rightarrow> string" where
  "edges_text i [] = []"
| "edges_text i (e # es) = (if i \<noteq> 0 then '','' else []) @ edge_text e @ edges_text (i + 1) es"

lemma graph_json_edges_text: "graph_json_edges i es b = b @ edges_text i es"
  by (induction es arbitrary: i b) (auto simp: graph_json_edge_text)

lemma read_edges_text: "length es < n \<Longrightarrow> read_edges n (edges_text i es @ '']}'' @ [CHR 0x0A]) = Some es"
proof (induction es arbitrary: i n)
  case Nil
  then show ?case by (cases n) auto
next
  case (Cons e es)
  obtain m where m: "n = Suc m" "length es < m" using Cons.prems by (cases n) auto
  define r where "r = edges_text (i + 1) es @ '']}'' @ [CHR 0x0A]"
  have r: "read_edges m r = Some es" unfolding r_def by (rule Cons.IH [OF m(2)])
  have t: "edges_text i (e # es) @ '']}'' @ [CHR 0x0A] = (if i \<noteq> 0 then '','' else []) @ edge_text e @ r"
    by (simp add: r_def)
  have "read_edges (Suc m) ((if i \<noteq> 0 then '','' else []) @ edge_text e @ r) = Some (e # es)"
    using edge_text_no_comma [of e r] edge_text_no_close [of e r] r read_edge_text [of e r] by simp
  then show ?case using t m by (simp only:)
qed

lemma length_edges_text: "length es \<le> length (edges_text i es)"
proof (induction es arbitrary: i)
  case (Cons e es)
  have "0 < length (edge_text e)" by (subst edge_text_head) simp
  then show ?case using Cons.IH [of "i + 1"] by (cases "i = 0") (simp_all del: length_greater_0_conv)
qed simp

text \<open>
  The JSON document written for an include graph determines the graph: a reader of quoted strings
  with backslash escapes gets back exactly the edges, in order, whatever characters the paths contain
  (quotes, backslashes, line ends, commas and braces included).
\<close>

theorem include_graph_json_roundtrip: "read_graph (include_graph_json g) = Some (ig_edges g)"
proof -
  let ?doc = "include_graph_json g"
  have doc: "?doc = (''{'' @ quoted ''edges'' @ '':['') @ edges_text 0 (ig_edges g) @ '']}'' @ [CHR 0x0A]"
    by (simp add: include_graph_json_def graph_json_edges_text)
  have l: "length (ig_edges g) < length ?doc" unfolding doc using length_edges_text [of "ig_edges g" 0] by simp
  have "skip (''{'' @ quoted ''edges'' @ '':['') ?doc = Some (edges_text 0 (ig_edges g) @ '']}'' @ [CHR 0x0A])"
    unfolding doc by (rule skip_append)
  then show ?thesis using read_edges_text [OF l, of 0] by (simp add: read_graph_def)
qed

end
