(* ===== verification/Symbol_Table.thy ===== *)
theory Symbol_Table
  imports Prelude
begin

text \<open>
  Symbol tables and scopes, \<open>src/src/Syntax/symbol_table.c\<close> and \<open>scope.c\<close>. A table has 128 buckets; a
  bucket is the list of the symbols chained through \<open>next\<close>, front first. A symbol belongs to one table
  (\<open>freeSymbolTable\<close> frees it), so chains do not share symbols. Parsed types, AST nodes and unit
  annotations are not read here; they are the type parameter \<open>'p\<close> and addresses. A scope is the
  non-empty list of its tables from the innermost to the outermost parent. The profiler counters are
  left out.
\<close>

section \<open>Symbols\<close>

datatype SymbolKind = SYMBOL_VARIABLE | SYMBOL_FUNCTION | SYMBOL_TYPEDEF | SYMBOL_STRUCT | SYMBOL_ENUM

datatype StorageClass = STORAGE_NONE | STORAGE_EXTERN | STORAGE_STATIC | STORAGE_REGISTER | STORAGE_AUTO

datatype SymbolLinkage = LINKAGE_NONE | LINKAGE_INTERNAL | LINKAGE_EXTERNAL

datatype FunctionCallConv = CALLCONV_DEFAULT | CALLCONV_STDCALL | CALLCONV_FASTCALL | CALLCONV_CDECL

datatype DllStorageClass = DLL_STORAGE_NONE | DLL_STORAGE_IMPORT | DLL_STORAGE_EXPORT

type_synonym address = nat

record 'p FunctionSignature =
  sig_params :: "'p list"
  sig_isVariadic :: bool
  sig_hasPrototype :: bool
  sig_callConv :: FunctionCallConv

record 'p Symbol =
  sym_name :: string
  sym_kind :: SymbolKind
  sym_type :: 'p
  sym_definition :: "address option"
  sym_initializer :: "address option"
  sym_signature :: "'p FunctionSignature"
  sym_storage :: StorageClass
  sym_linkage :: SymbolLinkage
  sym_dllStorage :: DllStorageClass
  sym_isWeak :: bool
  sym_isParameter :: bool
  sym_hasDefinition :: bool
  sym_isTentative :: bool
  sym_hasConstValue :: bool
  sym_constValue :: int
  sym_cachedTypeInfo :: "address option"
  sym_unitsAnnotation :: "address option"
  sym_unitsDeclaratorIndex :: nat

definition SYMBOL_TABLE_SIZE :: nat where
  "SYMBOL_TABLE_SIZE = 128"

section \<open>The hash table\<close>

fun hash_name :: "32 word \<Rightarrow> string \<Rightarrow> 32 word" where
  "hash_name h [] = h"
| "hash_name h (c # cs) = hash_name (push_bit 5 h + h + word_of_nat (of_char c)) cs"

definition hashSymbolName :: "string \<Rightarrow> nat" where
  "hashSymbolName s = unat (hash_name 5381 s) mod SYMBOL_TABLE_SIZE"

type_synonym 'p SymbolTable = "'p Symbol list list"

definition initSymbolTable :: "'p SymbolTable" where
  "initSymbolTable = replicate SYMBOL_TABLE_SIZE []"

definition insertSymbol :: "'p SymbolTable \<Rightarrow> 'p Symbol \<Rightarrow> 'p SymbolTable \<times> bool" where
  "insertSymbol table s =
    (let i = hashSymbolName (sym_name s);
         bucket = table ! i
     in if list_ex (\<lambda>cur. sym_name cur = sym_name s) bucket then (table, False)
        else (table[i := s # bucket], True))"

definition lookupSymbol :: "'p SymbolTable \<Rightarrow> string \<Rightarrow> 'p Symbol option" where
  "lookupSymbol table name = List.find (\<lambda>cur. sym_name cur = name) (table ! hashSymbolName name)"

definition freeSymbolTable :: "'p SymbolTable \<Rightarrow> 'p SymbolTable" where
  "freeSymbolTable table = map (\<lambda>bucket. []) table"

definition symbolAttachUnitsAnnotation :: "'p Symbol option \<Rightarrow> address option \<Rightarrow> nat \<Rightarrow> 'p Symbol option" where
  "symbolAttachUnitsAnnotation s annotation declaratorIndex =
    map_option (\<lambda>s. s\<lparr>sym_unitsAnnotation := annotation,
                     sym_unitsDeclaratorIndex := (if annotation \<noteq> None then declaratorIndex else 0)\<rparr>) s"

definition symbolGetUnitsAnnotation :: "'p Symbol option \<Rightarrow> address option" where
  "symbolGetUnitsAnnotation s = (case s of Some s \<Rightarrow> sym_unitsAnnotation s | None \<Rightarrow> None)"

definition symbolGetUnitsDeclaratorIndex :: "'p Symbol option \<Rightarrow> nat" where
  "symbolGetUnitsDeclaratorIndex s = (case s of Some s \<Rightarrow> sym_unitsDeclaratorIndex s | None \<Rightarrow> 0)"

section \<open>Scopes\<close>

text \<open>One level of the scope chain; \<open>'r\<close> is the type of \<open>returnType\<close>.\<close>

record ('p, 'r) ScopeLevel =
  sc_table :: "'p SymbolTable"
  sc_tagTable :: "'p SymbolTable"
  sc_depth :: int
  sc_ctx :: "address option"
  sc_hasReturnType :: bool
  sc_returnType :: 'r
  sc_inFunction :: bool
  sc_currentFunctionIsVariadic :: bool
  sc_currentFunctionFixedParams :: nat
  sc_currentFunctionName :: cstr

type_synonym ('p, 'r) Scope = "('p, 'r) ScopeLevel list"

text \<open>The scope a parent pointer leads to: \<open>NULL\<close> is the empty chain.\<close>

definition createScope :: "'r \<Rightarrow> ('p, 'r) Scope \<Rightarrow> ('p, 'r) Scope" where
  "createScope invalidType parent =
    (case parent of
       [] \<Rightarrow> [\<lparr>sc_table = initSymbolTable, sc_tagTable = initSymbolTable, sc_depth = 0, sc_ctx = None,
              sc_hasReturnType = False, sc_returnType = invalidType, sc_inFunction = False,
              sc_currentFunctionIsVariadic = False, sc_currentFunctionFixedParams = 0,
              sc_currentFunctionName = None\<rparr>]
     | p # ps \<Rightarrow> p\<lparr>sc_table := initSymbolTable, sc_tagTable := initSymbolTable, sc_depth := sc_depth p + 1\<rparr> # p # ps)"

text \<open>Leaving a scope frees its tables and continues in the parent.\<close>

definition destroyScope :: "('p, 'r) Scope \<Rightarrow> ('p, 'r) Scope" where
  "destroyScope sc = (case sc of [] \<Rightarrow> [] | l # ls \<Rightarrow> ls)"

definition addToScope :: "('p, 'r) Scope \<Rightarrow> 'p Symbol \<Rightarrow> ('p, 'r) Scope \<times> bool" where
  "addToScope sc s =
    (case sc of [] \<Rightarrow> ([], False)
     | l # ls \<Rightarrow> (case insertSymbol (sc_table l) s of (t, ok) \<Rightarrow> (l\<lparr>sc_table := t\<rparr> # ls, ok)))"

fun resolveInScopeChain :: "('p, 'r) Scope \<Rightarrow> string \<Rightarrow> 'p Symbol option" where
  "resolveInScopeChain [] name = None"
| "resolveInScopeChain (l # ls) name =
    (case lookupSymbol (sc_table l) name of Some s \<Rightarrow> Some s | None \<Rightarrow> resolveInScopeChain ls name)"

definition addTagToScope :: "('p, 'r) Scope \<Rightarrow> 'p Symbol option \<Rightarrow> ('p, 'r) Scope \<times> bool" where
  "addTagToScope sc s0 =
    (case (sc, s0) of
       (l # ls, Some s) \<Rightarrow> (case insertSymbol (sc_tagTable l) s of (t, ok) \<Rightarrow> (l\<lparr>sc_tagTable := t\<rparr> # ls, ok))
     | _ \<Rightarrow> (sc, False))"

fun resolveTagInScopeChain :: "('p, 'r) Scope \<Rightarrow> string \<Rightarrow> 'p Symbol option" where
  "resolveTagInScopeChain [] name = None"
| "resolveTagInScopeChain (l # ls) name =
    (case lookupSymbol (sc_tagTable l) name of Some s \<Rightarrow> Some s | None \<Rightarrow> resolveTagInScopeChain ls name)"

section \<open>Tables that keep the first binding\<close>

text \<open>
  The contract a table of declarations offers: a name that is bound keeps its binding and the insertion
  is refused; a free name gets the new one.
\<close>

locale first_binding =
  fixes inv :: "'s \<Rightarrow> bool"
    and lookup :: "'s \<Rightarrow> 'k \<Rightarrow> 'v option"
    and key :: "'v \<Rightarrow> 'k"
    and ins :: "'s \<Rightarrow> 'v \<Rightarrow> 's \<times> bool"
  assumes inv_ins: "inv s \<Longrightarrow> inv (fst (ins s v))"
    and accepted: "inv s \<Longrightarrow> snd (ins s v) \<longleftrightarrow> lookup s (key v) = None"
    and lookup_ins: "inv s \<Longrightarrow> lookup (fst (ins s v)) k =
          (if k = key v \<and> lookup s k = None then Some v else lookup s k)"
begin

definition declare_all :: "'v list \<Rightarrow> 's \<Rightarrow> 's" where
  "declare_all vs s = fold (\<lambda>v t. fst (ins t v)) vs s"

lemma inv_declare_all: "inv s \<Longrightarrow> inv (declare_all vs s)"
  unfolding declare_all_def by (induction vs arbitrary: s) (auto simp: inv_ins)

lemma lookup_declare_all:
  "inv s \<Longrightarrow> lookup (declare_all vs s) k =
    (case lookup s k of Some v \<Rightarrow> Some v | None \<Rightarrow> List.find (\<lambda>v. key v = k) vs)"
  unfolding declare_all_def
  by (induction vs arbitrary: s) (auto simp: inv_ins lookup_ins split: option.splits)

end

definition table_inv :: "'p SymbolTable \<Rightarrow> bool" where
  "table_inv table \<longleftrightarrow> length table = SYMBOL_TABLE_SIZE"

lemma hashSymbolName_less [simp]: "hashSymbolName s < SYMBOL_TABLE_SIZE"
  by (simp add: hashSymbolName_def SYMBOL_TABLE_SIZE_def)

lemma table_inv_init [simp]: "table_inv initSymbolTable"
  by (simp add: table_inv_def initSymbolTable_def)

lemma lookup_init [simp]: "lookupSymbol initSymbolTable name = None"
  by (simp add: lookupSymbol_def initSymbolTable_def)

lemma bound_iff_lookup:
  "list_ex (\<lambda>cur. sym_name cur = name) (table ! hashSymbolName name) \<longleftrightarrow> lookupSymbol table name \<noteq> None"
  unfolding lookupSymbol_def by (induction "table ! hashSymbolName name") (auto simp: list_ex_iff find_None_iff)

lemma insertSymbol_eq:
  "insertSymbol table s =
    (if lookupSymbol table (sym_name s) \<noteq> None then (table, False)
     else (table[hashSymbolName (sym_name s) := s # table ! hashSymbolName (sym_name s)], True))"
  by (simp only: insertSymbol_def Let_def bound_iff_lookup)

lemma lookup_bucket_cons:
  assumes "hashSymbolName k < length table"
  shows "lookupSymbol (table[hashSymbolName (sym_name s) := s # table ! hashSymbolName (sym_name s)]) k =
    (if k = sym_name s then Some s else lookupSymbol table k)"
  using assms by (cases "hashSymbolName (sym_name s) = hashSymbolName k") (auto simp: lookupSymbol_def)

interpretation symbols: first_binding table_inv lookupSymbol sym_name insertSymbol
proof
  fix t :: "'p SymbolTable" and s :: "'p Symbol" and k
  assume inv: "table_inv t"
  then have l: "hashSymbolName k < length t" by (simp add: table_inv_def)
  show "table_inv (fst (insertSymbol t s))" using inv by (simp add: table_inv_def insertSymbol_eq)
  show "snd (insertSymbol t s) \<longleftrightarrow> lookupSymbol t (sym_name s) = None" by (simp add: insertSymbol_eq)
  show "lookupSymbol (fst (insertSymbol t s)) k =
      (if k = sym_name s \<and> lookupSymbol t k = None then Some s else lookupSymbol t k)"
    using lookup_bucket_cons [OF l, of s] by (cases "k = sym_name s") (simp_all add: insertSymbol_eq)
qed

section \<open>Scopes as stacks of environments\<close>

text \<open>
  The declarations of a program text, as far as scopes go: blocks are entered and left, ordinary
  identifiers and tags are declared.
\<close>

datatype 'p scope_op = Enter | Leave | Declare "'p Symbol" | DeclareTag "'p Symbol"

definition scope_step :: "'r \<Rightarrow> 'p scope_op \<Rightarrow> ('p, 'r) Scope \<Rightarrow> ('p, 'r) Scope" where
  "scope_step inval op sc =
    (case op of
       Enter \<Rightarrow> createScope inval sc
     | Leave \<Rightarrow> destroyScope sc
     | Declare s \<Rightarrow> fst (addToScope sc s)
     | DeclareTag s \<Rightarrow> fst (addTagToScope sc (Some s)))"

text \<open>The specification: a stack of blocks, each a pair of finite maps with first-binding updates.\<close>

type_synonym 'p env = "string \<Rightarrow> 'p Symbol option"

definition bind_first :: "'p Symbol \<Rightarrow> 'p env \<Rightarrow> 'p env" where
  "bind_first s m = (if m (sym_name s) = None then m(sym_name s := Some s) else m)"

fun env_step :: "'p scope_op \<Rightarrow> ('p env \<times> 'p env) list \<Rightarrow> ('p env \<times> 'p env) list" where
  "env_step Enter es = (\<lambda>_. None, \<lambda>_. None) # es"
| "env_step Leave es = drop 1 es"
| "env_step (Declare s) es = (case es of [] \<Rightarrow> [] | (m, t) # r \<Rightarrow> (bind_first s m, t) # r)"
| "env_step (DeclareTag s) es = (case es of [] \<Rightarrow> [] | (m, t) # r \<Rightarrow> (m, bind_first s t) # r)"

fun innermost :: "'p env list \<Rightarrow> 'p env" where
  "innermost [] x = None"
| "innermost (m # ms) x = (case m x of Some s \<Rightarrow> Some s | None \<Rightarrow> innermost ms x)"

definition scope_inv :: "('p, 'r) Scope \<Rightarrow> bool" where
  "scope_inv sc \<longleftrightarrow> (\<forall>l \<in> set sc. table_inv (sc_table l) \<and> table_inv (sc_tagTable l)) \<and>
    map sc_depth sc = map int (rev [0..<length sc])"

definition abs_level :: "('p, 'r) ScopeLevel \<Rightarrow> 'p env \<times> 'p env" where
  "abs_level l = (lookupSymbol (sc_table l), lookupSymbol (sc_tagTable l))"

lemma lookup_insert_bind_first:
  "table_inv t \<Longrightarrow> lookupSymbol (fst (insertSymbol t s)) = bind_first s (lookupSymbol t)"
  by (auto simp: fun_eq_iff symbols.lookup_ins bind_first_def)

lemma abs_level_create [simp]:
  "abs_level (l\<lparr>sc_table := initSymbolTable, sc_tagTable := initSymbolTable, sc_depth := d\<rparr>) = (\<lambda>_. None, \<lambda>_. None)"
  "abs_level \<lparr>sc_table = initSymbolTable, sc_tagTable = initSymbolTable, sc_depth = d, sc_ctx = c,
     sc_hasReturnType = h, sc_returnType = r, sc_inFunction = f, sc_currentFunctionIsVariadic = v,
     sc_currentFunctionFixedParams = n, sc_currentFunctionName = nm\<rparr> = (\<lambda>_. None, \<lambda>_. None)"
  by (auto simp: abs_level_def)

lemma scope_inv_Nil [simp]: "scope_inv []"
  by (simp add: scope_inv_def)

lemma scope_inv_Cons:
  "scope_inv (l # ls) \<longleftrightarrow>
    table_inv (sc_table l) \<and> table_inv (sc_tagTable l) \<and> sc_depth l = int (length ls) \<and> scope_inv ls"
  by (auto simp: scope_inv_def)

lemma scope_inv_step: "scope_inv sc \<Longrightarrow> scope_inv (scope_step inval op sc)"
  by (cases op; cases sc)
    (auto simp: scope_step_def createScope_def destroyScope_def addToScope_def addTagToScope_def scope_inv_Cons
      split: prod.splits dest: symbols.inv_ins, (metis fst_conv symbols.inv_ins)+)

lemma scope_step_refines: "scope_inv sc \<Longrightarrow> map abs_level (scope_step inval op sc) = env_step op (map abs_level sc)"
  by (cases op; cases sc)
    (auto simp: scope_step_def createScope_def destroyScope_def addToScope_def addTagToScope_def scope_inv_Cons
      abs_level_def lookup_insert_bind_first [symmetric] split: prod.splits)

lemma resolve_innermost:
  "resolveInScopeChain sc = innermost (map (fst \<circ> abs_level) sc)"
  "resolveTagInScopeChain sc = innermost (map (snd \<circ> abs_level) sc)"
  by (induction sc) (auto simp: fun_eq_iff abs_level_def split: option.splits)

lemma scope_run_refines:
  "scope_inv sc \<Longrightarrow> scope_inv (fold (scope_step inval) ops sc) \<and>
    map abs_level (fold (scope_step inval) ops sc) = fold env_step ops (map abs_level sc)"
  by (induction ops arbitrary: sc) (simp_all add: scope_inv_step scope_step_refines)

text \<open>
  C19. Name resolution is lexical scoping: after any sequence of block entries, block exits and
  declarations of identifiers and tags, \<open>resolveInScopeChain\<close> and \<open>resolveTagInScopeChain\<close> find the
  binding of the innermost block that declares the name, where within a block the first declaration of
  a name stands; identifiers and tags are separate name spaces; the recorded depth of each scope is its
  nesting level.
\<close>

theorem scope_resolution_refines_environments:
  "(let sc = fold (scope_step inval) ops [] in
    resolveInScopeChain sc = innermost (map fst (fold env_step ops [])) \<and>
    resolveTagInScopeChain sc = innermost (map snd (fold env_step ops [])) \<and>
    map sc_depth sc = map int (rev [0..<length sc]))"
proof -
  define sc where "sc = fold (scope_step inval) ops []"
  have r: "scope_inv sc" "map abs_level sc = fold env_step ops []"
    using scope_run_refines [of "[]" inval ops] by (auto simp: sc_def)
  have "resolveInScopeChain sc = innermost (map fst (map abs_level sc))"
    "resolveTagInScopeChain sc = innermost (map snd (map abs_level sc))" by (simp_all add: resolve_innermost)
  then show ?thesis using r unfolding Let_def sc_def [symmetric] by (simp add: scope_inv_def)
qed

text \<open>
  Declaring a list of symbols in a fresh table binds every name to the first symbol of the list
  that carries it, whatever names collide in the 128 buckets; \<open>insertSymbol\<close> reports success exactly
  when the name was not yet bound.
\<close>

theorem symbol_table_first_declaration_stands:
  "lookupSymbol (fold (\<lambda>s t. fst (insertSymbol t s)) ss initSymbolTable) name = List.find (\<lambda>s. sym_name s = name) ss \<and>
   (snd (insertSymbol (fold (\<lambda>s t. fst (insertSymbol t s)) ss initSymbolTable) s) \<longleftrightarrow> sym_name s \<notin> sym_name ` set ss)"
proof -
  let ?t = "fold (\<lambda>s t. fst (insertSymbol t s)) ss initSymbolTable"
  have l: "lookupSymbol ?t k = List.find (\<lambda>s. sym_name s = k) ss" for k
    using symbols.lookup_declare_all [of initSymbolTable ss k] by (simp add: symbols.declare_all_def)
  have "table_inv ?t" using symbols.inv_declare_all [of initSymbolTable ss] by (simp add: symbols.declare_all_def)
  then show ?thesis using l by (auto simp: symbols.accepted find_None_iff image_iff)
qed

end
