(* ===== verification/Target_Layout.thy ===== *)
theory Target_Layout
  imports Prelude
begin

text \<open>
  Target layouts, \<open>src/src/Syntax/target_layout.c\<close>: the four built-in layouts, the choice by target
  triple, the LLVM data layout string built in a 256-byte buffer, and the dump. What the host compiler
  predefines (\<open>tl_default\<close>) is an argument.
\<close>

datatype TargetEndianness = TL_ENDIAN_LITTLE | TL_ENDIAN_BIG

datatype TargetLongDoubleKind = TL_LONG_DOUBLE_64 | TL_LONG_DOUBLE_80 | TL_LONG_DOUBLE_128

record TargetLayout =
  charBits :: size_t
  shortBits :: size_t
  intBits :: size_t
  longBits :: size_t
  longLongBits :: size_t
  floatBits :: size_t
  doubleBits :: size_t
  longDoubleBits :: size_t
  pointerBits :: size_t
  charAlign :: size_t
  shortAlign :: size_t
  intAlign :: size_t
  longAlign :: size_t
  longLongAlign :: size_t
  floatAlign :: size_t
  doubleAlign :: size_t
  longDoubleAlign :: size_t
  pointerAlign :: size_t
  maxAlign :: size_t
  bitfieldUnitBits :: size_t
  bitfieldUnitAlign :: size_t
  endianness :: TargetEndianness
  longDoubleKind :: TargetLongDoubleKind
  supportsStdcall :: bool
  supportsFastcall :: bool
  supportsDllStorage :: bool

definition layout_lp64_fp80 :: TargetLayout where
  "layout_lp64_fp80 = \<lparr>
    charBits = 8, shortBits = 16, intBits = 32, longBits = 64, longLongBits = 64,
    floatBits = 32, doubleBits = 64, longDoubleBits = 80, pointerBits = 64,
    charAlign = 1, shortAlign = 2, intAlign = 4, longAlign = 8, longLongAlign = 8,
    floatAlign = 4, doubleAlign = 8, longDoubleAlign = 16, pointerAlign = 8, maxAlign = 16,
    bitfieldUnitBits = 32, bitfieldUnitAlign = 4, endianness = TL_ENDIAN_LITTLE,
    longDoubleKind = TL_LONG_DOUBLE_80,
    supportsStdcall = False, supportsFastcall = False, supportsDllStorage = False\<rparr>"

definition layout_lp64_fp128 :: TargetLayout where
  "layout_lp64_fp128 = \<lparr>
    charBits = 8, shortBits = 16, intBits = 32, longBits = 64, longLongBits = 64,
    floatBits = 32, doubleBits = 64, longDoubleBits = 128, pointerBits = 64,
    charAlign = 1, shortAlign = 2, intAlign = 4, longAlign = 8, longLongAlign = 8,
    floatAlign = 4, doubleAlign = 8, longDoubleAlign = 16, pointerAlign = 8, maxAlign = 16,
    bitfieldUnitBits = 32, bitfieldUnitAlign = 4, endianness = TL_ENDIAN_LITTLE,
    longDoubleKind = TL_LONG_DOUBLE_128,
    supportsStdcall = False, supportsFastcall = False, supportsDllStorage = False\<rparr>"

definition layout_llp64_fp64 :: TargetLayout where
  "layout_llp64_fp64 = \<lparr>
    charBits = 8, shortBits = 16, intBits = 32, longBits = 32, longLongBits = 64,
    floatBits = 32, doubleBits = 64, longDoubleBits = 64, pointerBits = 64,
    charAlign = 1, shortAlign = 2, intAlign = 4, longAlign = 4, longLongAlign = 8,
    floatAlign = 4, doubleAlign = 8, longDoubleAlign = 8, pointerAlign = 8, maxAlign = 8,
    bitfieldUnitBits = 32, bitfieldUnitAlign = 4, endianness = TL_ENDIAN_LITTLE,
    longDoubleKind = TL_LONG_DOUBLE_64,
    supportsStdcall = True, supportsFastcall = True, supportsDllStorage = True\<rparr>"

definition layout_lp64_fp64 :: TargetLayout where
  "layout_lp64_fp64 = \<lparr>
    charBits = 8, shortBits = 16, intBits = 32, longBits = 64, longLongBits = 64,
    floatBits = 32, doubleBits = 64, longDoubleBits = 64, pointerBits = 64,
    charAlign = 1, shortAlign = 2, intAlign = 4, longAlign = 8, longLongAlign = 8,
    floatAlign = 4, doubleAlign = 8, longDoubleAlign = 8, pointerAlign = 8, maxAlign = 16,
    bitfieldUnitBits = 32, bitfieldUnitAlign = 4, endianness = TL_ENDIAN_LITTLE,
    longDoubleKind = TL_LONG_DOUBLE_64,
    supportsStdcall = False, supportsFastcall = False, supportsDllStorage = False\<rparr>"

text \<open>The predefined macros of the host compiler that \<open>tl_default\<close> tests.\<close>

record HostMacros =
  def_win64 :: bool
  def_aarch64 :: bool
  def_apple :: bool
  def_x86_64 :: bool
  def_riscv64 :: bool

definition tl_default :: "HostMacros \<Rightarrow> TargetLayout" where
  "tl_default h =
    (if def_win64 h then layout_llp64_fp64
     else if def_aarch64 h then (if def_apple h then layout_lp64_fp64 else layout_lp64_fp128)
     else if def_x86_64 h then layout_lp64_fp80
     else if def_riscv64 h then layout_lp64_fp128
     else layout_lp64_fp80)"

text \<open>\<open>strstr(s, pat) != NULL\<close>.\<close>

fun strstr :: "string \<Rightarrow> string \<Rightarrow> bool" where
  "strstr [] pat \<longleftrightarrow> pat = []"
| "strstr (c # cs) pat \<longleftrightarrow> take (length pat) (c # cs) = pat \<or> strstr cs pat"

definition tl_from_triple :: "HostMacros \<Rightarrow> cstr \<Rightarrow> TargetLayout" where
  "tl_from_triple h triple =
    (case triple of
       None \<Rightarrow> tl_default h
     | Some t \<Rightarrow>
        if t = [] then tl_default h
        else if strstr t ''win32'' \<or> strstr t ''windows'' \<or> strstr t ''mingw'' then layout_llp64_fp64
        else if strstr t ''x86_64'' \<or> strstr t ''amd64'' then layout_lp64_fp80
        else if strstr t ''aarch64'' \<or> strstr t ''arm64'' then
          (if strstr t ''apple'' \<or> strstr t ''darwin'' then layout_lp64_fp64 else layout_lp64_fp128)
        else if strstr t ''riscv64'' then layout_lp64_fp128
        else tl_default h)"

section \<open>The data layout string\<close>

text \<open>
  The buffer is the text before the cursor and the space that remains. \<open>vsnprintf\<close> writes at most
  \<open>remaining - 1\<close> characters and a NUL; a text that does not fit moves the cursor past that NUL.
\<close>

type_synonym layout_buffer = "string \<times> nat"

definition append_field :: "string \<Rightarrow> layout_buffer \<Rightarrow> layout_buffer" where
  "append_field text b =
    (case b of (cur, remaining) \<Rightarrow>
       if remaining = 0 then b
       else if text = [] then b
       else if length text \<ge> remaining then (cur @ take (remaining - 1) text @ [CHR 0x00], 0)
       else (cur @ text, remaining - length text))"

definition zu :: "size_t \<Rightarrow> string" where
  "zu w = show_nat (unat w)"

definition align_bits :: "size_t \<Rightarrow> size_t \<Rightarrow> size_t" where
  "align_bits align dflt = (if align \<noteq> 0 then align * 8 else dflt)"

text \<open>The texts of the calls of \<open>append_field\<close>, in order.\<close>

definition datalayout_fields :: "TargetLayout \<Rightarrow> string list" where
  "datalayout_fields lay =
    (let pBits = (if pointerBits lay \<noteq> 0 then pointerBits lay else 64);
         pAlign = align_bits (pointerAlign lay) pBits;
         flda = align_bits (longDoubleAlign lay) (longDoubleBits lay);
         aggAlign = align_bits (maxAlign lay) 0
     in [if endianness lay = TL_ENDIAN_BIG then ''E'' else ''e'',
         ''-p:'' @ zu pBits @ '':'' @ zu pAlign @ '':'' @ zu pAlign,
         ''-i8:'' @ zu (align_bits (charAlign lay) 8),
         ''-i16:'' @ zu (align_bits (shortAlign lay) 16),
         ''-i32:'' @ zu (align_bits (intAlign lay) 32),
         ''-i64:'' @ zu (align_bits (longLongAlign lay) 64),
         ''-f32:'' @ zu (align_bits (floatAlign lay) 32),
         ''-f64:'' @ zu (align_bits (doubleAlign lay) 64)] @
        (if longDoubleBits lay \<noteq> 0 then [''-f'' @ zu (longDoubleBits lay) @ '':'' @ zu flda] else []) @
        (if aggAlign \<noteq> 0 then [''-a:0:'' @ zu aggAlign] else []) @
        [''-n8:16:32:64''])"

text \<open>The result is read as a C string, up to the first NUL.\<close>

definition tl_to_llvm_datalayout :: "TargetLayout option \<Rightarrow> cstr" where
  "tl_to_llvm_datalayout layout =
    map_option (\<lambda>lay. takeWhile (\<lambda>c. c \<noteq> CHR 0x00) (fst (fold append_field (datalayout_fields lay) ([], 256)))) layout"

section \<open>The dump\<close>

definition yes_no :: "bool \<Rightarrow> string" where
  "yes_no b = (if b then ''yes'' else ''no'')"

definition kind_number :: "TargetLongDoubleKind \<Rightarrow> nat" where
  "kind_number k = (case k of TL_LONG_DOUBLE_64 \<Rightarrow> 0 | TL_LONG_DOUBLE_80 \<Rightarrow> 1 | TL_LONG_DOUBLE_128 \<Rightarrow> 2)"

definition nl :: string where
  "nl = [CHR 0x0A]"

definition tl_dump :: "HostMacros \<Rightarrow> TargetLayout option \<Rightarrow> string" where
  "tl_dump h layout =
    (let lay = (case layout of Some l \<Rightarrow> l | None \<Rightarrow> tl_default h)
     in ''Target layout:'' @ nl @
        ''  endianness: '' @ (if endianness lay = TL_ENDIAN_BIG then ''big'' else ''little'') @ nl @
        ''  char/short/int/long/long long bits: '' @ zu (charBits lay) @ ''/'' @ zu (shortBits lay) @ ''/'' @
          zu (intBits lay) @ ''/'' @ zu (longBits lay) @ ''/'' @ zu (longLongBits lay) @ nl @
        ''  float/double/long double bits: '' @ zu (floatBits lay) @ ''/'' @ zu (doubleBits lay) @ ''/'' @
          zu (longDoubleBits lay) @ '' (kind='' @ show_nat (kind_number (longDoubleKind lay)) @ '')'' @ nl @
        ''  pointer bits: '' @ zu (pointerBits lay) @ nl @
        ''  align: char='' @ zu (charAlign lay) @ '' short='' @ zu (shortAlign lay) @ '' int='' @ zu (intAlign lay) @
          '' long='' @ zu (longAlign lay) @ '' long long='' @ zu (longLongAlign lay) @ '' ptr='' @ zu (pointerAlign lay) @ nl @
        ''         float='' @ zu (floatAlign lay) @ '' double='' @ zu (doubleAlign lay) @
          '' long double='' @ zu (longDoubleAlign lay) @ '' max='' @ zu (maxAlign lay) @ nl @
        ''  bitfield unit: bits='' @ zu (bitfieldUnitBits lay) @ '' align='' @ zu (bitfieldUnitAlign lay) @ nl @
        ''  interop: stdcall='' @ yes_no (supportsStdcall lay) @ '' fastcall='' @ yes_no (supportsFastcall lay) @
          '' dllstorage='' @ yes_no (supportsDllStorage lay) @ nl)"

section \<open>Properties\<close>

abbreviation builtin_layouts :: "TargetLayout set" where
  "builtin_layouts \<equiv> {layout_lp64_fp80, layout_lp64_fp128, layout_llp64_fp64, layout_lp64_fp64}"

lemma tl_default_builtin: "tl_default h \<in> builtin_layouts"
  by (simp add: tl_default_def)

lemma tl_from_triple_builtin: "tl_from_triple h triple \<in> builtin_layouts"
  using tl_default_builtin [of h] by (simp add: tl_from_triple_def split: option.splits)

lemmas builtin_layout_defs = layout_lp64_fp80_def layout_lp64_fp128_def layout_llp64_fp64_def layout_lp64_fp64_def

text \<open>
  What C and the code generator ask of a layout: the C minimum widths and their order, a natural
  alignment for every integer type and no alignment above \<open>max_align_t\<close>, and a \<open>long double\<close> whose
  recorded kind is its width.
\<close>

definition layout_ok :: "TargetLayout \<Rightarrow> bool" where
  "layout_ok lay \<longleftrightarrow>
    charBits lay = 8 \<and> 16 \<le> shortBits lay \<and> shortBits lay \<le> intBits lay \<and> intBits lay \<le> longBits lay \<and>
    32 \<le> longBits lay \<and> longBits lay \<le> longLongBits lay \<and> longLongBits lay = 64 \<and>
    charBits lay = charAlign lay * 8 \<and> shortBits lay = shortAlign lay * 8 \<and> intBits lay = intAlign lay * 8 \<and>
    longBits lay = longAlign lay * 8 \<and> longLongBits lay = longLongAlign lay * 8 \<and>
    pointerBits lay = pointerAlign lay * 8 \<and> floatBits lay = floatAlign lay * 8 \<and> doubleBits lay = doubleAlign lay * 8 \<and>
    longDoubleBits lay \<le> longDoubleAlign lay * 8 \<and> doubleBits lay \<le> longDoubleBits lay \<and>
    list_all (\<lambda>f. f lay \<le> maxAlign lay)
      [charAlign, shortAlign, intAlign, longAlign, longLongAlign, floatAlign, doubleAlign, longDoubleAlign, pointerAlign] \<and>
    longDoubleBits lay = (case longDoubleKind lay of TL_LONG_DOUBLE_64 \<Rightarrow> 64 | TL_LONG_DOUBLE_80 \<Rightarrow> 80 | TL_LONG_DOUBLE_128 \<Rightarrow> 128)"

lemma builtin_layout_ok: "lay \<in> builtin_layouts \<Longrightarrow> layout_ok lay"
  by (elim insertE) (simp_all add: layout_ok_def builtin_layout_defs)

text \<open>While the text fits, \<open>append_field\<close> appends.\<close>

lemma append_fields_fit:
  "\<forall>t \<in> set ts. t \<noteq> [] \<Longrightarrow> length (concat ts) < r \<Longrightarrow>
   fold append_field ts (b, r) = (b @ concat ts, r - length (concat ts))"
  by (induction ts arbitrary: b r) (auto simp: append_field_def)

lemma zu_no_nul: "CHR 0x00 \<notin> set (zu w)"
  using show_nat_digits [of "unat w"] by (auto simp: zu_def is_digit_def)

lemma zu_nonempty [simp]: "zu w \<noteq> []"
  by (simp add: zu_def)

lemma datalayout_fields_nonempty: "\<forall>t \<in> set (datalayout_fields lay). t \<noteq> []"
  by (auto simp: datalayout_fields_def Let_def)

lemma datalayout_fields_no_nul: "CHR 0x00 \<notin> set (concat (datalayout_fields lay))"
  by (auto simp: datalayout_fields_def Let_def zu_no_nul)

lemma datalayout_untruncated:
  assumes "length (concat (datalayout_fields lay)) < 256"
  shows "tl_to_llvm_datalayout (Some lay) = Some (concat (datalayout_fields lay))"
  using append_fields_fit [OF datalayout_fields_nonempty assms, of "[]"] datalayout_fields_no_nul [of lay]
  by (simp add: tl_to_llvm_datalayout_def takeWhile_eq_all_conv) (metis (no_types))

lemma builtin_datalayout_short: "lay \<in> builtin_layouts \<Longrightarrow> length (concat (datalayout_fields lay)) < 256"
  by (elim insertE) (simp_all add: datalayout_fields_def builtin_layout_defs align_bits_def zu_def show_nat.simps)

text \<open>
  Whatever the target triple and the host, the layout chosen satisfies C's constraints on the
  widths of the integer types, aligns every scalar naturally and within \<open>max_align_t\<close>, records the
  kind of \<open>long double\<close> it has, and gives a data layout string that the 256-byte buffer holds in full:
  the concatenation of all its fields.
\<close>

theorem target_layout_wellformed:
  "layout_ok (tl_from_triple h triple) \<and>
   tl_to_llvm_datalayout (Some (tl_from_triple h triple)) = Some (concat (datalayout_fields (tl_from_triple h triple)))"
  using builtin_layout_ok [OF tl_from_triple_builtin, of h triple]
    datalayout_untruncated [OF builtin_datalayout_short [OF tl_from_triple_builtin], of h triple] by simp

end
