(* ===== verification/Type_Info.thy ===== *)
theory Type_Info
  imports Parsed_Type Target_Layout
begin

text \<open>
  Expression types and C's arithmetic conversions: the record \<open>TypeInfo\<close>, its constructors, the pointer
  level stack and the predicates of \<open>src/src/Syntax/type_checker.c\<close>, and the whole of
  \<open>type_checker_arithmetic.c\<close>. The parsed type an expression type was made from is kept by
  value; record definitions and bit-field layouts are addresses.
  The target of a scope is an argument (\<open>None\<close>: no scope or no context).
\<close>

section \<open>Data\<close>

datatype TypeInfoCategory =
    TYPEINFO_INVALID | TYPEINFO_INTEGER | TYPEINFO_FLOAT | TYPEINFO_POINTER | TYPEINFO_ARRAY
  | TYPEINFO_FUNCTION | TYPEINFO_STRUCT | TYPEINFO_UNION | TYPEINFO_ENUM | TYPEINFO_VOID

definition TYPEINFO_MAX_POINTER_DEPTH :: nat where
  "TYPEINFO_MAX_POINTER_DEPTH = 32"

datatype FloatKind = FLOAT_KIND_FLOAT | FLOAT_KIND_DOUBLE | FLOAT_KIND_LONG_DOUBLE

record TypeInfo =
  category :: TypeInfoCategory
  primitive :: TokenType
  bitWidth :: nat
  isSigned :: bool
  isConst :: bool
  isVolatile :: bool
  isRestrict :: bool
  isArray :: bool
  isFunction :: bool
  isVLA :: bool
  isComplex :: bool
  isImaginary :: bool
  tag :: TagKind
  userTypeName :: cstr
  pointerDepth :: nat
  pointerLevels :: "PointerQualifier list"
  isLValue :: bool
  isComplete :: bool
  originalType :: "ParsedType option"
  recordDefinition :: "nat option"
  isBitfield :: bool
  bitfieldLayout :: "nat option"

section \<open>Constructors\<close>

definition makeBaseInvalid :: TypeInfo where
  "makeBaseInvalid =
    \<lparr>category = TYPEINFO_INVALID, primitive = 0, bitWidth = 0, isSigned = False, isConst = False,
     isVolatile = False, isRestrict = False, isArray = False, isFunction = False, isVLA = False,
     isComplex = False, isImaginary = False, tag = TAG_NONE, userTypeName = None, pointerDepth = 0,
     pointerLevels = replicate TYPEINFO_MAX_POINTER_DEPTH no_qual, isLValue = False, isComplete = False,
     originalType = None, recordDefinition = None, isBitfield = False, bitfieldLayout = None\<rparr>"

definition clearPointerLevels :: "TypeInfo \<Rightarrow> TypeInfo" where
  "clearPointerLevels info = info\<lparr>pointerLevels := replicate TYPEINFO_MAX_POINTER_DEPTH no_qual\<rparr>"

text \<open>The new level enters at index 0; when the array is full the last level falls out.\<close>

definition typeInfoPrependPointerLevel :: "TypeInfo \<Rightarrow> PointerQualifier \<Rightarrow> TypeInfo" where
  "typeInfoPrependPointerLevel info q =
    (let stored = (if pointerDepth info \<ge> TYPEINFO_MAX_POINTER_DEPTH then TYPEINFO_MAX_POINTER_DEPTH - 1 else pointerDepth info)
     in info\<lparr>pointerLevels := q # take stored (pointerLevels info) @ drop (stored + 1) (pointerLevels info),
            pointerDepth := pointerDepth info + 1, category := TYPEINFO_POINTER,
            isConst := False, isVolatile := False, isRestrict := False\<rparr>)"

definition typeInfoDropPointerLevel :: "TypeInfo \<Rightarrow> TypeInfo" where
  "typeInfoDropPointerLevel info =
    (if pointerDepth info = 0 then info
     else
       let pointed = pointerLevels info ! 0;
           stored = (if pointerDepth info > TYPEINFO_MAX_POINTER_DEPTH then TYPEINFO_MAX_POINTER_DEPTH else pointerDepth info);
           levels = take (stored - 1) (drop 1 (pointerLevels info)) @ [no_qual] @ drop stored (pointerLevels info);
           depth = pointerDepth info - 1;
           self = (if depth > 0 then levels ! 0 else pointed)
       in info\<lparr>pointerLevels := levels, pointerDepth := depth,
              isConst := pq_isConst self, isVolatile := pq_isVolatile self, isRestrict := pq_isRestrict self\<rparr>)"

definition makeInvalidType :: TypeInfo where
  "makeInvalidType = makeBaseInvalid"

definition makeBoolType :: TypeInfo where
  "makeBoolType = makeBaseInvalid\<lparr>category := TYPEINFO_INTEGER, primitive := TOKEN_BOOL, bitWidth := 1,
     isSigned := False, isComplete := True\<rparr>"

definition makeIntegerType :: "nat \<Rightarrow> bool \<Rightarrow> TokenType \<Rightarrow> TypeInfo" where
  "makeIntegerType width sg prim = makeBaseInvalid\<lparr>category := TYPEINFO_INTEGER, bitWidth := width,
     isSigned := sg, primitive := prim, isComplete := True\<rparr>"

definition defaultIntBits :: nat where
  "defaultIntBits = 32"

definition targetLongDoubleBits :: "HostMacros \<Rightarrow> TargetLayout option \<Rightarrow> nat" where
  "targetLongDoubleBits host scope =
    unat (longDoubleBits (case scope of Some lay \<Rightarrow> lay | None \<Rightarrow> tl_default host))"

definition is_builtin_int128_name :: "cstr \<Rightarrow> bool option" where
  "is_builtin_int128_name nm =
    (case nm of
       None \<Rightarrow> None
     | Some s \<Rightarrow> if s = ''__int128_t'' \<or> s = ''__int128'' then Some False
                else if s = ''__uint128_t'' \<or> s = ''__uint128'' then Some True else None)"

definition makeFloatTypeInfo :: "HostMacros \<Rightarrow> FloatKind \<Rightarrow> bool \<Rightarrow> TargetLayout option \<Rightarrow> TypeInfo" where
  "makeFloatTypeInfo host kind cplx scope =
    (let info = makeBaseInvalid\<lparr>category := TYPEINFO_FLOAT\<rparr>;
         info = (case kind of
             FLOAT_KIND_LONG_DOUBLE \<Rightarrow> info\<lparr>primitive := TOKEN_DOUBLE, bitWidth := targetLongDoubleBits host scope\<rparr>
           | FLOAT_KIND_DOUBLE \<Rightarrow> info\<lparr>primitive := TOKEN_DOUBLE, bitWidth := 64\<rparr>
           | FLOAT_KIND_FLOAT \<Rightarrow> info\<lparr>primitive := TOKEN_FLOAT, bitWidth := 32\<rparr>)
     in info\<lparr>isComplex := cplx, isSigned := True, isComplete := True\<rparr>)"

section \<open>Predicates\<close>

definition typeInfoIsInteger :: "TypeInfo \<Rightarrow> bool" where
  "typeInfoIsInteger info \<longleftrightarrow> category info = TYPEINFO_INTEGER \<or> category info = TYPEINFO_ENUM"

definition typeInfoIsFloating :: "TypeInfo \<Rightarrow> bool" where
  "typeInfoIsFloating info \<longleftrightarrow> category info = TYPEINFO_FLOAT"

definition typeInfoIsArithmetic :: "TypeInfo \<Rightarrow> bool" where
  "typeInfoIsArithmetic info \<longleftrightarrow> typeInfoIsInteger info \<or> typeInfoIsFloating info"

definition typeInfoIsPointerLike :: "TypeInfo \<Rightarrow> bool" where
  "typeInfoIsPointerLike info \<longleftrightarrow>
    category info = TYPEINFO_POINTER \<or> category info = TYPEINFO_ARRAY \<or> isArray info"

section \<open>Arithmetic conversions\<close>

definition integerPromote :: "TypeInfo \<Rightarrow> TypeInfo" where
  "integerPromote info =
    (if \<not> typeInfoIsInteger info then info
     else if bitWidth info \<ge> defaultIntBits then info
     else info\<lparr>bitWidth := defaultIntBits, primitive := TOKEN_INT, isSigned := True\<rparr>)"

definition defaultArgumentPromotion :: "HostMacros \<Rightarrow> TypeInfo \<Rightarrow> TypeInfo" where
  "defaultArgumentPromotion host info =
    (if typeInfoIsInteger info then (integerPromote info)\<lparr>isLValue := False\<rparr>
     else if typeInfoIsFloating info \<and> \<not> isComplex info \<and> \<not> isImaginary info \<and> bitWidth info < 64
     then (makeFloatTypeInfo host FLOAT_KIND_DOUBLE False None)\<lparr>isLValue := False\<rparr>
     else info\<lparr>isLValue := False\<rparr>)"

definition integerRank :: "TypeInfo \<Rightarrow> int" where
  "integerRank info =
    (if \<not> typeInfoIsInteger info then - 1
     else
       let w = (if bitWidth info \<noteq> 0 then bitWidth info else 32) in
       if w \<le> 8 then 1 else if w \<le> 16 then 2 else if w \<le> 32 then 3 else if w \<le> 64 then 4
       else if w \<le> 128 then 5 else 6)"

definition pickIntegerResult :: "TypeInfo \<Rightarrow> TypeInfo \<Rightarrow> TypeInfo" where
  "pickIntegerResult a b =
    (if integerRank a > integerRank b then a
     else if integerRank b > integerRank a then b
     else if isSigned a = isSigned b then (if isSigned a then a else b)
     else if \<not> isSigned a \<and> bitWidth a \<ge> bitWidth b then a
     else if \<not> isSigned b \<and> bitWidth b \<ge> bitWidth a then b
     else a\<lparr>isSigned := False\<rparr>)"

text \<open>The result and the flag \<open>ok\<close>.\<close>

definition usualArithmeticConversion :: "HostMacros \<Rightarrow> TypeInfo \<Rightarrow> TypeInfo \<Rightarrow> TypeInfo \<times> bool" where
  "usualArithmeticConversion host left right =
    (if \<not> typeInfoIsArithmetic left \<or> \<not> typeInfoIsArithmetic right then (makeInvalidType, False)
     else if typeInfoIsFloating left \<or> typeInfoIsFloating right then
       (let cplx = (isComplex left \<or> isComplex right \<or> isImaginary left \<or> isImaginary right);
            imag = (isImaginary left \<or> isImaginary right);
            maxBits = (if bitWidth left > bitWidth right then bitWidth left else bitWidth right);
            fk = (if maxBits \<ge> 128 then FLOAT_KIND_LONG_DOUBLE
                  else if maxBits \<ge> 64 then FLOAT_KIND_DOUBLE else FLOAT_KIND_FLOAT)
        in ((makeFloatTypeInfo host fk cplx None)\<lparr>isImaginary := imag \<and> \<not> cplx\<rparr>, True))
     else (pickIntegerResult (integerPromote left) (integerPromote right), True))"

section \<open>Integer conversions follow the C rules\<close>

text \<open>The integer types of the compiler: the width is a machine width, \<open>_Bool\<close> has one bit.\<close>

definition integer_type :: "TypeInfo \<Rightarrow> bool" where
  "integer_type t \<longleftrightarrow> typeInfoIsInteger t \<and> bitWidth t \<in> {1, 8, 16, 32, 64, 128}"

definition min_value :: "TypeInfo \<Rightarrow> int" where
  "min_value t = (if isSigned t then - (2 ^ (bitWidth t - 1)) else 0)"

definition max_value :: "TypeInfo \<Rightarrow> int" where
  "max_value t = (if isSigned t then 2 ^ (bitWidth t - 1) - 1 else 2 ^ bitWidth t - 1)"

text \<open>Every value of \<open>a\<close> is a value of \<open>b\<close>.\<close>

definition fits_in :: "TypeInfo \<Rightarrow> TypeInfo \<Rightarrow> bool" where
  "fits_in a b \<longleftrightarrow> min_value b \<le> min_value a \<and> max_value a \<le> max_value b"

lemma fits_in_iff:
  assumes "integer_type a" "integer_type b"
  shows "fits_in a b \<longleftrightarrow>
    (if isSigned a then isSigned b \<and> bitWidth a \<le> bitWidth b
     else if isSigned b then bitWidth a < bitWidth b else bitWidth a \<le> bitWidth b)"
  using assms by (auto simp: integer_type_def fits_in_def min_value_def max_value_def)

lemma integer_type_promote: "integer_type t \<Longrightarrow> integer_type (integerPromote t)"
  by (auto simp: integer_type_def integerPromote_def defaultIntBits_def typeInfoIsInteger_def)

lemma promote_width: "integer_type t \<Longrightarrow> 32 \<le> bitWidth (integerPromote t)"
  by (auto simp: integer_type_def integerPromote_def defaultIntBits_def)

lemma integerRank_less:
  "integer_type a \<Longrightarrow> integer_type b \<Longrightarrow> 32 \<le> bitWidth a \<Longrightarrow> 32 \<le> bitWidth b \<Longrightarrow>
   integerRank a < integerRank b \<longleftrightarrow> bitWidth a < bitWidth b"
  by (auto simp: integer_type_def integerRank_def)

lemma pick_shape:
  assumes "integer_type a" "integer_type b" "32 \<le> bitWidth a" "32 \<le> bitWidth b"
  shows "pickIntegerResult a b = (if bitWidth a > bitWidth b then a else if bitWidth b > bitWidth a then b
    else if isSigned a = isSigned b then (if isSigned a then a else b) else if isSigned a then b else a)"
  using integerRank_less [OF assms] integerRank_less [OF assms(2,1,4,3)] by (auto simp: pickIntegerResult_def)

text \<open>
  The common type as C 6.3.1.8 has it, by what the types can hold: if one of the promoted types holds
  all values of both, it is the common type; if none does, the common type is the unsigned one of the
  two, which then has the larger width.
\<close>

lemma pick_common:
  assumes "integer_type a" "integer_type b" "32 \<le> bitWidth a" "32 \<le> bitWidth b"
  shows "bitWidth (pickIntegerResult a b) = max (bitWidth a) (bitWidth b)"
    and "integer_type (pickIntegerResult a b)"
    and "fits_in a b \<or> fits_in b a \<Longrightarrow> fits_in a (pickIntegerResult a b) \<and> fits_in b (pickIntegerResult a b)"
    and "\<not> fits_in a b \<Longrightarrow> \<not> fits_in b a \<Longrightarrow> \<not> isSigned (pickIntegerResult a b)"
    and "isSigned (pickIntegerResult a b) = isSigned (pickIntegerResult b a)"
  using assms by (auto simp: pick_shape fits_in_iff)



text \<open>
  With a floating operand the kind of the common type is chosen by the larger bit width of the two
  operands, integer or not, and 80-bit \<open>long double\<close> counts as below 128: \<open>float\<close> with a 64-bit integer
  gives \<open>double\<close> where C has \<open>float\<close>, and on x86-64 \<open>long double\<close> with anything below 128 bits gives \<open>double\<close>
  where C has \<open>long double\<close>.
\<close>

theorem float_conversion_by_width:
  "(let r = usualArithmeticConversion host (makeFloatTypeInfo host FLOAT_KIND_FLOAT False None) (makeIntegerType 64 True TOKEN_LONG)
    in snd r \<and> fst r = makeFloatTypeInfo host FLOAT_KIND_DOUBLE False None) \<and>
   (let ld = makeFloatTypeInfo host FLOAT_KIND_LONG_DOUBLE False (Some layout_lp64_fp80);
        r = usualArithmeticConversion host ld ld
    in bitWidth ld = 80 \<and> snd r \<and> fst r = makeFloatTypeInfo host FLOAT_KIND_DOUBLE False None)"
  by (simp add: usualArithmeticConversion_def makeFloatTypeInfo_def makeIntegerType_def makeBaseInvalid_def
      typeInfoIsArithmetic_def typeInfoIsInteger_def typeInfoIsFloating_def targetLongDoubleBits_def layout_lp64_fp80_def Let_def)

section \<open>Pointer levels\<close>

definition levels_ok :: "TypeInfo \<Rightarrow> bool" where
  "levels_ok t \<longleftrightarrow> length (pointerLevels t) = TYPEINFO_MAX_POINTER_DEPTH \<and>
    (\<forall>i < TYPEINFO_MAX_POINTER_DEPTH. pointerDepth t \<le> i \<longrightarrow> pointerLevels t ! i = no_qual)"

lemma levels_ok_base: "levels_ok makeBaseInvalid"
  by (simp add: levels_ok_def makeBaseInvalid_def)

lemma levels_ok_prepend: "levels_ok t \<Longrightarrow> levels_ok (typeInfoPrependPointerLevel t q)"
  by (auto simp: levels_ok_def typeInfoPrependPointerLevel_def Let_def TYPEINFO_MAX_POINTER_DEPTH_def nth_Cons nth_append
      min_def split: nat.splits)

lemma levels_ok_drop: "levels_ok t \<Longrightarrow> levels_ok (typeInfoDropPointerLevel t)"
  by (auto simp: levels_ok_def typeInfoDropPointerLevel_def Let_def TYPEINFO_MAX_POINTER_DEPTH_def nth_Cons nth_append
      min_def split: nat.splits)

end
