(* ===== verification/Literal_Utils.thy ===== *)
theory Literal_Utils
  imports Strtoull Target_Layout
begin

text \<open>
  Literals, \<open>src/src/Syntax/literal_utils.c\<close>: the type and value of an integer literal, the decoding of
  the escapes of a string literal into bytes or code points, and the suffix of a floating literal.
  Texts are C strings without their NUL. Negating the smallest \<open>long long\<close> is undefined in C and is the
  outcome \<open>Undefined\<close>.
\<close>

section \<open>Integer literals\<close>

record IntegerLiteralInfo =
  il_overflow :: bool
  il_bits :: nat
  il_isUnsigned :: bool
  il_value :: u64

definition max_unsigned_for_bits :: "nat \<Rightarrow> u64" where
  "max_unsigned_for_bits w = (if w = 0 \<or> w \<ge> 64 then - 1 else push_bit w 1 - 1)"

definition max_signed_for_bits :: "nat \<Rightarrow> u64" where
  "max_signed_for_bits w = (if w = 0 \<or> w \<ge> 64 then push_bit 63 1 - 1 else push_bit (w - 1) 1 - 1)"

definition fits_in_bits :: "u64 \<Rightarrow> nat \<Rightarrow> bool \<Rightarrow> bool" where
  "fits_in_bits v w uns = (if uns then v \<le> max_unsigned_for_bits w else v \<le> max_signed_for_bits w)"

text \<open>The base and the text after its prefix.\<close>

definition literal_base :: "string \<Rightarrow> nat \<times> string" where
  "literal_base p =
    (if take 2 p = ''0x'' \<or> take 2 p = ''0X'' then (16, drop 2 p)
     else if take 2 p = ''0b'' \<or> take 2 p = ''0B'' then (2, drop 2 p)
     else if take 1 p = ''0'' then (8, p)
     else (10, p))"

fun literal_suffix :: "bool \<Rightarrow> nat \<Rightarrow> string \<Rightarrow> (bool \<times> nat) option" where
  "literal_suffix hasU lCount [] = Some (hasU, lCount)"
| "literal_suffix hasU lCount (c # cs) =
    (if c = CHR ''u'' \<or> c = CHR ''U'' then (if hasU then None else literal_suffix True lCount cs)
     else if c = CHR ''l'' \<or> c = CHR ''L'' then literal_suffix hasU (lCount + 1) cs
     else None)"

text \<open>The widths of the target, as \<open>unsigned\<close>, with their defaults.\<close>

definition width_or :: "size_t \<Rightarrow> nat \<Rightarrow> nat" where
  "width_or w dflt = (if w \<noteq> 0 then unat w mod 2 ^ 32 else dflt)"

definition literal_candidates :: "TargetLayout \<Rightarrow> nat \<Rightarrow> bool \<Rightarrow> nat \<Rightarrow> (nat \<times> bool) list" where
  "literal_candidates lay base hasU lCount =
    (let i = width_or (intBits lay) 32; l = width_or (longBits lay) 64; ll = width_or (longLongBits lay) 64
     in if hasU then
          (if lCount \<ge> 2 then [(ll, True)]
           else if lCount = 1 then [(l, True), (ll, True)]
           else [(i, True), (l, True), (ll, True)])
        else if lCount \<ge> 2 then [(ll, False), (ll, True)]
        else if lCount = 1 then [(l, False), (ll, False), (ll, True)]
        else if base = 10 then [(i, False), (l, False), (ll, False), (ll, True)]
        else [(i, False), (i, True), (l, False), (l, True), (ll, False), (ll, True)])"

definition choose_candidate :: "u64 \<Rightarrow> (nat \<times> bool) list \<Rightarrow> nat \<times> bool" where
  "choose_candidate raw cands =
    (case List.find (\<lambda>(w, uns). fits_in_bits raw w uns) cands of Some c \<Rightarrow> c | None \<Rightarrow> last cands)"

definition literal_value :: "bool \<Rightarrow> u64 \<Rightarrow> nat \<Rightarrow> bool \<Rightarrow> u64 option" where
  "literal_value negative raw w uns =
    (if w > 0 \<and> w < 64 then
       (let msk = push_bit w 1 - 1; v = raw AND msk
        in Some (if \<not> uns \<and> negative then (NOT v + 1) AND msk else v))
     else if negative then (if raw = push_bit 63 1 then None else Some (- raw))
     else Some raw)"

definition parse_integer_literal_info ::
    "HostMacros \<Rightarrow> cstr \<Rightarrow> TargetLayout option \<Rightarrow> (unit, IntegerLiteralInfo) outcome" where
  "parse_integer_literal_info host text layout =
    (case text of
       None \<Rightarrow> Fail ()
     | Some t \<Rightarrow>
        if t = [] then Fail ()
        else
          let negative = (hd t = CHR ''-'');
              p0 = (if hd t = CHR ''+'' \<or> hd t = CHR ''-'' then tl t else t);
              (base, p) = literal_base p0;
              (raw, erange, r) = strtoull base p
          in if r = p then Fail ()
             else
               case literal_suffix False 0 r of
                 None \<Rightarrow> Fail ()
               | Some (hasU, lCount0) \<Rightarrow>
                   let lCount = (if lCount0 > 2 then 2 else lCount0);
                       lay = (case layout of Some l \<Rightarrow> l | None \<Rightarrow> tl_default host);
                       (w, uns) = choose_candidate raw (literal_candidates lay base hasU lCount);
                       overflow = (erange \<or> \<not> fits_in_bits raw w uns)
                   in case literal_value negative raw w uns of
                        None \<Rightarrow> Undefined
                      | Some v \<Rightarrow> Done \<lparr>il_overflow = overflow, il_bits = w, il_isUnsigned = uns, il_value = v\<rparr>)"

section \<open>String literals\<close>

type_synonym u32 = "32 word"

record LiteralDecodeResult =
  ld_ok :: bool
  ld_overflow :: bool
  ld_length :: nat

definition hexValue :: "char \<Rightarrow> nat option" where
  "hexValue c =
    (let n = (of_char c :: nat) in
     if 48 \<le> n \<and> n \<le> 57 then Some (n - 48)
     else if 97 \<le> n \<and> n \<le> 102 then Some (n - 97 + 10)
     else if 65 \<le> n \<and> n \<le> 70 then Some (n - 65 + 10)
     else None)"

text \<open>The digit loop: how many digits were read and their value. \<open>None\<close> as the limit is \<open>SIZE_MAX\<close>.\<close>

fun hex_digits :: "nat option \<Rightarrow> nat \<Rightarrow> u32 \<Rightarrow> string \<Rightarrow> nat \<times> u32" where
  "hex_digits maxDigits cnt v [] = (cnt, v)"
| "hex_digits maxDigits cnt v (c # cs) =
    (if (case maxDigits of Some m \<Rightarrow> cnt \<ge> m | None \<Rightarrow> False) then (cnt, v)
     else case hexValue c of
         None \<Rightarrow> (cnt, v)
       | Some d \<Rightarrow> hex_digits maxDigits (cnt + 1) (push_bit 4 v OR word_of_nat d) cs)"

definition decodeHexSequence :: "string \<Rightarrow> nat \<Rightarrow> nat option \<Rightarrow> (nat \<times> u32) option" where
  "decodeHexSequence s minDigits maxDigits =
    (let (cnt, v) = hex_digits maxDigits 0 0 s in if cnt < minDigits then None else Some (cnt, v))"

definition is_octal :: "char \<Rightarrow> bool" where
  "is_octal c \<longleftrightarrow> 48 \<le> (of_char c :: nat) \<and> (of_char c :: nat) \<le> 55"

fun octal_digits :: "nat \<Rightarrow> u32 \<Rightarrow> string \<Rightarrow> nat \<times> u32" where
  "octal_digits cnt v [] = (cnt, v)"
| "octal_digits cnt v (c # cs) =
    (if cnt \<ge> 3 \<or> \<not> is_octal c then (cnt, v)
     else octal_digits (cnt + 1) (push_bit 3 v + word_of_nat (of_char c - 48)) cs)"

text \<open>The one-letter escapes.\<close>

definition simple_escape :: "char \<Rightarrow> u32 option" where
  "simple_escape c =
    (if c = CHR ''n'' then Some 10 else if c = CHR ''t'' then Some 9 else if c = CHR ''r'' then Some 13
     else if c = CHR ''b'' then Some 8 else if c = CHR ''f'' then Some 12 else if c = CHR ''a'' then Some 7
     else if c = CHR ''v'' then Some 11 else if c = CHR 0x5C then Some 0x5C else if c = CHR 0x27 then Some 0x27
     else if c = CHR 0x22 then Some 0x22 else if c = CHR ''?'' then Some 0x3F else None)"

text \<open>The characters consumed after the backslash and the value.\<close>

definition decodeEscape :: "string \<Rightarrow> (nat \<times> u32) option" where
  "decodeEscape s =
    (case s of
       [] \<Rightarrow> None
     | esc # cs \<Rightarrow>
        (case simple_escape esc of
           Some v \<Rightarrow> Some (1, v)
         | None \<Rightarrow>
            if esc = CHR ''x'' then map_option (\<lambda>(n, v). (1 + n, v)) (decodeHexSequence cs 1 None)
            else if esc = CHR ''u'' then map_option (\<lambda>(n, v). (1 + n, v)) (decodeHexSequence cs 4 (Some 4))
            else if esc = CHR ''U'' then map_option (\<lambda>(n, v). (1 + n, v)) (decodeHexSequence cs 8 (Some 8))
            else if is_octal esc then Some (octal_digits 0 0 s)
            else Some (1, word_of_nat (of_char esc))))"

lemma octal_digits_mono: "cnt \<le> fst (octal_digits cnt v s)"
proof (induction s arbitrary: cnt v)
  case (Cons c cs)
  show ?case using Cons.IH [of "cnt + 1"] by (simp, meson Suc_leD)
qed simp

lemma decodeEscape_consumes: "decodeEscape s = Some (n, v) \<Longrightarrow> 0 < n"
proof -
  assume d: "decodeEscape s = Some (n, v)"
  obtain c cs where s: "s = c # cs" using d by (cases s) (auto simp: decodeEscape_def)
  have "is_octal c \<Longrightarrow> 1 \<le> fst (octal_digits 0 0 s)"
    using octal_digits_mono [of 1 "push_bit 3 0 + word_of_nat (of_char c - 48)" cs] s by simp
  then show ?thesis using d s by (auto simp: decodeEscape_def split: option.splits if_splits)
qed

definition decode_start :: LiteralDecodeResult where
  "decode_start = \<lparr>ld_ok = True, ld_overflow = False, ld_length = 0\<rparr>"

text \<open>
  The loop of the narrow decoder on the text from index \<open>i\<close> on, with the result so far and the buffer, if one
  was allocated. A malformed escape ends the loop. A byte is stored while one more fits.
\<close>

function decode_narrow_loop ::
    "u64 \<Rightarrow> nat \<Rightarrow> string \<Rightarrow> LiteralDecodeResult \<Rightarrow> nat list option \<Rightarrow> LiteralDecodeResult \<times> nat list option" where
  "decode_narrow_loop maxVal bufCap s res buf =
    (case s of
       [] \<Rightarrow> (res, buf)
     | c # cs \<Rightarrow>
        (case (if c = CHR 0x5C then map_option (\<lambda>(n, v). (n + 1, v)) (decodeEscape cs)
               else Some (1, word_of_nat (of_char c))) of
           None \<Rightarrow> (res\<lparr>ld_ok := False\<rparr>, buf)
         | Some (consumed, v) \<Rightarrow>
            (let res1 = (if v > 0x10FFFF \<or> (v \<ge> 0xD800 \<and> v \<le> 0xDFFF) then res\<lparr>ld_ok := False\<rparr> else res);
                 res2 = (if ucast v > maxVal then res1\<lparr>ld_overflow := True\<rparr> else res1);
                 buf1 = (case buf of None \<Rightarrow> None
                         | Some b \<Rightarrow> Some (if length b + 1 < bufCap then b @ [unat (v AND 0xFF)] else b))
             in decode_narrow_loop maxVal bufCap (drop consumed s) (res2\<lparr>ld_length := ld_length res2 + 1\<rparr>) buf1)))"
  by pat_completeness auto
termination
  by (relation "measure (\<lambda>(mv, cap, s, res, b). length s)") (auto split: if_splits dest: decodeEscape_consumes)

text \<open>The loop of the wide decoder, which stores the whole code point.\<close>

function decode_wide_loop ::
    "u64 \<Rightarrow> string \<Rightarrow> LiteralDecodeResult \<Rightarrow> u32 list option \<Rightarrow> LiteralDecodeResult \<times> u32 list option" where
  "decode_wide_loop maxVal s res buf =
    (case s of
       [] \<Rightarrow> (res, buf)
     | c # cs \<Rightarrow>
        (case (if c = CHR 0x5C then map_option (\<lambda>(n, v). (n + 1, v)) (decodeEscape cs)
               else Some (1, word_of_nat (of_char c))) of
           None \<Rightarrow> (res\<lparr>ld_ok := False\<rparr>, buf)
         | Some (consumed, v) \<Rightarrow>
            (let res1 = (if v > 0x10FFFF \<or> (v \<ge> 0xD800 \<and> v \<le> 0xDFFF) then res\<lparr>ld_ok := False\<rparr> else res);
                 res2 = (if ucast v > maxVal then res1\<lparr>ld_overflow := True\<rparr> else res1);
                 buf1 = (case buf of None \<Rightarrow> None | Some b \<Rightarrow> Some (b @ [v]))
             in decode_wide_loop maxVal (drop consumed s) (res2\<lparr>ld_length := ld_length res2 + 1\<rparr>) buf1)))"
  by pat_completeness auto
termination
  by (relation "measure (\<lambda>(mv, s, res, b). length s)") (auto split: if_splits dest: decodeEscape_consumes)

declare decode_narrow_loop.simps [simp del] decode_wide_loop.simps [simp del]

text \<open>
  The narrow decoder: bytes are stored when a buffer is asked for (\<open>outBytes\<close>) and characters have at most
  8 bits; the buffer holds \<open>strlen(raw) + 1\<close> bytes.
\<close>

definition decode_c_string_literal :: "cstr \<Rightarrow> int \<Rightarrow> bool \<Rightarrow> LiteralDecodeResult \<times> nat list option" where
  "decode_c_string_literal raw charBitWidth outBytes =
    (case raw of
       None \<Rightarrow> (decode_start, None)
     | Some s \<Rightarrow>
        (let maxVal = (if charBitWidth \<le> 0 then - 1 else if charBitWidth \<ge> 63 then - 1
                       else push_bit (nat charBitWidth) 1 - 1);
             alloc = (outBytes \<and> charBitWidth \<le> 8);
             bufCap = (if alloc then length s + 1 else 0);
             buf = (if alloc then Some [] else None)
         in decode_narrow_loop maxVal bufCap s decode_start buf))"

definition decode_c_string_literal_wide :: "cstr \<Rightarrow> int \<Rightarrow> bool \<Rightarrow> LiteralDecodeResult \<times> u32 list option" where
  "decode_c_string_literal_wide raw charBitWidth outCodepoints =
    (case raw of
       None \<Rightarrow> (decode_start, None)
     | Some s \<Rightarrow>
        (let maxVal = (if charBitWidth \<le> 0 then - 1 else if charBitWidth \<ge> 63 then - 1
                       else push_bit (nat charBitWidth) 1 - 1)
         in decode_wide_loop maxVal s decode_start (if outCodepoints then Some [] else None)))"

section \<open>Floating literals\<close>

record FloatingLiteralSuffix =
  fs_coreLength :: nat
  fs_imaginary :: bool
  fs_precisionSuffix :: "char option"

text \<open>The loop reads the text from its end.\<close>

fun float_suffix_loop :: "string \<Rightarrow> FloatingLiteralSuffix \<Rightarrow> FloatingLiteralSuffix" where
  "float_suffix_loop [] f = f"
| "float_suffix_loop (c # cs) f =
    (if c \<in> {CHR ''i'', CHR ''I'', CHR ''j'', CHR ''J''} then
       float_suffix_loop cs (f\<lparr>fs_imaginary := True, fs_coreLength := fs_coreLength f - 1\<rparr>)
     else if c \<in> {CHR ''f'', CHR ''F'', CHR ''l'', CHR ''L''} then
       float_suffix_loop cs (f\<lparr>fs_precisionSuffix := Some c, fs_coreLength := fs_coreLength f - 1\<rparr>)
     else f)"

definition parse_floating_literal_suffix :: "cstr \<Rightarrow> FloatingLiteralSuffix" where
  "parse_floating_literal_suffix text =
    (let t = (case text of None \<Rightarrow> [] | Some s \<Rightarrow> s)
     in float_suffix_loop (rev t) \<lparr>fs_coreLength = length t, fs_imaginary = False, fs_precisionSuffix = None\<rparr>)"

end
