(* ===== verification/Literal_Props.thy ===== *)
theory Literal_Props
  imports Literal_Utils
begin

text \<open>
  Integer literals get the first type of the C standard's list that holds their value; the escapes of
  a string literal decode to what was encoded, and the byte decoder agrees with the code point decoder.
\<close>

section \<open>The type of an integer literal\<close>

text \<open>The list of C 6.4.4.1 for a base and a suffix: width and whether unsigned.\<close>

definition c_literal_types :: "TargetLayout \<Rightarrow> nat \<Rightarrow> bool \<Rightarrow> nat \<Rightarrow> (nat \<times> bool) list" where
  "c_literal_types lay base hasU lCount =
    (let i = unat (intBits lay); l = unat (longBits lay); ll = unat (longLongBits lay);
         from_rank = (if lCount = 0 then [i, l, ll] else if lCount = 1 then [l, ll] else [ll])
     in if hasU then map (\<lambda>w. (w, True)) from_rank
        else if base = 10 then map (\<lambda>w. (w, False)) from_rank
        else concat (map (\<lambda>w. [(w, False), (w, True)]) from_rank))"

definition c_holds :: "int \<Rightarrow> nat \<times> bool \<Rightarrow> bool" where
  "c_holds n = (\<lambda>(w, uns). n < 2 ^ (if uns then w else w - 1))"

text \<open>The spelling of a number: digits with the prefix of their base.\<close>

definition spelled :: "nat \<Rightarrow> string \<Rightarrow> string \<Rightarrow> bool" where
  "spelled base ds t \<longleftrightarrow> digits_of base ds \<and>
    (base = 10 \<and> hd ds \<noteq> CHR ''0'' \<and> t = ds \<or> base = 8 \<and> hd ds = CHR ''0'' \<and> t = ds \<or>
     base = 16 \<and> (t = ''0x'' @ ds \<or> t = ''0X'' @ ds) \<or> base = 2 \<and> (t = ''0b'' @ ds \<or> t = ''0B'' @ ds))"

text \<open>The suffixes of C with the rank they ask for.\<close>

definition c_suffixes :: "(string \<times> bool \<times> nat) list" where
  "c_suffixes =
    [([], False, 0), (''u'', True, 0), (''U'', True, 0), (''l'', False, 1), (''L'', False, 1),
     (''ul'', True, 1), (''UL'', True, 1), (''lu'', True, 1), (''LU'', True, 1), (''uL'', True, 1), (''Lu'', True, 1),
     (''Ul'', True, 1), (''lU'', True, 1), (''Ull'', True, 2), (''llU'', True, 2),
     (''ll'', False, 2), (''LL'', False, 2), (''ull'', True, 2), (''ULL'', True, 2), (''llu'', True, 2), (''LLU'', True, 2),
     (''uLL'', True, 2), (''LLu'', True, 2)]"

lemma suffix_reads: "(suf, hasU, l) \<in> set c_suffixes \<Longrightarrow> literal_suffix False 0 suf = Some (hasU, l)"
  by (auto simp: c_suffixes_def)

lemma suffix_rank: "(suf, hasU, l) \<in> set c_suffixes \<Longrightarrow> l \<le> 2"
  by (auto simp: c_suffixes_def)

lemma suffix_ends_digits: "(suf, hasU, l) \<in> set c_suffixes \<Longrightarrow> base \<le> 16 \<Longrightarrow> ends_digits base suf"
  by (auto simp: c_suffixes_def ends_digits_def base_digit_def hex_val_def)

lemma suffix_not_x: "(suf, hasU, l) \<in> set c_suffixes \<Longrightarrow> take 1 suf \<noteq> ''x'' \<and> take 1 suf \<noteq> ''X''"
  by (auto simp: c_suffixes_def)

lemma c_suffixes_head: "(suf, hasU, l) \<in> set c_suffixes \<Longrightarrow> suf = [] \<or> hd suf \<in> {CHR ''u'', CHR ''U'', CHR ''l'', CHR ''L''}"
  by (auto simp: c_suffixes_def)

text \<open>The prefix and the digits are taken apart again.\<close>

lemma base_digit_8: "base_digit 8 c \<noteq> None \<Longrightarrow> c \<notin> {CHR ''x'', CHR ''X'', CHR ''b'', CHR ''B''}"
  by (auto simp: base_digit_def hex_val_def split: if_splits)

lemma literal_base_spelled:
  assumes "spelled base ds t" "(suf, hasU, l) \<in> set c_suffixes"
  shows "literal_base (t @ suf) = (base, ds @ suf)"
proof -
  obtain c cs where ds: "ds = c # cs" using assms(1) by (cases ds) (auto simp: spelled_def digits_of_def)
  consider "base = 10" "c \<noteq> CHR ''0''" "t = ds" | "base = 8" "c = CHR ''0''" "t = ds" |
      "base = 16" "t = ''0x'' @ ds \<or> t = ''0X'' @ ds" | "base = 2" "t = ''0b'' @ ds \<or> t = ''0B'' @ ds"
    using assms(1) ds by (auto simp: spelled_def)
  then show ?thesis
  proof cases
    case 2
    have "take 1 (cs @ suf) \<notin> {''x'', ''X'', ''b'', ''B''}"
    proof (cases cs)
      case Nil
      then show ?thesis using c_suffixes_head [OF assms(2)] by (cases suf) auto
    next
      case (Cons d dd)
      then have "base_digit 8 d \<noteq> None" using assms(1) ds 2(1) by (auto simp: spelled_def digits_of_def)
      then show ?thesis using base_digit_8 [of d] Cons by simp
    qed
    then show ?thesis using 2 ds by (cases "cs @ suf") (auto simp: literal_base_def)
  qed (use ds in \<open>auto simp: literal_base_def\<close>)
qed

lemma spelled_head: "spelled base ds t \<Longrightarrow> t \<noteq> [] \<and> hd t \<noteq> CHR ''-'' \<and> hd t \<noteq> CHR ''+''"
proof -
  assume s: "spelled base ds t"
  then obtain c cs where ds: "ds = c # cs" by (cases ds) (auto simp: spelled_def digits_of_def)
  have "base_digit base c \<noteq> None" using s ds by (auto simp: spelled_def digits_of_def)
  from hex_val_not_space [OF base_digit_16 [OF this]] show ?thesis using s ds by (auto simp: spelled_def)
qed

section \<open>Choosing the candidate\<close>

lemma width_or_ok: "w \<noteq> 0 \<Longrightarrow> w \<le> 64 \<Longrightarrow> width_or w d = unat w"
proof -
  assume w: "w \<noteq> 0" "w \<le> 64"
  then have "unat w \<le> 64" by (simp add: word_le_nat_alt)
  then show ?thesis using w(1) by (simp add: width_or_def)
qed

definition widths_ok :: "TargetLayout \<Rightarrow> bool" where
  "widths_ok lay \<longleftrightarrow> 16 \<le> unat (intBits lay) \<and> unat (intBits lay) \<le> unat (longBits lay) \<and>
    unat (longBits lay) \<le> 64 \<and> unat (longLongBits lay) = 64"

lemma layout_widths_ok: "layout_ok lay \<Longrightarrow> widths_ok lay"
proof -
  assume ok: "layout_ok lay"
  have "16 \<le> shortBits lay" "shortBits lay \<le> intBits lay" "intBits lay \<le> longBits lay" "longBits lay \<le> longLongBits lay" "longLongBits lay = 64"
    using ok unfolding layout_ok_def by blast+
  then have "16 \<le> intBits lay" "intBits lay \<le> longBits lay" "longBits lay \<le> 64" "longLongBits lay = 64" by (auto intro: order_trans)
  then show ?thesis by (simp add: widths_ok_def word_le_nat_alt)
qed

lemma candidate_widths:
  assumes "widths_ok lay"
  shows "width_or (intBits lay) 32 = unat (intBits lay)" "width_or (longBits lay) 64 = unat (longBits lay)"
    "width_or (longLongBits lay) 64 = 64"
proof -
  have "unat (intBits lay) \<le> 64" "unat (intBits lay) \<noteq> 0" "unat (longBits lay) \<le> 64" "unat (longBits lay) \<noteq> 0"
    "unat (longLongBits lay) = 64" using assms by (auto simp: widths_ok_def)
  then show "width_or (intBits lay) 32 = unat (intBits lay)" "width_or (longBits lay) 64 = unat (longBits lay)"
    "width_or (longLongBits lay) 64 = 64" by (auto simp: width_or_def)
qed

lemma push_bit_1: "w < 64 \<Longrightarrow> uint (push_bit w 1 - 1 :: u64) = 2 ^ w - 1"
proof -
  assume w: "w < 64"
  have e: "push_bit w 1 - 1 = (word_of_int (2 ^ w - 1) :: u64)" by (simp add: push_bit_eq_mult)
  have "(2::int) ^ w \<le> 2 ^ 64" using w by (intro power_increasing) auto
  then show ?thesis unfolding e uint_word_of_int by simp
qed

lemma uint_minus_1: "uint (- 1 :: u64) = 2 ^ 64 - 1"
  by (simp add: unsigned_minus_1_eq_mask mask_eq_exp_minus_1)

lemma fits_in_bits_iff:
  assumes "0 < w" "w \<le> 64" "0 \<le> n" "n < 2 ^ 64"
  shows "fits_in_bits (word_of_int n) w uns \<longleftrightarrow> c_holds n (w, uns)"
proof -
  have n: "uint (word_of_int n :: u64) = n" using assms(3,4) by (simp add: uint_word_of_int)
  have u: "uint (max_unsigned_for_bits w) = 2 ^ w - 1"
    using push_bit_1 [of w] uint_minus_1 assms(1,2) by (cases "w = 64") (auto simp: max_unsigned_for_bits_def)
  have s: "uint (max_signed_for_bits w) = 2 ^ (w - 1) - 1"
    using push_bit_1 [of "w - 1"] push_bit_1 [of 63] assms(1,2) by (cases "w = 64") (auto simp: max_signed_for_bits_def)
  show ?thesis using n u s by (auto simp: fits_in_bits_def c_holds_def word_le_def)
qed

lemma find_first_part: "\<exists>c \<in> set xs. P c \<Longrightarrow> List.find P (xs @ ys) = List.find P xs"
  by (induction xs) auto

lemma find_cong_set: "(\<And>x. x \<in> set xs \<Longrightarrow> P x = Q x) \<Longrightarrow> List.find P xs = List.find Q xs"
  by (induction xs) auto

lemma candidates_cover_c_types:
  assumes "widths_ok lay" "l \<le> 2" "base \<noteq> 10 \<Longrightarrow> l = 1 \<Longrightarrow> \<not> hasU \<Longrightarrow> longBits lay = longLongBits lay"
    "\<exists>c \<in> set (c_literal_types lay base hasU l). P c"
  shows "List.find P (literal_candidates lay base hasU l) = List.find P (c_literal_types lay base hasU l)"
proof -
  note w = candidate_widths [OF assms(1)]
  have ll: "unat (longLongBits lay) = 64" using assms(1) by (simp add: widths_ok_def)
  consider "hasU" | "\<not> hasU" "base = 10" | "\<not> hasU" "base \<noteq> 10" "l = 1" | "\<not> hasU" "base \<noteq> 10" "l \<noteq> 1" by blast
  then show ?thesis
  proof cases
    case 2
    then have "\<exists>ys. literal_candidates lay base hasU l = c_literal_types lay base hasU l @ ys"
      using assms(2) w ll by (auto simp: literal_candidates_def c_literal_types_def Let_def)
    then show ?thesis using find_first_part [OF assms(4)] by auto
  next
    case 3
    then have "longBits lay = longLongBits lay" using assms(3) by blast
    then show ?thesis using 3 w ll by (simp add: literal_candidates_def c_literal_types_def Let_def)
  qed (use assms(2) w ll in \<open>auto simp: literal_candidates_def c_literal_types_def Let_def\<close>)
qed

lemma c_type_widths: "widths_ok lay \<Longrightarrow> (w, uns) \<in> set (c_literal_types lay base hasU l) \<Longrightarrow> 0 < w \<and> w \<le> 64"
  by (auto simp: c_literal_types_def widths_ok_def Let_def split: if_splits)

lemma literal_value_same:
  assumes "0 < w" "w \<le> 64" "0 \<le> n" "c_holds n (w, uns)"
  shows "literal_value False (word_of_int n) w uns = Some (word_of_int n)"
proof (cases "w = 64")
  case False
  then have w: "w < 64" using assms(2) by simp
  have "n < 2 ^ w" using assms(1,4) by (auto simp: c_holds_def split: if_splits intro: less_le_trans [OF _ power_increasing])
  then have "take_bit w n = n" using assms(3) by (simp add: take_bit_int_eq_self)
  then have "bit n i \<Longrightarrow> i < w" for i by (metis bit_take_bit_iff)
  then have "word_of_int n AND mask w = (word_of_int n :: u64)" by (intro bit_word_eqI) (auto simp: bit_simps)
  moreover have "(push_bit w 1 - 1 :: u64) = mask w" by (simp add: mask_eq_exp_minus_1 push_bit_eq_mult)
  ultimately show ?thesis using w assms(1) by (simp add: literal_value_def Let_def)
qed (simp add: literal_value_def)

text \<open>
  C20. An integer literal (decimal, octal, \<open>0x\<close>/\<open>0X\<close> or \<open>0b\<close>/\<open>0B\<close>, with any suffix of C) whose value some
  type of its list can hold gets the type C 6.4.4.1 prescribes: the first of the standard's list for its
  base and suffix that can hold its value, and its exact value, with no overflow reported. Excluded are
  octal, binary and hexadecimal literals with a single \<open>l\<close> and no \<open>u\<close> on targets whose \<open>long\<close> is narrower
  than \<open>long long\<close>, for which the code's list is not C's (the theorem after next).
\<close>

theorem integer_literal_has_c_type:
  assumes "spelled base ds t" "(suf, hasU, l) \<in> set c_suffixes" "layout_ok lay"
    and "\<exists>c \<in> set (c_literal_types lay base hasU l). c_holds (digits_value base ds) c"
    and "base \<noteq> 10 \<Longrightarrow> l = 1 \<Longrightarrow> \<not> hasU \<Longrightarrow> longBits lay = longLongBits lay"
  shows "\<exists>w uns. List.find (c_holds (digits_value base ds)) (c_literal_types lay base hasU l) = Some (w, uns) \<and>
    parse_integer_literal_info host (Some (t @ suf)) (Some lay) =
      Done \<lparr>il_overflow = False, il_bits = w, il_isUnsigned = uns, il_value = word_of_int (digits_value base ds)\<rparr>"
proof -
  let ?n = "digits_value base ds"
  note lw = layout_widths_ok [OF assms(3)]
  have dg: "digits_of base ds" and base: "base \<le> 16" using assms(1) by (auto simp: spelled_def)
  have n0: "0 \<le> ?n" by (simp add: digits_value_def read_base_nonneg)
  obtain w uns where c: "List.find (c_holds ?n) (c_literal_types lay base hasU l) = Some (w, uns)"
    using assms(4) by (metis (no_types, lifting) find_None_iff not_None_eq surj_pair)
  have mem: "(w, uns) \<in> set (c_literal_types lay base hasU l)" "c_holds ?n (w, uns)" using find_SomeD [OF c] by auto
  have w: "0 < w" "w \<le> 64" using c_type_widths [OF lw mem(1)] by auto
  have "?n < 2 ^ (if uns then w else w - 1)" using mem(2) by (simp add: c_holds_def)
  also have "\<dots> \<le> (2::int) ^ 64" using w by (intro power_increasing) auto
  finally have n64: "?n < 2 ^ 64" .
  have fits: "fits_in_bits (word_of_int ?n) v u \<longleftrightarrow> c_holds ?n (v, u)" if "(v, u) \<in> set (literal_candidates lay base hasU l)" for v u
  proof -
    have "0 < v \<and> v \<le> 64" using that candidate_widths [OF lw] lw by (auto simp: literal_candidates_def widths_ok_def Let_def split: if_splits)
    then show ?thesis using fits_in_bits_iff n0 n64 by blast
  qed
  have "List.find (\<lambda>(w, uns). fits_in_bits (word_of_int ?n) w uns) (literal_candidates lay base hasU l) =
      List.find (c_holds ?n) (literal_candidates lay base hasU l)" using fits by (intro find_cong_set) auto
  also have "\<dots> = Some (w, uns)" using candidates_cover_c_types [OF lw suffix_rank [OF assms(2)] assms(5,4)] c by simp
  finally have ch: "choose_candidate (word_of_int ?n) (literal_candidates lay base hasU l) = (w, uns)" by (simp add: choose_candidate_def)
  have st: "strtoull base (ds @ suf) = (word_of_int ?n, False, suf)"
    using strtoull_reads [OF dg suffix_ends_digits [OF assms(2) base]] suffix_not_x [OF assms(2)] n64 by blast
  have ne: "suf \<noteq> ds @ suf" using dg by (auto simp: digits_of_def)
  have ok: "fits_in_bits (word_of_int ?n) w uns" using fits_in_bits_iff [OF w n0 n64] mem(2) by simp
  note hd = spelled_head [OF assms(1)]
  have rank: "(if 2 < l then 2 else l) = l" using suffix_rank [OF assms(2)] by simp
  have "parse_integer_literal_info host (Some (t @ suf)) (Some lay) =
      Done \<lparr>il_overflow = False, il_bits = w, il_isUnsigned = uns, il_value = word_of_int ?n\<rparr>"
    using hd ne ok rank literal_value_same [OF w n0 mem(2)]
    by (simp add: parse_integer_literal_info_def literal_base_spelled [OF assms(1,2)] st suffix_reads [OF assms(2)] ch)
  then show ?thesis using c by blast
qed

theorem integer_literal_has_c_type_witness:
  "\<forall>host. parse_integer_literal_info host (Some ''0xFFFFFFFFu'') (Some layout_lp64_fp80) =
     Done \<lparr>il_overflow = False, il_bits = 32, il_isUnsigned = True, il_value = 0xFFFFFFFF\<rparr>"
proof (rule allI)
  fix host
  have sp: "spelled 16 ''FFFFFFFF'' ''0xFFFFFFFF''" by (simp add: spelled_def digits_of_def base_digit_def hex_val_def)
  have sf: "(''u'', True, 0) \<in> set c_suffixes" by (simp add: c_suffixes_def)
  have lay: "layout_ok layout_lp64_fp80" by (rule builtin_layout_ok) simp
  have v: "digits_value 16 ''FFFFFFFF'' = 0xFFFFFFFF" by (simp add: digits_value_def base_digit_def hex_val_def)
  have ty: "c_literal_types layout_lp64_fp80 16 True 0 = [(32, True), (64, True), (64, True)]"
    by (simp add: c_literal_types_def layout_lp64_fp80_def)
  from integer_literal_has_c_type [OF sp sf lay, of host]
  show "parse_integer_literal_info host (Some ''0xFFFFFFFFu'') (Some layout_lp64_fp80) =
     Done \<lparr>il_overflow = False, il_bits = 32, il_isUnsigned = True, il_value = 0xFFFFFFFF\<rparr>"
    by (auto simp: ty v c_holds_def)
qed

text \<open>
  The candidate list for a non-decimal literal with one \<open>l\<close> leaves out \<open>unsigned long\<close>: on a target with
  32-bit \<open>long\<close> the literal \<open>0x80000000L\<close> gets the signed 64-bit type although C gives it \<open>unsigned long\<close>.
\<close>

theorem hex_long_literal_misses_unsigned_long:
  "List.find (c_holds 0x80000000) (c_literal_types layout_llp64_fp64 16 False 1) = Some (32, True) \<and>
   parse_integer_literal_info host (Some ''0x80000000L'') (Some layout_llp64_fp64) =
     Done \<lparr>il_overflow = False, il_bits = 64, il_isUnsigned = False, il_value = 0x80000000\<rparr>"
proof
  show "List.find (c_holds 0x80000000) (c_literal_types layout_llp64_fp64 16 False 1) = Some (32, True)"
    by (simp add: c_literal_types_def layout_llp64_fp64_def c_holds_def)
  have ok: "layout_ok layout_llp64_fp64" by (rule builtin_layout_ok) simp
  have cand: "literal_candidates layout_llp64_fp64 16 False (Suc 0) = [(32, False), (64, False), (64, True)]"
    using candidate_widths [OF layout_widths_ok [OF ok]]
    by (simp add: literal_candidates_def) (simp add: layout_llp64_fp64_def)
  have f: "strtoull 16 ''80000000L'' = (0x80000000, False, ''L'')"
    "literal_base ''0x80000000L'' = (16, ''80000000L'')"
    "choose_candidate 0x80000000 [(32, False), (64, False), (64, True)] = (64, False)"
    "fits_in_bits 0x80000000 64 False" "literal_value False 0x80000000 64 False = Some 0x80000000"
    "literal_suffix False 0 ''L'' = Some (False, Suc 0)" by code_simp+
  show "parse_integer_literal_info host (Some ''0x80000000L'') (Some layout_llp64_fp64) =
     Done \<lparr>il_overflow = False, il_bits = 64, il_isUnsigned = False, il_value = 0x80000000\<rparr>"
    by (simp add: parse_integer_literal_info_def f cand del: literal_suffix.simps)
qed

section \<open>Decoding string literals\<close>

text \<open>One step of the loop: what is read at the front of the text, and the result after it.\<close>

definition next_unit :: "string \<Rightarrow> (nat \<times> u32) option" where
  "next_unit s =
    (if hd s = CHR 0x5C then map_option (\<lambda>(n, v). (n + 1, v)) (decodeEscape (tl s))
     else Some (1, word_of_nat (of_char (hd s))))"

definition bad_code_point :: "u32 \<Rightarrow> bool" where
  "bad_code_point v \<longleftrightarrow> v > 0x10FFFF \<or> (v \<ge> 0xD800 \<and> v \<le> 0xDFFF)"

definition char_max :: "int \<Rightarrow> u64" where
  "char_max w = (if w \<le> 0 \<or> w \<ge> 63 then - 1 else push_bit (nat w) 1 - 1)"

definition count_unit :: "u64 \<Rightarrow> u32 \<Rightarrow> LiteralDecodeResult \<Rightarrow> LiteralDecodeResult" where
  "count_unit mv v res =
    res\<lparr>ld_ok := ld_ok res \<and> \<not> bad_code_point v, ld_overflow := ld_overflow res \<or> ucast v > mv,
        ld_length := ld_length res + 1\<rparr>"

abbreviation low_byte :: "u32 \<Rightarrow> nat" where
  "low_byte v \<equiv> unat (v AND 0xFF)"

lemma decode_loops_Nil [simp]:
  "decode_narrow_loop mv cap [] res buf = (res, buf)" "decode_wide_loop mv [] res wbuf = (res, wbuf)"
  by (simp_all add: decode_narrow_loop.simps decode_wide_loop.simps)

lemma narrow_loop_step:
  "s \<noteq> [] \<Longrightarrow> decode_narrow_loop mv cap s res buf =
    (case next_unit s of
       None \<Rightarrow> (res\<lparr>ld_ok := False\<rparr>, buf)
     | Some (n, v) \<Rightarrow> decode_narrow_loop mv cap (drop n s) (count_unit mv v res)
         (map_option (\<lambda>b. if length b + 1 < cap then b @ [low_byte v] else b) buf))"
  by (subst decode_narrow_loop.simps)
    (cases s; auto simp: next_unit_def count_unit_def bad_code_point_def Let_def map_option_case split: option.splits
      intro!: arg_cong2 [where f = "decode_narrow_loop mv cap _"])

lemma wide_loop_step:
  "s \<noteq> [] \<Longrightarrow> decode_wide_loop mv s res buf =
    (case next_unit s of
       None \<Rightarrow> (res\<lparr>ld_ok := False\<rparr>, buf)
     | Some (n, v) \<Rightarrow> decode_wide_loop mv (drop n s) (count_unit mv v res) (map_option (\<lambda>b. b @ [v]) buf))"
  by (subst decode_wide_loop.simps)
    (cases s; auto simp: next_unit_def count_unit_def bad_code_point_def Let_def map_option_case split: option.splits
      intro!: arg_cong2 [where f = "decode_wide_loop mv _"])

lemma next_unit_consumes: "next_unit s = Some (n, v) \<Longrightarrow> 0 < n"
  by (auto simp: next_unit_def split: if_splits)

text \<open>The result does not depend on the buffers, nor on which of the two loops runs.\<close>

lemma decode_results_agree: "fst (decode_narrow_loop mv cap s res nbuf) = fst (decode_wide_loop mv s res wbuf)"
proof (induction s arbitrary: res nbuf wbuf rule: length_induct)
  case (1 s)
  show ?case
  proof (cases "s = [] \<or> next_unit s = None")
    case False
    then obtain n v where nv: "next_unit s = Some (n, v)" "s \<noteq> []" by auto
    then have "length (drop n s) < length s" using next_unit_consumes [OF nv(1)] by simp
    from 1 [rule_format, OF this] show ?thesis using nv by (simp add: narrow_loop_step wide_loop_step)
  qed (cases "s = []"; simp add: narrow_loop_step wide_loop_step)
qed

lemma decoders_step_together:
  assumes "length b + length s < cap" "decode_wide_loop mv s res (Some b) = (res', buf')"
  shows "\<exists>b'. buf' = Some b' \<and> decode_narrow_loop mv cap s res (Some (map low_byte b)) = (res', Some (map low_byte b')) \<and>
    length b' \<le> length b + length s \<and> ld_length res' + length b = ld_length res + length b'"
  using assms
proof (induction s arbitrary: res b rule: length_induct)
  case (1 s)
  show ?case
  proof (cases "s = []")
    case False
    show ?thesis
    proof (cases "next_unit s")
      case None
      then show ?thesis using 1(3) False by (auto simp: narrow_loop_step wide_loop_step)
    next
      case (Some nv)
      obtain n v where nv: "next_unit s = Some (n, v)" using Some by (cases nv) auto
      have n: "length (drop n s) < length s" using next_unit_consumes [OF nv] False by simp
      have run: "decode_wide_loop mv (drop n s) (count_unit mv v res) (Some (b @ [v])) = (res', buf')"
        using 1(3) False nv by (simp add: wide_loop_step)
      have fit: "length (b @ [v]) + length (drop n s) < cap" using 1(2) n by simp
      have room: "Suc (length b) < cap" using 1(2) False by (cases s) auto
      have len: "ld_length (count_unit mv v res) = ld_length res + 1" by (simp add: count_unit_def)
      show ?thesis
        using 1(1) [rule_format, OF n fit run] n len room by (auto simp: narrow_loop_step False nv)
    qed
  qed (use 1(3) in auto)
qed

text \<open>
  C21. The two string decoders agree on every text and for every character width, although each has a loop of
  its own: they report the same validity, overflow and length, with or without a buffer. When both store
  (widths of at most 8 bits), the narrow one stores the low byte of each code point the wide one stores,
  one per decoded unit: the text has at least as many characters as the literal has units, so the buffer of
  \<open>strlen + 1\<close> bytes is never too small.
\<close>

theorem string_decoders_agree:
  "fst (decode_c_string_literal raw w outBytes) = fst (decode_c_string_literal_wide raw w outCodepoints) \<and>
   (w \<le> 8 \<longrightarrow>
     (\<exists>res cps. decode_c_string_literal_wide (Some s) w True = (res, Some cps) \<and>
       decode_c_string_literal (Some s) w True = (res, Some (map low_byte cps)) \<and>
       ld_length res = length cps \<and> length cps \<le> length s))"
proof (intro conjI impI)
  show "fst (decode_c_string_literal raw w outBytes) = fst (decode_c_string_literal_wide raw w outCodepoints)"
    using decode_results_agree
    by (cases raw) (simp_all add: decode_c_string_literal_def decode_c_string_literal_wide_def Let_def)
next
  assume w: "w \<le> 8"
  obtain res buf where run: "decode_wide_loop (char_max w) s decode_start (Some []) = (res, buf)" by fastforce
  then obtain cps where "buf = Some cps"
      "decode_narrow_loop (char_max w) (length s + 1) s decode_start (Some []) = (res, Some (map low_byte cps))"
      "length cps \<le> length s" "ld_length res = length cps"
    using decoders_step_together [of "[]" s "length s + 1", OF _ run] by (auto simp: decode_start_def)
  then show "\<exists>res cps. decode_c_string_literal_wide (Some s) w True = (res, Some cps) \<and>
       decode_c_string_literal (Some s) w True = (res, Some (map low_byte cps)) \<and>
       ld_length res = length cps \<and> length cps \<le> length s"
    using run w
    by (auto simp: decode_c_string_literal_wide_def decode_c_string_literal_def char_max_def Let_def split: if_splits)
qed

theorem string_decoders_agree_witness:
  "\<exists>res cps. decode_c_string_literal_wide (Some [CHR 0x5C, CHR ''n'']) 8 True = (res, Some cps) \<and>
     decode_c_string_literal (Some [CHR 0x5C, CHR ''n'']) 8 True = (res, Some (map low_byte cps)) \<and>
     ld_length res = length cps \<and> length cps \<le> length [CHR 0x5C, CHR ''n'']"
  using conjunct2 [OF string_decoders_agree [of None 8 False False "[CHR 0x5C, CHR ''n'']"]] by simp

text \<open>An encoder: printable characters stand for themselves, the others become three-digit octal escapes.\<close>

definition octal_escape :: "nat \<Rightarrow> string" where
  "octal_escape n = [CHR 0x5C, char_of (48 + n div 64), char_of (48 + n div 8 mod 8), char_of (48 + n mod 8)]"

definition encode_char :: "char \<Rightarrow> string" where
  "encode_char c =
    (if 32 \<le> (of_char c :: nat) \<and> (of_char c :: nat) < 127 \<and> c \<noteq> CHR 0x5C \<and> c \<noteq> CHR 0x22 then [c]
     else octal_escape (of_char c))"

lemma octal_char: "d < 8 \<Longrightarrow> (of_char (char_of (48 + d :: nat)) :: nat) = 48 + d"
  by (simp add: take_bit_eq_mod)

lemma octal_char_other:
  assumes "d < 8"
  shows "simple_escape (char_of (48 + d :: nat)) = None" "char_of (48 + d :: nat) \<notin> {CHR ''x'', CHR ''u'', CHR ''U''}"
proof -
  consider "d = 0" | "d = 1" | "d = 2" | "d = 3" | "d = 4" | "d = 5" | "d = 6" | "d = 7" using assms by linarith
  then show "simple_escape (char_of (48 + d :: nat)) = None" "char_of (48 + d :: nat) \<notin> {CHR ''x'', CHR ''u'', CHR ''U''}"
    by (cases; simp add: simple_escape_def char_of_def)+
qed

lemma octal_value: "n < 256 \<Longrightarrow>
   (push_bit 3 (push_bit 3 (word_of_nat (n div 64)) + word_of_nat (n div 8 mod 8)) + word_of_nat (n mod 8) :: u32) = word_of_nat n"
proof -
  assume n: "n < 256"
  have d: "n div 64 = n div 8 div 8" using div_mult2_eq [of n 8 8] by simp
  have "n = (n div 64 * 8 + n div 8 mod 8) * 8 + n mod 8" unfolding d by simp
  then have "(word_of_nat n :: u32) = word_of_nat ((n div 64 * 8 + n div 8 mod 8) * 8 + n mod 8)" by simp
  also have "\<dots> = push_bit 3 (push_bit 3 (word_of_nat (n div 64)) + word_of_nat (n div 8 mod 8)) + word_of_nat (n mod 8)"
    by (simp add: push_bit_eq_mult)
  finally show ?thesis by simp
qed

lemma decode_octal_escape:
  assumes "n < 256"
  shows "decodeEscape (tl (octal_escape n) @ r) = Some (3, word_of_nat n)"
proof -
  let ?a = "char_of (48 + n div 64) :: char" and ?b = "char_of (48 + n div 8 mod 8) :: char" and ?c = "char_of (48 + n mod 8) :: char"
  have d: "n div 64 < 8" "n div 8 mod 8 < 8" "n mod 8 < 8" using assms by auto
  have o: "is_octal ?a" "is_octal ?b" "is_octal ?c" using d by (simp_all add: is_octal_def octal_char)
  have v: "of_char ?a - (48::nat) = n div 64" "of_char ?b - (48::nat) = n div 8 mod 8" "of_char ?c - (48::nat) = n mod 8"
    using d by (simp_all add: octal_char)
  have stop: "octal_digits 3 x r = (3, x)" for x by (cases r) auto
  have oct: "octal_digits 0 0 (?a # ?b # ?c # r) = (3, word_of_nat n)"
    using o v stop octal_value [OF assms] by (simp add: numeral_3_eq_3)
  have "decodeEscape (?a # ?b # ?c # r) = Some (octal_digits 0 0 (?a # ?b # ?c # r))"
    using octal_char_other [OF d(1)] o(1) by (simp add: decodeEscape_def del: octal_digits.simps)
  then show ?thesis using oct by (simp add: octal_escape_def)
qed

lemma next_unit_encoded: "\<exists>n. n = length (encode_char c) \<and> next_unit (encode_char c @ r) = Some (n, word_of_nat (of_char c))"
proof -
  have lt: "(of_char c :: nat) < 256" by simp
  show ?thesis
    using decode_octal_escape [OF lt, of r] by (auto simp: encode_char_def next_unit_def octal_escape_def)
qed

lemma byte_not_bad: "n < 256 \<Longrightarrow> \<not> bad_code_point (word_of_nat n)"
  by (simp add: bad_code_point_def word_less_nat_alt word_le_nat_alt unat_of_nat)

lemma byte_no_overflow: "n < 256 \<Longrightarrow> \<not> (ucast (word_of_nat n :: u32) > char_max 8)"
  by (simp add: char_max_def word_less_nat_alt unsigned_of_nat take_bit_eq_mod push_bit_eq_mult)

lemma decode_encoded:
  "decode_wide_loop (char_max 8) (concat (map encode_char cs)) res (Some b) =
    (res\<lparr>ld_length := ld_length res + length cs\<rparr>, Some (b @ map (\<lambda>c. word_of_nat (of_char c)) cs))"
proof (induction cs arbitrary: res b)
  case (Cons c cs)
  let ?r = "concat (map encode_char cs)"
  obtain n where n: "n = length (encode_char c)" "next_unit (encode_char c @ ?r) = Some (n, word_of_nat (of_char c))"
    using next_unit_encoded by blast
  have lt: "(of_char c :: nat) < 256" by simp
  have ne: "encode_char c @ ?r \<noteq> []" by (auto simp: encode_char_def octal_escape_def)
  have cu: "count_unit (char_max 8) (word_of_nat (of_char c)) res = res\<lparr>ld_length := ld_length res + 1\<rparr>"
    using byte_not_bad [OF lt] byte_no_overflow [OF lt] by (simp add: count_unit_def)
  show ?case using Cons.IH [of "res\<lparr>ld_length := ld_length res + 1\<rparr>" "b @ [word_of_nat (of_char c)]"] n
    by (simp add: wide_loop_step [OF ne, simplified] cu)
qed simp

lemma low_byte_of_nat: "n < 256 \<Longrightarrow> low_byte (word_of_nat n) = n"
proof -
  assume n: "n < 256"
  have "(word_of_nat n :: u32) AND 0xFF = take_bit 8 (word_of_nat n)" by (simp add: take_bit_eq_mask mask_eq_exp_minus_1)
  then have "low_byte (word_of_nat n) = take_bit 8 (unat (word_of_nat n :: u32))" by (simp add: unsigned_take_bit_eq)
  then show ?thesis using n by (simp add: unat_of_nat take_bit_eq_mod)
qed

text \<open>
  Every byte string can be written as a string literal: encoding it with printable characters and
  three-digit octal escapes and decoding the literal gives the bytes back, valid, without overflow and
  with the right length, whatever digits follow an escape.
\<close>

theorem string_literal_roundtrip:
  "decode_c_string_literal (Some (concat (map encode_char cs))) 8 True =
    (\<lparr>ld_ok = True, ld_overflow = False, ld_length = length cs\<rparr>, Some (map of_char cs))"
proof -
  let ?s = "concat (map encode_char cs)"
  have w: "decode_wide_loop (char_max 8) ?s decode_start (Some []) =
      (\<lparr>ld_ok = True, ld_overflow = False, ld_length = length cs\<rparr>, Some (map (\<lambda>c. word_of_nat (of_char c)) cs))"
    using decode_encoded [of cs decode_start "[]"] by (simp add: decode_start_def)
  have "decode_narrow_loop (char_max 8) (length ?s + 1) ?s decode_start (Some []) =
      (\<lparr>ld_ok = True, ld_overflow = False, ld_length = length cs\<rparr>,
       Some (map low_byte (map (\<lambda>c. word_of_nat (of_char c)) cs)))"
    using decoders_step_together [of "[]" ?s "length ?s + 1", OF _ w] by auto
  then show ?thesis by (simp add: decode_c_string_literal_def char_max_def comp_def low_byte_of_nat)
qed

text \<open>
  A hexadecimal escape of more than eight digits is accumulated in 32 bits without a bound: the literal
  \<open>\x100000041\<close> is accepted as the single character \<open>A\<close>, with no overflow reported.
\<close>

theorem hex_escape_wraps:
  "decode_c_string_literal (Some (CHR 0x5C # ''x100000041'')) 8 True =
    (\<lparr>ld_ok = True, ld_overflow = False, ld_length = 1\<rparr>, Some [0x41])"
proof -
  have u: "next_unit (CHR 0x5C # ''x100000041'') = Some (11, 0x41)" by code_simp
  have c: "count_unit (char_max 8) 0x41 decode_start = \<lparr>ld_ok = True, ld_overflow = False, ld_length = 1\<rparr>" by code_simp
  have "decode_wide_loop (char_max 8) (CHR 0x5C # ''x100000041'') decode_start (Some []) =
      (\<lparr>ld_ok = True, ld_overflow = False, ld_length = 1\<rparr>, Some [0x41])"
    by (subst wide_loop_step) (simp_all only: u c option.case prod.case drop_Suc_Cons, simp_all)
  from decoders_step_together [OF _ this, of "length (CHR 0x5C # ''x100000041'') + 1"]
  show ?thesis by (auto simp: decode_c_string_literal_def char_max_def)
qed

end
