(* ===== verification/Parsed_Type_Props.thy ===== *)
theory Parsed_Type_Props
  imports Parsed_Type
begin

text \<open>
  Structural equality of parsed types is an equivalence on the types cloning leaves alone, cloning is
  idempotent, and an array parameter that decays to a pointer keeps its element type.
\<close>

section \<open>Canonical types\<close>

text \<open>
  Mirrored parameters occur only on function pointers without a function derivation, at every depth.
\<close>

fun canonical_type :: "ParsedType \<Rightarrow> bool"
  and canonical_derivation :: "TypeDerivation \<Rightarrow> bool" where
  "canonical_type (PT b ds fps) \<longleftrightarrow>
    (fps \<noteq> [] \<longrightarrow> pt_isFunctionPointer b \<and> List.find is_function ds = None) \<and>
    list_all canonical_derivation ds \<and> list_all canonical_type fps"
| "canonical_derivation (DPointer q) \<longleftrightarrow> True"
| "canonical_derivation (DArray a) \<longleftrightarrow> True"
| "canonical_derivation (DFunction p v ps) \<longleftrightarrow> list_all canonical_type ps"

lemma find_function_clone [simp]:
  "List.find is_function (map cloneDerivationInto ds) = map_option cloneDerivationInto (List.find is_function ds)"
proof (induction ds)
  case (Cons d ds)
  then show ?case by (cases d) simp_all
qed simp

lemma clone_canonical_id:
  "canonical_type t \<Longrightarrow> parsedTypeClone t = t"
  "canonical_derivation d \<Longrightarrow> cloneDerivationInto d = d"
  by (induction t and d rule: canonical_type_canonical_derivation.induct)
    (auto simp: list_all_iff intro!: map_idI)

lemma clone_idem:
  "parsedTypeClone (parsedTypeClone t) = parsedTypeClone t"
  "cloneDerivationInto (cloneDerivationInto d) = cloneDerivationInto d"
  by (induction t and d rule: parsedTypeClone_cloneDerivationInto.induct) auto

section \<open>Structural equality, component by component\<close>

text \<open>The comparison of two lists of types by a relation, and the parts of the comparison.\<close>

definition sig_equal :: "(ParsedType \<Rightarrow> ParsedType \<Rightarrow> bool) \<Rightarrow> ParsedType \<Rightarrow> ParsedType \<Rightarrow> bool" where
  "sig_equal R a b \<longleftrightarrow>
    (case (parsedTypeGetEffectiveFunctionPointerSignature a, parsedTypeGetEffectiveFunctionPointerSignature b) of
       (Some (ps, v, p), Some (qs, w, q)) \<Rightarrow> v = w \<and> p = q \<and> list_all2 R ps qs
     | (None, None) \<Rightarrow> length (pt_fpParams a) = length (pt_fpParams b)
     | _ \<Rightarrow> False)"

fun deriv_equal :: "(ParsedType \<Rightarrow> ParsedType \<Rightarrow> bool) \<Rightarrow> TypeDerivation \<Rightarrow> TypeDerivation \<Rightarrow> bool" where
  "deriv_equal R (DPointer q) (DPointer r) \<longleftrightarrow> q = r"
| "deriv_equal R (DArray x) (DArray y) \<longleftrightarrow> ai_isVLA x = ai_isVLA y"
| "deriv_equal R (DFunction p v ps) (DFunction q w qs) \<longleftrightarrow> p = q \<and> v = w \<and> list_all2 R ps qs"
| "deriv_equal R _ _ \<longleftrightarrow> False"

lemma deriv_equal_kind: "deriv_equal R d e \<Longrightarrow> deriv_kind d = deriv_kind e"
  by (cases d; cases e) simp_all

lemma structurally_equal_unfold:
  "parsedTypesStructurallyEqual a b \<longleftrightarrow>
    same_base (pt_base a) (pt_base b) \<and>
    (pt_isFunctionPointer (pt_base a) \<or> pt_isFunctionPointer (pt_base b) \<longrightarrow>
      sig_equal parsedTypesStructurallyEqual a b \<and>
      length (pt_fpParams a) \<le> length (pt_fpParams b) \<and>
      (\<forall>xy \<in> set (zip (pt_fpParams a) (pt_fpParams b)). parsedTypesStructurallyEqual (fst xy) (snd xy))) \<and>
    list_all2 (deriv_equal parsedTypesStructurallyEqual) (pt_derivations a) (pt_derivations b)"
proof -
  have d: "deriv_equal R x y \<longleftrightarrow>
      (case (x, y) of
         (DPointer q, DPointer r) \<Rightarrow> q = r
       | (DArray x, DArray y) \<Rightarrow> ai_isVLA x = ai_isVLA y
       | (DFunction p v ps, DFunction q w qs) \<Rightarrow> p = q \<and> v = w \<and> length ps = length qs \<and> (\<forall>xy \<in> set (zip ps qs). R (fst xy) (snd xy))
       | _ \<Rightarrow> False)" for R x y
    by (cases x; cases y) (auto simp: list_all2_iff)
  have l: "list_all2 (deriv_equal R) ds es \<longleftrightarrow> length ds = length es \<and>
      (\<forall>de \<in> set (zip ds es). case de of
         (DPointer q, DPointer r) \<Rightarrow> q = r
       | (DArray x, DArray y) \<Rightarrow> ai_isVLA x = ai_isVLA y
       | (DFunction p v ps, DFunction q w qs) \<Rightarrow> p = q \<and> v = w \<and> length ps = length qs \<and> (\<forall>xy \<in> set (zip ps qs). R (fst xy) (snd xy))
       | _ \<Rightarrow> False)" for R ds es
    unfolding list_all2_iff by (intro conj_cong refl ball_cong) (simp add: split_paired_all d)
  have s: "sig_equal R x y \<longleftrightarrow>
      (case (parsedTypeGetEffectiveFunctionPointerSignature x, parsedTypeGetEffectiveFunctionPointerSignature y) of
         (Some (ps, v, p), Some (qs, w, q)) \<Rightarrow>
           length ps = length qs \<and> v = w \<and> p = q \<and> (\<forall>xy \<in> set (zip ps qs). R (fst xy) (snd xy))
       | (None, None) \<Rightarrow> length (pt_fpParams x) = length (pt_fpParams y)
       | _ \<Rightarrow> False)" for R x y
    by (auto simp: sig_equal_def list_all2_iff split: option.splits)
  show ?thesis by (subst parsedTypesStructurallyEqual.simps) (simp only: l s)
qed

text \<open>On canonical types the comparison is symmetric in form.\<close>

abbreviation declares_function :: "ParsedType \<Rightarrow> bool" where
  "declares_function t \<equiv> List.find is_function (pt_derivations t) \<noteq> None"

lemma canonical_fpParams:
  "canonical_type t \<Longrightarrow> pt_fpParams t \<noteq> [] \<Longrightarrow> pt_isFunctionPointer (pt_base t) \<and> \<not> declares_function t"
  by (cases t) auto

lemma deriv_equal_find:
  assumes "list_all2 (deriv_equal R) ds es"
  shows "rel_option (deriv_equal R) (List.find is_function ds) (List.find is_function es)"
  using assms
proof (induction rule: list_all2_induct)
  case (Cons d ds e es)
  then show ?case using deriv_equal_kind [of R d e] by simp
qed simp

lemma deriv_equal_functionE:
  assumes "deriv_equal R d e" "is_function d"
  obtains p v ps qs where "d = DFunction p v ps" "e = DFunction p v qs" "list_all2 R ps qs"
  using assms by (cases d; cases e) auto

lemma signature_no_function:
  assumes "canonical_type t" "\<not> declares_function t"
  shows "parsedTypeGetEffectiveFunctionPointerSignature t =
    (if pt_fpParams t = [] then None else Some (pt_fpParams t, False, True))"
  using assms canonical_fpParams [of t]
  by (auto simp: parsedTypeGetEffectiveFunctionPointerSignature_def findFirstFunctionDerivation_def Let_def)

lemma signature_function:
  assumes "canonical_type t" "List.find is_function (pt_derivations t) = Some (DFunction p v ps)"
  shows "parsedTypeGetEffectiveFunctionPointerSignature t =
    (if pt_isFunctionPointer (pt_base t) then Some (ps, v, p) else None)"
  using assms canonical_fpParams [of t]
  by (auto simp: parsedTypeGetEffectiveFunctionPointerSignature_def findFirstFunctionDerivation_def Let_def)

lemma sig_equal_no_function:
  assumes "canonical_type a" "canonical_type b" "\<not> declares_function a" "\<not> declares_function b"
  shows "sig_equal R a b \<longleftrightarrow> list_all2 R (pt_fpParams a) (pt_fpParams b)"
  using assms by (auto simp: sig_equal_def signature_no_function)

lemma sig_equal_function:
  assumes "canonical_type a" "canonical_type b"
    and "List.find is_function (pt_derivations a) = Some (DFunction p v ps)"
    and "List.find is_function (pt_derivations b) = Some (DFunction p v qs)"
    and "list_all2 R ps qs"
  shows "pt_isFunctionPointer (pt_base a) \<or> pt_isFunctionPointer (pt_base b) \<longrightarrow> sig_equal R a b \<longleftrightarrow>
    pt_isFunctionPointer (pt_base a) = pt_isFunctionPointer (pt_base b)"
  using assms by (auto simp: sig_equal_def signature_function)

lemma list_all2_prefix:
  "list_all2 R xs ys \<Longrightarrow> length xs \<le> length ys \<and> (\<forall>xy \<in> set (zip xs ys). R (fst xy) (snd xy))"
  by (auto simp: list_all2_iff)

lemma canonical_equal_iff:
  assumes a: "canonical_type a" and b: "canonical_type b"
  shows "parsedTypesStructurallyEqual a b \<longleftrightarrow>
    same_base (pt_base a) (pt_base b) \<and>
    (declares_function a \<longrightarrow> pt_isFunctionPointer (pt_base a) = pt_isFunctionPointer (pt_base b)) \<and>
    list_all2 parsedTypesStructurallyEqual (pt_fpParams a) (pt_fpParams b) \<and>
    list_all2 (deriv_equal parsedTypesStructurallyEqual) (pt_derivations a) (pt_derivations b)"
    (is "_ \<longleftrightarrow> _ \<and> _ \<and> _ \<and> ?D")
proof (cases ?D)
  case True
  note f = deriv_equal_find [OF True]
  show ?thesis
  proof (cases "declares_function a")
    case fa: True
    then obtain d where d: "List.find is_function (pt_derivations a) = Some d" by auto
    then obtain e where e: "List.find is_function (pt_derivations b) = Some e" "deriv_equal parsedTypesStructurallyEqual d e"
      using f by (cases "List.find is_function (pt_derivations b)") auto
    have "is_function d" using find_SomeD [OF d] by simp
    with e(2) obtain p v ps qs
      where pq: "d = DFunction p v ps" "e = DFunction p v qs" "list_all2 parsedTypesStructurallyEqual ps qs"
      by (rule deriv_equal_functionE)
    have "pt_fpParams a = []" "pt_fpParams b = []"
      using canonical_fpParams [OF a] canonical_fpParams [OF b] d e by auto
    then show ?thesis
      unfolding structurally_equal_unfold [of a b]
      using sig_equal_function [OF a b d [unfolded pq] e(1) [unfolded pq] pq(3)] True fa by auto
  next
    case fa: False
    then have fb: "\<not> declares_function b" using f by (cases "List.find is_function (pt_derivations b)") auto
    have "pt_isFunctionPointer (pt_base a) \<or> pt_isFunctionPointer (pt_base b) \<or> (pt_fpParams a = [] \<and> pt_fpParams b = [])"
      using canonical_fpParams [OF a] canonical_fpParams [OF b] by blast
    then show ?thesis
      unfolding structurally_equal_unfold [of a b]
      using sig_equal_no_function [OF a b fa fb, of parsedTypesStructurallyEqual] True fa
        list_all2_prefix [of parsedTypesStructurallyEqual "pt_fpParams a" "pt_fpParams b"] by auto
  qed
next
  case False
  then show ?thesis unfolding structurally_equal_unfold [of a b] by blast
qed

section \<open>An equivalence\<close>

lemma canonical_parts:
  assumes "canonical_type t"
  shows "x \<in> set (pt_fpParams t) \<Longrightarrow> canonical_type x"
    and "DFunction p v ps \<in> set (pt_derivations t) \<Longrightarrow> x \<in> set ps \<Longrightarrow> canonical_type x"
  using assms by (cases t; force simp: list_all_iff)+

text \<open>
  What a comparison of types looks at, as a type with everything else erased: of the base the kind, the
  name, the qualifiers, the signedness and width and the pointer depth, of a pointer its qualifiers, of an
  array only whether its length is variable, of a function its parameters and the two flags; the mark of
  a function pointer matters next to a function derivation only.
\<close>

definition erase_base :: "bool \<Rightarrow> PTBase \<Rightarrow> PTBase" where
  "erase_base fn b =
    zero_base\<lparr>pt_kind := pt_kind b, pt_primitiveType := pt_primitiveType b, pt_tag := pt_tag b,
      pt_userTypeName := pt_userTypeName b, pt_isConst := pt_isConst b, pt_isVolatile := pt_isVolatile b,
      pt_isRestrict := pt_isRestrict b, pt_isSigned := pt_isSigned b, pt_isUnsigned := pt_isUnsigned b,
      pt_isShort := pt_isShort b, pt_isLong := pt_isLong b, pt_isComplex := pt_isComplex b,
      pt_isImaginary := pt_isImaginary b, pt_pointerDepth := pt_pointerDepth b,
      pt_isFunctionPointer := fn \<and> pt_isFunctionPointer b\<rparr>"

fun erase_type :: "ParsedType \<Rightarrow> ParsedType"
  and erase_derivation :: "TypeDerivation \<Rightarrow> TypeDerivation" where
  "erase_type (PT b ds fps) =
    PT (erase_base (List.find is_function ds \<noteq> None) b) (map erase_derivation ds) (map erase_type fps)"
| "erase_derivation (DPointer q) = DPointer q"
| "erase_derivation (DArray a) = DArray (no_array_info\<lparr>ai_isVLA := ai_isVLA a\<rparr>)"
| "erase_derivation (DFunction p v ps) = DFunction p v (map erase_type ps)"

lemma erase_parts:
  "erase_type t = PT (erase_base (declares_function t) (pt_base t)) (map erase_derivation (pt_derivations t))
    (map erase_type (pt_fpParams t))"
  by (cases t) simp

lemma erase_base_iff:
  "erase_base f a = erase_base f b \<longleftrightarrow>
    same_base a b \<and> (f \<longrightarrow> pt_isFunctionPointer a = pt_isFunctionPointer b)"
  by (auto simp: erase_base_def zero_base_def same_base_def namesEqual_def)

lemma declares_function_erased:
  "map erase_derivation (pt_derivations a) = map erase_derivation (pt_derivations b) \<Longrightarrow>
    declares_function a = declares_function b"
proof -
  have k: "is_function (erase_derivation d) = is_function d" for d by (cases d) simp_all
  have "List.find is_function (map erase_derivation ds) = map_option erase_derivation (List.find is_function ds)" for ds
    by (induction ds) (simp_all add: k)
  then show "map erase_derivation (pt_derivations a) = map erase_derivation (pt_derivations b) \<Longrightarrow> ?thesis"
    by (metis option.map_disc_iff)
qed

lemma list_all2_map_eq:
  "(\<And>x y. x \<in> set xs \<Longrightarrow> y \<in> set ys \<Longrightarrow> R x y \<longleftrightarrow> f x = f y) \<Longrightarrow> list_all2 R xs ys \<longleftrightarrow> map f xs = map f ys"
  by (auto simp: list_all2_conv_all_nth list_eq_iff_nth_eq)

lemma deriv_equal_erased:
  assumes "\<And>p v ps q w qs x y. d = DFunction p v ps \<Longrightarrow> e = DFunction q w qs \<Longrightarrow> x \<in> set ps \<Longrightarrow> y \<in> set qs \<Longrightarrow>
      R x y \<longleftrightarrow> erase_type x = erase_type y"
  shows "deriv_equal R d e \<longleftrightarrow> erase_derivation d = erase_derivation e"
proof (cases "\<exists>p v ps q w qs. d = DFunction p v ps \<and> e = DFunction q w qs")
  case True
  then obtain p v ps q w qs where de: "d = DFunction p v ps" "e = DFunction q w qs" by blast
  show ?thesis using list_all2_map_eq [of ps qs R erase_type] assms [OF de] de by simp
next
  case False
  then show ?thesis by (cases d; cases e) (auto simp: no_array_info_def)
qed

lemma canonical_equal_erased:
  "canonical_type a \<Longrightarrow> canonical_type b \<Longrightarrow> parsedTypesStructurallyEqual a b \<longleftrightarrow> erase_type a = erase_type b"
proof (induction a arbitrary: b rule: measure_induct_rule [where f = size])
  case (less a)
  note ca = canonical_parts [OF less.prems(1)] and cb = canonical_parts [OF less.prems(2)]
  have f: "list_all2 parsedTypesStructurallyEqual (pt_fpParams a) (pt_fpParams b) \<longleftrightarrow>
      map erase_type (pt_fpParams a) = map erase_type (pt_fpParams b)"
    by (rule list_all2_map_eq) (simp add: less.IH ca(1) cb(1) fpParams_smaller)
  have "deriv_equal parsedTypesStructurallyEqual d e \<longleftrightarrow> erase_derivation d = erase_derivation e"
    if "d \<in> set (pt_derivations a)" "e \<in> set (pt_derivations b)" for d e
    by (rule deriv_equal_erased) (use that in \<open>simp add: less.IH ca(2) cb(2) deriv_params_smaller\<close>)
  then have d: "list_all2 (deriv_equal parsedTypesStructurallyEqual) (pt_derivations a) (pt_derivations b) \<longleftrightarrow>
      map erase_derivation (pt_derivations a) = map erase_derivation (pt_derivations b)"
    by (rule list_all2_map_eq)
  show ?case
  proof (cases "map erase_derivation (pt_derivations a) = map erase_derivation (pt_derivations b)")
    case True
    then show ?thesis
      unfolding canonical_equal_iff [OF less.prems] f d erase_parts [of a] erase_parts [of b] ParsedType.inject
      by (simp only: declares_function_erased [OF True] erase_base_iff simp_thms) blast
  next
    case False
    then show ?thesis
      unfolding canonical_equal_iff [OF less.prems] d erase_parts [of a] erase_parts [of b] ParsedType.inject by blast
  qed
qed

section \<open>Cloning and equality\<close>

text \<open>Mirrored parameters occur only on function pointers, at every depth: what the parser builds.\<close>

fun mirrors_on_pointers :: "ParsedType \<Rightarrow> bool"
  and mirrors_on_pointers_d :: "TypeDerivation \<Rightarrow> bool" where
  "mirrors_on_pointers (PT b ds fps) \<longleftrightarrow>
    (fps \<noteq> [] \<longrightarrow> pt_isFunctionPointer b) \<and> list_all mirrors_on_pointers_d ds \<and> list_all mirrors_on_pointers fps"
| "mirrors_on_pointers_d (DPointer q) \<longleftrightarrow> True"
| "mirrors_on_pointers_d (DArray a) \<longleftrightarrow> True"
| "mirrors_on_pointers_d (DFunction p v ps) \<longleftrightarrow> list_all mirrors_on_pointers ps"

lemma clone_canonical:
  "mirrors_on_pointers t \<Longrightarrow> canonical_type (parsedTypeClone t)"
  "mirrors_on_pointers_d d \<Longrightarrow> canonical_derivation (cloneDerivationInto d)"
  by (induction t and d rule: mirrors_on_pointers_mirrors_on_pointers_d.induct) (auto simp: list_all_iff)

definition int_base :: PTBase where
  "int_base = zero_base\<lparr>pt_kind := TYPE_PRIMITIVE, pt_primitiveType := TOKEN_INT\<rparr>"

definition int_type :: ParsedType where
  "int_type = PT int_base [] []"

text \<open>\<open>int (*)(int)\<close>, and the same with the parameter mirrored in the type itself.\<close>

definition int_fn_pointer :: ParsedType where
  "int_fn_pointer =
    PT (int_base\<lparr>pt_isFunctionPointer := True, pt_pointerDepth := 1\<rparr>) [DPointer no_qual, DFunction True False [int_type]] []"

definition int_fn_pointer_mirrored :: ParsedType where
  "int_fn_pointer_mirrored = PT (pt_base int_fn_pointer) (pt_derivations int_fn_pointer) [int_type]"

text \<open>
  C23. When mirrored parameters occur on function pointers only, at every depth (mirrors_on_pointers),
  two copies made by parsedTypeClone are structurally equal (parsedTypesStructurallyEqual) exactly when
  they agree in everything erase_type keeps: kind, primitive type, tag, name, qualifiers, signedness,
  width, complexity and pointer depth, the pointer qualifiers, the variable-length mark of arrays, the
  parameters and flags of functions, and the mirrored parameters, to every depth. Hence the comparison
  is reflexive, symmetric and transitive on such copies; and a copy of a copy is the copy.
\<close>
theorem structural_equality_is_equivalence:
  assumes "mirrors_on_pointers a" "mirrors_on_pointers b" "mirrors_on_pointers c"
  shows "(parsedTypesStructurallyEqual (parsedTypeClone a) (parsedTypeClone b) \<longleftrightarrow>
      erase_type (parsedTypeClone a) = erase_type (parsedTypeClone b)) \<and>
    parsedTypesStructurallyEqual (parsedTypeClone a) (parsedTypeClone a) \<and>
    (parsedTypesStructurallyEqual (parsedTypeClone a) (parsedTypeClone b) \<longleftrightarrow>
      parsedTypesStructurallyEqual (parsedTypeClone b) (parsedTypeClone a)) \<and>
    (parsedTypesStructurallyEqual (parsedTypeClone a) (parsedTypeClone b) \<and>
      parsedTypesStructurallyEqual (parsedTypeClone b) (parsedTypeClone c) \<longrightarrow>
      parsedTypesStructurallyEqual (parsedTypeClone a) (parsedTypeClone c)) \<and>
    parsedTypeClone (parsedTypeClone a) = parsedTypeClone a"
proof -
  note c = assms [THEN clone_canonical(1)]
  show ?thesis
    unfolding canonical_equal_erased [OF c(1,1)] canonical_equal_erased [OF c(1,2)] canonical_equal_erased [OF c(2,1)]
      canonical_equal_erased [OF c(2,3)] canonical_equal_erased [OF c(1,3)] clone_idem(1) by auto
qed

lemma int_types_mirror: "mirrors_on_pointers int_type" "mirrors_on_pointers int_fn_pointer" "mirrors_on_pointers int_fn_pointer_mirrored"
  by (simp_all add: int_type_def int_fn_pointer_def int_fn_pointer_mirrored_def)

theorem structural_equality_is_equivalence_witness:
  "mirrors_on_pointers int_fn_pointer \<and> mirrors_on_pointers int_fn_pointer_mirrored \<and> mirrors_on_pointers int_type \<and>
    parsedTypesStructurallyEqual (parsedTypeClone int_fn_pointer) (parsedTypeClone int_fn_pointer_mirrored) \<and>
    parsedTypesStructurallyEqual (parsedTypeClone int_fn_pointer_mirrored) (parsedTypeClone int_fn_pointer) \<and>
    \<not> parsedTypesStructurallyEqual (parsedTypeClone int_fn_pointer) (parsedTypeClone int_type)"
proof -
  have "erase_type (parsedTypeClone int_fn_pointer) = erase_type (parsedTypeClone int_fn_pointer_mirrored)"
    and "erase_type (parsedTypeClone int_fn_pointer) \<noteq> erase_type (parsedTypeClone int_type)"
    by (simp_all add: int_fn_pointer_mirrored_def int_fn_pointer_def int_type_def)
  then show ?thesis
    using structural_equality_is_equivalence [OF int_types_mirror(2,3,1)]
      structural_equality_is_equivalence [OF int_types_mirror(2,1,3)] int_types_mirror by blast
qed

text \<open>Without the copy the comparison is not symmetric: the right hand side's mirror is not looked at.\<close>

theorem clone_drops_mirror:
  "parsedTypesStructurallyEqual (parsedTypeClone int_fn_pointer_mirrored) int_fn_pointer_mirrored \<and>
   \<not> parsedTypesStructurallyEqual int_fn_pointer_mirrored (parsedTypeClone int_fn_pointer_mirrored)"
proof -
  have i: "parsedTypesStructurallyEqual int_type int_type" by (simp add: canonical_equal_erased int_type_def)
  have c: "parsedTypeClone int_type = int_type" by (simp add: int_type_def)
  show ?thesis
    unfolding structurally_equal_unfold [of "parsedTypeClone int_fn_pointer_mirrored"]
      structurally_equal_unfold [of int_fn_pointer_mirrored]
    using i c by (simp add: sig_equal_def parsedTypeGetEffectiveFunctionPointerSignature_def
      findFirstFunctionDerivation_def int_fn_pointer_mirrored_def int_fn_pointer_def same_base_def namesEqual_def)
qed

text \<open>Array sizes take no part in structural equality: \<open>int[3]\<close> and \<open>int[4]\<close> are equal.\<close>

definition int_array :: "int \<Rightarrow> ParsedType" where
  "int_array n = PT int_base [DArray (no_array_info\<lparr>ai_hasConstantSize := True, ai_constantSize := n\<rparr>)] []"

theorem structural_equality_ignores_array_size:
  "parsedTypesStructurallyEqual (int_array 3) (int_array 4) \<and> int_array 3 \<noteq> int_array 4"
  unfolding structurally_equal_unfold [of "int_array 3"]
  by (simp add: int_array_def int_base_def zero_base_def same_base_def namesEqual_def no_array_info_def)

section \<open>Array parameters\<close>

definition param_array_flags :: "ParsedArrayInfo \<Rightarrow> bool \<Rightarrow> PTBase \<Rightarrow> PTBase" where
  "param_array_flags a vla b = b\<lparr>pt_hasParamArrayInfo := True, pt_paramArrayInfo := a, pt_isVLA := vla\<rparr>"

lemma refresh_on_base:
  "parsedTypeRefreshFunctionFlags (on_base (param_array_flags a v) t) = on_base (param_array_flags a v) (parsedTypeRefreshFunctionFlags t)"
  by (rule ParsedType_eqI)
    (simp_all add: parsedTypeRefreshFunctionFlags_def findFirstFunctionDerivation_def param_array_flags_def split: option.split)

lemma clone_parts:
  "pt_base (parsedTypeClone t) = pt_base t"
  "pt_derivations (parsedTypeClone t) = map cloneDerivationInto (pt_derivations t)"
  "pt_fpParams (parsedTypeClone t) =
    (if pt_fpParams t \<noteq> [] \<and> List.find is_function (pt_derivations t) = None then map parsedTypeClone (pt_fpParams t) else [])"
  by (cases t; simp)+

lemma adjusted_array_parameter:
  assumes "pt_derivations t = DArray a # ds"
  shows "parsedTypeAdjustArrayParameter t =
    (PT ((param_array_flags a (parsedTypeHasVLA (with_derivations ds t)) (pt_base t))\<lparr>pt_pointerDepth := pt_pointerDepth (pt_base t) + 1\<rparr>)
       (DPointer (makePointerQual (ai_qualConst a) (ai_qualVolatile a) (ai_qualRestrict a)) # ds) (pt_fpParams t), True)"
  using assms
  by (simp add: parsedTypeAdjustArrayParameter_def Let_def on_base_def with_derivations_def parsedTypeAddPointerDepth_def
      param_array_flags_def parsedTypeHasVLA_def)

lemma pointer_target_of_pointer:
  "parsedTypePointerTargetType (PT b (DPointer q # ds) fps) =
    parsedTypeRefreshFunctionFlags (PT (lower_depth b) (map cloneDerivationInto ds)
      (if fps \<noteq> [] \<and> List.find is_function ds = None then map parsedTypeClone fps else []))"
  by (simp add: parsedTypePointerTargetType_def Let_def on_base_def with_derivations_def)

text \<open>
  Array parameters decay as C requires: when parsedTypeAdjustArrayParameter rewrites a parameter of
  type array of T, the pointer it leaves points to T: parsedTypePointerTargetType of the adjusted type
  is parsedTypeArrayElementType of the original in every field but the recorded array info and the VLA
  flag, which then tells whether an inner dimension is variable; any other type is returned unchanged.
\<close>
theorem array_parameter_decay_keeps_element:
  assumes "0 \<le> pt_pointerDepth (pt_base t)"
  shows "snd (parsedTypeAdjustArrayParameter t) = parsedTypeIsDirectArray t \<and>
    (\<not> parsedTypeIsDirectArray t \<longrightarrow> fst (parsedTypeAdjustArrayParameter t) = t) \<and>
    (\<forall>a ds. pt_derivations t = DArray a # ds \<longrightarrow>
      parsedTypePointerTargetType (fst (parsedTypeAdjustArrayParameter t)) =
        on_base (param_array_flags a (parsedTypeHasVLA (with_derivations ds t))) (parsedTypeArrayElementType t))"
proof (intro conjI)
  show "snd (parsedTypeAdjustArrayParameter t) = parsedTypeIsDirectArray t"
    and "\<not> parsedTypeIsDirectArray t \<longrightarrow> fst (parsedTypeAdjustArrayParameter t) = t"
    by (simp_all add: parsedTypeAdjustArrayParameter_def parsedTypeIsDirectArray_def Let_def split: list.split TypeDerivation.split)
next
  have "parsedTypePointerTargetType (fst (parsedTypeAdjustArrayParameter t)) =
      on_base (param_array_flags a (parsedTypeHasVLA (with_derivations ds t))) (parsedTypeArrayElementType t)"
    if d: "pt_derivations t = DArray a # ds" for a ds
  proof -
    let ?e = "with_derivations (map cloneDerivationInto ds) (parsedTypeClone t)"
    have "parsedTypePointerTargetType (fst (parsedTypeAdjustArrayParameter t)) =
        parsedTypeRefreshFunctionFlags (on_base (param_array_flags a (parsedTypeHasVLA (with_derivations ds t))) ?e)"
      unfolding adjusted_array_parameter [OF d] fst_conv pointer_target_of_pointer
      by (rule arg_cong [where f = parsedTypeRefreshFunctionFlags], rule ParsedType_eqI)
        (use assms in \<open>simp_all add: d clone_parts lower_depth_def param_array_flags_def\<close>)
    moreover have "parsedTypeArrayElementType t = parsedTypeRefreshFunctionFlags ?e"
      by (simp add: parsedTypeArrayElementType_def parsedTypeIsDirectArray_def Let_def clone_parts d)
    ultimately show ?thesis by (simp add: refresh_on_base)
  qed
  then show "\<forall>a ds. pt_derivations t = DArray a # ds \<longrightarrow>
      parsedTypePointerTargetType (fst (parsedTypeAdjustArrayParameter t)) =
        on_base (param_array_flags a (parsedTypeHasVLA (with_derivations ds t))) (parsedTypeArrayElementType t)"
    by blast
qed

theorem array_parameter_decay_keeps_element_witness:
  "parsedTypePointerTargetType (fst (parsedTypeAdjustArrayParameter (int_array 3))) =
    on_base (param_array_flags (no_array_info\<lparr>ai_hasConstantSize := True, ai_constantSize := 3\<rparr>) False) int_type"
proof -
  have "0 \<le> pt_pointerDepth (pt_base (int_array 3))" by (simp add: int_array_def int_base_def zero_base_def)
  from array_parameter_decay_keeps_element [OF this] show ?thesis
    by (simp add: int_array_def parsedTypeArrayElementType_def parsedTypeIsDirectArray_def parsedTypeRefreshFunctionFlags_def
        findFirstFunctionDerivation_def parsedTypeHasVLA_def Let_def on_base_def with_derivations_def int_type_def
        int_base_def zero_base_def)
qed

end
