(* ===== verification/Compiler_Context.thy ===== *)
theory Compiler_Context
  imports Target_Layout
begin

text \<open>
  The compiler context, \<open>src/src/Compiler/compiler_context.c\<close>: typedef names, the struct, union and enum
  tag tables with their layout cache, the builtin type names, the target and the feature sets. A set or
  table is the list of its items in order of insertion (capacities and allocation failure are left out);
  AST nodes are addresses; getters that accept a null context take an option. Diagnostics, token spans,
  exported symbols and include records are not part of this state.
\<close>

section \<open>Data\<close>

datatype CCTagKind = CC_TAG_STRUCT | CC_TAG_UNION | CC_TAG_ENUM

datatype CCTagDefineResult = CC_TAGDEF_ADDED | CC_TAGDEF_MATCHING | CC_TAGDEF_CONFLICT

datatype CCDialect = CC_DIALECT_C99 | CC_DIALECT_C11 | CC_DIALECT_C17

record CCTagFieldLayout =
  fl_name :: cstr
  fl_byteOffset :: size_t
  fl_bitOffset :: size_t
  fl_widthBits :: size_t
  fl_storageUnitBytes :: size_t
  fl_isBitfield :: bool
  fl_isZeroWidth :: bool
  fl_isSigned :: bool

record CCTagRecord =
  tr_name :: string
  tr_isDefined :: bool
  tr_fingerprint :: u64
  tr_definition :: "nat option"
  tr_hasLayout :: bool
  tr_layoutSize :: size_t
  tr_layoutAlign :: size_t
  tr_computingLayout :: bool
  tr_fieldLayouts :: "CCTagFieldLayout list"

type_synonym CCTagTable = "CCTagRecord list"

record CompilerContext =
  typedef_names :: "string list"
  tag_struct :: CCTagTable
  tag_union :: CCTagTable
  tag_enum :: CCTagTable
  targetTriple :: cstr
  targetLayout :: "TargetLayout option"
  dataLayout :: cstr
  warnIgnoredInterop :: bool
  errorIgnoredInterop :: bool
  inputPath :: cstr
  languageDialect :: CCDialect
  compatFeatures :: u64
  overlayFeatures :: u64

section \<open>String sets\<close>

definition cc_stringset_contains :: "string list \<Rightarrow> cstr \<Rightarrow> bool" where
  "cc_stringset_contains s key = (case key of None \<Rightarrow> False | Some k \<Rightarrow> list_ex (\<lambda>i. i = k) s)"

definition cc_stringset_add :: "string list \<Rightarrow> cstr \<Rightarrow> string list \<times> bool" where
  "cc_stringset_add s key =
    (case key of None \<Rightarrow> (s, False)
     | Some k \<Rightarrow> if cc_stringset_contains s key then (s, True) else (s @ [k], True))"

definition cc_is_typedef :: "CompilerContext \<Rightarrow> cstr \<Rightarrow> bool" where
  "cc_is_typedef ctx name = cc_stringset_contains (typedef_names ctx) name"

definition cc_add_typedef :: "CompilerContext \<Rightarrow> cstr \<Rightarrow> CompilerContext \<times> bool" where
  "cc_add_typedef ctx name =
    (case cc_stringset_add (typedef_names ctx) name of (s, ok) \<Rightarrow> (ctx\<lparr>typedef_names := s\<rparr>, ok))"

section \<open>Tag tables\<close>

definition cc_tag_lookup :: "CCTagTable \<Rightarrow> cstr \<Rightarrow> CCTagRecord option" where
  "cc_tag_lookup table name = (case name of None \<Rightarrow> None | Some n \<Rightarrow> List.find (\<lambda>r. tr_name r = n) table)"

text \<open>A write through the pointer \<open>cc_tag_lookup_mut\<close> returns.\<close>

fun update_tag :: "string \<Rightarrow> (CCTagRecord \<Rightarrow> CCTagRecord) \<Rightarrow> CCTagTable \<Rightarrow> CCTagTable" where
  "update_tag n f [] = []"
| "update_tag n f (r # rs) = (if tr_name r = n then f r # rs else r # update_tag n f rs)"

definition new_tag :: "string \<Rightarrow> CCTagRecord" where
  "new_tag n = \<lparr>tr_name = n, tr_isDefined = False, tr_fingerprint = 0, tr_definition = None, tr_hasLayout = False,
     tr_layoutSize = 0, tr_layoutAlign = 0, tr_computingLayout = False, tr_fieldLayouts = []\<rparr>"

definition cc_tag_table_add :: "CCTagTable \<Rightarrow> cstr \<Rightarrow> CCTagTable \<times> bool" where
  "cc_tag_table_add table name =
    (case name of None \<Rightarrow> (table, False)
     | Some n \<Rightarrow> if cc_tag_lookup table name \<noteq> None then (table, True) else (table @ [new_tag n], True))"

fun pick_tag_table :: "CompilerContext \<Rightarrow> CCTagKind \<Rightarrow> CCTagTable" where
  "pick_tag_table ctx CC_TAG_STRUCT = tag_struct ctx"
| "pick_tag_table ctx CC_TAG_UNION = tag_union ctx"
| "pick_tag_table ctx CC_TAG_ENUM = tag_enum ctx"

fun with_tag_table :: "CompilerContext \<Rightarrow> CCTagKind \<Rightarrow> CCTagTable \<Rightarrow> CompilerContext" where
  "with_tag_table ctx CC_TAG_STRUCT t = ctx\<lparr>tag_struct := t\<rparr>"
| "with_tag_table ctx CC_TAG_UNION t = ctx\<lparr>tag_union := t\<rparr>"
| "with_tag_table ctx CC_TAG_ENUM t = ctx\<lparr>tag_enum := t\<rparr>"

definition tag_record :: "CompilerContext \<Rightarrow> CCTagKind \<Rightarrow> cstr \<Rightarrow> CCTagRecord option" where
  "tag_record ctx kind name = cc_tag_lookup (pick_tag_table ctx kind) name"

text \<open>A write to a record found by \<open>cc_tag_lookup_mut_named\<close>: fails when there is none.\<close>

definition on_tag :: "CompilerContext \<Rightarrow> CCTagKind \<Rightarrow> cstr \<Rightarrow> (CCTagRecord \<Rightarrow> CCTagRecord) \<Rightarrow> CompilerContext \<times> bool" where
  "on_tag ctx kind name f =
    (case tag_record ctx kind name of
       None \<Rightarrow> (ctx, False)
     | Some r \<Rightarrow> (with_tag_table ctx kind (update_tag (tr_name r) f (pick_tag_table ctx kind)), True))"

definition cc_has_tag :: "CompilerContext \<Rightarrow> CCTagKind \<Rightarrow> cstr \<Rightarrow> bool" where
  "cc_has_tag ctx kind name \<longleftrightarrow> tag_record ctx kind name \<noteq> None"

definition cc_add_tag :: "CompilerContext \<Rightarrow> CCTagKind \<Rightarrow> cstr \<Rightarrow> CompilerContext \<times> bool" where
  "cc_add_tag ctx kind name =
    (case cc_tag_table_add (pick_tag_table ctx kind) name of (t, ok) \<Rightarrow> (with_tag_table ctx kind t, ok))"

definition define_record :: "u64 \<Rightarrow> nat option \<Rightarrow> CCTagRecord \<Rightarrow> CCTagRecord" where
  "define_record fp def r =
    r\<lparr>tr_isDefined := True, tr_fingerprint := fp, tr_definition := def, tr_hasLayout := False, tr_layoutSize := 0,
      tr_layoutAlign := 0, tr_computingLayout := False, tr_fieldLayouts := []\<rparr>"

definition cc_define_tag ::
    "CompilerContext \<Rightarrow> CCTagKind \<Rightarrow> cstr \<Rightarrow> u64 \<Rightarrow> nat option \<Rightarrow> CompilerContext \<times> CCTagDefineResult" where
  "cc_define_tag ctx0 kind name fp def =
    (case cc_add_tag ctx0 kind name of
       (ctx, False) \<Rightarrow> (ctx, CC_TAGDEF_CONFLICT)
     | (ctx, True) \<Rightarrow>
         (case tag_record ctx kind name of
            None \<Rightarrow> (ctx, CC_TAGDEF_CONFLICT)
          | Some r \<Rightarrow>
              if tr_isDefined r then
                if tr_fingerprint r = fp then
                  (if tr_definition r = None \<and> def \<noteq> None
                   then (fst (on_tag ctx kind name (\<lambda>r. r\<lparr>tr_definition := def\<rparr>)), CC_TAGDEF_MATCHING)
                   else (ctx, CC_TAGDEF_MATCHING))
                else (ctx, CC_TAGDEF_CONFLICT)
              else (fst (on_tag ctx kind name (define_record fp def)), CC_TAGDEF_ADDED)))"

definition cc_tag_is_defined :: "CompilerContext \<Rightarrow> CCTagKind \<Rightarrow> cstr \<Rightarrow> bool" where
  "cc_tag_is_defined ctx kind name = (case tag_record ctx kind name of Some r \<Rightarrow> tr_isDefined r | None \<Rightarrow> False)"

definition cc_tag_definition :: "CompilerContext \<Rightarrow> CCTagKind \<Rightarrow> cstr \<Rightarrow> nat option" where
  "cc_tag_definition ctx kind name = (case tag_record ctx kind name of Some r \<Rightarrow> tr_definition r | None \<Rightarrow> None)"

definition cc_set_tag_layout :: "CompilerContext \<Rightarrow> CCTagKind \<Rightarrow> cstr \<Rightarrow> size_t \<Rightarrow> size_t \<Rightarrow> CompilerContext \<times> bool" where
  "cc_set_tag_layout ctx kind name sz al =
    on_tag ctx kind name
      (\<lambda>r. r\<lparr>tr_hasLayout := True, tr_layoutSize := sz, tr_layoutAlign := al, tr_computingLayout := False\<rparr>)"

definition cc_get_tag_layout :: "CompilerContext \<Rightarrow> CCTagKind \<Rightarrow> cstr \<Rightarrow> (size_t \<times> size_t) option" where
  "cc_get_tag_layout ctx kind name =
    (case tag_record ctx kind name of
       None \<Rightarrow> None
     | Some r \<Rightarrow> if tr_hasLayout r then Some (tr_layoutSize r, tr_layoutAlign r) else None)"

definition cc_tag_mark_computing :: "CompilerContext \<Rightarrow> CCTagKind \<Rightarrow> cstr \<Rightarrow> bool \<Rightarrow> CompilerContext \<times> bool" where
  "cc_tag_mark_computing ctx kind name computing = on_tag ctx kind name (\<lambda>r. r\<lparr>tr_computingLayout := computing\<rparr>)"

definition cc_tag_is_computing :: "CompilerContext \<Rightarrow> CCTagKind \<Rightarrow> cstr \<Rightarrow> bool" where
  "cc_tag_is_computing ctx kind name = (case tag_record ctx kind name of Some r \<Rightarrow> tr_computingLayout r | None \<Rightarrow> False)"

definition cc_set_tag_field_layouts ::
    "CompilerContext \<Rightarrow> CCTagKind \<Rightarrow> cstr \<Rightarrow> CCTagFieldLayout list \<Rightarrow> CompilerContext \<times> bool" where
  "cc_set_tag_field_layouts ctx kind name layouts = on_tag ctx kind name (\<lambda>r. r\<lparr>tr_fieldLayouts := layouts\<rparr>)"

definition cc_get_tag_field_layouts :: "CompilerContext \<Rightarrow> CCTagKind \<Rightarrow> cstr \<Rightarrow> CCTagFieldLayout list option" where
  "cc_get_tag_field_layouts ctx kind name =
    (case tag_record ctx kind name of
       None \<Rightarrow> None
     | Some r \<Rightarrow> if tr_fieldLayouts r = [] then None else Some (tr_fieldLayouts r))"

section \<open>Builtins, dialect, features and target\<close>

definition CC_BUILTIN_LIST :: "string list" where
  "CC_BUILTIN_LIST =
    [''void'', ''_Bool'', ''bool'', ''char'', ''signed char'', ''unsigned char'', ''short'', ''short int'',
     ''signed short'', ''signed short int'', ''unsigned short'', ''unsigned short int'', ''int'', ''signed'',
     ''signed int'', ''unsigned'', ''unsigned int'', ''long'', ''long int'', ''signed long'', ''signed long int'',
     ''unsigned long'', ''unsigned long int'', ''long long'', ''long long int'', ''unsigned long long'',
     ''unsigned long long int'', ''float'', ''double'', ''long double'',
     ''int8_t'', ''int16_t'', ''int32_t'', ''int64_t'', ''uint8_t'', ''uint16_t'', ''uint32_t'', ''uint64_t'',
     ''size_t'', ''ssize_t'', ''intptr_t'', ''uintptr_t'', ''ptrdiff_t'']"

definition cc_is_builtin_type :: "CompilerContext \<Rightarrow> string \<Rightarrow> bool" where
  "cc_is_builtin_type ctx name = list_ex (\<lambda>n. n = name) CC_BUILTIN_LIST"

definition CC_COMPAT_PROFILE_GNU :: u64 where "CC_COMPAT_PROFILE_GNU = 1"
definition CC_COMPAT_BLOCK_POINTERS :: u64 where "CC_COMPAT_BLOCK_POINTERS = 2"
definition CC_COMPAT_RELAXED_ATOMIC :: u64 where "CC_COMPAT_RELAXED_ATOMIC = 4"
definition FISICS_OVERLAY_PHYSICS_UNITS :: u64 where "FISICS_OVERLAY_PHYSICS_UNITS = 2"
definition FISICS_OVERLAY_MEMORY_CHECK :: u64 where "FISICS_OVERLAY_MEMORY_CHECK = 4"
definition FISICS_OVERLAY_SEMANTIC_METADATA :: u64 where "FISICS_OVERLAY_SEMANTIC_METADATA = 8"
definition FISICS_OVERLAY_PHYSICS_SEMANTICS :: u64 where "FISICS_OVERLAY_PHYSICS_SEMANTICS = 16"

definition cc_create :: CompilerContext where
  "cc_create =
    \<lparr>typedef_names = [], tag_struct = [], tag_union = [], tag_enum = [], targetTriple = None, targetLayout = None,
     dataLayout = None, warnIgnoredInterop = True, errorIgnoredInterop = False, inputPath = None,
     languageDialect = CC_DIALECT_C99, compatFeatures = 0, overlayFeatures = 0\<rparr>"

definition seeded_typedefs :: "string list" where
  "seeded_typedefs =
    [''size_t'', ''ssize_t'', ''intptr_t'', ''uintptr_t'', ''ptrdiff_t'', ''__int128_t'', ''__uint128_t'', ''bool'',
     ''wchar_t'', ''wint_t'', ''sig_atomic_t'', ''locale_t'']"

definition cc_seed_builtins :: "CompilerContext \<Rightarrow> CompilerContext" where
  "cc_seed_builtins ctx = foldl (\<lambda>c n. fst (cc_add_typedef c (Some n))) ctx seeded_typedefs"

definition cc_set_language_dialect :: "CompilerContext \<Rightarrow> CCDialect \<Rightarrow> CompilerContext" where
  "cc_set_language_dialect ctx d = ctx\<lparr>languageDialect := d\<rparr>"

definition cc_get_language_dialect :: "CompilerContext option \<Rightarrow> CCDialect" where
  "cc_get_language_dialect ctx = (case ctx of None \<Rightarrow> CC_DIALECT_C99 | Some c \<Rightarrow> languageDialect c)"

definition cc_gnu_compat_features :: u64 where
  "cc_gnu_compat_features = (CC_COMPAT_PROFILE_GNU OR CC_COMPAT_BLOCK_POINTERS) OR CC_COMPAT_RELAXED_ATOMIC"

definition cc_set_compat_features :: "CompilerContext \<Rightarrow> u64 \<Rightarrow> CompilerContext" where
  "cc_set_compat_features ctx f = ctx\<lparr>compatFeatures := f\<rparr>"

definition cc_has_compat_feature :: "CompilerContext option \<Rightarrow> u64 \<Rightarrow> bool" where
  "cc_has_compat_feature ctx f = (case ctx of None \<Rightarrow> False | Some c \<Rightarrow> compatFeatures c AND f \<noteq> 0)"

definition cc_has_any_compat_features :: "CompilerContext option \<Rightarrow> bool" where
  "cc_has_any_compat_features ctx = (case ctx of None \<Rightarrow> False | Some c \<Rightarrow> compatFeatures c \<noteq> 0)"

definition cc_compat_block_pointers_enabled :: "CompilerContext option \<Rightarrow> bool" where
  "cc_compat_block_pointers_enabled ctx = cc_has_compat_feature ctx CC_COMPAT_BLOCK_POINTERS"

definition cc_compat_relaxed_atomic_enabled :: "CompilerContext option \<Rightarrow> bool" where
  "cc_compat_relaxed_atomic_enabled ctx = cc_has_compat_feature ctx CC_COMPAT_RELAXED_ATOMIC"

definition cc_set_overlay_features :: "CompilerContext \<Rightarrow> u64 \<Rightarrow> CompilerContext" where
  "cc_set_overlay_features ctx f =
    ctx\<lparr>overlayFeatures :=
      (if f AND FISICS_OVERLAY_PHYSICS_SEMANTICS \<noteq> 0 then f OR FISICS_OVERLAY_PHYSICS_UNITS else f)\<rparr>"

definition cc_has_overlay_feature :: "CompilerContext option \<Rightarrow> u64 \<Rightarrow> bool" where
  "cc_has_overlay_feature ctx f = (case ctx of None \<Rightarrow> False | Some c \<Rightarrow> overlayFeatures c AND f \<noteq> 0)"

definition cc_overlay_physics_units_enabled :: "CompilerContext option \<Rightarrow> bool" where
  "cc_overlay_physics_units_enabled ctx = cc_has_overlay_feature ctx FISICS_OVERLAY_PHYSICS_UNITS"

definition cc_dialect_stdc_version :: "CCDialect \<Rightarrow> int" where
  "cc_dialect_stdc_version d =
    (case d of CC_DIALECT_C11 \<Rightarrow> 201112 | CC_DIALECT_C17 \<Rightarrow> 201710 | CC_DIALECT_C99 \<Rightarrow> 199901)"

definition cc_set_target_triple :: "CompilerContext \<Rightarrow> cstr \<Rightarrow> CompilerContext" where
  "cc_set_target_triple ctx t = ctx\<lparr>targetTriple := t\<rparr>"

definition cc_set_target_layout :: "CompilerContext \<Rightarrow> TargetLayout option \<Rightarrow> CompilerContext" where
  "cc_set_target_layout ctx l = ctx\<lparr>targetLayout := l\<rparr>"

definition cc_get_target_layout :: "CompilerContext option \<Rightarrow> TargetLayout option" where
  "cc_get_target_layout ctx = (case ctx of None \<Rightarrow> None | Some c \<Rightarrow> targetLayout c)"

definition cc_set_data_layout :: "CompilerContext \<Rightarrow> cstr \<Rightarrow> CompilerContext" where
  "cc_set_data_layout ctx l = ctx\<lparr>dataLayout := l\<rparr>"

definition cc_set_interop_diag :: "CompilerContext \<Rightarrow> bool \<Rightarrow> bool \<Rightarrow> CompilerContext" where
  "cc_set_interop_diag ctx w e = ctx\<lparr>warnIgnoredInterop := w, errorIgnoredInterop := e\<rparr>"

definition cc_warn_ignored_interop :: "CompilerContext option \<Rightarrow> bool" where
  "cc_warn_ignored_interop ctx = (case ctx of None \<Rightarrow> True | Some c \<Rightarrow> warnIgnoredInterop c)"

definition cc_error_ignored_interop :: "CompilerContext option \<Rightarrow> bool" where
  "cc_error_ignored_interop ctx = (case ctx of None \<Rightarrow> False | Some c \<Rightarrow> errorIgnoredInterop c)"

definition cc_set_input_path :: "CompilerContext \<Rightarrow> cstr \<Rightarrow> CompilerContext" where
  "cc_set_input_path ctx p = ctx\<lparr>inputPath := p\<rparr>"

section \<open>Tag tables as maps\<close>

lemma find_update_tag:
  assumes "\<And>r. tr_name (f r) = tr_name r"
  shows "List.find (\<lambda>r. tr_name r = m) (update_tag n f t) =
    (if m = n then map_option f (List.find (\<lambda>r. tr_name r = n) t) else List.find (\<lambda>r. tr_name r = m) t)"
  using assms by (induction t) auto

lemma pick_with_tag_table [simp]:
  "pick_tag_table (with_tag_table ctx k t) k' = (if k' = k then t else pick_tag_table ctx k')"
  by (cases k; cases k') simp_all

lemma tag_record_Some:
  "tag_record ctx k (Some n) = Some r \<Longrightarrow> tr_name r = n"
  by (auto simp: tag_record_def cc_tag_lookup_def find_Some_iff)

lemma tag_record_None [simp]: "tag_record ctx k None = None"
  by (simp add: tag_record_def cc_tag_lookup_def)

lemma tag_record_on_tag:
  assumes "\<And>r. tr_name (f r) = tr_name r"
  shows "tag_record (fst (on_tag ctx k (Some n) f)) k' (Some m) =
    (if k' = k \<and> m = n then map_option f (tag_record ctx k (Some n)) else tag_record ctx k' (Some m))"
proof (cases "tag_record ctx k (Some n)")
  case None
  then show ?thesis by (auto simp: on_tag_def)
next
  case (Some r)
  note tn = tag_record_Some [OF Some]
  show ?thesis
    using Some tn by (simp add: on_tag_def tag_record_def cc_tag_lookup_def find_update_tag [OF assms])
qed

lemma tag_record_add:
  "tag_record (fst (cc_add_tag ctx k (Some n))) k' (Some m) =
    (if k' = k \<and> m = n then Some (case tag_record ctx k (Some n) of Some r \<Rightarrow> r | None \<Rightarrow> new_tag n)
     else tag_record ctx k' (Some m))"
  "snd (cc_add_tag ctx k (Some n))"
proof -
  have f: "List.find P (xs @ [x]) = (case List.find P xs of Some y \<Rightarrow> Some y | None \<Rightarrow> if P x then Some x else None)"
    for P and x :: CCTagRecord and xs by (induction xs) auto
  show "snd (cc_add_tag ctx k (Some n))" by (simp add: cc_add_tag_def cc_tag_table_add_def)
  show "tag_record (fst (cc_add_tag ctx k (Some n))) k' (Some m) =
    (if k' = k \<and> m = n then Some (case tag_record ctx k (Some n) of Some r \<Rightarrow> r | None \<Rightarrow> new_tag n)
     else tag_record ctx k' (Some m))"
    by (auto simp: cc_add_tag_def cc_tag_table_add_def tag_record_def cc_tag_lookup_def f new_tag_def split: option.split)
qed

section \<open>The tag name spaces\<close>

text \<open>
  What a client sees of the tags: for each kind and name the fingerprint and the definition it was
  given. The first definition stands; a later one matches or conflicts by its fingerprint.
\<close>

type_synonym tag_env = "CCTagKind \<times> string \<Rightarrow> (u64 \<times> nat option) option"

definition tag_env_of :: "CompilerContext \<Rightarrow> tag_env" where
  "tag_env_of ctx = (\<lambda>(k, n). case tag_record ctx k (Some n) of
     Some r \<Rightarrow> if tr_isDefined r then Some (tr_fingerprint r, tr_definition r) else None
   | None \<Rightarrow> None)"

definition define_spec :: "tag_env \<Rightarrow> CCTagKind \<Rightarrow> string \<Rightarrow> u64 \<Rightarrow> nat option \<Rightarrow> tag_env \<times> CCTagDefineResult" where
  "define_spec e k n fp def =
    (case e (k, n) of
       None \<Rightarrow> (e((k, n) \<mapsto> (fp, def)), CC_TAGDEF_ADDED)
     | Some (fp', def') \<Rightarrow>
         if fp' = fp then (e((k, n) \<mapsto> (fp, case def' of None \<Rightarrow> def | Some d \<Rightarrow> Some d)), CC_TAGDEF_MATCHING)
         else (e, CC_TAGDEF_CONFLICT))"

text \<open>An update of the record of one tag, seen from the outside.\<close>

definition env_update :: "CCTagKind \<Rightarrow> string \<Rightarrow> (CCTagRecord option \<Rightarrow> CCTagRecord option) \<Rightarrow> CompilerContext \<Rightarrow> CompilerContext \<Rightarrow> bool" where
  "env_update k n g ctx ctx' \<longleftrightarrow>
    (\<forall>k' m. tag_record ctx' k' (Some m) =
      (if k' = k \<and> m = n then g (tag_record ctx k (Some n)) else tag_record ctx k' (Some m)))"

lemma env_update_env:
  assumes "env_update k n g ctx ctx'"
  shows "tag_env_of ctx' = (tag_env_of ctx)((k, n) :=
    (case g (tag_record ctx k (Some n)) of
       Some r \<Rightarrow> if tr_isDefined r then Some (tr_fingerprint r, tr_definition r) else None | None \<Rightarrow> None))"
  using assms by (auto simp: env_update_def tag_env_of_def fun_eq_iff)

lemma on_tag_env_update:
  "(\<And>r. tr_name (f r) = tr_name r) \<Longrightarrow> env_update k n (map_option f) ctx (fst (on_tag ctx k (Some n) f))"
  by (simp add: env_update_def tag_record_on_tag)

lemma add_tag_env_update:
  "env_update k n (\<lambda>r. Some (case r of Some r \<Rightarrow> r | None \<Rightarrow> new_tag n)) ctx (fst (cc_add_tag ctx k (Some n)))"
  by (simp add: env_update_def tag_record_add)

lemma env_update_trans:
  "env_update k n g ctx ctx' \<Longrightarrow> env_update k n h ctx' ctx'' \<Longrightarrow> env_update k n (h \<circ> g) ctx ctx''"
  by (simp add: env_update_def)

text \<open>\<open>cc_define_tag\<close> on the record it finds, \<open>None\<close> for an unknown tag.\<close>

definition define_effect :: "string \<Rightarrow> u64 \<Rightarrow> nat option \<Rightarrow> CCTagRecord option \<Rightarrow> CCTagRecord option" where
  "define_effect n fp def r0 =
    (let r = (case r0 of Some r \<Rightarrow> r | None \<Rightarrow> new_tag n) in
     Some (if \<not> tr_isDefined r then define_record fp def r
           else if tr_fingerprint r = fp \<and> tr_definition r = None \<and> def \<noteq> None then r\<lparr>tr_definition := def\<rparr>
           else r))"

lemma define_tag_effect:
  "env_update k n (define_effect n fp def) ctx (fst (cc_define_tag ctx k (Some n) fp def))"
  "snd (cc_define_tag ctx k (Some n) fp def) =
    (case tag_env_of ctx (k, n) of
       None \<Rightarrow> CC_TAGDEF_ADDED | Some (fp', d) \<Rightarrow> if fp' = fp then CC_TAGDEF_MATCHING else CC_TAGDEF_CONFLICT)"
proof -
  obtain c where c: "cc_add_tag ctx k (Some n) = (c, True)"
    using tag_record_add(2) [of ctx k n] by (cases "cc_add_tag ctx k (Some n)") simp
  obtain r where r: "tag_record c k (Some n) = Some r" "r = (case tag_record ctx k (Some n) of Some r \<Rightarrow> r | None \<Rightarrow> new_tag n)"
    using tag_record_add(1) [of ctx k n k n] c by simp
  have u: "env_update k n (\<lambda>r. Some (case r of Some r \<Rightarrow> r | None \<Rightarrow> new_tag n)) ctx c"
    using add_tag_env_update [of k n ctx] c by simp
  have s: "fst (cc_define_tag ctx k (Some n) fp def) =
      (if \<not> tr_isDefined r then fst (on_tag c k (Some n) (define_record fp def))
       else if tr_fingerprint r = fp \<and> tr_definition r = None \<and> def \<noteq> None
         then fst (on_tag c k (Some n) (\<lambda>r. r\<lparr>tr_definition := def\<rparr>)) else c)"
    unfolding cc_define_tag_def c using r(1) by simp
  have d: "env_update k n (map_option (define_record fp def)) c (fst (on_tag c k (Some n) (define_record fp def)))"
    by (rule on_tag_env_update) (simp add: define_record_def)
  have e: "env_update k n (map_option (\<lambda>r. r\<lparr>tr_definition := def\<rparr>)) c (fst (on_tag c k (Some n) (\<lambda>r. r\<lparr>tr_definition := def\<rparr>)))"
    by (rule on_tag_env_update) simp
  show "env_update k n (define_effect n fp def) ctx (fst (cc_define_tag ctx k (Some n) fp def))"
    using env_update_trans [OF u d] env_update_trans [OF u e] u
    unfolding s by (auto simp: env_update_def define_effect_def Let_def r(2))
  show "snd (cc_define_tag ctx k (Some n) fp def) =
    (case tag_env_of ctx (k, n) of
       None \<Rightarrow> CC_TAGDEF_ADDED | Some (fp', d) \<Rightarrow> if fp' = fp then CC_TAGDEF_MATCHING else CC_TAGDEF_CONFLICT)"
    unfolding cc_define_tag_def c using r
    by (simp add: tag_env_of_def new_tag_def split: option.split)
qed

text \<open>
  Everything the getters tell a client of one tag, and the effect of every operation as an update of
  these views.
\<close>

record tag_view =
  tv_known :: bool
  tv_defined :: "(u64 \<times> nat option) option"
  tv_layout :: "(size_t \<times> size_t) option"
  tv_fields :: "CCTagFieldLayout list option"
  tv_computing :: bool

definition tag_views :: "CompilerContext \<Rightarrow> CCTagKind \<times> string \<Rightarrow> tag_view" where
  "tag_views ctx = (\<lambda>(k, n).
     \<lparr>tv_known = cc_has_tag ctx k (Some n), tv_defined = tag_env_of ctx (k, n),
      tv_layout = cc_get_tag_layout ctx k (Some n), tv_fields = cc_get_tag_field_layouts ctx k (Some n),
      tv_computing = cc_tag_is_computing ctx k (Some n)\<rparr>)"

definition view_of :: "CCTagRecord option \<Rightarrow> tag_view" where
  "view_of r0 =
    (case r0 of
       None \<Rightarrow> \<lparr>tv_known = False, tv_defined = None, tv_layout = None, tv_fields = None, tv_computing = False\<rparr>
     | Some r \<Rightarrow>
         \<lparr>tv_known = True, tv_defined = (if tr_isDefined r then Some (tr_fingerprint r, tr_definition r) else None),
          tv_layout = (if tr_hasLayout r then Some (tr_layoutSize r, tr_layoutAlign r) else None),
          tv_fields = (if tr_fieldLayouts r = [] then None else Some (tr_fieldLayouts r)),
          tv_computing = tr_computingLayout r\<rparr>)"

lemma tag_views_record: "tag_views ctx (k, n) = view_of (tag_record ctx k (Some n))"
  by (simp add: tag_views_def view_of_def cc_has_tag_def tag_env_of_def cc_get_tag_layout_def
      cc_get_tag_field_layouts_def cc_tag_is_computing_def split: option.split)

lemma env_update_views:
  assumes "env_update k n g ctx ctx'"
  shows "tag_views ctx' = (tag_views ctx)((k, n) := view_of (g (tag_record ctx k (Some n))))"
proof
  fix x show "tag_views ctx' x = ((tag_views ctx)((k, n) := view_of (g (tag_record ctx k (Some n))))) x"
    using assms by (cases x) (auto simp: tag_views_record env_update_def)
qed

lemma on_tag_views:
  assumes "\<And>r. tr_name (f r) = tr_name r" "\<And>r. view_of (Some (f r)) = h (view_of (Some r))"
  shows "tag_views (fst (on_tag ctx k (Some n) f)) =
      (if tv_known (tag_views ctx (k, n)) then (tag_views ctx)((k, n) := h (tag_views ctx (k, n))) else tag_views ctx) \<and>
    snd (on_tag ctx k (Some n) f) = tv_known (tag_views ctx (k, n))"
proof (cases "tag_record ctx k (Some n)")
  case None
  then show ?thesis by (simp add: tag_views_record view_of_def on_tag_def)
next
  case (Some r)
  then show ?thesis unfolding env_update_views [OF on_tag_env_update [OF assms(1)]]
    by (simp add: tag_views_record assms(2)) (simp add: view_of_def on_tag_def)
qed

text \<open>
  C24. The tag tables with their layout cache implement one name space for each kind of tag. For every
  tag the getters tell whether it is known, its definition, its layout, its field layouts and whether its
  layout is being computed, and each operation changes these of the one tag named and of no other:
  cc_add_tag makes it known and changes nothing else; cc_define_tag reports an addition, a match or a
  conflict as the first definition says, and a first definition clears the layouts and the computing mark,
  while a later one at most supplies a missing node; on a known tag cc_set_tag_layout stores the layout
  and ends the computation, cc_tag_mark_computing sets only the mark and cc_set_tag_field_layouts only
  the field layouts, and on an unknown tag these three fail and change nothing.
\<close>
theorem tag_namespace_refines_map:
  "(tag_env_of (fst (cc_define_tag ctx k (Some n) fp def)), snd (cc_define_tag ctx k (Some n) fp def)) =
      define_spec (tag_env_of ctx) k n fp def \<and>
   tag_views (fst (cc_define_tag ctx k (Some n) fp def)) =
     (tag_views ctx)((k, n) :=
       (if tv_defined (tag_views ctx (k, n)) = None
        then \<lparr>tv_known = True, tv_defined = Some (fp, def), tv_layout = None, tv_fields = None, tv_computing = False\<rparr>
        else (tag_views ctx (k, n))\<lparr>tv_defined := fst (define_spec (tag_env_of ctx) k n fp def) (k, n)\<rparr>)) \<and>
   (tag_views (fst (cc_add_tag ctx k (Some n))), snd (cc_add_tag ctx k (Some n))) =
     ((tag_views ctx)((k, n) := (tag_views ctx (k, n))\<lparr>tv_known := True\<rparr>), True) \<and>
   (tag_views (fst (cc_set_tag_layout ctx k (Some n) sz al)), snd (cc_set_tag_layout ctx k (Some n) sz al)) =
     (if cc_has_tag ctx k (Some n)
      then ((tag_views ctx)((k, n) := (tag_views ctx (k, n))\<lparr>tv_layout := Some (sz, al), tv_computing := False\<rparr>), True)
      else (tag_views ctx, False)) \<and>
   (tag_views (fst (cc_tag_mark_computing ctx k (Some n) b)), snd (cc_tag_mark_computing ctx k (Some n) b)) =
     (if cc_has_tag ctx k (Some n)
      then ((tag_views ctx)((k, n) := (tag_views ctx (k, n))\<lparr>tv_computing := b\<rparr>), True) else (tag_views ctx, False)) \<and>
   (tag_views (fst (cc_set_tag_field_layouts ctx k (Some n) ls)), snd (cc_set_tag_field_layouts ctx k (Some n) ls)) =
     (if cc_has_tag ctx k (Some n)
      then ((tag_views ctx)((k, n) := (tag_views ctx (k, n))\<lparr>tv_fields := (if ls = [] then None else Some ls)\<rparr>), True)
      else (tag_views ctx, False))"
proof (intro conjI)
  note d = define_tag_effect [where k = k and n = n and fp = fp and def = def and ctx = ctx]
  have has: "tv_known (tag_views ctx (k, n)) = cc_has_tag ctx k (Some n)" by (simp add: tag_views_def)
  show "(tag_env_of (fst (cc_define_tag ctx k (Some n) fp def)), snd (cc_define_tag ctx k (Some n) fp def)) =
      define_spec (tag_env_of ctx) k n fp def"
    unfolding d(2) env_update_env [OF d(1)]
    by (auto simp: define_spec_def define_effect_def tag_env_of_def new_tag_def define_record_def Let_def fun_eq_iff
        split: option.split)
  show "tag_views (fst (cc_define_tag ctx k (Some n) fp def)) =
     (tag_views ctx)((k, n) :=
       (if tv_defined (tag_views ctx (k, n)) = None
        then \<lparr>tv_known = True, tv_defined = Some (fp, def), tv_layout = None, tv_fields = None, tv_computing = False\<rparr>
        else (tag_views ctx (k, n))\<lparr>tv_defined := fst (define_spec (tag_env_of ctx) k n fp def) (k, n)\<rparr>))"
    unfolding env_update_views [OF d(1)]
    by (rule arg_cong [where f = "\<lambda>v. (tag_views ctx)((k, n) := v)"])
      (auto simp: tag_views_record view_of_def define_effect_def define_record_def new_tag_def define_spec_def
        tag_env_of_def Let_def split: option.split)
  show "(tag_views (fst (cc_add_tag ctx k (Some n))), snd (cc_add_tag ctx k (Some n))) =
     ((tag_views ctx)((k, n) := (tag_views ctx (k, n))\<lparr>tv_known := True\<rparr>), True)"
    unfolding env_update_views [OF add_tag_env_update]
    by (simp add: tag_record_add(2) tag_views_record view_of_def new_tag_def split: option.split)
  show "(tag_views (fst (cc_set_tag_layout ctx k (Some n) sz al)), snd (cc_set_tag_layout ctx k (Some n) sz al)) =
     (if cc_has_tag ctx k (Some n)
      then ((tag_views ctx)((k, n) := (tag_views ctx (k, n))\<lparr>tv_layout := Some (sz, al), tv_computing := False\<rparr>), True)
      else (tag_views ctx, False))"
    using on_tag_views [where f = "\<lambda>r. r\<lparr>tr_hasLayout := True, tr_layoutSize := sz, tr_layoutAlign := al, tr_computingLayout := False\<rparr>"
        and h = "\<lambda>v. v\<lparr>tv_layout := Some (sz, al), tv_computing := False\<rparr>" and ctx = ctx and k = k and n = n]
    by (simp add: cc_set_tag_layout_def has view_of_def)
  show "(tag_views (fst (cc_tag_mark_computing ctx k (Some n) b)), snd (cc_tag_mark_computing ctx k (Some n) b)) =
     (if cc_has_tag ctx k (Some n)
      then ((tag_views ctx)((k, n) := (tag_views ctx (k, n))\<lparr>tv_computing := b\<rparr>), True) else (tag_views ctx, False))"
    using on_tag_views [where f = "\<lambda>r. r\<lparr>tr_computingLayout := b\<rparr>" and h = "\<lambda>v. v\<lparr>tv_computing := b\<rparr>" and ctx = ctx and k = k and n = n]
    by (simp add: cc_tag_mark_computing_def has view_of_def)
  show "(tag_views (fst (cc_set_tag_field_layouts ctx k (Some n) ls)), snd (cc_set_tag_field_layouts ctx k (Some n) ls)) =
     (if cc_has_tag ctx k (Some n)
      then ((tag_views ctx)((k, n) := (tag_views ctx (k, n))\<lparr>tv_fields := (if ls = [] then None else Some ls)\<rparr>), True)
      else (tag_views ctx, False))"
    using on_tag_views [where f = "\<lambda>r. r\<lparr>tr_fieldLayouts := ls\<rparr>" and h = "\<lambda>v. v\<lparr>tv_fields := (if ls = [] then None else Some ls)\<rparr>"
        and ctx = ctx and k = k and n = n]
    by (simp add: cc_set_tag_field_layouts_def has view_of_def)
qed

end
