(* ===== verification/Type_Resolution.thy ===== *)
theory Type_Resolution
  imports Type_Info Symbol_Table Compiler_Context
begin

text \<open>
  From parsed types to expression types: typedef resolution and \<open>typeInfoFromParsedType\<close> of
  \<open>src/src/Syntax/type_checker.c\<close>. A scope is the chain of theory \<open>Symbol_Table\<close> (\<open>[]\<close> is a null scope)
  with the context its \<open>ctx\<close> field points to. Following typedefs need not end, so the functions that
  follow them take fuel, one unit for each typedef entered, and give \<open>None\<close> when it is used up.
\<close>

type_synonym scope = "(ParsedType, TypeInfo) Scope"

section \<open>Qualifiers and typedefs\<close>

definition applyQualifiers :: "TypeInfo \<Rightarrow> ParsedType \<Rightarrow> TypeInfo" where
  "applyQualifiers info type =
    (if category info = TYPEINFO_POINTER then info
     else info\<lparr>isConst := isConst info \<or> pt_isConst (pt_base type),
               isVolatile := isVolatile info \<or> pt_isVolatile (pt_base type),
               isRestrict := isRestrict info \<or> pt_isRestrict (pt_base type)\<rparr>)"

fun find_typedef :: "scope \<Rightarrow> string \<Rightarrow> ParsedType option" where
  "find_typedef [] name = None"
| "find_typedef (l # ls) name =
    (case lookupSymbol (sc_table l) name of
       Some s \<Rightarrow> if sym_kind s = SYMBOL_TYPEDEF then Some (sym_type s) else find_typedef ls name
     | None \<Rightarrow> find_typedef ls name)"

definition resolveTypedef :: "ParsedType \<Rightarrow> scope \<Rightarrow> ParsedType option" where
  "resolveTypedef type sc =
    (case pt_userTypeName (pt_base type) of None \<Rightarrow> None | Some name \<Rightarrow> find_typedef sc name)"

definition plain_named :: "ParsedType \<Rightarrow> bool" where
  "plain_named t \<longleftrightarrow>
    pt_kind (pt_base t) = TYPE_NAMED \<and> pt_userTypeName (pt_base t) \<noteq> None \<and> pt_derivations t = [] \<and>
    pt_pointerDepth (pt_base t) = 0 \<and> \<not> pt_isFunctionPointer (pt_base t)"

text \<open>
  The loop with its guard of 32. A type is a copy, never the symbol's own; the copy of an invalid type
  ends the loop with the type kept and the result false.
\<close>

fun resolve_plain_loop :: "nat \<Rightarrow> ParsedType \<Rightarrow> scope \<Rightarrow> ParsedType \<times> bool" where
  "resolve_plain_loop 0 t sc = (t, pt_kind (pt_base t) \<noteq> TYPE_INVALID)"
| "resolve_plain_loop (Suc n) t sc =
    (if plain_named t then
       (case resolveTypedef t sc of
          None \<Rightarrow> (t, pt_kind (pt_base t) \<noteq> TYPE_INVALID)
        | Some r \<Rightarrow>
            if pt_kind (pt_base r) = TYPE_INVALID then (t, False) else resolve_plain_loop n (parsedTypeClone r) sc)
     else (t, pt_kind (pt_base t) \<noteq> TYPE_INVALID))"

definition parsedTypeResolvePlainNamedTypedefInScope :: "ParsedType \<Rightarrow> scope \<Rightarrow> ParsedType \<times> bool" where
  "parsedTypeResolvePlainNamedTypedefInScope t sc = (if sc = [] then (t, False) else resolve_plain_loop 32 t sc)"

section \<open>Base types\<close>

definition longBits :: nat where
  "longBits = 64"

definition primitive_info :: "HostMacros \<Rightarrow> TargetLayout option \<Rightarrow> PTBase \<Rightarrow> TypeInfo" where
  "primitive_info host lay b =
    (let p = pt_primitiveType b; sg = \<not> pt_isUnsigned b; cx = pt_isComplex b \<or> pt_isImaginary b in
     if p = TOKEN_BOOL then makeBoolType
     else if p = TOKEN_COMPLEX then makeFloatTypeInfo host FLOAT_KIND_DOUBLE True lay
     else if p = TOKEN_IMAGINARY then (makeFloatTypeInfo host FLOAT_KIND_DOUBLE True lay)\<lparr>isImaginary := True\<rparr>
     else if p = TOKEN_CHAR then makeIntegerType 8 sg TOKEN_CHAR
     else if p = TOKEN_SHORT then makeIntegerType 16 sg TOKEN_SHORT
     else if p = TOKEN_INT \<or> p = TOKEN_SIGNED \<or> p = TOKEN_UNSIGNED then
       (if pt_isShort b then makeIntegerType 16 sg TOKEN_SHORT
        else if pt_isLong b then makeIntegerType longBits sg TOKEN_LONG
        else makeIntegerType defaultIntBits sg TOKEN_INT)
     else if p = TOKEN_LONG then makeIntegerType longBits sg TOKEN_LONG
     else if p = TOKEN_FLOAT then (makeFloatTypeInfo host FLOAT_KIND_FLOAT cx lay)\<lparr>isImaginary := pt_isImaginary b\<rparr>
     else if p = TOKEN_DOUBLE then
       (makeFloatTypeInfo host (if pt_isLong b then FLOAT_KIND_LONG_DOUBLE else FLOAT_KIND_DOUBLE) cx lay)
         \<lparr>isImaginary := pt_isImaginary b\<rparr>
     else if p = TOKEN_VOID then makeBaseInvalid\<lparr>category := TYPEINFO_VOID, primitive := TOKEN_VOID\<rparr>
     else makeInvalidType)"

definition record_info :: "CompilerContext option \<Rightarrow> scope \<Rightarrow> PTBase \<Rightarrow> TypeInfo" where
  "record_info ctx sc b =
    (let k = (if pt_kind b = TYPE_STRUCT then CC_TAG_STRUCT else CC_TAG_UNION);
         name = pt_userTypeName b;
         tagSym = (case name of None \<Rightarrow> None | Some n \<Rightarrow> if sc = [] then None else resolveTagInScopeChain sc n)
     in makeBaseInvalid\<lparr>
          category := (if pt_kind b = TYPE_STRUCT then TYPEINFO_STRUCT else TYPEINFO_UNION),
          tag := (if pt_kind b = TYPE_STRUCT then TAG_STRUCT else TAG_UNION),
          userTypeName := name,
          recordDefinition :=
            (case pt_inlineStructOrUnionDef b of
               Some d \<Rightarrow> Some d
             | None \<Rightarrow> (case tagSym of Some s \<Rightarrow> sym_definition s | None \<Rightarrow> None)),
          isComplete :=
            (pt_inlineStructOrUnionDef b \<noteq> None \<or>
             (case ctx of Some c \<Rightarrow> sc \<noteq> [] \<and> name \<noteq> None \<and> cc_tag_is_defined c k name | None \<Rightarrow> False))\<rparr>)"

text \<open>\<open>rec\<close> is the recursive call on the type a typedef stands for.\<close>

definition typeInfoFromBaseKind ::
    "HostMacros \<Rightarrow> CompilerContext option \<Rightarrow> (ParsedType \<Rightarrow> TypeInfo option) \<Rightarrow> scope \<Rightarrow> ParsedType \<Rightarrow> TypeInfo option" where
  "typeInfoFromBaseKind host ctx rec sc type =
    (let b = pt_base type; lay = (if sc = [] then None else cc_get_target_layout ctx) in
     case pt_kind b of
       TYPE_PRIMITIVE \<Rightarrow> Some (primitive_info host lay b)
     | TYPE_ENUM \<Rightarrow>
         Some ((makeIntegerType defaultIntBits True TOKEN_INT)
           \<lparr>category := TYPEINFO_ENUM, tag := TAG_ENUM, userTypeName := pt_userTypeName b, isComplete := True\<rparr>)
     | TYPE_STRUCT \<Rightarrow> Some (record_info ctx sc b)
     | TYPE_UNION \<Rightarrow> Some (record_info ctx sc b)
     | TYPE_NAMED \<Rightarrow>
         (case is_builtin_int128_name (pt_userTypeName b) of
            Some uns \<Rightarrow>
              Some (applyQualifiers (makeIntegerType 128 (\<not> uns) (if uns then TOKEN_UNSIGNED else TOKEN_LONG)) type)
          | None \<Rightarrow>
              (case resolveTypedef type sc of
                 None \<Rightarrow> Some (makeInvalidType\<lparr>userTypeName := pt_userTypeName b\<rparr>)
               | Some resolved \<Rightarrow> map_option (\<lambda>base. applyQualifiers base type) (rec resolved)))
     | TYPE_INVALID \<Rightarrow> Some makeInvalidType)"

definition propagateVLAFlag :: "TypeInfo \<Rightarrow> ParsedType \<Rightarrow> TypeInfo" where
  "propagateVLAFlag info type =
    (if pt_isVLA (pt_base type) \<or> parsedTypeHasVLA type then info\<lparr>isVLA := True\<rparr> else info)"

section \<open>Derivations\<close>

definition qual_of :: "TypeInfo \<Rightarrow> PointerQualifier" where
  "qual_of info = makePointerQual (isConst info) (isVolatile info) (isRestrict info)"

text \<open>The levels of a pointer: the qualifiers of its target, then as many of the target's own levels as fit.\<close>

definition pointer_levels :: "TypeInfo \<Rightarrow> PointerQualifier list" where
  "pointer_levels target =
    (let stored = min (pointerDepth target + 1) TYPEINFO_MAX_POINTER_DEPTH;
         toCopy = min (stored - 1) (min (pointerDepth target) TYPEINFO_MAX_POINTER_DEPTH)
     in qual_of target # take toCopy (pointerLevels target) @ replicate (TYPEINFO_MAX_POINTER_DEPTH - 1 - toCopy) no_qual)"

definition pointer_to :: "ParsedType \<Rightarrow> PointerQualifier \<Rightarrow> TypeInfo \<Rightarrow> TypeInfo" where
  "pointer_to type q target =
    makeBaseInvalid\<lparr>category := TYPEINFO_POINTER, pointerDepth := pointerDepth target + 1, primitive := primitive target,
      tag := tag target, userTypeName := userTypeName target, recordDefinition := recordDefinition target,
      bitWidth := bitWidth target, isSigned := isSigned target, isComplex := isComplex target,
      isImaginary := isImaginary target, originalType := Some type, isVLA := isVLA target, isComplete := True,
      pointerLevels := pointer_levels target, isConst := pq_isConst q, isVolatile := pq_isVolatile q,
      isRestrict := pq_isRestrict q\<rparr>"

definition array_of :: "ParsedType \<Rightarrow> ParsedArrayInfo \<Rightarrow> TypeInfo \<Rightarrow> TypeInfo" where
  "array_of type a element =
    element\<lparr>category := TYPEINFO_ARRAY, isArray := True, isLValue := True, isVLA := isVLA element \<or> ai_isVLA a,
      originalType := Some type, isComplete := isComplete element \<and> \<not> ai_isFlexible a\<rparr>"

text \<open>The derivations from an index on; \<open>base\<close> is \<open>typeInfoFromBaseKind\<close> of the type.\<close>

fun typeInfoFromDerivationIndex :: "TypeInfo option \<Rightarrow> ParsedType \<Rightarrow> TypeDerivation list \<Rightarrow> TypeInfo option" where
  "typeInfoFromDerivationIndex base type [] =
    map_option (\<lambda>b. (applyQualifiers b type)\<lparr>originalType := Some type\<rparr>) base"
| "typeInfoFromDerivationIndex base type (DPointer q # ds) =
    map_option (pointer_to type q) (typeInfoFromDerivationIndex base type ds)"
| "typeInfoFromDerivationIndex base type (DArray a # ds) =
    map_option (array_of type a) (typeInfoFromDerivationIndex base type ds)"
| "typeInfoFromDerivationIndex base type (DFunction p v ps # ds) =
    Some (makeBaseInvalid\<lparr>category := TYPEINFO_FUNCTION, isFunction := True, originalType := Some type, isLValue := False\<rparr>)"

text \<open>A type with a pointer depth but no derivations.\<close>

definition pointer_by_depth :: "ParsedType \<Rightarrow> TypeInfo \<Rightarrow> TypeInfo" where
  "pointer_by_depth type base =
    makeBaseInvalid\<lparr>category := TYPEINFO_POINTER, pointerDepth := nat (pt_pointerDepth (pt_base type)),
      primitive := primitive base, tag := tag base, userTypeName := userTypeName base,
      recordDefinition := recordDefinition base, bitWidth := (if bitWidth base \<noteq> 0 then bitWidth base else defaultIntBits),
      isSigned := isSigned base, isComplex := isComplex base, isImaginary := isImaginary base,
      originalType := Some type,
      pointerLevels := (replicate TYPEINFO_MAX_POINTER_DEPTH no_qual)[0 := qual_of base], isComplete := True\<rparr>"

definition undecorated :: "HostMacros \<Rightarrow> CompilerContext option \<Rightarrow> (ParsedType \<Rightarrow> TypeInfo option) \<Rightarrow> scope \<Rightarrow> ParsedType \<Rightarrow> TypeInfo option" where
  "undecorated host ctx rec sc type =
    (let base = typeInfoFromBaseKind host ctx rec sc type in
     if pt_derivations type \<noteq> [] then typeInfoFromDerivationIndex base type (pt_derivations type)
     else if pt_pointerDepth (pt_base type) > 0 then map_option (pointer_by_depth type) base
     else map_option (\<lambda>info. if originalType info = None then info\<lparr>originalType := Some type\<rparr> else info) base)"

fun typeInfoFromParsedType ::
    "nat \<Rightarrow> HostMacros \<Rightarrow> CompilerContext option \<Rightarrow> scope \<Rightarrow> ParsedType \<Rightarrow> TypeInfo option" where
  "typeInfoFromParsedType 0 host ctx sc type = None"
| "typeInfoFromParsedType (Suc n) host ctx sc type =
    map_option (\<lambda>info. propagateVLAFlag (applyQualifiers info type) type)
      (undecorated host ctx (typeInfoFromParsedType n host ctx sc) sc type)"

end
