(* ===== verification/Layout.thy ===== *)
theory Layout
  imports Type_Resolution Strtoull
begin

text \<open>
  Sizes, alignments and the layout of structs and unions, the whole of \<open>src/src/Syntax/layout.c\<close>. Sizes are
  64-bit words and wrap as \<open>size_t\<close> does. AST nodes are addresses; what is read of a record definition is
  found in \<open>le_node\<close>. The constant evaluator (\<open>constEvalInteger\<close>) is an argument. The functions change the
  context (layout cache, inline definitions), which is passed along; \<open>NoReturn\<close> says that the fuel of a
  nested call was used up. Out-pointers are always given, allocation succeeds, traces are left out.
\<close>

section \<open>Data\<close>

record FieldDecl =
  fd_declaredType :: ParsedType
  fd_declaredTypes :: "ParsedType list option"
  fd_varNames :: "cstr list"
  fd_varCount :: nat
  fd_bitFieldWidth :: "SizeExpr option"
  fd_attributes :: "cstr list"

text \<open>A record definition; a field that is not a variable declaration is \<open>None\<close>.\<close>

record RecordDef =
  rd_isUnion :: bool
  rd_fields :: "FieldDecl option list"
  rd_attributes :: "cstr list"

record LayoutEnv =
  le_host :: HostMacros
  le_scope :: scope
  le_node :: "nat \<Rightarrow> RecordDef"
  le_constEval :: "CompilerContext option \<Rightarrow> SizeExpr \<Rightarrow> int option"
  le_fuel :: nat

datatype 'a lay = NoReturn | Returns "'a option" "CompilerContext option"

text \<open>Go on with the result of a call; when it reports failure, return failure.\<close>

definition lbind :: "'a lay \<Rightarrow> ('a \<Rightarrow> CompilerContext option \<Rightarrow> 'b lay) \<Rightarrow> 'b lay" where
  "lbind m f =
    (case m of
       NoReturn \<Rightarrow> NoReturn
     | Returns None c \<Rightarrow> Returns None c
     | Returns (Some a) c \<Rightarrow> f a c)"

definition layout_typeInfo :: "LayoutEnv \<Rightarrow> CompilerContext option \<Rightarrow> ParsedType \<Rightarrow> TypeInfo lay" where
  "layout_typeInfo env ctx t =
    (case typeInfoFromParsedType (le_fuel env) (le_host env) ctx (le_scope env) t of
       None \<Rightarrow> NoReturn | Some info \<Rightarrow> Returns (Some info) ctx)"

section \<open>Rounding and attributes\<close>

definition round_up :: "size_t \<Rightarrow> size_t \<Rightarrow> size_t" where
  "round_up v a = (if a = 0 then v else let r = v mod a in if r = 0 then v else v + (a - r))"

text \<open>The text from the first occurrence of a pattern on, \<open>strstr\<close>.\<close>

fun find_sub :: "string \<Rightarrow> string \<Rightarrow> string option" where
  "find_sub [] pat = (if pat = [] then Some [] else None)"
| "find_sub (c # cs) pat = (if take (length pat) (c # cs) = pat then Some (c # cs) else find_sub cs pat)"

text \<open>\<open>strtol\<close> in base 10 at a text without leading blanks: \<open>None\<close> when no digit is read; saturating.\<close>

definition strtol10 :: "string \<Rightarrow> int option" where
  "strtol10 s =
    (let (neg, s1) = strip_sign s; ds = takeWhile is_digit s1; v = int (read_digits 0 ds)
     in if ds = [] then None else Some (if neg then max (- (2 ^ 63)) (- v) else min (2 ^ 63 - 1) v))"

definition attr_alignment :: "string \<Rightarrow> size_t option" where
  "attr_alignment text =
    (case find_sub text ''aligned'' of
       None \<Rightarrow> None
     | Some s \<Rightarrow>
         (case dropWhile (\<lambda>c. c \<noteq> CHR ''('') s of
            [] \<Rightarrow> None
          | p # r \<Rightarrow>
              (case strtol10 (dropWhile is_space r) of
                 None \<Rightarrow> None | Some v \<Rightarrow> if v > 0 then Some (word_of_int v) else None)))"

fun collectAttrLayout :: "cstr list \<Rightarrow> bool \<times> size_t \<Rightarrow> bool \<times> size_t" where
  "collectAttrLayout [] acc = acc"
| "collectAttrLayout (None # as) acc = collectAttrLayout as acc"
| "collectAttrLayout (Some text # as) (packed, ov) =
    collectAttrLayout as
      (packed \<or> find_sub text ''packed'' \<noteq> None,
       (case attr_alignment text of None \<Rightarrow> ov | Some v \<Rightarrow> if v > ov then v else ov))"

section \<open>Sizes of types\<close>

definition isFlexibleArrayType :: "ParsedType \<Rightarrow> bool" where
  "isFlexibleArrayType t =
    (if pt_derivations t = [] then False
     else case parsedTypeGetDerivation t (length (pt_derivations t) - 1) of
            Some (DArray a) \<Rightarrow> ai_isFlexible a | _ \<Rightarrow> False)"

definition sizeAlignFromBits :: "TargetLayout \<Rightarrow> size_t \<Rightarrow> size_t \<Rightarrow> size_t \<times> size_t" where
  "sizeAlignFromBits lay bits suggested =
    (let bytes = (bits + 7) div 8
     in (if bytes = 0 then 1 else bytes,
         if suggested = 0 then
           (if bits \<le> charBits lay then charAlign lay else if bits \<le> shortBits lay then shortAlign lay
            else if bits \<le> intBits lay then intAlign lay else if bits \<le> TargetLayout.longBits lay then longAlign lay
            else longLongAlign lay)
         else suggested))"

definition layout_target :: "LayoutEnv \<Rightarrow> CompilerContext option \<Rightarrow> TargetLayout" where
  "layout_target env ctx =
    (case (if le_scope env = [] then None else cc_get_target_layout ctx) of
       Some lay \<Rightarrow> lay | None \<Rightarrow> tl_default (le_host env))"

type_synonym record_layout = "CompilerContext option \<Rightarrow> CCTagKind \<Rightarrow> cstr \<Rightarrow> (size_t \<times> size_t) lay"

text \<open>An inline definition is entered into the tag table when the tag has none.\<close>

definition define_inline :: "LayoutEnv \<Rightarrow> CompilerContext option \<Rightarrow> CCTagKind \<Rightarrow> TypeInfo \<Rightarrow> CompilerContext option" where
  "define_inline env ctx kind info =
    map_option (\<lambda>c.
      if cc_tag_is_defined c kind (userTypeName info) then c
      else case originalType info of
          None \<Rightarrow> c
        | Some t \<Rightarrow>
            (case pt_inlineStructOrUnionDef (pt_base t) of
               None \<Rightarrow> c
             | Some d \<Rightarrow>
                 if rd_isUnion (le_node env d) = (kind = CC_TAG_UNION)
                 then fst (cc_define_tag c kind (userTypeName info) 0 (Some d)) else c)) ctx"

text \<open>\<open>lsu\<close> is the recursive call of \<open>layout_struct_union\<close>.\<close>

definition size_align_of_typeinfo ::
    "record_layout \<Rightarrow> LayoutEnv \<Rightarrow> CompilerContext option \<Rightarrow> TypeInfo \<Rightarrow> (size_t \<times> size_t) lay" where
  "size_align_of_typeinfo lsu env ctx info =
    (let lay = layout_target env ctx;
         bits = (if bitWidth info \<noteq> 0 then word_of_nat (bitWidth info) else 32)
     in case category info of
          TYPEINFO_INTEGER \<Rightarrow> Returns (Some (sizeAlignFromBits lay bits 0)) ctx
        | TYPEINFO_ENUM \<Rightarrow> Returns (Some (sizeAlignFromBits lay bits 0)) ctx
        | TYPEINFO_FLOAT \<Rightarrow>
            (case sizeAlignFromBits lay bits
                    (if word_of_nat (bitWidth info) \<ge> longDoubleBits lay then longDoubleAlign lay else 0) of
               (sz, al) \<Rightarrow> Returns (Some (if isComplex info then sz * 2 else sz, al)) ctx)
        | TYPEINFO_POINTER \<Rightarrow> Returns (Some (pointerBits lay div 8, pointerAlign lay)) ctx
        | TYPEINFO_STRUCT \<Rightarrow>
            if userTypeName info = None \<or> le_scope env = [] \<or> ctx = None then Returns None ctx
            else lsu (define_inline env ctx CC_TAG_STRUCT info) CC_TAG_STRUCT (userTypeName info)
        | TYPEINFO_UNION \<Rightarrow>
            if userTypeName info = None \<or> le_scope env = [] \<or> ctx = None then Returns None ctx
            else lsu (define_inline env ctx CC_TAG_UNION info) CC_TAG_UNION (userTypeName info)
        | _ \<Rightarrow> Returns None ctx)"

definition adjust_align :: "bool \<Rightarrow> size_t \<Rightarrow> size_t \<Rightarrow> size_t" where
  "adjust_align packed ov al =
    (let al = (if packed then 1 else al) in if ov > 0 \<and> ov > al then ov else al)"

definition array_length :: "LayoutEnv \<Rightarrow> CompilerContext option \<Rightarrow> ParsedArrayInfo \<Rightarrow> int option" where
  "array_length env ctx a =
    (if ai_hasConstantSize a then Some (ai_constantSize a)
     else case ai_sizeExpr a of Some e \<Rightarrow> le_constEval env ctx e | None \<Rightarrow> Some (- 1))"

definition type_attributes :: "ParsedType \<Rightarrow> bool \<times> size_t" where
  "type_attributes t =
    (case collectAttrLayout (map at_payload (pt_attributes (pt_base t))) (False, 0) of
       (packed, ov) \<Rightarrow>
         (packed, if pt_hasAlignOverride (pt_base t) \<and> word_of_nat (pt_alignOverride (pt_base t)) > ov
                  then word_of_nat (pt_alignOverride (pt_base t)) else ov))"

lemma element_derivations:
  "pt_derivations (parsedTypeArrayElementType t) =
    (if parsedTypeIsDirectArray t then map cloneDerivationInto (tl (pt_derivations t))
     else map cloneDerivationInto (pt_derivations t))"
proof (cases t)
  case (PT b ds fps)
  have k: "deriv_kind (cloneDerivationInto d) = deriv_kind d" for d by (cases d) simp_all
  show ?thesis unfolding PT
    by (cases ds) (simp_all add: parsedTypeArrayElementType_def parsedTypeIsDirectArray_def
        parsedTypeRefreshFunctionFlags_def k Let_def)
qed

text \<open>
  The size of an array is that of its element times the length (\<open>size_align_of_array\<close>); of any other
  type, that of its expression type.
\<close>

function size_align_of_parsed_type ::
    "record_layout \<Rightarrow> LayoutEnv \<Rightarrow> CompilerContext option \<Rightarrow> ParsedType \<Rightarrow> (size_t \<times> size_t) lay" where
  "size_align_of_parsed_type lsu env ctx t =
    (case type_attributes t of (packed, ov) \<Rightarrow>
       lbind
         (if parsedTypeIsDirectArray t then
            (case parsedTypeGetArrayDerivation t 0 of
               None \<Rightarrow> Returns None ctx
             | Some a \<Rightarrow>
                 if ai_isFlexible a \<or> ai_isVLA a then Returns None ctx
                 else case array_length env ctx a of
                     None \<Rightarrow> Returns None ctx
                   | Some len \<Rightarrow>
                       if len < 0 then Returns None ctx
                       else lbind (size_align_of_parsed_type lsu env ctx (parsedTypeArrayElementType t))
                              (\<lambda>(sz, al) c. Returns (Some (sz * word_of_int len, al)) c))
          else lbind (layout_typeInfo env ctx t) (\<lambda>info c. size_align_of_typeinfo lsu env c info))
         (\<lambda>(sz, al) c. Returns (Some (sz, adjust_align packed ov al)) c))"
  by pat_completeness auto

termination size_align_of_parsed_type
proof (relation "measure (\<lambda>(lsu, env, ctx, t). length (pt_derivations t))")
  show "wf (measure (\<lambda>(lsu :: record_layout, env :: LayoutEnv, ctx :: CompilerContext option, t). length (pt_derivations t)))"
    by simp
next
  fix lsu :: record_layout and env :: LayoutEnv and ctx :: "CompilerContext option" and t :: ParsedType
  assume a: "parsedTypeIsDirectArray t"
  then have "length (pt_derivations (parsedTypeArrayElementType t)) < length (pt_derivations t)"
    by (cases "pt_derivations t") (simp_all add: element_derivations parsedTypeIsDirectArray_def)
  then show "((lsu, env, ctx, parsedTypeArrayElementType t), (lsu, env, ctx, t)) \<in>
      measure (\<lambda>(lsu, env, ctx, t). length (pt_derivations t))" by simp
qed

declare size_align_of_parsed_type.simps [simp del]

section \<open>Placing the fields of a struct\<close>

record LayoutState =
  st_offset :: size_t
  st_maxAlign :: size_t
  st_bitOffset :: size_t
  st_currentUnitSize :: size_t
  st_layouts :: "CCTagFieldLayout list"

definition layout_start :: LayoutState where
  "layout_start = \<lparr>st_offset = 0, st_maxAlign = 1, st_bitOffset = 0, st_currentUnitSize = 0, st_layouts = []\<rparr>"

definition raise_align :: "size_t \<Rightarrow> size_t \<Rightarrow> size_t" where
  "raise_align al m = (if al > m then al else m)"

text \<open>Storage of bit-fields in progress is left before anything else is placed.\<close>

definition flush_bits :: "LayoutState \<Rightarrow> LayoutState" where
  "flush_bits st =
    (if st_bitOffset st > 0
     then st\<lparr>st_offset := st_offset st + st_currentUnitSize st, st_bitOffset := 0, st_currentUnitSize := 0\<rparr> else st)"

definition field_align :: "bool \<Rightarrow> size_t \<Rightarrow> size_t \<Rightarrow> size_t" where
  "field_align packed ov al =
    (let al = (if al = 0 then 1 else al); al = (if packed then 1 else al) in if ov > 0 \<and> ov > al then ov else al)"

text \<open>A field of its own storage: its size (0 for a flexible array) and alignment.\<close>

definition place_field :: "cstr \<Rightarrow> bool \<Rightarrow> size_t \<Rightarrow> size_t \<Rightarrow> LayoutState \<Rightarrow> LayoutState" where
  "place_field name sg sz al st0 =
    (let st = flush_bits st0; off = round_up (st_offset st) al + sz
     in st\<lparr>st_offset := off, st_maxAlign := raise_align al (st_maxAlign st),
           st_layouts := st_layouts st @
             [\<lparr>fl_name = name, fl_byteOffset = off - sz, fl_bitOffset = 0, fl_widthBits = 0, fl_storageUnitBytes = sz,
               fl_isBitfield = False, fl_isZeroWidth = False, fl_isSigned = sg\<rparr>]\<rparr>)"

text \<open>The storage unit of a bit-field: bits and alignment, from its type, the target and the attributes.\<close>

definition bitfield_unit :: "TargetLayout option \<Rightarrow> bool \<Rightarrow> size_t \<Rightarrow> size_t \<Rightarrow> size_t \<Rightarrow> size_t \<times> size_t" where
  "bitfield_unit lay packed ov sz al =
    (let bits = sz * 8;
         bits = (case lay of Some l \<Rightarrow> if bitfieldUnitBits l > 0 \<and> bits < bitfieldUnitBits l then bitfieldUnitBits l else bits | None \<Rightarrow> bits);
         al = (case lay of Some l \<Rightarrow> if bitfieldUnitAlign l > 0 \<and> al < bitfieldUnitAlign l then bitfieldUnitAlign l else al | None \<Rightarrow> al);
         al = (if packed then 1 else al);
         al = (if ov > 0 \<and> ov > al then ov else al)
     in (bits, if al = 0 then 1 else al))"

definition unit_bytes :: "size_t \<Rightarrow> size_t" where
  "unit_bytes bits = (let b = (bits + 7) div 8 in if b = 0 then 1 else b)"

definition bit_layout :: "cstr \<Rightarrow> bool \<Rightarrow> size_t \<Rightarrow> size_t \<Rightarrow> size_t \<Rightarrow> size_t \<Rightarrow> bool \<Rightarrow> CCTagFieldLayout" where
  "bit_layout name sg byteOff bitOff width bytes zero =
    \<lparr>fl_name = name, fl_byteOffset = byteOff, fl_bitOffset = bitOff, fl_widthBits = width, fl_storageUnitBytes = bytes,
     fl_isBitfield = True, fl_isZeroWidth = zero, fl_isSigned = sg\<rparr>"

text \<open>A bit-field of width 0 ends the current unit.\<close>

definition place_zero_width :: "cstr \<Rightarrow> bool \<Rightarrow> size_t \<Rightarrow> size_t \<Rightarrow> LayoutState \<Rightarrow> LayoutState" where
  "place_zero_width name sg bytes al st =
    (let off = (if st_bitOffset st > 0 then st_offset st + st_currentUnitSize st else st_offset st);
         off = round_up off al
     in st\<lparr>st_offset := off, st_bitOffset := 0, st_currentUnitSize := 0,
           st_layouts := st_layouts st @ [bit_layout name sg off 0 0 bytes True]\<rparr>)"

text \<open>A bit-field that does not fit in what is left of the unit starts the next one.\<close>

definition place_bits :: "TargetLayout option \<Rightarrow> cstr \<Rightarrow> bool \<Rightarrow> size_t \<Rightarrow> size_t \<Rightarrow> LayoutState \<Rightarrow> LayoutState" where
  "place_bits lay name sg bits width st0 =
    (let bytes = unit_bytes bits;
         st1 = (if st_bitOffset st0 = 0 then st0\<lparr>st_currentUnitSize := bytes\<rparr> else st0);
         st = (if st_bitOffset st1 + width > bits
               then st1\<lparr>st_offset := st_offset st1 + st_currentUnitSize st1, st_bitOffset := 0, st_currentUnitSize := bytes\<rparr>
               else st1);
         bitOff = (case lay of
             Some l \<Rightarrow> if endianness l = TL_ENDIAN_BIG \<and> width > 0 then bits - width - st_bitOffset st else st_bitOffset st
           | None \<Rightarrow> st_bitOffset st);
         entry = bit_layout name sg (st_offset st) bitOff width bytes False;
         st2 = st\<lparr>st_bitOffset := st_bitOffset st + width, st_layouts := st_layouts st @ [entry]\<rparr>
     in if st_bitOffset st2 = bits
        then st2\<lparr>st_offset := st_offset st2 + st_currentUnitSize st2, st_bitOffset := 0, st_currentUnitSize := 0\<rparr>
        else st2)"

text \<open>A bit-field of a type of the given size and alignment; \<open>None\<close> when the layout fails.\<close>

definition place_bitfield ::
    "TargetLayout option \<Rightarrow> bool \<Rightarrow> size_t \<Rightarrow> cstr \<Rightarrow> bool \<Rightarrow> int \<Rightarrow> size_t \<Rightarrow> size_t \<Rightarrow> LayoutState \<Rightarrow> LayoutState option" where
  "place_bitfield lay packed ov name sg widthVal sz al st0 =
    (if sz = 0 then None
     else
       (case bitfield_unit lay packed ov sz al of (bits, unitAlign) \<Rightarrow>
          let st = st0\<lparr>st_maxAlign := raise_align unitAlign (st_maxAlign st0), st_offset := round_up (st_offset st0) unitAlign\<rparr>;
              width = word_of_int widthVal
          in if widthVal = 0 then Some (place_zero_width name sg (unit_bytes bits) unitAlign st)
             else if width > bits then None
             else Some (place_bits lay name sg bits width st)))"

section \<open>The fields of a record\<close>

definition base_type :: "FieldDecl \<Rightarrow> ParsedType" where
  "base_type f = (case fd_declaredTypes f of Some (t # ts) \<Rightarrow> t | _ \<Rightarrow> fd_declaredType f)"

definition var_name :: "FieldDecl \<Rightarrow> nat \<Rightarrow> cstr" where
  "var_name f k = (if k < length (fd_varNames f) then fd_varNames f ! k else None)"

text \<open>The further declarators of a declaration, with their indices.\<close>

definition more_declarators :: "FieldDecl \<Rightarrow> (cstr \<times> ParsedType) list" where
  "more_declarators f =
    (case fd_declaredTypes f of
       Some ts \<Rightarrow> if fd_varCount f > 1 then map (\<lambda>k. (var_name f k, ts ! k)) [1..<fd_varCount f] else []
     | None \<Rightarrow> [])"

definition struct_target :: "LayoutEnv \<Rightarrow> CompilerContext option \<Rightarrow> TargetLayout option" where
  "struct_target env ctx =
    (if le_scope env \<noteq> [] \<and> ctx \<noteq> None then cc_get_target_layout ctx else Some (tl_default (le_host env)))"

definition layout_first ::
    "record_layout \<Rightarrow> LayoutEnv \<Rightarrow> TargetLayout option \<Rightarrow> bool \<Rightarrow> size_t \<Rightarrow> FieldDecl \<Rightarrow> LayoutState \<Rightarrow>
     CompilerContext option \<Rightarrow> LayoutState lay" where
  "layout_first lsu env lay packed ov f st ctx0 =
    lbind (layout_typeInfo env ctx0 (base_type f)) (\<lambda>info ctx.
      case fd_bitFieldWidth f of
        Some w \<Rightarrow>
          (case le_constEval env ctx w of
             None \<Rightarrow> Returns None ctx
           | Some widthVal \<Rightarrow>
               lbind (size_align_of_parsed_type lsu env ctx (base_type f)) (\<lambda>(sz, al) c.
                 Returns (place_bitfield lay packed ov (var_name f 0) (isSigned info) widthVal sz al st) c))
      | None \<Rightarrow>
          let flexible = isFlexibleArrayType (base_type f) in
          lbind (size_align_of_parsed_type lsu env ctx
                   (if flexible then parsedTypeArrayElementType (base_type f) else base_type f)) (\<lambda>(sz, al) c.
            Returns (Some (place_field (var_name f 0) (isSigned info) (if flexible then 0 else sz) (field_align packed ov al) st)) c))"

fun layout_more ::
    "record_layout \<Rightarrow> LayoutEnv \<Rightarrow> bool \<Rightarrow> size_t \<Rightarrow> (cstr \<times> ParsedType) list \<Rightarrow> LayoutState \<Rightarrow> CompilerContext option \<Rightarrow>
     LayoutState lay" where
  "layout_more lsu env packed ov [] st ctx = Returns (Some st) ctx"
| "layout_more lsu env packed ov ((name, t) # ds) st ctx =
    lbind (size_align_of_parsed_type lsu env ctx t) (\<lambda>(sz, al) c.
      lbind (layout_typeInfo env c t) (\<lambda>info c.
        layout_more lsu env packed ov ds (place_field name (isSigned info) sz (field_align packed ov al) st) c))"

text \<open>A bit-field of width zero ends the work on its declaration: the further declarators are skipped.\<close>

definition remaining_declarators :: "FieldDecl \<Rightarrow> LayoutState \<Rightarrow> (cstr \<times> ParsedType) list" where
  "remaining_declarators f st =
    (case rev (st_layouts st) of e # es \<Rightarrow> if fl_isZeroWidth e then [] else more_declarators f | [] \<Rightarrow> more_declarators f)"

fun layout_fields ::
    "record_layout \<Rightarrow> LayoutEnv \<Rightarrow> TargetLayout option \<Rightarrow> bool \<Rightarrow> FieldDecl option list \<Rightarrow> LayoutState \<Rightarrow>
     CompilerContext option \<Rightarrow> LayoutState lay" where
  "layout_fields lsu env lay packed [] st ctx = Returns (Some st) ctx"
| "layout_fields lsu env lay packed (None # fs) st ctx = layout_fields lsu env lay packed fs st ctx"
| "layout_fields lsu env lay packed (Some f # fs) st ctx =
    (case collectAttrLayout (fd_attributes f) (packed, 0) of (fieldPacked, ov) \<Rightarrow>
      lbind (layout_first lsu env lay fieldPacked ov f st ctx) (\<lambda>st c.
        lbind (layout_more lsu env fieldPacked ov (remaining_declarators f st) st c) (\<lambda>st c.
          layout_fields lsu env lay packed fs st c)))"

definition final_align :: "bool \<Rightarrow> size_t \<Rightarrow> size_t \<Rightarrow> size_t" where
  "final_align packed ov m =
    (let al = (if packed \<and> ov = 0 then 1 else m) in if ov > 0 \<and> ov > al then ov else al)"

definition layout_finish :: "bool \<Rightarrow> size_t \<Rightarrow> LayoutState \<Rightarrow> size_t \<times> size_t \<times> CCTagFieldLayout list" where
  "layout_finish packed ov st0 =
    (let st = flush_bits st0; al = final_align packed ov (st_maxAlign st)
     in (round_up (st_offset st) al, al, st_layouts st))"

definition layout_struct_fields ::
    "record_layout \<Rightarrow> LayoutEnv \<Rightarrow> RecordDef \<Rightarrow> CompilerContext option \<Rightarrow> (size_t \<times> size_t \<times> CCTagFieldLayout list) lay" where
  "layout_struct_fields lsu env def ctx =
    (case collectAttrLayout (rd_attributes def) (False, 0) of (packed, ov) \<Rightarrow>
      lbind (layout_fields lsu env (struct_target env ctx) packed (rd_fields def) layout_start ctx)
        (\<lambda>st c. Returns (Some (layout_finish packed ov st)) c))"

text \<open>A union: every member at offset 0. The state is the size, the alignment and the members so far.\<close>

type_synonym union_state = "size_t \<times> size_t \<times> CCTagFieldLayout list"

fun union_members ::
    "record_layout \<Rightarrow> LayoutEnv \<Rightarrow> bool \<Rightarrow> size_t \<Rightarrow> bool \<Rightarrow> (cstr \<times> ParsedType) list \<Rightarrow> union_state \<Rightarrow>
     CompilerContext option \<Rightarrow> union_state lay" where
  "union_members lsu env packed ov bitfield [] st ctx = Returns (Some st) ctx"
| "union_members lsu env packed ov bitfield ((name, t) # ds) (maxSize, maxAl, ls) ctx =
    lbind (size_align_of_parsed_type lsu env ctx t) (\<lambda>(sz, al0) c.
      let al = adjust_align packed ov al0 in
      lbind (layout_typeInfo env c t) (\<lambda>info c.
        union_members lsu env packed ov bitfield ds
          (raise_align sz maxSize, raise_align al maxAl,
           ls @ [\<lparr>fl_name = name, fl_byteOffset = 0, fl_bitOffset = 0, fl_widthBits = 0, fl_storageUnitBytes = sz,
                  fl_isBitfield = bitfield, fl_isZeroWidth = False, fl_isSigned = isSigned info\<rparr>]) c))"

fun union_fields ::
    "record_layout \<Rightarrow> LayoutEnv \<Rightarrow> bool \<Rightarrow> FieldDecl option list \<Rightarrow> union_state \<Rightarrow> CompilerContext option \<Rightarrow> union_state lay" where
  "union_fields lsu env packed [] st ctx = Returns (Some st) ctx"
| "union_fields lsu env packed (None # fs) st ctx = union_fields lsu env packed fs st ctx"
| "union_fields lsu env packed (Some f # fs) st ctx =
    (case collectAttrLayout (fd_attributes f) (packed, 0) of (fieldPacked, ov) \<Rightarrow>
      lbind (union_members lsu env fieldPacked ov (fd_bitFieldWidth f \<noteq> None)
               ((var_name f 0, base_type f) # more_declarators f) st ctx)
        (\<lambda>st c. union_fields lsu env packed fs st c))"

definition layout_union_fields ::
    "record_layout \<Rightarrow> LayoutEnv \<Rightarrow> RecordDef \<Rightarrow> CompilerContext option \<Rightarrow> (size_t \<times> size_t \<times> CCTagFieldLayout list) lay" where
  "layout_union_fields lsu env def ctx =
    (case collectAttrLayout (rd_attributes def) (False, 0) of (packed, ov) \<Rightarrow>
      lbind (union_fields lsu env packed (rd_fields def) (0, 1, []) ctx)
        (\<lambda>(maxSize, maxAl, ls) c. let al = final_align packed ov maxAl in Returns (Some (round_up maxSize al, al, ls)) c))"

section \<open>Records by tag\<close>

definition store_layout ::
    "CCTagKind \<Rightarrow> cstr \<Rightarrow> (size_t \<times> size_t \<times> CCTagFieldLayout list) lay \<Rightarrow> (size_t \<times> size_t) lay" where
  "store_layout kind name res =
    (case res of
       NoReturn \<Rightarrow> NoReturn
     | Returns None c \<Rightarrow> Returns None (map_option (\<lambda>c. fst (cc_tag_mark_computing c kind name False)) c)
     | Returns (Some (sz, al, ls)) c \<Rightarrow>
         Returns (Some (sz, al)) (map_option (\<lambda>c.
           let c = fst (cc_set_tag_layout c kind name sz al);
               c = fst (cc_set_tag_field_layouts c kind name ls)
           in fst (cc_tag_mark_computing c kind name False)) c))"

text \<open>One unit of fuel for each record entered.\<close>

fun layout_struct_union :: "nat \<Rightarrow> LayoutEnv \<Rightarrow> record_layout" where
  "layout_struct_union 0 env ctx kind name = NoReturn"
| "layout_struct_union (Suc n) env ctx kind name =
    (case (ctx, name) of
       (Some c, Some _) \<Rightarrow>
         (case cc_get_tag_layout c kind name of
            Some r \<Rightarrow> Returns (Some r) ctx
          | None \<Rightarrow>
              if cc_tag_is_computing c kind name then Returns None ctx
              else
                let c1 = fst (cc_tag_mark_computing c kind name True) in
                (case cc_tag_definition c1 kind name of
                   None \<Rightarrow> Returns None (Some (fst (cc_tag_mark_computing c1 kind name False)))
                 | Some d \<Rightarrow>
                     store_layout kind name
                       (if kind = CC_TAG_STRUCT then layout_struct_fields (layout_struct_union n env) env (le_node env d) (Some c1)
                        else layout_union_fields (layout_struct_union n env) env (le_node env d) (Some c1))))
     | _ \<Rightarrow> Returns None ctx)"

end
