(* ===== verification/Type_Resolution_Props.thy ===== *)
theory Type_Resolution_Props
  imports Type_Resolution
begin

text \<open>
  Typedef chains and the fuel they need, what a pointer type records of its levels, and two places
  where the translation departs from C.
\<close>

section \<open>Typedef chains\<close>

text \<open>The typedef that \<open>typeInfoFromParsedType\<close> enters next.\<close>

definition next_typedef :: "scope \<Rightarrow> ParsedType \<Rightarrow> ParsedType option" where
  "next_typedef sc t =
    (if pt_kind (pt_base t) = TYPE_NAMED \<and> is_builtin_int128_name (pt_userTypeName (pt_base t)) = None
     then resolveTypedef t sc else None)"

fun chain_ends :: "nat \<Rightarrow> scope \<Rightarrow> ParsedType \<Rightarrow> bool" where
  "chain_ends 0 sc t \<longleftrightarrow> next_typedef sc t = None"
| "chain_ends (Suc n) sc t \<longleftrightarrow> (case next_typedef sc t of None \<Rightarrow> True | Some r \<Rightarrow> chain_ends n sc r)"

lemma base_kind_cong:
  assumes "\<And>r. next_typedef sc t = Some r \<Longrightarrow> f r = g r"
  shows "typeInfoFromBaseKind host ctx f sc t = typeInfoFromBaseKind host ctx g sc t"
  using assms by (simp add: typeInfoFromBaseKind_def next_typedef_def Let_def split: TypeKind.split option.split)

lemma base_kind_returns:
  assumes "\<And>r. next_typedef sc t = Some r \<Longrightarrow> f r \<noteq> None"
  shows "typeInfoFromBaseKind host ctx f sc t \<noteq> None"
  using assms by (simp add: typeInfoFromBaseKind_def next_typedef_def Let_def split: TypeKind.split option.split)

lemma derivation_returns: "base \<noteq> None \<Longrightarrow> typeInfoFromDerivationIndex base t ds \<noteq> None"
  by (induction base t ds rule: typeInfoFromDerivationIndex.induct) auto

lemma undecorated_returns:
  assumes "\<And>r. next_typedef sc t = Some r \<Longrightarrow> f r \<noteq> None"
  shows "undecorated host ctx f sc t \<noteq> None"
proof -
  have "typeInfoFromBaseKind host ctx f sc t \<noteq> None" by (rule base_kind_returns) (rule assms)
  then show ?thesis by (simp add: undecorated_def Let_def derivation_returns del: not_None_eq)
qed

lemma undecorated_cong:
  assumes "\<And>r. next_typedef sc t = Some r \<Longrightarrow> f r = g r"
  shows "undecorated host ctx f sc t = undecorated host ctx g sc t"
proof -
  have "typeInfoFromBaseKind host ctx f sc t = typeInfoFromBaseKind host ctx g sc t" by (rule base_kind_cong) (rule assms)
  then show ?thesis by (simp only: undecorated_def)
qed

lemma chain_ends_returns: "chain_ends n sc t \<Longrightarrow> typeInfoFromParsedType (Suc n) host ctx sc t \<noteq> None"
proof (induction n arbitrary: t)
  case 0
  then show ?case using undecorated_returns [of sc t "typeInfoFromParsedType 0 host ctx sc" host ctx] by simp
next
  case (Suc n)
  have "undecorated host ctx (typeInfoFromParsedType (Suc n) host ctx sc) sc t \<noteq> None"
    by (rule undecorated_returns, rule Suc.IH) (use Suc.prems in simp)
  then show ?case by (simp del: typeInfoFromParsedType.simps add: typeInfoFromParsedType.simps(2) [of "Suc n"])
qed

lemma chain_ends_fuel:
  "chain_ends n sc t \<Longrightarrow> n \<le> m \<Longrightarrow> typeInfoFromParsedType (Suc m) host ctx sc t = typeInfoFromParsedType (Suc n) host ctx sc t"
proof (induction n arbitrary: t m)
  case 0
  have "undecorated host ctx (typeInfoFromParsedType m host ctx sc) sc t =
      undecorated host ctx (typeInfoFromParsedType 0 host ctx sc) sc t"
    by (rule undecorated_cong) (use 0 in simp)
  then show ?case by simp
next
  case (Suc n)
  then obtain m' where m: "m = Suc m'" "n \<le> m'" by (cases m) auto
  have "undecorated host ctx (typeInfoFromParsedType m host ctx sc) sc t =
      undecorated host ctx (typeInfoFromParsedType (Suc n) host ctx sc) sc t"
    unfolding m(1) by (rule undecorated_cong, rule Suc.IH) (use Suc.prems m in simp_all)
  then show ?case by (simp only: typeInfoFromParsedType.simps(2))
qed

text \<open>Typedefs that refer only to typedefs of smaller rank, as those declared before them in C.\<close>

definition typedefs_ranked :: "(string \<Rightarrow> nat) \<Rightarrow> scope \<Rightarrow> bool" where
  "typedefs_ranked rank sc \<longleftrightarrow>
    (\<forall>name r name'. find_typedef sc name = Some r \<and> pt_kind (pt_base r) = TYPE_NAMED \<and>
       pt_userTypeName (pt_base r) = Some name' \<longrightarrow> rank name' < rank name)"

definition type_rank :: "(string \<Rightarrow> nat) \<Rightarrow> ParsedType \<Rightarrow> nat" where
  "type_rank rank t =
    (if pt_kind (pt_base t) = TYPE_NAMED then (case pt_userTypeName (pt_base t) of Some n \<Rightarrow> Suc (rank n) | None \<Rightarrow> 0) else 0)"

lemma next_typedef_Some:
  "next_typedef sc t = Some r \<Longrightarrow> \<exists>n. pt_kind (pt_base t) = TYPE_NAMED \<and> pt_userTypeName (pt_base t) = Some n \<and> find_typedef sc n = Some r"
  by (auto simp: next_typedef_def resolveTypedef_def split: if_splits option.splits)

lemma ranked_chain_ends: "typedefs_ranked rank sc \<Longrightarrow> type_rank rank t \<le> n \<Longrightarrow> chain_ends n sc t"
proof (induction n arbitrary: t)
  case 0
  have "next_typedef sc t = None"
  proof (cases "next_typedef sc t")
    case (Some r)
    from next_typedef_Some [OF this] 0(2) show ?thesis by (auto simp: type_rank_def)
  qed
  then show ?case by simp
next
  case (Suc n)
  show ?case
  proof (cases "next_typedef sc t")
    case (Some r)
    from next_typedef_Some [OF this] obtain m where m: "pt_kind (pt_base t) = TYPE_NAMED"
      "pt_userTypeName (pt_base t) = Some m" "find_typedef sc m = Some r" by blast
    then have "type_rank rank r \<le> rank m"
      using Suc.prems(1) by (auto simp: type_rank_def typedefs_ranked_def Suc_le_eq split: option.split)
    then have "type_rank rank r \<le> n" using Suc.prems(2) m by (simp add: type_rank_def)
    then show ?thesis using Suc.IH Suc.prems(1) Some by simp
  qed simp
qed

definition typedef_symbol :: "string \<Rightarrow> ParsedType \<Rightarrow> ParsedType Symbol" where
  "typedef_symbol name t =
    \<lparr>sym_name = name, sym_kind = SYMBOL_TYPEDEF, sym_type = t, sym_definition = None, sym_initializer = None,
     sym_signature = \<lparr>sig_params = [], sig_isVariadic = False, sig_hasPrototype = False, sig_callConv = CALLCONV_DEFAULT\<rparr>,
     sym_storage = STORAGE_NONE, sym_linkage = LINKAGE_NONE, sym_dllStorage = DLL_STORAGE_NONE, sym_isWeak = False,
     sym_isParameter = False, sym_hasDefinition = False, sym_isTentative = False, sym_hasConstValue = False,
     sym_constValue = 0, sym_cachedTypeInfo = None, sym_unitsAnnotation = None, sym_unitsDeclaratorIndex = 0\<rparr>"

text \<open>A scope in which every name but those of \<open>ds\<close> is undeclared; the first entry for a name counts.\<close>

definition typedef_scope :: "(string \<times> ParsedType) list \<Rightarrow> scope" where
  "typedef_scope ds =
    foldl (\<lambda>sc (n, t). fst (addToScope sc (typedef_symbol n t))) (createScope makeInvalidType []) ds"

definition primitive_type :: "TokenType \<Rightarrow> ParsedType" where
  "primitive_type p = PT (zero_base\<lparr>pt_kind := TYPE_PRIMITIVE, pt_primitiveType := p\<rparr>) [] []"

definition named_type :: "string \<Rightarrow> ParsedType" where
  "named_type n = PT (zero_base\<lparr>pt_kind := TYPE_NAMED, pt_userTypeName := Some n\<rparr>) [] []"

lemma find_typedef_scope1:
  "find_typedef (typedef_scope [(n, t)]) m = (if m = n then Some t else None)"
proof -
  have "find_typedef (typedef_scope [(n, t)]) m =
      (case lookupSymbol (fst (insertSymbol initSymbolTable (typedef_symbol n t))) m of
         Some s \<Rightarrow> if sym_kind s = SYMBOL_TYPEDEF then Some (sym_type s) else None | None \<Rightarrow> None)"
    by (simp add: typedef_scope_def createScope_def addToScope_def split: prod.split option.split)
  also have "\<dots> = (if m = n then Some t else None)"
    by (simp add: lookupSymbol_def insertSymbol_def initSymbolTable_def Let_def nth_list_update hashSymbolName_def
        SYMBOL_TABLE_SIZE_def typedef_symbol_def)
  finally show ?thesis .
qed

text \<open>
  C25. Typedef resolution ends: when every typedef of the scope refers only to typedefs of smaller rank (as
  when each is declared before it is used), \<open>typeInfoFromParsedType\<close> returns on every type, whatever the
  context and target; fuel one more than the rank of the type is enough and more fuel changes nothing.
\<close>
theorem typedef_resolution_terminates:
  assumes "typedefs_ranked rank sc"
  shows "\<exists>info. \<forall>fuel > type_rank rank t. typeInfoFromParsedType fuel host ctx sc t = Some info"
proof -
  let ?n = "type_rank rank t"
  have e: "chain_ends ?n sc t" using ranked_chain_ends [OF assms] by simp
  obtain info where i: "typeInfoFromParsedType (Suc ?n) host ctx sc t = Some info"
    using chain_ends_returns [OF e, of host ctx] by blast
  have "typeInfoFromParsedType fuel host ctx sc t = Some info" if f: "fuel > ?n" for fuel
  proof -
    obtain m where "fuel = Suc m" "?n \<le> m" using f by (cases fuel) auto
    then show ?thesis using chain_ends_fuel [OF e, of m host ctx] i by simp
  qed
  then show ?thesis by blast
qed

lemma one_typedef_ranked: "typedefs_ranked (\<lambda>_. 0) (typedef_scope [(''T'', primitive_type TOKEN_INT)])"
  by (simp add: typedefs_ranked_def find_typedef_scope1 primitive_type_def zero_base_def)

theorem typedef_resolution_terminates_witness:
  "\<forall>host ctx. \<exists>info. \<forall>fuel > 1. typeInfoFromParsedType fuel host ctx (typedef_scope [(''T'', primitive_type TOKEN_INT)]) (named_type ''T'') = Some info"
  using typedef_resolution_terminates [OF one_typedef_ranked, where t = "named_type ''T''"]
  by (simp add: type_rank_def named_type_def)

text \<open>
  Without a rank it need not end: in a block, \<open>typedef T T;\<close> binds the inner \<open>T\<close> to itself, and no
  amount of fuel gives a type to \<open>T\<close>: the C function recurses until the stack is used up.
\<close>

theorem self_typedef_never_resolves:
  "typeInfoFromParsedType fuel host ctx (typedef_scope [(''T'', named_type ''T'')]) (named_type ''T'') = None"
proof (induction fuel)
  case (Suc n)
  have "resolveTypedef (named_type ''T'') (typedef_scope [(''T'', named_type ''T'')]) = Some (named_type ''T'')"
    by (simp add: resolveTypedef_def named_type_def find_typedef_scope1)
  with Suc have "typeInfoFromBaseKind host ctx (typeInfoFromParsedType n host ctx (typedef_scope [(''T'', named_type ''T'')]))
      (typedef_scope [(''T'', named_type ''T'')]) (named_type ''T'') = None"
    by (simp add: typeInfoFromBaseKind_def named_type_def is_builtin_int128_name_def Let_def)
  then show ?case by (simp add: undecorated_def named_type_def zero_base_def)
qed simp

section \<open>Pointers\<close>

lemma pointer_to_parts [simp]:
  "category (pointer_to t q b) = TYPEINFO_POINTER" "pointerDepth (pointer_to t q b) = Suc (pointerDepth b)"
  "qual_of (pointer_to t q b) = q" "pointerLevels (pointer_to t q b) = pointer_levels b"
  by (simp_all add: pointer_to_def qual_of_def makePointerQual_def)

text \<open>What a chain of pointers, outermost first, makes of the type it ends in.\<close>

lemma pointers_levels:
  assumes "typeInfoFromDerivationIndex base t [] = Some b" "pointerDepth b = 0" "length qs \<le> 31"
  shows "\<exists>info. typeInfoFromDerivationIndex base t (map DPointer (q # qs)) = Some info \<and>
    category info = TYPEINFO_POINTER \<and> pointerDepth info = Suc (length qs) \<and> qual_of info = q \<and>
    pointerLevels info = qs @ qual_of b # replicate (31 - length qs) no_qual"
  using assms(3)
proof (induction qs arbitrary: q)
  case Nil
  have "typeInfoFromDerivationIndex base t (map DPointer [q]) = Some (pointer_to t q b)"
    using assms(1) by (simp only: list.map typeInfoFromDerivationIndex.simps(2) option.map)
  then show ?case using assms(2) by (simp add: pointer_levels_def Let_def TYPEINFO_MAX_POINTER_DEPTH_def del: typeInfoFromDerivationIndex.simps)
next
  case (Cons r qs)
  have "length qs \<le> 31" using Cons.prems by simp
  from Cons.IH [OF this, of r] obtain info where i: "typeInfoFromDerivationIndex base t (map DPointer (r # qs)) = Some info"
    "pointerDepth info = Suc (length qs)" "qual_of info = r"
    "pointerLevels info = qs @ qual_of b # replicate (31 - length qs) no_qual" by blast
  have "take (min (Suc (length qs)) 31) (pointerLevels info) = qs @ [qual_of b]" using i(4) Cons.prems by simp
  then have "pointer_levels info = r # qs @ qual_of b # replicate (30 - length qs) no_qual"
    using i Cons.prems by (simp add: pointer_levels_def Let_def TYPEINFO_MAX_POINTER_DEPTH_def min_def)
  moreover have "typeInfoFromDerivationIndex base t (map DPointer (q # r # qs)) = Some (pointer_to t q info)"
    using i(1) by (simp only: list.map typeInfoFromDerivationIndex.simps(2) option.map)
  ultimately show ?case using i(2) by (simp del: typeInfoFromDerivationIndex.simps)
qed

text \<open>
  A pointer type keeps its qualifiers level by level: for a primitive type behind a chain of 1 to 32
  pointer derivations the expression type is a pointer of exactly that depth, qualified as the outermost
  pointer, whose recorded levels are the qualifiers of the inner pointers in order, followed by those of
  the base type; every entry beyond is unqualified.
\<close>
theorem pointer_type_records_levels:
  assumes "pt_kind b = TYPE_PRIMITIVE" and "length qs \<le> 31"
  shows "\<exists>info. typeInfoFromParsedType (Suc n) host ctx sc (PT b (map DPointer (q # qs)) fps) = Some info \<and>
    category info = TYPEINFO_POINTER \<and> pointerDepth info = Suc (length qs) \<and>
    (isConst info, isVolatile info, isRestrict info) = (pq_isConst q, pq_isVolatile q, pq_isRestrict q) \<and>
    pointerLevels info = qs @ makePointerQual (pt_isConst b) (pt_isVolatile b) (pt_isRestrict b) # replicate (31 - length qs) no_qual"
proof -
  let ?t = "PT b (map DPointer (q # qs)) fps"
  let ?base = "typeInfoFromBaseKind host ctx (typeInfoFromParsedType n host ctx sc) sc ?t"
  obtain i where i: "?base = Some i" "category i \<noteq> TYPEINFO_POINTER" "pointerDepth i = 0"
      "\<not> isConst i" "\<not> isVolatile i" "\<not> isRestrict i"
    using assms(1) by (simp add: typeInfoFromBaseKind_def primitive_info_def Let_def makeBoolType_def makeIntegerType_def
        makeFloatTypeInfo_def makeInvalidType_def makeBaseInvalid_def split: FloatKind.split)
  have e: "typeInfoFromDerivationIndex ?base ?t [] = Some ((applyQualifiers i ?t)\<lparr>originalType := Some ?t\<rparr>)"
    using i(1) by simp
  have d: "pointerDepth ((applyQualifiers i ?t)\<lparr>originalType := Some ?t\<rparr>) = 0" using i(3) by (simp add: applyQualifiers_def)
  have b: "qual_of ((applyQualifiers i ?t)\<lparr>originalType := Some ?t\<rparr>) = makePointerQual (pt_isConst b) (pt_isVolatile b) (pt_isRestrict b)"
    using i by (simp add: applyQualifiers_def qual_of_def)
  from pointers_levels [OF e d assms(2), of q] obtain info where f:
      "typeInfoFromDerivationIndex ?base ?t (map DPointer (q # qs)) = Some info"
      "category info = TYPEINFO_POINTER" "pointerDepth info = Suc (length qs)" "qual_of info = q"
      "pointerLevels info = qs @ makePointerQual (pt_isConst b) (pt_isVolatile b) (pt_isRestrict b) # replicate (31 - length qs) no_qual"
    unfolding b by blast
  have "typeInfoFromParsedType (Suc n) host ctx sc ?t = Some (propagateVLAFlag info ?t)"
    using f(1,2) by (simp add: undecorated_def Let_def applyQualifiers_def del: typeInfoFromDerivationIndex.simps)
  moreover have "(isConst info, isVolatile info, isRestrict info) = (pq_isConst q, pq_isVolatile q, pq_isRestrict q)"
    using f(4) by (auto simp: qual_of_def makePointerQual_def)
  moreover have "category (propagateVLAFlag info ?t) = category info" "pointerDepth (propagateVLAFlag info ?t) = pointerDepth info"
    "isConst (propagateVLAFlag info ?t) = isConst info" "isVolatile (propagateVLAFlag info ?t) = isVolatile info"
    "isRestrict (propagateVLAFlag info ?t) = isRestrict info" "pointerLevels (propagateVLAFlag info ?t) = pointerLevels info"
    by (simp_all add: propagateVLAFlag_def)
  ultimately show ?thesis using f(2,3,5) by metis
qed

theorem pointer_type_records_levels_witness:
  "\<forall>host ctx sc. \<exists>info. typeInfoFromParsedType 1 host ctx sc
      (PT (pt_base (primitive_type TOKEN_CHAR)) [DPointer (makePointerQual True False False), DPointer no_qual] []) = Some info \<and>
    pointerDepth info = 2 \<and> isConst info"
proof (intro allI)
  fix host :: HostMacros and ctx :: "CompilerContext option" and sc :: scope
  have "pt_kind (pt_base (primitive_type TOKEN_CHAR)) = TYPE_PRIMITIVE" "length [no_qual] \<le> 31"
    by (simp_all add: primitive_type_def)
  from pointer_type_records_levels [OF this, of 0 host ctx sc "makePointerQual True False False" "[]"]
  show "\<exists>info. typeInfoFromParsedType 1 host ctx sc
      (PT (pt_base (primitive_type TOKEN_CHAR)) [DPointer (makePointerQual True False False), DPointer no_qual] []) = Some info \<and>
    pointerDepth info = 2 \<and> isConst info"
    by (auto simp: makePointerQual_def numeral_2_eq_2)
qed

section \<open>Departures from C\<close>

text \<open>
  With \<open>typedef char *P;\<close> the type \<open>const P\<close> is a constant pointer in C. \<open>applyQualifiers\<close> drops the
  qualifier: neither the pointer nor its target is constant.
\<close>

theorem pointer_typedef_loses_const:
  assumes "find_typedef sc ''P'' = Some (PT (pt_base (primitive_type TOKEN_CHAR)) [DPointer no_qual] [])"
  shows "\<exists>info. typeInfoFromParsedType 2 host ctx sc (on_base (\<lambda>b. b\<lparr>pt_isConst := True\<rparr>) (named_type ''P'')) = Some info \<and>
    category info = TYPEINFO_POINTER \<and> \<not> isConst info \<and> \<not> pq_isConst (pointerLevels info ! 0)"
  using assms
  by (simp add: numeral_2_eq_2 undecorated_def typeInfoFromBaseKind_def resolveTypedef_def named_type_def on_base_def
      zero_base_def is_builtin_int128_name_def primitive_type_def primitive_info_def makeIntegerType_def
      makeBaseInvalid_def pointer_to_def pointer_levels_def qual_of_def makePointerQual_def applyQualifiers_def propagateVLAFlag_def
      parsedTypeHasVLA_def Let_def)

text \<open>\<open>long\<close> has 64 bits on every target, also on those whose layout says 32.\<close>

theorem long_width_ignores_target:
  "\<exists>info. typeInfoFromParsedType 1 host (Some (cc_set_target_layout cc_create (Some layout_llp64_fp64))) sc (primitive_type TOKEN_LONG) = Some info \<and>
    bitWidth info = 64 \<and> Target_Layout.longBits layout_llp64_fp64 = 32"
  by (simp add: undecorated_def typeInfoFromBaseKind_def primitive_type_def zero_base_def primitive_info_def makeIntegerType_def
      makeBaseInvalid_def applyQualifiers_def propagateVLAFlag_def parsedTypeHasVLA_def longBits_def Let_def layout_llp64_fp64_def)

end
