(* ===== verification/Layout_Props.thy ===== *)
theory Layout_Props
  imports Layout Type_Resolution_Props
begin

text \<open>
  The layout of a struct is sound: fields lie one behind the other without overlap, inside the size,
  which is a multiple of the alignment. Bit-fields need storage units of one size: with units of two
  sizes the code makes fields overlap.
\<close>

section \<open>Words without overflow\<close>

lemma unat_add64: "unat (a :: size_t) + unat b < 2 ^ 64 \<Longrightarrow> unat (a + b) = unat a + unat b"
  by (simp add: unat_word_ariths)

lemma unat_mult8: "unat (a :: size_t) \<le> 2 ^ 32 \<Longrightarrow> unat (a * 8) = unat a * 8"
  by (simp add: unat_word_ariths)

lemma round_up_bounds:
  assumes a: "al \<noteq> 0" and o: "unat v + unat al < 2 ^ 64"
  shows "unat v \<le> unat (round_up v al)" "unat (round_up v al) < unat v + unat al" "unat al dvd unat (round_up v al)"
proof -
  have pos: "0 < unat al" using a by (simp add: unat_gt_0)
  have m: "unat (v mod al) = unat v mod unat al" by (rule unat_mod_distrib)
  have lt: "unat v mod unat al < unat al" using pos by simp
  have "unat v \<le> unat (round_up v al) \<and> unat (round_up v al) < unat v + unat al \<and> unat al dvd unat (round_up v al)"
  proof (cases "v mod al = 0")
    case True
    then have "unat v mod unat al = 0" using m by simp
    then show ?thesis using True a pos by (simp add: round_up_def Let_def mod_eq_0_iff_dvd)
  next
    case False
    then have r: "0 < unat v mod unat al" using m by (metis unat_gt_0)
    have "v mod al \<le> al" using m lt by (simp add: word_le_nat_alt)
    then have s: "unat (al - v mod al) = unat al - unat v mod unat al" using m by (simp add: unat_sub)
    have u: "unat (round_up v al) = unat v + (unat al - unat v mod unat al)"
      using False a s o r lt by (simp add: round_up_def Let_def unat_add64)
    have "unat v + (unat al - unat v mod unat al) = unat al * (unat v div unat al) + unat al"
      using lt mult_div_mod_eq [of "unat al" "unat v"] by linarith
    then have "unat al dvd unat (round_up v al)" unfolding u by simp
    then show ?thesis using u r lt by simp
  qed
  then show "unat v \<le> unat (round_up v al)" "unat (round_up v al) < unat v + unat al" "unat al dvd unat (round_up v al)"
    by blast+
qed

section \<open>Where fields lie\<close>

text \<open>The first bit of an entry and how many bits it has (on a little-endian target).\<close>

definition start_bit :: "CCTagFieldLayout \<Rightarrow> nat" where
  "start_bit e = 8 * unat (fl_byteOffset e) + unat (fl_bitOffset e)"

definition bit_size :: "CCTagFieldLayout \<Rightarrow> nat" where
  "bit_size e = (if fl_isBitfield e then unat (fl_widthBits e) else 8 * unat (fl_storageUnitBytes e))"

definition in_order :: "CCTagFieldLayout list \<Rightarrow> bool" where
  "in_order ls \<longleftrightarrow> sorted_wrt (\<lambda>x y. start_bit x + bit_size x \<le> start_bit y) ls"

definition uniform_units :: "size_t \<Rightarrow> CCTagFieldLayout list \<Rightarrow> bool" where
  "uniform_units U ls \<longleftrightarrow> list_all (\<lambda>e. fl_isBitfield e \<and> \<not> fl_isZeroWidth e \<longrightarrow> fl_storageUnitBytes e = U) ls"

definition cursor :: "LayoutState \<Rightarrow> nat" where
  "cursor st = 8 * unat (st_offset st) + unat (st_bitOffset st)"

definition placed :: "size_t \<Rightarrow> LayoutState \<Rightarrow> bool" where
  "placed U st \<longleftrightarrow>
    in_order (st_layouts st) \<and> (\<forall>e \<in> set (st_layouts st). start_bit e + bit_size e \<le> cursor st) \<and>
    (st_bitOffset st \<noteq> 0 \<longrightarrow> st_currentUnitSize st = U \<and> unat (st_bitOffset st) \<le> 8 * unat U)"

text \<open>After \<open>k\<close> declarators of at most \<open>2 ^ 32\<close> bytes nothing has come near \<open>2 ^ 64\<close>.\<close>

definition within :: "nat \<Rightarrow> LayoutState \<Rightarrow> bool" where
  "within k st \<longleftrightarrow>
    unat (st_offset st) \<le> k * 2 ^ 36 \<and> unat (st_currentUnitSize st) \<le> 2 ^ 33 \<and> unat (st_bitOffset st) \<le> 2 ^ 35 \<and>
    st_maxAlign st \<noteq> 0 \<and> unat (st_maxAlign st) \<le> 2 ^ 32"

definition layout_inv :: "size_t \<Rightarrow> nat \<Rightarrow> LayoutState \<Rightarrow> bool" where
  "layout_inv U k st \<longleftrightarrow> within k st \<and> (uniform_units U (st_layouts st) \<longrightarrow> placed U st)"

lemma layout_inv_mono: "layout_inv U k st \<Longrightarrow> k \<le> k' \<Longrightarrow> layout_inv U k' st"
  by (auto simp: layout_inv_def within_def intro: order.trans)

lemma no_remaining_declarators [simp]: "more_declarators f = [] \<Longrightarrow> remaining_declarators f st = []"
  by (simp add: remaining_declarators_def split: list.split)

lemma in_order_snoc:
  "in_order ls \<Longrightarrow> (\<And>x. x \<in> set ls \<Longrightarrow> start_bit x + bit_size x \<le> start_bit e) \<Longrightarrow> in_order (ls @ [e])"
  by (simp add: in_order_def sorted_wrt_append)

lemma uniform_snoc [simp]:
  "uniform_units U (ls @ [e]) \<longleftrightarrow>
    uniform_units U ls \<and> (fl_isBitfield e \<and> \<not> fl_isZeroWidth e \<longrightarrow> fl_storageUnitBytes e = U)"
  by (simp add: uniform_units_def)

text \<open>Adding an entry at or behind the cursor.\<close>

lemma placed_snoc:
  assumes p: "placed U st" and l: "st_layouts st' = st_layouts st @ [e]"
    and s: "cursor st \<le> start_bit e" and c: "start_bit e + bit_size e \<le> cursor st'"
    and b: "st_bitOffset st' \<noteq> 0 \<Longrightarrow> st_currentUnitSize st' = U \<and> unat (st_bitOffset st') \<le> 8 * unat U"
  shows "placed U st'"
proof -
  have e: "start_bit x + bit_size x \<le> start_bit e" if "x \<in> set (st_layouts st)" for x
    using p s that by (force simp: placed_def)
  then have "in_order (st_layouts st')" unfolding l using p by (intro in_order_snoc) (auto simp: placed_def)
  moreover have "start_bit x + bit_size x \<le> cursor st'" if "x \<in> set (st_layouts st')" for x
    using that e c unfolding l by force
  ultimately show ?thesis using b by (simp add: placed_def)
qed

lemma placed_move:
  assumes "placed U st" and "st_layouts st' = st_layouts st" and "cursor st \<le> cursor st'"
    and "st_bitOffset st' \<noteq> 0 \<Longrightarrow> st_currentUnitSize st' = U \<and> unat (st_bitOffset st') \<le> 8 * unat U"
  shows "placed U st'"
  using assms by (force simp: placed_def)

section \<open>One field\<close>

lemma raise_align_bounds:
  "m \<noteq> 0 \<Longrightarrow> unat m \<le> N \<Longrightarrow> unat al \<le> N \<Longrightarrow> raise_align al m \<noteq> 0 \<and> unat (raise_align al m) \<le> N"
  by (auto simp: raise_align_def)

lemma flush_inv:
  assumes "within k st" "k \<le> 2 ^ 24"
  shows "unat (st_offset (flush_bits st)) \<le> k * 2 ^ 36 + 2 ^ 33" "st_bitOffset (flush_bits st) = 0"
    "st_maxAlign (flush_bits st) = st_maxAlign st" "st_layouts (flush_bits st) = st_layouts st"
    "placed U st \<Longrightarrow> placed U (flush_bits st)"
    "unat (st_currentUnitSize (flush_bits st)) \<le> 2 ^ 33"
proof -
  have u: "unat (st_offset st + st_currentUnitSize st) = unat (st_offset st) + unat (st_currentUnitSize st)"
    by (rule unat_add64) (use assms in \<open>simp add: within_def\<close>)
  show "unat (st_offset (flush_bits st)) \<le> k * 2 ^ 36 + 2 ^ 33" "st_bitOffset (flush_bits st) = 0"
    "st_maxAlign (flush_bits st) = st_maxAlign st" "st_layouts (flush_bits st) = st_layouts st"
    "unat (st_currentUnitSize (flush_bits st)) \<le> 2 ^ 33"
    using assms u by (auto simp: flush_bits_def within_def word_gt_0)
  show "placed U (flush_bits st)" if p: "placed U st"
  proof (rule placed_move [OF p])
    show "cursor st \<le> cursor (flush_bits st)"
      using p u by (auto simp: flush_bits_def cursor_def placed_def word_gt_0)
  qed (auto simp: flush_bits_def word_gt_0)
qed

lemma place_field_inv:
  assumes i: "layout_inv U k st" and k: "k < 2 ^ 24" and s: "unat sz \<le> 2 ^ 32" and a: "al \<noteq> 0" "unat al \<le> 2 ^ 32"
  shows "layout_inv U (Suc k) (place_field name sg sz al st)"
    and "unat al dvd unat (fl_byteOffset (last (st_layouts (place_field name sg sz al st))))"
proof -
  let ?f = "flush_bits st" let ?st = "place_field name sg sz al st"
  have w: "within k st" using i by (simp add: layout_inv_def)
  note f = flush_inv [OF w less_imp_le [OF k]]
  have "unat (st_offset ?f) + unat al < 2 ^ 64" using f(1) k a(2) by simp
  note r = round_up_bounds [OF a(1) this]
  have u: "unat (round_up (st_offset ?f) al + sz) = unat (round_up (st_offset ?f) al) + unat sz"
    by (rule unat_add64) (use r(2) f(1) a(2) s k in simp)
  have o: "st_offset ?st = round_up (st_offset ?f) al + sz" "st_bitOffset ?st = 0" "st_currentUnitSize ?st = st_currentUnitSize ?f"
    "st_maxAlign ?st = raise_align al (st_maxAlign st)"
    using f by (simp_all add: place_field_def Let_def)
  obtain e where e: "st_layouts ?st = st_layouts ?f @ [e]" "fl_byteOffset e = round_up (st_offset ?f) al" "fl_bitOffset e = 0"
    "\<not> fl_isBitfield e" "fl_storageUnitBytes e = sz"
    using f(4) by (simp add: place_field_def Let_def)
  show "unat al dvd unat (fl_byteOffset (last (st_layouts ?st)))" using e r(3) by simp
  have "within (Suc k) ?st"
    using f(1,6) r(2) u o a s w raise_align_bounds [of "st_maxAlign st" "2 ^ 32" al] by (simp add: within_def)
  moreover have "placed U ?st" if n: "uniform_units U (st_layouts ?st)"
  proof -
    have p: "placed U ?f" using n i f(4,5) by (simp add: layout_inv_def e)
    show ?thesis
      by (rule placed_snoc [OF p e(1)]) (use e o u r(1) f(2) in \<open>simp_all add: cursor_def start_bit_def bit_size_def\<close>)
  qed
  ultimately show "layout_inv U (Suc k) ?st" by (simp add: layout_inv_def)
qed

section \<open>One bit-field\<close>

lemma unit_bytes_bounds:
  assumes "unat bits \<le> 2 ^ 35"
  shows "unat bits \<le> 8 * unat (unit_bytes bits)" "unat (unit_bytes bits) \<le> 2 ^ 33" "unit_bytes bits \<noteq> 0"
proof -
  have "unat (bits + 7) = unat bits + 7" using unat_add64 [of bits 7] assms by simp
  then have d: "unat ((bits + 7) div 8) = (unat bits + 7) div 8" by (simp add: unat_div_distrib)
  have z: "(bits + 7) div 8 = 0 \<longleftrightarrow> (unat bits + 7) div 8 = 0" using d by (metis unat_eq_zero)
  show "unat bits \<le> 8 * unat (unit_bytes bits)" "unat (unit_bytes bits) \<le> 2 ^ 33" "unit_bytes bits \<noteq> 0"
    using assms d z by (auto simp: unit_bytes_def Let_def)
qed

lemma place_bits_inv:
  assumes w: "unat (st_offset st) \<le> k * 2 ^ 36 + 2 ^ 33" "unat (st_currentUnitSize st) \<le> 2 ^ 33" "unat (st_bitOffset st) \<le> 2 ^ 35"
      "st_maxAlign st \<noteq> 0" "unat (st_maxAlign st) \<le> 2 ^ 32"
    and p: "uniform_units U (st_layouts st) \<Longrightarrow> placed U st"
    and k: "k < 2 ^ 24" and b: "unat bits \<le> 2 ^ 35" and v: "width \<le> bits"
    and l: "\<forall>l. lay = Some l \<longrightarrow> endianness l = TL_ENDIAN_LITTLE"
  shows "layout_inv U (Suc k) (place_bits lay name sg bits width st)"
proof -
  define B where "B = unit_bytes bits"
  note ub = unit_bytes_bounds [OF b, folded B_def]
  define st1 where "st1 = (if st_bitOffset st = 0 then st\<lparr>st_currentUnitSize := B\<rparr> else st)"
  define over where "over \<longleftrightarrow> st_bitOffset st1 + width > bits"
  define st2 where "st2 = (if over
    then st1\<lparr>st_offset := st_offset st1 + st_currentUnitSize st1, st_bitOffset := 0, st_currentUnitSize := B\<rparr> else st1)"
  define e where "e = bit_layout name sg (st_offset st2) (st_bitOffset st2) width B False"
  define st3 where "st3 = st2\<lparr>st_bitOffset := st_bitOffset st2 + width, st_layouts := st_layouts st2 @ [e]\<rparr>"
  define st4 where "st4 = (if st_bitOffset st3 = bits
    then st3\<lparr>st_offset := st_offset st3 + st_currentUnitSize st3, st_bitOffset := 0, st_currentUnitSize := 0\<rparr> else st3)"
  have eq: "place_bits lay name sg bits width st = st4"
  proof (cases lay)
    case None
    then show ?thesis
      unfolding place_bits_def Let_def st4_def st3_def e_def st2_def over_def st1_def B_def by simp
  next
    case (Some l')
    with l have "endianness l' \<noteq> TL_ENDIAN_BIG" by simp
    with Some show ?thesis
      unfolding place_bits_def Let_def st4_def st3_def e_def st2_def over_def st1_def B_def by simp
  qed
  have wb: "unat width \<le> unat bits" using v by (simp add: word_le_nat_alt)
  have c1: "unat (st_currentUnitSize st1) \<le> 2 ^ 33" "st_offset st1 = st_offset st" "st_bitOffset st1 = st_bitOffset st"
    "st_maxAlign st1 = st_maxAlign st" "st_layouts st1 = st_layouts st" using w ub by (auto simp: st1_def)
  have a1: "unat (st_offset st1 + st_currentUnitSize st1) = unat (st_offset st1) + unat (st_currentUnitSize st1)"
    by (rule unat_add64) (use c1 w k in simp)
  have s1: "unat (st_bitOffset st1 + width) = unat (st_bitOffset st1) + unat width"
    by (rule unat_add64) (use c1 w wb b in simp)
  have o2: "unat (st_offset st2) \<le> k * 2 ^ 36 + 2 ^ 34" "unat (st_currentUnitSize st2) \<le> 2 ^ 33" "unat (st_bitOffset st2) + unat width \<le> unat bits"
    "st_maxAlign st2 = st_maxAlign st" "st_layouts st2 = st_layouts st"
    using c1 a1 s1 w ub wb unfolding st2_def over_def by (auto simp: word_less_nat_alt not_less)
  have s2: "unat (st_bitOffset st2 + width) = unat (st_bitOffset st2) + unat width"
    by (rule unat_add64) (use o2 b in simp)
  have o3: "st_offset st3 = st_offset st2" "st_currentUnitSize st3 = st_currentUnitSize st2" "st_maxAlign st3 = st_maxAlign st"
    "unat (st_bitOffset st3) = unat (st_bitOffset st2) + unat width" "st_layouts st3 = st_layouts st @ [e]"
    using s2 o2 by (simp_all add: st3_def)
  have a3: "unat (st_offset st3 + st_currentUnitSize st3) = unat (st_offset st3) + unat (st_currentUnitSize st3)"
    by (rule unat_add64) (use o2 o3 k in simp)
  have "within (Suc k) st4"
    unfolding within_def st4_def using o2 o3 a3 b w by auto
  moreover have "placed U st4" if n: "uniform_units U (st_layouts st4)"
  proof -
    have l4: "st_layouts st4 = st_layouts st @ [e]" using o3 by (simp add: st4_def)
    have bu: "B = U" using n unfolding l4 by (simp add: e_def bit_layout_def)
    have p0: "placed U st" using n p unfolding l4 by simp
    have cu: "st_currentUnitSize st1 = U" using p0 bu by (auto simp: st1_def placed_def)
    have ge: "cursor st \<le> cursor st2"
      using p0 a1 cu c1 unfolding st2_def by (auto simp: cursor_def placed_def)
    have cu2: "st_currentUnitSize st2 = U" using cu bu by (simp add: st2_def)
    show ?thesis
    proof (rule placed_snoc [OF p0 l4])
      show "cursor st \<le> start_bit e" using ge by (simp add: e_def bit_layout_def start_bit_def cursor_def)
      show "start_bit e + bit_size e \<le> cursor st4"
        using a3 o2 o3 ub(1) bu cu2 unfolding st4_def
        by (auto simp: e_def bit_layout_def start_bit_def bit_size_def cursor_def)
      show "st_currentUnitSize st4 = U \<and> unat (st_bitOffset st4) \<le> 8 * unat U" if "st_bitOffset st4 \<noteq> 0"
        using that o2 o3 ub(1) bu cu2 unfolding st4_def by (auto split: if_splits)
    qed
  qed
  ultimately show ?thesis unfolding eq layout_inv_def by simp
qed

lemma place_zero_width_inv:
  assumes w: "unat (st_offset st) \<le> k * 2 ^ 36 + 2 ^ 33" "unat (st_currentUnitSize st) \<le> 2 ^ 33" "unat (st_bitOffset st) \<le> 2 ^ 35"
      "st_maxAlign st \<noteq> 0" "unat (st_maxAlign st) \<le> 2 ^ 32"
    and p: "uniform_units U (st_layouts st) \<Longrightarrow> placed U st"
    and k: "k < 2 ^ 24" and a: "al \<noteq> 0" "unat al \<le> 2 ^ 32"
  shows "layout_inv U (Suc k) (place_zero_width name sg bytes al st)"
proof -
  let ?o = "if st_bitOffset st > 0 then st_offset st + st_currentUnitSize st else st_offset st"
  let ?st = "place_zero_width name sg bytes al st"
  have u: "unat (st_offset st + st_currentUnitSize st) = unat (st_offset st) + unat (st_currentUnitSize st)"
    by (rule unat_add64) (use w k in simp)
  have o: "unat ?o \<le> k * 2 ^ 36 + 2 ^ 34" using u w by simp
  have "unat ?o + unat al < 2 ^ 64" using o a k by simp
  note r = round_up_bounds [OF a(1) this]
  have s: "st_offset ?st = round_up ?o al" "st_bitOffset ?st = 0" "st_currentUnitSize ?st = 0" "st_maxAlign ?st = st_maxAlign st"
    "st_layouts ?st = st_layouts st @ [bit_layout name sg (round_up ?o al) 0 0 bytes True]"
    by (simp_all add: place_zero_width_def Let_def)
  have "within (Suc k) ?st" unfolding within_def s using o r(2) a w by simp
  moreover have "placed U ?st" if n: "uniform_units U (st_layouts ?st)"
  proof -
    have p0: "placed U st" using n p unfolding s by simp
    have c: "cursor st \<le> 8 * unat ?o" using p0 u by (auto simp: cursor_def placed_def word_gt_0)
    show ?thesis
    proof (rule placed_snoc [OF p0 s(5)])
      have "8 * unat ?o \<le> 8 * unat (round_up ?o al)" using r(1) by simp
      with c show "cursor st \<le> start_bit (bit_layout name sg (round_up ?o al) 0 0 bytes True)"
        unfolding start_bit_def bit_layout_def by simp
      show "start_bit (bit_layout name sg (round_up ?o al) 0 0 bytes True) +
          bit_size (bit_layout name sg (round_up ?o al) 0 0 bytes True) \<le> cursor ?st"
        unfolding cursor_def s start_bit_def bit_size_def bit_layout_def by simp
    qed (simp add: s)
  qed
  ultimately show ?thesis by (simp add: layout_inv_def)
qed

definition target_modest :: "TargetLayout option \<Rightarrow> bool" where
  "target_modest lay \<longleftrightarrow>
    (case lay of None \<Rightarrow> True
     | Some l \<Rightarrow> unat (bitfieldUnitBits l) \<le> 2 ^ 32 \<and> unat (bitfieldUnitAlign l) \<le> 2 ^ 32 \<and> endianness l = TL_ENDIAN_LITTLE)"

lemma bitfield_unit_bounds:
  assumes "target_modest lay" "unat sz \<le> 2 ^ 32" "unat al \<le> 2 ^ 32" "unat ov \<le> 2 ^ 32"
  shows "unat (fst (bitfield_unit lay packed ov sz al)) \<le> 2 ^ 35" "snd (bitfield_unit lay packed ov sz al) \<noteq> 0"
    "unat (snd (bitfield_unit lay packed ov sz al)) \<le> 2 ^ 32"
  using assms unat_mult8 [OF assms(2)]
  by (auto simp: bitfield_unit_def target_modest_def Let_def split: option.splits)

lemma place_bitfield_inv:
  assumes i: "layout_inv U k st" and k: "k < 2 ^ 24" and t: "target_modest lay"
    and s: "unat sz \<le> 2 ^ 32" "unat al \<le> 2 ^ 32" "unat ov \<le> 2 ^ 32"
    and r: "place_bitfield lay packed ov name sg widthVal sz al st = Some st'"
  shows "layout_inv U (Suc k) st'"
proof -
  obtain bits ua where u: "bitfield_unit lay packed ov sz al = (bits, ua)" by (cases "bitfield_unit lay packed ov sz al")
  note ub = bitfield_unit_bounds [OF t s, where packed = packed, unfolded u fst_conv snd_conv]
  let ?st = "st\<lparr>st_maxAlign := raise_align ua (st_maxAlign st), st_offset := round_up (st_offset st) ua\<rparr>"
  have w: "within k st" using i by (simp add: layout_inv_def)
  have "unat (st_offset st) + unat ua < 2 ^ 64" using w ub(3) k by (simp add: within_def)
  note ru = round_up_bounds [OF ub(2) this]
  have w': "unat (st_offset ?st) \<le> k * 2 ^ 36 + 2 ^ 33" "unat (st_currentUnitSize ?st) \<le> 2 ^ 33" "unat (st_bitOffset ?st) \<le> 2 ^ 35"
      "st_maxAlign ?st \<noteq> 0" "unat (st_maxAlign ?st) \<le> 2 ^ 32"
    using w ru(2) ub(3) raise_align_bounds [of "st_maxAlign st" "2 ^ 32" ua] by (simp_all add: within_def)
  have p': "placed U ?st" if "uniform_units U (st_layouts ?st)"
  proof (rule placed_move [of U st])
    show "placed U st" using that i by (simp add: layout_inv_def)
    then show "st_currentUnitSize ?st = U \<and> unat (st_bitOffset ?st) \<le> 8 * unat U" if "st_bitOffset ?st \<noteq> 0"
      using that by (simp add: placed_def)
    show "cursor st \<le> cursor ?st" using ru(1) by (simp add: cursor_def)
  qed simp
  have l: "\<forall>l. lay = Some l \<longrightarrow> endianness l = TL_ENDIAN_LITTLE" using t by (simp add: target_modest_def split: option.splits)
  show ?thesis
  proof (cases "widthVal = 0")
    case True
    then have "st' = place_zero_width name sg (unit_bytes bits) ua ?st"
      using r u by (simp add: place_bitfield_def Let_def split: if_splits)
    then show ?thesis using place_zero_width_inv [OF w' p' k ub(2,3)] by simp
  next
    case False
    then have "st' = place_bits lay name sg bits (word_of_int widthVal) ?st" "word_of_int widthVal \<le> bits"
      using r u by (simp_all add: place_bitfield_def Let_def not_less split: if_splits)
    then show ?thesis using place_bits_inv [OF w' p' k ub(1) _ l] by simp
  qed
qed

section \<open>What layout keeps of the context\<close>

text \<open>The target stays and no tag disappears.\<close>

definition ctx_le :: "CompilerContext option \<Rightarrow> CompilerContext option \<Rightarrow> bool" where
  "ctx_le c d \<longleftrightarrow>
    cc_get_target_layout d = cc_get_target_layout c \<and>
    (case c of None \<Rightarrow> d = None
     | Some c' \<Rightarrow> (\<exists>d'. d = Some d' \<and> (\<forall>k n. cc_has_tag c' k (Some n) \<longrightarrow> cc_has_tag d' k (Some n))))"

lemma ctx_le_refl [simp]: "ctx_le c c"
  by (simp add: ctx_le_def split: option.split)

lemma ctx_le_trans: "ctx_le c d \<Longrightarrow> ctx_le d e \<Longrightarrow> ctx_le c e"
  by (auto simp: ctx_le_def split: option.splits)

definition kept :: "CompilerContext option \<Rightarrow> 'a lay \<Rightarrow> bool" where
  "kept ctx m \<longleftrightarrow> (\<forall>r c. m = Returns r c \<longrightarrow> ctx_le ctx c)"

lemma kept_simps [simp]: "kept ctx NoReturn" "kept ctx (Returns r c) \<longleftrightarrow> ctx_le ctx c"
  by (simp_all add: kept_def)

lemma kept_lbind: "kept ctx m \<Longrightarrow> (\<And>a c. kept c (f a c)) \<Longrightarrow> kept ctx (lbind m f)"
  by (auto simp: kept_def lbind_def split: lay.splits option.splits) (blast intro: ctx_le_trans)

definition keeps :: "record_layout \<Rightarrow> bool" where
  "keeps lsu \<longleftrightarrow> (\<forall>ctx k n. kept ctx (lsu ctx k n))"

lemma with_tag_table_target [simp]: "targetLayout (with_tag_table c k t) = targetLayout c"
  by (cases k) simp_all

lemma on_tag_le:
  assumes "\<And>r. tr_name (f r) = tr_name r"
  shows "ctx_le (Some c) (Some (fst (on_tag c k n f)))"
proof (cases n)
  case (Some m)
  have "targetLayout (fst (on_tag c k n f)) = targetLayout c" by (simp add: on_tag_def split: option.split)
  then show ?thesis using assms Some by (auto simp: ctx_le_def cc_get_target_layout_def cc_has_tag_def tag_record_on_tag)
qed (simp add: on_tag_def)

lemma define_tag_le: "ctx_le (Some c) (Some (fst (cc_define_tag c k n fp def)))"
proof (cases n)
  case None
  then show ?thesis
    by (cases k) (simp_all add: cc_define_tag_def cc_add_tag_def cc_tag_table_add_def ctx_le_def cc_get_target_layout_def
        cc_has_tag_def tag_record_def)
next
  case (Some m)
  have "targetLayout (fst (cc_add_tag c k n)) = targetLayout c" by (simp add: cc_add_tag_def split: prod.split)
  then have a: "ctx_le (Some c) (Some (fst (cc_add_tag c k n)))"
    using Some by (auto simp: ctx_le_def cc_get_target_layout_def cc_has_tag_def tag_record_add)
  obtain c1 where c1: "cc_add_tag c k n = (c1, True)" using tag_record_add(2) [of c k m] Some by (cases "cc_add_tag c k n") simp
  have "ctx_le (Some c1) (Some (fst (cc_define_tag c k n fp def)))"
    unfolding cc_define_tag_def c1 by (auto simp: define_record_def intro!: on_tag_le split: option.split)
  then show ?thesis using a c1 by (auto intro: ctx_le_trans)
qed

lemma define_inline_le: "ctx_le ctx (define_inline env ctx k info)"
  by (cases ctx) (auto simp: define_inline_def define_tag_le split: option.split)

lemma typeInfo_kept [simp]: "kept ctx (layout_typeInfo env ctx t)"
  by (simp add: layout_typeInfo_def split: option.split)

lemma size_typeinfo_kept: "keeps lsu \<Longrightarrow> kept ctx (size_align_of_typeinfo lsu env ctx info)"
  using define_inline_le [of ctx env] unfolding keeps_def size_align_of_typeinfo_def Let_def
  by (auto simp: kept_def split: TypeInfoCategory.split prod.split) (blast intro: ctx_le_trans)+

lemma size_align_kept: "keeps lsu \<Longrightarrow> kept ctx (size_align_of_parsed_type lsu env ctx t)"
proof (induction lsu env ctx t rule: size_align_of_parsed_type.induct)
  case (1 lsu env ctx t)
  have arr: "kept ctx (size_align_of_parsed_type lsu env ctx (parsedTypeArrayElementType t))"
    if "parsedTypeIsDirectArray t" "parsedTypeGetArrayDerivation t 0 = Some a" "\<not> (ai_isFlexible a \<or> ai_isVLA a)"
      "array_length env ctx a = Some len" "\<not> len < 0" for a len
  proof -
    obtain p v where ta: "(p, v) = type_attributes t" by (cases "type_attributes t") auto
    show ?thesis by (rule 1(1) [OF ta]) (use that 1(2) in auto)
  qed
  have info: "kept ctx (lbind (layout_typeInfo env ctx t) (\<lambda>info c. size_align_of_typeinfo lsu env c info))"
    by (rule kept_lbind) (simp_all add: size_typeinfo_kept [OF 1(2)])
  show ?case
    by (subst size_align_of_parsed_type.simps)
      (auto split: prod.split option.split intro!: kept_lbind arr info)
qed

lemma layout_first_kept: "keeps lsu \<Longrightarrow> kept ctx (layout_first lsu env lay packed ov f st ctx)"
  unfolding layout_first_def Let_def
  by (rule kept_lbind) (auto split: option.split prod.split intro!: kept_lbind size_align_kept)

lemma layout_more_kept: "keeps lsu \<Longrightarrow> kept ctx (layout_more lsu env packed ov ds st ctx)"
  by (induction lsu env packed ov ds st ctx rule: layout_more.induct)
    (auto split: prod.split intro!: kept_lbind size_align_kept)

lemma layout_fields_kept: "keeps lsu \<Longrightarrow> kept ctx (layout_fields lsu env lay packed fs st ctx)"
  by (induction lsu env lay packed fs st ctx rule: layout_fields.induct)
    (auto split: prod.split intro!: kept_lbind layout_first_kept layout_more_kept)

lemma struct_fields_kept: "keeps lsu \<Longrightarrow> kept ctx (layout_struct_fields lsu env def ctx)"
  unfolding layout_struct_fields_def by (auto split: prod.split intro!: kept_lbind layout_fields_kept)

lemma union_members_kept: "keeps lsu \<Longrightarrow> kept ctx (union_members lsu env packed ov bf ds st ctx)"
  by (induction lsu env packed ov bf ds st ctx rule: union_members.induct)
    (auto simp: Let_def split: prod.split intro!: kept_lbind size_align_kept)

lemma union_fields_kept: "keeps lsu \<Longrightarrow> kept ctx (union_fields lsu env packed fs st ctx)"
  by (induction lsu env packed fs st ctx rule: union_fields.induct)
    (auto simp del: union_members.simps split: prod.split intro!: kept_lbind union_members_kept)

lemma layout_union_kept: "keeps lsu \<Longrightarrow> kept ctx (layout_union_fields lsu env def ctx)"
  unfolding layout_union_fields_def by (auto simp: Let_def split: prod.split intro!: kept_lbind union_fields_kept)

lemma mark_le: "ctx_le (Some c) (Some (fst (cc_tag_mark_computing c k n b)))"
  unfolding cc_tag_mark_computing_def by (rule on_tag_le) simp

lemma store_layout_kept:
  assumes "kept ctx res" shows "kept ctx (store_layout k n res)"
proof -
  have s: "ctx_le (Some c) (Some (fst (cc_tag_mark_computing (fst (cc_set_tag_field_layouts (fst (cc_set_tag_layout c k n sz al)) k n ls)) k n False)))"
    for c sz al ls
  proof -
    have "ctx_le (Some c) (Some (fst (cc_set_tag_layout c k n sz al)))"
      unfolding cc_set_tag_layout_def by (rule on_tag_le) simp
    moreover have "ctx_le (Some d) (Some (fst (cc_set_tag_field_layouts d k n ls)))" for d
      unfolding cc_set_tag_field_layouts_def by (rule on_tag_le) simp
    ultimately show ?thesis using mark_le by (blast intro: ctx_le_trans)
  qed
  show ?thesis
  proof (cases res)
    case (Returns r c)
    then have "ctx_le ctx c" using assms by simp
    then show ?thesis
      using Returns mark_le s
      by (cases c) (auto simp: store_layout_def Let_def split: option.split prod.split intro: ctx_le_trans)
  qed (simp add: store_layout_def)
qed

lemma layout_struct_union_keeps: "keeps (layout_struct_union n env)"
proof (induction n)
  case 0
  then show ?case by (simp add: keeps_def)
next
  case (Suc n)
  have "kept ctx (layout_struct_union (Suc n) env ctx k name)" for ctx k name
  proof (cases ctx; cases name)
    fix c m assume c: "ctx = Some c" and m: "name = Some m"
    let ?c = "fst (cc_tag_mark_computing c k name True)"
    have le: "ctx_le ctx (Some ?c)" unfolding c by (rule mark_le)
    have s: "kept ctx (store_layout k name (layout_struct_fields (layout_struct_union n env) env d (Some ?c)))"
      "kept ctx (store_layout k name (layout_union_fields (layout_struct_union n env) env d (Some ?c)))" for d
      using store_layout_kept [OF struct_fields_kept [OF Suc, of "Some ?c" env d], of k name]
        store_layout_kept [OF layout_union_kept [OF Suc, of "Some ?c" env d], of k name] le
      unfolding kept_def by (blast intro: ctx_le_trans)+
    have "ctx_le ctx (Some (fst (cc_tag_mark_computing ?c k name False)))" using le mark_le by (blast intro: ctx_le_trans)
    then show ?thesis
      using s c m by (cases "k = CC_TAG_STRUCT") (simp_all add: Let_def split: option.split)
  qed simp_all
  then show ?case unfolding keeps_def by blast
qed

section \<open>A whole struct\<close>

text \<open>
  The assumptions under which nothing overflows: at most \<open>2 ^ 24\<close> declarators, and no size, alignment or
  requested alignment above \<open>2 ^ 32\<close>.
\<close>

definition size_modest :: "record_layout \<Rightarrow> LayoutEnv \<Rightarrow> TargetLayout option \<Rightarrow> ParsedType \<Rightarrow> bool" where
  "size_modest lsu env T t \<longleftrightarrow>
    (\<forall>ctx sz al c. cc_get_target_layout ctx = T \<and> size_align_of_parsed_type lsu env ctx t = Returns (Some (sz, al)) c \<longrightarrow>
       unat sz \<le> 2 ^ 32 \<and> unat al \<le> 2 ^ 32)"

lemma size_modestD:
  "size_modest lsu env T t \<Longrightarrow> cc_get_target_layout ctx = T \<Longrightarrow>
    size_align_of_parsed_type lsu env ctx t = Returns (Some (sz, al)) c \<Longrightarrow> unat sz \<le> 2 ^ 32 \<and> unat al \<le> 2 ^ 32"
  unfolding size_modest_def by blast

lemma kept_target: "kept ctx m \<Longrightarrow> m = Returns r c \<Longrightarrow> cc_get_target_layout c = cc_get_target_layout ctx"
  by (simp add: ctx_le_def)

definition attrs_modest :: "cstr list \<Rightarrow> bool" where
  "attrs_modest as \<longleftrightarrow> (\<forall>p. unat (snd (collectAttrLayout as (p, 0))) \<le> 2 ^ 32)"

definition field_modest :: "record_layout \<Rightarrow> LayoutEnv \<Rightarrow> TargetLayout option \<Rightarrow> FieldDecl \<Rightarrow> bool" where
  "field_modest lsu env T f \<longleftrightarrow>
    attrs_modest (fd_attributes f) \<and>
    size_modest lsu env T (if isFlexibleArrayType (base_type f) \<and> fd_bitFieldWidth f = None then parsedTypeArrayElementType (base_type f) else base_type f) \<and>
    (\<forall>d \<in> set (more_declarators f). size_modest lsu env T (snd d))"

definition declarator_count :: "FieldDecl option list \<Rightarrow> nat" where
  "declarator_count fs = sum_list (map (\<lambda>f. case f of None \<Rightarrow> 0 | Some f \<Rightarrow> Suc (length (more_declarators f))) fs)"

lemma lbind_SomeE:
  assumes "lbind m f = Returns (Some b) c"
  obtains a c' where "m = Returns (Some a) c'" "f a c' = Returns (Some b) c"
  using assms by (auto simp: lbind_def split: lay.splits option.splits)

lemma field_align_bounds:
  "unat al \<le> N \<Longrightarrow> unat ov \<le> N \<Longrightarrow> 1 \<le> N \<Longrightarrow> field_align packed ov al \<noteq> 0 \<and> unat (field_align packed ov al) \<le> N"
  by (auto simp: field_align_def Let_def)

text \<open>
  What the layout of fields relies on: the layout of nested records, which must keep the target and the
  tags of the context.
\<close>

locale record_layouts =
  fixes lsu :: record_layout
  assumes keeps_lsu: "keeps lsu"
begin

lemma layout_first_inv:
  assumes i: "layout_inv U k st" and k: "k < 2 ^ 24" and t: "target_modest lay" and m: "field_modest lsu env T f"
    and T: "cc_get_target_layout ctx = T"
    and ov: "unat ov \<le> 2 ^ 32" and r: "layout_first lsu env lay packed ov f st ctx = Returns (Some st') c"
  shows "layout_inv U (Suc k) st'"
proof -
  from r obtain info c1 where i1: "layout_typeInfo env ctx (base_type f) = Returns (Some info) c1"
    and r1: "(case fd_bitFieldWidth f of
        Some w \<Rightarrow>
          (case le_constEval env c1 w of
             None \<Rightarrow> Returns None c1
           | Some widthVal \<Rightarrow>
               lbind (size_align_of_parsed_type lsu env c1 (base_type f)) (\<lambda>(sz, al) c.
                 Returns (place_bitfield lay packed ov (var_name f 0) (isSigned info) widthVal sz al st) c))
      | None \<Rightarrow>
          let flexible = isFlexibleArrayType (base_type f) in
          lbind (size_align_of_parsed_type lsu env c1
                   (if flexible then parsedTypeArrayElementType (base_type f) else base_type f)) (\<lambda>(sz, al) c.
            Returns (Some (place_field (var_name f 0) (isSigned info) (if flexible then 0 else sz) (field_align packed ov al) st)) c)) =
      Returns (Some st') c"
    unfolding layout_first_def by (rule lbind_SomeE)
  have T1: "cc_get_target_layout c1 = T" using kept_target [OF typeInfo_kept i1] T by simp
  show ?thesis
  proof (cases "fd_bitFieldWidth f")
    case None
    with r1 obtain sz al c2 where s: "size_align_of_parsed_type lsu env c1
          (if isFlexibleArrayType (base_type f) then parsedTypeArrayElementType (base_type f) else base_type f) = Returns (Some (sz, al)) c2"
      and st': "st' = place_field (var_name f 0) (isSigned info) (if isFlexibleArrayType (base_type f) then 0 else sz) (field_align packed ov al) st"
      by (auto simp: Let_def elim!: lbind_SomeE)
    have "size_modest lsu env T (if isFlexibleArrayType (base_type f) then parsedTypeArrayElementType (base_type f) else base_type f)"
      using m None by (simp add: field_modest_def)
    then have b: "unat sz \<le> 2 ^ 32" "unat al \<le> 2 ^ 32" using size_modestD [OF _ T1 s] by blast+
    have fa: "field_align packed ov al \<noteq> 0" "unat (field_align packed ov al) \<le> 2 ^ 32"
      using field_align_bounds [OF b(2) ov] by simp_all
    have "unat (if isFlexibleArrayType (base_type f) then 0 else sz) \<le> 2 ^ 32" using b(1) by simp
    then show ?thesis unfolding st' by (rule place_field_inv(1) [OF i k _ fa])
  next
    case (Some w)
    with r1 obtain sz al c2 v where s: "size_align_of_parsed_type lsu env c1 (base_type f) = Returns (Some (sz, al)) c2"
      and p: "place_bitfield lay packed ov (var_name f 0) (isSigned info) v sz al st = Some st'"
      by (auto elim!: lbind_SomeE split: option.splits)
    have "size_modest lsu env T (base_type f)" using m Some by (simp add: field_modest_def)
    then have b: "unat sz \<le> 2 ^ 32" "unat al \<le> 2 ^ 32" using size_modestD [OF _ T1 s] by blast+
    show ?thesis by (rule place_bitfield_inv [OF i k t b ov p])
  qed
qed

lemma layout_more_inv:
  assumes "layout_inv U k st" "k + length ds \<le> 2 ^ 24" "\<forall>d \<in> set ds. size_modest lsu env T (snd d)" "unat ov \<le> 2 ^ 32"
    and "layout_more lsu env packed ov ds st ctx = Returns (Some st') c" and "cc_get_target_layout ctx = T"
  shows "layout_inv U (k + length ds) st'"
  using assms
proof (induction ds arbitrary: k st ctx)
  case (Cons d ds)
  obtain name t where d: "d = (name, t)" by (cases d)
  from Cons.prems(5) [unfolded d layout_more.simps] obtain sa c1 where "size_align_of_parsed_type lsu env ctx t = Returns (Some sa) c1"
    and "(case sa of (sz, al) \<Rightarrow> \<lambda>c. lbind (layout_typeInfo env c t) (\<lambda>info c.
        layout_more lsu env packed ov ds (place_field name (isSigned info) sz (field_align packed ov al) st) c)) c1 = Returns (Some st') c"
    by (rule lbind_SomeE)
  then obtain sz al where s: "size_align_of_parsed_type lsu env ctx t = Returns (Some (sz, al)) c1"
    and r: "lbind (layout_typeInfo env c1 t) (\<lambda>info c.
        layout_more lsu env packed ov ds (place_field name (isSigned info) sz (field_align packed ov al) st) c) = Returns (Some st') c"
    by (cases sa) simp
  from r obtain info c2 where ti: "layout_typeInfo env c1 t = Returns (Some info) c2" and m: "layout_more lsu env packed ov ds (place_field name (isSigned info) sz (field_align packed ov al) st) c2 = Returns (Some st') c"
    by (rule lbind_SomeE)
  have b: "unat sz \<le> 2 ^ 32" "unat al \<le> 2 ^ 32" using size_modestD [OF _ Cons.prems(6) s] Cons.prems(3) d by auto
  have T2: "cc_get_target_layout c2 = T"
    using kept_target [OF typeInfo_kept ti] kept_target [OF size_align_kept [OF keeps_lsu] s] Cons.prems(6) by simp
  have fa: "field_align packed ov al \<noteq> 0" "unat (field_align packed ov al) \<le> 2 ^ 32"
    using field_align_bounds [OF b(2) Cons.prems(4)] by simp_all
  have "layout_inv U (Suc k) (place_field name (isSigned info) sz (field_align packed ov al) st)"
    by (rule place_field_inv(1) [OF Cons.prems(1) _ b(1) fa]) (use Cons.prems(2) in simp)
  from Cons.IH [OF this _ _ Cons.prems(4) m T2] Cons.prems(2,3) show ?case by simp
qed simp

lemma layout_fields_inv:
  assumes "layout_inv U k st" "k + declarator_count fs \<le> 2 ^ 24" "\<forall>f. Some f \<in> set fs \<longrightarrow> field_modest lsu env T f"
    and "target_modest lay" and "layout_fields lsu env lay packed fs st ctx = Returns (Some st') c"
    and "cc_get_target_layout ctx = T"
  shows "layout_inv U (k + declarator_count fs) st'"
  using assms
proof (induction fs arbitrary: k st ctx)
  case Nil
  then show ?case by (simp add: declarator_count_def)
next
  case (Cons g fs)
  show ?case
  proof (cases g)
    case None
    then show ?thesis using Cons by (simp add: declarator_count_def)
  next
    case (Some f)
    have m: "field_modest lsu env T f" using Cons.prems(3) Some by simp
    obtain fp ov where a: "collectAttrLayout (fd_attributes f) (packed, 0) = (fp, ov)"
      by (cases "collectAttrLayout (fd_attributes f) (packed, 0)")
    have ov: "unat ov \<le> 2 ^ 32" using m a by (auto simp: field_modest_def attrs_modest_def) (metis snd_conv)
    from Cons.prems(5) [unfolded Some layout_fields.simps a prod.case] obtain st1 c1
      where r1: "layout_first lsu env lay fp ov f st ctx = Returns (Some st1) c1"
      and r: "lbind (layout_more lsu env fp ov (remaining_declarators f st1) st1 c1) (\<lambda>st c. layout_fields lsu env lay packed fs st c) = Returns (Some st') c"
      by (rule lbind_SomeE)
    from r obtain st2 c2 where r2: "layout_more lsu env fp ov (remaining_declarators f st1) st1 c1 = Returns (Some st2) c2"
      and r3: "layout_fields lsu env lay packed fs st2 c2 = Returns (Some st') c" by (rule lbind_SomeE)
    have n: "k + Suc (length (more_declarators f)) + declarator_count fs \<le> 2 ^ 24"
      using Cons.prems(2) Some by (simp add: declarator_count_def)
    have i1: "layout_inv U (Suc k) st1" by (rule layout_first_inv [OF Cons.prems(1) _ Cons.prems(4) m Cons.prems(6) ov r1]) (use n in simp)
    have T1: "cc_get_target_layout c1 = T" using kept_target [OF layout_first_kept [OF keeps_lsu] r1] Cons.prems(6) by simp
    have T2: "cc_get_target_layout c2 = T" using kept_target [OF layout_more_kept [OF keeps_lsu] r2] T1 by simp
    have "layout_inv U (Suc k + length (more_declarators f)) st2"
    proof (cases "remaining_declarators f st1 = more_declarators f")
      case True
      show ?thesis
        by (rule layout_more_inv [OF i1 _ _ ov r2 [unfolded True] T1]) (use n m in \<open>simp_all add: field_modest_def\<close>)
    next
      case False
      then have "remaining_declarators f st1 = []" by (auto simp: remaining_declarators_def split: list.splits if_splits)
      then have "st2 = st1" using r2 by simp
      then show ?thesis using layout_inv_mono [OF i1, of "Suc k + length (more_declarators f)"] by simp
    qed
    from Cons.IH [OF this _ _ Cons.prems(4) r3 T2] n Cons.prems(3)
    show ?thesis using Some by (simp add: declarator_count_def add.assoc)
  qed
qed

end

text \<open>The recursive call of \<open>layout_struct_union\<close> is such a provider, whatever its fuel.\<close>

interpretation nested: record_layouts "layout_struct_union n env"
  by unfold_locales (rule layout_struct_union_keeps)

lemma layout_start_inv: "layout_inv U 0 layout_start"
  by (simp add: layout_inv_def within_def layout_start_def placed_def in_order_def)

lemma final_align_bounds:
  "m \<noteq> 0 \<Longrightarrow> unat m \<le> N \<Longrightarrow> unat ov \<le> N \<Longrightarrow> 1 \<le> N \<Longrightarrow> final_align packed ov m \<noteq> 0 \<and> unat (final_align packed ov m) \<le> N"
  by (auto simp: final_align_def Let_def)

lemma layout_finish_sound:
  assumes i: "layout_inv U k st" and k: "k \<le> 2 ^ 24" and ov: "unat ov \<le> 2 ^ 32"
    and f: "layout_finish packed ov st = (sz, al, ls)" and u: "uniform_units U ls"
  shows "in_order ls \<and> (\<forall>e \<in> set ls. start_bit e + bit_size e \<le> 8 * unat sz) \<and> al \<noteq> 0 \<and> unat al dvd unat sz"
proof -
  have w: "within k st" using i by (simp add: layout_inv_def)
  note fl = flush_inv [OF w k]
  have e: "al = final_align packed ov (st_maxAlign st)" "sz = round_up (st_offset (flush_bits st)) al" "ls = st_layouts st"
    using f fl(3,4) by (auto simp: layout_finish_def Let_def)
  have al: "al \<noteq> 0" "unat al \<le> 2 ^ 32"
    using final_align_bounds [of "st_maxAlign st" "2 ^ 32" ov packed] w ov e(1) by (simp_all add: within_def)
  have "unat (st_offset (flush_bits st)) + unat al < 2 ^ 64" using fl(1) k al(2) by simp
  note r = round_up_bounds [OF al(1) this, folded e(2)]
  have p: "placed U (flush_bits st)" using i u fl(5) by (simp add: layout_inv_def e(3))
  have c: "cursor (flush_bits st) \<le> 8 * unat sz" using fl(2) r(1) by (simp add: cursor_def)
  have "start_bit x + bit_size x \<le> 8 * unat sz" if "x \<in> set ls" for x
    using p that fl(4) c by (force simp: placed_def e(3))
  then show ?thesis using p fl(4) al(1) r(3) by (auto simp: placed_def e(3))
qed

text \<open>
  C26. The layout of a struct is sound. When layout_struct_fields lays out a struct whose bit-fields have
  storage units of one size U, the recorded fields (bit-fields to the bit) lie one behind the other
  without overlap, all of them within the size computed, and the size is a multiple of the (non-zero)
  alignment; under bounds that keep \<open>size_t\<close> from wrapping and for any callee results within them.
\<close>
theorem struct_layout_sound:
  assumes "layout_struct_fields lsu env def ctx = Returns (Some (sz, al, ls)) c"
    and "uniform_units U ls"
    and "declarator_count (rd_fields def) \<le> 2 ^ 24" and "attrs_modest (rd_attributes def)"
    and "\<forall>f. Some f \<in> set (rd_fields def) \<longrightarrow> field_modest lsu env (cc_get_target_layout ctx) f"
    and "target_modest (struct_target env ctx)" and "keeps lsu"
  shows "in_order ls \<and> (\<forall>e \<in> set ls. start_bit e + bit_size e \<le> 8 * unat sz) \<and> al \<noteq> 0 \<and> unat al dvd unat sz"
proof -
  obtain packed ov where a: "collectAttrLayout (rd_attributes def) (False, 0) = (packed, ov)"
    by (cases "collectAttrLayout (rd_attributes def) (False, 0)")
  have ov: "unat ov \<le> 2 ^ 32" using assms(4) a by (metis attrs_modest_def snd_conv)
  from assms(1) [unfolded layout_struct_fields_def a prod.case] obtain st c1
    where r: "layout_fields lsu env (struct_target env ctx) packed (rd_fields def) layout_start ctx = Returns (Some st) c1"
      and f: "Returns (Some (layout_finish packed ov st)) c1 = Returns (Some (sz, al, ls)) c"
    by (rule lbind_SomeE)
  have "0 + declarator_count (rd_fields def) \<le> 2 ^ 24" using assms(3) by simp
  from record_layouts.layout_fields_inv [OF _ layout_start_inv this assms(5,6) r refl] assms(7)
  have "layout_inv U (declarator_count (rd_fields def)) st" by (simp add: record_layouts_def)
  moreover have "layout_finish packed ov st = (sz, al, ls)" using f by simp
  ultimately show ?thesis by (rule layout_finish_sound [OF _ assms(3) ov _ assms(2)])
qed

section \<open>An example\<close>

text \<open>\<open>struct { char a; int b : 3; int c : 30; short d; }\<close> on x86-64, the widths literals of the source.\<close>

definition x86_host :: HostMacros where
  "x86_host = \<lparr>def_win64 = False, def_aarch64 = False, def_apple = False, def_x86_64 = True, def_riscv64 = False\<rparr>"

definition decl :: "string \<Rightarrow> TokenType \<Rightarrow> nat option \<Rightarrow> FieldDecl" where
  "decl name p width =
    \<lparr>fd_declaredType = primitive_type p, fd_declaredTypes = None, fd_varNames = [Some name], fd_varCount = 1,
     fd_bitFieldWidth = map_option (\<lambda>w. \<lparr>se_node = w, se_isLiteral = True\<rparr>) width, fd_attributes = []\<rparr>"

definition example_def :: RecordDef where
  "example_def =
    \<lparr>rd_isUnion = False,
     rd_fields = [Some (decl ''a'' TOKEN_CHAR None), Some (decl ''b'' TOKEN_INT (Some 3)), Some (decl ''c'' TOKEN_INT (Some 30)),
                  Some (decl ''d'' TOKEN_SHORT None)],
     rd_attributes = []\<rparr>"

definition example_env :: LayoutEnv where
  "example_env =
    \<lparr>le_host = x86_host, le_scope = [], le_node = (\<lambda>_. example_def), le_constEval = (\<lambda>c e. Some (int (se_node e))), le_fuel = 1\<rparr>"

lemma primitive_size:
  assumes "p = TOKEN_CHAR \<and> r = (1, 1) \<or> p = TOKEN_SHORT \<and> r = (2, 2) \<or> p = TOKEN_INT \<and> r = (4, 4)"
  shows "size_align_of_parsed_type lsu example_env ctx (primitive_type p) = Returns (Some r) ctx"
    and "\<exists>info. layout_typeInfo example_env ctx (primitive_type p) = Returns (Some info) ctx \<and> isSigned info"
proof -
  obtain w where w: "typeInfoFromParsedType 1 x86_host ctx [] (primitive_type p) =
      Some ((makeIntegerType w True p)\<lparr>originalType := Some (primitive_type p)\<rparr>)" "w = 8 * unat (fst r)" "w \<le> 32"
      "snd r = fst r" "fst r \<in> {1, 2, 4}"
    using assms by (auto simp: undecorated_def typeInfoFromBaseKind_def primitive_type_def zero_base_def primitive_info_def
        makeIntegerType_def makeBaseInvalid_def applyQualifiers_def propagateVLAFlag_def parsedTypeHasVLA_def defaultIntBits_def Let_def)
  have i: "layout_typeInfo example_env ctx (primitive_type p) =
      Returns (Some ((makeIntegerType w True p)\<lparr>originalType := Some (primitive_type p)\<rparr>)) ctx"
    using w(1) by (simp add: layout_typeInfo_def example_env_def del: typeInfoFromParsedType.simps One_nat_def)
  then show "\<exists>info. layout_typeInfo example_env ctx (primitive_type p) = Returns (Some info) ctx \<and> isSigned info"
    by (simp add: makeIntegerType_def)
  have a: "type_attributes (primitive_type p) = (False, 0)" "\<not> parsedTypeIsDirectArray (primitive_type p)"
    by (simp_all add: type_attributes_def primitive_type_def zero_base_def parsedTypeIsDirectArray_def)
  have t: "layout_target example_env ctx = layout_lp64_fp80"
    by (simp add: layout_target_def example_env_def x86_host_def tl_default_def)
  have s: "size_align_of_typeinfo lsu example_env ctx ((makeIntegerType w True p)\<lparr>originalType := Some (primitive_type p)\<rparr>) =
      Returns (Some r) ctx"
    using w(2,4,5) assms by (auto simp: size_align_of_typeinfo_def t makeIntegerType_def sizeAlignFromBits_def layout_lp64_fp80_def Let_def)
  show "size_align_of_parsed_type lsu example_env ctx (primitive_type p) = Returns (Some r) ctx"
    by (subst size_align_of_parsed_type.simps)
      (use w(4,5) in \<open>cases r; auto simp: a i s lbind_def adjust_align_def\<close>)
qed

definition entry :: "string \<Rightarrow> size_t \<Rightarrow> size_t \<Rightarrow> size_t \<Rightarrow> size_t \<Rightarrow> bool \<Rightarrow> CCTagFieldLayout" where
  "entry name byteOff bitOff width bytes isBit =
    \<lparr>fl_name = Some name, fl_byteOffset = byteOff, fl_bitOffset = bitOff, fl_widthBits = width, fl_storageUnitBytes = bytes,
     fl_isBitfield = isBit, fl_isZeroWidth = False, fl_isSigned = True\<rparr>"

definition example_layout :: "CCTagFieldLayout list" where
  "example_layout = [entry ''a'' 0 0 0 1 False, entry ''b'' 4 0 3 4 True, entry ''c'' 8 0 30 4 True, entry ''d'' 12 0 0 2 False]"

lemma example_target: "struct_target example_env ctx = Some layout_lp64_fp80"
  by (simp add: struct_target_def example_env_def x86_host_def tl_default_def)

lemma example_first:
  assumes "p = TOKEN_CHAR \<and> r = (1, 1) \<or> p = TOKEN_SHORT \<and> r = (2, 2) \<or> p = TOKEN_INT \<and> r = (4, 4)"
  shows "layout_first lsu example_env lay False 0 (decl name p None) st ctx =
      Returns (Some (place_field (Some name) True (fst r) (snd r) st)) ctx"
    and "layout_first lsu example_env lay False 0 (decl name p (Some w)) st ctx =
      Returns (place_bitfield lay False 0 (Some name) True (int w) (fst r) (snd r) st) ctx"
    and "more_declarators (decl name p v) = []" and "fd_attributes (decl name p v) = []"
proof -
  obtain info where i: "layout_typeInfo example_env ctx (primitive_type p) = Returns (Some info) ctx" "isSigned info"
    using primitive_size(2) [OF assms] by blast
  note s = primitive_size(1) [OF assms, of lsu ctx]
  have b: "base_type (decl name p v) = primitive_type p" "var_name (decl name p v) 0 = Some name" for v
    by (simp_all add: base_type_def var_name_def decl_def)
  have fl: "\<not> isFlexibleArrayType (primitive_type p)" by (simp add: isFlexibleArrayType_def primitive_type_def)
  have fa: "field_align False 0 (snd r) = snd r" using assms by (auto simp: field_align_def)
  show "layout_first lsu example_env lay False 0 (decl name p None) st ctx =
      Returns (Some (place_field (Some name) True (fst r) (snd r) st)) ctx"
    unfolding layout_first_def b i(1) using i(2) s fl fa by (cases r) (simp add: lbind_def decl_def Let_def)
  show "layout_first lsu example_env lay False 0 (decl name p (Some w)) st ctx =
      Returns (place_bitfield lay False 0 (Some name) True (int w) (fst r) (snd r) st) ctx"
    unfolding layout_first_def b i(1) using i(2) s by (cases r) (simp add: lbind_def decl_def example_env_def)
qed (simp_all add: more_declarators_def decl_def)

definition example_state :: "nat \<Rightarrow> LayoutState" where
  "example_state i =
    (if i = 0 then place_field (Some ''a'') True 1 1 layout_start
     else if i = 1 then \<lparr>st_offset = 4, st_maxAlign = 4, st_bitOffset = 3, st_currentUnitSize = 4, st_layouts = take 2 example_layout\<rparr>
     else \<lparr>st_offset = 8, st_maxAlign = 4, st_bitOffset = 30, st_currentUnitSize = 4, st_layouts = take 3 example_layout\<rparr>)"

lemma example_b: "place_bitfield (Some layout_lp64_fp80) False 0 (Some ''b'') True 3 4 4 (example_state 0) = Some (example_state 1)"
  by code_simp

lemma example_c: "place_bitfield (Some layout_lp64_fp80) False 0 (Some ''c'') True 30 4 4 (example_state 1) = Some (example_state 2)"
  by code_simp

lemma example_d: "layout_finish False 0 (place_field (Some ''d'') True 2 2 (example_state 2)) = (16, 4, example_layout)"
  by code_simp

lemma example_result: "layout_struct_fields lsu example_env example_def ctx = Returns (Some (16, 4, example_layout)) ctx"
proof -
  have a: "example_state 0 = place_field (Some ''a'') True 1 1 layout_start" by (simp add: example_state_def)
  have "layout_fields lsu example_env (Some layout_lp64_fp80) False (rd_fields example_def) layout_start ctx =
      Returns (Some (place_field (Some ''d'') True 2 2 (example_state 2))) ctx"
    using example_b example_c
    by (simp add: example_def_def example_first [where r = "(1, 1)"] example_first [where r = "(2, 2)"] example_first [where r = "(4, 4)"]
        lbind_def a)
  then show ?thesis
    unfolding layout_struct_fields_def example_target
    by (simp add: example_def_def lbind_def example_d)
qed

lemma example_modest: "Some f \<in> set (rd_fields example_def) \<Longrightarrow> field_modest lsu example_env T f"
proof -
  assume "Some f \<in> set (rd_fields example_def)"
  then obtain name p v where f: "f = decl name p v" "p = TOKEN_CHAR \<or> p = TOKEN_SHORT \<or> p = TOKEN_INT"
    by (auto simp: example_def_def)
  obtain r :: "size_t \<times> size_t" where r: "p = TOKEN_CHAR \<and> r = (1, 1) \<or> p = TOKEN_SHORT \<and> r = (2, 2) \<or> p = TOKEN_INT \<and> r = (4, 4)"
    using f(2) by blast
  then have "unat (fst r) \<le> 2 ^ 32 \<and> unat (snd r) \<le> 2 ^ 32" by auto
  then have "size_modest lsu example_env T (primitive_type p)"
    using primitive_size(1) [OF r] by (auto simp: size_modest_def)
  moreover have "base_type f = primitive_type p" "\<not> isFlexibleArrayType (primitive_type p)"
    using f by (simp_all add: base_type_def decl_def isFlexibleArrayType_def primitive_type_def)
  ultimately show ?thesis
    using f example_first(3,4) [OF r] by (simp add: field_modest_def attrs_modest_def)
qed

theorem struct_layout_sound_witness:
  "in_order example_layout \<and> list_all (\<lambda>e. start_bit e + bit_size e \<le> 128) example_layout"
proof -
  have "uniform_units 4 example_layout" by (simp add: uniform_units_def example_layout_def entry_def)
  moreover have "declarator_count (rd_fields example_def) \<le> 2 ^ 24"
    by (simp add: declarator_count_def example_def_def more_declarators_def decl_def)
  moreover have "attrs_modest (rd_attributes example_def)" by (simp add: attrs_modest_def example_def_def)
  moreover have "target_modest (struct_target example_env None)"
    by (simp add: example_target target_modest_def layout_lp64_fp80_def)
  ultimately show ?thesis
    using struct_layout_sound [OF example_result [of "layout_struct_union 0 example_env" None] _ _ _ _ _ nested.keeps_lsu]
      example_modest by (force simp: list_all_iff)
qed

section \<open>The layout cache\<close>

lemma stored_layout_read:
  assumes "cc_has_tag c k (Some n)"
  shows "cc_get_tag_layout (fst (cc_tag_mark_computing (fst (cc_set_tag_field_layouts (fst (cc_set_tag_layout c k (Some n) sz al)) k (Some n) ls)) k (Some n) b)) k (Some n) =
    Some (sz, al)"
  using assms
  by (auto simp: cc_get_tag_layout_def cc_tag_mark_computing_def cc_set_tag_field_layouts_def cc_set_tag_layout_def
      cc_has_tag_def tag_record_on_tag)

text \<open>
  A layout is computed once: when layout_struct_union succeeds, the context holds the size and alignment
  it returned, so every later query of the tag returns them again at once and leaves the context as it
  is, although computing the fields may have changed the context through nested records.
\<close>
theorem layout_is_cached:
  assumes "layout_struct_union fuel env ctx kind name = Returns (Some (sz, al)) ctx'"
  shows "\<exists>c. ctx' = Some c \<and> cc_get_tag_layout c kind name = Some (sz, al) \<and>
    (\<forall>m. layout_struct_union (Suc m) env ctx' kind name = Returns (Some (sz, al)) ctx')"
proof -
  obtain n where n: "fuel = Suc n" using assms by (cases fuel) simp_all
  obtain c where c: "ctx = Some c" using assms n by (cases ctx) simp_all
  obtain m where m: "name = Some m" using assms n c by (cases name) simp_all
  have "\<exists>c. ctx' = Some c \<and> cc_get_tag_layout c kind name = Some (sz, al)"
  proof (cases "cc_get_tag_layout c kind name")
    case (Some r)
    then show ?thesis using assms n c m by auto
  next
    case None
    let ?c = "fst (cc_tag_mark_computing c kind name True)"
    let ?f = "if kind = CC_TAG_STRUCT then layout_struct_fields (layout_struct_union n env) env else layout_union_fields (layout_struct_union n env) env"
    have comp: "\<not> cc_tag_is_computing c kind name" using assms None n c m by (cases "cc_tag_is_computing c kind name") simp_all
    obtain d where d: "cc_tag_definition ?c kind name = Some d"
      using assms None comp n c m by (cases "cc_tag_definition ?c kind name") simp_all
    have s: "store_layout kind name (?f (le_node env d) (Some ?c)) = Returns (Some (sz, al)) ctx'"
      using assms None comp n c m d by (cases "kind = CC_TAG_STRUCT") simp_all
    have k: "kept (Some ?c) (?f (le_node env d) (Some ?c))"
      using struct_fields_kept [OF nested.keeps_lsu] layout_union_kept [OF nested.keeps_lsu] by simp
    obtain ls c2 where f: "?f (le_node env d) (Some ?c) = Returns (Some (sz, al, ls)) c2"
      using s by (auto simp: store_layout_def split: lay.splits option.splits)
    have t: "cc_has_tag ?c kind (Some m)" using d m by (auto simp: cc_has_tag_def cc_tag_definition_def split: option.splits)
    obtain e where e: "c2 = Some e" "cc_has_tag e kind (Some m)"
      using k t f by (auto simp: ctx_le_def)
    show ?thesis using s [unfolded f] stored_layout_read [OF e(2)] e(1) m by (auto simp: store_layout_def Let_def)
  qed
  then show ?thesis using m by auto
qed

theorem layout_is_cached_witness:
  "\<exists>c. layout_struct_union 1 example_env (Some (fst (cc_define_tag cc_create CC_TAG_STRUCT (Some ''s'') 0 (Some 0)))) CC_TAG_STRUCT (Some ''s'') =
      Returns (Some (16, 4)) (Some c) \<and> cc_get_tag_layout c CC_TAG_STRUCT (Some ''s'') = Some (16, 4)"
proof -
  let ?c = "fst (cc_define_tag cc_create CC_TAG_STRUCT (Some ''s'') 0 (Some 0))"
  have d: "cc_get_tag_layout ?c CC_TAG_STRUCT (Some ''s'') = None" "\<not> cc_tag_is_computing ?c CC_TAG_STRUCT (Some ''s'')"
    "cc_tag_definition (fst (cc_tag_mark_computing ?c CC_TAG_STRUCT (Some ''s'') True)) CC_TAG_STRUCT (Some ''s'') = Some 0"
    by code_simp+
  obtain c where r: "layout_struct_union 1 example_env (Some ?c) CC_TAG_STRUCT (Some ''s'') = Returns (Some (16, 4)) (Some c)"
    using d example_result by (auto simp: example_env_def store_layout_def Let_def)
  from layout_is_cached [OF r] r show ?thesis by auto
qed

section \<open>Where layouts go wrong\<close>

text \<open>
  \<open>struct { int a : 20; long long b : 20; char c; }\<close> on x86-64: \<open>b\<close> fits into the rest of its own 64-bit unit
  but the unit in progress is accounted with the 4 bytes of \<open>a\<close>, so \<open>c\<close> is placed at byte 4, inside \<open>b\<close>.
\<close>

definition mixed_units :: "LayoutState" where
  "mixed_units =
    place_field (Some ''c'') True 1 1
      (place_bits (Some layout_lp64_fp80) (Some ''b'') True 64 20 (place_bits (Some layout_lp64_fp80) (Some ''a'') True 32 20 layout_start))"

theorem mixed_bitfield_units_overlap:
  "map start_bit (st_layouts mixed_units) = [0, 20, 32] \<and> map bit_size (st_layouts mixed_units) = [20, 20, 8] \<and>
   \<not> in_order (st_layouts mixed_units)"
proof -
  have l: "st_layouts mixed_units = [entry ''a'' 0 0 20 4 True, entry ''b'' 0 20 20 8 True, entry ''c'' 4 0 0 1 False]" by code_simp
  show ?thesis unfolding l by (simp add: start_bit_def bit_size_def entry_def in_order_def)
qed

text \<open>An 80-bit \<open>long double\<close> gets 10 bytes at alignment 16: the second element of an array is misaligned.\<close>

theorem long_double_size_not_aligned:
  "sizeAlignFromBits layout_lp64_fp80 80 (longDoubleAlign layout_lp64_fp80) = (10, 16)"
  by code_simp

end
