(* ===== verification/Control_Flow.thy ===== *)
theory Control_Flow
  imports Type_Resolution
begin

text \<open>
  The control flow analysis, \<open>src/src/Syntax/control_flow.c\<close>: which statements stop, which warnings are
  given, and the error for a non-void function whose end can be reached. A statement node carries its line
  and what the analysis reads of it; \<open>AST_NULL\<close> is a null pointer and \<open>AST_OTHER\<close> every node the analysis does
  not look into. Warnings are collected in the order in which they are given.
\<close>

section \<open>Statements\<close>

datatype node =
    AST_NULL
  | AST_BLOCK int "node list"
  | AST_IF_STATEMENT int (thenBranch: node) (elseBranch: node)
  | AST_WHILE_LOOP int node node
  | AST_FOR_LOOP int node node node node
  | AST_SWITCH int node "node list"
  | AST_CASE int bool "node list" node
  | AST_RETURN int
  | AST_BREAK int
  | AST_CONTINUE int
  | AST_GOTO_STATEMENT int cstr
  | AST_LABEL_DECLARATION int cstr node
  | AST_OTHER int

fun node_line :: "node \<Rightarrow> int" where
  "node_line AST_NULL = 0"
| "node_line (AST_BLOCK l _) = l"
| "node_line (AST_IF_STATEMENT l _ _) = l"
| "node_line (AST_WHILE_LOOP l _ _) = l"
| "node_line (AST_FOR_LOOP l _ _ _ _) = l"
| "node_line (AST_SWITCH l _ _) = l"
| "node_line (AST_CASE l _ _ _) = l"
| "node_line (AST_RETURN l) = l"
| "node_line (AST_BREAK l) = l"
| "node_line (AST_CONTINUE l) = l"
| "node_line (AST_GOTO_STATEMENT l _) = l"
| "node_line (AST_LABEL_DECLARATION l _ _) = l"
| "node_line (AST_OTHER l) = l"

definition safeLine :: "node \<Rightarrow> int" where
  "safeLine n = (if n = AST_NULL \<or> node_line n \<le> 0 then 0 else node_line n)"

section \<open>Goto targets\<close>

definition gotoTargetSetContains :: "string list \<Rightarrow> cstr \<Rightarrow> bool" where
  "gotoTargetSetContains names name =
    (case name of None \<Rightarrow> False | Some s \<Rightarrow> if s = [] then False else list_ex (\<lambda>x. x = s) names)"

definition gotoTargetSetAdd :: "string list \<Rightarrow> cstr \<Rightarrow> string list" where
  "gotoTargetSetAdd names name =
    (case name of None \<Rightarrow> names
     | Some s \<Rightarrow> if s = [] then names else if list_ex (\<lambda>x. x = s) names then names else names @ [s])"

fun collectGotoTargets :: "node \<Rightarrow> string list \<Rightarrow> string list"
  and collect_list :: "node list \<Rightarrow> string list \<Rightarrow> string list" where
  "collectGotoTargets (AST_BLOCK l ss) names = collect_list ss names"
| "collectGotoTargets (AST_IF_STATEMENT l t e) names = collectGotoTargets e (collectGotoTargets t names)"
| "collectGotoTargets (AST_WHILE_LOOP l c b) names = collectGotoTargets b (collectGotoTargets c names)"
| "collectGotoTargets (AST_FOR_LOOP l i c u b) names =
    collectGotoTargets b (collectGotoTargets u (collectGotoTargets c (collectGotoTargets i names)))"
| "collectGotoTargets (AST_SWITCH l c cs) names = collect_list cs (collectGotoTargets c names)"
| "collectGotoTargets (AST_CASE l v ss next) names = collectGotoTargets next (collect_list ss names)"
| "collectGotoTargets (AST_LABEL_DECLARATION l name s) names = collectGotoTargets s names"
| "collectGotoTargets (AST_GOTO_STATEMENT l name) names = gotoTargetSetAdd names name"
| "collectGotoTargets _ names = names"
| "collect_list [] names = names"
| "collect_list (s # ss) names = collect_list ss (collectGotoTargets s names)"

section \<open>Cases and exits\<close>

text \<open>The cases a switch owns, wherever they are nested outside other switches.\<close>

fun collectOwnedSwitchCases :: "node \<Rightarrow> node list"
  and owned_cases :: "node list \<Rightarrow> node list" where
  "collectOwnedSwitchCases (AST_CASE l v ss next) = AST_CASE l v ss next # owned_cases ss @ collectOwnedSwitchCases next"
| "collectOwnedSwitchCases (AST_BLOCK l ss) = owned_cases ss"
| "collectOwnedSwitchCases (AST_IF_STATEMENT l t e) = collectOwnedSwitchCases t @ collectOwnedSwitchCases e"
| "collectOwnedSwitchCases (AST_WHILE_LOOP l c b) = collectOwnedSwitchCases b"
| "collectOwnedSwitchCases (AST_FOR_LOOP l i c u b) = collectOwnedSwitchCases b"
| "collectOwnedSwitchCases (AST_LABEL_DECLARATION l name s) = collectOwnedSwitchCases s"
| "collectOwnedSwitchCases _ = []"
| "owned_cases [] = []"
| "owned_cases (s # ss) = collectOwnedSwitchCases s @ owned_cases ss"

text \<open>Whether a break or goto of a conditionless loop can leave it; the depths count nested loops and switches.\<close>

fun conditionlessLoopMayExit :: "node \<Rightarrow> nat \<Rightarrow> nat \<Rightarrow> bool"
  and may_exit_list :: "node list \<Rightarrow> nat \<Rightarrow> nat \<Rightarrow> bool" where
  "conditionlessLoopMayExit (AST_BREAK l) ld sd \<longleftrightarrow> ld = 0 \<and> sd = 0"
| "conditionlessLoopMayExit (AST_GOTO_STATEMENT l name) ld sd \<longleftrightarrow> True"
| "conditionlessLoopMayExit (AST_BLOCK l ss) ld sd \<longleftrightarrow> may_exit_list ss ld sd"
| "conditionlessLoopMayExit (AST_IF_STATEMENT l t e) ld sd \<longleftrightarrow> conditionlessLoopMayExit t ld sd \<or> conditionlessLoopMayExit e ld sd"
| "conditionlessLoopMayExit (AST_WHILE_LOOP l c b) ld sd \<longleftrightarrow> conditionlessLoopMayExit b (ld + 1) sd"
| "conditionlessLoopMayExit (AST_FOR_LOOP l i c u b) ld sd \<longleftrightarrow>
    conditionlessLoopMayExit i ld sd \<or> conditionlessLoopMayExit c ld sd \<or> conditionlessLoopMayExit u ld sd \<or>
    conditionlessLoopMayExit b (ld + 1) sd"
| "conditionlessLoopMayExit (AST_SWITCH l c cs) ld sd \<longleftrightarrow> may_exit_list cs ld (sd + 1)"
| "conditionlessLoopMayExit (AST_CASE l v ss next) ld sd \<longleftrightarrow> may_exit_list ss ld sd \<or> conditionlessLoopMayExit next ld sd"
| "conditionlessLoopMayExit (AST_LABEL_DECLARATION l name s) ld sd \<longleftrightarrow> conditionlessLoopMayExit s ld sd"
| "conditionlessLoopMayExit _ ld sd \<longleftrightarrow> False"
| "may_exit_list [] ld sd \<longleftrightarrow> False"
| "may_exit_list (s # ss) ld sd \<longleftrightarrow> conditionlessLoopMayExit s ld sd \<or> may_exit_list ss ld sd"

section \<open>The analysis\<close>

record FlowContext =
  fc_inLoop :: bool
  fc_inSwitch :: bool
  fc_reachable :: bool
  fc_suppressUnreachable :: bool
  fc_gotoTargets :: "string list"

record FlowResult =
  fr_returns :: bool
  fr_stops :: bool

definition makeFlow :: "bool \<Rightarrow> bool \<Rightarrow> FlowResult" where
  "makeFlow r s = \<lparr>fr_returns = r, fr_stops = s\<rparr>"

datatype flow_warning = Unreachable_statement int | Case_may_fall_through int

type_synonym flow = "FlowResult \<times> flow_warning list"

text \<open>For each case the flow of the first case from it on that stops.\<close>

fun chain_flows :: "FlowResult list \<Rightarrow> FlowResult list" where
  "chain_flows [] = []"
| "chain_flows (f # fs) =
    (let rest = chain_flows fs; next = (case rest of [] \<Rightarrow> makeFlow False False | g # _ \<Rightarrow> g)
     in (if fr_stops f then f else next) # rest)"

definition is_default :: "node \<Rightarrow> bool" where
  "is_default n = (case n of AST_CASE l v ss next \<Rightarrow> \<not> v | _ \<Rightarrow> False)"

fun case_body :: "node \<Rightarrow> node list" where
  "case_body (AST_CASE l v ss next) = ss"
| "case_body _ = []"

definition switch_result :: "bool \<Rightarrow> node list \<Rightarrow> FlowResult list \<Rightarrow> FlowResult" where
  "switch_result reachable cases flows =
    (let all = reachable \<and> cases \<noteq> [] \<and> list_all fr_returns (chain_flows flows); b = list_ex is_default cases \<and> all
     in makeFlow b b)"

text \<open>The warnings of one case, around those of its body.\<close>

definition case_context :: "FlowContext \<Rightarrow> FlowContext" where
  "case_context ctx = ctx\<lparr>fc_inSwitch := True, fc_suppressUnreachable := \<not> fc_reachable ctx\<rparr>"

definition case_warnings :: "FlowContext \<Rightarrow> node \<Rightarrow> bool \<Rightarrow> flow \<Rightarrow> flow_warning list" where
  "case_warnings ctx c isLast f =
    (if \<not> fc_reachable ctx \<and> \<not> fc_suppressUnreachable ctx then [Unreachable_statement (safeLine c)] else []) @ snd f @
    (if fc_reachable ctx \<and> case_body c \<noteq> [] \<and> \<not> fr_stops (fst f) \<and> \<not> isLast then [Case_may_fall_through (safeLine c)] else [])"

lemma owned_cases_smaller:
  "c \<in> set (collectOwnedSwitchCases n) \<Longrightarrow> size c \<le> size n"
  "c \<in> set (owned_cases ns) \<Longrightarrow> size c \<le> size_list size ns"
  by (induction n and ns rule: collectOwnedSwitchCases_owned_cases.induct) auto

lemma case_body_smaller: "size_list size (case_body c) < size c \<or> case_body c = []"
  by (cases c) simp_all

definition max_size :: "node list \<Rightarrow> nat" where
  "max_size ns = foldr (\<lambda>n m. max (size n) m) ns 0"

lemma max_size_le: "(\<And>c. c \<in> set ns \<Longrightarrow> size c \<le> N) \<Longrightarrow> max_size ns \<le> N"
  by (induction ns) (simp_all add: max_size_def)

lemma owned_max_size: "max_size (owned_cases ns) \<le> size_list size ns"
  by (rule max_size_le) (rule owned_cases_smaller(2))

lemma max_size_Cons [simp]: "max_size (n # ns) = max (size n) (max_size ns)"
  by (simp add: max_size_def)

text \<open>
  \<open>check_list\<close> continues \<open>checkStatementList\<close> with what is known after the statements before: whether the next one
  can be reached, whether a return was seen and whether the dead region was reported. \<open>check_cases\<close> goes through
  the cases of a switch.
\<close>

function (sequential) checkStatement :: "FlowContext \<Rightarrow> node \<Rightarrow> flow"
  and check_list :: "FlowContext \<Rightarrow> bool \<Rightarrow> bool \<Rightarrow> bool \<Rightarrow> node list \<Rightarrow> flow"
  and check_cases :: "FlowContext \<Rightarrow> node list \<Rightarrow> FlowResult list \<times> flow_warning list" where
  "checkStatement ctx (AST_BLOCK l ss) = check_list ctx (fc_reachable ctx) False False ss"
| "checkStatement ctx (AST_IF_STATEMENT l t e) =
    (let (tf, tw) = checkStatement ctx t; (ef, ew) = checkStatement ctx e
     in (makeFlow (fr_returns tf \<and> fr_returns ef) (fr_stops tf \<and> fr_stops ef), tw @ ew))"
| "checkStatement ctx (AST_WHILE_LOOP l c b) =
    (makeFlow False False, snd (checkStatement ctx c) @ snd (checkStatement (ctx\<lparr>fc_inLoop := True\<rparr>) b))"
| "checkStatement ctx (AST_FOR_LOOP l i c u b) =
    (let (bf, bw) = checkStatement (ctx\<lparr>fc_inLoop := True\<rparr>) b;
         w = snd (checkStatement ctx i) @ snd (checkStatement ctx c) @ snd (checkStatement ctx u) @ bw
     in if c = AST_NULL \<and> u = AST_NULL \<and> (fr_returns bf \<or> \<not> conditionlessLoopMayExit b 0 0)
        then (makeFlow True True, w) else (makeFlow False False, w))"
| "checkStatement ctx (AST_SWITCH l c cs) =
    (let cases = owned_cases cs; (flows, w) = check_cases ctx cases
     in (switch_result (fc_reachable ctx) cases flows, w))"
| "checkStatement ctx (AST_CASE l v ss next) = check_list ctx (fc_reachable ctx) False False ss"
| "checkStatement ctx (AST_RETURN l) = (makeFlow True True, [])"
| "checkStatement ctx (AST_BREAK l) = (makeFlow False True, [])"
| "checkStatement ctx (AST_CONTINUE l) = (makeFlow False True, [])"
| "checkStatement ctx (AST_GOTO_STATEMENT l name) = (makeFlow False True, [])"
| "checkStatement ctx (AST_LABEL_DECLARATION l name s) = checkStatement ctx s"
| "checkStatement ctx n = (makeFlow False False, [])"
| "check_list ctx reachable sawReturn reported [] = (makeFlow (\<not> reachable \<and> sawReturn) (\<not> reachable), [])"
| "check_list ctx reachable0 sawReturn reported0 (s # ss) =
    (let entered = \<not> reachable0 \<and>
           (case s of AST_LABEL_DECLARATION l name t \<Rightarrow> gotoTargetSetContains (fc_gotoTargets ctx) name | _ \<Rightarrow> False);
         reachable = reachable0 \<or> entered;
         reported = reported0 \<and> \<not> entered;
         report = s \<noteq> AST_NULL \<and> node_line s > 0 \<and> \<not> reachable \<and> \<not> fc_suppressUnreachable ctx \<and> \<not> reported;
         w = (if report then [Unreachable_statement (safeLine s)] else []);
         (f, fw) = checkStatement (ctx\<lparr>fc_reachable := reachable, fc_suppressUnreachable := \<not> reachable\<rparr>) s;
         stop = reachable \<and> fr_stops f;
         (r, rw) = check_list ctx (reachable \<and> \<not> stop) (sawReturn \<or> (stop \<and> fr_returns f)) ((reported \<or> report) \<and> \<not> stop) ss
     in (r, w @ fw @ rw))"
| "check_cases ctx [] = ([], [])"
| "check_cases ctx (c # cs) =
    (let f = check_list (case_context ctx) (fc_reachable ctx) False False (case_body c);
         (fs, w) = check_cases ctx cs
     in (fst f # fs, case_warnings ctx c (cs = []) f @ w))"
  by pat_completeness auto
termination
proof (relation "measures [
    (\<lambda>x. case x of Inl (ctx, n) \<Rightarrow> size n | Inr (Inl (ctx, r, s, d, ns)) \<Rightarrow> size_list size ns | Inr (Inr (ctx, ns)) \<Rightarrow> Suc (max_size ns)),
    (\<lambda>x. case x of Inl _ \<Rightarrow> 1 | Inr _ \<Rightarrow> 0),
    (\<lambda>x. case x of Inr (Inr (ctx, ns)) \<Rightarrow> length ns | _ \<Rightarrow> 0)]")
  fix ctx :: FlowContext and l :: int and c :: node and cs cases :: "node list"
  assume "cases = owned_cases cs"
  then show "(Inr (Inr (ctx, cases)), Inl (ctx, AST_SWITCH l c cs)) \<in> measures [
    (\<lambda>x. case x of Inl (ctx, n) \<Rightarrow> size n | Inr (Inl (ctx, r, s, d, ns)) \<Rightarrow> size_list size ns | Inr (Inr (ctx, ns)) \<Rightarrow> Suc (max_size ns)),
    (\<lambda>x. case x of Inl _ \<Rightarrow> 1 | Inr _ \<Rightarrow> 0),
    (\<lambda>x. case x of Inr (Inr (ctx, ns)) \<Rightarrow> length ns | _ \<Rightarrow> 0)]"
    using owned_max_size [of cs] by auto
next
  fix ctx :: FlowContext and c :: node and cs :: "node list"
  show "(Inr (Inl (case_context ctx, fc_reachable ctx, False, False, case_body c)), Inr (Inr (ctx, c # cs))) \<in> measures [
    (\<lambda>x. case x of Inl (ctx, n) \<Rightarrow> size n | Inr (Inl (ctx, r, s, d, ns)) \<Rightarrow> size_list size ns | Inr (Inr (ctx, ns)) \<Rightarrow> Suc (max_size ns)),
    (\<lambda>x. case x of Inl _ \<Rightarrow> 1 | Inr _ \<Rightarrow> 0),
    (\<lambda>x. case x of Inr (Inr (ctx, ns)) \<Rightarrow> length ns | _ \<Rightarrow> 0)]"
    using case_body_smaller [of c] by auto
qed (simp_all, auto?)

declare checkStatement.simps [simp del] check_list.simps [simp del] check_cases.simps [simp del]

section \<open>Functions\<close>

record FunctionDefinition =
  fdef_name :: cstr
  fdef_returnType :: ParsedType
  fdef_body :: node

definition flow_start :: "node \<Rightarrow> FlowContext" where
  "flow_start body =
    \<lparr>fc_inLoop = False, fc_inSwitch = False, fc_reachable = True, fc_suppressUnreachable = False,
     fc_gotoTargets = collectGotoTargets body []\<rparr>"

text \<open>The message is cut to the 160 bytes of its buffer.\<close>

definition end_reached_message :: "cstr \<Rightarrow> string" where
  "end_reached_message name =
    take 159 (''Control reaches end of non-void function '' @ [CHR 0x27] @ (case name of Some s \<Rightarrow> s | None \<Rightarrow> ''<anonymous>'') @ [CHR 0x27])"

text \<open>
  The warnings and the error of one function definition (\<open>traverse\<close>); \<open>None\<close> when the return type does not
  resolve within the fuel.
\<close>

definition traverse_function ::
    "nat \<Rightarrow> HostMacros \<Rightarrow> CompilerContext option \<Rightarrow> scope \<Rightarrow> FunctionDefinition \<Rightarrow> (flow_warning list \<times> string option) option" where
  "traverse_function fuel host ctx sc f =
    (case checkStatement (flow_start (fdef_body f)) (fdef_body f) of (flow, w) \<Rightarrow>
       map_option (\<lambda>ret.
         (w, if category ret \<noteq> TYPEINFO_VOID \<and> \<not> fr_stops flow then Some (end_reached_message (fdef_name f)) else None))
         (typeInfoFromParsedType fuel host ctx sc (fdef_returnType f)))"

text \<open>A program is its top-level nodes, \<open>None\<close> for those that are not function definitions.\<close>

fun analyzeControlFlow ::
    "nat \<Rightarrow> HostMacros \<Rightarrow> CompilerContext option \<Rightarrow> scope \<Rightarrow> FunctionDefinition option list \<Rightarrow>
     (flow_warning list \<times> string option) list option" where
  "analyzeControlFlow fuel host ctx sc [] = Some []"
| "analyzeControlFlow fuel host ctx sc (None # fs) = analyzeControlFlow fuel host ctx sc fs"
| "analyzeControlFlow fuel host ctx sc (Some f # fs) =
    (if sc = [] then Some []
     else case traverse_function fuel host ctx sc f of
         None \<Rightarrow> None
       | Some r \<Rightarrow> map_option ((#) r) (analyzeControlFlow fuel host ctx sc fs))"

end
