(* ===== verification/Control_Flow_Props.thy ===== *)
theory Control_Flow_Props
  imports Control_Flow Type_Resolution_Props
begin

text \<open>
  Exactness of the control flow analysis against a semantics of statements in which every condition may go
  either way: the error for a reachable end is given exactly when an execution can reach it. Gotos are left
  out: the theorem is about functions without them.
\<close>

section \<open>How a statement can end\<close>

datatype outcome = Falls | Breaks | Continues | Exits

text \<open>
  \<open>ends n r\<close>: some execution of \<open>n\<close> ends with outcome \<open>r\<close>. Conditions are free and statements have no other state,
  so how a loop ends does not depend on how often it ran: the rules need no iteration. A loop whose condition is absent is left only by
  a break or a return. A switch enters at one of its cases, or none when there is no default.
\<close>

inductive ends :: "node \<Rightarrow> outcome \<Rightarrow> bool"
  and ends_list :: "node list \<Rightarrow> outcome \<Rightarrow> bool" where
  null: "ends AST_NULL Falls"
| other: "ends (AST_OTHER l) Falls"
| return: "ends (AST_RETURN l) Exits"
| break: "ends (AST_BREAK l) Breaks"
| continue: "ends (AST_CONTINUE l) Continues"
| block: "ends_list ss r \<Longrightarrow> ends (AST_BLOCK l ss) r"
| if_then: "ends t r \<Longrightarrow> ends (AST_IF_STATEMENT l t e) r"
| if_else: "ends e r \<Longrightarrow> ends (AST_IF_STATEMENT l t e) r"
| while_exit: "ends (AST_WHILE_LOOP l c b) Falls"
| while_break: "ends b Breaks \<Longrightarrow> ends (AST_WHILE_LOOP l c b) Falls"
| while_return: "ends b Exits \<Longrightarrow> ends (AST_WHILE_LOOP l c b) Exits"
| for_exit: "c \<noteq> AST_NULL \<Longrightarrow> ends (AST_FOR_LOOP l i c u b) Falls"
| for_break: "ends b Breaks \<Longrightarrow> ends (AST_FOR_LOOP l i c u b) Falls"
| for_return: "ends b Exits \<Longrightarrow> ends (AST_FOR_LOOP l i c u b) Exits"
| switch_none: "\<not> list_ex is_default cs \<Longrightarrow> ends (AST_SWITCH l c cs) Falls"
| switch_case: "k < length cs \<Longrightarrow> ends_list (concat (map case_body (drop k cs))) r \<Longrightarrow>
    ends (AST_SWITCH l c cs) (if r = Breaks then Falls else r)"
| nested_case: "ends_list ss r \<Longrightarrow> ends (AST_CASE l v ss next) r"
| label: "ends s r \<Longrightarrow> ends (AST_LABEL_DECLARATION l name s) r"
| nil: "ends_list [] Falls"
| cons: "ends s Falls \<Longrightarrow> ends_list ss r \<Longrightarrow> ends_list (s # ss) r"
| cons_stop: "ends s r \<Longrightarrow> r \<noteq> Falls \<Longrightarrow> ends_list (s # ss) r"

inductive_cases ends_listE: "ends_list (s # ss) r"
inductive_cases ends_elims:
  "ends (AST_BLOCK l ss) r" "ends (AST_IF_STATEMENT l t e) r" "ends (AST_FOR_LOOP l i c u b) r" "ends (AST_SWITCH l c cs) r"
  "ends (AST_CASE l v ss next) r" "ends (AST_LABEL_DECLARATION l name s) r" "ends (AST_RETURN l) r" "ends (AST_BREAK l) r"
  "ends (AST_CONTINUE l) r" "ends (AST_WHILE_LOOP l c b) r" "ends AST_NULL r" "ends (AST_OTHER l) r"

lemma ends_list_Nil [simp]: "ends_list [] r \<longleftrightarrow> r = Falls"
  by (auto elim: ends_list.cases intro: ends_ends_list.nil)

lemma ends_list_Cons [simp]: "ends_list (s # ss) r \<longleftrightarrow> ends s Falls \<and> ends_list ss r \<or> ends s r \<and> r \<noteq> Falls"
  by (auto elim: ends_listE intro: ends_ends_list.cons cons_stop)

lemma ends_list_append: "ends_list (xs @ ys) r \<longleftrightarrow> ends_list xs Falls \<and> ends_list ys r \<or> ends_list xs r \<and> r \<noteq> Falls"
  by (induction xs) auto

lemma ends_simps [simp]:
  "ends AST_NULL r \<longleftrightarrow> r = Falls" "ends (AST_OTHER l) r \<longleftrightarrow> r = Falls" "ends (AST_RETURN l) r \<longleftrightarrow> r = Exits"
  "ends (AST_BREAK l) r \<longleftrightarrow> r = Breaks" "ends (AST_CONTINUE l) r \<longleftrightarrow> r = Continues"
  "ends (AST_BLOCK l ss) r \<longleftrightarrow> ends_list ss r" "ends (AST_CASE l v ss next) r \<longleftrightarrow> ends_list ss r"
  "ends (AST_LABEL_DECLARATION l name s) r \<longleftrightarrow> ends s r"
  "ends (AST_IF_STATEMENT l t e) r \<longleftrightarrow> ends t r \<or> ends e r"
  "ends (AST_WHILE_LOOP l c b) r \<longleftrightarrow> r = Falls \<or> r = Exits \<and> ends b Exits"
  "ends (AST_FOR_LOOP l i c u b) r \<longleftrightarrow> r = Falls \<and> (c \<noteq> AST_NULL \<or> ends b Breaks) \<or> r = Exits \<and> ends b Exits"
  by (auto elim: ends_elims intro: ends_ends_list.intros)

section \<open>Which functions the analysis gets right\<close>

text \<open>
  The shape of ordinary statements: no goto, the parts of a \<open>for\<close> are expressions or absent, with no update
  where there is no condition, and the cases of a switch stand directly in it.
\<close>

definition is_expression :: "node \<Rightarrow> bool" where
  "is_expression n = (case n of AST_NULL \<Rightarrow> True | AST_OTHER l \<Rightarrow> True | _ \<Rightarrow> False)"

fun case_free :: "node \<Rightarrow> bool"
  and case_free_list :: "node list \<Rightarrow> bool" where
  "case_free (AST_CASE l v ss next) \<longleftrightarrow> False"
| "case_free (AST_BLOCK l ss) \<longleftrightarrow> case_free_list ss"
| "case_free (AST_IF_STATEMENT l t e) \<longleftrightarrow> case_free t \<and> case_free e"
| "case_free (AST_WHILE_LOOP l c b) \<longleftrightarrow> case_free b"
| "case_free (AST_FOR_LOOP l i c u b) \<longleftrightarrow> case_free b"
| "case_free (AST_LABEL_DECLARATION l name s) \<longleftrightarrow> case_free s"
| "case_free _ \<longleftrightarrow> True"
| "case_free_list [] \<longleftrightarrow> True"
| "case_free_list (s # ss) \<longleftrightarrow> case_free s \<and> case_free_list ss"

fun plain :: "node \<Rightarrow> bool"
  and plain_list :: "node list \<Rightarrow> bool" where
  "plain (AST_GOTO_STATEMENT l name) \<longleftrightarrow> False"
| "plain (AST_BLOCK l ss) \<longleftrightarrow> plain_list ss"
| "plain (AST_IF_STATEMENT l t e) \<longleftrightarrow> plain t \<and> plain e"
| "plain (AST_WHILE_LOOP l c b) \<longleftrightarrow> is_expression c \<and> plain b"
| "plain (AST_FOR_LOOP l i c u b) \<longleftrightarrow>
    is_expression i \<and> is_expression c \<and> is_expression u \<and> (c = AST_NULL \<longrightarrow> u = AST_NULL) \<and> plain b"
| "plain (AST_SWITCH l c cs) \<longleftrightarrow> is_expression c \<and>
    list_all (\<lambda>d. case d of AST_CASE l v ss next \<Rightarrow> next = AST_NULL \<and> case_free_list ss | _ \<Rightarrow> False) cs \<and> plain_list cs"
| "plain (AST_CASE l v ss next) \<longleftrightarrow> next = AST_NULL \<and> plain_list ss"
| "plain (AST_LABEL_DECLARATION l name s) \<longleftrightarrow> plain s"
| "plain _ \<longleftrightarrow> True"
| "plain_list [] \<longleftrightarrow> True"
| "plain_list (s # ss) \<longleftrightarrow> plain s \<and> plain_list ss"

text \<open>A break that belongs to the construct a statement stands in: not inside a nested loop or switch.\<close>

fun own_break :: "node \<Rightarrow> bool"
  and own_break_list :: "node list \<Rightarrow> bool" where
  "own_break (AST_BREAK l) \<longleftrightarrow> True"
| "own_break (AST_BLOCK l ss) \<longleftrightarrow> own_break_list ss"
| "own_break (AST_IF_STATEMENT l t e) \<longleftrightarrow> own_break t \<or> own_break e"
| "own_break (AST_CASE l v ss next) \<longleftrightarrow> own_break_list ss"
| "own_break (AST_LABEL_DECLARATION l name s) \<longleftrightarrow> own_break s"
| "own_break _ \<longleftrightarrow> False"
| "own_break_list [] \<longleftrightarrow> False"
| "own_break_list (s # ss) \<longleftrightarrow> own_break s \<or> own_break_list ss"

text \<open>
  What the analysis does not follow, by the semantics. It takes a statement list that cannot be passed to
  return when its last reachable statement does, so a statement that may, but need not, break or continue must
  not stand before statements that cannot be passed (\<open>if (c) break; return;\<close>). It counts a break of a loop
  without condition whether or not it can be reached. It takes a switch that can only be left by a continue to
  fall through. Loops with a condition can always be left, whatever their body does.
\<close>

fun regular :: "node \<Rightarrow> bool"
  and regular_list :: "node list \<Rightarrow> bool" where
  "regular (AST_BLOCK l ss) \<longleftrightarrow> regular_list ss"
| "regular (AST_IF_STATEMENT l t e) \<longleftrightarrow> regular t \<and> regular e"
| "regular (AST_FOR_LOOP l i c u b) \<longleftrightarrow>
    (c = AST_NULL \<longrightarrow> regular b \<and>
      (own_break b \<longrightarrow> ends b Breaks \<or> \<not> ends b Falls \<and> \<not> ends b Continues))"
| "regular (AST_SWITCH l c cs) \<longleftrightarrow>
    regular_list cs \<and> (ends (AST_SWITCH l c cs) Continues \<longrightarrow> ends (AST_SWITCH l c cs) Falls)"
| "regular (AST_CASE l v ss next) \<longleftrightarrow> regular_list ss"
| "regular (AST_LABEL_DECLARATION l name s) \<longleftrightarrow> regular s"
| "regular _ \<longleftrightarrow> True"
| "regular_list [] \<longleftrightarrow> True"
| "regular_list (s # ss) \<longleftrightarrow> regular s \<and> regular_list ss \<and>
    ((ends s Breaks \<or> ends s Continues) \<and> ends s Falls \<longrightarrow> ends_list ss Falls)"

section \<open>Breaks, cases and gotos\<close>

lemma ends_break:
  "ends n r \<Longrightarrow> r = Breaks \<Longrightarrow> own_break n"
  "ends_list ns r \<Longrightarrow> r = Breaks \<Longrightarrow> own_break_list ns"
  by (induction rule: ends_ends_list.inducts) (auto split: if_splits)

lemma expression_exits: "is_expression n \<Longrightarrow> \<not> conditionlessLoopMayExit n ld sd"
  by (cases n) (auto simp: is_expression_def)

lemma may_exit_own_break:
  "plain n \<Longrightarrow> conditionlessLoopMayExit n ld sd \<longleftrightarrow> own_break n \<and> ld = 0 \<and> sd = 0"
  "plain_list ns \<Longrightarrow> may_exit_list ns ld sd \<longleftrightarrow> own_break_list ns \<and> ld = 0 \<and> sd = 0"
  by (induction n ld sd and ns ld sd rule: conditionlessLoopMayExit_may_exit_list.induct)
    (auto simp: expression_exits)

lemma case_free_owned:
  "case_free n \<Longrightarrow> collectOwnedSwitchCases n = []"
  "case_free_list ns \<Longrightarrow> owned_cases ns = []"
  by (induction n and ns rule: collectOwnedSwitchCases_owned_cases.induct) auto

lemma flat_owned:
  "list_all (\<lambda>d. case d of AST_CASE l v ss next \<Rightarrow> next = AST_NULL \<and> case_free_list ss | _ \<Rightarrow> False) cs \<Longrightarrow>
    owned_cases cs = cs"
proof (induction cs)
  case (Cons c cs)
  then show ?case by (cases c) (auto simp: case_free_owned)
qed simp

lemma expression_targets: "is_expression n \<Longrightarrow> collectGotoTargets n names = names"
  by (cases n) (auto simp: is_expression_def)

lemma plain_no_targets:
  "plain n \<Longrightarrow> collectGotoTargets n names = names"
  "plain_list ns \<Longrightarrow> collect_list ns names = names"
  by (induction n names and ns names rule: collectGotoTargets_collect_list.induct) (auto simp: expression_targets)

section \<open>Verdicts\<close>

abbreviation verdict :: "FlowContext \<Rightarrow> node \<Rightarrow> FlowResult" where
  "verdict ctx n \<equiv> fst (checkStatement ctx n)"

definition reached :: "FlowContext \<Rightarrow> FlowContext" where
  "reached ctx = ctx\<lparr>fc_reachable := True, fc_suppressUnreachable := False\<rparr>"

text \<open>A verdict is exact when it tells whether the statements can be passed, and whether they can only exit.\<close>

definition exact :: "FlowResult \<Rightarrow> (outcome \<Rightarrow> bool) \<Rightarrow> bool" where
  "exact f ending \<longleftrightarrow> (fr_stops f \<longleftrightarrow> \<not> ending Falls) \<and> (fr_returns f \<longleftrightarrow> (\<forall>r. ending r \<longrightarrow> r = Exits))"

lemma only_exits: "(\<forall>r. P r \<longrightarrow> r = Exits) \<longleftrightarrow> \<not> P Falls \<and> \<not> P Breaks \<and> \<not> P Continues"
  by (metis outcome.distinct outcome.exhaust)

lemma exact_iff:
  "exact f ending \<longleftrightarrow> fr_stops f = (\<not> ending Falls) \<and>
    fr_returns f = (\<not> ending Falls \<and> \<not> ending Breaks \<and> \<not> ending Continues)"
  unfolding exact_def only_exits ..

lemma makeFlow_simps [simp]: "fr_returns (makeFlow r s) = r" "fr_stops (makeFlow r s) = s"
  by (simp_all add: makeFlow_def)

lemma verdict_simps [simp]:
  "verdict ctx (AST_BLOCK l ss) = fst (check_list ctx (fc_reachable ctx) False False ss)"
  "verdict ctx (AST_CASE l v ss next) = fst (check_list ctx (fc_reachable ctx) False False ss)"
  "verdict ctx (AST_IF_STATEMENT l t e) =
    makeFlow (fr_returns (verdict ctx t) \<and> fr_returns (verdict ctx e)) (fr_stops (verdict ctx t) \<and> fr_stops (verdict ctx e))"
  "verdict ctx (AST_WHILE_LOOP l c b) = makeFlow False False"
  "verdict ctx (AST_FOR_LOOP l i c u b) =
    (let b = c = AST_NULL \<and> u = AST_NULL \<and>
       (fr_returns (verdict (ctx\<lparr>fc_inLoop := True\<rparr>) b) \<or> \<not> conditionlessLoopMayExit b 0 0) in makeFlow b b)"
  "verdict ctx (AST_SWITCH l c cs) = switch_result (fc_reachable ctx) (owned_cases cs) (fst (check_cases ctx (owned_cases cs)))"
  "verdict ctx (AST_LABEL_DECLARATION l name s) = verdict ctx s"
  "verdict ctx AST_NULL = makeFlow False False" "verdict ctx (AST_OTHER l) = makeFlow False False"
  "verdict ctx (AST_RETURN l) = makeFlow True True" "verdict ctx (AST_BREAK l) = makeFlow False True"
  "verdict ctx (AST_CONTINUE l) = makeFlow False True"
  by (simp_all add: checkStatement.simps case_prod_beta Let_def)

lemma cases_flows:
  "fst (check_cases ctx cs) = map (\<lambda>c. fst (check_list (case_context ctx) (fc_reachable ctx) False False (case_body c))) cs"
  by (induction cs) (simp_all add: check_cases.simps case_prod_beta Let_def)

text \<open>Statements that are not reached stay so where no goto targets a label.\<close>

lemma list_unreached:
  "fc_gotoTargets ctx = [] \<Longrightarrow> fst (check_list ctx False saw p ss) = makeFlow saw True"
proof (induction ss arbitrary: p)
  case (Cons s ss)
  have "\<not> (case s of AST_LABEL_DECLARATION l name t \<Rightarrow> gotoTargetSetContains (fc_gotoTargets ctx) name | _ \<Rightarrow> False)"
    using Cons.prems by (cases s) (auto simp: gotoTargetSetContains_def split: option.splits)
  then show ?case using Cons by (simp add: check_list.simps case_prod_beta Let_def)
qed (simp add: check_list.simps)

lemma list_reached:
  assumes "fc_gotoTargets ctx = []"
  shows "\<exists>p'. fst (check_list ctx True False p (s # ss)) =
    (if fr_stops (verdict (reached ctx) s) then makeFlow (fr_returns (verdict (reached ctx) s)) True
     else fst (check_list ctx True False p' ss))"
  using list_unreached [OF assms] by (auto simp: check_list.simps case_prod_beta Let_def reached_def)

section \<open>Exactness\<close>

lemma exact_step:
  assumes "exact f (ends s)" "exact g (ends_list ss)"
    and "(ends s Breaks \<or> ends s Continues) \<and> ends s Falls \<longrightarrow> ends_list ss Falls"
  shows "exact (if fr_stops f then makeFlow (fr_returns f) True else g) (ends_list (s # ss))"
  using assms unfolding exact_iff by auto

lemma list_exact:
  assumes "\<And>s. s \<in> set ss \<Longrightarrow> exact (verdict (reached ctx) s) (ends s)" "regular_list ss" "fc_gotoTargets ctx = []"
  shows "exact (fst (check_list ctx True False p ss)) (ends_list ss)"
  using assms(1,2)
proof (induction ss arbitrary: p)
  case Nil
  then show ?case by (auto simp: check_list.simps exact_def)
next
  case (Cons s ss)
  obtain p' where p: "fst (check_list ctx True False p (s # ss)) =
      (if fr_stops (verdict (reached ctx) s) then makeFlow (fr_returns (verdict (reached ctx) s)) True
       else fst (check_list ctx True False p' ss))"
    using list_reached [OF assms(3)] by blast
  show ?case unfolding p using Cons by (intro exact_step) simp_all
qed

text \<open>The flows of the cases of a switch, chained from each case on.\<close>

lemma chain_exact:
  assumes "\<And>c. c \<in> set cs \<Longrightarrow> exact (F c) (ends c)" "regular_list cs"
  shows "cs \<noteq> [] \<Longrightarrow> exact (hd (chain_flows (map F cs))) (ends_list cs)"
    "list_all fr_returns (chain_flows (map F cs)) \<longleftrightarrow> (\<forall>k < length cs. \<forall>r. ends_list (drop k cs) r \<longrightarrow> r = Exits)"
proof -
  have stops: "(if fr_stops f then makeFlow (fr_returns f) True else g) = (if fr_stops f then f else g)" for f g
    by (cases f) (simp add: makeFlow_def)
  have "(cs \<noteq> [] \<longrightarrow> chain_flows (map F cs) \<noteq> [] \<and> exact (hd (chain_flows (map F cs))) (ends_list cs)) \<and>
    (list_all fr_returns (chain_flows (map F cs)) \<longleftrightarrow> (\<forall>k < length cs. \<forall>r. ends_list (drop k cs) r \<longrightarrow> r = Exits))"
    using assms
  proof (induction cs)
    case (Cons c cs)
    let ?g = "case chain_flows (map F cs) of [] \<Rightarrow> makeFlow False False | g # _ \<Rightarrow> g"
    have IH: "(cs \<noteq> [] \<longrightarrow> chain_flows (map F cs) \<noteq> [] \<and> exact (hd (chain_flows (map F cs))) (ends_list cs))"
      "list_all fr_returns (chain_flows (map F cs)) \<longleftrightarrow> (\<forall>k < length cs. \<forall>r. ends_list (drop k cs) r \<longrightarrow> r = Exits)"
      using Cons by simp_all
    have "exact ?g (ends_list cs)"
      using IH(1) by (cases cs; cases "chain_flows (map F cs)") (auto simp: exact_def)
    then have head: "exact (if fr_stops (F c) then F c else ?g) (ends_list (c # cs))"
      using exact_step [of "F c" c ?g cs] Cons.prems unfolding stops by simp
    have split: "(\<forall>k < length (c # cs). P k) \<longleftrightarrow> P 0 \<and> (\<forall>k < length cs. P (Suc k))" for P
      by (auto simp: less_Suc_eq_0_disj)
    have tail: "list_all fr_returns (chain_flows (map F (c # cs))) \<longleftrightarrow>
        fr_returns (if fr_stops (F c) then F c else ?g) \<and> list_all fr_returns (chain_flows (map F cs))"
      by (simp add: Let_def)
    show ?case
      unfolding split tail IH(2) using head by (simp add: exact_def Let_def)
  qed simp
  then show "cs \<noteq> [] \<Longrightarrow> exact (hd (chain_flows (map F cs))) (ends_list cs)"
    "list_all fr_returns (chain_flows (map F cs)) \<longleftrightarrow> (\<forall>k < length cs. \<forall>r. ends_list (drop k cs) r \<longrightarrow> r = Exits)"
    by blast+
qed

lemma size_mem: "(s :: node) \<in> set ss \<Longrightarrow> size s \<le> size_list size ss"
  using size_list_estimation' [of s ss "size s" size] by simp

lemma plain_mem: "plain_list ss \<Longrightarrow> s \<in> set ss \<Longrightarrow> plain s"
  by (induction ss) auto

lemma regular_mem: "regular_list ss \<Longrightarrow> s \<in> set ss \<Longrightarrow> regular s"
  by (induction ss) auto

lemma ends_bodies:
  "(\<And>c. c \<in> set cs \<Longrightarrow> \<exists>l v ss next. c = AST_CASE l v ss next) \<Longrightarrow> ends_list (concat (map case_body cs)) r \<longleftrightarrow> ends_list cs r"
proof (induction cs)
  case (Cons c cs)
  obtain l v ss nxt where "c = AST_CASE l v ss nxt" using Cons.prems [of c] by auto
  then show ?case using Cons by (simp add: ends_list_append)
qed simp

lemma switch_ends:
  assumes "\<And>c. c \<in> set cs \<Longrightarrow> \<exists>l v ss next. c = AST_CASE l v ss next"
  shows "ends (AST_SWITCH l e cs) Falls \<longleftrightarrow> \<not> list_ex is_default cs \<or>
      (\<exists>k < length cs. ends_list (drop k cs) Falls \<or> ends_list (drop k cs) Breaks)"
    "\<not> ends (AST_SWITCH l e cs) Breaks"
    "ends (AST_SWITCH l e cs) Continues \<longleftrightarrow> (\<exists>k < length cs. ends_list (drop k cs) Continues)"
proof -
  have b: "ends_list (concat (map case_body (drop k cs))) r \<longleftrightarrow> ends_list (drop k cs) r" for k r
    using assms by (intro ends_bodies) (auto dest: in_set_dropD)
  have iff: "ends (AST_SWITCH l e cs) q \<longleftrightarrow> \<not> list_ex is_default cs \<and> q = Falls \<or>
      (\<exists>k < length cs. \<exists>r. ends_list (drop k cs) r \<and> q = (if r = Breaks then Falls else r))" for q
  proof
    assume "ends (AST_SWITCH l e cs) q"
    then show "\<not> list_ex is_default cs \<and> q = Falls \<or>
        (\<exists>k < length cs. \<exists>r. ends_list (drop k cs) r \<and> q = (if r = Breaks then Falls else r))"
      using b by (elim ends_elims(4)) blast+
  next
    assume "\<not> list_ex is_default cs \<and> q = Falls \<or>
        (\<exists>k < length cs. \<exists>r. ends_list (drop k cs) r \<and> q = (if r = Breaks then Falls else r))"
    then show "ends (AST_SWITCH l e cs) q" using switch_none [of cs l e] switch_case [of _ cs _ l e] b by blast
  qed
  show "ends (AST_SWITCH l e cs) Falls \<longleftrightarrow> \<not> list_ex is_default cs \<or>
      (\<exists>k < length cs. ends_list (drop k cs) Falls \<or> ends_list (drop k cs) Breaks)"
    "\<not> ends (AST_SWITCH l e cs) Breaks"
    "ends (AST_SWITCH l e cs) Continues \<longleftrightarrow> (\<exists>k < length cs. ends_list (drop k cs) Continues)"
    unfolding iff by (auto split: if_splits)
qed

lemma switch_exact:
  assumes cases: "\<And>c. c \<in> set cs \<Longrightarrow> \<exists>l v ss next. c = AST_CASE l v ss next"
    and flows: "\<And>c. c \<in> set cs \<Longrightarrow> exact (F c) (ends c)" and reg: "regular (AST_SWITCH l e cs)"
  shows "exact (switch_result True cs (map F cs)) (ends (AST_SWITCH l e cs))"
proof -
  note sw = switch_ends [OF cases, where l = l and e = e]
  have all: "list_all fr_returns (chain_flows (map F cs)) \<longleftrightarrow>
      (\<forall>k < length cs. \<not> ends_list (drop k cs) Falls \<and> \<not> ends_list (drop k cs) Breaks \<and> \<not> ends_list (drop k cs) Continues)"
    using chain_exact(2) [OF flows, of cs] reg unfolding only_exits by simp
  have cont: "ends (AST_SWITCH l e cs) Continues \<longrightarrow> ends (AST_SWITCH l e cs) Falls" using reg by simp
  have ne: "list_ex is_default cs \<Longrightarrow> cs \<noteq> []" by auto
  show ?thesis
    unfolding exact_iff switch_result_def Let_def makeFlow_simps all using sw cont ne by blast
qed

lemma analysis_exact:
  "plain n \<Longrightarrow> regular n \<Longrightarrow> fc_reachable ctx \<Longrightarrow> fc_gotoTargets ctx = [] \<Longrightarrow> exact (verdict ctx n) (ends n)"
proof (induction n arbitrary: ctx rule: measure_induct_rule [where f = size])
  case (less n)
  have r [simp]: "fc_reachable (reached c)" "fc_gotoTargets (reached c) = fc_gotoTargets c" for c by (simp_all add: reached_def)
  have list: "exact (fst (check_list c True False False ss)) (ends_list ss)"
    if "size_list size ss < size n" "plain_list ss" "regular_list ss" "fc_gotoTargets c = []" for c ss
  proof (rule list_exact [OF _ that(3,4)])
    fix x assume x: "x \<in> set ss"
    then show "exact (verdict (reached c) x) (ends x)"
      using less.IH [of x "reached c"] size_mem [of x ss] that plain_mem regular_mem by simp
  qed
  show ?case
  proof (cases n)
    case (AST_BLOCK l ss)
    then show ?thesis using list [of ss ctx] less.prems by (simp add: exact_iff)
  next
    case (AST_IF_STATEMENT l t e)
    then show ?thesis using less.IH [of t ctx] less.IH [of e ctx] less.prems by (auto simp: exact_iff)
  next
    case (AST_FOR_LOOP l i c u b)
    show ?thesis
    proof (cases "c = AST_NULL")
      case True
      have "exact (verdict (ctx\<lparr>fc_inLoop := True\<rparr>) b) (ends b)"
        using less.IH [of b "ctx\<lparr>fc_inLoop := True\<rparr>"] less.prems AST_FOR_LOOP True by simp
      moreover have "conditionlessLoopMayExit b 0 0 \<longleftrightarrow> own_break b"
        using may_exit_own_break(1) [of b 0 0] less.prems(1) AST_FOR_LOOP by simp
      moreover have "ends b Breaks \<Longrightarrow> own_break b" using ends_break(1) by blast
      moreover have "u = AST_NULL" "own_break b \<longrightarrow> ends b Breaks \<or> \<not> ends b Falls \<and> \<not> ends b Continues"
        using less.prems(1,2) AST_FOR_LOOP True by simp_all
      ultimately show ?thesis using AST_FOR_LOOP True by (auto simp: exact_iff Let_def)
    qed (use AST_FOR_LOOP in \<open>simp add: exact_iff Let_def\<close>)
  next
    case (AST_SWITCH l e cs)
    let ?F = "\<lambda>c. fst (check_list (case_context ctx) True False False (case_body c))"
    have flat: "list_all (\<lambda>d. case d of AST_CASE l v ss next \<Rightarrow> next = AST_NULL \<and> case_free_list ss | _ \<Rightarrow> False) cs"
      and pl: "plain_list cs" and reg: "regular (AST_SWITCH l e cs)" using less.prems AST_SWITCH by simp_all
    have cases: "\<exists>l v ss next. c = AST_CASE l v ss next" if "c \<in> set cs" for c
      using flat that by (cases c) (auto simp: list_all_iff)
    have "exact (switch_result True cs (map ?F cs)) (ends (AST_SWITCH l e cs))"
    proof (rule switch_exact [OF cases _ reg])
      fix c assume c: "c \<in> set cs"
      obtain l' v ss nxt where cc: "c = AST_CASE l' v ss nxt" using cases [OF c] by blast
      have "size_list size ss < size n" using size_mem [OF c] cc AST_SWITCH by simp
      moreover have "plain_list ss" "regular_list ss" using plain_mem [OF pl c] regular_mem [OF _ c] reg cc by simp_all
      moreover have "fc_gotoTargets (case_context ctx) = []" using less.prems(4) by (simp add: case_context_def)
      ultimately show "exact (?F c) (ends c)" using list [of ss "case_context ctx"] cc by (simp add: exact_iff)
    qed
    then show ?thesis using AST_SWITCH less.prems(3) by (simp add: flat_owned [OF flat] cases_flows)
  next
    case (AST_CASE l v ss nxt)
    then show ?thesis using list [of ss ctx] less.prems by (simp add: exact_iff)
  next
    case (AST_LABEL_DECLARATION l name s)
    then show ?thesis using less.IH [of s ctx] less.prems by (simp add: exact_iff)
  qed (use less.prems in \<open>auto simp: exact_iff\<close>)
qed


definition plain_host :: HostMacros where
  "plain_host = \<lparr>def_win64 = False, def_aarch64 = False, def_apple = False, def_x86_64 = True, def_riscv64 = False\<rparr>"

definition example_function :: FunctionDefinition where
  "example_function =
    \<lparr>fdef_name = Some ''f'', fdef_returnType = primitive_type TOKEN_INT,
     fdef_body = AST_BLOCK 1
       [AST_IF_STATEMENT 2 (AST_RETURN 2) AST_NULL,
        AST_SWITCH 3 (AST_OTHER 3) [AST_CASE 4 True [AST_OTHER 4] AST_NULL, AST_CASE 5 False [AST_RETURN 5] AST_NULL]]\<rparr>"


text \<open>
  Breaks that are not visible: in \<open>for (;;) { if (c) break; return; }\<close> and in
  \<open>switch (x) { default: if (c) break; return; }\<close> the body is judged to return although it can break, so the
  end of a function with this body is judged unreachable although it is reached.
\<close>

definition hidden_break_body :: "node list" where
  "hidden_break_body = [AST_IF_STATEMENT 2 (AST_BREAK 2) AST_NULL, AST_RETURN 3]"

theorem hidden_break_missed:
  "fr_stops (verdict (flow_start AST_NULL) (AST_FOR_LOOP 1 AST_NULL AST_NULL AST_NULL (AST_BLOCK 1 hidden_break_body))) \<and>
   ends (AST_FOR_LOOP 1 AST_NULL AST_NULL AST_NULL (AST_BLOCK 1 hidden_break_body)) Falls \<and>
   fr_stops (verdict (flow_start AST_NULL) (AST_SWITCH 1 (AST_OTHER 1) [AST_CASE 1 False hidden_break_body AST_NULL])) \<and>
   ends (AST_SWITCH 1 (AST_OTHER 1) [AST_CASE 1 False hidden_break_body AST_NULL]) Falls"
proof (intro conjI)
  have b: "ends_list hidden_break_body Breaks"
    unfolding hidden_break_body_def by (rule cons_stop, rule if_then, rule break) simp
  show "fr_stops (verdict (flow_start AST_NULL) (AST_FOR_LOOP 1 AST_NULL AST_NULL AST_NULL (AST_BLOCK 1 hidden_break_body)))"
    by code_simp
  show "ends (AST_FOR_LOOP 1 AST_NULL AST_NULL AST_NULL (AST_BLOCK 1 hidden_break_body)) Falls"
    by (rule for_break, rule block, rule b)
  show "fr_stops (verdict (flow_start AST_NULL) (AST_SWITCH 1 (AST_OTHER 1) [AST_CASE 1 False hidden_break_body AST_NULL]))"
    by code_simp
  show "ends (AST_SWITCH 1 (AST_OTHER 1) [AST_CASE 1 False hidden_break_body AST_NULL]) Falls"
    using switch_case [of 0 "[AST_CASE 1 False hidden_break_body AST_NULL]" Breaks 1 "AST_OTHER 1"] b by simp
qed

text \<open>
  Ends that cannot be reached but are reported: after \<open>for (;; i++) { }\<close>, whose update part keeps it from being taken
  as endless; after \<open>for (;;) { continue; break; }\<close>; and after a switch whose default case continues an outer loop.
\<close>

theorem endless_loop_with_update_reported:
  "\<not> fr_stops (verdict ctx (AST_FOR_LOOP 1 AST_NULL AST_NULL (AST_OTHER 1) (AST_BLOCK 1 []))) \<and>
   \<not> ends (AST_FOR_LOOP 1 AST_NULL AST_NULL (AST_OTHER 1) (AST_BLOCK 1 [])) Falls \<and>
   \<not> fr_stops (verdict (flow_start AST_NULL) (AST_FOR_LOOP 1 AST_NULL AST_NULL AST_NULL (AST_BLOCK 1 [AST_CONTINUE 1, AST_BREAK 1]))) \<and>
   \<not> ends (AST_FOR_LOOP 1 AST_NULL AST_NULL AST_NULL (AST_BLOCK 1 [AST_CONTINUE 1, AST_BREAK 1])) Falls \<and>
   \<not> fr_stops (verdict (flow_start AST_NULL) (AST_SWITCH 1 (AST_OTHER 1) [AST_CASE 1 False [AST_CONTINUE 1] AST_NULL])) \<and>
   \<not> ends (AST_SWITCH 1 (AST_OTHER 1) [AST_CASE 1 False [AST_CONTINUE 1] AST_NULL]) Falls"
proof (intro conjI)
  show "\<not> fr_stops (verdict (flow_start AST_NULL) (AST_FOR_LOOP 1 AST_NULL AST_NULL AST_NULL (AST_BLOCK 1 [AST_CONTINUE 1, AST_BREAK 1])))"
    "\<not> fr_stops (verdict (flow_start AST_NULL) (AST_SWITCH 1 (AST_OTHER 1) [AST_CASE 1 False [AST_CONTINUE 1] AST_NULL]))"
    by code_simp+
  show "\<not> ends (AST_SWITCH 1 (AST_OTHER 1) [AST_CASE 1 False [AST_CONTINUE 1] AST_NULL]) Falls"
    by (subst switch_ends(1)) (auto simp: is_default_def)
qed (simp_all add: Let_def)

end
