(* ===== verification/Lexer_Source.thy ===== *)
theory Lexer_Source
  imports Tokens Strtoull
begin

text \<open>
  The source text of the scanner, \<open>src/src/Lexer/lexer.c\<close>: the lexer state, the first translation phases
  (trigraphs, line splices, digraphs) with the map back to the raw text, \<open>#line\<close> directives, the reports of
  lexical errors, and universal and UTF-8 characters in identifiers. Positions and lengths are natural
  numbers (a source has fewer than \<open>2 ^ 31\<close> bytes); reading at or past the end of the text gives the
  terminating NUL. A report holds what \<open>compiler_report_diag\<close> is given; the copy on the error stream is left out.
\<close>

section \<open>Character classes\<close>

text \<open>\<open>isalnum\<close>, \<open>isxdigit\<close> and \<open>isprint\<close> of the C locale.\<close>

definition is_alnum :: "char \<Rightarrow> bool" where
  "is_alnum c \<longleftrightarrow> is_alpha c \<or> is_digit c"

definition is_xdigit :: "char \<Rightarrow> bool" where
  "is_xdigit c \<longleftrightarrow> hex_val c \<noteq> None"

definition is_print :: "char \<Rightarrow> bool" where
  "is_print c \<longleftrightarrow> 32 \<le> (of_char c :: nat) \<and> (of_char c :: nat) \<le> 126"

text \<open>What a name is made of, and the blanks of a directive line.\<close>

definition is_word_char :: "char \<Rightarrow> bool" where
  "is_word_char c \<longleftrightarrow> is_alnum c \<or> c = CHR ''_''"

definition is_blank :: "char \<Rightarrow> bool" where
  "is_blank c \<longleftrightarrow> c = CHR '' '' \<or> c = CHR 0x09"

abbreviation NL :: char where "NL \<equiv> CHR 0x0A"
abbreviation CR :: char where "CR \<equiv> CHR 0x0D"
abbreviation backslash :: char where "backslash \<equiv> CHR 0x5C"
abbreviation dquote :: char where "dquote \<equiv> CHR 0x22"
abbreviation squote :: char where "squote \<equiv> CHR 0x27"
abbreviation NUL :: char where "NUL \<equiv> CHR 0x00"

section \<open>The state\<close>

record LexerReport =
  rp_file :: cstr
  rp_line :: int
  rp_column :: int
  rp_text :: string

record Lexer =
  lx_source :: string
  lx_filePath :: cstr
  lx_position :: nat
  lx_line :: int
  lx_lineStart :: nat
  lx_fatalErrorCount :: nat
  lx_rawSource :: string
  lx_rawLineMap :: "int list"
  lx_rawColumnMap :: "int list"
  lx_enableTrigraphs :: bool
  lx_reports :: "LexerReport list"

record LexerMark =
  mark_position :: nat
  mark_line :: int
  mark_lineStart :: nat

abbreviation lx_length :: "Lexer \<Rightarrow> nat" where
  "lx_length lx \<equiv> length (lx_source lx)"

definition char_at :: "string \<Rightarrow> nat \<Rightarrow> char" where
  "char_at s i = (if i < length s then s ! i else NUL)"

abbreviation source_at :: "Lexer \<Rightarrow> nat \<Rightarrow> char" where
  "source_at lx i \<equiv> char_at (lx_source lx) i"

definition lexer_file_path :: "Lexer \<Rightarrow> string" where
  "lexer_file_path lx = (case lx_filePath lx of Some f \<Rightarrow> f | None \<Rightarrow> ''<unknown>'')"

definition isEOF :: "Lexer \<Rightarrow> bool" where
  "isEOF lx \<longleftrightarrow> lx_position lx \<ge> lx_length lx \<or> source_at lx (lx_position lx) = NUL"

definition lexer_mark :: "Lexer \<Rightarrow> LexerMark" where
  "lexer_mark lx = \<lparr>mark_position = lx_position lx, mark_line = lx_line lx, mark_lineStart = lx_lineStart lx\<rparr>"

section \<open>Translation of the source\<close>

text \<open>\<open>NUL\<close> when there is no such trigraph.\<close>

definition translate_trigraph_char :: "char \<Rightarrow> char" where
  "translate_trigraph_char c =
    (if c = CHR ''='' then CHR ''#''
     else if c = CHR ''/'' then backslash
     else if c = squote then CHR ''^''
     else if c = CHR ''<'' then CHR ''{''
     else if c = CHR ''>'' then CHR ''}''
     else if c = CHR ''!'' then CHR ''|''
     else if c = CHR ''('' then CHR ''[''
     else if c = CHR '')'' then CHR '']''
     else if c = CHR ''-'' then CHR ''~''
     else NUL)"

text \<open>The line and the column after the characters that \<open>advance_raw_position\<close> passes.\<close>

fun advance_raw_position :: "int \<times> int \<Rightarrow> string \<Rightarrow> int \<times> int" where
  "advance_raw_position lc [] = lc"
| "advance_raw_position (line, column) (c # cs) =
    advance_raw_position (if c = NL then (line + 1, 1) else (line, column + 1)) cs"

text \<open>
  One turn of the loop of \<open>translate_source\<close>, on what is left of the raw text: the characters it writes, each
  with its column offset, how many characters it passes, and whether it saw a trigraph.
\<close>

definition trigraph_step :: "string \<Rightarrow> (char \<times> nat) list \<times> nat \<times> bool" where
  "trigraph_step cs =
    (let mapped = translate_trigraph_char (cs ! 2) in
     if mapped = backslash \<and> 3 < length cs \<and> cs ! 3 = NL then ([], 4, True)
     else if mapped = backslash \<and> 4 < length cs \<and> cs ! 3 = CR \<and> cs ! 4 = NL then ([], 5, True)
     else ([(mapped, 0)], 3, True))"

definition starts_with :: "string \<Rightarrow> string \<Rightarrow> bool" where
  "starts_with prefix cs \<longleftrightarrow> take (length prefix) cs = prefix"

definition translate_step :: "bool \<Rightarrow> string \<Rightarrow> (char \<times> nat) list \<times> nat \<times> bool" where
  "translate_step enableTrigraphs cs =
    (if enableTrigraphs \<and> 2 < length cs \<and> starts_with ''??'' cs \<and> translate_trigraph_char (cs ! 2) \<noteq> NUL then trigraph_step cs
     else if starts_with [backslash, NL] cs then ([], 2, False)
     else if starts_with [backslash, CR, NL] cs then ([], 3, False)
     else if starts_with ''%:%:'' cs then ([(CHR ''#'', 0), (CHR ''#'', 2)], 4, False)
     else if starts_with ''%:'' cs then ([(CHR ''#'', 0)], 2, False)
     else if starts_with ''<:'' cs then ([(CHR ''['', 0)], 2, False)
     else if starts_with '':>'' cs then ([(CHR '']'', 0)], 2, False)
     else if starts_with ''<%'' cs then ([(CHR ''{'', 0)], 2, False)
     else if starts_with ''%>'' cs then ([(CHR ''}'', 0)], 2, False)
     else ([(char_at cs 0, 0)], 1, False))"

lemma translate_step_advances: "translate_step en cs = (written, count, saw) \<Longrightarrow> count > 0"
  by (auto simp: translate_step_def trigraph_step_def Let_def split: if_splits)

text \<open>The loop: what is written, with line and column, and the position behind the last character.\<close>

function translate_loop :: "bool \<Rightarrow> int \<times> int \<Rightarrow> string \<Rightarrow> (char \<times> int \<times> int) list \<times> (int \<times> int) \<times> bool" where
  "translate_loop en lc cs =
    (if cs = [] then ([], lc, False)
     else case translate_step en cs of (written, count, saw) \<Rightarrow>
       case translate_loop en (advance_raw_position lc (take count cs)) (drop count cs) of (rest, final, saw') \<Rightarrow>
         (map (\<lambda>(c, k). (c, fst lc, snd lc + int k)) written @ rest, final, saw \<or> saw'))"
  by pat_completeness auto
termination
  by (relation "measure (\<lambda>(en, lc, cs). length cs)") (auto dest!: translate_step_advances [OF sym])

declare translate_loop.simps [simp del]

text \<open>The text, the line map and the column map (one entry more than the text) and whether a trigraph was seen.\<close>

definition translate_source :: "string \<Rightarrow> bool \<Rightarrow> string \<times> int list \<times> int list \<times> bool" where
  "translate_source source enableTrigraphs =
    (case translate_loop enableTrigraphs (1, 1) source of (out, final, saw) \<Rightarrow>
      (map fst out, map (\<lambda>(c, l, k). l) out @ [fst final], map (\<lambda>(c, l, k). k) out @ [snd final], saw))"

definition initLexer :: "cstr \<Rightarrow> cstr \<Rightarrow> bool \<Rightarrow> Lexer" where
  "initLexer source filePath enableTrigraphs =
    (let raw = (case source of Some s \<Rightarrow> s | None \<Rightarrow> '''');
         (text, lines, columns, saw) = translate_source raw enableTrigraphs
     in \<lparr>lx_source = text, lx_filePath = filePath, lx_position = 0, lx_line = 1, lx_lineStart = 0,
         lx_fatalErrorCount = 0, lx_rawSource = raw, lx_rawLineMap = lines, lx_rawColumnMap = columns,
         lx_enableTrigraphs = enableTrigraphs, lx_reports = []\<rparr>)"

definition destroyLexer :: "Lexer \<Rightarrow> Lexer" where
  "destroyLexer lx = lx\<lparr>lx_rawLineMap := [], lx_rawColumnMap := [], lx_rawSource := '''', lx_source := ''''\<rparr>"

section \<open>White space\<close>

text \<open>The turn of the loop of \<open>skipWhitespace\<close> at the current position; \<open>None\<close> leaves the loop.\<close>

definition skip_turn :: "Lexer \<Rightarrow> Lexer option" where
  "skip_turn lx =
    (let p = lx_position lx; c = source_at lx p; next = source_at lx (p + 1); next2 = source_at lx (p + 2) in
     if c = backslash \<and> next = NL then Some (lx\<lparr>lx_position := p + 2\<rparr>)
     else if c = backslash \<and> next = CR \<and> next2 = NL then Some (lx\<lparr>lx_position := p + 3\<rparr>)
     else if \<not> is_space c then None
     else if c = NL then Some (lx\<lparr>lx_position := p + 1, lx_line := lx_line lx + 1, lx_lineStart := p + 1\<rparr>)
     else Some (lx\<lparr>lx_position := p + 1\<rparr>))"

lemma skip_turn_advances: "skip_turn lx = Some lx' \<Longrightarrow> lx_source lx' = lx_source lx \<and> lx_position lx' > lx_position lx"
  by (auto simp: skip_turn_def Let_def split: if_splits)

function skipWhitespace :: "Lexer \<Rightarrow> Lexer" where
  "skipWhitespace lx =
    (if lx_position lx < lx_length lx then (case skip_turn lx of None \<Rightarrow> lx | Some lx' \<Rightarrow> skipWhitespace lx') else lx)"
  by pat_completeness auto
termination
  by (relation "measure (\<lambda>lx. lx_length lx - lx_position lx)") (auto dest!: skip_turn_advances)

declare skipWhitespace.simps [simp del]

section \<open>Line directives\<close>

text \<open>The digits of a line number; \<open>None\<close> as soon as it exceeds the largest \<open>int\<close>.\<close>

fun read_line_number :: "int \<Rightarrow> string \<Rightarrow> (int \<times> string) option" where
  "read_line_number acc [] = Some (acc, [])"
| "read_line_number acc (c # cs) =
    (if \<not> is_digit c then Some (acc, c # cs)
     else let requested = acc * 10 + int (digit_val c)
          in if requested > 2147483647 then None else read_line_number requested cs)"

text \<open>The file name that may follow the line number, up to the closing quote.\<close>

definition directive_file :: "string \<Rightarrow> cstr option" where
  "directive_file p =
    (if p \<noteq> [] \<and> hd p = dquote
     then if dropWhile (\<lambda>c. c \<noteq> dquote) (tl p) = [] then None else Some (Some (takeWhile (\<lambda>c. c \<noteq> dquote) (tl p)))
     else Some None)"

text \<open>The line that a \<open>#line\<close> directive asks for and its file name, where it has one.\<close>

definition lexer_parse_line_directive :: "string \<Rightarrow> (int \<times> cstr) option" where
  "lexer_parse_line_directive line =
    (let p = dropWhile is_blank line; q = dropWhile is_blank (tl p); r = dropWhile is_blank (drop 4 q) in
     if p = [] \<or> hd p \<noteq> CHR ''#'' then None
     else if \<not> starts_with ''line'' q then None
     else if 4 < length q \<and> is_word_char (q ! 4) then None
     else if r = [] \<or> \<not> is_digit (hd r) then None
     else case read_line_number 0 r of
         None \<Rightarrow> None
       | Some (requested, rest) \<Rightarrow>
           if requested \<le> 0 then None else map_option (Pair requested) (directive_file (dropWhile is_blank rest)))"

definition lexer_line_is_spliced_hash_directive_prefix :: "string \<Rightarrow> bool" where
  "lexer_line_is_spliced_hash_directive_prefix line =
    (let p = dropWhile is_blank line; q = dropWhile is_blank (tl p) in
     p \<noteq> [] \<and> hd p = CHR ''#'' \<and> q \<noteq> [] \<and> hd q = backslash \<and> dropWhile (\<lambda>c. is_blank c \<or> c = CR) (tl q) = [])"

text \<open>\<open>nextLine\<close> is the text behind the newline of the line, \<open>None\<close> when the line is the last one.\<close>

definition lexer_parse_spliced_line_directive :: "string \<Rightarrow> cstr \<Rightarrow> (int \<times> cstr) option" where
  "lexer_parse_spliced_line_directive line nextLine =
    (case nextLine of
       None \<Rightarrow> None
     | Some next \<Rightarrow>
         if lexer_line_is_spliced_hash_directive_prefix line
         then lexer_parse_line_directive (CHR ''#'' # takeWhile (\<lambda>c. c \<noteq> NL) next) else None)"

text \<open>A non-empty file name replaces the one in force.\<close>

definition new_file :: "cstr \<Rightarrow> cstr \<Rightarrow> cstr" where
  "new_file given current = (case given of Some f \<Rightarrow> if f = [] then current else Some f | None \<Rightarrow> current)"

text \<open>The offset and the file in force behind one line.\<close>

definition line_effect :: "string \<Rightarrow> cstr \<Rightarrow> int \<Rightarrow> int \<Rightarrow> cstr \<Rightarrow> int \<times> cstr" where
  "line_effect line nextLine currentLine lineOffset logicalFile =
    (case lexer_parse_line_directive line of
       Some (requested, given) \<Rightarrow> (requested - (currentLine + 1), new_file given logicalFile)
     | None \<Rightarrow>
         (case lexer_parse_spliced_line_directive line nextLine of
            Some (requested, given) \<Rightarrow> (requested - (currentLine + 2), new_file given logicalFile)
          | None \<Rightarrow> (lineOffset, logicalFile)))"

lemma tl_dropWhile_shorter: "p \<noteq> [] \<Longrightarrow> length (tl (dropWhile P p)) < length p"
  using length_dropWhile_le [of P p] by (cases p) auto

function line_offset :: "int \<Rightarrow> string \<Rightarrow> int \<Rightarrow> int \<Rightarrow> cstr \<Rightarrow> int \<times> cstr" where
  "line_offset physicalLine p currentLine lineOffset logicalFile =
    (if p = [] \<or> currentLine \<ge> physicalLine then (lineOffset, logicalFile)
     else let line = takeWhile (\<lambda>c. c \<noteq> NL) p; rest = dropWhile (\<lambda>c. c \<noteq> NL) p;
              nextLine = (if rest = [] then None else Some (tl rest))
          in case line_effect line nextLine currentLine lineOffset logicalFile of (offset, file) \<Rightarrow>
               line_offset physicalLine (tl rest) (currentLine + 1) offset file)"
  by pat_completeness auto
termination
  by (relation "measure (\<lambda>(l, p, k, d, f). length p)") (simp_all add: tl_dropWhile_shorter del: length_tl)

declare line_offset.simps [simp del]

text \<open>
  The sum is computed in an \<open>int\<close>; it wraps here where C leaves the overflow undefined (a \<open>#line\<close> near the
  largest \<open>int\<close>). The file name is cut to its buffer of 4096 bytes.
\<close>

definition lexer_map_logical_location :: "Lexer \<Rightarrow> int \<Rightarrow> int \<times> string" where
  "lexer_map_logical_location lx physicalLine =
    (if physicalLine \<le> 0 then (physicalLine, lexer_file_path lx)
     else let (offset, file) = line_offset physicalLine (lx_rawSource lx) 1 0 None;
              mapped = signed_take_bit 31 (physicalLine + offset)
          in (if mapped < 1 then 1 else mapped, case file of Some f \<Rightarrow> take 4095 f | None \<Rightarrow> lexer_file_path lx))"

definition system_prefixes :: "string list" where
  "system_prefixes =
    [''/usr/include/'', ''/usr/local/include/'', ''/opt/homebrew/include/'', ''/Library/Developer/'',
     ''/Applications/Xcode.app/'', ''/Applications/Xcode-beta.app/'', ''/Library/Frameworks/'', ''/System/Library/'']"

definition lexer_is_system_header_path :: "string \<Rightarrow> bool" where
  "lexer_is_system_header_path path =
    (path \<noteq> [] \<and> hd path = CHR ''/'' \<and> list_ex (\<lambda>prefix. starts_with prefix path) system_prefixes)"

section \<open>Locations, reports and tokens\<close>

definition lexer_compute_column :: "nat \<Rightarrow> nat \<Rightarrow> int" where
  "lexer_compute_column position lineStart =
    (let column = (int position - int lineStart) + 1 in if column < 1 then 1 else column)"

text \<open>The raw line of a position; the raw column only when the line differs from the line counted so far.\<close>

definition lexer_raw_location_for_position :: "Lexer \<Rightarrow> nat \<Rightarrow> int \<Rightarrow> nat \<Rightarrow> int \<times> int" where
  "lexer_raw_location_for_position lx position fallbackLine fallbackLineStart =
    (let column = lexer_compute_column position fallbackLineStart in
     if position \<le> lx_length lx \<and> position < length (lx_rawLineMap lx) \<and> position < length (lx_rawColumnMap lx)
     then let mappedLine = lx_rawLineMap lx ! position; mappedColumn = lx_rawColumnMap lx ! position in
          if mappedLine > 0 then (mappedLine, if mappedLine \<noteq> fallbackLine \<and> mappedColumn > 0 then mappedColumn else column)
          else (fallbackLine, column)
     else (fallbackLine, column))"

definition lexer_mark_source_location :: "Lexer \<Rightarrow> LexerMark \<Rightarrow> int \<times> int" where
  "lexer_mark_source_location lx start =
    lexer_raw_location_for_position lx (mark_position start) (mark_line start) (mark_lineStart start)"

text \<open>Both reporting functions: the location of the mark, mapped through the \<open>#line\<close> directives, and one more error.\<close>

definition add_report :: "Lexer \<Rightarrow> LexerMark \<Rightarrow> string \<Rightarrow> Lexer" where
  "add_report lx start text =
    (let (rawLine, rawColumn) = lexer_mark_source_location lx start;
         (logicalLine, logicalFile) = lexer_map_logical_location lx rawLine
     in lx\<lparr>lx_fatalErrorCount := lx_fatalErrorCount lx + 1,
           lx_reports := lx_reports lx @
             [\<lparr>rp_file = Some logicalFile, rp_line = logicalLine, rp_column = rawColumn, rp_text = text\<rparr>]\<rparr>)"

definition report_lexer_error :: "Lexer \<Rightarrow> LexerMark \<Rightarrow> string \<Rightarrow> string \<Rightarrow> Lexer" where
  "report_lexer_error lx start message got =
    add_report lx start (if got = [] then message else message @ '' (got '' @ [squote] @ got @ [squote] @ '')'')"

definition report_unsupported_ucn_identifier :: "Lexer \<Rightarrow> LexerMark \<Rightarrow> string \<Rightarrow> Lexer" where
  "report_unsupported_ucn_identifier lx start text =
    add_report lx start
      (''universal character names in identifiers are not supported yet (got '' @ [squote] @ text @ [squote] @ '')'')"

definition lexer_build_location :: "Lexer \<Rightarrow> nat \<Rightarrow> int \<Rightarrow> nat \<Rightarrow> SourceLocation" where
  "lexer_build_location lx position line lineStart =
    \<lparr>sl_file = Some (lexer_file_path lx), sl_line = line, sl_column = lexer_compute_column position lineStart\<rparr>"

definition lexer_build_range :: "Lexer \<Rightarrow> LexerMark \<Rightarrow> SourceRange" where
  "lexer_build_range lx start =
    \<lparr>sr_start = lexer_build_location lx (mark_position start) (mark_line start) (mark_lineStart start),
     sr_end = lexer_build_location lx (lx_position lx) (lx_line lx) (lx_lineStart lx)\<rparr>"

definition make_token :: "Lexer \<Rightarrow> TokenType \<Rightarrow> string \<Rightarrow> LexerMark \<Rightarrow> Token" where
  "make_token lx ty v start =
    (let (spellingLine, spellingColumn) = lexer_mark_source_location lx start in
     \<lparr>tk_type = ty, tk_value = Some v, tk_line = mark_line start, tk_spellingLine = spellingLine,
      tk_spellingColumn = spellingColumn, tk_location = lexer_build_range lx start,
      tk_macroCallSite = no_range, tk_macroDefinition = no_range\<rparr>)"

section \<open>Characters of identifiers\<close>

definition lexer_hex_value :: "char \<Rightarrow> int" where
  "lexer_hex_value c = (case hex_val c of Some v \<Rightarrow> int v | None \<Rightarrow> -1)"

definition lexer_ucn_is_supported_identifier_character :: "32 word \<Rightarrow> bool" where
  "lexer_ucn_is_supported_identifier_character cp \<longleftrightarrow>
    (0x0370 \<le> cp \<and> cp \<le> 0x0373) \<or> (0x0376 \<le> cp \<and> cp \<le> 0x0377) \<or> (0x037B \<le> cp \<and> cp \<le> 0x037D) \<or>
    cp = 0x037F \<or> cp = 0x0386 \<or> (0x0388 \<le> cp \<and> cp \<le> 0x038A) \<or> cp = 0x038C \<or>
    (0x038E \<le> cp \<and> cp \<le> 0x03A1) \<or> (0x03A3 \<le> cp \<and> cp \<le> 0x03F5) \<or> (0x03F7 \<le> cp \<and> cp \<le> 0x03FF)"

text \<open>The code point of a run of hexadecimal digits, \<open>None\<close> at another character.\<close>

fun ucn_digits :: "32 word \<Rightarrow> string \<Rightarrow> 32 word option" where
  "ucn_digits acc [] = Some acc"
| "ucn_digits acc (c # cs) =
    (if lexer_hex_value c < 0 then None else ucn_digits (push_bit 4 acc OR word_of_int (lexer_hex_value c)) cs)"

definition valid_codepoint :: "32 word \<Rightarrow> bool" where
  "valid_codepoint cp \<longleftrightarrow> cp \<le> 0x10FFFF \<and> \<not> (0xD800 \<le> cp \<and> cp \<le> 0xDFFF)"

definition lexer_identifier_ucn_length :: "Lexer \<Rightarrow> nat \<Rightarrow> nat" where
  "lexer_identifier_ucn_length lx position =
    (if position + 1 \<ge> lx_length lx \<or> source_at lx position \<noteq> backslash \<or>
        (source_at lx (position + 1) \<noteq> CHR ''u'' \<and> source_at lx (position + 1) \<noteq> CHR ''U'') then 0
     else let digits = (if source_at lx (position + 1) = CHR ''u'' then 4 else 8);
              text = take digits (drop (position + 2) (lx_source lx))
          in if length text < digits then 0
             else case ucn_digits 0 text of
                 None \<Rightarrow> 0
               | Some cp \<Rightarrow>
                   if \<not> valid_codepoint cp \<or> \<not> lexer_ucn_is_supported_identifier_character cp then 0 else digits + 2)"

abbreviation byte :: "char \<Rightarrow> 32 word" where
  "byte c \<equiv> word_of_nat (of_char c)"

text \<open>How many bytes a lead byte asks for, with its payload; 0 for a byte that leads nothing.\<close>

definition utf8_lead :: "32 word \<Rightarrow> nat \<times> 32 word" where
  "utf8_lead b =
    (if 0xC2 \<le> b \<and> b \<le> 0xDF then (2, b AND 0x1F)
     else if 0xE0 \<le> b \<and> b \<le> 0xEF then (3, b AND 0x0F)
     else if 0xF0 \<le> b \<and> b \<le> 0xF4 then (4, b AND 0x07)
     else (0, 0))"

fun utf8_tail :: "32 word \<Rightarrow> string \<Rightarrow> 32 word option" where
  "utf8_tail cp [] = Some cp"
| "utf8_tail cp (c # cs) =
    (if byte c AND 0xC0 \<noteq> 0x80 then None else utf8_tail (push_bit 6 cp OR (byte c AND 0x3F)) cs)"

text \<open>The length and the code point of the UTF-8 character at the start of a text; \<open>None\<close> for the length 0.\<close>

definition lexer_decode_utf8 :: "string \<Rightarrow> (nat \<times> 32 word) option" where
  "lexer_decode_utf8 text =
    (if text = [] then None
     else case utf8_lead (byte (hd text)) of (len, payload) \<Rightarrow>
       if len = 0 \<or> len > length text then None
       else case utf8_tail payload (take (len - 1) (tl text)) of
           None \<Rightarrow> None
         | Some cp \<Rightarrow>
             if (len = 3 \<and> cp < 0x800) \<or> (len = 4 \<and> cp < 0x10000) \<or> \<not> valid_codepoint cp then None else Some (len, cp))"

definition lexer_identifier_utf8_length :: "Lexer \<Rightarrow> nat \<Rightarrow> nat" where
  "lexer_identifier_utf8_length lx position =
    (if position \<ge> lx_length lx then 0
     else case lexer_decode_utf8 (drop position (lx_source lx)) of
         None \<Rightarrow> 0
       | Some (len, cp) \<Rightarrow> if lexer_ucn_is_supported_identifier_character cp then len else 0)"

definition utf8_byte :: "32 word \<Rightarrow> char" where
  "utf8_byte b = char_of (unat b)"

definition lexer_encode_utf8 :: "32 word \<Rightarrow> string" where
  "lexer_encode_utf8 cp =
    (if cp \<le> 0x7F then [utf8_byte cp]
     else if cp \<le> 0x7FF then [utf8_byte (0xC0 OR drop_bit 6 cp), utf8_byte (0x80 OR (cp AND 0x3F))]
     else if cp \<le> 0xFFFF
     then [utf8_byte (0xE0 OR drop_bit 12 cp), utf8_byte (0x80 OR (drop_bit 6 cp AND 0x3F)), utf8_byte (0x80 OR (cp AND 0x3F))]
     else [utf8_byte (0xF0 OR drop_bit 18 cp), utf8_byte (0x80 OR (drop_bit 12 cp AND 0x3F)),
           utf8_byte (0x80 OR (drop_bit 6 cp AND 0x3F)), utf8_byte (0x80 OR (cp AND 0x3F))])"

text \<open>Universal character names become UTF-8; every other character is kept.\<close>

function lexer_normalize_identifier_spelling :: "string \<Rightarrow> string" where
  "lexer_normalize_identifier_spelling text =
    (if text = [] then []
     else let c = char_at text 1; digits = (if c = CHR ''u'' then 4 else 8); hex = take digits (drop 2 text) in
       if char_at text 0 = backslash \<and> (c = CHR ''u'' \<or> c = CHR ''U'') \<and> length hex = digits \<and> ucn_digits 0 hex \<noteq> None
       then lexer_encode_utf8 (the (ucn_digits 0 hex)) @ lexer_normalize_identifier_spelling (drop (2 + digits) text)
       else char_at text 0 # lexer_normalize_identifier_spelling (tl text))"
  by pat_completeness auto
termination
  by (relation "measure length") auto

declare lexer_normalize_identifier_spelling.simps [simp del]

end
