(* ===== verification/Lexer_Tokens.thy ===== *)
theory Lexer_Tokens
  imports Lexer_Source
begin

text \<open>
  The scanner, \<open>src/src/Lexer/lexer_token_handlers.c\<close>, \<open>keyword_lookup.c\<close> and \<open>getNextToken\<close> of \<open>lexer.c\<close>. Each
  handler is a function from the lexer state to a token and the state behind it. A comment is passed by
  calling \<open>getNextToken\<close> again: the handlers say so with \<open>Rescan\<close>. The texts of some tokens are string constants
  of the program and others are allocated; the handlers of literals tell which, because
  \<open>prepend_literal_prefix\<close> frees the text it replaces. Signed values of character constants wrap where C leaves
  the overflow undefined. The debug output is left out.
\<close>

section \<open>Keywords\<close>

definition kKeywords :: "(string \<times> nat) list" where
  "kKeywords =
    [(''int'', 3), (''char'', 4), (''float'', 5), (''double'', 6), (''long'', 4), (''short'', 5),
     (''signed'', 6), (''unsigned'', 8), (''enum'', 4), (''union'', 5), (''struct'', 6), (''typedef'', 7),
     (''void'', 4), (''if'', 2), (''else'', 4), (''for'', 3), (''while'', 5), (''do'', 2),
     (''switch'', 6), (''case'', 4), (''default'', 7), (''return'', 6), (''goto'', 4), (''break'', 5),
     (''continue'', 8), (''extern'', 6), (''static'', 6), (''auto'', 4), (''register'', 8), (''_Thread_local'', 13),
     (''__thread'', 8), (''const'', 5), (''volatile'', 8), (''restrict'', 8), (''inline'', 6), (''_Atomic'', 7),
     (''_Noreturn'', 9), (''sizeof'', 6), (''_Alignof'', 8), (''alignof'', 7), (''_Static_assert'', 14), (''_Bool'', 5),
     (''asm'', 3), (''_Complex'', 8), (''_Imaginary'', 10), (''pragma'', 6), (''once'', 4)]"

text \<open>The loop over the table; \<open>memcmp\<close> compares the first \<open>len\<close> bytes.\<close>

definition in_keyword_set :: "cstr \<Rightarrow> nat \<Rightarrow> cstr" where
  "in_keyword_set str len =
    (case str of
       None \<Rightarrow> None
     | Some s \<Rightarrow> map_option fst (List.find (\<lambda>(name, n). n = len \<and> take len s = take len name) kKeywords))"

definition lookupKeyword :: "string \<Rightarrow> nat \<Rightarrow> cstr" where
  "lookupKeyword str len = in_keyword_set (Some str) len"

definition keyword_types :: "(string \<times> TokenType) list" where
  "keyword_types =
    [(''int'', TOKEN_INT), (''char'', TOKEN_CHAR), (''float'', TOKEN_FLOAT), (''double'', TOKEN_DOUBLE),
     (''_Bool'', TOKEN_BOOL), (''_Complex'', TOKEN_COMPLEX), (''__complex'', TOKEN_COMPLEX), (''__complex__'', TOKEN_COMPLEX),
     (''_Imaginary'', TOKEN_IMAGINARY), (''__imaginary'', TOKEN_IMAGINARY), (''__imaginary__'', TOKEN_IMAGINARY), (''long'', TOKEN_LONG),
     (''short'', TOKEN_SHORT), (''signed'', TOKEN_SIGNED), (''__signed'', TOKEN_SIGNED), (''__signed__'', TOKEN_SIGNED),
     (''unsigned'', TOKEN_UNSIGNED), (''enum'', TOKEN_ENUM), (''union'', TOKEN_UNION), (''struct'', TOKEN_STRUCT),
     (''typedef'', TOKEN_TYPEDEF), (''void'', TOKEN_VOID), (''__inline'', TOKEN_INLINE), (''__inline__'', TOKEN_INLINE),
     (''if'', TOKEN_IF), (''else'', TOKEN_ELSE), (''for'', TOKEN_FOR), (''while'', TOKEN_WHILE),
     (''do'', TOKEN_DO), (''switch'', TOKEN_SWITCH), (''case'', TOKEN_CASE), (''default'', TOKEN_DEFAULT),
     (''return'', TOKEN_RETURN), (''goto'', TOKEN_GOTO), (''break'', TOKEN_BREAK), (''continue'', TOKEN_CONTINUE),
     (''extern'', TOKEN_EXTERN), (''static'', TOKEN_STATIC), (''auto'', TOKEN_AUTO), (''register'', TOKEN_REGISTER),
     (''_Thread_local'', TOKEN_THREAD_LOCAL), (''__thread'', TOKEN_THREAD_LOCAL), (''const'', TOKEN_CONST), (''__const'', TOKEN_CONST),
     (''__const__'', TOKEN_CONST), (''volatile'', TOKEN_VOLATILE), (''restrict'', TOKEN_RESTRICT), (''__restrict'', TOKEN_RESTRICT),
     (''__restrict__'', TOKEN_RESTRICT), (''inline'', TOKEN_INLINE), (''_Atomic'', TOKEN_ATOMIC), (''_Noreturn'', TOKEN_NORETURN),
     (''sizeof'', TOKEN_SIZEOF), (''_Alignof'', TOKEN_ALIGNOF), (''alignof'', TOKEN_ALIGNOF), (''_Static_assert'', TOKEN_STATIC_ASSERT),
     (''asm'', TOKEN_ASM), (''pragma'', TOKEN_PRAGMA), (''once'', TOKEN_ONCE)]"

definition keywordToTokenType :: "string \<Rightarrow> TokenType" where
  "keywordToTokenType word = (case map_of keyword_types word of Some t \<Rightarrow> t | None \<Rightarrow> TOKEN_IDENTIFIER)"

section \<open>Shared steps\<close>

text \<open>The length of the run of characters of a class from a position on, and the text between two positions.\<close>

definition run_length :: "(char \<Rightarrow> bool) \<Rightarrow> string \<Rightarrow> nat \<Rightarrow> nat" where
  "run_length P s p = length (takeWhile P (drop p s))"

definition text_between :: "string \<Rightarrow> nat \<Rightarrow> nat \<Rightarrow> string" where
  "text_between s a b = take (b - a) (drop a s)"

text \<open>\<open>make_token\<close> with the cursor at \<open>q\<close>, and the same behind an error report.\<close>

definition token_at :: "Lexer \<Rightarrow> nat \<Rightarrow> TokenType \<Rightarrow> string \<Rightarrow> LexerMark \<Rightarrow> Token \<times> Lexer" where
  "token_at lx q ty v start = (let lx' = lx\<lparr>lx_position := q\<rparr> in (make_token lx' ty v start, lx'))"

definition error_at :: "Lexer \<Rightarrow> nat \<Rightarrow> LexerMark \<Rightarrow> string \<Rightarrow> string \<Rightarrow> string \<Rightarrow> LexerMark \<Rightarrow> Token \<times> Lexer" where
  "error_at lx q report_mark message got v start =
    (let lx' = report_lexer_error (lx\<lparr>lx_position := q\<rparr>) report_mark message got
     in (make_token lx' TOKEN_UNKNOWN v start, lx'))"

section \<open>Identifiers and keywords\<close>

lemma char_at_in_range: "char_at s p \<noteq> NUL \<Longrightarrow> p < length s"
  by (simp add: char_at_def split: if_splits)

lemma not_word_char_NUL [simp]: "\<not> is_word_char NUL" "\<not> is_digit NUL" "\<not> is_xdigit NUL" "\<not> is_space NUL" "\<not> is_alpha NUL"
  by (simp_all add: is_word_char_def is_alnum_def is_alpha_def is_digit_def is_xdigit_def hex_val_def is_space_def)

lemma ident_length_in_range:
  "lexer_identifier_ucn_length lx p > 0 \<Longrightarrow> p < lx_length lx"
  "lexer_identifier_utf8_length lx p > 0 \<Longrightarrow> p < lx_length lx"
  by (simp_all add: lexer_identifier_ucn_length_def lexer_identifier_utf8_length_def split: if_splits)

function identifier_end :: "Lexer \<Rightarrow> nat \<Rightarrow> nat" where
  "identifier_end lx p =
    (if is_word_char (source_at lx p) then identifier_end lx (p + 1)
     else if lexer_identifier_ucn_length lx p > 0 then identifier_end lx (p + lexer_identifier_ucn_length lx p)
     else if lexer_identifier_utf8_length lx p > 0 then identifier_end lx (p + lexer_identifier_utf8_length lx p)
     else p)"
  by pat_completeness auto
termination
proof (relation "measure (\<lambda>(lx, p). lx_length lx - p)")
  fix lx :: Lexer and p
  assume "is_word_char (source_at lx p)"
  then have "source_at lx p \<noteq> NUL" by auto
  then show "((lx, p + 1), (lx, p)) \<in> measure (\<lambda>(lx, p). lx_length lx - p)" by (auto dest: char_at_in_range)
qed (simp_all add: diff_less_mono2 ident_length_in_range)

declare identifier_end.simps [simp del]

definition alternate_keywords :: "(string \<times> TokenType) list" where
  "alternate_keywords =
    [(''__signed'', TOKEN_SIGNED), (''__signed__'', TOKEN_SIGNED), (''_Float16'', TOKEN_FLOAT), (''__fp16'', TOKEN_FLOAT),
     (''__inline'', TOKEN_INLINE), (''__inline__'', TOKEN_INLINE), (''__const'', TOKEN_CONST), (''__const__'', TOKEN_CONST),
     (''__restrict'', TOKEN_RESTRICT), (''__restrict__'', TOKEN_RESTRICT), (''__asm'', TOKEN_ASM), (''__asm__'', TOKEN_ASM),
     (''__complex'', TOKEN_COMPLEX), (''__complex__'', TOKEN_COMPLEX), (''__imaginary'', TOKEN_IMAGINARY),
     (''__imaginary__'', TOKEN_IMAGINARY)]"

definition identifier_type :: "string \<Rightarrow> TokenType" where
  "identifier_type text =
    (case lookupKeyword text (length text) of
       Some word \<Rightarrow> keywordToTokenType word
     | None \<Rightarrow> (case map_of alternate_keywords text of Some t \<Rightarrow> t | None \<Rightarrow> TOKEN_IDENTIFIER))"

definition handleIdentifierOrKeyword :: "Lexer \<Rightarrow> Token \<times> Lexer" where
  "handleIdentifierOrKeyword lx =
    (let p = lx_position lx; q = identifier_end lx p;
         text = lexer_normalize_identifier_spelling (text_between (lx_source lx) p q)
     in token_at lx q (identifier_type text) text (lexer_mark lx))"

section \<open>Numbers\<close>

record NumberScan =
  ns_position :: nat
  ns_type :: TokenType
  ns_isHex :: bool
  ns_isBinary :: bool
  ns_sawFraction :: bool
  ns_sawExp :: bool
  ns_invalidOctalDigit :: bool
  ns_invalidBinaryDigit :: bool
  ns_radixDigits :: nat
  ns_hexFractionDigits :: nat

definition number_start :: "nat \<Rightarrow> NumberScan" where
  "number_start p =
    \<lparr>ns_position = p, ns_type = TOKEN_NUMBER, ns_isHex = False, ns_isBinary = False, ns_sawFraction = False,
     ns_sawExp = False, ns_invalidOctalDigit = False, ns_invalidBinaryDigit = False, ns_radixDigits = 0,
     ns_hexFractionDigits = 0\<rparr>"

definition number_prefix :: "string \<Rightarrow> nat \<Rightarrow> NumberScan" where
  "number_prefix s p =
    (let c = char_at s (p + 1) in
     if char_at s p = CHR ''0'' \<and> (c = CHR ''x'' \<or> c = CHR ''X'')
     then let n = run_length is_xdigit s (p + 2)
          in (number_start (p + 2 + n))\<lparr>ns_isHex := True, ns_radixDigits := n\<rparr>
     else if char_at s p = CHR ''0'' \<and> (c = CHR ''b'' \<or> c = CHR ''B'')
     then let n = run_length (\<lambda>d. d = CHR ''0'' \<or> d = CHR ''1'') s (p + 2); m = run_length is_digit s (p + 2 + n)
          in (number_start (p + 2 + n + m))\<lparr>ns_isBinary := True, ns_radixDigits := n, ns_invalidBinaryDigit := m > 0\<rparr>
     else let n = run_length is_digit s p
          in (number_start (p + n))\<lparr>ns_invalidOctalDigit := char_at s p = CHR ''0'' \<and>
               list_ex (\<lambda>d. d = CHR ''8'' \<or> d = CHR ''9'') (text_between s p (p + n))\<rparr>)"

definition number_fraction :: "string \<Rightarrow> NumberScan \<Rightarrow> NumberScan" where
  "number_fraction s ns =
    (let p = ns_position ns in
     if char_at s p \<noteq> CHR ''.'' then ns
     else let n = run_length (if ns_isHex ns then is_xdigit else is_digit) s (p + 1)
          in ns\<lparr>ns_position := p + 1 + n, ns_sawFraction := True, ns_type := TOKEN_FLOAT_LITERAL,
                ns_hexFractionDigits := (if ns_isHex ns then n else ns_hexFractionDigits ns)\<rparr>)"

definition at_exponent :: "string \<Rightarrow> NumberScan \<Rightarrow> bool" where
  "at_exponent s ns =
    (let c = char_at s (ns_position ns) in
     if ns_isHex ns then c = CHR ''p'' \<or> c = CHR ''P'' else c = CHR ''e'' \<or> c = CHR ''E'')"

text \<open>Where the digits of the exponent start, behind the letter at \<open>p\<close> and the sign.\<close>

definition exponent_digits :: "string \<Rightarrow> nat \<Rightarrow> nat" where
  "exponent_digits s p = (let c = char_at s (p + 1) in if c = CHR ''+'' \<or> c = CHR ''-'' then p + 2 else p + 1)"

text \<open>The suffix loop: how many characters it passes, and the type.\<close>

fun number_suffix :: "bool \<Rightarrow> nat \<Rightarrow> TokenType \<Rightarrow> string \<Rightarrow> nat \<times> TokenType" where
  "number_suffix seenU lCount ty [] = (0, ty)"
| "number_suffix seenU lCount ty (c # cs) =
    (if c = CHR ''u'' \<or> c = CHR ''U''
     then if seenU then (0, ty) else apfst Suc (number_suffix True lCount ty cs)
     else if c = CHR ''l'' \<or> c = CHR ''L''
     then if lCount \<ge> 2 then (0, ty) else apfst Suc (number_suffix seenU (lCount + 1) ty cs)
     else if c = CHR ''f'' \<or> c = CHR ''F'' \<or> c = CHR ''i'' \<or> c = CHR ''I'' \<or> c = CHR ''j'' \<or> c = CHR ''J''
     then apfst Suc (number_suffix seenU lCount TOKEN_FLOAT_LITERAL cs)
     else (0, ty))"

definition number_with_suffix :: "string \<Rightarrow> NumberScan \<Rightarrow> NumberScan" where
  "number_with_suffix s ns =
    (case number_suffix False 0 (ns_type ns) (drop (ns_position ns) s) of (n, ty) \<Rightarrow>
      ns\<lparr>ns_position := ns_position ns + n, ns_type := ty\<rparr>)"

text \<open>
  The checks behind the suffix: the message, whether the report may move to the current position, and the
  end of the token.
\<close>

definition number_verdict :: "string \<Rightarrow> NumberScan \<Rightarrow> (string \<times> bool \<times> nat) option" where
  "number_verdict s ns =
    (let p = ns_position ns; c = char_at s p; atP = (c = CHR ''p'' \<or> c = CHR ''P''); wordEnd = p + run_length is_word_char s p in
     if ns_isBinary ns \<and> (ns_sawFraction ns \<or> ns_sawExp ns \<or> ns_type ns = TOKEN_FLOAT_LITERAL \<or> atP)
     then Some (''Binary literals do not support fractional or exponent forms'', False, if atP then wordEnd else p)
     else if ns_isBinary ns \<and> ns_invalidBinaryDigit ns then Some (''Invalid digit in binary literal'', False, p)
     else if ns_isBinary ns \<and> ns_radixDigits ns = 0
     then Some (''Binary literal requires at least one binary digit'', False, p)
     else if \<not> ns_isHex ns \<and> \<not> ns_isBinary ns \<and> ns_invalidOctalDigit ns \<and> \<not> ns_sawFraction ns \<and> \<not> ns_sawExp ns \<and>
        ns_type ns = TOKEN_NUMBER
     then Some (''Invalid digit in octal literal'', False, p)
     else if ns_isHex ns \<and> \<not> ns_sawFraction ns \<and> ns_radixDigits ns = 0
     then Some (''Hex literal requires at least one hex digit'', True, p)
     else if ns_isHex ns \<and> ns_sawFraction ns \<and> ns_radixDigits ns = 0 \<and> ns_hexFractionDigits ns = 0
     then Some (''Hex floating literal requires at least one mantissa digit'', False, p)
     else if ns_isHex ns \<and> ns_sawFraction ns \<and> \<not> ns_sawExp ns
     then Some (''Hex floating literal requires a '' @ [squote] @ ''p'' @ [squote] @ '' exponent'', False, p)
     else if is_alpha c \<or> c = CHR ''_'' then Some (''Invalid numeric literal suffix'', False, wordEnd)
     else None)"

definition numeric_diagnostic_mark_if_raw_line_changed :: "Lexer \<Rightarrow> LexerMark \<Rightarrow> LexerMark \<Rightarrow> LexerMark" where
  "numeric_diagnostic_mark_if_raw_line_changed lx start candidate =
    (let a = fst (lexer_mark_source_location lx start); b = fst (lexer_mark_source_location lx candidate)
     in if a > 0 \<and> b > 0 \<and> a \<noteq> b then candidate else start)"

definition number_token :: "Lexer \<Rightarrow> NumberScan \<Rightarrow> Token \<times> Lexer" where
  "number_token lx ns0 =
    (let s = lx_source lx; start = lexer_mark lx; ns = number_with_suffix s ns0; p = ns_position ns in
     case number_verdict s ns of
       None \<Rightarrow> token_at lx p (ns_type ns) (text_between s (lx_position lx) p) start
     | Some (message, movable, q) \<Rightarrow>
         error_at lx q
           (if movable then numeric_diagnostic_mark_if_raw_line_changed lx start (lexer_mark (lx\<lparr>lx_position := p\<rparr>)) else start)
           message (text_between s (lx_position lx) q) (text_between s (lx_position lx) q) start)"

definition handleNumber :: "Lexer \<Rightarrow> Token \<times> Lexer" where
  "handleNumber lx =
    (let s = lx_source lx; start = lexer_mark lx; ns = number_fraction s (number_prefix s (lx_position lx)); p = ns_position ns in
     if at_exponent s ns
     then let d = exponent_digits s p; n = run_length is_digit s d in
       if n = 0
       then let q = d + run_length is_word_char s d; text = text_between s (lx_position lx) q in
         error_at lx q
           (numeric_diagnostic_mark_if_raw_line_changed lx start (lexer_mark (lx\<lparr>lx_position := p\<rparr>)))
           ''Malformed floating literal exponent'' text text start
       else number_token lx (ns\<lparr>ns_position := d + n, ns_sawExp := True, ns_type := TOKEN_FLOAT_LITERAL\<rparr>)
     else number_token lx ns)"

section \<open>String literals\<close>

function consume_string_literal_tail_after_error :: "string \<Rightarrow> nat \<Rightarrow> nat" where
  "consume_string_literal_tail_after_error s p =
    (let c = char_at s p; d = char_at s (p + 1) in
     if c = NUL \<or> c = NL then p
     else if c = dquote then p + 1
     else if c = backslash then if d = NUL \<or> d = NL then p + 1 else consume_string_literal_tail_after_error s (p + 2)
     else consume_string_literal_tail_after_error s (p + 1))"
  by pat_completeness auto
termination
  by (relation "measure (\<lambda>(s, p). length s - p)") (auto simp: Let_def dest: char_at_in_range)

declare consume_string_literal_tail_after_error.simps [simp del]

text \<open>The two bytes of an escape as a C string.\<close>

definition format_simple_escape :: "char \<Rightarrow> string" where
  "format_simple_escape e = (if e = NUL then [backslash] else [backslash, e])"

definition simple_escapes :: string where
  "simple_escapes = ''ntrbfav'' @ [backslash, squote, dquote, CHR ''?'']"

definition is_octal :: "char \<Rightarrow> bool" where
  "is_octal c \<longleftrightarrow> 48 \<le> (of_char c :: nat) \<and> (of_char c :: nat) \<le> 55"

text \<open>How a literal is left at an error: the position, the message, what it got, and the text of the token.\<close>

type_synonym literal_error = "nat \<times> string \<times> string \<times> string"

definition up_to :: "nat \<Rightarrow> (char \<Rightarrow> bool) \<Rightarrow> string \<Rightarrow> nat \<Rightarrow> string" where
  "up_to n P s p = takeWhile P (take n (drop p s))"

text \<open>The escape whose letter is at \<open>p\<close>: the position behind it.\<close>

definition string_escape :: "string \<Rightarrow> nat \<Rightarrow> literal_error + nat" where
  "string_escape s p =
    (let e = char_at s p; bad = (\<lambda>q message got v. Inl (consume_string_literal_tail_after_error s q, message, got, v)) in
     if e \<in> set simple_escapes then Inr (p + 1)
     else if e = CHR ''x''
     then let n = run_length is_xdigit s (p + 1) in
       if n = 0 then bad (p + 1) (''Invalid '' @ [backslash] @ ''x escape in string literal'') (backslash # ''x'') (''Invalid '' @ [backslash] @ ''x escape'')
       else Inr (p + 1 + n)
     else if e = CHR ''u''
     then let n = length (up_to 4 is_xdigit s (p + 1)) in
       if n \<noteq> 4 then bad (p + 1 + n) (''Invalid '' @ [backslash] @ ''u escape in string literal'') (backslash # ''u'') (''Invalid '' @ [backslash] @ ''u escape'')
       else Inr (p + 1 + n)
     else if e = CHR ''U''
     then let n = length (up_to 8 is_xdigit s (p + 1)) in
       if n \<noteq> 8 then bad (p + 1 + n) (''Invalid '' @ [backslash] @ ''U escape in string literal'') (backslash # ''U'') (''Invalid '' @ [backslash] @ ''U escape'')
       else Inr (p + 1 + n)
     else if is_octal e then Inr (p + 1 + length (up_to 2 is_octal s (p + 1)))
     else bad p ''Invalid escape in string literal'' (format_simple_escape e) ''Invalid escape'')"

lemma string_escape_advances: "string_escape s p = Inr q \<Longrightarrow> p < q"
  by (auto simp: string_escape_def Let_def split: if_splits)

definition unterminated_string :: "nat \<Rightarrow> literal_error + nat" where
  "unterminated_string p = Inl (p, ''Unterminated string literal'', [dquote], ''Unterminated string'')"

text \<open>The position of the closing quote.\<close>

function string_body :: "string \<Rightarrow> nat \<Rightarrow> literal_error + nat" where
  "string_body s p =
    (let c = char_at s p in
     if c = NUL \<or> c = NL then unterminated_string p
     else if c = dquote then Inr p
     else if c = backslash
     then if char_at s (p + 1) = NUL \<or> char_at s (p + 1) = NL then unterminated_string (p + 1)
          else case string_escape s (p + 1) of Inl e \<Rightarrow> Inl e | Inr q \<Rightarrow> string_body s q
     else string_body s (p + 1))"
  by pat_completeness auto
termination
  by (relation "measure (\<lambda>(s, p). length s - p)")
    (auto simp: Let_def dest!: string_escape_advances intro!: diff_less_mono2 dest: char_at_in_range)

declare string_body.simps [simp del]

text \<open>The flag tells whether the text of the token is allocated.\<close>

definition handleStringLiteral :: "Lexer \<Rightarrow> (Token \<times> bool) \<times> Lexer" where
  "handleStringLiteral lx =
    (let s = lx_source lx; start = lexer_mark lx; p = lx_position lx + 1 in
     case string_body s p of
       Inr q \<Rightarrow> apfst (\<lambda>t. (t, True)) (token_at lx (q + 1) TOKEN_STRING (text_between s p q) start)
     | Inl (q, message, got, v) \<Rightarrow> apfst (\<lambda>t. (t, False)) (error_at lx q start message got v start))"

section \<open>Character constants\<close>

function consume_char_literal_tail_after_error :: "string \<Rightarrow> nat \<Rightarrow> nat" where
  "consume_char_literal_tail_after_error s p =
    (let c = char_at s p in
     if c = NUL \<or> c = NL then p
     else if c = squote then p + 1
     else consume_char_literal_tail_after_error s (p + 1))"
  by pat_completeness auto
termination
  by (relation "measure (\<lambda>(s, p). length s - p)") (auto simp: Let_def dest: char_at_in_range)

declare consume_char_literal_tail_after_error.simps [simp del]

text \<open>The values of the escapes of one letter.\<close>

definition escape_values :: "(char \<times> 32 word) list" where
  "escape_values =
    [(CHR ''n'', 10), (CHR ''t'', 9), (CHR ''r'', 13), (CHR ''b'', 8), (CHR ''f'', 12), (CHR ''a'', 7), (CHR ''v'', 11),
     (backslash, 92), (squote, 39), (dquote, 34), (CHR ''?'', 63)]"

abbreviation hex_word :: "char \<Rightarrow> 32 word" where
  "hex_word c \<equiv> (case hex_val c of Some v \<Rightarrow> word_of_nat v | None \<Rightarrow> 0)"

text \<open>The escape whose letter is at \<open>p\<close>: its value and the position behind it.\<close>

definition char_escape :: "string \<Rightarrow> nat \<Rightarrow> literal_error + 32 word \<times> nat" where
  "char_escape s p =
    (let e = char_at s p; bad = (\<lambda>q message got v. Inl (consume_char_literal_tail_after_error s q, message, got, v));
         hex = (\<lambda>ds. foldl (\<lambda>a h. push_bit 4 a OR hex_word h) 0 ds) in
     case map_of escape_values e of
       Some v \<Rightarrow> Inr (v, p + 1)
     | None \<Rightarrow>
       if e = CHR ''u''
       then let ds = up_to 4 is_xdigit s (p + 1) in
         if length ds \<noteq> 4 then bad (p + 1 + length ds) (''Invalid '' @ [backslash] @ ''u escape in character literal'') (backslash # ''u'') (''Invalid '' @ [backslash] @ ''u escape'')
         else Inr (hex ds, p + 5)
       else if e = CHR ''U''
       then let ds = up_to 8 is_xdigit s (p + 1) in
         if length ds \<noteq> 8 then bad (p + 1 + length ds) (''Invalid '' @ [backslash] @ ''U escape in character literal'') (backslash # ''U'') (''Invalid '' @ [backslash] @ ''U escape'')
         else Inr (hex ds, p + 9)
       else if e = CHR ''x''
       then let ds = takeWhile is_xdigit (drop (p + 1) s) in
         if ds = [] then bad (p + 1) (''Invalid '' @ [backslash] @ ''x escape in character literal'') (backslash # ''x'') (''Invalid '' @ [backslash] @ ''x escape'')
         else Inr (foldl (\<lambda>a h. a * 16 + hex_word h) 0 ds, p + 1 + length ds)
       else if is_octal e
       then let ds = up_to 2 is_octal s (p + 1)
            in Inr (foldl (\<lambda>a h. push_bit 3 a + hex_word h) (hex_word e) ds, p + 1 + length ds)
       else bad (p + 1) ''Invalid escape in character literal'' (format_simple_escape e) ''Invalid escape'')"

lemma char_escape_advances: "char_escape s p = Inr (v, q) \<Longrightarrow> p < q"
  by (auto simp: char_escape_def Let_def split: if_splits option.splits)

text \<open>The loop over the characters: the accumulated value, their number, the last value and the position behind the quote.\<close>

function char_body :: "string \<Rightarrow> nat \<Rightarrow> u64 \<Rightarrow> nat \<Rightarrow> 32 word \<Rightarrow> literal_error + u64 \<times> nat \<times> 32 word \<times> nat" where
  "char_body s p accum count lastVal =
    (let ch = char_at s p; low = (\<lambda>v. (ucast (v AND 0xFF) :: u64));
         next = (\<lambda>v. if count = 0 then low v else push_bit 8 accum OR low v) in
     if ch = NUL \<or> ch = NL then Inl (p, ''Unterminated character literal'', [squote], ''Invalid character literal'')
     else if ch = squote then Inr (accum, count, lastVal, p + 1)
     else if ch = backslash
     then (case char_escape s (p + 1) of Inl e \<Rightarrow> Inl e | Inr (v, q) \<Rightarrow> char_body s q (next v) (count + 1) v)
     else let v = byte ch in char_body s (p + 1) (next v) (count + 1) v)"
  by pat_completeness auto
termination
  by (relation "measure (\<lambda>(s, p, a, n, v). length s - p)")
    (auto simp: Let_def dest!: char_escape_advances intro!: diff_less_mono2 dest: char_at_in_range)

declare char_body.simps [simp del]

definition handleCharLiteral :: "Lexer \<Rightarrow> (Token \<times> bool) \<times> Lexer" where
  "handleCharLiteral lx =
    (let s = lx_source lx; start = lexer_mark lx in
     case char_body s (lx_position lx + 1) 0 0 0 of
       Inl (q, message, got, v) \<Rightarrow> apfst (\<lambda>t. (t, False)) (error_at lx q start message got v start)
     | Inr (accum, count, lastVal, q) \<Rightarrow>
         if count = 0
         then apfst (\<lambda>t. (t, False)) (error_at lx q start ''Empty character literal'' [squote, squote] ''Invalid character literal'' start)
         else let final = (if count = 1 then (scast lastVal :: u64) else accum)
              in apfst (\<lambda>t. (t, True)) (token_at lx q TOKEN_CHAR_LITERAL (show_nat (unat final)) start))"

section \<open>Directives\<close>

definition directive_types :: "(string \<times> TokenType) list" where
  "directive_types =
    [(''include'', TOKEN_INCLUDE), (''include_next'', TOKEN_INCLUDE_NEXT), (''define'', TOKEN_DEFINE), (''undef'', TOKEN_UNDEF),
     (''ifdef'', TOKEN_IFDEF), (''ifndef'', TOKEN_IFNDEF), (''if'', TOKEN_PP_IF), (''elif'', TOKEN_PP_ELIF),
     (''else'', TOKEN_PP_ELSE), (''endif'', TOKEN_ENDIF), (''pragma'', TOKEN_PRAGMA)]"

lemma space_in_range: "is_space (char_at s p) \<Longrightarrow> p < length s"
  by (metis char_at_in_range not_word_char_NUL(4))

text \<open>The white space behind the hash, newlines included: the line and the start of the line move along.\<close>

function skip_space :: "Lexer \<Rightarrow> Lexer" where
  "skip_space lx =
    (let p = lx_position lx; c = source_at lx p in
     if \<not> is_space c then lx
     else if c = NL then skip_space (lx\<lparr>lx_position := p + 1, lx_line := lx_line lx + 1, lx_lineStart := p + 1\<rparr>)
     else skip_space (lx\<lparr>lx_position := p + 1\<rparr>))"
  by pat_completeness auto
termination
  by (relation "measure (\<lambda>lx. lx_length lx - lx_position lx)") (auto simp: Let_def dest: space_in_range)

declare skip_space.simps [simp del]

definition at_line_start :: "Lexer \<Rightarrow> bool" where
  "at_line_start lx =
    list_all (\<lambda>c. c = CHR '' '' \<or> c = CHR 0x09 \<or> c = CR) (text_between (lx_source lx) (lx_lineStart lx) (lx_position lx))"

definition handlePreprocessorDirective :: "Lexer \<Rightarrow> Token \<times> Lexer" where
  "handlePreprocessorDirective lx =
    (let s = lx_source lx; start = lexer_mark lx; p = lx_position lx + 1 in
     if \<not> at_line_start lx
     then if char_at s p = CHR ''#'' then token_at lx (p + 1) TOKEN_DOUBLE_HASH ''##'' start else token_at lx p TOKEN_HASH ''#'' start
     else let lx' = skip_space (lx\<lparr>lx_position := p\<rparr>); d = lx_position lx' in
       if \<not> is_alpha (char_at s d) \<and> char_at s d \<noteq> CHR ''_'' then token_at lx' d TOKEN_HASH ''#'' start
       else let e = d + run_length is_word_char s d; directive = text_between s d e
            in token_at lx' e (case map_of directive_types directive of Some t \<Rightarrow> t | None \<Rightarrow> TOKEN_PREPROCESSOR_OTHER) directive start)"

section \<open>Comments, operators and punctuation\<close>

text \<open>
  What a handler does: it returns a token, it asks for the next one (\<open>return getNextToken(lexer)\<close>), or it frees
  a string constant, which is undefined.
\<close>

datatype scan = Scanned Token Lexer | Rescan Lexer | Bad_free

definition scanned :: "Token \<times> Lexer \<Rightarrow> scan" where
  "scanned r = Scanned (fst r) (snd r)"

text \<open>The end of a block comment whose text starts at the position: whether it is closed, and the state there.\<close>

function block_comment :: "Lexer \<Rightarrow> bool \<times> Lexer" where
  "block_comment lx =
    (let p = lx_position lx; c = source_at lx p in
     if c = CHR ''*'' \<and> source_at lx (p + 1) = CHR ''/'' then (True, lx\<lparr>lx_position := p + 2\<rparr>)
     else if c = NUL then (False, lx)
     else if c = NL then block_comment (lx\<lparr>lx_position := p + 1, lx_line := lx_line lx + 1, lx_lineStart := p + 1\<rparr>)
     else block_comment (lx\<lparr>lx_position := p + 1\<rparr>))"
  by pat_completeness auto
termination
  by (relation "measure (\<lambda>lx. lx_length lx - lx_position lx)") (auto simp: Let_def dest: char_at_in_range)

declare block_comment.simps [simp del]

definition handleComment :: "Lexer \<Rightarrow> scan" where
  "handleComment lx =
    (let s = lx_source lx; start = lexer_mark lx; p = lx_position lx; next = char_at s (p + 1) in
     if char_at s p = NUL \<or> next = NUL then scanned (token_at lx (p + 1) TOKEN_DIVIDE ''/'' start)
     else if next = CHR ''='' then scanned (token_at lx (p + 2) TOKEN_DIV_ASSIGN ''/='' start)
     else if next = CHR ''/'' then Rescan (lx\<lparr>lx_position := p + 2 + run_length (\<lambda>c. c \<noteq> NL \<and> c \<noteq> NUL) s (p + 2)\<rparr>)
     else if next = CHR ''*''
     then (case block_comment (lx\<lparr>lx_position := p + 2\<rparr>) of
             (True, lx') \<Rightarrow> Rescan lx'
           | (False, lx') \<Rightarrow>
               scanned (error_at lx' (lx_position lx') start ''Unterminated block comment'' ''/*'' ''Unterminated comment'' start))
     else scanned (token_at lx (p + 1) TOKEN_DIVIDE ''/'' start))"

text \<open>The operator at the first of three characters.\<close>

definition operator_token :: "char \<Rightarrow> char \<Rightarrow> char \<Rightarrow> (TokenType \<times> string) option" where
  "operator_token c n n2 =
    (if c = CHR ''='' then Some (if n = CHR ''='' then (TOKEN_EQUAL, ''=='') else (TOKEN_ASSIGN, ''=''))
     else if c = CHR ''+'' then Some (if n = CHR ''+'' then (TOKEN_INCREMENT, ''++'')
       else if n = CHR ''='' then (TOKEN_PLUS_ASSIGN, ''+='') else (TOKEN_PLUS, ''+''))
     else if c = CHR ''-'' then Some (if n = CHR ''-'' then (TOKEN_DECREMENT, ''--'')
       else if n = CHR ''='' then (TOKEN_MINUS_ASSIGN, ''-='') else if n = CHR ''>'' then (TOKEN_ARROW, ''->'') else (TOKEN_MINUS, ''-''))
     else if c = CHR ''*'' then Some (if n = CHR ''='' then (TOKEN_MULT_ASSIGN, ''*='') else (TOKEN_ASTERISK, ''*''))
     else if c = CHR ''%'' then Some (if n = CHR ''='' then (TOKEN_MOD_ASSIGN, ''%='') else (TOKEN_MODULO, ''%''))
     else if c = CHR ''<'' then Some (if n = CHR ''<''
       then if n2 = CHR ''='' then (TOKEN_LEFT_SHIFT_ASSIGN, ''<<='') else (TOKEN_LEFT_SHIFT, ''<<'')
       else if n = CHR ''='' then (TOKEN_LESS_EQUAL, ''<='') else (TOKEN_LESS, ''<''))
     else if c = CHR ''>'' then Some (if n = CHR ''>''
       then if n2 = CHR ''='' then (TOKEN_RIGHT_SHIFT_ASSIGN, ''>>='') else (TOKEN_RIGHT_SHIFT, ''>>'')
       else if n = CHR ''='' then (TOKEN_GREATER_EQUAL, ''>='') else (TOKEN_GREATER, ''>''))
     else if c = CHR ''!'' then Some (if n = CHR ''='' then (TOKEN_NOT_EQUAL, ''!='') else (TOKEN_LOGICAL_NOT, ''!''))
     else if c = CHR ''&'' then Some (if n = CHR ''&'' then (TOKEN_LOGICAL_AND, ''&&'')
       else if n = CHR ''='' then (TOKEN_BITWISE_AND_ASSIGN, ''&='') else (TOKEN_BITWISE_AND, ''&''))
     else if c = CHR ''|'' then Some (if n = CHR ''|'' then (TOKEN_LOGICAL_OR, ''||'')
       else if n = CHR ''='' then (TOKEN_BITWISE_OR_ASSIGN, ''|='') else (TOKEN_BITWISE_OR, ''|''))
     else if c = CHR ''^'' then Some (if n = CHR ''='' then (TOKEN_BITWISE_XOR_ASSIGN, ''^='') else (TOKEN_BITWISE_XOR, ''^''))
     else if c = CHR ''~'' then Some (TOKEN_BITWISE_NOT, ''~'')
     else None)"

definition punctuation_token :: "char \<Rightarrow> char \<Rightarrow> char \<Rightarrow> (TokenType \<times> string) option" where
  "punctuation_token c n n2 =
    (if c = CHR ''?'' then Some (TOKEN_QUESTION, ''?'')
     else if c = CHR '';'' then Some (TOKEN_SEMICOLON, '';'')
     else if c = CHR '','' then Some (TOKEN_COMMA, '','')
     else if c = CHR ''.'' then Some (if n = CHR ''.'' \<and> n2 = CHR ''.'' then (TOKEN_ELLIPSIS, ''...'') else (TOKEN_DOT, ''.''))
     else if c = CHR ''('' then Some (TOKEN_LPAREN, ''('')
     else if c = CHR '')'' then Some (TOKEN_RPAREN, '')'')
     else if c = CHR ''{'' then Some (TOKEN_LBRACE, ''{'')
     else if c = CHR ''}'' then Some (TOKEN_RBRACE, ''}'')
     else if c = CHR ''['' then Some (TOKEN_LBRACKET, ''['')
     else if c = CHR '']'' then Some (TOKEN_RBRACKET, '']'')
     else if c = CHR '':'' then Some (TOKEN_COLON, '':'')
     else None)"

definition handlePunctuation :: "Lexer \<Rightarrow> Token \<times> Lexer" where
  "handlePunctuation lx =
    (let p = lx_position lx; start = lexer_mark lx in
     case punctuation_token (source_at lx p) (source_at lx (p + 1)) (source_at lx (p + 2)) of
       Some (ty, v) \<Rightarrow> token_at lx (p + length v) ty v start
     | None \<Rightarrow> token_at lx (p + 1) TOKEN_UNKNOWN ''Unknown punctuation'' start)"

definition hex_upper :: "nat \<Rightarrow> char" where
  "hex_upper d = char_of (if d < 10 then 48 + d else 55 + d)"

definition handleUnknownToken :: "Lexer \<Rightarrow> Token \<times> Lexer" where
  "handleUnknownToken lx =
    (let p = lx_position lx; start = lexer_mark lx; bad = source_at lx p in
     if bad = CHR ''@'' \<and> lexer_is_system_header_path (lexer_file_path lx) then token_at lx (p + 1) TOKEN_UNKNOWN ''@'' start
     else error_at lx (p + 1) start ''Invalid character in source''
       (if is_print bad then [bad] else [backslash, CHR ''x'', hex_upper (of_char bad div 16), hex_upper (of_char bad mod 16)])
       ''ERROR'' start)"

definition handleOperator :: "Lexer \<Rightarrow> scan" where
  "handleOperator lx =
    (let p = lx_position lx; c = source_at lx p in
     if c = CHR ''/'' then handleComment lx
     else if c \<in> set '';,.(){}[]'' then scanned (handlePunctuation lx)
     else case operator_token c (source_at lx (p + 1)) (source_at lx (p + 2)) of
         Some (ty, v) \<Rightarrow> scanned (token_at lx (p + length v) ty v (lexer_mark lx))
       | None \<Rightarrow> scanned (handleUnknownToken (lx\<lparr>lx_position := p + 1\<rparr>)))"

section \<open>The scanner\<close>

text \<open>\<open>None\<close>: the text of the token is a string constant, and freeing it is undefined.\<close>

definition prepend_literal_prefix :: "string \<Rightarrow> Token \<times> bool \<Rightarrow> Token option" where
  "prepend_literal_prefix prefix r =
    (case r of (t, allocated) \<Rightarrow>
      case tk_value t of
        None \<Rightarrow> Some t
      | Some v \<Rightarrow> if allocated then Some (t\<lparr>tk_value := Some (prefix @ v)\<rparr>) else None)"

definition mark_ambiguous_narrow_string_literal :: "Token \<times> bool \<Rightarrow> Token option" where
  "mark_ambiguous_narrow_string_literal r =
    (case tk_value (fst r) of
       Some v \<Rightarrow>
         if tk_type (fst r) = TOKEN_STRING \<and> (starts_with ''W|'' v \<or> starts_with ''U8|'' v)
         then prepend_literal_prefix ''N|'' r else Some (fst r)
     | None \<Rightarrow> Some (fst r))"

definition after_prefix :: "Token option \<Rightarrow> Lexer \<Rightarrow> scan" where
  "after_prefix t lx = (case t of Some t' \<Rightarrow> Scanned t' lx | None \<Rightarrow> Bad_free)"

text \<open>A backslash with \<open>u\<close> or \<open>U\<close> that names no character of identifiers.\<close>

definition unsupported_ucn :: "Lexer \<Rightarrow> Token \<times> Lexer" where
  "unsupported_ucn lx =
    (let s = lx_source lx; start = lexer_mark lx; p = lx_position lx;
         expected = (if char_at s (p + 1) = CHR ''u'' then 4 else 8);
         q = p + 2 + length (up_to expected is_xdigit s (p + 2)); text = text_between s p q;
         lx' = report_unsupported_ucn_identifier (lx\<lparr>lx_position := q\<rparr>) start text
     in (make_token lx' TOKEN_UNKNOWN text start, lx'))"

text \<open>\<open>getNextToken\<close> behind the white space, up to its tail calls.\<close>

definition scan_token :: "Lexer \<Rightarrow> scan" where
  "scan_token lx =
    (let p = lx_position lx; c = source_at lx p; n = source_at lx (p + 1); n2 = source_at lx (p + 2) in
     if isEOF lx then scanned (token_at lx (p + 1) TOKEN_EOF ''EOF'' (lexer_mark lx))
     else if c = CHR ''u'' \<and> n = CHR ''8'' \<and> n2 = dquote
     then (case handleStringLiteral (lx\<lparr>lx_position := p + 2\<rparr>) of (r, lx') \<Rightarrow> after_prefix (prepend_literal_prefix ''U8|'' r) lx')
     else if (c = CHR ''L'' \<or> c = CHR ''u'' \<or> c = CHR ''U'') \<and> n = dquote
     then (case handleStringLiteral (lx\<lparr>lx_position := p + 1\<rparr>) of (r, lx') \<Rightarrow> after_prefix (prepend_literal_prefix ''W|'' r) lx')
     else if (c = CHR ''L'' \<or> c = CHR ''u'' \<or> c = CHR ''U'') \<and> n = squote
     then (case handleCharLiteral (lx\<lparr>lx_position := p + 1\<rparr>) of (r, lx') \<Rightarrow> after_prefix (prepend_literal_prefix ''W|'' r) lx')
     else if c = backslash \<and> (n = CHR ''u'' \<or> n = CHR ''U'')
     then scanned (if lexer_identifier_ucn_length lx p > 0 then handleIdentifierOrKeyword lx else unsupported_ucn lx)
     else if is_alpha c \<or> c = CHR ''_'' \<or> lexer_identifier_utf8_length lx p > 0 then scanned (handleIdentifierOrKeyword lx)
     else if is_digit c \<or> (c = CHR ''.'' \<and> is_digit n) then scanned (handleNumber lx)
     else if c = dquote
     then (case handleStringLiteral lx of (r, lx') \<Rightarrow> after_prefix (mark_ambiguous_narrow_string_literal r) lx')
     else if c = squote then (case handleCharLiteral lx of (r, lx') \<Rightarrow> Scanned (fst r) lx')
     else if c = CHR ''#'' then scanned (handlePreprocessorDirective lx)
     else if c = CHR ''/'' then handleComment lx
     else if c \<in> set ''=+-*/%<>!&|^~'' then handleOperator lx
     else if c \<in> set ''?:;,(){}[].'' then scanned (handlePunctuation lx)
     else scanned (handleUnknownToken lx))"

lemma skipWhitespace_keeps: "lx_source (skipWhitespace lx) = lx_source lx \<and> lx_position lx \<le> lx_position (skipWhitespace lx)"
proof (induction lx rule: skipWhitespace.induct)
  case (1 lx)
  show ?case
  proof (cases "lx_position lx < lx_length lx \<and> skip_turn lx \<noteq> None")
    case True
    then obtain lx' where t: "lx_position lx < lx_length lx" "skip_turn lx = Some lx'" by auto
    then have "skipWhitespace lx = skipWhitespace lx'" by (subst skipWhitespace.simps) simp
    with "1.IH" [OF t] skip_turn_advances [OF t(2)] show ?thesis by auto
  qed (subst (1 2) skipWhitespace.simps, auto)
qed

lemma block_comment_keeps': "lx_source (snd (block_comment lx)) = lx_source lx \<and> lx_position lx \<le> lx_position (snd (block_comment lx))"
proof (induction lx rule: block_comment.induct)
  case (1 lx)
  show ?case
    using "1.IH" [OF refl refl]
    by (subst (1 2) block_comment.simps) (auto simp: Let_def dest: Suc_leD)
qed

lemma block_comment_keeps:
  "block_comment lx = (b, lx') \<Longrightarrow> lx_source lx' = lx_source lx \<and> lx_position lx \<le> lx_position lx'"
  using block_comment_keeps' [of lx] by simp

lemma handleComment_rescan:
  "handleComment lx = Rescan lx' \<Longrightarrow> lx_source lx' = lx_source lx \<and> lx_position lx < lx_position lx'"
  by (auto simp: handleComment_def Let_def scanned_def split: if_splits prod.splits bool.splits dest!: block_comment_keeps)

lemma scan_token_rescan:
  assumes "scan_token lx = Rescan lx'"
  shows "lx_source lx' = lx_source lx \<and> lx_position lx < lx_position lx' \<and> lx_position lx < lx_length lx"
  using assms handleComment_rescan [of lx lx']
  by (auto simp: scan_token_def Let_def scanned_def after_prefix_def handleOperator_def isEOF_def
      split: if_splits prod.splits option.splits)

text \<open>\<open>None\<close>: undefined behaviour, see \<open>prepend_literal_prefix\<close>.\<close>

function getNextToken :: "Lexer \<Rightarrow> (Token \<times> Lexer) option" where
  "getNextToken lx =
    (case scan_token (skipWhitespace lx) of
       Scanned t lx' \<Rightarrow> Some (t, lx')
     | Rescan lx' \<Rightarrow> getNextToken lx'
     | Bad_free \<Rightarrow> None)"
  by pat_completeness auto
termination
proof (relation "measure (\<lambda>lx. lx_length lx - lx_position lx)")
  fix lx lx'
  assume "scan_token (skipWhitespace lx) = Rescan lx'"
  then show "(lx', lx) \<in> measure (\<lambda>lx. lx_length lx - lx_position lx)"
    using scan_token_rescan [of "skipWhitespace lx" lx'] skipWhitespace_keeps [of lx] by auto
qed simp

declare getNextToken.simps [simp del]

end
