(* ===== verification/Lexer_Props.thy ===== *)
theory Lexer_Props
  imports Lexer_Tokens
begin

text \<open>
  Properties of the scanner: every call advances and lexing a file ends; a token is unknown exactly when an error
  was reported; the translation of the source keeps locations; UTF-8 and universal character names agree; what
  is printed with blanks between the tokens is read back.
\<close>

section \<open>Progress\<close>

named_theorems lexer_step "what the steps of the scanner do to the state"

lemma mark_location_cong [simp]: "lexer_mark_source_location (lx\<lparr>lx_position := q\<rparr>) m = lexer_mark_source_location lx m"
  by (simp add: lexer_mark_source_location_def lexer_raw_location_for_position_def Let_def)

lemma token_at_simps [lexer_step]:
  "lx_source (snd (token_at lx q ty v m)) = lx_source lx"
  "lx_position (snd (token_at lx q ty v m)) = q"
  "lx_fatalErrorCount (snd (token_at lx q ty v m)) = lx_fatalErrorCount lx"
  "lx_reports (snd (token_at lx q ty v m)) = lx_reports lx"
  "tk_type (fst (token_at lx q ty v m)) = ty"
  "tk_value (fst (token_at lx q ty v m)) = Some v"
  by (simp_all add: token_at_def make_token_def Let_def split: prod.splits)

lemma report_simps [lexer_step]:
  "lx_source (add_report lx m text) = lx_source lx"
  "lx_position (add_report lx m text) = lx_position lx"
  "lx_fatalErrorCount (add_report lx m text) = lx_fatalErrorCount lx + 1"
  "length (lx_reports (add_report lx m text)) = length (lx_reports lx) + 1"
  by (simp_all add: add_report_def split: prod.splits)

lemma error_at_simps [lexer_step]:
  "lx_source (snd (error_at lx q r msg got v m)) = lx_source lx"
  "lx_position (snd (error_at lx q r msg got v m)) = q"
  "lx_fatalErrorCount (snd (error_at lx q r msg got v m)) = lx_fatalErrorCount lx + 1"
  "length (lx_reports (snd (error_at lx q r msg got v m))) = length (lx_reports lx) + 1"
  "tk_type (fst (error_at lx q r msg got v m)) = TOKEN_UNKNOWN"
  "tk_value (fst (error_at lx q r msg got v m)) = Some v"
  by (simp_all add: error_at_def make_token_def report_lexer_error_def Let_def report_simps split: prod.splits)

lemma unsupported_ucn_simps [lexer_step]:
  "lx_source (snd (unsupported_ucn lx)) = lx_source lx"
  "lx_position lx < lx_position (snd (unsupported_ucn lx))"
  "lx_fatalErrorCount (snd (unsupported_ucn lx)) = lx_fatalErrorCount lx + 1"
  "length (lx_reports (snd (unsupported_ucn lx))) = length (lx_reports lx) + 1"
  "tk_type (fst (unsupported_ucn lx)) = TOKEN_UNKNOWN"
  by (simp_all add: unsupported_ucn_def make_token_def report_unsupported_ucn_identifier_def Let_def report_simps split: prod.splits)

lemma identifier_end_ge: "p \<le> identifier_end lx p"
proof (induction lx p rule: identifier_end.induct)
  case (1 lx p)
  show ?case using "1.IH" by (subst identifier_end.simps) auto
qed

lemma identifier_end_gt:
  "is_word_char (source_at lx p) \<or> lexer_identifier_ucn_length lx p > 0 \<or> lexer_identifier_utf8_length lx p > 0 \<Longrightarrow>
   p < identifier_end lx p"
  using identifier_end_ge [of "p + 1" lx] identifier_end_ge [of "p + lexer_identifier_ucn_length lx p" lx]
    identifier_end_ge [of "p + lexer_identifier_utf8_length lx p" lx]
  by (subst identifier_end.simps) auto

lemma consume_string_tail_ge: "p \<le> consume_string_literal_tail_after_error s p"
proof (induction s p rule: consume_string_literal_tail_after_error.induct)
  case (1 s p)
  show ?case using "1.IH" [OF refl refl] by (subst consume_string_literal_tail_after_error.simps) (auto simp: Let_def)
qed

lemma consume_char_tail_ge: "p \<le> consume_char_literal_tail_after_error s p"
proof (induction s p rule: consume_char_literal_tail_after_error.induct)
  case (1 s p)
  show ?case using "1.IH" [OF refl] by (subst consume_char_literal_tail_after_error.simps) (auto simp: Let_def)
qed

lemma string_escape_error_ge: "string_escape s p = Inl (q, e) \<Longrightarrow> p \<le> q"
  by (auto simp: string_escape_def Let_def intro!: order_trans [OF _ consume_string_tail_ge] split: if_splits)

text \<open>The position in a result of the literal scanners.\<close>

abbreviation literal_position :: "literal_error + nat \<Rightarrow> nat" where
  "literal_position r \<equiv> (case r of Inl e \<Rightarrow> fst e | Inr q \<Rightarrow> q)"

lemma string_body_ge: "p \<le> literal_position (string_body s p)"
proof (induction s p rule: string_body.induct)
  case (1 s p)
  show ?case
  proof (cases "string_escape s (p + 1)")
    case (Inl e)
    then show ?thesis
      using "1.IH"(2) [OF refl] string_escape_error_ge [of s "p + 1" "fst e" "snd e"]
      by (subst string_body.simps) (auto simp: Let_def unterminated_string_def)
  next
    case (Inr q)
    then show ?thesis
      using "1.IH" [OF refl] string_escape_advances [OF Inr]
      by (subst string_body.simps) (auto simp: Let_def unterminated_string_def)
  qed
qed

lemma char_escape_error_ge: "char_escape s p = Inl (q, e) \<Longrightarrow> p \<le> q"
  by (auto simp: char_escape_def Let_def intro!: order_trans [OF _ consume_char_tail_ge] split: if_splits option.splits)

abbreviation char_position :: "literal_error + u64 \<times> nat \<times> 32 word \<times> nat \<Rightarrow> nat" where
  "char_position r \<equiv> (case r of Inl e \<Rightarrow> fst e | Inr x \<Rightarrow> snd (snd (snd x)))"

lemma char_body_plain:
  assumes "char_at s p \<notin> {NUL, NL, squote, backslash}"
  shows "char_body s p a n v =
    char_body s (p + 1) (if n = 0 then ucast (byte (char_at s p) AND 0xFF) else push_bit 8 a OR ucast (byte (char_at s p) AND 0xFF))
      (n + 1) (byte (char_at s p))"
  using assms by (subst char_body.simps) (simp add: Let_def)

lemma char_body_escape:
  assumes "char_at s p = backslash" "char_escape s (p + 1) = Inr (w, q)"
  shows "char_body s p a n v =
    char_body s q (if n = 0 then ucast (w AND 0xFF) else push_bit 8 a OR ucast (w AND 0xFF)) (n + 1) w"
  using assms by (subst char_body.simps) (simp add: Let_def)

lemma char_body_ge: "p \<le> char_position (char_body s p a n v)"
proof (induction s p a n v rule: char_body.induct)
  case (1 s p a n v)
  note plain = "1.IH"(2) [OF refl refl refl _ _ _ refl] and escaped = "1.IH"(1) [OF refl refl refl]
  consider "char_at s p = NUL \<or> char_at s p = NL \<or> char_at s p = squote" | "char_at s p = backslash"
    | "char_at s p \<notin> {NUL, NL, squote, backslash}" by blast
  then show ?case
  proof cases
    case 1
    then show ?thesis by (subst char_body.simps) (auto simp: Let_def)
  next
    case 2
    show ?thesis
    proof (cases "char_escape s (p + 1)")
      case (Inl e)
      then show ?thesis
        using 2 char_escape_error_ge [of s "p + 1" "fst e" "snd e"] by (subst char_body.simps) (simp add: Let_def)
    next
      case (Inr r)
      then obtain w q where r: "char_escape s (p + 1) = Inr (w, q)" by (cases r) auto
      from escaped [OF _ _ 2 r refl] 2 have "q \<le> char_position (char_body s q
          (if n = 0 then ucast (w AND 0xFF) else push_bit 8 a OR ucast (w AND 0xFF)) (n + 1) w)" by simp
      then show ?thesis
        unfolding char_body_escape [OF 2 r] using char_escape_advances [OF r] by linarith
    qed
  next
    case 3
    then show ?thesis using plain by (subst char_body_plain) auto
  qed
qed

lemma skip_space_ge: "lx_source (skip_space lx) = lx_source lx \<and> lx_position lx \<le> lx_position (skip_space lx)"
proof (induction lx rule: skip_space.induct)
  case (1 lx)
  show ?case
    using "1.IH" [OF refl refl] by (subst (1 2) skip_space.simps) (auto simp: Let_def dest: Suc_leD)
qed

lemma number_prefix_ge: "p \<le> ns_position (number_prefix s p)"
  by (simp add: number_prefix_def number_start_def Let_def)

lemma run_length_pos: "P (char_at s p) \<Longrightarrow> \<not> P NUL \<Longrightarrow> run_length P s p > 0"
  by (auto simp: run_length_def char_at_def Cons_nth_drop_Suc [symmetric] split: if_splits)

lemma number_prefix_gt: "is_digit (char_at s p) \<Longrightarrow> p < ns_position (number_prefix s p)"
  using run_length_pos [of is_digit s p] by (simp add: number_prefix_def number_start_def Let_def)

lemma number_fraction_ge: "ns_position ns \<le> ns_position (number_fraction s ns)"
  by (simp add: number_fraction_def Let_def)

lemma number_fraction_gt: "char_at s (ns_position ns) = CHR ''.'' \<Longrightarrow> ns_position ns < ns_position (number_fraction s ns)"
  by (simp add: number_fraction_def Let_def)

lemma number_scan_gt:
  assumes "is_digit (char_at s p) \<or> char_at s p = CHR ''.''"
  shows "p < ns_position (number_fraction s (number_prefix s p))"
proof (cases "is_digit (char_at s p)")
  case True
  then show ?thesis using number_prefix_gt number_fraction_ge less_le_trans by blast
next
  case False
  then have dot: "char_at s p = CHR ''.''" using assms by simp
  then have "run_length is_digit s p = 0"
    using False by (auto simp: run_length_def char_at_def Cons_nth_drop_Suc [symmetric] split: if_splits)
  then have "ns_position (number_prefix s p) = p"
    using dot by (simp add: number_prefix_def number_start_def Let_def)
  then show ?thesis using dot number_fraction_gt [of s "number_prefix s p"] by simp
qed

lemma number_verdict_ge: "number_verdict s ns = Some (m, b, q) \<Longrightarrow> ns_position ns \<le> q"
  by (auto simp: number_verdict_def Let_def split: if_splits)

lemma number_with_suffix_ge: "ns_position ns \<le> ns_position (number_with_suffix s ns)"
  by (simp add: number_with_suffix_def split: prod.splits)

text \<open>What every handler guarantees: the source stays, the position advances.\<close>

definition advances :: "Lexer \<Rightarrow> Lexer \<Rightarrow> bool" where
  "advances lx lx' \<longleftrightarrow> lx_source lx' = lx_source lx \<and> lx_position lx < lx_position lx'"

lemma token_at_advances: "lx_position lx < q \<Longrightarrow> advances lx (snd (token_at lx q ty v m))"
  by (simp add: advances_def lexer_step)

lemma error_at_advances: "lx_position lx < q \<Longrightarrow> advances lx (snd (error_at lx q r msg got v m))"
  by (simp add: advances_def lexer_step)

lemma number_token_advances: "lx_position lx < ns_position ns \<Longrightarrow> advances lx (snd (number_token lx ns))"
  using number_with_suffix_ge [of ns "lx_source lx"] number_verdict_ge [of "lx_source lx" "number_with_suffix (lx_source lx) ns"]
  by (fastforce simp: number_token_def Let_def advances_def lexer_step split: option.splits prod.splits)

lemma handleNumber_advances:
  assumes "is_digit (source_at lx (lx_position lx)) \<or> source_at lx (lx_position lx) = CHR ''.''"
  shows "advances lx (snd (handleNumber lx))"
proof -
  define ns where "ns = number_fraction (lx_source lx) (number_prefix (lx_source lx) (lx_position lx))"
  have gt: "lx_position lx < ns_position ns" unfolding ns_def using assms by (rule number_scan_gt)
  moreover have "ns_position ns < exponent_digits (lx_source lx) (ns_position ns)"
    by (simp add: exponent_digits_def Let_def)
  ultimately show ?thesis
    unfolding handleNumber_def Let_def ns_def [symmetric]
    by (auto intro!: number_token_advances error_at_advances)
qed

lemma handleIdentifier_advances:
  assumes "is_word_char (source_at lx p) \<or> lexer_identifier_ucn_length lx p > 0 \<or> lexer_identifier_utf8_length lx p > 0"
    "p = lx_position lx"
  shows "advances lx (snd (handleIdentifierOrKeyword lx))"
  using identifier_end_gt [of lx p] assms by (simp add: handleIdentifierOrKeyword_def advances_def lexer_step Let_def)

lemma handleStringLiteral_advances: "advances lx (snd (handleStringLiteral lx))"
  using string_body_ge [of "lx_position lx + 1" "lx_source lx"]
  by (auto simp: handleStringLiteral_def advances_def lexer_step Let_def split: sum.splits)

lemma handleCharLiteral_advances: "advances lx (snd (handleCharLiteral lx))"
  using char_body_ge [of "lx_position lx + 1" "lx_source lx" 0 0 0]
  by (auto simp: handleCharLiteral_def advances_def lexer_step Let_def split: sum.splits)

lemma handleDirective_advances: "advances lx (snd (handlePreprocessorDirective lx))"
  using skip_space_ge [of "lx\<lparr>lx_position := lx_position lx + 1\<rparr>"]
  by (auto simp: handlePreprocessorDirective_def advances_def lexer_step Let_def)

lemma operator_token_length: "operator_token c n n2 = Some (ty, v) \<Longrightarrow> 0 < length v"
  by (auto simp: operator_token_def split: if_splits)

lemma punctuation_token_length: "punctuation_token c n n2 = Some (ty, v) \<Longrightarrow> 0 < length v"
  by (auto simp: punctuation_token_def split: if_splits)

lemma handlePunctuation_advances: "advances lx (snd (handlePunctuation lx))"
  by (auto simp: handlePunctuation_def advances_def lexer_step Let_def split: option.splits dest: punctuation_token_length)

lemma handleUnknown_advances: "advances lx (snd (handleUnknownToken lx))"
  by (simp add: handleUnknownToken_def advances_def lexer_step Let_def)

lemma handleComment_advances: "handleComment lx = Scanned t lx' \<Longrightarrow> advances lx lx'"
  by (auto simp: handleComment_def Let_def scanned_def advances_def lexer_step split: if_splits prod.splits bool.splits
      dest!: block_comment_keeps)

lemma handleOperator_advances: "handleOperator lx = Scanned t lx' \<Longrightarrow> advances lx lx'"
  using handlePunctuation_advances [of lx] handleUnknown_advances [of "lx\<lparr>lx_position := lx_position lx + 1\<rparr>"]
  by (auto simp: handleOperator_def Let_def scanned_def lexer_step advances_def
      split: if_splits option.splits prod.splits dest: operator_token_length dest!: handleComment_advances [unfolded advances_def])

lemma advances_from: "advances (lx\<lparr>lx_position := p\<rparr>) lx' \<Longrightarrow> lx_position lx \<le> p \<Longrightarrow> advances lx lx'"
  by (simp add: advances_def)

lemma after_prefix_Scanned: "after_prefix r lx = Scanned t lx' \<longleftrightarrow> r = Some t \<and> lx' = lx"
  by (auto simp: after_prefix_def split: option.splits)

lemma scanned_Scanned: "scanned r = Scanned t lx' \<longleftrightarrow> r = (t, lx')"
  by (cases r) (simp add: scanned_def)

lemma alpha_word: "is_alpha c \<or> c = CHR ''_'' \<Longrightarrow> is_word_char c"
  by (auto simp: is_word_char_def is_alnum_def)

text \<open>What holds of every handler, where it relies on what it relies on, holds of \<open>scan_token\<close>.\<close>

lemma scan_token_split:
  assumes eof: "isEOF lx \<Longrightarrow> P (scanned (token_at lx (lx_position lx + 1) TOKEN_EOF ''EOF'' (lexer_mark lx)))"
    and prefixed_string: "\<And>k prefix. \<lbrakk>\<not> isEOF lx; source_at lx (lx_position lx + k) \<in> set ''LuU8''; source_at lx (lx_position lx + k + 1) = dquote\<rbrakk> \<Longrightarrow>
      P (case handleStringLiteral (lx\<lparr>lx_position := lx_position lx + k + 1\<rparr>) of (r, lx') \<Rightarrow> after_prefix (prepend_literal_prefix prefix r) lx')"
    and prefixed_char: "\<lbrakk>\<not> isEOF lx; source_at lx (lx_position lx) \<in> set ''LuU8''; source_at lx (lx_position lx + 1) = squote\<rbrakk> \<Longrightarrow>
      P (case handleCharLiteral (lx\<lparr>lx_position := lx_position lx + 1\<rparr>) of (r, lx') \<Rightarrow> after_prefix (prepend_literal_prefix ''W|'' r) lx')"
    and word: "\<lbrakk>\<not> isEOF lx; is_word_char (source_at lx (lx_position lx)) \<or> lexer_identifier_ucn_length lx (lx_position lx) > 0 \<or>
        lexer_identifier_utf8_length lx (lx_position lx) > 0\<rbrakk> \<Longrightarrow> P (scanned (handleIdentifierOrKeyword lx))"
    and ucn: "\<not> isEOF lx \<Longrightarrow> P (scanned (unsupported_ucn lx))"
    and number: "\<lbrakk>\<not> isEOF lx; is_digit (source_at lx (lx_position lx)) \<or> source_at lx (lx_position lx) = CHR ''.''\<rbrakk> \<Longrightarrow>
      P (scanned (handleNumber lx))"
    and string: "\<not> isEOF lx \<Longrightarrow>
      P (case handleStringLiteral lx of (r, lx') \<Rightarrow> after_prefix (mark_ambiguous_narrow_string_literal r) lx')"
    and char: "\<not> isEOF lx \<Longrightarrow> P (case handleCharLiteral lx of (r, lx') \<Rightarrow> Scanned (fst r) lx')"
    and directive: "\<not> isEOF lx \<Longrightarrow> P (scanned (handlePreprocessorDirective lx))"
    and comment: "\<not> isEOF lx \<Longrightarrow> P (handleComment lx)"
    and operator: "\<lbrakk>\<not> isEOF lx; source_at lx (lx_position lx) \<in> set ''=+-*/%<>!&|^~''; source_at lx (lx_position lx) \<noteq> CHR ''/''\<rbrakk> \<Longrightarrow>
      P (handleOperator lx)"
    and punctuation: "\<lbrakk>\<not> isEOF lx; source_at lx (lx_position lx) \<in> set ''?:;,(){}[].''\<rbrakk> \<Longrightarrow> P (scanned (handlePunctuation lx))"
    and unknown: "\<not> isEOF lx \<Longrightarrow> P (scanned (handleUnknownToken lx))"
  shows "P (scan_token lx)"
  unfolding scan_token_def Let_def
  apply (rule if_intro)
  subgoal by (rule eof)
  apply (rule if_intro)
  subgoal using prefixed_string [of 1 "''U8|''"] by simp
  apply (rule if_intro)
  subgoal using prefixed_string [of 0 "''W|''"] by auto
  apply (rule if_intro)
  subgoal using prefixed_char by auto
  apply (rule if_intro)
  subgoal using word ucn by simp
  apply (rule if_intro)
  subgoal using word alpha_word [of "source_at lx (lx_position lx)"] by blast
  apply (rule if_intro)
  subgoal using number by blast
  apply (rule if_intro)
  subgoal by (rule string)
  apply (rule if_intro)
  subgoal by (rule char)
  apply (rule if_intro)
  subgoal by (rule directive)
  apply (rule if_intro)
  subgoal by (rule comment)
  apply (rule if_intro)
  subgoal by (rule operator)
  apply (rule if_intro)
  subgoal by (rule punctuation)
  subgoal by (rule unknown)
  done

lemma scanned_imp: "Q (snd r) \<Longrightarrow> scanned r = Scanned t lx' \<longrightarrow> Q lx'"
  by (auto simp: scanned_Scanned)

lemma scan_token_advances: "scan_token lx = Scanned t lx' \<longrightarrow> advances lx lx'"
proof (rule scan_token_split)
  fix k prefix
  show "(case handleStringLiteral (lx\<lparr>lx_position := lx_position lx + k + 1\<rparr>) of (r, lx') \<Rightarrow> after_prefix (prepend_literal_prefix prefix r) lx') =
      Scanned t lx' \<longrightarrow> advances lx lx'"
    using handleStringLiteral_advances [of "lx\<lparr>lx_position := lx_position lx + k + 1\<rparr>"]
    by (auto simp: after_prefix_Scanned split: prod.splits intro: advances_from)
next
  show "(case handleCharLiteral (lx\<lparr>lx_position := lx_position lx + 1\<rparr>) of (r, lx') \<Rightarrow> after_prefix (prepend_literal_prefix ''W|'' r) lx') =
      Scanned t lx' \<longrightarrow> advances lx lx'"
    using handleCharLiteral_advances [of "lx\<lparr>lx_position := lx_position lx + 1\<rparr>"]
    by (auto simp: after_prefix_Scanned split: prod.splits intro: advances_from)
next
  show "(case handleStringLiteral lx of (r, lx') \<Rightarrow> after_prefix (mark_ambiguous_narrow_string_literal r) lx') =
      Scanned t lx' \<longrightarrow> advances lx lx'"
    using handleStringLiteral_advances [of lx] by (auto simp: after_prefix_Scanned split: prod.splits)
next
  show "(case handleCharLiteral lx of (r, lx') \<Rightarrow> Scanned (fst r) lx') = Scanned t lx' \<longrightarrow> advances lx lx'"
    using handleCharLiteral_advances [of lx] by (auto split: prod.splits)
qed (auto intro!: scanned_imp [where Q = "advances lx"] handleIdentifier_advances handleNumber_advances handleDirective_advances
    handlePunctuation_advances handleUnknown_advances token_at_advances simp: advances_def [of lx "snd (unsupported_ucn lx)"] lexer_step
    dest: handleComment_advances handleOperator_advances)

section \<open>Lexing a file ends\<close>

text \<open>A literal with an encoding prefix, or what looks like one.\<close>

fun prefixed_literal :: "string \<Rightarrow> bool" where
  "prefixed_literal (a # b # cs) \<longleftrightarrow> a \<in> set ''LuU8'' \<and> (b = dquote \<or> b = squote) \<or> prefixed_literal (b # cs)"
| "prefixed_literal _ \<longleftrightarrow> False"

lemma prefixed_literal_at:
  "char_at s i \<in> set ''LuU8'' \<Longrightarrow> char_at s (i + 1) = dquote \<or> char_at s (i + 1) = squote \<Longrightarrow> prefixed_literal s"
proof (induction s arbitrary: i rule: prefixed_literal.induct)
  case (1 a b cs)
  show ?case
  proof (cases i)
    case 0
    then show ?thesis using "1.prems" by (auto simp: char_at_def)
  next
    case (Suc k)
    then have "char_at (b # cs) k \<in> set ''LuU8''" "char_at (b # cs) (k + 1) = dquote \<or> char_at (b # cs) (k + 1) = squote"
      using "1.prems" by (simp_all add: char_at_def split: if_splits)
    then show ?thesis using "1.IH" by simp
  qed
qed (auto simp: char_at_def split: if_splits)

lemma string_token_allocated: "tk_type (fst (fst (handleStringLiteral lx))) = TOKEN_STRING \<Longrightarrow> snd (fst (handleStringLiteral lx))"
  by (auto simp: handleStringLiteral_def Let_def apfst_def map_prod_def lexer_step split: sum.splits prod.splits)
    (metis error_at_simps(5) fst_conv numeral_eq_iff semiring_norm(85,89,90))

lemma mark_ambiguous_Some: "mark_ambiguous_narrow_string_literal (fst (handleStringLiteral lx)) \<noteq> None"
  using string_token_allocated [of lx]
  by (cases "fst (handleStringLiteral lx)")
    (auto simp: mark_ambiguous_narrow_string_literal_def prepend_literal_prefix_def split: option.splits)

lemma after_prefix_Bad_free: "after_prefix r lx = Bad_free \<longleftrightarrow> r = None"
  by (auto simp: after_prefix_def split: option.splits)

lemma handleComment_not_Bad_free [simp]: "handleComment lx \<noteq> Bad_free"
  by (auto simp: handleComment_def Let_def scanned_def split: prod.splits bool.splits)

lemma scan_token_Bad_free: "scan_token lx = Bad_free \<longrightarrow> prefixed_literal (lx_source lx)"
proof (rule scan_token_split)
  show "(case handleStringLiteral lx of (r, lx') \<Rightarrow> after_prefix (mark_ambiguous_narrow_string_literal r) lx') = Bad_free \<longrightarrow>
      prefixed_literal (lx_source lx)"
    using mark_ambiguous_Some [of lx] by (auto simp: after_prefix_Bad_free split: prod.splits)
qed (auto simp: scanned_def handleOperator_def Let_def intro: prefixed_literal_at split: prod.splits option.splits)

lemma getNextToken_None: "getNextToken lx = None \<Longrightarrow> prefixed_literal (lx_source lx)"
proof (induction lx rule: getNextToken.induct)
  case (1 lx)
  show ?case
  proof (cases "scan_token (skipWhitespace lx)")
    case (Scanned u l)
    then show ?thesis using "1.prems" by (subst (asm) getNextToken.simps) simp
  next
    case (Rescan l)
    then have "getNextToken l = None" using "1.prems" by (subst (asm) getNextToken.simps) simp
    then have "prefixed_literal (lx_source l)" by (rule "1.IH" [OF Rescan])
    then show ?thesis using scan_token_rescan [OF Rescan] skipWhitespace_keeps [of lx] by simp
  next
    case Bad_free
    then show ?thesis using scan_token_Bad_free [of "skipWhitespace lx"] skipWhitespace_keeps [of lx] by simp
  qed
qed

lemma getNextToken_advances: "getNextToken lx = Some (t, lx') \<Longrightarrow> advances lx lx'"
proof (induction lx rule: getNextToken.induct)
  case (1 lx)
  show ?case
  proof (cases "scan_token (skipWhitespace lx)")
    case (Scanned u l)
    then show ?thesis
      using "1.prems" scan_token_advances [of "skipWhitespace lx" u l] skipWhitespace_keeps [of lx]
      by (subst (asm) getNextToken.simps) (auto simp: advances_def)
  next
    case (Rescan l)
    then have "getNextToken l = Some (t, lx')" using "1.prems" by (subst (asm) getNextToken.simps) simp
    then have "advances l lx'" by (rule "1.IH" [OF Rescan])
    then show ?thesis using scan_token_rescan [OF Rescan] skipWhitespace_keeps [of lx] by (auto simp: advances_def)
  next
    case Bad_free
    then show ?thesis using "1.prems" by (subst (asm) getNextToken.simps) simp
  qed
qed

lemma getNextToken_at_end:
  "lx_position lx \<ge> lx_length lx \<Longrightarrow> \<exists>t lx'. getNextToken lx = Some (t, lx') \<and> tk_type t = TOKEN_EOF"
  by (subst getNextToken.simps, subst skipWhitespace.simps)
    (simp add: scan_token_def isEOF_def scanned_def Let_def, metis prod.collapse token_at_simps(5))

abbreviation next_token :: "Lexer \<Rightarrow> Token \<times> Lexer" where
  "next_token lx \<equiv> the (getNextToken lx)"

lemma fill_reaches_end:
  assumes "\<not> prefixed_literal (lx_source lx)" "lx_length lx - lx_position lx \<le> steps"
  shows "\<exists>ts lx'. fill_loop next_token steps lx b = (b @ ts, lx', True) \<and> ts \<noteq> [] \<and>
    tk_type (last ts) = TOKEN_EOF \<and> length ts \<le> lx_length lx - lx_position lx + 1"
  using assms
proof (induction steps arbitrary: lx b)
  case 0
  then obtain t lx' where "getNextToken lx = Some (t, lx')" "tk_type t = TOKEN_EOF"
    using getNextToken_at_end [of lx] by auto
  then show ?case by (subst fill_loop.simps) (simp add: token_buffer_append_def)
next
  case (Suc k)
  obtain t l where n: "getNextToken lx = Some (t, l)"
    using Suc.prems(1) getNextToken_None [of lx] by (cases "getNextToken lx") auto
  have adv: "advances lx l" by (rule getNextToken_advances [OF n])
  show ?case
  proof (cases "tk_type t = TOKEN_EOF")
    case True
    then show ?thesis using n by (subst fill_loop.simps) (simp add: token_buffer_append_def)
  next
    case False
    then have inside: "lx_position lx < lx_length lx"
      using n getNextToken_at_end [of lx] by (cases "lx_position lx < lx_length lx") auto
    with adv Suc.prems have "\<not> prefixed_literal (lx_source l)" "lx_length l - lx_position l \<le> k"
      by (auto simp: advances_def)
    from Suc.IH [OF this, of "b @ [t]"] obtain ts lx' where ts: "fill_loop next_token k l (b @ [t]) = ((b @ [t]) @ ts, lx', True)"
        "ts \<noteq> []" "tk_type (last ts) = TOKEN_EOF" "length ts \<le> lx_length l - lx_position l + 1"
      by blast
    have "fill_loop next_token (Suc k) lx b = (b @ (t # ts), lx', True)"
      using ts(1) n False by (subst fill_loop.simps) (simp add: token_buffer_append_def)
    moreover have "length (t # ts) \<le> lx_length lx - lx_position lx + 1"
      using ts(4) adv inside by (auto simp: advances_def)
    ultimately show ?thesis using ts(2,3) by (intro exI [of _ "t # ts"] exI [of _ lx']) simp
  qed
qed

text \<open>
  C28. Filling the token buffer from any source text without encoding-prefixed literals succeeds: the scanner reaches
  the end of file within the safety limit of \<open>token_buffer_fill_from_lexer\<close>, after at most one token per
  character and the end-of-file token, which stands last.\<close>
theorem lexing_reaches_end_of_file:
  assumes "\<not> prefixed_literal (fst (translate_source text trigraphs))"
  shows "\<exists>b lx'. token_buffer_fill_from_lexer next_token (lx_length (initLexer (Some text) path trigraphs))
      (initLexer (Some text) path trigraphs) token_buffer_init = (b, lx', True) \<and>
    b \<noteq> [] \<and> tk_type (last b) = TOKEN_EOF \<and> length b \<le> length (fst (translate_source text trigraphs)) + 1"
proof -
  let ?lx = "initLexer (Some text) path trigraphs"
  have source: "lx_source ?lx = fst (translate_source text trigraphs)" "lx_position ?lx = 0"
    by (simp_all add: initLexer_def split: prod.splits)
  have "lx_length ?lx - lx_position ?lx \<le> safety_limit (lx_length ?lx)" by (auto simp: safety_limit_def)
  from fill_reaches_end [OF _ this, of "[]"] assms source show ?thesis
    unfolding token_buffer_fill_from_lexer_def token_buffer_init_def by fastforce
qed

theorem lexing_reaches_end_of_file_witness:
  "\<exists>b lx'. token_buffer_fill_from_lexer next_token (lx_length (initLexer (Some ''a = 1;'') None False))
      (initLexer (Some ''a = 1;'') None False) token_buffer_init = (b, lx', True) \<and>
    b \<noteq> [] \<and> tk_type (last b) = TOKEN_EOF \<and> length b \<le> length (fst (translate_source ''a = 1;'' False)) + 1"
  by (rule lexing_reaches_end_of_file) code_simp

text \<open>
  A prefixed literal that is not terminated reaches \<open>prepend_literal_prefix\<close> with the text of the error token, a
  string constant, which is freed: the call has no defined result.\<close>
theorem unterminated_wide_string_frees_constant:
  "getNextToken (initLexer (Some [CHR ''L'', dquote, CHR ''a'']) None False) = None"
  by code_simp

section \<open>Unknown tokens and reported errors\<close>

text \<open>One report for an unknown token, none for another.\<close>

definition reported :: "Lexer \<Rightarrow> Token \<Rightarrow> Lexer \<Rightarrow> bool" where
  "reported lx t lx' \<longleftrightarrow>
    (let n = (if tk_type t = TOKEN_UNKNOWN then 1 else 0) in
     lx_fatalErrorCount lx' = lx_fatalErrorCount lx + n \<and> length (lx_reports lx') = length (lx_reports lx) + n \<and>
     lx_filePath lx' = lx_filePath lx)"

lemma path_kept [lexer_step]:
  "lx_filePath (snd (token_at lx q ty v m)) = lx_filePath lx"
  "lx_filePath (snd (error_at lx q r msg got v m)) = lx_filePath lx"
  "lx_filePath (snd (unsupported_ucn lx)) = lx_filePath lx"
  by (simp_all add: token_at_def error_at_def unsupported_ucn_def report_lexer_error_def report_unsupported_ucn_identifier_def
      add_report_def Let_def split: prod.splits)

abbreviation reported_pair :: "Lexer \<Rightarrow> Token \<times> Lexer \<Rightarrow> bool" where
  "reported_pair lx r \<equiv> reported lx (fst r) (snd r)"

lemma reported_token_at: "ty \<noteq> TOKEN_UNKNOWN \<Longrightarrow> reported_pair lx (token_at lx q ty v m)"
  by (simp add: reported_def lexer_step)

lemma reported_error_at: "reported_pair lx (error_at lx q r msg got v m)"
  by (simp add: reported_def lexer_step)

lemma reported_unsupported: "reported_pair lx (unsupported_ucn lx)"
  by (simp add: reported_def lexer_step)

lemma map_of_other: "map_of ts w = Some t \<Longrightarrow> list_all (\<lambda>x. snd x \<noteq> bad) ts \<Longrightarrow> t \<noteq> bad"
  by (fastforce simp: list_all_iff dest: map_of_SomeD)

lemma keyword_types_known: "list_all (\<lambda>x. snd x \<noteq> TOKEN_UNKNOWN) keyword_types"
  "list_all (\<lambda>x. snd x \<noteq> TOKEN_UNKNOWN) alternate_keywords" "list_all (\<lambda>x. snd x \<noteq> TOKEN_UNKNOWN) directive_types"
  by (simp_all add: keyword_types_def alternate_keywords_def directive_types_def)

lemma identifier_type_known: "identifier_type w \<noteq> TOKEN_UNKNOWN"
  by (auto simp: identifier_type_def keywordToTokenType_def split: option.splits dest!: map_of_other [OF _ keyword_types_known(1)]
      map_of_other [OF _ keyword_types_known(2)])

lemma number_suffix_type: "snd (number_suffix u l ty cs) \<in> {ty, TOKEN_FLOAT_LITERAL}"
  by (induction u l ty cs rule: number_suffix.induct) auto

lemma number_scan_type: "ns_type (number_fraction s (number_prefix s p)) \<in> {TOKEN_NUMBER, TOKEN_FLOAT_LITERAL}"
  by (simp add: number_fraction_def number_prefix_def number_start_def Let_def)

lemma number_with_suffix_type: "ns_type (number_with_suffix s ns) \<in> {ns_type ns, TOKEN_FLOAT_LITERAL}"
  using number_suffix_type [of False 0 "ns_type ns" "drop (ns_position ns) s"]
  by (auto simp: number_with_suffix_def split: prod.splits)

lemma reported_number_token: "ns_type ns \<in> {TOKEN_NUMBER, TOKEN_FLOAT_LITERAL} \<Longrightarrow> reported_pair lx (number_token lx ns)"
  using number_with_suffix_type [of "lx_source lx" ns]
  by (auto simp: number_token_def Let_def intro!: reported_token_at reported_error_at split: option.splits prod.splits)

lemma reported_number: "reported_pair lx (handleNumber lx)"
  using number_scan_type [of "lx_source lx" "lx_position lx"]
  by (auto simp: handleNumber_def Let_def intro!: reported_number_token reported_error_at)

lemma reported_string: "reported lx (fst (fst (handleStringLiteral lx))) (snd (handleStringLiteral lx))"
  by (auto simp: handleStringLiteral_def Let_def reported_error_at intro!: reported_token_at split: sum.splits)

lemma reported_char: "reported lx (fst (fst (handleCharLiteral lx))) (snd (handleCharLiteral lx))"
  by (auto simp: handleCharLiteral_def Let_def reported_error_at intro!: reported_token_at split: sum.splits)

lemma reported_from: "reported (lx\<lparr>lx_position := p\<rparr>) t lx' = reported lx t lx'"
  by (simp add: reported_def)

lemma reported_retyped: "tk_type t = tk_type t' \<Longrightarrow> reported lx t lx' = reported lx t' lx'"
  by (simp add: reported_def)

lemma prepend_type: "prepend_literal_prefix prefix r = Some t \<Longrightarrow> tk_type t = tk_type (fst r)"
  by (cases r) (auto simp: prepend_literal_prefix_def split: option.splits if_splits)

lemma mark_type: "mark_ambiguous_narrow_string_literal r = Some t \<Longrightarrow> tk_type t = tk_type (fst r)"
  by (auto simp: mark_ambiguous_narrow_string_literal_def split: option.splits if_splits dest: prepend_type)

text \<open>The steps that only move the cursor.\<close>

definition quiet :: "Lexer \<Rightarrow> Lexer \<Rightarrow> bool" where
  "quiet lx lx' \<longleftrightarrow> lx_fatalErrorCount lx' = lx_fatalErrorCount lx \<and> lx_reports lx' = lx_reports lx \<and> lx_filePath lx' = lx_filePath lx"

lemma quiet_trans: "quiet a b \<Longrightarrow> quiet b c \<Longrightarrow> quiet a c"
  by (simp add: quiet_def)

lemma quiet_reported: "quiet lx l \<Longrightarrow> reported l t lx' \<Longrightarrow> reported lx t lx'"
  by (simp add: quiet_def reported_def)

lemma quiet_skip_turn: "skip_turn lx = Some lx' \<Longrightarrow> quiet lx lx'"
  by (auto simp: skip_turn_def quiet_def Let_def split: if_splits)

lemma quiet_skipWhitespace: "quiet lx (skipWhitespace lx)"
proof (induction lx rule: skipWhitespace.induct)
  case (1 lx)
  show ?case
  proof (cases "lx_position lx < lx_length lx \<and> skip_turn lx \<noteq> None")
    case True
    then obtain lx' where t: "lx_position lx < lx_length lx" "skip_turn lx = Some lx'" by auto
    then have "skipWhitespace lx = skipWhitespace lx'" by (subst skipWhitespace.simps) simp
    with "1.IH" [OF t] quiet_skip_turn [OF t(2)] show ?thesis by (auto intro: quiet_trans)
  qed (subst skipWhitespace.simps, auto simp: quiet_def)
qed

lemma quiet_block_comment: "quiet lx (snd (block_comment lx))"
proof (induction lx rule: block_comment.induct)
  case (1 lx)
  show ?case using "1.IH" [OF refl refl] by (subst block_comment.simps) (auto simp: Let_def quiet_def)
qed

lemma quiet_skip_space: "quiet lx (skip_space lx)"
proof (induction lx rule: skip_space.induct)
  case (1 lx)
  show ?case using "1.IH" [OF refl refl] by (subst skip_space.simps) (auto simp: Let_def quiet_def)
qed

lemma reported_directive: "reported_pair lx (handlePreprocessorDirective lx)"
proof -
  let ?l = "skip_space (lx\<lparr>lx_position := lx_position lx + 1\<rparr>)"
  have "quiet lx ?l" using quiet_skip_space [of "lx\<lparr>lx_position := lx_position lx + 1\<rparr>"] by (simp add: quiet_def)
  then have "ty \<noteq> TOKEN_UNKNOWN \<Longrightarrow> reported_pair lx (token_at ?l q ty v m)" for q ty v m
    by (rule quiet_reported) (rule reported_token_at)
  then show ?thesis
    by (auto simp: handlePreprocessorDirective_def Let_def intro!: reported_token_at split: option.splits
        dest!: map_of_other [OF _ keyword_types_known(3)])
qed

lemma reported_comment: "handleComment lx = Scanned t lx' \<Longrightarrow> reported lx t lx'"
proof -
  assume *: "handleComment lx = Scanned t lx'"
  obtain b l where bc: "block_comment (lx\<lparr>lx_position := lx_position lx + 2\<rparr>) = (b, l)" by fastforce
  then have "quiet lx l" using quiet_block_comment [of "lx\<lparr>lx_position := lx_position lx + 2\<rparr>"] by (simp add: quiet_def)
  then have "reported_pair lx (error_at l q r msg got v m)" for q r msg got v m
    by (rule quiet_reported) (rule reported_error_at)
  with * show ?thesis
    using bc by (cases b) (auto simp: handleComment_def Let_def scanned_def intro!: reported_token_at split: if_splits)
qed

lemma operator_token_known: "operator_token c n n2 = Some (ty, v) \<Longrightarrow> ty \<noteq> TOKEN_UNKNOWN"
  by (auto simp: operator_token_def split: if_splits)

lemma operator_token_Some: "c \<in> set ''=+-*/%<>!&|^~'' \<Longrightarrow> c \<noteq> CHR ''/'' \<Longrightarrow> operator_token c n n2 \<noteq> None"
  by (auto simp: operator_token_def)

lemma punctuation_token_known: "punctuation_token c n n2 = Some (ty, v) \<Longrightarrow> ty \<noteq> TOKEN_UNKNOWN"
  by (auto simp: punctuation_token_def split: if_splits)

lemma punctuation_token_Some: "c \<in> set ''?:;,(){}[].'' \<Longrightarrow> punctuation_token c n n2 \<noteq> None"
  by (auto simp: punctuation_token_def)

lemma handlePunctuation_punctuation:
  assumes "source_at lx (lx_position lx) \<in> set ''?:;,(){}[].''"
  obtains ty v where
    "punctuation_token (source_at lx (lx_position lx)) (source_at lx (lx_position lx + 1)) (source_at lx (lx_position lx + 2)) = Some (ty, v)"
    "handlePunctuation lx = token_at lx (lx_position lx + length v) ty v (lexer_mark lx)"
proof -
  obtain ty v where
    "punctuation_token (source_at lx (lx_position lx)) (source_at lx (lx_position lx + 1)) (source_at lx (lx_position lx + 2)) = Some (ty, v)"
    using punctuation_token_Some [OF assms] by fastforce
  then show thesis by (intro that) (simp_all add: handlePunctuation_def Let_def)
qed

lemma reported_punctuation:
  assumes "source_at lx (lx_position lx) \<in> set ''?:;,(){}[].''"
  shows "reported_pair lx (handlePunctuation lx)"
  by (rule handlePunctuation_punctuation [OF assms]) (simp add: reported_token_at punctuation_token_known)

lemma handleOperator_operator:
  assumes "source_at lx (lx_position lx) \<in> set ''=+-*/%<>!&|^~''" "source_at lx (lx_position lx) \<noteq> CHR ''/''"
  obtains ty v where
    "operator_token (source_at lx (lx_position lx)) (source_at lx (lx_position lx + 1)) (source_at lx (lx_position lx + 2)) = Some (ty, v)"
    "handleOperator lx = scanned (token_at lx (lx_position lx + length v) ty v (lexer_mark lx))"
proof -
  obtain ty v where
    "operator_token (source_at lx (lx_position lx)) (source_at lx (lx_position lx + 1)) (source_at lx (lx_position lx + 2)) = Some (ty, v)"
    using operator_token_Some [OF assms] by fastforce
  moreover have "source_at lx (lx_position lx) \<notin> set '';,.(){}[]''" using assms(1) by auto
  ultimately show thesis using assms(2) by (intro that) (simp_all add: handleOperator_def Let_def)
qed

lemma reported_unknown: "\<not> lexer_is_system_header_path (lexer_file_path lx) \<Longrightarrow> reported_pair lx (handleUnknownToken lx)"
  by (simp add: handleUnknownToken_def Let_def reported_error_at)

lemma scan_token_reported:
  assumes "\<not> lexer_is_system_header_path (lexer_file_path lx)"
  shows "scan_token lx = Scanned t lx' \<longrightarrow> reported lx t lx'"
proof (rule scan_token_split)
  fix k prefix
  show "(case handleStringLiteral (lx\<lparr>lx_position := lx_position lx + k + 1\<rparr>) of (r, lx') \<Rightarrow> after_prefix (prepend_literal_prefix prefix r) lx') =
      Scanned t lx' \<longrightarrow> reported lx t lx'"
    using reported_string [of "lx\<lparr>lx_position := lx_position lx + k + 1\<rparr>"] reported_retyped [OF prepend_type]
    by (auto simp: after_prefix_Scanned reported_from split: prod.splits)
next
  show "(case handleCharLiteral (lx\<lparr>lx_position := lx_position lx + 1\<rparr>) of (r, lx') \<Rightarrow> after_prefix (prepend_literal_prefix ''W|'' r) lx') =
      Scanned t lx' \<longrightarrow> reported lx t lx'"
    using reported_char [of "lx\<lparr>lx_position := lx_position lx + 1\<rparr>"] reported_retyped [OF prepend_type]
    by (auto simp: after_prefix_Scanned reported_from split: prod.splits)
next
  show "(case handleStringLiteral lx of (r, lx') \<Rightarrow> after_prefix (mark_ambiguous_narrow_string_literal r) lx') =
      Scanned t lx' \<longrightarrow> reported lx t lx'"
    using reported_string [of lx] reported_retyped [OF mark_type] by (auto simp: after_prefix_Scanned split: prod.splits)
next
  show "(case handleCharLiteral lx of (r, lx') \<Rightarrow> Scanned (fst r) lx') = Scanned t lx' \<longrightarrow> reported lx t lx'"
    using reported_char [of lx] by (auto split: prod.splits)
next
  assume "source_at lx (lx_position lx) \<in> set ''=+-*/%<>!&|^~''" "source_at lx (lx_position lx) \<noteq> CHR ''/''"
  then obtain ty v where
    "operator_token (source_at lx (lx_position lx)) (source_at lx (lx_position lx + 1)) (source_at lx (lx_position lx + 2)) = Some (ty, v)"
    "handleOperator lx = scanned (token_at lx (lx_position lx + length v) ty v (lexer_mark lx))"
    by (rule handleOperator_operator)
  then show "handleOperator lx = Scanned t lx' \<longrightarrow> reported lx t lx'"
    using reported_token_at [OF operator_token_known] by (auto simp: scanned_def)
qed (auto simp: scanned_def reported_number reported_unsupported reported_directive reported_punctuation
    reported_unknown [OF assms] reported_token_at identifier_type_known handleIdentifierOrKeyword_def Let_def dest: reported_comment)

lemma scan_token_quiet: "scan_token lx = Rescan lx' \<longrightarrow> quiet lx lx'"
proof (rule scan_token_split)
  have bc: "quiet lx (snd (block_comment (lx\<lparr>lx_position := p\<rparr>)))" for p
    using quiet_block_comment [of "lx\<lparr>lx_position := p\<rparr>"] by (simp add: quiet_def)
  show comment: "handleComment lx = Rescan lx' \<longrightarrow> quiet lx lx'"
    using bc [of "lx_position lx + 2"]
    by (auto simp: handleComment_def Let_def scanned_def quiet_def split: if_splits prod.splits bool.splits)
  show "handleOperator lx = Rescan lx' \<longrightarrow> quiet lx lx'"
    using comment by (auto simp: handleOperator_def Let_def scanned_def split: option.splits prod.splits)
qed (auto simp: scanned_def after_prefix_def split: prod.splits option.splits)

lemma getNextToken_reported:
  "getNextToken lx = Some (t, lx') \<Longrightarrow> \<not> lexer_is_system_header_path (lexer_file_path lx) \<Longrightarrow> reported lx t lx'"
proof (induction lx rule: getNextToken.induct)
  case (1 lx)
  note q = quiet_skipWhitespace [of lx]
  then have sys: "\<not> lexer_is_system_header_path (lexer_file_path (skipWhitespace lx))"
    using "1.prems"(2) by (simp add: quiet_def lexer_file_path_def)
  show ?case
  proof (cases "scan_token (skipWhitespace lx)")
    case (Scanned u l)
    then have "u = t" "l = lx'" using "1.prems" by (subst (asm) getNextToken.simps, simp)+
    then show ?thesis using scan_token_reported [OF sys, of u l] Scanned quiet_reported [OF q] by simp
  next
    case (Rescan l)
    have ql: "quiet (skipWhitespace lx) l" using scan_token_quiet [of "skipWhitespace lx" l] Rescan by simp
    have "getNextToken l = Some (t, lx')" using "1.prems" Rescan by (subst (asm) getNextToken.simps) simp
    moreover have "\<not> lexer_is_system_header_path (lexer_file_path l)"
      using sys ql by (simp add: quiet_def lexer_file_path_def)
    ultimately have "reported l t lx'" by (rule "1.IH" [OF Rescan])
    then show ?thesis by (rule quiet_reported [OF quiet_trans [OF q ql]])
  next
    case Bad_free
    then show ?thesis using "1.prems" by (subst (asm) getNextToken.simps) simp
  qed
qed

text \<open>
  C30. Outside system headers (where a stray @ is tolerated) the scanner returns an unknown token exactly when it
  reports an error: then the count of fatal errors and the list of reports grow by one, and otherwise neither
  changes.\<close>
theorem unknown_token_iff_error_reported:
  assumes "getNextToken lx = Some (t, lx')" "\<not> lexer_is_system_header_path (lexer_file_path lx)"
  shows "if tk_type t = TOKEN_UNKNOWN
    then lx_fatalErrorCount lx' = lx_fatalErrorCount lx + 1 \<and> length (lx_reports lx') = length (lx_reports lx) + 1
    else lx_fatalErrorCount lx' = lx_fatalErrorCount lx \<and> length (lx_reports lx') = length (lx_reports lx)"
  using getNextToken_reported [OF assms] by (simp add: reported_def Let_def split: if_splits)

theorem unknown_token_iff_error_reported_witness:
  "\<exists>t lx'. getNextToken (initLexer (Some ''08'') None False) = Some (t, lx') \<and> tk_type t = TOKEN_UNKNOWN \<and> lx_fatalErrorCount lx' = 1"
proof -
  let ?lx = "initLexer (Some ''08'') None False"
  have call: "map_option (\<lambda>r. tk_type (fst r)) (getNextToken ?lx) = Some TOKEN_UNKNOWN"
    "\<not> lexer_is_system_header_path (lexer_file_path ?lx)" "lx_fatalErrorCount ?lx = 0"
    by code_simp+
  then obtain t lx' where n: "getNextToken ?lx = Some (t, lx')" "tk_type t = TOKEN_UNKNOWN" by auto
  with unknown_token_iff_error_reported [OF n(1) call(2)] call(3) show ?thesis by auto
qed

section \<open>Where the scanner departs from C\<close>

text \<open>
  A hash alone on its line is a null directive in C; here the white space behind it includes the newline, and the
  first word of the next line becomes the name of a directive.\<close>
theorem null_directive_takes_next_line:
  "map_option (\<lambda>(t, lx). (tk_type t, tk_value t, lx_line lx)) (getNextToken (initLexer (Some [CHR ''#'', NL, CHR ''i'', CHR ''n'', CHR ''t'']) None False)) =
    Some (TOKEN_PREPROCESSOR_OTHER, Some ''int'', 2)"
  by code_simp

text \<open>Digraphs are replaced in the whole text, inside string literals as well.\<close>
theorem digraph_replaced_in_string:
  "map_option (\<lambda>(t, lx). tk_value t) (getNextToken (initLexer (Some [dquote, CHR ''<'', CHR '':'', dquote]) None False)) = Some (Some ''['')"
  by code_simp

text \<open>
  The map from translated to raw columns is consulted only when the raw line differs from the counted one, so
  behind a digraph the spelling column is that of the translated text: here 2 for the second bracket, whose raw
  column is 3.\<close>
theorem column_after_digraph_is_translated:
  "map_option (\<lambda>(t, lx). (tk_spellingColumn t, lx_rawColumnMap lx ! 1))
     (getNextToken (snd (next_token (initLexer (Some ''<::>'') None False)))) = Some (2, 3)"
  by code_simp

end
