(* ===== verification/Lexer_Translation_Props.thy ===== *)
theory Lexer_Translation_Props
  imports Lexer_Source
begin

text \<open>
  Properties of the source text of the scanner: the translated text with its maps against the raw text, and the
  encoding of characters in identifiers.
\<close>

section \<open>Where translated characters come from\<close>

definition digraphs :: "(string \<times> char) list" where
  "digraphs = [(''%:'', CHR ''#''), (''<:'', CHR ''[''), ('':>'', CHR '']''), (''<%'', CHR ''{''), (''%>'', CHR ''}'')]"

definition trigraph_table :: "(char \<times> char) list" where
  "trigraph_table =
    [(CHR ''='', CHR ''#''), (CHR ''/'', CHR 0x5C), (CHR 0x27, CHR ''^''), (CHR ''('', CHR ''[''), (CHR '')'', CHR '']''),
     (CHR ''!'', CHR ''|''), (CHR ''<'', CHR ''{''), (CHR ''>'', CHR ''}''), (CHR ''-'', CHR ''~'')]"

text \<open>A raw text spells a character at its start: by itself, by a digraph, or by a trigraph.\<close>

definition spells :: "bool \<Rightarrow> string \<Rightarrow> char \<Rightarrow> bool" where
  "spells trigraphs cs c \<longleftrightarrow>
    starts_with [c] cs \<or> list_ex (\<lambda>(d, x). x = c \<and> starts_with d cs) digraphs \<or>
    (trigraphs \<and> list_ex (\<lambda>(d, x). x = c \<and> starts_with [CHR 0x3F, CHR 0x3F, d] cs) trigraph_table)"

text \<open>
  The line and column of an index of the raw text, both from 1: the line counts the newlines before the index, the
  column the characters between the last of them and the index.
\<close>

definition location_of :: "string \<Rightarrow> nat \<Rightarrow> int \<times> int" where
  "location_of raw i =
    (1 + int (length (filter (\<lambda>c. c = NL) (take i raw))),
     1 + int (length (takeWhile (\<lambda>c. c \<noteq> NL) (rev (take i raw)))))"

lemma advance_append: "advance_raw_position lc (xs @ ys) = advance_raw_position (advance_raw_position lc xs) ys"
  by (induction lc xs rule: advance_raw_position.induct) auto

lemma advance_same_line: "NL \<notin> set xs \<Longrightarrow> advance_raw_position (l, c) xs = (l, c + int (length xs))"
  by (induction xs arbitrary: c) auto

lemma advance_location: "advance_raw_position (1, 1) (take i raw) = location_of raw i"
proof -
  have "advance_raw_position (1, 1) xs =
      (1 + int (length (filter (\<lambda>c. c = NL) xs)), 1 + int (length (takeWhile (\<lambda>c. c \<noteq> NL) (rev xs))))" for xs
    by (induction xs rule: rev_induct) (simp_all add: advance_append)
  then show ?thesis by (simp add: location_of_def)
qed

text \<open>What one turn of the loop writes, against the text it passes.\<close>

definition written_ok :: "bool \<Rightarrow> string \<Rightarrow> char \<times> nat \<Rightarrow> bool" where
  "written_ok en cs e \<longleftrightarrow> snd e < length cs \<and> NL \<notin> set (take (snd e) cs) \<and> spells en (drop (snd e) cs) (fst e)"

lemma starts_with_length: "starts_with p cs \<Longrightarrow> length p \<le> length cs"
  unfolding starts_with_def by (metis length_take min.cobounded1)

lemma starts_with_Cons: "starts_with (p # ps) cs \<longleftrightarrow> cs \<noteq> [] \<and> hd cs = p \<and> starts_with ps (tl cs)"
  by (cases cs) (auto simp: starts_with_def)

lemma starts_with_Nil [simp]: "starts_with [] cs"
  by (simp add: starts_with_def)

definition step_ok :: "bool \<Rightarrow> string \<Rightarrow> (char \<times> nat) list \<times> nat \<times> bool \<Rightarrow> bool" where
  "step_ok en cs r \<longleftrightarrow>
    list_all (written_ok en cs) (fst r) \<and> sorted_wrt (<) (map snd (fst r)) \<and> list_all (\<lambda>e. snd e < fst (snd r)) (fst r)"

lemma step_ok_none: "step_ok en cs ([], n, b)"
  by (simp add: step_ok_def)

lemma step_ok_one: "cs \<noteq> [] \<Longrightarrow> spells en cs c \<Longrightarrow> step_ok en cs ([(c, 0)], Suc n, b)"
  by (simp add: step_ok_def written_ok_def)

lemma spells_digraph: "(d, c) \<in> set digraphs \<Longrightarrow> starts_with d cs \<Longrightarrow> spells en cs c"
  by (auto simp: spells_def list_ex_iff)

lemma step_ok_digraph: "(d, c) \<in> set digraphs \<Longrightarrow> starts_with d cs \<Longrightarrow> cs \<noteq> [] \<Longrightarrow> step_ok en cs ([(c, 0)], 2, b)"
  using step_ok_one [of cs en c 1 b] spells_digraph by (simp add: numeral_2_eq_2)

lemma step_ok_double_hash:
  assumes "starts_with ''%:%:'' cs"
  shows "step_ok en cs ([(CHR ''#'', 0), (CHR ''#'', 2)], 4, b)"
proof -
  obtain rest where cs: "cs = ''%:%:'' @ rest"
    using assms unfolding starts_with_def by (metis append_take_drop_id)
  have "spells en cs (CHR ''#'')" "spells en (drop 2 cs) (CHR ''#'')"
    by (rule spells_digraph [of "''%:''"], simp add: digraphs_def, simp add: cs starts_with_def)+
  then show ?thesis by (simp add: step_ok_def written_ok_def cs)
qed

lemma trigraph_in_table: "translate_trigraph_char d \<noteq> NUL \<Longrightarrow> (d, translate_trigraph_char d) \<in> set trigraph_table"
  by (auto simp: translate_trigraph_char_def trigraph_table_def split: if_splits)

lemma trigraph_step_ok:
  assumes "en" "2 < length cs" "starts_with ''??'' cs" "translate_trigraph_char (cs ! 2) \<noteq> NUL"
  shows "step_ok en cs (trigraph_step cs)"
proof -
  have "cs \<noteq> []" using assms(2) by auto
  moreover have "starts_with [CHR 0x3F, CHR 0x3F, cs ! 2] cs"
    using assms(2,3) by (cases cs; cases "tl cs"; cases "tl (tl cs)") (auto simp: starts_with_def)
  then have "spells en cs (translate_trigraph_char (cs ! 2))"
    using assms(1) trigraph_in_table [OF assms(4)] by (auto simp: spells_def list_ex_iff)
  ultimately have "step_ok en cs ([(translate_trigraph_char (cs ! 2), 0)], 3, True)"
    using step_ok_one [of cs en _ 2 True] by (simp add: eval_nat_numeral)
  then show ?thesis by (simp add: trigraph_step_def Let_def step_ok_none)
qed

lemma translate_step_ok:
  assumes "cs \<noteq> []"
  shows "step_ok en cs (translate_step en cs)"
  unfolding translate_step_def
  apply (rule if_intro)
  subgoal by (intro trigraph_step_ok) simp_all
  apply (rule if_intro [where P = "step_ok en cs"], rule step_ok_none)+
  apply (rule if_intro)
  subgoal by (rule step_ok_double_hash)
  apply (rule if_intro, rule step_ok_digraph, simp add: digraphs_def, assumption, rule assms)+
  subgoal using assms step_ok_one [OF assms, of en "char_at cs 0" 0]
    by (cases cs) (simp_all add: spells_def starts_with_def char_at_def)
  done

text \<open>The whole text: the indices of the raw text at which the characters written are spelled.\<close>

definition written_at :: "bool \<Rightarrow> int \<times> int \<Rightarrow> string \<Rightarrow> nat \<Rightarrow> char \<times> int \<times> int \<Rightarrow> bool" where
  "written_at en lc cs i e \<longleftrightarrow>
    i < length cs \<and> snd e = advance_raw_position lc (take i cs) \<and> spells en (drop i cs) (fst e)"

lemma written_at_step:
  "written_ok en cs (c, k) \<Longrightarrow> written_at en lc cs k (c, fst lc, snd lc + int k)"
  using advance_same_line [of "take k cs" "fst lc" "snd lc"] by (simp add: written_ok_def written_at_def)

lemma written_at_later:
  assumes "written_at en (advance_raw_position lc (take n cs)) (drop n cs) i e"
  shows "written_at en lc cs (n + i) e"
proof -
  have "take (n + i) cs = take n cs @ take i (drop n cs)" by (simp add: take_add)
  then show ?thesis using assms by (auto simp: written_at_def advance_append add.commute)
qed

lemma translate_loop_written:
  "translate_loop en lc cs = (out, final, saw) \<Longrightarrow>
   \<exists>idx. list_all2 (written_at en lc cs) idx out \<and> sorted_wrt (<) idx \<and> final = advance_raw_position lc cs"
proof (induction en lc cs arbitrary: out final saw rule: translate_loop.induct)
  case (1 en lc cs)
  show ?case
  proof (cases "cs = []")
    case True
    then show ?thesis using "1.prems" by (subst (asm) translate_loop.simps) auto
  next
    case False
    obtain written n s1 where step: "translate_step en cs = (written, n, s1)" by (cases "translate_step en cs")
    obtain rest fin s2 where loop: "translate_loop en (advance_raw_position lc (take n cs)) (drop n cs) = (rest, fin, s2)"
      by (cases "translate_loop en (advance_raw_position lc (take n cs)) (drop n cs)")
    from "1.IH" [OF False step [symmetric] refl loop] obtain idx where
      idx: "list_all2 (written_at en (advance_raw_position lc (take n cs)) (drop n cs)) idx rest" "sorted_wrt (<) idx"
        "fin = advance_raw_position (advance_raw_position lc (take n cs)) (drop n cs)" by blast
    have out: "out = map (\<lambda>(c, k). (c, fst lc, snd lc + int k)) written @ rest" "final = fin"
      using "1.prems" step loop False by (subst (asm) translate_loop.simps, simp)+
    have ok: "list_all (written_ok en cs) written" "sorted_wrt (<) (map snd written)" "list_all (\<lambda>e. snd e < n) written"
      using translate_step_ok [OF False, of en] by (simp_all add: step step_ok_def)
    have "list_all2 (written_at en lc cs) (map snd written) (map (\<lambda>(c, k). (c, fst lc, snd lc + int k)) written)"
      using ok(1) by (auto simp: list_all2_map1 list_all2_map2 list_all2_same list_all_iff intro!: written_at_step)
    moreover have "list_all2 (written_at en lc cs) (map ((+) n) idx) rest"
      using idx(1) by (simp add: list_all2_map1) (auto elim: list_all2_mono intro: written_at_later)
    moreover have "sorted_wrt (<) (map snd written @ map ((+) n) idx)"
      using ok(2,3) idx(2) by (auto simp: sorted_wrt_append sorted_wrt_map list_all_iff)
    moreover have "final = advance_raw_position lc cs"
      using idx(3) out(2) by (simp add: advance_append [symmetric])
    ultimately show ?thesis
      unfolding out(1) by (blast intro: list_all2_appendI)
  qed
qed

text \<open>
  C31. The translation of a source keeps the place of every character: there are strictly increasing indices of
  the raw text, one per translated character, such that the raw text spells the character there (by itself, a digraph
  or an enabled trigraph) and the line and column maps hold the raw line and column of that index: one more than the
  newlines before it, one more than the characters since the last newline. Their last entries are the place of the
  end of the raw text.\<close>
theorem translation_keeps_locations:
  assumes "translate_source raw trigraphs = (text, lines, columns, saw)"
  shows "\<exists>idx. length idx = length text \<and> sorted_wrt (<) idx \<and>
    (\<forall>w < length text. idx ! w < length raw \<and> spells trigraphs (drop (idx ! w) raw) (text ! w) \<and>
      (lines ! w, columns ! w) = location_of raw (idx ! w)) \<and>
    length lines = length text + 1 \<and> length columns = length text + 1 \<and> (last lines, last columns) = location_of raw (length raw)"
proof -
  obtain out final s where loop: "translate_loop trigraphs (1, 1) raw = (out, final, s)"
    by (cases "translate_loop trigraphs (1, 1) raw")
  from translate_loop_written [OF this] obtain idx where
    idx: "list_all2 (written_at trigraphs (1, 1) raw) idx out" "sorted_wrt (<) idx" "final = advance_raw_position (1, 1) raw" by blast
  have r: "text = map fst out" "lines = map (\<lambda>e. fst (snd e)) out @ [fst final]" "columns = map (\<lambda>e. snd (snd e)) out @ [snd final]"
    using assms by (simp_all add: translate_source_def loop case_prod_unfold)
  have "idx ! w < length raw \<and> spells trigraphs (drop (idx ! w) raw) (text ! w) \<and> (lines ! w, columns ! w) = location_of raw (idx ! w)"
    if "w < length text" for w
    using that list_all2_nthD2 [OF idx(1), of w] by (simp add: r written_at_def advance_location nth_append)
  then show ?thesis
    using idx(2,3) list_all2_lengthD [OF idx(1)] advance_location [of "length raw" raw] by (intro exI [of _ idx]) (simp add: r)
qed

theorem translation_keeps_locations_witness:
  "\<exists>idx. length idx = length ''#a'' \<and> sorted_wrt (<) idx \<and>
    (\<forall>w < length ''#a''. idx ! w < length ''%:a'' \<and> spells False (drop (idx ! w) ''%:a'') (''#a'' ! w) \<and>
      ([1, 1, 1] ! w, [1, 3, 4] ! w) = location_of ''%:a'' (idx ! w)) \<and>
    length [1, 1, 1 :: int] = length ''#a'' + 1 \<and> length [1, 3, 4 :: int] = length ''#a'' + 1 \<and>
    (last [1, 1, 1], last [1, 3, 4]) = location_of ''%:a'' (length ''%:a'')"
  by (rule translation_keeps_locations [of _ _ _ _ _ False]) code_simp

section \<open>UTF-8\<close>

lemma byte_utf8_byte: "byte (utf8_byte w) = take_bit 8 w"
proof -
  have "byte (utf8_byte w) = word_of_nat (unat w mod 2 ^ 8)" by (simp add: utf8_byte_def)
  also have "unat w mod 2 ^ 8 = unat (take_bit 8 w)" by (subst unsigned_take_bit_eq) (simp only: take_bit_eq_mod)
  finally show ?thesis by simp
qed

lemma small_take_bit: "unat (x :: 32 word) < 2 ^ k \<Longrightarrow> take_bit k x = x"
  by (metis take_bit_nat_eq_self unsigned_take_bit_eq word_unat_eq_iff)

text \<open>Bits put below a constant whose low bits are clear.\<close>

lemma or_low:
  fixes c x :: "32 word"
  assumes "take_bit k c = 0" "unat x < 2 ^ k"
  shows "c OR x = c + x" "(c OR x) AND mask k = x"
proof -
  have x: "bit x n \<Longrightarrow> n < k" for n using small_take_bit [OF assms(2)] by (metis bit_take_bit_iff)
  have c: "bit c n \<Longrightarrow> \<not> n < k" for n using assms(1) by (metis bit_0_eq bit_take_bit_iff bot_apply bot_bool_def)
  show "c OR x = c + x" using x c by (subst disjunctive_add) auto
  show "(c OR x) AND mask k = x" using x c by (auto simp: bit_eq_iff bit_simps)
qed

lemma marked_byte:
  fixes c x :: "32 word"
  assumes "take_bit k c = 0" "unat x < 2 ^ k" "unat c + unat x < 256"
  shows "byte (utf8_byte (c OR x)) = c OR x" "unat (c OR x) = unat c + unat x"
proof -
  show n: "unat (c OR x) = unat c + unat x"
    unfolding or_low(1) [OF assms(1,2)] using assms(3) by (subst unat_add_lem [THEN iffD1]) simp_all
  show "byte (utf8_byte (c OR x)) = c OR x"
    unfolding byte_utf8_byte using n assms(3) by (intro small_take_bit) simp
qed

lemma lead_bytes:
  "2 \<le> unat x \<Longrightarrow> unat x < 32 \<Longrightarrow> utf8_lead (byte (utf8_byte (0xC0 OR x))) = (2, x)"
  "unat x < 16 \<Longrightarrow> utf8_lead (byte (utf8_byte (0xE0 OR x))) = (3, x)"
  "unat x < 5 \<Longrightarrow> utf8_lead (byte (utf8_byte (0xF0 OR x))) = (4, x)"
  using marked_byte [of 5 "0xC0" x] marked_byte [of 4 "0xE0" x] marked_byte [of 3 "0xF0" x]
    or_low(2) [of 5 "0xC0" x] or_low(2) [of 4 "0xE0" x] or_low(2) [of 3 "0xF0" x]
  by (simp_all add: utf8_lead_def word_le_nat_alt mask_eq_exp_minus_1)

lemma low6: "(a :: 32 word) AND 0x3F = take_bit 6 a"
  by (simp add: take_bit_eq_mask mask_eq_exp_minus_1)

lemma low6_less: "unat (take_bit 6 (a :: 32 word)) < 64"
  unfolding unsigned_take_bit_eq by (rule order_less_le_trans [OF take_bit_nat_less_exp]) simp

lemma join6: "push_bit 6 (drop_bit 6 a) OR (a AND 0x3F) = (a :: 32 word)"
  unfolding low6 by (auto simp: bit_eq_iff bit_simps)

lemma utf8_tail_encode:
  "utf8_tail cp (utf8_byte (0x80 OR (a AND 0x3F)) # cs) = utf8_tail (push_bit 6 cp OR (a AND 0x3F)) cs"
proof -
  let ?x = "a AND 0x3F"
  have x: "unat ?x < 2 ^ 6" using low6_less [of a] by (simp only: low6) simp
  have b: "byte (utf8_byte (0x80 OR ?x)) = 0x80 OR ?x"
    using marked_byte(1) [OF _ x, of "0x80"] x by simp
  have l: "(0x80 OR ?x) AND 0x3F = ?x"
    using or_low(2) [OF _ x, of "0x80"] by (simp add: mask_eq_exp_minus_1)
  have "?x AND 0xC0 = 0" by (simp add: and.assoc)
  then have h: "(0x80 OR ?x) AND 0xC0 = 0x80" by (simp add: bit.conj_disj_distrib2)
  show ?thesis unfolding utf8_tail.simps b l h by simp
qed

lemma unat_drop: "unat (drop_bit n (w :: 32 word)) = unat w div 2 ^ n"
  by (subst unat_drop_bit_eq) (simp only: drop_bit_eq_div)

text \<open>
  The UTF-8 decoder reads back what the encoder writes: for every code point above the ASCII range that is not a
  surrogate and at most 0x10FFFF, whatever follows it, with its number of bytes.\<close>
theorem utf8_encode_decode:
  assumes "valid_codepoint cp" "0x80 \<le> cp"
  shows "lexer_decode_utf8 (lexer_encode_utf8 cp @ rest) = Some (length (lexer_encode_utf8 cp), cp)"
proof -
  let ?n = "unat cp"
  have range: "128 \<le> ?n" "?n \<le> 0x10FFFF" using assms by (simp_all add: valid_codepoint_def word_le_nat_alt)
  consider (two) "?n \<le> 0x7FF" | (three) "0x7FF < ?n" "?n \<le> 0xFFFF" | (four) "0xFFFF < ?n" by linarith
  then show ?thesis
  proof cases
    case two
    have "utf8_lead (byte (utf8_byte (0xC0 OR drop_bit 6 cp))) = (2, drop_bit 6 cp)"
      using two range by (intro lead_bytes(1)) (simp_all add: unat_drop)
    then show ?thesis
      using two range assms
      by (simp add: lexer_encode_utf8_def lexer_decode_utf8_def word_le_nat_alt utf8_tail_encode join6 del: utf8_tail.simps(2))
  next
    case three
    have "utf8_lead (byte (utf8_byte (0xE0 OR drop_bit 12 cp))) = (3, drop_bit 12 cp)"
      using three range by (intro lead_bytes(2)) (simp_all add: unat_drop)
    moreover have j: "push_bit 6 (drop_bit 12 cp) OR (drop_bit 6 cp AND 0x3F) = drop_bit 6 cp"
      using join6 [of "drop_bit 6 cp"] by (simp add: drop_bit_drop_bit)
    moreover have "utf8_tail (drop_bit 12 cp) [utf8_byte (0x80 OR (drop_bit 6 cp AND 0x3F)), utf8_byte (0x80 OR (cp AND 0x3F))] = Some cp"
      by (simp only: utf8_tail_encode j join6 utf8_tail.simps(1))
    ultimately show ?thesis
      using three range assms
      by (simp add: lexer_encode_utf8_def lexer_decode_utf8_def word_le_nat_alt word_less_nat_alt del: utf8_tail.simps(2))
  next
    case four
    have "utf8_lead (byte (utf8_byte (0xF0 OR drop_bit 18 cp))) = (4, drop_bit 18 cp)"
      using four range by (intro lead_bytes(3)) (simp_all add: unat_drop)
    moreover have j: "push_bit 6 (drop_bit 18 cp) OR (drop_bit 12 cp AND 0x3F) = drop_bit 12 cp"
        "push_bit 6 (drop_bit 12 cp) OR (drop_bit 6 cp AND 0x3F) = drop_bit 6 cp"
      using join6 [of "drop_bit 12 cp"] join6 [of "drop_bit 6 cp"] by (simp_all add: drop_bit_drop_bit)
    moreover have "utf8_tail (drop_bit 18 cp) [utf8_byte (0x80 OR (drop_bit 12 cp AND 0x3F)),
        utf8_byte (0x80 OR (drop_bit 6 cp AND 0x3F)), utf8_byte (0x80 OR (cp AND 0x3F))] = Some cp"
      by (simp only: utf8_tail_encode j join6 utf8_tail.simps(1))
    ultimately show ?thesis
      using four range assms
      by (simp add: lexer_encode_utf8_def lexer_decode_utf8_def word_le_nat_alt word_less_nat_alt del: utf8_tail.simps(2))
  qed
qed

theorem utf8_encode_decode_witness:
  "lexer_decode_utf8 (lexer_encode_utf8 0x20AC @ ''x'') = Some (length (lexer_encode_utf8 0x20AC), 0x20AC)"
  by (rule utf8_encode_decode) (simp_all add: valid_codepoint_def)

end
