(* ===== verification/Lexer_Roundtrip.thy ===== *)
theory Lexer_Roundtrip
  imports Lexer_Props Lexer_Translation_Props
begin

text \<open>
  Printing tokens with a blank behind each and scanning the text gives the tokens back: names and keywords, decimal
  numbers, operators and punctuation.
\<close>

section \<open>Lexemes and their text\<close>

type_synonym lexeme = "TokenType \<times> string"

definition operator_spellings :: "lexeme list" where
  "operator_spellings =
    [(TOKEN_EQUAL, ''==''), (TOKEN_ASSIGN, ''=''), (TOKEN_INCREMENT, ''++''), (TOKEN_PLUS_ASSIGN, ''+=''), (TOKEN_PLUS, ''+''),
     (TOKEN_DECREMENT, ''--''), (TOKEN_MINUS_ASSIGN, ''-=''), (TOKEN_ARROW, ''->''), (TOKEN_MINUS, ''-''),
     (TOKEN_MULT_ASSIGN, ''*=''), (TOKEN_ASTERISK, ''*''), (TOKEN_MOD_ASSIGN, ''%=''), (TOKEN_MODULO, ''%''),
     (TOKEN_LEFT_SHIFT_ASSIGN, ''<<=''), (TOKEN_LEFT_SHIFT, ''<<''), (TOKEN_LESS_EQUAL, ''<=''), (TOKEN_LESS, ''<''),
     (TOKEN_RIGHT_SHIFT_ASSIGN, ''>>=''), (TOKEN_RIGHT_SHIFT, ''>>''), (TOKEN_GREATER_EQUAL, ''>=''), (TOKEN_GREATER, ''>''),
     (TOKEN_NOT_EQUAL, ''!=''), (TOKEN_LOGICAL_NOT, ''!''), (TOKEN_LOGICAL_AND, ''&&''), (TOKEN_BITWISE_AND_ASSIGN, ''&=''),
     (TOKEN_BITWISE_AND, ''&''), (TOKEN_LOGICAL_OR, ''||''), (TOKEN_BITWISE_OR_ASSIGN, ''|=''), (TOKEN_BITWISE_OR, ''|''),
     (TOKEN_BITWISE_XOR_ASSIGN, ''^=''), (TOKEN_BITWISE_XOR, ''^''), (TOKEN_BITWISE_NOT, ''~'')]"

definition punctuation_spellings :: "lexeme list" where
  "punctuation_spellings =
    [(TOKEN_QUESTION, ''?''), (TOKEN_SEMICOLON, '';''), (TOKEN_COMMA, '',''), (TOKEN_ELLIPSIS, ''...''), (TOKEN_DOT, ''.''),
     (TOKEN_LPAREN, ''(''), (TOKEN_RPAREN, '')''), (TOKEN_LBRACE, ''{''), (TOKEN_RBRACE, ''}''), (TOKEN_LBRACKET, ''[''),
     (TOKEN_RBRACKET, '']''), (TOKEN_COLON, '':'')]"

definition slash_spellings :: "lexeme list" where
  "slash_spellings = [(TOKEN_DIVIDE, ''/''), (TOKEN_DIV_ASSIGN, ''/='')]"

definition is_name :: "string \<Rightarrow> bool" where
  "is_name v \<longleftrightarrow> v \<noteq> [] \<and> (is_alpha (hd v) \<or> hd v = CHR ''_'') \<and> list_all is_word_char v"

definition is_decimal :: "string \<Rightarrow> bool" where
  "is_decimal v \<longleftrightarrow> v \<noteq> [] \<and> list_all is_digit v \<and> (hd v \<noteq> CHR ''0'' \<or> v = ''0'')"

definition plain_lexeme :: "lexeme \<Rightarrow> bool" where
  "plain_lexeme l \<longleftrightarrow>
    (is_name (snd l) \<and> fst l = identifier_type (snd l)) \<or> (is_decimal (snd l) \<and> fst l = TOKEN_NUMBER) \<or>
    l \<in> set (operator_spellings @ punctuation_spellings @ slash_spellings)"

definition print_lexemes :: "lexeme list \<Rightarrow> string" where
  "print_lexemes ls = concat (map (\<lambda>l. snd l @ '' '') ls)"

lemma print_lexemes_simps [simp]:
  "print_lexemes [] = []" "print_lexemes (l # ls) = snd l @ CHR '' '' # print_lexemes ls"
  by (simp_all add: print_lexemes_def)

section \<open>Texts that the translation leaves alone\<close>

definition plain_pair :: "char \<Rightarrow> char \<Rightarrow> bool" where
  "plain_pair c d \<longleftrightarrow>
    \<not> (c = CHR ''?'' \<and> d = CHR ''?'') \<and> \<not> (c = backslash \<and> (d = NL \<or> d = CR)) \<and> \<not> (c = CHR ''%'' \<and> (d = CHR '':'' \<or> d = CHR ''>'')) \<and>
    \<not> (c = CHR ''<'' \<and> (d = CHR '':'' \<or> d = CHR ''%'')) \<and> \<not> (c = CHR '':'' \<and> d = CHR ''>'')"

fun plain_pairs :: "string \<Rightarrow> bool" where
  "plain_pairs (c # d # cs) \<longleftrightarrow> plain_pair c d \<and> plain_pairs (d # cs)"
| "plain_pairs _ \<longleftrightarrow> True"

lemma translate_step_plain: "plain_pairs (c # cs) \<Longrightarrow> translate_step en (c # cs) = ([(c, 0)], 1, False)"
  by (cases cs) (auto simp: translate_step_def starts_with_Cons plain_pair_def char_at_def)

lemma plain_pairs_tl: "plain_pairs (c # cs) \<Longrightarrow> plain_pairs cs"
  by (cases cs) auto

lemma translate_loop_plain: "plain_pairs cs \<Longrightarrow> map fst (fst (translate_loop en lc cs)) = cs"
proof (induction cs arbitrary: lc)
  case Nil
  then show ?case by (subst translate_loop.simps) simp
next
  case (Cons c cs)
  then have "plain_pairs cs" by (auto dest: plain_pairs_tl)
  with Cons show ?case
    by (subst translate_loop.simps) (simp add: translate_step_plain split: prod.splits, metis fst_conv)
qed

lemma plain_pairs_join: "plain_pairs (v @ '' '') \<Longrightarrow> plain_pairs (CHR '' '' # rest) \<Longrightarrow> plain_pairs (v @ CHR '' '' # rest)"
  by (induction v rule: plain_pairs.induct) auto

lemma plain_pairs_blank: "plain_pairs rest \<Longrightarrow> plain_pairs (CHR '' '' # rest)"
  by (cases rest) (auto simp: plain_pair_def)

lemma word_char_plain: "is_word_char c \<Longrightarrow> plain_pair c d"
  by (auto simp: is_word_char_def is_alnum_def is_alpha_def is_digit_def plain_pair_def)

lemma word_plain_pairs: "list_all is_word_char v \<Longrightarrow> plain_pairs (v @ '' '')"
  by (induction v rule: plain_pairs.induct) (auto simp: word_char_plain)

lemma digit_word: "is_digit c \<Longrightarrow> is_word_char c"
  by (simp add: is_word_char_def is_alnum_def)

lemma spelling_plain_pairs:
  "list_all (\<lambda>l. plain_pairs (snd l @ '' '')) (operator_spellings @ punctuation_spellings @ slash_spellings)"
  by (simp add: operator_spellings_def punctuation_spellings_def slash_spellings_def plain_pair_def)

lemma lexeme_plain_pairs: "plain_lexeme l \<Longrightarrow> plain_pairs (snd l @ '' '')"
  using spelling_plain_pairs
  by (auto simp: plain_lexeme_def is_name_def is_decimal_def list_all_iff digit_word intro: word_plain_pairs [unfolded list_all_iff])

lemma print_plain_pairs: "list_all plain_lexeme ls \<Longrightarrow> plain_pairs (print_lexemes ls)"
  by (induction ls) (auto intro: plain_pairs_join plain_pairs_blank lexeme_plain_pairs)

lemma translate_printed: "list_all plain_lexeme ls \<Longrightarrow> fst (translate_source (print_lexemes ls) en) = print_lexemes ls"
  using translate_loop_plain [OF print_plain_pairs, of ls en "(1, 1)"]
  by (simp add: translate_source_def case_prod_unfold)

section \<open>Scanning a printed lexeme\<close>

lemma char_at_drop: "char_at s (p + k) = char_at (drop p s) k"
  by (auto simp: char_at_def)

lemma char_at_prefix: "k < length v \<Longrightarrow> char_at (v @ xs) k = v ! k"
  by (simp add: char_at_def nth_append)

lemma char_at_behind: "char_at (v @ x # xs) (length v) = x"
  by (simp add: char_at_def)

text \<open>The text at the position is a lexeme and a blank.\<close>

definition at_lexeme :: "Lexer \<Rightarrow> string \<Rightarrow> string \<Rightarrow> bool" where
  "at_lexeme lx v rest \<longleftrightarrow> drop (lx_position lx) (lx_source lx) = v @ CHR '' '' # rest"

lemma at_lexeme_char: "at_lexeme lx v rest \<Longrightarrow> source_at lx (lx_position lx + k) = char_at (v @ CHR '' '' # rest) k"
  by (simp add: at_lexeme_def char_at_drop)

lemma at_lexeme_inside:
  assumes "at_lexeme lx v rest" "v \<noteq> []" "hd v \<noteq> NUL"
  shows "\<not> isEOF lx" "source_at lx (lx_position lx) = hd v"
proof -
  have "lx_position lx < lx_length lx"
    using assms(1,2) unfolding at_lexeme_def by (metis Nil_is_append_conv drop_eq_Nil leI)
  moreover show c: "source_at lx (lx_position lx) = hd v"
    using at_lexeme_char [OF assms(1), of 0] assms(2) by (cases v) (simp_all add: char_at_def)
  ultimately show "\<not> isEOF lx" using assms(3) by (simp add: isEOF_def)
qed

lemma skipWhitespace_stop:
  assumes "\<not> is_space (source_at lx (lx_position lx))" "source_at lx (lx_position lx) \<noteq> backslash"
  shows "skipWhitespace lx = lx"
  using assms by (subst skipWhitespace.simps) (simp add: skip_turn_def Let_def)

lemma skipWhitespace_blank:
  assumes "source_at lx (lx_position lx) = CHR '' ''"
  shows "skipWhitespace lx = skipWhitespace (lx\<lparr>lx_position := lx_position lx + 1\<rparr>)"
proof -
  have "lx_position lx < lx_length lx" using char_at_in_range [of "lx_source lx" "lx_position lx"] assms by simp
  then show ?thesis using assms by (subst skipWhitespace.simps) (simp add: skip_turn_def Let_def is_space_def)
qed

lemma ascii_no_utf8: "of_char (source_at lx p) < (128 :: nat) \<Longrightarrow> lexer_identifier_utf8_length lx p = 0"
proof -
  assume a: "of_char (source_at lx p) < (128 :: nat)"
  have lead: "utf8_lead (word_of_nat n) = (0, 0)" if "n < 128" for n
    using that by (simp add: utf8_lead_def word_le_nat_alt unat_of_nat take_bit_nat_eq_self)
  show ?thesis
  proof (cases "p < lx_length lx")
    case True
    then have "hd (drop p (lx_source lx)) = source_at lx p" by (simp add: char_at_def hd_drop_conv_nth)
    then have "utf8_lead (byte (hd (drop p (lx_source lx)))) = (0, 0)" using lead [OF a] by simp
    then show ?thesis
      unfolding lexer_identifier_utf8_length_def lexer_decode_utf8_def by simp
  qed (simp add: lexer_identifier_utf8_length_def)
qed

lemma word_char_ascii: "is_word_char c \<Longrightarrow> of_char c < (128 :: nat)"
  by (auto simp: is_word_char_def is_alnum_def is_alpha_def is_digit_def)

lemma identifier_end_word:
  "list_all is_word_char v \<Longrightarrow> drop p (lx_source lx) = v @ CHR '' '' # rest \<Longrightarrow> identifier_end lx p = p + length v"
proof (induction v arbitrary: p)
  case Nil
  then have c: "source_at lx p = CHR '' ''" using char_at_drop [of "lx_source lx" p 0] by (simp add: char_at_def)
  then have "\<not> is_word_char (source_at lx p)" "lexer_identifier_ucn_length lx p = 0" "lexer_identifier_utf8_length lx p = 0"
    by (simp_all add: is_word_char_def is_alnum_def is_alpha_def is_digit_def lexer_identifier_ucn_length_def ascii_no_utf8)
  then show ?case by (subst identifier_end.simps) simp
next
  case (Cons a v)
  have "source_at lx p = a" using Cons.prems(2) char_at_drop [of "lx_source lx" p 0] by (simp add: char_at_def)
  moreover have "drop (p + 1) (lx_source lx) = v @ CHR '' '' # rest"
    using Cons.prems(2) by (metis append_Cons drop_drop drop_Suc_Cons drop0 One_nat_def add.commute)
  ultimately show ?case using Cons by (subst identifier_end.simps) simp
qed

lemma normalize_word: "list_all is_word_char v \<Longrightarrow> lexer_normalize_identifier_spelling v = v"
proof (induction v)
  case (Cons a v)
  then have "a \<noteq> backslash" by (auto simp: is_word_char_def is_alnum_def is_alpha_def is_digit_def)
  with Cons show ?case by (subst lexer_normalize_identifier_spelling.simps) (simp add: char_at_def)
qed (subst lexer_normalize_identifier_spelling.simps, simp)

lemma text_between_lexeme: "at_lexeme lx v rest \<Longrightarrow> text_between (lx_source lx) (lx_position lx) (lx_position lx + length v) = v"
  by (simp add: text_between_def at_lexeme_def)

lemma name_no_quote:
  assumes "list_all is_word_char v" "k \<le> length v"
  shows "char_at (v @ CHR '' '' # rest) k \<noteq> dquote" "char_at (v @ CHR '' '' # rest) k \<noteq> squote"
proof -
  have "is_word_char (char_at (v @ CHR '' '' # rest) k) \<or> char_at (v @ CHR '' '' # rest) k = CHR '' ''"
    using assms char_at_prefix [of k v "CHR '' '' # rest"] char_at_behind [of v "CHR '' ''" rest]
    by (cases "k < length v") (auto simp: list_all_length)
  then show "char_at (v @ CHR '' '' # rest) k \<noteq> dquote" "char_at (v @ CHR '' '' # rest) k \<noteq> squote"
    by (auto simp: is_word_char_def is_alnum_def is_alpha_def is_digit_def)
qed

lemma scan_name:
  assumes "at_lexeme lx v rest" "is_name v"
  shows "scan_token lx = scanned (token_at lx (lx_position lx + length v) (identifier_type v) v (lexer_mark lx))"
proof -
  have v: "v \<noteq> []" "list_all is_word_char v" "is_alpha (hd v) \<or> hd v = CHR ''_''" using assms(2) by (auto simp: is_name_def)
  then have "hd v \<noteq> NUL" "hd v \<noteq> backslash" by (auto simp: is_alpha_def)
  note here = at_lexeme_inside [OF assms(1) v(1) this(1)]
  have n: "source_at lx (lx_position lx + 1) \<noteq> dquote" "source_at lx (lx_position lx + 1) \<noteq> squote"
    unfolding at_lexeme_char [OF assms(1)] using v(1) by (intro name_no_quote [OF v(2)]; simp add: Suc_le_eq)+
  have n2: "source_at lx (lx_position lx + 1) = CHR ''8'' \<Longrightarrow> source_at lx (lx_position lx + 2) \<noteq> dquote"
    unfolding at_lexeme_char [OF assms(1)] using v name_no_quote(1) [OF v(2), of 2 rest] char_at_behind [of v "CHR '' ''" rest]
    by (cases v; cases "tl v") auto
  have "identifier_end lx (lx_position lx) = lx_position lx + length v"
    using assms(1) by (intro identifier_end_word [OF v(2)]) (simp add: at_lexeme_def)
  then have "handleIdentifierOrKeyword lx = token_at lx (lx_position lx + length v) (identifier_type v) v (lexer_mark lx)"
    by (simp add: handleIdentifierOrKeyword_def Let_def text_between_lexeme [OF assms(1)] normalize_word [OF v(2)])
  then show ?thesis using here n n2 v(3) \<open>hd v \<noteq> backslash\<close> by (auto simp: scan_token_def Let_def)
qed

lemma run_length_lexeme:
  "at_lexeme lx v rest \<Longrightarrow> list_all P v \<Longrightarrow> \<not> P (CHR '' '') \<Longrightarrow> run_length P (lx_source lx) (lx_position lx) = length v"
  by (simp add: run_length_def at_lexeme_def list_all_iff takeWhile_append2)

lemma digit_not_alpha: "is_digit c \<Longrightarrow> \<not> is_alpha c \<and> c \<notin> set ''LuU_'' \<and> c \<noteq> NUL \<and> c \<noteq> backslash"
  by (auto simp: is_alpha_def is_digit_def)

lemma number_prefix_decimal:
  assumes "at_lexeme lx v rest" "is_decimal v"
  shows "number_prefix (lx_source lx) (lx_position lx) = number_start (lx_position lx + length v)"
proof -
  have v: "v \<noteq> []" "list_all is_digit v" "hd v \<noteq> CHR ''0'' \<or> v = ''0''" using assms(2) by (auto simp: is_decimal_def)
  have run: "run_length is_digit (lx_source lx) (lx_position lx) = length v"
    using run_length_lexeme [OF assms(1) v(2)] by (simp add: is_digit_def)
  have "is_digit (hd v)" using v(1,2) by (cases v) auto
  then have c: "source_at lx (lx_position lx) = hd v"
    using at_lexeme_inside(2) [OF assms(1) v(1)] digit_not_alpha by auto
  have zero: "v = ''0'' \<Longrightarrow> source_at lx (lx_position lx + 1) = CHR '' ''"
    unfolding at_lexeme_char [OF assms(1)] by (simp add: char_at_def)
  show ?thesis
    unfolding number_prefix_def Let_def run c text_between_lexeme [OF assms(1)] using v(3) zero
    by (auto simp: number_start_def)
qed

lemma scan_decimal:
  assumes "at_lexeme lx v rest" "is_decimal v"
  shows "scan_token lx = scanned (token_at lx (lx_position lx + length v) TOKEN_NUMBER v (lexer_mark lx))"
proof -
  let ?s = "lx_source lx" and ?p = "lx_position lx + length v"
  have v: "v \<noteq> []" "list_all is_digit v" using assms(2) by (auto simp: is_decimal_def)
  then have d: "is_digit (hd v)" by (cases v) auto
  note nd = digit_not_alpha [OF d]
  note here = at_lexeme_inside [OF assms(1) v(1)]
  have blank: "char_at ?s ?p = CHR '' ''" unfolding at_lexeme_char [OF assms(1)] by (rule char_at_behind)
  have rest: "drop ?p ?s = CHR '' '' # rest" using assms(1) by (metis at_lexeme_def append_eq_conv_conj drop_drop add.commute)
  have "number_with_suffix ?s (number_start ?p) = number_start ?p"
    by (simp add: number_with_suffix_def number_start_def rest)
  moreover have "number_verdict ?s (number_start ?p) = None"
    using blank by (simp add: number_verdict_def number_start_def Let_def is_alpha_def)
  ultimately have "number_token lx (number_start ?p) = token_at lx ?p TOKEN_NUMBER v (lexer_mark lx)"
    by (simp add: number_token_def Let_def text_between_lexeme [OF assms(1)]) (simp add: number_start_def text_between_lexeme [OF assms(1)])
  moreover have "number_fraction ?s (number_start ?p) = number_start ?p" "\<not> at_exponent ?s (number_start ?p)"
    using blank by (simp_all add: number_fraction_def at_exponent_def number_start_def Let_def)
  ultimately have "handleNumber lx = token_at lx ?p TOKEN_NUMBER v (lexer_mark lx)"
    unfolding handleNumber_def Let_def number_prefix_decimal [OF assms] by simp
  moreover have "lexer_identifier_utf8_length lx (lx_position lx) = 0"
    using here(2) nd word_char_ascii [OF digit_word [OF d]] by (intro ascii_no_utf8) simp
  ultimately show ?thesis using here nd d by (simp add: scan_token_def Let_def)
qed

text \<open>Characters that start neither a word, a number, a literal, a directive nor a comment.\<close>

definition symbol_char :: "char \<Rightarrow> bool" where
  "symbol_char c \<longleftrightarrow> \<not> is_alpha c \<and> \<not> is_digit c \<and> of_char c < (128 :: nat) \<and>
    c \<notin> {NUL, CHR ''L'', CHR ''u'', CHR ''U'', CHR ''_'', backslash, dquote, squote, CHR ''#''}"

lemma symbol_chars: "list_all symbol_char ''=+-*/%<>!&|^~?:;,(){}[].''"
  by (simp add: symbol_char_def is_alpha_def is_digit_def)

lemma scan_symbol:
  assumes "\<not> isEOF lx" "symbol_char (source_at lx (lx_position lx))"
    "source_at lx (lx_position lx) \<noteq> CHR ''.'' \<or> \<not> is_digit (source_at lx (lx_position lx + 1))"
  shows "scan_token lx =
    (if source_at lx (lx_position lx) = CHR ''/'' then handleComment lx
     else if source_at lx (lx_position lx) \<in> set ''=+-*/%<>!&|^~'' then handleOperator lx
     else if source_at lx (lx_position lx) \<in> set ''?:;,(){}[].'' then scanned (handlePunctuation lx)
     else scanned (handleUnknownToken lx))"
  using assms ascii_no_utf8 [of lx "lx_position lx"] unfolding scan_token_def Let_def symbol_char_def by simp

text \<open>Operators: the character behind the lexeme is a blank, which no operator contains.\<close>

lemma char_at_Cons: "char_at (c # cs) 0 = c" "char_at (c # cs) (Suc k) = char_at cs k"
  by (simp_all add: char_at_def)

lemma operator_spelled:
  "list_all (\<lambda>l. operator_token (char_at (snd l @ CHR '' '' # rest) 0) (char_at (snd l @ CHR '' '' # rest) 1)
      (char_at (snd l @ CHR '' '' # rest) 2) = Some l) operator_spellings"
  "list_all (\<lambda>l. snd l \<noteq> [] \<and> hd (snd l) \<in> set ''=+-*%<>!&|^~'') operator_spellings"
  by (simp_all add: operator_spellings_def operator_token_def char_at_Cons numeral_2_eq_2)

lemma punctuation_spelled:
  "list_all (\<lambda>l. punctuation_token (char_at (snd l @ CHR '' '' # rest) 0) (char_at (snd l @ CHR '' '' # rest) 1)
      (char_at (snd l @ CHR '' '' # rest) 2) = Some l \<and> \<not> is_digit (char_at (snd l @ CHR '' '' # rest) 1)) punctuation_spellings"
  "list_all (\<lambda>l. snd l \<noteq> [] \<and> hd (snd l) \<in> set ''?:;,(){}[].'') punctuation_spellings"
  by (simp_all add: punctuation_spellings_def punctuation_token_def char_at_Cons numeral_2_eq_2 is_digit_def)

lemma scan_operator:
  assumes "at_lexeme lx v rest" "(ty, v) \<in> set operator_spellings"
  shows "scan_token lx = scanned (token_at lx (lx_position lx + length v) ty v (lexer_mark lx))"
proof -
  let ?c = "\<lambda>k. char_at (v @ CHR '' '' # rest) k"
  have "v \<noteq> [] \<and> hd v \<in> set ''=+-*%<>!&|^~''"
    using operator_spelled(2) assms(2) unfolding list_all_iff by (metis snd_conv)
  then have v: "v \<noteq> []" "hd v = ?c 0" and hd: "?c 0 \<in> set ''=+-*%<>!&|^~''" by (cases v; simp add: char_at_Cons)+
  have op: "operator_token (?c 0) (?c 1) (?c 2) = Some (ty, v)"
    using assms(2) operator_spelled(1) [of rest] by (auto simp only: list_all_iff snd_conv dest!: bspec)
  note at = at_lexeme_char [OF assms(1)] at_lexeme_char [OF assms(1), of 0, simplified]
  have ne: "\<not> isEOF lx" using at_lexeme_inside(1) [OF assms(1)] v hd by auto
  have "handleOperator lx = scanned (token_at lx (lx_position lx + length v) ty v (lexer_mark lx))"
    using op hd unfolding handleOperator_def Let_def at by auto
  moreover have "scan_token lx = handleOperator lx"
    using hd symbol_chars by (subst scan_symbol [OF ne]) (auto simp: at list_all_iff)
  ultimately show ?thesis by simp
qed

lemma scan_punctuation:
  assumes "at_lexeme lx v rest" "(ty, v) \<in> set punctuation_spellings"
  shows "scan_token lx = scanned (token_at lx (lx_position lx + length v) ty v (lexer_mark lx))"
proof -
  let ?c = "\<lambda>k. char_at (v @ CHR '' '' # rest) k"
  have "v \<noteq> [] \<and> hd v \<in> set ''?:;,(){}[].''"
    using punctuation_spelled(2) assms(2) unfolding list_all_iff by (metis snd_conv)
  then have v: "v \<noteq> []" "hd v = ?c 0" and hd: "?c 0 \<in> set ''?:;,(){}[].''" by (cases v; simp add: char_at_Cons)+
  have op: "punctuation_token (?c 0) (?c 1) (?c 2) = Some (ty, v)" "\<not> is_digit (?c 1)"
    using assms(2) punctuation_spelled(1) [of rest] by (auto simp only: list_all_iff snd_conv dest!: bspec)
  note at = at_lexeme_char [OF assms(1)] at_lexeme_char [OF assms(1), of 0, simplified]
  have ne: "\<not> isEOF lx" using at_lexeme_inside(1) [OF assms(1)] v hd by auto
  have "handlePunctuation lx = token_at lx (lx_position lx + length v) ty v (lexer_mark lx)"
    using op hd unfolding handlePunctuation_def Let_def at by auto
  moreover have "scan_token lx = scanned (handlePunctuation lx)"
    using hd op(2) [folded at_lexeme_char [OF assms(1), of 1]] symbol_chars by (subst scan_symbol [OF ne]) (auto simp: at list_all_iff)
  ultimately show ?thesis by simp
qed

lemma scan_slash:
  assumes "at_lexeme lx v rest" "(ty, v) \<in> set slash_spellings"
  shows "scan_token lx = scanned (token_at lx (lx_position lx + length v) ty v (lexer_mark lx))"
proof -
  let ?c = "\<lambda>k. char_at (v @ CHR '' '' # rest) k"
  note at = at_lexeme_char [OF assms(1)] at_lexeme_char [OF assms(1), of 0, simplified]
  have c: "?c 0 = CHR ''/''" "v \<noteq> []" "hd v = CHR ''/''" using assms(2) by (auto simp: slash_spellings_def char_at_def)
  then have ne: "\<not> isEOF lx" using at_lexeme_inside(1) [OF assms(1)] by auto
  have "handleComment lx = scanned (token_at lx (lx_position lx + length v) ty v (lexer_mark lx))"
    using assms(2) unfolding handleComment_def Let_def at by (auto simp: slash_spellings_def char_at_def)
  moreover have "scan_token lx = handleComment lx"
    using c(1) symbol_chars by (subst scan_symbol [OF ne]) (auto simp: at list_all_iff)
  ultimately show ?thesis by simp
qed

lemma scan_lexeme:
  assumes "at_lexeme lx v rest" "plain_lexeme (ty, v)"
  shows "scan_token lx = scanned (token_at lx (lx_position lx + length v) ty v (lexer_mark lx))"
  using assms(2) scan_name [OF assms(1)] scan_decimal [OF assms(1)] scan_operator [OF assms(1)] scan_punctuation [OF assms(1)]
    scan_slash [OF assms(1)]
  by (auto simp: plain_lexeme_def)

section \<open>Scanning what was printed\<close>

lemma lexeme_start:
  assumes "plain_lexeme (ty, v)"
  shows "v \<noteq> []" "hd v \<noteq> NUL" "\<not> is_space (hd v)" "hd v \<noteq> backslash" "ty \<noteq> TOKEN_EOF"
proof -
  have "list_all (\<lambda>l. snd l \<noteq> [] \<and> hd (snd l) \<noteq> NUL \<and> \<not> is_space (hd (snd l)) \<and> hd (snd l) \<noteq> backslash \<and> fst l \<noteq> TOKEN_EOF)
      (operator_spellings @ punctuation_spellings @ slash_spellings)"
    by (simp add: operator_spellings_def punctuation_spellings_def slash_spellings_def is_space_def)
  moreover have "list_all (\<lambda>x. snd x \<noteq> TOKEN_EOF) keyword_types" "list_all (\<lambda>x. snd x \<noteq> TOKEN_EOF) alternate_keywords"
    by (simp_all add: keyword_types_def alternate_keywords_def)
  then have "identifier_type w \<noteq> TOKEN_EOF" for w
    using map_of_other [of keyword_types _ _ TOKEN_EOF] map_of_other [of alternate_keywords _ _ TOKEN_EOF]
    by (auto simp: identifier_type_def keywordToTokenType_def split: option.splits)
  moreover have "is_name v \<or> is_decimal v \<Longrightarrow> v \<noteq> [] \<and> is_word_char (hd v)"
    by (cases v) (auto simp: is_name_def is_decimal_def digit_word)
  moreover have "is_word_char c \<Longrightarrow> c \<noteq> NUL \<and> \<not> is_space c \<and> c \<noteq> backslash" for c
    by (auto simp: is_word_char_def is_alnum_def is_alpha_def is_digit_def is_space_def)
  ultimately have "v \<noteq> [] \<and> hd v \<noteq> NUL \<and> \<not> is_space (hd v) \<and> hd v \<noteq> backslash \<and> ty \<noteq> TOKEN_EOF"
    using assms unfolding plain_lexeme_def list_all_iff by (metis fst_conv snd_conv numeral_eq_iff num.distinct(1,3,5) semiring_norm(85-90))
  then show "v \<noteq> []" "hd v \<noteq> NUL" "\<not> is_space (hd v)" "hd v \<noteq> backslash" "ty \<noteq> TOKEN_EOF" by simp_all
qed

lemma next_lexeme_here:
  assumes "at_lexeme lx v rest" "plain_lexeme (ty, v)"
  shows "getNextToken lx = Some (token_at lx (lx_position lx + length v) ty v (lexer_mark lx))"
proof -
  note st = lexeme_start [OF assms(2)]
  have "skipWhitespace lx = lx"
    using at_lexeme_inside(2) [OF assms(1) st(1,2)] st(3,4) by (intro skipWhitespace_stop) simp_all
  then show ?thesis
    by (subst getNextToken.simps) (simp add: scan_lexeme [OF assms] scanned_def)
qed

lemma next_after_blank:
  assumes "drop (lx_position lx) (lx_source lx) = CHR '' '' # rest"
  shows "getNextToken lx = getNextToken (lx\<lparr>lx_position := lx_position lx + 1\<rparr>)"
proof -
  have "source_at lx (lx_position lx) = CHR '' ''"
    using char_at_drop [of "lx_source lx" "lx_position lx" 0] assms by (simp add: char_at_def)
  then show ?thesis
    by (subst (1 2) getNextToken.simps) (simp only: skipWhitespace_blank)
qed

text \<open>The state of the scanner before what is left of a printed list: behind a blank or before one.\<close>

definition before_printed :: "Lexer \<Rightarrow> lexeme list \<Rightarrow> bool" where
  "before_printed lx ls \<longleftrightarrow>
    drop (lx_position lx) (lx_source lx) = print_lexemes ls \<or> drop (lx_position lx) (lx_source lx) = CHR '' '' # print_lexemes ls"

lemma before_printed_step:
  assumes "before_printed lx ((ty, v) # ls)" "plain_lexeme (ty, v)"
  shows "\<exists>t lx'. getNextToken lx = Some (t, lx') \<and> tk_type t = ty \<and> tk_value t = Some v \<and> before_printed lx' ls"
proof -
  have here: "\<exists>t l'. getNextToken l = Some (t, l') \<and> tk_type t = ty \<and> tk_value t = Some v \<and> before_printed l' ls"
    if "drop (lx_position l) (lx_source l) = print_lexemes ((ty, v) # ls)" for l
  proof -
    have at: "at_lexeme l v (print_lexemes ls)" using that by (simp add: at_lexeme_def)
    have "drop (lx_position l + length v) (lx_source l) = CHR '' '' # print_lexemes ls"
      using at by (metis at_lexeme_def append_eq_conv_conj drop_drop add.commute)
    then have "before_printed (snd (token_at l (lx_position l + length v) ty v (lexer_mark l))) ls"
      by (simp add: before_printed_def lexer_step)
    then show ?thesis
      unfolding next_lexeme_here [OF at assms(2)] by (metis option.inject prod.collapse token_at_simps(5,6))
  qed
  show ?thesis
  proof (cases "drop (lx_position lx) (lx_source lx) = print_lexemes ((ty, v) # ls)")
    case False
    then have b: "drop (lx_position lx) (lx_source lx) = CHR '' '' # print_lexemes ((ty, v) # ls)"
      using assms(1) by (simp add: before_printed_def)
    then have "drop (lx_position lx + 1) (lx_source lx) = print_lexemes ((ty, v) # ls)"
      by (metis One_nat_def add.commute drop_drop drop_Suc_Cons drop0)
    then show ?thesis using here [of "lx\<lparr>lx_position := lx_position lx + 1\<rparr>"] next_after_blank [OF b] by simp
  qed (rule here)
qed

lemma before_printed_end:
  assumes "before_printed lx []"
  shows "\<exists>t lx'. getNextToken lx = Some (t, lx') \<and> tk_type t = TOKEN_EOF \<and> tk_value t = Some ''EOF''"
proof -
  have here: "\<exists>t l'. getNextToken l = Some (t, l') \<and> tk_type t = TOKEN_EOF \<and> tk_value t = Some ''EOF''"
    if "lx_length l \<le> lx_position l" for l
    using that by (subst getNextToken.simps, subst skipWhitespace.simps)
      (simp add: scan_token_def isEOF_def scanned_def Let_def, metis prod.collapse token_at_simps(5,6))
  show ?thesis
  proof (cases "lx_length lx \<le> lx_position lx")
    case False
    then have b: "drop (lx_position lx) (lx_source lx) = CHR '' '' # []" using assms by (auto simp: before_printed_def)
    then have "lx_length lx \<le> lx_position lx + 1"
      by (metis One_nat_def add.commute drop_drop drop_Suc_Cons drop0 drop_eq_Nil)
    then show ?thesis using here [of "lx\<lparr>lx_position := lx_position lx + 1\<rparr>"] next_after_blank [OF b] by simp
  qed (rule here)
qed

lemma fill_printed:
  "list_all plain_lexeme ls \<Longrightarrow> before_printed lx ls \<Longrightarrow> length ls \<le> steps \<Longrightarrow>
   \<exists>ts lx'. fill_loop next_token steps lx b = (b @ ts, lx', True) \<and>
     map (\<lambda>t. (tk_type t, tk_value t)) ts = map (apsnd Some) ls @ [(TOKEN_EOF, Some ''EOF'')]"
proof (induction ls arbitrary: lx steps b)
  case Nil
  then obtain t lx' where "getNextToken lx = Some (t, lx')" "tk_type t = TOKEN_EOF" "tk_value t = Some ''EOF''"
    using before_printed_end by blast
  then show ?case by (subst fill_loop.simps) (simp add: token_buffer_append_def)
next
  case (Cons l ls)
  obtain ty v where l: "l = (ty, v)" by (cases l)
  obtain k where k: "steps = Suc k" "length ls \<le> k" using Cons.prems(3) by (cases steps) auto
  have p: "plain_lexeme (ty, v)" "list_all plain_lexeme ls" using Cons.prems(1) l by simp_all
  obtain t l' where n: "getNextToken lx = Some (t, l')" "tk_type t = ty" "tk_value t = Some v" "before_printed l' ls"
    using before_printed_step [OF Cons.prems(2) [unfolded l] p(1)] by blast
  from Cons.IH [OF p(2) n(4) k(2), of "b @ [t]"] obtain ts lx' where
    "fill_loop next_token k l' (b @ [t]) = ((b @ [t]) @ ts, lx', True)"
    "map (\<lambda>t. (tk_type t, tk_value t)) ts = map (apsnd Some) ls @ [(TOKEN_EOF, Some ''EOF'')]" by blast
  then show ?case
    using n lexeme_start(5) [OF p(1)]
    by (subst fill_loop.simps) (simp add: k token_buffer_append_def l)
qed

lemma lexeme_count: "list_all plain_lexeme ls \<Longrightarrow> length ls \<le> length (print_lexemes ls)"
  by (induction ls) auto

text \<open>
  C29. Scanning printed tokens gives them back. A list of tokens (names and keywords with the type their spelling has,
  decimal numbers, operators and punctuation), printed with a blank behind each and scanned into a token
  buffer, yields the same types and texts in the same order and the end of file.\<close>
theorem printed_tokens_scan_back:
  assumes "list_all plain_lexeme ls"
  shows "\<exists>b lx'. token_buffer_fill_from_lexer next_token (lx_length (initLexer (Some (print_lexemes ls)) path trigraphs))
      (initLexer (Some (print_lexemes ls)) path trigraphs) token_buffer_init = (b, lx', True) \<and>
    map (\<lambda>t. (tk_type t, tk_value t)) b = map (apsnd Some) ls @ [(TOKEN_EOF, Some ''EOF'')]"
proof -
  let ?lx = "initLexer (Some (print_lexemes ls)) path trigraphs"
  have lx: "lx_source ?lx = print_lexemes ls" "lx_position ?lx = 0"
    using translate_printed [OF assms, of trigraphs] by (simp_all add: initLexer_def case_prod_unfold Let_def)
  then have "before_printed ?lx ls" by (simp add: before_printed_def)
  moreover have "length ls \<le> safety_limit (lx_length ?lx)"
    using lexeme_count [OF assms] by (auto simp: safety_limit_def lx)
  ultimately show ?thesis
    using fill_printed [OF assms, of ?lx "safety_limit (lx_length ?lx)" "[]"]
    unfolding token_buffer_fill_from_lexer_def token_buffer_init_def by simp
qed

theorem printed_tokens_scan_back_witness:
  "\<exists>b lx'. token_buffer_fill_from_lexer next_token
      (lx_length (initLexer (Some (print_lexemes [(TOKEN_INT, ''int''), (TOKEN_LEFT_SHIFT_ASSIGN, ''<<=''), (TOKEN_NUMBER, ''10'')])) None False))
      (initLexer (Some (print_lexemes [(TOKEN_INT, ''int''), (TOKEN_LEFT_SHIFT_ASSIGN, ''<<=''), (TOKEN_NUMBER, ''10'')])) None False)
      token_buffer_init = (b, lx', True) \<and>
    map (\<lambda>t. (tk_type t, tk_value t)) b =
      map (apsnd Some) [(TOKEN_INT, ''int''), (TOKEN_LEFT_SHIFT_ASSIGN, ''<<=''), (TOKEN_NUMBER, ''10'')] @ [(TOKEN_EOF, Some ''EOF'')]"
  by (rule printed_tokens_scan_back) code_simp

end
