(* ===== verification/Const_Eval.thy ===== *)
theory Const_Eval
  imports Type_Resolution Literal_Utils "HOL-Library.Signed_Division"
begin

text \<open>
  Evaluation of integer constant expressions, the whole of \<open>src/src/Syntax/const_eval.c\<close>. A value of type
  \<open>long long\<close> is an integer; where the evaluator itself overflows, divides the least value by \<open>-1\<close> or shifts by
  64 or more, the result is \<open>Undefined\<close>. Evaluating an enumerator may evaluate the expression of its value, so
  the evaluator takes fuel, one unit for each enumerator entered; \<open>Fail\<close> says that it is used up (as when a
  typedef does not resolve). What other components compute is found in the environment: sizes and alignments
  (\<open>layout.c\<close>), types of expressions and offsets of fields (\<open>Expr\<close>), and the C library's \<open>strtold\<close>, whose
  value is given truncated to an integer. Reports and profiler counters are left out; the cache of a symbol's
  type holds what \<open>typeInfoFromParsedType\<close> gives.
\<close>

section \<open>Expressions and the environment\<close>

datatype expr =
    E_NULL
  | AST_NUMBER_LITERAL cstr
  | AST_CHAR_LITERAL cstr
  | AST_STRING_LITERAL cstr
  | AST_IDENTIFIER cstr
  | AST_CAST_EXPRESSION ParsedType expr
  | AST_UNARY_EXPRESSION cstr expr
  | AST_BINARY_EXPRESSION cstr expr expr
  | AST_TERNARY_EXPRESSION expr expr expr
  | AST_COMMA_EXPRESSION "expr list"
  | AST_SIZEOF expr
  | AST_ALIGNOF expr
  | AST_FUNCTION_CALL expr "expr list"
  | AST_PARSED_TYPE ParsedType
  | AST_COMPOUND_LITERAL ParsedType
  | E_OTHER nat

text \<open>An enumeration: its members (\<open>None\<close> where a member is not an identifier) with their value expressions.\<close>

type_synonym EnumDef = "(cstr \<times> expr option) list"

record ConstEnv =
  ce_host :: HostMacros
  ce_ctx :: "CompilerContext option"
  ce_scope :: scope
  ce_fuel :: nat
  ce_sizeAlign :: "ParsedType \<Rightarrow> (size_t \<times> size_t) option"
  ce_layout :: "CCTagKind \<Rightarrow> cstr \<Rightarrow> (size_t \<times> size_t) option"
  ce_analyze :: "expr \<Rightarrow> TypeInfo"
  ce_offsetof :: "ParsedType \<Rightarrow> cstr \<Rightarrow> size_t option"
  ce_strtold :: "string \<Rightarrow> int \<times> string"
  ce_enum :: "nat \<Rightarrow> EnumDef option"

record ConstEvalResult =
  cr_isConst :: bool
  cr_value :: int
  cr_bitWidth :: nat
  cr_isUnsigned :: bool

section \<open>Widths and results\<close>

definition currentLayout :: "ConstEnv \<Rightarrow> TargetLayout" where
  "currentLayout env =
    (case (if ce_scope env = [] then None else cc_get_target_layout (ce_ctx env)) of
       Some lay \<Rightarrow> lay | None \<Rightarrow> tl_default (ce_host env))"

definition scope_intBits :: "ConstEnv \<Rightarrow> nat" where
  "scope_intBits env = (let w = unat (intBits (currentLayout env)) in if w = 0 then 32 else w)"

definition defaultPointerBits :: "ConstEnv \<Rightarrow> nat" where
  "defaultPointerBits env = (let w = unat (pointerBits (currentLayout env)) in if w = 0 then 64 else w)"

definition truncateToWidth :: "int \<Rightarrow> nat \<Rightarrow> bool \<Rightarrow> int" where
  "truncateToWidth v w uns =
    (if w = 0 \<or> w \<ge> 64 then v
     else let m = push_bit w 1 - 1 :: u64; x = word_of_int v AND m
          in sint (if \<not> uns \<and> x AND push_bit (w - 1) 1 \<noteq> 0 then x OR NOT m else x))"

definition makeConstTyped :: "int \<Rightarrow> nat \<Rightarrow> bool \<Rightarrow> ConstEvalResult" where
  "makeConstTyped v w uns =
    \<lparr>cr_isConst = True, cr_value = truncateToWidth v w uns, cr_bitWidth = w, cr_isUnsigned = uns\<rparr>"

definition makeConst :: "int \<Rightarrow> ConstEvalResult" where
  "makeConst v = makeConstTyped v 64 False"

definition makeNonConst :: ConstEvalResult where
  "makeNonConst = \<lparr>cr_isConst = False, cr_value = 0, cr_bitWidth = 0, cr_isUnsigned = False\<rparr>"

definition finalizeWithExprType :: "ConstEnv \<Rightarrow> ConstEvalResult \<Rightarrow> ConstEvalResult" where
  "finalizeWithExprType env res =
    (if \<not> cr_isConst res then res
     else let w = (if cr_bitWidth res = 0 then scope_intBits env else cr_bitWidth res)
          in res\<lparr>cr_bitWidth := w, cr_value := truncateToWidth (cr_value res) w (cr_isUnsigned res)\<rparr>)"

section \<open>Literals\<close>

text \<open>The value as \<open>long long\<close>, the width and the signedness; \<open>None\<close> when the text is no integer literal.\<close>

definition parseIntegerLiteral :: "ConstEnv \<Rightarrow> cstr \<Rightarrow> (int \<times> nat \<times> bool) option evaluation" where
  "parseIntegerLiteral env text =
    (case parse_integer_literal_info (ce_host env) text (Some (currentLayout env)) of
       Undefined \<Rightarrow> Undefined
     | Fail e \<Rightarrow> Done None
     | Done info \<Rightarrow> Done (Some (sint (il_value info), il_bits info, il_isUnsigned info)))"

text \<open>The value of a floating literal, truncated; the layout is the default one.\<close>

definition parseFloatingLiteralValue :: "ConstEnv \<Rightarrow> cstr \<Rightarrow> int option evaluation" where
  "parseFloatingLiteralValue env text =
    (case text of
       None \<Rightarrow> Done None
     | Some t \<Rightarrow>
         let (v, end) = ce_strtold env t;
             end' = (if end \<noteq> [] \<and> hd end \<in> set ''fFlL'' then tl end else end)
         in if t = [] \<or> end = t \<or> end' \<noteq> [] then Done None
            else case parse_integer_literal_info (ce_host env) text (Some (tl_default (ce_host env))) of
                Undefined \<Rightarrow> Undefined | Fail e \<Rightarrow> Done (Some v) | Done info \<Rightarrow> Done None)"

section \<open>Types\<close>

definition scope_typeInfo :: "ConstEnv \<Rightarrow> ParsedType \<Rightarrow> TypeInfo evaluation" where
  "scope_typeInfo env t =
    (case typeInfoFromParsedType (ce_fuel env) (ce_host env) (ce_ctx env) (ce_scope env) t of
       None \<Rightarrow> Fail () | Some info \<Rightarrow> Done info)"

abbreviation resolve :: "ConstEnv \<Rightarrow> cstr \<Rightarrow> ParsedType Symbol option" where
  "resolve env name \<equiv> (case name of None \<Rightarrow> None | Some s \<Rightarrow> resolveInScopeChain (ce_scope env) s)"

definition lookupWCharType :: "ConstEnv \<Rightarrow> TypeInfo evaluation" where
  "lookupWCharType env =
    (case resolve env (Some ''wchar_t'') of
       Some w \<Rightarrow>
         if sym_kind w = SYMBOL_TYPEDEF then scope_typeInfo env (sym_type w)
         else Done (makeIntegerType (scope_intBits env) True TOKEN_INT)
     | None \<Rightarrow> Done (makeIntegerType (scope_intBits env) True TOKEN_INT))"

definition bytes_of_bits :: "nat \<Rightarrow> nat \<Rightarrow> int" where
  "bytes_of_bits w least = (let b = (w + 7) div 8 in int (if b = 0 then least else b))"

definition record_kind :: "TypeInfo \<Rightarrow> CCTagKind" where
  "record_kind info = (if category info = TYPEINFO_STRUCT then CC_TAG_STRUCT else CC_TAG_UNION)"

text \<open>The layout of a record type; there is none without a scope, a context or a name.\<close>

definition record_layout_of :: "ConstEnv \<Rightarrow> TypeInfo \<Rightarrow> (size_t \<times> size_t) option" where
  "record_layout_of env info =
    (if ce_scope env = [] \<or> ce_ctx env = None \<or> userTypeName info = None then None
     else ce_layout env (record_kind info) (userTypeName info))"

definition sizeFromTypeInfo :: "ConstEnv \<Rightarrow> TypeInfo \<Rightarrow> int option" where
  "sizeFromTypeInfo env info =
    (let w = (if bitWidth info = 0 then 32 else bitWidth info) in
     case category info of
       TYPEINFO_INTEGER \<Rightarrow> Some (bytes_of_bits w 1)
     | TYPEINFO_ENUM \<Rightarrow> Some (bytes_of_bits w 1)
     | TYPEINFO_FLOAT \<Rightarrow> Some (if isComplex info then bytes_of_bits w 4 * 2 else bytes_of_bits w 4)
     | TYPEINFO_POINTER \<Rightarrow> Some 8
     | TYPEINFO_STRUCT \<Rightarrow> map_option (\<lambda>(sz, al). sint sz) (record_layout_of env info)
     | TYPEINFO_UNION \<Rightarrow> map_option (\<lambda>(sz, al). sint sz) (record_layout_of env info)
     | _ \<Rightarrow> None)"

definition sizeFromParsedType :: "ConstEnv \<Rightarrow> ParsedType \<Rightarrow> int option" where
  "sizeFromParsedType env t = map_option (\<lambda>(sz, al). sint sz) (ce_sizeAlign env t)"

definition alignFromParsedType :: "ConstEnv \<Rightarrow> ParsedType \<Rightarrow> int option" where
  "alignFromParsedType env t = map_option (\<lambda>(sz, al). sint al) (ce_sizeAlign env t)"

definition alignFromTypeInfo :: "ConstEnv \<Rightarrow> TypeInfo \<Rightarrow> int option" where
  "alignFromTypeInfo env info =
    (let lay = currentLayout env; w = (if bitWidth info = 0 then 32 else bitWidth info);
         integer = (if w \<le> unat (charBits lay) then charAlign lay else if w \<le> unat (shortBits lay) then shortAlign lay
           else if w \<le> unat (intBits lay) then intAlign lay else if w \<le> unat (TargetLayout.longBits lay) then longAlign lay
           else longLongAlign lay);
         floating = (if w \<ge> unat (longDoubleBits lay) then longDoubleAlign lay
           else if w \<ge> unat (doubleBits lay) then doubleAlign lay else floatAlign lay) in
     if ce_scope env = [] then None
     else case category info of
       TYPEINFO_INTEGER \<Rightarrow> Some (sint integer)
     | TYPEINFO_ENUM \<Rightarrow> Some (sint integer)
     | TYPEINFO_FLOAT \<Rightarrow> Some (sint floating)
     | TYPEINFO_POINTER \<Rightarrow> Some (sint (pointerAlign lay))
     | TYPEINFO_STRUCT \<Rightarrow> map_option (\<lambda>(sz, al). sint al) (record_layout_of env info)
     | TYPEINFO_UNION \<Rightarrow> map_option (\<lambda>(sz, al). sint al) (record_layout_of env info)
     | _ \<Rightarrow> None)"

definition bitsFromTypeInfo :: "ConstEnv \<Rightarrow> TypeInfo \<Rightarrow> (nat \<times> bool) option" where
  "bitsFromTypeInfo env info =
    (if category info = TYPEINFO_INTEGER \<or> category info = TYPEINFO_ENUM
     then Some (if bitWidth info = 0 then scope_intBits env else bitWidth info, \<not> isSigned info)
     else if category info = TYPEINFO_POINTER then Some (defaultPointerBits env, True)
     else None)"

section \<open>Size, alignment and casts\<close>

definition string_size :: "ConstEnv \<Rightarrow> cstr \<Rightarrow> int option evaluation" where
  "string_size env v =
    (let (enc, payload) = ast_literal_encoding v;
         text = (case payload of Some s \<Rightarrow> s | None \<Rightarrow> '''');
         charW = (let w = unat (charBits (currentLayout env)) in if w = 0 then 8 else w) in
     if enc = LIT_ENC_WIDE
     then obind (lookupWCharType env) (\<lambda>info.
       let w = (if bitWidth info = 0 then scope_intBits env else bitWidth info);
           res = fst (decode_c_string_literal_wide (Some text) (int w) False);
           one = (case sizeFromTypeInfo env info of Some n \<Rightarrow> n | None \<Rightarrow> int ((w + 7) div 8))
       in Done (if ld_ok res then Some (int (ld_length res + 1) * one) else None))
     else let res = fst (decode_c_string_literal (Some text) (int charW) False)
          in Done (if ld_ok res then Some (int (ld_length res + 1) * bytes_of_bits charW 1) else None))"

definition incomplete_record :: "TypeInfo \<Rightarrow> bool" where
  "incomplete_record info \<longleftrightarrow> (category info = TYPEINFO_STRUCT \<or> category info = TYPEINFO_UNION) \<and> \<not> isComplete info"

definition size_of_value :: "ConstEnv \<Rightarrow> expr \<Rightarrow> int option" where
  "size_of_value env target =
    (let info = ce_analyze env target in
     case (if category info = TYPEINFO_ARRAY
           then (case originalType info of Some t \<Rightarrow> sizeFromParsedType env t | None \<Rightarrow> None) else None) of
       Some n \<Rightarrow> Some n
     | None \<Rightarrow> if incomplete_record info then None else sizeFromTypeInfo env info)"

definition evalSizeof :: "ConstEnv \<Rightarrow> expr \<Rightarrow> int option evaluation" where
  "evalSizeof env target =
    (if target = E_NULL \<or> ce_scope env = [] then Done None
     else case target of
       AST_PARSED_TYPE t \<Rightarrow> Done (sizeFromParsedType env t)
     | AST_COMPOUND_LITERAL t \<Rightarrow> Done (sizeFromParsedType env t)
     | AST_STRING_LITERAL v \<Rightarrow> string_size env v
     | AST_IDENTIFIER name \<Rightarrow>
         (case resolve env name of
            Some s \<Rightarrow> Done (sizeFromParsedType env (sym_type s)) | None \<Rightarrow> Done (size_of_value env target))
     | _ \<Rightarrow> Done (size_of_value env target))"

definition align_of_value :: "ConstEnv \<Rightarrow> expr \<Rightarrow> int option" where
  "align_of_value env target =
    (let info = ce_analyze env target in if incomplete_record info then None else alignFromTypeInfo env info)"

definition evalAlignof :: "ConstEnv \<Rightarrow> expr \<Rightarrow> int option" where
  "evalAlignof env target =
    (if target = E_NULL \<or> ce_scope env = [] then None
     else case target of
       AST_PARSED_TYPE t \<Rightarrow> alignFromParsedType env t
     | AST_IDENTIFIER name \<Rightarrow>
         (case resolve env name of Some s \<Rightarrow> alignFromParsedType env (sym_type s) | None \<Rightarrow> align_of_value env target)
     | _ \<Rightarrow> align_of_value env target)"

definition evalCast :: "ConstEnv \<Rightarrow> int \<Rightarrow> ParsedType \<Rightarrow> (int \<times> nat \<times> bool) option evaluation" where
  "evalCast env v t =
    obind (scope_typeInfo env t) (\<lambda>info.
      Done (map_option (\<lambda>(w, uns). (truncateToWidth v w uns, w, uns)) (bitsFromTypeInfo env info)))"

section \<open>Operators\<close>

definition commonIntegerType :: "ConstEnv \<Rightarrow> ConstEvalResult \<Rightarrow> ConstEvalResult \<Rightarrow> nat \<times> bool" where
  "commonIntegerType env lhs rhs =
    (let width = (\<lambda>r. if cr_bitWidth r = 0 then scope_intBits env else cr_bitWidth r);
         info = (\<lambda>r. makeIntegerType (width r) (\<not> cr_isUnsigned r) TOKEN_INT);
         (common, ok) = usualArithmeticConversion (ce_host env) (info lhs) (info rhs)
     in if ok then (if bitWidth common = 0 then scope_intBits env else bitWidth common, \<not> isSigned common)
        else (scope_intBits env, False))"

abbreviation to_u64 :: "int \<Rightarrow> u64" where
  "to_u64 v \<equiv> word_of_int v"

definition bitwise_ops :: "string list" where "bitwise_ops = [''|'', ''&'', ''^'']"
definition compare_ops :: "string list" where "compare_ops = [''=='', ''!='', ''<'', ''<='', ''>'', ''>='']"
definition shift_ops :: "string list" where "shift_ops = [''<<'', ''>>'']"
definition arith_ops :: "string list" where "arith_ops = [''+'', ''-'', ''*'', ''/'', ''%'']"

definition compare_operands :: "string \<Rightarrow> ('a :: linorder) \<Rightarrow> 'a \<Rightarrow> bool" where
  "compare_operands op l r =
    (if op = ''=='' then l = r else if op = ''!='' then l \<noteq> r else if op = ''<'' then l < r
     else if op = ''<='' then l \<le> r else if op = ''>'' then l > r else l \<ge> r)"

text \<open>Arithmetic on \<open>uint64_t\<close> and on \<open>long long\<close>; the latter is undefined where the result does not fit.\<close>

definition unsigned_arith :: "string \<Rightarrow> u64 \<Rightarrow> u64 \<Rightarrow> u64" where
  "unsigned_arith op l r =
    (if op = ''+'' then l + r else if op = ''-'' then l - r else if op = ''*'' then l * r
     else if r = 0 then 0 else if op = ''/'' then l div r else l mod r)"

definition signed_arith :: "string \<Rightarrow> int \<Rightarrow> int \<Rightarrow> int evaluation" where
  "signed_arith op l r =
    (let checked = (\<lambda>v. if fits_int64 v then Done v else Undefined) in
     if op = ''+'' then checked (l + r) else if op = ''-'' then checked (l - r) else if op = ''*'' then checked (l * r)
     else if r = 0 then Done 0
     else if \<not> fits_int64 (l sdiv r) then Undefined
     else Done (if op = ''/'' then l sdiv r else l smod r))"

definition evalBinaryOp :: "ConstEnv \<Rightarrow> string \<Rightarrow> ConstEvalResult \<Rightarrow> ConstEvalResult \<Rightarrow> ConstEvalResult evaluation" where
  "evalBinaryOp env op lhs rhs =
    (let (w, uns) = commonIntegerType env lhs rhs; fin = (\<lambda>v w uns. finalizeWithExprType env (makeConstTyped v w uns)) in
     if op \<in> set bitwise_ops
     then let l = to_u64 (truncateToWidth (cr_value lhs) w uns); r = to_u64 (truncateToWidth (cr_value rhs) w uns)
          in Done (fin (sint (if op = ''|'' then l OR r else if op = ''&'' then l AND r else l XOR r)) w uns)
     else if op \<in> set compare_ops
     then let b = (if uns
            then compare_operands op (to_u64 (truncateToWidth (cr_value lhs) w True)) (to_u64 (truncateToWidth (cr_value rhs) w True))
            else compare_operands op (truncateToWidth (cr_value lhs) w False) (truncateToWidth (cr_value rhs) w False))
          in Done (fin (if b then 1 else 0) (scope_intBits env) False)
     else if op \<in> set shift_ops
     then let opBits = (if cr_bitWidth lhs = 0 then scope_intBits env else cr_bitWidth lhs); opUns = cr_isUnsigned lhs;
              amount = cr_value rhs; l = to_u64 (truncateToWidth (cr_value lhs) opBits opUns)
          in if amount < 0 \<or> amount \<ge> int opBits then Done makeNonConst
             else if amount \<ge> 64 then Undefined
             else Done (fin (sint (if op = ''<<'' then push_bit (nat amount) l
                 else if opUns then drop_bit (nat amount) l
                 else to_u64 (drop_bit (nat amount) (truncateToWidth (cr_value lhs) opBits False)))) opBits opUns)
     else if op \<in> set arith_ops
     then if (op = ''/'' \<or> op = ''%'') \<and> cr_value rhs = 0 then Done makeNonConst
          else if uns
          then Done (fin (sint (unsigned_arith op (to_u64 (truncateToWidth (cr_value lhs) w True))
                 (to_u64 (truncateToWidth (cr_value rhs) w True)))) w True)
          else obind (signed_arith op (truncateToWidth (cr_value lhs) w False) (truncateToWidth (cr_value rhs) w False))
                 (\<lambda>v. Done (fin v w uns))
     else Done makeNonConst)"

section \<open>Identifiers\<close>

text \<open>
  The loop over the members of an enumeration; \<open>ev\<close> is \<open>constEvalInteger\<close> on the value expressions. A value that
  is not constant leaves the count as it is.
\<close>

fun enum_loop :: "(expr \<Rightarrow> int option evaluation) \<Rightarrow> string \<Rightarrow> int \<Rightarrow> bool \<Rightarrow> EnumDef \<Rightarrow> int option evaluation" where
  "enum_loop ev name current have [] = Done None"
| "enum_loop ev name current have ((None, value) # ms) = enum_loop ev name current have ms"
| "enum_loop ev name current have ((Some member, value) # ms) =
    obind (case value of
             Some e \<Rightarrow> obind (ev e) (\<lambda>r. Done (case r of Some v \<Rightarrow> (v, True) | None \<Rightarrow> (current, have)))
           | None \<Rightarrow> Done (if have then (current, have) else (0, True)))
      (\<lambda>(cur, hv).
        if member = name then Done (Some cur)
        else if \<not> fits_int64 (cur + 1) then Undefined
        else enum_loop ev name (cur + 1) hv ms)"

definition evalIdentifier :: "(expr \<Rightarrow> int option evaluation) \<Rightarrow> ConstEnv \<Rightarrow> cstr \<Rightarrow> bool \<Rightarrow> int option evaluation" where
  "evalIdentifier ev env name allowEnumRefs =
    (case resolve env name of
       None \<Rightarrow> Done None
     | Some s \<Rightarrow>
         if sym_kind s = SYMBOL_VARIABLE \<and> sym_hasConstValue s then Done (Some (sym_constValue s))
         else if \<not> allowEnumRefs \<or> sym_kind s \<noteq> SYMBOL_ENUM then Done None
         else if sym_hasConstValue s then Done (Some (sym_constValue s))
         else case Option.bind (sym_definition s) (ce_enum env) of
             None \<Rightarrow> Done None
           | Some members \<Rightarrow> (case name of None \<Rightarrow> Done None | Some n \<Rightarrow> enum_loop ev n 0 False members))"

definition identifierIsIntegerConstantOperand :: "ConstEnv \<Rightarrow> cstr \<Rightarrow> bool" where
  "identifierIsIntegerConstantOperand env name =
    (case resolve env name of
       None \<Rightarrow> False
     | Some s \<Rightarrow>
         sym_kind s = SYMBOL_ENUM \<or>
         (sym_kind s = SYMBOL_VARIABLE \<and> sym_definition s = None \<and> sym_hasConstValue s \<and> (name = Some ''true'' \<or> name = Some ''false'')))"

section \<open>The evaluator\<close>

text \<open>A character constant: its value with the width and signedness of its type.\<close>

definition eval_char :: "ConstEnv \<Rightarrow> cstr \<Rightarrow> ConstEvalResult evaluation" where
  "eval_char env v =
    (let (enc, payload) = ast_literal_encoding v in
     case payload of
       None \<Rightarrow> Done makeNonConst
     | Some text \<Rightarrow>
         obind (parseIntegerLiteral env (Some text)) (\<lambda>lit.
         obind (if enc = LIT_ENC_WIDE \<and> ce_scope env \<noteq> [] then lookupWCharType env
                else Done (makeIntegerType (scope_intBits env) True TOKEN_INT)) (\<lambda>litType.
           let (value, litBits) = (case lit of
                 Some (c, w, u) \<Rightarrow> (c, w)
               | None \<Rightarrow> (if text = [] then 0 else int (of_char (hd text) :: nat), scope_intBits env));
               w = (if bitWidth litType = 0 then litBits else bitWidth litType)
           in Done (if enc = LIT_ENC_WIDE \<and> to_u64 value > 0x10FFFF then makeNonConst
                    else if w < 63 \<and> (value < 0 \<or> to_u64 value > push_bit w 1 - 1) then makeNonConst
                    else makeConstTyped value w (\<not> isSigned litType)))))"

definition eval_unary :: "ConstEnv \<Rightarrow> string \<Rightarrow> ConstEvalResult \<Rightarrow> ConstEvalResult evaluation" where
  "eval_unary env op r =
    (let w = (if cr_bitWidth r = 0 then scope_intBits env else cr_bitWidth r); uns = cr_isUnsigned r;
         fin = (\<lambda>v w uns. Done (finalizeWithExprType env (makeConstTyped v w uns))) in
     if \<not> cr_isConst r then Done makeNonConst
     else if op = ''-'' then if fits_int64 (- cr_value r) then fin (- cr_value r) w uns else Undefined
     else if op = ''+'' then fin (cr_value r) w uns
     else if op = ''!'' then fin (if cr_value r = 0 then 1 else 0) (scope_intBits env) False
     else if op = ''~'' then fin (NOT (cr_value r)) w uns
     else Done makeNonConst)"

text \<open>The right operand of a logical operator that the left one does not decide.\<close>

definition logical_result :: "ConstEnv \<Rightarrow> ConstEvalResult \<Rightarrow> ConstEvalResult" where
  "logical_result env r =
    (if \<not> cr_isConst r then makeNonConst
     else finalizeWithExprType env (makeConstTyped (if cr_value r \<noteq> 0 then 1 else 0) (scope_intBits env) False))"

definition is_offsetof :: "cstr \<Rightarrow> bool" where
  "is_offsetof name \<longleftrightarrow> name = Some ''__builtin_offsetof'' \<or> name = Some ''offsetof''"

definition eval_call :: "ConstEnv \<Rightarrow> expr \<Rightarrow> expr list \<Rightarrow> ConstEvalResult" where
  "eval_call env callee args =
    (case callee of
       AST_IDENTIFIER name \<Rightarrow>
         if is_offsetof name
         then (case args of
                 [AST_PARSED_TYPE t, AST_IDENTIFIER field] \<Rightarrow>
                   (case ce_offsetof env t field of
                      Some offset \<Rightarrow> makeConstTyped (sint offset) (defaultPointerBits env) True | None \<Rightarrow> makeNonConst)
               | _ \<Rightarrow> makeNonConst)
         else makeNonConst
     | _ \<Rightarrow> makeNonConst)"

text \<open>A cast: a floating literal may be its operand.\<close>

definition eval_cast_operand :: "ConstEnv \<Rightarrow> ParsedType \<Rightarrow> expr \<Rightarrow> ConstEvalResult \<Rightarrow> ConstEvalResult evaluation" where
  "eval_cast_operand env t operand inner =
    (case operand of
       AST_NUMBER_LITERAL v \<Rightarrow>
         if cr_isConst inner then Done inner
         else obind (scope_typeInfo env t) (\<lambda>target.
           if \<not> typeInfoIsInteger target then Done inner
           else obind (parseFloatingLiteralValue env v) (\<lambda>f.
             case f of
               Some x \<Rightarrow> if fits_int64 x then Done (makeConst x) else Undefined
             | None \<Rightarrow> Done inner))
     | _ \<Rightarrow> Done inner)"

definition sized_result :: "ConstEnv \<Rightarrow> int option \<Rightarrow> ConstEvalResult" where
  "sized_result env r = (case r of Some n \<Rightarrow> makeConstTyped n (defaultPointerBits env) True | None \<Rightarrow> makeNonConst)"

fun constEvalInternal :: "(expr \<Rightarrow> int option evaluation) \<Rightarrow> ConstEnv \<Rightarrow> bool \<Rightarrow> expr \<Rightarrow> ConstEvalResult evaluation"
  and const_eval_comma :: "(expr \<Rightarrow> int option evaluation) \<Rightarrow> ConstEnv \<Rightarrow> bool \<Rightarrow> expr list \<Rightarrow> ConstEvalResult evaluation" where
  "constEvalInternal ev env allow (AST_NUMBER_LITERAL v) =
    obind (parseIntegerLiteral env v) (\<lambda>lit.
      Done (case lit of Some (n, w, uns) \<Rightarrow> makeConstTyped n w uns | None \<Rightarrow> makeNonConst))"
| "constEvalInternal ev env allow (AST_CHAR_LITERAL v) = eval_char env v"
| "constEvalInternal ev env allow (AST_IDENTIFIER name) =
    obind (evalIdentifier ev env name allow) (\<lambda>r.
      Done (case r of Some n \<Rightarrow> finalizeWithExprType env (makeConst n) | None \<Rightarrow> makeNonConst))"
| "constEvalInternal ev env allow (AST_CAST_EXPRESSION t e) =
    obind (constEvalInternal ev env allow e) (\<lambda>inner0.
    obind (eval_cast_operand env t e inner0) (\<lambda>inner.
      if \<not> cr_isConst inner then Done makeNonConst
      else obind (evalCast env (cr_value inner) t) (\<lambda>r.
        Done (case r of Some (n, w, uns) \<Rightarrow> makeConstTyped n w uns | None \<Rightarrow> makeNonConst))))"
| "constEvalInternal ev env allow (AST_UNARY_EXPRESSION opr e) =
    (case opr of
       None \<Rightarrow> Done makeNonConst
     | Some op \<Rightarrow>
         if e = E_NULL then Done makeNonConst
         else obind (constEvalInternal ev env allow e) (eval_unary env op))"
| "constEvalInternal ev env allow (AST_BINARY_EXPRESSION opr l r) =
    (case opr of
       None \<Rightarrow> Done makeNonConst
     | Some op \<Rightarrow>
         obind (constEvalInternal ev env allow l) (\<lambda>lhs.
           if op = ''||''
           then if \<not> cr_isConst lhs then Done makeNonConst
                else if cr_value lhs \<noteq> 0 then Done (makeConst 1)
                else obind (constEvalInternal ev env allow r) (\<lambda>rhs. Done (logical_result env rhs))
           else if op = ''&&''
           then if \<not> cr_isConst lhs then Done makeNonConst
                else if cr_value lhs = 0 then Done (makeConst 0)
                else obind (constEvalInternal ev env allow r) (\<lambda>rhs. Done (logical_result env rhs))
           else obind (constEvalInternal ev env allow r) (\<lambda>rhs.
                  if \<not> cr_isConst lhs \<or> \<not> cr_isConst rhs then Done makeNonConst else evalBinaryOp env op lhs rhs)))"
| "constEvalInternal ev env allow (AST_TERNARY_EXPRESSION c a b) =
    obind (constEvalInternal ev env allow c) (\<lambda>cond.
      if \<not> cr_isConst cond then Done makeNonConst
      else obind (if cr_value cond \<noteq> 0 then constEvalInternal ev env allow a else constEvalInternal ev env allow b) (\<lambda>branch.
        Done (if \<not> cr_isConst branch then branch else finalizeWithExprType env branch)))"
| "constEvalInternal ev env allow (AST_COMMA_EXPRESSION es) = const_eval_comma ev env allow es"
| "constEvalInternal ev env allow (AST_SIZEOF e) = obind (evalSizeof env e) (\<lambda>r. Done (sized_result env r))"
| "constEvalInternal ev env allow (AST_ALIGNOF e) = Done (sized_result env (evalAlignof env e))"
| "constEvalInternal ev env allow (AST_FUNCTION_CALL callee args) = Done (eval_call env callee args)"
| "constEvalInternal ev env allow _ = Done makeNonConst"
| "const_eval_comma ev env allow [] = Done makeNonConst"
| "const_eval_comma ev env allow [e] =
    obind (constEvalInternal ev env allow e) (\<lambda>r. Done (if cr_isConst r then finalizeWithExprType env r else makeNonConst))"
| "const_eval_comma ev env allow (e # es) =
    obind (constEvalInternal ev env allow e) (\<lambda>r. if cr_isConst r then const_eval_comma ev env allow es else Done makeNonConst)"

section \<open>Operands of integer constant expressions\<close>

definition sizeofOperandHasVariablyModifiedType :: "ConstEnv \<Rightarrow> expr \<Rightarrow> bool" where
  "sizeofOperandHasVariablyModifiedType env operand =
    (let info = ce_analyze env operand in
     if operand = E_NULL \<or> ce_scope env = [] then False
     else case operand of
       AST_PARSED_TYPE t \<Rightarrow> parsedTypeHasVLA t
     | AST_COMPOUND_LITERAL t \<Rightarrow> parsedTypeHasVLA t
     | AST_IDENTIFIER (Some name) \<Rightarrow> (case resolve env (Some name) of Some s \<Rightarrow> parsedTypeHasVLA (sym_type s) | None \<Rightarrow> False)
     | _ \<Rightarrow> isVLA info \<or> (case originalType info of Some t \<Rightarrow> parsedTypeHasVLA t | None \<Rightarrow> False))"

definition is_literal :: "int option evaluation \<Rightarrow> bool evaluation" where
  "is_literal r = obind r (\<lambda>x. Done (x \<noteq> None))"

fun hasIntegerConstantExpressionOperands :: "(expr \<Rightarrow> int option evaluation) \<Rightarrow> ConstEnv \<Rightarrow> bool \<Rightarrow> expr \<Rightarrow> bool evaluation"
  and ice_operands :: "(expr \<Rightarrow> int option evaluation) \<Rightarrow> ConstEnv \<Rightarrow> expr list \<Rightarrow> bool evaluation" where
  "hasIntegerConstantExpressionOperands ev env evaluated (AST_NUMBER_LITERAL v) =
    obind (parseIntegerLiteral env v) (\<lambda>lit. Done (lit \<noteq> None))"
| "hasIntegerConstantExpressionOperands ev env evaluated (AST_CHAR_LITERAL v) = Done True"
| "hasIntegerConstantExpressionOperands ev env evaluated (AST_IDENTIFIER name) =
    Done (identifierIsIntegerConstantOperand env name)"
| "hasIntegerConstantExpressionOperands ev env evaluated (AST_CAST_EXPRESSION t e) =
    obind (scope_typeInfo env t) (\<lambda>target.
      if \<not> typeInfoIsInteger target then Done False
      else obind (case e of AST_NUMBER_LITERAL v \<Rightarrow> is_literal (parseFloatingLiteralValue env v) | _ \<Rightarrow> Done False) (\<lambda>floating.
        if floating then Done True else hasIntegerConstantExpressionOperands ev env evaluated e))"
| "hasIntegerConstantExpressionOperands ev env evaluated (AST_UNARY_EXPRESSION opr e) =
    (if opr \<in> {Some ''+'', Some ''-'', Some ''!'', Some ''~''} then hasIntegerConstantExpressionOperands ev env evaluated e
     else Done False)"
| "hasIntegerConstantExpressionOperands ev env evaluated (AST_BINARY_EXPRESSION opr l r) =
    obind (hasIntegerConstantExpressionOperands ev env evaluated l) (\<lambda>ok.
      if \<not> ok then Done False
      else if opr \<noteq> Some ''&&'' \<and> opr \<noteq> Some ''||'' then hasIntegerConstantExpressionOperands ev env evaluated r
      else obind (constEvalInternal ev env True l) (\<lambda>lhs.
        if \<not> cr_isConst lhs then Done False
        else hasIntegerConstantExpressionOperands ev env
          (evaluated \<and> \<not> (opr = Some ''&&'' \<and> cr_value lhs = 0) \<and> \<not> (opr = Some ''||'' \<and> cr_value lhs \<noteq> 0)) r))"
| "hasIntegerConstantExpressionOperands ev env evaluated (AST_TERNARY_EXPRESSION c a b) =
    obind (hasIntegerConstantExpressionOperands ev env evaluated c) (\<lambda>ok.
      if \<not> ok then Done False
      else obind (constEvalInternal ev env True c) (\<lambda>cond.
        if \<not> cr_isConst cond then Done False
        else obind (hasIntegerConstantExpressionOperands ev env (evaluated \<and> cr_value cond \<noteq> 0) a) (\<lambda>ok1.
          if \<not> ok1 then Done False
          else hasIntegerConstantExpressionOperands ev env (evaluated \<and> cr_value cond = 0) b)))"
| "hasIntegerConstantExpressionOperands ev env evaluated (AST_SIZEOF e) = Done (\<not> sizeofOperandHasVariablyModifiedType env e)"
| "hasIntegerConstantExpressionOperands ev env evaluated (AST_ALIGNOF e) = Done True"
| "hasIntegerConstantExpressionOperands ev env evaluated (AST_FUNCTION_CALL callee args) =
    Done (case callee of AST_IDENTIFIER name \<Rightarrow> is_offsetof name | _ \<Rightarrow> False)"
| "hasIntegerConstantExpressionOperands ev env evaluated (AST_COMMA_EXPRESSION es) =
    (if evaluated \<or> es = [] then Done False else ice_operands ev env es)"
| "hasIntegerConstantExpressionOperands ev env evaluated _ = Done False"
| "ice_operands ev env [] = Done True"
| "ice_operands ev env (e # es) =
    obind (hasIntegerConstantExpressionOperands ev env False e) (\<lambda>ok. if \<not> ok then Done False else ice_operands ev env es)"

section \<open>Entry points\<close>

definition integer_result :: "(expr \<Rightarrow> int option evaluation) \<Rightarrow> ConstEnv \<Rightarrow> bool \<Rightarrow> expr \<Rightarrow> ConstEvalResult evaluation" where
  "integer_result ev env allow e =
    obind (hasIntegerConstantExpressionOperands ev env True e) (\<lambda>ok.
      if \<not> ok then Done makeNonConst else constEvalInternal ev env allow e)"

fun constEvalInteger :: "nat \<Rightarrow> ConstEnv \<Rightarrow> bool \<Rightarrow> expr \<Rightarrow> int option evaluation" where
  "constEvalInteger 0 env allow e = Fail ()"
| "constEvalInteger (Suc fuel) env allow e =
    obind (integer_result (constEvalInteger fuel env True) env allow e) (\<lambda>r.
      Done (if cr_isConst r then Some (cr_value r) else None))"

definition constEval :: "nat \<Rightarrow> ConstEnv \<Rightarrow> bool \<Rightarrow> expr \<Rightarrow> ConstEvalResult evaluation" where
  "constEval fuel env allow e = constEvalInternal (constEvalInteger fuel env True) env allow e"

definition constEvalIntegerResult :: "nat \<Rightarrow> ConstEnv \<Rightarrow> bool \<Rightarrow> expr \<Rightarrow> ConstEvalResult evaluation" where
  "constEvalIntegerResult fuel env allow e = integer_result (constEvalInteger fuel env True) env allow e"

end
