(* ===== verification/Const_Eval_Props.thy ===== *)
theory Const_Eval_Props
  imports Const_Eval
begin

text \<open>
  Constant evaluation against C: the types and values that C gives to integer constant expressions, on
  mathematical integers; the evaluator gives the same type and value on the expressions of \<open>faithful\<close>, and on
  examples of the others it does not.
\<close>

section \<open>Truncation\<close>

lemma low_mask: "(push_bit w 1 - 1 :: u64) = mask w"
  by (simp add: mask_eq_exp_minus_1)

lemma and_single_bit: "(x :: u64) AND push_bit n 1 \<noteq> 0 \<longleftrightarrow> bit x n"
proof -
  have "x AND push_bit n 1 = (if bit x n then push_bit n 1 else 0)"
    by (rule bit_word_eqI) (auto simp: bit_simps)
  moreover have "bit x n \<Longrightarrow> (push_bit n 1 :: u64) \<noteq> 0"
    by (auto dest: bit_imp_possible_bit simp: possible_bit_word)
  ultimately show ?thesis by auto
qed

lemma truncate_unsigned:
  assumes "0 < w" "w < 64"
  shows "truncateToWidth v w True = take_bit w v"
proof -
  have "truncateToWidth v w True = sint (take_bit w (word_of_int v :: u64))"
    using assms unfolding truncateToWidth_def low_mask Let_def by (simp add: take_bit_eq_mask)
  also have "\<dots> = take_bit w v"
    by (rule bit_eqI) (use assms in \<open>auto simp: bit_simps\<close>)
  finally show ?thesis .
qed

lemma truncate_signed:
  assumes "0 < w" "w < 64"
  shows "truncateToWidth v w False = signed_take_bit (w - 1) v"
proof -
  let ?x = "word_of_int v :: u64"
  have s: "bit (?x AND mask w) (w - 1) \<longleftrightarrow> bit v (w - 1)"
    using assms by (auto simp: bit_simps)
  have "truncateToWidth v w False = sint (if bit v (w - 1) then (?x AND mask w) OR NOT (mask w) else ?x AND mask w)"
    using assms unfolding truncateToWidth_def Let_def low_mask and_single_bit s by simp
  also have "\<dots> = signed_take_bit (w - 1) v"
  proof (rule bit_eqI)
    fix n
    consider "n < w - 1" | "n = w - 1" | "n \<ge> w" using assms by linarith
    then show "bit (sint (if bit v (w - 1) then (?x AND mask w) OR NOT (mask w) else ?x AND mask w)) n =
        bit (signed_take_bit (w - 1) v) n"
      using assms by cases (auto simp: bit_simps min_def)
  qed
  finally show ?thesis .
qed

section \<open>The types and values of C\<close>

text \<open>An integer type: its width, and whether it is unsigned. The types considered have the machine widths up to 64.\<close>

type_synonym c_int_type = "nat \<times> bool"

definition c_int :: c_int_type where "c_int = (32, False)"

definition c_type_ok :: "c_int_type \<Rightarrow> bool" where
  "c_type_ok T \<longleftrightarrow> fst T \<in> {8, 16, 32, 64}"

definition c_in :: "c_int_type \<Rightarrow> int \<Rightarrow> bool" where
  "c_in T v \<longleftrightarrow> (if snd T then 0 \<le> v \<and> v < 2 ^ fst T else - (2 ^ (fst T - 1)) \<le> v \<and> v < 2 ^ (fst T - 1))"

text \<open>Conversion of a value to a type (C 6.3.1.3), the integer promotions and the common type (C 6.3.1.8).\<close>

definition c_conv :: "c_int_type \<Rightarrow> int \<Rightarrow> int" where
  "c_conv T v = (if snd T then v mod 2 ^ fst T else (v + 2 ^ (fst T - 1)) mod 2 ^ fst T - 2 ^ (fst T - 1))"

definition c_promote :: "c_int_type \<Rightarrow> c_int_type" where
  "c_promote T = (if fst T < 32 then c_int else T)"

definition c_common :: "c_int_type \<Rightarrow> c_int_type \<Rightarrow> c_int_type" where
  "c_common S T =
    (let (w, u) = c_promote S; (w', u') = c_promote T in
     if u = u' then (max w w', u)
     else if u then (if w \<ge> w' then (w, True) else (w', False))
     else (if w' \<ge> w then (w', True) else (w, False)))"

text \<open>What an operation with the exact result \<open>v\<close> gives in type \<open>T\<close>: unsigned types wrap, signed ones must hold it.\<close>

definition c_result :: "c_int_type \<Rightarrow> int \<Rightarrow> int option" where
  "c_result T v = (if snd T then Some (v mod 2 ^ fst T) else if c_in T v then Some v else None)"

text \<open>The evaluator holds a value as \<open>long long\<close>, the values of \<open>unsigned long long\<close> from $2^{63}$ on wrapped.\<close>

definition held :: "int \<Rightarrow> int" where
  "held v = sint (word_of_int v :: u64)"

lemma c_conv_bits:
  assumes "0 < fst T"
  shows "c_conv T v = (if snd T then take_bit (fst T) v else signed_take_bit (fst T - 1) v)"
  using assms by (cases "fst T") (auto simp: c_conv_def take_bit_eq_mod signed_take_bit_eq_take_bit_shift)

lemma held_bits: "held v = signed_take_bit 63 v"
  by (simp add: held_def sint_sbintrunc')

lemma word_of_held [simp]: "to_u64 (held v) = word_of_int v"
  by (simp add: held_def)

lemma truncate_held:
  assumes "c_type_ok T"
  shows "truncateToWidth (held v) (fst T) (snd T) = held (c_conv T v)"
proof (cases "fst T = 64")
  case True
  have "word_of_int (c_conv T v) = (word_of_int v :: u64)"
    using True by (intro bit_word_eqI) (auto simp: c_conv_bits bit_simps)
  then show ?thesis using True by (simp add: truncateToWidth_def held_def)
next
  case False
  then have w: "0 < fst T" "fst T < 64" using assms by (auto simp: c_type_ok_def)
  have "truncateToWidth (held v) (fst T) (snd T) = c_conv T v"
    using w by (cases "snd T")
      (auto simp: truncate_unsigned truncate_signed c_conv_bits held_bits intro!: bit_eqI, auto simp: bit_simps min_def)
  moreover have "held (c_conv T v) = c_conv T v"
    using w by (auto simp: c_conv_bits held_bits intro!: bit_eqI, auto simp: bit_simps min_def split: if_splits)
  ultimately show ?thesis by simp
qed

lemma c_conv_in: "c_type_ok T \<Longrightarrow> c_in T (c_conv T v)"
  by (auto simp: c_type_ok_def c_in_def c_conv_def)

lemma c_conv_id: "c_type_ok T \<Longrightarrow> c_in T v \<Longrightarrow> c_conv T v = v"
  by (auto simp: c_type_ok_def c_in_def c_conv_def)

lemma c_result_conv: "c_type_ok T \<Longrightarrow> c_result T v = Some r \<Longrightarrow> r = c_conv T v \<and> c_in T r"
  by (auto simp: c_result_def c_conv_id c_conv_in split: if_splits) (auto simp: c_conv_def c_in_def)

lemma c_result_in: "c_in T v \<Longrightarrow> c_result T v = Some v"
  by (simp add: c_result_def c_in_def split: if_splits)

lemma held_signed: "c_type_ok (w, False) \<Longrightarrow> c_in (w, False) v \<Longrightarrow> held v = v"
  by (auto simp: c_type_ok_def c_in_def held_bits signed_take_bit_int_eq_self_iff)

lemma held_fits: "fits_int64 v \<Longrightarrow> held v = v"
  by (simp add: fits_int64_def held_bits signed_take_bit_int_eq_self)

lemma word_unsigned: "c_type_ok (w, True) \<Longrightarrow> c_in (w, True) v \<Longrightarrow> uint (word_of_int v :: u64) = v"
  by (auto simp: c_type_ok_def c_in_def uint_word_of_int)

lemma held_zero:
  assumes "c_type_ok T" "c_in T v"
  shows "held v = 0 \<longleftrightarrow> v = 0"
proof (cases T)
  case (Pair w u)
  have "held v = 0 \<longleftrightarrow> (word_of_int v :: u64) = 0" by (metis word_of_held word_of_int_0 held_def sint_0)
  then show ?thesis
    using assms Pair held_signed [of w v] word_unsigned [of w v] by (cases u) auto
qed

section \<open>Constant expressions of C\<close>

definition c_comparisons :: "string list" where
  "c_comparisons = [''<'', ''>'', ''<='', ''>='', ''=='', ''!='']"

definition c_shifts :: "string list" where
  "c_shifts = [''<<'', ''>>'']"

definition c_compare :: "string \<Rightarrow> int \<Rightarrow> int \<Rightarrow> bool" where
  "c_compare op a b =
    (if op = ''<'' then a < b else if op = ''>'' then b < a else if op = ''<='' then \<not> b < a
     else if op = ''>='' then \<not> a < b else if op = ''=='' then a = b else a \<noteq> b)"

fun c_type :: "ConstEnv \<Rightarrow> expr \<Rightarrow> c_int_type option" where
  "c_type env (AST_NUMBER_LITERAL v) =
    (case parse_integer_literal_info (ce_host env) v (Some (currentLayout env)) of
       Done info \<Rightarrow> Some (il_bits info, il_isUnsigned info) | _ \<Rightarrow> None)"
| "c_type env (AST_CAST_EXPRESSION t e) =
    (case scope_typeInfo env t of
       Done info \<Rightarrow> if category info = TYPEINFO_INTEGER then Some (bitWidth info, \<not> isSigned info) else None
     | _ \<Rightarrow> None)"
| "c_type env (AST_UNARY_EXPRESSION opr e) =
    (if opr = Some ''!'' then Some c_int else map_option c_promote (c_type env e))"
| "c_type env (AST_BINARY_EXPRESSION opr l r) =
    (case opr of
       None \<Rightarrow> None
     | Some op \<Rightarrow>
         if op \<in> set c_comparisons \<or> op = ''&&'' \<or> op = ''||'' then Some c_int
         else if op \<in> set c_shifts then map_option c_promote (c_type env l)
         else (case (c_type env l, c_type env r) of (Some S, Some T) \<Rightarrow> Some (c_common S T) | _ \<Rightarrow> None))"
| "c_type env (AST_TERNARY_EXPRESSION c a b) =
    (case (c_type env a, c_type env b) of (Some S, Some T) \<Rightarrow> Some (c_common S T) | _ \<Rightarrow> None)"
| "c_type env _ = None"

text \<open>The operators on values, and the value of an expression; \<open>None\<close> where C gives none.\<close>

definition c_of_bool :: "bool \<Rightarrow> int" where
  "c_of_bool b = (if b then 1 else 0)"

definition c_arith :: "string \<Rightarrow> c_int_type \<Rightarrow> int \<Rightarrow> int \<Rightarrow> int option" where
  "c_arith op T a b =
    (if op = ''+'' then c_result T (a + b)
     else if op = ''-'' then c_result T (a - b)
     else if op = ''*'' then c_result T (a * b)
     else if op = ''/'' then if b = 0 then None else c_result T (a sdiv b)
     else if op = ''%'' then if b = 0 \<or> c_result T (a sdiv b) = None then None else c_result T (a smod b)
     else if op = ''|'' then c_result T (a OR b)
     else if op = ''&'' then c_result T (a AND b)
     else if op = ''^'' then c_result T (a XOR b)
     else None)"

definition c_shift :: "string \<Rightarrow> c_int_type \<Rightarrow> int \<Rightarrow> int \<Rightarrow> int option" where
  "c_shift op T a n =
    (if n < 0 \<or> n \<ge> int (fst T) then None
     else if op = ''<<'' then if \<not> snd T \<and> a < 0 then None else c_result T (a * 2 ^ nat n)
     else Some (a div 2 ^ nat n))"

definition c_binary :: "string \<Rightarrow> c_int_type \<Rightarrow> c_int_type \<Rightarrow> int \<Rightarrow> int \<Rightarrow> int option" where
  "c_binary op S T a b =
    (if op \<in> set c_shifts then c_shift op (c_promote S) a b
     else let C = c_common S T; a' = c_conv C a; b' = c_conv C b in
       if op \<in> set c_comparisons then Some (c_of_bool (c_compare op a' b')) else c_arith op C a' b')"

definition c_unary :: "string \<Rightarrow> c_int_type \<Rightarrow> int \<Rightarrow> int option" where
  "c_unary op T v =
    (if op = ''!'' then Some (c_of_bool (v = 0))
     else if op = ''-'' then c_result T (- v)
     else if op = ''+'' then Some v
     else if op = ''~'' then c_result T (NOT v)
     else None)"

fun c_eval :: "ConstEnv \<Rightarrow> expr \<Rightarrow> int option" where
  "c_eval env (AST_NUMBER_LITERAL v) =
    (case parse_integer_literal_info (ce_host env) v (Some (currentLayout env)) of
       Done info \<Rightarrow>
         let T = (il_bits info, il_isUnsigned info); n = uint (il_value info)
         in if c_type_ok T \<and> c_in T n then Some n else None
     | _ \<Rightarrow> None)"
| "c_eval env (AST_CAST_EXPRESSION t e) =
    (case (c_eval env e, c_type env (AST_CAST_EXPRESSION t e)) of
       (Some v, Some T) \<Rightarrow> if c_type_ok T then Some (c_conv T v) else None
     | _ \<Rightarrow> None)"
| "c_eval env (AST_UNARY_EXPRESSION opr e) =
    (case (opr, c_eval env e, c_type env e) of
       (Some op, Some v, Some T) \<Rightarrow> c_unary op (c_promote T) v
     | _ \<Rightarrow> None)"
| "c_eval env (AST_BINARY_EXPRESSION opr l r) =
    (case (opr, c_eval env l) of
       (Some op, Some a) \<Rightarrow>
         if op = ''||'' \<or> op = ''&&''
         then if (a \<noteq> 0) = (op = ''||'') then Some (c_of_bool (a \<noteq> 0))
              else map_option (\<lambda>b. c_of_bool (b \<noteq> 0)) (c_eval env r)
         else (case (c_eval env r, c_type env l, c_type env r) of
                 (Some b, Some S, Some T) \<Rightarrow> c_binary op S T a b
               | _ \<Rightarrow> None)
     | _ \<Rightarrow> None)"
| "c_eval env (AST_TERNARY_EXPRESSION c a b) =
    (case (c_eval env c, c_type env (AST_TERNARY_EXPRESSION c a b)) of
       (Some x, Some T) \<Rightarrow> map_option (c_conv T) (if x \<noteq> 0 then c_eval env a else c_eval env b)
     | _ \<Rightarrow> None)"
| "c_eval env _ = None"

text \<open>
  The expressions on which the evaluator follows C. It does not promote the operand of an unary operator nor the
  left operand of a shift, gives a conditional expression the type of the chosen operand, gives a logical operator
  decided by its left operand the type \<open>long long\<close> (\<open>typed\<close>: the type of the value matters), and negates
  $2^{63}$ in \<open>long long\<close>.
\<close>

definition wide :: "ConstEnv \<Rightarrow> expr \<Rightarrow> bool" where
  "wide env e \<longleftrightarrow> (case c_type env e of Some T \<Rightarrow> 32 \<le> fst T | None \<Rightarrow> False)"

fun faithful :: "ConstEnv \<Rightarrow> bool \<Rightarrow> expr \<Rightarrow> bool" where
  "faithful env typed (AST_NUMBER_LITERAL v) = True"
| "faithful env typed (AST_CAST_EXPRESSION t e) = faithful env False e"
| "faithful env typed (AST_UNARY_EXPRESSION opr e) =
    (if opr = Some ''!'' then faithful env False e
     else faithful env True e \<and> wide env e \<and> (opr = Some ''-'' \<longrightarrow> c_eval env e \<noteq> Some (2 ^ 63)))"
| "faithful env typed (AST_BINARY_EXPRESSION opr l r) =
    (if opr = Some ''||'' \<or> opr = Some ''&&''
     then faithful env False l \<and>
       (if \<exists>a. c_eval env l = Some a \<and> (a \<noteq> 0) = (opr = Some ''||'') then \<not> typed else faithful env False r)
     else if opr = Some ''<<'' \<or> opr = Some ''>>''
     then faithful env True l \<and> wide env l \<and> faithful env False r
     else faithful env True l \<and> faithful env True r)"
| "faithful env typed (AST_TERNARY_EXPRESSION c a b) =
    (faithful env False c \<and>
     (let chosen = (if c_eval env c = Some 0 then b else a)
      in c_type env (AST_TERNARY_EXPRESSION c a b) = c_type env chosen \<and> faithful env True chosen))"
| "faithful env typed _ = False"

section \<open>Each operator of the evaluator gives the value and type of C\<close>

text \<open>The evaluator groups its operators as C does and compares as C does.\<close>

lemma operator_groups: "set c_comparisons = set compare_ops" "set c_shifts = set shift_ops"
  by (auto simp: c_comparisons_def compare_ops_def c_shifts_def shift_ops_def)

lemma compare_as_c: "op \<in> set compare_ops \<Longrightarrow> compare_operands op a b = c_compare op a b" for a b :: int
  by (auto simp: compare_ops_def compare_operands_def c_compare_def)

definition agrees :: "bool \<Rightarrow> c_int_type \<Rightarrow> int \<Rightarrow> ConstEvalResult \<Rightarrow> bool" where
  "agrees typed T v r \<longleftrightarrow> cr_isConst r \<and> cr_value r = held v \<and> c_type_ok T \<and> c_in T v \<and>
    (typed \<longrightarrow> cr_bitWidth r = fst T \<and> cr_isUnsigned r = snd T)"

lemma agreesD:
  assumes "agrees typed T v r"
  shows "cr_isConst r" "cr_value r = held v" "c_type_ok T" "c_in T v" "cr_value r = 0 \<longleftrightarrow> v = 0"
    "typed \<Longrightarrow> cr_bitWidth r = fst T" "typed \<Longrightarrow> cr_isUnsigned r = snd T"
  using assms held_zero [of T v] unfolding agrees_def by simp_all

lemma agrees_typed: "c_type_ok T \<Longrightarrow> agrees typed T (c_conv T x) (makeConstTyped (held x) (fst T) (snd T))"
  by (simp add: agrees_def makeConstTyped_def truncate_held c_conv_in)

lemma finalize_typed:
  "c_type_ok T \<Longrightarrow>
    finalizeWithExprType env (makeConstTyped (held x) (fst T) (snd T)) = makeConstTyped (held x) (fst T) (snd T)"
  by (auto simp: finalizeWithExprType_def makeConstTyped_def Let_def truncate_held c_conv_id c_conv_in)
    (auto simp: c_type_ok_def)

lemma agrees_result:
  assumes "c_type_ok T" "c_result T x = Some v" "fst T = w" "snd T = u"
  shows "agrees typed T v (finalizeWithExprType env (makeConstTyped (held x) w u))"
  using agrees_typed [OF assms(1), of typed x] finalize_typed [OF assms(1), of env x] c_result_conv [OF assms(1,2)] assms(3,4)
  by auto

lemma agrees_bool: "scope_intBits env = 32 \<Longrightarrow>
    agrees typed c_int (c_of_bool b) (finalizeWithExprType env (makeConstTyped (if b then 1 else 0) (scope_intBits env) False))"
  using agrees_result [of c_int "c_of_bool b" "c_of_bool b" 32 False typed env]
  by (auto simp: c_int_def c_type_ok_def c_result_def c_in_def c_of_bool_def held_bits)

lemma c_common_ok: "c_type_ok S \<Longrightarrow> c_type_ok T \<Longrightarrow> c_type_ok (c_common S T)"
  by (cases S; cases T) (auto simp: c_type_ok_def c_common_def c_promote_def c_int_def)

lemma c_promote_ok: "c_type_ok T \<Longrightarrow> c_type_ok (c_promote T)"
  by (auto simp: c_type_ok_def c_promote_def c_int_def)

lemma common_type:
  assumes "agrees True S a l" "agrees True T b r" "scope_intBits env = 32"
  shows "commonIntegerType env l r = c_common S T"
proof -
  obtain w u w' u' where p: "S = (w, u)" "T = (w', u')" by (cases S, cases T) auto
  have t: "cr_bitWidth l = w" "cr_isUnsigned l = u" "cr_bitWidth r = w'" "cr_isUnsigned r = u'"
    and ok: "w \<in> {8, 16, 32, 64}" "w' \<in> {8, 16, 32, 64}"
    using assms by (auto simp: agrees_def p c_type_ok_def)
  show ?thesis
    using ok unfolding commonIntegerType_def Let_def p c_common_def t
    by (elim insertE emptyE; cases u; cases u')
      (simp_all add: usualArithmeticConversion_def makeIntegerType_def makeBaseInvalid_def typeInfoIsArithmetic_def
        typeInfoIsInteger_def typeInfoIsFloating_def integerPromote_def defaultIntBits_def pickIntegerResult_def
        integerRank_def c_promote_def c_int_def)
qed

lemma conv_zero:
  assumes "c_type_ok S" "c_type_ok T" "c_in T b"
  shows "c_conv (c_common S T) b = 0 \<longleftrightarrow> b = 0"
proof -
  let ?C = "c_common S T"
  have ok: "c_type_ok ?C" using assms c_common_ok by blast
  have w: "fst T \<le> fst ?C" by (cases S; cases T) (auto simp: c_common_def c_promote_def c_int_def)
  have "\<bar>b\<bar> < 2 ^ fst T" using assms by (auto simp: c_in_def c_type_ok_def split: if_splits)
  also have "\<dots> \<le> 2 ^ fst ?C" using w by simp
  finally have b: "\<bar>b\<bar> < 2 ^ fst ?C" .
  have "c_conv ?C b mod 2 ^ fst ?C = b mod 2 ^ fst ?C"
    by (simp add: c_conv_def mod_diff_left_eq)
  then have "c_conv ?C b = 0 \<Longrightarrow> b = 0"
    using b dvd_imp_le_int [of b "2 ^ fst ?C"] by (cases "b = 0") (auto simp: mod_eq_0_iff_dvd)
  then show ?thesis using ok by (auto simp: c_conv_id c_in_def)
qed

lemma held_bitwise:
  "sint (word_of_int a OR word_of_int b :: u64) = held (a OR b)"
  "sint (word_of_int a AND word_of_int b :: u64) = held (a AND b)"
  "sint (word_of_int a XOR word_of_int b :: u64) = held (a XOR b)"
  unfolding held_def by (rule arg_cong [of _ _ sint], rule bit_word_eqI, auto simp: bit_simps)+

lemma held_ring:
  "sint (word_of_int a + word_of_int b :: u64) = held (a + b)"
  "sint (word_of_int a - word_of_int b :: u64) = held (a - b)"
  "sint (word_of_int a * word_of_int b :: u64) = held (a * b)"
  by (simp_all add: held_def)

lemma unsigned_bounds:
  assumes "c_type_ok T" "snd T" "c_in T v"
  shows "0 \<le> v" "v < 2 ^ 64" "uint (word_of_int v :: u64) = v"
  using assms word_unsigned [of "fst T" v] by (cases T; auto simp: c_type_ok_def c_in_def)+

lemma unsigned_compare:
  assumes "c_type_ok T" "snd T" "c_in T a" "c_in T b"
  shows "compare_operands op (word_of_int a :: u64) (word_of_int b) = compare_operands op a b"
  using unsigned_bounds [OF assms(1-3)] unsigned_bounds [OF assms(1,2,4)]
  by (simp add: compare_operands_def word_less_def word_le_def word_uint_eq_iff)

lemma unsigned_divide:
  assumes "c_type_ok T" "snd T" "c_in T a" "c_in T b"
  shows "sint (word_of_int a div word_of_int b :: u64) = held (a sdiv b)"
    "sint (word_of_int a mod word_of_int b :: u64) = held (a smod b)"
proof -
  note ab = unsigned_bounds [OF assms(1-3)] unsigned_bounds [OF assms(1,2,4)]
  have "word_of_int a div word_of_int b = (word_of_int (a div b) :: u64)"
    "word_of_int a mod word_of_int b = (word_of_int (a mod b) :: u64)"
    using ab by (simp_all add: word_div_def word_mod_def)
  moreover have "a sdiv b = a div b" "a smod b = a mod b"
    using ab by (simp_all add: signed_divide_int_def signed_modulo_int_def sgn_if mult_div_mod_eq [symmetric] del: mult_div_mod_eq)
  ultimately show "sint (word_of_int a div word_of_int b :: u64) = held (a sdiv b)"
    "sint (word_of_int a mod word_of_int b :: u64) = held (a smod b)"
    by (simp_all add: held_def)
qed

lemma bitwise_op:
  assumes "c_type_ok T" "op \<in> set bitwise_ops" "c_arith op T a b = Some v"
  shows "\<exists>x. sint (if op = ''|'' then to_u64 a OR to_u64 b else if op = ''&'' then to_u64 a AND to_u64 b else to_u64 a XOR to_u64 b)
    = held x \<and> c_result T x = Some v"
  using assms by (auto simp: bitwise_ops_def c_arith_def held_bitwise)

lemma unsigned_op:
  assumes "c_type_ok T" "snd T" "op \<in> set arith_ops" "c_in T a" "c_in T b" "c_arith op T a b = Some v"
  shows "\<exists>x. sint (unsigned_arith op (word_of_int a) (word_of_int b)) = held x \<and> c_result T x = Some v"
proof -
  have "b \<noteq> 0 \<Longrightarrow> (word_of_int b :: u64) \<noteq> 0"
    using unsigned_bounds(3) [OF assms(1,2,5)] by auto
  then show ?thesis
    using assms(3,6) unsigned_divide [OF assms(1,2,4,5)]
    by (auto simp: arith_ops_def c_arith_def unsigned_arith_def held_ring split: if_splits)
qed

lemma signed_op:
  assumes "c_type_ok T" "\<not> snd T" "op \<in> set arith_ops" "c_arith op T a b = Some v"
  shows "signed_arith op a b = Done v" "c_in T v"
proof -
  have fits: "c_in T x \<Longrightarrow> fits_int64 x" for x
    using assms(1,2) by (auto simp: c_type_ok_def c_in_def fits_int64_def)
  show "signed_arith op a b = Done v" "c_in T v"
    using assms(2-4) fits
    by (auto simp: arith_ops_def c_arith_def signed_arith_def c_result_def Let_def split: if_splits)
qed

lemma quotient_in:
  assumes "c_in T a"
  shows "c_in T (a div 2 ^ k)"
proof -
  have "a \<ge> 0 \<Longrightarrow> 0 \<le> a div 2 ^ k \<and> a div 2 ^ k \<le> a" 
    using zdiv_mono2 [of a 1 "2 ^ k"] by (simp add: pos_imp_zdiv_nonneg_iff)
  moreover have "a < 0 \<Longrightarrow> a \<le> a div 2 ^ k \<and> a div 2 ^ k < 0"
    using zdiv_mono2_neg [of a 1 "2 ^ k"] div_neg_pos_less0 [of a "2 ^ k"] by simp
  ultimately show ?thesis using assms by (cases "a < 0") (auto simp: c_in_def split: if_splits)
qed

lemma shift_op:
  assumes l: "agrees True S a l" and r: "agrees False T n r" and op: "op \<in> set shift_ops"
    and v: "c_shift op S a n = Some v"
  shows "\<exists>res. evalBinaryOp env op l r = Done res \<and> agrees typed S v res"
proof -
  obtain w u where S: "S = (w, u)" by (cases S)
  have ok: "c_type_ok (w, u)" "c_in (w, u) a" "cr_value l = held a" "cr_bitWidth l = w" "cr_isUnsigned l = u"
    and w0: "w \<noteq> 0" "w \<le> 64" using l by (auto simp: agrees_def S c_type_ok_def)
  have n: "0 \<le> n" "n < int w" using v by (auto simp: c_shift_def S split: if_splits)
  then have hn: "cr_value r = n"
    using agreesD(2) [OF r] w0 by (simp add: held_bits signed_take_bit_int_eq_self_iff)
  have tr: "truncateToWidth (held a) w u = held a"
    using truncate_held [OF ok(1), of a] c_conv_id [OF ok(1,2)] by simp
  let ?k = "nat n"
  let ?x = "if op = ''<<'' then push_bit ?k (word_of_int a) else if u then drop_bit ?k (word_of_int a)
    else to_u64 (drop_bit ?k (held a)) :: u64"
  have eq: "evalBinaryOp env op l r = Done (finalizeWithExprType env (makeConstTyped (sint ?x) w u))"
  proof -
    have nops: "op \<notin> set bitwise_ops" "op \<notin> set compare_ops"
      using op by (auto simp: shift_ops_def bitwise_ops_def compare_ops_def)
    have guard: "\<not> (n < 0 \<or> n \<ge> int w)" "\<not> n \<ge> 64" using n w0 by auto
    show ?thesis
      unfolding evalBinaryOp_def case_prod_unfold Let_def hn ok if_not_P [OF nops(1)] if_not_P [OF nops(2)] if_P [OF op]
        if_not_P [OF w0(1)] if_not_P [OF guard(1)] if_not_P [OF guard(2)] tr word_of_held
      using tr by (cases u) (simp_all only: if_True if_False)
  qed
  have "\<exists>y. sint ?x = held y \<and> c_result (w, u) y = Some v"
  proof (cases "op = ''<<''")
    case True
    have "sint (push_bit ?k (word_of_int a) :: u64) = held (a * 2 ^ ?k)" by (simp add: held_def push_bit_eq_mult)
    then show ?thesis using True v by (auto simp: c_shift_def S split: if_splits)
  next
    case False
    have "?x = word_of_int (a div 2 ^ ?k)"
    proof (cases u)
      case True
      then have "take_bit 64 a = a" using unsigned_bounds [OF ok(1) _ ok(2)] by (simp add: take_bit_int_eq_self)
      then have "bit a m \<Longrightarrow> m < 64" for m by (metis bit_take_bit_iff)
      then have "drop_bit ?k (word_of_int a) = (word_of_int (drop_bit ?k a) :: u64)"
        by (intro bit_word_eqI) (auto simp: bit_simps)
      then show ?thesis using True False by (simp add: drop_bit_eq_div)
    next
      case u: False
      then show ?thesis using False held_signed ok(1,2) by (simp add: drop_bit_eq_div)
    qed
    moreover have "c_result (w, u) (a div 2 ^ ?k) = Some (a div 2 ^ ?k)"
      using quotient_in [OF ok(2), of ?k] by (cases u) (simp_all add: c_result_def c_in_def)
    ultimately show ?thesis using False v by (auto simp: held_def c_shift_def S split: if_splits)
  qed
  then show ?thesis using agrees_result [OF ok(1)] eq S by (metis fst_conv snd_conv)
qed

lemma common_op:
  assumes l: "agrees True S a l" and r: "agrees True T b r" and int: "scope_intBits env = 32"
    and op: "op \<in> set bitwise_ops \<union> set compare_ops \<union> set arith_ops" and v: "c_binary op S T a b = Some v"
  shows "\<exists>res. evalBinaryOp env op l r = Done res \<and>
    agrees typed (if op \<in> set compare_ops then c_int else c_common S T) v res"
proof -
  obtain w u where C: "c_common S T = (w, u)" by (cases "c_common S T")
  have ok: "c_type_ok (w, u)" using c_common_ok agreesD(3) [OF l] agreesD(3) [OF r] C by metis
  define a' b' where ab: "a' = c_conv (w, u) a" "b' = c_conv (w, u) b"
  have inn: "c_in (w, u) a'" "c_in (w, u) b'" using c_conv_in [OF ok] ab by auto
  have tr: "truncateToWidth (cr_value l) w u = held a'" "truncateToWidth (cr_value r) w u = held b'"
    using truncate_held [OF ok] agreesD(2) [OF l] agreesD(2) [OF r] ab by simp_all
  have nshift: "op \<notin> set shift_ops" using op by (auto simp: shift_ops_def bitwise_ops_def compare_ops_def arith_ops_def)
  have ct: "commonIntegerType env l r = (w, u)" using common_type [OF l r int] C by simp
  note eval = evalBinaryOp_def ct prod.case Let_def tr word_of_held
  have v': "(if op \<in> set compare_ops then Some (c_of_bool (compare_operands op a' b')) else c_arith op (w, u) a' b') = Some v"
    using v nshift by (simp add: c_binary_def operator_groups compare_as_c C ab Let_def split: if_splits)
  consider (bitwise) "op \<in> set bitwise_ops" | (compare) "op \<notin> set bitwise_ops" "op \<in> set compare_ops"
    | (arith) "op \<notin> set bitwise_ops" "op \<notin> set compare_ops" "op \<in> set arith_ops" using op by blast
  then show ?thesis
  proof cases
    case bitwise
    then have nc: "op \<notin> set compare_ops" by (auto simp: bitwise_ops_def compare_ops_def)
    from bitwise_op [OF ok bitwise] v' nc
    obtain x where x: "sint (if op = ''|'' then to_u64 a' OR to_u64 b' else if op = ''&'' then to_u64 a' AND to_u64 b'
        else to_u64 a' XOR to_u64 b') = held x" "c_result (w, u) x = Some v" by (metis (no_types, lifting))
    show ?thesis
      unfolding eval if_P [OF bitwise] x(1) if_not_P [OF nc] C using agrees_result [OF ok x(2)] by simp
  next
    case compare
    let ?b = "if u then compare_operands op (to_u64 (truncateToWidth (cr_value l) w True)) (to_u64 (truncateToWidth (cr_value r) w True))
      else compare_operands op (truncateToWidth (cr_value l) w False) (truncateToWidth (cr_value r) w False)"
    have "?b = compare_operands op a' b'"
      using tr inn ok unsigned_compare [of "(w, u)" a' b' op] held_signed [of w a'] held_signed [of w b'] by (cases u) auto
    then show ?thesis
      unfolding eval if_not_P [OF compare(1)] if_P [OF compare(2)] using v' compare(2) agrees_bool [OF int, of typed "compare_operands op a' b'"] by simp
  next
    case arith
    have v2: "c_arith op (w, u) a' b' = Some v" using v' arith(2) by simp
    have z: "cr_value r = 0 \<longleftrightarrow> b' = 0"
      using agreesD(5) [OF r] conv_zero [OF agreesD(3) [OF l] agreesD(3,4) [OF r]] C ab by simp
    have nz: "\<not> ((op = ''/'' \<or> op = ''%'') \<and> cr_value r = 0)"
      using v2 z by (auto simp: c_arith_def)
    note ev = eval if_not_P [OF arith(1)] if_not_P [OF arith(2)] if_not_P [OF nshift] if_P [OF arith(3)] if_not_P [OF nz] C
    show ?thesis
    proof (cases u)
      case True
      then obtain x where x: "sint (unsigned_arith op (word_of_int a') (word_of_int b')) = held x" "c_result (w, u) x = Some v"
        using unsigned_op [OF ok _ arith(3) inn v2] by auto
      have "evalBinaryOp env op l r = Done (finalizeWithExprType env (makeConstTyped (held x) w u))"
        unfolding ev if_P [OF True] using True tr x(1) by simp
      then show ?thesis using agrees_result [OF ok x(2)] arith(2) C by simp
    next
      case False
      have s: "signed_arith op a' b' = Done v" "c_in (w, u) v" using signed_op [OF ok _ arith(3) v2] False by auto
      have h: "held a' = a'" "held b' = b'" "held v = v" using held_signed inn ok s(2) False by auto
      have "evalBinaryOp env op l r = Done (finalizeWithExprType env (makeConstTyped (held v) w u))"
        unfolding ev if_not_P [OF False] using False tr s(1) h by simp
      moreover have "c_result (w, u) v = Some v" using s(2) False by (simp add: c_result_def)
      ultimately show ?thesis using agrees_result [OF ok] arith(2) C by simp
    qed
  qed
qed

lemma unary_op:
  assumes r: "agrees (op \<noteq> ''!'') T v r" and int: "scope_intBits env = 32" and "op \<noteq> ''!'' \<Longrightarrow> 32 \<le> fst T"
    and "op = ''-'' \<Longrightarrow> v \<noteq> 2 ^ 63" and x: "c_unary op (c_promote T) v = Some x"
  shows "\<exists>res. eval_unary env op r = Done res \<and> agrees typed (if op = ''!'' then c_int else T) x res"
proof (cases "op = ''!''")
  case True
  then show ?thesis
    using x agreesD(1,5) [OF r] agrees_bool [OF int, of typed "v = 0"] by (auto simp: eval_unary_def Let_def c_unary_def)
next
  case False
  obtain w u where T: "T = (w, u)" by (cases T)
  have ok: "c_type_ok (w, u)" "c_in (w, u) v" "cr_isConst r" "cr_value r = held v" "cr_bitWidth r = w" "cr_isUnsigned r = u"
    and w: "32 \<le> w" using r False assms(3) by (auto simp: agrees_def T)
  have wp: "c_promote T = (w, u)" using w by (simp add: c_promote_def T)
  have w0: "w \<noteq> 0" using w by simp
  note ev = eval_unary_def Let_def ok(3-6) if_not_P [OF w0] not_True_eq_False if_False if_not_P [OF False]
  have neg: "op = ''-'' \<Longrightarrow> fits_int64 (- held v) \<and> - held v = held (- v)"
  proof -
    assume op: "op = ''-''"
    have "held v \<noteq> - (2 ^ 63)"
    proof
      assume h: "held v = - (2 ^ 63)"
      show False
      proof (cases u)
        case True
        have "uint (word_of_int v :: u64) = v" using unsigned_bounds(3) [of "(w, u)" v] ok(1,2) True by simp
        moreover have "(word_of_int v :: u64) = word_of_int (- (2 ^ 63))" using word_of_held [of v] h by simp
        moreover have "uint (word_of_int (- (2 ^ 63)) :: u64) = 2 ^ 63" by (simp add: uint_word_of_int)
        ultimately have "v = 2 ^ 63" by metis
        then show False using assms(4) [OF op] by simp
      next
        case False
        then have "v = - (2 ^ 63)" using h held_signed [of w v] ok(1,2) by simp
        then show False using x op ok(1,2) False by (auto simp: c_unary_def wp c_result_def c_in_def c_type_ok_def)
      qed
    qed
    moreover have "- (2 ^ 63) \<le> held v \<and> held v < 2 ^ 63"
      unfolding held_bits using signed_take_bit_int_greater_eq_minus_exp [of 63 v] signed_take_bit_int_less_exp [of 63 v] by blast
    ultimately have f: "fits_int64 (- held v)" by (auto simp: fits_int64_def)
    then have "- held v = held (- held v)" by (simp add: held_fits)
    also have "\<dots> = held (- v)" by (simp add: held_def)
    finally show ?thesis using f by simp
  qed
  have nt: "NOT (held v) = held (NOT v)" by (rule bit_eqI) (simp add: held_bits bit_simps)
  have "\<exists>y. eval_unary env op r = Done (finalizeWithExprType env (makeConstTyped (held y) w u)) \<and> c_result (w, u) y = Some x"
  proof -
    consider "op = ''-''" | "op = ''+''" | "op = ''~''" using x False by (auto simp: c_unary_def split: if_splits)
    then show ?thesis
    proof cases
      case 1
      have n: "fits_int64 (held (- v))" "- held v = held (- v)" using neg [OF 1] by auto
      have "eval_unary env op r = Done (finalizeWithExprType env (makeConstTyped (held (- v)) w u))"
        unfolding ev if_P [OF 1] n(2) using n(1) ok(3) by simp
      then show ?thesis using x 1 by (auto simp: c_unary_def wp)
    next
      case 2
      have "eval_unary env op r = Done (finalizeWithExprType env (makeConstTyped (held v) w u))"
        unfolding ev using 2 ok(3) by simp
      then show ?thesis using x 2 c_result_in [OF ok(2)] by (auto simp: c_unary_def wp)
    next
      case 3
      have "eval_unary env op r = Done (finalizeWithExprType env (makeConstTyped (held (NOT v)) w u))"
        unfolding ev nt using 3 ok(3) by simp
      then show ?thesis using x 3 by (auto simp: c_unary_def wp)
    qed
  qed
  then obtain y where "eval_unary env op r = Done (finalizeWithExprType env (makeConstTyped (held y) w u))"
    "c_result (w, u) y = Some x" by blast
  then show ?thesis using agrees_result [OF ok(1), of y x w u typed env] False T by simp
qed

section \<open>Constant expressions have the value and type of C\<close>

lemma c_eval_typed: "c_eval env e = Some v \<Longrightarrow> \<exists>T. c_type env e = Some T"
  by (cases e) (auto split: option.splits outcome.splits if_splits prod.splits simp: c_binary_def c_arith_def)

lemma ops_disjoint:
  "op \<in> set compare_ops \<Longrightarrow> op \<noteq> ''&&'' \<and> op \<noteq> ''||'' \<and> op \<notin> set shift_ops"
  "op \<in> set shift_ops \<longleftrightarrow> op = ''<<'' \<or> op = ''>>''"
  by (auto simp: compare_ops_def shift_ops_def)

lemma known_operator:
  "c_binary op S T a b = Some v \<Longrightarrow> op \<notin> set shift_ops \<Longrightarrow> op \<in> set bitwise_ops \<union> set compare_ops \<union> set arith_ops"
  by (auto simp: c_binary_def operator_groups c_arith_def bitwise_ops_def arith_ops_def Let_def split: if_splits)

lemma c_promote_wide: "32 \<le> fst T \<Longrightarrow> c_promote T = T"
  by (simp add: c_promote_def)

lemma agrees_literal:
  assumes "c_eval env (AST_NUMBER_LITERAL x) = Some v" "c_type env (AST_NUMBER_LITERAL x) = Some T"
  shows "\<exists>r. constEvalInternal ev env allow (AST_NUMBER_LITERAL x) = Done r \<and> agrees typed T v r"
proof -
  obtain info where i: "parse_integer_literal_info (ce_host env) x (Some (currentLayout env)) = Done info"
    and T: "T = (il_bits info, il_isUnsigned info)" and v: "v = uint (il_value info)" "c_type_ok T" "c_in T v"
    using assms by (auto split: outcome.splits if_splits simp: Let_def)
  have "sint (il_value info) = held v" by (simp add: held_def v)
  then show ?thesis
    using i agrees_typed [OF v(2), of typed v] c_conv_id [OF v(2,3)] by (simp add: parseIntegerLiteral_def T)
qed

lemma agrees_cast:
  assumes "agrees False S x inner" "c_type env (AST_CAST_EXPRESSION t e) = Some T" "c_type_ok T"
    "constEvalInternal ev env allow e = Done inner"
  shows "\<exists>r. constEvalInternal ev env allow (AST_CAST_EXPRESSION t e) = Done r \<and> agrees typed T (c_conv T x) r"
proof -
  obtain info where i: "scope_typeInfo env t = Done info" "category info = TYPEINFO_INTEGER" "T = (bitWidth info, \<not> isSigned info)"
    using assms(2) by (auto split: outcome.splits if_splits)
  have "bitWidth info \<noteq> 0" using assms(3) i(3) by (auto simp: c_type_ok_def)
  then have b: "bitsFromTypeInfo env info = Some T" using i by (simp add: bitsFromTypeInfo_def)
  have inner: "cr_isConst inner" "cr_value inner = held x" using assms(1) by (auto simp: agrees_def)
  have op: "eval_cast_operand env t e inner = Done inner" using inner by (cases e) (simp_all add: eval_cast_operand_def)
  have "constEvalInternal ev env allow (AST_CAST_EXPRESSION t e) =
      Done (makeConstTyped (held (c_conv T x)) (fst T) (snd T))"
    using assms(4) op inner i b truncate_held [OF assms(3), of x] by (simp add: evalCast_def split: prod.split)
  then show ?thesis using agrees_typed [OF assms(3), of typed "c_conv T x"] c_conv_id [OF assms(3) c_conv_in [OF assms(3)]] by simp
qed

lemma agrees_decided: "agrees False c_int (c_of_bool b) (makeConst (c_of_bool b))"
  by (auto simp: agrees_def makeConst_def makeConstTyped_def truncateToWidth_def c_int_def c_type_ok_def c_in_def
      c_of_bool_def held_bits)

lemma agrees_logical:
  assumes "scope_intBits env = 32" "agrees False S b rhs"
  shows "agrees typed c_int (c_of_bool (b \<noteq> 0)) (logical_result env rhs)"
  using agrees_bool [OF assms(1), of typed "b \<noteq> 0"] agreesD(1,5) [OF assms(2)] by (simp add: logical_result_def)

lemma agrees_finalize: "agrees True T v r \<Longrightarrow> agrees typed T v (finalizeWithExprType env r)"
  using truncate_held [of T v] c_conv_id [of T v] by (auto simp: agrees_def finalizeWithExprType_def Let_def c_type_ok_def)

lemma agrees_eval:
  assumes "scope_intBits env = 32" "faithful env typed e" "c_eval env e = Some v" "c_type env e = Some T"
  shows "\<exists>r. constEvalInternal ev env allow e = Done r \<and> agrees typed T v r"
  using assms(2-4)
proof (induction e arbitrary: typed v T)
  case (AST_NUMBER_LITERAL x)
  then show ?case using agrees_literal by blast
next
  case (AST_CAST_EXPRESSION t e)
  obtain x where x: "c_eval env e = Some x" "c_type_ok T" "v = c_conv T x"
    using AST_CAST_EXPRESSION.prems by (auto split: option.splits if_splits)
  obtain S where "c_type env e = Some S" using c_eval_typed [OF x(1)] by blast
  then obtain r where "constEvalInternal ev env allow e = Done r" "agrees False S x r"
    using AST_CAST_EXPRESSION.IH [of False x S] AST_CAST_EXPRESSION.prems x(1) by auto
  then show ?case using agrees_cast AST_CAST_EXPRESSION.prems(3) x(2,3) by blast
next
  case (AST_UNARY_EXPRESSION opr e)
  note prems = AST_UNARY_EXPRESSION.prems
  obtain op x S where o: "opr = Some op" "c_eval env e = Some x" "c_type env e = Some S" "c_unary op (c_promote S) x = Some v"
    using prems(2) by (auto split: option.splits)
  have f: "faithful env (op \<noteq> ''!'') e" "op \<noteq> ''!'' \<Longrightarrow> 32 \<le> fst S" "op = ''-'' \<Longrightarrow> x \<noteq> 2 ^ 63"
    using prems(1) o by (auto simp: wide_def split: if_splits)
  obtain r where r: "constEvalInternal ev env allow e = Done r" "agrees (op \<noteq> ''!'') S x r"
    using AST_UNARY_EXPRESSION.IH [OF f(1) o(2,3)] by blast
  have "e \<noteq> E_NULL" using o(2) by auto
  moreover have "T = (if op = ''!'' then c_int else S)" using prems(3) o f(2) c_promote_wide by (auto split: if_splits)
  ultimately show ?case using unary_op [OF r(2) assms(1) f(2,3) o(4), of typed] r(1) o(1) by auto
next
  case (AST_BINARY_EXPRESSION opr l r)
  note prems = AST_BINARY_EXPRESSION.prems
  obtain op a where o: "opr = Some op" "c_eval env l = Some a"
    using prems(2) by (auto split: option.splits)
  obtain S where S: "c_type env l = Some S" using c_eval_typed [OF o(2)] by blast
  note IHl = AST_BINARY_EXPRESSION.IH(1) [OF _ o(2) S]
  show ?case
  proof (cases "op = ''||'' \<or> op = ''&&''")
    case True
    then have T: "T = c_int" and fl: "faithful env False l" using prems(1,3) o by auto
    obtain lhs where lhs: "constEvalInternal ev env allow l = Done lhs" "agrees False S a lhs" using IHl [OF fl] by blast
    show ?thesis
    proof (cases "(a \<noteq> 0) = (op = ''||'')")
      case d: True
      then have "v = c_of_bool (a \<noteq> 0)" "\<not> typed" using True prems(1,2) o by auto
      moreover have "constEvalInternal ev env allow (AST_BINARY_EXPRESSION opr l r) = Done (makeConst (c_of_bool (a \<noteq> 0)))"
        using True d lhs agreesD(1,5) [OF lhs(2)] o by (auto simp: c_of_bool_def)
      ultimately show ?thesis using agrees_decided T by auto
    next
      case d: False
      then obtain b where b: "c_eval env r = Some b" "v = c_of_bool (b \<noteq> 0)" and fr: "faithful env False r"
        using True prems(1,2) o by auto
      obtain U where "c_type env r = Some U" using c_eval_typed [OF b(1)] by blast
      then obtain rhs where rhs: "constEvalInternal ev env allow r = Done rhs" "agrees False U b rhs"
        using AST_BINARY_EXPRESSION.IH(2) [OF fr b(1)] by blast
      then have "constEvalInternal ev env allow (AST_BINARY_EXPRESSION opr l r) = Done (logical_result env rhs)"
        using True d lhs agreesD(1,5) [OF lhs(2)] o by auto
      then show ?thesis using agrees_logical [OF assms(1) rhs(2)] b(2) T by auto
    qed
  next
    case nl: False
    then obtain b U where b: "c_eval env r = Some b" "c_type env r = Some U" "c_binary op S U a b = Some v"
      using prems(2) o S by (auto split: option.splits)
    have fl: "faithful env True l" using prems(1) o nl by (auto split: if_splits)
    obtain lhs where lhs: "constEvalInternal ev env allow l = Done lhs" "agrees True S a lhs" using IHl [OF fl] by blast
    have "\<exists>rhs res. constEvalInternal ev env allow r = Done rhs \<and> cr_isConst rhs \<and>
      evalBinaryOp env op lhs rhs = Done res \<and> agrees typed T v res"
    proof (cases "op \<in> set shift_ops")
      case True
      then have f: "faithful env False r" "32 \<le> fst S" using prems(1) o S by (auto simp: shift_ops_def wide_def)
      obtain rhs where rhs: "constEvalInternal ev env allow r = Done rhs" "agrees False U b rhs"
        using AST_BINARY_EXPRESSION.IH(2) [OF f(1) b(1,2)] by blast
      have "op \<notin> set compare_ops" using True ops_disjoint(1) by blast
      then have sh: "c_shift op S a b = Some v" "T = S"
        using b(3) True prems(3) o S f(2) nl by (simp_all add: c_binary_def operator_groups c_promote_wide)
      show ?thesis using shift_op [OF lhs(2) rhs(2) True sh(1)] rhs agreesD(1) [OF rhs(2)] sh(2) by blast
    next
      case False
      then have f: "faithful env True r" using prems(1) o nl by (auto simp: shift_ops_def split: if_splits)
      obtain rhs where rhs: "constEvalInternal ev env allow r = Done rhs" "agrees True U b rhs"
        using AST_BINARY_EXPRESSION.IH(2) [OF f b(1,2)] by blast
      have "T = (if op \<in> set compare_ops then c_int else c_common S U)" using prems(3) o S b(2) nl False by (auto simp: operator_groups split: if_splits)
      then show ?thesis
        using common_op [OF lhs(2) rhs(2) assms(1) known_operator [OF b(3) False] b(3)] rhs(1) agreesD(1) [OF rhs(2)] by blast
    qed
    then show ?thesis using o nl lhs(1) agreesD(1) [OF lhs(2)] by auto
  qed
next
  case (AST_TERNARY_EXPRESSION c a b)
  note prems = AST_TERNARY_EXPRESSION.prems
  obtain x where x: "c_eval env c = Some x" using prems(2) by (auto split: option.splits)
  obtain S where S: "c_type env c = Some S" using c_eval_typed [OF x] by blast
  have "faithful env False c" using prems(1) by simp
  then obtain cond where cond: "constEvalInternal ev env allow c = Done cond" "agrees False S x cond"
    using AST_TERNARY_EXPRESSION.IH(1) [OF _ x S] by blast
  define chosen where "chosen = (if x = 0 then b else a)"
  have f: "faithful env True chosen" "c_type env chosen = Some T"
    using prems(1,3) x by (auto simp: chosen_def Let_def)
  obtain y where y: "c_eval env chosen = Some y" "v = c_conv T y"
    using prems(2,3) x by (auto simp: chosen_def split: option.splits if_splits)
  have "\<exists>r. constEvalInternal ev env allow chosen = Done r \<and> agrees True T y r"
    using AST_TERNARY_EXPRESSION.IH(2) [of True y T] AST_TERNARY_EXPRESSION.IH(3) [of True y T] f y(1)
    unfolding chosen_def by (cases "x = 0") simp_all
  then obtain r where r: "constEvalInternal ev env allow chosen = Done r" "agrees True T y r" by blast
  have "v = y" using y(2) agreesD(3,4) [OF r(2)] c_conv_id by simp
  moreover have "constEvalInternal ev env allow (AST_TERNARY_EXPRESSION c a b) = Done (finalizeWithExprType env r)"
    using cond r(1) agreesD(1,5) [OF cond(2)] agreesD(1) [OF r(2)] by (auto simp: chosen_def)
  ultimately show ?case using agrees_finalize [OF r(2)] by auto
qed (simp_all)

text \<open>The value a result stands for.\<close>

definition result_value :: "ConstEvalResult \<Rightarrow> int" where
  "result_value r = (if cr_isUnsigned r then uint (to_u64 (cr_value r)) else cr_value r)"

text \<open>
  C32. On a target with 32-bit \<open>int\<close>, the evaluator returns a constant of the width, the signedness and the
  value C 6.3.1 and 6.5 give, for every expression that C gives a value to, built of integer literals (with the type and
  value the literal component gives them), casts to integer types of 8, 16, 32 or 64 bits, \<open>! - + ~\<close>, the binary
  operators and \<open>?:\<close>, with these exceptions, in operands that are evaluated: \<open>- + ~\<close> and the left operand of a shift on a
  type narrower than \<open>int\<close>; the negation of $2^{63}$; a \<open>?:\<close> whose chosen operand does not have the common type; and
  \<open>&&\<close> or \<open>||\<close> decided by the left operand where the type of the result matters. The theorems below show that the
  evaluator differs from C there.
\<close>

theorem constant_expression_has_c_value:
  assumes "scope_intBits env = 32" "faithful env True e" "c_eval env e = Some v" "c_type env e = Some (w, uns)"
  shows "\<exists>r. constEval fuel env allow e = Done r \<and> cr_isConst r \<and> cr_bitWidth r = w \<and> cr_isUnsigned r = uns \<and> result_value r = v"
proof -
  obtain r where r: "constEval fuel env allow e = Done r" "agrees True (w, uns) v r"
    using agrees_eval [OF assms] unfolding constEval_def by blast
  have "result_value r = v"
    using r(2) held_signed [of w v] word_unsigned [of w v] by (cases uns) (auto simp: agrees_def result_value_def)
  then show ?thesis using r by (auto simp: agrees_def)
qed

section \<open>Examples\<close>

text \<open>An x86-64 target, no scope.\<close>

definition const_env :: ConstEnv where
  "const_env =
    \<lparr>ce_host = \<lparr>def_win64 = False, def_aarch64 = False, def_apple = False, def_x86_64 = True, def_riscv64 = False\<rparr>,
     ce_ctx = None, ce_scope = [], ce_fuel = 1, ce_sizeAlign = (\<lambda>t. None), ce_layout = (\<lambda>k n. None),
     ce_analyze = (\<lambda>e. makeInvalidType), ce_offsetof = (\<lambda>t f. None), ce_strtold = (\<lambda>s. (0, s)), ce_enum = (\<lambda>i. None)\<rparr>"

definition scalar_type :: "TokenType \<Rightarrow> bool \<Rightarrow> ParsedType" where
  "scalar_type p uns = PT (zero_base\<lparr>pt_kind := TYPE_PRIMITIVE, pt_primitiveType := p, pt_isUnsigned := uns\<rparr>) [] []"

abbreviation lit :: "string \<Rightarrow> expr" where "lit s \<equiv> AST_NUMBER_LITERAL (Some s)"
abbreviation bin :: "string \<Rightarrow> expr \<Rightarrow> expr \<Rightarrow> expr" where "bin op l r \<equiv> AST_BINARY_EXPRESSION (Some op) l r"
abbreviation una :: "string \<Rightarrow> expr \<Rightarrow> expr" where "una op e \<equiv> AST_UNARY_EXPRESSION (Some op) e"

lemma const_layout: "currentLayout const_env = layout_lp64_fp80"
  by (simp add: currentLayout_def const_env_def tl_default_def)

lemma const_candidates:
  "b = 10 \<or> b = 8 \<Longrightarrow> \<exists>more. literal_candidates layout_lp64_fp80 b uns 0 = (32, uns) # more"
proof -
  have "width_or 32 32 = 32" by (simp add: width_or_def)
  then show "b = 10 \<or> b = 8 \<Longrightarrow> \<exists>more. literal_candidates layout_lp64_fp80 b uns 0 = (32, uns) # more"
    by (auto simp: literal_candidates_def layout_lp64_fp80_def Let_def)
qed

definition digit_spelling :: "string \<Rightarrow> nat \<Rightarrow> u64 \<Rightarrow> bool \<Rightarrow> bool" where
  "digit_spelling s b n uns \<longleftrightarrow> s \<noteq> [] \<and> hd s \<noteq> CHR ''-'' \<and> hd s \<noteq> CHR ''+'' \<and> literal_base s = (b, s) \<and>
    (case strtoull b s of (m, erange, rest) \<Rightarrow> m = n \<and> \<not> erange \<and> rest \<noteq> s \<and> literal_suffix False 0 rest = Some (uns, 0))"

lemma small_literal:
  assumes "digit_spelling s b n uns" "n \<le> 9" "b = 10 \<or> b = 8"
  shows "parse_integer_literal_info (ce_host const_env) (Some s) (Some (currentLayout const_env)) =
    Done \<lparr>il_overflow = False, il_bits = 32, il_isUnsigned = uns, il_value = n\<rparr>"
proof -
  obtain more where more: "literal_candidates layout_lp64_fp80 b uns 0 = (32, uns) # more"
    using const_candidates [OF assms(3)] by blast
  have "max_unsigned_for_bits 32 = 0xFFFFFFFF" "max_signed_for_bits 32 = 0x7FFFFFFF" by code_simp+
  then have f: "fits_in_bits n 32 uns" using assms(2) by (auto simp: fits_in_bits_def intro: order_trans [of n 9])
  have "take_bit 32 (uint n) = uint n" using assms(2) by (simp add: take_bit_int_eq_self word_le_def)
  then have "n AND mask 32 = n" by (simp add: word_uint_eq_iff unsigned_take_bit_eq flip: take_bit_eq_mask)
  then have v: "literal_value False n 32 uns = Some n"
    unfolding literal_value_def low_mask Let_def by simp
  obtain rest where rest: "strtoull b s = (n, False, rest)" "rest \<noteq> s" "literal_suffix False 0 rest = Some (uns, 0)"
    using assms(1) by (auto simp: digit_spelling_def split: prod.splits)
  have c: "choose_candidate n ((32, uns) # more) = (32, uns)" using f by (simp add: choose_candidate_def)
  show ?thesis
    using assms(1) rest f v more c by (simp add: parse_integer_literal_info_def digit_spelling_def const_layout)
qed

lemmas spelling = digit_spelling_def literal_base_def strtoull_def strtoull_digits_def strip_sign_def base_digit_def hex_val_def is_space_def

lemma spelled_digits:
  "digit_spelling ''0'' 8 0 False" "digit_spelling ''0u'' 8 0 True" "digit_spelling ''1'' 10 1 False" "digit_spelling ''2'' 10 2 False" "digit_spelling ''2u'' 10 2 True"
  "digit_spelling ''8'' 10 8 False"
  by (simp_all add: spelling)

lemmas const_literals = spelled_digits [THEN small_literal, simplified]

lemma const_int_bits: "scope_intBits const_env = 32"
  by (simp add: scope_intBits_def const_layout layout_lp64_fp80_def)

lemma const_types:
  "scope_typeInfo const_env (scalar_type TOKEN_CHAR True) =
    Done ((makeIntegerType 8 False TOKEN_CHAR)\<lparr>originalType := Some (scalar_type TOKEN_CHAR True)\<rparr>)"
  "scope_typeInfo const_env (scalar_type TOKEN_BOOL False) =
    Done (makeBoolType\<lparr>originalType := Some (scalar_type TOKEN_BOOL False)\<rparr>)"
  by (simp_all add: scope_typeInfo_def const_env_def undecorated_def typeInfoFromBaseKind_def scalar_type_def zero_base_def
      primitive_info_def makeIntegerType_def makeBoolType_def makeBaseInvalid_def applyQualifiers_def propagateVLAFlag_def
      parsedTypeHasVLA_def defaultIntBits_def Let_def)


lemmas const_simps = constEval_def parseIntegerLiteral_def const_literals const_types const_int_bits makeConstTyped_def makeConst_def
  truncate_unsigned truncate_signed eval_unary_def finalizeWithExprType_def eval_cast_operand_def evalCast_def bitsFromTypeInfo_def
  makeIntegerType_def makeBoolType_def makeBaseInvalid_def mask_eq_exp_minus_1 Let_def

lemmas common_simps = commonIntegerType_def usualArithmeticConversion_def typeInfoIsArithmetic_def typeInfoIsInteger_def
  typeInfoIsFloating_def integerPromote_def defaultIntBits_def pickIntegerResult_def integerRank_def evalBinaryOp_def
  bitwise_ops_def compare_ops_def arith_ops_def shift_ops_def compare_operands_def unsigned_arith_def

lemmas c_simps = c_comparisons_def c_shifts_def c_compare_def c_unary_def c_binary_def c_arith_def c_shift_def c_common_def c_promote_def c_int_def c_conv_def c_result_def
  c_in_def c_type_ok_def c_of_bool_def

definition byte_of :: "string \<Rightarrow> expr" where
  "byte_of s = AST_CAST_EXPRESSION (scalar_type TOKEN_CHAR True) (lit s)"

text \<open>The operand of an unary operator is not promoted: \<open>~(unsigned char)0\<close> is 255 of 8 bits, where C has \<open>-1\<close> of type \<open>int\<close>.\<close>

theorem unary_operand_not_promoted:
  "c_eval const_env (una ''~'' (byte_of ''0'')) = Some (- 1) \<and>
   constEval fuel const_env allow (una ''~'' (byte_of ''0'')) =
     Done \<lparr>cr_isConst = True, cr_value = 255, cr_bitWidth = 8, cr_isUnsigned = True\<rparr>"
  by (simp add: byte_of_def const_simps c_simps)

text \<open>Nor is the left operand of a shift: \<open>(unsigned char)1 << 8\<close> is no constant, where C has 256.\<close>

theorem shift_operand_not_promoted:
  "c_eval const_env (bin ''<<'' (byte_of ''1'') (lit ''8'')) = Some 256 \<and>
   constEval fuel const_env allow (bin ''<<'' (byte_of ''1'') (lit ''8'')) = Done makeNonConst"
  by (simp add: byte_of_def const_simps c_simps common_simps)

text \<open>The conditional operator does not convert to the common type: \<open>(1 ? -1 : 0u) < 0\<close> holds, in C it does not.\<close>

theorem conditional_operands_not_converted:
  "c_eval const_env (bin ''<'' (AST_TERNARY_EXPRESSION (lit ''1'') (una ''-'' (lit ''1'')) (lit ''0u'')) (lit ''0'')) = Some 0 \<and>
   constEval fuel const_env allow
     (bin ''<'' (AST_TERNARY_EXPRESSION (lit ''1'') (una ''-'' (lit ''1'')) (lit ''0u'')) (lit ''0'')) =
     Done \<lparr>cr_isConst = True, cr_value = 1, cr_bitWidth = 32, cr_isUnsigned = False\<rparr>"
  by (simp add: const_simps c_simps common_simps fits_int64_def)

text \<open>A logical operator decided by its left operand gives \<open>long long\<close>: \<open>(1 || 0) - 2u < 0\<close> holds, in C it does not.\<close>

theorem decided_operator_is_long_long:
  "c_eval const_env (bin ''<'' (bin ''-'' (bin ''||'' (lit ''1'') (lit ''0'')) (lit ''2u'')) (lit ''0'')) = Some 0 \<and>
   constEval fuel const_env allow (bin ''<'' (bin ''-'' (bin ''||'' (lit ''1'') (lit ''0'')) (lit ''2u'')) (lit ''0'')) =
     Done \<lparr>cr_isConst = True, cr_value = 1, cr_bitWidth = 32, cr_isUnsigned = False\<rparr>"
  by (simp add: const_simps c_simps common_simps signed_arith_def truncateToWidth_def [of _ 64] fits_int64_def)

text \<open>A cast to \<open>_Bool\<close> takes the low bit: \<open>(_Bool)2\<close> is 0, in C it is 1.\<close>

theorem cast_to_bool_takes_low_bit:
  "constEval fuel const_env allow (AST_CAST_EXPRESSION (scalar_type TOKEN_BOOL False) (lit ''2'')) =
     Done \<lparr>cr_isConst = True, cr_value = 0, cr_bitWidth = 1, cr_isUnsigned = True\<rparr>"
  by (simp add: const_simps)

text \<open>The least \<open>long long\<close> divided by \<open>-1\<close> is divided as \<open>long long\<close> by the compiler itself, which is undefined behaviour (a trap on x86).\<close>

theorem division_of_least_value_undefined:
  "evalBinaryOp const_env ''/'' (makeConst (- (2 ^ 63))) (makeConst (- 1)) = Undefined"
  by (simp add: const_simps common_simps signed_arith_def truncateToWidth_def [of _ 64] fits_int64_def signed_divide_int_def)

text \<open>\<open>(1 - 2u) >> 8 ? ~8 % 2 : 0\<close>.\<close>

theorem constant_expression_has_c_value_witness:
  "\<exists>r. constEval 0 const_env False
      (AST_TERNARY_EXPRESSION (bin ''>>'' (bin ''-'' (lit ''1'') (lit ''2u'')) (lit ''8'')) (bin ''%'' (una ''~'' (lit ''8'')) (lit ''2'')) (lit ''0'')) =
      Done r \<and> cr_isConst r \<and> cr_bitWidth r = 32 \<and> \<not> cr_isUnsigned r \<and> result_value r = - 1"
proof -
  let ?e = "AST_TERNARY_EXPRESSION (bin ''>>'' (bin ''-'' (lit ''1'') (lit ''2u'')) (lit ''8'')) (bin ''%'' (una ''~'' (lit ''8'')) (lit ''2'')) (lit ''0'')"
  have "c_eval const_env ?e = Some (- 1)" "c_type const_env ?e = Some (32, False)" "faithful const_env True ?e"
    by (simp_all add: const_literals c_simps compare_ops_def shift_ops_def wide_def Let_def signed_divide_int_def signed_modulo_int_def)
  from constant_expression_has_c_value [OF const_int_bits this(3,1,2), of 0 False]
  show ?thesis by auto
qed

end
