(* ===== verification/Macro_Expander.thy ===== *)
theory Macro_Expander
  imports Macro_Table Lexer_Tokens
begin

text \<open>
  The macro expander, \<open>src/src/Preprocessor/macro_expander.c\<close> and \<open>macro_expander_support.c\<close>: built-in names,
  collection and expansion of arguments, substitution with \<open>#\<close>, \<open>##\<close> and \<open>__VA_OPT__\<close>, rescanning under the
  expansion stack of the macro table. The expander exists and allocation succeeds. A function that returns false
  gives \<open>None\<close> (its partial output is thrown away by every caller) next to the changed expander. \<open>Undefined\<close> is a
  null text handed to \<open>strcmp\<close>, an \<open>int\<close> that overflows or the lexer's bad \<open>free\<close>. \<open>macro_expander_expand\<close> calls itself on
  arguments and replaced bodies, one unit of fuel for each level; \<open>Fail\<close> says that it is used up. What the lexer
  reports while it scans a pasted text is left out.
\<close>

section \<open>Data\<close>

text \<open>Pointers to numbers, texts and flags that the preprocessor owns: \<open>None\<close> is the null pointer.\<close>

record PPBuiltinState =
  bs_baseFile :: cstr
  bs_dateString :: cstr
  bs_timeString :: cstr
  bs_counter :: "int option"
  bs_logicalFile :: "cstr option"
  bs_lineOffset :: "int option"
  bs_lineRemapActive :: "bool option"

datatype MacroExpandError = ME_ERR_NONE | ME_ERR_MACRO_ARG_COUNT | ME_ERR_UNSUPPORTED_GNU_COMMA_VA_ARGS

record MacroExpandErrorInfo =
  ee_kind :: MacroExpandError
  ee_macro :: "MacroDefinition option"
  ee_callSite :: SourceRange
  ee_expectedArgs :: nat
  ee_providedArgs :: nat
  ee_variadic :: bool

record MacroExpander =
  me_table :: "MacroTable option"
  me_builtins :: PPBuiltinState
  me_lastError :: MacroExpandErrorInfo
  me_preserve :: bool

type_synonym PPTokenBuffer = "Token list"

record MacroArg =
  ma_raw :: PPTokenBuffer
  ma_expanded :: PPTokenBuffer

record MacroArgPack =
  mp_positionals :: "MacroArg list"
  mp_variadics :: "MacroArg list"

text \<open>What a call that may fail leaves: the expander, and the result unless the call returns false.\<close>

type_synonym 'a attempt = "(MacroExpander \<times> 'a option) evaluation"

text \<open>A call whose failure makes the caller fail.\<close>

definition abind :: "'a attempt \<Rightarrow> (MacroExpander \<Rightarrow> 'a \<Rightarrow> 'b attempt) \<Rightarrow> 'b attempt" where
  "abind m f = obind m (\<lambda>(ex, r). case r of None \<Rightarrow> Done (ex, None) | Some a \<Rightarrow> f ex a)"

lemma abind_simps [simp]:
  "abind Undefined f = Undefined" "abind (Fail e) f = Fail e" "abind (Done (ex, None)) f = Done (ex, None)"
  "abind (Done (ex, Some a)) f = f ex a"
  by (simp_all add: abind_def)

lemma abind_Some: "abind m f = Done (ex', Some b) \<longleftrightarrow> (\<exists>ex a. m = Done (ex, Some a) \<and> f ex a = Done (ex', Some b))"
  by (auto simp: abind_def obind_Done split: option.splits)

section \<open>Errors and ranges\<close>

definition empty_range :: SourceRange where
  "empty_range = no_range"

definition range_is_initialized :: "SourceRange \<Rightarrow> bool" where
  "range_is_initialized r \<longleftrightarrow> sl_file (sr_start r) \<noteq> None \<or> sl_line (sr_start r) \<noteq> 0 \<or> sl_column (sr_start r) \<noteq> 0"

definition macro_expander_clear_error :: "MacroExpander \<Rightarrow> MacroExpander" where
  "macro_expander_clear_error ex = ex\<lparr>me_lastError :=
    \<lparr>ee_kind = ME_ERR_NONE, ee_macro = None, ee_callSite = empty_range, ee_expectedArgs = 0, ee_providedArgs = 0,
     ee_variadic = False\<rparr>\<rparr>"

definition macro_expander_set_arg_count_error ::
    "MacroExpander \<Rightarrow> MacroDefinition \<Rightarrow> SourceRange \<Rightarrow> nat \<Rightarrow> nat \<Rightarrow> MacroExpander" where
  "macro_expander_set_arg_count_error ex def callSite expected provided = ex\<lparr>me_lastError :=
    \<lparr>ee_kind = ME_ERR_MACRO_ARG_COUNT, ee_macro = Some def, ee_callSite = callSite, ee_expectedArgs = expected,
     ee_providedArgs = provided, ee_variadic = mp_variadic (md_params def)\<rparr>\<rparr>"

definition macro_expander_set_unsupported_gnu_comma_va_args_error ::
    "MacroExpander \<Rightarrow> MacroDefinition \<Rightarrow> SourceRange \<Rightarrow> MacroExpander" where
  "macro_expander_set_unsupported_gnu_comma_va_args_error ex def callSite = ex\<lparr>me_lastError :=
    \<lparr>ee_kind = ME_ERR_UNSUPPORTED_GNU_COMMA_VA_ARGS, ee_macro = Some def, ee_callSite = callSite, ee_expectedArgs = 0,
     ee_providedArgs = 0, ee_variadic = mp_variadic (md_params def)\<rparr>\<rparr>"

definition no_builtins :: PPBuiltinState where
  "no_builtins =
    \<lparr>bs_baseFile = None, bs_dateString = None, bs_timeString = None, bs_counter = None, bs_logicalFile = None,
     bs_lineOffset = None, bs_lineRemapActive = None\<rparr>"

definition macro_expander_init :: "MacroTable option \<Rightarrow> MacroExpander" where
  "macro_expander_init table = macro_expander_clear_error
    \<lparr>me_table = table, me_builtins = no_builtins,
     me_lastError = \<lparr>ee_kind = ME_ERR_NONE, ee_macro = None, ee_callSite = empty_range, ee_expectedArgs = 0,
       ee_providedArgs = 0, ee_variadic = False\<rparr>,
     me_preserve = False\<rparr>"

definition macro_expander_reset :: "MacroExpander \<Rightarrow> MacroExpander" where
  "macro_expander_reset ex = macro_expander_clear_error ex"

definition macro_expander_set_builtins :: "MacroExpander \<Rightarrow> PPBuiltinState \<Rightarrow> MacroExpander" where
  "macro_expander_set_builtins ex state = ex\<lparr>me_builtins := state\<rparr>"

definition macro_expander_set_preserve_defined_operands :: "MacroExpander \<Rightarrow> bool \<Rightarrow> MacroExpander" where
  "macro_expander_set_preserve_defined_operands ex enabled = ex\<lparr>me_preserve := enabled\<rparr>"

definition macro_expander_last_error :: "MacroExpander \<Rightarrow> MacroExpandErrorInfo" where
  "macro_expander_last_error ex = me_lastError ex"

section \<open>Built-in names\<close>

definition is_word_defined :: "Token \<Rightarrow> bool" where
  "is_word_defined t \<longleftrightarrow> tk_type t = TOKEN_IDENTIFIER \<and> tk_value t = Some ''defined''"

definition token_is_defined_operand_context :: "Token list \<Rightarrow> nat \<Rightarrow> bool" where
  "token_is_defined_operand_context ts i \<longleftrightarrow>
    (i > 0 \<and> is_word_defined (ts ! (i - 1))) \<or>
    (i > 1 \<and> tk_type (ts ! (i - 1)) = TOKEN_LPAREN \<and> is_word_defined (ts ! (i - 2)))"

definition emit_builtin_literal :: "Token \<Rightarrow> TokenType \<Rightarrow> string \<Rightarrow> Token" where
  "emit_builtin_literal tok ty txt =
    tok\<lparr>tk_type := ty, tk_value := Some txt, tk_macroDefinition := empty_range, tk_macroCallSite := tk_location tok\<rparr>"

definition token_builtin_spelling_line :: "Token \<Rightarrow> SourceRange \<Rightarrow> int" where
  "token_builtin_spelling_line tok loc =
    (if range_is_initialized (tk_macroCallSite tok) then sl_line (sr_start loc)
     else if tk_spellingLine tok > 0 then tk_spellingLine tok
     else sl_line (sr_start loc))"

definition show_int :: "int \<Rightarrow> string" where
  "show_int n = (if n < 0 then CHR ''-'' # show_nat (nat (- n)) else show_nat (nat n))"

definition call_range :: "Token \<Rightarrow> SourceRange" where
  "call_range tok = (if range_is_initialized (tk_macroCallSite tok) then tk_macroCallSite tok else tk_location tok)"

text \<open>The token a built-in name stands for; \<open>None\<close>: the name is not built in.\<close>

definition handle_builtin_identifier :: "PPBuiltinState \<Rightarrow> Token \<Rightarrow> (PPBuiltinState \<times> Token) option evaluation" where
  "handle_builtin_identifier bs tok =
    (let loc = call_range tok; name = tk_value tok; or_empty = (\<lambda>s. case s of Some t \<Rightarrow> t | None \<Rightarrow> '''');
         remap = (bs_lineRemapActive bs = Some True);
         emit = (\<lambda>bs ty s. Done (Some (bs, emit_builtin_literal tok ty s))) in
     if tk_type tok \<noteq> TOKEN_IDENTIFIER then Done None
     else if name = Some ''__FILE__'' then
       (let file = (case sl_file (sr_start loc) of Some f \<Rightarrow> Some f | None \<Rightarrow> bs_baseFile bs);
            file = (if remap then case bs_logicalFile bs of Some (Some f) \<Rightarrow> Some f | _ \<Rightarrow> file else file)
        in emit bs TOKEN_STRING (or_empty file))
     else if name = Some ''__LINE__'' then
       (let line = token_builtin_spelling_line tok loc in
        case (if remap then bs_lineOffset bs else None) of
          Some off \<Rightarrow> if fits_int (line + off) then emit bs TOKEN_NUMBER (show_int (if line + off < 1 then 1 else line + off)) else Undefined
        | None \<Rightarrow> emit bs TOKEN_NUMBER (show_int line))
     else if name = Some ''__BASE_FILE__'' then emit bs TOKEN_STRING (or_empty (bs_baseFile bs))
     else if name = Some ''__COUNTER__'' then
       (case bs_counter bs of
          Some n \<Rightarrow> if fits_int (n + 1) then emit (bs\<lparr>bs_counter := Some (n + 1)\<rparr>) TOKEN_NUMBER (show_int n) else Undefined
        | None \<Rightarrow> emit bs TOKEN_NUMBER ''0'')
     else if name = Some ''__DATE__'' then emit bs TOKEN_STRING (or_empty (bs_dateString bs))
     else if name = Some ''__TIME__'' then emit bs TOKEN_STRING (or_empty (bs_timeString bs))
     else Done None)"

section \<open>Arguments\<close>

text \<open>
  The loop of \<open>parse_macro_argument_tokens\<close> from index \<open>idx\<close> on: the finished arguments, the current one and the
  index behind the closing parenthesis; \<open>None\<close> where the input ends before it.
\<close>

fun argument_loop :: "Token list \<Rightarrow> int \<Rightarrow> PPTokenBuffer \<Rightarrow> PPTokenBuffer list \<Rightarrow> nat \<Rightarrow> (PPTokenBuffer list \<times> PPTokenBuffer \<times> nat) option" where
  "argument_loop [] depth current args idx = None"
| "argument_loop (tok # ts) depth current args idx =
    (if tk_type tok = TOKEN_RPAREN \<and> depth = 0 then Some (args, current, idx + 1)
     else if tk_type tok = TOKEN_COMMA \<and> depth = 0 then argument_loop ts depth [] (args @ [current]) (idx + 1)
     else
       let depth' = (if tk_type tok = TOKEN_LPAREN then depth + 1 else if tk_type tok = TOKEN_RPAREN then depth - 1 else depth)
       in argument_loop ts depth' (current @ [tok]) args (idx + 1))"

definition parse_macro_argument_tokens :: "Token list \<Rightarrow> nat \<Rightarrow> MacroDefinition \<Rightarrow> (PPTokenBuffer list \<times> nat) option" where
  "parse_macro_argument_tokens input cursor def =
    (case argument_loop (drop cursor input) 0 [] [] cursor of
       None \<Rightarrow> None
     | Some (args, current, idx) \<Rightarrow>
         let needFinal = (current \<noteq> [] \<or> args \<noteq> [] \<or> mp_names (md_params def) \<noteq> [] \<or> mp_variadic (md_params def))
         in Some (if needFinal then args @ [current] else args, idx))"

definition raw_arg :: "PPTokenBuffer \<Rightarrow> MacroArg" where
  "raw_arg ts = \<lparr>ma_raw = ts, ma_expanded = []\<rparr>"

definition build_macro_arg_pack ::
    "MacroExpander \<Rightarrow> MacroDefinition \<Rightarrow> PPTokenBuffer list \<Rightarrow> SourceRange \<Rightarrow> MacroExpander \<times> MacroArgPack option" where
  "build_macro_arg_pack ex def rawArgs callSite =
    (let expected = length (mp_names (md_params def));
         provided = (if expected > 0 \<and> rawArgs = [[]] then 0 else length rawArgs) in
     if (if \<not> mp_variadic (md_params def) then provided \<noteq> expected else provided < expected)
     then (macro_expander_set_arg_count_error ex def callSite expected provided, None)
     else if expected > length rawArgs then (ex, None)
     else (ex, Some \<lparr>mp_positionals = map raw_arg (take expected rawArgs),
                     mp_variadics = map raw_arg (take (provided - expected) (drop expected rawArgs))\<rparr>))"

text \<open>\<open>ev\<close> is \<open>macro_expander_expand\<close>; an empty argument is not handed to it.\<close>

type_synonym expansion = "MacroExpander \<Rightarrow> Token list \<Rightarrow> PPTokenBuffer attempt"

fun expand_each :: "expansion \<Rightarrow> MacroExpander \<Rightarrow> MacroArg list \<Rightarrow> MacroArg list attempt" where
  "expand_each ev ex [] = Done (ex, Some [])"
| "expand_each ev ex (a # as) =
    abind (if ma_raw a = [] then Done (ex, Some []) else ev ex (ma_raw a)) (\<lambda>ex1 ts.
    abind (expand_each ev ex1 as) (\<lambda>ex2 bs. Done (ex2, Some (a\<lparr>ma_expanded := ts\<rparr> # bs))))"

definition expand_macro_arguments :: "expansion \<Rightarrow> MacroExpander \<Rightarrow> MacroArgPack \<Rightarrow> MacroArgPack attempt" where
  "expand_macro_arguments ev ex pack =
    abind (expand_each ev ex (mp_positionals pack)) (\<lambda>ex1 ps.
    abind (expand_each ev ex1 (mp_variadics pack)) (\<lambda>ex2 vs. Done (ex2, Some \<lparr>mp_positionals = ps, mp_variadics = vs\<rparr>)))"

section \<open>Substitution\<close>

fun macro_param_index_from :: "string \<Rightarrow> string list \<Rightarrow> nat option" where
  "macro_param_index_from name [] = None"
| "macro_param_index_from name (p # ps) = (if p = name then Some 0 else map_option Suc (macro_param_index_from name ps))"

definition macro_param_index :: "MacroDefinition \<Rightarrow> cstr \<Rightarrow> nat option" where
  "macro_param_index def nm = (case nm of None \<Rightarrow> None | Some name \<Rightarrow> macro_param_index_from name (mp_names (md_params def)))"

definition make_simple_token :: "TokenType \<Rightarrow> string \<Rightarrow> SourceRange \<Rightarrow> Token" where
  "make_simple_token ty txt origin =
    \<lparr>tk_type = ty, tk_value = Some txt, tk_line = sl_line (sr_start origin), tk_spellingLine = sl_line (sr_start origin),
     tk_spellingColumn = sl_column (sr_start origin), tk_location = origin, tk_macroCallSite = empty_range,
     tk_macroDefinition = empty_range\<rparr>"

definition token_text :: "Token \<Rightarrow> string" where
  "token_text tok = (case tk_value tok of Some s \<Rightarrow> s | None \<Rightarrow> '''')"

text \<open>The buffers with a comma between them.\<close>

fun join_buffers :: "Token \<Rightarrow> PPTokenBuffer list \<Rightarrow> PPTokenBuffer" where
  "join_buffers comma [] = []"
| "join_buffers comma [b] = b"
| "join_buffers comma (b # bs) = b @ comma # join_buffers comma bs"

definition append_variadic_tokens :: "MacroArgPack \<Rightarrow> bool \<Rightarrow> SourceRange \<Rightarrow> PPTokenBuffer" where
  "append_variadic_tokens pack useRaw origin =
    join_buffers (make_simple_token TOKEN_COMMA '','' origin) (map (if useRaw then ma_raw else ma_expanded) (mp_variadics pack))"

fun escape_text :: "string \<Rightarrow> string" where
  "escape_text [] = []"
| "escape_text (c # cs) = (if c = CHR 0x5C \<or> c = CHR 0x22 then [CHR 0x5C, c] else [c]) @ escape_text cs"

fun stringify_tokens :: "Token list \<Rightarrow> string" where
  "stringify_tokens [] = ''''"
| "stringify_tokens [t] = escape_text (token_text t)"
| "stringify_tokens (t # ts) = escape_text (token_text t) @ CHR '' '' # stringify_tokens ts"

definition append_stringified_argument :: "PPTokenBuffer \<Rightarrow> SourceRange \<Rightarrow> Token" where
  "append_stringified_argument raw origin = make_simple_token TOKEN_STRING (stringify_tokens raw) origin"

text \<open>A comma only where something has been collected before.\<close>

fun stringify_collect :: "Token \<Rightarrow> PPTokenBuffer \<Rightarrow> PPTokenBuffer list \<Rightarrow> PPTokenBuffer" where
  "stringify_collect comma acc [] = acc"
| "stringify_collect comma acc (b # bs) = stringify_collect comma ((if acc \<noteq> [] then acc @ [comma] else acc) @ b) bs"

definition stringify_variadic_arguments :: "MacroArgPack \<Rightarrow> SourceRange \<Rightarrow> Token" where
  "stringify_variadic_arguments pack origin =
    append_stringified_argument
      (stringify_collect (make_simple_token TOKEN_COMMA '','' origin) [] (map ma_raw (mp_variadics pack))) origin"

section \<open>Pasting\<close>

definition relex_single_token :: "string \<Rightarrow> SourceRange \<Rightarrow> Token option evaluation" where
  "relex_single_token txt origin =
    (case getNextToken (initLexer (Some txt) (Some ''<macro paste>'') False) of
       None \<Rightarrow> Undefined
     | Some (t1, lx) \<Rightarrow>
         if tk_type t1 = TOKEN_EOF then Done None
         else (case getNextToken lx of
                 None \<Rightarrow> Undefined
               | Some (t2, lx') \<Rightarrow>
                   if tk_type t2 \<noteq> TOKEN_EOF then Done None
                   else Done (Some (t1\<lparr>tk_location := origin, tk_line := sl_line (sr_start origin),
                     tk_spellingLine := sl_line (sr_start origin), tk_spellingColumn := sl_column (sr_start origin),
                     tk_macroCallSite := empty_range, tk_macroDefinition := empty_range\<rparr>))))"

definition paste_origin :: "Token \<Rightarrow> Token \<Rightarrow> SourceRange \<Rightarrow> SourceRange" where
  "paste_origin left right origin =
    (if range_is_initialized (tk_macroCallSite left) then tk_macroCallSite left
     else if range_is_initialized (tk_macroCallSite right) then tk_macroCallSite right else origin)"

text \<open>The loop over the buffer with the pending token; \<open>None\<close> as the result: the pasted text is not one token.\<close>

function paste_loop :: "SourceRange \<Rightarrow> Token list \<Rightarrow> Token option \<Rightarrow> PPTokenBuffer \<Rightarrow> PPTokenBuffer option evaluation" where
  "paste_loop origin [] pending res = Done (Some (case pending of Some p \<Rightarrow> res @ [p] | None \<Rightarrow> res))"
| "paste_loop origin (tok # ts) pending res =
    (if tk_type tok = TOKEN_DOUBLE_HASH then
       (case pending of
          None \<Rightarrow> paste_loop origin ts None res
        | Some p \<Rightarrow>
            (case dropWhile (\<lambda>t. tk_type t = TOKEN_DOUBLE_HASH) ts of
               [] \<Rightarrow> paste_loop origin ts (if tk_type p = TOKEN_COMMA then None else Some p) res
             | right # rest \<Rightarrow>
                 let po = paste_origin p right origin in
                 obind (relex_single_token (token_text p @ token_text right) po) (\<lambda>r.
                   case r of
                     None \<Rightarrow> Done None
                   | Some t \<Rightarrow> paste_loop origin rest (Some (t\<lparr>tk_macroCallSite := po\<rparr>)) res)))
     else paste_loop origin ts (Some tok) (case pending of Some p \<Rightarrow> res @ [p] | None \<Rightarrow> res))"
  by pat_completeness auto
termination
proof (relation "measure (\<lambda>(origin, ts, pending, res). length ts)")
  fix origin tok ts pending res p right rest po r t
  assume "dropWhile (\<lambda>t. tk_type t = TOKEN_DOUBLE_HASH) ts = (right :: Token) # rest"
  then have "length rest < length ts" by (metis Suc_le_eq length_Cons length_dropWhile_le)
  then show "((origin :: SourceRange, rest, Some (t\<lparr>tk_macroCallSite := po\<rparr>) :: Token option, res :: Token list), origin, tok # ts, pending, res)
      \<in> measure (\<lambda>(origin, ts, pending, res). length ts)" by simp
qed auto

definition apply_token_paste :: "PPTokenBuffer \<Rightarrow> SourceRange \<Rightarrow> PPTokenBuffer option evaluation" where
  "apply_token_paste buffer origin = (if buffer = [] then Done (Some []) else paste_loop origin buffer None [])"

section \<open>Substitution of a body\<close>

text \<open>The index of the parenthesis that closes \<open>__VA_OPT__\<close>, scanning from index \<open>j\<close> at a depth.\<close>

fun va_opt_close :: "Token list \<Rightarrow> nat \<Rightarrow> nat \<Rightarrow> nat option" where
  "va_opt_close [] depth j = None"
| "va_opt_close (t # ts) depth j =
    (if tk_type t = TOKEN_LPAREN then va_opt_close ts (depth + 1) (j + 1)
     else if tk_type t = TOKEN_RPAREN then if depth \<le> 1 then Some j else va_opt_close ts (depth - 1) (j + 1)
     else va_opt_close ts depth (j + 1))"

text \<open>
  What stands for the token at an index of the body: tokens, and the index to go on at; the tokens between two
  indices, substituted in their turn (\<open>__VA_OPT__\<close>); the rejected \<open>, ## __VA_ARGS__\<close>; a null text compared.
\<close>

datatype piece = Piece "Token list" nat | Optional nat nat | Rejected | Null_text

definition has_type :: "Token list \<Rightarrow> nat \<Rightarrow> TokenType \<Rightarrow> bool" where
  "has_type ts i ty \<longleftrightarrow> i < length ts \<and> tk_type (ts ! i) = ty"

definition identifier_piece :: "MacroDefinition \<Rightarrow> MacroArgPack \<Rightarrow> SourceRange \<Rightarrow> nat \<Rightarrow> piece" where
  "identifier_piece def pack callSite i =
    (let body = md_body def; tok = body ! i;
         leftPaste = (i > 0 \<and> has_type body (i - 1) TOKEN_DOUBLE_HASH);
         rightPaste = has_type body (i + 1) TOKEN_DOUBLE_HASH in
     case macro_param_index def (tk_value tok) of
       Some k \<Rightarrow>
         Piece ((if leftPaste \<or> rightPaste \<or> token_is_defined_operand_context body i then ma_raw else ma_expanded)
           (mp_positionals pack ! k)) (i + 1)
     | None \<Rightarrow>
         if \<not> mp_variadic (md_params def) then Piece [tok] (i + 1)
         else case tk_value tok of
             None \<Rightarrow> Null_text
           | Some v \<Rightarrow>
               if v \<noteq> ''__VA_ARGS__'' then Piece [tok] (i + 1)
               else if leftPaste \<and> i > 1 \<and> tk_type (body ! (i - 2)) = TOKEN_COMMA then Rejected
               else Piece (append_variadic_tokens pack (leftPaste \<or> rightPaste) callSite) (i + 1))"

definition substitute_piece :: "MacroDefinition \<Rightarrow> MacroArgPack option \<Rightarrow> SourceRange \<Rightarrow> nat \<Rightarrow> piece" where
  "substitute_piece def args callSite i =
    (let body = md_body def; tok = body ! i; nxt = body ! (i + 1); variadic = mp_variadic (md_params def);
         plain = Piece [tok] (i + 1) in
     case args of
       None \<Rightarrow> plain
     | Some pack \<Rightarrow>
         if md_kind def \<noteq> MACRO_FUNCTION then plain
         else if tk_type tok = TOKEN_HASH then
           if \<not> has_type body (i + 1) TOKEN_IDENTIFIER then plain
           else (case macro_param_index def (tk_value nxt) of
                   Some k \<Rightarrow> Piece [append_stringified_argument (ma_raw (mp_positionals pack ! k)) callSite] (i + 2)
                 | None \<Rightarrow>
                     if \<not> variadic then plain
                     else case tk_value nxt of
                         None \<Rightarrow> Null_text
                       | Some v \<Rightarrow> if v = ''__VA_ARGS__'' then Piece [stringify_variadic_arguments pack callSite] (i + 2) else plain)
         else if tk_type tok = TOKEN_IDENTIFIER then
           (case (if variadic \<and> mp_hasVaOpt (md_params def) \<and> tk_value tok = Some ''__VA_OPT__'' \<and> has_type body (i + 1) TOKEN_LPAREN
                  then va_opt_close (drop (i + 2) body) 1 (i + 2) else None) of
              None \<Rightarrow> identifier_piece def pack callSite i
            | Some j \<Rightarrow>
                if j \<le> i + 2 then identifier_piece def pack callSite i
                else if mp_variadics pack \<noteq> [] then Optional (i + 2) j else Piece [] (j + 1))
         else plain)"

definition mark_origin :: "SourceRange \<Rightarrow> SourceRange \<Rightarrow> Token \<Rightarrow> Token" where
  "mark_origin callSite defRange t =
    t\<lparr>tk_macroCallSite := if range_is_initialized (tk_macroCallSite t) then tk_macroCallSite t else callSite,
      tk_macroDefinition := if range_is_initialized (tk_macroDefinition t) then tk_macroDefinition t else defRange\<rparr>"

text \<open>The end of \<open>substitute_macro\<close>: pasting, then the marks.\<close>

definition finish_substitution :: "MacroDefinition \<Rightarrow> SourceRange \<Rightarrow> MacroExpander \<Rightarrow> PPTokenBuffer \<Rightarrow> PPTokenBuffer attempt" where
  "finish_substitution def callSite ex working =
    obind (apply_token_paste working callSite) (\<lambda>r. Done (ex, map_option (map (mark_origin callSite (md_range def))) r))"

definition inner_definition :: "MacroDefinition \<Rightarrow> nat \<Rightarrow> nat \<Rightarrow> MacroDefinition" where
  "inner_definition def start j = def\<lparr>md_body := take (j - start) (drop start (md_body def))\<rparr>"

lemma va_opt_close_range: "va_opt_close ts d j = Some k \<Longrightarrow> j \<le> k \<and> k < j + length ts"
  by (induction ts d j rule: va_opt_close.induct) (auto split: if_splits)

lemma identifier_piece_advances: "identifier_piece def pack cs i = Piece ts k \<Longrightarrow> i < k"
  by (auto simp: identifier_piece_def Let_def split: option.splits if_splits)

lemma identifier_piece_plain: "identifier_piece def pack cs i \<noteq> Optional a b"
  by (auto simp: identifier_piece_def Let_def split: option.splits if_splits)

lemma substitute_piece_advances: "substitute_piece def args cs i = Piece ts k \<Longrightarrow> i < k"
  by (auto simp: substitute_piece_def Let_def dest: identifier_piece_advances va_opt_close_range split: option.splits if_splits)

lemma substitute_piece_inner:
  assumes "substitute_piece def args cs i = Optional a b"
  shows "i < a \<and> a < b \<and> b < length (md_body def)"
  using assms by (auto simp: substitute_piece_def Let_def identifier_piece_plain dest!: va_opt_close_range split: option.splits if_splits)

function substitute_loop ::
    "MacroDefinition \<Rightarrow> MacroArgPack option \<Rightarrow> SourceRange \<Rightarrow> MacroExpander \<Rightarrow> nat \<Rightarrow> PPTokenBuffer \<Rightarrow> PPTokenBuffer attempt" where
  "substitute_loop def args callSite ex i working =
    (if i \<ge> length (md_body def) then Done (ex, Some working)
     else case substitute_piece def args callSite i of
         Piece ts k \<Rightarrow> substitute_loop def args callSite ex k (working @ ts)
       | Optional start j \<Rightarrow>
           abind (substitute_loop (inner_definition def start j) args callSite ex 0 []) (\<lambda>ex1 w.
           abind (finish_substitution (inner_definition def start j) callSite ex1 w) (\<lambda>ex2 out.
             substitute_loop def args callSite ex2 (j + 1) (working @ out)))
       | Rejected \<Rightarrow> Done (macro_expander_set_unsupported_gnu_comma_va_args_error ex def callSite, None)
       | Null_text \<Rightarrow> Undefined)"
  by pat_completeness auto
termination
  by (relation "(\<lambda>(def, args, cs, ex, i, w). length (md_body def)) <*mlex*> measure (\<lambda>(def, args, cs, ex, i, w). length (md_body def) - i)")
    (auto simp: wf_mlex mlex_prod_def inner_definition_def dest!: substitute_piece_advances substitute_piece_inner)

declare substitute_loop.simps [simp del]

definition substitute_macro ::
    "MacroExpander \<Rightarrow> MacroDefinition \<Rightarrow> MacroArgPack option \<Rightarrow> SourceRange \<Rightarrow> PPTokenBuffer attempt" where
  "substitute_macro ex def args callSite = abind (substitute_loop def args callSite ex 0 []) (finish_substitution def callSite)"

section \<open>Rescanning\<close>

definition push_expansion :: "MacroExpander \<Rightarrow> nat \<Rightarrow> SourceRange \<Rightarrow> MacroExpander \<times> bool" where
  "push_expansion ex m callRange =
    (case me_table ex of
       None \<Rightarrow> (ex, False)
     | Some t \<Rightarrow>
         let (t', ok) = macro_table_push_expansion t m callRange (md_range (mt_macros t ! m))
         in (ex\<lparr>me_table := Some t'\<rparr>, ok))"

definition pop_expansion :: "MacroExpander \<Rightarrow> nat \<Rightarrow> MacroExpander" where
  "pop_expansion ex m = ex\<lparr>me_table := map_option (\<lambda>t. macro_table_pop_expansion t (Some m)) (me_table ex)\<rparr>"

text \<open>What is done while a macro is on the stack.\<close>

definition popped :: "nat \<Rightarrow> 'a attempt \<Rightarrow> 'a attempt" where
  "popped m at = obind at (\<lambda>(ex, r). Done (pop_expansion ex m, r))"

abbreviation error_kind :: "MacroExpander \<Rightarrow> MacroExpandError" where
  "error_kind ex \<equiv> ee_kind (me_lastError ex)"

definition replace_call ::
    "expansion \<Rightarrow> MacroExpander \<Rightarrow> nat \<Rightarrow> MacroDefinition \<Rightarrow> MacroArgPack option \<Rightarrow> SourceRange \<Rightarrow> PPTokenBuffer attempt" where
  "replace_call ev ex m def args callRange =
    (let (ex1, pushed) = push_expansion ex m callRange in
     if \<not> pushed then Done (ex1, None) else popped m (abind (substitute_macro ex1 def args callRange) ev))"

text \<open>
  A macro name that ends an expansion, with its arguments behind it in the input. The result: false; true without
  a call found (\<open>Some None\<close>); true with the tokens to append and the index of the last token consumed.
\<close>

definition try_expand_function_like_alias_boundary ::
    "expansion \<Rightarrow> MacroExpander \<Rightarrow> Token list \<Rightarrow> nat \<Rightarrow> PPTokenBuffer \<Rightarrow> (PPTokenBuffer \<times> nat) option attempt" where
  "try_expand_function_like_alias_boundary ev ex input currentIndex expanded =
    (let callee = expanded ! (length expanded - 1); unhandled = (\<lambda>ex. Done (ex, Some None)) in
     case me_table ex of
       None \<Rightarrow> unhandled ex
     | Some table \<Rightarrow>
         if expanded = [] \<or> \<not> has_type input (currentIndex + 1) TOKEN_LPAREN \<or> tk_type callee \<noteq> TOKEN_IDENTIFIER then unhandled ex
         else case Option.bind (tk_value callee) (macro_table_find_mut table) of
             None \<Rightarrow> unhandled ex
           | Some m \<Rightarrow>
               let def = mt_macros table ! m; callRange = call_range callee in
               if md_kind def \<noteq> MACRO_FUNCTION \<or> macro_table_is_expanding table (md_name def) then unhandled ex
               else case parse_macro_argument_tokens input (currentIndex + 2) def of
                   None \<Rightarrow> Done (ex, if error_kind ex = ME_ERR_NONE then Some None else None)
                 | Some (rawArgs, cursor) \<Rightarrow>
                     (case build_macro_arg_pack ex def rawArgs callRange of
                        (ex1, None) \<Rightarrow> Done (ex1, if error_kind ex1 = ME_ERR_NONE then Some None else None)
                      | (ex1, Some pack) \<Rightarrow>
                          abind (expand_macro_arguments ev ex1 pack) (\<lambda>ex2 pack2.
                          abind (replace_call ev ex2 m def (Some pack2) callRange) (\<lambda>ex3 nested.
                            Done (ex3, Some (Some (butlast expanded @ nested, cursor - 1)))))))"

text \<open>The output's last token with arguments behind it in the input; the changed output and the index.\<close>

definition try_expand_accumulated_function_boundary ::
    "expansion \<Rightarrow> MacroExpander \<Rightarrow> Token list \<Rightarrow> nat \<Rightarrow> PPTokenBuffer \<Rightarrow> (PPTokenBuffer \<times> nat) option attempt" where
  "try_expand_accumulated_function_boundary ev ex input currentIndex out =
    (if out = [] then Done (ex, Some None)
     else abind (try_expand_function_like_alias_boundary ev ex input currentIndex [last out]) (\<lambda>ex1 r.
       Done (ex1, Some (map_option (\<lambda>(ts, c). (butlast out @ ts, c)) r))))"

lemma argument_loop_advances: "argument_loop ts d cur args idx = Some (as, c, k) \<Longrightarrow> idx < k"
  by (induction ts d cur args idx rule: argument_loop.induct) (auto simp: Let_def split: if_splits)

lemma parse_arguments_advances: "parse_macro_argument_tokens input cursor def = Some (raw, k) \<Longrightarrow> cursor < k"
  by (auto simp: parse_macro_argument_tokens_def Let_def dest!: argument_loop_advances split: option.splits)

lemma boundary_advances:
  assumes "try_expand_function_like_alias_boundary ev ex input i expanded = Done (ex', Some (Some (ts, c)))"
  shows "i < c"
proof -
  have "\<exists>def raw k. parse_macro_argument_tokens input (i + 2) def = Some (raw, k) \<and> c = k - 1"
    using assms unfolding try_expand_function_like_alias_boundary_def Let_def
    by (auto simp: abind_Some split: option.splits if_splits prod.splits)
  then show ?thesis using parse_arguments_advances by fastforce
qed

lemma accumulated_advances:
  assumes "try_expand_accumulated_function_boundary ev ex input i out = Done (ex', Some (Some (ts, c)))"
  shows "i < c"
  using assms by (auto simp: try_expand_accumulated_function_boundary_def abind_Some dest!: boundary_advances split: if_splits)

text \<open>The loop behind a call whose expansion took arguments from the input: the output and the index to go on at.\<close>

function accumulate_loop :: "expansion \<Rightarrow> Token list \<Rightarrow> nat \<Rightarrow> PPTokenBuffer \<Rightarrow> MacroExpander \<Rightarrow> (PPTokenBuffer \<times> nat) attempt" where
  "accumulate_loop ev input cursor out ex =
    (if \<not> has_type input cursor TOKEN_LPAREN then Done (ex, Some (out, cursor))
     else case try_expand_accumulated_function_boundary ev ex input (cursor - 1) out of
         Undefined \<Rightarrow> Undefined
       | Fail e \<Rightarrow> Fail e
       | Done (ex1, None) \<Rightarrow> Done (ex1, None)
       | Done (ex1, Some None) \<Rightarrow> Done (ex1, Some (out, cursor))
       | Done (ex1, Some (Some (out1, c))) \<Rightarrow> accumulate_loop ev input (c + 1) out1 ex1)"
  by pat_completeness auto
termination
  by (relation "measure (\<lambda>(ev, input, cursor, out, ex). length input - cursor)")
    (auto simp: has_type_def dest!: accumulated_advances)

declare accumulate_loop.simps [simp del]

section \<open>Expansion\<close>

text \<open>The macro at a token: the token stays as it is, or the output and the index to go on at change.\<close>

definition object_step ::
    "expansion \<Rightarrow> MacroExpander \<Rightarrow> Token list \<Rightarrow> nat \<Rightarrow> PPTokenBuffer \<Rightarrow> nat \<Rightarrow> MacroDefinition \<Rightarrow> (PPTokenBuffer \<times> nat) attempt" where
  "object_step ev ex input i out m def =
    abind (replace_call ev ex m def None (call_range (input ! i))) (\<lambda>ex1 nested.
    abind (try_expand_function_like_alias_boundary ev ex1 input i nested) (\<lambda>ex2 b.
      Done (ex2, Some (case b of None \<Rightarrow> (out @ nested, i + 1) | Some (ts, c) \<Rightarrow> (out @ ts, c + 1)))))"

text \<open>The call of a function-like macro, its arguments collected and expanded, the input consumed before \<open>cursor\<close>.\<close>

definition call_step ::
    "expansion \<Rightarrow> MacroExpander \<Rightarrow> Token list \<Rightarrow> nat \<Rightarrow> PPTokenBuffer \<Rightarrow> nat \<Rightarrow> MacroDefinition \<Rightarrow> MacroArgPack \<Rightarrow> nat \<Rightarrow> (PPTokenBuffer \<times> nat) attempt" where
  "call_step ev ex input i out m def pack cursor =
    (let callRange = call_range (input ! i); (ex1, pushed) = push_expansion ex m callRange in
     if \<not> pushed then Done (ex1, Some (out @ [input ! i], i + 1))
     else abind (popped m (abind (substitute_macro ex1 def (Some pack) callRange) (\<lambda>ex2 replaced.
         abind (ev ex2 replaced) (\<lambda>ex3 nested.
         abind (try_expand_function_like_alias_boundary ev ex3 input (cursor - 1) nested) (\<lambda>ex4 b.
           Done (ex4, Some (nested, b))))))) (\<lambda>ex5 (nested, b).
       case b of
         None \<Rightarrow> Done (ex5, Some (out @ nested, cursor))
       | Some (ts, c) \<Rightarrow> accumulate_loop ev input (c + 1) (out @ ts) ex5))"

definition function_step ::
    "expansion \<Rightarrow> MacroExpander \<Rightarrow> Token list \<Rightarrow> nat \<Rightarrow> PPTokenBuffer \<Rightarrow> nat \<Rightarrow> MacroDefinition \<Rightarrow> (PPTokenBuffer \<times> nat) attempt" where
  "function_step ev ex input i out m def =
    (let plain = (\<lambda>ex. Done (ex, Some (out @ [input ! i], i + 1))) in
     if \<not> has_type input (i + 1) TOKEN_LPAREN then plain ex
     else case parse_macro_argument_tokens input (i + 2) def of
         None \<Rightarrow> plain ex
       | Some (rawArgs, cursor) \<Rightarrow>
           (case build_macro_arg_pack ex def rawArgs (call_range (input ! i)) of
              (ex1, None) \<Rightarrow> if error_kind ex1 \<noteq> ME_ERR_NONE then Done (ex1, None) else plain ex1
            | (ex1, Some pack) \<Rightarrow>
                obind (expand_macro_arguments ev ex1 pack) (\<lambda>(ex2, r).
                  case r of None \<Rightarrow> plain ex2 | Some pack2 \<Rightarrow> call_step ev ex2 input i out m def pack2 cursor)))"

definition expand_step ::
    "expansion \<Rightarrow> MacroExpander \<Rightarrow> Token list \<Rightarrow> nat \<Rightarrow> PPTokenBuffer \<Rightarrow> (PPTokenBuffer \<times> nat) attempt" where
  "expand_step ev ex input i out =
    (let tok = input ! i; plain = Done (ex, Some (out @ [tok], i + 1)) in
     if tk_type tok \<noteq> TOKEN_IDENTIFIER
     then let span = takeWhile (\<lambda>t. tk_type t \<noteq> TOKEN_IDENTIFIER) (drop i input) in Done (ex, Some (out @ span, i + length span))
     else obind (handle_builtin_identifier (me_builtins ex) tok) (\<lambda>b.
       case b of
         Some (bs, t) \<Rightarrow> Done (ex\<lparr>me_builtins := bs\<rparr>, Some (out @ [t], i + 1))
       | None \<Rightarrow>
           case me_table ex of
             None \<Rightarrow> plain
           | Some table \<Rightarrow>
               if me_preserve ex \<and> token_is_defined_operand_context input i then plain
               else case Option.bind (tk_value tok) (macro_table_find_mut table) of
                   None \<Rightarrow> plain
                 | Some m \<Rightarrow>
                     let def = mt_macros table ! m in
                     if macro_table_is_expanding table (tk_value tok) then plain
                     else (case md_kind def of
                             MACRO_OBJECT \<Rightarrow> object_step ev ex input i out m def
                           | MACRO_FUNCTION \<Rightarrow> function_step ev ex input i out m def)))"

lemma accumulate_loop_advances: "accumulate_loop ev input cursor out ex = Done (ex', Some (out', k)) \<Longrightarrow> cursor \<le> k"
proof (induction ev input cursor out ex rule: accumulate_loop.induct)
  case (1 ev input cursor out ex)
  let ?attempt = "try_expand_accumulated_function_boundary ev ex input (cursor - 1) out"
  show ?case
  proof (cases "\<exists>ex1 out1 c. has_type input cursor TOKEN_LPAREN \<and> ?attempt = Done (ex1, Some (Some (out1, c)))")
    case True
    then obtain ex1 out1 c where t: "has_type input cursor TOKEN_LPAREN" "?attempt = Done (ex1, Some (Some (out1, c)))" by blast
    then have "accumulate_loop ev input (c + 1) out1 ex1 = Done (ex', Some (out', k))"
      using "1.prems" by (subst (asm) accumulate_loop.simps) simp
    then have "c + 1 \<le> k" using "1.IH" t by simp
    then show ?thesis using accumulated_advances [OF t(2)] by linarith
  next
    case False
    then show ?thesis
      using "1.prems" by (subst (asm) accumulate_loop.simps) (auto split: if_splits outcome.splits prod.splits option.splits)
  qed
qed

lemma step_advances:
  assumes "expand_step ev ex input i out = Done (ex', Some (out', k))" "i < length input"
  shows "i < k"
proof -
  have span: "0 < length (takeWhile (\<lambda>t. tk_type t \<noteq> TOKEN_IDENTIFIER) (drop i input))" if "tk_type (input ! i) \<noteq> TOKEN_IDENTIFIER"
    using that assms(2) by (simp add: Cons_nth_drop_Suc [symmetric])
  have obj: "object_step ev ex input i out m def = Done (ex', Some (out', k)) \<Longrightarrow> i < k" for m def
    by (auto simp: object_step_def Let_def abind_Some dest!: boundary_advances split: if_splits prod.splits option.splits)
  have call: "call_step ev ex2 input i out m def pack cursor = Done (ex', Some (out', k)) \<Longrightarrow> Suc (Suc i) < cursor \<Longrightarrow> i < k" for ex2 m def pack cursor
    by (auto simp: call_step_def Let_def abind_Some popped_def obind_Done
        dest!: boundary_advances accumulate_loop_advances split: if_splits prod.splits option.splits)
  have fn: "function_step ev ex input i out m def = Done (ex', Some (out', k)) \<Longrightarrow> i < k" for m def
    by (auto simp: function_step_def Let_def obind_Done dest!: parse_arguments_advances dest: call split: if_splits prod.splits option.splits)
  show ?thesis
    using assms(1) span obj fn by (auto simp: expand_step_def Let_def obind_Done split: if_splits option.splits MacroKind.splits)
qed

function expand_loop :: "expansion \<Rightarrow> Token list \<Rightarrow> nat \<Rightarrow> PPTokenBuffer \<Rightarrow> MacroExpander \<Rightarrow> PPTokenBuffer attempt" where
  "expand_loop ev input i out ex =
    (if i \<ge> length input then Done (ex, Some out)
     else case expand_step ev ex input i out of
         Undefined \<Rightarrow> Undefined
       | Fail e \<Rightarrow> Fail e
       | Done (ex1, None) \<Rightarrow> Done (ex1, None)
       | Done (ex1, Some (out1, k)) \<Rightarrow> expand_loop ev input k out1 ex1)"
  by pat_completeness auto
termination
  by (relation "measure (\<lambda>(ev, input, i, out, ex). length input - i)") (auto dest!: step_advances)

declare expand_loop.simps [simp del]

fun macro_expander_expand :: "nat \<Rightarrow> expansion" where
  "macro_expander_expand 0 ex input = Fail ()"
| "macro_expander_expand (Suc fuel) ex input =
    (let ex0 = macro_expander_clear_error ex
     in if input = [] then Done (ex0, Some []) else expand_loop (macro_expander_expand fuel) input 0 [] ex0)"

end
