(* ===== verification/Macro_Expander_Props.thy ===== *)
theory Macro_Expander_Props
  imports Macro_Expander Macro_Table_Props
begin

text \<open>
  Macro expansion ends. The depth of the calls of \<open>macro_expander_expand\<close> is bounded by the macros that are not on the
  expansion stack and, between two pushes, by the length of the input: arguments are parts of it. The rules for
  \<open>settles\<close> follow the program: sequencing, a call under a pushed macro, the loops.
\<close>

section \<open>Expansion ends and keeps the table\<close>

text \<open>The table after a call: the definitions, the stack and the limit are those before.\<close>

definition table_kept :: "MacroExpander \<Rightarrow> MacroExpander \<Rightarrow> bool" where
  "table_kept ex ex' \<longleftrightarrow> me_preserve ex' = me_preserve ex \<and>
    (case (me_table ex, me_table ex') of
       (None, None) \<Rightarrow> True
     | (Some t, Some t') \<Rightarrow> mt_macros t' = mt_macros t \<and> mt_stack t' = mt_stack t \<and> mt_limit t' = mt_limit t
     | _ \<Rightarrow> False)"

lemma table_kept_refl [simp]: "table_kept ex ex"
  by (simp add: table_kept_def split: option.splits)

lemma table_kept_trans [trans]: "table_kept a b \<Longrightarrow> table_kept b c \<Longrightarrow> table_kept a c"
  by (auto simp: table_kept_def split: option.splits)

lemma table_kept_same: "me_table ex' = me_table ex \<Longrightarrow> me_preserve ex' = me_preserve ex \<Longrightarrow> table_kept ex ex'"
  by (simp add: table_kept_def split: option.splits)

text \<open>The macros that are not being expanded.\<close>

definition free_macros :: "MacroExpander \<Rightarrow> nat" where
  "free_macros ex =
    (case me_table ex of None \<Rightarrow> 0 | Some t \<Rightarrow> card ({..<length (mt_macros t)} - mf_macro ` set (mt_stack t)))"

lemma free_macros_kept: "table_kept ex ex' \<Longrightarrow> free_macros ex' = free_macros ex"
  by (auto simp: table_kept_def free_macros_def split: option.splits)

text \<open>
  A computation by fuel settles when from some fuel on it gives one result, and this is not that the fuel is
  used up; the table is kept.
\<close>

definition settles :: "MacroExpander \<Rightarrow> (nat \<Rightarrow> 'a attempt) \<Rightarrow> bool" where
  "settles ex f \<longleftrightarrow> (\<exists>r. r \<noteq> Fail () \<and> (\<forall>ex' x. r = Done (ex', x) \<longrightarrow> table_kept ex ex') \<and> (\<exists>n. \<forall>m\<ge>n. f m = r))"

lemma settles_Done: "table_kept ex ex' \<Longrightarrow> settles ex (\<lambda>n. Done (ex', x))"
  unfolding settles_def by (intro exI [of _ "Done (ex', x)"]) auto

lemma settles_Undefined: "settles ex (\<lambda>n. Undefined)"
  unfolding settles_def by (intro exI [of _ Undefined]) auto

lemma settles_obind:
  assumes f: "settles ex f"
    and g: "\<And>ex' x. table_kept ex ex' \<Longrightarrow> (\<exists>n. f n = Done (ex', x)) \<Longrightarrow> settles ex' (\<lambda>n. g n (ex', x))"
  shows "settles ex (\<lambda>n. obind (f n) (g n))"
proof -
  from f obtain r n where r: "r \<noteq> Fail ()" "\<forall>ex' x. r = Done (ex', x) \<longrightarrow> table_kept ex ex'" "\<forall>m\<ge>n. f m = r"
    unfolding settles_def by blast
  show ?thesis
  proof (cases r)
    case Undefined
    then show ?thesis using r(3) unfolding settles_def by (intro exI [of _ Undefined]) (auto intro!: exI [of _ n])
  next
    case (Done a)
    obtain ex' x where a: "a = (ex', x)" by (cases a)
    have k: "table_kept ex ex'" and ff: "\<exists>n. f n = Done (ex', x)" using r(2,3) Done a by auto
    from g [OF k ff] obtain s n' where s: "s \<noteq> Fail ()" "\<forall>ex'' y. s = Done (ex'', y) \<longrightarrow> table_kept ex' ex''" "\<forall>m\<ge>n'. g m (ex', x) = s"
      unfolding settles_def by blast
    have "\<forall>m\<ge>max n n'. obind (f m) (g m) = s" using r(3) s(3) Done a by simp
    then show ?thesis unfolding settles_def using s(1,2) table_kept_trans [OF k] by blast
  qed (use r(1) in simp)
qed

lemma settles_abind:
  assumes "settles ex f"
    and "\<And>ex' a. table_kept ex ex' \<Longrightarrow> (\<exists>n. f n = Done (ex', Some a)) \<Longrightarrow> settles ex' (\<lambda>n. g n ex' a)"
  shows "settles ex (\<lambda>n. abind (f n) (g n))"
  unfolding abind_def
proof (rule settles_obind [OF assms(1)])
  fix ex' x
  assume "table_kept ex ex'" "\<exists>n. f n = Done (ex', x)"
  then show "settles ex' (\<lambda>n. case (ex', x) of (ex, r) \<Rightarrow> case r of None \<Rightarrow> Done (ex, None) | Some a \<Rightarrow> g n ex a)"
    using assms(2) by (cases x) (auto simp: settles_Done)
qed

text \<open>What happens while a macro is on the stack, and is then popped.\<close>

lemma popped_kept:
  assumes push: "push_expansion ex m cr = (ex1, True)" and k: "table_kept ex1 ex2"
  shows "table_kept ex (pop_expansion ex2 m)"
proof -
  obtain t t1 where "me_table ex = Some t" "me_table ex1 = Some t1" "me_preserve ex1 = me_preserve ex"
      "mt_macros t1 = mt_macros t" "mt_limit t1 = mt_limit t" "\<exists>fr. mf_macro fr = m \<and> mt_stack t1 = mt_stack t @ [fr]"
    using push by (auto simp: push_expansion_def macro_table_push_expansion_def Let_def split: option.splits if_splits)
  then show ?thesis
    using k by (auto simp: table_kept_def pop_expansion_def macro_table_pop_expansion_def Let_def split: option.splits)
qed

lemma settles_popped:
  assumes push: "push_expansion ex m cr = (ex1, True)" and f: "settles ex1 f"
  shows "settles ex (\<lambda>n. popped m (f n))"
proof -
  from f obtain r n where r: "r \<noteq> Fail ()" "\<forall>ex' x. r = Done (ex', x) \<longrightarrow> table_kept ex1 ex'" "\<forall>m\<ge>n. f m = r"
    unfolding settles_def by blast
  have "popped m r \<noteq> Fail ()" "\<forall>ex' x. popped m r = Done (ex', x) \<longrightarrow> table_kept ex ex'"
    using r(1,2) popped_kept [OF push] by (cases r; auto simp: popped_def)+
  then show ?thesis using r(3) unfolding settles_def by (intro exI [of _ "popped m r"]) auto
qed

lemma push_frees:
  assumes "push_expansion ex m cr = (ex1, True)" "me_table ex = Some t" "macro_table_find_mut t name = Some m"
  shows "free_macros ex1 < free_macros ex"
proof -
  have ix: "m < length (mt_macros t) \<and> md_name (mt_macros t ! m) = Some name"
    using assms(3) macro_index_Some unfolding macro_table_find_mut_def by blast
  have new: "m \<notin> mf_macro ` set (mt_stack t)" and t1: "\<exists>t1 fr. me_table ex1 = Some t1 \<and> mt_macros t1 = mt_macros t \<and>
      mt_stack t1 = mt_stack t @ [fr] \<and> mf_macro fr = m"
    using assms(1,2) ix by (auto simp: push_expansion_def macro_table_push_expansion_def macro_table_is_expanding_def
        frame_name_def list_ex_iff Let_def split: option.splits if_splits)
  then have "free_macros ex1 = card (({..<length (mt_macros t)} - mf_macro ` set (mt_stack t)) - {m})"
    by (auto simp: free_macros_def set_diff_eq intro!: arg_cong [of _ _ card])
  also have "\<dots> < free_macros ex"
    using new ix assms(2) card_Diff1_less [of "{..<length (mt_macros t)} - mf_macro ` set (mt_stack t)" m]
    by (simp add: free_macros_def)
  finally show ?thesis .
qed

text \<open>
  A family of expansions by fuel, as \<open>macro_expander_expand\<close>, that settles where fewer macros are free, or as many
  and the input is shorter.
\<close>

definition settled_below :: "(nat \<Rightarrow> expansion) \<Rightarrow> nat \<Rightarrow> nat \<Rightarrow> bool" where
  "settled_below E free len \<longleftrightarrow>
    (\<forall>ex ts. free_macros ex < free \<or> free_macros ex = free \<and> length ts < len \<longrightarrow> settles ex (\<lambda>n. E n ex ts))"

lemma relex_not_fail: "relex_single_token txt origin \<noteq> Fail ()"
  by (simp add: relex_single_token_def split: option.split)

lemma paste_not_fail: "paste_loop origin ts pending res \<noteq> Fail ()"
proof (induction origin ts pending res rule: paste_loop.induct)
  case (2 origin tok ts pending res)
  then show ?case
    using relex_not_fail by (auto simp: Let_def obind_def split: option.splits list.splits outcome.splits)
qed simp

lemma settles_finish: "settles ex (\<lambda>n. finish_substitution def cs ex w)"
  using paste_not_fail by (auto simp: finish_substitution_def apply_token_paste_def obind_def settles_Done settles_Undefined
      split: outcome.split)

lemma settles_substitute_loop: "settles ex (\<lambda>n. substitute_loop def args cs ex i w)"
proof (induction def args cs ex i w rule: substitute_loop.induct)
  case (1 def args cs ex i w)
  show ?case
  proof (cases "i \<ge> length (md_body def)")
    case False
    show ?thesis
    proof (cases "substitute_piece def args cs i")
      case (Piece ts k)
      then show ?thesis using 1(1) [OF False Piece] False by (simp add: substitute_loop.simps [of def args cs ex i])
    next
      case (Optional a b)
      have "substitute_loop def args cs ex i w =
          abind (substitute_loop (inner_definition def a b) args cs ex 0 []) (\<lambda>ex1 w'.
          abind (finish_substitution (inner_definition def a b) cs ex1 w') (\<lambda>ex2 out.
            substitute_loop def args cs ex2 (b + 1) (w @ out)))"
        using False Optional by (simp add: substitute_loop.simps [of def args cs ex i])
      then show ?thesis
        using 1(2,3) False Optional by (auto intro!: settles_abind settles_finish)
    qed (use False in \<open>simp_all add: substitute_loop.simps [of def args cs ex i] settles_Done settles_Undefined table_kept_same
        macro_expander_set_unsupported_gnu_comma_va_args_error_def\<close>)
  qed (simp add: substitute_loop.simps [of def args cs ex i] settles_Done)
qed

lemma settles_substitute_macro: "settles ex (\<lambda>n. substitute_macro ex def args cs)"
  unfolding substitute_macro_def by (intro settles_abind settles_substitute_loop settles_finish)

lemma settles_replace_call:
  assumes E: "settled_below E (free_macros ex) len" and t: "me_table ex = Some t" "macro_table_find_mut t name = Some m"
  shows "settles ex (\<lambda>n. replace_call (E n) ex m def args cr)"
proof -
  obtain ex1 pushed where p: "push_expansion ex m cr = (ex1, pushed)" by (cases "push_expansion ex m cr")
  show ?thesis
  proof (cases pushed)
    case True
    have "free_macros ex1 < free_macros ex" using push_frees [OF _ t] p True by simp
    then have "settles ex1 (\<lambda>n. abind (substitute_macro ex1 def args cr) (E n))"
      using E by (intro settles_abind settles_substitute_macro) (simp add: settled_below_def free_macros_kept)
    then show ?thesis using settles_popped p True by (simp add: replace_call_def)
  next
    case False
    then have "table_kept ex ex1"
      using p by (auto simp: push_expansion_def macro_table_push_expansion_def table_kept_def Let_def split: option.splits if_splits)
    then show ?thesis using p False by (simp add: replace_call_def settles_Done)
  qed
qed

lemma settles_expand_each:
  assumes "settled_below E (free_macros ex) len" "\<forall>a \<in> set as. length (ma_raw a) < len"
  shows "settles ex (\<lambda>n. expand_each (E n) ex as)"
  using assms
proof (induction as arbitrary: ex)
  case (Cons a as)
  have "settles ex (\<lambda>n. if ma_raw a = [] then Done (ex, Some []) else E n ex (ma_raw a))"
    using Cons.prems by (cases "ma_raw a = []") (simp_all add: settles_Done settled_below_def)
  then show ?case
    using Cons by (auto intro!: settles_abind settles_Done simp: free_macros_kept)
qed (simp add: settles_Done)

lemma settles_expand_arguments:
  assumes "settled_below E (free_macros ex) len"
    "\<forall>a \<in> set (mp_positionals pack) \<union> set (mp_variadics pack). length (ma_raw a) < len"
  shows "settles ex (\<lambda>n. expand_macro_arguments (E n) ex pack)"
  unfolding expand_macro_arguments_def
  using assms by (auto intro!: settles_abind settles_expand_each settles_Done simp: free_macros_kept)

lemma argument_lengths:
  "argument_loop ts d cur args idx = Some (as, c, k) \<Longrightarrow>
    (\<forall>a \<in> set as. a \<in> set args \<or> length a \<le> length cur + length ts) \<and> length c \<le> length cur + length ts"
  by (induction ts d cur args idx rule: argument_loop.induct) (fastforce simp: Let_def split: if_splits)+

lemma parsed_argument_lengths:
  assumes "parse_macro_argument_tokens input cursor def = Some (raw, k)" "0 < cursor" "input \<noteq> []" "a \<in> set raw"
  shows "length a < length input"
proof -
  obtain as c where l: "argument_loop (drop cursor input) 0 [] [] cursor = Some (as, c, k)" "a \<in> set as \<or> a = c"
    using assms(1,4) by (auto simp: parse_macro_argument_tokens_def Let_def split: option.splits if_splits)
  have "length a \<le> length (drop cursor input)" using argument_lengths [OF l(1)] l(2) by auto
  then show ?thesis using assms(2,3) by (cases input) auto
qed

lemma build_pack:
  assumes "build_macro_arg_pack ex def raw cs = (ex1, p)"
  shows "table_kept ex ex1"
    and "p = Some pack \<Longrightarrow> a \<in> set (mp_positionals pack) \<union> set (mp_variadics pack) \<Longrightarrow> ma_raw a \<in> set raw"
  using assms by (auto simp: build_macro_arg_pack_def macro_expander_set_arg_count_error_def Let_def raw_arg_def table_kept_same
      dest!: in_set_takeD in_set_dropD split: if_splits)

lemma settles_boundary:
  assumes E: "settled_below E (free_macros ex) (length input)"
  shows "settles ex (\<lambda>n. try_expand_function_like_alias_boundary (E n) ex input i expanded)"
proof -
  let ?callee = "expanded ! (length expanded - 1)"
  show ?thesis
  proof (cases "\<exists>t m raw cursor ex1 pack. me_table ex = Some t \<and> Option.bind (tk_value ?callee) (macro_table_find_mut t) = Some m \<and>
      expanded \<noteq> [] \<and> has_type input (i + 1) TOKEN_LPAREN \<and> tk_type ?callee = TOKEN_IDENTIFIER \<and>
      md_kind (mt_macros t ! m) = MACRO_FUNCTION \<and> \<not> macro_table_is_expanding t (md_name (mt_macros t ! m)) \<and>
      parse_macro_argument_tokens input (i + 2) (mt_macros t ! m) = Some (raw, cursor) \<and>
      build_macro_arg_pack ex (mt_macros t ! m) raw (call_range ?callee) = (ex1, Some pack)")
    case True
    then obtain t m raw cursor ex1 pack where c: "me_table ex = Some t" "Option.bind (tk_value ?callee) (macro_table_find_mut t) = Some m"
      "expanded \<noteq> []" "has_type input (i + 1) TOKEN_LPAREN" "tk_type ?callee = TOKEN_IDENTIFIER"
      "md_kind (mt_macros t ! m) = MACRO_FUNCTION" "\<not> macro_table_is_expanding t (md_name (mt_macros t ! m))"
      "parse_macro_argument_tokens input (i + 2) (mt_macros t ! m) = Some (raw, cursor)"
      "build_macro_arg_pack ex (mt_macros t ! m) raw (call_range ?callee) = (ex1, Some pack)" by blast
    let ?def = "mt_macros t ! m" and ?cr = "call_range ?callee"
    have eq: "try_expand_function_like_alias_boundary ev ex input i expanded =
        abind (expand_macro_arguments ev ex1 pack) (\<lambda>ex2 pack2.
        abind (replace_call ev ex2 m ?def (Some pack2) ?cr) (\<lambda>ex3 nested.
          Done (ex3, Some (Some (butlast expanded @ nested, cursor - 1)))))" for ev
      using c by (simp add: try_expand_function_like_alias_boundary_def Let_def)
    have kept: "table_kept ex ex1" using build_pack(1) [OF c(9)] .
    have "input \<noteq> []" using c(4) by (auto simp: has_type_def)
    then have len: "\<forall>a \<in> set (mp_positionals pack) \<union> set (mp_variadics pack). length (ma_raw a) < length input"
      using parsed_argument_lengths [OF c(8)] build_pack(2) [OF c(9) refl] by auto
    obtain name where name: "macro_table_find_mut t name = Some m" using c(2) by (cases "tk_value ?callee") auto
    have "settles ex1 (\<lambda>n. abind (expand_macro_arguments (E n) ex1 pack) (\<lambda>ex2 pack2.
        abind (replace_call (E n) ex2 m ?def (Some pack2) ?cr) (\<lambda>ex3 nested.
          Done (ex3, Some (Some (butlast expanded @ nested, cursor - 1))))))"
    proof (intro settles_abind settles_expand_arguments)
      fix ex2 pack2
      assume k: "table_kept ex1 ex2"
      then obtain t2 where t2: "me_table ex2 = Some t2" "mt_macros t2 = mt_macros t"
        using kept c(1) by (auto simp: table_kept_def split: option.splits)
      show "settles ex2 (\<lambda>n. replace_call (E n) ex2 m ?def (Some pack2) ?cr)"
        using E kept k t2 name by (intro settles_replace_call [of E ex2 "length input" t2 name])
          (simp_all add: free_macros_kept macro_table_find_mut_def)
    qed (use E kept len in \<open>simp_all add: free_macros_kept settles_Done\<close>)
    then show ?thesis unfolding eq using kept table_kept_trans unfolding settles_def by blast
  next
    case no_call: False
    have "\<exists>ex' x. table_kept ex ex' \<and> (\<forall>ev. try_expand_function_like_alias_boundary ev ex input i expanded = Done (ex', x))"
    proof (cases "me_table ex")
      case (Some t)
      note t = this
      show ?thesis
      proof (cases "expanded = [] \<or> \<not> has_type input (i + 1) TOKEN_LPAREN \<or> tk_type ?callee \<noteq> TOKEN_IDENTIFIER \<or>
          Option.bind (tk_value ?callee) (macro_table_find_mut t) = None")
        case False
        then obtain m where m: "Option.bind (tk_value ?callee) (macro_table_find_mut t) = Some m" by auto
        show ?thesis
        proof (cases "parse_macro_argument_tokens input (i + 2) (mt_macros t ! m)")
          case None
          then show ?thesis
            using t m False by (cases "md_kind (mt_macros t ! m) = MACRO_FUNCTION \<and> \<not> macro_table_is_expanding t (md_name (mt_macros t ! m))")
              (auto simp: try_expand_function_like_alias_boundary_def Let_def)
        next
          case (Some p)
          obtain raw cursor ex1 b where p: "p = (raw, cursor)"
              "build_macro_arg_pack ex (mt_macros t ! m) raw (call_range ?callee) = (ex1, b)" by (metis surj_pair)
          have "b = None \<or> md_kind (mt_macros t ! m) \<noteq> MACRO_FUNCTION \<or> macro_table_is_expanding t (md_name (mt_macros t ! m))"
            using no_call t m False Some p by auto
          then show ?thesis
            using t m False Some p build_pack(1) [OF p(2)]
            by (cases "md_kind (mt_macros t ! m) = MACRO_FUNCTION \<and> \<not> macro_table_is_expanding t (md_name (mt_macros t ! m))") (auto simp: try_expand_function_like_alias_boundary_def Let_def)
        qed
      next
        case True
        then show ?thesis
          using t by (intro exI [of _ ex] exI [of _ "Some None"]) (auto simp: try_expand_function_like_alias_boundary_def Let_def)
      qed
    qed (auto simp: try_expand_function_like_alias_boundary_def Let_def)
    then show ?thesis by (auto simp: settles_Done)
  qed
qed

lemma settles_accumulate:
  assumes "settled_below E (free_macros ex) (length input)"
  shows "settles ex (\<lambda>n. accumulate_loop (E n) input cursor out ex)"
  using assms
proof (induction "length input - cursor" arbitrary: cursor out ex rule: less_induct)
  case less
  let ?attempt = "\<lambda>n. try_expand_accumulated_function_boundary (E n) ex input (cursor - 1) out"
  show ?case
  proof (cases "has_type input cursor TOKEN_LPAREN")
    case True
    have a: "settles ex ?attempt"
    proof (cases "out = []")
      case False
      then show ?thesis
        unfolding try_expand_accumulated_function_boundary_def
        using less.prems by (auto intro!: settles_abind settles_boundary settles_Done)
    qed (simp add: try_expand_accumulated_function_boundary_def settles_Done)
    have eq: "accumulate_loop (E n) input cursor out ex = abind (?attempt n) (\<lambda>ex1 b.
        case b of None \<Rightarrow> Done (ex1, Some (out, cursor)) | Some (out1, c) \<Rightarrow> accumulate_loop (E n) input (c + 1) out1 ex1)" for n
      using True by (subst accumulate_loop.simps) (auto simp: abind_def obind_def split: outcome.split option.split)
    show ?thesis
      unfolding eq
    proof (rule settles_abind [OF a])
      fix ex1 b
      assume k: "table_kept ex ex1" and b: "\<exists>n. ?attempt n = Done (ex1, Some b)"
      show "settles ex1 (\<lambda>n. case b of None \<Rightarrow> Done (ex1, Some (out, cursor)) | Some (out1, c) \<Rightarrow> accumulate_loop (E n) input (c + 1) out1 ex1)"
      proof (cases b)
        case (Some oc)
        obtain out1 c where oc: "oc = (out1, c)" by (cases oc)
        then have "cursor - 1 < c" using b Some accumulated_advances by blast
        then have "length input - (c + 1) < length input - cursor" using True by (auto simp: has_type_def)
        then show ?thesis using less.hyps less.prems k Some oc by (simp add: free_macros_kept)
      qed (simp add: settles_Done)
    qed
  next
    case False
    then show ?thesis by (subst accumulate_loop.simps) (simp add: settles_Done)
  qed
qed

lemma found_kept:
  assumes "table_kept ex ex1" "me_table ex = Some t" "macro_table_find_mut t name = Some m"
  obtains t1 where "me_table ex1 = Some t1" "macro_table_find_mut t1 name = Some m"
  using assms by (auto simp: table_kept_def macro_table_find_mut_def split: option.splits)

lemma settles_object_step:
  assumes E: "settled_below E (free_macros ex) (length input)"
    and t: "me_table ex = Some t" "macro_table_find_mut t name = Some m"
  shows "settles ex (\<lambda>n. object_step (E n) ex input i out m def)"
  unfolding object_step_def
proof (rule settles_abind [OF settles_replace_call [OF E t]])
  fix ex1 nested
  assume "table_kept ex ex1"
  then show "settles ex1 (\<lambda>n. abind (try_expand_function_like_alias_boundary (E n) ex1 input i nested) (\<lambda>ex2 b.
      Done (ex2, Some (case b of None \<Rightarrow> (out @ nested, i + 1) | Some (ts, c) \<Rightarrow> (out @ ts, c + 1)))))"
    using E by (intro settles_abind settles_boundary settles_Done) (simp_all add: free_macros_kept)
qed

lemma settles_call_step:
  assumes E: "settled_below E (free_macros ex) (length input)"
    and t: "me_table ex = Some t" "macro_table_find_mut t name = Some m"
  shows "settles ex (\<lambda>n. call_step (E n) ex input i out m def pack cursor)"
proof -
  let ?cr = "call_range (input ! i)"
  obtain ex1 pushed where p: "push_expansion ex m ?cr = (ex1, pushed)" by (cases "push_expansion ex m ?cr")
  show ?thesis
  proof (cases pushed)
    case True
    have free: "free_macros ex1 < free_macros ex" using push_frees [OF _ t] p True by simp
    have inner: "settles ex1 (\<lambda>n. abind (substitute_macro ex1 def (Some pack) ?cr) (\<lambda>ex2 replaced.
        abind (E n ex2 replaced) (\<lambda>ex3 nested.
        abind (try_expand_function_like_alias_boundary (E n) ex3 input (cursor - 1) nested) (\<lambda>ex4 b. Done (ex4, Some (nested, b))))))"
    proof (intro settles_abind settles_substitute_macro settles_Done table_kept_refl)
      fix ex2 replaced
      assume k: "table_kept ex1 ex2"
      then have f2: "free_macros ex2 < free_macros ex" using free by (simp add: free_macros_kept)
      then show "settles ex2 (\<lambda>n. E n ex2 replaced)" using E by (simp add: settled_below_def)
      fix ex3 nested
      assume "table_kept ex2 ex3"
      then show "settles ex3 (\<lambda>n. try_expand_function_like_alias_boundary (E n) ex3 input (cursor - 1) nested)"
        using E f2 by (intro settles_boundary) (auto simp: settled_below_def free_macros_kept)
    qed
    have eq: "call_step ev ex input i out m def pack cursor =
      abind (popped m (abind (substitute_macro ex1 def (Some pack) ?cr) (\<lambda>ex2 replaced.
        abind (ev ex2 replaced) (\<lambda>ex3 nested.
        abind (try_expand_function_like_alias_boundary ev ex3 input (cursor - 1) nested) (\<lambda>ex4 b. Done (ex4, Some (nested, b))))))) (\<lambda>ex5 (nested, b).
       case b of None \<Rightarrow> Done (ex5, Some (out @ nested, cursor)) | Some (ts, c) \<Rightarrow> accumulate_loop ev input (c + 1) (out @ ts) ex5)" for ev
      unfolding call_step_def Let_def p prod.case using True by (simp only: not_True_eq_False if_False)
    have "push_expansion ex m ?cr = (ex1, True)" using p True by simp
    note outer = settles_popped [OF this inner]
    show ?thesis
      unfolding eq
    proof (rule settles_abind [OF outer])
      fix ex5 and nb :: "Token list \<times> (Token list \<times> nat) option"
      assume k: "table_kept ex ex5"
      show "settles ex5 (\<lambda>n. case nb of (nested, b) \<Rightarrow>
          case b of None \<Rightarrow> Done (ex5, Some (out @ nested, cursor)) | Some (ts, c) \<Rightarrow> accumulate_loop (E n) input (c + 1) (out @ ts) ex5)"
        using E k by (cases nb; cases "snd nb") (auto simp: settles_Done free_macros_kept intro!: settles_accumulate)
    qed
  next
    case False
    then have "table_kept ex ex1"
      using p by (auto simp: push_expansion_def macro_table_push_expansion_def table_kept_def Let_def split: option.splits if_splits)
    then show ?thesis using p False by (simp add: call_step_def settles_Done)
  qed
qed

lemma settles_function_step:
  assumes E: "settled_below E (free_macros ex) (length input)"
    and t: "me_table ex = Some t" "macro_table_find_mut t name = Some m"
  shows "settles ex (\<lambda>n. function_step (E n) ex input i out m def)"
proof (cases "\<exists>raw cursor ex1 pack. has_type input (i + 1) TOKEN_LPAREN \<and>
    parse_macro_argument_tokens input (i + 2) def = Some (raw, cursor) \<and>
    build_macro_arg_pack ex def raw (call_range (input ! i)) = (ex1, Some pack)")
  case True
  then obtain raw cursor ex1 pack where c: "has_type input (i + 1) TOKEN_LPAREN"
    "parse_macro_argument_tokens input (i + 2) def = Some (raw, cursor)"
    "build_macro_arg_pack ex def raw (call_range (input ! i)) = (ex1, Some pack)" by blast
  have eq: "function_step ev ex input i out m def = obind (expand_macro_arguments ev ex1 pack) (\<lambda>(ex2, r).
      case r of None \<Rightarrow> Done (ex2, Some (out @ [input ! i], i + 1)) | Some pack2 \<Rightarrow> call_step ev ex2 input i out m def pack2 cursor)" for ev
    unfolding function_step_def Let_def using c by (simp only: not_True_eq_False if_False option.case prod.case)
  have kept: "table_kept ex ex1" using build_pack(1) [OF c(3)] .
  have "input \<noteq> []" using c(1) by (auto simp: has_type_def)
  then have len: "\<forall>a \<in> set (mp_positionals pack) \<union> set (mp_variadics pack). length (ma_raw a) < length input"
    using parsed_argument_lengths [OF c(2)] build_pack(2) [OF c(3) refl] by auto
  have "settles ex1 (\<lambda>n. obind (expand_macro_arguments (E n) ex1 pack) (\<lambda>(ex2, r).
      case r of None \<Rightarrow> Done (ex2, Some (out @ [input ! i], i + 1)) | Some pack2 \<Rightarrow> call_step (E n) ex2 input i out m def pack2 cursor))"
  proof (rule settles_obind)
    show "settles ex1 (\<lambda>n. expand_macro_arguments (E n) ex1 pack)"
      using E kept len by (intro settles_expand_arguments [of E _ "length input"]) (simp_all add: free_macros_kept)
    fix ex2 r
    assume "table_kept ex1 ex2"
    then have k: "table_kept ex ex2" using table_kept_trans [OF kept] by blast
    obtain t2 where t2: "me_table ex2 = Some t2" "macro_table_find_mut t2 name = Some m" by (rule found_kept [OF k t])
    show "settles ex2 (\<lambda>n. case (ex2, r) of (ex2, r) \<Rightarrow>
        case r of None \<Rightarrow> Done (ex2, Some (out @ [input ! i], i + 1)) | Some pack2 \<Rightarrow> call_step (E n) ex2 input i out m def pack2 cursor)"
      using settles_call_step [OF _ t2] E k by (cases r) (simp_all add: settles_Done free_macros_kept)
  qed
  then show ?thesis unfolding eq using kept table_kept_trans unfolding settles_def by blast
next
  case False
  have "\<exists>ex' x. table_kept ex ex' \<and> (\<forall>ev. function_step ev ex input i out m def = Done (ex', x))"
  proof (cases "has_type input (i + 1) TOKEN_LPAREN \<and> parse_macro_argument_tokens input (i + 2) def \<noteq> None")
    case True
    then obtain raw cursor where p: "has_type input (i + 1) TOKEN_LPAREN" "parse_macro_argument_tokens input (i + 2) def = Some (raw, cursor)" by auto
    obtain ex1 b where b: "build_macro_arg_pack ex def raw (call_range (input ! i)) = (ex1, b)" by (metis surj_pair)
    then have "b = None" using False p by (cases b) auto
    then show ?thesis using p b build_pack(1) [OF b]
      by (cases "error_kind ex1 = ME_ERR_NONE") (auto simp: function_step_def Let_def)
  next
    case False
    then show ?thesis
      by (intro exI [of _ ex] exI [of _ "Some (out @ [input ! i], i + 1)"]) (auto simp: function_step_def Let_def split: option.split)
  qed
  then show ?thesis by (auto simp: settles_Done)
qed

lemma builtin_not_fail: "handle_builtin_identifier bs tok \<noteq> Fail ()"
  by (simp add: handle_builtin_identifier_def Let_def split: option.split)

lemma settles_expand_step:
  assumes E: "settled_below E (free_macros ex) (length input)"
  shows "settles ex (\<lambda>n. expand_step (E n) ex input i out)"
proof (cases "tk_type (input ! i) = TOKEN_IDENTIFIER")
  case True
  show ?thesis
  proof (cases "handle_builtin_identifier (me_builtins ex) (input ! i)")
    case (Done b)
    show ?thesis
    proof (cases b)
      case None
      show ?thesis
      proof (cases "\<exists>t m. me_table ex = Some t \<and> Option.bind (tk_value (input ! i)) (macro_table_find_mut t) = Some m \<and>
          \<not> macro_table_is_expanding t (tk_value (input ! i)) \<and> \<not> (me_preserve ex \<and> token_is_defined_operand_context input i)")
        case t: True
        then obtain t m where t: "me_table ex = Some t" "Option.bind (tk_value (input ! i)) (macro_table_find_mut t) = Some m"
          "\<not> macro_table_is_expanding t (tk_value (input ! i))" "\<not> (me_preserve ex \<and> token_is_defined_operand_context input i)" by blast
        obtain name where name: "macro_table_find_mut t name = Some m" using t(2) by (cases "tk_value (input ! i)") auto
        have "expand_step ev ex input i out = (case md_kind (mt_macros t ! m) of
            MACRO_OBJECT \<Rightarrow> object_step ev ex input i out m (mt_macros t ! m) | MACRO_FUNCTION \<Rightarrow> function_step ev ex input i out m (mt_macros t ! m))" for ev
          using True Done None t by (auto simp: expand_step_def Let_def)
        then show ?thesis
          using settles_object_step [OF E t(1) name] settles_function_step [OF E t(1) name]
          by (cases "md_kind (mt_macros t ! m)") simp_all
      next
        case False
        then have "expand_step ev ex input i out = Done (ex, Some (out @ [input ! i], i + 1))" for ev
          using True Done None by (auto simp: expand_step_def Let_def split: option.split)
        then show ?thesis by (simp add: settles_Done)
      qed
    next
      case (Some bt)
      then show ?thesis using True Done by (cases bt) (simp add: expand_step_def settles_Done table_kept_same)
    qed
  qed (use True builtin_not_fail in \<open>simp_all add: expand_step_def settles_Undefined\<close>)
next
  case False
  then show ?thesis by (simp add: expand_step_def Let_def settles_Done)
qed

lemma settles_expand_loop:
  assumes "settled_below E (free_macros ex) (length input)"
  shows "settles ex (\<lambda>n. expand_loop (E n) input i out ex)"
  using assms
proof (induction "length input - i" arbitrary: i out ex rule: less_induct)
  case less
  show ?case
  proof (cases "i < length input")
    case True
    have eq: "expand_loop (E n) input i out ex = abind (expand_step (E n) ex input i out) (\<lambda>ex1 (out1, k). expand_loop (E n) input k out1 ex1)" for n
      using True by (subst expand_loop.simps) (auto simp: abind_def obind_def split: outcome.split option.split)
    show ?thesis
      unfolding eq
    proof (rule settles_abind [OF settles_expand_step [OF less.prems]])
      fix ex1 and ok :: "Token list \<times> nat"
      assume k: "table_kept ex ex1" and s: "\<exists>n. expand_step (E n) ex input i out = Done (ex1, Some ok)"
      obtain out1 j where oj: "ok = (out1, j)" by (cases ok)
      then have "i < j" using s step_advances True by blast
      then show "settles ex1 (\<lambda>n. case ok of (out1, k) \<Rightarrow> expand_loop (E n) input k out1 ex1)"
        using less.hyps [of j] less.prems k True oj by (simp add: free_macros_kept)
    qed
  next
    case False
    then show ?thesis by (subst expand_loop.simps) (simp add: settles_Done)
  qed
qed

lemma settles_Suc: "settles ex (\<lambda>n. f (Suc n)) \<Longrightarrow> settles ex f"
  unfolding settles_def by (metis Suc_le_D Suc_le_mono)

lemma expansion_settles: "settles ex (\<lambda>n. macro_expander_expand n ex input)"
proof (induction "(free_macros ex, length input)" arbitrary: ex input rule: wf_induct_rule [OF wf_lex_prod [OF wf_less_than wf_less_than]])
  case (1 ex input)
  let ?ex = "macro_expander_clear_error ex"
  have kept: "table_kept ex ?ex" by (simp add: macro_expander_clear_error_def table_kept_same)
  have "settled_below macro_expander_expand (free_macros ?ex) (length input)"
    using 1 kept unfolding settled_below_def by (auto simp: free_macros_kept)
  then have "settles ?ex (\<lambda>n. macro_expander_expand (Suc n) ex input)"
    using settles_expand_loop by (cases "input = []") (simp_all add: Let_def settles_Done)
  then have "settles ex (\<lambda>n. macro_expander_expand (Suc n) ex input)"
    using kept table_kept_trans unfolding settles_def by blast
  then show ?case by (rule settles_Suc)
qed

text \<open>
  C33. Macro expansion ends for every set of definitions and every input: from some fuel on, more fuel does not
  change the result, which is not that the fuel is used up; and the expander is left with the definitions, the
  expansion stack and the limit it had, whether the call succeeds or fails.
\<close>

theorem macro_expansion_ends:
  "\<exists>n r. (\<forall>m. macro_expander_expand (n + m) ex input = r) \<and>
    (case r of Undefined \<Rightarrow> True | Fail e \<Rightarrow> False | Done (ex', result) \<Rightarrow> table_kept ex ex')"
proof -
  obtain n r where "r \<noteq> Fail ()" "\<forall>ex' x. r = Done (ex', x) \<longrightarrow> table_kept ex ex'" "\<forall>m\<ge>n. macro_expander_expand m ex input = r"
    using expansion_settles [of ex input] unfolding settles_def by blast
  then show ?thesis by (intro exI [of _ n] exI [of _ r]) (auto split: outcome.split)
qed

end
