(* ===== verification/Macro_Expander_Objects.thy ===== *)
theory Macro_Expander_Objects
  imports Macro_Expander_Props
begin

text \<open>
  What macro expansion computes: arguments are collected as they were written; object-like macros expand as the C
  standard defines it, against an inductive account of that definition; and examples where function-like macros,
  \<open>#\<close>, \<open>##\<close> and \<open>__VA_OPT__\<close> depart from it.
\<close>

section \<open>Arguments are read back\<close>

text \<open>An argument: its parentheses match and it has no comma outside them; \<open>d\<close> parentheses are open.\<close>

fun is_argument :: "nat \<Rightarrow> Token list \<Rightarrow> bool" where
  "is_argument d [] \<longleftrightarrow> d = 0"
| "is_argument d (t # ts) \<longleftrightarrow>
    (if tk_type t = TOKEN_LPAREN then is_argument (d + 1) ts
     else if tk_type t = TOKEN_RPAREN then d > 0 \<and> is_argument (d - 1) ts
     else (d > 0 \<or> tk_type t \<noteq> TOKEN_COMMA) \<and> is_argument d ts)"

lemma argument_loop_reads:
  "is_argument d a \<Longrightarrow>
    argument_loop (a @ rest) (int d) cur args idx = argument_loop rest 0 (cur @ a) args (idx + length a)"
proof (induction d a arbitrary: cur idx rule: is_argument.induct)
  case (2 d t ts)
  note IH = "2.IH" and prems = "2.prems"
  consider (l) "tk_type t = TOKEN_LPAREN" | (r) "tk_type t = TOKEN_RPAREN" "d > 0"
    | (other) "tk_type t \<notin> {TOKEN_LPAREN, TOKEN_RPAREN}" "d > 0 \<or> tk_type t \<noteq> TOKEN_COMMA"
    using prems by (auto split: if_splits)
  then show ?case
  proof cases
    case l
    then show ?thesis using IH(1) [of "cur @ [t]" "idx + 1"] prems by (simp add: add.commute)
  next
    case r
    then show ?thesis using IH(2) [of "cur @ [t]" "idx + 1"] prems by (simp add: of_nat_diff)
  next
    case other
    then show ?thesis using IH(3) [of "cur @ [t]" "idx + 1"] prems by auto
  qed
qed simp

lemma argument_list_reads:
  assumes "\<forall>a \<in> set as. is_argument 0 a" "as \<noteq> []" "tk_type comma = TOKEN_COMMA" "tk_type close = TOKEN_RPAREN"
  shows "argument_loop (join_buffers comma as @ close # rest) 0 [] args idx =
    Some (args @ butlast as, last as, idx + length (join_buffers comma as) + 1)"
  using assms
proof (induction comma as arbitrary: args idx rule: join_buffers.induct)
  case (2 comma a)
  then show ?case using argument_loop_reads [of 0 a "close # rest" "[]" args idx] by simp
next
  case (3 comma a b bs)
  have "argument_loop (join_buffers comma (a # b # bs) @ close # rest) 0 [] args idx =
      argument_loop (join_buffers comma (b # bs) @ close # rest) 0 [] (args @ [a]) (idx + length a + 1)"
    using argument_loop_reads [of 0 a "comma # join_buffers comma (b # bs) @ close # rest" "[]" args idx] 3(2,4) by simp
  then show ?case using 3 by simp
qed simp

text \<open>
  C35. Arguments written with commas between them and a closing parenthesis behind are collected as they were
  written, whatever follows, with the index behind the parenthesis; an argument may hold commas inside matching
  parentheses. A single empty argument needs a macro with a parameter.
\<close>

theorem macro_arguments_read_back:
  assumes "\<forall>a \<in> set as. is_argument 0 a" "as \<noteq> []"
    and "as \<noteq> [[]] \<or> mp_names (md_params def) \<noteq> [] \<or> mp_variadic (md_params def)"
    and "tk_type comma = TOKEN_COMMA" "tk_type close = TOKEN_RPAREN"
  shows "parse_macro_argument_tokens (before @ join_buffers comma as @ close # rest) (length before) def =
    Some (as, length before + length (join_buffers comma as) + 1)"
proof -
  have "last as \<noteq> [] \<or> butlast as \<noteq> [] \<or> mp_names (md_params def) \<noteq> [] \<or> mp_variadic (md_params def)"
    using assms(2,3) by (cases as rule: rev_cases) auto
  then show ?thesis
    using argument_list_reads [OF assms(1,2,4,5), of rest "[]" "length before"] assms(2)
    by (simp add: parse_macro_argument_tokens_def Let_def)
qed

section \<open>Object-like macros expand as in C\<close>

text \<open>Tokens as C sees them, and the expansion of C 6.10.3.4: a name is not replaced inside its own replacement.\<close>

type_synonym spelling = "TokenType \<times> cstr"

definition spelling :: "Token \<Rightarrow> spelling" where
  "spelling t = (tk_type t, tk_value t)"

inductive c_expands :: "MacroDefinition list \<Rightarrow> string set \<Rightarrow> spelling list \<Rightarrow> spelling list \<Rightarrow> bool"
  for defs :: "MacroDefinition list" where
  c_end: "c_expands defs hidden [] []"
| c_keep: "fst t \<noteq> TOKEN_IDENTIFIER \<or> snd t = None \<or> the (snd t) \<in> hidden \<or> macro_index (the (snd t)) defs = None \<Longrightarrow>
    c_expands defs hidden ts us \<Longrightarrow> c_expands defs hidden (t # ts) (t # us)"
| c_replace: "name \<notin> hidden \<Longrightarrow> macro_index name defs = Some m \<Longrightarrow>
    c_expands defs (insert name hidden) (map spelling (md_body (defs ! m))) bs \<Longrightarrow>
    c_expands defs hidden ts us \<Longrightarrow> c_expands defs hidden ((TOKEN_IDENTIFIER, Some name) # ts) (bs @ us)"

inductive_cases c_expands_NilE: "c_expands defs hidden [] us"
inductive_cases c_expands_ConsE: "c_expands defs hidden (t # ts) us"

lemma c_expands_functional: "c_expands defs hidden ts us \<Longrightarrow> c_expands defs hidden ts vs \<Longrightarrow> us = vs"
proof (induction hidden ts us arbitrary: vs rule: c_expands.induct)
  case (c_keep t hidden ts us)
  from c_keep.prems show ?case by (rule c_expands_ConsE) (use c_keep in auto)
next
  case (c_replace name hidden m bs ts us)
  from c_replace.prems show ?case
  proof (rule c_expands_ConsE)
    fix name' m' bs' us'
    assume a: "(TOKEN_IDENTIFIER, Some name) = (TOKEN_IDENTIFIER, Some name')" "vs = bs' @ us'" "macro_index name' defs = Some m'"
      "c_expands defs (insert name' hidden) (map spelling (md_body (defs ! m'))) bs'" "c_expands defs hidden ts us'"
    then have "name' = name" "m' = m" using c_replace.hyps(2) by auto
    then show ?thesis using c_replace.IH(1) [of bs'] c_replace.IH(2) [of us'] a by simp
  qed (use c_replace.hyps(1,2) in auto)
qed (auto elim: c_expands_NilE)

lemma c_expands_plain:
  "\<forall>t \<in> set span. tk_type t \<noteq> TOKEN_IDENTIFIER \<Longrightarrow> c_expands defs hidden ts us \<Longrightarrow>
    c_expands defs hidden (map spelling span @ ts) (map spelling span @ us)"
  by (induction span) (auto intro: c_keep simp: spelling_def)

text \<open>A table of object-like macros without \<open>##\<close>, and tokens that hold no built-in name.\<close>

definition builtin_names :: "string list" where
  "builtin_names = [''__FILE__'', ''__LINE__'', ''__BASE_FILE__'', ''__COUNTER__'', ''__DATE__'', ''__TIME__'']"

definition no_builtin :: "Token list \<Rightarrow> bool" where
  "no_builtin ts \<longleftrightarrow> (\<forall>t \<in> set ts. tk_value t \<notin> Some ` set builtin_names)"

definition object_macros :: "MacroDefinition list \<Rightarrow> bool" where
  "object_macros defs \<longleftrightarrow> (\<forall>d \<in> set defs. md_kind d = MACRO_OBJECT \<and> no_builtin (md_body d) \<and>
    (\<forall>t \<in> set (md_body d). tk_type t \<noteq> TOKEN_DOUBLE_HASH))"

definition hidden_names :: "MacroTable \<Rightarrow> string set" where
  "hidden_names t = {name. macro_table_is_expanding t (Some name)}"

text \<open>What a computation by fuel gives from some fuel on.\<close>

definition reaches :: "(nat \<Rightarrow> 'a) \<Rightarrow> 'a \<Rightarrow> bool" where
  "reaches f v \<longleftrightarrow> (\<exists>n. \<forall>m\<ge>n. f m = v)"

lemma reaches_const: "reaches (\<lambda>n. v) v"
  by (simp add: reaches_def)

lemma reaches_abind:
  assumes "reaches f (Done (ex1, Some a))" "reaches (\<lambda>n. g n ex1 a) v"
  shows "reaches (\<lambda>n. abind (f n) (g n)) v"
proof -
  obtain n n' where "\<forall>m\<ge>n. f m = Done (ex1, Some a)" "\<forall>m\<ge>n'. g m ex1 a = v" using assms unfolding reaches_def by blast
  then have "\<forall>m\<ge>max n n'. abind (f m) (g m) = v" by simp
  then show ?thesis unfolding reaches_def by blast
qed

lemma reaches_popped: "reaches f (Done (ex, r)) \<Longrightarrow> reaches (\<lambda>n. popped m (f n)) (Done (pop_expansion ex m, r))"
proof -
  assume "reaches f (Done (ex, r))"
  then obtain n where "\<forall>k\<ge>n. f k = Done (ex, r)" unfolding reaches_def by blast
  then have "\<forall>k\<ge>n. popped m (f k) = Done (pop_expansion ex m, r)" by (simp add: popped_def)
  then show ?thesis unfolding reaches_def by blast
qed

lemma paste_without_hash:
  "\<forall>t \<in> set ts. tk_type t \<noteq> TOKEN_DOUBLE_HASH \<Longrightarrow>
    paste_loop origin ts pending res = Done (Some (res @ (case pending of Some p \<Rightarrow> [p] | None \<Rightarrow> []) @ ts))"
  by (induction ts arbitrary: pending res) (auto split: option.split)

lemma substitute_object_loop: "substitute_loop def None cs ex i w = Done (ex, Some (w @ drop i (md_body def)))"
proof (induction "length (md_body def) - i" arbitrary: i w)
  case 0
  then show ?case by (subst substitute_loop.simps) simp
next
  case (Suc k)
  then show ?case
    using Suc(1) [of "i + 1" "w @ [md_body def ! i]"]
    by (subst substitute_loop.simps) (simp add: substitute_piece_def Let_def Cons_nth_drop_Suc)
qed

lemma substitute_object:
  assumes "\<forall>t \<in> set (md_body def). tk_type t \<noteq> TOKEN_DOUBLE_HASH"
  shows "substitute_macro ex def None cs = Done (ex, Some (map (mark_origin cs (md_range def)) (md_body def)))"
  using assms by (auto simp: substitute_macro_def substitute_object_loop finish_substitution_def apply_token_paste_def paste_without_hash)

lemma mark_origin_spelling [simp]:
  "spelling (mark_origin cs dr t) = spelling t" "tk_type (mark_origin cs dr t) = tk_type t" "tk_value (mark_origin cs dr t) = tk_value t"
  by (simp_all add: mark_origin_def spelling_def)

lemma no_builtin_identifier: "no_builtin ts \<Longrightarrow> t \<in> set ts \<Longrightarrow> handle_builtin_identifier bs t = Done None"
  by (auto simp: no_builtin_def builtin_names_def handle_builtin_identifier_def Let_def)

lemma boundary_without_functions:
  assumes "me_table ex = Some t" "object_macros (mt_macros t)"
  shows "try_expand_function_like_alias_boundary ev ex input i expanded = Done (ex, Some None)"
proof -
  have "md_kind (mt_macros t ! m) \<noteq> MACRO_FUNCTION" if "Option.bind v (macro_table_find_mut t) = Some m" for v m
  proof -
    have "m < length (mt_macros t)" using that macro_index_Some by (cases v) (auto simp: macro_table_find_mut_def)
    then show ?thesis using assms(2) by (simp add: object_macros_def)
  qed
  then show ?thesis
    using assms(1) by (auto simp: try_expand_function_like_alias_boundary_def Let_def split: option.split)
qed

text \<open>An expander for object-like macros, with room on the stack for every macro that may still be entered.\<close>

definition object_expander :: "MacroExpander \<Rightarrow> MacroTable \<Rightarrow> bool" where
  "object_expander ex t \<longleftrightarrow> me_table ex = Some t \<and> \<not> me_preserve ex \<and> object_macros (mt_macros t) \<and>
    (mt_limit t = 0 \<or> length (mt_stack t) + free_macros ex \<le> mt_limit t)"

lemma object_expander_kept:
  assumes "object_expander ex t" "table_kept ex ex1"
  obtains t1 where "object_expander ex1 t1" "mt_macros t1 = mt_macros t" "hidden_names t1 = hidden_names t" "me_table ex1 = Some t1"
proof -
  obtain t1 where t1: "me_table ex1 = Some t1" "mt_macros t1 = mt_macros t" "mt_stack t1 = mt_stack t" "mt_limit t1 = mt_limit t"
      "me_preserve ex1 = me_preserve ex"
    using assms by (auto simp: object_expander_def table_kept_def split: option.splits)
  have "hidden_names t1 = hidden_names t"
    using t1 by (simp add: hidden_names_def macro_table_is_expanding_def frame_name_def)
  moreover have "object_expander ex1 t1" using assms t1 free_macros_kept [OF assms(2)] by (simp add: object_expander_def)
  ultimately show thesis using that t1 by blast
qed

lemma object_push:
  assumes ex: "object_expander ex t" and m: "macro_table_find_mut t name = Some m" "\<not> macro_table_is_expanding t (Some name)"
  obtains ex1 t1 where "push_expansion ex m cr = (ex1, True)" "object_expander ex1 t1" "mt_macros t1 = mt_macros t"
    "hidden_names t1 = insert name (hidden_names t)" "free_macros ex1 < free_macros ex"
proof -
  let ?fr = "\<lparr>mf_macro = m, mf_callSite = cr, mf_range = md_range (mt_macros t ! m)\<rparr>"
  let ?t1 = "t\<lparr>mt_lastError := MT_ERR_NONE, mt_stack := mt_stack t @ [?fr]\<rparr>"
  let ?ex1 = "ex\<lparr>me_table := Some ?t1\<rparr>"
  have t: "me_table ex = Some t" using ex by (simp add: object_expander_def)
  have ix: "m < length (mt_macros t)" "md_name (mt_macros t ! m) = Some name" using m(1) macro_index_Some by (auto simp: macro_table_find_mut_def)
  have "m \<in> {..<length (mt_macros t)} - mf_macro ` set (mt_stack t)"
    using m(2) ix by (auto simp: macro_table_is_expanding_def frame_name_def list_ex_iff)
  then have "0 < free_macros ex" using t by (auto simp: free_macros_def card_gt_0_iff)
  then have "\<not> (mt_limit t > 0 \<and> length (mt_stack t) \<ge> mt_limit t)" using ex by (auto simp: object_expander_def)
  then have p: "push_expansion ex m cr = (?ex1, True)"
    using t m(2) ix by (simp add: push_expansion_def macro_table_push_expansion_def)
  have f: "free_macros ?ex1 < free_macros ex" using push_frees [OF p t m(1)] .
  have "hidden_names ?t1 = insert name (hidden_names t)"
    using ix by (auto simp: hidden_names_def macro_table_is_expanding_def frame_name_def)
  moreover have "object_expander ?ex1 ?t1" using ex f by (auto simp: object_expander_def)
  ultimately show thesis using that [OF p] f by simp
qed

definition expands_in_c :: "MacroExpander \<Rightarrow> MacroTable \<Rightarrow> (nat \<Rightarrow> PPTokenBuffer attempt) \<Rightarrow> Token list \<Rightarrow> Token list \<Rightarrow> bool" where
  "expands_in_c ex t f out input \<longleftrightarrow> (\<exists>ex' out'. reaches f (Done (ex', Some (out @ out'))) \<and> table_kept ex ex' \<and>
    c_expands (mt_macros t) (hidden_names t) (map spelling input) (map spelling out'))"

lemma expands_in_c_step:
  assumes step: "reaches (\<lambda>n. expand_step (E n) ex input i out) (Done (ex1, Some (out @ us, k)))" and i: "i < length input"
    and k: "table_kept ex ex1"
    and rest: "expands_in_c ex1 t1 (\<lambda>n. expand_loop (E n) input k (out @ us) ex1) (out @ us) (drop k input)"
    and t1: "mt_macros t1 = mt_macros t" "hidden_names t1 = hidden_names t"
    and c: "\<And>vs ws. c_expands (mt_macros t) (hidden_names t) (map spelling (drop k input)) ws \<Longrightarrow>
      c_expands (mt_macros t) (hidden_names t) (map spelling (drop i input)) (map spelling us @ ws)"
  shows "expands_in_c ex t (\<lambda>n. expand_loop (E n) input i out ex) out (drop i input)"
proof -
  have eq: "expand_loop (E n) input i out ex = abind (expand_step (E n) ex input i out) (\<lambda>ex1 (out1, k). expand_loop (E n) input k out1 ex1)" for n
    using i by (subst expand_loop.simps) (auto simp: abind_def obind_def split: outcome.split option.split)
  obtain ex' out' where r: "reaches (\<lambda>n. expand_loop (E n) input k (out @ us) ex1) (Done (ex', Some ((out @ us) @ out')))"
    "table_kept ex1 ex'" "c_expands (mt_macros t) (hidden_names t) (map spelling (drop k input)) (map spelling out')"
    using rest t1 unfolding expands_in_c_def by auto
  have "reaches (\<lambda>n. expand_loop (E n) input i out ex) (Done (ex', Some (out @ us @ out')))"
    unfolding eq by (rule reaches_abind [OF step]) (use r(1) in simp)
  then show ?thesis
    unfolding expands_in_c_def using table_kept_trans [OF k r(2)] c [OF r(3)] by (metis map_append)
qed

lemma object_expand_loop:
  assumes IH: "\<And>ex1 t1 input. free_macros ex1 < free_macros ex \<Longrightarrow> object_expander ex1 t1 \<Longrightarrow> no_builtin input \<Longrightarrow>
      expands_in_c ex1 t1 (\<lambda>n. E n ex1 input) [] input"
    and ex: "object_expander ex t" and nb: "no_builtin input"
  shows "expands_in_c ex t (\<lambda>n. expand_loop (E n) input i out ex) out (drop i input)"
  using IH ex
proof (induction "length input - i" arbitrary: i out ex t rule: less_induct)
  case less
  have next_step: "expands_in_c ex1 t1 (\<lambda>n. expand_loop (E n) input k o1 ex1) o1 (drop k input)"
    if "i < k" "i < length input" "table_kept ex ex1" "object_expander ex1 t1" for ex1 t1 k o1
    using less.hyps [of k ex1 t1 o1] less.prems that by (simp add: free_macros_kept)
  show ?case
  proof (cases "i < length input")
    case False
    then have "expand_loop (E n) input i out ex = Done (ex, Some out)" for n by (subst expand_loop.simps) simp
    then show ?thesis using False unfolding expands_in_c_def by (intro exI [of _ ex] exI [of _ "[]"]) (simp add: reaches_const c_end)
  next
    case i: True
    let ?tok = "input ! i"
    have d: "drop i input = ?tok # drop (i + 1) input" using i by (simp add: Cons_nth_drop_Suc)
    have t: "me_table ex = Some t" and om: "object_macros (mt_macros t)" using less.prems(2) by (auto simp: object_expander_def)
    note same = next_step [OF _ i table_kept_refl less.prems(2)]
    show ?thesis
    proof (cases "tk_type ?tok = TOKEN_IDENTIFIER")
      case False
      let ?span = "takeWhile (\<lambda>t. tk_type t \<noteq> TOKEN_IDENTIFIER) (drop i input)"
      have s: "expand_step (E n) ex input i out = Done (ex, Some (out @ ?span, i + length ?span))" for n
        using False by (simp add: expand_step_def Let_def)
      have "0 < length ?span" using False d by simp
      moreover have "drop i input = ?span @ drop (i + length ?span) input"
        using takeWhile_dropWhile_id [of "\<lambda>t. tk_type t \<noteq> TOKEN_IDENTIFIER" "drop i input"]
        by (simp add: dropWhile_eq_drop add.commute del: takeWhile_dropWhile_id)
      moreover have "\<forall>t \<in> set ?span. tk_type t \<noteq> TOKEN_IDENTIFIER" by (auto dest: set_takeWhileD)
      ultimately have c: "c_expands (mt_macros t) (hidden_names t) (map spelling (drop (i + length ?span) input)) ws \<Longrightarrow>
          c_expands (mt_macros t) (hidden_names t) (map spelling (drop i input)) (map spelling ?span @ ws)" and k: "i < i + length ?span" for ws
        using c_expands_plain [of ?span] by (metis map_append, simp)
      show ?thesis
        by (rule expands_in_c_step [where us = ?span, OF _ i table_kept_refl same [OF k] refl refl c]) (simp add: s reaches_const)
    next
      case True
      have b: "handle_builtin_identifier (me_builtins ex) ?tok = Done None" using no_builtin_identifier [OF nb] i by simp
      have np: "\<not> me_preserve ex" using less.prems(2) by (simp add: object_expander_def)
      note step = expand_step_def Let_def True b t np
      show ?thesis
      proof (cases "\<exists>name m. tk_value ?tok = Some name \<and> macro_table_find_mut t name = Some m \<and> \<not> macro_table_is_expanding t (Some name)")
        case False
        have s: "expand_step (E n) ex input i out = Done (ex, Some (out @ [?tok], i + 1))" for n
          using False unfolding step by (cases "tk_value ?tok") (auto split: option.split)
        have "c_expands (mt_macros t) (hidden_names t) (map spelling (drop (i + 1) input)) ws \<Longrightarrow>
          c_expands (mt_macros t) (hidden_names t) (map spelling (drop i input)) (map spelling [?tok] @ ws)" for ws
          using False unfolding d by (auto intro!: c_keep simp: spelling_def hidden_names_def macro_table_find_mut_def)
        then show ?thesis
          by (intro expands_in_c_step [where us = "[?tok]", OF _ i table_kept_refl same [of "i + 1"] refl refl]) (simp_all add: s reaches_const)
      next
        case e: True
        then obtain name m where m: "tk_value ?tok = Some name" "macro_table_find_mut t name = Some m" "\<not> macro_table_is_expanding t (Some name)" by blast
        let ?def = "mt_macros t ! m" and ?cr = "call_range ?tok"
        obtain ex1 t1 where p: "push_expansion ex m ?cr = (ex1, True)" "object_expander ex1 t1" "mt_macros t1 = mt_macros t"
          "hidden_names t1 = insert name (hidden_names t)" "free_macros ex1 < free_macros ex"
          by (rule object_push [OF less.prems(2) m(2,3)])
        have mi: "macro_index name (mt_macros t) = Some m" using m(2) by (simp add: macro_table_find_mut_def)
        then have def: "md_kind ?def = MACRO_OBJECT" "no_builtin (md_body ?def)" "\<forall>t \<in> set (md_body ?def). tk_type t \<noteq> TOKEN_DOUBLE_HASH"
          using macro_index_Some [OF mi] om by (auto simp: object_macros_def)
        let ?body = "map (mark_origin ?cr (md_range ?def)) (md_body ?def)"
        have "no_builtin ?body" using def(2) by (simp add: no_builtin_def)
        moreover have "map spelling ?body = map spelling (md_body ?def)" by simp
        ultimately obtain ex2 nested where n: "reaches (\<lambda>n. E n ex1 ?body) (Done (ex2, Some nested))" "table_kept ex1 ex2"
          "c_expands (mt_macros t) (insert name (hidden_names t)) (map spelling (md_body ?def)) (map spelling nested)"
          using less.prems(1) [OF p(5,2)] p(3,4) unfolding expands_in_c_def by (metis append_Nil)
        let ?ex3 = "pop_expansion ex2 m"
        have k: "table_kept ex ?ex3" using popped_kept [OF p(1) n(2)] .
        obtain t3 where t3: "object_expander ?ex3 t3" "mt_macros t3 = mt_macros t" "hidden_names t3 = hidden_names t" "me_table ?ex3 = Some t3"
          by (rule object_expander_kept [OF less.prems(2) k])
        have rc: "reaches (\<lambda>n. replace_call (E n) ex m ?def None ?cr) (Done (?ex3, Some nested))"
          using reaches_popped [OF n(1), of m] by (simp add: replace_call_def p(1) substitute_object [OF def(3)])
        have "expand_step ev ex input i out = object_step ev ex input i out m ?def" for ev
          using m np unfolding step by (simp add: def(1))
        then have s: "reaches (\<lambda>n. expand_step (E n) ex input i out) (Done (?ex3, Some (out @ nested, i + 1)))"
          unfolding object_step_def using t3 om
          by (auto intro!: reaches_abind [OF rc] simp: boundary_without_functions [OF t3(4)] reaches_const)
        have "c_expands (mt_macros t) (hidden_names t) (map spelling (drop (i + 1) input)) ws \<Longrightarrow>
          c_expands (mt_macros t) (hidden_names t) (map spelling (drop i input)) (map spelling nested @ ws)" for ws
          using c_replace [OF _ mi n(3)] m True unfolding d by (simp add: spelling_def hidden_names_def)
        then show ?thesis
          by (intro expands_in_c_step [OF s i k next_step [OF _ i k t3(1)] t3(2,3)]) simp_all
      qed
    qed
  qed
qed

lemma object_expansion:
  "object_expander ex t \<Longrightarrow> no_builtin input \<Longrightarrow> expands_in_c ex t (\<lambda>n. macro_expander_expand n ex input) [] input"
proof (induction "free_macros ex" arbitrary: ex t input rule: less_induct)
  case less
  let ?ex = "macro_expander_clear_error ex"
  have k: "table_kept ex ?ex" "free_macros ?ex = free_macros ex" "object_expander ?ex t"
    using less.prems by (auto simp: macro_expander_clear_error_def table_kept_same object_expander_def free_macros_def)
  have "expands_in_c ?ex t (\<lambda>n. expand_loop (macro_expander_expand n) input 0 [] ?ex) [] (drop 0 input)"
    using less k by (intro object_expand_loop) simp_all
  then obtain ex' out where r: "reaches (\<lambda>n. macro_expander_expand (Suc n) ex input) (Done (ex', Some out))" "table_kept ?ex ex'"
      "c_expands (mt_macros t) (hidden_names t) (map spelling input) (map spelling out)"
    unfolding expands_in_c_def
    by (cases "input = []") (auto simp: Let_def expand_loop.simps [of _ "[]"])
  then have "reaches (\<lambda>n. macro_expander_expand n ex input) (Done (ex', Some out))"
    unfolding reaches_def by (metis Suc_le_D Suc_le_mono)
  then show ?case using r table_kept_trans [OF k(1)] unfolding expands_in_c_def by auto
qed


section \<open>Examples\<close>

definition word_token :: "string \<Rightarrow> Token" where
  "word_token s = mk_token TOKEN_IDENTIFIER s 1"

abbreviation lparen :: Token where "lparen \<equiv> mk_token TOKEN_LPAREN ''('' 1"
abbreviation rparen :: Token where "rparen \<equiv> mk_token TOKEN_RPAREN '')'' 1"
abbreviation comma_token :: Token where "comma_token \<equiv> mk_token TOKEN_COMMA '','' 1"
abbreviation paste_token :: Token where "paste_token \<equiv> mk_token TOKEN_DOUBLE_HASH ''##'' 1"

definition object_macro :: "string \<Rightarrow> Token list \<Rightarrow> MacroDefinition" where
  "object_macro name body = zero_definition\<lparr>md_name := Some name, md_body := body\<rparr>"

definition function_macro :: "string \<Rightarrow> string list \<Rightarrow> bool \<Rightarrow> bool \<Rightarrow> Token list \<Rightarrow> MacroDefinition" where
  "function_macro name params variadic vaOpt body =
    zero_definition\<lparr>md_name := Some name, md_kind := MACRO_FUNCTION,
      md_params := \<lparr>mp_names = params, mp_variadic = variadic, mp_hasVaOpt = vaOpt\<rparr>, md_body := body\<rparr>"

definition expander_of :: "MacroDefinition list \<Rightarrow> MacroExpander" where
  "expander_of defs = macro_expander_init (Some (macro_table_create\<lparr>mt_macros := defs\<rparr>))"

definition output_of :: "PPTokenBuffer attempt \<Rightarrow> spelling list option" where
  "output_of r = (case r of Done (ex, Some ts) \<Rightarrow> Some (map spelling ts) | _ \<Rightarrow> None)"

text \<open>
  A name that was not replaced inside its own replacement may be replaced later: with \<open>#define f f a\<close> and \<open>#define id(x) x\<close>
  the call \<open>id(f)\<close> gives \<open>f a a\<close>, because the name found in the expanded argument is scanned again after \<open>f\<close> has left the
  expansion stack. C marks the token for good (6.10.3.4p2) and gives \<open>f a\<close>.
\<close>

theorem unreplaced_name_replaced_later:
  "output_of (macro_expander_expand 5 (expander_of
      [object_macro ''f'' [word_token ''f'', word_token ''a''], function_macro ''id'' [''x''] False False [word_token ''x'']])
    [word_token ''id'', lparen, word_token ''f'', rparen]) =
   Some (map spelling [word_token ''f'', word_token ''a'', word_token ''a''])"
  by code_simp

text \<open>A single empty argument is counted as none: \<open>f()\<close> fails for a macro with one parameter, where C passes it an empty argument.\<close>

theorem empty_argument_rejected:
  "parse_macro_argument_tokens [word_token ''f'', lparen, rparen] 2 (function_macro ''f'' [''x''] False False []) = Some ([[]], 3) \<and>
   output_of (macro_expander_expand 5 (expander_of [function_macro ''f'' [''x''] False False []]) [word_token ''f'', lparen, rparen]) = None"
  by code_simp

text \<open>An empty variable argument counts as one for \<open>__VA_OPT__\<close>: with \<open>#define f(...) __VA_OPT__(a)\<close> the call \<open>f()\<close> gives \<open>a\<close>.\<close>

theorem va_opt_kept_without_arguments:
  "output_of (macro_expander_expand 5 (expander_of
      [function_macro ''f'' [] True True [word_token ''__VA_OPT__'', lparen, word_token ''a'', rparen]])
    [word_token ''f'', lparen, rparen]) = Some [spelling (word_token ''a'')]"
  by code_simp

text \<open>
  An empty argument leaves no mark in its place (C 6.10.3.3p2), so that its neighbours are pasted: with
  \<open>#define f(x, y) a x ## y b\<close> the call \<open>f(,)\<close> gives \<open>ab\<close>, where C has \<open>a b\<close>. And a \<open>##\<close> that comes from an argument acts as the
  operator: with \<open>#define g(x) x\<close> the call \<open>g(a ## b)\<close> gives \<open>ab\<close>.
\<close>

theorem neighbours_of_empty_operands_pasted:
  "output_of (macro_expander_expand 5 (expander_of
      [function_macro ''f'' [''x'', ''y''] False False [word_token ''a'', word_token ''x'', paste_token, word_token ''y'', word_token ''b'']])
    [word_token ''f'', lparen, comma_token, rparen]) = Some [spelling (word_token ''ab'')] \<and>
   output_of (macro_expander_expand 5 (expander_of [function_macro ''g'' [''x''] False False [word_token ''x'']])
    [word_token ''g'', lparen, word_token ''a'', paste_token, word_token ''b'', rparen]) = Some [spelling (word_token ''ab'')]"
  by code_simp

text \<open>The operator \<open>#\<close> writes a blank between any two tokens: \<open>a+b\<close> becomes \<open>a + b\<close>.\<close>

theorem stringify_adds_blanks:
  "stringify_tokens [word_token ''a'', mk_token TOKEN_PLUS ''+'' 1, word_token ''b''] = ''a + b''"
  by code_simp

text \<open>
  The definition an error names may be the local copy made for \<open>__VA_OPT__\<close>: with
  \<open>#define f(...) __VA_OPT__(a, ## __VA_ARGS__)\<close> the error of the call \<open>f(b)\<close> points to a definition that is not in the table
  but was a local variable of a call that has returned.
\<close>

definition va_opt_comma :: MacroDefinition where
  "va_opt_comma = function_macro ''f'' [] True True
    [word_token ''__VA_OPT__'', lparen, word_token ''a'', comma_token, paste_token, word_token ''__VA_ARGS__'', rparen]"

definition reported_macro :: "PPTokenBuffer attempt \<Rightarrow> MacroDefinition option" where
  "reported_macro r = (case r of Done (ex, None) \<Rightarrow> ee_macro (me_lastError ex) | _ \<Rightarrow> None)"

theorem reported_macro_not_in_table:
  "map_option md_body (reported_macro (macro_expander_expand 5 (expander_of [va_opt_comma]) [word_token ''f'', lparen, word_token ''b'', rparen])) =
    Some [word_token ''a'', comma_token, paste_token, word_token ''__VA_ARGS__'']"
  by code_simp

theorem macro_arguments_read_back_witness:
  "parse_macro_argument_tokens
     [word_token ''f'', lparen, word_token ''g'', lparen, word_token ''x'', comma_token, word_token ''y'', rparen, comma_token, word_token ''z'', rparen, word_token ''w'']
     2 zero_definition =
   Some ([[word_token ''g'', lparen, word_token ''x'', comma_token, word_token ''y'', rparen], [word_token ''z'']], 11)"
proof -
  let ?as = "[[word_token ''g'', lparen, word_token ''x'', comma_token, word_token ''y'', rparen], [word_token ''z'']]"
  have "\<forall>a \<in> set ?as. is_argument 0 a" by (simp add: word_token_def)
  from macro_arguments_read_back [OF this, of zero_definition comma_token rparen "[word_token ''f'', lparen]" "[word_token ''w'']"]
  show ?thesis by (simp add: eval_nat_numeral)
qed


end
