(* ===== verification/Units_Annotations.thy ===== *)
theory Units_Annotations
  imports Units_Conversion Type_Resolution
begin

text \<open>
  The units annotations of declarations and what semantic analysis records of names and calls for the units
  analysis: \<open>src/src/Extensions/extension_hooks.c\<close>, \<open>extension_units_view.c\<close>, \<open>extension_units_expr_bindings.c\<close>,
  \<open>extension_units_call_contracts.c\<close>, \<open>Units/units_decl_semantics.c\<close> and \<open>Units/units_return_semantics.c\<close>. A syntax
  tree is a value in which every node has its address; \<open>AST_NULL\<close> is the null pointer. A pointer to an annotation is its
  index in the table. The extension state exists and tables grow.
\<close>

section \<open>Syntax trees\<close>

datatype ASTNode = AST_NULL | Node (node_id: node) (node_shape: shape)
  and shape =
    AST_BLOCK "ASTNode list"
  | AST_STATEMENT_EXPRESSION ASTNode
  | AST_VARIABLE_DECLARATION ParsedType "ParsedType list option" "declarator list" ASTNode ASTNode "ASTAttribute list"
  | AST_STRUCT_DEFINITION "ASTNode list"
  | AST_UNION_DEFINITION "ASTNode list"
  | AST_ENUM_DEFINITION "ASTNode list"
  | AST_CONDITIONAL_DIRECTIVE ASTNode
  | AST_FUNCTION_DECLARATION ParsedType "ASTNode list" "ASTAttribute list"
  | AST_FUNCTION_DEFINITION ParsedType "ASTNode list" ASTNode "ASTAttribute list"
  | AST_IF_STATEMENT ASTNode ASTNode ASTNode
  | AST_FOR_LOOP ASTNode ASTNode ASTNode ASTNode
  | AST_WHILE_LOOP ASTNode ASTNode
  | AST_SWITCH ASTNode "ASTNode list"
  | AST_CASE ASTNode "ASTNode list"
  | AST_RETURN ASTNode
  | AST_LABEL_DECLARATION ASTNode
  | AST_SEQUENCE ASTNode ASTNode
  | AST_TERNARY_EXPRESSION ASTNode ASTNode ASTNode
  | AST_BINARY_EXPRESSION cstr ASTNode ASTNode
  | AST_UNARY_EXPRESSION cstr ASTNode ASTNode
  | AST_SIZEOF ASTNode ASTNode
  | AST_ALIGNOF ASTNode ASTNode
  | AST_ASSIGNMENT cstr ASTNode ASTNode
  | AST_COMMA_EXPRESSION "ASTNode list"
  | AST_CAST_EXPRESSION ParsedType ASTNode
  | AST_ARRAY_ACCESS ASTNode ASTNode
  | AST_POINTER_DEREFERENCE ASTNode
  | AST_POINTER_ACCESS ASTNode cstr
  | AST_DOT_ACCESS ASTNode cstr
  | AST_STRUCT_FIELD_ACCESS ASTNode
  | AST_FUNCTION_CALL ASTNode "ASTNode list"
  | AST_COMPOUND_LITERAL ParsedType "DesignatedInit list"
  | AST_NUMBER_LITERAL cstr
  | AST_CHAR_LITERAL cstr
  | AST_STRING_LITERAL cstr
  | AST_IDENTIFIER cstr
  | AST_OTHER "ASTAttribute list"
  and declarator = Declarator ASTNode DesignatedInit
  and DesignatedInit = INIT_NULL | Init (fieldName: cstr) (indexExpr: ASTNode) (init_expression: ASTNode)

text \<open>
  What the analysis finds by address: the node and the initializer there, and the context with the root scope. A type
  whose typedefs are nested deeper than \<open>ue_depth\<close> is taken as invalid; depths above the rank of a type give the type
  itself.
\<close>

record UnitsEnv =
  ue_node :: "node \<Rightarrow> ASTNode"
  ue_init :: "address \<Rightarrow> DesignatedInit"
  ue_host :: HostMacros
  ue_ctx :: CompilerContext
  ue_scope :: scope
  ue_depth :: nat

definition type_info :: "UnitsEnv \<Rightarrow> ParsedType \<Rightarrow> TypeInfo" where
  "type_info env t =
    (case typeInfoFromParsedType (ue_depth env) (ue_host env) (Some (ue_ctx env)) (ue_scope env) t of
       Some info \<Rightarrow> info | None \<Rightarrow> makeInvalidType)"

definition units_enabled :: "UnitsEnv \<Rightarrow> bool" where
  "units_enabled env = cc_overlay_physics_units_enabled (Some (ue_ctx env))"

definition node_at :: "UnitsEnv \<Rightarrow> node option \<Rightarrow> ASTNode" where
  "node_at env p = (case p of None \<Rightarrow> AST_NULL | Some n \<Rightarrow> ue_node env n)"

definition astVarDeclTypeAt :: "shape \<Rightarrow> nat \<Rightarrow> ParsedType option" where
  "astVarDeclTypeAt s i =
    (case s of
       AST_VARIABLE_DECLARATION t ts ds _ _ _ \<Rightarrow>
         Some (case ts of Some l \<Rightarrow> if i < length ds then l ! i else t | None \<Rightarrow> t)
     | _ \<Rightarrow> None)"

section \<open>Annotations\<close>

fun find_annotation :: "FisicsUnitsAnnotation list \<Rightarrow> node \<Rightarrow> nat \<Rightarrow> nat option" where
  "find_annotation [] n i = None"
| "find_annotation (a # as) n i =
    (if an_node a = n \<and> an_declaratorIndex a = i then Some 0 else map_option Suc (find_annotation as n i))"

definition find_units_annotation :: "FisicsExtensionState \<Rightarrow> node \<Rightarrow> nat \<Rightarrow> nat option" where
  "find_units_annotation st n i = find_annotation (unitsAnnotations st) n i"

definition new_annotation :: "node \<Rightarrow> nat \<Rightarrow> FisicsUnitsAnnotation" where
  "new_annotation n i =
    \<lparr>an_node = n, an_declaratorIndex = i, an_dimExprText = None, an_canonicalText = None, an_dim = fisics_dim_zero,
     an_resolved = False, an_dimDuplicateCount = 0, an_unitExprText = None, an_unitDef = None, an_unitResolved = False,
     an_unitDuplicateCount = 0\<rparr>"

definition ensure_units_annotation :: "FisicsExtensionState \<Rightarrow> node \<Rightarrow> nat \<Rightarrow> FisicsExtensionState \<times> nat" where
  "ensure_units_annotation st n i =
    (case find_units_annotation st n i of
       Some k \<Rightarrow> (st, k)
     | None \<Rightarrow> (st\<lparr>unitsAnnotations := unitsAnnotations st @ [new_annotation n i]\<rparr>, length (unitsAnnotations st)))"

definition update_annotation :: "nat \<Rightarrow> (FisicsUnitsAnnotation \<Rightarrow> FisicsUnitsAnnotation) \<Rightarrow> FisicsExtensionState \<Rightarrow> FisicsExtensionState" where
  "update_annotation k f st = st\<lparr>unitsAnnotations := (unitsAnnotations st)[k := f (unitsAnnotations st ! k)]\<rparr>"

definition note_units_dim_attr :: "node \<Rightarrow> nat \<Rightarrow> string \<Rightarrow> FisicsExtensionState \<Rightarrow> FisicsExtensionState" where
  "note_units_dim_attr n i text st =
    (let (st', k) = ensure_units_annotation st n i in
     update_annotation k (\<lambda>a. if an_dimExprText a \<noteq> None then a\<lparr>an_dimDuplicateCount := an_dimDuplicateCount a + 1\<rparr>
                              else a\<lparr>an_dimExprText := Some text, an_dimDuplicateCount := 1\<rparr>) st')"

definition note_units_unit_attr :: "node \<Rightarrow> nat \<Rightarrow> string \<Rightarrow> FisicsExtensionState \<Rightarrow> FisicsExtensionState" where
  "note_units_unit_attr n i text st =
    (let (st', k) = ensure_units_annotation st n i in
     update_annotation k (\<lambda>a. if an_unitExprText a \<noteq> None then a\<lparr>an_unitDuplicateCount := an_unitDuplicateCount a + 1\<rparr>
                              else a\<lparr>an_unitExprText := Some text, an_unitDuplicateCount := 1\<rparr>) st')"

text \<open>The state, and how many attributes were noted.\<close>

fun note_units_attrs_from_list :: "node \<Rightarrow> nat \<Rightarrow> ASTAttribute list \<Rightarrow> FisicsExtensionState \<Rightarrow> FisicsExtensionState \<times> nat" where
  "note_units_attrs_from_list n i [] st = (st, 0)"
| "note_units_attrs_from_list n i (a # as) st =
    (case fisics_units_dim_attribute_extract (Some a) of
       Some text \<Rightarrow> (let (st', k) = note_units_attrs_from_list n i as (note_units_dim_attr n i text st) in (st', Suc k))
     | None \<Rightarrow>
         (case fisics_units_unit_attribute_extract (Some a) of
            Some text \<Rightarrow> (let (st', k) = note_units_attrs_from_list n i as (note_units_unit_attr n i text st) in (st', Suc k))
          | None \<Rightarrow> note_units_attrs_from_list n i as st))"

fun note_slots :: "node \<Rightarrow> nat list \<Rightarrow> (nat \<Rightarrow> ASTAttribute list) \<Rightarrow> FisicsExtensionState \<Rightarrow> FisicsExtensionState" where
  "note_slots n [] attrs st = st"
| "note_slots n (i # is) attrs st = note_slots n is attrs (fst (note_units_attrs_from_list n i (attrs i) st))"

definition fisics_extension_note_units_prefix :: "ASTNode \<Rightarrow> ASTAttribute list \<Rightarrow> FisicsExtensionState \<Rightarrow> FisicsExtensionState" where
  "fisics_extension_note_units_prefix nd attrs st =
    (case nd of
       AST_NULL \<Rightarrow> st
     | Node n s \<Rightarrow>
         let slots = (case s of AST_VARIABLE_DECLARATION _ _ ds _ _ _ \<Rightarrow> length ds | _ \<Rightarrow> 1)
         in note_slots n [0..<slots] (\<lambda>i. attrs) st)"

definition node_attributes :: "shape \<Rightarrow> ASTAttribute list" where
  "node_attributes s =
    (case s of
       AST_VARIABLE_DECLARATION _ _ _ _ _ as \<Rightarrow> as
     | AST_FUNCTION_DECLARATION _ _ as \<Rightarrow> as
     | AST_FUNCTION_DEFINITION _ _ _ as \<Rightarrow> as
     | AST_OTHER as \<Rightarrow> as
     | _ \<Rightarrow> [])"

text \<open>The attributes of one variable: those of its type, or of the node where no declarator has its own type.\<close>

definition declarator_attributes :: "shape \<Rightarrow> nat \<Rightarrow> ASTAttribute list" where
  "declarator_attributes s i =
    (case astVarDeclTypeAt s i of
       None \<Rightarrow> []
     | Some t \<Rightarrow>
         if pt_attributes (pt_base t) \<noteq> [] then pt_attributes (pt_base t)
         else (case s of AST_VARIABLE_DECLARATION _ None _ _ _ as \<Rightarrow> as | _ \<Rightarrow> []))"

definition fisics_extension_note_declaration :: "ASTNode \<Rightarrow> FisicsExtensionState \<Rightarrow> FisicsExtensionState" where
  "fisics_extension_note_declaration nd st =
    (case nd of
       AST_NULL \<Rightarrow> st
     | Node n s \<Rightarrow>
         (case s of
            AST_VARIABLE_DECLARATION t ts ds a b as \<Rightarrow> note_slots n [0..<length ds] (declarator_attributes s) st
          | _ \<Rightarrow>
             (let (st', noted) = note_units_attrs_from_list n 0 (node_attributes s) st in
              case s of
                AST_FUNCTION_DECLARATION t _ _ \<Rightarrow>
                  if noted = 0 then fst (note_units_attrs_from_list n 0 (pt_attributes (pt_base t)) st') else st'
              | AST_FUNCTION_DEFINITION t _ _ _ \<Rightarrow>
                  if noted = 0 then fst (note_units_attrs_from_list n 0 (pt_attributes (pt_base t)) st') else st'
              | _ \<Rightarrow> st')))"

definition fisics_extension_lookup_units_declarator_annotation ::
    "FisicsExtensionState \<Rightarrow> node option \<Rightarrow> nat \<Rightarrow> FisicsUnitsAnnotation option" where
  "fisics_extension_lookup_units_declarator_annotation st owner i =
    (case owner of None \<Rightarrow> None | Some n \<Rightarrow> List.find (\<lambda>a. an_node a = n \<and> an_declaratorIndex a = i) (unitsAnnotations st))"

definition fisics_extension_lookup_units_annotation :: "FisicsExtensionState \<Rightarrow> node option \<Rightarrow> FisicsUnitsAnnotation option" where
  "fisics_extension_lookup_units_annotation st owner = fisics_extension_lookup_units_declarator_annotation st owner 0"

definition fisics_extension_units_annotation_at :: "FisicsExtensionState \<Rightarrow> nat \<Rightarrow> FisicsUnitsAnnotation option" where
  "fisics_extension_units_annotation_at st i = (if i \<ge> length (unitsAnnotations st) then None else Some (unitsAnnotations st ! i))"

definition fisics_extension_units_annotation_count :: "FisicsExtensionState \<Rightarrow> nat" where
  "fisics_extension_units_annotation_count st = length (unitsAnnotations st)"

definition fisics_extension_units_resolved_count :: "FisicsExtensionState \<Rightarrow> nat" where
  "fisics_extension_units_resolved_count st = length (filter an_resolved (unitsAnnotations st))"

section \<open>Resolving annotations\<close>

text \<open>
  The dimension a text denotes, or the message. An exponent beyond \<open>int\<close>, whose evaluation C leaves undefined, is
  taken as a syntax error.
\<close>

definition dim_of_text :: "cstr \<Rightarrow> string + FisicsDim8" where
  "dim_of_text text =
    (case fisics_units_parse_dim_expr text of
       Done d \<Rightarrow> Inr d | Fail detail \<Rightarrow> Inl detail | Undefined \<Rightarrow> Inl ''invalid dimension syntax'')"

text \<open>The dimension and its canonical text; failure is reported.\<close>

definition fisics_units_resolve_annotation ::
    "node \<Rightarrow> string \<Rightarrow> bool \<Rightarrow> FisicsExtensionState \<Rightarrow> FisicsExtensionState \<times> (FisicsDim8 \<times> string) option" where
  "fisics_units_resolve_annotation n text overlayEnabled st =
    (if \<not> overlayEnabled then (add_diag (UnitsDisabled n text) st, None)
     else case dim_of_text (Some text) of
         Inl detail \<Rightarrow> (add_diag (InvalidUnitsExpr n text detail) st, None)
       | Inr d \<Rightarrow> (st, Some (d, fisics_dim_to_string d)))"

definition fisics_units_resolve_unit_annotation ::
    "node \<Rightarrow> string \<Rightarrow> bool \<Rightarrow> bool \<Rightarrow> FisicsDim8 \<Rightarrow> FisicsExtensionState \<Rightarrow> FisicsExtensionState \<times> FisicsUnitDef option" where
  "fisics_units_resolve_unit_annotation n text overlayEnabled hasResolvedDim declDim st =
    (if \<not> overlayEnabled then (add_diag (UnitsDisabled n text) st, None)
     else if \<not> hasResolvedDim then (add_diag (UnitRequiresDim n text) st, None)
     else case fisics_unit_lookup (Some text) of
         None \<Rightarrow> (add_diag (InvalidUnitAttr n text) st, None)
       | Some u \<Rightarrow>
           if \<not> fisics_dim_equal (ud_dim u) declDim then (add_diag (UnitDimMismatch n text declDim (ud_dim u)) st, None)
           else (st, Some u))"

text \<open>The node a report about an annotation points at: the variable of a declaration of several.\<close>

definition diagnostic_owner :: "UnitsEnv \<Rightarrow> FisicsUnitsAnnotation \<Rightarrow> node" where
  "diagnostic_owner env a =
    (case ue_node env (an_node a) of
       Node _ (AST_VARIABLE_DECLARATION _ _ ds _ _ _) \<Rightarrow>
         if length ds > 1 \<and> an_declaratorIndex a < length ds
         then (case ds ! an_declaratorIndex a of Declarator (Node n _) _ \<Rightarrow> n | _ \<Rightarrow> an_node a)
         else an_node a
     | _ \<Rightarrow> an_node a)"

definition resolve_dim_step :: "UnitsEnv \<Rightarrow> node \<Rightarrow> FisicsUnitsAnnotation \<Rightarrow> FisicsExtensionState \<Rightarrow> FisicsExtensionState \<times> FisicsUnitsAnnotation" where
  "resolve_dim_step env owner a st =
    (case an_dimExprText a of
       Some text \<Rightarrow>
         if an_dimDuplicateCount a \<le> 1
         then (case fisics_units_resolve_annotation owner text (units_enabled env) st of
                 (st', Some (d, canonical)) \<Rightarrow> (st', a\<lparr>an_resolved := True, an_dim := d, an_canonicalText := Some canonical\<rparr>)
               | (st', None) \<Rightarrow> (st', a))
         else (st, a)
     | None \<Rightarrow> (st, a))"

definition resolve_unit_step :: "UnitsEnv \<Rightarrow> node \<Rightarrow> FisicsUnitsAnnotation \<Rightarrow> FisicsExtensionState \<Rightarrow> FisicsExtensionState \<times> FisicsUnitsAnnotation" where
  "resolve_unit_step env owner a st =
    (case an_unitExprText a of
       Some text \<Rightarrow>
         if an_unitDuplicateCount a \<le> 1
         then (case fisics_units_resolve_unit_annotation owner text (units_enabled env) (an_resolved a) (an_dim a) st of
                 (st', Some u) \<Rightarrow> (st', a\<lparr>an_unitResolved := True, an_unitDef := Some u\<rparr>)
               | (st', None) \<Rightarrow> (st', a))
         else (st, a)
     | None \<Rightarrow> (st, a))"

definition resolve_annotation_at :: "UnitsEnv \<Rightarrow> nat \<Rightarrow> FisicsExtensionState \<Rightarrow> FisicsExtensionState" where
  "resolve_annotation_at env k st =
    (let a0 = unitsAnnotations st ! k; owner = diagnostic_owner env a0;
         st1 = (if an_dimDuplicateCount a0 > 1 then add_diag (DuplicateUnitsAttr owner) st else st);
         st2 = (if an_unitDuplicateCount a0 > 1 then add_diag (DuplicateUnitAttr owner) st1 else st1);
         a1 = a0\<lparr>an_canonicalText := None, an_resolved := False, an_unitDef := None, an_unitResolved := False\<rparr>;
         (st3, a2) = resolve_dim_step env owner a1 st2;
         (st4, a3) = resolve_unit_step env owner a2 st3
     in update_annotation k (\<lambda>_. a3) st4)"

fun resolve_annotations :: "UnitsEnv \<Rightarrow> nat list \<Rightarrow> FisicsExtensionState \<Rightarrow> FisicsExtensionState" where
  "resolve_annotations env [] st = st"
| "resolve_annotations env (k # ks) st = resolve_annotations env ks (resolve_annotation_at env k st)"

definition run_units_decl_scaffold :: "UnitsEnv \<Rightarrow> FisicsExtensionState \<Rightarrow> FisicsExtensionState" where
  "run_units_decl_scaffold env st = resolve_annotations env [0..<length (unitsAnnotations st)] st"

section \<open>Bindings of names\<close>

text \<open>The last write to a node's binding; a new one is appended.\<close>

fun binding_update :: "node \<Rightarrow> (FisicsUnitsExprBinding \<Rightarrow> FisicsUnitsExprBinding) \<Rightarrow> FisicsUnitsExprBinding list \<Rightarrow> FisicsUnitsExprBinding list" where
  "binding_update n f [] =
    [f \<lparr>bd_node = n, bd_annotation = None, bd_symbolType = None, bd_originNode = None, bd_functionDefinition = None,
        bd_initializer = None\<rparr>]"
| "binding_update n f (b # bs) = (if bd_node b = n then f b # bs else b # binding_update n f bs)"

definition find_binding :: "FisicsExtensionState \<Rightarrow> node \<Rightarrow> FisicsUnitsExprBinding option" where
  "find_binding st n = List.find (\<lambda>b. bd_node b = n) (unitsExprBindings st)"

fun variable_named :: "cstr \<Rightarrow> declarator list \<Rightarrow> node option" where
  "variable_named name [] = None"
| "variable_named name (Declarator nd _ # ds) =
    (case nd of
       Node n (AST_IDENTIFIER (Some v)) \<Rightarrow> if name = Some v then Some n else variable_named name ds
     | _ \<Rightarrow> variable_named name ds)"

definition origin_of_symbol :: "UnitsEnv \<Rightarrow> ParsedType Symbol \<Rightarrow> node option" where
  "origin_of_symbol env s =
    (case node_at env (sym_definition s) of
       Node _ (AST_VARIABLE_DECLARATION _ _ ds _ _ _) \<Rightarrow>
         (case variable_named (Some (sym_name s)) ds of Some n \<Rightarrow> Some n | None \<Rightarrow> sym_definition s)
     | _ \<Rightarrow> sym_definition s)"

definition units_expr_binding_replace_symbol_snapshot :: "UnitsEnv \<Rightarrow> ParsedType Symbol \<Rightarrow> FisicsUnitsExprBinding \<Rightarrow> FisicsUnitsExprBinding" where
  "units_expr_binding_replace_symbol_snapshot env s b =
    b\<lparr>bd_symbolType := Some (parsedTypeClone (sym_type s)), bd_originNode := origin_of_symbol env s,
      bd_initializer := sym_initializer s,
      bd_functionDefinition := (if sym_kind s = SYMBOL_FUNCTION then sym_definition s else None)\<rparr>"

definition fisics_extension_note_units_annotation_binding :: "node \<Rightarrow> nat \<Rightarrow> FisicsExtensionState \<Rightarrow> FisicsExtensionState" where
  "fisics_extension_note_units_annotation_binding n ann st =
    st\<lparr>unitsExprBindings := binding_update n (\<lambda>b. b\<lparr>bd_annotation := Some ann\<rparr>) (unitsExprBindings st)\<rparr>"

definition fisics_extension_note_units_symbol_binding :: "UnitsEnv \<Rightarrow> node \<Rightarrow> ParsedType Symbol \<Rightarrow> FisicsExtensionState \<Rightarrow> FisicsExtensionState" where
  "fisics_extension_note_units_symbol_binding env n s st =
    st\<lparr>unitsExprBindings := binding_update n
      (\<lambda>b. units_expr_binding_replace_symbol_snapshot env s (b\<lparr>bd_annotation := symbolGetUnitsAnnotation (Some s)\<rparr>)) (unitsExprBindings st)\<rparr>"

definition fisics_extension_lookup_units_annotation_binding :: "FisicsExtensionState \<Rightarrow> node \<Rightarrow> FisicsUnitsAnnotation option" where
  "fisics_extension_lookup_units_annotation_binding st n =
    Option.bind (find_binding st n) (\<lambda>b. Option.bind (bd_annotation b) (fisics_extension_units_annotation_at st))"

definition fisics_extension_lookup_units_symbol_type_binding :: "FisicsExtensionState \<Rightarrow> node \<Rightarrow> ParsedType option" where
  "fisics_extension_lookup_units_symbol_type_binding st n = Option.bind (find_binding st n) bd_symbolType"

definition fisics_extension_lookup_units_symbol_initializer_binding :: "UnitsEnv \<Rightarrow> FisicsExtensionState \<Rightarrow> node \<Rightarrow> DesignatedInit" where
  "fisics_extension_lookup_units_symbol_initializer_binding env st n =
    (case Option.bind (find_binding st n) bd_initializer of None \<Rightarrow> INIT_NULL | Some p \<Rightarrow> ue_init env p)"

definition fisics_extension_lookup_units_function_binding :: "FisicsExtensionState \<Rightarrow> node \<Rightarrow> node option" where
  "fisics_extension_lookup_units_function_binding st n = Option.bind (find_binding st n) bd_functionDefinition"

definition fisics_extension_note_units_type_binding :: "node \<Rightarrow> ParsedType \<Rightarrow> FisicsExtensionState \<Rightarrow> FisicsExtensionState" where
  "fisics_extension_note_units_type_binding n t st =
    st\<lparr>unitsExprBindings := binding_update n
      (\<lambda>b. b\<lparr>bd_symbolType := (if pt_kind (pt_base t) = TYPE_INVALID then None else Some (parsedTypeClone t))\<rparr>) (unitsExprBindings st)\<rparr>"

definition fisics_units_lookup_origin :: "FisicsExtensionState \<Rightarrow> node option \<Rightarrow> node option" where
  "fisics_units_lookup_origin st p = Option.bind p (\<lambda>n. Option.bind (find_binding st n) bd_originNode)"

definition fisics_units_note_origin :: "node \<Rightarrow> node option \<Rightarrow> FisicsExtensionState \<Rightarrow> FisicsExtensionState" where
  "fisics_units_note_origin n origin st =
    (if origin = None \<or> find_binding st n = None then st
     else st\<lparr>unitsExprBindings := binding_update n (\<lambda>b. b\<lparr>bd_originNode := origin\<rparr>) (unitsExprBindings st)\<rparr>)"

section \<open>Contracts of calls\<close>

record type_contract =
  tc_sawAny :: bool
  tc_dim :: "FisicsDim8 option"
  tc_unit :: "FisicsUnitDef option"

text \<open>The first attribute of each family that resolves counts.\<close>

fun scan_contract :: "ASTAttribute list \<Rightarrow> type_contract \<Rightarrow> type_contract" where
  "scan_contract [] c = c"
| "scan_contract (a # as) c =
    scan_contract as
     (case (if tc_dim c = None then fisics_units_dim_attribute_extract (Some a) else None) of
        Some text \<Rightarrow> (case dim_of_text (Some text) of Inr d \<Rightarrow> c\<lparr>tc_dim := Some d, tc_sawAny := True\<rparr> | Inl _ \<Rightarrow> c)
      | None \<Rightarrow>
         (case (if tc_unit c = None then fisics_units_unit_attribute_extract (Some a) else None) of
            Some text \<Rightarrow> (case fisics_unit_lookup (Some text) of Some u \<Rightarrow> c\<lparr>tc_unit := Some u, tc_sawAny := True\<rparr> | None \<Rightarrow> c)
          | None \<Rightarrow> c))"

text \<open>The dimension, whether it is resolved, and the unit; \<open>None\<close> where the type says nothing.\<close>

definition fisics_units_parse_type_contract :: "ParsedType option \<Rightarrow> (FisicsDim8 \<times> bool \<times> FisicsUnitDef option) option" where
  "fisics_units_parse_type_contract type =
    (case type of
       None \<Rightarrow> None
     | Some t \<Rightarrow>
         if pt_attributes (pt_base t) = [] then None
         else let c = scan_contract (pt_attributes (pt_base t)) \<lparr>tc_sawAny = False, tc_dim = None, tc_unit = None\<rparr> in
           if \<not> tc_sawAny c then None
           else (case (tc_dim c, tc_unit c) of
                   (None, Some u) \<Rightarrow> Some (ud_dim u, True, Some u)
                 | (Some d, Some u) \<Rightarrow> Some (d, True, if fisics_dim_equal d (ud_dim u) then Some u else None)
                 | (Some d, None) \<Rightarrow> Some (d, True, None)
                 | (None, None) \<Rightarrow> Some (fisics_dim_zero, False, None)))"

fun contract_write :: "FisicsUnitsCallArgContract \<Rightarrow> FisicsUnitsCallArgContract list \<Rightarrow> FisicsUnitsCallArgContract list" where
  "contract_write c [] = [c]"
| "contract_write c (x # xs) =
    (if ca_callNode x = ca_callNode c \<and> ca_argIndex x = ca_argIndex c then c # xs else x # contract_write c xs)"

definition fisics_extension_note_units_call_arg_contract_from_param_type ::
    "node \<Rightarrow> int \<Rightarrow> ParsedType option \<Rightarrow> FisicsExtensionState \<Rightarrow> FisicsExtensionState" where
  "fisics_extension_note_units_call_arg_contract_from_param_type n i type st =
    (case fisics_units_parse_type_contract type of
       None \<Rightarrow> st
     | Some (d, resolved, unit) \<Rightarrow>
         st\<lparr>unitsCallArgContracts := contract_write
           \<lparr>ca_callNode = n, ca_argIndex = i, ca_dim = d, ca_resolved = resolved, ca_unitDef = unit,
            ca_unitResolved = (unit \<noteq> None)\<rparr> (unitsCallArgContracts st)\<rparr>)"

definition fisics_extension_lookup_units_call_arg_contract ::
    "FisicsExtensionState \<Rightarrow> node \<Rightarrow> int \<Rightarrow> FisicsUnitsCallArgContract option" where
  "fisics_extension_lookup_units_call_arg_contract st n i =
    List.find (\<lambda>c. ca_callNode c = n \<and> ca_argIndex c = i) (unitsCallArgContracts st)"

definition fisics_units_return_contracts_compatible :: "ParsedType option \<Rightarrow> ParsedType option \<Rightarrow> bool" where
  "fisics_units_return_contracts_compatible a b \<longleftrightarrow>
    (case (fisics_units_parse_type_contract a, fisics_units_parse_type_contract b) of
       (Some (ad, ar, au), Some (bd, br, bu)) \<Rightarrow>
         \<not> ar \<or> \<not> br \<or> (fisics_dim_equal ad bd \<and> (au = None \<or> bu = None \<or> au = bu))
     | _ \<Rightarrow> True)"

section \<open>Return contracts\<close>

text \<open>The index of the contract on a function's result, \<open>SIZE_MAX\<close> in C.\<close>

definition FISICS_UNITS_RETURN_CONTRACT_INDEX :: int where
  "FISICS_UNITS_RETURN_CONTRACT_INDEX = 2 ^ 64 - 1"

definition units_attribute_kind :: "ASTAttribute \<Rightarrow> nat" where
  "units_attribute_kind a =
    (if fisics_units_dim_attribute_extract (Some a) \<noteq> None then 1
     else if fisics_units_unit_attribute_extract (Some a) \<noteq> None then 2 else 0)"

definition has_kind :: "ParsedType \<Rightarrow> nat \<Rightarrow> bool" where
  "has_kind t k = list_ex (\<lambda>a. units_attribute_kind a = k) (pt_attributes (pt_base t))"

definition copy_attribute :: "ParsedType \<Rightarrow> ASTAttribute \<Rightarrow> ParsedType" where
  "copy_attribute t a = parsedTypeAdoptAttributes t [a]"

fun inherit_missing :: "bool \<Rightarrow> bool \<Rightarrow> ASTAttribute list \<Rightarrow> ParsedType \<Rightarrow> ParsedType" where
  "inherit_missing dm un [] t = t"
| "inherit_missing dm un (a # as) t =
    (let k = units_attribute_kind a in
     inherit_missing dm un as (if (k = 1 \<and> \<not> dm) \<or> (k = 2 \<and> \<not> un) then copy_attribute t a else t))"

definition fisics_units_inherit_return_attributes :: "ParsedType \<Rightarrow> ParsedType option \<Rightarrow> ParsedType" where
  "fisics_units_inherit_return_attributes current previous =
    (case previous of
       None \<Rightarrow> current
     | Some p \<Rightarrow> inherit_missing (has_kind current 1) (has_kind current 2) (pt_attributes (pt_base p)) current)"

definition return_contract_reports :: "node \<Rightarrow> ParsedType option \<Rightarrow> ParsedType \<Rightarrow> FisicsExtensionState \<Rightarrow> FisicsExtensionState" where
  "return_contract_reports n previous current st =
    (case (fisics_units_parse_type_contract previous, fisics_units_parse_type_contract (Some current)) of
       (Some (pd, True, pu), Some (cd, True, cu)) \<Rightarrow>
         if \<not> fisics_dim_equal pd cd then add_diag (ReturnContractMismatch n pd cd) st
         else (case (pu, cu) of
                 (Some pv, Some cv) \<Rightarrow> if pv \<noteq> cv then add_diag (ImplicitUnitConversion n ''return contract'' cv pv) st else st
               | _ \<Rightarrow> st)
     | _ \<Rightarrow> st)"

text \<open>The state and the type of the result with its attributes completed.\<close>

definition fisics_units_note_function_return_contract ::
    "UnitsEnv \<Rightarrow> ASTNode \<Rightarrow> ParsedType option \<Rightarrow> ParsedType \<Rightarrow> FisicsExtensionState \<Rightarrow> FisicsExtensionState \<times> ParsedType" where
  "fisics_units_note_function_return_contract env nd previous current st =
    (case nd of
       AST_NULL \<Rightarrow> (st, current)
     | Node n s \<Rightarrow>
         let current1 = inherit_missing (has_kind current 1) (has_kind current 2) (node_attributes s) current in
         if \<not> units_enabled env then (st, current1)
         else
           let st1 = return_contract_reports n previous current1 st;
               current2 = fisics_units_inherit_return_attributes current1 previous
           in (fisics_extension_note_units_call_arg_contract_from_param_type n FISICS_UNITS_RETURN_CONTRACT_INDEX
                 (Some current2) st1, current2))"

section \<open>Accesses\<close>

definition child_id :: "ASTNode \<Rightarrow> node option" where
  "child_id nd = (case nd of AST_NULL \<Rightarrow> None | Node n _ \<Rightarrow> Some n)"

definition fisics_units_capture_access_type :: "UnitsEnv \<Rightarrow> ASTNode \<Rightarrow> ParsedType \<Rightarrow> FisicsExtensionState \<Rightarrow> FisicsExtensionState" where
  "fisics_units_capture_access_type env nd t st =
    (if \<not> units_enabled env then st
     else case nd of
         AST_NULL \<Rightarrow> st
       | Node n s \<Rightarrow>
           let st1 = fisics_extension_note_units_type_binding n t st in
           (case s of
              AST_ARRAY_ACCESS a i \<Rightarrow> fisics_units_note_origin n (fisics_units_lookup_origin st1 (child_id a)) st1
            | AST_POINTER_DEREFERENCE p \<Rightarrow> fisics_units_note_origin n (fisics_units_lookup_origin st1 (child_id p)) st1
            | _ \<Rightarrow> st1))"

end
