(* ===== verification/Units_Expr.thy ===== *)
theory Units_Expr
  imports Units_Annotations
begin

text \<open>
  The units analysis of expressions, \<open>src/src/Extensions/Units/units_expr_semantics.c\<close> with
  \<open>units_literal_semantics.c\<close>, \<open>units_initializer_semantics.c\<close>, \<open>units_call_semantics.c\<close>, \<open>units_access_semantics.c\<close> and
  the check of return statements in \<open>units_return_semantics.c\<close>. One walk over the tree infers a dimension and a unit for
  each expression, records them in the side table and reports what does not fit. The file's static variables are the
  record \<open>UnitsWalk\<close> with the extension state; an alias keeps the annotation it points to, which the walk does not
  change.
\<close>

record UnitsWalk =
  uw_state :: FisicsExtensionState
  uw_aliases :: "(string \<times> FisicsUnitsAnnotation) list"
  uw_function :: "node option"

definition on_state :: "(FisicsExtensionState \<Rightarrow> FisicsExtensionState) \<Rightarrow> UnitsWalk \<Rightarrow> UnitsWalk" where
  "on_state f w = w\<lparr>uw_state := f (uw_state w)\<rparr>"

text \<open>A dimension, a unit, and whether the unit is resolved.\<close>

type_synonym metadata = "FisicsDim8 \<times> FisicsUnitDef option \<times> bool"

definition set_result :: "node \<Rightarrow> metadata \<Rightarrow> FisicsExtensionState \<Rightarrow> FisicsExtensionState" where
  "set_result n m st = (case m of (d, u, r) \<Rightarrow> fisics_extension_set_units_expr_result_with_unit n d True u r st)"

section \<open>Literals, names and operators that keep the dimension\<close>

definition record_dimensionless_literal :: "node \<Rightarrow> FisicsExtensionState \<Rightarrow> FisicsExtensionState" where
  "record_dimensionless_literal n st = fisics_extension_set_units_expr_result n fisics_dim_zero True st"

definition lookup_resolved_expr_metadata :: "FisicsExtensionState \<Rightarrow> ASTNode \<Rightarrow> metadata option" where
  "lookup_resolved_expr_metadata st nd =
    (case nd of
       AST_NULL \<Rightarrow> None
     | Node n _ \<Rightarrow>
         (case fisics_extension_lookup_units_expr_result st n of
            None \<Rightarrow> None
          | Some r \<Rightarrow> if er_resolved r then Some (er_dim r, er_unitDef r, er_unitResolved r) else None))"

definition annotation_usable :: "FisicsUnitsAnnotation option \<Rightarrow> bool" where
  "annotation_usable ann \<longleftrightarrow> (case ann of None \<Rightarrow> False | Some a \<Rightarrow> an_resolved a \<and> an_dimDuplicateCount a \<le> 1)"

definition annotation_metadata :: "FisicsUnitsAnnotation \<Rightarrow> metadata" where
  "annotation_metadata a = (an_dim a, if an_unitResolved a then an_unitDef a else None, an_unitResolved a)"

definition record_identifier_result :: "node \<Rightarrow> FisicsExtensionState \<Rightarrow> FisicsExtensionState" where
  "record_identifier_result n st =
    (case fisics_extension_lookup_units_annotation_binding st n of
       None \<Rightarrow> st
     | Some a \<Rightarrow> if annotation_usable (Some a) then set_result n (annotation_metadata a) st else st)"

definition is_units_preserving_unary_op :: "cstr \<Rightarrow> bool" where
  "is_units_preserving_unary_op op \<longleftrightarrow> op \<in> {Some ''+'', Some ''-'', Some ''++'', Some ''--''}"

text \<open>The node takes over what is recorded of another.\<close>

definition take_over :: "node \<Rightarrow> ASTNode \<Rightarrow> FisicsExtensionState \<Rightarrow> FisicsExtensionState" where
  "take_over n e st = (case lookup_resolved_expr_metadata st e of None \<Rightarrow> st | Some m \<Rightarrow> set_result n m st)"

definition maybe_record_unary_result :: "node \<Rightarrow> cstr \<Rightarrow> ASTNode \<Rightarrow> FisicsExtensionState \<Rightarrow> FisicsExtensionState" where
  "maybe_record_unary_result n op operand st = (if is_units_preserving_unary_op op then take_over n operand st else st)"

definition maybe_record_cast_result :: "node \<Rightarrow> ASTNode \<Rightarrow> FisicsExtensionState \<Rightarrow> FisicsExtensionState" where
  "maybe_record_cast_result n e st = take_over n e st"

definition maybe_record_comma_result :: "node \<Rightarrow> ASTNode list \<Rightarrow> FisicsExtensionState \<Rightarrow> FisicsExtensionState" where
  "maybe_record_comma_result n es st = (if es = [] then st else take_over n (last es) st)"

section \<open>Binary operators\<close>

definition is_units_add_sub_op :: "cstr \<Rightarrow> bool" where
  "is_units_add_sub_op op \<longleftrightarrow> op = Some ''+'' \<or> op = Some ''-''"

definition is_units_mul_div_op :: "cstr \<Rightarrow> bool" where
  "is_units_mul_div_op op \<longleftrightarrow> op = Some ''*'' \<or> op = Some ''/''"

definition is_units_comparison_op :: "cstr \<Rightarrow> bool" where
  "is_units_comparison_op op \<longleftrightarrow> op \<in> {Some ''=='', Some ''!='', Some ''<'', Some ''<='', Some ''>'', Some ''>=''}"

definition compound_assignment_base_op :: "cstr \<Rightarrow> cstr" where
  "compound_assignment_base_op op =
    (if op = Some ''+='' then Some ''+'' else if op = Some ''-='' then Some ''-''
     else if op = Some ''*='' then Some ''*'' else if op = Some ''/='' then Some ''/'' else None)"

definition units_resolved_and_different :: "FisicsUnitDef option \<Rightarrow> bool \<Rightarrow> FisicsUnitDef option \<Rightarrow> bool \<Rightarrow> bool" where
  "units_resolved_and_different lu lr ru rr \<longleftrightarrow> lr \<and> rr \<and> lu \<noteq> None \<and> ru \<noteq> None \<and> lu \<noteq> ru"

definition implicit_conversion :: "node \<Rightarrow> string \<Rightarrow> FisicsUnitDef option \<Rightarrow> FisicsUnitDef option \<Rightarrow> FisicsExtensionState \<Rightarrow> FisicsExtensionState" where
  "implicit_conversion n context from to st = add_diag (ImplicitUnitConversion n context (the from) (the to)) st"

definition explicit_conversion_context_for_binary :: "cstr \<Rightarrow> string" where
  "explicit_conversion_context_for_binary op =
    (if op = Some ''+'' then ''addition'' else if op = Some ''-'' then ''subtraction''
     else if is_units_comparison_op op then ''comparison'' else ''expression'')"

definition maybe_report_binary_mismatch :: "node \<Rightarrow> cstr \<Rightarrow> FisicsDim8 \<Rightarrow> FisicsDim8 \<Rightarrow> FisicsExtensionState \<Rightarrow> FisicsExtensionState" where
  "maybe_report_binary_mismatch n op l r st =
    (if \<not> is_units_add_sub_op op \<or> fisics_dim_equal l r then st
     else if op = Some ''+'' then add_diag (AddDimMismatch n l r) st
     else add_diag (SubDimMismatch n l r) st)"

definition record_sum :: "node \<Rightarrow> cstr \<Rightarrow> metadata \<Rightarrow> metadata \<Rightarrow> FisicsExtensionState \<Rightarrow> FisicsExtensionState" where
  "record_sum n op l r st =
    (case (l, r) of ((ld, lu, lr), (rd, ru, rr)) \<Rightarrow>
       if \<not> fisics_dim_equal ld rd then maybe_report_binary_mismatch n op ld rd st
       else if units_resolved_and_different lu lr ru rr
       then implicit_conversion n (explicit_conversion_context_for_binary op) ru lu st
       else set_result n (ld, if lr then lu else None, lr \<and> lu = ru) st)"

definition product_unit :: "cstr \<Rightarrow> metadata \<Rightarrow> metadata \<Rightarrow> FisicsUnitDef option \<times> bool" where
  "product_unit op l r =
    (case (l, r) of ((ld, lu, lr), (rd, ru, rr)) \<Rightarrow>
       if op = Some ''*''
       then (if fisics_dim_is_dimensionless ld \<and> rr then (ru, True)
             else if fisics_dim_is_dimensionless rd \<and> lr then (lu, True) else (None, False))
       else (if fisics_dim_is_dimensionless rd \<and> lr then (lu, True) else (None, False)))"

definition combine_dims :: "cstr \<Rightarrow> FisicsDim8 \<Rightarrow> FisicsDim8 \<Rightarrow> FisicsDim8 option" where
  "combine_dims op l r = (if op = Some ''*'' then fisics_dim_add l r else fisics_dim_sub l r)"

definition record_product :: "node \<Rightarrow> cstr \<Rightarrow> metadata \<Rightarrow> metadata \<Rightarrow> FisicsExtensionState \<Rightarrow> FisicsExtensionState" where
  "record_product n op l r st =
    (case combine_dims op (fst l) (fst r) of
       None \<Rightarrow> add_diag (ExponentOverflow n op (fst l) (fst r)) st
     | Some d \<Rightarrow> set_result n (d, product_unit op l r) st)"

definition record_comparison :: "node \<Rightarrow> cstr \<Rightarrow> metadata \<Rightarrow> metadata \<Rightarrow> FisicsExtensionState \<Rightarrow> FisicsExtensionState" where
  "record_comparison n op l r st =
    (case (l, r) of ((ld, lu, lr), (rd, ru, rr)) \<Rightarrow>
       if \<not> fisics_dim_equal ld rd then add_diag (CompareDimMismatch n ld rd) st
       else if units_resolved_and_different lu lr ru rr
       then implicit_conversion n (explicit_conversion_context_for_binary op) ru lu st
       else fisics_extension_set_units_expr_result n fisics_dim_zero True st)"

definition maybe_record_binary_result :: "node \<Rightarrow> cstr \<Rightarrow> ASTNode \<Rightarrow> ASTNode \<Rightarrow> FisicsExtensionState \<Rightarrow> FisicsExtensionState" where
  "maybe_record_binary_result n op left right st =
    (case (lookup_resolved_expr_metadata st left, lookup_resolved_expr_metadata st right) of
       (Some l, Some r) \<Rightarrow>
         if is_units_add_sub_op op then record_sum n op l r st
         else if is_units_mul_div_op op then record_product n op l r st
         else if is_units_comparison_op op then record_comparison n op l r st
         else st
     | _ \<Rightarrow> st)"

section \<open>Calls\<close>

record return_units =
  ru_found :: "metadata option"
  ru_conflict :: bool

text \<open>Only a return statement changes the outcome; nothing does behind a conflict.\<close>

definition collect_return :: "FisicsExtensionState \<Rightarrow> ASTNode \<Rightarrow> return_units \<Rightarrow> return_units" where
  "collect_return st v ru =
    (if ru_conflict ru then ru
     else case lookup_resolved_expr_metadata st v of
         None \<Rightarrow> ru
       | Some (d, u, r) \<Rightarrow>
          (case ru_found ru of
             None \<Rightarrow> ru\<lparr>ru_found := Some (d, u, r)\<rparr>
           | Some (d0, u0, r0) \<Rightarrow>
               if \<not> fisics_dim_equal d0 d \<or> r0 \<noteq> r \<or> (r0 \<and> r \<and> u0 \<noteq> u) then ru\<lparr>ru_conflict := True\<rparr> else ru))"

fun collect_function_return_units :: "FisicsExtensionState \<Rightarrow> ASTNode \<Rightarrow> return_units \<Rightarrow> return_units"
  and collect_statements :: "FisicsExtensionState \<Rightarrow> ASTNode list \<Rightarrow> return_units \<Rightarrow> return_units" where
  "collect_function_return_units st (Node n (AST_BLOCK ss)) ru = collect_statements st ss ru"
| "collect_function_return_units st (Node n (AST_RETURN v)) ru = collect_return st v ru"
| "collect_function_return_units st (Node n (AST_IF_STATEMENT c t e)) ru =
    collect_function_return_units st e (collect_function_return_units st t ru)"
| "collect_function_return_units st (Node n (AST_FOR_LOOP i c u b)) ru = collect_function_return_units st b ru"
| "collect_function_return_units st (Node n (AST_WHILE_LOOP c b)) ru = collect_function_return_units st b ru"
| "collect_function_return_units st (Node n (AST_SWITCH c cs)) ru = collect_statements st cs ru"
| "collect_function_return_units st (Node n (AST_CASE v ss)) ru = collect_statements st ss ru"
| "collect_function_return_units st (Node n (AST_LABEL_DECLARATION s)) ru = collect_function_return_units st s ru"
| "collect_function_return_units st (Node n (AST_STATEMENT_EXPRESSION b)) ru = collect_function_return_units st b ru"
| "collect_function_return_units st (Node n (AST_CONDITIONAL_DIRECTIVE b)) ru = collect_function_return_units st b ru"
| "collect_function_return_units st _ ru = ru"
| "collect_statements st [] ru = ru"
| "collect_statements st (s # ss) ru = collect_statements st ss (collect_function_return_units st s ru)"

definition node_is_explicit_units_convert_call :: "ASTNode \<Rightarrow> bool" where
  "node_is_explicit_units_convert_call callee \<longleftrightarrow>
    (case callee of
       Node _ (AST_IDENTIFIER name) \<Rightarrow> name = Some ''fisics_convert_unit'' \<or> name = Some ''__builtin_fisics_convert_unit''
     | _ \<Rightarrow> False)"

definition called_body :: "UnitsEnv \<Rightarrow> FisicsExtensionState \<Rightarrow> ASTNode \<Rightarrow> ASTNode option" where
  "called_body env st callee =
    (case callee of
       AST_NULL \<Rightarrow> None
     | Node c _ \<Rightarrow>
         (case node_at env (fisics_extension_lookup_units_function_binding st c) of
            Node _ (AST_FUNCTION_DEFINITION _ _ body _) \<Rightarrow> Some body
          | _ \<Rightarrow> None))"

definition maybe_record_function_call_result :: "UnitsEnv \<Rightarrow> node \<Rightarrow> ASTNode \<Rightarrow> FisicsExtensionState \<Rightarrow> FisicsExtensionState" where
  "maybe_record_function_call_result env n callee st =
    (if node_is_explicit_units_convert_call callee then st
     else
       let contract = fisics_extension_lookup_units_call_arg_contract st n FISICS_UNITS_RETURN_CONTRACT_INDEX in
       if (case contract of None \<Rightarrow> False | Some c \<Rightarrow> ca_resolved c)
       then set_result n (ca_dim (the contract), ca_unitDef (the contract), ca_unitResolved (the contract)) st
       else (case called_body env st callee of
               None \<Rightarrow> st
             | Some body \<Rightarrow>
                 let ru = collect_function_return_units st body \<lparr>ru_found = None, ru_conflict = False\<rparr> in
                 (case ru_found ru of
                    None \<Rightarrow> st
                  | Some (d, u, r) \<Rightarrow> if ru_conflict ru then st else set_result n (d, if r then u else None, r) st)))"

definition string_literal_payload :: "ASTNode \<Rightarrow> cstr" where
  "string_literal_payload nd =
    (case nd of Node _ (AST_STRING_LITERAL v) \<Rightarrow> snd (ast_literal_encoding v) | _ \<Rightarrow> None)"

definition lookup_conversion_target_unit :: "ASTNode \<Rightarrow> FisicsUnitDef option \<times> cstr" where
  "lookup_conversion_target_unit target =
    (case string_literal_payload target of
       None \<Rightarrow> (None, None)
     | Some p \<Rightarrow> if p = [] then (None, None) else (fisics_unit_lookup (Some p), Some p))"

definition maybe_record_units_conversion_call :: "node \<Rightarrow> ASTNode \<Rightarrow> ASTNode list \<Rightarrow> FisicsExtensionState \<Rightarrow> FisicsExtensionState" where
  "maybe_record_units_conversion_call n callee args st =
    (if \<not> node_is_explicit_units_convert_call callee \<or> length args \<noteq> 2 then st
     else case lookup_resolved_expr_metadata st (args ! 0) of
         None \<Rightarrow> st
       | Some (sourceDim, sourceUnit, sourceUnitResolved) \<Rightarrow>
          (case lookup_conversion_target_unit (args ! 1) of
             (None, text) \<Rightarrow> add_diag (ConversionInvalidTarget n (case text of None \<Rightarrow> [] | Some s \<Rightarrow> s)) st
           | (Some target, text) \<Rightarrow>
               if \<not> sourceUnitResolved \<or> sourceUnit = None then add_diag (ConversionRequiresSourceUnit n (the text)) st
               else (case fisics_unit_can_convert sourceUnit (Some target) of
                       Some detail \<Rightarrow> add_diag (ConversionIncompatible n (the sourceUnit) target detail) st
                     | None \<Rightarrow> set_result n (ud_dim target, Some target, True) st)))"

text \<open>Authored constants, nested at most 64 levels.\<close>

fun literal_value :: "nat \<Rightarrow> ASTNode \<Rightarrow> bool" where
  "literal_value depth (Node n (AST_NUMBER_LITERAL v)) \<longleftrightarrow> depth \<le> 64"
| "literal_value depth (Node n (AST_CHAR_LITERAL v)) \<longleftrightarrow> depth \<le> 64"
| "literal_value depth (Node n (AST_CAST_EXPRESSION t e)) \<longleftrightarrow> depth \<le> 64 \<and> literal_value (depth + 1) e"
| "literal_value depth (Node n (AST_UNARY_EXPRESSION op l r)) \<longleftrightarrow>
    depth \<le> 64 \<and> op \<in> {Some ''+'', Some ''-'', Some ''~'', Some ''!''} \<and> literal_value (depth + 1) l"
| "literal_value depth (Node n (AST_BINARY_EXPRESSION op l r)) \<longleftrightarrow>
    depth \<le> 64 \<and> literal_value (depth + 1) l \<and> literal_value (depth + 1) r"
| "literal_value depth (Node n (AST_TERNARY_EXPRESSION c t e)) \<longleftrightarrow>
    depth \<le> 64 \<and> literal_value (depth + 1) c \<and> literal_value (depth + 1) t \<and> literal_value (depth + 1) e"
| "literal_value depth _ \<longleftrightarrow> False"

definition fisics_units_is_literal_value :: "ASTNode \<Rightarrow> bool" where
  "fisics_units_is_literal_value nd = literal_value 0 nd"

definition parameter_at :: "UnitsEnv \<Rightarrow> ParsedType Symbol option \<Rightarrow> nat \<Rightarrow> ASTNode" where
  "parameter_at env symbol i =
    (case symbol of
       None \<Rightarrow> AST_NULL
     | Some s \<Rightarrow>
         if sym_kind s \<noteq> SYMBOL_FUNCTION then AST_NULL
         else (case node_at env (sym_definition s) of
                 Node _ (AST_FUNCTION_DEFINITION _ ps _ _) \<Rightarrow> if i < length ps then ps ! i else AST_NULL
               | Node _ (AST_FUNCTION_DECLARATION _ ps _) \<Rightarrow> if i < length ps then ps ! i else AST_NULL
               | _ \<Rightarrow> AST_NULL))"

definition called_symbol :: "UnitsEnv \<Rightarrow> FisicsExtensionState \<Rightarrow> ASTNode \<Rightarrow> ParsedType Symbol option" where
  "called_symbol env st callee =
    (case callee of
       AST_NULL \<Rightarrow> None
     | Node c s \<Rightarrow>
         let found = (case s of AST_IDENTIFIER (Some name) \<Rightarrow> resolveInScopeChain (ue_scope env) name | _ \<Rightarrow> None) in
         (case fisics_extension_lookup_units_symbol_type_binding st c of
            None \<Rightarrow> found
          | Some t \<Rightarrow>
              if \<not> pt_directlyDeclaresFunction (pt_base t) \<or> pt_pointerDepth (pt_base t) > 0 \<or> pt_isFunctionPointer (pt_base t)
              then None else found))"

text \<open>What is expected of an argument: a dimension and perhaps a unit.\<close>

definition expected_argument :: "UnitsEnv \<Rightarrow> FisicsExtensionState \<Rightarrow> node \<Rightarrow> ParsedType Symbol option \<Rightarrow> nat \<Rightarrow> (FisicsDim8 \<times> FisicsUnitDef option) option" where
  "expected_argument env st call symbol i =
    (case fisics_extension_lookup_units_call_arg_contract st call (int i) of
       Some c \<Rightarrow>
         if ca_resolved c then Some (ca_dim c, if ca_unitResolved c then ca_unitDef c else None)
         else (case fisics_extension_lookup_units_annotation st (child_id (parameter_at env symbol i)) of
                 Some a \<Rightarrow> if annotation_usable (Some a) then Some (an_dim a, if an_unitResolved a then an_unitDef a else None) else None
               | None \<Rightarrow> None)
     | None \<Rightarrow>
         (case fisics_extension_lookup_units_annotation st (child_id (parameter_at env symbol i)) of
            Some a \<Rightarrow> if annotation_usable (Some a) then Some (an_dim a, if an_unitResolved a then an_unitDef a else None) else None
          | None \<Rightarrow> None))"

text \<open>
  The check a value meets where a dimension and perhaps a unit are expected; \<open>report\<close> makes the report of a wrong
  dimension.
\<close>

definition validate_argument :: "FisicsDim8 \<times> FisicsUnitDef option \<Rightarrow> ASTNode \<Rightarrow> FisicsExtensionState \<Rightarrow> FisicsExtensionState" where
  "validate_argument expected arg st =
    (if fisics_units_is_literal_value arg then st
     else case lookup_resolved_expr_metadata st arg of
         None \<Rightarrow> st
       | Some (d, u, r) \<Rightarrow>
           if \<not> fisics_dim_equal (fst expected) d then add_diag (ArgumentDimMismatch (node_id arg) (fst expected) d) st
           else if snd expected \<noteq> None \<and> r \<and> u \<noteq> None \<and> snd expected \<noteq> u
           then implicit_conversion (node_id arg) ''argument'' u (snd expected) st
           else st)"

fun validate_arguments :: "UnitsEnv \<Rightarrow> node \<Rightarrow> ParsedType Symbol option \<Rightarrow> nat \<Rightarrow> ASTNode list \<Rightarrow> FisicsExtensionState \<Rightarrow> FisicsExtensionState" where
  "validate_arguments env call symbol i [] st = st"
| "validate_arguments env call symbol i (arg # args) st =
    validate_arguments env call symbol (i + 1) args
     (case expected_argument env st call symbol i of None \<Rightarrow> st | Some e \<Rightarrow> validate_argument e arg st)"

definition fisics_units_validate_call_arguments :: "UnitsEnv \<Rightarrow> node \<Rightarrow> ASTNode \<Rightarrow> ASTNode list \<Rightarrow> FisicsExtensionState \<Rightarrow> FisicsExtensionState" where
  "fisics_units_validate_call_arguments env call callee args st =
    validate_arguments env call (called_symbol env st callee) 0 args st"

section \<open>Returns, accesses and initializers\<close>

definition fisics_units_validate_return :: "node option \<Rightarrow> ASTNode \<Rightarrow> FisicsExtensionState \<Rightarrow> FisicsExtensionState" where
  "fisics_units_validate_return function v st =
    (case Option.bind function (\<lambda>f. fisics_extension_lookup_units_call_arg_contract st f FISICS_UNITS_RETURN_CONTRACT_INDEX) of
       None \<Rightarrow> st
     | Some c \<Rightarrow>
         if \<not> ca_resolved c \<or> fisics_units_is_literal_value v then st
         else (case lookup_resolved_expr_metadata st v of
                 None \<Rightarrow> st
               | Some (d, u, r) \<Rightarrow>
                   if \<not> fisics_dim_equal (ca_dim c) d then add_diag (ReturnDimMismatch (node_id v) (ca_dim c) d) st
                   else if ca_unitResolved c \<and> r \<and> ca_unitDef c \<noteq> u then implicit_conversion (node_id v) ''return'' u (ca_unitDef c) st
                   else st))"

definition fisics_units_record_access_result :: "node \<Rightarrow> FisicsExtensionState \<Rightarrow> FisicsExtensionState" where
  "fisics_units_record_access_result n st =
    (case fisics_units_parse_type_contract (fisics_extension_lookup_units_symbol_type_binding st n) of
       Some (d, True, u) \<Rightarrow> set_result n (d, u, u \<noteq> None) st
     | _ \<Rightarrow> st)"

definition validate_scalar_initializer :: "FisicsUnitsAnnotation \<Rightarrow> ASTNode \<Rightarrow> bool \<Rightarrow> FisicsExtensionState \<Rightarrow> FisicsExtensionState" where
  "validate_scalar_initializer a e declarationOwned st =
    (if fisics_units_is_literal_value e
     then (case e of
             Node n (AST_NUMBER_LITERAL _) \<Rightarrow> if declarationOwned then set_result n (annotation_metadata a) st else st
           | Node n (AST_CHAR_LITERAL _) \<Rightarrow> if declarationOwned then set_result n (annotation_metadata a) st else st
           | _ \<Rightarrow> st)
     else case lookup_resolved_expr_metadata st e of
         None \<Rightarrow> st
       | Some (d, u, r) \<Rightarrow>
           if \<not> fisics_dim_equal d (an_dim a) then add_diag (AssignDimMismatch (node_id e) (an_dim a) d) st
           else if an_unitResolved a \<and> an_unitDef a \<noteq> None \<and> r \<and> u \<noteq> None \<and> an_unitDef a \<noteq> u
           then implicit_conversion (node_id e) ''initializer'' u (an_unitDef a) st
           else st)"

fun validate_initializer :: "nat \<Rightarrow> node \<Rightarrow> nat \<Rightarrow> bool \<Rightarrow> ASTNode \<Rightarrow> FisicsExtensionState \<Rightarrow> FisicsExtensionState"
  and validate_entries :: "nat \<Rightarrow> node \<Rightarrow> nat \<Rightarrow> DesignatedInit list \<Rightarrow> FisicsExtensionState \<Rightarrow> FisicsExtensionState" where
  "validate_initializer depth owner i owned AST_NULL st = st"
| "validate_initializer depth owner i owned (Node n s) st =
    (if depth > 64 then st
     else case fisics_extension_lookup_units_declarator_annotation st (Some owner) i of
         None \<Rightarrow> st
       | Some a \<Rightarrow>
           if \<not> annotation_usable (Some a) then st
           else (case s of
                   AST_COMPOUND_LITERAL t es \<Rightarrow> validate_entries (depth + 1) owner i es st
                 | _ \<Rightarrow> validate_scalar_initializer a (Node n s) owned st))"
| "validate_entries depth owner i [] st = st"
| "validate_entries depth owner i (e # es) st =
    validate_entries depth owner i es
      (case e of INIT_NULL \<Rightarrow> st | Init f ix x \<Rightarrow> validate_initializer depth owner i False x st)"

definition fisics_units_validate_initializer :: "ASTNode \<Rightarrow> ASTNode \<Rightarrow> bool \<Rightarrow> FisicsExtensionState \<Rightarrow> FisicsExtensionState" where
  "fisics_units_validate_initializer owner e owned st =
    (case owner of AST_NULL \<Rightarrow> st | Node n _ \<Rightarrow> validate_initializer 0 n 0 owned e st)"

definition fisics_units_validate_declarator_initializer :: "node \<Rightarrow> nat \<Rightarrow> ASTNode \<Rightarrow> FisicsExtensionState \<Rightarrow> FisicsExtensionState" where
  "fisics_units_validate_declarator_initializer owner i e st = validate_initializer 0 owner i True e st"

section \<open>Records\<close>

definition type_info_is_record :: "TypeInfo \<Rightarrow> bool" where
  "type_info_is_record info \<longleftrightarrow> category info = TYPEINFO_STRUCT \<or> category info = TYPEINFO_UNION"

definition record_fields :: "ASTNode \<Rightarrow> ASTNode list option" where
  "record_fields nd =
    (case nd of
       Node _ (AST_STRUCT_DEFINITION fs) \<Rightarrow> Some fs | Node _ (AST_UNION_DEFINITION fs) \<Rightarrow> Some fs | _ \<Rightarrow> None)"

text \<open>The fields of the definition of a record type.\<close>

definition resolve_units_record_definition :: "UnitsEnv \<Rightarrow> ParsedType option \<Rightarrow> TypeInfo \<Rightarrow> ASTNode list option" where
  "resolve_units_record_definition env type info =
    (case record_fields (node_at env (Option.bind type (\<lambda>t. pt_inlineStructOrUnionDef (pt_base t)))) of
       Some fs \<Rightarrow> Some fs
     | None \<Rightarrow>
         if userTypeName info = None \<or> \<not> type_info_is_record info then None
         else record_fields (node_at env (cc_tag_definition (ue_ctx env)
                (if category info = TYPEINFO_UNION then CC_TAG_UNION else CC_TAG_STRUCT) (userTypeName info))))"

definition is_named :: "cstr \<Rightarrow> bool" where
  "is_named name \<longleftrightarrow> name \<noteq> None \<and> name \<noteq> Some []"

fun declarator_name :: "declarator \<Rightarrow> cstr" where
  "declarator_name (Declarator (Node _ (AST_IDENTIFIER v)) _) = v"
| "declarator_name _ = None"

text \<open>One declaration of fields: the variable that matches, or the ordinal behind it.\<close>

fun field_in_declaration :: "cstr \<Rightarrow> nat \<Rightarrow> nat \<Rightarrow> nat \<Rightarrow> declarator list \<Rightarrow> nat + nat" where
  "field_in_declaration name wanted k ordinal [] = Inr ordinal"
| "field_in_declaration name wanted k ordinal (d # ds) =
    (if (if is_named name then declarator_name d = name else ordinal = wanted) then Inl k
     else field_in_declaration name wanted (k + 1) (ordinal + 1) ds)"

fun lookup_field :: "cstr \<Rightarrow> nat \<Rightarrow> nat \<Rightarrow> ASTNode list \<Rightarrow> (ASTNode \<times> ParsedType) option" where
  "lookup_field name wanted ordinal [] = None"
| "lookup_field name wanted ordinal (f # fs) =
    (case f of
       Node n (AST_VARIABLE_DECLARATION t ts ds a b as) \<Rightarrow>
         (case field_in_declaration name wanted 0 ordinal ds of
            Inl k \<Rightarrow> Some (f, case ts of Some l \<Rightarrow> l ! k | None \<Rightarrow> t)
          | Inr ordinal' \<Rightarrow> lookup_field name wanted ordinal' fs)
     | _ \<Rightarrow> lookup_field name wanted ordinal fs)"

definition lookup_units_record_field :: "ASTNode list \<Rightarrow> cstr \<Rightarrow> nat \<Rightarrow> (ASTNode \<times> ParsedType) option" where
  "lookup_units_record_field flds name wanted = lookup_field name wanted 0 flds"

text \<open>Entries are checked against the fields they initialise; a nested record against its own fields.\<close>

fun validate_units_aggregate_initializer :: "nat \<Rightarrow> UnitsEnv \<Rightarrow> ParsedType \<Rightarrow> ASTNode \<Rightarrow> FisicsExtensionState \<Rightarrow> FisicsExtensionState"
  and validate_aggregate_entries :: "nat \<Rightarrow> UnitsEnv \<Rightarrow> ASTNode list \<Rightarrow> nat \<Rightarrow> DesignatedInit list \<Rightarrow> FisicsExtensionState \<Rightarrow> FisicsExtensionState" where
  "validate_units_aggregate_initializer depth env type (Node n (AST_COMPOUND_LITERAL t es)) st =
    (if depth > 16 then st
     else let info = type_info env type in
       if \<not> type_info_is_record info then st
       else case resolve_units_record_definition env (Some type) info of
           None \<Rightarrow> st
         | Some flds \<Rightarrow> validate_aggregate_entries depth env flds 0 es st)"
| "validate_units_aggregate_initializer depth env type _ st = st"
| "validate_aggregate_entries depth env flds pos [] st = st"
| "validate_aggregate_entries depth env flds pos (INIT_NULL # es) st = validate_aggregate_entries depth env flds pos es st"
| "validate_aggregate_entries depth env flds pos (Init f ix x # es) st =
    validate_aggregate_entries depth env flds (if is_named f then pos else pos + 1) es
     (case (if x = AST_NULL then None else lookup_units_record_field flds f pos) of
        None \<Rightarrow> st
      | Some (decl, type) \<Rightarrow>
          if (case x of Node _ (AST_COMPOUND_LITERAL _ _) \<Rightarrow> True | _ \<Rightarrow> False) \<and> type_info_is_record (type_info env type)
          then validate_units_aggregate_initializer (depth + 1) env type x st
          else fisics_units_validate_initializer decl x False st)"

section \<open>Assignments\<close>

definition units_annotation_is_concrete :: "FisicsUnitsAnnotation option \<Rightarrow> bool" where
  "units_annotation_is_concrete ann \<longleftrightarrow>
    (case ann of
       None \<Rightarrow> False
     | Some a \<Rightarrow> an_resolved a \<and> an_dimDuplicateCount a \<le> 1 \<and> an_unitResolved a \<and> an_unitDef a \<noteq> None)"

definition concrete :: "FisicsUnitsAnnotation option \<Rightarrow> FisicsUnitsAnnotation option" where
  "concrete ann = (if units_annotation_is_concrete ann then ann else None)"

definition units_annotations_same_concrete :: "FisicsUnitsAnnotation option \<Rightarrow> FisicsUnitsAnnotation option \<Rightarrow> bool" where
  "units_annotations_same_concrete a b \<longleftrightarrow>
    units_annotation_is_concrete a \<and> units_annotation_is_concrete b \<and>
    fisics_dim_equal (an_dim (the a)) (an_dim (the b)) \<and> an_unitDef (the a) = an_unitDef (the b)"

definition UNITS_POINTER_ALIAS_MAX :: nat where
  "UNITS_POINTER_ALIAS_MAX = 256"

definition lookup_units_pointer_alias :: "UnitsWalk \<Rightarrow> cstr \<Rightarrow> FisicsUnitsAnnotation option" where
  "lookup_units_pointer_alias w name =
    (if \<not> is_named name then None else map_option snd (List.find (\<lambda>(s, a). Some s = name) (rev (uw_aliases w))))"

fun alias_write :: "string \<Rightarrow> FisicsUnitsAnnotation \<Rightarrow> (string \<times> FisicsUnitsAnnotation) list \<Rightarrow> (string \<times> FisicsUnitsAnnotation) list option" where
  "alias_write name a [] = None"
| "alias_write name a ((s, b) # as) = (if s = name then Some ((s, a) # as) else map_option ((#) (s, b)) (alias_write name a as))"

definition remember_units_pointer_alias :: "cstr \<Rightarrow> FisicsUnitsAnnotation option \<Rightarrow> UnitsWalk \<Rightarrow> UnitsWalk" where
  "remember_units_pointer_alias name ann w =
    (if \<not> is_named name \<or> \<not> units_annotation_is_concrete ann then w
     else case alias_write (the name) (the ann) (uw_aliases w) of
         Some as \<Rightarrow> w\<lparr>uw_aliases := as\<rparr>
       | None \<Rightarrow>
           if length (uw_aliases w) \<ge> UNITS_POINTER_ALIAS_MAX then w
           else w\<lparr>uw_aliases := uw_aliases w @ [(the name, the ann)]\<rparr>)"

definition lookup_bound_units_parsed_type :: "FisicsExtensionState \<Rightarrow> ASTNode \<Rightarrow> ParsedType option" where
  "lookup_bound_units_parsed_type st nd = Option.bind (child_id nd) (fisics_extension_lookup_units_symbol_type_binding st)"

definition lookup_member_base_type_info :: "UnitsEnv \<Rightarrow> FisicsExtensionState \<Rightarrow> ASTNode \<Rightarrow> bool \<Rightarrow> TypeInfo option" where
  "lookup_member_base_type_info env st base pointerAccess =
    (let parsed = (case base of
            Node _ (AST_POINTER_DEREFERENCE p) \<Rightarrow>
              (case lookup_bound_units_parsed_type st p of
                 Some t \<Rightarrow> Some (parsedTypePointerTargetType t) | None \<Rightarrow> lookup_bound_units_parsed_type st base)
          | _ \<Rightarrow> lookup_bound_units_parsed_type st base)
     in case parsed of
          None \<Rightarrow> None
        | Some t \<Rightarrow>
            let info = type_info env (if pointerAccess then parsedTypePointerTargetType t else t) in
            if category info = TYPEINFO_INVALID then None else Some info)"

text \<open>
  The annotation of the field a member access selects. \<open>originalType\<close> may point to the copy made by
  \<open>lookup_member_base_type_info\<close>, whose lifetime has ended; its contents are taken as unchanged.
\<close>

definition lookup_member_units_annotation :: "UnitsEnv \<Rightarrow> FisicsExtensionState \<Rightarrow> node \<Rightarrow> bool \<Rightarrow> ASTNode \<Rightarrow> cstr \<Rightarrow> FisicsUnitsAnnotation option" where
  "lookup_member_units_annotation env st n pointerAccess base field =
    (if \<not> is_named field \<or> fisics_extension_lookup_units_symbol_type_binding st n \<noteq> None then None
     else case lookup_member_base_type_info env st base pointerAccess of
         None \<Rightarrow> None
       | Some info \<Rightarrow>
           if \<not> type_info_is_record info then None
           else case resolve_units_record_definition env (originalType info) info of
               None \<Rightarrow> None
             | Some flds \<Rightarrow>
                 (case lookup_units_record_field flds field 0 of
                    None \<Rightarrow> None
                  | Some (decl, type) \<Rightarrow> concrete (fisics_extension_lookup_units_annotation st (child_id decl))))"

text \<open>The first argument counts down the levels: \<open>depth\<close> in C is 17 less the argument.\<close>

fun lookup_address_target_units_annotation :: "nat \<Rightarrow> UnitsEnv \<Rightarrow> UnitsWalk \<Rightarrow> ASTNode \<Rightarrow> FisicsUnitsAnnotation option"
  and lookup_assignment_lvalue_units_annotation :: "nat \<Rightarrow> UnitsEnv \<Rightarrow> UnitsWalk \<Rightarrow> ASTNode \<Rightarrow> FisicsUnitsAnnotation option" where
  "lookup_address_target_units_annotation 0 env w nd = None"
| "lookup_address_target_units_annotation (Suc k) env w nd =
    (case nd of
       Node n (AST_UNARY_EXPRESSION op l r) \<Rightarrow>
         if op = Some ''&'' then lookup_assignment_lvalue_units_annotation k env w l else None
     | Node n (AST_TERNARY_EXPRESSION c t e) \<Rightarrow>
         (let left = lookup_address_target_units_annotation k env w t;
              right = lookup_address_target_units_annotation k env w e
          in if units_annotations_same_concrete left right then left else None)
     | Node n (AST_COMMA_EXPRESSION es) \<Rightarrow> if es = [] then None else lookup_address_target_units_annotation k env w (last es)
     | Node n (AST_CAST_EXPRESSION t e) \<Rightarrow> lookup_address_target_units_annotation k env w e
     | Node n (AST_IDENTIFIER name) \<Rightarrow>
         (if units_annotation_is_concrete (lookup_units_pointer_alias w name) then lookup_units_pointer_alias w name
          else case fisics_extension_lookup_units_symbol_initializer_binding env (uw_state w) n of
              INIT_NULL \<Rightarrow> None
            | Init f ix x \<Rightarrow> if x = AST_NULL then None else lookup_address_target_units_annotation k env w x)
     | _ \<Rightarrow> None)"
| "lookup_assignment_lvalue_units_annotation 0 env w nd = None"
| "lookup_assignment_lvalue_units_annotation (Suc k) env w nd =
    (case nd of
       AST_NULL \<Rightarrow> None
     | Node n s \<Rightarrow>
         let ann = fisics_extension_lookup_units_annotation_binding (uw_state w) n in
         if units_annotation_is_concrete ann then ann
         else (case s of
                 AST_ARRAY_ACCESS a i \<Rightarrow> lookup_assignment_lvalue_units_annotation k env w a
               | AST_DOT_ACCESS b f \<Rightarrow> if k = 0 then None else lookup_member_units_annotation env (uw_state w) n False b f
               | AST_POINTER_ACCESS b f \<Rightarrow> if k = 0 then None else lookup_member_units_annotation env (uw_state w) n True b f
               | AST_POINTER_DEREFERENCE p \<Rightarrow> lookup_address_target_units_annotation k env w p
               | AST_UNARY_EXPRESSION op l r \<Rightarrow>
                   if op = Some ''*'' then lookup_address_target_units_annotation k env w l else None
               | AST_COMMA_EXPRESSION es \<Rightarrow> if es = [] then None else lookup_assignment_lvalue_units_annotation k env w (last es)
               | AST_CAST_EXPRESSION t e \<Rightarrow> lookup_assignment_lvalue_units_annotation k env w e
               | _ \<Rightarrow> None))"

abbreviation lookup_levels :: nat where
  "lookup_levels \<equiv> 17"

definition maybe_remember_units_pointer_alias :: "UnitsEnv \<Rightarrow> ASTNode \<Rightarrow> DesignatedInit \<Rightarrow> UnitsWalk \<Rightarrow> UnitsWalk" where
  "maybe_remember_units_pointer_alias env name i w =
    (case (name, i) of
       (Node _ (AST_IDENTIFIER v), Init f ix x) \<Rightarrow>
         if x = AST_NULL then w
         else remember_units_pointer_alias v (lookup_address_target_units_annotation lookup_levels env w x) w
     | _ \<Rightarrow> w)"

definition fill_units_from_lvalue_annotation :: "UnitsEnv \<Rightarrow> UnitsWalk \<Rightarrow> ASTNode \<Rightarrow> metadata option" where
  "fill_units_from_lvalue_annotation env w target =
    (let ann = lookup_assignment_lvalue_units_annotation lookup_levels env w target in
     if units_annotation_is_concrete ann then Some (an_dim (the ann), an_unitDef (the ann), True) else None)"

definition target_metadata :: "UnitsEnv \<Rightarrow> UnitsWalk \<Rightarrow> ASTNode \<Rightarrow> metadata option" where
  "target_metadata env w target =
    (case lookup_resolved_expr_metadata (uw_state w) target of
       Some m \<Rightarrow> Some m | None \<Rightarrow> fill_units_from_lvalue_annotation env w target)"

definition keep_target :: "node \<Rightarrow> metadata \<Rightarrow> FisicsExtensionState \<Rightarrow> FisicsExtensionState" where
  "keep_target n t st = (case t of (d, u, r) \<Rightarrow> set_result n (d, if r then u else None, r) st)"

definition record_plain_assignment :: "node \<Rightarrow> ASTNode \<Rightarrow> metadata \<Rightarrow> metadata \<Rightarrow> FisicsExtensionState \<Rightarrow> FisicsExtensionState" where
  "record_plain_assignment n e t v st =
    (case (t, v) of ((td, tu, tr), (vd, vu, vr)) \<Rightarrow>
       if fisics_units_is_literal_value e then set_result n (td, tu, tr) st
       else if \<not> fisics_dim_equal td vd then add_diag (AssignDimMismatch n td vd) st
       else if units_resolved_and_different tu tr vu vr then implicit_conversion (node_id e) ''assignment'' vu tu st
       else keep_target n t st)"

definition record_compound_sum :: "node \<Rightarrow> cstr \<Rightarrow> metadata \<Rightarrow> metadata \<Rightarrow> FisicsExtensionState \<Rightarrow> FisicsExtensionState" where
  "record_compound_sum n op t v st =
    (case (t, v) of ((td, tu, tr), (vd, vu, vr)) \<Rightarrow>
       if \<not> fisics_dim_equal td vd
       then add_diag (if op = Some ''+'' then AddDimMismatch n td vd else SubDimMismatch n td vd) st
       else if units_resolved_and_different tu tr vu vr then implicit_conversion n ''compound assignment'' vu tu st
       else keep_target n t st)"

definition record_compound_product :: "node \<Rightarrow> cstr \<Rightarrow> metadata \<Rightarrow> metadata \<Rightarrow> FisicsExtensionState \<Rightarrow> FisicsExtensionState" where
  "record_compound_product n op t v st =
    (case combine_dims op (fst t) (fst v) of
       None \<Rightarrow> add_diag (ExponentOverflow n op (fst t) (fst v)) st
     | Some d \<Rightarrow> if \<not> fisics_dim_equal (fst t) d then add_diag (AssignDimMismatch n (fst t) d) st else keep_target n t st)"

definition maybe_record_assignment_result :: "UnitsEnv \<Rightarrow> node \<Rightarrow> cstr \<Rightarrow> ASTNode \<Rightarrow> ASTNode \<Rightarrow> UnitsWalk \<Rightarrow> FisicsExtensionState" where
  "maybe_record_assignment_result env n op target e w =
    (let st = uw_state w in
     if op = None then st
     else case (target_metadata env w target, lookup_resolved_expr_metadata st e) of
         (Some t, Some v) \<Rightarrow>
           if op = Some ''='' then record_plain_assignment n e t v st
           else let base = compound_assignment_base_op op in
             if base = None then st
             else if base = Some ''+'' \<or> base = Some ''-'' then record_compound_sum n base t v st
             else record_compound_product n base t v st
       | _ \<Rightarrow> st)"

definition maybe_record_ternary_result :: "node \<Rightarrow> ASTNode \<Rightarrow> ASTNode \<Rightarrow> FisicsExtensionState \<Rightarrow> FisicsExtensionState" where
  "maybe_record_ternary_result n t e st =
    (case (lookup_resolved_expr_metadata st t, lookup_resolved_expr_metadata st e) of
       (Some (td, tu, tr), Some (fd, fu, fr)) \<Rightarrow>
         if \<not> fisics_dim_equal td fd then add_diag (TernaryDimMismatch n td fd) st
         else if units_resolved_and_different tu tr fu fr then implicit_conversion n ''ternary result'' fu tu st
         else set_result n (td, if tr then tu else None, tr \<and> tu = fu) st
     | _ \<Rightarrow> st)"

section \<open>The walk\<close>

definition record_call :: "UnitsEnv \<Rightarrow> node \<Rightarrow> ASTNode \<Rightarrow> ASTNode list \<Rightarrow> FisicsExtensionState \<Rightarrow> FisicsExtensionState" where
  "record_call env n callee args st =
    (let st1 = maybe_record_units_conversion_call n callee args st;
         (st2, math) = fisics_units_record_math_result n (map node_id args) st1;
         st3 = (if math then st2 else maybe_record_function_call_result env n callee st2)
     in fisics_units_validate_call_arguments env n callee args st3)"

definition validate_declared_aggregate :: "UnitsEnv \<Rightarrow> ParsedType option \<Rightarrow> DesignatedInit \<Rightarrow> FisicsExtensionState \<Rightarrow> FisicsExtensionState" where
  "validate_declared_aggregate env type i st =
    (case (type, i) of
       (Some t, Init f ix (Node n (AST_COMPOUND_LITERAL lt es))) \<Rightarrow>
         if pt_kind (pt_base lt) = TYPE_INVALID
         then validate_units_aggregate_initializer 0 env t (Node n (AST_COMPOUND_LITERAL lt es)) st else st
     | _ \<Rightarrow> st)"

fun walk_expr_results :: "UnitsEnv \<Rightarrow> ASTNode \<Rightarrow> UnitsWalk \<Rightarrow> UnitsWalk"
  and walk_nodes :: "UnitsEnv \<Rightarrow> ASTNode list \<Rightarrow> UnitsWalk \<Rightarrow> UnitsWalk"
  and walk_declarators :: "UnitsEnv \<Rightarrow> node \<Rightarrow> shape \<Rightarrow> nat \<Rightarrow> declarator list \<Rightarrow> UnitsWalk \<Rightarrow> UnitsWalk"
  and walk_entries :: "UnitsEnv \<Rightarrow> node \<Rightarrow> DesignatedInit list \<Rightarrow> UnitsWalk \<Rightarrow> UnitsWalk"
  and walk_designated_init :: "UnitsEnv \<Rightarrow> node \<Rightarrow> nat \<Rightarrow> DesignatedInit \<Rightarrow> UnitsWalk \<Rightarrow> UnitsWalk" where
  "walk_expr_results env AST_NULL w = w"
| "walk_expr_results env (Node n (AST_BLOCK ss)) w = walk_nodes env ss w"
| "walk_expr_results env (Node n (AST_STATEMENT_EXPRESSION b)) w = walk_expr_results env b w"
| "walk_expr_results env (Node n (AST_VARIABLE_DECLARATION t ts ds sz bits as)) w =
    walk_expr_results env bits (walk_expr_results env sz
      (walk_declarators env n (AST_VARIABLE_DECLARATION t ts ds sz bits as) 0 ds w))"
| "walk_expr_results env (Node n (AST_STRUCT_DEFINITION fs)) w = walk_nodes env fs w"
| "walk_expr_results env (Node n (AST_UNION_DEFINITION fs)) w = walk_nodes env fs w"
| "walk_expr_results env (Node n (AST_ENUM_DEFINITION vs)) w = walk_nodes env vs w"
| "walk_expr_results env (Node n (AST_CONDITIONAL_DIRECTIVE b)) w = walk_expr_results env b w"
| "walk_expr_results env (Node n (AST_FUNCTION_DECLARATION t ps as)) w = walk_nodes env ps w"
| "walk_expr_results env (Node n (AST_FUNCTION_DEFINITION t ps b as)) w =
    (walk_expr_results env b (walk_nodes env ps (w\<lparr>uw_function := Some n\<rparr>)))\<lparr>uw_function := uw_function w\<rparr>"
| "walk_expr_results env (Node n (AST_IF_STATEMENT c t e)) w =
    walk_expr_results env e (walk_expr_results env t (walk_expr_results env c w))"
| "walk_expr_results env (Node n (AST_FOR_LOOP i c u b)) w =
    walk_expr_results env b (walk_expr_results env u (walk_expr_results env c (walk_expr_results env i w)))"
| "walk_expr_results env (Node n (AST_WHILE_LOOP c b)) w = walk_expr_results env b (walk_expr_results env c w)"
| "walk_expr_results env (Node n (AST_SWITCH c cs)) w = walk_nodes env cs (walk_expr_results env c w)"
| "walk_expr_results env (Node n (AST_CASE v ss)) w = walk_nodes env ss (walk_expr_results env v w)"
| "walk_expr_results env (Node n (AST_RETURN v)) w =
    (let w1 = walk_expr_results env v w in on_state (fisics_units_validate_return (uw_function w1) v) w1)"
| "walk_expr_results env (Node n (AST_LABEL_DECLARATION s)) w = walk_expr_results env s w"
| "walk_expr_results env (Node n (AST_SEQUENCE l r)) w = walk_expr_results env r (walk_expr_results env l w)"
| "walk_expr_results env (Node n (AST_TERNARY_EXPRESSION c t e)) w =
    on_state (maybe_record_ternary_result n t e) (walk_expr_results env e (walk_expr_results env t (walk_expr_results env c w)))"
| "walk_expr_results env (Node n (AST_BINARY_EXPRESSION op l r)) w =
    on_state (maybe_record_binary_result n op l r) (walk_expr_results env r (walk_expr_results env l w))"
| "walk_expr_results env (Node n (AST_UNARY_EXPRESSION op l r)) w =
    on_state (\<lambda>st. let st1 = maybe_record_unary_result n op l st in
                   if op = Some ''*'' then fisics_units_record_access_result n st1 else st1)
      (walk_expr_results env r (walk_expr_results env l w))"
| "walk_expr_results env (Node n (AST_SIZEOF l r)) w = walk_expr_results env r (walk_expr_results env l w)"
| "walk_expr_results env (Node n (AST_ALIGNOF l r)) w = walk_expr_results env r (walk_expr_results env l w)"
| "walk_expr_results env (Node n (AST_ASSIGNMENT op t e)) w =
    (let w1 = walk_expr_results env e (walk_expr_results env t w)
     in w1\<lparr>uw_state := maybe_record_assignment_result env n op t e w1\<rparr>)"
| "walk_expr_results env (Node n (AST_COMMA_EXPRESSION es)) w = on_state (maybe_record_comma_result n es) (walk_nodes env es w)"
| "walk_expr_results env (Node n (AST_CAST_EXPRESSION t e)) w = on_state (maybe_record_cast_result n e) (walk_expr_results env e w)"
| "walk_expr_results env (Node n (AST_ARRAY_ACCESS a i)) w =
    on_state (fisics_units_record_access_result n) (walk_expr_results env i (walk_expr_results env a w))"
| "walk_expr_results env (Node n (AST_POINTER_DEREFERENCE p)) w =
    on_state (fisics_units_record_access_result n) (walk_expr_results env p w)"
| "walk_expr_results env (Node n (AST_POINTER_ACCESS b f)) w =
    on_state (fisics_units_record_access_result n) (walk_expr_results env b w)"
| "walk_expr_results env (Node n (AST_DOT_ACCESS b f)) w =
    on_state (fisics_units_record_access_result n) (walk_expr_results env b w)"
| "walk_expr_results env (Node n (AST_STRUCT_FIELD_ACCESS b)) w = walk_expr_results env b w"
| "walk_expr_results env (Node n (AST_FUNCTION_CALL callee args)) w =
    on_state (record_call env n callee args) (walk_nodes env args (walk_expr_results env callee w))"
| "walk_expr_results env (Node n (AST_COMPOUND_LITERAL t es)) w =
    (let w1 = walk_entries env n es w in
     if pt_kind (pt_base t) \<noteq> TYPE_INVALID
     then on_state (validate_units_aggregate_initializer 0 env t (Node n (AST_COMPOUND_LITERAL t es))) w1 else w1)"
| "walk_expr_results env (Node n (AST_NUMBER_LITERAL v)) w = on_state (record_dimensionless_literal n) w"
| "walk_expr_results env (Node n (AST_CHAR_LITERAL v)) w = on_state (record_dimensionless_literal n) w"
| "walk_expr_results env (Node n (AST_STRING_LITERAL v)) w = w"
| "walk_expr_results env (Node n (AST_IDENTIFIER v)) w = on_state (record_identifier_result n) w"
| "walk_expr_results env (Node n (AST_OTHER as)) w = w"
| "walk_nodes env [] w = w"
| "walk_nodes env (x # xs) w = walk_nodes env xs (walk_expr_results env x w)"
| "walk_declarators env n s i [] w = w"
| "walk_declarators env n s i (Declarator name ini # ds) w =
    (let w1 = walk_designated_init env n i ini w;
         w2 = maybe_remember_units_pointer_alias env name ini w1;
         w3 = on_state (validate_declared_aggregate env (astVarDeclTypeAt s i) ini) w2
     in walk_declarators env n s (i + 1) ds w3)"
| "walk_entries env n [] w = w"
| "walk_entries env n (e # es) w = walk_entries env n es (walk_designated_init env n 0 e w)"
| "walk_designated_init env n i INIT_NULL w = w"
| "walk_designated_init env n i (Init f ix x) w =
    on_state (fisics_units_validate_declarator_initializer n i x) (walk_expr_results env x (walk_expr_results env ix w))"

definition fisics_units_run_expr_semantics :: "UnitsEnv \<Rightarrow> ASTNode \<Rightarrow> FisicsExtensionState \<Rightarrow> FisicsExtensionState" where
  "fisics_units_run_expr_semantics env tree st =
    (if tree = AST_NULL then st
     else uw_state (walk_expr_results env tree
            \<lparr>uw_state = fisics_extension_clear_units_expr_results st, uw_aliases = [], uw_function = None\<rparr>))"

text \<open>The units part of the hook that runs behind semantic analysis.\<close>

definition fisics_extension_run_semantic_scaffold :: "UnitsEnv \<Rightarrow> ASTNode \<Rightarrow> FisicsExtensionState \<Rightarrow> FisicsExtensionState" where
  "fisics_extension_run_semantic_scaffold env tree st = fisics_units_run_expr_semantics env tree (run_units_decl_scaffold env st)"

end
