(* ===== verification/Units_Expr_Props.thy ===== *)
theory Units_Expr_Props
  imports Units_Expr Units_Parser_Props Units_Conversion_Props
begin

text \<open>
  The units analysis of expressions as a whole. First, what every predicate that the recording of results and
  reports keeps has to satisfy to hold of the state behind the walk, as a locale; it is used for the consistency of
  results, for the tables the walk leaves alone and for the growth of the list of reports.
\<close>

section \<open>Predicates that the walk keeps\<close>

abbreviation plain :: "FisicsDim8 \<Rightarrow> metadata" where
  "plain d \<equiv> (d, None, False)"

lemma set_result_simps:
  "fisics_extension_set_units_expr_result_with_unit n d True u r st = set_result n (d, u, r) st"
  "fisics_extension_set_units_expr_result n d True st = set_result n (plain d) st"
  by (simp_all add: set_result_def fisics_extension_set_units_expr_result_def)

locale walk_predicate =
  fixes R :: "FisicsExtensionState \<Rightarrow> bool" and M :: "metadata \<Rightarrow> bool"
  assumes add_diag: "R st \<Longrightarrow> R (add_diag report st)"
    and set_result: "R st \<Longrightarrow> M m \<Longrightarrow> R (set_result n m st)"
    and looked_up: "R st \<Longrightarrow> lookup_resolved_expr_metadata st e = Some m \<Longrightarrow> M m"
    and found: "R st \<Longrightarrow> fisics_extension_lookup_units_expr_result st k = Some x \<Longrightarrow> er_resolved x \<Longrightarrow>
      M (er_dim x, er_unitDef x, er_unitResolved x)"
    and annotated: "R st \<Longrightarrow> a \<in> set (unitsAnnotations st) \<Longrightarrow> an_resolved a \<Longrightarrow> M (annotation_metadata a)"
    and contracted: "R st \<Longrightarrow> c \<in> set (unitsCallArgContracts st) \<Longrightarrow> ca_resolved c \<Longrightarrow> M (ca_dim c, ca_unitDef c, ca_unitResolved c)"
    and zero: "M (plain fisics_dim_zero)"
    and weaken: "M (d, u, r) \<Longrightarrow> r' \<longrightarrow> r \<and> u' = u \<Longrightarrow> M (d, u', r')"
    and product: "M l \<Longrightarrow> M m \<Longrightarrow> combine_dims op (fst l) (fst m) = Some d \<Longrightarrow> M (d, product_unit op l m)"
    and of_unit: "fisics_unit_lookup t = Some v \<Longrightarrow> M (ud_dim v, Some v, True)"
    and of_type: "fisics_units_parse_type_contract type = Some (d, True, u) \<Longrightarrow> M (d, u, u \<noteq> None)"
    and halved: "M (d, u, r) \<Longrightarrow> halve_axes d [0..<FISICS_DIM_COUNT] fisics_dim_zero = Some h \<Longrightarrow> M (plain h)"
    and root_unit: "M (plain h) \<Longrightarrow> sqrt_unit v h = Some v' \<Longrightarrow> M (h, Some v', True)"
begin

lemma keep: "M (d, u, r) \<Longrightarrow> M (d, if r then u else None, r)"
  by (erule weaken) auto

lemma take_over: "R st \<Longrightarrow> R (take_over n e st)"
  by (auto simp: take_over_def intro!: set_result intro: looked_up split: option.splits)

lemma sum: "R st \<Longrightarrow> M l \<Longrightarrow> M m \<Longrightarrow> R (record_sum n op l m st)"
  by (auto simp: record_sum_def maybe_report_binary_mismatch_def implicit_conversion_def add_diag intro!: set_result
      intro: weaken split: prod.splits)

lemma product_result: "R st \<Longrightarrow> M l \<Longrightarrow> M m \<Longrightarrow> R (record_product n op l m st)"
  by (auto simp: record_product_def add_diag intro!: set_result product split: option.splits)

lemma comparison: "R st \<Longrightarrow> R (record_comparison n op l m st)"
  by (auto simp: record_comparison_def set_result_simps implicit_conversion_def add_diag zero intro!: set_result split: prod.splits)

lemma binary: "R st \<Longrightarrow> R (maybe_record_binary_result n op l r st)"
  by (auto simp: maybe_record_binary_result_def intro!: sum product_result comparison intro: looked_up split: option.splits)

lemma looked_up_weaken: "R st \<Longrightarrow> lookup_resolved_expr_metadata st e = Some (d, u, r) \<Longrightarrow> r' \<longrightarrow> r \<and> u' = u \<Longrightarrow> M (d, u', r')"
  by (blast intro: weaken looked_up)

lemma ternary: "R st \<Longrightarrow> R (maybe_record_ternary_result n t e st)"
  by (auto simp: maybe_record_ternary_result_def implicit_conversion_def add_diag intro!: set_result
      intro: looked_up_weaken split: option.splits prod.splits)

lemma unary: "R st \<Longrightarrow> R (maybe_record_unary_result n op e st)"
  by (simp add: maybe_record_unary_result_def take_over)

lemma comma: "R st \<Longrightarrow> R (maybe_record_comma_result n es st)"
  by (simp add: maybe_record_comma_result_def take_over)

lemma access: "R st \<Longrightarrow> R (fisics_units_record_access_result n st)"
  by (auto simp: fisics_units_record_access_result_def simp del: not_None_eq intro!: set_result intro: of_type split: option.splits bool.splits)

lemma literal: "R st \<Longrightarrow> R (record_dimensionless_literal n st)"
  by (simp add: record_dimensionless_literal_def set_result_simps set_result zero)

lemma bound_annotation:
  "fisics_extension_lookup_units_annotation_binding st n = Some a \<Longrightarrow> a \<in> set (unitsAnnotations st)"
  by (auto simp: fisics_extension_lookup_units_annotation_binding_def fisics_extension_units_annotation_at_def
      bind_eq_Some_conv split: if_splits)

lemma usable: "R st \<Longrightarrow> a \<in> set (unitsAnnotations st) \<Longrightarrow> annotation_usable (Some a) \<Longrightarrow> M (annotation_metadata a)"
  by (simp add: annotated annotation_usable_def)

lemma name_result: "R st \<Longrightarrow> R (record_identifier_result n st)"
  by (auto simp: record_identifier_result_def intro!: set_result usable dest: bound_annotation split: option.splits)

lemma conversion: "R st \<Longrightarrow> R (maybe_record_units_conversion_call n callee args st)"
  by (auto simp: maybe_record_units_conversion_call_def lookup_conversion_target_unit_def add_diag
      intro!: set_result dest: of_unit split: option.splits prod.splits if_splits)

lemma returned:
  assumes "R st" "case ru_found ru of None \<Rightarrow> True | Some m \<Rightarrow> M m"
  shows "case ru_found (collect_return st e ru) of None \<Rightarrow> True | Some m \<Rightarrow> M m"
  using assms by (auto simp: collect_return_def dest: looked_up split: option.splits)

lemma collected:
  assumes "R st"
  shows "(case ru_found ru of None \<Rightarrow> True | Some m \<Rightarrow> M m) \<Longrightarrow>
      (case ru_found (collect_function_return_units st nd ru) of None \<Rightarrow> True | Some m \<Rightarrow> M m)"
    and "(case ru_found ru of None \<Rightarrow> True | Some m \<Rightarrow> M m) \<Longrightarrow>
      (case ru_found (collect_statements st ss ru) of None \<Rightarrow> True | Some m \<Rightarrow> M m)"
  using assms
  by (induction st nd ru and st ss ru rule: collect_function_return_units_collect_statements.induct)
    (simp_all add: returned)

lemma function_call: "R st \<Longrightarrow> R (maybe_record_function_call_result env n callee st)"
proof -
  assume R: "R st"
  have c: "M (ca_dim c, ca_unitDef c, ca_unitResolved c)"
    if "fisics_extension_lookup_units_call_arg_contract st n k = Some c" "ca_resolved c" for c k
    using that R by (auto simp: fisics_extension_lookup_units_call_arg_contract_def find_Some_iff intro!: contracted)
  have b: "M m" if "ru_found (collect_function_return_units st body \<lparr>ru_found = None, ru_conflict = False\<rparr>) = Some m" for body m
    using collected(1) [OF R, of "\<lparr>ru_found = None, ru_conflict = False\<rparr>" body] that by simp
  show ?thesis
    unfolding maybe_record_function_call_result_def Let_def
    by (auto simp: R intro!: set_result dest!: c b intro: weaken split: option.splits prod.splits)
qed

lemma math: "R st \<Longrightarrow> R (fst (fisics_units_record_math_result n args st))"
proof -
  assume R: "R st"
  have m: "M (er_dim r, resolved_unit r, resolved_unit r \<noteq> None)" "M (plain (er_dim r))"
    if "fisics_extension_lookup_units_expr_result st k = Some r" "er_resolved r" for k r
    using found [OF R that] by (auto simp: resolved_unit_def elim: weaken)
  have z: "R (set_result n (plain fisics_dim_zero) st)" by (rule set_result [OF R zero])
  have sq: "R (record_sqrt n r st)" if "fisics_extension_lookup_units_expr_result st k = Some r" "er_resolved r" for k r
    using m(2) [OF that]
    by (auto simp: record_sqrt_def set_result_simps R add_diag intro!: set_result intro: halved root_unit split: option.splits)
  have same: "R (record_same_dim op n r rhs st)" if "fisics_extension_lookup_units_expr_result st k = Some r" "er_resolved r" for k r rhs op
    using m [OF that] by (auto simp: record_same_dim_def Let_def set_result_simps R add_diag intro!: set_result split: option.splits)
  show ?thesis
    by (auto simp: fisics_units_record_math_result_def Let_def record_dimensionless_math_def record_atan2_def
        set_result_simps R z add_diag intro: sq same split: option.splits)
qed

lemma validated_argument: "R st \<Longrightarrow> R (validate_argument x arg st)"
  by (auto simp: validate_argument_def implicit_conversion_def add_diag split: option.splits)

lemma validated_arguments: "R st \<Longrightarrow> R (validate_arguments env call s i args st)"
  by (induction env call s i args st rule: validate_arguments.induct) (auto simp: validated_argument split: option.splits)

lemma call: "R st \<Longrightarrow> R (record_call env n callee args st)"
  using math [OF conversion [of st n callee args], of n "map node_id args"]
  by (auto simp: record_call_def Let_def fisics_units_validate_call_arguments_def intro!: validated_arguments function_call
      split: prod.splits)

lemma return: "R st \<Longrightarrow> R (fisics_units_validate_return f e st)"
  by (auto simp: fisics_units_validate_return_def implicit_conversion_def add_diag split: option.splits)

lemma scalar: "R st \<Longrightarrow> M (annotation_metadata a) \<Longrightarrow> R (validate_scalar_initializer a e owned st)"
  unfolding validate_scalar_initializer_def
  by (cases "fisics_units_is_literal_value e"; cases e)
    (auto simp: implicit_conversion_def add_diag set_result split: option.splits shape.splits)

lemma declarator_annotation:
  "fisics_extension_lookup_units_declarator_annotation st owner i = Some a \<Longrightarrow> a \<in> set (unitsAnnotations st)"
  by (auto simp: fisics_extension_lookup_units_declarator_annotation_def find_Some_iff split: option.splits)

lemma initializer:
  "R st \<Longrightarrow> R (validate_initializer depth owner i owned e st)"
  "R st \<Longrightarrow> R (validate_entries depth owner i es st)"
proof (induction depth owner i owned e st and depth owner i es st rule: validate_initializer_validate_entries.induct)
  case (2 depth owner i owned n s st)
  then show ?case
    using scalar [OF 2(2), of _ "Node n s" owned] usable [OF 2(2) declarator_annotation]
    by (auto simp del: validate_entries.simps split: option.splits shape.splits)
qed (auto split: DesignatedInit.splits)

lemma field_initializer: "R st \<Longrightarrow> R (fisics_units_validate_initializer decl e owned st)"
  by (simp add: fisics_units_validate_initializer_def initializer del: validate_initializer.simps split: ASTNode.splits)

lemma aggregate:
  "R st \<Longrightarrow> R (validate_units_aggregate_initializer depth env t e st)"
  "R st \<Longrightarrow> R (validate_aggregate_entries depth env fs pos es st)"
  by (induction depth env t e st and depth env fs pos es st
      rule: validate_units_aggregate_initializer_validate_aggregate_entries.induct)
    (auto simp: Let_def field_initializer split: option.splits)

lemma declared_aggregate: "R st \<Longrightarrow> R (validate_declared_aggregate env t i st)"
  unfolding validate_declared_aggregate_def
  by (auto simp: aggregate simp del: validate_units_aggregate_initializer.simps split: option.splits DesignatedInit.splits ASTNode.splits shape.splits)

definition justified :: "FisicsUnitsAnnotation option \<Rightarrow> bool" where
  "justified ann \<longleftrightarrow> (case ann of None \<Rightarrow> True | Some a \<Rightarrow> an_resolved a \<longrightarrow> M (annotation_metadata a))"

definition W :: "UnitsWalk \<Rightarrow> bool" where
  "W w \<longleftrightarrow> R (uw_state w) \<and> list_all (\<lambda>(s, a). justified (Some a)) (uw_aliases w)"

lemma W_on_state: "W w \<Longrightarrow> (R (uw_state w) \<Longrightarrow> R (f (uw_state w))) \<Longrightarrow> W (on_state f w)"
  by (simp add: W_def on_state_def)

lemma justified_member:
  assumes "R st" shows "justified (lookup_member_units_annotation env st n p b f)"
  using assms declarator_annotation
  by (auto simp: justified_def lookup_member_units_annotation_def concrete_def fisics_extension_lookup_units_annotation_def
      intro!: annotated split: option.splits if_splits)

lemma justified_alias: "W w \<Longrightarrow> justified (lookup_units_pointer_alias w name)"
  by (cases "List.find (\<lambda>(s, a). Some s = name) (rev (uw_aliases w))")
    (auto simp: W_def lookup_units_pointer_alias_def list_all_iff justified_def [of None] dest!: find_SomeD)

lemma justified_binding: "R st \<Longrightarrow> justified (fisics_extension_lookup_units_annotation_binding st n)"
  by (auto simp: justified_def intro!: annotated dest: bound_annotation split: option.splits)

lemma justified_lookup:
  "W w \<Longrightarrow> justified (lookup_address_target_units_annotation k env w nd)"
  "W w \<Longrightarrow> justified (lookup_assignment_lvalue_units_annotation k env w nd)"
proof (induction k env w nd and k env w nd rule: lookup_address_target_units_annotation_lookup_assignment_lvalue_units_annotation.induct)
  case (2 k env w nd)
  then show ?case
    using justified_alias [OF "2.prems"]
    by (auto simp: Let_def justified_def [of None] split: ASTNode.splits shape.splits DesignatedInit.splits)
next
  case (4 k env w nd)
  then show ?case
    using justified_binding [of "uw_state w"] justified_member [of "uw_state w"]
    by (auto simp: Let_def W_def justified_def [of None] split: ASTNode.splits shape.splits)
qed (simp_all add: justified_def)

lemma filled: "W w \<Longrightarrow> fill_units_from_lvalue_annotation env w t = Some m \<Longrightarrow> M m"
  using justified_lookup(2) [of w lookup_levels env t]
  by (auto simp: fill_units_from_lvalue_annotation_def Let_def justified_def units_annotation_is_concrete_def
      annotation_metadata_def split: option.splits if_splits)

lemma target: "W w \<Longrightarrow> target_metadata env w t = Some m \<Longrightarrow> M m"
  by (auto simp: target_metadata_def W_def intro: looked_up filled [unfolded W_def] split: option.splits)

lemma kept_goal: "R st \<Longrightarrow> M m \<Longrightarrow> R (keep_target n m st)"
  by (cases m) (auto simp: keep_target_def intro!: set_result intro: weaken)

lemma assignment: "W w \<Longrightarrow> R (maybe_record_assignment_result env n op t e w)"
proof -
  assume w: "W w"
  then have R: "R (uw_state w)" by (simp add: W_def)
  have plain: "R (record_plain_assignment n e m v (uw_state w))" if "M m" for m v
    using that by (auto simp: record_plain_assignment_def implicit_conversion_def R add_diag set_result kept_goal split: prod.splits)
  have sum: "R (record_compound_sum n base m v (uw_state w))" if "M m" for base m v
    using that by (auto simp: record_compound_sum_def implicit_conversion_def R add_diag kept_goal split: prod.splits)
  have product: "R (record_compound_product n base m v (uw_state w))" if "M m" for base m v
    using that by (auto simp: record_compound_product_def R add_diag kept_goal split: option.splits)
  show ?thesis
    using target [OF w, of env t]
    by (auto simp: maybe_record_assignment_result_def Let_def R plain sum product split: option.splits)
qed

lemma alias_written:
  "alias_write name a as = Some as' \<Longrightarrow> list_all P as \<Longrightarrow> P (name, a) \<Longrightarrow> list_all P as'"
  by (induction name a as arbitrary: as' rule: alias_write.induct) (auto split: if_splits)

lemma remembered: "W w \<Longrightarrow> justified ann \<Longrightarrow> W (remember_units_pointer_alias name ann w)"
  by (auto simp: remember_units_pointer_alias_def W_def units_annotation_is_concrete_def
      dest: alias_written split: option.splits)

lemma alias_result: "W w \<Longrightarrow> W (maybe_remember_units_pointer_alias env nd i w)"
  by (auto simp: maybe_remember_units_pointer_alias_def remembered justified_lookup
      split: ASTNode.splits shape.splits DesignatedInit.splits)

lemma declarator_initializer: "R st \<Longrightarrow> R (fisics_units_validate_declarator_initializer n i e st)"
  by (simp add: fisics_units_validate_declarator_initializer_def initializer del: validate_initializer.simps)

lemma walk:
  "W w \<Longrightarrow> W (walk_expr_results env nd w)"
  "W w \<Longrightarrow> W (walk_nodes env nds w)"
  "W w \<Longrightarrow> W (walk_declarators env n s i ds w)"
  "W w \<Longrightarrow> W (walk_entries env n es w)"
  "W w \<Longrightarrow> W (walk_designated_init env n i ini w)"
proof (induction env nd w and env nds w and env n s i ds w and env n es w and env n i ini w
    rule: walk_expr_results_walk_nodes_walk_declarators_walk_entries_walk_designated_init.induct)
  case (10 env n t ps b as w)
  then have "W (walk_expr_results env b (walk_nodes env ps (w\<lparr>uw_function := Some n\<rparr>)))" by (simp add: W_def)
  then show ?case by (simp add: W_def)
next
  case (24 env n op t e w)
  then have "W (walk_expr_results env e (walk_expr_results env t w))" by simp
  then show ?case using assignment [of "walk_expr_results env e (walk_expr_results env t w)" env n op t e] by (simp add: W_def Let_def)
qed (auto simp: Let_def maybe_record_cast_result_def intro!: W_on_state binary ternary unary comma access literal name_result call
    return aggregate declared_aggregate alias_result take_over declarator_initializer
    simp del: validate_units_aggregate_initializer.simps)

lemma analysed: "R st \<Longrightarrow> R (fisics_extension_clear_units_expr_results st) \<Longrightarrow> R (fisics_units_run_expr_semantics env tree st)"
  using walk(1) [of "\<lparr>uw_state = fisics_extension_clear_units_expr_results st, uw_aliases = [], uw_function = None\<rparr>" env tree]
  by (simp add: fisics_units_run_expr_semantics_def W_def)

end

section \<open>Consistent results\<close>

text \<open>A dimension within range, and where the unit is resolved, the dimension of that unit.\<close>

definition meta_ok :: "metadata \<Rightarrow> bool" where
  "meta_ok m \<longleftrightarrow> (case m of (d, u, r) \<Rightarrow> dim_ok d \<and> (r \<longrightarrow> (\<exists>v. u = Some v \<and> ud_dim v = d)))"

definition state_ok :: "FisicsExtensionState \<Rightarrow> bool" where
  "state_ok st \<longleftrightarrow>
    (\<forall>x \<in> set (unitsExprResults st). er_resolved x \<longrightarrow> meta_ok (er_dim x, er_unitDef x, er_unitResolved x)) \<and>
    (\<forall>a \<in> set (unitsAnnotations st). an_resolved a \<longrightarrow> meta_ok (annotation_metadata a)) \<and>
    (\<forall>c \<in> set (unitsCallArgContracts st). ca_resolved c \<longrightarrow> meta_ok (ca_dim c, ca_unitDef c, ca_unitResolved c))"

lemma registry_dim_ok: "u \<in> set (all_units kUnitFamilies) \<Longrightarrow> dim_ok (ud_dim u)"
  unfolding all_units_def kUnitFamilies_def init_family_table_part1_def init_family_table_part2_def unit_tables
  by (simp add: mk_unit_def dim_values) (elim disjE; simp add: dim_ok_cons_list fits_i8_def)

lemma unit_lookup_ok: "fisics_unit_lookup t = Some v \<Longrightarrow> meta_ok (ud_dim v, Some v, True)"
  by (cases t) (auto simp: meta_ok_def lookup_iff registry_dim_ok fisics_unit_lookup_def [of None])

lemma dim_of_text_ok: "dim_of_text t = Inr d \<Longrightarrow> dim_ok d"
  by (auto simp: dim_of_text_def fisics_units_parse_dim_expr_def Let_def dest!: parse_dim_loop_dim_ok
      split: outcome.splits if_splits)

definition contract_ok :: "type_contract \<Rightarrow> bool" where
  "contract_ok c \<longleftrightarrow> (case tc_dim c of None \<Rightarrow> True | Some d \<Rightarrow> dim_ok d) \<and>
    (case tc_unit c of None \<Rightarrow> True | Some v \<Rightarrow> dim_ok (ud_dim v))"

lemma scan_contract_ok: "contract_ok c \<Longrightarrow> contract_ok (scan_contract as c)"
proof (induction as c rule: scan_contract.induct)
  case (2 a as c)
  have d: "contract_ok (c\<lparr>tc_dim := Some d, tc_sawAny := True\<rparr>)" if "dim_of_text t = Inr d" for t d
    using 2(2) dim_of_text_ok [OF that] by (simp add: contract_ok_def)
  have u: "contract_ok (c\<lparr>tc_unit := Some v, tc_sawAny := True\<rparr>)" if "fisics_unit_lookup t = Some v" for t v
    using 2(2) unit_lookup_ok [OF that] by (simp add: contract_ok_def meta_ok_def)
  show ?case
    unfolding scan_contract.simps by (rule 2(1)) (auto simp: 2(2) d u split: option.splits sum.splits)
qed simp

lemma type_contract_ok: "fisics_units_parse_type_contract t = Some (d, True, u) \<Longrightarrow> meta_ok (d, u, u \<noteq> None)"
proof (cases t)
  case (Some x)
  assume t: "fisics_units_parse_type_contract t = Some (d, True, u)"
  define c where "c = scan_contract (pt_attributes (pt_base x)) \<lparr>tc_sawAny = False, tc_dim = None, tc_unit = None\<rparr>"
  have "contract_ok c" unfolding c_def by (rule scan_contract_ok) (simp add: contract_ok_def)
  then show ?thesis
    using t by (auto simp: Some fisics_units_parse_type_contract_def Let_def contract_ok_def meta_ok_def fisics_dim_equal_iff
        c_def [symmetric] split: option.splits if_splits)
qed (simp add: fisics_units_parse_type_contract_def)

lemma combine_dims_ok:
  assumes "dim_ok a" "dim_ok b" "combine_dims op a b = Some d"
  shows "dim_ok d" and "fisics_dim_is_dimensionless b \<Longrightarrow> d = a"
    and "op = Some ''*'' \<Longrightarrow> fisics_dim_is_dimensionless a \<Longrightarrow> d = b"
proof -
  have d: "d = map2 (if op = Some ''*'' then (+) else (-)) a b" and ok: "dim_ok d"
    using assms by (auto simp: combine_dims_def fisics_dim_add_eq fisics_dim_sub_eq split: if_splits)
  have len: "length a = FISICS_DIM_COUNT" "length b = FISICS_DIM_COUNT" using assms by (simp_all add: dim_ok_length)
  show "dim_ok d" by (rule ok)
  show "d = a" if "fisics_dim_is_dimensionless b"
    using that len by (auto simp: d fisics_dim_is_dimensionless_def dimensionless_from_iff intro!: nth_equalityI)
  show "d = b" if "op = Some ''*''" "fisics_dim_is_dimensionless a"
    using that len by (auto simp: d fisics_dim_is_dimensionless_def dimensionless_from_iff intro!: nth_equalityI)
qed

lemma halved_ok: "dim_ok d \<Longrightarrow> halve_axes d [0..<FISICS_DIM_COUNT] fisics_dim_zero = Some h \<Longrightarrow> dim_ok h"
proof -
  assume d: "dim_ok d" and h: "halve_axes d [0..<FISICS_DIM_COUNT] fisics_dim_zero = Some h"
  have h: "h = map (\<lambda>i. d ! i div 2) [0..<FISICS_DIM_COUNT]"
    using h fold_write_dim [of "\<lambda>i. d ! i div 2"] by (auto simp: halve_axes_eq fisics_dim_zero_def split: if_splits)
  have "fits_i8 (d ! i div 2)" if "i < FISICS_DIM_COUNT" for i
  proof -
    have "fits_i8 (d ! i)" using d that by (simp add: dim_ok_def)
    then show ?thesis unfolding fits_i8_def by linarith
  qed
  then show "dim_ok h" by (auto simp: h dim_ok_def)
qed

lemma expr_result_found: "expr_result_find n xs = Some x \<Longrightarrow> x \<in> set xs"
  by (induction n xs rule: expr_result_find.induct) (auto split: if_splits)

lemma found_ok:
  "state_ok st \<Longrightarrow> fisics_extension_lookup_units_expr_result st k = Some x \<Longrightarrow> er_resolved x \<Longrightarrow>
    meta_ok (er_dim x, er_unitDef x, er_unitResolved x)"
  by (simp add: state_ok_def fisics_extension_lookup_units_expr_result_def expr_result_found)

lemma set_result_ok:
  assumes "state_ok st" "meta_ok m"
  shows "state_ok (set_result n m st)"
proof (cases m)
  case (fields d u r)
  let ?x = "\<lparr>er_node = n, er_dim = d, er_resolved = True, er_unitDef = u, er_unitResolved = r \<and> u \<noteq> None\<rparr>"
  have "meta_ok (d, u, r \<and> u \<noteq> None)" using assms(2) fields by (auto simp: meta_ok_def)
  then have "er_resolved y \<longrightarrow> meta_ok (er_dim y, er_unitDef y, er_unitResolved y)"
    if "y \<in> set (expr_result_write ?x (unitsExprResults st))" for y
    using subsetD [OF set_write that] assms(1) by (auto simp: state_ok_def simp del: not_None_eq)
  then show ?thesis
    using assms(1) by (simp add: fields state_ok_def set_result_def fisics_extension_set_units_expr_result_with_unit_def)
qed

interpretation consistent: walk_predicate state_ok meta_ok
proof unfold_locales
  fix st n m assume "state_ok st" "meta_ok m"
  then show "state_ok (set_result n m st)" by (rule set_result_ok)
next
  fix st e m assume "state_ok st" "lookup_resolved_expr_metadata st e = Some m"
  then show "meta_ok m"
    by (auto simp: lookup_resolved_expr_metadata_def intro: found_ok split: ASTNode.splits option.splits if_splits)
next
  fix st k x assume "state_ok st" "fisics_extension_lookup_units_expr_result st k = Some x" "er_resolved x"
  then show "meta_ok (er_dim x, er_unitDef x, er_unitResolved x)" by (rule found_ok)
next
  fix l m op d assume "meta_ok l" "meta_ok m" "combine_dims op (fst l) (fst m) = Some d"
  then show "meta_ok (d, product_unit op l m)"
    using combine_dims_ok [of "fst l" "fst m" op d] by (auto simp: meta_ok_def product_unit_def split: prod.splits if_splits)
next
  fix h v v' assume "meta_ok (plain h)" "sqrt_unit v h = Some v'"
  then show "meta_ok (h, Some v', True)"
    using sqrt_root_scan_SomeD [of v h sqrt_roots v'] unit_lookup_ok by (auto simp: sqrt_unit_def meta_ok_def fisics_dim_equal_iff)
next
  fix d u r h assume "meta_ok (d, u, r)" "halve_axes d [0..<FISICS_DIM_COUNT] fisics_dim_zero = Some h"
  then show "meta_ok (plain h)" by (auto simp: meta_ok_def intro: halved_ok)
next
  fix t v assume "fisics_unit_lookup t = Some v"
  then show "meta_ok (ud_dim v, Some v, True)" by (rule unit_lookup_ok)
next
  fix type d u assume "fisics_units_parse_type_contract type = Some (d, True, u)"
  then show "meta_ok (d, u, u \<noteq> None)" by (rule type_contract_ok)
qed (auto simp: state_ok_def add_diag_def | auto simp: meta_ok_def)+

text \<open>The other operations on the extension state.\<close>

definition annotation_ok :: "FisicsUnitsAnnotation \<Rightarrow> bool" where
  "annotation_ok a \<longleftrightarrow> (an_resolved a \<longrightarrow> meta_ok (annotation_metadata a))"

lemma state_ok_annotations: "state_ok st \<Longrightarrow> a \<in> set (unitsAnnotations st) \<Longrightarrow> annotation_ok a"
  by (simp add: state_ok_def annotation_ok_def)

lemma state_ok_update:
  assumes "state_ok st" "\<And>a. annotation_ok a \<Longrightarrow> annotation_ok (f a)" "k < length (unitsAnnotations st)"
  shows "state_ok (update_annotation k f st)"
  using assms set_update_subset_insert [of "unitsAnnotations st" k "f (unitsAnnotations st ! k)"] state_ok_annotations [OF assms(1)]
  by (auto simp: state_ok_def update_annotation_def annotation_ok_def)

lemma state_ok_ensure:
  assumes "state_ok st" "ensure_units_annotation st n i = (st', k)"
  shows "state_ok st' \<and> k < length (unitsAnnotations st')"
proof -
  have f: "find_annotation as n i = Some j \<Longrightarrow> j < length as" for as j
    by (induction as n i arbitrary: j rule: find_annotation.induct) (auto split: if_splits)
  show ?thesis
    using assms by (auto simp: ensure_units_annotation_def find_units_annotation_def state_ok_def new_annotation_def dest: f
        split: option.splits)
qed

lemma state_ok_noted_attr:
  assumes "state_ok st"
  shows "state_ok (note_units_dim_attr n i t st)" "state_ok (note_units_unit_attr n i t st)"
proof -
  obtain st' k where e: "ensure_units_annotation st n i = (st', k)" by fastforce
  have "state_ok st'" "k < length (unitsAnnotations st')" using state_ok_ensure [OF assms e] by simp_all
  then show "state_ok (note_units_dim_attr n i t st)" "state_ok (note_units_unit_attr n i t st)"
    by (auto simp: note_units_dim_attr_def note_units_unit_attr_def e annotation_ok_def annotation_metadata_def
        intro!: state_ok_update)
qed

lemma state_ok_noted: "state_ok st \<Longrightarrow> state_ok (fst (note_units_attrs_from_list n i as st))"
  by (induction n i as st rule: note_units_attrs_from_list.induct)
    (auto simp: state_ok_noted_attr split: option.splits prod.splits)

lemma state_ok_slots: "state_ok st \<Longrightarrow> state_ok (note_slots n is attrs st)"
  by (induction n "is" attrs st rule: note_slots.induct) (simp_all add: state_ok_noted)

lemma state_ok_declared: "state_ok st \<Longrightarrow> state_ok (fisics_extension_note_declaration nd st)"
proof (cases nd)
  case (Node n s)
  assume st: "state_ok st"
  have f: "note_units_attrs_from_list n 0 as st = (st', k) \<Longrightarrow> state_ok st'" for as st' k
    using state_ok_noted [OF st, of n 0 as] by simp
  show ?thesis
    by (cases s) (auto simp: Node fisics_extension_note_declaration_def state_ok_slots [OF st] state_ok_noted dest: f split: prod.splits)
qed (simp add: fisics_extension_note_declaration_def)

lemma state_ok_add_diag [simp]: "state_ok (add_diag x st) \<longleftrightarrow> state_ok st"
  by (simp add: state_ok_def add_diag_def)

lemma resolve_dim_step_ok:
  assumes "resolve_dim_step env owner a st = (st', a')" "state_ok st" "\<not> an_resolved a" "\<not> an_unitResolved a"
  shows "state_ok st'" "annotation_ok a'" "\<not> an_unitResolved a'" "unitsAnnotations st' = unitsAnnotations st"
  using assms dim_of_text_ok
  by (auto simp: resolve_dim_step_def fisics_units_resolve_annotation_def annotation_ok_def annotation_metadata_def meta_ok_def
      add_diag_def [of _ st] state_ok_def split: option.splits if_splits sum.splits)

lemma resolve_unit_step_ok:
  assumes "resolve_unit_step env owner a st = (st', a')" "state_ok st" "annotation_ok a" "\<not> an_unitResolved a"
  shows "state_ok st'" "annotation_ok a'" "unitsAnnotations st' = unitsAnnotations st"
proof -
  have "annotation_ok (a\<lparr>an_unitResolved := True, an_unitDef := Some v\<rparr>)"
    if "fisics_unit_lookup t = Some v" "fisics_dim_equal (ud_dim v) (an_dim a)" for t v
    using unit_lookup_ok [OF that(1)] that(2) assms(3)
    by (auto simp: annotation_ok_def annotation_metadata_def meta_ok_def fisics_dim_equal_iff)
  then show "state_ok st'" "annotation_ok a'" "unitsAnnotations st' = unitsAnnotations st"
    using assms
    by (auto simp: resolve_unit_step_def fisics_units_resolve_unit_annotation_def add_diag_def [of _ st] state_ok_def
        split: option.splits if_splits)
qed

lemma state_ok_resolved_at:
  assumes "state_ok st" "k < length (unitsAnnotations st)"
  shows "state_ok (resolve_annotation_at env k st)" "length (unitsAnnotations (resolve_annotation_at env k st)) = length (unitsAnnotations st)"
proof -
  let ?a = "unitsAnnotations st ! k"
  let ?owner = "diagnostic_owner env ?a"
  let ?s1 = "if an_dimDuplicateCount ?a > 1 then add_diag (DuplicateUnitsAttr ?owner) st else st"
  let ?s2 = "if an_unitDuplicateCount ?a > 1 then add_diag (DuplicateUnitAttr ?owner) ?s1 else ?s1"
  let ?b = "?a\<lparr>an_canonicalText := None, an_resolved := False, an_unitDef := None, an_unitResolved := False\<rparr>"
  obtain s3 b3 s4 b4 where e: "resolve_dim_step env ?owner ?b ?s2 = (s3, b3)" "resolve_unit_step env ?owner b3 s3 = (s4, b4)"
    by (metis surj_pair)
  have r: "resolve_annotation_at env k st = update_annotation k (\<lambda>_. b4) s4" unfolding resolve_annotation_at_def Let_def e prod.case ..
  have "state_ok ?s2" "unitsAnnotations ?s2 = unitsAnnotations st" using assms(1) by (simp_all add: add_diag_def state_ok_def)
  then have s: "state_ok s4" "annotation_ok b4" "unitsAnnotations s4 = unitsAnnotations st"
    using resolve_dim_step_ok [OF e(1)] resolve_unit_step_ok [OF e(2)] by simp_all
  show "state_ok (resolve_annotation_at env k st)" unfolding r by (rule state_ok_update) (use s assms in simp_all)
  show "length (unitsAnnotations (resolve_annotation_at env k st)) = length (unitsAnnotations st)"
    by (simp add: r update_annotation_def s(3))
qed

lemma state_ok_resolved_all: "state_ok st \<Longrightarrow> list_all (\<lambda>k. k < length (unitsAnnotations st)) ks \<Longrightarrow> state_ok (resolve_annotations env ks st)"
  by (induction env ks st rule: resolve_annotations.induct) (simp_all add: state_ok_resolved_at)

lemma state_ok_run: "state_ok st \<Longrightarrow> state_ok (fisics_extension_run_semantic_scaffold env tree st)"
proof -
  assume "state_ok st"
  then have d: "state_ok (run_units_decl_scaffold env st)"
    unfolding run_units_decl_scaffold_def by (rule state_ok_resolved_all) (simp add: list_all_iff)
  then have "state_ok (fisics_extension_clear_units_expr_results (run_units_decl_scaffold env st))"
    by (simp add: state_ok_def fisics_extension_clear_units_expr_results_def)
  with d show ?thesis unfolding fisics_extension_run_semantic_scaffold_def by (rule consistent.analysed)
qed

lemma state_ok_contract: "state_ok st \<Longrightarrow> state_ok (fisics_extension_note_units_call_arg_contract_from_param_type n i t st)"
proof -
  have w: "set (contract_write c cs) \<subseteq> insert c (set cs)" for c cs by (induction c cs rule: contract_write.induct) auto
  assume "state_ok st"
  then show ?thesis
    using type_contract_ok [of t]
    by (auto simp: fisics_extension_note_units_call_arg_contract_from_param_type_def state_ok_def dest!: subsetD [OF w]
        simp del: not_None_eq split: option.splits)
qed

text \<open>
  The states of the extension: what the parser and semantic analysis note, in any order and number, and the runs of
  the units analysis on any tree.
\<close>

definition empty_extension_state :: FisicsExtensionState where
  "empty_extension_state =
    \<lparr>unitsExprResults = [], unitsMathCalls = [], unitsDiags = [], unitsAnnotations = [], unitsExprBindings = [],
     unitsCallArgContracts = []\<rparr>"

inductive extension_state :: "UnitsEnv \<Rightarrow> FisicsExtensionState \<Rightarrow> bool" for env where
  start: "extension_state env empty_extension_state"
| declared: "extension_state env st \<Longrightarrow> extension_state env (fisics_extension_note_declaration nd st)"
| prefix_attributes: "extension_state env st \<Longrightarrow> extension_state env (fisics_extension_note_units_prefix nd attrs st)"
| annotation_binding: "extension_state env st \<Longrightarrow> extension_state env (fisics_extension_note_units_annotation_binding n i st)"
| symbol_binding: "extension_state env st \<Longrightarrow> extension_state env (fisics_extension_note_units_symbol_binding env n s st)"
| access_type: "extension_state env st \<Longrightarrow> extension_state env (fisics_units_capture_access_type env nd t st)"
| argument_contract: "extension_state env st \<Longrightarrow> extension_state env (fisics_extension_note_units_call_arg_contract_from_param_type n j t' st)"
| return_contract: "extension_state env st \<Longrightarrow> extension_state env (fst (fisics_units_note_function_return_contract env nd t' t st))"
| math_call: "extension_state env st \<Longrightarrow> extension_state env (st\<lparr>unitsMathCalls := unitsMathCalls st @ [(n, op)]\<rparr>)"
| analysis: "extension_state env st \<Longrightarrow> extension_state env (fisics_extension_run_semantic_scaffold env tree st)"

lemma state_ok_bindings [simp]:
  "state_ok (st\<lparr>unitsExprBindings := bs\<rparr>) \<longleftrightarrow> state_ok st" "state_ok (st\<lparr>unitsMathCalls := cs\<rparr>) \<longleftrightarrow> state_ok st"
  by (simp_all add: state_ok_def)

lemma state_ok_accessed: "state_ok st \<Longrightarrow> state_ok (fisics_units_capture_access_type env nd t st)"
  by (auto simp: fisics_units_capture_access_type_def fisics_extension_note_units_type_binding_def fisics_units_note_origin_def
      Let_def split: ASTNode.splits shape.splits)

lemma state_ok_return: "state_ok st \<Longrightarrow> state_ok (fst (fisics_units_note_function_return_contract env nd p c st))"
proof -
  assume st: "state_ok st"
  have "state_ok (return_contract_reports n p c' st)" for n c'
    using st by (auto simp: return_contract_reports_def split: option.splits prod.splits bool.splits)
  then show ?thesis using st by (simp add: fisics_units_note_function_return_contract_def Let_def state_ok_contract split: ASTNode.split)
qed

lemma extension_state_ok: "extension_state env st \<Longrightarrow> state_ok st"
proof (induction rule: extension_state.induct)
  case start
  show ?case by (simp add: state_ok_def empty_extension_state_def)
qed (simp_all add: state_ok_declared state_ok_slots fisics_extension_note_units_prefix_def Let_def state_ok_accessed state_ok_contract
    state_ok_return state_ok_run fisics_extension_note_units_annotation_binding_def fisics_extension_note_units_symbol_binding_def
    split: ASTNode.split)

text \<open>
  C37. Whatever the parser and semantic analysis have noted, in every state of the extension each result recorded as
  resolved has exponents within \<open>int8_t\<close>, and where its unit is resolved, the dimension recorded is the dimension of that
  unit in the registry.\<close>
theorem recorded_units_have_recorded_dimension:
  assumes "extension_state env st" "x \<in> set (unitsExprResults st)" "er_resolved x"
  shows "dim_ok (er_dim x) \<and> (er_unitResolved x \<longrightarrow> (\<exists>v. er_unitDef x = Some v \<and> ud_dim v = er_dim x))"
  using extension_state_ok [OF assms(1)] assms(2,3) by (auto simp: state_ok_def meta_ok_def)

end
