(* ===== verification/Units_Scaling.thy ===== *)
theory Units_Scaling
  imports Units_Expr_Props
begin

text \<open>
  Soundness of the units analysis: an expression that passes it without a report computes a quantity of the
  dimension recorded for it. That a value has a dimension is said without reference to the analysis, by what
  happens when the base units are replaced: scaling the unit of each base dimension by a positive factor scales
  every variable by the product of these factors to its exponents, and has to scale the value of the expression by the
  product belonging to the dimension recorded.
\<close>

section \<open>What the walk leaves alone\<close>

definition same_tables :: "FisicsExtensionState \<Rightarrow> FisicsExtensionState \<Rightarrow> bool" where
  "same_tables st st' \<longleftrightarrow> unitsAnnotations st' = unitsAnnotations st \<and> unitsExprBindings st' = unitsExprBindings st"

interpretation frame: walk_predicate "same_tables st0" "\<lambda>_. True" for st0
  by unfold_locales
    (auto simp: same_tables_def add_diag_def set_result_def fisics_extension_set_units_expr_result_with_unit_def split: prod.splits)

interpretation reports: walk_predicate "\<lambda>st. k \<le> length (unitsDiags st)" "\<lambda>_. True" for k
  by unfold_locales
    (auto simp: add_diag_def set_result_def fisics_extension_set_units_expr_result_with_unit_def split: prod.splits)

lemma walk_same_tables: "same_tables (uw_state w) (uw_state (walk_expr_results env e w))"
  using frame.walk(1) [of "uw_state w" "w\<lparr>uw_aliases := uw_aliases w\<rparr>" env e]
  by (simp add: frame.W_def frame.justified_def same_tables_def list_all_iff split: option.splits)

lemma walk_reports: "length (unitsDiags (uw_state w)) \<le> length (unitsDiags (uw_state (walk_expr_results env e w)))"
  using reports.walk(1) [of "length (unitsDiags (uw_state w))" w env e]
  by (simp add: reports.W_def reports.justified_def list_all_iff split: option.splits)

section \<open>Quantities\<close>

definition is_real_type :: "ParsedType \<Rightarrow> bool" where
  "is_real_type t \<longleftrightarrow> pt_kind (pt_base t) = TYPE_PRIMITIVE \<and> pt_primitiveType (pt_base t) \<in> {TOKEN_FLOAT, TOKEN_DOUBLE} \<and>
    pt_derivations t = [] \<and> pt_pointerDepth (pt_base t) = 0"

definition is_quantity_op :: "cstr \<Rightarrow> bool" where
  "is_quantity_op op \<longleftrightarrow> is_units_add_sub_op op \<or> is_units_mul_div_op op \<or> is_units_comparison_op op"

text \<open>The expressions considered, their nodes and the names they read.\<close>

fun quantity_expr :: "ASTNode \<Rightarrow> bool" where
  "quantity_expr (Node n (AST_NUMBER_LITERAL v)) \<longleftrightarrow> True"
| "quantity_expr (Node n (AST_CHAR_LITERAL v)) \<longleftrightarrow> True"
| "quantity_expr (Node n (AST_IDENTIFIER v)) \<longleftrightarrow> True"
| "quantity_expr (Node n (AST_UNARY_EXPRESSION op l r)) \<longleftrightarrow> op \<in> {Some ''+'', Some ''-''} \<and> r = AST_NULL \<and> quantity_expr l"
| "quantity_expr (Node n (AST_CAST_EXPRESSION t e)) \<longleftrightarrow> is_real_type t \<and> quantity_expr e"
| "quantity_expr (Node n (AST_BINARY_EXPRESSION op l r)) \<longleftrightarrow> is_quantity_op op \<and> quantity_expr l \<and> quantity_expr r"
| "quantity_expr (Node n (AST_TERNARY_EXPRESSION c t e)) \<longleftrightarrow> quantity_expr c \<and> quantity_expr t \<and> quantity_expr e"
| "quantity_expr _ \<longleftrightarrow> False"

fun expr_nodes :: "ASTNode \<Rightarrow> node list" where
  "expr_nodes (Node n (AST_UNARY_EXPRESSION op l r)) = n # expr_nodes l"
| "expr_nodes (Node n (AST_CAST_EXPRESSION t e)) = n # expr_nodes e"
| "expr_nodes (Node n (AST_BINARY_EXPRESSION op l r)) = n # expr_nodes l @ expr_nodes r"
| "expr_nodes (Node n (AST_TERNARY_EXPRESSION c t e)) = n # expr_nodes c @ expr_nodes t @ expr_nodes e"
| "expr_nodes (Node n s) = [n]"
| "expr_nodes AST_NULL = []"

fun name_nodes :: "ASTNode \<Rightarrow> node list" where
  "name_nodes (Node n (AST_IDENTIFIER v)) = [n]"
| "name_nodes (Node n (AST_UNARY_EXPRESSION op l r)) = name_nodes l"
| "name_nodes (Node n (AST_CAST_EXPRESSION t e)) = name_nodes e"
| "name_nodes (Node n (AST_BINARY_EXPRESSION op l r)) = name_nodes l @ name_nodes r"
| "name_nodes (Node n (AST_TERNARY_EXPRESSION c t e)) = name_nodes c @ name_nodes t @ name_nodes e"
| "name_nodes _ = []"

definition of_bool_real :: "bool \<Rightarrow> real" where
  "of_bool_real b = (if b then 1 else 0)"

definition operator_value :: "cstr \<Rightarrow> real \<Rightarrow> real \<Rightarrow> real" where
  "operator_value op x y =
    (if op = Some ''+'' then x + y else if op = Some ''-'' then x - y
     else if op = Some ''*'' then x * y else if op = Some ''/'' then x / y
     else of_bool_real (if op = Some ''=='' then x = y else if op = Some ''!='' then x \<noteq> y
       else if op = Some ''<'' then x < y else if op = Some ''<='' then x \<le> y
       else if op = Some ''>'' then x > y else x \<ge> y))"

text \<open>
  The value of an expression over the reals, where \<open>lit\<close> gives the value of a literal and \<open>rho\<close> that of the variable
  read at a node.
\<close>

fun quantity_value :: "(cstr \<Rightarrow> real) \<Rightarrow> (node \<Rightarrow> real) \<Rightarrow> ASTNode \<Rightarrow> real" where
  "quantity_value lit rho (Node n (AST_NUMBER_LITERAL v)) = lit v"
| "quantity_value lit rho (Node n (AST_CHAR_LITERAL v)) = lit v"
| "quantity_value lit rho (Node n (AST_IDENTIFIER v)) = rho n"
| "quantity_value lit rho (Node n (AST_UNARY_EXPRESSION op l r)) =
    (if op = Some ''-'' then - quantity_value lit rho l else quantity_value lit rho l)"
| "quantity_value lit rho (Node n (AST_CAST_EXPRESSION t e)) = quantity_value lit rho e"
| "quantity_value lit rho (Node n (AST_BINARY_EXPRESSION op l r)) =
    operator_value op (quantity_value lit rho l) (quantity_value lit rho r)"
| "quantity_value lit rho (Node n (AST_TERNARY_EXPRESSION c t e)) =
    (if quantity_value lit rho c \<noteq> 0 then quantity_value lit rho t else quantity_value lit rho e)"
| "quantity_value lit rho _ = 0"

definition scale_factor :: "(nat \<Rightarrow> real) \<Rightarrow> FisicsDim8 \<Rightarrow> real" where
  "scale_factor s d = (\<Prod>i < FISICS_DIM_COUNT. s i powi (d ! i))"

definition variable_dim :: "FisicsExtensionState \<Rightarrow> node \<Rightarrow> FisicsDim8 option" where
  "variable_dim st n =
    (case fisics_extension_lookup_units_annotation_binding st n of
       Some a \<Rightarrow> if annotation_usable (Some a) then Some (an_dim a) else None | None \<Rightarrow> None)"

text \<open>The variables measured in the new units.\<close>

definition rescaled :: "FisicsExtensionState \<Rightarrow> (nat \<Rightarrow> real) \<Rightarrow> (node \<Rightarrow> real) \<Rightarrow> node \<Rightarrow> real" where
  "rescaled st s rho n = (case variable_dim st n of Some d \<Rightarrow> scale_factor s d * rho n | None \<Rightarrow> rho n)"

definition has_dimension :: "FisicsExtensionState \<Rightarrow> ASTNode \<Rightarrow> FisicsDim8 \<Rightarrow> bool" where
  "has_dimension st e d \<longleftrightarrow>
    (\<forall>lit rho s. (\<forall>i. 0 < s i) \<longrightarrow> quantity_value lit (rescaled st s rho) e = scale_factor s d * quantity_value lit rho e)"

section \<open>Scale factors\<close>

lemma scale_factor_zero [simp]: "scale_factor s fisics_dim_zero = 1"
  by (simp add: scale_factor_def)

lemma scale_factor_pos: "(\<And>i. 0 < s i) \<Longrightarrow> 0 < scale_factor s d"
  by (simp add: scale_factor_def prod_pos)

lemma scale_factor_combine:
  assumes "\<And>i. 0 < s i" "length a = FISICS_DIM_COUNT" "length b = FISICS_DIM_COUNT"
  shows "scale_factor s (map2 (+) a b) = scale_factor s a * scale_factor s b"
    and "scale_factor s (map2 (-) a b) = scale_factor s a / scale_factor s b"
proof -
  have "s i \<noteq> 0" for i using assms(1) [of i] by simp
  then show "scale_factor s (map2 (+) a b) = scale_factor s a * scale_factor s b"
    "scale_factor s (map2 (-) a b) = scale_factor s a / scale_factor s b"
    using assms(2,3) by (simp_all add: scale_factor_def power_int_add power_int_diff prod.distrib [symmetric] prod_dividef [symmetric])
qed

section \<open>Dimensions of operators\<close>

lemma has_dimension_sum:
  assumes "has_dimension st l d" "has_dimension st r d" "is_units_add_sub_op op"
  shows "has_dimension st (Node n (AST_BINARY_EXPRESSION op l r)) d"
  using assms by (auto simp: has_dimension_def operator_value_def is_units_add_sub_op_def algebra_simps)

lemma has_dimension_comparison:
  assumes "has_dimension st l d" "has_dimension st r d" "is_units_comparison_op op"
  shows "has_dimension st (Node n (AST_BINARY_EXPRESSION op l r)) fisics_dim_zero"
proof -
  have "scale_factor s d * x = scale_factor s d * y \<longleftrightarrow> x = y" "scale_factor s d * x < scale_factor s d * y \<longleftrightarrow> x < y"
    "scale_factor s d * x \<le> scale_factor s d * y \<longleftrightarrow> x \<le> y" if "\<forall>i. 0 < s i" for s x y
    using scale_factor_pos [of s d] that by simp_all
  then show ?thesis
    using assms by (auto simp: has_dimension_def operator_value_def is_units_comparison_op_def)
qed

lemma has_dimension_product:
  assumes "has_dimension st l a" "has_dimension st r b" "is_units_mul_div_op op" "dim_ok a" "dim_ok b" "combine_dims op a b = Some d"
  shows "has_dimension st (Node n (AST_BINARY_EXPRESSION op l r)) d"
proof -
  have d: "d = map2 (if op = Some ''*'' then (+) else (-)) a b"
    using assms(4-6) by (auto simp: combine_dims_def fisics_dim_add_eq fisics_dim_sub_eq split: if_splits)
  show ?thesis
    using assms by (auto simp: has_dimension_def operator_value_def is_units_mul_div_op_def d scale_factor_combine dim_ok_length)
qed

lemma has_dimension_ternary:
  assumes "has_dimension st c a" "has_dimension st t d" "has_dimension st e d"
  shows "has_dimension st (Node n (AST_TERNARY_EXPRESSION c t e)) d"
proof -
  have "scale_factor s a * x \<noteq> 0 \<longleftrightarrow> x \<noteq> 0" if "\<forall>i. 0 < s i" for s x
    using scale_factor_pos [of s a] that by simp
  then show ?thesis using assms by (auto simp: has_dimension_def)
qed

section \<open>The analysis of a quantity\<close>

lemma lookup_set_result:
  "lookup_resolved_expr_metadata (set_result n (d, u, r) st) (Node m t) =
    (if m = n then Some (d, u, r \<and> u \<noteq> None) else lookup_resolved_expr_metadata st (Node m t))"
  by (simp add: lookup_resolved_expr_metadata_def set_result_def lookup_set)

lemma lookup_set_other: "m \<noteq> n \<Longrightarrow> lookup_resolved_expr_metadata (set_result n x st) (Node m t) = lookup_resolved_expr_metadata st (Node m t)"
  by (cases x) (simp add: lookup_set_result)

lemma lookup_add_diag [simp]: "lookup_resolved_expr_metadata (add_diag x st) e = lookup_resolved_expr_metadata st e"
  by (simp add: lookup_resolved_expr_metadata_def fisics_extension_lookup_units_expr_result_def add_diag_def split: ASTNode.splits)

text \<open>Each step records a result for its own node only.\<close>

lemma lookup_other:
  assumes "m \<noteq> n"
  shows "lookup_resolved_expr_metadata (take_over n e st) (Node m t) = lookup_resolved_expr_metadata st (Node m t)"
    and "lookup_resolved_expr_metadata (maybe_record_binary_result n op l r st) (Node m t) = lookup_resolved_expr_metadata st (Node m t)"
    and "lookup_resolved_expr_metadata (maybe_record_ternary_result n l r st) (Node m t) = lookup_resolved_expr_metadata st (Node m t)"
    and "lookup_resolved_expr_metadata (record_identifier_result n st) (Node m t) = lookup_resolved_expr_metadata st (Node m t)"
    and "lookup_resolved_expr_metadata (record_dimensionless_literal n st) (Node m t) = lookup_resolved_expr_metadata st (Node m t)"
  using assms
  by (auto simp: take_over_def maybe_record_binary_result_def record_sum_def maybe_report_binary_mismatch_def implicit_conversion_def
      record_product_def record_comparison_def maybe_record_ternary_result_def record_identifier_result_def
      record_dimensionless_literal_def set_result_simps lookup_set_other split: option.splits prod.splits)

lemma walk_lookup_other:
  "quantity_expr e \<Longrightarrow> m \<notin> set (expr_nodes e) \<Longrightarrow>
    lookup_resolved_expr_metadata (uw_state (walk_expr_results env e w)) (Node m t) = lookup_resolved_expr_metadata (uw_state w) (Node m t)"
  by (induction e arbitrary: w rule: quantity_expr.induct)
    (auto simp: on_state_def Let_def maybe_record_unary_result_def maybe_record_cast_result_def lookup_other)

lemma quantity_node: "quantity_expr e \<Longrightarrow> \<exists>n t. e = Node n t \<and> n \<in> set (expr_nodes e)"
  by (induction e rule: quantity_expr.induct) auto

text \<open>A step that makes no report records a result.\<close>

lemma sum_recorded:
  assumes "length (unitsDiags (record_sum n op (ld, lu, lr) (rd, ru, rr) st)) \<le> length (unitsDiags st)" "is_units_add_sub_op op"
  shows "fisics_dim_equal ld rd \<and> (\<exists>u r. lookup_resolved_expr_metadata (record_sum n op (ld, lu, lr) (rd, ru, rr) st) (Node n t) = Some (ld, u, r))"
  using assms by (auto simp: record_sum_def maybe_report_binary_mismatch_def implicit_conversion_def add_diag_def lookup_set_result split: if_splits)

lemma product_recorded:
  assumes "length (unitsDiags (record_product n op l r st)) \<le> length (unitsDiags st)"
  shows "\<exists>d u b. combine_dims op (fst l) (fst r) = Some d \<and> lookup_resolved_expr_metadata (record_product n op l r st) (Node n t) = Some (d, u, b)"
  using assms by (cases "product_unit op l r") (auto simp: record_product_def add_diag_def lookup_set_result split: option.splits)

lemma comparison_recorded:
  assumes "length (unitsDiags (record_comparison n op (ld, lu, lr) (rd, ru, rr) st)) \<le> length (unitsDiags st)"
  shows "fisics_dim_equal ld rd \<and>
    lookup_resolved_expr_metadata (record_comparison n op (ld, lu, lr) (rd, ru, rr) st) (Node n t) = Some (fisics_dim_zero, None, False)"
  using assms by (auto simp: record_comparison_def implicit_conversion_def add_diag_def set_result_simps lookup_set_result split: if_splits)

lemma ternary_recorded:
  assumes "length (unitsDiags (maybe_record_ternary_result n a b st)) \<le> length (unitsDiags st)"
    "lookup_resolved_expr_metadata st a = Some (ld, lu, lr)" "lookup_resolved_expr_metadata st b = Some (rd, ru, rr)"
  shows "fisics_dim_equal ld rd \<and> (\<exists>u r. lookup_resolved_expr_metadata (maybe_record_ternary_result n a b st) (Node n t) = Some (ld, u, r))"
  using assms by (auto simp: maybe_record_ternary_result_def implicit_conversion_def add_diag_def lookup_set_result split: if_splits)

definition analysed :: "FisicsExtensionState \<Rightarrow> ASTNode \<Rightarrow> bool" where
  "analysed st e \<longleftrightarrow> (\<exists>d u r. lookup_resolved_expr_metadata st e = Some (d, u, r) \<and> dim_ok d \<and> has_dimension st e d)"

lemma analysedI: "state_ok st \<Longrightarrow> lookup_resolved_expr_metadata st e = Some (d, u, r) \<Longrightarrow> has_dimension st e d \<Longrightarrow> analysed st e"
  using consistent.looked_up [of st e "(d, u, r)"] by (auto simp: analysed_def meta_ok_def)

lemma same_tables_value:
  assumes "same_tables st st'" shows "variable_dim st' = variable_dim st" "has_dimension st' e d = has_dimension st e d"
proof -
  have a: "fisics_extension_units_annotation_at st' = fisics_extension_units_annotation_at st"
    using assms by (simp add: same_tables_def fisics_extension_units_annotation_at_def fun_eq_iff)
  show v: "variable_dim st' = variable_dim st"
    using assms by (simp add: variable_dim_def same_tables_def fisics_extension_lookup_units_annotation_binding_def find_binding_def
        a fun_eq_iff)
  show "has_dimension st' e d = has_dimension st e d" unfolding has_dimension_def rescaled_def v ..
qed

lemma binary_analysed:
  assumes "state_ok st" "analysed st l" "analysed st r" "is_quantity_op op"
    "length (unitsDiags (maybe_record_binary_result n op l r st)) \<le> length (unitsDiags st)"
  shows "analysed (maybe_record_binary_result n op l r st) (Node n (AST_BINARY_EXPRESSION op l r))" (is "analysed ?st ?e")
proof -
  obtain ld lu lr rd ru rr where
    l: "lookup_resolved_expr_metadata st l = Some (ld, lu, lr)" "dim_ok ld" "has_dimension st l ld" and
    r: "lookup_resolved_expr_metadata st r = Some (rd, ru, rr)" "dim_ok rd" "has_dimension st r rd"
    using assms(2,3) unfolding analysed_def by blast
  have ok: "state_ok ?st" by (rule consistent.binary [OF assms(1)])
  have eq: "has_dimension ?st ?e d = has_dimension st ?e d" for d
    by (rule same_tables_value(2)) (rule frame.binary, simp add: same_tables_def)
  consider "is_units_add_sub_op op" | "\<not> is_units_add_sub_op op" "is_units_mul_div_op op"
    | "\<not> is_units_add_sub_op op" "\<not> is_units_mul_div_op op" "is_units_comparison_op op"
    using assms(4) unfolding is_quantity_op_def by blast
  then show ?thesis
  proof cases
    case 1
    then have s: "?st = record_sum n op (ld, lu, lr) (rd, ru, rr) st" by (simp add: maybe_record_binary_result_def l r)
    obtain u b where "fisics_dim_equal ld rd" "lookup_resolved_expr_metadata ?st ?e = Some (ld, u, b)"
      using sum_recorded 1 assms(5) unfolding s by blast
    then show ?thesis using analysedI [OF ok] has_dimension_sum 1 l r by (simp add: eq fisics_dim_equal_iff)
  next
    case 2
    then have s: "?st = record_product n op (ld, lu, lr) (rd, ru, rr) st" by (simp add: maybe_record_binary_result_def l r)
    obtain d u b where "combine_dims op ld rd = Some d" "lookup_resolved_expr_metadata ?st ?e = Some (d, u, b)"
      using product_recorded assms(5) unfolding s by fastforce
    then show ?thesis using analysedI [OF ok] has_dimension_product [OF l(3) r(3) 2(2) l(2) r(2)] by (simp add: eq)
  next
    case 3
    then have s: "?st = record_comparison n op (ld, lu, lr) (rd, ru, rr) st" by (simp add: maybe_record_binary_result_def l r)
    have "fisics_dim_equal ld rd" "lookup_resolved_expr_metadata ?st ?e = Some (fisics_dim_zero, None, False)"
      using comparison_recorded assms(5) unfolding s by blast+
    then show ?thesis using analysedI [OF ok] has_dimension_comparison 3 l r by (simp add: eq fisics_dim_equal_iff)
  qed
qed

lemma ternary_analysed:
  assumes "state_ok st" "analysed st c" "analysed st a" "analysed st b"
    "length (unitsDiags (maybe_record_ternary_result n a b st)) \<le> length (unitsDiags st)"
  shows "analysed (maybe_record_ternary_result n a b st) (Node n (AST_TERNARY_EXPRESSION c a b))" (is "analysed ?st ?e")
proof -
  obtain cd ld lu lr rd ru rr where c: "has_dimension st c cd" and
    l: "lookup_resolved_expr_metadata st a = Some (ld, lu, lr)" "dim_ok ld" "has_dimension st a ld" and
    r: "lookup_resolved_expr_metadata st b = Some (rd, ru, rr)" "dim_ok rd" "has_dimension st b rd"
    using assms(2-4) unfolding analysed_def by blast
  have ok: "state_ok ?st" by (rule consistent.ternary [OF assms(1)])
  have eq: "has_dimension ?st ?e d = has_dimension st ?e d" for d
    by (rule same_tables_value(2)) (rule frame.ternary, simp add: same_tables_def)
  obtain u b where "fisics_dim_equal ld rd" "lookup_resolved_expr_metadata ?st ?e = Some (ld, u, b)"
    using ternary_recorded [OF assms(5) l(1) r(1)] by blast
  then show ?thesis using analysedI [OF ok] has_dimension_ternary [OF c] l r by (simp add: eq fisics_dim_equal_iff)
qed

lemma analysed_other:
  assumes "analysed st (Node m t)" "same_tables st st'"
    "lookup_resolved_expr_metadata st' (Node m t) = lookup_resolved_expr_metadata st (Node m t)"
  shows "analysed st' (Node m t)"
  using assms by (auto simp: analysed_def same_tables_value)

lemma analysed_after_walk:
  assumes "analysed (uw_state w) e" "quantity_expr e" "quantity_expr e'" "set (expr_nodes e) \<inter> set (expr_nodes e') = {}"
  shows "analysed (uw_state (walk_expr_results env e' w)) e"
proof -
  obtain m t where e: "e = Node m t" "m \<in> set (expr_nodes e)" using quantity_node [OF assms(2)] by blast
  then have "m \<notin> set (expr_nodes e')" using assms(4) by blast
  then show ?thesis
    using assms(1) analysed_other [OF _ walk_same_tables walk_lookup_other [OF assms(3)]] unfolding e by blast
qed

lemma take_over_analysed:
  assumes "state_ok st" "analysed st e" "\<And>d. has_dimension st e d \<Longrightarrow> has_dimension st (Node n t) d"
  shows "analysed (take_over n e st) (Node n t)"
proof -
  obtain d u r where e: "lookup_resolved_expr_metadata st e = Some (d, u, r)" "dim_ok d" "has_dimension st e d"
    using assms(2) unfolding analysed_def by blast
  have "same_tables st (take_over n e st)" by (rule frame.take_over) (simp add: same_tables_def)
  then show ?thesis using assms(3) e by (auto simp: analysed_def same_tables_value take_over_def lookup_set_result)
qed

lemma name_analysed:
  assumes "state_ok st" "variable_dim st n \<noteq> None"
  shows "analysed (record_identifier_result n st) (Node n (AST_IDENTIFIER v))" (is "analysed ?st ?e")
proof -
  obtain a where a: "fisics_extension_lookup_units_annotation_binding st n = Some a" "annotation_usable (Some a)"
    using assms(2) by (auto simp: variable_dim_def split: option.splits if_splits)
  have "has_dimension ?st ?e (an_dim a)"
    using frame.name_result [of st st n] a
    by (subst same_tables_value(2) [of st]) (auto simp: same_tables_def has_dimension_def rescaled_def variable_dim_def)
  moreover have "state_ok ?st" by (rule consistent.name_result [OF assms(1)])
  ultimately show ?thesis
    using a by (auto simp: record_identifier_result_def annotation_metadata_def lookup_set_result intro: analysedI)
qed

lemma literal_analysed:
  assumes "state_ok st" "\<And>lit rho. quantity_value lit rho (Node n t) = quantity_value lit (\<lambda>_. 0) (Node n t)"
  shows "analysed (record_dimensionless_literal n st) (Node n t)"
proof (rule analysedI)
  show "state_ok (record_dimensionless_literal n st)" by (rule consistent.literal [OF assms(1)])
  show "lookup_resolved_expr_metadata (record_dimensionless_literal n st) (Node n t) = Some (fisics_dim_zero, None, False)"
    by (simp add: record_dimensionless_literal_def set_result_simps lookup_set_result)
  show "has_dimension (record_dimensionless_literal n st) (Node n t) fisics_dim_zero"
    using assms(2) unfolding has_dimension_def by (metis mult_1 scale_factor_zero)
qed

lemma quantity_analysed:
  assumes "consistent.W w" "quantity_expr e" "distinct (expr_nodes e)"
    "list_all (\<lambda>n. variable_dim (uw_state w) n \<noteq> None) (name_nodes e)"
    "length (unitsDiags (uw_state (walk_expr_results env e w))) \<le> length (unitsDiags (uw_state w))"
  shows "analysed (uw_state (walk_expr_results env e w)) e"
  using assms
proof (induction e arbitrary: w rule: quantity_expr.induct)
  case (1 n v) then show ?case by (simp add: on_state_def consistent.W_def literal_analysed)
next
  case (2 n v) then show ?case by (simp add: on_state_def consistent.W_def literal_analysed)
next
  case (3 n v) then show ?case by (simp add: on_state_def consistent.W_def name_analysed)
next
  case (4 n op l r)
  let ?w = "walk_expr_results env l w"
  have st: "uw_state (walk_expr_results env (Node n (AST_UNARY_EXPRESSION op l r)) w) = take_over n l (uw_state ?w)"
    using 4(3) by (auto simp: on_state_def Let_def maybe_record_unary_result_def is_units_preserving_unary_op_def)
  have "analysed (uw_state ?w) l"
    using 4 reports.take_over [of "length (unitsDiags (uw_state ?w))" "uw_state ?w" n l] unfolding st by (intro 4(1)) auto
  moreover have "state_ok (uw_state ?w)" using consistent.walk(1) [OF 4(2), of env l] by (simp add: consistent.W_def)
  ultimately show ?case unfolding st by (intro take_over_analysed) (auto simp: has_dimension_def)
next
  case (5 n t e)
  let ?w = "walk_expr_results env e w"
  have st: "uw_state (walk_expr_results env (Node n (AST_CAST_EXPRESSION t e)) w) = take_over n e (uw_state ?w)"
    by (simp add: on_state_def maybe_record_cast_result_def)
  have "analysed (uw_state ?w) e"
    using 5 reports.take_over [of "length (unitsDiags (uw_state ?w))" "uw_state ?w" n e] unfolding st by (intro 5(1)) auto
  moreover have "state_ok (uw_state ?w)" using consistent.walk(1) [OF 5(2), of env e] by (simp add: consistent.W_def)
  ultimately show ?case unfolding st by (intro take_over_analysed) (auto simp: has_dimension_def)
next
  case (6 n op l r)
  let ?w1 = "walk_expr_results env l w" let ?w2 = "walk_expr_results env r ?w1"
  let ?st = "maybe_record_binary_result n op l r (uw_state ?w2)"
  have st: "uw_state (walk_expr_results env (Node n (AST_BINARY_EXPRESSION op l r)) w) = ?st" by (simp add: on_state_def)
  have W: "consistent.W ?w1" "consistent.W ?w2" using 6(3) by (simp_all add: consistent.walk)
  have q: "quantity_expr l" "quantity_expr r" "is_quantity_op op" "set (expr_nodes l) \<inter> set (expr_nodes r) = {}" using 6(4,5) by auto
  have len: "length (unitsDiags (uw_state ?w2)) \<le> length (unitsDiags ?st)" by (rule reports.binary) simp
  have "length (unitsDiags (uw_state ?w1)) \<le> length (unitsDiags (uw_state ?w2))" "length (unitsDiags (uw_state w)) \<le> length (unitsDiags (uw_state ?w1))"
    by (rule walk_reports)+
  then have n: "length (unitsDiags (uw_state ?w1)) \<le> length (unitsDiags (uw_state w))"
    "length (unitsDiags (uw_state ?w2)) \<le> length (unitsDiags (uw_state ?w1))" "length (unitsDiags ?st) \<le> length (unitsDiags (uw_state ?w2))"
    using 6(7) len unfolding st by linarith+
  have "analysed (uw_state ?w1) l" using 6 W n q by (intro 6(1)) auto
  then have l: "analysed (uw_state ?w2) l" using q by (blast intro: analysed_after_walk)
  have "variable_dim (uw_state ?w1) = variable_dim (uw_state w)" by (rule same_tables_value(1) [OF walk_same_tables])
  then have r: "analysed (uw_state ?w2) r" using 6 W n q by (intro 6(2)) auto
  show ?case unfolding st by (rule binary_analysed) (use W(2) l r q n in \<open>simp_all add: consistent.W_def\<close>)
next
  case (7 n c t e)
  let ?w1 = "walk_expr_results env c w" let ?w2 = "walk_expr_results env t ?w1" let ?w3 = "walk_expr_results env e ?w2"
  let ?st = "maybe_record_ternary_result n t e (uw_state ?w3)"
  have st: "uw_state (walk_expr_results env (Node n (AST_TERNARY_EXPRESSION c t e)) w) = ?st" by (simp add: on_state_def)
  have W: "consistent.W ?w1" "consistent.W ?w2" "consistent.W ?w3" using 7(4) by (simp_all add: consistent.walk)
  have q: "quantity_expr c" "quantity_expr t" "quantity_expr e" "set (expr_nodes c) \<inter> set (expr_nodes t) = {}"
    "set (expr_nodes c) \<inter> set (expr_nodes e) = {}" "set (expr_nodes t) \<inter> set (expr_nodes e) = {}" using 7(5,6) by auto
  have len: "length (unitsDiags (uw_state ?w3)) \<le> length (unitsDiags ?st)" by (rule reports.ternary) simp
  have "length (unitsDiags (uw_state ?w2)) \<le> length (unitsDiags (uw_state ?w3))" "length (unitsDiags (uw_state ?w1)) \<le> length (unitsDiags (uw_state ?w2))"
    "length (unitsDiags (uw_state w)) \<le> length (unitsDiags (uw_state ?w1))"
    by (rule walk_reports)+
  then have n: "length (unitsDiags (uw_state ?w1)) \<le> length (unitsDiags (uw_state w))"
    "length (unitsDiags (uw_state ?w2)) \<le> length (unitsDiags (uw_state ?w1))" "length (unitsDiags (uw_state ?w3)) \<le> length (unitsDiags (uw_state ?w2))"
    "length (unitsDiags ?st) \<le> length (unitsDiags (uw_state ?w3))"
    using 7(8) len unfolding st by linarith+
  have v: "variable_dim (uw_state ?w1) = variable_dim (uw_state w)" "variable_dim (uw_state ?w2) = variable_dim (uw_state ?w1)"
    by (rule same_tables_value(1) [OF walk_same_tables])+
  have "analysed (uw_state ?w1) c" using 7 W n q by (intro 7(1)) auto
  then have c: "analysed (uw_state ?w3) c" using q by (blast intro: analysed_after_walk)
  have "analysed (uw_state ?w2) t" using 7 W n q v by (intro 7(2)) auto
  then have t: "analysed (uw_state ?w3) t" using q by (blast intro: analysed_after_walk)
  have e: "analysed (uw_state ?w3) e" using 7 W n q v by (intro 7(3)) auto
  show ?case unfolding st by (rule ternary_analysed) (use W(3) c t e n in \<open>simp_all add: consistent.W_def\<close>)
qed simp_all

text \<open>
  C36. Take an expression built from number and character literals, variables, signs, \<open>+ - * /\<close>, comparisons,
  conditionals and casts to floating types, whose variables all have a usable annotation and real values, in a state of
  the extension. If the analysis of the expression makes no report, it records a dimension for it, and the expression
  computes a quantity of that dimension: whatever positive factors scale the base units, its value over the rescaled
  variables is its value scaled by the product of the factors to the exponents recorded. Casts to integer types, \<open>%\<close>, the
  logical operators and the truncation of integer division are outside the statement.\<close>
theorem expression_without_report_scales_as_recorded:
  assumes "extension_state env st" "quantity_expr e" "distinct (expr_nodes e)"
    and "list_all (\<lambda>n. variable_dim st n \<noteq> None) (name_nodes e)"
    and "unitsDiags (fisics_units_run_expr_semantics env e st) = unitsDiags st"
  shows "\<exists>d u r. lookup_resolved_expr_metadata (fisics_units_run_expr_semantics env e st) e = Some (d, u, r) \<and> has_dimension st e d"
proof -
  let ?st = "fisics_extension_clear_units_expr_results st"
  let ?w = "\<lparr>uw_state = ?st, uw_aliases = [], uw_function = None\<rparr>"
  have run: "fisics_units_run_expr_semantics env e st = uw_state (walk_expr_results env e ?w)"
    using assms(2) by (cases e) (simp_all add: fisics_units_run_expr_semantics_def)
  have same: "same_tables st ?st" by (simp add: same_tables_def fisics_extension_clear_units_expr_results_def)
  have "state_ok ?st"
    using extension_state_ok [OF assms(1)] by (simp add: state_ok_def fisics_extension_clear_units_expr_results_def)
  then have "analysed (uw_state (walk_expr_results env e ?w)) e"
    using assms same_tables_value(1) [OF same] unfolding run
    by (intro quantity_analysed) (simp_all add: consistent.W_def fisics_extension_clear_units_expr_results_def)
  moreover have "has_dimension (uw_state (walk_expr_results env e ?w)) e d = has_dimension st e d" for d
    using same_tables_value(2) [OF walk_same_tables [of ?w env e]] same_tables_value(2) [OF same] by simp
  ultimately show ?thesis unfolding run analysed_def by blast
qed

section \<open>Examples\<close>

definition units_env :: UnitsEnv where
  "units_env =
    \<lparr>ue_node = (\<lambda>_. AST_NULL), ue_init = (\<lambda>_. INIT_NULL),
     ue_host = \<lparr>def_win64 = False, def_aarch64 = False, def_apple = False, def_x86_64 = True, def_riscv64 = False\<rparr>,
     ue_ctx = cc_create\<lparr>overlayFeatures := FISICS_OVERLAY_PHYSICS_UNITS\<rparr>, ue_scope = [], ue_depth = 1\<rparr>"

text \<open>A declaration \<open>double name\<close> with a dimension and a unit.\<close>

definition units_attribute :: "string \<Rightarrow> string \<Rightarrow> ASTAttribute" where
  "units_attribute kind text = \<lparr>at_syntax = SYNTAX_CXX, at_payload = Some (''fisics::'' @ kind @ ''('' @ text @ '')'')\<rparr>"

definition quantity_declaration :: "node \<Rightarrow> string \<Rightarrow> string \<Rightarrow> string \<Rightarrow> ASTNode" where
  "quantity_declaration n name dtext utext =
    Node n (AST_VARIABLE_DECLARATION
      (PT (zero_base\<lparr>pt_kind := TYPE_PRIMITIVE, pt_primitiveType := TOKEN_DOUBLE,
             pt_attributes := [units_attribute ''dim'' dtext, units_attribute ''unit'' utext]\<rparr>) [] [])
      None [Declarator (Node (n + 100) (AST_IDENTIFIER (Some name))) INIT_NULL] AST_NULL AST_NULL [])"

definition meter_unit :: FisicsUnitDef where
  "meter_unit = mk_unit ''meter'' ''m'' FAMILY_LENGTH [1, 0, 0, 0, 0, 0, 0, 0] (dlit 1) kMeterAliases"

definition kilometer_unit :: FisicsUnitDef where
  "kilometer_unit = mk_unit ''kilometer'' ''km'' FAMILY_LENGTH [1, 0, 0, 0, 0, 0, 0, 0] (dlit 1000) kKilometerAliases"

definition second_unit :: FisicsUnitDef where
  "second_unit = mk_unit ''second'' ''s'' FAMILY_TIME [0, 0, 1, 0, 0, 0, 0, 0] (dlit 1) kSecondAliases"

lemma units_registered:
  "fisics_unit_lookup (Some ''meter'') = Some meter_unit" "fisics_unit_lookup (Some ''kilometer'') = Some kilometer_unit"
  "fisics_unit_lookup (Some ''second'') = Some second_unit"
  unfolding lookup_iff meter_unit_def kilometer_unit_def second_unit_def all_units_def kUnitFamilies_def init_family_table_part1_def
    init_length_units_def init_length_units_head_def init_time_units_def
  by (simp_all add: unit_texts_def mk_unit_def)

lemma dims_read: "dim_of_text (Some ''m'') = Inr fisics_dim_length" "dim_of_text (Some ''s'') = Inr fisics_dim_time"
proof -
  have "mk_atom ''s'' ATOM_DIMENSION FAMILY_TIME [0, 0, 1, 0, 0, 0, 0, 0] \<in> set kDimAtoms" by (simp add: kDimAtoms_def)
  then have "parse_atom ''s'' = parse_power fisics_dim_time []"
    using parse_atom_name [of "''s''" _ "[]"] by (auto simp: mk_atom_def dim_values is_ident_char_def is_alpha_def)
  then show "dim_of_text (Some ''s'') = Inr fisics_dim_time"
    by (simp add: dim_of_text_def fisics_units_parse_dim_expr_def is_ws_def parse_dim_loop.simps parse_power_def combine_atom_def)
  show "dim_of_text (Some ''m'') = Inr fisics_dim_length"
    by (simp add: dim_of_text_def fisics_units_parse_dim_expr_def is_ws_def parse_dim_loop.simps parse_atom_m parse_power_def
        combine_atom_def)
qed

text \<open>The declarations of \<open>x\<close> in metres, \<open>y\<close> in kilometres and \<open>t\<close> in seconds, noted and resolved.\<close>

definition resolved_quantities :: FisicsExtensionState where
  "resolved_quantities =
    fisics_extension_run_semantic_scaffold units_env AST_NULL
     (fisics_extension_note_declaration (quantity_declaration 3 ''t'' ''s'' ''second'')
       (fisics_extension_note_declaration (quantity_declaration 2 ''y'' ''m'' ''kilometer'')
         (fisics_extension_note_declaration (quantity_declaration 1 ''x'' ''m'' ''meter'') empty_extension_state)))"

definition quantity_annotation :: "node \<Rightarrow> string \<Rightarrow> FisicsDim8 \<Rightarrow> string \<Rightarrow> FisicsUnitDef \<Rightarrow> FisicsUnitsAnnotation" where
  "quantity_annotation n dtext d utext u =
    \<lparr>an_node = n, an_declaratorIndex = 0, an_dimExprText = Some dtext, an_canonicalText = Some (fisics_dim_to_string d), an_dim = d,
     an_resolved = True, an_dimDuplicateCount = 1, an_unitExprText = Some utext, an_unitDef = Some u, an_unitResolved = True,
     an_unitDuplicateCount = 1\<rparr>"

lemma attribute_texts:
  "extract_cxx_attr_payload (Some (units_attribute ''dim'' text)) ''fisics::dim('' = Some text"
  "extract_cxx_attr_payload (Some (units_attribute ''unit'' text)) ''fisics::dim('' = None"
  "extract_cxx_attr_payload (Some (units_attribute ''unit'' text)) ''fisics::unit('' = Some text"
  by (simp_all add: extract_cxx_attr_payload_def units_attribute_def Let_def nth_append)

lemma find_annotation_snoc:
  "find_annotation as n i = None \<Longrightarrow> an_node a = n \<Longrightarrow> an_declaratorIndex a = i \<Longrightarrow> find_annotation (as @ [a]) n i = Some (length as)"
  by (induction as n i rule: find_annotation.induct) (auto split: if_splits)

lemma declaration_noted:
  "find_annotation (unitsAnnotations st) n 0 = None \<Longrightarrow>
    fisics_extension_note_declaration (quantity_declaration n name dtext utext) st =
    st\<lparr>unitsAnnotations := unitsAnnotations st @ [(new_annotation n 0)\<lparr>an_dimExprText := Some dtext, an_dimDuplicateCount := 1,
       an_unitExprText := Some utext, an_unitDuplicateCount := 1\<rparr>]\<rparr>"
  by (simp add: fisics_extension_note_declaration_def quantity_declaration_def declarator_attributes_def astVarDeclTypeAt_def
      fisics_units_dim_attribute_extract_def fisics_units_unit_attribute_extract_def attribute_texts note_units_dim_attr_def
      note_units_unit_attr_def ensure_units_annotation_def find_units_annotation_def find_annotation_snoc update_annotation_def
      new_annotation_def list_update_append)

lemma units_env_on: "units_enabled units_env" "diagnostic_owner units_env a = an_node a"
  by (simp_all add: units_enabled_def units_env_def cc_overlay_physics_units_enabled_def cc_has_overlay_feature_def
      FISICS_OVERLAY_PHYSICS_UNITS_def diagnostic_owner_def)

lemma unit_dims: "ud_dim meter_unit = fisics_dim_length" "ud_dim kilometer_unit = fisics_dim_length" "ud_dim second_unit = fisics_dim_time"
  by (simp_all add: meter_unit_def kilometer_unit_def second_unit_def mk_unit_def dim_values)

lemmas resolving_steps =
  run_units_decl_scaffold_def upt_rec [of 0] upt_rec [of 1] upt_rec [of 2] resolve_annotation_at_def Let_def units_env_on
  resolve_dim_step_def resolve_unit_step_def fisics_units_resolve_annotation_def fisics_units_resolve_unit_annotation_def
  dims_read units_registered unit_dims update_annotation_def quantity_annotation_def

lemma resolved_quantities_value:
  "resolved_quantities =
    empty_extension_state\<lparr>unitsAnnotations :=
      [quantity_annotation 1 ''m'' fisics_dim_length ''meter'' meter_unit,
       quantity_annotation 2 ''m'' fisics_dim_length ''kilometer'' kilometer_unit,
       quantity_annotation 3 ''s'' fisics_dim_time ''second'' second_unit]\<rparr>"
  by (simp add: resolved_quantities_def fisics_extension_run_semantic_scaffold_def fisics_units_run_expr_semantics_def
      declaration_noted empty_extension_state_def new_annotation_def resolving_steps)

text \<open>Nodes 11 and 14 read \<open>x\<close>, 12 reads \<open>y\<close> and 13 reads \<open>t\<close>.\<close>

definition bound_quantities :: FisicsExtensionState where
  "bound_quantities =
    fisics_extension_note_units_annotation_binding 14 0 (fisics_extension_note_units_annotation_binding 13 2
     (fisics_extension_note_units_annotation_binding 12 1 (fisics_extension_note_units_annotation_binding 11 0 resolved_quantities)))"

lemma bound_quantities_state: "extension_state units_env bound_quantities"
  unfolding bound_quantities_def resolved_quantities_def
  by (intro extension_state.annotation_binding extension_state.analysis extension_state.declared extension_state.start)

definition read_of :: "node \<Rightarrow> ASTNode" where
  "read_of n = Node n (AST_IDENTIFIER (Some (if n = 12 then ''y'' else if n = 13 then ''t'' else ''x'')))"

definition annotation_read :: "node \<Rightarrow> FisicsUnitsAnnotation" where
  "annotation_read n =
    (if n = 12 then quantity_annotation 2 ''m'' fisics_dim_length ''kilometer'' kilometer_unit
     else if n = 13 then quantity_annotation 3 ''s'' fisics_dim_time ''second'' second_unit
     else quantity_annotation 1 ''m'' fisics_dim_length ''meter'' meter_unit)"

lemma bound_annotations:
  assumes "same_tables bound_quantities st"
  shows "fisics_extension_lookup_units_annotation_binding st n = (if n \<in> {11, 12, 13, 14} then Some (annotation_read n) else None)"
  using assms
  by (simp add: same_tables_def bound_quantities_def fisics_extension_note_units_annotation_binding_def resolved_quantities_value
      empty_extension_state_def fisics_extension_lookup_units_annotation_binding_def find_binding_def
      fisics_extension_units_annotation_at_def annotation_read_def)

lemma annotation_read_usable: "annotation_usable (Some (annotation_read n))"
  by (simp add: annotation_usable_def annotation_read_def quantity_annotation_def)

lemma bound_reports: "unitsDiags bound_quantities = []" "unitsExprResults bound_quantities = []"
  by (simp_all add: bound_quantities_def fisics_extension_note_units_annotation_binding_def resolved_quantities_value empty_extension_state_def)

lemma name_recorded:
  assumes "same_tables bound_quantities st" "n \<in> {11, 12, 13, 14}"
  shows "record_identifier_result n st = set_result n (annotation_metadata (annotation_read n)) st"
  using bound_annotations [OF assms(1)] assms(2) annotation_read_usable by (simp add: record_identifier_result_def)

lemma same_tables_step [simp]:
  "same_tables bound_quantities (set_result n m st) \<longleftrightarrow> same_tables bound_quantities st"
  "same_tables bound_quantities (fisics_extension_clear_units_expr_results st) \<longleftrightarrow> same_tables bound_quantities st"
  "same_tables bound_quantities bound_quantities"
  by (cases m, simp_all add: same_tables_def set_result_def fisics_extension_set_units_expr_result_with_unit_def
      fisics_extension_clear_units_expr_results_def)

lemma set_result_diags [simp]: "unitsDiags (set_result n m st) = unitsDiags st" "unitsDiags (fisics_extension_clear_units_expr_results st) = unitsDiags st"
  by (cases m, simp_all add: set_result_def fisics_extension_set_units_expr_result_with_unit_def fisics_extension_clear_units_expr_results_def)

lemmas example_steps =
  fisics_units_run_expr_semantics_def on_state_def Let_def name_recorded annotation_metadata_def annotation_read_def
  quantity_annotation_def lookup_set_result maybe_record_binary_result_def is_units_add_sub_op_def is_units_mul_div_op_def
  record_product_def combine_dims_def product_unit_def fisics_dim_is_dimensionless_def dimensionless_from_iff

text \<open>\<open>x / t\<close> in metres and seconds.\<close>

definition speed_expr :: ASTNode where
  "speed_expr = Node 20 (AST_BINARY_EXPRESSION (Some ''/'') (read_of 11) (read_of 13))"

lemma example_dims:
  "fisics_dim_sub fisics_dim_length fisics_dim_time = Some fisics_dim_velocity"
  "fisics_dim_sub fisics_dim_length fisics_dim_length = Some fisics_dim_zero"
  "fisics_dim_add fisics_dim_zero fisics_dim_length = Some fisics_dim_length"
  by (simp_all add: fisics_dim_sub_def fisics_dim_add_def upt_dim dim_values fisics_dim_zero_def FISICS_DIM_COUNT_def checked_cast_i8_def
      eval_nat_numeral)

lemma speed_analysed: "unitsDiags (fisics_units_run_expr_semantics units_env speed_expr bound_quantities) = []"
  by (simp add: speed_expr_def read_of_def example_steps example_dims bound_reports)

theorem expression_without_report_scales_as_recorded_witness:
  "\<exists>d u r. lookup_resolved_expr_metadata (fisics_units_run_expr_semantics units_env speed_expr bound_quantities) speed_expr = Some (d, u, r) \<and>
    has_dimension bound_quantities speed_expr d"
  by (rule expression_without_report_scales_as_recorded [OF bound_quantities_state])
    (simp_all add: speed_analysed bound_reports, simp_all add: speed_expr_def read_of_def is_quantity_op_def is_units_mul_div_op_def
      variable_dim_def bound_annotations annotation_read_usable)

definition single_result :: FisicsUnitsExprResult where
  "single_result = \<lparr>er_node = 11, er_dim = fisics_dim_length, er_resolved = True, er_unitDef = Some meter_unit, er_unitResolved = True\<rparr>"

lemma bound_quantities_resolved: "run_units_decl_scaffold units_env bound_quantities = bound_quantities"
  by (simp add: bound_quantities_def fisics_extension_note_units_annotation_binding_def resolved_quantities_value
      empty_extension_state_def resolving_steps)

theorem recorded_units_have_recorded_dimension_witness:
  "dim_ok (er_dim single_result) \<and> (\<exists>v. er_unitDef single_result = Some v \<and> ud_dim v = er_dim single_result)"
proof -
  let ?st = "fisics_extension_run_semantic_scaffold units_env (read_of 11) bound_quantities"
  have reached: "extension_state units_env ?st" by (intro extension_state.analysis bound_quantities_state)
  have "?st = set_result 11 (fisics_dim_length, Some meter_unit, True) (fisics_extension_clear_units_expr_results bound_quantities)"
    by (simp add: fisics_extension_run_semantic_scaffold_def bound_quantities_resolved read_of_def example_steps)
  then have recorded: "single_result \<in> set (unitsExprResults ?st)"
    by (simp add: set_result_def fisics_extension_set_units_expr_result_with_unit_def fisics_extension_clear_units_expr_results_def
        single_result_def)
  have "er_resolved single_result" "er_unitResolved single_result" by (simp_all add: single_result_def)
  then show ?thesis using recorded_units_have_recorded_dimension [OF reached recorded] by blast
qed

section \<open>Faults\<close>

text \<open>\<open>x / y * x\<close> with \<open>x\<close> in metres and \<open>y\<close> in kilometres.\<close>

definition ratio_expr :: ASTNode where
  "ratio_expr = Node 21 (AST_BINARY_EXPRESSION (Some ''*'')
     (Node 20 (AST_BINARY_EXPRESSION (Some ''/'') (read_of 11) (read_of 12))) (read_of 14))"

text \<open>
  A quotient of two lengths in different units is dimensionless, and a product with a dimensionless operand keeps the unit
  of the other: the analysis accepts the expression without a report and records it as a length in metres. With all three
  variables 1, the value computed is 1, while a metre divided by a kilometre and multiplied by a metre is a
  thousandth of a metre.\<close>
theorem quotient_of_units_loses_factor:
  "(let st = fisics_units_run_expr_semantics units_env ratio_expr bound_quantities in
    unitsDiags st = [] \<and> lookup_resolved_expr_metadata st ratio_expr = Some (fisics_dim_length, Some meter_unit, True)) \<and>
   quantity_value (\<lambda>_. 0) (\<lambda>_. 1) ratio_expr = 1 \<and>
   quantity_value (\<lambda>_. 0) (\<lambda>n. if n = 12 then 1000 else 1) ratio_expr = 1 / 1000"
  by (simp add: ratio_expr_def read_of_def example_steps example_dims bound_reports operator_value_def)

text \<open>\<open>double *p = &x; { double *p = &t; } *p = t;\<close>, with and without the inner block.\<close>

definition pointer_declaration :: "node \<Rightarrow> node \<Rightarrow> ASTNode" where
  "pointer_declaration n v =
    Node n (AST_VARIABLE_DECLARATION (PT (zero_base\<lparr>pt_kind := TYPE_PRIMITIVE, pt_primitiveType := TOKEN_DOUBLE, pt_pointerDepth := 1\<rparr>)
        [DPointer no_qual] []) None
      [Declarator (Node (n + 1) (AST_IDENTIFIER (Some ''p'')))
         (Init None AST_NULL (Node (n + 2) (AST_UNARY_EXPRESSION (Some ''&'') (read_of v) AST_NULL)))] AST_NULL AST_NULL [])"

definition store_through_pointer :: ASTNode where
  "store_through_pointer = Node 40 (AST_ASSIGNMENT (Some ''='')
     (Node 41 (AST_POINTER_DEREFERENCE (Node 42 (AST_IDENTIFIER (Some ''p''))))) (read_of 13))"

definition store_program :: "bool \<Rightarrow> ASTNode" where
  "store_program shadowed =
    Node 50 (AST_BLOCK (pointer_declaration 51 11 # (if shadowed then [Node 54 (AST_BLOCK [pointer_declaration 55 13])] else []) @
      [store_through_pointer]))"

lemma nothing_bound:
  assumes "same_tables bound_quantities st"
  shows "fisics_extension_lookup_units_symbol_type_binding st n = None"
    and "fisics_extension_lookup_units_symbol_initializer_binding env st n = INIT_NULL"
    and "n \<notin> {1, 2, 3} \<Longrightarrow> fisics_extension_lookup_units_declarator_annotation st (Some n) i = None"
  using assms
  by (auto simp: same_tables_def bound_quantities_def fisics_extension_note_units_annotation_binding_def resolved_quantities_value
      empty_extension_state_def fisics_extension_lookup_units_symbol_type_binding_def find_binding_def
      fisics_extension_lookup_units_symbol_initializer_binding_def fisics_extension_lookup_units_declarator_annotation_def quantity_annotation_def)

lemma annotation_read_concrete: "units_annotation_is_concrete (Some (annotation_read n))"
  by (simp add: units_annotation_is_concrete_def annotation_read_def quantity_annotation_def)

lemma address_of_quantity:
  assumes "same_tables bound_quantities (uw_state w)" "n \<in> {11, 12, 13, 14}"
  shows "lookup_address_target_units_annotation 17 env w (Node k (AST_UNARY_EXPRESSION (Some ''&'') (read_of n) r)) = Some (annotation_read n)"
  using bound_annotations [OF assms(1)] assms(2) annotation_read_concrete
  by (simp add: eval_nat_numeral read_of_def Let_def)

lemma pointed_to:
  assumes "same_tables bound_quantities (uw_state w)" "lookup_units_pointer_alias w (Some ''p'') = Some (annotation_read n)"
  shows "lookup_assignment_lvalue_units_annotation 17 env w (Node 41 (AST_POINTER_DEREFERENCE (Node 42 (AST_IDENTIFIER (Some ''p''))))) =
    Some (annotation_read n)"
  using bound_annotations [OF assms(1)] assms(2) annotation_read_concrete [of n]
  by (simp add: eval_nat_numeral units_annotation_is_concrete_def [of None] Let_def)

lemma walk_read:
  assumes "same_tables bound_quantities (uw_state w)" "n \<in> {11, 12, 13, 14}"
  shows "walk_expr_results env (read_of n) w = on_state (set_result n (annotation_metadata (annotation_read n))) w"
  using name_recorded [OF assms] by (simp add: read_of_def on_state_def)

lemma pointer_declared:
  assumes "same_tables bound_quantities (uw_state w)" "n \<in> {51, 55}" "v \<in> {11, 13}"
  shows "walk_expr_results env (pointer_declaration n v) w =
    remember_units_pointer_alias (Some ''p'') (Some (annotation_read v))
      (on_state (set_result v (annotation_metadata (annotation_read v))) w)"
proof -
  let ?w = "on_state (set_result v (annotation_metadata (annotation_read v))) w"
  have r: "walk_expr_results env (read_of v) w = ?w" by (rule walk_read) (use assms in auto)
  have same: "same_tables bound_quantities (uw_state ?w)" using assms(1) by (simp add: on_state_def)
  have a: "lookup_address_target_units_annotation 17 env ?w (Node (n + 2) (AST_UNARY_EXPRESSION (Some ''&'') (read_of v) AST_NULL)) =
      Some (annotation_read v)"
    by (rule address_of_quantity) (use same assms in auto)
  have i: "validate_initializer 0 n 0 True e (uw_state ?w) = uw_state ?w" for e
    using assms(2) nothing_bound(3) [OF same, of n] by (cases e) auto
  have k: "on_state (validate_declared_aggregate env t (Init None AST_NULL (Node (n + 2) (AST_UNARY_EXPRESSION (Some ''&'') x AST_NULL)))) w'
      = w'" for t x w'
    by (simp add: on_state_def validate_declared_aggregate_def split: option.split)
  show ?thesis
    using a k [of "Some _"]
    by (simp add: pointer_declaration_def r i maybe_record_unary_result_def is_units_preserving_unary_op_def Let_def
        maybe_remember_units_pointer_alias_def fisics_units_validate_declarator_initializer_def astVarDeclTypeAt_def
        on_state_def [of "\<lambda>st. st"] on_state_def [of "fisics_units_validate_declarator_initializer _ _ _"] del: validate_initializer.simps)
qed

lemma store_walked:
  assumes "same_tables bound_quantities (uw_state w)" "lookup_units_pointer_alias w (Some ''p'') = Some (annotation_read v)" "v \<in> {11, 13}"
    "lookup_resolved_expr_metadata (uw_state w) (Node 41 (AST_POINTER_DEREFERENCE (Node 42 (AST_IDENTIFIER (Some ''p''))))) = None"
  shows "unitsDiags (uw_state (walk_expr_results env store_through_pointer w)) =
    unitsDiags (uw_state w) @ (if v = 11 then [AssignDimMismatch 40 fisics_dim_length fisics_dim_time] else [])"
proof -
  let ?target = "Node 41 (AST_POINTER_DEREFERENCE (Node 42 (AST_IDENTIFIER (Some ''p''))))"
  have "walk_expr_results env ?target w = w"
    using bound_annotations [OF assms(1), of 42] nothing_bound(1) [OF assms(1), of 41]
    by (simp add: on_state_def record_identifier_result_def fisics_units_record_access_result_def fisics_units_parse_type_contract_def)
  moreover define w' where "w' = on_state (set_result 13 (annotation_metadata (annotation_read 13))) w"
  ultimately have walk: "walk_expr_results env store_through_pointer w =
      w'\<lparr>uw_state := maybe_record_assignment_result env 40 (Some ''='') ?target (read_of 13) w'\<rparr>"
    using walk_read [OF assms(1), of 13] by (simp add: store_through_pointer_def Let_def)
  have same: "same_tables bound_quantities (uw_state w')" using assms(1) by (simp add: w'_def on_state_def)
  have "uw_aliases w' = uw_aliases w" by (simp add: w'_def on_state_def)
  then have "lookup_units_pointer_alias w' (Some ''p'') = Some (annotation_read v)"
    using assms(2) unfolding lookup_units_pointer_alias_def by (simp only:)
  then have "lookup_assignment_lvalue_units_annotation 17 env w' ?target = Some (annotation_read v)" by (rule pointed_to [OF same])
  moreover have "lookup_resolved_expr_metadata (uw_state w') ?target = None"
    using assms(4) by (simp add: w'_def on_state_def lookup_set_other)
  ultimately have t: "target_metadata env w' ?target = Some (an_dim (annotation_read v), an_unitDef (annotation_read v), True)"
    by (simp add: target_metadata_def fill_units_from_lvalue_annotation_def annotation_read_concrete)
  have e: "lookup_resolved_expr_metadata (uw_state w') (read_of 13) = Some (fisics_dim_time, Some second_unit, True)"
    by (simp add: w'_def on_state_def read_of_def annotation_metadata_def annotation_read_def quantity_annotation_def lookup_set_result)
  have d: "unitsDiags (uw_state w') = unitsDiags (uw_state w)" by (simp add: w'_def on_state_def)
  have ne: "\<not> fisics_dim_equal fisics_dim_length fisics_dim_time"
    by (simp add: fisics_dim_equal_def upt_dim dim_values)
  have l: "\<not> fisics_units_is_literal_value (read_of 13)" by (simp add: fisics_units_is_literal_value_def read_of_def)
  show ?thesis
    using assms(3) unfolding walk
    by (auto simp: maybe_record_assignment_result_def Let_def t e record_plain_assignment_def l annotation_read_def
        quantity_annotation_def ne units_resolved_and_different_def keep_target_def add_diag_def d)
qed

lemma lookup_cleared: "lookup_resolved_expr_metadata (fisics_extension_clear_units_expr_results st) e = None"
  by (simp add: lookup_resolved_expr_metadata_def fisics_extension_lookup_units_expr_result_def fisics_extension_clear_units_expr_results_def
      split: ASTNode.split)

text \<open>
  What a pointer points to is remembered by the name of the pointer alone. A time stored through a pointer to a length is
  reported; with another pointer of the same name declared in a block before it, which ends before the store, it is not.\<close>
theorem inner_pointer_hides_mismatch:
  "unitsDiags (fisics_units_run_expr_semantics units_env (store_program False) bound_quantities) =
     [AssignDimMismatch 40 fisics_dim_length fisics_dim_time] \<and>
   unitsDiags (fisics_units_run_expr_semantics units_env (store_program True) bound_quantities) = []"
  by (simp add: store_program_def fisics_units_run_expr_semantics_def pointer_declared remember_units_pointer_alias_def is_named_def
      annotation_read_concrete on_state_def store_walked [of _ 11] store_walked [of _ 13] lookup_units_pointer_alias_def
      UNITS_POINTER_ALIAS_MAX_def lookup_set_other lookup_cleared bound_reports)

end
