(* ===== verification/Goto_Scopes.thy ===== *)
theory Goto_Scopes
  imports Parsed_Type
begin

text \<open>
  The check of \<open>goto\<close> statements, \<open>src/src/Syntax/analyze_stmt_goto.c\<close>. One walk over the body of a function
  collects its blocks, with the statements that declare identifiers of variably modified type, its labels and its
  jumps; then each jump is checked against its label. The tables are lists, without their capacities. A fresh entry
  of the block table keeps what the memory held at its field \<open>entryHasVLA\<close>: \<open>raw\<close> gives that value for each position of
  the table. A report is a value with the ranges of the jump and the name of the label.
\<close>

section \<open>Nodes and tables\<close>

record NodeRanges =
  nr_location :: SourceRange
  nr_macroCallSite :: SourceRange
  nr_macroDefinition :: SourceRange

text \<open>A block has an address. A variable declaration has its type, the types of its variables if present, and their count.\<close>

datatype ASTNode =
    AST_NULL
  | AST_BLOCK nat "ASTNode list"
  | AST_VARIABLE_DECLARATION ParsedType "ParsedType list option" nat
  | AST_TYPEDEF ParsedType
  | AST_IF_STATEMENT ASTNode ASTNode
  | AST_FOR_LOOP ASTNode ASTNode
  | AST_WHILE_LOOP ASTNode
  | AST_SWITCH "ASTNode list"
  | AST_CASE "ASTNode list" ASTNode
  | AST_LABEL_DECLARATION NodeRanges cstr ASTNode
  | AST_GOTO_STATEMENT NodeRanges cstr
  | AST_OTHER

record BlockInitInfo =
  bi_block :: nat
  bi_parent :: "nat option"
  bi_initIndices :: "nat list"
  bi_vlaIndices :: "nat list"
  bi_entryHasVLA :: bool

record LabelInfo =
  li_name :: string
  li_block :: nat
  li_index :: nat
  li_ranges :: NodeRanges
  li_directBlockStatement :: bool

record GotoInfo =
  gi_name :: string
  gi_block :: nat
  gi_index :: nat
  gi_ranges :: NodeRanges
  gi_directBlockStatement :: bool

record GotoTables =
  gt_blocks :: "BlockInitInfo list"
  gt_labels :: "LabelInfo list"
  gt_gotos :: "GotoInfo list"

datatype goto_error = Undefined_label NodeRanges string | Jump_into_scope NodeRanges string

definition blockInitInfoAdd :: "(nat \<Rightarrow> bool) \<Rightarrow> nat \<Rightarrow> nat option \<Rightarrow> GotoTables \<Rightarrow> GotoTables" where
  "blockInitInfoAdd raw block parent st =
    st\<lparr>gt_blocks := gt_blocks st @
      [\<lparr>bi_block = block, bi_parent = parent, bi_initIndices = [], bi_vlaIndices = [],
        bi_entryHasVLA = raw (length (gt_blocks st))\<rparr>]\<rparr>"

definition blockInitInfoAddIndex :: "nat \<Rightarrow> BlockInitInfo \<Rightarrow> BlockInitInfo" where
  "blockInitInfoAddIndex index info = info\<lparr>bi_initIndices := bi_initIndices info @ [index]\<rparr>"

definition blockInitInfoAddVLAIndex :: "nat \<Rightarrow> BlockInitInfo \<Rightarrow> BlockInitInfo" where
  "blockInitInfoAddVLAIndex index info = info\<lparr>bi_vlaIndices := bi_vlaIndices info @ [index]\<rparr>"

definition blockInitInfoFind :: "BlockInitInfo list \<Rightarrow> nat \<Rightarrow> BlockInitInfo option" where
  "blockInitInfoFind list block = List.find (\<lambda>info. bi_block info = block) list"

text \<open>A change of the entry the search finds, through the pointer it returns.\<close>

fun update_found :: "nat \<Rightarrow> (BlockInitInfo \<Rightarrow> BlockInitInfo) \<Rightarrow> BlockInitInfo list \<Rightarrow> BlockInitInfo list" where
  "update_found block f [] = []"
| "update_found block f (info # list) =
    (if bi_block info = block then f info # list else info # update_found block f list)"

definition note_vla_index :: "nat \<Rightarrow> BlockInitInfo \<Rightarrow> BlockInitInfo" where
  "note_vla_index index info = blockInitInfoAddVLAIndex index (blockInitInfoAddIndex index info)"

definition labelInfoAdd :: "cstr \<Rightarrow> nat \<Rightarrow> nat \<Rightarrow> NodeRanges \<Rightarrow> bool \<Rightarrow> GotoTables \<Rightarrow> GotoTables" where
  "labelInfoAdd name block index ranges direct st =
    (case name of
       None \<Rightarrow> st
     | Some s \<Rightarrow> st\<lparr>gt_labels := gt_labels st @
         [\<lparr>li_name = s, li_block = block, li_index = index, li_ranges = ranges, li_directBlockStatement = direct\<rparr>]\<rparr>)"

definition gotoInfoAdd :: "cstr \<Rightarrow> nat \<Rightarrow> nat \<Rightarrow> NodeRanges \<Rightarrow> bool \<Rightarrow> GotoTables \<Rightarrow> GotoTables" where
  "gotoInfoAdd name block index ranges direct st =
    (case name of
       None \<Rightarrow> st
     | Some s \<Rightarrow> st\<lparr>gt_gotos := gt_gotos st @
         [\<lparr>gi_name = s, gi_block = block, gi_index = index, gi_ranges = ranges, gi_directBlockStatement = direct\<rparr>]\<rparr>)"

section \<open>Collection\<close>

definition astVarDeclTypeAt :: "ParsedType \<Rightarrow> ParsedType list option \<Rightarrow> nat \<Rightarrow> nat \<Rightarrow> ParsedType" where
  "astVarDeclTypeAt declaredType declaredTypes varCount index =
    (case declaredTypes of
       Some ts \<Rightarrow> if index < varCount then ts ! index else declaredType
     | None \<Rightarrow> declaredType)"

definition varDeclHasVLA :: "ASTNode \<Rightarrow> bool" where
  "varDeclHasVLA node =
    (case node of
       AST_VARIABLE_DECLARATION declaredType declaredTypes varCount \<Rightarrow>
         list_ex (\<lambda>i. let t = astVarDeclTypeAt declaredType declaredTypes varCount i
           in pt_isVLA (pt_base t) \<or> parsedTypeHasVLA t \<or>
              list_ex (\<lambda>d. case d of DArray a \<Rightarrow> ai_isVLA a | _ \<Rightarrow> False) (pt_derivations t)) [0..<varCount]
     | _ \<Rightarrow> False)"

definition introduces_vla :: "ASTNode \<Rightarrow> bool" where
  "introduces_vla node \<longleftrightarrow>
    varDeclHasVLA node \<or> (case node of AST_TYPEDEF t \<Rightarrow> pt_isVLA (pt_base t) \<or> parsedTypeHasVLA t | _ \<Rightarrow> False)"

definition enter_body :: "ASTNode \<Rightarrow> GotoTables \<Rightarrow> GotoTables" where
  "enter_body body st =
    (case body of
       AST_BLOCK b ss \<Rightarrow> st\<lparr>gt_blocks := update_found b (\<lambda>info. info\<lparr>bi_entryHasVLA := True\<rparr>) (gt_blocks st)\<rparr>
     | _ \<Rightarrow> st)"

definition note_statement :: "nat \<Rightarrow> nat \<Rightarrow> ASTNode \<Rightarrow> GotoTables \<Rightarrow> GotoTables" where
  "note_statement blockIndex i stmt st =
    (if introduces_vla stmt
     then st\<lparr>gt_blocks := (gt_blocks st)[blockIndex := note_vla_index i (gt_blocks st ! blockIndex)]\<rparr>
     else st)"

text \<open>
  The four functions are the collection of a block, of the statements of a block from a position on, of a statement,
  and of the statements of a list within one statement of a block.
\<close>

function collectGotoInfoFromBlock :: "(nat \<Rightarrow> bool) \<Rightarrow> ASTNode \<Rightarrow> nat option \<Rightarrow> GotoTables \<Rightarrow> GotoTables"
  and collect_block_statements :: "(nat \<Rightarrow> bool) \<Rightarrow> nat \<Rightarrow> nat \<Rightarrow> nat \<Rightarrow> ASTNode list \<Rightarrow> GotoTables \<Rightarrow> GotoTables"
  and collectGotoInfoFromStatement :: "(nat \<Rightarrow> bool) \<Rightarrow> ASTNode \<Rightarrow> nat \<Rightarrow> nat \<Rightarrow> bool \<Rightarrow> GotoTables \<Rightarrow> GotoTables"
  and collect_nested :: "(nat \<Rightarrow> bool) \<Rightarrow> ASTNode list \<Rightarrow> nat \<Rightarrow> nat \<Rightarrow> GotoTables \<Rightarrow> GotoTables" where
  "collectGotoInfoFromBlock raw node parent st =
    (case node of
       AST_BLOCK b ss \<Rightarrow> collect_block_statements raw b (length (gt_blocks st)) 0 ss (blockInitInfoAdd raw b parent st)
     | _ \<Rightarrow> st)"
| "collect_block_statements raw b blockIndex i ss st =
    (case ss of
       [] \<Rightarrow> st
     | s # rest \<Rightarrow> collect_block_statements raw b blockIndex (Suc i) rest
         (collectGotoInfoFromStatement raw s b i True (note_statement blockIndex i s st)))"
| "collectGotoInfoFromStatement raw stmt cur i direct st =
    (case stmt of
       AST_BLOCK b ss \<Rightarrow> collectGotoInfoFromBlock raw stmt (Some cur) st
     | AST_IF_STATEMENT t e \<Rightarrow>
         collectGotoInfoFromStatement raw e cur i False (collectGotoInfoFromStatement raw t cur i False st)
     | AST_FOR_LOOP initializer body \<Rightarrow>
         (let st1 = (if introduces_vla initializer
                     then st\<lparr>gt_blocks := update_found cur (note_vla_index i) (gt_blocks st)\<rparr> else st);
              st2 = collectGotoInfoFromStatement raw body cur i False st1
          in if introduces_vla initializer then enter_body body st2 else st2)
     | AST_WHILE_LOOP body \<Rightarrow> collectGotoInfoFromStatement raw body cur i False st
     | AST_SWITCH cases \<Rightarrow> collect_nested raw cases cur i st
     | AST_CASE body nextCase \<Rightarrow>
         collectGotoInfoFromStatement raw nextCase cur i False (collect_nested raw body cur i st)
     | AST_LABEL_DECLARATION ranges name s \<Rightarrow>
         collectGotoInfoFromStatement raw s cur i False (labelInfoAdd name cur i ranges direct st)
     | AST_GOTO_STATEMENT ranges name \<Rightarrow> gotoInfoAdd name cur i ranges direct st
     | _ \<Rightarrow> st)"
| "collect_nested raw ss cur i st =
    (case ss of
       [] \<Rightarrow> st
     | s # rest \<Rightarrow> collect_nested raw rest cur i (collectGotoInfoFromStatement raw s cur i False st))"
  by pat_completeness auto
termination
  by (relation "measure (\<lambda>x. case x of
      Inl (Inl (raw, n, p, st)) \<Rightarrow> 2 * size n
    | Inl (Inr (raw, b, k, i, ss, st)) \<Rightarrow> 2 * size_list size ss
    | Inr (Inl (raw, n, cur, i, d, st)) \<Rightarrow> 2 * size n + 1
    | Inr (Inr (raw, ss, cur, i, st)) \<Rightarrow> 2 * size_list size ss)") auto

declare collectGotoInfoFromBlock.simps [simp del] collect_block_statements.simps [simp del]
  collectGotoInfoFromStatement.simps [simp del] collect_nested.simps [simp del]

section \<open>The check\<close>

definition blockHasInitBetween :: "BlockInitInfo option \<Rightarrow> nat \<Rightarrow> nat \<Rightarrow> bool" where
  "blockHasInitBetween info start end_index =
    (case info of None \<Rightarrow> False | Some b \<Rightarrow> list_ex (\<lambda>idx. start < idx \<and> idx \<le> end_index) (bi_initIndices b))"

definition blockHasInitBefore :: "BlockInitInfo option \<Rightarrow> nat \<Rightarrow> bool" where
  "blockHasInitBefore info end_index =
    (case info of None \<Rightarrow> False | Some b \<Rightarrow> list_ex (\<lambda>idx. idx < end_index) (bi_initIndices b))"

definition blockHasVLABefore :: "BlockInitInfo option \<Rightarrow> nat \<Rightarrow> bool" where
  "blockHasVLABefore info end_index =
    (case info of None \<Rightarrow> False | Some b \<Rightarrow> list_ex (\<lambda>idx. idx < end_index) (bi_vlaIndices b))"

text \<open>The two loops climb from a block to its ancestors; on a table whose parents form a cycle they do not return.\<close>

partial_function (option) blockIsDescendant :: "BlockInitInfo list \<Rightarrow> nat option \<Rightarrow> nat \<Rightarrow> bool option" where
  "blockIsDescendant list current ancestor =
    (case current of
       None \<Rightarrow> Some False
     | Some c \<Rightarrow>
         if c = ancestor then Some True
         else blockIsDescendant list (Option.bind (blockInitInfoFind list c) bi_parent) ancestor)"

partial_function (option) blockPathEntersVLA :: "BlockInitInfo list \<Rightarrow> nat option \<Rightarrow> nat \<Rightarrow> bool option" where
  "blockPathEntersVLA list current ancestor =
    (case current of
       None \<Rightarrow> Some False
     | Some c \<Rightarrow>
         if c = ancestor then Some False
         else (case blockInitInfoFind list c of
             None \<Rightarrow> Some False
           | Some info \<Rightarrow> if bi_entryHasVLA info then Some True else blockPathEntersVLA list (bi_parent info) ancestor))"

definition enters_scope :: "BlockInitInfo list \<Rightarrow> LabelInfo \<Rightarrow> nat \<Rightarrow> bool option" where
  "enters_scope blocks label block =
    (let info = blockInitInfoFind blocks (li_block label)
     in Option.bind (blockPathEntersVLA blocks (Some (li_block label)) block) (\<lambda>enters.
        Some (enters \<or>
          (li_directBlockStatement label \<and> blockHasInitBefore info (li_index label)) \<or>
          (\<not> li_directBlockStatement label \<and> blockHasVLABefore info (li_index label)))))"

definition check_goto :: "GotoTables \<Rightarrow> GotoInfo \<Rightarrow> goto_error list option" where
  "check_goto st gt =
    (case List.find (\<lambda>l. li_name l = gi_name gt) (gt_labels st) of
       None \<Rightarrow> Some [Undefined_label (gi_ranges gt) (gi_name gt)]
     | Some label \<Rightarrow>
         if li_block label = gi_block gt
         then Some (if gi_index gt < li_index label \<and>
               blockHasInitBetween (blockInitInfoFind (gt_blocks st) (li_block label)) (gi_index gt) (li_index label)
             then [Jump_into_scope (gi_ranges gt) (gi_name gt)] else [])
         else Option.bind (blockIsDescendant (gt_blocks st) (Some (li_block label)) (gi_block gt)) (\<lambda>inside.
           if \<not> inside then Some []
           else map_option (\<lambda>enters. if enters then [Jump_into_scope (gi_ranges gt) (gi_name gt)] else [])
             (enters_scope (gt_blocks st) label (gi_block gt))))"

fun check_gotos :: "GotoTables \<Rightarrow> GotoInfo list \<Rightarrow> goto_error list option" where
  "check_gotos st [] = Some []"
| "check_gotos st (gt # gts) =
    Option.bind (check_goto st gt) (\<lambda>errors. map_option (\<lambda>more. errors @ more) (check_gotos st gts))"

definition validateGotoScopes :: "(nat \<Rightarrow> bool) \<Rightarrow> ASTNode \<Rightarrow> goto_error list option" where
  "validateGotoScopes raw node =
    (case node of
       AST_BLOCK b ss \<Rightarrow>
         (let st = collectGotoInfoFromBlock raw node None \<lparr>gt_blocks = [], gt_labels = [], gt_gotos = []\<rparr>
          in check_gotos st (gt_gotos st))
     | _ \<Rightarrow> Some [])"

end
