(* ===== verification/Goto_Scopes_Props.thy ===== *)
theory Goto_Scopes_Props
  imports Goto_Scopes
begin

text \<open>
  The check of jumps against the rule of C that a jump does not enter the scope of an identifier of variably modified
  type. The reference is a walk that carries the declarations in scope. It applies to bodies in which such declarations
  are statements of blocks; what the code does with the others, and which jumps it misses, is shown at the end.
\<close>

section \<open>Reference\<close>

text \<open>
  A declaration is named by its block and its position there. A place of a label or a jump has the block around it, the
  position of the statement of that block that holds it, and the declarations in scope there.
\<close>

record jump_place =
  jp_name :: string
  jp_ranges :: NodeRanges
  jp_block :: nat
  jp_index :: nat
  jp_direct :: bool
  jp_scope :: "(nat \<times> nat) list"

definition place :: "cstr \<Rightarrow> NodeRanges \<Rightarrow> nat \<Rightarrow> nat \<Rightarrow> bool \<Rightarrow> (nat \<times> nat) list \<Rightarrow> jump_place list" where
  "place name ranges b i direct sc =
    (case name of
       None \<Rightarrow> []
     | Some s \<Rightarrow> [\<lparr>jp_name = s, jp_ranges = ranges, jp_block = b, jp_index = i, jp_direct = direct, jp_scope = sc\<rparr>])"

text \<open>The places of a statement: first component the labels, second the jumps, in the order of the source.\<close>

type_synonym places = "jump_place list \<times> jump_place list"

definition join :: "places \<Rightarrow> places \<Rightarrow> places" where
  "join p q = (fst p @ fst q, snd p @ snd q)"

fun places_in :: "nat \<Rightarrow> nat \<Rightarrow> bool \<Rightarrow> (nat \<times> nat) list \<Rightarrow> ASTNode \<Rightarrow> places"
  and places_in_block :: "nat \<Rightarrow> nat \<Rightarrow> (nat \<times> nat) list \<Rightarrow> ASTNode list \<Rightarrow> places"
  and places_in_list :: "nat \<Rightarrow> nat \<Rightarrow> (nat \<times> nat) list \<Rightarrow> ASTNode list \<Rightarrow> places" where
  "places_in cur i direct sc (AST_BLOCK b ss) = places_in_block b 0 sc ss"
| "places_in cur i direct sc (AST_IF_STATEMENT t e) = join (places_in cur i False sc t) (places_in cur i False sc e)"
| "places_in cur i direct sc (AST_FOR_LOOP initializer body) = places_in cur i False sc body"
| "places_in cur i direct sc (AST_WHILE_LOOP body) = places_in cur i False sc body"
| "places_in cur i direct sc (AST_SWITCH cases) = places_in_list cur i sc cases"
| "places_in cur i direct sc (AST_CASE body nextCase) =
    join (places_in_list cur i sc body) (places_in cur i False sc nextCase)"
| "places_in cur i direct sc (AST_LABEL_DECLARATION ranges name s) =
    join (place name ranges cur i direct sc, []) (places_in cur i False sc s)"
| "places_in cur i direct sc (AST_GOTO_STATEMENT ranges name) = ([], place name ranges cur i direct sc)"
| "places_in cur i direct sc _ = ([], [])"
| "places_in_block b i sc [] = ([], [])"
| "places_in_block b i sc (s # ss) =
    join (places_in b i True sc s) (places_in_block b (Suc i) (if introduces_vla s then sc @ [(b, i)] else sc) ss)"
| "places_in_list cur i sc [] = ([], [])"
| "places_in_list cur i sc (s # ss) = join (places_in cur i False sc s) (places_in_list cur i sc ss)"

definition body_places :: "ASTNode \<Rightarrow> places" where
  "body_places node = (case node of AST_BLOCK b ss \<Rightarrow> places_in_block b 0 [] ss | _ \<Rightarrow> ([], []))"

text \<open>The declarations of variably modified type are statements of blocks.\<close>

fun plain :: "ASTNode \<Rightarrow> bool" where
  "plain (AST_BLOCK b ss) \<longleftrightarrow> (\<forall>s \<in> set ss. introduces_vla s \<or> plain s)"
| "plain (AST_IF_STATEMENT t e) \<longleftrightarrow> plain t \<and> plain e"
| "plain (AST_FOR_LOOP initializer body) \<longleftrightarrow> \<not> introduces_vla initializer \<and> plain body"
| "plain (AST_WHILE_LOOP body) \<longleftrightarrow> plain body"
| "plain (AST_SWITCH cases) \<longleftrightarrow> (\<forall>s \<in> set cases. plain s)"
| "plain (AST_CASE body nextCase) \<longleftrightarrow> (\<forall>s \<in> set body. plain s) \<and> plain nextCase"
| "plain (AST_LABEL_DECLARATION ranges name s) \<longleftrightarrow> plain s"
| "plain s \<longleftrightarrow> \<not> introduces_vla s"

fun block_addresses :: "ASTNode \<Rightarrow> nat list" where
  "block_addresses (AST_BLOCK b ss) = b # concat (map block_addresses ss)"
| "block_addresses (AST_IF_STATEMENT t e) = block_addresses t @ block_addresses e"
| "block_addresses (AST_FOR_LOOP initializer body) = block_addresses body"
| "block_addresses (AST_WHILE_LOOP body) = block_addresses body"
| "block_addresses (AST_SWITCH cases) = concat (map block_addresses cases)"
| "block_addresses (AST_CASE body nextCase) = concat (map block_addresses body) @ block_addresses nextCase"
| "block_addresses (AST_LABEL_DECLARATION ranges name s) = block_addresses s"
| "block_addresses s = []"

section \<open>What the walk collects\<close>

definition label_info :: "jump_place \<Rightarrow> LabelInfo" where
  "label_info p = \<lparr>li_name = jp_name p, li_block = jp_block p, li_index = jp_index p, li_ranges = jp_ranges p,
     li_directBlockStatement = jp_direct p\<rparr>"

definition goto_info :: "jump_place \<Rightarrow> GotoInfo" where
  "goto_info p = \<lparr>gi_name = jp_name p, gi_block = jp_block p, gi_index = jp_index p, gi_ranges = jp_ranges p,
     gi_directBlockStatement = jp_direct p\<rparr>"

fun vla_positions :: "nat \<Rightarrow> ASTNode list \<Rightarrow> nat list" where
  "vla_positions i [] = []"
| "vla_positions i (s # ss) = (if introduces_vla s then [i] else []) @ vla_positions (Suc i) ss"

text \<open>The entries of the block table, each with the declarations in scope where the block begins.\<close>

type_synonym entry = "BlockInitInfo \<times> (nat \<times> nat) list"

definition block_entry :: "nat \<Rightarrow> nat option \<Rightarrow> ASTNode list \<Rightarrow> BlockInitInfo" where
  "block_entry b parent ss = \<lparr>bi_block = b, bi_parent = parent, bi_initIndices = vla_positions 0 ss,
     bi_vlaIndices = vla_positions 0 ss, bi_entryHasVLA = False\<rparr>"

fun entries :: "nat \<Rightarrow> (nat \<times> nat) list \<Rightarrow> ASTNode \<Rightarrow> entry list"
  and entries_in_block :: "nat \<Rightarrow> nat \<Rightarrow> (nat \<times> nat) list \<Rightarrow> ASTNode list \<Rightarrow> entry list"
  and entries_in_list :: "nat \<Rightarrow> (nat \<times> nat) list \<Rightarrow> ASTNode list \<Rightarrow> entry list" where
  "entries cur sc (AST_BLOCK b ss) = (block_entry b (Some cur) ss, sc) # entries_in_block b 0 sc ss"
| "entries cur sc (AST_IF_STATEMENT t e) = entries cur sc t @ entries cur sc e"
| "entries cur sc (AST_FOR_LOOP initializer body) = entries cur sc body"
| "entries cur sc (AST_WHILE_LOOP body) = entries cur sc body"
| "entries cur sc (AST_SWITCH cases) = entries_in_list cur sc cases"
| "entries cur sc (AST_CASE body nextCase) = entries_in_list cur sc body @ entries cur sc nextCase"
| "entries cur sc (AST_LABEL_DECLARATION ranges name s) = entries cur sc s"
| "entries cur sc _ = []"
| "entries_in_block b i sc [] = []"
| "entries_in_block b i sc (s # ss) =
    entries b sc s @ entries_in_block b (Suc i) (if introduces_vla s then sc @ [(b, i)] else sc) ss"
| "entries_in_list cur sc [] = []"
| "entries_in_list cur sc (s # ss) = entries cur sc s @ entries_in_list cur sc ss"

definition extend :: "entry list \<Rightarrow> places \<Rightarrow> GotoTables \<Rightarrow> GotoTables" where
  "extend es p st = \<lparr>gt_blocks = gt_blocks st @ map fst es, gt_labels = gt_labels st @ map label_info (fst p),
     gt_gotos = gt_gotos st @ map goto_info (snd p)\<rparr>"

lemma extend_extend [simp]: "extend es p (extend ds q st) = extend (ds @ es) (join q p) st"
  by (simp add: extend_def join_def)

lemma extend_nothing [simp]: "extend [] ([], []) st = st"
  by (simp add: extend_def)

lemma join_nothing [simp]: "join p ([], []) = p" "join ([], []) p = p"
  by (simp_all add: join_def)

lemma added_label: "labelInfoAdd name cur i ranges direct st = extend [] (place name ranges cur i direct sc, []) st"
  by (simp add: labelInfoAdd_def place_def extend_def label_info_def split: option.split)

lemma added_goto: "gotoInfoAdd name cur i ranges direct st = extend [] ([], place name ranges cur i direct sc) st"
  by (simp add: gotoInfoAdd_def place_def extend_def goto_info_def split: option.split)

text \<open>The entry a block is filling, behind what was there before.\<close>

definition filling :: "GotoTables \<Rightarrow> BlockInitInfo \<Rightarrow> nat list \<Rightarrow> entry list \<Rightarrow> places \<Rightarrow> GotoTables" where
  "filling st info ps es p =
    extend es p (st\<lparr>gt_blocks := gt_blocks st @ [info\<lparr>bi_initIndices := ps, bi_vlaIndices := ps\<rparr>]\<rparr>)"

lemma filling_extend: "extend es p (filling st info ps ds q) = filling st info ps (ds @ es) (join q p)"
  by (simp add: filling_def)

lemma filling_note:
  "note_statement (length (gt_blocks st)) i s (filling st info ps es p) =
    filling st info (ps @ (if introduces_vla s then [i] else [])) es p"
  by (simp add: note_statement_def filling_def extend_def note_vla_index_def blockInitInfoAddIndex_def
      blockInitInfoAddVLAIndex_def nth_append)

lemma declares_nothing_else: "introduces_vla s \<Longrightarrow> collectGotoInfoFromStatement raw s cur i d st = st"
  by (cases s) (simp_all add: introduces_vla_def varDeclHasVLA_def collectGotoInfoFromStatement.simps)

lemma declares_no_places [simp]:
  "introduces_vla s \<Longrightarrow> places_in cur i d sc s = ([], [])" "introduces_vla s \<Longrightarrow> entries cur sc s = []"
  by (cases s; simp add: introduces_vla_def varDeclHasVLA_def)+

lemma goto_collected:
  assumes raw: "raw = (\<lambda>_. False)"
  shows
  "plain n \<Longrightarrow> (case n of AST_BLOCK b ss \<Rightarrow> collectGotoInfoFromBlock raw n parent st =
      extend ((block_entry b parent ss, sc) # entries_in_block b 0 sc ss) (places_in_block b 0 sc ss) st | _ \<Rightarrow> True)"
  "(\<forall>s \<in> set ss. introduces_vla s \<or> plain s) \<Longrightarrow> st = filling st0 info ps es p \<Longrightarrow> k = length (gt_blocks st0) \<Longrightarrow>
    collect_block_statements raw b k i ss st =
      filling st0 info (ps @ vla_positions i ss) (es @ entries_in_block b i sc ss) (join p (places_in_block b i sc ss))"
  "plain n' \<Longrightarrow> collectGotoInfoFromStatement raw n' cur i' d st' = extend (entries cur sc n') (places_in cur i' d sc n') st'"
  "(\<forall>s \<in> set ss'. plain s) \<Longrightarrow>
    collect_nested raw ss' cur' i'' st'' = extend (entries_in_list cur' sc ss') (places_in_list cur' i'' sc ss') st''"
  using raw
proof (induction raw n parent st and raw b k i ss st and raw n' cur i' d st' and raw ss' cur' i'' st''
    arbitrary: sc and sc st0 info ps es p and sc and sc
    rule: collectGotoInfoFromBlock_collect_block_statements_collectGotoInfoFromStatement_collect_nested.induct)
  case (1 raw node parent st)
  show ?case
  proof (cases node)
    case (AST_BLOCK b ss)
    let ?info = "block_entry b parent ss"
    have start: "blockInitInfoAdd raw b parent st = filling st ?info [] [] ([], [])"
      using 1(3) by (simp add: blockInitInfoAdd_def filling_def extend_def block_entry_def)
    have "collectGotoInfoFromBlock raw node parent st =
        filling st ?info (vla_positions 0 ss) (entries_in_block b 0 sc ss) (places_in_block b 0 sc ss)"
      using 1(1) [OF AST_BLOCK _ start refl 1(3), of sc] 1(2) AST_BLOCK by (simp add: collectGotoInfoFromBlock.simps)
    also have "\<dots> = extend ((?info, sc) # entries_in_block b 0 sc ss) (places_in_block b 0 sc ss) st"
      by (simp add: filling_def extend_def block_entry_def)
    finally show ?thesis by (simp add: AST_BLOCK)
  qed simp_all
next
  case (2 raw b blockIndex i ss st)
  show ?case
  proof (cases ss)
    case Nil
    then show ?thesis using 2(4) by (simp add: collect_block_statements.simps)
  next
    case (Cons s rest)
    let ?ps = "ps @ (if introduces_vla s then [i] else [])"
    let ?sc = "if introduces_vla s then sc @ [(b, i)] else sc"
    have noted: "note_statement blockIndex i s st = filling st0 info ?ps es p"
      using 2(4,5) by (simp add: filling_note)
    have "collectGotoInfoFromStatement raw s b i True (filling st0 info ?ps es p) =
        filling st0 info ?ps (es @ entries b sc s) (join p (places_in b i True sc s))"
    proof (cases "introduces_vla s")
      case True
      then show ?thesis by (simp add: declares_nothing_else)
    next
      case False
      then show ?thesis using 2(1) [OF Cons _ 2(6), of sc] 2(3) Cons noted by (simp add: filling_extend)
    qed
    with 2(2) [OF Cons _ _ 2(5,6), of info ?ps "es @ entries b sc s" "join p (places_in b i True sc s)" ?sc] 2(3) Cons noted
    show ?thesis by (simp add: collect_block_statements.simps join_def)
  qed
next
  case (3 raw stmt cur i direct st)
  show ?case
  proof (cases stmt)
    case (AST_BLOCK b ss)
    then show ?thesis using 3 by (simp add: collectGotoInfoFromStatement.simps)
  next
    case (AST_IF_STATEMENT t e)
    show ?thesis using 3(2) [OF AST_IF_STATEMENT, of sc] 3(3) [OF AST_IF_STATEMENT, of sc] "3.prems"
      by (simp add: AST_IF_STATEMENT collectGotoInfoFromStatement.simps [of _ "AST_IF_STATEMENT t e"])
  next
    case (AST_CASE body nextCase)
    show ?thesis using 3(7) [OF AST_CASE, of sc] 3(8) [OF AST_CASE, of sc] "3.prems"
      by (simp add: AST_CASE collectGotoInfoFromStatement.simps [of _ "AST_CASE body nextCase"])
  next
    case (AST_FOR_LOOP x body)
    have "collectGotoInfoFromStatement raw body cur i False st = extend (entries cur sc body) (places_in cur i False sc body) st"
      by (rule 3(4) [OF AST_FOR_LOOP]) (use "3.prems" AST_FOR_LOOP in simp_all)
    then show ?thesis using "3.prems" AST_FOR_LOOP by (simp add: collectGotoInfoFromStatement.simps [of _ "AST_FOR_LOOP x body"])
  next
    case (AST_LABEL_DECLARATION ranges name s)
    then show ?thesis using 3 by (simp add: collectGotoInfoFromStatement.simps added_label [of _ _ _ _ _ _ sc])
  next
    case (AST_GOTO_STATEMENT ranges name)
    then show ?thesis by (simp add: collectGotoInfoFromStatement.simps added_goto [of _ _ _ _ _ _ sc])
  qed (insert 3, simp_all add: collectGotoInfoFromStatement.simps)
next
  case (4 raw ss cur i st)
  show ?case
  proof (cases ss)
    case Nil
    then show ?thesis by (simp add: collect_nested.simps)
  next
    case (Cons s rest)
    show ?thesis using 4(1) [OF Cons, of sc] 4(2) [OF Cons, of sc] "4.prems" Cons
      by (simp add: collect_nested.simps [of _ "s # rest"])
  qed
qed

section \<open>The order of the blocks\<close>

abbreviation blocks_of :: "entry list \<Rightarrow> nat set" where
  "blocks_of es \<equiv> (\<lambda>e. bi_block (fst e)) ` set es"

text \<open>Each block comes behind its parent and behind the blocks whose declarations are in scope where it begins.\<close>

fun follows :: "nat set \<Rightarrow> entry list \<Rightarrow> bool" where
  "follows K [] \<longleftrightarrow> True"
| "follows K ((info, sc) # es) \<longleftrightarrow>
    bi_block info \<notin> K \<and> set_option (bi_parent info) \<subseteq> K \<and> fst ` set sc \<subseteq> K \<and> follows (insert (bi_block info) K) es"

lemma follows_append: "follows K (ds @ es) \<longleftrightarrow> follows K ds \<and> follows (K \<union> blocks_of ds) es"
  by (induction K ds rule: follows.induct) (simp_all add: Un_commute)

lemma entry_addresses [simp]:
  "map (\<lambda>e. bi_block (fst e)) (entries cur sc n) = block_addresses n"
  "map (\<lambda>e. bi_block (fst e)) (entries_in_block b i sc ss) = concat (map block_addresses ss)"
  "map (\<lambda>e. bi_block (fst e)) (entries_in_list cur sc ss) = concat (map block_addresses ss)"
  by (induction cur sc n and b i sc ss and cur sc ss rule: entries_entries_in_block_entries_in_list.induct)
    (simp_all add: block_entry_def)

lemma blocks_of_entries [simp]:
  "blocks_of (entries cur sc n) = set (block_addresses n)"
  "blocks_of (entries_in_block b i sc ss) = (\<Union>s \<in> set ss. set (block_addresses s))"
  "blocks_of (entries_in_list cur sc ss) = (\<Union>s \<in> set ss. set (block_addresses s))"
  using arg_cong [OF entry_addresses(1) [of cur sc n], of set] arg_cong [OF entry_addresses(2) [of b i sc ss], of set]
    arg_cong [OF entry_addresses(3) [of cur sc ss], of set]
  by (simp_all del: entry_addresses)

lemma entries_follow:
  "distinct (block_addresses n) \<Longrightarrow> K \<inter> set (block_addresses n) = {} \<Longrightarrow> cur \<in> K \<Longrightarrow> fst ` set sc \<subseteq> K \<Longrightarrow>
    follows K (entries cur sc n)"
  "distinct (concat (map block_addresses ss)) \<Longrightarrow> K \<inter> (\<Union>s \<in> set ss. set (block_addresses s)) = {} \<Longrightarrow> b \<in> K \<Longrightarrow>
    fst ` set sc \<subseteq> K \<Longrightarrow> follows K (entries_in_block b i sc ss)"
  "distinct (concat (map block_addresses ss)) \<Longrightarrow> K \<inter> (\<Union>s \<in> set ss. set (block_addresses s)) = {} \<Longrightarrow> cur \<in> K \<Longrightarrow>
    fst ` set sc \<subseteq> K \<Longrightarrow> follows K (entries_in_list cur sc ss)"
proof (induction cur sc n and b i sc ss and cur sc ss arbitrary: K and K and K
    rule: entries_entries_in_block_entries_in_list.induct)
  case (1 cur sc b ss)
  have "follows (insert b K) (entries_in_block b 0 sc ss)" by (rule 1(1)) (use 1(2-5) in auto)
  then show ?case using 1(2-5) by (auto simp: block_entry_def)
next
  case (10 b i sc s ss)
  have "follows K (entries b sc s)" by (rule 10(1)) (use 10(3-6) in auto)
  moreover have "follows (K \<union> set (block_addresses s)) (entries_in_block b (Suc i) (if introduces_vla s then sc @ [(b, i)] else sc) ss)"
    by (rule 10(2)) (use 10(3-6) in auto)
  ultimately show ?case by (simp add: follows_append)
next
  case (12 cur sc s ss)
  have "follows K (entries cur sc s)" by (rule 12(1)) (use 12(3-6) in auto)
  moreover have "follows (K \<union> set (block_addresses s)) (entries_in_list cur sc ss)"
    by (rule 12(2)) (use 12(3-6) in auto)
  ultimately show ?case by (simp add: follows_append)
next
  case (2 cur sc t e)
  have "follows K (entries cur sc t)" by (rule 2(1)) (use 2(3-6) in auto)
  moreover have "follows (K \<union> set (block_addresses t)) (entries cur sc e)" by (rule 2(2)) (use 2(3-6) in auto)
  ultimately show ?case by (simp add: follows_append)
next
  case (6 cur sc body nextCase)
  have "follows K (entries_in_list cur sc body)" by (rule 6(1)) (use 6(3-6) in auto)
  moreover have "follows (K \<union> (\<Union>s \<in> set body. set (block_addresses s))) (entries cur sc nextCase)"
    by (rule 6(2)) (use 6(3-6) in auto)
  ultimately show ?case by (simp add: follows_append)
qed simp_all

lemma follows_nth:
  assumes "follows K es" "k < length es"
  shows "bi_block (fst (es ! k)) \<notin> K \<union> blocks_of (take k es)"
    "set_option (bi_parent (fst (es ! k))) \<subseteq> K \<union> blocks_of (take k es)"
    "fst ` set (snd (es ! k)) \<subseteq> K \<union> blocks_of (take k es)"
proof -
  obtain info sc where e: "es ! k = (info, sc)" by fastforce
  have "follows (K \<union> blocks_of (take k es)) ((info, sc) # drop (Suc k) es)"
    using assms e follows_append [of K "take k es" "drop k es"] Cons_nth_drop_Suc [OF assms(2)] by simp
  then show "bi_block (fst (es ! k)) \<notin> K \<union> blocks_of (take k es)"
    "set_option (bi_parent (fst (es ! k))) \<subseteq> K \<union> blocks_of (take k es)"
    "fst ` set (snd (es ! k)) \<subseteq> K \<union> blocks_of (take k es)"
    by (simp_all add: e)
qed

lemma blocks_of_take: "x \<in> blocks_of (take k es) \<longleftrightarrow> (\<exists>j < k. j < length es \<and> x = bi_block (fst (es ! j)))"
proof
  assume "x \<in> blocks_of (take k es)"
  then obtain e where "e \<in> set (take k es)" "x = bi_block (fst e)" by blast
  then show "\<exists>j < k. j < length es \<and> x = bi_block (fst (es ! j))" by (auto simp: in_set_conv_nth)
next
  assume "\<exists>j < k. j < length es \<and> x = bi_block (fst (es ! j))"
  then obtain j where "j < k" "j < length es" "x = bi_block (fst (es ! j))" by blast
  moreover from this have "es ! j \<in> set (take k es)" by (auto simp: in_set_conv_nth)
  ultimately show "x \<in> blocks_of (take k es)" by blast
qed

lemma same_position:
  assumes "follows K es" "j < length es" "k < length es" "bi_block (fst (es ! j)) = bi_block (fst (es ! k))"
  shows "j = k"
proof (rule ccontr)
  assume "j \<noteq> k"
  then consider "j < k" | "k < j" by linarith
  then show False
  proof cases
    case 1
    then show False using follows_nth(1) [OF assms(1,3)] assms(2,4) blocks_of_take [of _ k es] by auto
  next
    case 2
    then show False using follows_nth(1) [OF assms(1,2)] assms(3,4) blocks_of_take [of _ j es] by auto
  qed
qed

lemma found_entry:
  assumes "follows K es" "k < length es"
  shows "blockInitInfoFind (map fst es) (bi_block (fst (es ! k))) = Some (fst (es ! k))"
proof -
  have "bi_block (map fst es ! j) \<noteq> bi_block (fst (es ! k))" if "j < k" for j
    using same_position [OF assms(1) _ assms(2), of j] assms(2) that by auto
  then show ?thesis unfolding blockInitInfoFind_def find_Some_iff using assms(2) by (intro exI [of _ k]) simp
qed

text \<open>The climb from a block returns, and an ancestor lies before the block in the table.\<close>

lemma climb_returns:
  assumes es: "follows {} es" and "k < length es"
  shows "\<exists>r. blockIsDescendant (map fst es) (Some (bi_block (fst (es ! k)))) a = Some r \<and>
    (r \<longrightarrow> a = bi_block (fst (es ! k)) \<or> a \<in> blocks_of (take k es))"
  using assms(2)
proof (induction k rule: less_induct)
  case (less k)
  let ?c = "bi_block (fst (es ! k))"
  have step: "a \<noteq> ?c \<Longrightarrow> blockIsDescendant (map fst es) (Some ?c) a = blockIsDescendant (map fst es) (bi_parent (fst (es ! k))) a"
    using found_entry [OF es less(2)] by (subst blockIsDescendant.simps) auto
  show ?case
  proof (cases "a = ?c")
    case True
    then show ?thesis by (intro exI [of _ True]) (simp add: blockIsDescendant.simps)
  next
    case other: False
    show ?thesis
    proof (cases "bi_parent (fst (es ! k))")
      case None
      then show ?thesis using step [OF other] by (intro exI [of _ False]) (simp add: blockIsDescendant.simps [of _ None])
    next
      case (Some q)
      then obtain j where j: "j < k" "q = bi_block (fst (es ! j))"
        using follows_nth(2) [OF es less(2)] blocks_of_take [of q k es] by auto
      moreover have "blocks_of (take j es) \<subseteq> blocks_of (take k es)" "q \<in> blocks_of (take k es)"
        using j less(2) blocks_of_take [of q k es] by (auto intro!: image_mono set_take_subset_set_take)
      moreover obtain r where "blockIsDescendant (map fst es) (Some q) a = Some r" "r \<longrightarrow> a = q \<or> a \<in> blocks_of (take j es)"
        using less(1) [OF j(1)] less(2) j by auto
      ultimately show ?thesis using step [OF other] Some by (intro exI [of _ r]) (simp; blast)
    qed
  qed
qed

lemma path_enters_nothing:
  assumes es: "follows {} es" and "k < length es" and entry: "\<forall>e \<in> set es. \<not> bi_entryHasVLA (fst e)"
  shows "blockPathEntersVLA (map fst es) (Some (bi_block (fst (es ! k)))) a = Some False"
  using assms(2)
proof (induction k rule: less_induct)
  case (less k)
  let ?c = "bi_block (fst (es ! k))"
  have step: "a \<noteq> ?c \<Longrightarrow> blockPathEntersVLA (map fst es) (Some ?c) a = blockPathEntersVLA (map fst es) (bi_parent (fst (es ! k))) a"
    using found_entry [OF es less(2)] entry less(2) by (subst blockPathEntersVLA.simps) auto
  show ?case
  proof (cases "a = ?c")
    case True
    then show ?thesis by (simp add: blockPathEntersVLA.simps)
  next
    case other: False
    show ?thesis
    proof (cases "bi_parent (fst (es ! k))")
      case None
      then show ?thesis using step [OF other] by (simp add: blockPathEntersVLA.simps [of _ None])
    next
      case (Some q)
      then obtain j where j: "j < k" "q = bi_block (fst (es ! j))"
        using follows_nth(2) [OF es less(2)] blocks_of_take [of q k es] by auto
      then show ?thesis using less(1) [OF j(1)] less(2) step [OF other] Some by simp
    qed
  qed
qed

section \<open>Places and entries\<close>

definition declared_before :: "nat \<Rightarrow> nat list \<Rightarrow> nat \<Rightarrow> (nat \<times> nat) set" where
  "declared_before b positions i = {(b, j) | j. j \<in> set positions \<and> j < i}"

definition at_entry :: "jump_place \<Rightarrow> entry \<Rightarrow> bool" where
  "at_entry p e \<longleftrightarrow> jp_block p = bi_block (fst e) \<and> jp_index p \<notin> set (bi_initIndices (fst e)) \<and>
    set (jp_scope p) = set (snd e) \<union> declared_before (bi_block (fst e)) (bi_initIndices (fst e)) (jp_index p)"

abbreviation some_place :: "jump_place \<Rightarrow> places \<Rightarrow> bool" where
  "some_place p ps \<equiv> p \<in> set (fst ps) \<or> p \<in> set (snd ps)"

lemma positions_from: "j \<in> set (vla_positions i ss) \<Longrightarrow> i \<le> j"
  by (induction i ss rule: vla_positions.induct) (fastforce split: if_splits)+

lemma place_here: "p \<in> set (place name ranges b i d sc) \<Longrightarrow> jp_block p = b \<and> jp_index p = i \<and> jp_scope p = sc"
  by (auto simp: place_def split: option.splits)

lemma located:
  "some_place p (places_in cur i d sc n) \<Longrightarrow>
    (jp_block p = cur \<and> jp_index p = i \<and> jp_scope p = sc) \<or> (\<exists>e \<in> set (entries cur sc n). at_entry p e)"
  "some_place p (places_in_block b i sc ss) \<Longrightarrow>
    (jp_block p = b \<and> i \<le> jp_index p \<and> jp_index p \<notin> set (vla_positions i ss) \<and>
      set (jp_scope p) = set sc \<union> declared_before b (vla_positions i ss) (jp_index p)) \<or>
    (\<exists>e \<in> set (entries_in_block b i sc ss). at_entry p e)"
  "some_place p (places_in_list cur i sc ss) \<Longrightarrow>
    (jp_block p = cur \<and> jp_index p = i \<and> jp_scope p = sc) \<or> (\<exists>e \<in> set (entries_in_list cur sc ss). at_entry p e)"
proof (induction cur i d sc n and b i sc ss and cur i sc ss rule: places_in_places_in_block_places_in_list.induct)
  case (1 cur i direct sc b ss)
  then show ?case by (auto simp: at_entry_def block_entry_def)
next
  case (11 b i sc s ss)
  let ?sc = "if introduces_vla s then sc @ [(b, i)] else sc"
  consider "some_place p (places_in b i True sc s)" | "some_place p (places_in_block b (Suc i) ?sc ss)"
    using 11(3) by (auto simp: join_def)
  then show ?case
  proof cases
    case 1
    then have s: "\<not> introduces_vla s" by auto
    from 11(1) [OF 1] show ?thesis
    proof
      assume p: "jp_block p = b \<and> jp_index p = i \<and> jp_scope p = sc"
      have "declared_before b (vla_positions (Suc i) ss) i = {}"
        by (auto simp: declared_before_def dest: positions_from)
      moreover have "i \<notin> set (vla_positions (Suc i) ss)" by (auto dest: positions_from)
      ultimately show ?thesis using p s by simp
    qed auto
  next
    case 2
    from 11(2) [OF 2] show ?thesis
    proof
      assume p: "jp_block p = b \<and> Suc i \<le> jp_index p \<and> jp_index p \<notin> set (vla_positions (Suc i) ss) \<and>
        set (jp_scope p) = set ?sc \<union> declared_before b (vla_positions (Suc i) ss) (jp_index p)"
      then have "set (jp_scope p) = set sc \<union> declared_before b (vla_positions i (s # ss)) (jp_index p)"
        by (auto simp: declared_before_def)
      then show ?thesis using p by auto
    qed auto
  qed
qed (auto simp: join_def dest: place_here)

section \<open>The verdict on a jump\<close>

text \<open>
  What the check may say of a jump: an undefined label exactly where no label has the name; an entered scope only where a
  declaration is in scope at the first label of the name and not at the jump, and, where both are held by the same block,
  whenever one is.
\<close>

definition verdict :: "jump_place list \<Rightarrow> jump_place \<Rightarrow> goto_error list \<Rightarrow> bool" where
  "verdict labels g errors \<longleftrightarrow>
    (case List.find (\<lambda>l. jp_name l = jp_name g) labels of
       None \<Rightarrow> errors = [Undefined_label (jp_ranges g) (jp_name g)]
     | Some l \<Rightarrow>
         (errors = [] \<or> errors = [Jump_into_scope (jp_ranges g) (jp_name g)]) \<and>
         (errors \<noteq> [] \<longrightarrow> \<not> set (jp_scope l) \<subseteq> set (jp_scope g)) \<and>
         (jp_block l = jp_block g \<longrightarrow> (errors = [] \<longleftrightarrow> set (jp_scope l) \<subseteq> set (jp_scope g))))"

lemma scope_entered_same_block:
  assumes es: "follows {} es" and k: "k < length es" and l: "at_entry l (es ! k)" and g: "at_entry g (es ! k)"
  shows "set (jp_scope l) \<subseteq> set (jp_scope g) \<longleftrightarrow>
    \<not> (jp_index g < jp_index l \<and> blockHasInitBetween (Some (fst (es ! k))) (jp_index g) (jp_index l))"
proof -
  let ?b = "bi_block (fst (es ! k))" and ?ps = "set (bi_initIndices (fst (es ! k)))"
  have outside: "(?b, j) \<notin> set (snd (es ! k))" for j
    using follows_nth(1,3) [OF es k] by force
  have "set (jp_scope l) \<subseteq> set (jp_scope g) \<longleftrightarrow> (\<forall>j \<in> ?ps. j < jp_index l \<longrightarrow> j < jp_index g)"
    using l g outside by (auto simp: at_entry_def declared_before_def)
  also have "\<dots> \<longleftrightarrow> \<not> (\<exists>j \<in> ?ps. jp_index g < j \<and> j \<le> jp_index l)"
    using l g unfolding at_entry_def by (metis linorder_cases not_le order.order_iff_strict)
  also have "\<dots> \<longleftrightarrow> \<not> (jp_index g < jp_index l \<and> blockHasInitBetween (Some (fst (es ! k))) (jp_index g) (jp_index l))"
    by (auto simp: blockHasInitBetween_def list_ex_iff)
  finally show ?thesis .
qed

lemma scope_entered_inner_block:
  assumes es: "follows {} es" and k: "k < length es" and l: "at_entry l (es ! k)" and j: "j < length es" and g: "at_entry g (es ! j)"
    and inside: "bi_block (fst (es ! j)) \<in> blocks_of (take k es)"
    and before: "i \<in> set (bi_initIndices (fst (es ! k)))" "i < jp_index l"
  shows "\<not> set (jp_scope l) \<subseteq> set (jp_scope g)"
proof -
  let ?b = "bi_block (fst (es ! k))"
  obtain m where "m < k" "bi_block (fst (es ! j)) = bi_block (fst (es ! m))" using inside blocks_of_take by auto
  then have jk: "j < k" using same_position [OF es j, of m] k by auto
  have new: "?b \<notin> blocks_of (take k es)" using follows_nth(1) [OF es k] by simp
  have "blocks_of (take j es) \<subseteq> blocks_of (take k es)" using jk by (intro image_mono set_take_subset_set_take) simp
  then have "?b \<notin> fst ` set (snd (es ! j))" using follows_nth(3) [OF es j] new by blast
  moreover have "?b \<noteq> bi_block (fst (es ! j))" using inside new by metis
  ultimately have "(?b, i) \<notin> set (jp_scope g)" using g by (force simp: at_entry_def declared_before_def)
  moreover have "(?b, i) \<in> set (jp_scope l)" using l before by (auto simp: at_entry_def declared_before_def)
  ultimately show ?thesis by blast
qed

definition table_entry :: "entry \<Rightarrow> bool" where
  "table_entry e \<longleftrightarrow> \<not> bi_entryHasVLA (fst e) \<and> bi_vlaIndices (fst e) = bi_initIndices (fst e)"

lemma table_entries:
  "e \<in> set (entries cur sc n) \<Longrightarrow> table_entry e"
  "e \<in> set (entries_in_block b i sc ss) \<Longrightarrow> table_entry e"
  "e \<in> set (entries_in_list cur sc ss) \<Longrightarrow> table_entry e"
  by (induction cur sc n and b i sc ss and cur sc ss rule: entries_entries_in_block_entries_in_list.induct)
    (auto simp: table_entry_def block_entry_def)

lemma find_map: "List.find P (map f xs) = map_option f (List.find (\<lambda>x. P (f x)) xs)"
  by (induction xs) simp_all

lemma checked_goto:
  assumes es: "follows {} es" "\<forall>e \<in> set es. table_entry e"
    and labels: "\<forall>l \<in> set labels. \<exists>e \<in> set es. at_entry l e" and g: "\<exists>e \<in> set es. at_entry g e"
    and st: "gt_blocks st = map fst es" "gt_labels st = map label_info labels"
  shows "\<exists>errors. check_goto st (goto_info g) = Some errors \<and> verdict labels g errors"
proof (cases "List.find (\<lambda>l. jp_name l = jp_name g) labels")
  case None
  then show ?thesis by (simp add: check_goto_def verdict_def st find_map label_info_def goto_info_def)
next
  case (Some l)
  then have "l \<in> set labels" by (auto simp: find_Some_iff)
  with labels obtain e where "e \<in> set es" "at_entry l e" by blast
  then obtain k where k: "k < length es" "at_entry l (es ! k)" by (auto simp: in_set_conv_nth)
  from g obtain j where j: "j < length es" "at_entry g (es ! j)" by (auto simp: in_set_conv_nth)
  let ?info = "fst (es ! k)"
  have bl: "jp_block l = bi_block ?info" and bg: "jp_block g = bi_block (fst (es ! j))"
    using k(2) j(2) by (simp_all add: at_entry_def)
  have info: "blockInitInfoFind (map fst es) (jp_block l) = Some ?info" using found_entry [OF es(1) k(1)] bl by simp
  note unfolded = check_goto_def verdict_def st find_map label_info_def goto_info_def Some info
  show ?thesis
  proof (cases "jp_block l = jp_block g")
    case True
    then have "j = k" by (intro same_position [OF es(1) j(1) k(1)]) (simp only: bl [symmetric] bg [symmetric])
    then have scopes: "set (jp_scope l) \<subseteq> set (jp_scope g) \<longleftrightarrow>
        \<not> (jp_index g < jp_index l \<and> blockHasInitBetween (Some ?info) (jp_index g) (jp_index l))"
      using scope_entered_same_block [OF es(1) k] j(2) by simp
    show ?thesis unfolding verdict_def Some option.case scopes by (simp add: unfolded True info [unfolded True])
  next
    case False
    obtain r where r: "blockIsDescendant (map fst es) (Some (jp_block l)) (jp_block g) = Some r"
        "r \<longrightarrow> jp_block g \<in> blocks_of (take k es)"
      using climb_returns [OF es(1) k(1), of "jp_block g"] bl False by auto
    have quiet: "blockPathEntersVLA (map fst es) (Some (jp_block l)) (jp_block g) = Some False"
      using path_enters_nothing [OF es(1) k(1)] es(2) bl by (simp add: table_entry_def)
    have "bi_vlaIndices ?info = bi_initIndices ?info" using es(2) k(1) by (auto simp: table_entry_def)
    then have "enters_scope (map fst es) (label_info l) (jp_block g) = Some (\<exists>i \<in> set (bi_initIndices ?info). i < jp_index l)"
      by (auto simp: enters_scope_def label_info_def quiet info blockHasInitBefore_def blockHasVLABefore_def list_ex_iff)
    moreover have "\<not> set (jp_scope l) \<subseteq> set (jp_scope g)" if "r" "i \<in> set (bi_initIndices ?info)" "i < jp_index l" for i
      using scope_entered_inner_block [OF es(1) k j] r(2) bg that by simp
    ultimately show ?thesis using False r(1) by (auto simp: unfolded)
  qed
qed

lemma checked_gotos:
  assumes "\<forall>g \<in> set gs. \<exists>errors. check_goto st (goto_info g) = Some errors \<and> verdict labels g errors"
  shows "\<exists>rs. check_gotos st (map goto_info gs) = Some (concat rs) \<and> list_all2 (verdict labels) gs rs"
  using assms
proof (induction gs)
  case (Cons g gs)
  then obtain errors rs where "check_goto st (goto_info g) = Some errors" "verdict labels g errors"
      "check_gotos st (map goto_info gs) = Some (concat rs)" "list_all2 (verdict labels) gs rs" by auto
  then show ?case by (intro exI [of _ "errors # rs"]) simp
qed simp

lemma body_collected:
  assumes "plain (AST_BLOCK b ss)"
  shows "collectGotoInfoFromBlock (\<lambda>_. False) (AST_BLOCK b ss) None \<lparr>gt_blocks = [], gt_labels = [], gt_gotos = []\<rparr> =
    \<lparr>gt_blocks = map fst ((block_entry b None ss, []) # entries_in_block b 0 [] ss),
     gt_labels = map label_info (fst (body_places (AST_BLOCK b ss))), gt_gotos = map goto_info (snd (body_places (AST_BLOCK b ss)))\<rparr>"
  using goto_collected(1) [OF refl assms, of None _ "[]"] by (simp add: extend_def body_places_def)

text \<open>
  C38. Take a function body whose blocks have distinct addresses and whose declarations of variably modified type are
  direct statements of blocks, none the initializer of a \<open>for\<close> loop (see \<open>label_before_loop_reported\<close>), and let the field
  \<open>entryHasVLA\<close>, which the code does not initialise, be zero (see \<open>goto_check_reads_fresh_memory\<close>). The check of the jumps
  returns, and for each jump, in the order of the source: it reports an undefined label exactly where there is none of
  the name, it reports an entered scope only where the label is in the scope of a declaration that the jump is not in,
  and it misses none between places of one block.\<close>
theorem goto_check_verdicts:
  assumes "plain (AST_BLOCK b ss)" and "distinct (block_addresses (AST_BLOCK b ss))"
  shows "\<exists>reports. validateGotoScopes (\<lambda>_. False) (AST_BLOCK b ss) = Some (concat reports) \<and>
    list_all2 (verdict (fst (body_places (AST_BLOCK b ss)))) (snd (body_places (AST_BLOCK b ss))) reports"
proof -
  let ?es = "(block_entry b None ss, []) # entries_in_block b 0 [] ss" and ?places = "body_places (AST_BLOCK b ss)"
  have es: "follows {} ?es" using assms(2) entries_follow(2) [of ss "{b}" b "[]" 0] by (auto simp: block_entry_def)
  have table: "\<forall>e \<in> set ?es. table_entry e" using table_entries(2) by (auto simp: table_entry_def block_entry_def)
  have at: "\<exists>e \<in> set ?es. at_entry p e" if "some_place p ?places" for p
    using located(2) [of p b 0 "[]" ss] that by (auto simp: body_places_def at_entry_def block_entry_def)
  have "\<forall>g \<in> set (snd ?places). \<exists>errors. check_goto \<lparr>gt_blocks = map fst ?es, gt_labels = map label_info (fst ?places),
      gt_gotos = map goto_info (snd ?places)\<rparr> (goto_info g) = Some errors \<and> verdict (fst ?places) g errors"
    by (intro ballI checked_goto [OF es table]) (use at in auto)
  from checked_gotos [OF this] show ?thesis by (simp add: validateGotoScopes_def body_collected [OF assms(1)])
qed

section \<open>Examples\<close>

text \<open>\<open>int a[n];\<close>, a jump to \<open>L\<close> and the label \<open>L\<close> in front of a statement.\<close>

definition vla_type :: ParsedType where
  "vla_type = PT (zero_base\<lparr>pt_kind := TYPE_PRIMITIVE, pt_primitiveType := TOKEN_INT, pt_isVLA := True\<rparr>)
     [DArray (no_array_info\<lparr>ai_isVLA := True\<rparr>)] []"

abbreviation vla_declaration :: ASTNode where
  "vla_declaration \<equiv> AST_VARIABLE_DECLARATION vla_type None (Suc 0)"

definition nowhere :: NodeRanges where
  "nowhere = \<lparr>nr_location = no_range, nr_macroCallSite = no_range, nr_macroDefinition = no_range\<rparr>"

abbreviation jump_L :: ASTNode where "jump_L \<equiv> AST_GOTO_STATEMENT nowhere (Some ''L'')"
abbreviation label_L :: ASTNode where "label_L \<equiv> AST_LABEL_DECLARATION nowhere (Some ''L'') AST_OTHER"

lemma vla_declaration_introduces [simp]: "introduces_vla vla_declaration"
  by (simp add: introduces_vla_def varDeclHasVLA_def vla_type_def astVarDeclTypeAt_def zero_base_def)

lemma others_introduce_nothing [simp]:
  "\<not> introduces_vla jump_L" "\<not> introduces_vla label_L" "\<not> introduces_vla (AST_BLOCK b ss)" "\<not> introduces_vla (AST_FOR_LOOP x y)"
  "\<not> introduces_vla (AST_LABEL_DECLARATION r l y)" "\<not> introduces_vla AST_OTHER"
  by (simp_all add: introduces_vla_def varDeclHasVLA_def)

lemmas check_steps = validateGotoScopes_def Let_def collectGotoInfoFromBlock.simps collect_block_statements.simps
  collectGotoInfoFromStatement.simps collect_nested.simps blockInitInfoAdd_def note_statement_def note_vla_index_def
  blockInitInfoAddIndex_def blockInitInfoAddVLAIndex_def labelInfoAdd_def gotoInfoAdd_def check_goto_def enters_scope_def
  blockInitInfoFind_def blockHasInitBetween_def blockHasInitBefore_def blockHasVLABefore_def blockIsDescendant.simps
  blockPathEntersVLA.simps enter_body_def

text \<open>A jump over a declaration to a label of the same block, behind a block with a jump out of it.\<close>

definition jumping_body :: "ASTNode list" where
  "jumping_body = [AST_BLOCK 2 [vla_declaration, jump_L], jump_L, vla_declaration, label_L]"

theorem goto_check_verdicts_witness:
  "\<exists>reports. validateGotoScopes (\<lambda>_. False) (AST_BLOCK 1 jumping_body) = Some (concat reports) \<and>
    list_all2 (verdict (fst (body_places (AST_BLOCK 1 jumping_body)))) (snd (body_places (AST_BLOCK 1 jumping_body))) reports"
  by (rule goto_check_verdicts) (simp_all add: jumping_body_def)

section \<open>Faults\<close>

text \<open>
  The field \<open>entryHasVLA\<close> of a new entry is not set: where the memory held a nonzero byte, a jump into a block that
  declares nothing is reported.\<close>
theorem goto_check_reads_fresh_memory:
  "validateGotoScopes (\<lambda>k. k = 1) (AST_BLOCK 1 [jump_L, AST_BLOCK 2 [label_L]]) = Some [Jump_into_scope nowhere ''L''] \<and>
   validateGotoScopes (\<lambda>k. False) (AST_BLOCK 1 [jump_L, AST_BLOCK 2 [label_L]]) = Some []"
  by (simp add: check_steps)

text \<open>
  Jumps that enter the scope of a declaration and are not reported: from a block into a sibling, into a block behind a
  declaration of the block of the jump, and into a block inside the one that declares.\<close>
theorem entered_scopes_missed:
  "validateGotoScopes (\<lambda>_. False) (AST_BLOCK 1 [AST_BLOCK 2 [jump_L], AST_BLOCK 3 [vla_declaration, label_L]]) = Some [] \<and>
   validateGotoScopes (\<lambda>_. False) (AST_BLOCK 1 [jump_L, vla_declaration, AST_BLOCK 2 [label_L]]) = Some [] \<and>
   validateGotoScopes (\<lambda>_. False) (AST_BLOCK 1 [jump_L, AST_BLOCK 2 [vla_declaration, AST_BLOCK 3 [label_L]]]) = Some []"
  by (simp add: check_steps)

text \<open>
  A jump forward to a loop whose initializer declares such an identifier is reported, though the label stands in
  front of the loop, outside the scope of the declaration.\<close>
theorem label_before_loop_reported:
  "validateGotoScopes (\<lambda>_. False)
     (AST_BLOCK 1 [jump_L, AST_LABEL_DECLARATION nowhere (Some ''L'') (AST_FOR_LOOP vla_declaration AST_OTHER)]) =
   Some [Jump_into_scope nowhere ''L'']"
  by (simp add: check_steps)

end
