(* ===== verification/Type_Compat.thy ===== *)
theory Type_Compat
  imports Type_Resolution "HOL-Library.Monad_Syntax"
begin

text \<open>
  Equality of expression types and the check of assignments, \<open>typesAreEqual\<close> and \<open>canAssignTypesInScope\<close> of
  \<open>src/src/Syntax/type_checker.c\<close>, with the comparison of function pointers. Results are options: \<open>None\<close> is a call that
  does not return. Two things may keep a call from returning. The loop of \<open>normalizePointerDerivations\<close> is translated as
  it stands; typedefs and function pointers that lead to function pointers are followed with fuel, \<open>cp_depth\<close> for the
  typedefs of one type, \<open>n\<close> for the function pointers entered. The output of the debugging switch is left out, and copies
  are freed without effect.
\<close>

section \<open>Pointers\<close>

record CompatEnv =
  cp_host :: HostMacros
  cp_ctx :: "CompilerContext option"
  cp_scope :: scope
  cp_depth :: nat

definition info_of :: "CompatEnv \<Rightarrow> ParsedType \<Rightarrow> TypeInfo option" where
  "info_of env t = typeInfoFromParsedType (cp_depth env) (cp_host env) (cp_ctx env) (cp_scope env) t"

definition sameString :: "cstr \<Rightarrow> cstr \<Rightarrow> bool" where
  "sameString a b \<longleftrightarrow> a = b"

definition nonempty :: "cstr \<Rightarrow> bool" where
  "nonempty s = (case s of None \<Rightarrow> False | Some cs \<Rightarrow> cs \<noteq> [])"

definition canonicalUserTypeName :: "TypeInfo \<Rightarrow> cstr" where
  "canonicalUserTypeName t =
    (if nonempty (userTypeName t) then userTypeName t
     else case originalType t of
         Some p \<Rightarrow> if nonempty (pt_userTypeName (pt_base p)) then pt_userTypeName (pt_base p) else None
       | None \<Rightarrow> None)"

definition pointerTargetsEqual :: "TypeInfo \<Rightarrow> TypeInfo \<Rightarrow> bool" where
  "pointerTargetsEqual a b =
    (let aName = canonicalUserTypeName a; bName = canonicalUserTypeName b in
     if tag a \<noteq> tag b then False
     else if tag a \<noteq> TAG_NONE then
       (if recordDefinition a \<noteq> None \<and> recordDefinition b \<noteq> None then recordDefinition a = recordDefinition b
        else sameString aName bName)
     else if primitive a \<noteq> primitive b then aName \<noteq> None \<and> bName \<noteq> None \<and> aName = bName
     else True)"

definition parsedTypeIsPointerish :: "ParsedType \<Rightarrow> bool" where
  "parsedTypeIsPointerish t \<longleftrightarrow> pt_pointerDepth (pt_base t) > 0 \<or> list_ex is_pointer (pt_derivations t)"

text \<open>Each pointer appended raises the depth the loop compares with.\<close>

partial_function (option) append_missing_pointers :: "nat \<Rightarrow> ParsedType \<Rightarrow> ParsedType option" where
  "append_missing_pointers ptrCount t =
    (if int ptrCount < pt_pointerDepth (pt_base t) then append_missing_pointers (Suc ptrCount) (parsedTypeAppendPointer t)
     else Some t)"

definition normalizePointerDerivations :: "ParsedType \<Rightarrow> ParsedType option" where
  "normalizePointerDerivations t =
    (if pt_pointerDepth (pt_base t) \<le> 0 then Some t
     else map_option parsedTypeNormalizeFunctionPointer
       (append_missing_pointers (parsedTypeCountDerivationsOfKind t TYPE_DERIVATION_POINTER) t))"

definition normalized_equal :: "(ParsedType \<Rightarrow> ParsedType) \<Rightarrow> ParsedType \<Rightarrow> ParsedType \<Rightarrow> bool option" where
  "normalized_equal f lhs rhs = do {
     l \<leftarrow> normalizePointerDerivations (parsedTypeClone lhs);
     r \<leftarrow> normalizePointerDerivations (parsedTypeClone rhs);
     Some (parsedTypesStructurallyEqual (f l) (f r))
   }"

section \<open>Equality of types\<close>

definition pointers_equal :: "TypeInfo \<Rightarrow> TypeInfo \<Rightarrow> bool option" where
  "pointers_equal a b =
    (if recordDefinition a \<noteq> None \<and> recordDefinition b \<noteq> None \<and> recordDefinition a \<noteq> recordDefinition b then Some False
     else do {
       equal \<leftarrow>
         (case (originalType a, originalType b) of
            (Some s, Some t) \<Rightarrow>
              if parsedTypeIsPointerish s \<and> parsedTypeIsPointerish t then normalized_equal (\<lambda>x. x) s t else Some False
          | _ \<Rightarrow> Some False);
       Some (equal \<or> (pointerDepth a = pointerDepth b \<and> pointerTargetsEqual a b))
     })"

definition same_category_equal :: "TypeInfo \<Rightarrow> TypeInfo \<Rightarrow> bool" where
  "same_category_equal a b =
    (case category a of
       TYPEINFO_INTEGER \<Rightarrow> bitWidth a = bitWidth b \<and> isSigned a = isSigned b
     | TYPEINFO_FLOAT \<Rightarrow> bitWidth a = bitWidth b \<and> isComplex a = isComplex b \<and> isImaginary a = isImaginary b
     | TYPEINFO_ENUM \<Rightarrow> sameString (canonicalUserTypeName a) (canonicalUserTypeName b)
     | TYPEINFO_VOID \<Rightarrow> True
     | TYPEINFO_FUNCTION \<Rightarrow> True
     | _ \<Rightarrow>
         if category a = TYPEINFO_STRUCT \<or> category a = TYPEINFO_UNION then
           (if recordDefinition a \<noteq> None \<and> recordDefinition b \<noteq> None then recordDefinition a = recordDefinition b
            else tag a = tag b \<and> sameString (canonicalUserTypeName a) (canonicalUserTypeName b))
         else False)"

definition typesAreEqual :: "TypeInfo \<Rightarrow> TypeInfo \<Rightarrow> bool option" where
  "typesAreEqual a b =
    (if typeInfoIsPointerLike a \<and> typeInfoIsPointerLike b then pointers_equal a b
     else Some (category a = category b \<and> same_category_equal a b))"

section \<open>Function types\<close>

definition findFunctionDerivation :: "ParsedType \<Rightarrow> TypeDerivation option" where
  "findFunctionDerivation t = List.find is_function (pt_derivations t)"

definition parsedTypeIsPlainVoidType :: "ParsedType \<Rightarrow> bool" where
  "parsedTypeIsPlainVoidType t \<longleftrightarrow>
    pt_kind (pt_base t) = TYPE_PRIMITIVE \<and> pt_primitiveType (pt_base t) = TOKEN_VOID \<and> pt_pointerDepth (pt_base t) = 0 \<and>
    pt_derivations t = []"

text \<open>Whether every declared parameter type is its own default promotion.\<close>

fun params_survive :: "CompatEnv \<Rightarrow> ParsedType list \<Rightarrow> bool option" where
  "params_survive env [] = Some True"
| "params_survive env (t # ts) = do {
     declared \<leftarrow> info_of env t;
     same \<leftarrow> typesAreEqual declared (defaultArgumentPromotion (cp_host env) declared);
     if same then params_survive env ts else Some False
   }"

definition functionPrototypeParamsSurviveDefaultPromotions :: "CompatEnv \<Rightarrow> TypeDerivation \<Rightarrow> bool option" where
  "functionPrototypeParamsSurviveDefaultPromotions env fn =
    (case fn of DFunction p v ps \<Rightarrow> if v then Some False else params_survive env ps | _ \<Rightarrow> Some False)"

definition drop_void_parameter :: "TypeDerivation \<Rightarrow> TypeDerivation" where
  "drop_void_parameter d =
    (case d of
       DFunction p v [t] \<Rightarrow> if \<not> v \<and> parsedTypeIsPlainVoidType t then DFunction p v [] else d
     | _ \<Rightarrow> d)"

definition normalizeFunctionDerivationParams :: "ParsedType \<Rightarrow> ParsedType" where
  "normalizeFunctionDerivationParams t = with_derivations (map drop_void_parameter (pt_derivations t)) t"

definition clear_vla :: "TypeDerivation \<Rightarrow> TypeDerivation" where
  "clear_vla d = (case d of DArray a \<Rightarrow> DArray (a\<lparr>ai_isVLA := False\<rparr>) | _ \<Rightarrow> d)"

definition normalizeArrayDerivationCompat :: "ParsedType \<Rightarrow> ParsedType" where
  "normalizeArrayDerivationCompat t = with_derivations (map clear_vla (pt_derivations t)) t"

definition parsedTypesEqualForFunctionCompat :: "ParsedType \<Rightarrow> ParsedType \<Rightarrow> bool option" where
  "parsedTypesEqualForFunctionCompat lhs rhs =
    normalized_equal (\<lambda>t. normalizeArrayDerivationCompat (normalizeFunctionDerivationParams t)) lhs rhs"

definition adjusted_parameter :: "scope \<Rightarrow> ParsedType \<Rightarrow> ParsedType" where
  "adjusted_parameter sc t =
    (let copy = parsedTypeClone t;
         resolved = (if sc \<noteq> [] then fst (parsedTypeResolvePlainNamedTypedefInScope copy sc) else copy)
     in fst (parsedTypeAdjustFunctionParameter resolved))"

definition parsedFunctionParametersEqualForCompat :: "ParsedType \<Rightarrow> ParsedType \<Rightarrow> scope \<Rightarrow> bool option" where
  "parsedFunctionParametersEqualForCompat lhs rhs sc =
    parsedTypesEqualForFunctionCompat (adjusted_parameter sc lhs) (adjusted_parameter sc rhs)"

definition typeInfoIsFunctionPointer :: "TypeInfo \<Rightarrow> bool" where
  "typeInfoIsFunctionPointer info =
    (case originalType info of
       None \<Rightarrow> False
     | Some t \<Rightarrow>
         if pt_isFunctionPointer (pt_base t) then True
         else if pointerDepth info = 0 then False
         else findFunctionDerivation (parsedTypePointerTargetType t) \<noteq> None)"

definition parsedTypesHaveDistinctRecordDefinitionsShallow :: "CompatEnv \<Rightarrow> ParsedType \<Rightarrow> ParsedType \<Rightarrow> bool option" where
  "parsedTypesHaveDistinctRecordDefinitionsShallow env lhs rhs = do {
     l \<leftarrow> info_of env lhs;
     r \<leftarrow> info_of env rhs;
     Some (recordDefinition l \<noteq> None \<and> recordDefinition r \<noteq> None \<and> recordDefinition l \<noteq> recordDefinition r)
   }"

text \<open>The first argument is what is left of the depth of 32 the code counts up to, inclusively.\<close>

fun parsedTypesHaveDistinctRecordDefinitions :: "nat \<Rightarrow> CompatEnv \<Rightarrow> ParsedType \<Rightarrow> ParsedType \<Rightarrow> bool option"
  and some_distinct :: "nat \<Rightarrow> CompatEnv \<Rightarrow> ParsedType list \<Rightarrow> ParsedType list \<Rightarrow> bool option" where
  "parsedTypesHaveDistinctRecordDefinitions 0 env lhs rhs = Some False"
| "parsedTypesHaveDistinctRecordDefinitions (Suc d) env lhs rhs = do {
     shallow \<leftarrow> parsedTypesHaveDistinctRecordDefinitionsShallow env lhs rhs;
     if shallow then Some True
     else case (parsedTypeGetEffectiveFunctionPointerSignature lhs, parsedTypeGetEffectiveFunctionPointerSignature rhs) of
         (Some (ps, v, p), Some (qs, w, q)) \<Rightarrow> do {
           conflict \<leftarrow>
             (let l = parsedTypeFunctionReturnType lhs; r = parsedTypeFunctionReturnType rhs in
              if pt_kind (pt_base l) \<noteq> TYPE_INVALID \<and> pt_kind (pt_base r) \<noteq> TYPE_INVALID
              then parsedTypesHaveDistinctRecordDefinitions d env l r else Some False);
           if conflict then Some True else some_distinct d env ps qs
         }
       | _ \<Rightarrow> Some False
   }"
| "some_distinct d env (p # ps) (q # qs) = do {
     distinct_here \<leftarrow> parsedTypesHaveDistinctRecordDefinitions d env p q;
     if distinct_here then Some True else some_distinct d env ps qs
   }"
| "some_distinct d env _ _ = Some False"

text \<open>What is compared of a return type or a parameter once the parsed types differ; \<open>rec\<close> compares function pointers.\<close>

definition infos_compatible :: "(ParsedType option \<Rightarrow> ParsedType option \<Rightarrow> bool option) \<Rightarrow> CompatEnv \<Rightarrow> ParsedType \<Rightarrow> ParsedType \<Rightarrow> bool option" where
  "infos_compatible rec env s t =
    (if cp_scope env = [] then Some False
     else do {
       d \<leftarrow> info_of env s;
       r \<leftarrow> info_of env t;
       if typeInfoIsFunctionPointer d \<and> typeInfoIsFunctionPointer r then rec (originalType d) (originalType r)
       else typesAreEqual d r
     })"

definition component_compatible ::
    "(ParsedType option \<Rightarrow> ParsedType option \<Rightarrow> bool option) \<Rightarrow> CompatEnv \<Rightarrow> (ParsedType \<Rightarrow> ParsedType \<Rightarrow> bool option) \<Rightarrow>
     ParsedType \<Rightarrow> ParsedType \<Rightarrow> bool option" where
  "component_compatible rec env equal s t = do {
     distinct_here \<leftarrow> parsedTypesHaveDistinctRecordDefinitions 33 env s t;
     same \<leftarrow> (if distinct_here then Some False else equal s t);
     if same then Some True else infos_compatible rec env s t
   }"

fun all_compatible :: "(ParsedType \<Rightarrow> ParsedType \<Rightarrow> bool option) \<Rightarrow> ParsedType list \<Rightarrow> ParsedType list \<Rightarrow> bool option" where
  "all_compatible f (p # ps) (q # qs) = do { ok \<leftarrow> f p q; if ok then all_compatible f ps qs else Some False }"
| "all_compatible f _ _ = Some True"

definition pointer_target :: "ParsedType \<Rightarrow> ParsedType option" where
  "pointer_target t = map_option parsedTypePointerTargetType (normalizePointerDerivations (parsedTypeClone t))"

definition functions_compatible ::
    "(ParsedType option \<Rightarrow> ParsedType option \<Rightarrow> bool option) \<Rightarrow> CompatEnv \<Rightarrow> ParsedType \<Rightarrow> ParsedType \<Rightarrow> bool option" where
  "functions_compatible rec env destTarget srcTarget =
    (case (findFunctionDerivation destTarget, findFunctionDerivation srcTarget) of
       (Some destFn, Some srcFn) \<Rightarrow> do {
         ret \<leftarrow> component_compatible rec env parsedTypesEqualForFunctionCompat
           (parsedTypeFunctionReturnType destTarget) (parsedTypeFunctionReturnType srcTarget);
         if \<not> ret then Some False
         else if fn_hasPrototype destFn \<noteq> fn_hasPrototype srcFn
         then functionPrototypeParamsSurviveDefaultPromotions env (if fn_hasPrototype destFn then destFn else srcFn)
         else if \<not> fn_hasPrototype destFn then Some True
         else if fn_isVariadic destFn \<noteq> fn_isVariadic srcFn then Some False
         else if length (fn_params destFn) \<noteq> length (fn_params srcFn) then Some False
         else all_compatible
           (component_compatible rec env (\<lambda>s t. parsedFunctionParametersEqualForCompat s t (cp_scope env)))
           (fn_params destFn) (fn_params srcFn)
       }
     | _ \<Rightarrow> Some True)"

fun functionPointerTargetsCompatible :: "nat \<Rightarrow> CompatEnv \<Rightarrow> ParsedType option \<Rightarrow> ParsedType option \<Rightarrow> bool option" where
  "functionPointerTargetsCompatible 0 env dest src = None"
| "functionPointerTargetsCompatible (Suc n) env dest src =
    (case (dest, src) of
       (Some destType, Some srcType) \<Rightarrow> do {
         destTarget \<leftarrow> pointer_target destType;
         srcTarget \<leftarrow> pointer_target srcType;
         functions_compatible (functionPointerTargetsCompatible n env) env destTarget srcTarget
       }
     | _ \<Rightarrow> Some True)"

section \<open>Assignment\<close>

definition typeInfoIsVoidPointer :: "TypeInfo \<Rightarrow> bool" where
  "typeInfoIsVoidPointer info \<longleftrightarrow>
    category info = TYPEINFO_POINTER \<and> pointerDepth info = 1 \<and>
    ((case originalType info of
        Some t \<Rightarrow> (let target = parsedTypePointerTargetType t
          in pt_kind (pt_base target) = TYPE_PRIMITIVE \<and> pt_primitiveType (pt_base target) = TOKEN_VOID)
      | None \<Rightarrow> False) \<or> primitive info = TOKEN_VOID)"

text \<open>The pointers of a type as far as the array of the caller holds them, and their count.\<close>

fun pointer_quals :: "TypeDerivation list \<Rightarrow> PointerQualifier list" where
  "pointer_quals [] = []"
| "pointer_quals (DPointer q # ds) = q # pointer_quals ds"
| "pointer_quals (d # ds) = pointer_quals ds"

definition collectPointerDerivations :: "ParsedType \<Rightarrow> nat \<Rightarrow> PointerQualifier list \<times> nat" where
  "collectPointerDerivations t maxOut =
    (if maxOut = 0 then ([], 0) else (take maxOut (pointer_quals (pt_derivations t)), length (pointer_quals (pt_derivations t))))"

definition clear_quals :: "TypeDerivation \<Rightarrow> TypeDerivation" where
  "clear_quals d =
    (case d of
       DPointer q \<Rightarrow> DPointer no_qual
     | DArray a \<Rightarrow> DArray (a\<lparr>ai_isVLA := ai_isVLA a \<or> (\<not> ai_hasConstantSize a \<and> ai_sizeExpr a \<noteq> None \<and> \<not> ai_isFlexible a)\<rparr>)
     | _ \<Rightarrow> d)"

definition clearParsedTypeQualifiers :: "ParsedType \<Rightarrow> ParsedType" where
  "clearParsedTypeQualifiers t =
    on_base (\<lambda>b. b\<lparr>pt_isConst := False, pt_isVolatile := False, pt_isRestrict := False\<rparr>)
      (with_derivations (map clear_quals (pt_derivations t)) t)"

definition parsedTypesEqualIgnoringQualifiers :: "ParsedType option \<Rightarrow> ParsedType option \<Rightarrow> bool option" where
  "parsedTypesEqualIgnoringQualifiers lhs rhs =
    (case (lhs, rhs) of (Some l, Some r) \<Rightarrow> normalized_equal clearParsedTypeQualifiers l r | _ \<Rightarrow> Some False)"

definition enumPointerTargetsShareDefinitionInScope :: "TypeInfo \<Rightarrow> TypeInfo \<Rightarrow> scope \<Rightarrow> bool" where
  "enumPointerTargetsShareDefinitionInScope lhs rhs sc =
    (case (originalType lhs, originalType rhs) of
       (Some l, Some r) \<Rightarrow>
         if sc = [] \<or> pointerDepth lhs \<noteq> 1 \<or> pointerDepth rhs \<noteq> 1 then False
         else
           let lhsTarget = fst (parsedTypeResolvePlainNamedTypedefInScope (parsedTypePointerTargetType l) sc);
               rhsTarget = fst (parsedTypeResolvePlainNamedTypedefInScope (parsedTypePointerTargetType r) sc)
           in pt_kind (pt_base lhsTarget) = TYPE_ENUM \<and> pt_kind (pt_base rhsTarget) = TYPE_ENUM \<and>
              pt_inlineEnumDef (pt_base lhsTarget) \<noteq> None \<and>
              pt_inlineEnumDef (pt_base lhsTarget) = pt_inlineEnumDef (pt_base rhsTarget)
     | _ \<Rightarrow> False)"

definition qualifier_lost :: "PointerQualifier \<Rightarrow> PointerQualifier \<Rightarrow> bool" where
  "qualifier_lost s d \<longleftrightarrow>
    (pq_isConst s \<and> \<not> pq_isConst d) \<or> (pq_isVolatile s \<and> \<not> pq_isVolatile d) \<or> (pq_isRestrict s \<and> \<not> pq_isRestrict d)"

text \<open>The comparison of the pointers behind the first, as far as both arrays are filled.\<close>

definition functionPointerQualifierLoss :: "ParsedType option \<Rightarrow> ParsedType option \<Rightarrow> bool" where
  "functionPointerQualifierLoss dest src =
    (case (dest, src) of
       (Some destType, Some srcType) \<Rightarrow>
         let (destPtrs, destCount) = collectPointerDerivations destType TYPEINFO_MAX_POINTER_DEPTH;
             (srcPtrs, srcCount) = collectPointerDerivations srcType TYPEINFO_MAX_POINTER_DEPTH;
             pairCount = min destCount srcCount
         in if pairCount \<le> 1 then False
            else list_ex (\<lambda>(d, s). qualifier_lost s d) (tl (zip destPtrs srcPtrs))
     | _ \<Rightarrow> False)"

datatype AssignmentCheckResult = ASSIGN_OK | ASSIGN_INCOMPATIBLE | ASSIGN_QUALIFIER_LOSS

definition is_bool_target :: "TypeInfo \<Rightarrow> bool" where
  "is_bool_target dest \<longleftrightarrow>
    category dest = TYPEINFO_INTEGER \<and> primitive dest = TOKEN_BOOL \<and> pointerDepth dest = 0 \<and> \<not> isArray dest"

definition first_level :: "TypeInfo \<Rightarrow> PointerQualifier" where
  "first_level info = (if pointerDepth info > 0 then pointerLevels info ! 0 else no_qual)"

definition levels_lose_qualifier :: "TypeInfo \<Rightarrow> TypeInfo \<Rightarrow> bool" where
  "levels_lose_qualifier dest src =
    list_ex (\<lambda>i. qualifier_lost (pointerLevels src ! i) (pointerLevels dest ! i))
      [0..<min (pointerDepth dest) TYPEINFO_MAX_POINTER_DEPTH]"

text \<open>The end of the comparison of two pointers, behind the depths and the qualifiers.\<close>

definition assign_pointer_targets :: "nat \<Rightarrow> CompatEnv \<Rightarrow> TypeInfo \<Rightarrow> TypeInfo \<Rightarrow> AssignmentCheckResult option" where
  "assign_pointer_targets n env dest src =
    (if typeInfoIsFunctionPointer dest \<and> typeInfoIsFunctionPointer src
     then map_option (\<lambda>ok. if ok then ASSIGN_OK else ASSIGN_INCOMPATIBLE)
       (functionPointerTargetsCompatible n env (originalType dest) (originalType src))
     else if tag dest \<noteq> TAG_NONE \<and> tag src \<noteq> TAG_NONE \<and> recordDefinition dest \<noteq> None \<and> recordDefinition src \<noteq> None \<and>
       recordDefinition dest \<noteq> recordDefinition src then Some ASSIGN_INCOMPATIBLE
     else if enumPointerTargetsShareDefinitionInScope dest src (cp_scope env) then Some ASSIGN_OK
     else do {
       same \<leftarrow> parsedTypesEqualIgnoringQualifiers (originalType dest) (originalType src);
       if same then Some ASSIGN_OK
       else do {
         equal \<leftarrow> typesAreEqual dest src;
         Some (if equal then ASSIGN_OK else ASSIGN_INCOMPATIBLE)
       }
     })"

definition assign_pointers :: "nat \<Rightarrow> CompatEnv \<Rightarrow> TypeInfo \<Rightarrow> TypeInfo \<Rightarrow> AssignmentCheckResult option" where
  "assign_pointers n env dest src =
    (if (typeInfoIsVoidPointer dest \<and> \<not> typeInfoIsFunctionPointer src) \<or>
        (typeInfoIsVoidPointer src \<and> \<not> typeInfoIsFunctionPointer dest)
     then Some (if qualifier_lost (first_level src) (first_level dest) then ASSIGN_QUALIFIER_LOSS else ASSIGN_OK)
     else if pointerDepth dest \<noteq> pointerDepth src then Some ASSIGN_INCOMPATIBLE
     else if functionPointerQualifierLoss (originalType dest) (originalType src) then Some ASSIGN_QUALIFIER_LOSS
     else if levels_lose_qualifier dest src then Some ASSIGN_QUALIFIER_LOSS
     else assign_pointer_targets n env dest src)"

definition canAssignTypesInScope :: "nat \<Rightarrow> CompatEnv \<Rightarrow> TypeInfo \<Rightarrow> TypeInfo \<Rightarrow> AssignmentCheckResult option" where
  "canAssignTypesInScope n env dest src =
    (if is_bool_target dest \<and> (typeInfoIsArithmetic src \<or> typeInfoIsPointerLike src) then Some ASSIGN_OK
     else if typeInfoIsPointerLike dest \<and> typeInfoIsPointerLike src then assign_pointers n env dest src
     else if typeInfoIsArithmetic dest \<and> typeInfoIsArithmetic src then Some ASSIGN_OK
     else if category dest = category src then
       (if category dest = TYPEINFO_STRUCT \<or> category dest = TYPEINFO_UNION \<or> category dest = TYPEINFO_ENUM
        then map_option (\<lambda>equal. if equal then ASSIGN_OK else ASSIGN_INCOMPATIBLE) (typesAreEqual dest src)
        else Some ASSIGN_OK)
     else Some ASSIGN_INCOMPATIBLE)"

definition canAssignTypes :: "nat \<Rightarrow> HostMacros \<Rightarrow> nat \<Rightarrow> TypeInfo \<Rightarrow> TypeInfo \<Rightarrow> AssignmentCheckResult option" where
  "canAssignTypes n host depth dest src =
    canAssignTypesInScope n \<lparr>cp_host = host, cp_ctx = None, cp_scope = [], cp_depth = depth\<rparr> dest src"

end
