(* ===== verification/Type_Compat_Props.thy ===== *)
theory Type_Compat_Props
  imports Type_Compat Type_Resolution_Props
begin

text \<open>
  When the check of an assignment returns, and what it decides for pointers to primitive types, against the constraints C
  puts on the assignment of pointers (C11 6.5.16.1).
\<close>

section \<open>Normalisation\<close>

lemma depth_append [simp]: "pt_pointerDepth (pt_base (parsedTypeAppendPointer t)) = pt_pointerDepth (pt_base t) + 1"
  by (simp add: parsedTypeAppendPointer_def parsedTypeAddPointerDepth_def)

lemma append_never_catches_up:
  "append_missing_pointers k t = Some y \<Longrightarrow> \<not> int k < pt_pointerDepth (pt_base t)"
proof (induction rule: append_missing_pointers.raw_induct [rotated, consumes 1, case_names step])
  case (step f k t y)
  show ?case
  proof
    assume less: "int k < pt_pointerDepth (pt_base t)"
    with step(2) have "f (Suc k) (parsedTypeAppendPointer t) = Some y" by simp
    from step(1) [OF this] less show False by simp
  qed
qed

text \<open>
  \<open>normalizePointerDerivations\<close> means to give a type as many pointer derivations as its pointer depth. Each pointer it
  appends raises the depth as well: it returns exactly when no pointer is missing, having appended none, and never
  returns when one is.\<close>
theorem pointer_normalisation_closes_no_gap:
  "normalizePointerDerivations t =
    (if pt_pointerDepth (pt_base t) \<le> 0 then Some t
     else if pt_pointerDepth (pt_base t) \<le> int (parsedTypeCountDerivationsOfKind t TYPE_DERIVATION_POINTER)
     then Some (parsedTypeNormalizeFunctionPointer t) else None)"
proof -
  let ?k = "parsedTypeCountDerivationsOfKind t TYPE_DERIVATION_POINTER"
  have "append_missing_pointers ?k t = None" if "int ?k < pt_pointerDepth (pt_base t)"
    using append_never_catches_up [of ?k t] that by (cases "append_missing_pointers ?k t") auto
  then show ?thesis by (auto simp: normalizePointerDerivations_def append_missing_pointers.simps [of ?k t])
qed

section \<open>Pointers to primitive types\<close>

text \<open>A chain of pointers, outermost first, to a primitive type, and the qualifiers of what it points to, level by level.\<close>

definition plain_primitive :: "PTBase \<Rightarrow> bool" where
  "plain_primitive b \<longleftrightarrow> pt_kind b = TYPE_PRIMITIVE \<and> pt_userTypeName b = None \<and> \<not> pt_isFunctionPointer b"

definition primitive_pointer :: "PTBase \<Rightarrow> PointerQualifier list \<Rightarrow> ParsedType" where
  "primitive_pointer b qs = PT (b\<lparr>pt_pointerDepth := int (length qs)\<rparr>) (map DPointer qs) []"

definition pointed_quals :: "PTBase \<Rightarrow> PointerQualifier list \<Rightarrow> PointerQualifier list" where
  "pointed_quals b qs = tl qs @ [makePointerQual (pt_isConst b) (pt_isVolatile b) (pt_isRestrict b)]"

definition env_layout :: "CompatEnv \<Rightarrow> TargetLayout option" where
  "env_layout env = (if cp_scope env = [] then None else cc_get_target_layout (cp_ctx env))"

definition target_kind :: "CompatEnv \<Rightarrow> PTBase \<Rightarrow> TokenType" where
  "target_kind env b = primitive (primitive_info (cp_host env) (env_layout env) b)"

definition describes :: "CompatEnv \<Rightarrow> PTBase \<Rightarrow> PointerQualifier list \<Rightarrow> TypeInfo \<Rightarrow> bool" where
  "describes env b qs info \<longleftrightarrow>
    category info = TYPEINFO_POINTER \<and> pointerDepth info = length qs \<and>
    pointerLevels info = pointed_quals b qs @ replicate (32 - length qs) no_qual \<and>
    originalType info = Some (primitive_pointer b qs) \<and> tag info = TAG_NONE \<and> userTypeName info = None \<and>
    recordDefinition info = None \<and> primitive info = target_kind env b"

lemma target_fields:
  assumes "typeInfoFromDerivationIndex (Some i) t (map DPointer qs) = Some info"
  shows "originalType info = Some t \<and> tag info = tag i \<and> userTypeName info = userTypeName i \<and>
    recordDefinition info = recordDefinition i \<and> primitive info = primitive i"
  using assms
proof (induction qs arbitrary: info)
  case Nil
  then show ?case by (auto simp: applyQualifiers_def)
next
  case (Cons q qs)
  then obtain target where "typeInfoFromDerivationIndex (Some i) t (map DPointer qs) = Some target" "info = pointer_to t q target"
    by auto
  then show ?case using Cons.IH by (simp add: pointer_to_def)
qed

lemma primitive_info_fields:
  "tag (primitive_info host lay b) = TAG_NONE" "userTypeName (primitive_info host lay b) = None"
  "recordDefinition (primitive_info host lay b) = None"
  by (simp_all add: primitive_info_def makeBoolType_def makeIntegerType_def makeFloatTypeInfo_def makeInvalidType_def
      makeBaseInvalid_def Let_def split: FloatKind.split)

lemma pointer_described:
  assumes "plain_primitive b" "qs \<noteq> []" "length qs \<le> 32" "0 < cp_depth env"
  shows "\<exists>info. info_of env (primitive_pointer b qs) = Some info \<and> describes env b qs info"
proof -
  obtain q rs where qs: "qs = q # rs" using assms(2) by (cases qs) auto
  obtain n where n: "cp_depth env = Suc n" using assms(4) by (cases "cp_depth env") auto
  let ?b = "b\<lparr>pt_pointerDepth := int (length qs)\<rparr>" and ?t = "primitive_pointer b qs"
  let ?i = "primitive_info (cp_host env) (env_layout env) ?b"
  have t: "?t = PT ?b (map DPointer (q # rs)) []" by (simp add: primitive_pointer_def qs)
  have "pt_kind ?b = TYPE_PRIMITIVE" "length rs \<le> 31" using assms(1,3) qs by (simp_all add: plain_primitive_def)
  from pointer_type_records_levels [OF this, of n "cp_host env" "cp_ctx env" "cp_scope env" q "[]"] obtain info where
      whole: "typeInfoFromParsedType (Suc n) (cp_host env) (cp_ctx env) (cp_scope env) ?t = Some info"
      and cat: "category info = TYPEINFO_POINTER" and depth: "pointerDepth info = Suc (length rs)"
      and levels: "pointerLevels info = rs @ makePointerQual (pt_isConst ?b) (pt_isVolatile ?b) (pt_isRestrict ?b) #
        replicate (31 - length rs) no_qual"
    unfolding t by blast
  have info: "info_of env ?t = Some info" "category info = TYPEINFO_POINTER" "pointerDepth info = length qs"
      "pointerLevels info = pointed_quals b qs @ replicate (32 - length qs) no_qual"
    using whole cat depth levels by (simp_all only: info_of_def n) (simp_all add: pointed_quals_def qs)
  have base: "typeInfoFromBaseKind (cp_host env) (cp_ctx env) r (cp_scope env) ?t = Some ?i" for r
    using assms(1) by (simp add: typeInfoFromBaseKind_def env_layout_def plain_primitive_def primitive_pointer_def Let_def)
  obtain raw where raw: "typeInfoFromDerivationIndex (Some ?i) ?t (map DPointer (q # rs)) = Some raw"
      "info = propagateVLAFlag (applyQualifiers raw ?t) ?t"
    using whole base by (auto simp: undecorated_def Let_def primitive_pointer_def qs simp del: typeInfoFromDerivationIndex.simps)
  have "primitive_info (cp_host env) (env_layout env) ?b = primitive_info (cp_host env) (env_layout env) b"
    by (simp add: primitive_info_def Let_def)
  then have "originalType info = Some ?t" "tag info = TAG_NONE" "userTypeName info = None" "recordDefinition info = None"
      "primitive info = target_kind env b"
    using target_fields [OF raw(1)] raw(2)
    by (simp_all add: propagateVLAFlag_def applyQualifiers_def primitive_info_fields target_kind_def)
  then show ?thesis using info by (auto simp: describes_def)
qed

section \<open>What the check sees of them\<close>

lemma pointers_clone [simp]: "parsedTypeClone (primitive_pointer b qs) = primitive_pointer b qs"
  by (simp add: primitive_pointer_def)

lemma no_function_among_pointers [simp]: "List.find is_function (map DPointer qs) = None"
  by (induction qs) simp_all

lemma pointer_count [simp]: "parsedTypeCountDerivationsOfKind (primitive_pointer b qs) TYPE_DERIVATION_POINTER = length qs"
  by (induction qs) (simp_all add: parsedTypeCountDerivationsOfKind_def primitive_pointer_def)

lemma pointers_normal:
  "plain_primitive b \<Longrightarrow> normalizePointerDerivations (primitive_pointer b qs) = Some (primitive_pointer b qs)"
  by (simp add: normalizePointerDerivations_def append_missing_pointers.simps [of "length qs"] parsedTypeNormalizeFunctionPointer_def
      plain_primitive_def Let_def) (simp add: primitive_pointer_def)

lemma pointers_compared:
  "plain_primitive b \<Longrightarrow> plain_primitive c \<Longrightarrow>
    normalized_equal f (primitive_pointer b qs) (primitive_pointer c rs) =
      Some (parsedTypesStructurallyEqual (f (primitive_pointer b qs)) (f (primitive_pointer c rs)))"
  by (simp add: normalized_equal_def pointers_normal)

lemma equal_base: "parsedTypesStructurallyEqual s t \<Longrightarrow> same_base (pt_base s) (pt_base t)"
  by (subst (asm) parsedTypesStructurallyEqual.simps) simp

lemma same_base_kind: "same_base a b \<Longrightarrow> target_kind env a = target_kind env b"
  by (simp add: same_base_def target_kind_def primitive_info_def makeFloatTypeInfo_def Let_def)

lemma kind_ignores_rest [simp]:
  "target_kind env (b\<lparr>pt_pointerDepth := k\<rparr>) = target_kind env b"
  "target_kind env (b\<lparr>pt_isConst := c, pt_isVolatile := v, pt_isRestrict := r\<rparr>) = target_kind env b"
  by (simp_all add: target_kind_def primitive_info_def Let_def)

lemma equal_pointers_kind:
  "parsedTypesStructurallyEqual (primitive_pointer b qs) (primitive_pointer c rs) \<Longrightarrow> target_kind env b = target_kind env c"
  "parsedTypesStructurallyEqual (clearParsedTypeQualifiers (primitive_pointer b qs))
     (clearParsedTypeQualifiers (primitive_pointer c rs)) \<Longrightarrow> target_kind env b = target_kind env c"
  by (drule equal_base, drule same_base_kind [where env = env], simp add: primitive_pointer_def clearParsedTypeQualifiers_def)+

lemma pointer_target_base:
  assumes "qs \<noteq> []"
  shows "pt_derivations (parsedTypePointerTargetType (primitive_pointer b qs)) = map DPointer (tl qs)"
    "pt_kind (pt_base (parsedTypePointerTargetType (primitive_pointer b qs))) = pt_kind b"
    "pt_primitiveType (pt_base (parsedTypePointerTargetType (primitive_pointer b qs))) = pt_primitiveType b"
proof -
  obtain q rs where "qs = q # rs" using assms by (cases qs) auto
  then show "pt_derivations (parsedTypePointerTargetType (primitive_pointer b qs)) = map DPointer (tl qs)"
    "pt_kind (pt_base (parsedTypePointerTargetType (primitive_pointer b qs))) = pt_kind b"
    "pt_primitiveType (pt_base (parsedTypePointerTargetType (primitive_pointer b qs))) = pt_primitiveType b"
    unfolding parsedTypePointerTargetType_def pointers_clone
    by (simp_all add: primitive_pointer_def parsedTypeRefreshFunctionFlags_def lower_depth_def findFirstFunctionDerivation_def Let_def)
qed

lemma target_kind_void: "target_kind env b = TOKEN_VOID \<longleftrightarrow> pt_primitiveType b = TOKEN_VOID"
  by (auto simp: target_kind_def primitive_info_def makeBoolType_def makeIntegerType_def makeFloatTypeInfo_def makeInvalidType_def
      makeBaseInvalid_def Let_def split: FloatKind.split)

lemma pointed_quals_parts:
  "pointed_quals b qs \<noteq> []" "qs \<noteq> [] \<Longrightarrow> length (pointed_quals b qs) = length qs"
  by (simp_all add: pointed_quals_def Suc_leI)

lemma described_pointer:
  assumes "plain_primitive b" "qs \<noteq> []" "describes env b qs info"
  shows "typeInfoIsPointerLike info" "\<not> is_bool_target info" "\<not> typeInfoIsFunctionPointer info"
    "typeInfoIsVoidPointer info \<longleftrightarrow> length qs = 1 \<and> pt_primitiveType b = TOKEN_VOID"
    "first_level info = hd (pointed_quals b qs)"
proof -
  note d = assms(3) [unfolded describes_def]
  show "typeInfoIsPointerLike info" "\<not> is_bool_target info" using d by (simp_all add: typeInfoIsPointerLike_def is_bool_target_def)
  show "\<not> typeInfoIsFunctionPointer info"
    using d assms(1,2) by (simp add: typeInfoIsFunctionPointer_def findFunctionDerivation_def pointer_target_base)
      (simp add: primitive_pointer_def plain_primitive_def)
  show "typeInfoIsVoidPointer info \<longleftrightarrow> length qs = 1 \<and> pt_primitiveType b = TOKEN_VOID"
    using d assms(1,2) by (auto simp: typeInfoIsVoidPointer_def pointer_target_base target_kind_void plain_primitive_def Let_def)
  show "first_level info = hd (pointed_quals b qs)"
    using d assms(2) pointed_quals_parts(1) [of b qs] by (cases "pointed_quals b qs") (simp_all add: first_level_def)
qed

lemma some_pair_lost:
  assumes "length xs = length ys"
  shows "list_ex (\<lambda>(s, d). qualifier_lost s d) (zip xs ys) \<longleftrightarrow> (\<exists>i < length xs. qualifier_lost (xs ! i) (ys ! i))"
  using assms by (auto simp: list_ex_iff set_zip)

lemma levels_lose_iff:
  assumes "qs \<noteq> []" "length qs = length rs" "length qs \<le> 32" "describes env b qs d" "describes env c rs s"
  shows "levels_lose_qualifier d s \<longleftrightarrow>
    list_ex (\<lambda>(s, d). qualifier_lost s d) (zip (pointed_quals c rs) (pointed_quals b qs))"
proof -
  have rs: "rs \<noteq> []" using assms(1,2) by auto
  note lens = pointed_quals_parts(2) [OF assms(1), of b] pointed_quals_parts(2) [OF rs, of c]
  have levels: "pointerLevels d ! i = pointed_quals b qs ! i \<and> pointerLevels s ! i = pointed_quals c rs ! i" if "i < length qs" for i
    using assms(2,4,5) that lens by (simp add: describes_def nth_append)
  have "pointerDepth d = length qs" using assms(4) by (simp add: describes_def)
  then have "levels_lose_qualifier d s \<longleftrightarrow> (\<exists>i < length qs. qualifier_lost (pointerLevels s ! i) (pointerLevels d ! i))"
    using assms(3) by (auto simp: levels_lose_qualifier_def TYPEINFO_MAX_POINTER_DEPTH_def list_ex_iff)
  also have "\<dots> \<longleftrightarrow> (\<exists>i < length qs. qualifier_lost (pointed_quals c rs ! i) (pointed_quals b qs ! i))" using levels by auto
  finally show ?thesis using assms(2) lens by (simp add: some_pair_lost)
qed

lemma pointer_quals_map [simp]: "pointer_quals (map DPointer qs) = qs"
  by (induction qs) simp_all

text \<open>The pointers compared by derivation are among the levels compared behind them.\<close>

lemma loss_by_derivation:
  assumes "functionPointerQualifierLoss (Some (primitive_pointer b qs)) (Some (primitive_pointer c rs))" "length qs = length rs"
  shows "list_ex (\<lambda>(s, d). qualifier_lost s d) (zip (pointed_quals c rs) (pointed_quals b qs))"
proof -
  obtain d s where "(d, s) \<in> set (tl (zip (take 32 qs) (take 32 rs)))" "qualifier_lost s d"
    using assms(1) by (auto simp: functionPointerQualifierLoss_def collectPointerDerivations_def TYPEINFO_MAX_POINTER_DEPTH_def
        primitive_pointer_def list_ex_iff split: if_splits)
  moreover have "set (tl (zip (take 32 qs) (take 32 rs))) \<subseteq> set (zip (tl qs) (tl rs))"
    by (cases qs; cases rs) (auto simp: take_Cons' take_zip [symmetric] dest: in_set_takeD)
  ultimately have "(d, s) \<in> set (zip (tl qs) (tl rs))" by blast
  then have "(s, d) \<in> set (zip (tl rs) (tl qs))" by (auto simp: set_zip)
  then have "(s, d) \<in> set (zip (pointed_quals c rs) (pointed_quals b qs))" using assms(2) by (simp add: pointed_quals_def)
  then show ?thesis using \<open>qualifier_lost s d\<close> by (auto simp: list_ex_iff)
qed

section \<open>The verdict\<close>

text \<open>The qualifiers of the target cover those of the source.\<close>

definition covers :: "PointerQualifier \<Rightarrow> PointerQualifier \<Rightarrow> bool" where
  "covers d s \<longleftrightarrow>
    (pq_isConst s \<longrightarrow> pq_isConst d) \<and> (pq_isVolatile s \<longrightarrow> pq_isVolatile d) \<and> (pq_isRestrict s \<longrightarrow> pq_isRestrict d)"

lemma covers_iff: "covers d s \<longleftrightarrow> \<not> qualifier_lost s d"
  by (auto simp: covers_def qualifier_lost_def)

text \<open>
  What the check decides. A pointer to \<open>void\<close> on either side asks only for the qualifiers of what is pointed to. Otherwise
  the depths must agree, no level may lose a qualifier, and the primitive types must be of one kind.
\<close>

definition pointer_verdict :: "CompatEnv \<Rightarrow> PTBase \<Rightarrow> PointerQualifier list \<Rightarrow> PTBase \<Rightarrow> PointerQualifier list \<Rightarrow> AssignmentCheckResult" where
  "pointer_verdict env b qs c rs =
    (if (pt_primitiveType b = TOKEN_VOID \<and> length qs = 1) \<or> (pt_primitiveType c = TOKEN_VOID \<and> length rs = 1)
     then (if \<not> covers (hd (pointed_quals b qs)) (hd (pointed_quals c rs)) then ASSIGN_QUALIFIER_LOSS else ASSIGN_OK)
     else if length qs \<noteq> length rs then ASSIGN_INCOMPATIBLE
     else if list_ex (\<lambda>(s, d). \<not> covers d s) (zip (pointed_quals c rs) (pointed_quals b qs)) then ASSIGN_QUALIFIER_LOSS
     else if target_kind env b = target_kind env c then ASSIGN_OK
     else ASSIGN_INCOMPATIBLE)"

lemma pointer_verdict_unfold:
  "pointer_verdict env b qs c rs =
    (if (pt_primitiveType b = TOKEN_VOID \<and> length qs = 1) \<or> (pt_primitiveType c = TOKEN_VOID \<and> length rs = 1)
     then (if qualifier_lost (hd (pointed_quals c rs)) (hd (pointed_quals b qs)) then ASSIGN_QUALIFIER_LOSS else ASSIGN_OK)
     else if length qs \<noteq> length rs then ASSIGN_INCOMPATIBLE
     else if list_ex (\<lambda>(s, d). qualifier_lost s d) (zip (pointed_quals c rs) (pointed_quals b qs)) then ASSIGN_QUALIFIER_LOSS
     else if target_kind env b = target_kind env c then ASSIGN_OK
     else ASSIGN_INCOMPATIBLE)"
  by (simp add: pointer_verdict_def covers_iff)

lemma described_equal:
  assumes "plain_primitive b" "plain_primitive c" "describes env b qs d" "describes env c rs s" "length qs = length rs" "qs \<noteq> []"
  shows "typesAreEqual d s = Some (target_kind env b = target_kind env c)"
proof -
  have rs: "rs \<noteq> []" using assms(5,6) by auto
  have pointerish: "parsedTypeIsPointerish (primitive_pointer b qs)" "parsedTypeIsPointerish (primitive_pointer c rs)"
    using assms(6) rs by (simp_all add: parsedTypeIsPointerish_def primitive_pointer_def)
  have names: "canonicalUserTypeName d = None" "canonicalUserTypeName s = None"
    using assms(1-4) by (simp_all add: canonicalUserTypeName_def describes_def nonempty_def primitive_pointer_def plain_primitive_def)
  show ?thesis
    using assms described_pointer(1) [OF assms(1,6,3)] described_pointer(1) [OF assms(2) rs assms(4)] pointerish names
      equal_pointers_kind(1) [of b qs c rs env]
    by (auto simp: typesAreEqual_def pointers_equal_def describes_def pointers_compared pointerTargetsEqual_def)
qed

lemma targets_decided:
  assumes "plain_primitive b" "plain_primitive c" "describes env b qs d" "describes env c rs s" "length qs = length rs" "qs \<noteq> []"
  shows "assign_pointer_targets n env d s = Some (if target_kind env b = target_kind env c then ASSIGN_OK else ASSIGN_INCOMPATIBLE)"
proof -
  have rs: "rs \<noteq> []" using assms(5,6) by auto
  have no_enum: "\<not> enumPointerTargetsShareDefinitionInScope d s (cp_scope env)"
  proof -
    let ?t = "parsedTypePointerTargetType (primitive_pointer b qs)"
    have "pt_kind (pt_base ?t) = TYPE_PRIMITIVE" using assms(1,6) by (simp add: pointer_target_base plain_primitive_def)
    then have "fst (parsedTypeResolvePlainNamedTypedefInScope ?t (cp_scope env)) = ?t"
      by (simp add: parsedTypeResolvePlainNamedTypedefInScope_def plain_named_def numeral_eq_Suc)
    then show ?thesis
      using assms(3,4) \<open>pt_kind (pt_base ?t) = TYPE_PRIMITIVE\<close>
      by (simp add: enumPointerTargetsShareDefinitionInScope_def describes_def Let_def)
  qed
  have "parsedTypesEqualIgnoringQualifiers (originalType d) (originalType s) =
      Some (parsedTypesStructurallyEqual (clearParsedTypeQualifiers (primitive_pointer b qs))
        (clearParsedTypeQualifiers (primitive_pointer c rs)))"
    using assms(1-4) by (simp add: parsedTypesEqualIgnoringQualifiers_def describes_def pointers_compared)
  then show ?thesis
    using described_equal [OF assms] equal_pointers_kind(2) [of b qs c rs env] no_enum
      described_pointer(3) [OF assms(1,6,3)] assms(3)
    by (auto simp: assign_pointer_targets_def describes_def)
qed

lemma assignment_decided:
  assumes "plain_primitive b" "plain_primitive c" "describes env b qs d" "describes env c rs s" "qs \<noteq> []" "rs \<noteq> []" "length qs \<le> 32"
  shows "canAssignTypesInScope n env d s = Some (pointer_verdict env b qs c rs)"
proof -
  note dest = described_pointer [OF assms(1,5,3)] and src = described_pointer [OF assms(2,6,4)]
  have depths: "pointerDepth d = length qs" "pointerDepth s = length rs"
    "originalType d = Some (primitive_pointer b qs)" "originalType s = Some (primitive_pointer c rs)"
    using assms(3,4) by (simp_all add: describes_def)
  have "assign_pointers n env d s = Some (pointer_verdict env b qs c rs)"
  proof (cases "(pt_primitiveType b = TOKEN_VOID \<and> length qs = 1) \<or> (pt_primitiveType c = TOKEN_VOID \<and> length rs = 1)")
    case True
    then show ?thesis using dest(3-5) src(3-5) by (auto simp: assign_pointers_def pointer_verdict_unfold)
  next
    case False
    then have no_void: "\<not> typeInfoIsVoidPointer d" "\<not> typeInfoIsVoidPointer s" using dest(4) src(4) by auto
    show ?thesis
    proof (cases "length qs = length rs")
      case True
      then show ?thesis
        using False no_void depths levels_lose_iff [OF assms(5) True assms(7,3,4)] loss_by_derivation [of b qs c rs]
          targets_decided [OF assms(1-4) True assms(5), of n]
        by (auto simp: assign_pointers_def pointer_verdict_unfold)
    qed (use False no_void depths in \<open>auto simp: assign_pointers_def pointer_verdict_unfold\<close>)
  qed
  then show ?thesis using dest(1,2) src(1) by (simp add: canAssignTypesInScope_def)
qed

lemma verdict_reached:
  assumes "plain_primitive b" "qs \<noteq> []" "length qs \<le> 32" and "plain_primitive c" "rs \<noteq> []" "length rs \<le> 32"
    and "0 < cp_depth env"
  shows "\<exists>d s. info_of env (primitive_pointer b qs) = Some d \<and> info_of env (primitive_pointer c rs) = Some s \<and>
    canAssignTypesInScope n env d s = Some (pointer_verdict env b qs c rs)"
  using pointer_described [OF assms(1-3,7)] pointer_described [OF assms(4-7)] assignment_decided [OF assms(1,4) _ _ assms(2,5,3)]
  by blast

text \<open>
  C40. For two chains of up to 32 pointers to primitive types, of any qualifiers on any level, the expression types are
  computed, the check of the assignment returns, and its result is the verdict above: compatible exactly when the
  qualifiers of the target cover those of the source and one side points to \<open>void\<close> or both chains have one length and end in primitive types of one kind,
  and otherwise the kind of fault.\<close>
theorem pointer_assignment_decided:
  assumes "plain_primitive b" "qs \<noteq> []" "length qs \<le> 32" and "plain_primitive c" "rs \<noteq> []" "length rs \<le> 32"
    and "0 < cp_depth env"
  shows "\<exists>d s. info_of env (primitive_pointer b qs) = Some d \<and> info_of env (primitive_pointer c rs) = Some s \<and>
    canAssignTypesInScope n env d s = Some (pointer_verdict env b qs c rs)"
  by (rule verdict_reached [OF assms])

text \<open>The types of two primitive specifiers are the same in C.\<close>

definition same_primitive :: "PTBase \<Rightarrow> PTBase \<Rightarrow> bool" where
  "same_primitive b c \<longleftrightarrow>
    pt_primitiveType b = pt_primitiveType c \<and> pt_isUnsigned b = pt_isUnsigned c \<and> pt_isShort b = pt_isShort c \<and>
    pt_isLong b = pt_isLong c \<and> pt_isComplex b = pt_isComplex c \<and> pt_isImaginary b = pt_isImaginary c"

text \<open>
  The constraint of C11 6.5.16.1 for pointers to objects: the type pointed to by the left has all the qualifiers of the
  type pointed to by the right, and either one of them is \<open>void\<close> or, qualifiers of that level aside, they are the same.
\<close>

definition c_assignable :: "PTBase \<Rightarrow> PointerQualifier list \<Rightarrow> PTBase \<Rightarrow> PointerQualifier list \<Rightarrow> bool" where
  "c_assignable b qs c rs \<longleftrightarrow>
    covers (hd (pointed_quals b qs)) (hd (pointed_quals c rs)) \<and>
    ((pt_primitiveType b = TOKEN_VOID \<and> length qs = 1) \<or> (pt_primitiveType c = TOKEN_VOID \<and> length rs = 1) \<or>
     (length qs = length rs \<and> tl (pointed_quals b qs) = tl (pointed_quals c rs) \<and> same_primitive b c))"

lemma same_quals_lose_nothing: "\<not> list_ex (\<lambda>(s, d). qualifier_lost s d) (zip xs xs)"
  by (auto simp: list_ex_iff set_zip qualifier_lost_def)

lemma c_assignable_verdict:
  assumes "c_assignable b qs c rs"
  shows "pointer_verdict env b qs c rs = ASSIGN_OK"
proof (cases "(pt_primitiveType b = TOKEN_VOID \<and> length qs = 1) \<or> (pt_primitiveType c = TOKEN_VOID \<and> length rs = 1)")
  case True
  then show ?thesis using assms by (auto simp: pointer_verdict_unfold c_assignable_def covers_iff)
next
  case False
  then have same: "length qs = length rs" "tl (pointed_quals b qs) = tl (pointed_quals c rs)" "same_primitive b c"
    and first: "\<not> qualifier_lost (hd (pointed_quals c rs)) (hd (pointed_quals b qs))"
    using assms by (auto simp: c_assignable_def covers_iff)
  obtain x y xs where "pointed_quals c rs = x # xs" "pointed_quals b qs = y # xs"
    using same(2) pointed_quals_parts(1) [of b qs] pointed_quals_parts(1) [of c rs]
    by (cases "pointed_quals b qs"; cases "pointed_quals c rs") auto
  moreover have "target_kind env b = target_kind env c"
    using same(3) by (simp add: same_primitive_def target_kind_def primitive_info_def makeFloatTypeInfo_def Let_def)
  ultimately show ?thesis using False same(1) first same_quals_lose_nothing by (simp add: pointer_verdict_unfold)
qed

text \<open>
  C39. Every assignment between chains of at most 32 pointers to primitive types that satisfies the constraint of C is accepted.\<close>
theorem c_pointer_assignment_accepted:
  assumes "plain_primitive b" "qs \<noteq> []" "length qs \<le> 32" and "plain_primitive c" "rs \<noteq> []" "length rs \<le> 32"
    and "0 < cp_depth env" and "c_assignable b qs c rs"
  shows "\<exists>d s. info_of env (primitive_pointer b qs) = Some d \<and> info_of env (primitive_pointer c rs) = Some s \<and>
    canAssignTypesInScope n env d s = Some ASSIGN_OK"
  using verdict_reached [OF assms(1-7)] c_assignable_verdict [OF assms(8)] by simp

section \<open>Examples and faults\<close>

definition char_base :: PTBase where
  "char_base = zero_base\<lparr>pt_kind := TYPE_PRIMITIVE, pt_primitiveType := TOKEN_CHAR\<rparr>"

abbreviation const_qual :: PointerQualifier where
  "const_qual \<equiv> makePointerQual True False False"

definition c_host :: HostMacros where
  "c_host = \<lparr>def_win64 = False, def_aarch64 = False, def_apple = False, def_x86_64 = True, def_riscv64 = False\<rparr>"

definition c_env :: CompatEnv where
  "c_env = \<lparr>cp_host = c_host, cp_ctx = None, cp_scope = [], cp_depth = 1\<rparr>"

lemma example_bases [simp]:
  "plain_primitive char_base" "plain_primitive (char_base\<lparr>pt_isConst := True\<rparr>)" "plain_primitive (char_base\<lparr>pt_isUnsigned := True\<rparr>)"
  "0 < cp_depth c_env"
  by (simp_all add: char_base_def plain_primitive_def zero_base_def c_env_def)

lemmas verdict_steps = pointer_verdict_unfold pointed_quals_def qualifier_lost_def makePointerQual_def char_base_def zero_base_def
  target_kind_def primitive_info_def makeIntegerType_def makeBaseInvalid_def Let_def

text \<open>A \<open>const char *\<close> assigned to a \<open>char *\<close>, and a \<open>char *\<close> to a \<open>const char *\<close>.\<close>

theorem pointer_assignment_decided_witness:
  "\<exists>d s. info_of c_env (primitive_pointer char_base [no_qual]) = Some d \<and>
     info_of c_env (primitive_pointer (char_base\<lparr>pt_isConst := True\<rparr>) [no_qual]) = Some s \<and>
     canAssignTypesInScope 0 c_env d s = Some ASSIGN_QUALIFIER_LOSS"
proof -
  have "pointer_verdict c_env char_base [no_qual] (char_base\<lparr>pt_isConst := True\<rparr>) [no_qual] = ASSIGN_QUALIFIER_LOSS"
    by (simp add: verdict_steps)
  then show ?thesis
    using pointer_assignment_decided [of char_base "[no_qual]" "char_base\<lparr>pt_isConst := True\<rparr>" "[no_qual]" c_env 0] by simp
qed

theorem c_pointer_assignment_accepted_witness:
  "\<exists>d s. info_of c_env (primitive_pointer (char_base\<lparr>pt_isConst := True\<rparr>) [no_qual]) = Some d \<and>
     info_of c_env (primitive_pointer char_base [no_qual]) = Some s \<and> canAssignTypesInScope 0 c_env d s = Some ASSIGN_OK"
proof -
  have "c_assignable (char_base\<lparr>pt_isConst := True\<rparr>) [no_qual] char_base [no_qual]"
    by (simp add: c_assignable_def same_primitive_def pointed_quals_def covers_def makePointerQual_def char_base_def zero_base_def)
  then show ?thesis
    using c_pointer_assignment_accepted [of "char_base\<lparr>pt_isConst := True\<rparr>" "[no_qual]" char_base "[no_qual]" c_env 0] by simp
qed

text \<open>
  A \<open>char *\<close> assigned to an \<open>unsigned char *\<close> violates the constraint of C; the comparison of pointer targets does not look at
  the sign, and the assignment is accepted.\<close>
theorem sign_of_pointer_target_ignored:
  "\<not> c_assignable (char_base\<lparr>pt_isUnsigned := True\<rparr>) [no_qual] char_base [no_qual] \<and>
   (\<exists>d s. info_of c_env (primitive_pointer (char_base\<lparr>pt_isUnsigned := True\<rparr>) [no_qual]) = Some d \<and>
     info_of c_env (primitive_pointer char_base [no_qual]) = Some s \<and> canAssignTypesInScope 0 c_env d s = Some ASSIGN_OK)"
proof
  show "\<not> c_assignable (char_base\<lparr>pt_isUnsigned := True\<rparr>) [no_qual] char_base [no_qual]"
    by (simp add: c_assignable_def same_primitive_def char_base_def zero_base_def)
  have "pointer_verdict c_env (char_base\<lparr>pt_isUnsigned := True\<rparr>) [no_qual] char_base [no_qual] = ASSIGN_OK"
    by (simp add: verdict_steps)
  then show "\<exists>d s. info_of c_env (primitive_pointer (char_base\<lparr>pt_isUnsigned := True\<rparr>) [no_qual]) = Some d \<and>
     info_of c_env (primitive_pointer char_base [no_qual]) = Some s \<and> canAssignTypesInScope 0 c_env d s = Some ASSIGN_OK"
    using verdict_reached [of "char_base\<lparr>pt_isUnsigned := True\<rparr>" "[no_qual]" char_base "[no_qual]" c_env 0] by simp
qed

text \<open>
  A \<open>char **\<close> assigned to a \<open>const char **\<close> violates the constraint of C, since the inner pointers point to differently
  qualified types; every level is only tested for qualifiers that are lost, and the assignment is accepted.\<close>
theorem added_inner_qualifier_accepted:
  "\<not> c_assignable (char_base\<lparr>pt_isConst := True\<rparr>) [no_qual, no_qual] char_base [no_qual, no_qual] \<and>
   (\<exists>d s. info_of c_env (primitive_pointer (char_base\<lparr>pt_isConst := True\<rparr>) [no_qual, no_qual]) = Some d \<and>
     info_of c_env (primitive_pointer char_base [no_qual, no_qual]) = Some s \<and>
     canAssignTypesInScope 0 c_env d s = Some ASSIGN_OK)"
proof
  show "\<not> c_assignable (char_base\<lparr>pt_isConst := True\<rparr>) [no_qual, no_qual] char_base [no_qual, no_qual]"
    by (simp add: c_assignable_def pointed_quals_def makePointerQual_def char_base_def zero_base_def)
  have "pointer_verdict c_env (char_base\<lparr>pt_isConst := True\<rparr>) [no_qual, no_qual] char_base [no_qual, no_qual] = ASSIGN_OK"
    by (simp add: verdict_steps)
  then show "\<exists>d s. info_of c_env (primitive_pointer (char_base\<lparr>pt_isConst := True\<rparr>) [no_qual, no_qual]) = Some d \<and>
     info_of c_env (primitive_pointer char_base [no_qual, no_qual]) = Some s \<and>
     canAssignTypesInScope 0 c_env d s = Some ASSIGN_OK"
    using verdict_reached [of "char_base\<lparr>pt_isConst := True\<rparr>" "[no_qual, no_qual]" char_base "[no_qual, no_qual]" c_env 0] by simp
qed

end
