(* ===== verification/Spec2Isabelle.thy ===== *)
theory Spec2Isabelle
  imports Memcheck_Props Units_Parser_Props Units_Conversion_Props Macro_Table_Props PP_Expr_C_Values
    PP_Conditionals_Props Include_Graph_Props Symbol_Table Type_Info Literal_Props Parsed_Type_Props
    Layout_Props Control_Flow_Props Lexer_Roundtrip Const_Eval_Props Macro_Expander_Objects Units_Scaling
    Goto_Scopes_Props Type_Compat_Props
begin

text \<open>
  A verification of parts of fisiCs, a C compiler with a units-of-measure extension (sources under
  \<open>src/src\<close>) and the memory-check runtime it links into checked programs
  (\<open>src/runtime/memory_check\<close>). The compiler runs a preprocessor over a token buffer, a parser that builds
  AST nodes and parsed types, a semantic analysis that resolves scopes, types, literals and layouts, the
  units analysis over annotated expressions, and an LLVM back end. The development models the components
  that compute rather than drive: each has a theory of definitions translated from its C functions, under
  their C names, and theorems about them there or in a theory ending in \<open>_Props\<close>.

  \<^bold>\<open>Conventions.\<close> \<open>size_t\<close>, \<open>uintptr_t\<close> and \<open>uint64_t\<close> are 64-bit words and wrap; \<open>int\<close> values are integers with
  explicit ranges where C would overflow; \<open>double\<close> is the binary64 model of theory \<open>Double\<close>. A pointer to
  a string is \<open>string option\<close>; arrays with a count are lists, their capacities left out; AST nodes are
  addresses or the values read from them. Failure of \<open>malloc\<close> is modelled in the memory-check runtime, where
  it is the point, and left out elsewhere. Diagnostics, traces and profiler counters are left out. Where a
  function calls code that is not modelled, that code is an argument: the allocator of the C library
  (memory check), the scanner (the token buffer takes any; it is used with \<open>getNextToken\<close> below), the expansion of condition tokens (conditionals), the constant
  evaluator (layout), the sizes and expression types the constant evaluator asks for, the macros the host compiler predefines (targets).

  \<^bold>\<open>Memory-check runtime\<close> (\<open>fisics_memcheck_runtime.c\<close>; \<open>Memcheck\<close>, \<open>Memcheck_Table\<close>, \<open>Memcheck_Ledger\<close>,
  \<open>Memcheck_Safety\<close>, \<open>Memcheck_Props\<close>). The open-addressing table of allocations, the counters, the wrappers
  of \<open>malloc\<close>, \<open>calloc\<close>, \<open>realloc\<close> and \<open>free\<close> and the report, as transitions of one state. Shown: a slot search
  finds an address exactly when it is tracked, the counters are the sums of what the table holds, the
  runtime refines a ledger of live blocks, frees only live blocks, detects double frees, lists every leak,
  and prints JSON strings that read back. Probing is bounded by the capacity, which the load factor keeps
  above the count, so the searches end.

  \<^bold>\<open>Units of measure\<close> (\<open>Extensions/Units\<close>; \<open>Units_Dim\<close>, \<open>Units_Registry\<close>, \<open>Units_Parser\<close>, \<open>Units_Conversion\<close>
  and their \<open>_Props\<close>). Dimension vectors with bounded exponents, the compiled-in registry with its
  validator, the parser of dimension expressions, explicit conversions and the inference for calls such as
  \<open>sqrt\<close>, and the side table of expression dimensions. Shown: printing and parsing are inverse, results stay in
  range, multiplication and division cancel, buffers suffice, the validator decides its contract,
  conversions are accurate to stated bounds. \<open>Units_Annotations\<close> has the annotations of declarations and the
  bindings and call contracts built from them, \<open>Units_Expr\<close> the walk over expressions and statements
  (\<open>units_expr_semantics.c\<close> and the files it is split into) that records a dimension and a unit for each
  expression and reports mismatches; the recursion bounds of the code (16 and 64) are counted down as the code
  does. Shown in \<open>Units_Expr_Props\<close> and \<open>Units_Scaling\<close>: every unit the walk records has the dimension recorded beside
  it, and an expression that passes without a report scales, under any change of the base units, as its
  recorded dimension says.

  \<^bold>\<open>Lexer\<close> (\<open>Lexer/lexer.c\<close>, \<open>lexer_token_handlers.c\<close>, \<open>keyword_lookup.c\<close>, \<open>token_buffer.c\<close>; \<open>Lexer_Source\<close>,
  \<open>Lexer_Tokens\<close>, \<open>Tokens\<close>, \<open>Lexer_Props\<close>, \<open>Lexer_Translation_Props\<close>, \<open>Lexer_Roundtrip\<close>). The state record \<open>Lexer\<close>, the
  translation of the source with its maps back to the raw text, the handlers of every kind of token, and
  \<open>getNextToken\<close>, whose calls of itself behind comments end because the position grows. Shown: every call advances
  and filling a token buffer reaches the end of file within the safety limit; a token is unknown exactly when an
  error is reported; the maps give the raw location of each character; UTF-8 is read back as written; printed
  tokens are scanned back.

  \<^bold>\<open>Preprocessor\<close> (\<open>Lexer/token_buffer.c\<close>, \<open>Preprocessor/macro_table.c\<close>, \<open>pp_expr.c\<close>,
  \<open>preprocessor_conditionals.c\<close>, \<open>include_graph.c\<close>, \<open>macro_expander.c\<close>, \<open>macro_expander_support.c\<close>; \<open>Tokens\<close>,
  \<open>Macro_Table\<close>, \<open>PP_Expr\<close>, \<open>PP_Conditionals\<close>, \<open>Include_Graph\<close>, \<open>Macro_Expander\<close> and their \<open>_Props\<close>, \<open>PP_Expr_Grammar\<close>,
  \<open>Macro_Expander_Objects\<close>). The expander reads arguments, substitutes, stringifies, pastes by scanning the joined
  spelling again, and calls itself on the result; the fuel bounds the nesting of these calls, and for every table
  and input enough fuel exists. Shown: expansion ends, object-like macros are replaced as the rules of C say, arguments
  are read back as written, the macro table refines a map and never lets
  a macro expand inside itself, the evaluator of \<open>#if\<close> expressions terminates on every input and computes the
  value of the C grammar on well-formed ones, exactly one branch of a conditional group is taken, the
  include graph records each edge once and its JSON reads back.

  \<^bold>\<open>Parsed types\<close> (\<open>Parser/Helpers/parsed_type_ops.c\<close>; \<open>Parsed_Type\<close>, \<open>Parsed_Type_Props\<close>). Shown: structural
  equality is an equivalence on clones, array parameters decay to pointers to their element.

  \<^bold>\<open>Semantics\<close> (\<open>Syntax\<close> and \<open>Compiler/compiler_context.c\<close>). \<open>Symbol_Table\<close>: symbol tables and scopes refine
  environments. \<open>Target_Layout\<close>: every target satisfies C's constraints. \<open>Type_Info\<close>: the usual arithmetic
  conversions give the common type of C for integers. \<open>Strtoull\<close>, \<open>Literal_Utils\<close>, \<open>Literal_Props\<close>: literals get
  the type and value C gives them, and the two string decoders agree. \<open>Compiler_Context\<close>: the tag name spaces
  keep the first definition and cache layouts. \<open>Type_Resolution\<close>, \<open>Type_Resolution_Props\<close>: from parsed types to
  expression types through typedefs; the fuel counts typedefs entered, and one more than the rank of a
  type (the length of its longest chain of typedefs) is enough. \<open>Type_Compat\<close>, \<open>Type_Compat_Props\<close>: equality of expression types and the
  check of assignments; a loop that need not end is translated as it stands, and the fuel counts function pointers
  entered through function pointers (none in the theorems). Shown: what the check decides for pointers to primitive types,
  and that it accepts what C allows. \<open>Layout\<close>, \<open>Layout_Props\<close>: sizes, alignments,
  bit-fields, structs and unions; the fuel counts records entered. Shown: fields lie in order, disjoint and
  inside the size, and layouts are computed once. \<open>Control_Flow\<close>, \<open>Control_Flow_Props\<close>: which statements stop and
  which ends of functions are reached, against an inductive account of how statements end; a function for
  which no error is reported does not fall off its end. \<open>Goto_Scopes\<close>, \<open>Goto_Scopes_Props\<close>: the tables of
  blocks, labels and jumps of a function and the check of the jumps against the scopes of variably modified
  declarations; the climb over enclosing blocks may not return on arbitrary tables and is shown to return on those the
  walk builds. Shown: the verdicts against a walk that carries the declarations in scope. \<open>Const_Eval\<close>, \<open>Const_Eval_Props\<close>: constant expressions; the
  fuel counts enumerators entered. Shown: where C defines the value of an expression, the evaluator gives its type
  and value, on the expressions it treats as C does.

  \<^bold>\<open>Interfaces.\<close> Contracts between components are locales, interpreted on the model: \<open>insertion_set\<close> (the edges
  of the include graph), \<open>first_binding\<close> (tables that keep the first binding of a name) and those of the
  memory-check table, the macro table and the registry. \<open>walk_predicate\<close> states once what a predicate on the units
  state needs to survive the walk over a program, and is interpreted for each predicate the properties use. \<open>Prelude\<close> has the machine types and shared lemmas.

  \<^bold>\<open>What the model shows of the code's faults.\<close> Theorems whose text says so exhibit behaviour that departs from
  C or from the code's own comments: a zero-size \<open>realloc\<close> that leads to a double free, a voltage dimension
  printed as another, condition values truncated to 32 bits, floating conversions chosen by width, hexadecimal
  literals and escapes, equality that ignores array sizes, a typedef that refers to itself, qualifiers lost on
  pointer typedefs, \<open>long\<close> of one width on every target, bit-fields of mixed unit sizes that overlap, conditional
  breaks that the control flow analysis overlooks, a string constant that is freed behind a malformed prefixed
  literal, a null directive that takes a word of the next line, digraphs replaced inside string literals,
  constant operands that are not promoted or not converted to a common type, macro names replaced again after the
  rules of C forbid it, empty macro arguments, operands of \<open>##\<close> and optional tokens treated unlike C, a quotient of two units of one dimension that loses its factor, a
  pointer in an inner scope that hides a mismatch of units, an uninitialised flag of the goto check, jumps into scopes it
  misses and a label it places wrongly, a normalisation of pointers that never returns when one is missing, pointer
  assignments that are accepted against the rules of C.

  \<^bold>\<open>Not modelled.\<close> The back end (\<open>CodeGen\<close>), a client of the LLVM API; the directive driver and
  the include cache; the parser; the analysis of declarations, expressions and statements; diagnostics, the build graph, the command line and all file I/O; token
  spans, exported symbols and include records of the context; the texts and the coverage report of the units
  analysis.
\<close>

end
